(* ===== verification/Prelude.thy ===== *)
theory Prelude
  imports Main "HOL-Library.AList" "HOL-Library.Multiset" "HOL-Library.Char_ord"
    "HOL-Library.List_Lexorder"
begin

text \<open>
  The vocabulary every other theory shares: the fragments of the JavaScript standard library the
  program uses (insertion-ordered \<open>Map\<close>, stable \<open>Array.prototype.toSorted\<close>, \<open>slice\<close>,
  \<open>indexOf\<close>, decimal printing of integers and \<open>Number(text)\<close>) as executable functions, and the
  generic lemmas about them. A JavaScript \<open>Map\<close> is an association list in insertion order with
  distinct keys: \<open>set\<close> on a present key keeps the position, on a new key appends, which is what
  \<open>AList.update\<close> does.

  JavaScript numbers are modelled as \<open>int\<close>: the program's numbers are epoch milliseconds,
  durations, counters, priorities and limits, all exact in a double below \<open>2 ^ 53\<close>. \<open>NaN\<close> is
  the value \<open>None\<close> of an \<open>int option\<close>.
\<close>

named_theorems map_simps "rewriting of Map reads after writes"
named_theorems sort_simps "multiset and set of a sorted array"

section \<open>Insertion-ordered maps\<close>

type_synonym ('k, 'v) jsmap = "('k \<times> 'v) list"

abbreviation mapGet :: "('k, 'v) jsmap \<Rightarrow> 'k \<Rightarrow> 'v option" where
  "mapGet m k \<equiv> map_of m k"

abbreviation mapHas :: "('k, 'v) jsmap \<Rightarrow> 'k \<Rightarrow> bool" where
  "mapHas m k \<equiv> map_of m k \<noteq> None"

abbreviation mapSet :: "'k \<Rightarrow> 'v \<Rightarrow> ('k, 'v) jsmap \<Rightarrow> ('k, 'v) jsmap" where
  "mapSet k v m \<equiv> AList.update k v m"

abbreviation mapDelete :: "'k \<Rightarrow> ('k, 'v) jsmap \<Rightarrow> ('k, 'v) jsmap" where
  "mapDelete k m \<equiv> AList.delete k m"

abbreviation mapKeys :: "('k, 'v) jsmap \<Rightarrow> 'k list" where
  "mapKeys m \<equiv> map fst m"

abbreviation mapValues :: "('k, 'v) jsmap \<Rightarrow> 'v list" where
  "mapValues m \<equiv> map snd m"

lemma mapGet_set [simp, map_simps]:
  "mapGet (mapSet k v m) k' = (if k' = k then Some v else mapGet m k')"
  by (simp add: update_conv')

lemma mapGet_delete [map_simps]:
  "mapGet (mapDelete k m) k' = (if k' = k then None else mapGet m k')"
  by (simp add: delete_conv')

lemma mapGet_deletes [map_simps]:
  "mapGet (filter (\<lambda>p. fst p \<notin> A) m) k = (if k \<in> A then None else mapGet m k)"
  by (induction m) auto

lemma mapGet_in: "mapGet m k = Some v \<Longrightarrow> (k, v) \<in> set m"
  by (rule map_of_SomeD)

lemma mapGet_iff: "distinct (mapKeys m) \<Longrightarrow> mapGet m k = Some v \<longleftrightarrow> (k, v) \<in> set m"
  by (rule map_of_eq_Some_iff)

lemma mapGet_None_iff: "mapGet m k = None \<longleftrightarrow> k \<notin> set (mapKeys m)"
  by (simp add: map_of_eq_None_iff)

lemma mapHas_key: "mapHas m k \<longleftrightarrow> k \<in> set (mapKeys m)"
  unfolding map_of_eq_None_iff by simp

lemma distinct_mapSet [simp, intro]: "distinct (mapKeys m) \<Longrightarrow> distinct (mapKeys (mapSet k v m))"
  by (rule distinct_update)

lemma distinct_mapDelete [simp, intro]: "distinct (mapKeys m) \<Longrightarrow> distinct (mapKeys (mapDelete k m))"
  by (simp add: distinct_delete)

lemma mapKeys_set_old [simp]: "mapHas m k \<Longrightarrow> mapKeys (mapSet k v m) = mapKeys m"
  unfolding mapHas_key update_keys by simp

lemma mapSet_new: "mapGet m k = None \<Longrightarrow> mapSet k v m = m @ [(k, v)]"
  by (induction m) (auto split: if_splits)

lemma mapValues_in: "distinct (mapKeys m) \<Longrightarrow> v \<in> set (mapValues m) \<longleftrightarrow> (\<exists>k. mapGet m k = Some v)"
  by (force simp: mapGet_iff)

text \<open>Replacing a present value changes the list of values at one position only.\<close>

lemma mapSet_split:
  assumes "distinct (mapKeys m)" and "mapGet m k = Some v"
  obtains l r where "m = l @ (k, v) # r" and "\<And>w. mapSet k w m = l @ (k, w) # r"
    and "k \<notin> set (mapKeys l)" and "k \<notin> set (mapKeys r)"
proof -
  from mapGet_in [OF assms(2)] obtain l r where m: "m = l @ (k, v) # r"
    by (auto simp: in_set_conv_decomp)
  with assms(1) have l: "k \<notin> set (mapKeys l)" and r: "k \<notin> set (mapKeys r)" by auto
  have "mapSet k w (l @ (k, v) # r) = l @ (k, w) # r" for w
    using l by (induction l) auto
  with that m l r show thesis by blast
qed

lemma mapDelete_filter: "mapDelete k m = filter (\<lambda>p. fst p \<noteq> k) m"
  by (induction m) auto

lemma mapDelete_split:
  assumes "k \<notin> set (mapKeys l)" and "k \<notin> set (mapKeys r)"
  shows "mapDelete k (l @ (k, v) # r) = l @ r"
proof -
  have "filter (\<lambda>p. fst p \<noteq> k) l = l" and "filter (\<lambda>p. fst p \<noteq> k) r = r"
    using assms by (auto intro!: filter_True)
  then show ?thesis by (simp add: mapDelete_filter)
qed

section \<open>Stable sorting by a comparator\<close>

text \<open>
  \<open>toSorted cmp\<close> models \<open>Array.prototype.toSorted\<close> with a comparator: the language requires a
  stable sort, and a comparator that orders its inputs consistently has one stable result, which
  insertion computes.
\<close>

fun insertBy :: "('a \<Rightarrow> 'a \<Rightarrow> int) \<Rightarrow> 'a \<Rightarrow> 'a list \<Rightarrow> 'a list" where
  "insertBy cmp x [] = [x]"
| "insertBy cmp x (y # ys) = (if cmp x y \<le> 0 then x # y # ys else y # insertBy cmp x ys)"

fun toSorted :: "('a \<Rightarrow> 'a \<Rightarrow> int) \<Rightarrow> 'a list \<Rightarrow> 'a list" where
  "toSorted cmp [] = []"
| "toSorted cmp (x # xs) = insertBy cmp x (toSorted cmp xs)"

lemma mset_insertBy [simp]: "mset (insertBy cmp x ys) = add_mset x (mset ys)"
  by (induction ys) auto

lemma mset_toSorted [simp, sort_simps]: "mset (toSorted cmp xs) = mset xs"
  by (induction xs) auto

lemma set_toSorted [simp, sort_simps]: "set (toSorted cmp xs) = set xs"
  by (metis mset_toSorted set_mset_mset)

lemma length_toSorted [simp, sort_simps]: "length (toSorted cmp xs) = length xs"
  by (metis mset_toSorted size_mset)

lemma distinct_toSorted [simp, sort_simps]: "distinct (toSorted cmp xs) = distinct xs"
  by (rule mset_eq_imp_distinct_iff) simp

definition consistent_cmp :: "('a \<Rightarrow> 'a \<Rightarrow> int) \<Rightarrow> 'a set \<Rightarrow> bool" where
  "consistent_cmp cmp A \<longleftrightarrow>
     (\<forall>x\<in>A. \<forall>y\<in>A. cmp x y \<le> 0 \<or> cmp y x \<le> 0)
   \<and> (\<forall>x\<in>A. \<forall>y\<in>A. \<forall>z\<in>A. cmp x y \<le> 0 \<longrightarrow> cmp y z \<le> 0 \<longrightarrow> cmp x z \<le> 0)"

lemma consistent_cmp_subset: "consistent_cmp cmp A \<Longrightarrow> B \<subseteq> A \<Longrightarrow> consistent_cmp cmp B"
  unfolding consistent_cmp_def by (meson subsetD)

lemma set_insertBy [simp]: "set (insertBy cmp x ys) = insert x (set ys)"
  by (induction ys) auto

lemma sorted_insertBy:
  "consistent_cmp cmp (insert x (set ys)) \<Longrightarrow> sorted_wrt (\<lambda>a b. cmp a b \<le> 0) ys
    \<Longrightarrow> sorted_wrt (\<lambda>a b. cmp a b \<le> 0) (insertBy cmp x ys)"
proof (induction ys)
  case Nil
  then show ?case by simp
next
  case (Cons y ys)
  from Cons.prems(1) have cons: "consistent_cmp cmp (insert x (set ys))"
    by (rule consistent_cmp_subset) auto
  show ?case
  proof (cases "cmp x y \<le> 0")
    case True
    moreover have "cmp x z \<le> 0" if "z \<in> set ys" for z
    proof -
      from Cons.prems(2) that have "cmp y z \<le> 0" by simp
      with True Cons.prems(1) that show ?thesis
        unfolding consistent_cmp_def by (meson insertCI list.set_intros)
    qed
    ultimately show ?thesis using Cons.prems(2) by simp
  next
    case False
    with Cons.prems(1) have "cmp y x \<le> 0" by (auto simp: consistent_cmp_def)
    moreover have "sorted_wrt (\<lambda>a b. cmp a b \<le> 0) (insertBy cmp x ys)"
      using Cons.IH [OF cons] Cons.prems(2) by simp
    ultimately show ?thesis using False Cons.prems(2) by simp
  qed
qed

lemma sorted_toSorted:
  "consistent_cmp cmp (set xs) \<Longrightarrow> sorted_wrt (\<lambda>a b. cmp a b \<le> 0) (toSorted cmp xs)"
proof (induction xs)
  case Nil
  then show ?case by simp
next
  case (Cons x xs)
  have "consistent_cmp cmp (set xs)" by (rule consistent_cmp_subset [OF Cons.prems]) auto
  with Cons show ?case by (simp add: sorted_insertBy)
qed

section \<open>Slices and searches\<close>

definition sliceTo :: "int \<Rightarrow> 'a list \<Rightarrow> 'a list" where
  "sliceTo k xs = (if 0 \<le> k then take (nat k) xs else take (length xs - nat (- k)) xs)"

definition sliceFrom :: "int \<Rightarrow> 'a list \<Rightarrow> 'a list" where
  "sliceFrom k xs = (if 0 \<le> k then drop (nat k) xs else drop (length xs - nat (- k)) xs)"

fun indexOf :: "'a \<Rightarrow> 'a list \<Rightarrow> int" where
  "indexOf c [] = -1"
| "indexOf c (x # xs) = (if x = c then 0 else let i = indexOf c xs in if i < 0 then -1 else i + 1)"

definition startsWith :: "'a list \<Rightarrow> 'a list \<Rightarrow> bool" where
  "startsWith p s \<longleftrightarrow> take (length p) s = p"

lemma indexOf_append: "c \<notin> set xs \<Longrightarrow> indexOf c (xs @ c # ys) = int (length xs)"
  by (induction xs) auto

lemma startsWith_append [simp]: "startsWith p (p @ s)"
  by (simp add: startsWith_def)

section \<open>Decimal text\<close>

definition digitChar :: "nat \<Rightarrow> char" where
  "digitChar d = char_of (48 + d)"

fun natToString :: "nat \<Rightarrow> string" where
  "natToString n = (if n < 10 then [digitChar n] else natToString (n div 10) @ [digitChar (n mod 10)])"

declare natToString.simps [simp del]

definition intToString :: "int \<Rightarrow> string" where
  "intToString i = (if i < 0 then CHR ''-'' # natToString (nat (- i)) else natToString (nat i))"

definition isDigit :: "char \<Rightarrow> bool" where
  "isDigit c \<longleftrightarrow> 48 \<le> (of_char c :: nat) \<and> (of_char c :: nat) \<le> 57"

fun parseDigits :: "nat \<Rightarrow> string \<Rightarrow> nat option" where
  "parseDigits acc [] = Some acc"
| "parseDigits acc (c # cs) =
     (if isDigit c then parseDigits (acc * 10 + (of_char c - 48)) cs else None)"

text \<open>
  \<open>Number(text)\<close> on the texts the program reads back: an optionally signed decimal integer, the
  empty text (which is 0), and everything else as \<open>NaN\<close>. Fractions, exponents, hexadecimal and
  surrounding blanks, which the full conversion accepts, are outside this fragment: the program
  prints only integers into the texts it later reads.
\<close>

definition jsNumber :: "string \<Rightarrow> int option" where
  "jsNumber s =
     (case s of
        [] \<Rightarrow> Some 0
      | c # cs \<Rightarrow>
          if c = CHR ''-'' then (if cs = [] then None else map_option (\<lambda>n. - int n) (parseDigits 0 cs))
          else if c = CHR ''+'' then (if cs = [] then None else map_option int (parseDigits 0 cs))
          else map_option int (parseDigits 0 s))"

lemma of_char_digitChar: "d < 10 \<Longrightarrow> (of_char (digitChar d) :: nat) = 48 + d"
  by (simp add: digitChar_def of_char_of)

lemma isDigit_digitChar: "d < 10 \<Longrightarrow> isDigit (digitChar d)"
  by (simp add: isDigit_def of_char_digitChar)

lemma natToString_digits: "c \<in> set (natToString n) \<Longrightarrow> isDigit c"
proof (induction n rule: natToString.induct)
  case (1 n)
  then show ?case
    by (subst (asm) (2) natToString.simps) (auto simp: isDigit_digitChar split: if_splits)
qed

lemma natToString_nonempty [simp]: "natToString n \<noteq> []"
  by (subst natToString.simps) simp

lemma parseDigits_append:
  "parseDigits acc (xs @ ys) = (case parseDigits acc xs of None \<Rightarrow> None | Some a \<Rightarrow> parseDigits a ys)"
  by (induction xs arbitrary: acc) auto

lemma parseDigits_natToString: "parseDigits 0 (natToString n) = Some n"
proof (induction n rule: natToString.induct)
  case (1 n)
  show ?case
  proof (cases "n < 10")
    case True
    then show ?thesis
      by (subst natToString.simps) (simp add: isDigit_digitChar of_char_digitChar)
  next
    case False
    with 1 show ?thesis
      by (subst natToString.simps)
        (simp add: parseDigits_append isDigit_digitChar of_char_digitChar)
  qed
qed

lemma digit_not_sign: "isDigit c \<Longrightarrow> c \<noteq> CHR ''-'' \<and> c \<noteq> CHR ''+'' \<and> c \<noteq> CHR '':'' \<and> c \<noteq> CHR ''.'' \<and> c \<noteq> CHR ''/''"
  by (auto simp: isDigit_def)

lemma natToString_Cons: "\<exists>c cs. natToString n = c # cs \<and> isDigit c"
  using natToString_digits [of _ n] by (cases "natToString n") auto

lemma jsNumber_natToString [simp]: "jsNumber (natToString n) = Some (int n)"
proof -
  obtain c cs where n: "natToString n = c # cs" and "isDigit c"
    using natToString_Cons by blast
  then have "c \<noteq> CHR ''-''" and "c \<noteq> CHR ''+''" using digit_not_sign by blast+
  with n parseDigits_natToString [of n] show ?thesis
    by (simp only: jsNumber_def list.case if_False option.map)
qed

lemma jsNumber_intToString [simp]: "jsNumber (intToString i) = Some i"
proof (cases "i < 0")
  case True
  then show ?thesis
    by (simp add: intToString_def jsNumber_def parseDigits_natToString)
next
  case False
  then show ?thesis
    by (simp only: intToString_def if_False jsNumber_natToString) simp
qed

lemma natToString_inj: "natToString a = natToString b \<Longrightarrow> a = b"
proof -
  assume "natToString a = natToString b"
  then have "parseDigits 0 (natToString a) = parseDigits 0 (natToString b)" by (rule arg_cong)
  then show ?thesis unfolding parseDigits_natToString by (rule option.inject [THEN iffD1])
qed

lemma natToString_no_char: "\<not> isDigit c \<Longrightarrow> c \<notin> set (natToString n)"
  by (erule contrapos_nn) (rule natToString_digits)

lemma intToString_no_colon: "CHR '':'' \<notin> set (intToString i)"
proof -
  have "CHR '':'' \<notin> set (natToString n)" for n
    by (rule natToString_no_char) (simp add: isDigit_def)
  then show ?thesis by (simp add: intToString_def)
qed

section \<open>Options and folds\<close>

lemma fold_invariant_list:
  assumes "I s" and "\<And>x s. x \<in> set xs \<Longrightarrow> I s \<Longrightarrow> I (f x s)"
  shows "I (fold f xs s)"
  using assms by (induction xs arbitrary: s) auto

end
