(* ===== verification/JobTypes.thy ===== *)
theory JobTypes
  imports Complex_Main Prelude
begin

text \<open>
  The data of the storage seam, \<open>packages/effect-mq/src/JobStore.ts\<close>: job records, their
  satellites (backoff, retention, dedup, trace and flow data), requests, results, schedules and the
  typed errors, each as the source declares it. \<open>T | undefined\<close> is \<open>option\<close>, a union of string
  literals is a datatype, an object a record. Values the store never inspects (\<open>unknown\<close> payloads
  and exits) are JSON trees; a brand such as \<open>JobId\<close> is its underlying string. The theory also
  holds the two pure functions of that file, \<open>normalizeHistoryTtl\<close> and \<open>nextOccurrence\<close>.
\<close>

section \<open>Identifiers and encoded values\<close>

type_synonym job_id = string
type_synonym queue_name = string
type_synonym schedule_key = string
type_synonym millis = int

datatype json = JNull | JBool bool | JNum int | JStr string | JArr "json list"
  | JObj "(string \<times> json) list"

type_synonym metadata = "(string \<times> string) list"

section \<open>Job states\<close>

datatype job_state = Waiting | Delayed | Active | WaitingChildren | Completed | Failed | Cancelled

datatype terminal_state = TCompleted | TFailed | TCancelled

fun stateOfTerminal :: "terminal_state \<Rightarrow> job_state" where
  "stateOfTerminal TCompleted = Completed"
| "stateOfTerminal TFailed = Failed"
| "stateOfTerminal TCancelled = Cancelled"

definition TERMINAL_STATES :: "job_state set" where
  "TERMINAL_STATES = {Completed, Failed, Cancelled}"

lemma terminal_iff [simp]:
  "st \<in> TERMINAL_STATES \<longleftrightarrow> st = Completed \<or> st = Failed \<or> st = Cancelled"
  by (auto simp: TERMINAL_STATES_def)

lemma stateOfTerminal_terminal [simp]: "stateOfTerminal t \<in> TERMINAL_STATES"
  by (cases t) auto

lemma stateOfTerminal_eq_iff [simp]: "stateOfTerminal a = stateOfTerminal b \<longleftrightarrow> a = b"
  by (cases a; cases b) auto

section \<open>Policies\<close>

datatype backoff_tag = Fixed | Exponential

record backoff_policy =
  bo_tag :: backoff_tag
  bo_delayMs :: int
  bo_factor :: "rat option"

record keep_state_policy =
  kp_count :: "int option"
  kp_ageMs :: "int option"

text \<open>
  The flat shape \<open>{count, ageMs}\<close> that records of the 0.2.x releases still carry is the last
  field: it is present exactly when \<open>"count" in keep || "ageMs" in keep\<close>.
\<close>

record keep_policy =
  kp_completed :: "keep_state_policy option"
  kp_failed :: "keep_state_policy option"
  kp_cancelled :: "keep_state_policy option"
  kp_flat :: "keep_state_policy option"

record history_ttl =
  ht_completed :: "int option"
  ht_failed :: "int option"
  ht_cancelled :: "int option"

fun ttlFor :: "history_ttl \<Rightarrow> terminal_state \<Rightarrow> int option" where
  "ttlFor t TCompleted = ht_completed t"
| "ttlFor t TFailed = ht_failed t"
| "ttlFor t TCancelled = ht_cancelled t"

text \<open>
  \<open>HistoryTtlInput\<close> over an abstract type \<open>'d\<close> of duration inputs. In the split form the outer
  option is the presence of the key and the inner one its value, since the code tests \<open>in\<close> and
  \<open>!== undefined\<close> separately. \<open>toMillis\<close> stands for \<open>Duration.toMillis\<close>.
\<close>

datatype 'd history_ttl_input =
    TtlDuration 'd
  | TtlSplit "'d option option" "'d option option" "'d option option"

definition normalizeHistoryTtl :: "('d \<Rightarrow> int) \<Rightarrow> 'd history_ttl_input \<Rightarrow> string + history_ttl" where
  "normalizeHistoryTtl toMillis input =
     (case input of
        TtlSplit c f x \<Rightarrow>
          if \<not> (c \<noteq> None \<or> f \<noteq> None \<or> x \<noteq> None)
          then Inl ''effect-mq: historyTtl object must set at least one of completed/failed/cancelled''
          else Inr \<lparr> ht_completed = map_option toMillis (Option.bind c (\<lambda>v. v)),
                     ht_failed = map_option toMillis (Option.bind f (\<lambda>v. v)),
                     ht_cancelled = map_option toMillis (Option.bind x (\<lambda>v. v)) \<rparr>
      | TtlDuration d \<Rightarrow>
          (let ms = toMillis d
           in Inr \<lparr> ht_completed = Some ms, ht_failed = Some ms, ht_cancelled = Some ms \<rparr>))"

section \<open>Run ledger, dedup, trace and flow data\<close>

datatype attempt_outcome = ACompleted | ARetried | AFailed | AStalled | ACancelled | AFannedOut

record attempt_record =
  at_attempt :: nat
  at_startedAt :: "millis option"
  at_finishedAt :: millis
  at_outcome :: attempt_outcome
  at_exit :: "json option"

record dedupe_policy =
  dp_key :: string
  dp_ttlMs :: "int option"
  dp_extend :: bool
  dp_replace :: bool

record trace_context =
  tr_traceId :: string
  tr_spanId :: string
  tr_sampled :: bool
  tr_delayed :: bool

record parent_envelope =
  pe_flowName :: string
  pe_flowId :: job_id
  pe_childKey :: string
  pe_parentStoreKey :: string
  pe_depth :: nat

record flow_state =
  fs_failFast :: bool
  fs_pending :: int
  fs_completed :: int
  fs_failed :: int
  fs_cancelled :: int

section \<open>Requests\<close>

record enqueue_request =
  rq_id :: "job_id option"
  rq_name :: string
  rq_queue :: queue_name
  rq_payload :: json
  rq_metadata :: metadata
  rq_priority :: int
  rq_attemptsMax :: int
  rq_backoff :: "backoff_policy option"
  rq_keep :: "keep_policy option"
  rq_timeoutMs :: "int option"
  rq_dedupe :: "dedupe_policy option"
  rq_trace :: "trace_context option"
  rq_parent :: "parent_envelope option"
  rq_delayMs :: int

record enqueue_result =
  er_id :: job_id
  er_duplicate :: bool

record flow_child_spec =
  cs_childKey :: string
  cs_storeKey :: string
  cs_request :: enqueue_request

datatype row_status = RPending | RCompleted | RFailed | RCancelled

fun statusOf :: "terminal_state \<Rightarrow> row_status" where
  "statusOf TCompleted = RCompleted"
| "statusOf TFailed = RFailed"
| "statusOf TCancelled = RCancelled"

lemma statusOf_not_pending [simp]: "statusOf t \<noteq> RPending" "RPending \<noteq> statusOf t"
  by (cases t; simp)+

record flow_child_record =
  fr_flowId :: job_id
  fr_childKey :: string
  fr_name :: string
  fr_storeKey :: string
  fr_childJobId :: "job_id option"
  fr_status :: row_status
  fr_exit :: "json option"
  fr_failedReason :: "string option"
  fr_cascaded :: bool

record flow_child_report =
  rp_flowId :: job_id
  rp_childKey :: string
  rp_outcome :: terminal_state
  rp_exit :: "json option"
  rp_failedReason :: "string option"

record outbox_entry =
  ob_id :: string
  ob_flowName :: string
  ob_parentStoreKey :: string
  ob_report :: flow_child_report

record cascade_child =
  cc_childKey :: string
  cc_storeKey :: string
  cc_childJobId :: "job_id option"

record flow_sweep_work =
  sw_reconcile :: "(job_id \<times> flow_child_spec list) list"
  sw_cascade :: "(job_id \<times> cascade_child list) list"

record claim_options =
  co_queue :: queue_name
  co_names :: "string list"
  co_token :: string
  co_lockDurationMs :: int

datatype ack_outcome =
    Complete "json option"
  | Retry int "json option"
  | Fail "json option"
  | CancelledOutcome
  | FanOut bool "flow_child_spec list"

section \<open>Job records\<close>

record job_record =
  j_id :: job_id
  j_name :: string
  j_queue :: queue_name
  j_payload :: json
  j_metadata :: metadata
  j_state :: job_state
  j_priority :: int
  j_attemptsMax :: int
  j_attemptsMade :: int
  j_stalledCount :: int
  j_backoff :: "backoff_policy option"
  j_keep :: "keep_policy option"
  j_timeoutMs :: "int option"
  j_cancelRequested :: bool
  j_dedupeKey :: "string option"
  j_trace :: "trace_context option"
  j_parent :: "parent_envelope option"
  j_flow :: "flow_state option"
  j_runAt :: millis
  j_enqueuedAt :: millis
  j_processedAt :: "millis option"
  j_finishedAt :: "millis option"
  j_exit :: "json option"
  j_failedReason :: "string option"

datatype claim_result =
    Claimed job_record
  | Empty "millis option" nat

section \<open>Queries\<close>

datatype order_by = ByEnqueuedAt | ByRunAt | ByFinishedAt
datatype sort_order = Asc | Desc

record list_options =
  lo_queue :: "queue_name option"
  lo_name :: "string option"
  lo_states :: "job_state list option"
  lo_metadata :: "metadata option"
  lo_orderBy :: "order_by option"
  lo_order :: "sort_order option"
  lo_cursor :: "string option"
  lo_limit :: "int option"

record list_result =
  lr_items :: "job_record list"
  lr_cursor :: "string option"

record extend_locks_result =
  xl_lost :: "job_id list"
  xl_cancelRequested :: "job_id list"

section \<open>Schedules\<close>

record schedule_record =
  sc_key :: schedule_key
  sc_jobName :: string
  sc_queue :: queue_name
  sc_cron :: "string option"
  sc_tz :: "string option"
  sc_everyMs :: "int option"
  sc_payload :: json
  sc_metadata :: metadata
  sc_priority :: int
  sc_attemptsMax :: int
  sc_backoff :: "backoff_policy option"
  sc_keep :: "keep_policy option"
  sc_timeoutMs :: "int option"
  sc_group :: "string option"
  sc_nextRunAt :: millis

text \<open>
  \<open>nextOccurrence\<close> (\<open>JobStore.ts\<close>). The cron library is a parameter: \<open>cronParse\<close> is
  \<open>Cron.parse\<close> (\<open>None\<close> a failure), \<open>cronNext\<close> is \<open>Cron.next(..).getTime()\<close> with \<open>None\<close> for the
  exception that an unsatisfiable expression raises, which the code catches.
\<close>

definition nextOccurrence ::
  "(string \<Rightarrow> string option \<Rightarrow> 'c option) \<Rightarrow> ('c \<Rightarrow> millis \<Rightarrow> millis option) \<Rightarrow>
   string option \<Rightarrow> string option \<Rightarrow> int option \<Rightarrow> millis \<Rightarrow> millis \<Rightarrow> millis option" where
  "nextOccurrence cronParse cronNext cron tz everyMs fromSlot now =
     (case cron of
        Some expr \<Rightarrow>
          (case cronParse expr tz of
             None \<Rightarrow> None
           | Some parsed \<Rightarrow> cronNext parsed (max fromSlot now))
      | None \<Rightarrow>
          (case everyMs of
             Some every \<Rightarrow>
               if every > 0
               then (let behind = max 0 (now - fromSlot);
                         steps = behind div every + 1
                     in Some (fromSlot + steps * every))
               else None
           | None \<Rightarrow> None))"

section \<open>Typed errors\<close>

datatype store_error =
    JobStoreError string
  | LockLostError job_id
  | JobNotFoundError job_id
  | JobNotRetryableError job_id job_state
  | JobNotCancellableError job_id job_state
  | JobNotPromotableError job_id job_state

definition isJobStoreError :: "store_error \<Rightarrow> bool" where
  "isJobStoreError e \<longleftrightarrow> (case e of JobStoreError _ \<Rightarrow> True | _ \<Rightarrow> False)"

section \<open>Lemmas on occurrences\<close>

text \<open>The occurrence of an interval schedule: the least point of the grid after \<open>now\<close>.\<close>

lemma every_step:
  fixes every :: int
  assumes "every > 0" and "from \<le> now"
  shows "now < from + ((now - from) div every + 1) * every"
    and "from + ((now - from) div every + 1) * every \<le> now + every"
proof -
  define q r where "q = (now - from) div every" and "r = (now - from) mod every"
  have "q * every + r = now - from" by (simp add: q_def r_def)
  moreover have "0 \<le> r" "r < every" using assms by (simp_all add: r_def)
  ultimately have "now < from + (q + 1) * every" "from + (q + 1) * every \<le> now + every"
    by (simp_all add: distrib_right)
  then show "now < from + ((now - from) div every + 1) * every"
    and "from + ((now - from) div every + 1) * every \<le> now + every"
    by (simp_all add: q_def)
qed

lemma nextOccurrence_every:
  assumes "every > 0"
  shows "\<exists>k\<ge>1. nextOccurrence cp cn None tz (Some every) from now = Some (from + k * every)
           \<and> now < from + k * every \<and> (from + k * every \<le> max from now + every)"
proof (cases "from \<le> now")
  case True
  let ?k = "(now - from) div every + 1"
  have "?k \<ge> 1" using True assms by (simp add: pos_imp_zdiv_nonneg_iff)
  moreover have "nextOccurrence cp cn None tz (Some every) from now = Some (from + ?k * every)"
    using True assms by (simp add: nextOccurrence_def Let_def)
  ultimately show ?thesis
    using every_step [OF assms True] True by (intro exI [of _ ?k]) simp
next
  case False
  then have "nextOccurrence cp cn None tz (Some every) from now = Some (from + 1 * every)"
    using assms by (simp add: nextOccurrence_def Let_def)
  with False assms show ?thesis by (intro exI [of _ 1]) simp
qed

end
