(* ===== verification/MemState.thy ===== *)
theory MemState
  imports JobTypes
begin

text \<open>
  The state of the in-memory driver, \<open>makeStoreUnsafe\<close> in \<open>packages/effect-mq/src/MemoryJobStore.ts\<close>,
  and the local functions its operations share. The closure's mutable variables are the fields of
  the record \<open>mem_store\<close>. A job object that an operation mutates is passed by value and written
  back with \<open>putJob\<close> under its id, which keeps its place in the \<open>Map\<close>; a \<open>Set\<close> is a list in
  insertion order. Three ghost fields stand for what lives outside the closure's variables:
  \<open>nextWaiter\<close> and \<open>resolved\<close> name the \<open>Deferred\<close>s of parked waiters (\<open>resolved\<close> lists those that
  \<open>signalWake\<close> has completed), and \<open>draws\<close> counts the calls of a user-supplied id generator, so
  that any run of such a generator is a function of that count.
\<close>

section \<open>State\<close>

record mem_job = job_record +
  m_attempts :: "attempt_record list"
  m_seq :: nat
  m_lockToken :: "string option"
  m_lockExpiresAt :: "millis option"

record mem_flow_child =
  ch_flowId :: job_id
  ch_childKey :: string
  ch_storeKey :: string
  ch_spec :: enqueue_request
  ch_status :: row_status
  ch_exit :: "json option"
  ch_failedReason :: "string option"
  ch_cascaded :: bool
  ch_pendingSince :: millis

record dedupe_entry =
  de_jobId :: job_id
  de_expiresAt :: "millis option"

record waiter =
  wt_id :: nat
  wt_queues :: "queue_name list"

type_synonym flow_rows = "(string, mem_flow_child) jsmap"

record mem_store =
  jobs :: "(job_id, mem_job) jsmap"
  schedules :: "(schedule_key, schedule_record) jsmap"
  paused :: "queue_name list"
  flowChildren :: "(job_id, flow_rows) jsmap"
  outbox :: "outbox_entry list"
  outboxSeq :: nat
  dedupes :: "(string, dedupe_entry) jsmap"
  seqNo :: nat
  idCounter :: nat
  wakeVersion :: nat
  lastBroadcast :: nat
  lastWake :: "(queue_name, nat) jsmap"
  waiters :: "waiter list"
  resolved :: "nat list"
  nextWaiter :: nat
  draws :: nat

definition emptyStore :: mem_store where
  "emptyStore = \<lparr> jobs = [], schedules = [], paused = [], flowChildren = [], outbox = [],
     outboxSeq = 0, dedupes = [], seqNo = 0, idCounter = 0, wakeVersion = 0, lastBroadcast = 0,
     lastWake = [], waiters = [], resolved = [], nextWaiter = 0, draws = 0 \<rparr>"

definition snapshot :: "mem_job \<Rightarrow> job_record" where
  "snapshot job = \<lparr>
     j_id = j_id job,
     j_name = j_name job,
     j_queue = j_queue job,
     j_payload = j_payload job,
     j_metadata = j_metadata job,
     j_state = j_state job,
     j_priority = j_priority job,
     j_attemptsMax = j_attemptsMax job,
     j_attemptsMade = j_attemptsMade job,
     j_stalledCount = j_stalledCount job,
     j_backoff = j_backoff job,
     j_keep = j_keep job,
     j_timeoutMs = j_timeoutMs job,
     j_cancelRequested = j_cancelRequested job,
     j_dedupeKey = j_dedupeKey job,
     j_trace = j_trace job,
     j_parent = j_parent job,
     j_flow = j_flow job,
     j_runAt = j_runAt job,
     j_enqueuedAt = j_enqueuedAt job,
     j_processedAt = j_processedAt job,
     j_finishedAt = j_finishedAt job,
     j_exit = j_exit job,
     j_failedReason = j_failedReason job \<rparr>"

definition putJob :: "mem_job \<Rightarrow> mem_store \<Rightarrow> mem_store" where
  "putJob job s = s\<lparr>jobs := mapSet (j_id job) job (jobs s)\<rparr>"

definition orElse :: "'a option \<Rightarrow> 'a \<Rightarrow> 'a" where
  "orElse x d = (case x of None \<Rightarrow> d | Some v \<Rightarrow> v)"

lemma orElse_simps [simp]: "orElse None d = d" "orElse (Some v) d = v"
  by (simp_all add: orElse_def)

definition metadataMatches :: "metadata \<Rightarrow> metadata \<Rightarrow> bool" where
  "metadataMatches record filt = list_all (\<lambda>(key, value). mapGet record key = Some value) filt"

section \<open>Outbox, wake-ups and promotion\<close>

definition outboxId :: "nat \<Rightarrow> string" where
  "outboxId n = ''ob-'' @ natToString n"

definition appendOutbox :: "mem_job \<Rightarrow> terminal_state \<Rightarrow> mem_store \<Rightarrow> mem_store" where
  "appendOutbox job outcome s =
     (case j_parent job of
        None \<Rightarrow> s
      | Some p \<Rightarrow>
          s\<lparr> outboxSeq := outboxSeq s + 1,
             outbox := outbox s @ [\<lparr>
               ob_id = outboxId (outboxSeq s + 1),
               ob_flowName = pe_flowName p,
               ob_parentStoreKey = pe_parentStoreKey p,
               ob_report = \<lparr> rp_flowId = pe_flowId p, rp_childKey = pe_childKey p,
                             rp_outcome = outcome, rp_exit = j_exit job,
                             rp_failedReason = j_failedReason job \<rparr> \<rparr>] \<rparr>)"

definition lastWakeFor :: "mem_store \<Rightarrow> queue_name \<Rightarrow> nat" where
  "lastWakeFor s queue = max (orElse (mapGet (lastWake s) queue) 0) (lastBroadcast s)"

definition watches :: "queue_name option \<Rightarrow> waiter \<Rightarrow> bool" where
  "watches queue w = (case queue of None \<Rightarrow> True | Some q \<Rightarrow> q \<in> set (wt_queues w))"

definition signalWake :: "queue_name option \<Rightarrow> mem_store \<Rightarrow> mem_store" where
  "signalWake queue s =
     (let v = wakeVersion s + 1;
          toWake = filter (watches queue) (waiters s)
      in s\<lparr> wakeVersion := v,
            lastBroadcast := (case queue of None \<Rightarrow> v | Some _ \<Rightarrow> lastBroadcast s),
            lastWake := (case queue of None \<Rightarrow> lastWake s | Some q \<Rightarrow> mapSet q v (lastWake s)),
            waiters := filter (\<lambda>w. \<not> watches queue w) (waiters s),
            resolved := resolved s @ map wt_id toWake \<rparr>)"

definition promoteJob :: "millis \<Rightarrow> mem_job \<Rightarrow> mem_job" where
  "promoteJob now job =
     (if j_state job = Delayed \<and> j_runAt job \<le> now then job\<lparr>j_state := Waiting\<rparr> else job)"

definition promoteDue :: "millis \<Rightarrow> mem_store \<Rightarrow> mem_store" where
  "promoteDue now s = s\<lparr>jobs := map_ran (\<lambda>_. promoteJob now) (jobs s)\<rparr>"

section \<open>Job-level updates\<close>

definition clearLock :: "mem_job \<Rightarrow> mem_job" where
  "clearLock job = job\<lparr>m_lockToken := None, m_lockExpiresAt := None\<rparr>"

definition recordAttempt :: "attempt_outcome \<Rightarrow> millis \<Rightarrow> json option \<Rightarrow> mem_job \<Rightarrow> mem_job" where
  "recordAttempt outcome finishedAt exitVal job =
     job\<lparr>m_attempts := m_attempts job @ [\<lparr>
        at_attempt = length (m_attempts job) + 1,
        at_startedAt = j_processedAt job,
        at_finishedAt = finishedAt,
        at_outcome = outcome,
        at_exit = exitVal \<rparr>]\<rparr>"

section \<open>Dedup registry\<close>

definition dedupeMapKey :: "string \<Rightarrow> string \<Rightarrow> string" where
  "dedupeMapKey name key = name @ CHR 0x00 # key"

definition releaseDedupe :: "mem_job \<Rightarrow> millis \<Rightarrow> mem_store \<Rightarrow> mem_store" where
  "releaseDedupe job now s =
     (case j_dedupeKey job of
        None \<Rightarrow> s
      | Some dk \<Rightarrow>
          (let key = dedupeMapKey (j_name job) dk
           in case mapGet (dedupes s) key of
                None \<Rightarrow> s
              | Some entry \<Rightarrow>
                  if de_jobId entry = j_id job \<and>
                     (case de_expiresAt entry of None \<Rightarrow> True | Some e \<Rightarrow> e \<le> now)
                  then s\<lparr>dedupes := mapDelete key (dedupes s)\<rparr>
                  else s))"

section \<open>Deletion and cascades\<close>

definition deleteJob :: "job_id \<Rightarrow> mem_store \<Rightarrow> mem_store" where
  "deleteJob i s = s\<lparr>jobs := mapDelete i (jobs s), flowChildren := mapDelete i (flowChildren s)\<rparr>"

definition owesCascade :: "mem_flow_child \<Rightarrow> bool" where
  "owesCascade row \<longleftrightarrow> ch_status row = RCancelled \<and> \<not> ch_cascaded row"

definition owesCascades :: "mem_store \<Rightarrow> job_id \<Rightarrow> bool" where
  "owesCascades s i =
     (case mapGet (flowChildren s) i of
        None \<Rightarrow> False
      | Some rows \<Rightarrow> list_ex owesCascade (mapValues rows))"

definition cancelPendingRow :: "mem_flow_child \<Rightarrow> mem_flow_child" where
  "cancelPendingRow row =
     (if ch_status row = RPending then row\<lparr>ch_status := RCancelled, ch_cascaded := False\<rparr> else row)"

definition tally :: "row_status \<Rightarrow> flow_rows \<Rightarrow> int" where
  "tally st rows = int (length (filter (\<lambda>row. ch_status row = st) (mapValues rows)))"

definition markPendingRowsCancelled :: "job_id \<Rightarrow> mem_store \<Rightarrow> int \<times> mem_store" where
  "markPendingRowsCancelled flowId s =
     (case mapGet (flowChildren s) flowId of
        None \<Rightarrow> (0, s)
      | Some rows \<Rightarrow>
          (tally RPending rows,
           s\<lparr>flowChildren := mapSet flowId (map_ran (\<lambda>_. cancelPendingRow) rows) (flowChildren s)\<rparr>))"

definition settleMarkRows :: "mem_job \<Rightarrow> mem_store \<Rightarrow> mem_job \<times> mem_store" where
  "settleMarkRows job s =
     (let (marked, s') = markPendingRowsCancelled (j_id job) s
      in (case j_flow job of
            None \<Rightarrow> job
          | Some flow \<Rightarrow>
              job\<lparr>j_flow := Some (flow\<lparr>fs_pending := 0, fs_cancelled := fs_cancelled flow + marked\<rparr>)\<rparr>,
          s'))"

section \<open>Retention\<close>

definition keepPolicyFor :: "keep_policy option \<Rightarrow> job_state \<Rightarrow> keep_state_policy option" where
  "keepPolicyFor keep st =
     (case keep of
        None \<Rightarrow> None
      | Some k \<Rightarrow>
          (let policy = (if st = Completed then kp_completed k
                         else if st = Failed then kp_failed k
                         else if st = Cancelled then kp_cancelled k
                         else None)
           in if policy \<noteq> None then policy
              else if kp_completed k = None \<and> kp_failed k = None \<and> kp_cancelled k = None
              then kp_flat k
              else None))"

definition keepCmp :: "mem_job \<Rightarrow> mem_job \<Rightarrow> int" where
  "keepCmp a b =
     (let d = orElse (j_finishedAt b) 0 - orElse (j_finishedAt a) 0
      in if d \<noteq> 0 then d else int (m_seq b) - int (m_seq a))"

definition keepPeers :: "mem_job \<Rightarrow> mem_store \<Rightarrow> mem_job list" where
  "keepPeers job s =
     toSorted keepCmp
       (filter (\<lambda>peer. j_name peer = j_name job \<and> j_state peer = j_state job) (mapValues (jobs s)))"

definition expired :: "int option \<Rightarrow> millis \<Rightarrow> mem_job \<Rightarrow> bool" where
  "expired age now job =
     (case (age, j_finishedAt job) of (Some a, Some f) \<Rightarrow> f \<le> now - a | _ \<Rightarrow> False)"

definition keepRemovals :: "keep_state_policy \<Rightarrow> millis \<Rightarrow> mem_job list \<Rightarrow> job_id list" where
  "keepRemovals policy now peers =
     map j_id (filter (expired (kp_ageMs policy) now) peers)
     @ (case kp_count policy of None \<Rightarrow> [] | Some c \<Rightarrow> map j_id (drop (nat (max 0 c)) peers))"

text \<open>
  The ids to remove form a JavaScript \<open>Set\<close>; \<open>remdups\<close> lists each once. Deletions of distinct
  jobs commute, so the order of the list does not matter.
\<close>

definition pruneUnlessOwing :: "job_id \<Rightarrow> mem_store \<Rightarrow> mem_store" where
  "pruneUnlessOwing i s = (if owesCascades s i then s else deleteJob i s)"

definition applyKeep :: "mem_job \<Rightarrow> millis \<Rightarrow> mem_store \<Rightarrow> mem_store" where
  "applyKeep job now s =
     (case keepPolicyFor (j_keep job) (j_state job) of
        None \<Rightarrow> s
      | Some policy \<Rightarrow>
          fold pruneUnlessOwing (remdups (keepRemovals policy now (keepPeers job s))) s)"

definition markCancelled :: "mem_job \<Rightarrow> millis \<Rightarrow> mem_store \<Rightarrow> mem_store" where
  "markCancelled job now s =
     (let job1 = (clearLock job)\<lparr>j_cancelRequested := False\<rparr>;
          (job2, s2) = (if j_state job1 = WaitingChildren then settleMarkRows job1 s else (job1, s));
          job3 = recordAttempt ACancelled now None
                   (job2\<lparr>j_state := Cancelled, j_finishedAt := Some now\<rparr>);
          s3 = putJob job3 s2;
          s4 = appendOutbox job3 TCancelled s3;
          s5 = releaseDedupe job3 now s4
      in applyKeep job3 now s5)"

fun terminalOf :: "job_state \<Rightarrow> terminal_state option" where
  "terminalOf Completed = Some TCompleted"
| "terminalOf Failed = Some TFailed"
| "terminalOf Cancelled = Some TCancelled"
| "terminalOf _ = None"

definition effectiveTtl :: "history_ttl \<Rightarrow> mem_job \<Rightarrow> terminal_state \<Rightarrow> int option" where
  "effectiveTtl ttlByState job st =
     (let ttl = ttlFor ttlByState st;
          keepAge = Option.bind (keepPolicyFor (j_keep job) (stateOfTerminal st)) kp_ageMs
      in case keepAge of
           Some a \<Rightarrow> (case ttl of None \<Rightarrow> Some a | Some t \<Rightarrow> if a < t then Some a else Some t)
         | None \<Rightarrow> ttl)"

definition sweepJob :: "millis \<Rightarrow> history_ttl \<Rightarrow> mem_job \<Rightarrow> mem_store \<Rightarrow> mem_store" where
  "sweepJob now ttlByState job s =
     (case (terminalOf (j_state job), j_finishedAt job) of
        (Some st, Some f) \<Rightarrow>
          (case effectiveTtl ttlByState job st of
             Some eff \<Rightarrow>
               if f \<le> now - eff \<and> \<not> owesCascades s (j_id job) then deleteJob (j_id job) s else s
           | None \<Rightarrow> s)
      | _ \<Rightarrow> s)"

definition dedupeAlive :: "millis \<Rightarrow> mem_store \<Rightarrow> dedupe_entry \<Rightarrow> bool" where
  "dedupeAlive now s entry =
     (case de_expiresAt entry of
        Some e \<Rightarrow> e > now
      | None \<Rightarrow> (case mapGet (jobs s) (de_jobId entry) of
                  None \<Rightarrow> False
                | Some job \<Rightarrow> j_state job \<notin> TERMINAL_STATES))"

definition sweepHistory :: "millis \<Rightarrow> history_ttl \<Rightarrow> mem_store \<Rightarrow> mem_store" where
  "sweepHistory now ttlByState s =
     (let s' = fold (sweepJob now ttlByState) (mapValues (jobs s)) s
      in s'\<lparr>dedupes := filter (\<lambda>(_, entry). dedupeAlive now s' entry) (dedupes s')\<rparr>)"

end
