(* ===== verification/MemFlow.thy ===== *)
theory MemFlow
  imports MemState
begin

text \<open>
  The flow bookkeeping of \<open>MemoryJobStore.ts\<close>: \<open>recordChildResults\<close> with its two phases, the
  outbox verbs \<open>peekOutbox\<close> and \<open>deleteOutbox\<close>, \<open>listChildResults\<close>, the sweeper's work list
  \<open>flowSweepWork\<close> and \<open>markChildrenCascaded\<close>.
\<close>

section \<open>recordChildResults\<close>

record report_result =
  rr_applied :: bool
  rr_parentSettled :: bool

record touch =
  tc_lastApplied :: nat
  tc_firstAppliedFailed :: "nat option"

definition countReport :: "terminal_state \<Rightarrow> flow_state \<Rightarrow> flow_state" where
  "countReport outcome flow = flow\<lparr>
     fs_pending := max 0 (fs_pending flow - 1),
     fs_completed := fs_completed flow + (if outcome = TCompleted then 1 else 0),
     fs_failed := fs_failed flow + (if outcome = TFailed then 1 else 0),
     fs_cancelled := fs_cancelled flow + (if outcome = TCancelled then 1 else 0) \<rparr>"

definition settleRow :: "flow_child_report \<Rightarrow> mem_flow_child \<Rightarrow> mem_flow_child" where
  "settleRow report row = row\<lparr>
     ch_status := statusOf (rp_outcome report),
     ch_exit := rp_exit report,
     ch_failedReason := rp_failedReason report,
     ch_cascaded := True \<rparr>"

definition rowOf :: "mem_store \<Rightarrow> job_id \<Rightarrow> string \<Rightarrow> mem_flow_child option" where
  "rowOf s flowId childKey = Option.bind (mapGet (flowChildren s) flowId) (\<lambda>rows. mapGet rows childKey)"

definition setRow :: "job_id \<Rightarrow> string \<Rightarrow> mem_flow_child \<Rightarrow> mem_store \<Rightarrow> mem_store" where
  "setRow flowId childKey row s =
     (case mapGet (flowChildren s) flowId of
        None \<Rightarrow> s
      | Some rows \<Rightarrow> s\<lparr>flowChildren := mapSet flowId (mapSet childKey row rows) (flowChildren s)\<rparr>)"

definition countOnParent :: "flow_child_report \<Rightarrow> mem_store \<Rightarrow> mem_store" where
  "countOnParent report s =
     (case mapGet (jobs s) (rp_flowId report) of
        None \<Rightarrow> s
      | Some parent \<Rightarrow>
          (case j_flow parent of
             None \<Rightarrow> s
           | Some flow \<Rightarrow>
               putJob (parent\<lparr>j_flow := Some (countReport (rp_outcome report) flow)\<rparr>) s))"

definition touchFlow ::
  "nat \<Rightarrow> flow_child_report \<Rightarrow> (job_id, touch) jsmap \<Rightarrow> (job_id, touch) jsmap" where
  "touchFlow index report touched =
     (let t = orElse (mapGet touched (rp_flowId report))
                \<lparr>tc_lastApplied = index, tc_firstAppliedFailed = None\<rparr>;
          t1 = t\<lparr>tc_lastApplied := index\<rparr>;
          t2 = (if rp_outcome report = TFailed \<and> tc_firstAppliedFailed t1 = None
                then t1\<lparr>tc_firstAppliedFailed := Some index\<rparr> else t1)
      in mapSet (rp_flowId report) t2 touched)"

type_synonym record_state = "report_result list \<times> (job_id, touch) jsmap \<times> mem_store"

definition recordOne :: "nat \<times> flow_child_report \<Rightarrow> record_state \<Rightarrow> record_state" where
  "recordOne entry acc =
     (case (entry, acc) of ((index, report), (results, touched, s)) \<Rightarrow>
        (case rowOf s (rp_flowId report) (rp_childKey report) of
           None \<Rightarrow> acc
         | Some row \<Rightarrow>
             if ch_status row \<noteq> RPending then acc
             else (results[index := \<lparr>rr_applied = True, rr_parentSettled = False\<rparr>],
                   touchFlow index report touched,
                   countOnParent report
                     (setRow (rp_flowId report) (rp_childKey report) (settleRow report row) s))))"

definition failParent :: "string \<Rightarrow> millis \<Rightarrow> mem_job \<Rightarrow> mem_store \<Rightarrow> mem_store" where
  "failParent childKey now parent s =
     (let (parent1, s1) = settleMarkRows parent s;
          parent2 = recordAttempt AFailed now None
            (parent1\<lparr>j_cancelRequested := False, j_state := Failed, j_finishedAt := Some now,
               j_failedReason := Some (''effect-mq: flow child '' @ [CHR 0x22] @ childKey @ [CHR 0x22] @ '' failed'')\<rparr>)
      in applyKeep parent2 now
           (releaseDedupe parent2 now (appendOutbox parent2 TFailed (putJob parent2 s1))))"

definition resumeParent :: "millis \<Rightarrow> mem_job \<Rightarrow> mem_store \<Rightarrow> mem_store" where
  "resumeParent now parent s =
     (let sq = seqNo s + 1
      in signalWake (Some (j_queue parent))
           (putJob (parent\<lparr>j_state := Waiting, j_runAt := now, m_seq := sq\<rparr>) (s\<lparr>seqNo := sq\<rparr>)))"

definition settleOne ::
  "millis \<Rightarrow> flow_child_report list \<Rightarrow> job_id \<times> touch
    \<Rightarrow> report_result list \<times> mem_store \<Rightarrow> report_result list \<times> mem_store" where
  "settleOne now reports entry acc =
     (case (entry, acc) of ((flowId, touch), (results, s)) \<Rightarrow>
        (case mapGet (jobs s) flowId of
           None \<Rightarrow> acc
         | Some parent \<Rightarrow>
             (case j_flow parent of
                None \<Rightarrow> acc
              | Some flow \<Rightarrow>
                  if j_state parent \<noteq> WaitingChildren then acc
                  else
                    (case (if fs_failFast flow then tc_firstAppliedFailed touch else None) of
                       Some failedIndex \<Rightarrow>
                         (results[failedIndex := \<lparr>rr_applied = True, rr_parentSettled = True\<rparr>],
                          failParent (rp_childKey (reports ! failedIndex)) now parent s)
                     | None \<Rightarrow>
                         if fs_pending flow = 0 then
                           (results[tc_lastApplied touch := \<lparr>rr_applied = True, rr_parentSettled = True\<rparr>],
                            resumeParent now parent s)
                         else acc))))"

definition recordPhase1 :: "flow_child_report list \<Rightarrow> mem_store \<Rightarrow> record_state" where
  "recordPhase1 reports s =
     fold recordOne (enumerate 0 reports)
       (map (\<lambda>_. \<lparr>rr_applied = False, rr_parentSettled = False\<rparr>) reports, [], s)"

definition recordChildResults ::
  "millis \<Rightarrow> flow_child_report list \<Rightarrow> mem_store \<Rightarrow> report_result list \<times> mem_store" where
  "recordChildResults now reports s =
     (case recordPhase1 reports s of
        (results, touched, s1) \<Rightarrow> fold (settleOne now reports) touched (results, s1))"

section \<open>The outbox\<close>

definition outboxSeqOf :: "string \<Rightarrow> int option" where
  "outboxSeqOf i = jsNumber (drop 3 i)"

definition peekOutbox :: "int \<Rightarrow> string option \<Rightarrow> mem_store \<Rightarrow> outbox_entry list" where
  "peekOutbox limit after s =
     (let afterSeq = (case after of
                        Some a \<Rightarrow> if startsWith ''ob-'' a then outboxSeqOf a else None
                      | None \<Rightarrow> None);
          eligible = (case afterSeq of
                        None \<Rightarrow> outbox s
                      | Some n \<Rightarrow>
                          filter (\<lambda>entry. case outboxSeqOf (ob_id entry) of
                                            Some m \<Rightarrow> m > n | None \<Rightarrow> False) (outbox s))
      in take (nat (max 0 limit)) eligible)"

definition deleteOutbox :: "string list \<Rightarrow> mem_store \<Rightarrow> mem_store" where
  "deleteOutbox ids s = s\<lparr>outbox := filter (\<lambda>entry. ob_id entry \<notin> set ids) (outbox s)\<rparr>"

section \<open>Dependency rows\<close>

definition stringCmp :: "string \<Rightarrow> string \<Rightarrow> int" where
  "stringCmp a b = (if a < b then -1 else if b < a then 1 else 0)"

definition childRecord :: "mem_flow_child \<Rightarrow> flow_child_record" where
  "childRecord row = \<lparr>
     fr_flowId = ch_flowId row,
     fr_childKey = ch_childKey row,
     fr_name = rq_name (ch_spec row),
     fr_storeKey = ch_storeKey row,
     fr_childJobId = rq_id (ch_spec row),
     fr_status = ch_status row,
     fr_exit = ch_exit row,
     fr_failedReason = ch_failedReason row,
     fr_cascaded = ch_cascaded row \<rparr>"

definition sortedRows :: "job_id \<Rightarrow> mem_store \<Rightarrow> mem_flow_child list" where
  "sortedRows flowId s =
     toSorted (\<lambda>a b. stringCmp (ch_childKey a) (ch_childKey b))
       (mapValues (orElse (mapGet (flowChildren s) flowId) []))"

definition listChildResults ::
  "job_id \<Rightarrow> string option \<Rightarrow> int option \<Rightarrow> mem_store \<Rightarrow> flow_child_record list \<times> string option" where
  "listChildResults flowId cursor limitOpt s =
     (let limit = nat (max 1 (orElse limitOpt 1000));
          rows = filter (\<lambda>row. case cursor of None \<Rightarrow> True | Some c \<Rightarrow> ch_childKey row > c)
                   (sortedRows flowId s);
          page = take limit rows
      in (map childRecord page,
          if length rows > limit \<and> page \<noteq> [] then Some (ch_childKey (last page)) else None))"

section \<open>The sweeper's work list\<close>

definition cascadeChild :: "mem_flow_child \<Rightarrow> cascade_child" where
  "cascadeChild row =
     \<lparr>cc_childKey = ch_childKey row, cc_storeKey = ch_storeKey row, cc_childJobId = rq_id (ch_spec row)\<rparr>"

definition childSpec :: "mem_flow_child \<Rightarrow> flow_child_spec" where
  "childSpec row =
     \<lparr>cs_childKey = ch_childKey row, cs_storeKey = ch_storeKey row, cs_request = ch_spec row\<rparr>"

definition reconcileDue :: "bool \<Rightarrow> millis \<Rightarrow> nat \<Rightarrow> nat \<Rightarrow> mem_flow_child \<Rightarrow> bool" where
  "reconcileDue reconciling threshold limit rc row \<longleftrightarrow>
     reconciling \<and> ch_status row = RPending \<and> ch_pendingSince row \<le> threshold \<and> rc < limit"

text \<open>One flow's rows: the rows as left, what to reconcile, what to cascade, and the two counts.\<close>

fun sweepRows ::
  "millis \<Rightarrow> millis \<Rightarrow> nat \<Rightarrow> bool \<Rightarrow> flow_rows \<Rightarrow> nat \<Rightarrow> nat
    \<Rightarrow> flow_rows \<times> flow_child_spec list \<times> cascade_child list \<times> nat \<times> nat" where
  "sweepRows now threshold limit reconciling [] rc cc = ([], [], [], rc, cc)"
| "sweepRows now threshold limit reconciling ((k, row) # rest) rc cc =
     (let due = reconcileDue reconciling threshold limit rc row;
          row1 = (if due then row\<lparr>ch_pendingSince := now\<rparr> else row);
          rc1 = (if due then rc + 1 else rc);
          casc = (ch_status row1 = RCancelled \<and> \<not> ch_cascaded row1 \<and> cc < limit);
          cc1 = (if casc then cc + 1 else cc);
          (rows, rs, cs, rc2, cc2) = sweepRows now threshold limit reconciling rest rc1 cc1
      in ((k, row1) # rows,
          (if due then childSpec row # rs else rs),
          (if casc then cascadeChild row1 # cs else cs), rc2, cc2))"

fun sweepFlows ::
  "millis \<Rightarrow> millis \<Rightarrow> nat \<Rightarrow> (job_id, mem_job) jsmap \<Rightarrow> (job_id, flow_rows) jsmap \<Rightarrow> nat \<Rightarrow> nat
    \<Rightarrow> (job_id, flow_rows) jsmap \<times> (job_id \<times> flow_child_spec list) list \<times> (job_id \<times> cascade_child list) list" where
  "sweepFlows now threshold limit js [] rc cc = ([], [], [])"
| "sweepFlows now threshold limit js ((flowId, rows) # rest) rc cc =
     (let reconciling = (case mapGet js flowId of None \<Rightarrow> False
                         | Some parent \<Rightarrow> j_state parent = WaitingChildren);
          (rows1, rs, cs, rc1, cc1) = sweepRows now threshold limit reconciling rows rc cc;
          (flows, reconcile, cascade) = sweepFlows now threshold limit js rest rc1 cc1
      in ((flowId, rows1) # flows,
          (if rs \<noteq> [] then (flowId, rs) # reconcile else reconcile),
          (if cs \<noteq> [] then (flowId, cs) # cascade else cascade)))"

definition flowSweepWork ::
  "millis \<Rightarrow> int \<Rightarrow> int option \<Rightarrow> mem_store \<Rightarrow> flow_sweep_work \<times> mem_store" where
  "flowSweepWork now pendingAgeMs limitOpt s =
     (let limit = nat (max 1 (orElse limitOpt 1000));
          threshold = now - pendingAgeMs;
          (flows, reconcile, cascade) = sweepFlows now threshold limit (jobs s) (flowChildren s) 0 0
      in (\<lparr>sw_reconcile = reconcile, sw_cascade = cascade\<rparr>, s\<lparr>flowChildren := flows\<rparr>))"

definition markChildrenCascaded :: "job_id \<Rightarrow> string list \<Rightarrow> mem_store \<Rightarrow> mem_store" where
  "markChildrenCascaded flowId childKeys s =
     (case mapGet (flowChildren s) flowId of
        None \<Rightarrow> s
      | Some rows \<Rightarrow>
          s\<lparr>flowChildren :=
             mapSet flowId
               (fold (\<lambda>key rs. case mapGet rs key of
                                 None \<Rightarrow> rs
                               | Some row \<Rightarrow> mapSet key (row\<lparr>ch_cascaded := True\<rparr>) rs) childKeys rows)
               (flowChildren s)\<rparr>)"

end
