(* ===== verification/MemEnqueue.thy ===== *)
theory MemEnqueue
  imports MemState
begin

text \<open>
  \<open>insertJobRecord\<close>, \<open>enqueueOne\<close> and \<open>enqueueMany\<close> of \<open>MemoryJobStore.ts\<close>. An enqueue has two
  phases, as in the code: \<open>enqueueDecide\<close> is everything up to the point where the request is known
  to need a new job (id dedup, then the dedup-key decision tree), \<open>enqueueInsert\<close> the id generation
  and the insertion. The code runs them in one synchronous block unless the id generator is an
  effect, which is evaluated between the two.
\<close>

section \<open>Inserting a record\<close>

definition newJob :: "job_id \<Rightarrow> enqueue_request \<Rightarrow> millis \<Rightarrow> nat \<Rightarrow> mem_job" where
  "newJob i request now sq = \<lparr>
     j_id = i,
     j_name = rq_name request,
     j_queue = rq_queue request,
     j_payload = rq_payload request,
     j_metadata = rq_metadata request,
     j_state = (if rq_delayMs request > 0 then Delayed else Waiting),
     j_priority = rq_priority request,
     j_attemptsMax = rq_attemptsMax request,
     j_attemptsMade = 0,
     j_stalledCount = 0,
     j_backoff = rq_backoff request,
     j_keep = rq_keep request,
     j_timeoutMs = rq_timeoutMs request,
     j_cancelRequested = False,
     j_dedupeKey = map_option dp_key (rq_dedupe request),
     j_trace = rq_trace request,
     j_parent = rq_parent request,
     j_flow = None,
     j_runAt = now + max 0 (rq_delayMs request),
     j_enqueuedAt = now,
     j_processedAt = None,
     j_finishedAt = None,
     j_exit = None,
     j_failedReason = None,
     m_attempts = [],
     m_seq = sq,
     m_lockToken = None,
     m_lockExpiresAt = None \<rparr>"

definition insertJobRecord :: "job_id \<Rightarrow> enqueue_request \<Rightarrow> millis \<Rightarrow> mem_store \<Rightarrow> mem_store" where
  "insertJobRecord i request now s =
     (let sq = seqNo s + 1
      in signalWake (Some (rq_queue request))
           (s\<lparr>seqNo := sq, jobs := mapSet i (newJob i request now sq) (jobs s)\<rparr>))"

section \<open>The dedup decision tree\<close>

definition replaceJob :: "enqueue_request \<Rightarrow> millis \<Rightarrow> mem_job \<Rightarrow> mem_job" where
  "replaceJob request now keyed = keyed\<lparr>
     j_payload := rq_payload request,
     j_metadata := rq_metadata request,
     j_priority := rq_priority request,
     j_attemptsMax := rq_attemptsMax request,
     j_backoff := rq_backoff request,
     j_keep := rq_keep request,
     j_timeoutMs := rq_timeoutMs request,
     j_trace := rq_trace request,
     j_runAt := now + max 0 (rq_delayMs request) \<rparr>"

definition windowLive :: "millis \<Rightarrow> dedupe_entry \<Rightarrow> bool" where
  "windowLive now entry = (case de_expiresAt entry of None \<Rightarrow> False | Some e \<Rightarrow> now < e)"

definition setExpiry :: "string \<Rightarrow> dedupe_entry \<Rightarrow> millis \<Rightarrow> mem_store \<Rightarrow> mem_store" where
  "setExpiry key entry e s =
     s\<lparr>dedupes := mapSet key (entry\<lparr>de_expiresAt := Some e\<rparr>) (dedupes s)\<rparr>"

definition dedupeDecide ::
  "millis \<Rightarrow> enqueue_request \<Rightarrow> dedupe_policy \<Rightarrow> mem_store \<Rightarrow> enqueue_result option \<times> mem_store" where
  "dedupeDecide now request dedupe s =
     (let mapKey = dedupeMapKey (rq_name request) (dp_key dedupe)
      in case mapGet (dedupes s) mapKey of
           None \<Rightarrow> (None, s)
         | Some entry \<Rightarrow>
             (let keyed = mapGet (jobs s) (de_jobId entry)
              in case keyed of
                   Some k \<Rightarrow>
                     if dp_replace dedupe \<and> j_state k = Delayed then
                       (let s1 = putJob (replaceJob request now k) s;
                            s2 = (case dp_ttlMs dedupe of
                                    Some ttl \<Rightarrow> setExpiry mapKey entry (now + ttl) s1
                                  | None \<Rightarrow> s1)
                        in (Some \<lparr>er_id = j_id k, er_duplicate = True\<rparr>,
                            signalWake (Some (j_queue k)) s2))
                     else if windowLive now entry then
                       (Some \<lparr>er_id = de_jobId entry, er_duplicate = True\<rparr>,
                        (case dp_ttlMs dedupe of
                           Some ttl \<Rightarrow> if dp_extend dedupe then setExpiry mapKey entry (now + ttl) s else s
                         | None \<Rightarrow> s))
                     else if de_expiresAt entry = None \<and> j_state k \<notin> TERMINAL_STATES then
                       (Some \<lparr>er_id = de_jobId entry, er_duplicate = True\<rparr>, s)
                     else (None, s)
                 | None \<Rightarrow>
                     if windowLive now entry then
                       (Some \<lparr>er_id = de_jobId entry, er_duplicate = True\<rparr>,
                        (case dp_ttlMs dedupe of
                           Some ttl \<Rightarrow> if dp_extend dedupe then setExpiry mapKey entry (now + ttl) s else s
                         | None \<Rightarrow> s))
                     else (None, s)))"

definition enqueueDecide ::
  "millis \<Rightarrow> enqueue_request \<Rightarrow> mem_store \<Rightarrow> enqueue_result option \<times> mem_store" where
  "enqueueDecide now request s =
     (case rq_id request of
        Some i \<Rightarrow>
          if mapHas (jobs s) i then (Some \<lparr>er_id = i, er_duplicate = True\<rparr>, s)
          else (case rq_dedupe request of None \<Rightarrow> (None, s) | Some d \<Rightarrow> dedupeDecide now request d s)
      | None \<Rightarrow>
          (case rq_dedupe request of None \<Rightarrow> (None, s) | Some d \<Rightarrow> dedupeDecide now request d s))"

section \<open>Id generation\<close>

definition autoId :: "nat \<Rightarrow> job_id" where
  "autoId n = ''j-'' @ natToString n"

lemma inj_autoId: "inj autoId"
  by (rule injI) (simp add: autoId_def natToString_inj)

text \<open>
  The loop \<open>do { id = j-<++idCounter> } while (jobs.has(id))\<close>. It ends because only finitely many
  ids are taken and each round passes one of them.
\<close>

function nextAutoId :: "job_id list \<Rightarrow> nat \<Rightarrow> nat" where
  "nextAutoId taken c =
     (if autoId (c + 1) \<in> set taken then nextAutoId taken (c + 1) else c + 1)"
  by pat_completeness auto
termination
proof (relation "measure (\<lambda>(taken, c). card {n. c < n \<and> autoId n \<in> set taken})", goal_cases)
  case 1
  then show ?case by simp
next
  case (2 taken c)
  have fin: "finite {n. c < n \<and> autoId n \<in> set taken}"
    by (rule finite_subset [OF _ finite_vimageI [OF finite_set inj_autoId, of taken]]) auto
  have "{n. c + 1 < n \<and> autoId n \<in> set taken} \<subset> {n. c < n \<and> autoId n \<in> set taken}"
    using 2 by auto
  from psubset_card_mono [OF fin this] show ?case by simp
qed

declare nextAutoId.simps [simp del]

lemma nextAutoId_fresh: "autoId (nextAutoId taken c) \<notin> set taken \<and> c < nextAutoId taken c"
proof (induction taken c rule: nextAutoId.induct)
  case (1 taken c)
  then show ?case by (subst (1 2) nextAutoId.simps) auto
qed

text \<open>A user generator gets five draws; \<open>g k\<close> is the value of its \<open>k\<close>-th call.\<close>

fun drawId :: "(nat \<Rightarrow> job_id) \<Rightarrow> job_id list \<Rightarrow> nat \<Rightarrow> nat \<Rightarrow> job_id option \<times> nat" where
  "drawId g taken 0 k = (None, k)"
| "drawId g taken (Suc n) k =
     (if g k \<in> set taken then drawId g taken n (k + 1) else (Some (g k), k + 1))"

type_synonym id_generator = "enqueue_request \<Rightarrow> nat \<Rightarrow> job_id"

definition chooseId ::
  "id_generator option \<Rightarrow> enqueue_request \<Rightarrow> mem_store \<Rightarrow> job_id option \<times> mem_store" where
  "chooseId gen request s =
     (case rq_id request of
        Some i \<Rightarrow> (Some i, s)
      | None \<Rightarrow>
          (case gen of
             None \<Rightarrow>
               (let n = nextAutoId (mapKeys (jobs s)) (idCounter s)
                in (Some (autoId n), s\<lparr>idCounter := n\<rparr>))
           | Some generate \<Rightarrow>
               (let (found, k) = drawId (generate request) (mapKeys (jobs s)) 5 (draws s)
                in (found, s\<lparr>draws := k\<rparr>))))"

definition registerJob :: "job_id \<Rightarrow> enqueue_request \<Rightarrow> millis \<Rightarrow> mem_store \<Rightarrow> mem_store" where
  "registerJob i request now s =
     (let s1 = insertJobRecord i request now s
      in case rq_dedupe request of
           None \<Rightarrow> s1
         | Some d \<Rightarrow>
             s1\<lparr>dedupes := mapSet (dedupeMapKey (rq_name request) (dp_key d))
                   \<lparr>de_jobId = i, de_expiresAt = map_option (\<lambda>ttl. now + ttl) (dp_ttlMs d)\<rparr>
                   (dedupes s1)\<rparr>)"

definition enqueueInsert ::
  "id_generator option \<Rightarrow> millis \<Rightarrow> enqueue_request \<Rightarrow> mem_store
    \<Rightarrow> (store_error + enqueue_result) \<times> mem_store" where
  "enqueueInsert gen now request s =
     (case chooseId gen request s of
        (None, s1) \<Rightarrow>
          (Inl (JobStoreError ''enqueue failed: could not generate a unique job id''), s1)
      | (Some i, s1) \<Rightarrow> (Inr \<lparr>er_id = i, er_duplicate = False\<rparr>, registerJob i request now s1))"

definition enqueueOne ::
  "id_generator option \<Rightarrow> millis \<Rightarrow> enqueue_request \<Rightarrow> mem_store
    \<Rightarrow> (store_error + enqueue_result) \<times> mem_store" where
  "enqueueOne gen now request s =
     (case enqueueDecide now request s of
        (Some r, s') \<Rightarrow> (Inr r, s')
      | (None, s') \<Rightarrow> enqueueInsert gen now request s')"

text \<open>
  \<open>Effect.forEach(requests, enqueueOne)\<close>: in order, each reading the clock for itself, stopping at
  the first failure with what was already inserted kept.
\<close>

fun enqueueMany ::
  "id_generator option \<Rightarrow> (millis \<times> enqueue_request) list \<Rightarrow> mem_store
    \<Rightarrow> (store_error + enqueue_result list) \<times> mem_store" where
  "enqueueMany gen [] s = (Inr [], s)"
| "enqueueMany gen ((now, request) # rest) s =
     (case enqueueOne gen now request s of
        (Inl e, s') \<Rightarrow> (Inl e, s')
      | (Inr r, s') \<Rightarrow>
          (case enqueueMany gen rest s' of
             (Inl e, s'') \<Rightarrow> (Inl e, s'')
           | (Inr rs, s'') \<Rightarrow> (Inr (r # rs), s'')))"

end
