(* ===== verification/PgTables.thy ===== *)
theory PgTables
  imports MemFlow MemEnqueue
begin

text \<open>
  The Postgres driver, \<open>drizzle-postgres/\<close>: the tables of \<open>schema.ts\<close> as typed rows, the statements
  the driver shares (retention, ledger, outbox, dedupe release, the marking of dependency rows), the
  mapping of rows to records, and the wake-up registry of a process.

  The database runs one transaction at a time: \<open>transact\<close> commits the tables or restores them, and
  leaves the sequences advanced either way, as Postgres does. What concurrency adds to that and the
  driver handles (rows skipped because another transaction has locked them, a transaction killed by a
  deadlock) is an argument of the operations. A table with a primary key is a map from it. A column
  that may be NULL is an \<open>option\<close>, and a comparison with NULL is not true; a \<open>jsonb\<close> column can hold
  the JSON value \<open>null\<close> besides. Rows come back in table order where the statement has no ORDER BY.
  Where a query orders or compares texts, the order is the database's, an argument of the operation.
\<close>

section \<open>Tables\<close>

datatype extra_value = XText string | XNumber int | XBool bool | XDate millis | XNull

record pg_job =
  pj_id :: job_id
  pj_name :: string
  pj_queue :: queue_name
  pj_state :: job_state
  pj_priority :: int
  pj_seq :: nat
  pj_payload :: json
  pj_metadata :: metadata
  pj_attemptsMax :: int
  pj_attemptsMade :: int
  pj_stalledCount :: int
  pj_backoff :: "backoff_policy option"
  pj_keep :: "keep_policy option"
  pj_timeoutMs :: "int option"
  pj_cancelRequested :: bool
  pj_dedupeKey :: "string option"
  pj_trace :: "trace_context option"
  pj_parent :: "parent_envelope option"
  pj_flowFailFast :: "bool option"
  pj_flowPending :: "int option"
  pj_flowCompleted :: "int option"
  pj_flowFailed :: "int option"
  pj_flowCancelled :: "int option"
  pj_runAt :: millis
  pj_enqueuedAt :: millis
  pj_processedAt :: "millis option"
  pj_finishedAt :: "millis option"
  pj_exit :: "json option"
  pj_failedReason :: "string option"
  pj_lockToken :: "string option"
  pj_lockExpiresAt :: "millis option"
  pj_extra :: "(string \<times> extra_value) list"

record pg_attempt =
  pa_jobId :: job_id
  pa_attempt :: nat
  pa_outcome :: attempt_outcome
  pa_startedAt :: "millis option"
  pa_finishedAt :: millis
  pa_exit :: "json option"

record pg_dedupe =
  pd_jobId :: string
  pd_windowExpiresAt :: "millis option"

record pg_child =
  pc_flowId :: job_id
  pc_childKey :: string
  pc_name :: string
  pc_storeKey :: string
  pc_spec :: enqueue_request
  pc_status :: row_status
  pc_exit :: "json option"
  pc_failedReason :: "string option"
  pc_cascaded :: bool
  pc_pendingSince :: millis

record pg_outbox =
  po_id :: nat
  po_flowName :: string
  po_parentStoreKey :: string
  po_report :: flow_child_report

record pg_db =
  db_jobs :: "(job_id, pg_job) jsmap"
  db_attempts :: "pg_attempt list"
  db_schedules :: "(schedule_key, schedule_record) jsmap"
  db_queues :: "(queue_name, bool) jsmap"
  db_dedupe :: "(string \<times> string, pg_dedupe) jsmap"
  db_children :: "(job_id \<times> string, pg_child) jsmap"
  db_outbox :: "pg_outbox list"
  db_seq :: nat
  db_outboxSeq :: nat

definition emptyDb :: pg_db where
  "emptyDb = \<lparr> db_jobs = [], db_attempts = [], db_schedules = [], db_queues = [], db_dedupe = [],
     db_children = [], db_outbox = [], db_seq = 0, db_outboxSeq = 0 \<rparr>"

text \<open>An \<open>integer\<close> column has 32 bits, a \<open>bigint\<close> 64: a value outside fails the statement.\<close>

definition int4 :: "int \<Rightarrow> bool" where
  "int4 n \<longleftrightarrow> - 2147483648 \<le> n \<and> n \<le> 2147483647"

definition int8 :: "int \<Rightarrow> bool" where
  "int8 n \<longleftrightarrow> - 9223372036854775808 \<le> n \<and> n \<le> 9223372036854775807"

section \<open>Statements\<close>

definition nextSeq :: "pg_db \<Rightarrow> nat \<times> pg_db" where
  "nextSeq db = (db_seq db + 1, db\<lparr>db_seq := db_seq db + 1\<rparr>)"

text \<open>\<open>UPDATE jobs SET f WHERE id = i AND P RETURNING *\<close>, and the same without the key.\<close>

definition updateJob :: "job_id \<Rightarrow> (pg_job \<Rightarrow> bool) \<Rightarrow> (pg_job \<Rightarrow> pg_job) \<Rightarrow> pg_db \<Rightarrow> pg_job option \<times> pg_db" where
  "updateJob i P f db =
     (case mapGet (db_jobs db) i of
        None \<Rightarrow> (None, db)
      | Some row \<Rightarrow> if P row then (Some (f row), db\<lparr>db_jobs := mapSet i (f row) (db_jobs db)\<rparr>) else (None, db))"

definition updateJobs :: "(pg_job \<Rightarrow> bool) \<Rightarrow> (pg_job \<Rightarrow> pg_job) \<Rightarrow> pg_db \<Rightarrow> pg_job list \<times> pg_db" where
  "updateJobs P f db =
     (map f (filter P (mapValues (db_jobs db))),
      db\<lparr>db_jobs := map_ran (\<lambda>_ row. if P row then f row else row) (db_jobs db)\<rparr>)"

definition pgOwesCascades :: "pg_db \<Rightarrow> job_id \<Rightarrow> bool" where
  "pgOwesCascades db i =
     list_ex (\<lambda>row. pc_flowId row = i \<and> pc_status row = RCancelled \<and> \<not> pc_cascaded row) (mapValues (db_children db))"

text \<open>The attempts of a deleted job go with it (the foreign key cascades).\<close>

definition purgeJobsWhere :: "(pg_job \<Rightarrow> bool) \<Rightarrow> pg_db \<Rightarrow> job_id list \<times> pg_db" where
  "purgeJobsWhere P db =
     (let deleted = map pj_id (filter P (mapValues (db_jobs db)))
      in (deleted,
          db\<lparr>db_jobs := filter (\<lambda>e. fst e \<notin> set deleted) (db_jobs db),
             db_attempts := filter (\<lambda>a. pa_jobId a \<notin> set deleted) (db_attempts db),
             db_children := filter (\<lambda>e. fst (fst e) \<notin> set deleted) (db_children db)\<rparr>))"

definition insertAttempt ::
  "job_id \<Rightarrow> attempt_outcome \<Rightarrow> millis option \<Rightarrow> millis \<Rightarrow> json option \<Rightarrow> pg_db \<Rightarrow> pg_db" where
  "insertAttempt i outcome startedAt finishedAt exitVal db =
     (let ledger = filter (\<lambda>a. pa_jobId a = i) (db_attempts db);
          n = fold max (map pa_attempt ledger) 0 + 1
      in db\<lparr>db_attempts := db_attempts db @ [\<lparr> pa_jobId = i, pa_attempt = n, pa_outcome = outcome,
                             pa_startedAt = startedAt, pa_finishedAt = finishedAt, pa_exit = exitVal \<rparr>]\<rparr>)"

definition pgKeepPolicyFor :: "keep_policy option \<Rightarrow> job_state \<Rightarrow> keep_state_policy option" where
  "pgKeepPolicyFor keep st =
     (case keep of
        None \<Rightarrow> None
      | Some k \<Rightarrow>
          (case (case st of Completed \<Rightarrow> kp_completed k | Failed \<Rightarrow> kp_failed k | Cancelled \<Rightarrow> kp_cancelled k
                 | _ \<Rightarrow> None) of
             Some policy \<Rightarrow> Some policy
           | None \<Rightarrow>
               if kp_completed k = None \<and> kp_failed k = None \<and> kp_cancelled k = None then kp_flat k else None))"

definition finishedBy :: "millis \<Rightarrow> pg_job \<Rightarrow> bool" where
  "finishedBy t row = (case pj_finishedAt row of None \<Rightarrow> False | Some f \<Rightarrow> f \<le> t)"

text \<open>\<open>ORDER BY finished_at DESC, seq DESC\<close>: NULL sorts first.\<close>

definition newestFirst :: "pg_job \<Rightarrow> pg_job \<Rightarrow> int" where
  "newestFirst a b =
     (case (pj_finishedAt a, pj_finishedAt b) of
        (None, Some _) \<Rightarrow> -1
      | (Some _, None) \<Rightarrow> 1
      | (x, y) \<Rightarrow>
          (let d = orElse y 0 - orElse x 0
           in if d \<noteq> 0 then d else int (pj_seq b) - int (pj_seq a)))"

text \<open>Retention, \<open>None\<close> when a statement fails: a LIMIT must not be negative.\<close>

definition pgApplyKeep :: "string \<Rightarrow> job_state \<Rightarrow> keep_policy option \<Rightarrow> millis \<Rightarrow> pg_db \<Rightarrow> pg_db option" where
  "pgApplyKeep name st keep now db =
     (case pgKeepPolicyFor keep st of
        None \<Rightarrow> Some db
      | Some policy \<Rightarrow>
          (let peer = (\<lambda>row. pj_name row = name \<and> pj_state row = st);
               db1 = (case kp_ageMs policy of
                        None \<Rightarrow> db
                      | Some age \<Rightarrow>
                          snd (purgeJobsWhere (\<lambda>row. peer row \<and> finishedBy (now - age) row \<and> \<not> pgOwesCascades db (pj_id row)) db))
           in case kp_count policy of
                None \<Rightarrow> Some db1
              | Some n \<Rightarrow>
                  if n < 0 then None
                  else
                    (let kept = map pj_id (take (nat n) (toSorted newestFirst (filter peer (mapValues (db_jobs db1)))))
                     in Some (snd (purgeJobsWhere
                          (\<lambda>row. peer row \<and> pj_id row \<notin> set kept \<and> \<not> pgOwesCascades db1 (pj_id row)) db1)))))"

definition pgReleaseDedupe :: "string \<Rightarrow> string option \<Rightarrow> job_id \<Rightarrow> millis \<Rightarrow> pg_db \<Rightarrow> pg_db" where
  "pgReleaseDedupe name dedupeKey i now db =
     (case dedupeKey of
        None \<Rightarrow> db
      | Some key \<Rightarrow>
          (case mapGet (db_dedupe db) (name, key) of
             None \<Rightarrow> db
           | Some entry \<Rightarrow>
               if pd_jobId entry = i
                  \<and> (case pd_windowExpiresAt entry of None \<Rightarrow> True | Some e \<Rightarrow> e \<le> now)
               then db\<lparr>db_dedupe := mapDelete (name, key) (db_dedupe db)\<rparr>
               else db))"

text \<open>\<open>x ?? undefined\<close> of a \<open>jsonb\<close> column: NULL and the JSON value \<open>null\<close> both read as absent.\<close>

definition nullish :: "json option \<Rightarrow> json option" where
  "nullish v = (if v = Some JNull then None else v)"

definition pgAppendOutbox ::
  "parent_envelope option \<Rightarrow> terminal_state \<Rightarrow> json option \<Rightarrow> string option \<Rightarrow> pg_db \<Rightarrow> pg_db" where
  "pgAppendOutbox parent outcome exitVal failedReason db =
     (case parent of
        None \<Rightarrow> db
      | Some p \<Rightarrow>
          db\<lparr>db_outboxSeq := db_outboxSeq db + 1,
             db_outbox := db_outbox db @ [\<lparr> po_id = db_outboxSeq db + 1, po_flowName = pe_flowName p,
               po_parentStoreKey = pe_parentStoreKey p,
               po_report = \<lparr> rp_flowId = pe_flowId p, rp_childKey = pe_childKey p, rp_outcome = outcome,
                             rp_exit = exitVal, rp_failedReason = failedReason \<rparr> \<rparr>]\<rparr>)"

definition pendingChildRow :: "job_id \<Rightarrow> pg_child \<Rightarrow> bool" where
  "pendingChildRow flowId row \<longleftrightarrow> pc_flowId row = flowId \<and> pc_status row = RPending"

definition cancelPendingChildren :: "job_id \<Rightarrow> pg_db \<Rightarrow> int \<times> pg_db" where
  "cancelPendingChildren flowId db =
     (int (length (filter (pendingChildRow flowId) (mapValues (db_children db)))),
      db\<lparr>db_children := map_ran (\<lambda>_ row. if pendingChildRow flowId row
           then row\<lparr>pc_status := RCancelled, pc_cascaded := False\<rparr> else row) (db_children db)\<rparr>)"

text \<open>What every transition into a terminal state ends with, on the row as it was left.\<close>

definition settleTerminal ::
  "pg_job \<Rightarrow> attempt_outcome \<Rightarrow> terminal_state \<Rightarrow> json option \<Rightarrow> millis \<Rightarrow> pg_db \<Rightarrow> pg_db" where
  "settleTerminal row ledger outcome attemptExit now db =
     (let db1 = insertAttempt (pj_id row) ledger (pj_processedAt row) now attemptExit db;
          db2 = pgAppendOutbox (pj_parent row) outcome (nullish (pj_exit row)) (pj_failedReason row) db1
      in pgReleaseDedupe (pj_name row) (pj_dedupeKey row) (pj_id row) now db2)"

section \<open>Rows and records\<close>

definition pgToRecord :: "pg_job \<Rightarrow> job_record" where
  "pgToRecord row = \<lparr>
     j_id = pj_id row,
     j_name = pj_name row,
     j_queue = pj_queue row,
     j_payload = pj_payload row,
     j_metadata = pj_metadata row,
     j_state = pj_state row,
     j_priority = pj_priority row,
     j_attemptsMax = pj_attemptsMax row,
     j_attemptsMade = pj_attemptsMade row,
     j_stalledCount = pj_stalledCount row,
     j_backoff = pj_backoff row,
     j_keep = pj_keep row,
     j_timeoutMs = pj_timeoutMs row,
     j_cancelRequested = pj_cancelRequested row,
     j_dedupeKey = pj_dedupeKey row,
     j_trace = pj_trace row,
     j_parent = pj_parent row,
     j_flow = (case pj_flowPending row of
                 None \<Rightarrow> None
               | Some n \<Rightarrow> Some \<lparr> fs_failFast = (pj_flowFailFast row = Some True), fs_pending = n,
                   fs_completed = orElse (pj_flowCompleted row) 0, fs_failed = orElse (pj_flowFailed row) 0,
                   fs_cancelled = orElse (pj_flowCancelled row) 0 \<rparr>),
     j_runAt = pj_runAt row,
     j_enqueuedAt = pj_enqueuedAt row,
     j_processedAt = pj_processedAt row,
     j_finishedAt = pj_finishedAt row,
     j_exit = nullish (pj_exit row),
     j_failedReason = pj_failedReason row \<rparr>"

definition pgToAttempt :: "pg_attempt \<Rightarrow> attempt_record" where
  "pgToAttempt a = \<lparr> at_attempt = pa_attempt a, at_startedAt = pa_startedAt a,
     at_finishedAt = pa_finishedAt a, at_outcome = pa_outcome a, at_exit = nullish (pa_exit a) \<rparr>"

definition toFlowChildRecord :: "pg_child \<Rightarrow> flow_child_record" where
  "toFlowChildRecord row = \<lparr>
     fr_flowId = pc_flowId row,
     fr_childKey = pc_childKey row,
     fr_name = pc_name row,
     fr_storeKey = pc_storeKey row,
     fr_childJobId = rq_id (pc_spec row),
     fr_status = pc_status row,
     fr_exit = nullish (pc_exit row),
     fr_failedReason = pc_failedReason row,
     fr_cascaded = pc_cascaded row \<rparr>"

section \<open>A process\<close>

record pg_wake =
  pw_version :: nat
  pw_lastBroadcast :: nat
  pw_lastWake :: "(queue_name, nat) jsmap"
  pw_waiters :: "waiter list"
  pw_resolved :: "nat list"
  pw_nextWaiter :: nat

definition noPgWakes :: pg_wake where
  "noPgWakes = \<lparr> pw_version = 0, pw_lastBroadcast = 0, pw_lastWake = [], pw_waiters = [], pw_resolved = [],
     pw_nextWaiter = 0 \<rparr>"

record pg_store =
  ps_db :: pg_db
  ps_wake :: pg_wake
  ps_notified :: "string list"
  ps_draws :: nat

text \<open>The options of a store: the extended columns (TS key, column name), their values, the generator.\<close>

record pg_options =
  px_columns :: "(string \<times> string) list"
  px_extraValues :: "(enqueue_request \<Rightarrow> (string \<times> extra_value) list) option"
  px_gen :: "id_generator option"

definition extraValuesFor :: "pg_options \<Rightarrow> enqueue_request \<Rightarrow> (string \<times> extra_value) list" where
  "extraValuesFor opts request =
     (let mapped = (case px_extraValues opts of None \<Rightarrow> [] | Some f \<Rightarrow> f request)
      in map (\<lambda>(key, name). (name,
            case mapGet mapped key of
              Some v \<Rightarrow> v
            | None \<Rightarrow> (case mapGet (rq_metadata request) key of Some t \<Rightarrow> XText t | None \<Rightarrow> XNull)))
           (px_columns opts))"

definition pgLastWakeFor :: "pg_wake \<Rightarrow> queue_name \<Rightarrow> nat" where
  "pgLastWakeFor w queue = max (orElse (mapGet (pw_lastWake w) queue) 0) (pw_lastBroadcast w)"

definition pgSignalWake :: "queue_name option \<Rightarrow> pg_wake \<Rightarrow> pg_wake" where
  "pgSignalWake queue w =
     (let v = pw_version w + 1;
          toWake = filter (watches queue) (pw_waiters w)
      in w\<lparr> pw_version := v,
            pw_lastBroadcast := (case queue of None \<Rightarrow> v | Some _ \<Rightarrow> pw_lastBroadcast w),
            pw_lastWake := (case queue of None \<Rightarrow> pw_lastWake w | Some q \<Rightarrow> mapSet q v (pw_lastWake w)),
            pw_waiters := filter (\<lambda>x. \<not> watches queue x) (pw_waiters w),
            pw_resolved := pw_resolved w @ map wt_id toWake \<rparr>)"

definition pgWakeUp :: "queue_name option \<Rightarrow> pg_store \<Rightarrow> pg_store" where
  "pgWakeUp queue st =
     st\<lparr>ps_wake := pgSignalWake queue (ps_wake st),
        ps_notified := ps_notified st @ [case queue of Some q \<Rightarrow> (if q = [] then ''*'' else q) | None \<Rightarrow> ''*'']\<rparr>"

text \<open>One notification taken off the LISTEN subscription.\<close>

definition pgNotified :: "string \<Rightarrow> pg_store \<Rightarrow> pg_store" where
  "pgNotified payload st =
     st\<lparr>ps_wake := pgSignalWake (if payload = ''*'' then None else Some payload) (ps_wake st)\<rparr>"

definition pgAwaitWake :: "queue_name list \<Rightarrow> nat \<Rightarrow> pg_store \<Rightarrow> nat option \<times> pg_store" where
  "pgAwaitWake queues wakeToken st =
     (let w = ps_wake st
      in if list_ex (\<lambda>queue. pgLastWakeFor w queue > wakeToken) queues then (None, st)
         else (Some (pw_nextWaiter w),
               st\<lparr>ps_wake := w\<lparr>pw_waiters := pw_waiters w @ [\<lparr>wt_id = pw_nextWaiter w, wt_queues = queues\<rparr>],
                               pw_nextWaiter := pw_nextWaiter w + 1\<rparr>\<rparr>))"

definition pgCancelWait :: "nat \<Rightarrow> pg_store \<Rightarrow> pg_store" where
  "pgCancelWait n st =
     st\<lparr>ps_wake := (ps_wake st)\<lparr>pw_waiters := filter (\<lambda>x. wt_id x \<noteq> n) (pw_waiters (ps_wake st))\<rparr>\<rparr>"

section \<open>Transactions\<close>

definition rollback :: "pg_store \<Rightarrow> pg_store \<Rightarrow> pg_store" where
  "rollback st0 st =
     st\<lparr>ps_db := (ps_db st0)\<lparr>db_seq := db_seq (ps_db st), db_outboxSeq := db_outboxSeq (ps_db st)\<rparr>\<rparr>"

definition transact :: "(pg_store \<Rightarrow> (store_error + 'a) \<times> pg_store) \<Rightarrow> pg_store \<Rightarrow> (store_error + 'a) \<times> pg_store" where
  "transact body st =
     (case body st of
        (Inl e, st') \<Rightarrow> (Inl e, rollback st st')
      | (Inr a, st') \<Rightarrow> (Inr a, st'))"

text \<open>
  What the driver of the database throws: drizzle wraps the failure in an envelope with a cause, the SQL
  client classifies it. \<open>isDeadlockError\<close> unwraps both; the text of the raw error is the fallback.
\<close>

datatype sql_reason = DeadlockReason | OtherReason "string option"
datatype thrown = SqlError sql_reason | Envelope "thrown option" | Unknown

definition contains :: "string \<Rightarrow> string \<Rightarrow> bool" where
  "contains needle s = list_ex (\<lambda>n. startsWith needle (drop n s)) [0..<length s + 1]"

definition isDeadlockError :: "thrown \<Rightarrow> bool" where
  "isDeadlockError err =
     (case (case err of Envelope found \<Rightarrow> found | e \<Rightarrow> Some e) of
        Some (SqlError DeadlockReason) \<Rightarrow> True
      | Some (SqlError (OtherReason (Some raw))) \<Rightarrow> contains ''40P01'' raw \<or> contains ''deadlock detected'' raw
      | _ \<Rightarrow> False)"

text \<open>
  \<open>Effect.retry({ times: 3, while: isDeadlockError })\<close> around a transaction: \<open>faults\<close> is what the
  database throws at its successive attempts, each of which is rolled back, before it lets one through.
\<close>

fun retryDeadlocks ::
  "nat \<Rightarrow> thrown list \<Rightarrow> string \<Rightarrow> (pg_store \<Rightarrow> (store_error + 'a) \<times> pg_store) \<Rightarrow> pg_store
    \<Rightarrow> (store_error + 'a) \<times> pg_store" where
  "retryDeadlocks n [] msg run st = run st"
| "retryDeadlocks n (e # faults) msg run st =
     (if isDeadlockError e
      then (case n of 0 \<Rightarrow> (Inl (JobStoreError msg), st) | Suc k \<Rightarrow> retryDeadlocks k faults msg run st)
      else (Inl (JobStoreError msg), st))"

end
