(* ===== verification/PgEnqueue.thy ===== *)
theory PgEnqueue
  imports PgTables
begin

text \<open>
  Enqueueing in the Postgres driver: the INSERT with its five draws of an id, the dedupe decision in a
  transaction, and the batches of \<open>enqueueMany\<close>.
\<close>

section \<open>The shared INSERT\<close>

definition jobRow :: "pg_options \<Rightarrow> enqueue_request \<Rightarrow> millis \<Rightarrow> job_id \<Rightarrow> nat \<Rightarrow> pg_job" where
  "jobRow opts request now i sq = \<lparr>
     pj_id = i,
     pj_name = rq_name request,
     pj_queue = rq_queue request,
     pj_state = (if rq_delayMs request > 0 then Delayed else Waiting),
     pj_priority = rq_priority request,
     pj_seq = sq,
     pj_payload = rq_payload request,
     pj_metadata = rq_metadata request,
     pj_attemptsMax = rq_attemptsMax request,
     pj_attemptsMade = 0,
     pj_stalledCount = 0,
     pj_backoff = rq_backoff request,
     pj_keep = rq_keep request,
     pj_timeoutMs = rq_timeoutMs request,
     pj_cancelRequested = False,
     pj_dedupeKey = map_option dp_key (rq_dedupe request),
     pj_trace = rq_trace request,
     pj_parent = rq_parent request,
     pj_flowFailFast = None,
     pj_flowPending = None,
     pj_flowCompleted = None,
     pj_flowFailed = None,
     pj_flowCancelled = None,
     pj_runAt = now + max 0 (rq_delayMs request),
     pj_enqueuedAt = now,
     pj_processedAt = None,
     pj_finishedAt = None,
     pj_exit = None,
     pj_failedReason = None,
     pj_lockToken = None,
     pj_lockExpiresAt = None,
     pj_extra = extraValuesFor opts request \<rparr>"

definition fitsColumns :: "enqueue_request \<Rightarrow> bool" where
  "fitsColumns request \<longleftrightarrow> int4 (rq_priority request) \<and> int4 (rq_attemptsMax request)
     \<and> (case rq_timeoutMs request of None \<Rightarrow> True | Some t \<Rightarrow> int8 t)"

text \<open>
  \<open>INSERT ... ON CONFLICT (id) DO NOTHING RETURNING id\<close>. The default of \<open>seq\<close> is drawn before the
  conflict is seen.
\<close>

definition insertRow :: "pg_options \<Rightarrow> enqueue_request \<Rightarrow> millis \<Rightarrow> job_id \<Rightarrow> pg_db \<Rightarrow> bool \<times> pg_db" where
  "insertRow opts request now i db =
     (case nextSeq db of (sq, db1) \<Rightarrow>
        if mapHas (db_jobs db1) i then (False, db1)
        else (True, db1\<lparr>db_jobs := mapSet i (jobRow opts request now i sq) (db_jobs db1)\<rparr>))"

text \<open>The id a round inserts under: the caller's, the generator's, or \<open>j-\<close> with the next value of the sequence.\<close>

definition roundId :: "pg_options \<Rightarrow> enqueue_request \<Rightarrow> pg_store \<Rightarrow> job_id \<times> pg_store" where
  "roundId opts request st =
     (case rq_id request of
        Some i \<Rightarrow> (i, st)
      | None \<Rightarrow>
          (case px_gen opts of
             Some generate \<Rightarrow> (generate request (ps_draws st), st\<lparr>ps_draws := ps_draws st + 1\<rparr>)
           | None \<Rightarrow>
               (case nextSeq (ps_db st) of (n, db) \<Rightarrow> (''j-'' @ natToString n, st\<lparr>ps_db := db\<rparr>))))"

fun insertRounds ::
  "nat \<Rightarrow> pg_options \<Rightarrow> enqueue_request \<Rightarrow> millis \<Rightarrow> pg_store \<Rightarrow> (store_error + enqueue_result) \<times> pg_store" where
  "insertRounds 0 opts request now st =
     (Inl (JobStoreError ''enqueue failed: could not generate a unique job id''), st)"
| "insertRounds (Suc n) opts request now st =
     (case roundId opts request st of (i, st1) \<Rightarrow>
        if \<not> fitsColumns request then (Inl (JobStoreError ''enqueue failed''), st1)
        else
          (case insertRow opts request now i (ps_db st1) of (inserted, db) \<Rightarrow>
             (let st2 = st1\<lparr>ps_db := db\<rparr>
              in if inserted then (Inr \<lparr>er_id = i, er_duplicate = False\<rparr>, st2)
                 else if rq_id request \<noteq> None then (Inr \<lparr>er_id = i, er_duplicate = True\<rparr>, st2)
                 else insertRounds n opts request now st2)))"

definition insertJob ::
  "pg_options \<Rightarrow> enqueue_request \<Rightarrow> millis \<Rightarrow> pg_store \<Rightarrow> (store_error + enqueue_result) \<times> pg_store" where
  "insertJob opts request now st = insertRounds 5 opts request now st"

section \<open>Dedupe\<close>

definition setWindow :: "string \<times> string \<Rightarrow> millis \<Rightarrow> pg_db \<Rightarrow> pg_db" where
  "setWindow key e db =
     (case mapGet (db_dedupe db) key of
        None \<Rightarrow> db
      | Some entry \<Rightarrow> db\<lparr>db_dedupe := mapSet key (entry\<lparr>pd_windowExpiresAt := Some e\<rparr>) (db_dedupe db)\<rparr>)"

definition replaceRow :: "pg_options \<Rightarrow> enqueue_request \<Rightarrow> millis \<Rightarrow> pg_job \<Rightarrow> pg_job" where
  "replaceRow opts request now row = row\<lparr>
     pj_payload := rq_payload request,
     pj_metadata := rq_metadata request,
     pj_priority := rq_priority request,
     pj_attemptsMax := rq_attemptsMax request,
     pj_backoff := rq_backoff request,
     pj_keep := rq_keep request,
     pj_timeoutMs := rq_timeoutMs request,
     pj_trace := rq_trace request,
     pj_runAt := now + max 0 (rq_delayMs request),
     pj_extra := extraValuesFor opts request \<rparr>"

text \<open>The no-op upsert that takes the row lock: the entry as it was, or a placeholder without a job.\<close>

definition lockEntry :: "string \<times> string \<Rightarrow> pg_db \<Rightarrow> pg_dedupe \<times> pg_db" where
  "lockEntry key db =
     (case mapGet (db_dedupe db) key of
        Some entry \<Rightarrow> (entry, db)
      | None \<Rightarrow>
          (let entry = \<lparr>pd_jobId = [], pd_windowExpiresAt = None\<rparr>
           in (entry, db\<lparr>db_dedupe := mapSet key entry (db_dedupe db)\<rparr>)))"

definition pgWindowLive :: "millis \<Rightarrow> pg_dedupe \<Rightarrow> bool" where
  "pgWindowLive now entry = (case pd_windowExpiresAt entry of None \<Rightarrow> False | Some e \<Rightarrow> e > now)"

definition rearm :: "string \<times> string \<Rightarrow> millis \<Rightarrow> dedupe_policy \<Rightarrow> pg_db \<Rightarrow> pg_db" where
  "rearm key now policy db =
     (case dp_ttlMs policy of None \<Rightarrow> db | Some ttl \<Rightarrow> setWindow key (now + ttl) db)"

text \<open>
  The decision on a live entry: \<open>None\<close> to take the key over, else the result, the queue to wake, and
  the tables; an UPDATE with a value outside its column fails.
\<close>

definition decideKeyed ::
  "pg_options \<Rightarrow> enqueue_request \<Rightarrow> dedupe_policy \<Rightarrow> millis \<Rightarrow> pg_dedupe \<Rightarrow> pg_db
    \<Rightarrow> (store_error + (enqueue_result \<times> queue_name option) option) \<times> pg_db" where
  "decideKeyed opts request policy now entry db =
     (let key = (rq_name request, dp_key policy);
          keyedState = map_option pj_state (mapGet (db_jobs db) (pd_jobId entry));
          duplicate = \<lparr>er_id = pd_jobId entry, er_duplicate = True\<rparr>
      in if dp_replace policy \<and> keyedState = Some Delayed then
           (if \<not> fitsColumns request then (Inl (JobStoreError ''enqueue failed''), db)
            else
              (case updateJob (pd_jobId entry) (\<lambda>row. pj_state row = Delayed) (replaceRow opts request now) db of
                 (Some row, db1) \<Rightarrow> (Inr (Some (duplicate, Some (pj_queue row))), rearm key now policy db1)
               | (None, db1) \<Rightarrow> (Inr (Some (duplicate, None)), db1)))
         else if pgWindowLive now entry then
           (Inr (Some (duplicate, None)), if dp_extend policy then rearm key now policy db else db)
         else if pd_windowExpiresAt entry = None
                 \<and> (case keyedState of None \<Rightarrow> False | Some s \<Rightarrow> s \<noteq> Completed \<and> s \<noteq> Failed \<and> s \<noteq> Cancelled) then
           (Inr (Some (duplicate, None)), db)
         else (Inr None, db))"

definition takeKey :: "enqueue_request \<Rightarrow> dedupe_policy \<Rightarrow> millis \<Rightarrow> job_id \<Rightarrow> pg_db \<Rightarrow> pg_db" where
  "takeKey request policy now i db =
     db\<lparr>db_dedupe := mapSet (rq_name request, dp_key policy)
          \<lparr>pd_jobId = i, pd_windowExpiresAt = map_option (\<lambda>ttl. now + ttl) (dp_ttlMs policy)\<rparr> (db_dedupe db)\<rparr>"

definition dedupedInsert ::
  "pg_options \<Rightarrow> enqueue_request \<Rightarrow> dedupe_policy \<Rightarrow> millis \<Rightarrow> pg_store
    \<Rightarrow> (store_error + enqueue_result \<times> queue_name option) \<times> pg_store" where
  "dedupedInsert opts request policy now st =
     (case insertJob opts request now st of
        (Inl e, st1) \<Rightarrow> (Inl e, st1)
      | (Inr result, st1) \<Rightarrow>
          if er_duplicate result then (Inr (result, None), st1)
          else (Inr (result, Some (rq_queue request)),
                st1\<lparr>ps_db := takeKey request policy now (er_id result) (ps_db st1)\<rparr>))"

definition dedupedTail ::
  "pg_options \<Rightarrow> enqueue_request \<Rightarrow> dedupe_policy \<Rightarrow> millis \<Rightarrow> pg_store
    \<Rightarrow> (store_error + enqueue_result \<times> queue_name option) \<times> pg_store" where
  "dedupedTail opts request policy now st =
     (case lockEntry (rq_name request, dp_key policy) (ps_db st) of (entry, db1) \<Rightarrow>
        if pd_jobId entry = [] then dedupedInsert opts request policy now (st\<lparr>ps_db := db1\<rparr>)
        else
          (case decideKeyed opts request policy now entry db1 of
             (Inl e, db2) \<Rightarrow> (Inl e, st\<lparr>ps_db := db2\<rparr>)
           | (Inr (Some r), db2) \<Rightarrow> (Inr r, st\<lparr>ps_db := db2\<rparr>)
           | (Inr None, db2) \<Rightarrow> dedupedInsert opts request policy now (st\<lparr>ps_db := db2\<rparr>)))"

definition dedupedBody ::
  "pg_options \<Rightarrow> enqueue_request \<Rightarrow> dedupe_policy \<Rightarrow> millis \<Rightarrow> pg_store
    \<Rightarrow> (store_error + enqueue_result \<times> queue_name option) \<times> pg_store" where
  "dedupedBody opts request policy now st =
     (case rq_id request of
        Some i \<Rightarrow>
          if mapHas (db_jobs (ps_db st)) i then (Inr (\<lparr>er_id = i, er_duplicate = True\<rparr>, None), st)
          else dedupedTail opts request policy now st
      | None \<Rightarrow> dedupedTail opts request policy now st)"

definition enqueueDeduped ::
  "pg_options \<Rightarrow> thrown list \<Rightarrow> millis \<Rightarrow> enqueue_request \<Rightarrow> dedupe_policy \<Rightarrow> pg_store
    \<Rightarrow> (store_error + enqueue_result \<times> queue_name option) \<times> pg_store" where
  "enqueueDeduped opts faults now request policy st =
     retryDeadlocks 3 faults ''enqueue failed'' (transact (dedupedBody opts request policy now)) st"

section \<open>enqueue\<close>

definition pgEnqueueOne ::
  "pg_options \<Rightarrow> thrown list \<Rightarrow> millis \<Rightarrow> enqueue_request \<Rightarrow> pg_store
    \<Rightarrow> (store_error + enqueue_result) \<times> pg_store" where
  "pgEnqueueOne opts faults now request st =
     (case rq_dedupe request of
        Some policy \<Rightarrow>
          (case enqueueDeduped opts faults now request policy st of
             (Inl e, st1) \<Rightarrow> (Inl e, st1)
           | (Inr (result, wake), st1) \<Rightarrow>
               (Inr result, case wake of None \<Rightarrow> st1 | Some q \<Rightarrow> pgWakeUp (Some q) st1))
      | None \<Rightarrow>
          (case insertJob opts request now st of
             (Inl e, st1) \<Rightarrow> (Inl e, st1)
           | (Inr result, st1) \<Rightarrow>
               (Inr result, if er_duplicate result then st1 else pgWakeUp (Some (rq_queue request)) st1)))"

section \<open>enqueueMany\<close>

record pending_item =
  pi_request :: enqueue_request
  pi_index :: nat
  pi_id :: "job_id option"

text \<open>Ids for the items without one: from the generator one by one, or from the sequence in one statement.\<close>

definition drawItem :: "pg_options \<Rightarrow> pending_item \<Rightarrow> pending_item list \<times> pg_store \<Rightarrow> pending_item list \<times> pg_store" where
  "drawItem opts item acc =
     (case acc of (items, st) \<Rightarrow>
        (case pi_id item of
           Some _ \<Rightarrow> (items @ [item], st)
         | None \<Rightarrow>
             (case px_gen opts of
                Some generate \<Rightarrow>
                  (items @ [item\<lparr>pi_id := Some (generate (pi_request item) (ps_draws st))\<rparr>],
                   st\<lparr>ps_draws := ps_draws st + 1\<rparr>)
              | None \<Rightarrow>
                  (case nextSeq (ps_db st) of (n, db) \<Rightarrow>
                     (items @ [item\<lparr>pi_id := Some (''j-'' @ natToString n)\<rparr>], st\<lparr>ps_db := db\<rparr>)))))"

type_synonym pg_results = "enqueue_result option list"

text \<open>
  Repeats within the batch: only the first item with an id is inserted, a later one with an explicit id
  is a duplicate, one with a drawn id is drawn again.
\<close>

definition splitItem ::
  "pending_item \<Rightarrow> pg_results \<times> job_id list \<times> pending_item list \<times> pending_item list
    \<Rightarrow> pg_results \<times> job_id list \<times> pending_item list \<times> pending_item list" where
  "splitItem item acc =
     (case acc of (results, seen, toInsert, still) \<Rightarrow>
        (case pi_id item of
           None \<Rightarrow> acc
         | Some i \<Rightarrow>
             if i \<in> set seen then
               (if rq_id (pi_request item) \<noteq> None
                then (results[pi_index item := Some \<lparr>er_id = i, er_duplicate = True\<rparr>], seen, toInsert, still)
                else (results, seen, toInsert, still @ [item\<lparr>pi_id := None\<rparr>]))
             else (results, i # seen, toInsert @ [item], still)))"

definition itemId :: "pending_item \<Rightarrow> job_id" where
  "itemId item = orElse (pi_id item) []"

definition insertItem ::
  "pg_options \<Rightarrow> millis \<Rightarrow> pending_item \<Rightarrow> job_id list \<times> pg_db \<Rightarrow> job_id list \<times> pg_db" where
  "insertItem opts now item acc =
     (case acc of (inserted, db) \<Rightarrow>
        (case insertRow opts (pi_request item) now (itemId item) db of
           (True, db1) \<Rightarrow> (inserted @ [itemId item], db1)
         | (False, db1) \<Rightarrow> (inserted, db1)))"

definition readItem ::
  "job_id list \<Rightarrow> pending_item \<Rightarrow> pg_results \<times> pending_item list \<times> queue_name list
    \<Rightarrow> pg_results \<times> pending_item list \<times> queue_name list" where
  "readItem inserted item acc =
     (case acc of (results, pending, fresh) \<Rightarrow>
        if itemId item \<in> set inserted then
          (results[pi_index item := Some \<lparr>er_id = itemId item, er_duplicate = False\<rparr>], pending,
           if rq_queue (pi_request item) \<in> set fresh then fresh else fresh @ [rq_queue (pi_request item)])
        else if rq_id (pi_request item) \<noteq> None then
          (results[pi_index item := Some \<lparr>er_id = itemId item, er_duplicate = True\<rparr>], pending, fresh)
        else (results, pending @ [item\<lparr>pi_id := None\<rparr>], fresh))"

text \<open>One INSERT of at most 500 rows; it fails as a whole, before any row.\<close>

fun insertChunks ::
  "pg_options \<Rightarrow> millis \<Rightarrow> pending_item list list \<Rightarrow> pg_results \<Rightarrow> pending_item list \<Rightarrow> pg_store
    \<Rightarrow> (store_error + pg_results \<times> pending_item list) \<times> pg_store" where
  "insertChunks opts now [] results pending st = (Inr (results, pending), st)"
| "insertChunks opts now (chunk # chunks) results pending st =
     (if \<not> list_all (\<lambda>item. fitsColumns (pi_request item)) chunk then (Inl (JobStoreError ''enqueueMany failed''), st)
      else
        (case fold (insertItem opts now) chunk ([], ps_db st) of (inserted, db) \<Rightarrow>
           (case fold (readItem inserted) chunk (results, pending, []) of (results1, pending1, fresh) \<Rightarrow>
              insertChunks opts now chunks results1 pending1
                (fold (\<lambda>q. pgWakeUp (Some q)) fresh (st\<lparr>ps_db := db\<rparr>)))))"

fun slices :: "nat \<Rightarrow> 'a list \<Rightarrow> 'a list list" where
  "slices n [] = []"
| "slices n (x # xs) = take (Suc n) (x # xs) # slices n (drop n xs)"

fun pgBatchRounds ::
  "nat \<Rightarrow> pg_options \<Rightarrow> millis \<Rightarrow> pending_item list \<Rightarrow> pg_results \<Rightarrow> pg_store
    \<Rightarrow> (store_error + pg_results) \<times> pg_store" where
  "pgBatchRounds 0 opts now pending results st = (Inr results, st)"
| "pgBatchRounds (Suc n) opts now pending results st =
     (if pending = [] then (Inr results, st)
      else
        (case fold (drawItem opts) pending ([], st) of (items, st1) \<Rightarrow>
           (case fold splitItem items (results, [], [], []) of (results1, seen, toInsert, still) \<Rightarrow>
              (case insertChunks opts now (slices 499 toInsert) results1 still st1 of
                 (Inl e, st2) \<Rightarrow> (Inl e, st2)
               | (Inr (results2, pending2), st2) \<Rightarrow> pgBatchRounds n opts now pending2 results2 st2))))"

definition pgInsertBatch ::
  "pg_options \<Rightarrow> millis \<Rightarrow> enqueue_request list \<Rightarrow> pg_store \<Rightarrow> (store_error + enqueue_result list) \<times> pg_store" where
  "pgInsertBatch opts now requests st =
     (case pgBatchRounds 5 opts now
             (map (\<lambda>(n, q). \<lparr>pi_request = q, pi_index = n, pi_id = rq_id q\<rparr>) (enumerate 0 requests))
             (map (\<lambda>_. None) requests) st of
        (Inl e, st1) \<Rightarrow> (Inl e, st1)
      | (Inr results, st1) \<Rightarrow>
          if None \<in> set results
          then (Inl (JobStoreError ''enqueueMany failed: could not generate unique job ids''), st1)
          else (Inr (map the results), st1))"

text \<open>
  Runs of plain items go in one batch, items with a dedupe policy one by one between them. \<open>clock k\<close> is
  the \<open>k\<close>-th reading of the clock, one per batch and one per deduped item; \<open>faults k\<close> is what the
  transaction of the item with the \<open>k\<close>-th reading meets.
\<close>

definition pgFlush ::
  "pg_options \<Rightarrow> millis \<Rightarrow> enqueue_request list \<Rightarrow> pg_store \<Rightarrow> (store_error + enqueue_result list) \<times> pg_store" where
  "pgFlush opts now batch st = (if batch = [] then (Inr [], st) else pgInsertBatch opts now batch st)"

fun pgEnqueueLoop ::
  "pg_options \<Rightarrow> (nat \<Rightarrow> millis) \<Rightarrow> (nat \<Rightarrow> thrown list) \<Rightarrow> nat \<Rightarrow> enqueue_request list \<Rightarrow> enqueue_request list
    \<Rightarrow> enqueue_result list \<Rightarrow> pg_store \<Rightarrow> (store_error + enqueue_result list) \<times> pg_store" where
  "pgEnqueueLoop opts clock faults k [] batch results st =
     (case pgFlush opts (clock k) batch st of
        (Inl e, st1) \<Rightarrow> (Inl e, st1)
      | (Inr rs, st1) \<Rightarrow> (Inr (results @ rs), st1))"
| "pgEnqueueLoop opts clock faults k (request # requests) batch results st =
     (if rq_dedupe request = None then pgEnqueueLoop opts clock faults k requests (batch @ [request]) results st
      else
        (case pgFlush opts (clock k) batch st of
           (Inl e, st1) \<Rightarrow> (Inl e, st1)
         | (Inr rs, st1) \<Rightarrow>
             (case pgEnqueueOne opts (faults (k + 1)) (clock (k + 1)) request st1 of
                (Inl e, st2) \<Rightarrow> (Inl e, st2)
              | (Inr r, st2) \<Rightarrow> pgEnqueueLoop opts clock faults (k + 2) requests [] (results @ rs @ [r]) st2)))"

definition pgEnqueueMany ::
  "pg_options \<Rightarrow> (nat \<Rightarrow> millis) \<Rightarrow> (nat \<Rightarrow> thrown list) \<Rightarrow> enqueue_request list \<Rightarrow> pg_store
    \<Rightarrow> (store_error + enqueue_result list) \<times> pg_store" where
  "pgEnqueueMany opts clock faults requests st = pgEnqueueLoop opts clock faults 0 requests [] [] st"

end
