(* ===== verification/MemClaim.thy ===== *)
theory MemClaim
  imports MemState
begin

text \<open>
  Claiming, heartbeats and waiting for work: \<open>claim\<close>, \<open>extendLocks\<close> and \<open>awaitWake\<close> of
  \<open>MemoryJobStore.ts\<close>.
\<close>

section \<open>claim\<close>

definition betterThan :: "mem_job \<Rightarrow> mem_job option \<Rightarrow> bool" where
  "betterThan job best =
     (case best of
        None \<Rightarrow> True
      | Some b \<Rightarrow> j_priority job > j_priority b
               \<or> (j_priority job = j_priority b \<and> m_seq job < m_seq b))"

definition claimScan ::
  "claim_options \<Rightarrow> mem_job \<Rightarrow> mem_job option \<times> millis option \<Rightarrow> mem_job option \<times> millis option" where
  "claimScan opts job acc =
     (case acc of (best, nextRunAt) \<Rightarrow>
        if j_queue job \<noteq> co_queue opts \<or> j_name job \<notin> set (co_names opts) then (best, nextRunAt)
        else if j_state job = Waiting then
          (if betterThan job best then Some job else best, nextRunAt)
        else if j_state job = Delayed then
          (best, case nextRunAt of
                   None \<Rightarrow> Some (j_runAt job)
                 | Some r \<Rightarrow> if j_runAt job < r then Some (j_runAt job) else Some r)
        else (best, nextRunAt))"

definition activate :: "claim_options \<Rightarrow> millis \<Rightarrow> mem_job \<Rightarrow> mem_job" where
  "activate opts now best = best\<lparr>
     j_state := Active,
     m_lockToken := Some (co_token opts),
     m_lockExpiresAt := Some (now + co_lockDurationMs opts),
     j_processedAt := Some now \<rparr>"

definition claim :: "millis \<Rightarrow> claim_options \<Rightarrow> mem_store \<Rightarrow> claim_result \<times> mem_store" where
  "claim now opts s =
     (let s1 = promoteDue now s
      in case fold (claimScan opts) (mapValues (jobs s1)) (None, None) of
           (best, nextRunAt) \<Rightarrow>
             (case best of
                None \<Rightarrow> (Empty nextRunAt (wakeVersion s1), s1)
              | Some b \<Rightarrow>
                  if co_queue opts \<in> set (paused s1) then (Empty nextRunAt (wakeVersion s1), s1)
                  else (Claimed (snapshot (activate opts now b)), putJob (activate opts now b) s1)))"

section \<open>extendLocks\<close>

definition holdsLock :: "mem_store \<Rightarrow> job_id \<Rightarrow> string \<Rightarrow> mem_job option" where
  "holdsLock s i token =
     (case mapGet (jobs s) i of
        None \<Rightarrow> None
      | Some job \<Rightarrow> if j_state job \<noteq> Active \<or> m_lockToken job \<noteq> Some token then None else Some job)"

fun extendLocks ::
  "millis \<Rightarrow> (job_id \<times> string) list \<Rightarrow> int \<Rightarrow> mem_store \<Rightarrow> extend_locks_result \<times> mem_store" where
  "extendLocks now [] durationMs s = (\<lparr>xl_lost = [], xl_cancelRequested = []\<rparr>, s)"
| "extendLocks now ((i, token) # locks) durationMs s =
     (case holdsLock s i token of
        None \<Rightarrow>
          (let (r, s') = extendLocks now locks durationMs s in (r\<lparr>xl_lost := i # xl_lost r\<rparr>, s'))
      | Some job \<Rightarrow>
          if j_cancelRequested job then
            (let (r, s') = extendLocks now locks durationMs s
             in (r\<lparr>xl_cancelRequested := i # xl_cancelRequested r\<rparr>, s'))
          else
            extendLocks now locks durationMs
              (putJob (job\<lparr>m_lockExpiresAt := Some (now + durationMs)\<rparr>) s))"

section \<open>awaitWake\<close>

text \<open>
  The result is \<open>None\<close> when the effect completes at once, \<open>Some w\<close> when the caller is parked on the
  deferred of waiter \<open>w\<close>. \<open>cancelWait\<close> is the finalizer that runs when the await ends either way.
\<close>

definition awaitWake :: "queue_name list \<Rightarrow> nat \<Rightarrow> mem_store \<Rightarrow> nat option \<times> mem_store" where
  "awaitWake queues wakeToken s =
     (if list_ex (\<lambda>queue. lastWakeFor s queue > wakeToken) queues then (None, s)
      else (Some (nextWaiter s),
            s\<lparr>waiters := waiters s @ [\<lparr>wt_id = nextWaiter s, wt_queues = queues\<rparr>],
              nextWaiter := nextWaiter s + 1\<rparr>))"

definition cancelWait :: "nat \<Rightarrow> mem_store \<Rightarrow> mem_store" where
  "cancelWait w s = s\<lparr>waiters := filter (\<lambda>x. wt_id x \<noteq> w) (waiters s)\<rparr>"

end
