(* ===== verification/MemAck.thy ===== *)
theory MemAck
  imports MemClaim
begin

text \<open>
  How a claimed job ends: \<open>ack\<close> with its five outcomes, \<open>release\<close> and \<open>recoverStalled\<close> of
  \<open>MemoryJobStore.ts\<close>. Each returns the typed error or the result together with the new store.
\<close>

section \<open>ack\<close>

definition pendingRow :: "job_id \<Rightarrow> millis \<Rightarrow> flow_child_spec \<Rightarrow> mem_flow_child" where
  "pendingRow flowId now child = \<lparr>
     ch_flowId = flowId,
     ch_childKey = cs_childKey child,
     ch_storeKey = cs_storeKey child,
     ch_spec = cs_request child,
     ch_status = RPending,
     ch_exit = None,
     ch_failedReason = None,
     ch_cascaded = False,
     ch_pendingSince = now \<rparr>"

definition stageRows :: "job_id \<Rightarrow> millis \<Rightarrow> flow_child_spec list \<Rightarrow> flow_rows" where
  "stageRows flowId now children =
     fold (\<lambda>child rows. mapSet (cs_childKey child) (pendingRow flowId now child) rows) children []"

definition openFlow :: "bool \<Rightarrow> flow_child_spec list \<Rightarrow> flow_state" where
  "openFlow failFast children = \<lparr>
     fs_failFast = failFast, fs_pending = int (length children),
     fs_completed = 0, fs_failed = 0, fs_cancelled = 0 \<rparr>"

definition ackFanOut ::
  "millis \<Rightarrow> bool \<Rightarrow> flow_child_spec list \<Rightarrow> mem_job \<Rightarrow> mem_store \<Rightarrow> mem_store" where
  "ackFanOut now failFast children job s =
     (let job1 = recordAttempt AFannedOut now None job;
          (job2, flow, s2) =
            (case j_flow job1 of
               Some flow \<Rightarrow> (job1, flow, s)
             | None \<Rightarrow>
                 (let flow = openFlow failFast children
                  in (job1\<lparr>j_flow := Some flow\<rparr>, flow,
                      s\<lparr>flowChildren :=
                          mapSet (j_id job1) (stageRows (j_id job1) now children) (flowChildren s)\<rparr>)))
      in if j_cancelRequested job2 then
           (let (job3, s3) = settleMarkRows job2 s2 in markCancelled job3 now s3)
         else if fs_pending flow > 0 then
           putJob (job2\<lparr>j_state := WaitingChildren\<rparr>) s2
         else
           (let sq = seqNo s2 + 1
            in signalWake (Some (j_queue job2))
                 (putJob (job2\<lparr>j_state := Waiting, j_runAt := now, m_seq := sq\<rparr>)
                    (s2\<lparr>seqNo := sq\<rparr>))))"

definition finishJob ::
  "job_state \<Rightarrow> attempt_outcome \<Rightarrow> terminal_state \<Rightarrow> json option \<Rightarrow> bool \<Rightarrow> millis \<Rightarrow> mem_job \<Rightarrow> mem_store \<Rightarrow> mem_store" where
  "finishJob st outcome report ex storeExit now job s =
     (let job1 = recordAttempt outcome now ex
                   (job\<lparr>j_cancelRequested := False, j_state := st,
                        j_exit := (if storeExit then ex else j_exit job),
                        j_finishedAt := Some now\<rparr>);
          s1 = putJob job1 s;
          s2 = appendOutbox job1 report s1;
          s3 = releaseDedupe job1 now s2
      in applyKeep job1 now s3)"

definition ackRetry :: "millis \<Rightarrow> int \<Rightarrow> json option \<Rightarrow> mem_job \<Rightarrow> mem_store \<Rightarrow> mem_store" where
  "ackRetry now delayMs ex job s =
     (if j_cancelRequested job then markCancelled job now s
      else
        (let sq = seqNo s + 1;
             job1 = (recordAttempt ARetried now ex job)\<lparr>
                      j_runAt := now + max 0 delayMs,
                      j_state := (if delayMs > 0 then Delayed else Waiting),
                      m_seq := sq \<rparr>
         in signalWake (Some (j_queue job1)) (putJob job1 (s\<lparr>seqNo := sq\<rparr>))))"

definition missingChildId :: "ack_outcome \<Rightarrow> bool" where
  "missingChildId outcome =
     (case outcome of
        FanOut _ children \<Rightarrow> list_ex (\<lambda>child. rq_id (cs_request child) = None) children
      | _ \<Rightarrow> False)"

definition isFanOut :: "ack_outcome \<Rightarrow> bool" where
  "isFanOut outcome = (case outcome of FanOut _ _ \<Rightarrow> True | _ \<Rightarrow> False)"

definition applyOutcome :: "millis \<Rightarrow> ack_outcome \<Rightarrow> mem_job \<Rightarrow> mem_store \<Rightarrow> mem_store" where
  "applyOutcome now outcome job s =
     (case outcome of
        FanOut failFast children \<Rightarrow> ackFanOut now failFast children job s
      | Complete ex \<Rightarrow> finishJob Completed ACompleted TCompleted ex True now job s
      | Fail ex \<Rightarrow> finishJob Failed AFailed TFailed ex True now job s
      | CancelledOutcome \<Rightarrow> finishJob Cancelled ACancelled TCancelled None False now job s
      | Retry delayMs ex \<Rightarrow> ackRetry now delayMs ex job s)"

definition ack ::
  "millis \<Rightarrow> job_id \<Rightarrow> string \<Rightarrow> ack_outcome \<Rightarrow> mem_store \<Rightarrow> (store_error + unit) \<times> mem_store" where
  "ack now i token outcome s =
     (case mapGet (jobs s) i of
        None \<Rightarrow> (Inl (JobNotFoundError i), s)
      | Some job \<Rightarrow>
          if j_state job \<noteq> Active \<or> m_lockToken job \<noteq> Some token then (Inl (LockLostError i), s)
          else if missingChildId outcome then
            (Inl (JobStoreError ''FanOut child specs require an explicit request.id''), s)
          else
            (let job1 = clearLock job;
                 job2 = (if isFanOut outcome then job1
                         else job1\<lparr>j_attemptsMade := j_attemptsMade job1 + 1\<rparr>)
             in (Inr (), applyOutcome now outcome job2 s)))"

section \<open>release\<close>

definition release ::
  "millis \<Rightarrow> job_id \<Rightarrow> string \<Rightarrow> mem_store \<Rightarrow> (store_error + unit) \<times> mem_store" where
  "release now i token s =
     (case mapGet (jobs s) i of
        None \<Rightarrow> (Inl (JobNotFoundError i), s)
      | Some job \<Rightarrow>
          if j_state job \<noteq> Active \<or> m_lockToken job \<noteq> Some token then (Inl (LockLostError i), s)
          else if j_cancelRequested job then (Inr (), markCancelled job now s)
          else (Inr (), signalWake (Some (j_queue job))
                          (putJob ((clearLock job)\<lparr>j_state := Waiting\<rparr>) s)))"

section \<open>recoverStalled\<close>

definition stalled :: "millis \<Rightarrow> mem_job \<Rightarrow> bool" where
  "stalled now job =
     (j_state job = Active \<and>
      (case m_lockExpiresAt job of None \<Rightarrow> False | Some e \<Rightarrow> \<not> e > now))"

definition recoverJob ::
  "millis \<Rightarrow> int \<Rightarrow> mem_job \<Rightarrow> (job_id \<times> bool) list \<times> mem_store \<Rightarrow> (job_id \<times> bool) list \<times> mem_store" where
  "recoverJob now maxStalledCount job acc =
     (case acc of (recovered, s) \<Rightarrow>
        if j_cancelRequested job then (recovered, markCancelled job now s)
        else
          (let job1 = clearLock job;
               job2 = recordAttempt AStalled now None (job1\<lparr>j_stalledCount := j_stalledCount job1 + 1\<rparr>)
           in if j_stalledCount job2 > maxStalledCount then
                (let job3 = job2\<lparr>j_state := Failed, j_finishedAt := Some now,
                                j_failedReason := Some ''job stalled more than allowable limit''\<rparr>
                 in (recovered @ [(j_id job3, True)],
                     releaseDedupe job3 now (appendOutbox job3 TFailed (putJob job3 s))))
              else (recovered @ [(j_id job2, False)], putJob (job2\<lparr>j_state := Waiting\<rparr>) s)))"

text \<open>
  The loop \<open>for (const job of jobs.values())\<close>: an entry deleted by an earlier round (by the
  retention of a cancelled job) is not visited, so each round looks its key up in the current store.
\<close>

definition recoverStep ::
  "millis \<Rightarrow> int \<Rightarrow> job_id \<Rightarrow> (job_id \<times> bool) list \<times> mem_store \<Rightarrow> (job_id \<times> bool) list \<times> mem_store" where
  "recoverStep now maxStalledCount i acc =
     (case mapGet (jobs (snd acc)) i of
        None \<Rightarrow> acc
      | Some job \<Rightarrow> if \<not> stalled now job then acc else recoverJob now maxStalledCount job acc)"

definition recoverStalled ::
  "millis \<Rightarrow> int \<Rightarrow> mem_store \<Rightarrow> (job_id \<times> bool) list \<times> mem_store" where
  "recoverStalled now maxStalledCount s =
     (case fold (recoverStep now maxStalledCount) (mapKeys (jobs s)) ([], s) of
        (recovered, s') \<Rightarrow>
          (recovered,
           if list_ex (\<lambda>(_, failed). \<not> failed) recovered then signalWake None s' else s'))"

end
