(* ===== verification/PgClaim.thy ===== *)
theory PgClaim
  imports PgEnqueue MemAck
begin

text \<open>
  The verbs of a worker in the Postgres driver: claim, the acks, release, the renewal of locks and the
  recovery of stalled jobs.
\<close>

section \<open>claim\<close>

text \<open>\<open>ORDER BY priority DESC, seq ASC\<close>\<close>

definition claimCmp :: "pg_job \<Rightarrow> pg_job \<Rightarrow> int" where
  "claimCmp a b =
     (if pj_priority a \<noteq> pj_priority b then pj_priority b - pj_priority a else int (pj_seq a) - int (pj_seq b))"

lemma claim_order: "consistent_cmp claimCmp A"
  by (auto simp: consistent_cmp_def claimCmp_def split: if_splits)

definition candidates :: "claim_options \<Rightarrow> pg_db \<Rightarrow> pg_job list" where
  "candidates opts db =
     toSorted claimCmp
       (filter (\<lambda>row. pj_queue row = co_queue opts \<and> pj_state row = Waiting \<and> pj_name row \<in> set (co_names opts))
          (mapValues (db_jobs db)))"

definition takeRow :: "claim_options \<Rightarrow> millis \<Rightarrow> pg_job \<Rightarrow> pg_job" where
  "takeRow opts now row = row\<lparr>
     pj_state := Active,
     pj_lockToken := Some (co_token opts),
     pj_lockExpiresAt := Some (now + co_lockDurationMs opts),
     pj_processedAt := Some now \<rparr>"

definition promoteDueRows :: "queue_name \<Rightarrow> millis \<Rightarrow> pg_db \<Rightarrow> pg_db" where
  "promoteDueRows queue now db =
     snd (updateJobs (\<lambda>row. pj_queue row = queue \<and> pj_state row = Delayed \<and> pj_runAt row \<le> now)
            (\<lambda>row. row\<lparr>pj_state := Waiting\<rparr>) db)"

definition nextDelayed :: "claim_options \<Rightarrow> pg_db \<Rightarrow> millis option" where
  "nextDelayed opts db =
     (let due = map pj_runAt
            (filter (\<lambda>row. pj_queue row = co_queue opts \<and> pj_state row = Delayed \<and> pj_name row \<in> set (co_names opts))
               (mapValues (db_jobs db)))
      in if due = [] then None else Some (Min (set due)))"

text \<open>\<open>locked\<close>: the rows other transactions hold, which \<open>FOR UPDATE SKIP LOCKED\<close> passes over.\<close>

definition pgClaim :: "(job_id \<Rightarrow> bool) \<Rightarrow> millis \<Rightarrow> claim_options \<Rightarrow> pg_store \<Rightarrow> claim_result \<times> pg_store" where
  "pgClaim locked now opts st =
     (let observedWake = pw_version (ps_wake st);
          db = promoteDueRows (co_queue opts) now (ps_db st);
          isPaused = (mapGet (db_queues db) (co_queue opts) = Some True)
      in case (if isPaused then [] else filter (\<lambda>row. \<not> locked (pj_id row)) (candidates opts db)) of
           [] \<Rightarrow> (Empty (nextDelayed opts db) observedWake, st\<lparr>ps_db := db\<rparr>)
         | candidate # _ \<Rightarrow>
             (case updateJob (pj_id candidate) (\<lambda>_. True) (takeRow opts now) db of
                (Some row, db1) \<Rightarrow> (Claimed (pgToRecord row), st\<lparr>ps_db := db1\<rparr>)
              | (None, db1) \<Rightarrow> (Empty (nextDelayed opts db) observedWake, st\<lparr>ps_db := db1\<rparr>)))"

section \<open>ack\<close>

definition pgHolds :: "string \<Rightarrow> pg_job \<Rightarrow> bool" where
  "pgHolds token row \<longleftrightarrow> pj_state row = Active \<and> pj_lockToken row = Some token"

definition explainMiss :: "job_id \<Rightarrow> pg_db \<Rightarrow> store_error" where
  "explainMiss i db = (if mapHas (db_jobs db) i then LockLostError i else JobNotFoundError i)"

text \<open>
  The SET clause of an ack. The next value of the sequence is drawn by the CASE branch that requeues the
  job, so only when the row matches and no cancel was requested: \<open>ackSeq\<close>.
\<close>

definition ackSet :: "ack_outcome \<Rightarrow> millis \<Rightarrow> nat \<Rightarrow> pg_job \<Rightarrow> pg_job" where
  "ackSet outcome now sq row =
     (case outcome of
        Complete ex \<Rightarrow> row\<lparr>pj_state := Completed, pj_cancelRequested := False, pj_exit := Some (orElse ex JNull),
                         pj_finishedAt := Some now\<rparr>
      | Fail ex \<Rightarrow> row\<lparr>pj_state := Failed, pj_cancelRequested := False, pj_exit := Some (orElse ex JNull),
                     pj_finishedAt := Some now\<rparr>
      | CancelledOutcome \<Rightarrow> row\<lparr>pj_state := Cancelled, pj_cancelRequested := False, pj_finishedAt := Some now\<rparr>
      | Retry delayMs _ \<Rightarrow>
          if pj_cancelRequested row
          then row\<lparr>pj_state := Cancelled, pj_finishedAt := Some now, pj_cancelRequested := False\<rparr>
          else row\<lparr>pj_state := (if delayMs > 0 then Delayed else Waiting), pj_finishedAt := None,
                 pj_runAt := now + max 0 delayMs, pj_seq := sq, pj_cancelRequested := False\<rparr>
      | FanOut _ _ \<Rightarrow> row)"

definition unlockRow :: "pg_job \<Rightarrow> pg_job" where
  "unlockRow row = row\<lparr>pj_lockToken := None, pj_lockExpiresAt := None\<rparr>"

definition countAttempt :: "pg_job \<Rightarrow> pg_job" where
  "countAttempt row = (unlockRow row)\<lparr>pj_attemptsMade := pj_attemptsMade row + 1\<rparr>"

definition isRetry :: "ack_outcome \<Rightarrow> bool" where
  "isRetry outcome = (case outcome of Retry _ _ \<Rightarrow> True | _ \<Rightarrow> False)"

definition ackSeq :: "job_id \<Rightarrow> string \<Rightarrow> ack_outcome \<Rightarrow> pg_db \<Rightarrow> nat \<times> pg_db" where
  "ackSeq i token outcome db =
     (case mapGet (db_jobs db) i of
        None \<Rightarrow> (0, db)
      | Some row \<Rightarrow>
          if pgHolds token row \<and> isRetry outcome \<and> \<not> pj_cancelRequested row then nextSeq db else (0, db))"

definition pgOutcomeExit :: "ack_outcome \<Rightarrow> json option" where
  "pgOutcomeExit outcome = (case outcome of Complete ex \<Rightarrow> ex | Fail ex \<Rightarrow> ex | Retry _ ex \<Rightarrow> ex | _ \<Rightarrow> None)"

definition pgLedgerOutcome :: "ack_outcome \<Rightarrow> bool \<Rightarrow> attempt_outcome" where
  "pgLedgerOutcome outcome cancelledRetry =
     (case outcome of
        Complete _ \<Rightarrow> ACompleted
      | Fail _ \<Rightarrow> AFailed
      | _ \<Rightarrow> if outcome = CancelledOutcome \<or> cancelledRetry then ACancelled else ARetried)"

definition reportOutcome :: "attempt_outcome \<Rightarrow> terminal_state" where
  "reportOutcome o1 = (case o1 of ACompleted \<Rightarrow> TCompleted | AFailed \<Rightarrow> TFailed | _ \<Rightarrow> TCancelled)"

definition keepOrFail ::
  "string \<Rightarrow> string \<Rightarrow> job_state \<Rightarrow> keep_policy option \<Rightarrow> millis \<Rightarrow> pg_store \<Rightarrow> 'a
    \<Rightarrow> (store_error + 'a) \<times> pg_store" where
  "keepOrFail msg name s keep now st a =
     (case pgApplyKeep name s keep now (ps_db st) of
        None \<Rightarrow> (Inl (JobStoreError msg), st)
      | Some db \<Rightarrow> (Inr a, st\<lparr>ps_db := db\<rparr>))"

text \<open>The body returns the queue to wake.\<close>

definition ackBody ::
  "millis \<Rightarrow> job_id \<Rightarrow> string \<Rightarrow> ack_outcome \<Rightarrow> pg_store \<Rightarrow> (store_error + queue_name option) \<times> pg_store" where
  "ackBody now i token outcome st =
     (case ackSeq i token outcome (ps_db st) of (sq, db0) \<Rightarrow>
        (case updateJob i (pgHolds token) (\<lambda>row. countAttempt (ackSet outcome now sq row)) db0 of
           (None, db1) \<Rightarrow> (Inl (explainMiss i db1), st\<lparr>ps_db := db1\<rparr>)
         | (Some row, db1) \<Rightarrow>
             (let cancelledRetry = (isRetry outcome \<and> pj_state row = Cancelled);
                  ledger = pgLedgerOutcome outcome cancelledRetry;
                  attemptExit = (if outcome = CancelledOutcome \<or> cancelledRetry then None else pgOutcomeExit outcome)
              in if isRetry outcome \<and> \<not> cancelledRetry then
                   (Inr (Some (pj_queue row)),
                    st\<lparr>ps_db := insertAttempt i ledger (pj_processedAt row) now attemptExit db1\<rparr>)
                 else
                   keepOrFail ''ack failed'' (pj_name row) (pj_state row) (pj_keep row) now
                     (st\<lparr>ps_db := settleTerminal row ledger (reportOutcome ledger) attemptExit now db1\<rparr>) None)))"

section \<open>The fan-out ack\<close>

definition childRow :: "job_id \<Rightarrow> millis \<Rightarrow> flow_child_spec \<Rightarrow> pg_child" where
  "childRow flowId now child = \<lparr>
     pc_flowId = flowId,
     pc_childKey = cs_childKey child,
     pc_name = rq_name (cs_request child),
     pc_storeKey = cs_storeKey child,
     pc_spec = cs_request child,
     pc_status = RPending,
     pc_exit = None,
     pc_failedReason = None,
     pc_cascaded = False,
     pc_pendingSince = now \<rparr>"

text \<open>The INSERTs of 500 rows each; a key that is there already violates the primary key.\<close>

fun insertChildren :: "job_id \<Rightarrow> millis \<Rightarrow> flow_child_spec list \<Rightarrow> pg_db \<Rightarrow> pg_db option" where
  "insertChildren flowId now [] db = Some db"
| "insertChildren flowId now (child # children) db =
     (if mapHas (db_children db) (flowId, cs_childKey child) then None
      else insertChildren flowId now children
             (db\<lparr>db_children := mapSet (flowId, cs_childKey child) (childRow flowId now child) (db_children db)\<rparr>))"

definition openFlowRow :: "bool \<Rightarrow> int \<Rightarrow> pg_job \<Rightarrow> pg_job" where
  "openFlowRow failFast pending row = row\<lparr>pj_flowFailFast := Some failFast, pj_flowPending := Some pending,
     pj_flowCompleted := Some 0, pj_flowFailed := Some 0, pj_flowCancelled := Some 0\<rparr>"

text \<open>The manifest lands unless one is there: its pending count, or \<open>None\<close> when an INSERT fails.\<close>

definition landManifest ::
  "job_id \<Rightarrow> millis \<Rightarrow> bool \<Rightarrow> flow_child_spec list \<Rightarrow> pg_job \<Rightarrow> pg_db \<Rightarrow> (int \<times> pg_db) option" where
  "landManifest i now failFast children row db =
     (case pj_flowPending row of
        Some pending \<Rightarrow> Some (pending, db)
      | None \<Rightarrow>
          (let pending = int (length children)
           in map_option (Pair pending)
                (insertChildren i now children (snd (updateJob i (\<lambda>_. True) (openFlowRow failFast pending) db)))))"

definition addCancelled :: "int \<Rightarrow> pg_job \<Rightarrow> pg_job" where
  "addCancelled n row = row\<lparr>pj_flowCancelled := map_option (\<lambda>c. c + n) (pj_flowCancelled row)\<rparr>"

definition cancelFannedOut :: "job_id \<Rightarrow> millis \<Rightarrow> pg_job \<Rightarrow> pg_store \<Rightarrow> (store_error + queue_name option) \<times> pg_store" where
  "cancelFannedOut i now row st =
     (case cancelPendingChildren i (ps_db st) of (marked, db1) \<Rightarrow>
        (let db2 = snd (updateJob i (\<lambda>_. True) (\<lambda>r. (addCancelled marked r)\<lparr>pj_state := Cancelled,
                      pj_finishedAt := Some now, pj_cancelRequested := False, pj_flowPending := Some 0\<rparr>) db1)
         in keepOrFail ''ack failed'' (pj_name row) Cancelled (pj_keep row) now
              (st\<lparr>ps_db := settleTerminal row ACancelled TCancelled None now db2\<rparr>) None))"

definition requeueRow :: "millis \<Rightarrow> nat \<Rightarrow> pg_job \<Rightarrow> pg_job" where
  "requeueRow now sq row = row\<lparr>pj_state := Waiting, pj_runAt := now, pj_seq := sq\<rparr>"

definition fanOutBody ::
  "millis \<Rightarrow> job_id \<Rightarrow> string \<Rightarrow> bool \<Rightarrow> flow_child_spec list \<Rightarrow> pg_store
    \<Rightarrow> (store_error + queue_name option) \<times> pg_store" where
  "fanOutBody now i token failFast children st =
     (case updateJob i (pgHolds token) unlockRow (ps_db st) of
        (None, db1) \<Rightarrow> (Inl (explainMiss i db1), st\<lparr>ps_db := db1\<rparr>)
      | (Some row, db1) \<Rightarrow>
          (let db2 = insertAttempt i AFannedOut (pj_processedAt row) now None db1
           in case landManifest i now failFast children row db2 of
                None \<Rightarrow> (Inl (JobStoreError ''ack failed''), st\<lparr>ps_db := db2\<rparr>)
              | Some (pending, db3) \<Rightarrow>
                  if pj_cancelRequested row then cancelFannedOut i now row (st\<lparr>ps_db := db3\<rparr>)
                  else if pending > 0 then
                    (Inr None, st\<lparr>ps_db := snd (updateJob i (\<lambda>_. True) (\<lambda>r. r\<lparr>pj_state := WaitingChildren\<rparr>) db3)\<rparr>)
                  else
                    (case nextSeq db3 of (sq, db4) \<Rightarrow>
                       (Inr (Some (pj_queue row)), st\<lparr>ps_db := snd (updateJob i (\<lambda>_. True) (requeueRow now sq) db4)\<rparr>))))"

definition wakeAfter :: "(store_error + queue_name option) \<times> pg_store \<Rightarrow> (store_error + unit) \<times> pg_store" where
  "wakeAfter result =
     (case result of
        (Inl e, st) \<Rightarrow> (Inl e, st)
      | (Inr wake, st) \<Rightarrow> (Inr (), case wake of None \<Rightarrow> st | Some q \<Rightarrow> pgWakeUp (Some q) st))"

definition pgAckFanOut ::
  "millis \<Rightarrow> job_id \<Rightarrow> string \<Rightarrow> bool \<Rightarrow> flow_child_spec list \<Rightarrow> pg_store \<Rightarrow> (store_error + unit) \<times> pg_store" where
  "pgAckFanOut now i token failFast children st =
     (if list_ex (\<lambda>child. rq_id (cs_request child) = None) children
      then (Inl (JobStoreError ''FanOut child specs require an explicit request.id''), st)
      else wakeAfter (transact (fanOutBody now i token failFast children) st))"

definition pgAck ::
  "millis \<Rightarrow> job_id \<Rightarrow> string \<Rightarrow> ack_outcome \<Rightarrow> pg_store \<Rightarrow> (store_error + unit) \<times> pg_store" where
  "pgAck now i token outcome st =
     (case outcome of
        FanOut failFast children \<Rightarrow> pgAckFanOut now i token failFast children st
      | _ \<Rightarrow> wakeAfter (transact (ackBody now i token outcome) st))"

section \<open>release\<close>

definition releaseSet :: "millis \<Rightarrow> pg_job \<Rightarrow> pg_job" where
  "releaseSet now row = (unlockRow row)\<lparr>
     pj_state := (if pj_cancelRequested row then Cancelled else Waiting),
     pj_finishedAt := (if pj_cancelRequested row then Some now else None),
     pj_cancelRequested := False \<rparr>"

text \<open>The body: nothing when no row matched, else whether the job was cancelled, and its queue.\<close>

definition releaseBody ::
  "millis \<Rightarrow> job_id \<Rightarrow> string \<Rightarrow> pg_store \<Rightarrow> (store_error + (bool \<times> queue_name) option) \<times> pg_store" where
  "releaseBody now i token st =
     (case updateJob i (pgHolds token) (releaseSet now) (ps_db st) of
        (None, db1) \<Rightarrow> (Inr None, st\<lparr>ps_db := db1\<rparr>)
      | (Some row, db1) \<Rightarrow>
          if pj_state row = Cancelled then
            keepOrFail ''release failed'' (pj_name row) Cancelled (pj_keep row) now
              (st\<lparr>ps_db := settleTerminal row ACancelled TCancelled None now db1\<rparr>) (Some (True, pj_queue row))
          else (Inr (Some (False, pj_queue row)), st\<lparr>ps_db := db1\<rparr>))"

definition pgRelease :: "millis \<Rightarrow> job_id \<Rightarrow> string \<Rightarrow> pg_store \<Rightarrow> (store_error + unit) \<times> pg_store" where
  "pgRelease now i token st =
     (case transact (releaseBody now i token) st of
        (Inl e, st1) \<Rightarrow> (Inl e, st1)
      | (Inr None, st1) \<Rightarrow> (Inl (explainMiss i (ps_db st1)), st1)
      | (Inr (Some (cancelled, queue)), st1) \<Rightarrow>
          (Inr (), if cancelled then st1 else pgWakeUp (Some queue) st1))"

section \<open>extendLocks\<close>

text \<open>
  One statement over a join of the request with the table: a row is renewed when any of the given
  tokens fits. What the SELECT reads of the jobs is the state before the UPDATE.
\<close>

definition renews :: "pg_db \<Rightarrow> job_id \<times> string \<Rightarrow> bool" where
  "renews db lock =
     (case mapGet (db_jobs db) (fst lock) of
        None \<Rightarrow> False
      | Some row \<Rightarrow> pgHolds (snd lock) row \<and> \<not> pj_cancelRequested row)"

definition asksCancel :: "pg_db \<Rightarrow> job_id \<times> string \<Rightarrow> bool" where
  "asksCancel db lock =
     (case mapGet (db_jobs db) (fst lock) of
        None \<Rightarrow> False
      | Some row \<Rightarrow> pgHolds (snd lock) row \<and> pj_cancelRequested row)"

definition pgExtendLocks ::
  "millis \<Rightarrow> (job_id \<times> string) list \<Rightarrow> int \<Rightarrow> pg_store \<Rightarrow> extend_locks_result \<times> pg_store" where
  "pgExtendLocks now locks durationMs st =
     (if locks = [] then (\<lparr>xl_lost = [], xl_cancelRequested = []\<rparr>, st)
      else
        (let db = ps_db st;
             updated = map fst (filter (renews db) locks);
             rows = filter (\<lambda>lock. fst lock \<notin> set updated) locks;
             db1 = snd (updateJobs (\<lambda>row. pj_id row \<in> set updated)
                          (\<lambda>row. row\<lparr>pj_lockExpiresAt := Some (now + durationMs)\<rparr>) db)
         in (\<lparr>xl_lost = map fst (filter (\<lambda>lock. \<not> asksCancel db lock) rows),
              xl_cancelRequested = map fst (filter (asksCancel db) rows)\<rparr>,
             st\<lparr>ps_db := db1\<rparr>)))"

section \<open>recoverStalled\<close>

definition pgStalled :: "millis \<Rightarrow> pg_job \<Rightarrow> bool" where
  "pgStalled now row \<longleftrightarrow>
     pj_state row = Active \<and> (case pj_lockExpiresAt row of None \<Rightarrow> False | Some e \<Rightarrow> e \<le> now)"

definition recoverSet :: "millis \<Rightarrow> int \<Rightarrow> pg_job \<Rightarrow> pg_job" where
  "recoverSet now maxStalledCount row =
     (let exhausted = pj_stalledCount row + 1 > maxStalledCount
      in (unlockRow row)\<lparr>
           pj_stalledCount := (if pj_cancelRequested row then pj_stalledCount row else pj_stalledCount row + 1),
           pj_state := (if pj_cancelRequested row then Cancelled else if exhausted then Failed else Waiting),
           pj_finishedAt := (if pj_cancelRequested row \<or> exhausted then Some now else None),
           pj_failedReason := (if pj_cancelRequested row then None
                               else if exhausted then Some ''job stalled more than allowable limit'' else None),
           pj_cancelRequested := False \<rparr>)"

text \<open>One returned row: its ledger entry, its report, its key, and retention for a cancelled job.\<close>

definition recoverRow ::
  "millis \<Rightarrow> pg_job \<Rightarrow> (store_error + (job_id \<times> bool) list) \<times> pg_store
    \<Rightarrow> (store_error + (job_id \<times> bool) list) \<times> pg_store" where
  "recoverRow now row acc =
     (case acc of
        (Inl e, st) \<Rightarrow> (Inl e, st)
      | (Inr recovered, st) \<Rightarrow>
          if pj_state row = Cancelled then
            keepOrFail ''recoverStalled failed'' (pj_name row) Cancelled (pj_keep row) now
              (st\<lparr>ps_db := settleTerminal row ACancelled TCancelled None now (ps_db st)\<rparr>) recovered
          else if pj_state row = Failed then
            (Inr (recovered @ [(pj_id row, True)]),
             st\<lparr>ps_db := settleTerminal row AStalled TFailed None now (ps_db st)\<rparr>)
          else
            (Inr (recovered @ [(pj_id row, False)]),
             st\<lparr>ps_db := insertAttempt (pj_id row) AStalled (pj_processedAt row) now None (ps_db st)\<rparr>))"

definition recoverBody ::
  "millis \<Rightarrow> int \<Rightarrow> pg_store \<Rightarrow> (store_error + (job_id \<times> bool) list) \<times> pg_store" where
  "recoverBody now maxStalledCount st =
     (case updateJobs (pgStalled now) (recoverSet now maxStalledCount) (ps_db st) of
        (rows, db1) \<Rightarrow> fold (recoverRow now) rows (Inr [], st\<lparr>ps_db := db1\<rparr>))"

text \<open>The bound is cast to \<open>int\<close>: one that does not fit fails the statement.\<close>

definition pgRecoverStalled ::
  "millis \<Rightarrow> int \<Rightarrow> pg_store \<Rightarrow> (store_error + (job_id \<times> bool) list) \<times> pg_store" where
  "pgRecoverStalled now maxStalledCount st =
     (if \<not> int4 maxStalledCount then (Inl (JobStoreError ''recoverStalled failed''), st)
      else
        (case transact (recoverBody now maxStalledCount) st of
           (Inl e, st1) \<Rightarrow> (Inl e, st1)
         | (Inr recovered, st1) \<Rightarrow>
             (Inr recovered, if list_ex (\<lambda>(_, failed). \<not> failed) recovered then pgWakeUp None st1 else st1)))"

end
