(* ===== verification/MemQuery.thy ===== *)
theory MemQuery
  imports MemFlow
begin

text \<open>
  The read side of \<open>MemoryJobStore.ts\<close>: \<open>getJob\<close>, \<open>getAttempts\<close>, \<open>counts\<close> and the paginated
  \<open>list\<close> with its textual cursor \<open>value:id\<close>.
\<close>

definition getJob :: "job_id \<Rightarrow> mem_store \<Rightarrow> job_record option" where
  "getJob i s = map_option snapshot (mapGet (jobs s) i)"

definition getAttempts :: "job_id \<Rightarrow> mem_store \<Rightarrow> attempt_record list" where
  "getAttempts i s = (case mapGet (jobs s) i of None \<Rightarrow> [] | Some job \<Rightarrow> m_attempts job)"

definition countJob :: "queue_name option \<Rightarrow> mem_job \<Rightarrow> (job_state \<Rightarrow> int) \<Rightarrow> (job_state \<Rightarrow> int)" where
  "countJob queue job c =
     (if (case queue of None \<Rightarrow> False | Some q \<Rightarrow> j_queue job \<noteq> q) then c
      else c(j_state job := c (j_state job) + 1))"

definition counts :: "queue_name option \<Rightarrow> mem_store \<Rightarrow> job_state \<Rightarrow> int" where
  "counts queue s = fold (countJob queue) (mapValues (jobs s)) (\<lambda>_. 0)"

definition orderValue :: "order_by \<Rightarrow> mem_job \<Rightarrow> int" where
  "orderValue orderBy job =
     (case orderBy of
        ByEnqueuedAt \<Rightarrow> j_enqueuedAt job
      | ByRunAt \<Rightarrow> j_runAt job
      | ByFinishedAt \<Rightarrow> orElse (j_finishedAt job) 0)"

definition listCmp :: "order_by \<Rightarrow> bool \<Rightarrow> mem_job \<Rightarrow> mem_job \<Rightarrow> int" where
  "listCmp orderBy descending a b =
     (let byValue = (if descending then orderValue orderBy b - orderValue orderBy a
                     else orderValue orderBy a - orderValue orderBy b)
      in if byValue \<noteq> 0 then byValue
         else if descending then stringCmp (j_id b) (j_id a) else stringCmp (j_id a) (j_id b))"

definition parseCursor :: "string \<Rightarrow> int option \<times> string" where
  "parseCursor c = (let split = indexOf (CHR '':'') c
                    in (jsNumber (sliceTo split c), sliceFrom (split + 1) c))"

definition printCursor :: "order_by \<Rightarrow> mem_job \<Rightarrow> string" where
  "printCursor orderBy job = intToString (orderValue orderBy job) @ CHR '':'' # j_id job"

text \<open>\<open>at = NaN\<close> makes both comparisons of the cursor false, so nothing passes.\<close>

definition afterCursor :: "order_by \<Rightarrow> bool \<Rightarrow> (int option \<times> string) option \<Rightarrow> mem_job \<Rightarrow> bool" where
  "afterCursor orderBy descending cursor job =
     (case cursor of
        None \<Rightarrow> True
      | Some (None, _) \<Rightarrow> False
      | Some (Some pos, i) \<Rightarrow>
          (let value = orderValue orderBy job
           in if descending then value < pos \<or> (value = pos \<and> j_id job < i)
              else value > pos \<or> (value = pos \<and> j_id job > i)))"

definition listFilter :: "list_options \<Rightarrow> mem_job \<Rightarrow> bool" where
  "listFilter options job \<longleftrightarrow>
     (case lo_queue options of None \<Rightarrow> True | Some q \<Rightarrow> j_queue job = q)
   \<and> (case lo_name options of None \<Rightarrow> True | Some n \<Rightarrow> j_name job = n)
   \<and> (case lo_states options of None \<Rightarrow> True | Some sts \<Rightarrow> j_state job \<in> set sts)
   \<and> (case lo_metadata options of None \<Rightarrow> True | Some m \<Rightarrow> metadataMatches (j_metadata job) m)"

definition listSorted :: "list_options \<Rightarrow> mem_store \<Rightarrow> mem_job list" where
  "listSorted options s =
     toSorted (listCmp (orElse (lo_orderBy options) ByEnqueuedAt) (orElse (lo_order options) Desc = Desc))
       (filter (listFilter options) (mapValues (jobs s)))"

definition listJobs :: "list_options \<Rightarrow> mem_store \<Rightarrow> list_result" where
  "listJobs options s =
     (let limit = nat (max 1 (orElse (lo_limit options) 50));
          orderBy = orElse (lo_orderBy options) ByEnqueuedAt;
          descending = (orElse (lo_order options) Desc = Desc);
          cursor = map_option parseCursor (lo_cursor options);
          matched = filter (afterCursor orderBy descending cursor) (listSorted options s);
          items = map snapshot (take limit matched)
      in \<lparr> lr_items = items,
           lr_cursor = (if length matched > limit
                        then Some (printCursor orderBy (matched ! (min limit (length matched) - 1)))
                        else None) \<rparr>)"

end
