(* ===== verification/PgAdmin.thy ===== *)
theory PgAdmin
  imports PgClaim MemQuery
begin

text \<open>
  The rest of the job verbs of the Postgres driver: reads, listing, retry, the two cancels, promote,
  pause and resume, counts and remove, and the history sweep.
\<close>

section \<open>Reads\<close>

definition pgGetJob :: "job_id \<Rightarrow> pg_store \<Rightarrow> job_record option" where
  "pgGetJob i st = map_option pgToRecord (mapGet (db_jobs (ps_db st)) i)"

definition pgGetAttempts :: "job_id \<Rightarrow> pg_store \<Rightarrow> attempt_record list" where
  "pgGetAttempts i st =
     map pgToAttempt
       (toSorted (\<lambda>a b. int (pa_attempt a) - int (pa_attempt b))
          (filter (\<lambda>a. pa_jobId a = i) (db_attempts (ps_db st))))"

section \<open>list\<close>

definition pgOrderValue :: "order_by \<Rightarrow> pg_job \<Rightarrow> int" where
  "pgOrderValue orderBy row =
     (case orderBy of
        ByEnqueuedAt \<Rightarrow> pj_enqueuedAt row
      | ByRunAt \<Rightarrow> pj_runAt row
      | ByFinishedAt \<Rightarrow> orElse (pj_finishedAt row) 0)"

text \<open>
  What the database decides: how it orders texts (the queries name no collation, so it is the one of the
  columns; a comparison is negative, zero or positive), and which timestamps the client and the server
  accept as the value of a parameter (both have a range outside of which the statement fails).
\<close>

record pg_server =
  sr_collate :: "string \<Rightarrow> string \<Rightarrow> int"
  sr_timestamp :: "millis \<Rightarrow> bool"

definition pgListCmp :: "pg_server \<Rightarrow> order_by \<Rightarrow> bool \<Rightarrow> pg_job \<Rightarrow> pg_job \<Rightarrow> int" where
  "pgListCmp srv orderBy descending a b =
     (let d = pgOrderValue orderBy a - pgOrderValue orderBy b;
          c = (if d \<noteq> 0 then d else sr_collate srv (pj_id a) (pj_id b))
      in if descending then - c else c)"

definition pgListFilter :: "list_options \<Rightarrow> pg_job \<Rightarrow> bool" where
  "pgListFilter options row \<longleftrightarrow>
     (case lo_queue options of None \<Rightarrow> True | Some q \<Rightarrow> pj_queue row = q)
   \<and> (case lo_name options of None \<Rightarrow> True | Some n \<Rightarrow> pj_name row = n)
   \<and> (case lo_states options of None \<Rightarrow> True | Some sts \<Rightarrow> pj_state row \<in> set sts)
   \<and> (case lo_metadata options of None \<Rightarrow> True
      | Some m \<Rightarrow> m = [] \<or> list_all (\<lambda>(k, v). mapGet (pj_metadata row) k = Some v) m)"

text \<open>
  The keyset condition \<open>(value, id) < (at, id')\<close>, whose texts the database compares. A cursor whose
  number does not parse binds an invalid date, which fails the statement. (Of the texts \<open>Number\<close> accepts
  only the decimal integers are modelled, see \<open>jsNumber\<close>; cursors that a page returned are of that form.)
\<close>

definition pastKeyset :: "pg_server \<Rightarrow> order_by \<Rightarrow> bool \<Rightarrow> millis \<Rightarrow> string \<Rightarrow> pg_job \<Rightarrow> bool" where
  "pastKeyset srv orderBy descending pos i row \<longleftrightarrow>
     (let value = pgOrderValue orderBy row
      in if descending then value < pos \<or> (value = pos \<and> sr_collate srv (pj_id row) i < 0)
         else value > pos \<or> (value = pos \<and> sr_collate srv (pj_id row) i > 0))"

definition pgListRows :: "pg_server \<Rightarrow> list_options \<Rightarrow> (pg_job \<Rightarrow> bool) \<Rightarrow> pg_db \<Rightarrow> pg_job list" where
  "pgListRows srv options keyset db =
     toSorted (pgListCmp srv (orElse (lo_orderBy options) ByEnqueuedAt) (orElse (lo_order options) Desc = Desc))
       (filter (\<lambda>row. pgListFilter options row \<and> keyset row) (mapValues (db_jobs db)))"

definition pgPage :: "list_options \<Rightarrow> pg_job list \<Rightarrow> list_result" where
  "pgPage options rows =
     (let limit = nat (max 1 (orElse (lo_limit options) 50));
          fetched = take (limit + 1) rows;
          page = take limit fetched
      in \<lparr> lr_items = map pgToRecord page,
           lr_cursor = (if length fetched > limit \<and> page \<noteq> []
                        then Some (intToString (pgOrderValue (orElse (lo_orderBy options) ByEnqueuedAt) (last page))
                                     @ CHR '':'' # pj_id (last page))
                        else None) \<rparr>)"

definition pgList :: "pg_server \<Rightarrow> list_options \<Rightarrow> pg_store \<Rightarrow> store_error + list_result" where
  "pgList srv options st =
     (let orderBy = orElse (lo_orderBy options) ByEnqueuedAt;
          descending = (orElse (lo_order options) Desc = Desc)
      in case lo_cursor options of
           None \<Rightarrow> Inr (pgPage options (pgListRows srv options (\<lambda>_. True) (ps_db st)))
         | Some c \<Rightarrow>
             (let split = indexOf (CHR '':'') c
              in case jsNumber (sliceTo split c) of
                   None \<Rightarrow> Inl (JobStoreError ''list failed'')
                 | Some pos \<Rightarrow>
                     if \<not> sr_timestamp srv pos then Inl (JobStoreError ''list failed'')
                     else Inr (pgPage options
                       (pgListRows srv options (pastKeyset srv orderBy descending pos (sliceFrom (split + 1) c)) (ps_db st)))))"

section \<open>retry, promote\<close>

definition retrySet :: "millis \<Rightarrow> nat \<Rightarrow> pg_job \<Rightarrow> pg_job" where
  "retrySet now sq row = row\<lparr>
     pj_state := Waiting,
     pj_attemptsMade := 0,
     pj_stalledCount := 0,
     pj_cancelRequested := False,
     pj_exit := None,
     pj_failedReason := None,
     pj_finishedAt := None,
     pj_processedAt := None,
     pj_runAt := now,
     pj_seq := sq \<rparr>"

definition stateMiss :: "(job_id \<Rightarrow> job_state \<Rightarrow> store_error) \<Rightarrow> job_id \<Rightarrow> pg_db \<Rightarrow> store_error" where
  "stateMiss wrong i db =
     (case mapGet (db_jobs db) i of None \<Rightarrow> JobNotFoundError i | Some row \<Rightarrow> wrong i (pj_state row))"

definition pgRetry :: "millis \<Rightarrow> job_id \<Rightarrow> pg_store \<Rightarrow> (store_error + unit) \<times> pg_store" where
  "pgRetry now i st =
     (let failed = (\<lambda>row. pj_state row = Failed);
          (sq, db0) = (case mapGet (db_jobs (ps_db st)) i of
                         None \<Rightarrow> (0, ps_db st)
                       | Some row \<Rightarrow> if failed row then nextSeq (ps_db st) else (0, ps_db st))
      in case updateJob i failed (retrySet now sq) db0 of
           (None, db1) \<Rightarrow> (Inl (stateMiss JobNotRetryableError i db1), st\<lparr>ps_db := db1\<rparr>)
         | (Some row, db1) \<Rightarrow> (Inr (), pgWakeUp (Some (pj_queue row)) (st\<lparr>ps_db := db1\<rparr>)))"

definition pgPromote :: "millis \<Rightarrow> job_id \<Rightarrow> pg_store \<Rightarrow> (store_error + unit) \<times> pg_store" where
  "pgPromote now i st =
     (case updateJob i (\<lambda>row. pj_state row = Delayed) (\<lambda>row. row\<lparr>pj_state := Waiting, pj_runAt := now\<rparr>) (ps_db st) of
        (None, db1) \<Rightarrow> (Inl (stateMiss JobNotPromotableError i db1), st\<lparr>ps_db := db1\<rparr>)
      | (Some row, db1) \<Rightarrow> (Inr (), pgWakeUp (Some (pj_queue row)) (st\<lparr>ps_db := db1\<rparr>)))"

section \<open>cancel\<close>

definition cancellable :: "pg_job \<Rightarrow> bool" where
  "cancellable row \<longleftrightarrow> pj_state row = Waiting \<or> pj_state row = Delayed \<or> pj_state row = WaitingChildren"

definition cancelSet :: "millis \<Rightarrow> pg_job \<Rightarrow> pg_job" where
  "cancelSet now row = row\<lparr>
     pj_state := (if cancellable row then Cancelled else pj_state row),
     pj_finishedAt := (if cancellable row then Some now else pj_finishedAt row),
     pj_flowPending := (if pj_state row = WaitingChildren then Some 0 else pj_flowPending row),
     pj_cancelRequested := (if pj_state row = Active then True else pj_cancelRequested row) \<rparr>"

text \<open>
  The rows are marked before the parent is locked and once more after; every marked row is counted.
\<close>

definition cancelBody :: "millis \<Rightarrow> job_id \<Rightarrow> pg_store \<Rightarrow> (store_error + unit) \<times> pg_store" where
  "cancelBody now i st =
     (case cancelPendingChildren i (ps_db st) of (preMarked, db0) \<Rightarrow>
        (case updateJob i (\<lambda>row. cancellable row \<or> pj_state row = Active) (cancelSet now) db0 of
           (None, db1) \<Rightarrow> (Inl (stateMiss JobNotCancellableError i db1), st\<lparr>ps_db := db1\<rparr>)
         | (Some row, db1) \<Rightarrow>
             if pj_state row = Cancelled then
               (let db2 = (if pj_flowPending row = None then db1
                           else (case cancelPendingChildren i db1 of (marked, db) \<Rightarrow>
                                   snd (updateJob i (\<lambda>_. True) (addCancelled (preMarked + marked)) db)))
                in keepOrFail ''cancel failed'' (pj_name row) Cancelled (pj_keep row) now
                     (st\<lparr>ps_db := settleTerminal row ACancelled TCancelled None now db2\<rparr>) ())
             else (Inr (), st\<lparr>ps_db := db1\<rparr>)))"

definition pgCancel :: "thrown list \<Rightarrow> millis \<Rightarrow> job_id \<Rightarrow> pg_store \<Rightarrow> (store_error + unit) \<times> pg_store" where
  "pgCancel faults now i st = retryDeadlocks 3 faults ''cancel failed'' (transact (cancelBody now i)) st"

definition pgCancelByDedupe ::
  "thrown list \<Rightarrow> millis \<Rightarrow> string \<Rightarrow> string \<Rightarrow> pg_store \<Rightarrow> (store_error + bool) \<times> pg_store" where
  "pgCancelByDedupe faults now name key st =
     (case mapGet (db_dedupe (ps_db st)) (name, key) of
        None \<Rightarrow> (Inr False, st)
      | Some entry \<Rightarrow>
          if pd_jobId entry = [] then (Inr False, st)
          else
            (case pgCancel faults now (pd_jobId entry) st of
               (Inr _, st1) \<Rightarrow> (Inr True, st1)
             | (Inl (JobNotFoundError _), st1) \<Rightarrow> (Inr False, st1)
             | (Inl (JobNotCancellableError _ _), st1) \<Rightarrow> (Inr False, st1)
             | (Inl e, st1) \<Rightarrow> (Inl e, st1)))"

section \<open>Queues, counts, remove\<close>

definition pgPause :: "queue_name \<Rightarrow> pg_store \<Rightarrow> pg_store" where
  "pgPause queue st = st\<lparr>ps_db := (ps_db st)\<lparr>db_queues := mapSet queue True (db_queues (ps_db st))\<rparr>\<rparr>"

definition pgResume :: "queue_name \<Rightarrow> pg_store \<Rightarrow> pg_store" where
  "pgResume queue st =
     pgWakeUp (Some queue)
       (if mapHas (db_queues (ps_db st)) queue
        then st\<lparr>ps_db := (ps_db st)\<lparr>db_queues := mapSet queue False (db_queues (ps_db st))\<rparr>\<rparr> else st)"

definition pgPausedQueues :: "pg_store \<Rightarrow> queue_name list" where
  "pgPausedQueues st = map fst (filter snd (db_queues (ps_db st)))"

definition pgCounts :: "queue_name option \<Rightarrow> pg_store \<Rightarrow> job_state \<Rightarrow> int" where
  "pgCounts queue st s =
     int (length (filter (\<lambda>row. pj_state row = s \<and> (case queue of None \<Rightarrow> True | Some q \<Rightarrow> pj_queue row = q))
       (mapValues (db_jobs (ps_db st)))))"

definition pgRemove :: "job_id \<Rightarrow> pg_store \<Rightarrow> bool \<times> pg_store" where
  "pgRemove i st =
     (case purgeJobsWhere (\<lambda>row. pj_id row = i \<and> pj_state row \<noteq> Active \<and> pj_state row \<noteq> WaitingChildren) (ps_db st) of
        (deleted, db) \<Rightarrow> (deleted \<noteq> [], st\<lparr>ps_db := db\<rparr>))"

section \<open>The history sweep\<close>

text \<open>
  \<open>COALESCE(keep->state->>'ageMs', CASE WHEN keep ?| array[...] THEN NULL ELSE keep->>'ageMs' END)\<close>: the
  age of the policy of the state, of the flat policy where no state has one.
\<close>

definition keepAgeOf :: "keep_policy option \<Rightarrow> terminal_state \<Rightarrow> int option" where
  "keepAgeOf keep t =
     (case keep of
        None \<Rightarrow> None
      | Some k \<Rightarrow>
          (case Option.bind (case t of TCompleted \<Rightarrow> kp_completed k | TFailed \<Rightarrow> kp_failed k | TCancelled \<Rightarrow> kp_cancelled k)
                  kp_ageMs of
             Some age \<Rightarrow> Some age
           | None \<Rightarrow>
               if kp_completed k \<noteq> None \<or> kp_failed k \<noteq> None \<or> kp_cancelled k \<noteq> None then None
               else Option.bind (kp_flat k) kp_ageMs))"

definition pgOverdue :: "history_ttl \<Rightarrow> terminal_state \<Rightarrow> millis \<Rightarrow> pg_job \<Rightarrow> bool" where
  "pgOverdue ttlByState t now row \<longleftrightarrow>
     (case ttlFor ttlByState t of None \<Rightarrow> False | Some ttl \<Rightarrow> finishedBy (now - ttl) row)
   \<or> (case keepAgeOf (pj_keep row) t of None \<Rightarrow> False | Some age \<Rightarrow> finishedBy (now - age) row)"

definition sweepTerminal :: "history_ttl \<Rightarrow> millis \<Rightarrow> terminal_state \<Rightarrow> pg_db \<Rightarrow> pg_db" where
  "sweepTerminal ttlByState now t db =
     snd (purgeJobsWhere (\<lambda>row. pj_state row = stateOfTerminal t \<and> \<not> pgOwesCascades db (pj_id row)
       \<and> pgOverdue ttlByState t now row) db)"

definition deadEntry :: "millis \<Rightarrow> pg_db \<Rightarrow> pg_dedupe \<Rightarrow> bool" where
  "deadEntry now db entry =
     (case pd_windowExpiresAt entry of
        Some e \<Rightarrow> e \<le> now
      | None \<Rightarrow>
          (case mapGet (db_jobs db) (pd_jobId entry) of
             None \<Rightarrow> True
           | Some row \<Rightarrow> pj_state row \<notin> {Waiting, Delayed, Active, WaitingChildren}))"

definition pgHistorySweep :: "history_ttl \<Rightarrow> millis \<Rightarrow> pg_store \<Rightarrow> pg_store" where
  "pgHistorySweep ttlByState now st =
     (let db = fold (sweepTerminal ttlByState now) [TCompleted, TFailed, TCancelled] (ps_db st)
      in st\<lparr>ps_db := db\<lparr>db_dedupe := filter (\<lambda>e. \<not> deadEntry now db (snd e)) (db_dedupe db)\<rparr>\<rparr>)"

end
