(* ===== verification/MemSchedules.thy ===== *)
theory MemSchedules
  imports MemEnqueue
begin

text \<open>
  The repeatable-job schedules of \<open>MemoryJobStore.ts\<close>: \<open>upsertSchedule\<close>, \<open>removeSchedule\<close>,
  \<open>listSchedules\<close>, \<open>dueSchedules\<close>, \<open>advanceSchedule\<close> and the atomic \<open>tickSchedule\<close>.
\<close>

definition sameCadence :: "schedule_record \<Rightarrow> schedule_record \<Rightarrow> bool" where
  "sameCadence existing schedule \<longleftrightarrow>
     sc_cron existing = sc_cron schedule \<and> sc_tz existing = sc_tz schedule
     \<and> sc_everyMs existing = sc_everyMs schedule"

definition upsertSchedule :: "schedule_record \<Rightarrow> mem_store \<Rightarrow> mem_store" where
  "upsertSchedule schedule s =
     (let stored = (case mapGet (schedules s) (sc_key schedule) of
                      None \<Rightarrow> schedule
                    | Some existing \<Rightarrow>
                        if sameCadence existing schedule
                        then schedule\<lparr>sc_nextRunAt := sc_nextRunAt existing\<rparr>
                        else schedule)
      in signalWake (Some (sc_queue schedule))
           (s\<lparr>schedules := mapSet (sc_key schedule) stored (schedules s)\<rparr>))"

definition removeSchedule :: "schedule_key \<Rightarrow> mem_store \<Rightarrow> bool \<times> mem_store" where
  "removeSchedule key s =
     (mapHas (schedules s) key, s\<lparr>schedules := mapDelete key (schedules s)\<rparr>)"

definition matches :: "'a option \<Rightarrow> 'a \<Rightarrow> bool" where
  "matches filt v = (case filt of None \<Rightarrow> True | Some f \<Rightarrow> v = f)"

definition listSchedules ::
  "string option \<Rightarrow> queue_name option \<Rightarrow> string option \<Rightarrow> mem_store \<Rightarrow> schedule_record list" where
  "listSchedules jobName queue grp s =
     filter (\<lambda>schedule. matches jobName (sc_jobName schedule)
               \<and> matches queue (sc_queue schedule)
               \<and> (case grp of None \<Rightarrow> True | Some g \<Rightarrow> sc_group schedule = Some g))
       (mapValues (schedules s))"

definition dueSchedules :: "millis \<Rightarrow> mem_store \<Rightarrow> schedule_record list" where
  "dueSchedules now s =
     toSorted (\<lambda>a b. sc_nextRunAt a - sc_nextRunAt b)
       (filter (\<lambda>schedule. sc_nextRunAt schedule \<le> now) (mapValues (schedules s)))"

definition setNextRun :: "schedule_key \<Rightarrow> schedule_record \<Rightarrow> millis \<Rightarrow> mem_store \<Rightarrow> mem_store" where
  "setNextRun key schedule nextRunAt s =
     s\<lparr>schedules := mapSet key (schedule\<lparr>sc_nextRunAt := nextRunAt\<rparr>) (schedules s)\<rparr>"

definition advanceSchedule :: "schedule_key \<Rightarrow> millis \<Rightarrow> millis \<Rightarrow> mem_store \<Rightarrow> mem_store" where
  "advanceSchedule key expectedRunAt nextRunAt s =
     (case mapGet (schedules s) key of
        None \<Rightarrow> s
      | Some schedule \<Rightarrow>
          if sc_nextRunAt schedule = expectedRunAt then setNextRun key schedule nextRunAt s else s)"

definition tickSchedule ::
  "millis \<Rightarrow> schedule_key \<Rightarrow> millis \<Rightarrow> millis \<Rightarrow> enqueue_request \<Rightarrow> mem_store
    \<Rightarrow> (store_error + bool) \<times> mem_store" where
  "tickSchedule now key expectedRunAt nextRunAt request s =
     (case rq_id request of
        None \<Rightarrow> (Inl (JobStoreError ''tickSchedule requires an explicit request.id''), s)
      | Some i \<Rightarrow>
          (case mapGet (schedules s) key of
             None \<Rightarrow> (Inr False, s)
           | Some schedule \<Rightarrow>
               if sc_nextRunAt schedule \<noteq> expectedRunAt then (Inr False, s)
               else
                 (let s1 = setNextRun key schedule nextRunAt s
                  in if mapHas (jobs s1) i then (Inr False, s1)
                     else (Inr True, insertJobRecord i request now s1))))"

end
