(* ===== verification/PgFlow.thy ===== *)
theory PgFlow
  imports PgAdmin MemSchedules
begin

text \<open>
  Schedules and flows in the Postgres driver: the schedule rows and the slot claimed by compare and set,
  the batch that applies child reports, the outbox, the pages of child results and the sweeper's work.
\<close>

section \<open>Schedules\<close>

definition scheduleFits :: "schedule_record \<Rightarrow> bool" where
  "scheduleFits schedule \<longleftrightarrow> int4 (sc_priority schedule) \<and> int4 (sc_attemptsMax schedule)
     \<and> (case sc_everyMs schedule of None \<Rightarrow> True | Some n \<Rightarrow> int8 n)
     \<and> (case sc_timeoutMs schedule of None \<Rightarrow> True | Some n \<Rightarrow> int8 n)"

definition pgUpsertSchedule :: "schedule_record \<Rightarrow> pg_store \<Rightarrow> (store_error + unit) \<times> pg_store" where
  "pgUpsertSchedule schedule st =
     (if \<not> scheduleFits schedule then (Inl (JobStoreError ''upsertSchedule failed''), st)
      else
        (let db = ps_db st;
             row = (case mapGet (db_schedules db) (sc_key schedule) of
                      None \<Rightarrow> schedule
                    | Some old \<Rightarrow> schedule\<lparr>sc_nextRunAt :=
                        (if sc_cron old = sc_cron schedule \<and> sc_tz old = sc_tz schedule \<and> sc_everyMs old = sc_everyMs schedule
                         then sc_nextRunAt old else sc_nextRunAt schedule)\<rparr>)
         in (Inr (), pgWakeUp (Some (sc_queue schedule))
               (st\<lparr>ps_db := db\<lparr>db_schedules := mapSet (sc_key schedule) row (db_schedules db)\<rparr>\<rparr>))))"

definition pgRemoveSchedule :: "schedule_key \<Rightarrow> pg_store \<Rightarrow> bool \<times> pg_store" where
  "pgRemoveSchedule key st =
     (mapHas (db_schedules (ps_db st)) key,
      st\<lparr>ps_db := (ps_db st)\<lparr>db_schedules := mapDelete key (db_schedules (ps_db st))\<rparr>\<rparr>)"

definition pgListSchedules ::
  "pg_server \<Rightarrow> string option \<Rightarrow> queue_name option \<Rightarrow> string option \<Rightarrow> pg_store \<Rightarrow> schedule_record list" where
  "pgListSchedules srv jobName queue grp st =
     toSorted (\<lambda>a b. sr_collate srv (sc_key a) (sc_key b))
       (filter (\<lambda>row. (case jobName of None \<Rightarrow> True | Some n \<Rightarrow> sc_jobName row = n)
                 \<and> (case queue of None \<Rightarrow> True | Some q \<Rightarrow> sc_queue row = q)
                 \<and> (case grp of None \<Rightarrow> True | Some g \<Rightarrow> sc_group row = Some g))
          (mapValues (db_schedules (ps_db st))))"

definition pgDueSchedules :: "millis \<Rightarrow> pg_store \<Rightarrow> schedule_record list" where
  "pgDueSchedules now st =
     toSorted (\<lambda>a b. sc_nextRunAt a - sc_nextRunAt b)
       (filter (\<lambda>row. sc_nextRunAt row \<le> now) (mapValues (db_schedules (ps_db st))))"

text \<open>The compare and set on the next run: whether the row was there with the expected value.\<close>

definition moveSlot :: "schedule_key \<Rightarrow> millis \<Rightarrow> millis \<Rightarrow> pg_db \<Rightarrow> bool \<times> pg_db" where
  "moveSlot key expectedRunAt nextRunAt db =
     (case mapGet (db_schedules db) key of
        None \<Rightarrow> (False, db)
      | Some row \<Rightarrow>
          if sc_nextRunAt row = expectedRunAt
          then (True, db\<lparr>db_schedules := mapSet key (row\<lparr>sc_nextRunAt := nextRunAt\<rparr>) (db_schedules db)\<rparr>)
          else (False, db))"

definition pgAdvanceSchedule :: "schedule_key \<Rightarrow> millis \<Rightarrow> millis \<Rightarrow> pg_store \<Rightarrow> pg_store" where
  "pgAdvanceSchedule key expectedRunAt nextRunAt st =
     st\<lparr>ps_db := snd (moveSlot key expectedRunAt nextRunAt (ps_db st))\<rparr>"

definition tickBody ::
  "pg_options \<Rightarrow> millis \<Rightarrow> schedule_key \<Rightarrow> millis \<Rightarrow> millis \<Rightarrow> enqueue_request \<Rightarrow> pg_store
    \<Rightarrow> (store_error + bool) \<times> pg_store" where
  "tickBody opts now key expectedRunAt nextRunAt request st =
     (case moveSlot key expectedRunAt nextRunAt (ps_db st) of
        (False, db) \<Rightarrow> (Inr False, st\<lparr>ps_db := db\<rparr>)
      | (True, db) \<Rightarrow>
          (case insertJob opts request now (st\<lparr>ps_db := db\<rparr>) of
             (Inl e, st1) \<Rightarrow> (Inl e, st1)
           | (Inr result, st1) \<Rightarrow> (Inr (\<not> er_duplicate result), st1)))"

definition pgTickSchedule ::
  "pg_options \<Rightarrow> millis \<Rightarrow> schedule_key \<Rightarrow> millis \<Rightarrow> millis \<Rightarrow> enqueue_request \<Rightarrow> pg_store
    \<Rightarrow> (store_error + bool) \<times> pg_store" where
  "pgTickSchedule opts now key expectedRunAt nextRunAt request st =
     (if rq_id request = None then (Inl (JobStoreError ''tickSchedule requires an explicit request.id''), st)
      else
        (case transact (tickBody opts now key expectedRunAt nextRunAt request) st of
           (Inl e, st1) \<Rightarrow> (Inl e, st1)
         | (Inr fired, st1) \<Rightarrow> (Inr fired, if fired then pgWakeUp (Some (rq_queue request)) st1 else st1)))"

section \<open>recordChildResults\<close>

text \<open>The first report of the batch for each dependency row, with its index.\<close>

definition candidateReports :: "flow_child_report list \<Rightarrow> (nat \<times> flow_child_report) list" where
  "candidateReports reports =
     fold (\<lambda>(n, r) acc. if list_ex (\<lambda>(_, r'). rp_flowId r' = rp_flowId r \<and> rp_childKey r' = rp_childKey r) acc
                        then acc else acc @ [(n, r)])
       (enumerate 0 reports) []"

definition pgApplyReport :: "nat \<times> flow_child_report \<Rightarrow> nat list \<times> pg_db \<Rightarrow> nat list \<times> pg_db" where
  "pgApplyReport entry acc =
     (case (entry, acc) of ((n, r), (applied, db)) \<Rightarrow>
        (case mapGet (db_children db) (rp_flowId r, rp_childKey r) of
           None \<Rightarrow> acc
         | Some row \<Rightarrow>
             if pc_status row \<noteq> RPending then acc
             else (applied @ [n],
                   db\<lparr>db_children := mapSet (rp_flowId r, rp_childKey r)
                        (row\<lparr>pc_status := statusOf (rp_outcome r), pc_exit := rp_exit r,
                             pc_failedReason := rp_failedReason r, pc_cascaded := True\<rparr>) (db_children db)\<rparr>)))"

record pg_touch =
  pt_applied :: int
  pt_completed :: int
  pt_failed :: int
  pt_cancelled :: int
  pt_firstFailed :: "nat option"
  pt_last :: nat

definition tallyReport :: "nat \<times> flow_child_report \<Rightarrow> (job_id, pg_touch) jsmap \<Rightarrow> (job_id, pg_touch) jsmap" where
  "tallyReport entry touched =
     (case entry of (n, r) \<Rightarrow>
        (let t = orElse (mapGet touched (rp_flowId r))
                   \<lparr>pt_applied = 0, pt_completed = 0, pt_failed = 0, pt_cancelled = 0, pt_firstFailed = None, pt_last = n\<rparr>;
             failed = (rp_outcome r = TFailed)
         in mapSet (rp_flowId r)
              \<lparr>pt_applied = pt_applied t + 1,
               pt_completed = pt_completed t + (if rp_outcome r = TCompleted then 1 else 0),
               pt_failed = pt_failed t + (if failed then 1 else 0),
               pt_cancelled = pt_cancelled t + (if rp_outcome r = TCancelled then 1 else 0),
               pt_firstFailed = (if failed \<and> pt_firstFailed t = None then Some n else pt_firstFailed t),
               pt_last = n\<rparr> touched))"

definition countTouch :: "pg_touch \<Rightarrow> pg_job \<Rightarrow> pg_job" where
  "countTouch t row = row\<lparr>
     pj_flowPending := map_option (\<lambda>n. max (n - pt_applied t) 0) (pj_flowPending row),
     pj_flowCompleted := map_option (\<lambda>n. n + pt_completed t) (pj_flowCompleted row),
     pj_flowFailed := map_option (\<lambda>n. n + pt_failed t) (pj_flowFailed row),
     pj_flowCancelled := map_option (\<lambda>n. n + pt_cancelled t) (pj_flowCancelled row) \<rparr>"

definition failureReason :: "string \<Rightarrow> string" where
  "failureReason childKey = ''effect-mq: flow child '' @ [CHR 0x22] @ childKey @ [CHR 0x22] @ '' failed''"

type_synonym pg_settle = "report_result list \<times> queue_name list"

text \<open>The first applied failure of a fail-fast flow settles the parent and marks the other rows.\<close>

definition failFlow ::
  "millis \<Rightarrow> job_id \<Rightarrow> string \<Rightarrow> pg_job \<Rightarrow> pg_settle \<Rightarrow> pg_store \<Rightarrow> (store_error + pg_settle) \<times> pg_store" where
  "failFlow now flowId reason parent acc st =
     (case cancelPendingChildren flowId (ps_db st) of (marked, db1) \<Rightarrow>
        (let db2 = snd (updateJob flowId (\<lambda>_. True) (\<lambda>row. (addCancelled marked row)\<lparr>pj_state := Failed,
                     pj_finishedAt := Some now, pj_failedReason := Some reason, pj_cancelRequested := False,
                     pj_flowPending := Some 0\<rparr>) db1);
             db3 = insertAttempt flowId AFailed (pj_processedAt parent) now None db2;
             db4 = pgAppendOutbox (pj_parent parent) TFailed None (Some reason) db3;
             db5 = pgReleaseDedupe (pj_name parent) (pj_dedupeKey parent) flowId now db4
         in keepOrFail ''recordChildResults failed'' (pj_name parent) Failed (pj_keep parent) now (st\<lparr>ps_db := db5\<rparr>) acc))"

definition settleTouched ::
  "millis \<Rightarrow> flow_child_report list \<Rightarrow> job_id \<times> pg_touch \<Rightarrow> (store_error + pg_settle) \<times> pg_store
    \<Rightarrow> (store_error + pg_settle) \<times> pg_store" where
  "settleTouched now reports entry acc =
     (case (entry, acc) of
        (_, (Inl e, st)) \<Rightarrow> (Inl e, st)
      | ((flowId, t), (Inr (results, wakes), st)) \<Rightarrow>
          (case updateJob flowId (\<lambda>row. pj_flowPending row \<noteq> None) (countTouch t) (ps_db st) of
             (None, db1) \<Rightarrow> (Inr (results, wakes), st\<lparr>ps_db := db1\<rparr>)
           | (Some parent, db1) \<Rightarrow>
               if pj_state parent \<noteq> WaitingChildren then (Inr (results, wakes), st\<lparr>ps_db := db1\<rparr>)
               else
                 (case (if pj_flowFailFast parent = Some True then pt_firstFailed t else None) of
                    Some n \<Rightarrow>
                      failFlow now flowId (failureReason (rp_childKey (reports ! n))) parent
                        (results[n := (results ! n)\<lparr>rr_parentSettled := True\<rparr>], wakes) (st\<lparr>ps_db := db1\<rparr>)
                  | None \<Rightarrow>
                      if pj_flowPending parent = Some 0 then
                        (case nextSeq db1 of (sq, db2) \<Rightarrow>
                           (Inr (results[pt_last t := (results ! pt_last t)\<lparr>rr_parentSettled := True\<rparr>],
                                 wakes @ [pj_queue parent]),
                            st\<lparr>ps_db := snd (updateJob flowId (\<lambda>_. True) (requeueRow now sq) db2)\<rparr>))
                      else (Inr (results, wakes), st\<lparr>ps_db := db1\<rparr>))))"

definition sortedTouches :: "(job_id, pg_touch) jsmap \<Rightarrow> (job_id, pg_touch) jsmap" where
  "sortedTouches touched = toSorted (\<lambda>a b. stringCmp (fst a) (fst b)) touched"

definition recordBody ::
  "millis \<Rightarrow> flow_child_report list \<Rightarrow> pg_store \<Rightarrow> (store_error + pg_settle) \<times> pg_store" where
  "recordBody now reports st =
     (case fold pgApplyReport (candidateReports reports) ([], ps_db st) of (applied, db1) \<Rightarrow>
        (let results = map (\<lambda>n. \<lparr>rr_applied = (n \<in> set applied), rr_parentSettled = False\<rparr>) [0..<length reports];
             touched = fold tallyReport (filter (\<lambda>(n, _). n \<in> set applied) (enumerate 0 reports)) []
         in fold (settleTouched now reports) (sortedTouches touched) (Inr (results, []), st\<lparr>ps_db := db1\<rparr>)))"

definition pgRecordChildResults ::
  "thrown list \<Rightarrow> millis \<Rightarrow> flow_child_report list \<Rightarrow> pg_store \<Rightarrow> (store_error + report_result list) \<times> pg_store" where
  "pgRecordChildResults faults now reports st =
     (if reports = [] then (Inr [], st)
      else
        (case retryDeadlocks 3 faults ''recordChildResults failed'' (transact (recordBody now reports)) st of
           (Inl e, st1) \<Rightarrow> (Inl e, st1)
         | (Inr (results, wakes), st1) \<Rightarrow> (Inr results, fold (\<lambda>q. pgWakeUp (Some q)) wakes st1)))"

section \<open>The outbox\<close>

text \<open>The spellings a sequence produces. One with too many digits still fails the cast to 64 bits.\<close>

definition canonicalBigserial :: "string \<Rightarrow> bool" where
  "canonicalBigserial s \<longleftrightarrow> s \<noteq> [] \<and> list_all isDigit s \<and> hd s \<noteq> CHR ''0''"

definition bigintOf :: "string \<Rightarrow> nat option" where
  "bigintOf s = (case parseDigits 0 s of None \<Rightarrow> None | Some n \<Rightarrow> if int8 (int n) then Some n else None)"

definition toEntry :: "pg_outbox \<Rightarrow> outbox_entry" where
  "toEntry row = \<lparr> ob_id = natToString (po_id row), ob_flowName = po_flowName row,
     ob_parentStoreKey = po_parentStoreKey row, ob_report = po_report row \<rparr>"

definition pgPeekOutbox :: "int \<Rightarrow> string option \<Rightarrow> pg_store \<Rightarrow> store_error + outbox_entry list" where
  "pgPeekOutbox n after st =
     (let rows = (\<lambda>P. map toEntry (take (nat n) (toSorted (\<lambda>a b. int (po_id a) - int (po_id b))
                        (filter P (db_outbox (ps_db st))))))
      in if n \<le> 0 then Inr []
         else
           (case after of
              None \<Rightarrow> Inr (rows (\<lambda>_. True))
            | Some a \<Rightarrow>
                if \<not> canonicalBigserial a then Inr (rows (\<lambda>_. True))
                else (case bigintOf a of
                        None \<Rightarrow> Inl (JobStoreError ''peekOutbox failed'')
                      | Some k \<Rightarrow> Inr (rows (\<lambda>row. po_id row > k)))))"

definition pgDeleteOutbox :: "string list \<Rightarrow> pg_store \<Rightarrow> (store_error + unit) \<times> pg_store" where
  "pgDeleteOutbox ids st =
     (let numeric = map bigintOf (filter canonicalBigserial ids)
      in if None \<in> set numeric then (Inl (JobStoreError ''deleteOutbox failed''), st)
         else (Inr (), st\<lparr>ps_db := (ps_db st)\<lparr>db_outbox :=
                 filter (\<lambda>row. Some (po_id row) \<notin> set numeric) (db_outbox (ps_db st))\<rparr>\<rparr>))"

section \<open>Dependency rows\<close>

text \<open>By flow and key, with a given order of texts: the database's in a query, code units in \<open>toSorted\<close>.\<close>

definition childCmp :: "(string \<Rightarrow> string \<Rightarrow> int) \<Rightarrow> pg_child \<Rightarrow> pg_child \<Rightarrow> int" where
  "childCmp cmp a b = (if pc_flowId a \<noteq> pc_flowId b then cmp (pc_flowId a) (pc_flowId b)
                       else cmp (pc_childKey a) (pc_childKey b))"

definition pgListChildResults ::
  "pg_server \<Rightarrow> job_id \<Rightarrow> string option \<Rightarrow> int option \<Rightarrow> pg_store \<Rightarrow> flow_child_record list \<times> string option" where
  "pgListChildResults srv flowId cursor limitOpt st =
     (let limit = nat (max 1 (orElse limitOpt 1000));
          rows = take (limit + 1) (toSorted (childCmp (sr_collate srv))
                   (filter (\<lambda>row. pc_flowId row = flowId
                        \<and> (case cursor of None \<Rightarrow> True | Some c \<Rightarrow> sr_collate srv (pc_childKey row) c > 0))
                      (mapValues (db_children (ps_db st)))));
          page = take limit rows
      in (map toFlowChildRecord page,
          if length rows > limit \<and> page \<noteq> [] then Some (pc_childKey (last page)) else None))"

text \<open>Consecutive rows of one flow form a group.\<close>

definition addToGroup :: "(pg_child \<Rightarrow> 'a) \<Rightarrow> pg_child \<Rightarrow> (job_id \<times> 'a list) list \<Rightarrow> (job_id \<times> 'a list) list" where
  "addToGroup f row groups =
     (if groups \<noteq> [] \<and> fst (last groups) = pc_flowId row
      then butlast groups @ [(pc_flowId row, snd (last groups) @ [f row])]
      else groups @ [(pc_flowId row, [f row])])"

definition workSpec :: "pg_child \<Rightarrow> flow_child_spec" where
  "workSpec row = \<lparr>cs_childKey = pc_childKey row, cs_storeKey = pc_storeKey row, cs_request = pc_spec row\<rparr>"

definition workCascade :: "pg_child \<Rightarrow> cascade_child" where
  "workCascade row = \<lparr>cc_childKey = pc_childKey row, cc_storeKey = pc_storeKey row, cc_childJobId = rq_id (pc_spec row)\<rparr>"

definition pgDueRow :: "millis \<Rightarrow> pg_db \<Rightarrow> pg_child \<Rightarrow> bool" where
  "pgDueRow threshold db row \<longleftrightarrow> pc_status row = RPending \<and> pc_pendingSince row \<le> threshold
     \<and> (case mapGet (db_jobs db) (pc_flowId row) of None \<Rightarrow> False | Some parent \<Rightarrow> pj_state parent = WaitingChildren)"

text \<open>
  \<open>locked\<close>: the dependency rows other transactions hold, which the first statement passes over. The page
  is cut in the database's order and its rows, which come back unordered, are sorted by code units.
\<close>

definition pgFlowSweepWork ::
  "pg_server \<Rightarrow> (job_id \<times> string \<Rightarrow> bool) \<Rightarrow> millis \<Rightarrow> int \<Rightarrow> int option \<Rightarrow> pg_store \<Rightarrow> flow_sweep_work \<times> pg_store" where
  "pgFlowSweepWork srv locked now pendingAgeMs limitOpt st =
     (let limit = nat (max 1 (orElse limitOpt 1000));
          db = ps_db st;
          due = take limit (filter (\<lambda>row. \<not> locked (pc_flowId row, pc_childKey row))
                  (toSorted (childCmp (sr_collate srv)) (filter (pgDueRow (now - pendingAgeMs) db) (mapValues (db_children db)))));
          keys = map (\<lambda>row. (pc_flowId row, pc_childKey row)) due;
          db1 = db\<lparr>db_children := map_ran (\<lambda>k row. if k \<in> set keys then row\<lparr>pc_pendingSince := now\<rparr> else row) (db_children db)\<rparr>;
          cascadeRows = take limit (toSorted (childCmp (sr_collate srv))
                          (filter (\<lambda>row. pc_status row = RCancelled \<and> \<not> pc_cascaded row) (mapValues (db_children db1))))
      in (\<lparr>sw_reconcile = fold (addToGroup workSpec) (toSorted (childCmp stringCmp) due) [], sw_cascade = fold (addToGroup workCascade) cascadeRows []\<rparr>,
          st\<lparr>ps_db := db1\<rparr>))"

definition pgMarkChildrenCascaded :: "job_id \<Rightarrow> string list \<Rightarrow> pg_store \<Rightarrow> pg_store" where
  "pgMarkChildrenCascaded flowId childKeys st =
     st\<lparr>ps_db := (ps_db st)\<lparr>db_children :=
       map_ran (\<lambda>_ row. if pc_flowId row = flowId \<and> pc_childKey row \<in> set childKeys then row\<lparr>pc_cascaded := True\<rparr> else row)
         (db_children (ps_db st))\<rparr>\<rparr>"

end
