(* ===== verification/MemAdmin.thy ===== *)
theory MemAdmin
  imports MemState
begin

text \<open>
  The administrative verbs of \<open>MemoryJobStore.ts\<close>: \<open>cancel\<close>, \<open>cancelByDedupe\<close>, \<open>retry\<close>,
  \<open>promote\<close>, \<open>pause\<close>, \<open>resume\<close>, \<open>pausedQueues\<close> and \<open>remove\<close>.
\<close>

definition cancelJob :: "millis \<Rightarrow> job_id \<Rightarrow> mem_store \<Rightarrow> (store_error + unit) \<times> mem_store" where
  "cancelJob now i s =
     (case mapGet (jobs s) i of
        None \<Rightarrow> (Inl (JobNotFoundError i), s)
      | Some job \<Rightarrow>
          (case j_state job of
             Waiting \<Rightarrow> (Inr (), markCancelled job now s)
           | Delayed \<Rightarrow> (Inr (), markCancelled job now s)
           | WaitingChildren \<Rightarrow> (Inr (), markCancelled job now s)
           | Active \<Rightarrow> (Inr (), putJob (job\<lparr>j_cancelRequested := True\<rparr>) s)
           | st \<Rightarrow> (Inl (JobNotCancellableError i st), s)))"

definition cancelByDedupe ::
  "millis \<Rightarrow> string \<Rightarrow> string \<Rightarrow> mem_store \<Rightarrow> (store_error + bool) \<times> mem_store" where
  "cancelByDedupe now name key s =
     (case mapGet (dedupes s) (dedupeMapKey name key) of
        None \<Rightarrow> (Inr False, s)
      | Some entry \<Rightarrow>
          (case cancelJob now (de_jobId entry) s of
             (Inr _, s') \<Rightarrow> (Inr True, s')
           | (Inl (JobNotFoundError _), s') \<Rightarrow> (Inr False, s')
           | (Inl (JobNotCancellableError _ _), s') \<Rightarrow> (Inr False, s')
           | (Inl e, s') \<Rightarrow> (Inl e, s')))"

definition retry :: "millis \<Rightarrow> job_id \<Rightarrow> mem_store \<Rightarrow> (store_error + unit) \<times> mem_store" where
  "retry now i s =
     (case mapGet (jobs s) i of
        None \<Rightarrow> (Inl (JobNotFoundError i), s)
      | Some job \<Rightarrow>
          if j_state job \<noteq> Failed then (Inl (JobNotRetryableError i (j_state job)), s)
          else
            (let sq = seqNo s + 1;
                 job1 = job\<lparr>
                   j_state := Waiting,
                   j_attemptsMade := 0,
                   j_stalledCount := 0,
                   j_cancelRequested := False,
                   j_exit := None,
                   j_failedReason := None,
                   j_finishedAt := None,
                   j_processedAt := None,
                   j_runAt := now,
                   m_seq := sq \<rparr>
             in (Inr (), signalWake (Some (j_queue job1)) (putJob job1 (s\<lparr>seqNo := sq\<rparr>)))))"

definition promote :: "millis \<Rightarrow> job_id \<Rightarrow> mem_store \<Rightarrow> (store_error + unit) \<times> mem_store" where
  "promote now i s =
     (case mapGet (jobs s) i of
        None \<Rightarrow> (Inl (JobNotFoundError i), s)
      | Some job \<Rightarrow>
          if j_state job \<noteq> Delayed then (Inl (JobNotPromotableError i (j_state job)), s)
          else (Inr (), signalWake (Some (j_queue job))
                          (putJob (job\<lparr>j_state := Waiting, j_runAt := now\<rparr>) s)))"

definition pause :: "queue_name \<Rightarrow> mem_store \<Rightarrow> mem_store" where
  "pause queue s =
     s\<lparr>paused := (if queue \<in> set (paused s) then paused s else paused s @ [queue])\<rparr>"

definition resume :: "queue_name \<Rightarrow> mem_store \<Rightarrow> mem_store" where
  "resume queue s =
     (if queue \<in> set (paused s)
      then signalWake (Some queue) (s\<lparr>paused := filter (\<lambda>q. q \<noteq> queue) (paused s)\<rparr>)
      else s)"

definition pausedQueues :: "mem_store \<Rightarrow> queue_name list" where
  "pausedQueues s = paused s"

definition remove :: "job_id \<Rightarrow> mem_store \<Rightarrow> bool \<times> mem_store" where
  "remove i s =
     (case mapGet (jobs s) i of
        None \<Rightarrow> (False, s)
      | Some job \<Rightarrow>
          if j_state job = Active \<or> j_state job = WaitingChildren then (False, s)
          else (True, deleteJob i s))"

end
