(* ===== verification/MemInvariant.thy ===== *)
theory MemInvariant
  imports MemEnqueue MemAck MemAdmin MemSchedules MemFlow MemQuery
begin

text \<open>
  The well-formedness invariant of the in-memory store and the lemmas that carry it through the
  primitive updates every operation is made of. \<open>wfx A B s\<close> is the invariant with exceptions:
  the jobs in \<open>A\<close> are in the middle of an update and promise nothing, the flow parents in \<open>B\<close>
  may still be waiting although no child is pending (between the two phases of
  \<open>recordChildResults\<close>). \<open>wellFormed = wfx {} {}\<close> is what holds between operations.
\<close>

section \<open>The invariant\<close>

definition numbered :: "attempt_record list \<Rightarrow> bool" where
  "numbered as \<longleftrightarrow> map at_attempt as = [1..<Suc (length as)]"

definition job_ok :: "job_id \<Rightarrow> mem_job \<Rightarrow> bool" where
  "job_ok i j \<longleftrightarrow> j_id j = i
     \<and> (m_lockToken j \<noteq> None \<longleftrightarrow> j_state j = Active)
     \<and> (m_lockExpiresAt j \<noteq> None \<longleftrightarrow> j_state j = Active)
     \<and> (j_finishedAt j \<noteq> None \<longleftrightarrow> j_state j \<in> TERMINAL_STATES)
     \<and> (j_cancelRequested j \<longrightarrow> j_state j = Active)
     \<and> numbered (m_attempts j)"

definition rows_ok :: "job_id \<Rightarrow> flow_rows \<Rightarrow> bool" where
  "rows_ok i rs \<longleftrightarrow> distinct (mapKeys rs)
     \<and> (\<forall>k row. mapGet rs k = Some row \<longrightarrow>
          ch_childKey row = k \<and> ch_flowId row = i \<and> rq_id (ch_spec row) \<noteq> None)"

definition flow_counts :: "flow_state \<Rightarrow> flow_rows \<Rightarrow> bool" where
  "flow_counts f rs \<longleftrightarrow> fs_pending f = tally RPending rs \<and> fs_completed f = tally RCompleted rs
     \<and> fs_failed f = tally RFailed rs \<and> fs_cancelled f = tally RCancelled rs"

definition flow_data :: "job_id \<Rightarrow> flow_state option \<Rightarrow> flow_rows option \<Rightarrow> bool" where
  "flow_data i flow rows =
     (case (flow, rows) of
        (None, None) \<Rightarrow> True
      | (Some f, Some rs) \<Rightarrow> rows_ok i rs \<and> flow_counts f rs
      | _ \<Rightarrow> False)"

definition flow_idle :: "mem_job \<Rightarrow> bool" where
  "flow_idle j \<longleftrightarrow>
     (case j_flow j of
        None \<Rightarrow> j_state j \<noteq> WaitingChildren
      | Some f \<Rightarrow> 0 < fs_pending f \<longrightarrow> j_state j = WaitingChildren)"

definition flow_base :: "mem_job \<Rightarrow> flow_rows option \<Rightarrow> bool" where
  "flow_base j rows \<longleftrightarrow> flow_data (j_id j) (j_flow j) rows \<and> flow_idle j"

definition waits_for_children :: "mem_job \<Rightarrow> bool" where
  "waits_for_children j \<longleftrightarrow>
     (j_state j = WaitingChildren \<longrightarrow> (case j_flow j of None \<Rightarrow> False | Some f \<Rightarrow> 0 < fs_pending f))"

definition entry_base :: "mem_store \<Rightarrow> job_id \<Rightarrow> bool" where
  "entry_base s i =
     (case mapGet (jobs s) i of
        None \<Rightarrow> mapGet (flowChildren s) i = None
      | Some j \<Rightarrow> job_ok i j \<and> flow_base j (mapGet (flowChildren s) i))"

definition seq_ok :: "mem_store \<Rightarrow> bool" where
  "seq_ok s \<longleftrightarrow> (\<forall>i j. mapGet (jobs s) i = Some j \<longrightarrow> m_seq j \<le> seqNo s)
     \<and> (\<forall>i j i' j'. mapGet (jobs s) i = Some j \<longrightarrow> mapGet (jobs s) i' = Some j' \<longrightarrow>
          m_seq j = m_seq j' \<longrightarrow> i = i')"

definition outbox_ok :: "mem_store \<Rightarrow> bool" where
  "outbox_ok s \<longleftrightarrow> (\<exists>ns. map ob_id (outbox s) = map outboxId ns \<and> sorted_wrt (<) ns
     \<and> (\<forall>n\<in>set ns. n \<le> outboxSeq s))"

definition wfx :: "job_id set \<Rightarrow> job_id set \<Rightarrow> mem_store \<Rightarrow> bool" where
  "wfx A B s \<longleftrightarrow> distinct (mapKeys (jobs s)) \<and> distinct (mapKeys (flowChildren s))
     \<and> seq_ok s \<and> outbox_ok s
     \<and> (\<forall>i. i \<notin> A \<longrightarrow> entry_base s i)
     \<and> (\<forall>i j. i \<notin> A \<longrightarrow> i \<notin> B \<longrightarrow> mapGet (jobs s) i = Some j \<longrightarrow> waits_for_children j)"

definition wellFormed :: "mem_store \<Rightarrow> bool" where
  "wellFormed s \<longleftrightarrow> wfx {} {} s"

lemma wf_empty: "wellFormed emptyStore"
  by (auto simp: wellFormed_def wfx_def emptyStore_def seq_ok_def outbox_ok_def entry_base_def)

section \<open>Reading the invariant\<close>

lemma wfx_mono: "wfx A B s \<Longrightarrow> A \<subseteq> A' \<Longrightarrow> B \<subseteq> B' \<Longrightarrow> wfx A' B' s"
  unfolding wfx_def by (meson subsetD)

lemma wf_distinct: "wellFormed s \<Longrightarrow> distinct (mapKeys (jobs s))"
  by (simp add: wellFormed_def wfx_def)

lemma wfx_distinct: "wfx A B s \<Longrightarrow> distinct (mapKeys (jobs s))"
  by (simp add: wfx_def)

lemma wfx_job: "wfx A B s \<Longrightarrow> i \<notin> A \<Longrightarrow> mapGet (jobs s) i = Some j \<Longrightarrow> job_ok i j"
  by (fastforce simp: wfx_def entry_base_def)

lemma wfx_flow:
  "wfx A B s \<Longrightarrow> i \<notin> A \<Longrightarrow> mapGet (jobs s) i = Some j \<Longrightarrow> flow_base j (mapGet (flowChildren s) i)"
  by (fastforce simp: wfx_def entry_base_def)

lemma wfx_id: "wfx A B s \<Longrightarrow> i \<notin> A \<Longrightarrow> mapGet (jobs s) i = Some j \<Longrightarrow> j_id j = i"
  by (drule (2) wfx_job) (simp add: job_ok_def)

lemma wfx_no_job:
  "wfx A B s \<Longrightarrow> i \<notin> A \<Longrightarrow> mapGet (jobs s) i = None \<Longrightarrow> mapGet (flowChildren s) i = None"
  by (fastforce simp: wfx_def entry_base_def)

lemma wf_job: "wellFormed s \<Longrightarrow> mapGet (jobs s) i = Some j \<Longrightarrow> job_ok i j"
  unfolding wellFormed_def by (erule wfx_job) auto

lemma wf_id: "wellFormed s \<Longrightarrow> mapGet (jobs s) i = Some j \<Longrightarrow> j_id j = i"
  unfolding wellFormed_def by (erule wfx_id) auto

lemma wf_flow: "wellFormed s \<Longrightarrow> mapGet (jobs s) i = Some j \<Longrightarrow> flow_base j (mapGet (flowChildren s) i)"
  unfolding wellFormed_def by (erule wfx_flow) auto

lemma wf_waits: "wellFormed s \<Longrightarrow> mapGet (jobs s) i = Some j \<Longrightarrow> waits_for_children j"
  by (simp add: wellFormed_def wfx_def)

lemma wf_value: "wellFormed s \<Longrightarrow> j \<in> set (mapValues (jobs s)) \<Longrightarrow> mapGet (jobs s) (j_id j) = Some j"
  using wf_id wf_distinct mapValues_in by metis

lemma flow_data_simps [simp]:
  "flow_data i None rows \<longleftrightarrow> rows = None"
  "flow_data i (Some f) rows \<longleftrightarrow> (\<exists>rs. rows = Some rs \<and> rows_ok i rs \<and> flow_counts f rs)"
  "flow_data i flow None \<longleftrightarrow> flow = None"
  "flow_data i flow (Some rs) \<longleftrightarrow> (\<exists>f. flow = Some f \<and> rows_ok i rs \<and> flow_counts f rs)"
  by (auto simp: flow_data_def split: option.splits)

lemma flow_idle_simps [simp]:
  "j_flow j = None \<Longrightarrow> flow_idle j \<longleftrightarrow> j_state j \<noteq> WaitingChildren"
  "j_flow j = Some f \<Longrightarrow> flow_idle j \<longleftrightarrow> (0 < fs_pending f \<longrightarrow> j_state j = WaitingChildren)"
  by (auto simp: flow_idle_def)

section \<open>Counting rows\<close>

lemma tally_nonneg [simp]: "0 \<le> tally st rs"
  by (simp add: tally_def)

lemma tally_Nil [simp]: "tally st [] = 0"
  by (simp add: tally_def)

lemma tally_Cons: "tally st ((k, row) # rs) = (if ch_status row = st then 1 else 0) + tally st rs"
  by (simp add: tally_def)

lemma tally_append: "tally st (l @ r) = tally st l + tally st r"
  by (simp add: tally_def)

lemma tally_set:
  assumes "distinct (mapKeys rs)" and "mapGet rs k = Some row"
  shows "tally st (mapSet k row' rs) =
    tally st rs - (if ch_status row = st then 1 else 0) + (if ch_status row' = st then 1 else 0)"
proof -
  from mapSet_split [OF assms] obtain l r where
    "rs = l @ (k, row) # r" and "mapSet k row' rs = l @ (k, row') # r"
    by metis
  then show ?thesis by (simp add: tally_append tally_Cons)
qed

lemma tally_pos: "mapGet rs k = Some row \<Longrightarrow> 0 < tally (ch_status row) rs"
proof (induction rs)
  case Nil
  then show ?case by simp
next
  case (Cons p rs)
  obtain k' row' where p: "p = (k', row')" by fastforce
  with Cons show ?case by (auto simp: tally_Cons add_pos_nonneg split: if_splits)
qed

lemma tally_map_ran:
  "(\<And>row. ch_status (f row) = (if ch_status row = a then b else ch_status row)) \<Longrightarrow> a \<noteq> b \<Longrightarrow>
     tally st (map_ran (\<lambda>_. f) rs) =
       (if st = a then 0 else if st = b then tally b rs + tally a rs else tally st rs)"
  by (induction rs) (auto simp: tally_Cons)

lemma tally_cancelPending:
  "tally st (map_ran (\<lambda>_. cancelPendingRow) rs) =
     (if st = RPending then 0
      else if st = RCancelled then tally RCancelled rs + tally RPending rs else tally st rs)"
  by (rule tally_map_ran) (auto simp: cancelPendingRow_def)

lemma rows_ok_cancel: "rows_ok i rs \<Longrightarrow> rows_ok i (map_ran (\<lambda>_. cancelPendingRow) rs)"
  by (auto simp: rows_ok_def map_ran_conv cancelPendingRow_def)

lemma rows_ok_set:
  "rows_ok i rs \<Longrightarrow> ch_childKey row = k \<Longrightarrow> ch_flowId row = i \<Longrightarrow> rq_id (ch_spec row) \<noteq> None
     \<Longrightarrow> rows_ok i (mapSet k row rs)"
  by (auto simp: rows_ok_def split: if_splits)

section \<open>Frames of the primitive updates\<close>

lemma signalWake_frame [simp]:
  "jobs (signalWake q s) = jobs s" "flowChildren (signalWake q s) = flowChildren s"
  "outbox (signalWake q s) = outbox s" "outboxSeq (signalWake q s) = outboxSeq s"
  "seqNo (signalWake q s) = seqNo s" "dedupes (signalWake q s) = dedupes s"
  "schedules (signalWake q s) = schedules s" "paused (signalWake q s) = paused s"
  "wakeVersion (signalWake q s) = wakeVersion s + 1"
  "idCounter (signalWake q s) = idCounter s" "draws (signalWake q s) = draws s"
  by (simp_all add: signalWake_def Let_def)

lemma putJob_frame [simp]:
  "jobs (putJob j s) = mapSet (j_id j) j (jobs s)" "flowChildren (putJob j s) = flowChildren s"
  "outbox (putJob j s) = outbox s" "outboxSeq (putJob j s) = outboxSeq s"
  "seqNo (putJob j s) = seqNo s" "dedupes (putJob j s) = dedupes s"
  "schedules (putJob j s) = schedules s" "paused (putJob j s) = paused s"
  "wakeVersion (putJob j s) = wakeVersion s" "lastWake (putJob j s) = lastWake s"
  "lastBroadcast (putJob j s) = lastBroadcast s" "waiters (putJob j s) = waiters s"
  "idCounter (putJob j s) = idCounter s"
  by (simp_all add: putJob_def)

lemma releaseDedupe_frame [simp]:
  "jobs (releaseDedupe j now s) = jobs s" "flowChildren (releaseDedupe j now s) = flowChildren s"
  "outbox (releaseDedupe j now s) = outbox s" "outboxSeq (releaseDedupe j now s) = outboxSeq s"
  "seqNo (releaseDedupe j now s) = seqNo s" "schedules (releaseDedupe j now s) = schedules s"
  "wakeVersion (releaseDedupe j now s) = wakeVersion s" "lastWake (releaseDedupe j now s) = lastWake s"
  "lastBroadcast (releaseDedupe j now s) = lastBroadcast s" "paused (releaseDedupe j now s) = paused s"
  "waiters (releaseDedupe j now s) = waiters s"
  by (auto simp: releaseDedupe_def Let_def split: option.splits)

lemma appendOutbox_frame [simp]:
  "jobs (appendOutbox j t s) = jobs s" "flowChildren (appendOutbox j t s) = flowChildren s"
  "seqNo (appendOutbox j t s) = seqNo s" "dedupes (appendOutbox j t s) = dedupes s"
  "schedules (appendOutbox j t s) = schedules s" "wakeVersion (appendOutbox j t s) = wakeVersion s"
  "lastWake (appendOutbox j t s) = lastWake s" "lastBroadcast (appendOutbox j t s) = lastBroadcast s"
  "paused (appendOutbox j t s) = paused s" "waiters (appendOutbox j t s) = waiters s"
  by (auto simp: appendOutbox_def split: option.splits)

lemma deleteJob_frame [simp]:
  "jobs (deleteJob i s) = mapDelete i (jobs s)"
  "flowChildren (deleteJob i s) = mapDelete i (flowChildren s)"
  "outbox (deleteJob i s) = outbox s" "outboxSeq (deleteJob i s) = outboxSeq s"
  "seqNo (deleteJob i s) = seqNo s" "dedupes (deleteJob i s) = dedupes s"
  "schedules (deleteJob i s) = schedules s" "wakeVersion (deleteJob i s) = wakeVersion s"
  "lastWake (deleteJob i s) = lastWake s" "lastBroadcast (deleteJob i s) = lastBroadcast s"
  "paused (deleteJob i s) = paused s" "waiters (deleteJob i s) = waiters s"
  by (simp_all add: deleteJob_def)

lemma clearLock_sel [simp]:
  "j_id (clearLock j) = j_id j" "j_state (clearLock j) = j_state j" "j_flow (clearLock j) = j_flow j"
  "m_seq (clearLock j) = m_seq j" "m_attempts (clearLock j) = m_attempts j"
  "j_queue (clearLock j) = j_queue j" "j_parent (clearLock j) = j_parent j"
  "j_name (clearLock j) = j_name j" "j_keep (clearLock j) = j_keep j"
  "j_cancelRequested (clearLock j) = j_cancelRequested j"
  "j_finishedAt (clearLock j) = j_finishedAt j" "j_exit (clearLock j) = j_exit j"
  "j_failedReason (clearLock j) = j_failedReason j" "j_dedupeKey (clearLock j) = j_dedupeKey j"
  "m_lockToken (clearLock j) = None" "m_lockExpiresAt (clearLock j) = None"
  "j_attemptsMade (clearLock j) = j_attemptsMade j" "j_stalledCount (clearLock j) = j_stalledCount j"
  by (simp_all add: clearLock_def)

lemma recordAttempt_sel [simp]:
  "j_id (recordAttempt a t e j) = j_id j" "j_state (recordAttempt a t e j) = j_state j"
  "j_flow (recordAttempt a t e j) = j_flow j" "m_seq (recordAttempt a t e j) = m_seq j"
  "j_queue (recordAttempt a t e j) = j_queue j" "j_parent (recordAttempt a t e j) = j_parent j"
  "j_name (recordAttempt a t e j) = j_name j" "j_keep (recordAttempt a t e j) = j_keep j"
  "j_cancelRequested (recordAttempt a t e j) = j_cancelRequested j"
  "j_finishedAt (recordAttempt a t e j) = j_finishedAt j"
  "m_lockToken (recordAttempt a t e j) = m_lockToken j"
  "m_lockExpiresAt (recordAttempt a t e j) = m_lockExpiresAt j"
  "j_exit (recordAttempt a t e j) = j_exit j"
  "j_failedReason (recordAttempt a t e j) = j_failedReason j"
  "j_dedupeKey (recordAttempt a t e j) = j_dedupeKey j"
  "j_attemptsMade (recordAttempt a t e j) = j_attemptsMade j"
  "j_stalledCount (recordAttempt a t e j) = j_stalledCount j"
  by (simp_all add: recordAttempt_def)

lemma numbered_Nil [simp]: "numbered []"
  by (simp add: numbered_def)

lemma numbered_recordAttempt [simp]:
  "numbered (m_attempts j) \<Longrightarrow> numbered (m_attempts (recordAttempt a t e j))"
  by (simp add: numbered_def recordAttempt_def)

section \<open>Preservation by the primitive updates\<close>

lemma outboxId_inj: "outboxId a = outboxId b \<Longrightarrow> a = b"
  by (simp add: outboxId_def natToString_inj)

lemma outbox_ok_append: "outbox_ok s \<Longrightarrow> outbox_ok (appendOutbox j t s)"
proof (cases "j_parent j")
  case None
  then show "outbox_ok s \<Longrightarrow> ?thesis" by (simp add: appendOutbox_def)
next
  case (Some p)
  assume "outbox_ok s"
  then obtain ns where ns: "map ob_id (outbox s) = map outboxId ns" "sorted_wrt (<) ns"
    "\<forall>n\<in>set ns. n \<le> outboxSeq s" by (auto simp: outbox_ok_def)
  let ?ns = "ns @ [outboxSeq s + 1]"
  have "map ob_id (outbox (appendOutbox j t s)) = map outboxId ?ns"
    using Some ns(1) by (simp add: appendOutbox_def)
  moreover have "sorted_wrt (<) ?ns" using ns(2,3) by (auto simp: sorted_wrt_append less_Suc_eq_le)
  moreover have "\<forall>n\<in>set ?ns. n \<le> outboxSeq (appendOutbox j t s)"
    using Some ns(3) by (auto simp: appendOutbox_def)
  ultimately show ?thesis unfolding outbox_ok_def by blast
qed

lemma outbox_ok_filter:
  assumes "outbox_ok s"
  shows "outbox_ok (s\<lparr>outbox := filter P (outbox s)\<rparr>)"
proof -
  from assms obtain ns where ns: "map ob_id (outbox s) = map outboxId ns" "sorted_wrt (<) ns"
    "\<forall>n\<in>set ns. n \<le> outboxSeq s" by (auto simp: outbox_ok_def)
  have "\<exists>ms. map ob_id (filter P es) = map outboxId ms \<and> sorted_wrt (<) ms \<and> set ms \<subseteq> set ks"
    if "map ob_id es = map outboxId ks" "sorted_wrt (<) ks" for es ks
    using that
  proof (induction es arbitrary: ks)
    case Nil
    then show ?case by simp
  next
    case (Cons e es)
    then obtain k ks' where ks: "ks = k # ks'" and "ob_id e = outboxId k"
      and "map ob_id es = map outboxId ks'" by (cases ks) auto
    moreover from ks Cons.prems(2) have "sorted_wrt (<) ks'" by simp
    ultimately obtain ms where ms: "map ob_id (filter P es) = map outboxId ms" "sorted_wrt (<) ms"
      "set ms \<subseteq> set ks'" using Cons.IH by blast
    show ?case
    proof (cases "P e")
      case True
      with ms ks Cons.prems \<open>ob_id e = outboxId k\<close>
      show ?thesis by (intro exI [of _ "k # ms"]) auto
    next
      case False
      with ms ks show ?thesis by (intro exI [of _ ms]) auto
    qed
  qed
  from this [OF ns(1,2)] ns(3) show ?thesis by (fastforce simp: outbox_ok_def)
qed

text \<open>Only five fields matter to the invariant.\<close>

lemma wfx_cong:
  assumes "jobs s' = jobs s" "flowChildren s' = flowChildren s" "outbox s' = outbox s"
    "outboxSeq s' = outboxSeq s" "seqNo s' = seqNo s"
  shows "wfx A B s' = wfx A B s"
  unfolding wfx_def seq_ok_def outbox_ok_def entry_base_def assms ..

lemma wfx_signalWake [simp]: "wfx A B (signalWake q s) = wfx A B s"
  by (rule wfx_cong) simp_all

lemma wfx_releaseDedupe [simp]: "wfx A B (releaseDedupe j now s) = wfx A B s"
  by (rule wfx_cong) simp_all

lemma wfx_frames [simp]:
  "wfx A B (s\<lparr>dedupes := d\<rparr>) = wfx A B s" "wfx A B (s\<lparr>schedules := sc\<rparr>) = wfx A B s"
  "wfx A B (s\<lparr>paused := p\<rparr>) = wfx A B s" "wfx A B (s\<lparr>waiters := w\<rparr>) = wfx A B s"
  "wfx A B (s\<lparr>nextWaiter := n\<rparr>) = wfx A B s" "wfx A B (s\<lparr>idCounter := n\<rparr>) = wfx A B s"
  "wfx A B (s\<lparr>draws := n\<rparr>) = wfx A B s"
  by (rule wfx_cong; simp)+

text \<open>A change that leaves jobs, rows and the sequence alone.\<close>

lemma wfx_outbox_change:
  assumes "wfx A B s" and "jobs s' = jobs s" "flowChildren s' = flowChildren s" "seqNo s' = seqNo s"
    and "outbox_ok s'"
  shows "wfx A B s'"
  using assms(1,5) unfolding wfx_def seq_ok_def entry_base_def assms(2-4) by blast

lemma wfx_appendOutbox [simp]: "wfx A B s \<Longrightarrow> wfx A B (appendOutbox j t s)"
  by (rule wfx_outbox_change [of A B s]) (simp_all add: outbox_ok_append wfx_def)

lemma wfx_outbox_filter: "wfx A B s \<Longrightarrow> wfx A B (s\<lparr>outbox := filter P (outbox s)\<rparr>)"
  by (rule wfx_outbox_change [of A B s]) (simp_all add: outbox_ok_filter wfx_def)

lemma wfx_deleteJob:
  assumes "wfx A B s"
  shows "wfx A B (deleteJob i s)"
proof -
  have seq: "seq_ok (deleteJob i s)"
    using assms unfolding wfx_def seq_ok_def
    by (auto simp: mapGet_delete)
  have ob: "outbox_ok (deleteJob i s)" using assms by (simp add: wfx_def outbox_ok_def)
  have "entry_base (deleteJob i s) k = (if k = i then True else entry_base s k)" for k
    by (simp add: entry_base_def mapGet_delete split: option.split)
  then have ent: "entry_base (deleteJob i s) k" if "k \<notin> A" for k
    using assms that by (simp add: wfx_def)
  have "waits_for_children j"
    if "k \<notin> A" "k \<notin> B" "mapGet (jobs (deleteJob i s)) k = Some j" for k j
    using assms that by (auto simp: wfx_def mapGet_delete split: if_splits)
  with seq ob ent assms show ?thesis unfolding wfx_def by simp
qed

lemma wfx_setRows:
  assumes "wfx A B s" and "i \<in> A"
  shows "wfx A B (s\<lparr>flowChildren := mapSet i rs (flowChildren s)\<rparr>)"
proof -
  have ent: "entry_base (s\<lparr>flowChildren := mapSet i rs (flowChildren s)\<rparr>) k" if "k \<notin> A" for k
  proof -
    from that assms(2) have "k \<noteq> i" by auto
    then have "entry_base (s\<lparr>flowChildren := mapSet i rs (flowChildren s)\<rparr>) k = entry_base s k"
      by (simp add: entry_base_def split: option.split)
    with assms(1) that show ?thesis by (simp add: wfx_def)
  qed
  then show ?thesis using assms by (simp add: wfx_def seq_ok_def outbox_ok_def)
qed

lemma seq_ok_put:
  assumes "seq_ok s" and "j_id j = i"
    and "mapGet (jobs s) i = Some j0" and "m_seq j = m_seq j0"
  shows "seq_ok (putJob j s)"
proof -
  have le: "m_seq j' \<le> seqNo s" if "mapGet (jobs s) k = Some j'" for k j'
    using assms(1) that by (simp add: seq_ok_def)
  have inj: "k = k'" if "mapGet (jobs s) k = Some j'" "mapGet (jobs s) k' = Some j''" "m_seq j' = m_seq j''"
    for k k' j' j''
    using assms(1) that unfolding seq_ok_def by blast
  show ?thesis
    unfolding seq_ok_def using assms(2-4) le inj by (auto split: if_splits)
qed

lemma seq_ok_fresh:
  assumes "seq_ok s" and "m_seq j = seqNo s + 1"
  shows "seq_ok (putJob j (s\<lparr>seqNo := seqNo s + 1\<rparr>))"
proof -
  have le: "m_seq j' < Suc (seqNo s)" if "mapGet (jobs s) k = Some j'" for k j'
    using assms(1) that by (simp add: seq_ok_def less_Suc_eq_le)
  have ne: "m_seq j' \<noteq> Suc (seqNo s)" if "mapGet (jobs s) k = Some j'" for k j'
    using le [OF that] by simp
  have le': "m_seq j' \<le> Suc (seqNo s)" if "mapGet (jobs s) k = Some j'" for k j'
    using le [OF that] by simp
  have inj: "k = k'" if "mapGet (jobs s) k = Some j'" "mapGet (jobs s) k' = Some j''" "m_seq j' = m_seq j''"
    for k k' j' j''
    using assms(1) that unfolding seq_ok_def by blast
  show ?thesis
    unfolding seq_ok_def using assms(2) le' ne ne [symmetric] inj by (auto split: if_splits)
qed

lemma wfx_put_core:
  assumes w: "wfx (insert i A) B s" and i: "j_id j = i" "job_ok i j"
    "flow_base j (mapGet (flowChildren s) i)" "i \<notin> B \<Longrightarrow> waits_for_children j"
    and sq: "seq_ok (putJob j s')" and s': "jobs s' = jobs s" "flowChildren s' = flowChildren s"
    "outbox s' = outbox s" "outboxSeq s' = outboxSeq s"
  shows "wfx A B (putJob j s')"
proof -
  have "entry_base (putJob j s') k = entry_base s k" if "k \<noteq> i" for k
    using that i(1) s' by (simp add: entry_base_def split: option.split)
  moreover have "entry_base (putJob j s') i" using i(1-3) s' by (simp add: entry_base_def)
  ultimately have ent: "entry_base (putJob j s') k" if "k \<notin> A" for k
    using that w by (cases "k = i") (simp_all add: wfx_def)
  have wait: "waits_for_children j'"
    if "k \<notin> A" "k \<notin> B" "mapGet (jobs (putJob j s')) k = Some j'" for k j'
    using that w i s' by (cases "k = i") (auto simp: wfx_def)
  show ?thesis
    using w sq ent wait s' unfolding wfx_def by (simp add: outbox_ok_def)
qed

lemma wfx_putJob:
  assumes "wfx (insert i A) B s" and "j_id j = i" "job_ok i j"
    and "mapGet (jobs s) i = Some j0" "m_seq j = m_seq j0"
    and "flow_base j (mapGet (flowChildren s) i)" "i \<notin> B \<Longrightarrow> waits_for_children j"
  shows "wfx A B (putJob j s)"
  by (rule wfx_put_core [OF assms(1-3,6,7) seq_ok_put])
    (use assms in \<open>auto simp: wfx_def\<close>)

lemma wfx_putFresh:
  assumes "wfx (insert i A) B s" and "j_id j = i" "job_ok i j" and "m_seq j = seqNo s + 1"
    and "flow_base j (mapGet (flowChildren s) i)" "i \<notin> B \<Longrightarrow> waits_for_children j"
  shows "wfx A B (putJob j (s\<lparr>seqNo := seqNo s + 1\<rparr>))"
  by (rule wfx_put_core [OF assms(1-3,5,6) seq_ok_fresh])
    (use assms in \<open>auto simp: wfx_def\<close>)

lemma wfx_fold_invariant:
  "wfx A B s \<Longrightarrow> (\<And>x s. wfx A B s \<Longrightarrow> wfx A B (f x s)) \<Longrightarrow> wfx A B (fold f xs s)"
  by (rule fold_invariant_list) auto

lemma wfx_prune: "wfx A B s \<Longrightarrow> wfx A B (pruneUnlessOwing i s)"
  by (simp add: pruneUnlessOwing_def wfx_deleteJob)

lemma wfx_applyKeep: "wfx A B s \<Longrightarrow> wfx A B (applyKeep j now s)"
  by (auto simp: applyKeep_def intro: wfx_fold_invariant wfx_prune split: option.splits)

end
