(* ===== verification/MemWf.thy ===== *)
theory MemWf
  imports MemInvariant
begin

text \<open>
  Every operation of the in-memory store keeps the well-formedness invariant. The terminal
  transitions share one tail (\<open>wfx_finish\<close>: write the job back, report to the outbox, release the
  dedup key, apply the retention policy) and the settle-time marking of rows (\<open>settleMarkRows_wf\<close>);
  the operations then need a few lines each.
\<close>

section \<open>Terminal transitions\<close>

lemma job_ok_terminal:
  assumes "j_id j = i" "m_lockToken j = None" "m_lockExpiresAt j = None" "j_finishedAt j \<noteq> None"
    and "j_state j \<in> TERMINAL_STATES" "\<not> j_cancelRequested j" "numbered (m_attempts j)"
  shows "job_ok i j"
  using assms by (auto simp: job_ok_def)

lemma job_ok_queued:
  assumes "j_id j = i" "m_lockToken j = None" "m_lockExpiresAt j = None" "j_finishedAt j = None"
    and "j_state j \<in> {Waiting, Delayed, WaitingChildren}" "\<not> j_cancelRequested j" "numbered (m_attempts j)"
  shows "job_ok i j"
  using assms by (auto simp: job_ok_def)

lemma waits_other: "j_state j \<noteq> WaitingChildren \<Longrightarrow> waits_for_children j"
  by (simp add: waits_for_children_def)

text \<open>The tail every terminal transition ends with.\<close>

lemma wfx_finish:
  assumes "wfx (insert i A) B s" "mapGet (jobs s) i = Some j0" "m_seq j = m_seq j0" "job_ok i j"
    and "j_state j \<in> TERMINAL_STATES" "flow_base j (mapGet (flowChildren s) i)"
  shows "wfx A B (applyKeep j now (releaseDedupe j now (appendOutbox j t (putJob j s))))"
    and "wfx A B (releaseDedupe j now (appendOutbox j t (putJob j s)))"
proof -
  have "wfx A B (putJob j s)"
    by (rule wfx_putJob [OF assms(1) _ assms(4,2,3,6)])
      (use assms(4,5) in \<open>auto simp: job_ok_def intro: waits_other\<close>)
  then show "wfx A B (applyKeep j now (releaseDedupe j now (appendOutbox j t (putJob j s))))"
    and "wfx A B (releaseDedupe j now (appendOutbox j t (putJob j s)))"
    by (simp_all add: wfx_applyKeep)
qed

lemma flow_counts_nonneg: "flow_counts f rs \<Longrightarrow> 0 \<le> fs_pending f"
  by (simp add: flow_counts_def)

lemma settleMarkRows_wf:
  assumes w: "wfx (insert i A) B s" and i: "j_id job = i"
    and data: "flow_data i (j_flow job) (mapGet (flowChildren s) i)"
  obtains f s' where "settleMarkRows job s = (job\<lparr>j_flow := f\<rparr>, s')" "wfx (insert i A) B s'"
    "jobs s' = jobs s" "seqNo s' = seqNo s"
    "flow_data i f (mapGet (flowChildren s') i)" "f = None \<or> (\<exists>g. f = Some g \<and> fs_pending g = 0)"
proof (cases "mapGet (flowChildren s) i")
  case None
  with data i that [of None s] w show thesis
    by (simp add: settleMarkRows_def markPendingRowsCancelled_def)
next
  case (Some rs)
  with data obtain f where f: "j_flow job = Some f" "rows_ok i rs" "flow_counts f rs" by auto
  let ?rs = "map_ran (\<lambda>_. cancelPendingRow) rs"
  let ?f = "f\<lparr>fs_pending := 0, fs_cancelled := fs_cancelled f + tally RPending rs\<rparr>"
  let ?s = "s\<lparr>flowChildren := mapSet i ?rs (flowChildren s)\<rparr>"
  have "settleMarkRows job s = (job\<lparr>j_flow := Some ?f\<rparr>, ?s)"
    using Some f i by (simp add: settleMarkRows_def markPendingRowsCancelled_def)
  moreover have "wfx (insert i A) B ?s" by (rule wfx_setRows [OF w]) simp
  moreover have "flow_counts ?f ?rs"
    using f(3) by (simp add: flow_counts_def tally_cancelPending)
  ultimately show thesis using that [of "Some ?f" ?s] f(2) by (simp add: rows_ok_cancel)
qed

lemma flow_base_data: "flow_base j rows \<Longrightarrow> flow_data (j_id j) (j_flow j) rows"
  by (simp add: flow_base_def)

lemma markCancelled_wf:
  assumes w: "wfx (insert i A) B s" and old: "mapGet (jobs s) i = Some j0"
    and job: "j_id job = i" "m_seq job = m_seq j0" "numbered (m_attempts job)"
    and fl: "flow_base job (mapGet (flowChildren s) i)"
  shows "wfx A B (markCancelled job now s)"
proof (cases "j_state job = WaitingChildren")
  case True
  let ?job1 = "(clearLock job)\<lparr>j_cancelRequested := False\<rparr>"
  have i: "j_id ?job1 = i" using job by simp
  have "flow_data i (j_flow ?job1) (mapGet (flowChildren s) i)"
    using flow_base_data [OF fl] job by simp
  from settleMarkRows_wf [OF w i this] obtain f s' where
    st: "settleMarkRows ?job1 s = (?job1\<lparr>j_flow := f\<rparr>, s')" and w': "wfx (insert i A) B s'"
    and eq: "jobs s' = jobs s" and data: "flow_data i f (mapGet (flowChildren s') i)"
    and pend: "f = None \<or> (\<exists>g. f = Some g \<and> fs_pending g = 0)" by blast
  let ?job3 = "recordAttempt ACancelled now None
    (?job1\<lparr>j_flow := f, j_state := Cancelled, j_finishedAt := Some now\<rparr>)"
  have base: "flow_base ?job3 (mapGet (flowChildren s') i)"
    using data pend job by (auto simp: flow_base_def flow_idle_def)
  have "job_ok i ?job3" by (rule job_ok_terminal) (use job in simp_all)
  from wfx_finish(1) [OF w' _ _ this _ base] show ?thesis
    using True st eq old job by (simp add: markCancelled_def Let_def)
next
  case False
  let ?job3 = "recordAttempt ACancelled now None ((clearLock job)\<lparr>j_cancelRequested := False,
    j_state := Cancelled, j_finishedAt := Some now\<rparr>)"
  have base: "flow_base ?job3 (mapGet (flowChildren s) i)"
    using fl job False by (cases "j_flow job") (auto simp: flow_base_def flow_idle_def)
  have "job_ok i ?job3" by (rule job_ok_terminal) (use job in simp_all)
  from wfx_finish(1) [OF w old _ this _ base] show ?thesis
    using False job by (simp add: markCancelled_def Let_def)
qed

lemma finishJob_wf:
  assumes w: "wfx (insert i A) B s" and old: "mapGet (jobs s) i = Some j0"
    and job: "j_id job = i" "m_seq job = m_seq j0" "numbered (m_attempts job)"
      "m_lockToken job = None" "m_lockExpiresAt job = None" "j_state job \<noteq> WaitingChildren"
    and fl: "flow_base job (mapGet (flowChildren s) i)" and st: "st \<in> TERMINAL_STATES"
  shows "wfx A B (finishJob st outcome report ex b now job s)"
proof -
  let ?job1 = "recordAttempt outcome now ex (job\<lparr>j_cancelRequested := False, j_state := st,
    j_exit := (if b then ex else j_exit job), j_finishedAt := Some now\<rparr>)"
  have base: "flow_base ?job1 (mapGet (flowChildren s) i)"
    using fl job st by (cases "j_flow job") (auto simp: flow_base_def flow_idle_def)
  have "job_ok i ?job1" by (rule job_ok_terminal) (use job st in simp_all)
  from wfx_finish(1) [OF w old _ this _ base] show ?thesis
    unfolding finishJob_def Let_def by this (use job st in simp_all)
qed

section \<open>Enqueue\<close>

lemma wfx_insertJobRecord:
  assumes w: "wellFormed s" and fresh: "mapGet (jobs s) i = None"
  shows "wellFormed (insertJobRecord i request now s)"
proof -
  let ?j = "newJob i request now (seqNo s + 1)"
  have rows: "mapGet (flowChildren s) i = None"
    using w fresh unfolding wellFormed_def by (rule_tac wfx_no_job) auto
  have "wfx {} {} (putJob ?j (s\<lparr>seqNo := seqNo s + 1\<rparr>))"
    by (rule wfx_putFresh [of i])
      (use wfx_mono [OF w [unfolded wellFormed_def]] rows in
        \<open>auto simp: newJob_def job_ok_def flow_base_def waits_for_children_def\<close>)
  moreover have "j_id ?j = i" by (simp add: newJob_def)
  ultimately show ?thesis by (simp add: insertJobRecord_def wellFormed_def putJob_def Let_def)
qed

lemma registerJob_wf:
  "wellFormed s \<Longrightarrow> mapGet (jobs s) i = None \<Longrightarrow> wellFormed (registerJob i request now s)"
  using wfx_insertJobRecord [of s i request now]
  by (auto simp: registerJob_def Let_def wellFormed_def split: option.split)

lemma replaceJob_sel [simp]:
  "j_id (replaceJob r now k) = j_id k" "j_state (replaceJob r now k) = j_state k"
  "j_flow (replaceJob r now k) = j_flow k" "m_seq (replaceJob r now k) = m_seq k"
  "m_attempts (replaceJob r now k) = m_attempts k" "m_lockToken (replaceJob r now k) = m_lockToken k"
  "m_lockExpiresAt (replaceJob r now k) = m_lockExpiresAt k"
  "j_finishedAt (replaceJob r now k) = j_finishedAt k"
  "j_cancelRequested (replaceJob r now k) = j_cancelRequested k"
  "j_queue (replaceJob r now k) = j_queue k" "j_name (replaceJob r now k) = j_name k"
  "j_parent (replaceJob r now k) = j_parent k" "j_dedupeKey (replaceJob r now k) = j_dedupeKey k"
  "j_processedAt (replaceJob r now k) = j_processedAt k"
  "j_enqueuedAt (replaceJob r now k) = j_enqueuedAt k"
  by (simp_all add: replaceJob_def)

lemma setExpiry_frame [simp]:
  "jobs (setExpiry k e x s) = jobs s" "seqNo (setExpiry k e x s) = seqNo s"
  "flowChildren (setExpiry k e x s) = flowChildren s" "outbox (setExpiry k e x s) = outbox s"
  "outboxSeq (setExpiry k e x s) = outboxSeq s"
  "wfx A B (setExpiry k e x s) = wfx A B s" "wellFormed (setExpiry k e x s) = wellFormed s"
  by (simp_all add: setExpiry_def wellFormed_def)

lemma wf_signalWake [simp]: "wellFormed (signalWake q s) = wellFormed s"
  by (simp add: wellFormed_def)

text \<open>An update that keeps what the invariant reads of a job.\<close>

lemma wf_put_same:
  assumes w: "wellFormed s" and old: "mapGet (jobs s) i = Some j0"
    and eq: "j_id j = j_id j0" "m_seq j = m_seq j0" "j_state j = j_state j0" "j_flow j = j_flow j0"
    and ok: "job_ok i j"
  shows "wellFormed (putJob j s)"
proof -
  have "j_id j = i" using ok by (simp add: job_ok_def)
  moreover have "flow_base j (mapGet (flowChildren s) i)"
    using wf_flow [OF w old] eq by (simp add: flow_base_def flow_idle_def split: option.splits)
  moreover have "waits_for_children j"
    using wf_waits [OF w old] eq by (simp add: waits_for_children_def)
  ultimately show ?thesis
    using wfx_putJob [of i "{}" "{}" s j j0] wfx_mono [of "{}" "{}" s "{i}" "{}"] assms
    by (simp add: wellFormed_def)
qed

lemma job_ok_same:
  "job_ok i j0 \<Longrightarrow> j_id j = j_id j0 \<Longrightarrow> j_state j = j_state j0 \<Longrightarrow> m_lockToken j = m_lockToken j0
   \<Longrightarrow> m_lockExpiresAt j = m_lockExpiresAt j0 \<Longrightarrow> j_finishedAt j = j_finishedAt j0
   \<Longrightarrow> j_cancelRequested j = j_cancelRequested j0 \<Longrightarrow> m_attempts j = m_attempts j0 \<Longrightarrow> job_ok i j"
  by (simp add: job_ok_def)

lemma wf_replaceJob:
  assumes "wellFormed s" and "mapGet (jobs s) i = Some k"
  shows "wellFormed (putJob (replaceJob r now k) s)"
  by (rule wf_put_same [OF assms _ _ _ _ job_ok_same [OF wf_job [OF assms]]]) simp_all

lemma dedupeDecide_wf: "wellFormed s \<Longrightarrow> wellFormed (snd (dedupeDecide now request dedupe s))"
  by (auto simp: dedupeDecide_def Let_def wf_replaceJob split: option.splits)

lemma enqueueDecide_wf: "wellFormed s \<Longrightarrow> wellFormed (snd (enqueueDecide now request s))"
  by (auto simp: enqueueDecide_def dedupeDecide_wf split: option.splits)

lemma dedupeDecide_keys: "wellFormed s \<Longrightarrow> mapHas (jobs (snd (dedupeDecide now request dedupe s))) i = mapHas (jobs s) i"
  by (auto simp: dedupeDecide_def Let_def wf_id split: option.splits)

lemma enqueueDecide_fresh:
  "wellFormed s \<Longrightarrow> enqueueDecide now request s = (None, s') \<Longrightarrow> rq_id request = Some i \<Longrightarrow> mapGet (jobs s') i = None"
  by (auto simp: enqueueDecide_def split: option.splits if_splits)
    (metis dedupeDecide_keys option.discI snd_conv)

lemma drawId_fresh: "drawId g taken n k = (Some i, k') \<Longrightarrow> i \<notin> set taken"
  by (induction n arbitrary: k) (auto split: if_splits)

lemma chooseId_fresh:
  assumes "chooseId gen request s = (Some i, s')"
    and "\<And>k. rq_id request = Some k \<Longrightarrow> mapGet (jobs s) k = None"
  shows "mapGet (jobs s') i = None \<and> jobs s' = jobs s \<and> flowChildren s' = flowChildren s
    \<and> (\<forall>A B. wfx A B s' = wfx A B s)"
  using assms nextAutoId_fresh [of "mapKeys (jobs s)" "idCounter s"]
  by (auto simp: chooseId_def Let_def mapGet_None_iff simp del: set_map list.set_map split: option.splits prod.splits dest!: drawId_fresh)

lemma enqueueInsert_wf:
  assumes w: "wellFormed s" and "\<And>k. rq_id request = Some k \<Longrightarrow> mapGet (jobs s) k = None"
  shows "wellFormed (snd (enqueueInsert gen now request s))"
proof (cases "chooseId gen request s")
  case (Pair found s1)
  show ?thesis
  proof (cases found)
    case None
    with Pair w show ?thesis
      by (auto simp: enqueueInsert_def chooseId_def Let_def wellFormed_def split: option.splits prod.splits)
  next
    case (Some i)
    from chooseId_fresh [of gen request s i s1] Pair Some assms(2)
    have "mapGet (jobs s1) i = None" "wellFormed s1" using w by (auto simp: wellFormed_def)
    from registerJob_wf [OF this(2,1)] show ?thesis using Pair Some by (simp add: enqueueInsert_def)
  qed
qed

lemma enqueueOne_wf: "wellFormed s \<Longrightarrow> wellFormed (snd (enqueueOne gen now request s))"
  using enqueueDecide_wf [of s now request] enqueueDecide_fresh [of s now request]
    enqueueInsert_wf [of "snd (enqueueDecide now request s)" request gen now]
  by (auto simp: enqueueOne_def split: option.splits prod.splits)

lemma enqueueMany_wf: "wellFormed s \<Longrightarrow> wellFormed (snd (enqueueMany gen rs s))"
proof (induction gen rs s rule: enqueueMany.induct)
  case (1 gen s)
  then show ?case by simp
next
  case (2 gen now request rest s)
  from enqueueOne_wf [OF 2(2), of gen now request] 2(1)
  show ?case by (auto split: prod.splits sum.splits)
qed


section \<open>Claims, locks and waiting\<close>

lemma promoteJob_sel [simp]:
  "j_id (promoteJob now j) = j_id j" "j_flow (promoteJob now j) = j_flow j"
  "m_seq (promoteJob now j) = m_seq j" "m_attempts (promoteJob now j) = m_attempts j"
  "m_lockToken (promoteJob now j) = m_lockToken j"
  "m_lockExpiresAt (promoteJob now j) = m_lockExpiresAt j"
  "j_finishedAt (promoteJob now j) = j_finishedAt j" "j_queue (promoteJob now j) = j_queue j"
  "j_cancelRequested (promoteJob now j) = j_cancelRequested j" "j_name (promoteJob now j) = j_name j"
  "j_priority (promoteJob now j) = j_priority j" "j_runAt (promoteJob now j) = j_runAt j"
  "j_parent (promoteJob now j) = j_parent j" "j_dedupeKey (promoteJob now j) = j_dedupeKey j"
  by (simp_all add: promoteJob_def)

lemma promoteJob_state:
  "j_state (promoteJob now j) = (if j_state j = Delayed \<and> j_runAt j \<le> now then Waiting else j_state j)"
  by (simp add: promoteJob_def)

lemma promoteDue_frame [simp]:
  "mapGet (jobs (promoteDue now s)) i = map_option (promoteJob now) (mapGet (jobs s) i)"
  "mapKeys (jobs (promoteDue now s)) = mapKeys (jobs s)"
  "mapValues (jobs (promoteDue now s)) = map (promoteJob now) (mapValues (jobs s))"
  "flowChildren (promoteDue now s) = flowChildren s" "outbox (promoteDue now s) = outbox s"
  "outboxSeq (promoteDue now s) = outboxSeq s" "seqNo (promoteDue now s) = seqNo s"
  "paused (promoteDue now s) = paused s" "wakeVersion (promoteDue now s) = wakeVersion s"
  "lastWake (promoteDue now s) = lastWake s" "lastBroadcast (promoteDue now s) = lastBroadcast s"
  "schedules (promoteDue now s) = schedules s" "dedupes (promoteDue now s) = dedupes s"
  by (simp_all add: promoteDue_def map_ran_conv) (simp_all add: map_ran_def split_beta)

lemma promoteJob_ok: "job_ok i j \<Longrightarrow> job_ok i (promoteJob now j)"
  by (auto simp: job_ok_def promoteJob_state)

lemma promoteJob_flow: "flow_base j rows \<Longrightarrow> flow_base (promoteJob now j) rows"
  by (auto simp: flow_base_def flow_idle_def promoteJob_state split: option.splits)

lemma promoteDue_wf:
  assumes w: "wellFormed s"
  shows "wellFormed (promoteDue now s)"
proof -
  have "seq_ok s" using w by (simp add: wellFormed_def wfx_def)
  then have "seq_ok (promoteDue now s)" unfolding seq_ok_def by (auto simp del: map_of_eq_Some_iff)
  moreover have "entry_base (promoteDue now s) i" for i
  proof (cases "mapGet (jobs s) i")
    case None
    with wfx_no_job [of "{}" "{}" s i] w show ?thesis by (simp add: entry_base_def wellFormed_def)
  next
    case (Some j)
    with wf_job [OF w Some] wf_flow [OF w Some] show ?thesis
      by (simp add: entry_base_def promoteJob_ok promoteJob_flow)
  qed
  moreover have "waits_for_children j" if "mapGet (jobs (promoteDue now s)) i = Some j" for i j
    using that wf_waits [OF w] by (auto simp: waits_for_children_def promoteJob_state split: if_splits)
  ultimately show ?thesis using w by (simp add: wellFormed_def wfx_def outbox_ok_def)
qed

lemma wf_put_state:
  assumes w: "wellFormed s" and old: "mapGet (jobs s) i = Some j0"
    and eq: "j_id j = j_id j0" "m_seq j = m_seq j0" "j_flow j = j_flow j0"
    and ok: "job_ok i j" and st: "j_state j0 \<noteq> WaitingChildren" "j_state j \<noteq> WaitingChildren"
  shows "wellFormed (putJob j s)"
proof -
  have "j_id j = i" using ok by (simp add: job_ok_def)
  moreover have "flow_base j (mapGet (flowChildren s) i)"
    using wf_flow [OF w old] eq st by (simp add: flow_base_def flow_idle_def split: option.splits)
  ultimately show ?thesis
    using wfx_putJob [of i "{}" "{}" s j j0] wfx_mono [of "{}" "{}" s "{i}" "{}"] assms waits_other
    by (simp add: wellFormed_def)
qed

text \<open>What the scan has found is a job of the list.\<close>

lemma claimScan_in:
  "fold (claimScan opts) js (b0, n0) = (Some b, n) \<Longrightarrow>
     b0 = Some b \<or> (b \<in> set js \<and> j_state b = Waiting \<and> j_queue b = co_queue opts \<and> j_name b \<in> set (co_names opts))"
proof (induction js arbitrary: b0 n0)
  case Nil
  then show ?case by simp
next
  case (Cons j js)
  obtain b1 n1 where step: "claimScan opts j (b0, n0) = (b1, n1)" by fastforce
  with Cons have "b1 = Some b \<or> (b \<in> set js \<and> j_state b = Waiting \<and> j_queue b = co_queue opts \<and> j_name b \<in> set (co_names opts))"
    by auto
  with step show ?case by (auto simp: claimScan_def split: if_splits)
qed

lemma claim_wf: assumes w: "wellFormed s" shows "wellFormed (snd (claim now opts s))"
proof -
  let ?s = "promoteDue now s"
  have w': "wellFormed ?s" by (rule promoteDue_wf [OF w])
  obtain best n where scan: "fold (claimScan opts) (mapValues (jobs ?s)) (None, None) = (best, n)"
    by fastforce
  show ?thesis
  proof (cases best)
    case None
    with scan w' show ?thesis by (simp add: claim_def Let_def)
  next
    case (Some b)
    from claimScan_in [OF scan [unfolded Some]]
    have b: "b \<in> set (mapValues (jobs ?s))" "j_state b = Waiting" by blast+
    from wf_value [OF w' b(1)] have old: "mapGet (jobs ?s) (j_id b) = Some b" .
    have "wellFormed (putJob (activate opts now b) ?s)"
      by (rule wf_put_state [OF w' old])
        (use wf_job [OF w' old] b(2) in \<open>simp_all add: activate_def job_ok_def\<close>)
    with scan Some w' show ?thesis by (simp add: claim_def Let_def)
  qed
qed

lemma extendLocks_wf: "wellFormed s \<Longrightarrow> wellFormed (snd (extendLocks now locks d s))"
proof (induction now locks d s rule: extendLocks.induct)
  case (1 now d s)
  then show ?case by simp
next
  case (2 now i token locks d s)
  show ?case
  proof (cases "holdsLock s i token")
    case None
    with 2 show ?thesis by (simp add: split_beta Let_def)
  next
    case (Some job)
    then have job: "mapGet (jobs s) i = Some job" "j_state job = Active"
      by (auto simp: holdsLock_def split: option.splits if_splits)
    have "wellFormed (putJob (job\<lparr>m_lockExpiresAt := Some (now + d)\<rparr>) s)"
      by (rule wf_put_state [OF 2(4) job(1)])
        (use wf_job [OF 2(4) job(1)] job(2) in \<open>simp_all add: job_ok_def\<close>)
    with Some 2 show ?thesis by (simp add: split_beta Let_def)
  qed
qed

lemma awaitWake_wf: "wellFormed s \<Longrightarrow> wellFormed (snd (awaitWake qs t s))"
  by (simp add: awaitWake_def wellFormed_def)

lemma cancelWait_wf: "wellFormed s \<Longrightarrow> wellFormed (cancelWait w s)"
  by (simp add: cancelWait_def wellFormed_def)

section \<open>Acknowledgements\<close>

lemma stageRows_append:
  "distinct (mapKeys rows @ map cs_childKey children) \<Longrightarrow>
     fold (\<lambda>child rows. mapSet (cs_childKey child) (pendingRow i now child) rows) children rows
       = rows @ map (\<lambda>c. (cs_childKey c, pendingRow i now c)) children"
proof (induction children arbitrary: rows)
  case Nil
  then show ?case by simp
next
  case (Cons c cs)
  then have "mapGet rows (cs_childKey c) = None" by (auto simp: mapGet_None_iff simp del: set_map)
  then show ?case using Cons by (simp add: mapSet_new)
qed

lemma stageRows_distinct:
  "distinct (map cs_childKey children) \<Longrightarrow>
     stageRows i now children = map (\<lambda>c. (cs_childKey c, pendingRow i now c)) children"
  using stageRows_append [of "[]" children i now] by (simp add: stageRows_def)

lemma stageRows_ok:
  assumes d: "distinct (map cs_childKey children)"
    and ids: "\<forall>c\<in>set children. rq_id (cs_request c) \<noteq> None"
  shows "rows_ok i (stageRows i now children)"
    and "flow_counts (openFlow ff children) (stageRows i now children)"
proof -
  have "ch_childKey row = k \<and> ch_flowId row = i \<and> rq_id (ch_spec row) \<noteq> None"
    if "mapGet (stageRows i now children) k = Some row" for k row
    using mapGet_in [OF that] ids by (auto simp: stageRows_distinct [OF d] pendingRow_def)
  moreover have "distinct (mapKeys (stageRows i now children))"
    using d by (simp add: stageRows_distinct comp_def)
  ultimately show "rows_ok i (stageRows i now children)" by (simp add: rows_ok_def)
  show "flow_counts (openFlow ff children) (stageRows i now children)"
    by (simp add: stageRows_distinct [OF d] flow_counts_def openFlow_def tally_def pendingRow_def comp_def filter_map)
qed

text \<open>
  What the store assumes of a fan-out: the child keys of one flow are distinct. The worker's
  \<open>buildSpecs\<close> guarantees it.
\<close>

definition fanout_ok :: "ack_outcome \<Rightarrow> bool" where
  "fanout_ok outcome = (case outcome of FanOut _ children \<Rightarrow> distinct (map cs_childKey children) | _ \<Rightarrow> True)"

lemma wf_put_requeued:
  assumes w: "wellFormed s" and old: "mapGet (jobs s) i = Some j0" and id: "j_id j = i"
    and sq: "m_seq j = seqNo s + 1" and fl: "j_flow j = j_flow j0" and ok: "job_ok i j"
    and st: "j_state j \<noteq> WaitingChildren"
    and pend: "j_state j0 = WaitingChildren \<Longrightarrow> \<exists>f. j_flow j0 = Some f \<and> fs_pending f = 0"
  shows "wellFormed (putJob j (s\<lparr>seqNo := seqNo s + 1\<rparr>))"
proof -
  have "flow_base j (mapGet (flowChildren s) i)"
    using wf_flow [OF w old] wf_id [OF w old] id fl pend st
    by (auto simp: flow_base_def flow_idle_def split: option.splits)
  from wfx_putFresh [of i "{}" "{}" s, OF _ id ok sq this] show ?thesis
    using w st waits_other wfx_mono [of "{}" "{}" s "{i}" "{}"] by (simp add: wellFormed_def)
qed

lemma wellFormed_except: "wellFormed s \<Longrightarrow> wfx {i} {} s"
  unfolding wellFormed_def by (erule wfx_mono) auto

lemma flow_base_same:
  "flow_base j0 rows \<Longrightarrow> j_id j = j_id j0 \<Longrightarrow> j_flow j = j_flow j0 \<Longrightarrow> j_state j = j_state j0
     \<Longrightarrow> flow_base j rows"
  by (simp add: flow_base_def flow_idle_def split: option.splits)

lemma ackRetry_wf:
  assumes w: "wellFormed s" and old: "mapGet (jobs s) i = Some j0" and act: "j_state j0 = Active"
  shows "wellFormed (ackRetry now d ex ((clearLock j0)\<lparr>j_attemptsMade := n\<rparr>) s)"
proof -
  have ok: "job_ok i j0" using wf_job [OF w old] .
  let ?job = "(clearLock j0)\<lparr>j_attemptsMade := n\<rparr>"
  have fl: "flow_base ?job (mapGet (flowChildren s) i)"
    by (rule flow_base_same [OF wf_flow [OF w old]]) simp_all
  show ?thesis
  proof (cases "j_cancelRequested j0")
    case True
    with markCancelled_wf [OF _ old _ _ _ fl, of "{}" "{}" now] wellFormed_except [OF w] ok
    show ?thesis by (simp add: ackRetry_def job_ok_def wellFormed_def)
  next
    case False
    let ?j = "(recordAttempt ARetried now ex ?job)\<lparr>j_runAt := now + max 0 d,
      j_state := (if d > 0 then Delayed else Waiting), m_seq := seqNo s + 1\<rparr>"
    have "wellFormed (putJob ?j (s\<lparr>seqNo := seqNo s + 1\<rparr>))"
      by (rule wf_put_requeued [OF w old]) (use ok act False in \<open>auto simp: job_ok_def\<close>)
    with False show ?thesis by (simp add: ackRetry_def Let_def)
  qed
qed

lemma ackFanOut_wf:
  assumes w: "wellFormed s" and old: "mapGet (jobs s) i = Some j0" and act: "j_state j0 = Active"
    and d: "distinct (map cs_childKey children)"
    and ids: "\<forall>c\<in>set children. rq_id (cs_request c) \<noteq> None"
  shows "wellFormed (ackFanOut now ff children (clearLock j0) s)"
proof -
  have ok: "job_ok i j0" and fl: "flow_base j0 (mapGet (flowChildren s) i)"
    using wf_job [OF w old] wf_flow [OF w old] .
  have i: "j_id j0 = i" using ok by (simp add: job_ok_def)
  let ?job1 = "recordAttempt AFannedOut now None (clearLock j0)"
  obtain flow s2 where
    open_flow: "(case j_flow ?job1 of Some flow \<Rightarrow> (?job1, flow, s)
       | None \<Rightarrow> (let flow = openFlow ff children in (?job1\<lparr>j_flow := Some flow\<rparr>, flow,
            s\<lparr>flowChildren := mapSet (j_id ?job1) (stageRows (j_id ?job1) now children) (flowChildren s)\<rparr>)))
       = (?job1\<lparr>j_flow := Some flow\<rparr>, flow, s2)"
    and w2: "wfx {i} {} s2" and j2: "jobs s2 = jobs s" "seqNo s2 = seqNo s"
    and data: "flow_data i (Some flow) (mapGet (flowChildren s2) i)"
  proof (cases "j_flow j0")
    case None
    with that [of "openFlow ff children" "s\<lparr>flowChildren := mapSet i (stageRows i now children) (flowChildren s)\<rparr>"]
      wfx_setRows [OF wellFormed_except [OF w], of i] stageRows_ok [OF d ids] i
    show thesis by (simp add: Let_def)
  next
    case (Some flow)
    then have "?job1\<lparr>j_flow := Some flow\<rparr> = ?job1" by (simp add: recordAttempt_def clearLock_def)
    with that [of flow s] Some wellFormed_except [OF w] fl i show thesis
      by (simp add: flow_base_def)
  qed
  let ?job2 = "?job1\<lparr>j_flow := Some flow\<rparr>"
  have num: "numbered (m_attempts ?job2)" and seq: "m_seq ?job2 = m_seq j0" and i2: "j_id ?job2 = i"
    using ok i by (simp_all add: job_ok_def)
  have old2: "mapGet (jobs s2) i = Some j0" using old j2 by simp
  have nonneg: "0 \<le> fs_pending flow" using data by (auto simp: flow_counts_nonneg)
  consider (c) "j_cancelRequested j0" | (w) "\<not> j_cancelRequested j0" "0 < fs_pending flow"
    | (r) "\<not> j_cancelRequested j0" "fs_pending flow = 0" using nonneg by linarith
  then show ?thesis
  proof cases
    case c
    have "flow_data i (j_flow ?job2) (mapGet (flowChildren s2) i)" using data by simp
    from settleMarkRows_wf [OF w2 i2 this] obtain f s3 where
      st: "settleMarkRows ?job2 s2 = (?job2\<lparr>j_flow := f\<rparr>, s3)" and w3: "wfx {i} {} s3"
      and j3: "jobs s3 = jobs s2" and data3: "flow_data i f (mapGet (flowChildren s3) i)"
      and p3: "f = None \<or> (\<exists>g. f = Some g \<and> fs_pending g = 0)" by blast
    have "flow_base (?job2\<lparr>j_flow := f\<rparr>) (mapGet (flowChildren s3) i)"
      using data3 p3 act i by (auto simp: flow_base_def flow_idle_def)
    from markCancelled_wf [OF w3 _ _ _ _ this] old2 j3 num seq i2
    have "wellFormed (markCancelled (?job2\<lparr>j_flow := f\<rparr>) now s3)" by (simp add: wellFormed_def)
    with c st open_flow show ?thesis by (simp add: ackFanOut_def)
  next
    case w
    let ?j = "?job2\<lparr>j_state := WaitingChildren\<rparr>"
    have "flow_base ?j (mapGet (flowChildren s2) i)" "waits_for_children ?j" "job_ok i ?j"
      using data i w ok act by (auto simp: flow_base_def flow_idle_def waits_for_children_def job_ok_def)
    with wfx_putJob [of i "{}" "{}" s2 ?j j0] w2 old2 i2 seq have "wellFormed (putJob ?j s2)"
      by (simp add: wellFormed_def)
    with w open_flow show ?thesis by (simp add: ackFanOut_def)
  next
    case r
    let ?j = "?job2\<lparr>j_state := Waiting, j_runAt := now, m_seq := seqNo s2 + 1\<rparr>"
    have "flow_base ?j (mapGet (flowChildren s2) i)" "waits_for_children ?j" "job_ok i ?j"
      using data i r ok act by (auto simp: flow_base_def flow_idle_def waits_for_children_def job_ok_def)
    with wfx_putFresh [of i "{}" "{}" s2 ?j] w2 i2 have "wellFormed (putJob ?j (s2\<lparr>seqNo := seqNo s2 + 1\<rparr>))"
      by (simp add: wellFormed_def)
    with r open_flow show ?thesis by (simp add: ackFanOut_def Let_def)
  qed
qed

lemma ack_wf:
  assumes w: "wellFormed s" and out: "fanout_ok outcome"
  shows "wellFormed (snd (ack now i token outcome s))"
proof (cases "mapGet (jobs s) i")
  case None
  with w show ?thesis by (simp add: ack_def)
next
  case (Some j0)
  show ?thesis
  proof (cases "j_state j0 \<noteq> Active \<or> m_lockToken j0 \<noteq> Some token \<or> missingChildId outcome")
    case True
    with Some w show ?thesis by (auto simp: ack_def)
  next
    case False
    have ok: "job_ok i j0" using wf_job [OF w Some] .
    have fin: "wellFormed (finishJob st oc report ex b now ((clearLock j0)\<lparr>j_attemptsMade := n\<rparr>) s)"
      if "st \<in> TERMINAL_STATES" for st oc report ex b n
      unfolding wellFormed_def
      by (rule finishJob_wf [OF wellFormed_except [OF w] Some _ _ _ _ _ _ _ that])
        (use ok False flow_base_same [OF wf_flow [OF w Some]] in \<open>simp_all add: job_ok_def\<close>)
    show ?thesis
    proof (cases outcome)
      case (FanOut ff children)
      with False out ackFanOut_wf [OF w Some, of children now ff] show ?thesis
        using Some by (simp add: ack_def applyOutcome_def isFanOut_def missingChildId_def fanout_ok_def
            list_ex_iff) force
    next
      case (Retry d ex)
      with False Some ackRetry_wf [OF w Some] show ?thesis
        by (simp add: ack_def applyOutcome_def isFanOut_def Let_def)
    qed (use False Some fin in \<open>simp_all add: ack_def applyOutcome_def isFanOut_def Let_def\<close>)
  qed
qed

lemma release_wf: "wellFormed s \<Longrightarrow> wellFormed (snd (release now i token s))"
proof (cases "mapGet (jobs s) i")
  case None
  then show "wellFormed s \<Longrightarrow> ?thesis" by (simp add: release_def)
next
  case (Some j)
  assume w: "wellFormed s"
  have ok: "job_ok i j" using wf_job [OF w Some] .
  have "wellFormed (markCancelled j now s)"
    using markCancelled_wf [OF wellFormed_except [OF w] Some _ _ _ wf_flow [OF w Some]] ok
    by (simp add: wellFormed_def job_ok_def)
  moreover have "wellFormed (putJob ((clearLock j)\<lparr>j_state := Waiting\<rparr>) s)"
    if "j_state j = Active" "\<not> j_cancelRequested j"
    by (rule wf_put_state [OF w Some]) (use ok that in \<open>simp_all add: job_ok_def\<close>)
  ultimately show ?thesis using Some w by (simp add: release_def)
qed

section \<open>Recovery and administration\<close>

lemma recoverJob_wf:
  assumes w: "wellFormed s" and old: "mapGet (jobs s) i = Some j" and st: "stalled now j"
  shows "wellFormed (snd (recoverJob now m j (recovered, s)))"
proof -
  have ok: "job_ok i j" using wf_job [OF w old] .
  have act: "j_state j = Active" using st by (simp add: stalled_def)
  let ?job2 = "recordAttempt AStalled now None
    ((clearLock j)\<lparr>j_stalledCount := j_stalledCount (clearLock j) + 1\<rparr>)"
  have c: "wellFormed (markCancelled j now s)"
    using markCancelled_wf [OF wellFormed_except [OF w] old _ _ _ wf_flow [OF w old]] ok
    by (simp add: wellFormed_def job_ok_def)
  have q: "wellFormed (putJob (?job2\<lparr>j_state := Waiting\<rparr>) s)" if "\<not> j_cancelRequested j"
    by (rule wf_put_state [OF w old]) (use ok act that in \<open>simp_all add: job_ok_def\<close>)
  let ?job3 = "?job2\<lparr>j_state := Failed, j_finishedAt := Some now,
    j_failedReason := Some ''job stalled more than allowable limit''\<rparr>"
  have "flow_base ?job3 (mapGet (flowChildren s) i)"
    using wf_flow [OF w old] act by (simp add: flow_base_def flow_idle_def split: option.splits)
  from wfx_finish(2) [OF wellFormed_except [OF w] old _ _ _ this, of now TFailed]
  have "wellFormed (releaseDedupe ?job3 now (appendOutbox ?job3 TFailed (putJob ?job3 s)))"
    if "\<not> j_cancelRequested j" using ok act that by (simp add: wellFormed_def job_ok_def)
  with c q show ?thesis by (simp add: recoverJob_def Let_def)
qed

lemma recoverStep_wf:
  "wellFormed (snd acc) \<Longrightarrow> wellFormed (snd (recoverStep now m i acc))"
  using recoverJob_wf [of "snd acc" i _ now m "fst acc"]
  by (auto simp: recoverStep_def split: option.splits)

lemma recoverStalled_wf: "wellFormed s \<Longrightarrow> wellFormed (snd (recoverStalled now m s))"
proof -
  assume "wellFormed s"
  have "wellFormed (snd (fold (recoverStep now m) (mapKeys (jobs s)) ([], s)))"
    by (rule fold_invariant_list [where I = "\<lambda>acc. wellFormed (snd acc)"])
      (simp_all add: \<open>wellFormed s\<close> recoverStep_wf)
  then show ?thesis by (auto simp: recoverStalled_def split: prod.splits)
qed

lemma cancelJob_wf: "wellFormed s \<Longrightarrow> wellFormed (snd (cancelJob now i s))"
proof (cases "mapGet (jobs s) i")
  case None
  then show "wellFormed s \<Longrightarrow> ?thesis" by (simp add: cancelJob_def)
next
  case (Some j)
  assume w: "wellFormed s"
  have ok: "job_ok i j" using wf_job [OF w Some] .
  have "wellFormed (markCancelled j now s)"
    using markCancelled_wf [OF wellFormed_except [OF w] Some _ _ _ wf_flow [OF w Some]] ok
    by (simp add: wellFormed_def job_ok_def)
  moreover have "wellFormed (putJob (j\<lparr>j_cancelRequested := True\<rparr>) s)" if "j_state j = Active"
    by (rule wf_put_state [OF w Some]) (use ok that in \<open>simp_all add: job_ok_def\<close>)
  ultimately show ?thesis using Some w by (simp add: cancelJob_def split: job_state.split)
qed

lemma cancelByDedupe_wf: "wellFormed s \<Longrightarrow> wellFormed (snd (cancelByDedupe now name key s))"
  using cancelJob_wf [of s now]
  by (auto simp: cancelByDedupe_def split: option.splits prod.splits sum.splits store_error.splits)
    (metis snd_conv)+

lemma retry_wf: "wellFormed s \<Longrightarrow> wellFormed (snd (retry now i s))"
proof (cases "\<exists>j. mapGet (jobs s) i = Some j \<and> j_state j = Failed")
  case False
  then show "wellFormed s \<Longrightarrow> ?thesis" by (auto simp: retry_def split: option.splits)
next
  case True
  assume w: "wellFormed s"
  from True obtain j where j: "mapGet (jobs s) i = Some j" "j_state j = Failed" by blast
  let ?j = "j\<lparr>j_state := Waiting, j_attemptsMade := 0, j_stalledCount := 0, j_cancelRequested := False,
    j_exit := None, j_failedReason := None, j_finishedAt := None, j_processedAt := None,
    j_runAt := now, m_seq := seqNo s + 1\<rparr>"
  have "wellFormed (putJob ?j (s\<lparr>seqNo := seqNo s + 1\<rparr>))"
    by (rule wf_put_requeued [OF w j(1)])
      (use wf_job [OF w j(1)] j(2) in \<open>auto simp: job_ok_def\<close>)
  with j show ?thesis by (simp add: retry_def Let_def)
qed

lemma promote_wf: "wellFormed s \<Longrightarrow> wellFormed (snd (promote now i s))"
proof (cases "\<exists>j. mapGet (jobs s) i = Some j \<and> j_state j = Delayed")
  case False
  then show "wellFormed s \<Longrightarrow> ?thesis" by (auto simp: promote_def split: option.splits)
next
  case True
  assume w: "wellFormed s"
  from True obtain j where j: "mapGet (jobs s) i = Some j" "j_state j = Delayed" by blast
  have "wellFormed (putJob (j\<lparr>j_state := Waiting, j_runAt := now\<rparr>) s)"
    by (rule wf_put_state [OF w j(1)]) (use wf_job [OF w j(1)] j(2) in \<open>auto simp: job_ok_def\<close>)
  with j show ?thesis by (simp add: promote_def)
qed

lemma pause_wf: "wellFormed s \<Longrightarrow> wellFormed (pause q s)"
  by (simp add: pause_def wellFormed_def)

lemma resume_wf: "wellFormed s \<Longrightarrow> wellFormed (resume q s)"
  by (simp add: resume_def wellFormed_def)

lemma remove_wf: "wellFormed s \<Longrightarrow> wellFormed (snd (remove i s))"
  by (auto simp: remove_def wellFormed_def wfx_deleteJob split: option.splits)

section \<open>Schedules and history\<close>

lemma setNextRun_frame [simp]:
  "jobs (setNextRun k sc t s) = jobs s" "wellFormed (setNextRun k sc t s) = wellFormed s"
  "flowChildren (setNextRun k sc t s) = flowChildren s"
  by (simp_all add: setNextRun_def wellFormed_def)

lemma upsertSchedule_wf: "wellFormed s \<Longrightarrow> wellFormed (upsertSchedule sc s)"
  by (simp add: upsertSchedule_def wellFormed_def Let_def)

lemma removeSchedule_wf: "wellFormed s \<Longrightarrow> wellFormed (snd (removeSchedule k s))"
  by (simp add: removeSchedule_def wellFormed_def)

lemma advanceSchedule_wf: "wellFormed s \<Longrightarrow> wellFormed (advanceSchedule k a b s)"
  by (simp add: advanceSchedule_def split: option.splits)

lemma tickSchedule_wf: "wellFormed s \<Longrightarrow> wellFormed (snd (tickSchedule now k a b request s))"
  by (auto simp: tickSchedule_def Let_def wfx_insertJobRecord simp del: map_of_eq_Some_iff
      split: option.splits)

lemma sweepHistory_wf: "wellFormed s \<Longrightarrow> wellFormed (sweepHistory now ttl s)"
proof -
  assume "wellFormed s"
  then have "wfx {} {} (fold (sweepJob now ttl) (mapValues (jobs s)) s)"
    unfolding wellFormed_def
    by (rule wfx_fold_invariant) (auto simp: sweepJob_def wfx_deleteJob split: option.splits)
  then show ?thesis by (simp add: sweepHistory_def wellFormed_def Let_def)
qed

end
