(* ===== verification/MemWfFlow.thy ===== *)
theory MemWfFlow
  imports MemWf
begin

text \<open>
  The flow operations keep the invariant. \<open>recordChildResults\<close> works in two phases: phase 1 may leave
  a flow parent waiting with nothing pending, but only a parent in \<open>touched\<close>; phase 2 settles exactly
  those. The sweeper's operations change fields of the rows the invariant does not read.
\<close>

section \<open>Phase 1: rows and counters\<close>

lemma rowOf_Some: "rowOf s i k = Some row \<longleftrightarrow> (\<exists>rs. mapGet (flowChildren s) i = Some rs \<and> mapGet rs k = Some row)"
  by (auto simp: rowOf_def bind_eq_Some_conv)

lemma flow_counts_settle:
  assumes c: "flow_counts f rs" and d: "distinct (mapKeys rs)" and row: "mapGet rs k = Some row"
    and p: "ch_status row = RPending"
  shows "flow_counts (countReport (rp_outcome r) f) (mapSet k (settleRow r row) rs)"
proof -
  have "0 < tally RPending rs" using tally_pos [OF row] p by simp
  then show ?thesis
    using c p by (cases "rp_outcome r")
      (simp_all add: flow_counts_def countReport_def tally_set [OF d row] settleRow_def)
qed

lemma countReport_pending [simp]: "fs_pending (countReport t f) = max 0 (fs_pending f - 1)"
  by (simp add: countReport_def)

definition applyReport :: "flow_child_report \<Rightarrow> mem_flow_child \<Rightarrow> mem_store \<Rightarrow> mem_store" where
  "applyReport r row s = countOnParent r (setRow (rp_flowId r) (rp_childKey r) (settleRow r row) s)"

lemma applyReport_wf:
  assumes w: "wfx {} B s" and row: "rowOf s (rp_flowId r) (rp_childKey r) = Some row"
    and p: "ch_status row = RPending"
  obtains parent f rs where "mapGet (jobs s) (rp_flowId r) = Some parent"
    "j_state parent = WaitingChildren" "j_flow parent = Some f"
    "mapGet (flowChildren s) (rp_flowId r) = Some rs" "mapGet rs (rp_childKey r) = Some row"
    "applyReport r row s =
       putJob (parent\<lparr>j_flow := Some (countReport (rp_outcome r) f)\<rparr>)
         (s\<lparr>flowChildren := mapSet (rp_flowId r) (mapSet (rp_childKey r) (settleRow r row) rs) (flowChildren s)\<rparr>)"
    "wfx {} (insert (rp_flowId r) B) (applyReport r row s)"
proof -
  let ?i = "rp_flowId r" and ?k = "rp_childKey r"
  from row obtain rs where rs: "mapGet (flowChildren s) ?i = Some rs" "mapGet rs ?k = Some row"
    by (auto simp: rowOf_Some)
  from rs(1) wfx_no_job [OF w, of ?i] obtain parent where parent: "mapGet (jobs s) ?i = Some parent"
    by (cases "mapGet (jobs s) ?i") auto
  have ok: "job_ok ?i parent" and base: "flow_base parent (Some rs)"
    using wfx_job [OF w _ parent] wfx_flow [OF w _ parent] rs(1) by auto
  have id: "j_id parent = ?i" using ok by (simp add: job_ok_def)
  from base id obtain f where f: "j_flow parent = Some f" "rows_ok ?i rs" "flow_counts f rs"
    by (auto simp: flow_base_def)
  have "0 < fs_pending f" using tally_pos [OF rs(2)] p f(3) by (simp add: flow_counts_def)
  with base f(1) have st: "j_state parent = WaitingChildren" by (simp add: flow_base_def)
  let ?rs = "mapSet ?k (settleRow r row) rs"
  let ?s = "s\<lparr>flowChildren := mapSet ?i ?rs (flowChildren s)\<rparr>"
  let ?p = "parent\<lparr>j_flow := Some (countReport (rp_outcome r) f)\<rparr>"
  have eq: "applyReport r row s = putJob ?p ?s"
    using rs parent f(1) by (simp add: applyReport_def setRow_def countOnParent_def)
  have "rows_ok ?i ?rs"
    using f(2) rs(2) by (auto simp: rows_ok_def settleRow_def)
  moreover have "flow_counts (countReport (rp_outcome r) f) ?rs"
    using f(2,3) rs(2) p by (intro flow_counts_settle) (auto simp: rows_ok_def)
  ultimately have "flow_base ?p (mapGet (flowChildren ?s) ?i)"
    using st id by (simp add: flow_base_def)
  moreover have "wfx {?i} (insert ?i B) ?s"
    by (rule wfx_setRows [OF wfx_mono [OF w]]) auto
  moreover have "job_ok ?i ?p" using ok by (simp add: job_ok_def)
  ultimately have "wfx {} (insert ?i B) (putJob ?p ?s)"
    using wfx_putJob [of ?i "{}" "insert ?i B" ?s ?p parent] parent id by simp
  with that parent st f(1) rs eq show thesis by metis
qed

lemma mapKeys_mapSet_set: "set (mapKeys (mapSet k v m)) = insert k (set (mapKeys m))"
  by (auto simp: update_keys)

lemma recordOne_applied:
  "recordOne (i, r) (results, touched, s) =
     (case rowOf s (rp_flowId r) (rp_childKey r) of
        None \<Rightarrow> (results, touched, s)
      | Some row \<Rightarrow>
          if ch_status row \<noteq> RPending then (results, touched, s)
          else (results[i := \<lparr>rr_applied = True, rr_parentSettled = False\<rparr>],
                touchFlow i r touched, applyReport r row s))"
  by (simp add: recordOne_def applyReport_def split: option.split)

lemma touchFlow_keys [simp]: "set (mapKeys (touchFlow i r m)) = insert (rp_flowId r) (set (mapKeys m))"
  by (simp add: touchFlow_def Let_def mapKeys_mapSet_set del: set_map)

definition phase1_ok :: "record_state \<Rightarrow> bool" where
  "phase1_ok acc \<longleftrightarrow> wfx {} (set (mapKeys (fst (snd acc)))) (snd (snd acc))
     \<and> distinct (mapKeys (fst (snd acc)))"

lemma recordOne_ok: "phase1_ok acc \<Longrightarrow> phase1_ok (recordOne e acc)"
proof -
  assume ok: "phase1_ok acc"
  obtain i r where e: "e = (i, r)" by fastforce
  obtain results touched s where acc: "acc = (results, touched, s)" by (metis prod_cases3)
  show ?thesis
  proof (cases "\<exists>row. rowOf s (rp_flowId r) (rp_childKey r) = Some row \<and> ch_status row = RPending")
    case True
    then obtain row where row: "rowOf s (rp_flowId r) (rp_childKey r) = Some row" "ch_status row = RPending"
      by blast
    from ok acc have "wfx {} (set (mapKeys touched)) s" by (simp add: phase1_ok_def)
    from applyReport_wf [OF this row]
    have "wfx {} (insert (rp_flowId r) (set (mapKeys touched))) (applyReport r row s)" .
    moreover have "distinct (mapKeys (touchFlow i r touched))"
      using ok acc by (simp add: phase1_ok_def touchFlow_def Let_def)
    ultimately show ?thesis
      using row acc e by (simp add: recordOne_applied phase1_ok_def del: set_map)
  next
    case False
    with ok acc e show ?thesis by (auto simp: recordOne_applied split: option.split)
  qed
qed

lemma recordPhase1_ok: "wellFormed s \<Longrightarrow> phase1_ok (recordPhase1 reports s)"
  unfolding recordPhase1_def
  by (rule fold_invariant_list) (simp_all add: recordOne_ok, simp add: phase1_ok_def wellFormed_def)

section \<open>Phase 2: settling\<close>

lemma wfx_shift: "wfx {} (insert i B) s \<Longrightarrow> wfx {i} B s"
  by (auto simp: wfx_def)

lemma failParent_wf:
  assumes w: "wfx {} (insert i B) s" and old: "mapGet (jobs s) i = Some parent"
    and st: "j_state parent = WaitingChildren"
  shows "wfx {} B (failParent key now parent s)"
proof -
  have ok: "job_ok i parent" using wfx_job [OF w _ old] by simp
  then have id: "j_id parent = i" by (simp add: job_ok_def)
  have "flow_data i (j_flow parent) (mapGet (flowChildren s) i)"
    using wfx_flow [OF w _ old] id by (simp add: flow_base_def)
  from settleMarkRows_wf [OF wfx_shift [OF w] id this] obtain f s' where
    m: "settleMarkRows parent s = (parent\<lparr>j_flow := f\<rparr>, s')" and w': "wfx {i} B s'"
    and eq: "jobs s' = jobs s" and data: "flow_data i f (mapGet (flowChildren s') i)"
    and pend: "f = None \<or> (\<exists>g. f = Some g \<and> fs_pending g = 0)" by blast
  let ?p = "recordAttempt AFailed now None
    (parent\<lparr>j_flow := f, j_cancelRequested := False, j_state := Failed, j_finishedAt := Some now,
       j_failedReason := Some (''effect-mq: flow child '' @ [CHR 0x22] @ key @ [CHR 0x22] @ '' failed'')\<rparr>)"
  have base: "flow_base ?p (mapGet (flowChildren s') i)"
    using data pend id by (auto simp: flow_base_def flow_idle_def)
  have "job_ok i ?p" by (rule job_ok_terminal) (use ok st in \<open>auto simp: job_ok_def\<close>)
  from wfx_finish(1) [OF w' _ _ this _ base] m eq old show ?thesis
    by (simp add: failParent_def Let_def)
qed

lemma resumeParent_wf:
  assumes w: "wfx {} (insert i B) s" and old: "mapGet (jobs s) i = Some parent"
    and st: "j_state parent = WaitingChildren" and f: "j_flow parent = Some f" "fs_pending f = 0"
  shows "wfx {} B (resumeParent now parent s)"
proof -
  have ok: "job_ok i parent" using wfx_job [OF w _ old] by simp
  let ?p = "parent\<lparr>j_state := Waiting, j_runAt := now, m_seq := seqNo s + 1\<rparr>"
  have "flow_base ?p (mapGet (flowChildren s) i)"
    using wfx_flow [OF w _ old] f by (simp add: flow_base_def flow_idle_def)
  moreover have "job_ok i ?p" using ok st by (auto simp: job_ok_def)
  ultimately have "wfx {} B (putJob ?p (s\<lparr>seqNo := seqNo s + 1\<rparr>))"
    using wfx_putFresh [of i "{}" B s ?p] wfx_shift [OF w] waits_other [of ?p] by (simp add: job_ok_def)
  then show ?thesis by (simp add: resumeParent_def Let_def)
qed

lemma wfx_discharge:
  assumes "wfx {} (insert i B) s" and "\<And>j. mapGet (jobs s) i = Some j \<Longrightarrow> waits_for_children j"
  shows "wfx {} B s"
  using assms unfolding wfx_def by blast

lemma settleOne_wf:
  assumes w: "wfx {} (insert i B) s"
  shows "wfx {} B (snd (settleOne now reports (i, t) (results, s)))"
proof (cases "mapGet (jobs s) i")
  case None
  with wfx_discharge [OF w] show ?thesis by (simp add: settleOne_def)
next
  case (Some parent)
  have base: "flow_base parent (mapGet (flowChildren s) i)" using wfx_flow [OF w _ Some] by simp
  show ?thesis
  proof (cases "j_state parent = WaitingChildren")
    case False
    with wfx_discharge [OF w] Some waits_other show ?thesis by (auto simp: settleOne_def split: option.split)
  next
    case True
    with base obtain f where f: "j_flow parent = Some f" by (cases "j_flow parent") (auto simp: flow_base_def)
    have keep: "wfx {} B s" if "fs_pending f \<noteq> 0"
    proof (rule wfx_discharge [OF w])
      have "0 \<le> fs_pending f" using base f by (auto simp: flow_base_def flow_counts_nonneg)
      with that show "waits_for_children j" if "mapGet (jobs s) i = Some j" for j
        using that Some f by (simp add: waits_for_children_def)
    qed
    show ?thesis
      using Some True f keep failParent_wf [OF w Some True] resumeParent_wf [OF w Some True f]
      by (simp add: settleOne_def split: option.split)
  qed
qed

lemma settleOne_fold_wf:
  "wfx {} (set (mapKeys touched)) s \<Longrightarrow>
     wellFormed (snd (fold (settleOne now reports) touched (results, s)))"
proof (induction touched arbitrary: results s)
  case Nil
  then show ?case by (simp add: wellFormed_def)
next
  case (Cons p ps)
  obtain i t where p: "p = (i, t)" by fastforce
  obtain results' s' where step: "settleOne now reports p (results, s) = (results', s')" by fastforce
  have "wfx {} (set (mapKeys ps)) s'"
    using settleOne_wf [of i "set (mapKeys ps)" s now reports t results] Cons.prems p step by simp
  from Cons.IH [OF this] show ?case by (simp add: step)
qed

lemma recordChildResults_wf:
  "wellFormed s \<Longrightarrow> wellFormed (snd (recordChildResults now reports s))"
  using recordPhase1_ok [of s reports] settleOne_fold_wf
  by (auto simp: recordChildResults_def phase1_ok_def split: prod.splits simp del: set_map)

section \<open>Fields the invariant does not read\<close>

definition rowsView :: "flow_rows \<Rightarrow> (string \<times> string \<times> job_id \<times> job_id option \<times> row_status) list" where
  "rowsView rs = map (\<lambda>(k, row). (k, ch_childKey row, ch_flowId row, rq_id (ch_spec row), ch_status row)) rs"

lemma rowsView_tally: "tally st rs = int (length (filter (\<lambda>(_, _, _, _, x). x = st) (rowsView rs)))"
  by (induction rs) (auto simp: rowsView_def tally_Cons)

lemma rowsView_keys: "map fst (rowsView rs) = mapKeys rs"
  by (simp add: rowsView_def comp_def split_beta)

lemma rowsView_ok:
  "rows_ok i rs \<longleftrightarrow> distinct (map fst (rowsView rs))
     \<and> (\<forall>(k, ck, fi, ri, st) \<in> set (rowsView rs). ck = k \<and> fi = i \<and> ri \<noteq> None)"
proof -
  have "(\<forall>k row. mapGet rs k = Some row \<longrightarrow> P k row) \<longleftrightarrow> (\<forall>(k, row) \<in> set rs. P k row)"
    if "distinct (mapKeys rs)" for P using that by (auto simp: mapGet_iff)
  moreover have "(\<forall>(k, ck, fi, ri, st) \<in> set (rowsView rs). ck = k \<and> fi = i \<and> ri \<noteq> None)
    \<longleftrightarrow> (\<forall>(k, row) \<in> set rs. ch_childKey row = k \<and> ch_flowId row = i \<and> rq_id (ch_spec row) \<noteq> None)"
    by (auto simp: rowsView_def split_beta)
  ultimately show ?thesis
    unfolding rows_ok_def rowsView_keys by (cases "distinct (mapKeys rs)") simp_all
qed

lemma wfx_rowsView:
  assumes w: "wellFormed s" and k: "mapKeys fc = mapKeys (flowChildren s)"
    and v: "\<And>i. map_option rowsView (mapGet fc i) = map_option rowsView (mapGet (flowChildren s) i)"
  shows "wellFormed (s\<lparr>flowChildren := fc\<rparr>)"
proof -
  have data: "flow_data i f (mapGet fc j) = flow_data i f (mapGet (flowChildren s) j)" for i f j
    using v [of j]
    by (cases "mapGet fc j"; cases "mapGet (flowChildren s) j")
      (auto simp: flow_counts_def rowsView_tally rowsView_ok)
  have none: "mapGet fc j = None \<longleftrightarrow> mapGet (flowChildren s) j = None" for j
    using v [of j] by (cases "mapGet fc j"; cases "mapGet (flowChildren s) j") auto
  have "entry_base (s\<lparr>flowChildren := fc\<rparr>) i = entry_base s i" for i
    by (simp add: entry_base_def flow_base_def data none split: option.split)
  then show ?thesis
    using w k by (simp add: wellFormed_def wfx_def seq_ok_def outbox_ok_def)
qed

lemma rowsView_Cons:
  "rowsView ((k, row) # rs) =
     (k, ch_childKey row, ch_flowId row, rq_id (ch_spec row), ch_status row) # rowsView rs"
  by (simp add: rowsView_def)

lemma sweepRows_view: "rowsView (fst (sweepRows now th l rc rows a b)) = rowsView rows"
  by (induction now th l rc rows a b rule: sweepRows.induct)
    (simp_all add: rowsView_Cons Let_def split_beta)

lemma sweepFlows_view:
  "map (\<lambda>(i, rs). (i, rowsView rs)) (fst (sweepFlows now th l js fc a b)) = map (\<lambda>(i, rs). (i, rowsView rs)) fc"
  by (induction fc arbitrary: a b) (auto simp: Let_def split_beta sweepRows_view)

lemma flowSweepWork_wf: "wellFormed s \<Longrightarrow> wellFormed (snd (flowSweepWork now age l s))"
proof -
  assume w: "wellFormed s"
  let ?l = "nat (max 1 (orElse l 1000))"
  let ?fc = "fst (sweepFlows now (now - age) ?l (jobs s) (flowChildren s) 0 0)"
  note eq = sweepFlows_view [of now "now - age" ?l "jobs s" "flowChildren s" 0 0]
  have "wellFormed (s\<lparr>flowChildren := ?fc\<rparr>)"
  proof (rule wfx_rowsView [OF w])
    show "mapKeys ?fc = mapKeys (flowChildren s)"
      using arg_cong [OF eq, of "map fst"] by (simp add: comp_def split_beta)
    show "map_option rowsView (mapGet ?fc i) = map_option rowsView (mapGet (flowChildren s) i)" for i
      using arg_cong [OF eq, of "\<lambda>m. map_of m i"] by (simp add: map_of_map)
  qed
  then show ?thesis by (simp add: flowSweepWork_def Let_def split_beta)
qed

lemma markRow_view:
  "distinct (mapKeys rs) \<Longrightarrow> mapGet rs k = Some row \<Longrightarrow>
     rowsView (mapSet k (row\<lparr>ch_cascaded := True\<rparr>) rs) = rowsView rs"
  by (erule (1) mapSet_split) (simp add: rowsView_def)

lemma markChildrenCascaded_wf:
  assumes w: "wellFormed s"
  shows "wellFormed (markChildrenCascaded i ks s)"
proof (cases "mapGet (flowChildren s) i")
  case None
  with w show ?thesis by (simp add: markChildrenCascaded_def)
next
  case (Some rs)
  obtain j where "mapGet (jobs s) i = Some j"
    using wfx_no_job [of "{}" "{}" s i] w Some by (cases "mapGet (jobs s) i") (auto simp: wellFormed_def)
  from wf_flow [OF w this] Some have d: "distinct (mapKeys rs)" by (auto simp: flow_base_def rows_ok_def)
  let ?mark = "\<lambda>key rs. case mapGet rs key of None \<Rightarrow> rs | Some row \<Rightarrow> mapSet key (row\<lparr>ch_cascaded := True\<rparr>) rs"
  have "distinct (mapKeys (fold ?mark ks rs)) \<and> rowsView (fold ?mark ks rs) = rowsView rs"
    by (rule fold_invariant_list [where I = "\<lambda>r. distinct (mapKeys r) \<and> rowsView r = rowsView rs"])
      (use d in \<open>auto simp: markRow_view split: option.split\<close>)
  then have "wellFormed (s\<lparr>flowChildren := mapSet i (fold ?mark ks rs) (flowChildren s)\<rparr>)"
    using Some by (intro wfx_rowsView [OF w]) auto
  with Some show ?thesis by (simp add: markChildrenCascaded_def)
qed

lemma deleteOutbox_wf: "wellFormed s \<Longrightarrow> wellFormed (deleteOutbox ids s)"
  by (simp add: deleteOutbox_def wellFormed_def wfx_outbox_filter)

end
