(* ===== verification/MemStep.thy ===== *)
theory MemStep
  imports MemWfFlow
begin

text \<open>
  The in-memory store as a transition system. An operation is one synchronous block, so a run of the
  store is a sequence of \<open>exec\<close> steps, one per call, each with the clock value it reads. The one
  exception is an enqueue whose id generator is an effect: it is suspended between its dedup
  decision and its insertion, and other operations run in between. A configuration is the store
  and the suspended enqueues; \<open>reachable\<close> covers every interleaving.
\<close>

section \<open>Operations\<close>

datatype op =
    OpEnqueue millis enqueue_request
  | OpEnqueueMany "(millis \<times> enqueue_request) list"
  | OpClaim millis claim_options
  | OpAck millis job_id string ack_outcome
  | OpRelease millis job_id string
  | OpExtendLocks millis "(job_id \<times> string) list" int
  | OpRecoverStalled millis int
  | OpAwaitWake "queue_name list" nat
  | OpCancelWait nat
  | OpCancel millis job_id
  | OpCancelByDedupe millis string string
  | OpRetry millis job_id
  | OpPromote millis job_id
  | OpPause queue_name
  | OpResume queue_name
  | OpRemove job_id
  | OpUpsertSchedule schedule_record
  | OpRemoveSchedule schedule_key
  | OpAdvanceSchedule schedule_key millis millis
  | OpTickSchedule millis schedule_key millis millis enqueue_request
  | OpRecordChildResults millis "flow_child_report list"
  | OpDeleteOutbox "string list"
  | OpFlowSweepWork millis int "int option"
  | OpMarkChildrenCascaded job_id "string list"
  | OpSweepHistory millis history_ttl

fun exec :: "id_generator option \<Rightarrow> op \<Rightarrow> mem_store \<Rightarrow> mem_store" where
  "exec gen (OpEnqueue now r) s = snd (enqueueOne gen now r s)"
| "exec gen (OpEnqueueMany rs) s = snd (enqueueMany gen rs s)"
| "exec gen (OpClaim now opts) s = snd (claim now opts s)"
| "exec gen (OpAck now i token outcome) s = snd (ack now i token outcome s)"
| "exec gen (OpRelease now i token) s = snd (release now i token s)"
| "exec gen (OpExtendLocks now locks d) s = snd (extendLocks now locks d s)"
| "exec gen (OpRecoverStalled now m) s = snd (recoverStalled now m s)"
| "exec gen (OpAwaitWake qs t) s = snd (awaitWake qs t s)"
| "exec gen (OpCancelWait w) s = cancelWait w s"
| "exec gen (OpCancel now i) s = snd (cancelJob now i s)"
| "exec gen (OpCancelByDedupe now name key) s = snd (cancelByDedupe now name key s)"
| "exec gen (OpRetry now i) s = snd (retry now i s)"
| "exec gen (OpPromote now i) s = snd (promote now i s)"
| "exec gen (OpPause q) s = pause q s"
| "exec gen (OpResume q) s = resume q s"
| "exec gen (OpRemove i) s = snd (remove i s)"
| "exec gen (OpUpsertSchedule sc) s = upsertSchedule sc s"
| "exec gen (OpRemoveSchedule k) s = snd (removeSchedule k s)"
| "exec gen (OpAdvanceSchedule k a b) s = advanceSchedule k a b s"
| "exec gen (OpTickSchedule now k a b r) s = snd (tickSchedule now k a b r s)"
| "exec gen (OpRecordChildResults now rs) s = snd (recordChildResults now rs s)"
| "exec gen (OpDeleteOutbox ids) s = deleteOutbox ids s"
| "exec gen (OpFlowSweepWork now age l) s = snd (flowSweepWork now age l s)"
| "exec gen (OpMarkChildrenCascaded i ks) s = markChildrenCascaded i ks s"
| "exec gen (OpSweepHistory now ttl) s = sweepHistory now ttl s"

text \<open>The only demand on a caller: the child keys of a fan-out are distinct.\<close>

fun op_ok :: "op \<Rightarrow> bool" where
  "op_ok (OpAck now i token outcome) = fanout_ok outcome"
| "op_ok _ = True"

lemmas op_wf = enqueueOne_wf enqueueMany_wf claim_wf ack_wf release_wf extendLocks_wf recoverStalled_wf
  awaitWake_wf cancelWait_wf cancelJob_wf cancelByDedupe_wf retry_wf promote_wf pause_wf resume_wf
  remove_wf upsertSchedule_wf removeSchedule_wf advanceSchedule_wf tickSchedule_wf
  recordChildResults_wf deleteOutbox_wf flowSweepWork_wf markChildrenCascaded_wf sweepHistory_wf

lemma exec_wf: "op_ok op \<Longrightarrow> wellFormed s \<Longrightarrow> wellFormed (exec gen op s)"
  by (cases op) (simp_all add: op_wf)

section \<open>Runs\<close>

type_synonym suspended = "millis \<times> enqueue_request"
type_synonym config = "mem_store \<times> suspended list"

inductive step :: "id_generator option \<Rightarrow> config \<Rightarrow> config \<Rightarrow> bool" for gen where
  step_op: "op_ok op \<Longrightarrow> step gen (s, P) (exec gen op s, P)"
| step_suspend: "rq_id request = None \<Longrightarrow> enqueueDecide now request s = (None, s') \<Longrightarrow>
     step gen (s, P) (s', (now, request) # P)"
| step_resume: "(now, request) \<in> set P \<Longrightarrow> mapGet (jobs s) i = None \<Longrightarrow>
     step gen (s, P) (registerJob i request now s, remove1 (now, request) P)"
| step_give_up: "p \<in> set P \<Longrightarrow> step gen (s, P) (s, remove1 p P)"

inductive_cases step_cases: "step gen c c'"

inductive reachable :: "id_generator option \<Rightarrow> config \<Rightarrow> bool" for gen where
  reachable_init: "reachable gen (emptyStore, [])"
| reachable_step: "reachable gen c \<Longrightarrow> step gen c c' \<Longrightarrow> reachable gen c'"

lemma step_wf: "step gen c c' \<Longrightarrow> wellFormed (fst c) \<Longrightarrow> wellFormed (fst c')"
proof (induction rule: step.induct)
  case (step_suspend request now s s' P)
  then show ?case using enqueueDecide_wf [of s now request] by simp
qed (simp_all add: exec_wf registerJob_wf)

lemma reachable_wf: "reachable gen c \<Longrightarrow> wellFormed (fst c)"
  by (induction rule: reachable.induct) (auto simp: wf_empty elim: step_wf)

text \<open>A sequence of operations, for concrete runs.\<close>

fun execs :: "id_generator option \<Rightarrow> op list \<Rightarrow> mem_store \<Rightarrow> mem_store" where
  "execs gen [] s = s"
| "execs gen (op # ops) s = execs gen ops (exec gen op s)"

lemma reachable_execs:
  "reachable gen (s, P) \<Longrightarrow> list_all op_ok ops \<Longrightarrow> reachable gen (execs gen ops s, P)"
proof (induction ops arbitrary: s)
  case Nil
  then show ?case by simp
next
  case (Cons op ops)
  then have "reachable gen (exec gen op s, P)" by (auto intro: reachable_step step_op)
  with Cons show ?case by simp
qed

end
