(* ===== verification/ClaimQueue.thy ===== *)
theory ClaimQueue
  imports MemStep "HOL-Library.Product_Lexorder"
begin

text \<open>
  The contract of claiming, which the worker's take loop relies on: \<open>claim_queue\<close> is a priority
  queue whose \<open>take\<close> hands out the ready job of least rank and leaves the others with their rank.
  Inside the locale the loop that takes until nothing is ready is shown to hand out every ready job
  once, in rank order. The in-memory store is interpreted below: a job is ready for a claim when it is
  eligible (queue and names) and waiting or due, and its rank is \<open>(- priority, seq)\<close>.
\<close>

section \<open>The contract\<close>

locale claim_queue =
  fixes invar :: "'s \<Rightarrow> bool"
    and ready :: "'s \<Rightarrow> 'j set"
    and rank :: "'s \<Rightarrow> 'j \<Rightarrow> 'r::linorder"
    and takeJob :: "'s \<Rightarrow> ('j \<times> 's) option"
  assumes ready_finite: "invar s \<Longrightarrow> finite (ready s)"
    and rank_inj: "invar s \<Longrightarrow> inj_on (rank s) (ready s)"
    and take_None: "invar s \<Longrightarrow> takeJob s = None \<longleftrightarrow> ready s = {}"
    and take_Some: "invar s \<Longrightarrow> takeJob s = Some (j, s') \<Longrightarrow>
      j \<in> ready s \<and> (\<forall>k\<in>ready s. rank s j \<le> rank s k) \<and> ready s' = ready s - {j}
      \<and> (\<forall>k\<in>ready s'. rank s' k = rank s k) \<and> invar s'"
begin

fun takeAll :: "nat \<Rightarrow> 's \<Rightarrow> 'j list" where
  "takeAll 0 s = []"
| "takeAll (Suc n) s = (case takeJob s of None \<Rightarrow> [] | Some (j, s') \<Rightarrow> j # takeAll n s')"

lemma takeAll_complete:
  "invar s \<Longrightarrow> card (ready s) \<le> n \<Longrightarrow> set (takeAll n s) = ready s \<and> distinct (takeAll n s)
     \<and> sorted_wrt (\<lambda>a b. rank s a < rank s b) (takeAll n s)"
proof (induction n arbitrary: s)
  case 0
  then show ?case using ready_finite [of s] by simp
next
  case (Suc n)
  show ?case
  proof (cases "takeJob s")
    case None
    with take_None [OF Suc.prems(1)] show ?thesis by simp
  next
    case (Some p)
    obtain j s' where p: "p = (j, s')" by fastforce
    from take_Some [OF Suc.prems(1)] Some p have
      j: "j \<in> ready s" "\<forall>k\<in>ready s. rank s j \<le> rank s k" "ready s' = ready s - {j}"
        "\<forall>k\<in>ready s'. rank s' k = rank s k" "invar s'" by auto
    have "card (ready s') \<le> n"
      using j(1,3) Suc.prems(2) ready_finite [OF Suc.prems(1)] by simp
    from Suc.IH [OF j(5) this] have IH: "set (takeAll n s') = ready s'" "distinct (takeAll n s')"
      "sorted_wrt (\<lambda>a b. rank s' a < rank s' b) (takeAll n s')" by auto
    have "sorted_wrt (\<lambda>a b. rank s a < rank s b) (takeAll n s')"
      by (rule sorted_wrt_mono_rel [OF _ IH(3)]) (use IH(1) j(4) in auto)
    moreover have "rank s j < rank s k" if "k \<in> ready s'" for k
    proof -
      from that j(3) have "k \<in> ready s" "k \<noteq> j" by auto
      with j(1,2) rank_inj [OF Suc.prems(1)] show ?thesis
        by (metis inj_onD order_le_less)
    qed
    ultimately show ?thesis using Some p IH j(1,3) by auto
  qed
qed

end

section \<open>The scan of the in-memory store\<close>

definition eligible :: "claim_options \<Rightarrow> mem_job \<Rightarrow> bool" where
  "eligible opts j \<longleftrightarrow> j_queue j = co_queue opts \<and> j_name j \<in> set (co_names opts)"

definition runnable :: "millis \<Rightarrow> mem_job \<Rightarrow> bool" where
  "runnable now j \<longleftrightarrow> j_state j = Waiting \<or> (j_state j = Delayed \<and> j_runAt j \<le> now)"

definition jobRank :: "mem_job \<Rightarrow> int \<times> nat" where
  "jobRank j = (- j_priority j, m_seq j)"

lemma betterThan_None [simp]: "betterThan j None"
  by (simp add: betterThan_def)

lemma betterThan_rank: "betterThan j (Some b) \<longleftrightarrow> jobRank j < jobRank b"
  by (auto simp: betterThan_def jobRank_def less_prod_def)

lemma claimScan_best:
  "fold (claimScan opts) js (b0, n0) = (b, n) \<Longrightarrow>
     (b = None \<longleftrightarrow> b0 = None \<and> (\<forall>j\<in>set js. \<not> (eligible opts j \<and> j_state j = Waiting)))
   \<and> (\<forall>x. b = Some x \<longrightarrow>
        (\<forall>y. b0 = Some y \<or> (y \<in> set js \<and> eligible opts y \<and> j_state y = Waiting) \<longrightarrow> jobRank x \<le> jobRank y))"
proof (induction js arbitrary: b0 n0)
  case Nil
  then show ?case by auto
next
  case (Cons j js)
  obtain b1 n1 where step: "claimScan opts j (b0, n0) = (b1, n1)" by fastforce
  with Cons.prems have "fold (claimScan opts) js (b1, n1) = (b, n)" by simp
  note IH = Cons.IH [OF this]
  have new: "(b1 = None \<longleftrightarrow> b0 = None \<and> \<not> (eligible opts j \<and> j_state j = Waiting))
    \<and> (\<forall>x. b1 = Some x \<longrightarrow>
        (\<forall>y. b0 = Some y \<or> (y = j \<and> eligible opts j \<and> j_state j = Waiting) \<longrightarrow> jobRank x \<le> jobRank y))"
  proof (cases "eligible opts j \<and> j_state j = Waiting")
    case True
    with step have b1: "b1 = (if betterThan j b0 then Some j else b0)"
      by (simp add: claimScan_def eligible_def)
    show ?thesis
    proof (cases b0)
      case None
      with b1 True show ?thesis by simp
    next
      case (Some y)
      with b1 True show ?thesis
        by (cases "jobRank j < jobRank y") (simp_all add: betterThan_rank less_imp_le)
    qed
  next
    case False
    with step have "b1 = b0" by (auto simp: claimScan_def eligible_def split: if_splits)
    with False show ?thesis by (cases b0) auto
  qed
  show ?case
  proof (cases b1)
    case None
    with IH new show ?thesis by auto
  next
    case (Some z)
    have le: "jobRank x \<le> jobRank y"
      if x: "b = Some x" and y: "b0 = Some y \<or> (y \<in> set (j # js) \<and> eligible opts y \<and> j_state y = Waiting)" for x y
    proof (cases "y \<in> set js \<and> eligible opts y \<and> j_state y = Waiting")
      case True
      with IH x show ?thesis by blast
    next
      case False
      with y have "b0 = Some y \<or> (y = j \<and> eligible opts j \<and> j_state j = Waiting)" by auto
      with new Some have "jobRank z \<le> jobRank y" by blast
      moreover have "jobRank x \<le> jobRank z" using IH x Some by blast
      ultimately show ?thesis by (rule order_trans [rotated])
    qed
    moreover have "b \<noteq> None" using IH Some by simp
    moreover have "\<not> (b0 = None \<and> (\<forall>k\<in>set (j # js). \<not> (eligible opts k \<and> j_state k = Waiting)))"
      using new Some by auto
    ultimately show ?thesis by blast
  qed
qed

lemma claimScan_next:
  "fold (claimScan opts) js (b0, n0) = (b, n) \<Longrightarrow>
     (n = None \<longleftrightarrow> n0 = None \<and> (\<forall>j\<in>set js. \<not> (eligible opts j \<and> j_state j = Delayed)))
   \<and> (\<forall>r. n = Some r \<longrightarrow>
        (n0 = Some r \<or> (\<exists>j\<in>set js. eligible opts j \<and> j_state j = Delayed \<and> j_runAt j = r))
        \<and> (\<forall>r0. n0 = Some r0 \<longrightarrow> r \<le> r0)
        \<and> (\<forall>j\<in>set js. eligible opts j \<and> j_state j = Delayed \<longrightarrow> r \<le> j_runAt j))"
proof (induction js arbitrary: b0 n0)
  case Nil
  then show ?case by auto
next
  case (Cons j js)
  obtain b1 n1 where step: "claimScan opts j (b0, n0) = (b1, n1)" by fastforce
  with Cons.prems have "fold (claimScan opts) js (b1, n1) = (b, n)" by simp
  note IH = Cons.IH [OF this]
  have new: "n1 = (if eligible opts j \<and> j_state j = Delayed
      then Some (case n0 of None \<Rightarrow> j_runAt j | Some r \<Rightarrow> min (j_runAt j) r) else n0)"
    using step by (auto simp: claimScan_def eligible_def min_def split: if_splits option.splits)
  show ?case
  proof (cases "eligible opts j \<and> j_state j = Delayed")
    case True
    with IH new show ?thesis by (cases n0) (auto simp: min_def split: if_splits)
  next
    case False
    with IH new show ?thesis by auto
  qed
qed

section \<open>The in-memory store provides the contract\<close>

definition readyJob :: "millis \<Rightarrow> claim_options \<Rightarrow> mem_store \<Rightarrow> job_id \<Rightarrow> bool" where
  "readyJob now opts s i =
     (case mapGet (jobs s) i of
        None \<Rightarrow> False
      | Some j \<Rightarrow> co_queue opts \<notin> set (paused s) \<and> eligible opts j \<and> runnable now j)"

definition rankOf :: "mem_store \<Rightarrow> job_id \<Rightarrow> int \<times> nat" where
  "rankOf s i = (case mapGet (jobs s) i of None \<Rightarrow> (0, 0) | Some j \<Rightarrow> jobRank j)"

definition takeClaim :: "millis \<Rightarrow> claim_options \<Rightarrow> mem_store \<Rightarrow> (job_id \<times> mem_store) option" where
  "takeClaim now opts s =
     (case claim now opts s of (Claimed r, s') \<Rightarrow> Some (j_id r, s') | (Empty _ _, _) \<Rightarrow> None)"

lemma promoteJob_runnable: "j_state (promoteJob now j) = Waiting \<longleftrightarrow> runnable now j"
  by (auto simp: runnable_def promoteJob_state)

lemma promoteJob_eligible [simp]: "eligible opts (promoteJob now j) = eligible opts j"
  by (simp add: eligible_def)

lemma promoteJob_rank [simp]: "jobRank (promoteJob now j) = jobRank j"
  by (simp add: jobRank_def)

lemma activate_sel [simp]:
  "j_id (activate opts now b) = j_id b" "m_seq (activate opts now b) = m_seq b"
  "j_state (activate opts now b) = Active" "j_priority (activate opts now b) = j_priority b"
  "m_lockToken (activate opts now b) = Some (co_token opts)"
  "m_lockExpiresAt (activate opts now b) = Some (now + co_lockDurationMs opts)"
  "j_processedAt (activate opts now b) = Some now"
  by (simp_all add: activate_def)

lemma snapshot_id [simp]: "j_id (snapshot j) = j_id j"
  by (simp add: snapshot_def)

lemma snapshot_state [simp]: "j_state (snapshot j) = j_state j"
  by (simp add: snapshot_def)

text \<open>What a claim does, over the store before promotion.\<close>

lemma claim_cases:
  assumes w: "wellFormed s"
  obtains (claimed) j where
      "claim now opts s =
         (Claimed (snapshot (activate opts now (promoteJob now j))),
          putJob (activate opts now (promoteJob now j)) (promoteDue now s))"
      "mapGet (jobs s) (j_id j) = Some j" "readyJob now opts s (j_id j)"
      "\<And>k. readyJob now opts s k \<Longrightarrow> rankOf s (j_id j) \<le> rankOf s k"
  | (empty) nextRunAt where
      "claim now opts s = (Empty nextRunAt (wakeVersion s), promoteDue now s)"
      "\<And>k. \<not> readyJob now opts s k"
      "\<And>r. nextRunAt = Some r \<longleftrightarrow>
         (\<exists>i j. mapGet (jobs s) i = Some j \<and> eligible opts j \<and> j_state j = Delayed \<and> now < j_runAt j \<and> j_runAt j = r)
         \<and> (\<forall>i j. mapGet (jobs s) i = Some j \<longrightarrow> eligible opts j \<longrightarrow> j_state j = Delayed \<longrightarrow>
              now < j_runAt j \<longrightarrow> r \<le> j_runAt j)"
proof -
  let ?s = "promoteDue now s"
  have dist: "distinct (mapKeys (jobs s))" by (rule wf_distinct [OF w])
  define V where "V = set (mapValues (jobs s))"
  have vals: "set (mapValues (jobs ?s)) = promoteJob now ` V"
    unfolding V_def promoteDue_frame set_map ..
  obtain b n where scan: "fold (claimScan opts) (mapValues (jobs ?s)) (None, None) = (b, n)"
    by fastforce
  note best = claimScan_best [OF scan, unfolded vals] and nxt = claimScan_next [OF scan, unfolded vals]
  have val: "j \<in> V \<longleftrightarrow> (\<exists>i. mapGet (jobs s) i = Some j)" for j
    unfolding V_def by (rule mapValues_in [OF dist])
  have delayed: "j_state (promoteJob now j) = Delayed \<longleftrightarrow> j_state j = Delayed \<and> now < j_runAt j" for j
    by (auto simp: promoteJob_state)
  have nextRun: "n = Some r \<longleftrightarrow>
    (\<exists>i j. mapGet (jobs s) i = Some j \<and> eligible opts j \<and> j_state j = Delayed \<and> now < j_runAt j \<and> j_runAt j = r)
    \<and> (\<forall>i j. mapGet (jobs s) i = Some j \<longrightarrow> eligible opts j \<longrightarrow> j_state j = Delayed \<longrightarrow>
         now < j_runAt j \<longrightarrow> r \<le> j_runAt j)" for r
  proof -
    let ?D = "{j. (\<exists>i. mapGet (jobs s) i = Some j) \<and> eligible opts j \<and> j_state j = Delayed \<and> now < j_runAt j}"
    have none: "n = None \<longleftrightarrow> ?D = {}"
      using nxt [THEN conjunct1] by (auto simp: val delayed)
    have some: "(\<exists>j\<in>?D. j_runAt j = x) \<and> (\<forall>j\<in>?D. x \<le> j_runAt j)" if "n = Some x" for x
      using nxt [THEN conjunct2] that by (auto simp: val delayed)
    show ?thesis
    proof (cases n)
      case None
      with none show ?thesis by auto
    next
      case (Some x)
      from some [OF this] have "n = Some r \<longleftrightarrow> (\<exists>j\<in>?D. j_runAt j = r) \<and> (\<forall>j\<in>?D. r \<le> j_runAt j)"
        using Some by (metis (no_types, lifting) option.inject order_antisym)
      then show ?thesis by auto
    qed
  qed
  show thesis
  proof (cases "b = None \<or> co_queue opts \<in> set (paused s)")
    case True
    have "\<not> readyJob now opts s k" for k
    proof (cases "co_queue opts \<in> set (paused s)")
      case True
      then show ?thesis by (simp add: readyJob_def split: option.split)
    next
      case False
      with True best val show ?thesis
        by (fastforce simp: readyJob_def promoteJob_runnable split: option.splits)
    qed
    moreover have "claim now opts s = (Empty n (wakeVersion s), ?s)"
      using scan True by (auto simp: claim_def Let_def split: option.split)
    ultimately show thesis using empty nextRun by blast
  next
    case False
    then obtain x where b: "b = Some x" and np: "co_queue opts \<notin> set (paused s)" by auto
    from claimScan_in [OF scan [unfolded b], unfolded vals] obtain j where
      x: "x = promoteJob now j" "j \<in> V" "runnable now j" "eligible opts j"
      by (auto simp: promoteJob_runnable eligible_def)
    have old: "mapGet (jobs s) (j_id j) = Some j" using x(2) wf_value [OF w] by (simp add: V_def)
    moreover have "claim now opts s = (Claimed (snapshot (activate opts now x)), putJob (activate opts now x) ?s)"
      using scan b np by (simp add: claim_def Let_def)
    moreover have "readyJob now opts s (j_id j)" using old np x by (simp add: readyJob_def)
    moreover have "rankOf s (j_id j) \<le> rankOf s k" if "readyJob now opts s k" for k
    proof -
      from that obtain y where y: "mapGet (jobs s) k = Some y" "eligible opts y" "runnable now y"
        by (auto simp: readyJob_def split: option.splits)
      then have "promoteJob now y \<in> promoteJob now ` V" using val by blast
      moreover have "eligible opts (promoteJob now y)" "j_state (promoteJob now y) = Waiting"
        using y by (simp_all add: promoteJob_runnable)
      ultimately have "jobRank (promoteJob now j) \<le> jobRank (promoteJob now y)"
        using best [THEN conjunct2] b x(1) by blast
      with old y show ?thesis by (simp add: rankOf_def)
    qed
    ultimately show thesis using claimed x(1) by blast
  qed
qed

lemma readyJob_after:
  assumes "wellFormed s" "mapGet (jobs s) (j_id j) = Some j"
  shows "readyJob now opts (putJob (activate opts' now' (promoteJob now j)) (promoteDue now s)) k
    \<longleftrightarrow> k \<noteq> j_id j \<and> readyJob now opts s k"
  using assms(2) promoteJob_runnable [of now]
  by (auto simp: readyJob_def runnable_def promoteJob_state split: option.splits if_splits)

interpretation mq: claim_queue wellFormed "\<lambda>s. {i. readyJob now opts s i}" rankOf "takeClaim now opts"
  for now opts
proof (unfold_locales, goal_cases)
  case (1 s)
  have "{i. readyJob now opts s i} \<subseteq> set (mapKeys (jobs s))"
    by (auto simp: readyJob_def mapHas_key [symmetric] simp del: set_map split: option.splits)
  then show ?case by (rule finite_subset) simp
next
  case (2 s)
  then show ?case
    by (fastforce simp: inj_on_def readyJob_def rankOf_def jobRank_def wellFormed_def wfx_def seq_ok_def
        split: option.splits)
next
  case (3 s)
  from 3 show ?case by (cases rule: claim_cases [of s now opts]) (auto simp: takeClaim_def)
next
  case (4 s i s')
  from 4(1) show ?case
  proof (cases rule: claim_cases [of s now opts])
    case (claimed j)
    with 4(2) have s': "i = j_id j" "s' = putJob (activate opts now (promoteJob now j)) (promoteDue now s)"
      by (simp_all add: takeClaim_def)
    have "wellFormed s'" using claim_wf [OF 4(1), of now opts] claimed(1) s'(2) by simp
    moreover have "rankOf s' k = rankOf s k" if "readyJob now opts s k" "k \<noteq> i" for k
      using that s' by (auto simp: rankOf_def readyJob_def split: option.splits)
    ultimately show ?thesis
      using claimed s' readyJob_after [OF 4(1) claimed(2)] by auto
  next
    case (empty r)
    with 4(2) show ?thesis by (simp add: takeClaim_def)
  qed
qed

end
