(* ===== verification/Samples.thy ===== *)
theory Samples
  imports MemStep MemQuery
begin

text \<open>Small concrete requests, options and stores that the witnesses of the properties evaluate.\<close>

definition aRequest :: enqueue_request where
  "aRequest = \<lparr> rq_id = None, rq_name = ''mail'', rq_queue = ''q'', rq_payload = JNull, rq_metadata = [],
     rq_priority = 0, rq_attemptsMax = 3, rq_backoff = None, rq_keep = None, rq_timeoutMs = None,
     rq_dedupe = None, rq_trace = None, rq_parent = None, rq_delayMs = 0 \<rparr>"

definition anEnvelope :: parent_envelope where
  "anEnvelope = \<lparr> pe_flowName = ''flow'', pe_flowId = ''j-1'', pe_childKey = ''a'',
     pe_parentStoreKey = ''store'', pe_depth = 1 \<rparr>"

definition someOptions :: claim_options where
  "someOptions = \<lparr> co_queue = ''q'', co_names = [''mail''], co_token = ''t'', co_lockDurationMs = 30 \<rparr>"

text \<open>Three jobs: \<open>j-1\<close> plain, \<open>j-2\<close> urgent, \<open>j-3\<close> delayed until 105.\<close>

definition threeJobs :: mem_store where
  "threeJobs = execs None
     [OpEnqueue 0 aRequest, OpEnqueue 1 (aRequest\<lparr>rq_priority := 5\<rparr>),
      OpEnqueue 5 (aRequest\<lparr>rq_delayMs := 100\<rparr>)] emptyStore"

text \<open>\<open>j-2\<close> claimed at 10 by token \<open>t\<close>.\<close>

definition oneActive :: mem_store where
  "oneActive = exec None (OpClaim 10 someOptions) threeJobs"

lemma execs_wf: "wellFormed s \<Longrightarrow> list_all op_ok ops \<Longrightarrow> wellFormed (execs gen ops s)"
  by (induction ops arbitrary: s) (auto simp: exec_wf)

lemma threeJobs_wf: "wellFormed threeJobs"
  unfolding threeJobs_def by (rule execs_wf [OF wf_empty]) simp

lemma oneActive_wf: "wellFormed oneActive"
  unfolding oneActive_def by (rule exec_wf [OF _ threeJobs_wf]) simp

end
