(* ===== verification/Verbs.thy ===== *)
theory Verbs
  imports ClaimQueue Samples
begin

text \<open>
  The verbs of a store as data, runs of them, and what the proofs that another driver behaves as the
  in-memory driver share: the plain jobs and requests those proofs are about, the effect of each verb
  of the in-memory driver on them, and the locale \<open>refines_memory\<close>, which turns one call that agrees
  into a run that does.
\<close>

section \<open>What a verb leaves alone\<close>

definition wakeFields :: "mem_store \<Rightarrow> nat \<times> nat \<times> (queue_name, nat) jsmap \<times> waiter list \<times> nat list \<times> nat" where
  "wakeFields s = (wakeVersion s, lastBroadcast s, lastWake s, waiters s, resolved s, nextWaiter s)"

definition unlimited :: "mem_store \<Rightarrow> bool" where
  "unlimited s \<longleftrightarrow> (\<forall>i job. mapGet (jobs s) i = Some job \<longrightarrow> j_keep job = None)"

lemma unlimited_job: "unlimited s \<Longrightarrow> mapGet (jobs s) i = Some job \<Longrightarrow> j_keep job = None"
  by (simp add: unlimited_def)

lemma putJob_same [simp]:
  "wakeFields (putJob job s) = wakeFields s" "paused (putJob job s) = paused s" "seqNo (putJob job s) = seqNo s"
  "jobs (putJob job s) = mapSet (j_id job) job (jobs s)"
  by (simp_all add: putJob_def wakeFields_def)

lemma signalWake_same [simp]:
  "jobs (signalWake q s) = jobs s" "paused (signalWake q s) = paused s" "seqNo (signalWake q s) = seqNo s"
  by (simp_all add: signalWake_def Let_def)

lemma tail_same [simp]:
  "jobs (appendOutbox job t s) = jobs s" "paused (appendOutbox job t s) = paused s" "wakeFields (appendOutbox job t s) = wakeFields s"
  "jobs (releaseDedupe job now s) = jobs s" "paused (releaseDedupe job now s) = paused s"
  "wakeFields (releaseDedupe job now s) = wakeFields s"
  by (auto simp: appendOutbox_def releaseDedupe_def wakeFields_def Let_def split: option.splits)

lemma applyKeep_unlimited [simp]: "j_keep job = None \<Longrightarrow> applyKeep job now s = s"
  by (simp add: applyKeep_def keepPolicyFor_def)

section \<open>Sequence numbers\<close>

text \<open>The counters \<open>ns\<close> of another driver, at most \<open>c\<close>, order the jobs as the sequence numbers do.\<close>

definition seqsAgree :: "int \<Rightarrow> (job_id \<Rightarrow> nat) \<Rightarrow> mem_store \<Rightarrow> bool" where
  "seqsAgree c ns s \<longleftrightarrow> 0 \<le> c
     \<and> (\<forall>i job. mapGet (jobs s) i = Some job \<longrightarrow> int (ns i) \<le> c)
     \<and> (\<forall>i job i' job'. mapGet (jobs s) i = Some job \<longrightarrow> mapGet (jobs s) i' = Some job' \<longrightarrow>
          (m_seq job < m_seq job' \<longleftrightarrow> ns i < ns i'))"

lemma seqsAgree_fresh:
  assumes "seqsAgree c ns s" and "wellFormed s" and "jobs s' = mapSet j job' (jobs s)"
    and "m_seq job' = seqNo s + 1"
  shows "seqsAgree (c + 1) (ns(j := nat (c + 1))) s'"
proof -
  let ?ns = "ns(j := nat (c + 1))"
  have c: "0 \<le> c" using assms(1) by (simp add: seqsAgree_def)
  have get: "mapGet (jobs s') i = (if i = j then Some job' else mapGet (jobs s) i)" for i
    using assms(3) by simp
  have old: "m_seq x < m_seq job' \<and> ns i < ?ns j \<and> int (ns i) \<le> c" if "mapGet (jobs s) i = Some x" for i x
  proof -
    have "m_seq x \<le> seqNo s" using assms(2) that by (auto simp: wellFormed_def wfx_def seq_ok_def)
    moreover have "int (ns i) \<le> c" using assms(1) that by (auto simp: seqsAgree_def)
    ultimately show ?thesis using assms(4) c by simp
  qed
  have ord: "m_seq x < m_seq y \<longleftrightarrow> ns i < ns i'"
    if "mapGet (jobs s) i = Some x" "mapGet (jobs s) i' = Some y" for i x i' y
    using assms(1) that unfolding seqsAgree_def by blast
  have "int (?ns i) \<le> c + 1" if "mapGet (jobs s') i = Some x" for i x
    using that get [of i] old [of i x] c by (auto split: if_splits)
  moreover have "m_seq x < m_seq y \<longleftrightarrow> ?ns i < ?ns i'"
    if "mapGet (jobs s') i = Some x" "mapGet (jobs s') i' = Some y" for i x i' y
  proof (cases "i = j")
    case i: True
    then have x: "x = job'" using that(1) get [of i] by simp
    show ?thesis
    proof (cases "i' = j")
      case True
      with i x that(2) get [of i'] show ?thesis by simp
    next
      case False
      with that(2) get [of i'] have "mapGet (jobs s) i' = Some y" by simp
      from old [OF this] False i x show ?thesis by auto
    qed
  next
    case i: False
    then have x: "mapGet (jobs s) i = Some x" using that(1) get [of i] by simp
    show ?thesis
    proof (cases "i' = j")
      case True
      with that(2) get [of i'] old [OF x] i show ?thesis by simp
    next
      case False
      with that(2) get [of i'] have "mapGet (jobs s) i' = Some y" by simp
      from ord [OF x this] False i show ?thesis by simp
    qed
  qed
  ultimately show ?thesis using c unfolding seqsAgree_def by simp
qed

section \<open>A change of every job of a list\<close>

definition updJob :: "(mem_job \<Rightarrow> mem_job) \<Rightarrow> job_id \<Rightarrow> mem_store \<Rightarrow> mem_store" where
  "updJob f i s = (case mapGet (jobs s) i of None \<Rightarrow> s | Some job \<Rightarrow> putJob (f job) s)"

lemma updJobs_get:
  assumes "\<And>i job. mapGet (jobs s) i = Some job \<Longrightarrow> j_id job = i" and "\<And>job. j_id (f job) = j_id job"
    and "distinct js"
  shows "mapGet (jobs (fold (updJob f) js s)) i =
     (if i \<in> set js then map_option f (mapGet (jobs s) i) else mapGet (jobs s) i)"
  using assms(1,3)
proof (induction js arbitrary: s)
  case (Cons j js)
  have get: "mapGet (jobs (updJob f j s)) k = (if k = j then map_option f (mapGet (jobs s) k) else mapGet (jobs s) k)" for k
    using Cons.prems(1) assms(2) by (auto simp: updJob_def split: option.split)
  have "mapGet (jobs (fold (updJob f) js (updJob f j s))) i =
     (if i \<in> set js then map_option f (mapGet (jobs (updJob f j s)) i) else mapGet (jobs (updJob f j s)) i)"
    by (rule Cons.IH) (use Cons.prems assms(2) in \<open>auto simp: get split: if_splits\<close>)
  then show ?case using Cons.prems(2) by (simp add: get)
qed simp

lemma updJobs_paused [simp]: "paused (fold (updJob f) js s) = paused s"
  by (induction js arbitrary: s) (simp_all add: updJob_def split: option.split)

section \<open>What happens to one job\<close>

definition recoveredJob :: "millis \<Rightarrow> int \<Rightarrow> mem_job \<Rightarrow> mem_job" where
  "recoveredJob now m job =
     (if \<not> stalled now job then job
      else if j_cancelRequested job then
        recordAttempt ACancelled now None
          ((clearLock job)\<lparr>j_cancelRequested := False, j_state := Cancelled, j_finishedAt := Some now\<rparr>)
      else
        (let job2 = recordAttempt AStalled now None ((clearLock job)\<lparr>j_stalledCount := j_stalledCount job + 1\<rparr>)
         in if j_stalledCount job + 1 > m
            then job2\<lparr>j_state := Failed, j_finishedAt := Some now,
                   j_failedReason := Some ''job stalled more than allowable limit''\<rparr>
            else job2\<lparr>j_state := Waiting\<rparr>))"

definition recoverReport :: "millis \<Rightarrow> int \<Rightarrow> mem_store \<Rightarrow> job_id \<Rightarrow> (job_id \<times> bool) list" where
  "recoverReport now m s i =
     (case mapGet (jobs s) i of
        None \<Rightarrow> []
      | Some job \<Rightarrow> if stalled now job \<and> \<not> j_cancelRequested job then [(i, j_stalledCount job + 1 > m)] else [])"

lemma recoveredJob_same [simp]: "j_id (recoveredJob now m job) = j_id job" "m_seq (recoveredJob now m job) = m_seq job"
  "j_keep (recoveredJob now m job) = j_keep job" "j_queue (recoveredJob now m job) = j_queue job"
  by (simp_all add: recoveredJob_def Let_def)

section \<open>The in-memory driver\<close>

lemma recoverStep_effect:
  assumes "mapGet (jobs s) i = Some job" and "j_id job = i" and "j_keep job = None"
  shows "fst (recoverStep now m i (reported, s)) = reported @ recoverReport now m s i"
    and "jobs (snd (recoverStep now m i (reported, s))) =
      (if stalled now job then mapSet i (recoveredJob now m job) (jobs s) else jobs s)"
    and "paused (snd (recoverStep now m i (reported, s))) = paused s"
    and "wakeFields (snd (recoverStep now m i (reported, s))) = wakeFields s"
  using assms
  by (auto simp: recoverStep_def recoverJob_def recoverReport_def recoveredJob_def markCancelled_def stalled_def Let_def)

lemma recoverReport_cong:
  "mapGet (jobs s') i = mapGet (jobs s) i \<Longrightarrow> recoverReport now m s' i = recoverReport now m s i"
  by (simp add: recoverReport_def)

lemma recoverSteps_all:
  assumes "\<And>i job. mapGet (jobs s) i = Some job \<Longrightarrow> j_id job = i \<and> j_keep job = None" and "distinct js"
  shows "fst (fold (recoverStep now m) js (reported, s)) = reported @ concat (map (recoverReport now m s) js)
    \<and> (\<forall>k. mapGet (jobs (snd (fold (recoverStep now m) js (reported, s)))) k =
      (if k \<in> set js then map_option (recoveredJob now m) (mapGet (jobs s) k) else mapGet (jobs s) k))
    \<and> paused (snd (fold (recoverStep now m) js (reported, s))) = paused s
    \<and> wakeFields (snd (fold (recoverStep now m) js (reported, s))) = wakeFields s"
  using assms
proof (induction js arbitrary: reported s)
  case (Cons j js)
  let ?a = "recoverStep now m j (reported, s)"
  have a: "fst ?a = reported @ recoverReport now m s j \<and> paused (snd ?a) = paused s \<and> wakeFields (snd ?a) = wakeFields s
    \<and> (\<forall>k. mapGet (jobs (snd ?a)) k = (if k = j then map_option (recoveredJob now m) (mapGet (jobs s) k) else mapGet (jobs s) k))"
  proof (cases "mapGet (jobs s) j")
    case None
    then show ?thesis by (simp add: recoverStep_def recoverReport_def)
  next
    case (Some job)
    then have "j_id job = j" "j_keep job = None" using Cons.prems(1) by blast+
    note recoverStep_effect [OF Some this, of now m reported]
    with Some show ?thesis by (simp add: recoveredJob_def)
  qed
  have ok: "\<And>i job. mapGet (jobs (snd ?a)) i = Some job \<Longrightarrow> j_id job = i \<and> j_keep job = None"
    using a Cons.prems(1) by (auto split: if_splits)
  have reports: "map (recoverReport now m (snd ?a)) js = map (recoverReport now m s) js"
    using a Cons.prems(2) by (auto intro!: recoverReport_cong)
  note IH = Cons.IH [of "snd ?a" "fst ?a", OF ok, simplified]
  show ?case using IH Cons.prems(2) a reports by auto
qed simp

definition reportable :: "millis \<Rightarrow> mem_store \<Rightarrow> job_id \<Rightarrow> bool" where
  "reportable now s i =
     (case mapGet (jobs s) i of None \<Rightarrow> False | Some job \<Rightarrow> stalled now job \<and> \<not> j_cancelRequested job)"

lemma recoverReports:
  "concat (map (recoverReport now m s) js) =
     map (\<lambda>i. (i, case mapGet (jobs s) i of None \<Rightarrow> False | Some job \<Rightarrow> j_stalledCount job + 1 > m)) (filter (reportable now s) js)"
  by (induction js) (auto simp: recoverReport_def reportable_def split: option.split)

lemma recoverReports_perm:
  assumes "distinct js" and "distinct ks" and "\<And>i. reportable now s i \<Longrightarrow> i \<in> set js \<longleftrightarrow> i \<in> set ks"
  shows "mset (concat (map (recoverReport now m s) js)) = mset (concat (map (recoverReport now m s) ks))"
proof -
  have "mset (filter (reportable now s) js) = mset (filter (reportable now s) ks)"
    using assms by (subst set_eq_iff_mset_eq_distinct [symmetric]) (auto simp: distinct_filter)
  then show ?thesis by (simp only: recoverReports mset_map)
qed

section \<open>Plain jobs\<close>

definition integralBackoff :: "backoff_policy \<Rightarrow> bool" where
  "integralBackoff b \<longleftrightarrow> (case bo_factor b of None \<Rightarrow> True | Some f \<Rightarrow> rat_of_int \<lfloor>f\<rfloor> = f)"

definition plainJob :: "queue_name \<Rightarrow> mem_job \<Rightarrow> bool" where
  "plainJob q job \<longleftrightarrow> j_queue job = q \<and> j_keep job = None \<and> j_flow job = None \<and> j_dedupeKey job = None
     \<and> j_failedReason job \<noteq> Some [] \<and> (case j_backoff job of None \<Rightarrow> True | Some b \<Rightarrow> integralBackoff b)"

definition plainStore :: "queue_name \<Rightarrow> mem_store \<Rightarrow> bool" where
  "plainStore q s \<longleftrightarrow> (\<forall>i job. mapGet (jobs s) i = Some job \<longrightarrow> plainJob q job)"

definition plainRequest :: "queue_name \<Rightarrow> enqueue_request \<Rightarrow> bool" where
  "plainRequest q r \<longleftrightarrow> rq_id r \<noteq> None \<and> rq_queue r = q \<and> rq_dedupe r = None \<and> rq_keep r = None
     \<and> (case rq_backoff r of None \<Rightarrow> True | Some b \<Rightarrow> integralBackoff b)"

lemma plain_job: "plainStore q s \<Longrightarrow> mapGet (jobs s) i = Some job \<Longrightarrow> plainJob q job"
  by (simp add: plainStore_def)

lemma plain_unlimited: "plainStore q s \<Longrightarrow> unlimited s"
  by (simp add: plainStore_def unlimited_def plainJob_def)

lemma plain_not_waiting:
  assumes "plainStore q s" and "wellFormed s" and "mapGet (jobs s) i = Some job"
  shows "j_state job \<noteq> WaitingChildren"
  using wf_waits [OF assms(2,3)] plain_job [OF assms(1,3)] by (auto simp: plainJob_def waits_for_children_def)

lemma plain_clear [simp]: "plainJob q (clearLock job) = plainJob q job"
  "plainJob q (recordAttempt oc now ex job) = plainJob q job"
  by (simp_all add: plainJob_def clearLock_def recordAttempt_def)

lemma plain_update [simp]:
  "plainJob q (job\<lparr>j_state := x1\<rparr>) = plainJob q job" "plainJob q (job\<lparr>j_cancelRequested := x2\<rparr>) = plainJob q job"
  "plainJob q (job\<lparr>j_finishedAt := x3\<rparr>) = plainJob q job" "plainJob q (job\<lparr>j_exit := x4\<rparr>) = plainJob q job"
  "plainJob q (job\<lparr>j_attemptsMade := x5\<rparr>) = plainJob q job" "plainJob q (job\<lparr>j_stalledCount := x6\<rparr>) = plainJob q job"
  "plainJob q (job\<lparr>j_processedAt := x7\<rparr>) = plainJob q job" "plainJob q (job\<lparr>j_runAt := x8\<rparr>) = plainJob q job"
  "plainJob q (job\<lparr>m_seq := x9\<rparr>) = plainJob q job" "plainJob q (job\<lparr>m_lockToken := x10\<rparr>) = plainJob q job"
  "plainJob q (job\<lparr>m_lockExpiresAt := x11\<rparr>) = plainJob q job"
  by (simp_all add: plainJob_def)

lemma plain_reason [simp]: "plainJob q job \<Longrightarrow> x \<noteq> Some [] \<Longrightarrow> plainJob q (job\<lparr>j_failedReason := x\<rparr>)"
  by (simp add: plainJob_def)

lemma plain_keep: "plainJob q job \<Longrightarrow> j_keep job = None"
  by (simp add: plainJob_def)

lemma plain_put: "plainStore q s \<Longrightarrow> plainJob q job' \<Longrightarrow> jobs s' = mapSet i job' (jobs s) \<Longrightarrow> plainStore q s'"
  by (simp add: plainStore_def)

lemma plain_same: "plainStore q s \<Longrightarrow> jobs s' = jobs s \<Longrightarrow> plainStore q s'"
  by (simp add: plainStore_def)

lemma plain_empty: "plainStore q emptyStore"
  by (simp add: plainStore_def emptyStore_def)

lemma plain_new: "plainRequest q r \<Longrightarrow> plainJob q (newJob i r now sq)"
  by (simp add: plainRequest_def plainJob_def newJob_def)

lemma plain_enqueue:
  assumes "plainStore q s" and "plainRequest q r"
  shows "plainStore q (snd (enqueueOne gen now r s))"
proof -
  obtain i where i: "rq_id r = Some i" "rq_dedupe r = None" using assms(2) by (auto simp: plainRequest_def)
  show ?thesis
  proof (cases "mapGet (jobs s) i")
    case None
    then have "jobs (snd (enqueueOne gen now r s)) = mapSet i (newJob i r now (seqNo s + 1)) (jobs s)"
      using i by (simp add: enqueueOne_def enqueueDecide_def mapHas_key enqueueInsert_def chooseId_def registerJob_def
          mapGet_None_iff insertJobRecord_def Let_def newJob_def)
    with plain_put [OF assms(1) plain_new [OF assms(2)]] show ?thesis .
  next
    case (Some job)
    then show ?thesis using i assms(1) by (simp add: enqueueOne_def enqueueDecide_def)
  qed
qed

lemma plain_promoteDue: "plainStore q s \<Longrightarrow> plainStore q (promoteDue now s)"
  by (auto simp: plainStore_def promoteJob_def plainJob_def)

lemma plain_claim:
  assumes "plainStore q s" and "wellFormed s"
  shows "plainStore q (snd (claim now opts s))"
  using assms(2)
proof (cases rule: claim_cases [where now = now and opts = opts])
  case (empty n)
  then show ?thesis using plain_promoteDue [OF assms(1)] by simp
next
  case (claimed j)
  have "plainJob q (activate opts now (promoteJob now j))"
    using plain_job [OF assms(1) claimed(2)] by (simp add: plainJob_def activate_def promoteJob_def)
  then show ?thesis
    using plain_put [OF plain_promoteDue [OF assms(1)], where i = "j_id (activate opts now (promoteJob now j))"
        and s' = "putJob (activate opts now (promoteJob now j)) (promoteDue now s)"] claimed(1) by simp
qed

lemma markCancelled_jobs:
  "j_keep job = None \<Longrightarrow> j_state job \<noteq> WaitingChildren \<Longrightarrow> jobs (markCancelled job now s) =
     mapSet (j_id job) (recordAttempt ACancelled now None
        ((clearLock job)\<lparr>j_cancelRequested := False, j_state := Cancelled, j_finishedAt := Some now\<rparr>)) (jobs s)"
  by (simp add: markCancelled_def Let_def)

lemma plain_cancelled:
  "plainStore q s \<Longrightarrow> plainJob q job \<Longrightarrow> j_state job \<noteq> WaitingChildren \<Longrightarrow> plainStore q (markCancelled job now s)"
  by (rule plain_put [OF _ _ markCancelled_jobs]) (simp_all add: plain_keep)

lemma plain_finish:
  "plainStore q s \<Longrightarrow> plainJob q job \<Longrightarrow> plainStore q (finishJob st oc t ex b now job s)"
  by (simp add: finishJob_def Let_def plain_keep plainStore_def)

lemma plain_ack:
  assumes "plainStore q s" and "\<not> isFanOut outcome"
  shows "plainStore q (snd (ack now i token outcome s))"
proof -
  have retry: "plainStore q (ackRetry now d ex job s)" if "plainJob q job" "j_state job = Active" for d ex job
    using plain_cancelled [OF assms(1) that(1)] that assms(1)
    by (simp add: ackRetry_def Let_def plainStore_def)
  show ?thesis
    using assms(2) by (cases outcome)
      (auto simp: ack_def applyOutcome_def isFanOut_def Let_def assms(1) split: option.split dest!: plain_job [OF assms(1)]
        intro!: plain_finish [OF assms(1)] retry)
qed

lemma plain_release:
  assumes "plainStore q s"
  shows "plainStore q (snd (release now i token s))"
proof (cases "mapGet (jobs s) i")
  case (Some job)
  have p: "plainJob q job" by (rule plain_job [OF assms Some])
  have "plainStore q (signalWake (Some (j_queue job)) (putJob ((clearLock job)\<lparr>j_state := Waiting\<rparr>) s))"
    by (rule plain_put [OF assms, where i = "j_id job" and job' = "(clearLock job)\<lparr>j_state := Waiting\<rparr>"]) (use p in simp_all)
  then show ?thesis using Some assms plain_cancelled [OF assms p] by (simp add: release_def)
qed (simp add: release_def assms)

lemma plain_extend: "plainStore q s \<Longrightarrow> plainStore q (snd (extendLocks now locks d s))"
proof (induction now locks d s rule: extendLocks.induct)
  case (2 now i token locks d s)
  have "plainStore q (putJob (job\<lparr>m_lockExpiresAt := e\<rparr>) s)" if "holdsLock s i token = Some job" for job e
    by (rule plain_put [OF 2(4), where i = "j_id job" and job' = "job\<lparr>m_lockExpiresAt := e\<rparr>"])
      (use that plain_job [OF 2(4), of i] in \<open>auto simp: holdsLock_def split: option.splits if_splits\<close>)
  with 2 show ?case by (auto simp: split_beta Let_def split: option.split)
qed simp

lemma plain_recover:
  assumes "plainStore q s" and "wellFormed s"
  shows "plainStore q (snd (recoverStalled now m s))"
proof -
  let ?s = "snd (fold (recoverStep now m) (mapKeys (jobs s)) ([], s))"
  have ok: "\<And>i job. mapGet (jobs s) i = Some job \<Longrightarrow> j_id job = i \<and> j_keep job = None"
    using wf_id [OF assms(2)] unlimited_job [OF plain_unlimited [OF assms(1)]] by blast
  have "plainJob q (recoveredJob now m job)" if "plainJob q job" for job
    using that by (simp add: recoveredJob_def Let_def)
  then have "plainStore q ?s"
    using recoverSteps_all [OF ok wf_distinct [OF assms(2)], where now = now and m = m and reported = "[]"] assms(1)
    by (auto simp: plainStore_def)
  then show ?thesis by (rule plain_same) (simp add: recoverStalled_def split_beta)
qed

lemma plain_cancel:
  assumes "plainStore q s" and "wellFormed s"
  shows "plainStore q (snd (cancelJob now i s))"
proof (cases "mapGet (jobs s) i")
  case (Some job)
  have p: "plainJob q job" by (rule plain_job [OF assms(1) Some])
  have "plainStore q (putJob (job\<lparr>j_cancelRequested := True\<rparr>) s)"
    by (rule plain_put [OF assms(1), where i = "j_id job" and job' = "job\<lparr>j_cancelRequested := True\<rparr>"])
      (use p in simp_all)
  then show ?thesis
    using Some assms(1) plain_cancelled [OF assms(1) p] plain_not_waiting [OF assms Some]
    by (simp add: cancelJob_def split: job_state.split)
qed (simp add: cancelJob_def assms(1))

lemma plain_retry: "plainStore q s \<Longrightarrow> plainStore q (snd (retry now i s))"
  by (auto simp: retry_def Let_def plainStore_def split: option.split)

lemma plain_promote: "plainStore q s \<Longrightarrow> plainStore q (snd (promote now i s))"
  by (auto simp: promote_def plainStore_def split: option.split)

lemma plain_remove: "plainStore q s \<Longrightarrow> plainStore q (snd (remove i s))"
  by (auto simp: remove_def plainStore_def mapGet_delete split: option.split)

section \<open>Calls and answers\<close>

datatype verb =
    VEnqueue enqueue_request
  | VClaim claim_options
  | VAck job_id string ack_outcome
  | VRelease job_id string
  | VExtendLocks "(job_id \<times> string) list" int
  | VRecoverStalled int
  | VAwaitWake "queue_name list" nat
  | VCancelWait nat
  | VCancel job_id
  | VRetry job_id
  | VPromote job_id
  | VRemove job_id
  | VPause queue_name
  | VResume queue_name
  | VGetJob job_id
  | VGetAttempts job_id

text \<open>The order of a recovery report is not part of the interface: it is a multiset here.\<close>

datatype answer =
    AEnqueue "store_error + enqueue_result"
  | AClaim claim_result
  | ASettled "store_error + unit"
  | ALocks extend_locks_result
  | ARecovered "(job_id \<times> bool) multiset"
  | AWaiter "nat option"
  | AFlag bool
  | ADone
  | AJob "job_record option"
  | AAttempts "attempt_record list"

fun memVerb :: "id_generator option \<Rightarrow> millis \<Rightarrow> verb \<Rightarrow> mem_store \<Rightarrow> answer \<times> mem_store" where
  "memVerb gen now (VEnqueue r) s = map_prod AEnqueue id (enqueueOne gen now r s)"
| "memVerb gen now (VClaim opts) s = map_prod AClaim id (claim now opts s)"
| "memVerb gen now (VAck i token outcome) s = map_prod ASettled id (ack now i token outcome s)"
| "memVerb gen now (VRelease i token) s = map_prod ASettled id (release now i token s)"
| "memVerb gen now (VExtendLocks locks d) s = map_prod ALocks id (extendLocks now locks d s)"
| "memVerb gen now (VRecoverStalled m) s = map_prod (\<lambda>xs. ARecovered (mset xs)) id (recoverStalled now m s)"
| "memVerb gen now (VAwaitWake qs token) s = map_prod AWaiter id (awaitWake qs token s)"
| "memVerb gen now (VCancelWait w) s = (ADone, cancelWait w s)"
| "memVerb gen now (VCancel i) s = map_prod ASettled id (cancelJob now i s)"
| "memVerb gen now (VRetry i) s = map_prod ASettled id (retry now i s)"
| "memVerb gen now (VPromote i) s = map_prod ASettled id (promote now i s)"
| "memVerb gen now (VRemove i) s = map_prod AFlag id (remove i s)"
| "memVerb gen now (VPause q) s = (ADone, pause q s)"
| "memVerb gen now (VResume q) s = (ADone, resume q s)"
| "memVerb gen now (VGetJob i) s = (AJob (getJob i s), s)"
| "memVerb gen now (VGetAttempts i) s = (AAttempts (getAttempts i s), s)"

fun memRun :: "id_generator option \<Rightarrow> (millis \<times> verb) list \<Rightarrow> mem_store \<Rightarrow> answer list \<times> mem_store" where
  "memRun gen [] s = ([], s)"
| "memRun gen ((now, v) # calls) s =
     (case memVerb gen now v s of (a, s') \<Rightarrow> map_prod (\<lambda>as. a # as) id (memRun gen calls s'))"

definition plainVerb :: "queue_name \<Rightarrow> verb \<Rightarrow> bool" where
  "plainVerb q v \<longleftrightarrow>
     (case v of
        VEnqueue r \<Rightarrow> plainRequest q r
      | VClaim opts \<Rightarrow> co_queue opts = q
      | VAck _ _ outcome \<Rightarrow> \<not> isFanOut outcome
      | _ \<Rightarrow> True)"

section \<open>Runs of another driver\<close>

text \<open>A run of a driver whose calls may fail to return.\<close>

fun runVerbs ::
  "(millis \<Rightarrow> verb \<Rightarrow> 's \<Rightarrow> (answer \<times> 's) option) \<Rightarrow> (millis \<times> verb) list \<Rightarrow> 's \<Rightarrow> (answer list \<times> 's) option" where
  "runVerbs call [] st = Some ([], st)"
| "runVerbs call ((now, v) # calls) st =
     (case call now v st of
        None \<Rightarrow> None
      | Some (a, st') \<Rightarrow> map_option (map_prod (\<lambda>as. a # as) id) (runVerbs call calls st'))"

lemma answered [simp]: "(\<exists>y. map_prod f id x = (b, y) \<and> P y) \<longleftrightarrow> f (fst x) = b \<and> P (snd x)"
  by (cases x) auto

text \<open>Calls that are admissible one after the other, in a context each call moves on.\<close>

fun okRun :: "('c \<Rightarrow> verb \<Rightarrow> bool) \<Rightarrow> ('c \<Rightarrow> verb \<Rightarrow> 'c) \<Rightarrow> 'c \<Rightarrow> (millis \<times> verb) list \<Rightarrow> bool" where
  "okRun ok advance c [] \<longleftrightarrow> True"
| "okRun ok advance c ((now, v) # calls) \<longleftrightarrow> ok c v \<and> okRun ok advance (advance c v) calls"

fun endOf :: "('c \<Rightarrow> verb \<Rightarrow> 'c) \<Rightarrow> 'c \<Rightarrow> (millis \<times> verb) list \<Rightarrow> 'c" where
  "endOf advance c [] = c"
| "endOf advance c ((now, v) # calls) = endOf advance (advance c v) calls"

locale refines_memory =
  fixes call :: "millis \<Rightarrow> verb \<Rightarrow> 's \<Rightarrow> (answer \<times> 's) option"
    and gen :: "id_generator option"
    and inv :: "'c \<Rightarrow> 's \<Rightarrow> mem_store \<Rightarrow> bool"
    and ok :: "'c \<Rightarrow> verb \<Rightarrow> bool"
    and advance :: "'c \<Rightarrow> verb \<Rightarrow> 'c"
  assumes one_call: "inv c st s \<Longrightarrow> ok c v \<Longrightarrow>
    \<exists>st'. call now v st = Some (fst (memVerb gen now v s), st') \<and> inv (advance c v) st' (snd (memVerb gen now v s))"
begin

lemma run_refines:
  "inv c st s \<Longrightarrow> okRun ok advance c calls \<Longrightarrow>
    \<exists>st'. runVerbs call calls st = Some (fst (memRun gen calls s), st') \<and> inv (endOf advance c calls) st' (snd (memRun gen calls s))"
proof (induction calls arbitrary: st s c)
  case (Cons entry calls)
  obtain now v where entry: "entry = (now, v)" by force
  from one_call [OF Cons.prems(1), of v now] Cons.prems(2) obtain st' where st':
    "call now v st = Some (fst (memVerb gen now v s), st')" "inv (advance c v) st' (snd (memVerb gen now v s))"
    by (auto simp: entry)
  from Cons.IH [OF st'(2)] Cons.prems(2) obtain st'' where
    "runVerbs call calls st' = Some (fst (memRun gen calls (snd (memVerb gen now v s))), st'')"
    "inv (endOf advance (advance c v) calls) st'' (snd (memRun gen calls (snd (memVerb gen now v s))))"
    by (auto simp: entry)
  with st'(1) show ?case by (simp add: entry split_beta)
qed simp

end

section \<open>A sample run\<close>

definition demoCalls :: "(millis \<times> verb) list" where
  "demoCalls =
     [(10, VEnqueue (aRequest\<lparr>rq_id := Some ''a''\<rparr>)), (11, VEnqueue (aRequest\<lparr>rq_id := Some ''b''\<rparr>)),
      (12, VClaim (someOptions\<lparr>co_token := ''t1''\<rparr>)), (13, VPause ''q''), (14, VClaim (someOptions\<lparr>co_token := ''t2''\<rparr>)),
      (15, VAck ''a'' ''t1'' (Retry 5 None)), (16, VResume ''q''), (17, VClaim (someOptions\<lparr>co_token := ''t2''\<rparr>)),
      (18, VRecoverStalled 1), (19, VAck ''b'' ''t1'' (Complete None)), (25, VGetAttempts ''a'')]"

text \<open>What a witness reads off an answer: the claimed job, if one was.\<close>

definition claimedId :: "answer \<Rightarrow> job_id option" where
  "claimedId a = (case a of AClaim (Claimed job) \<Rightarrow> Some (j_id job) | _ \<Rightarrow> None)"

lemma demo_claims: "map claimedId (fst (memRun None demoCalls emptyStore)) =
    [None, None, Some ''a'', None, None, None, None, Some ''b'', None, None, None]"
  by code_simp

lemma demo_last: "drop 8 (fst (memRun None demoCalls emptyStore)) =
    [ARecovered {#}, ASettled (Inl (LockLostError ''b'')),
     AAttempts [\<lparr>at_attempt = 1, at_startedAt = Some 12, at_finishedAt = 15, at_outcome = ARetried, at_exit = None\<rparr>]]"
  by code_simp

end
