(* ===== verification/PgAgree.thy ===== *)
theory PgAgree
  imports PgFlow Verbs
begin

text \<open>
  The simulation relation between the Postgres driver and the in-memory driver, on plain jobs. The rows
  of \<open>jobs\<close> read as the in-memory jobs, in the same order and under the same locks; the ledger of a job
  reads as its attempts, and an absent job has none; the sequence orders the rows as the in-memory
  sequence numbers do; the paused queues are the same; the outboxes hold the same reports. What changes
  one row keeps the relation (\<open>agrees_change\<close>).
\<close>

section \<open>The relation\<close>

definition ledgerOf :: "pg_db \<Rightarrow> job_id \<Rightarrow> pg_attempt list" where
  "ledgerOf db i = filter (\<lambda>a. pa_jobId a = i) (db_attempts db)"

definition rowAgrees :: "pg_job \<Rightarrow> mem_job \<Rightarrow> bool" where
  "rowAgrees row job \<longleftrightarrow> pgToRecord row = snapshot job \<and> pj_lockToken row = m_lockToken job
     \<and> pj_lockExpiresAt row = m_lockExpiresAt job \<and> pj_flowPending row = None
     \<and> (pj_failedReason row \<noteq> None \<longrightarrow> pj_state row = Failed)"

definition entryAgrees :: "pg_job option \<Rightarrow> pg_attempt list \<Rightarrow> mem_job option \<Rightarrow> bool" where
  "entryAgrees row ledger job =
     (case (row, job) of
        (None, None) \<Rightarrow> ledger = []
      | (Some r, Some j) \<Rightarrow> rowAgrees r j \<and> map pgToAttempt ledger = m_attempts j
      | _ \<Rightarrow> False)"

definition seqIn :: "pg_db \<Rightarrow> job_id \<Rightarrow> nat" where
  "seqIn db i = (case mapGet (db_jobs db) i of None \<Rightarrow> 0 | Some row \<Rightarrow> pj_seq row)"

definition sentAs :: "pg_outbox \<Rightarrow> outbox_entry \<Rightarrow> bool" where
  "sentAs a e \<longleftrightarrow> po_flowName a = ob_flowName e \<and> po_parentStoreKey a = ob_parentStoreKey e \<and> po_report a = ob_report e"

definition pgAgrees :: "pg_db \<Rightarrow> mem_store \<Rightarrow> bool" where
  "pgAgrees db s \<longleftrightarrow> mapKeys (db_jobs db) = mapKeys (jobs s)
     \<and> (\<forall>i. entryAgrees (mapGet (db_jobs db) i) (ledgerOf db i) (mapGet (jobs s) i))
     \<and> seqsAgree (int (db_seq db)) (seqIn db) s
     \<and> (\<forall>q. mapGet (db_queues db) q = Some True \<longleftrightarrow> q \<in> set (paused s))
     \<and> db_children db = [] \<and> list_all2 sentAs (db_outbox db) (outbox s)"

definition pgWakeOf :: "mem_store \<Rightarrow> pg_wake" where
  "pgWakeOf s = \<lparr>pw_version = wakeVersion s, pw_lastBroadcast = lastBroadcast s, pw_lastWake = lastWake s,
     pw_waiters = waiters s, pw_resolved = resolved s, pw_nextWaiter = nextWaiter s\<rparr>"

definition pgSimulates :: "pg_store \<Rightarrow> mem_store \<Rightarrow> bool" where
  "pgSimulates st s \<longleftrightarrow> pgAgrees (ps_db st) s \<and> ps_wake st = pgWakeOf s"

lemma rowAgrees_iff:
  "rowAgrees row job \<longleftrightarrow> pj_id row = j_id job \<and> pj_name row = j_name job \<and> pj_queue row = j_queue job
     \<and> pj_payload row = j_payload job \<and> pj_metadata row = j_metadata job \<and> pj_state row = j_state job
     \<and> pj_priority row = j_priority job \<and> pj_attemptsMax row = j_attemptsMax job
     \<and> pj_attemptsMade row = j_attemptsMade job \<and> pj_stalledCount row = j_stalledCount job
     \<and> pj_backoff row = j_backoff job \<and> pj_keep row = j_keep job \<and> pj_timeoutMs row = j_timeoutMs job
     \<and> pj_cancelRequested row = j_cancelRequested job \<and> pj_dedupeKey row = j_dedupeKey job
     \<and> pj_trace row = j_trace job \<and> pj_parent row = j_parent job \<and> j_flow job = None
     \<and> pj_runAt row = j_runAt job \<and> pj_enqueuedAt row = j_enqueuedAt job \<and> pj_processedAt row = j_processedAt job
     \<and> pj_finishedAt row = j_finishedAt job \<and> nullish (pj_exit row) = j_exit job
     \<and> pj_failedReason row = j_failedReason job
     \<and> pj_lockToken row = m_lockToken job \<and> pj_lockExpiresAt row = m_lockExpiresAt job \<and> pj_flowPending row = None
     \<and> (j_failedReason job \<noteq> None \<longrightarrow> j_state job = Failed)"
  by (auto simp: rowAgrees_def pgToRecord_def snapshot_def)

section \<open>The wake-up registry\<close>

lemma pgWakeOf_fields: "wakeFields s' = wakeFields s \<Longrightarrow> pgWakeOf s' = pgWakeOf s"
  by (simp add: pgWakeOf_def wakeFields_def)

lemma pgWakeOf_signal [simp]: "pgSignalWake q (pgWakeOf s) = pgWakeOf (signalWake q s)"
  by (cases q) (simp_all add: pgWakeOf_def signalWake_def pgSignalWake_def Let_def)

lemma pgWakeOf_same [simp]:
  "pgWakeOf (s\<lparr>jobs := x\<rparr>) = pgWakeOf s" "pgWakeOf (s\<lparr>seqNo := n\<rparr>) = pgWakeOf s"
  "pgWakeOf (s\<lparr>flowChildren := fc\<rparr>) = pgWakeOf s" "pgWakeOf (s\<lparr>paused := pd\<rparr>) = pgWakeOf s"
  by (simp_all add: pgWakeOf_def)

lemma pgWakeOf_tail [simp]:
  "pgWakeOf (putJob job s) = pgWakeOf s" "pgWakeOf (appendOutbox job t s) = pgWakeOf s"
  "pgWakeOf (releaseDedupe job now s) = pgWakeOf s"
  by (rule pgWakeOf_fields, simp)+

lemma outbox_same [simp]:
  "outbox (putJob job s) = outbox s" "outbox (signalWake q s) = outbox s" "outbox (releaseDedupe job now s) = outbox s"
  by (auto simp: putJob_def signalWake_def releaseDedupe_def Let_def split: option.splits)

lemma pgSimulates_wake: "pgSimulates st s \<Longrightarrow> pgSimulates (pgWakeUp q st) (signalWake q s)"
  by (auto simp: pgSimulates_def pgWakeUp_def pgAgrees_def seqsAgree_def)

lemma pgWakeUp_db [simp]: "ps_db (pgWakeUp q st) = ps_db st"
  by (simp add: pgWakeUp_def)

section \<open>Reading the relation\<close>

lemma agrees_entry: "pgAgrees db s \<Longrightarrow> entryAgrees (mapGet (db_jobs db) i) (ledgerOf db i) (mapGet (jobs s) i)"
  by (simp add: pgAgrees_def)

lemma agrees_absent: "pgAgrees db s \<Longrightarrow> mapGet (db_jobs db) i = None \<longleftrightarrow> mapGet (jobs s) i = None"
  by (drule agrees_entry [of db s i]) (auto simp: entryAgrees_def split: option.splits)

lemma agrees_job:
  assumes "pgAgrees db s" and "mapGet (jobs s) i = Some job"
  obtains row where "mapGet (db_jobs db) i = Some row" and "rowAgrees row job"
    and "map pgToAttempt (ledgerOf db i) = m_attempts job"
  using agrees_entry [OF assms(1), of i] assms(2) that by (auto simp: entryAgrees_def split: option.splits)

lemma agrees_row:
  assumes "pgAgrees db s" and "mapGet (db_jobs db) i = Some row"
  obtains job where "mapGet (jobs s) i = Some job" and "rowAgrees row job"
    and "map pgToAttempt (ledgerOf db i) = m_attempts job"
  using agrees_entry [OF assms(1), of i] assms(2) that by (auto simp: entryAgrees_def split: option.splits)

lemma agrees_distinct: "pgAgrees db s \<Longrightarrow> wellFormed s \<Longrightarrow> distinct (mapKeys (db_jobs db))"
  by (simp add: pgAgrees_def wf_distinct)

section \<open>The ledger and the outbox\<close>

lemma ledger_insert:
  "ledgerOf (insertAttempt i oc sta now ex db) k = ledgerOf db k @ (if k = i
     then [\<lparr>pa_jobId = i, pa_attempt = fold max (map pa_attempt (ledgerOf db i)) 0 + 1, pa_outcome = oc,
            pa_startedAt = sta, pa_finishedAt = now, pa_exit = ex\<rparr>] else [])"
  by (simp add: insertAttempt_def ledgerOf_def)

lemma insertAttempt_same [simp]:
  "db_jobs (insertAttempt i oc sta now ex db) = db_jobs db" "db_queues (insertAttempt i oc sta now ex db) = db_queues db"
  "db_children (insertAttempt i oc sta now ex db) = db_children db" "db_seq (insertAttempt i oc sta now ex db) = db_seq db"
  "db_outbox (insertAttempt i oc sta now ex db) = db_outbox db" "db_dedupe (insertAttempt i oc sta now ex db) = db_dedupe db"
  by (simp_all add: insertAttempt_def)

lemma max_numbered: "fold max [1..<Suc n] 0 = n"
  by (induction n) simp_all

lemma ledger_records:
  assumes "map pgToAttempt (ledgerOf db i) = m_attempts job" and "numbered (m_attempts job)"
    and "sta = j_processedAt job" and "ex \<noteq> Some JNull"
  shows "map pgToAttempt (ledgerOf (insertAttempt i oc sta now ex db) i) = m_attempts (recordAttempt oc now ex job)"
proof -
  have "map pa_attempt (ledgerOf db i) = map at_attempt (map pgToAttempt (ledgerOf db i))"
    by (simp add: pgToAttempt_def)
  then have "map pa_attempt (ledgerOf db i) = [1..<Suc (length (m_attempts job))]"
    using assms(1,2) by (simp add: numbered_def)
  then have "fold max (map pa_attempt (ledgerOf db i)) 0 = length (m_attempts job)" by (simp only: max_numbered)
  then show ?thesis using assms by (simp add: ledger_insert recordAttempt_def pgToAttempt_def nullish_def)
qed

lemma ledger_same [simp]:
  "ledgerOf (db\<lparr>db_jobs := x\<rparr>) i = ledgerOf db i" "ledgerOf (db\<lparr>db_seq := n\<rparr>) i = ledgerOf db i"
  "ledgerOf (db\<lparr>db_queues := y\<rparr>) i = ledgerOf db i" "ledgerOf (pgAppendOutbox p oc ex fr db) i = ledgerOf db i"
  by (simp_all add: ledgerOf_def pgAppendOutbox_def split: option.split)

lemma pgAppendOutbox_same [simp]:
  "db_jobs (pgAppendOutbox p oc ex fr db) = db_jobs db" "db_queues (pgAppendOutbox p oc ex fr db) = db_queues db"
  "db_children (pgAppendOutbox p oc ex fr db) = db_children db" "db_seq (pgAppendOutbox p oc ex fr db) = db_seq db"
  by (simp_all add: pgAppendOutbox_def split: option.split)

lemma outbox_appends:
  "list_all2 sentAs (db_outbox db) (outbox s) \<Longrightarrow>
    list_all2 sentAs (db_outbox (pgAppendOutbox (j_parent job) t (j_exit job) (j_failedReason job) db)) (outbox (appendOutbox job t s))"
  by (auto simp: pgAppendOutbox_def appendOutbox_def sentAs_def Let_def list_all2_appendI split: option.split)

section \<open>One row changes\<close>

lemma agrees_change:
  assumes ag: "pgAgrees db s" and wf: "wellFormed s" and old: "mapGet (jobs s) j = Some job"
    and rowJ: "rowAgrees row' job'" and led: "map pgToAttempt (ledgerOf db' j) = m_attempts job'"
    and dbj: "db_jobs db' = mapSet j row' (db_jobs db)" and sj: "jobs s' = mapSet j job' (jobs s)"
    and others: "\<And>i. i \<noteq> j \<Longrightarrow> ledgerOf db' i = ledgerOf db i"
    and same: "db_queues db' = db_queues db" "paused s' = paused s" "db_children db' = db_children db"
    and sent: "list_all2 sentAs (db_outbox db') (outbox s')"
    and sq: "pj_seq row' = seqIn db j \<and> m_seq job' = m_seq job \<and> db_seq db' = db_seq db
      \<or> pj_seq row' = db_seq db + 1 \<and> m_seq job' = seqNo s + 1 \<and> db_seq db' = db_seq db + 1"
  shows "pgAgrees db' s'"
proof -
  have has: "mapHas (db_jobs db) j" and has': "mapHas (jobs s) j" using agrees_absent [OF ag, of j] old by auto
  have keys: "mapKeys (db_jobs db') = mapKeys (jobs s')"
    using ag unfolding dbj sj mapKeys_set_old [OF has] mapKeys_set_old [OF has'] by (simp add: pgAgrees_def)
  have ent: "entryAgrees (mapGet (db_jobs db') i) (ledgerOf db' i) (mapGet (jobs s') i)" for i
    using agrees_entry [OF ag, of i] rowJ led others [of i] by (cases "i = j") (simp_all add: dbj sj entryAgrees_def)
  have ns: "seqIn db' = (seqIn db)(j := pj_seq row')" by (simp add: seqIn_def dbj fun_eq_iff)
  have sa: "seqsAgree (int (db_seq db)) (seqIn db) s" using ag by (simp add: pgAgrees_def)
  have "seqsAgree (int (db_seq db')) (seqIn db') s'"
    using sq
  proof
    assume kept: "pj_seq row' = seqIn db j \<and> m_seq job' = m_seq job \<and> db_seq db' = db_seq db"
    then have "seqIn db' = seqIn db" by (simp add: ns)
    with sa kept old show ?thesis by (auto simp: seqsAgree_def sj)
  next
    assume fresh: "pj_seq row' = db_seq db + 1 \<and> m_seq job' = seqNo s + 1 \<and> db_seq db' = db_seq db + 1"
    then have "seqIn db' = (seqIn db)(j := nat (int (db_seq db) + 1))" "int (db_seq db') = int (db_seq db) + 1"
      by (simp_all add: ns nat_add_distrib)
    moreover have "m_seq job' = seqNo s + 1" using fresh by simp
    ultimately show ?thesis using seqsAgree_fresh [OF sa wf sj] by (simp only:)
  qed
  then show ?thesis using keys ent ag same sent by (simp add: pgAgrees_def)
qed

lemma agrees_remove:
  assumes ag: "pgAgrees db s" and dbj: "db_jobs db' = mapDelete j (db_jobs db)" and sj: "jobs s' = mapDelete j (jobs s)"
    and gone: "ledgerOf db' j = []" and others: "\<And>i. i \<noteq> j \<Longrightarrow> ledgerOf db' i = ledgerOf db i"
    and same: "db_queues db' = db_queues db" "paused s' = paused s" "db_children db' = []" "db_seq db' = db_seq db"
    and sent: "list_all2 sentAs (db_outbox db') (outbox s')"
  shows "pgAgrees db' s'"
proof -
  have del: "mapKeys (mapDelete j m) = filter (\<lambda>k. k \<noteq> j) (mapKeys m)" for m :: "(job_id \<times> 'a) list"
    by (simp add: mapDelete_filter filter_map comp_def)
  have "entryAgrees (mapGet (db_jobs db') i) (ledgerOf db' i) (mapGet (jobs s') i)" for i
    using agrees_entry [OF ag, of i] gone others [of i]
    by (cases "i = j") (simp_all add: dbj sj map_simps entryAgrees_def)
  moreover have "seqsAgree (int (db_seq db')) (seqIn db') s'"
    using ag same(4) by (auto simp: pgAgrees_def seqsAgree_def sj dbj seqIn_def map_simps split: if_splits)
  ultimately show ?thesis using ag same sent by (simp add: pgAgrees_def dbj sj del)
qed

lemma agrees_insert:
  assumes ag: "pgAgrees db s" and wf: "wellFormed s" and new: "mapGet (jobs s) j = None"
    and rowJ: "rowAgrees row job" and led: "m_attempts job = []"
    and dbj: "db_jobs db' = mapSet j row (db_jobs db)" and sj: "jobs s' = mapSet j job (jobs s)"
    and others: "db_attempts db' = db_attempts db"
    and same: "db_queues db' = db_queues db" "paused s' = paused s" "db_children db' = db_children db"
      "db_outbox db' = db_outbox db" "outbox s' = outbox s"
    and sq: "pj_seq row = db_seq db + 1" "m_seq job = seqNo s + 1" "db_seq db' = db_seq db + 1"
  shows "pgAgrees db' s'"
proof -
  have newR: "mapGet (db_jobs db) j = None" using agrees_absent [OF ag] new by simp
  have led': "ledgerOf db' i = ledgerOf db i" for i using others by (simp add: ledgerOf_def)
  have none: "ledgerOf db j = []" using agrees_entry [OF ag, of j] new newR by (simp add: entryAgrees_def)
  have "entryAgrees (mapGet (db_jobs db') i) (ledgerOf db' i) (mapGet (jobs s') i)" for i
    using agrees_entry [OF ag, of i] rowJ led none by (cases "i = j") (simp_all add: dbj sj entryAgrees_def led')
  moreover have "seqIn db' = (seqIn db)(j := nat (int (db_seq db) + 1))" "int (db_seq db') = int (db_seq db) + 1"
    using sq by (simp_all add: seqIn_def dbj fun_eq_iff nat_add_distrib)
  then have "seqsAgree (int (db_seq db')) (seqIn db') s'"
    using seqsAgree_fresh [OF _ wf sj sq(2), of "int (db_seq db)" "seqIn db"] ag by (simp only: pgAgrees_def)
  ultimately show ?thesis using ag same by (simp add: pgAgrees_def dbj sj mapSet_new [OF new] mapSet_new [OF newR])
qed

text \<open>A job reaches a terminal state: its ledger entry and its report to the flow above it.\<close>

lemma agrees_settle:
  assumes ag: "pgAgrees db s" and wf: "wellFormed s" and old: "mapGet (jobs s) j = Some job"
    and rowJ: "rowAgrees row' job1" and id: "j_id job1 = j" and ex: "ex \<noteq> Some JNull" and key: "j_dedupeKey job1 = None"
    and seqs: "pj_seq row' = seqIn db j" "m_seq job1 = m_seq job"
    and kept: "m_attempts job1 = m_attempts job"
  shows "pgAgrees (settleTerminal row' oc t ex now (db\<lparr>db_jobs := mapSet j row' (db_jobs db)\<rparr>))
     (releaseDedupe (recordAttempt oc now ex job1) now (appendOutbox (recordAttempt oc now ex job1) t
        (putJob (recordAttempt oc now ex job1) s)))"
    (is "pgAgrees ?db ?s")
proof -
  let ?job = "recordAttempt oc now ex job1"
  have f: "pj_id row' = j" "pj_dedupeKey row' = None" "pj_processedAt row' = j_processedAt job1"
    "pj_parent row' = j_parent ?job" "nullish (pj_exit row') = j_exit ?job" "pj_failedReason row' = j_failedReason ?job"
    "j_id ?job = j" "m_seq ?job = m_seq job1"
    using rowJ id key by (simp_all add: rowAgrees_iff recordAttempt_def)
  from agrees_job [OF ag old] have "map pgToAttempt (ledgerOf db j) = m_attempts job1" using kept by auto
  moreover have "numbered (m_attempts job1)" using wf_job [OF wf old] kept by (simp add: job_ok_def)
  ultimately have led: "map pgToAttempt (ledgerOf ?db j) = m_attempts ?job"
    using ledger_records [of "db\<lparr>db_jobs := mapSet j row' (db_jobs db)\<rparr>" j job1] ex
    by (simp add: settleTerminal_def Let_def f pgReleaseDedupe_def)
  let ?db1 = "insertAttempt j oc (j_processedAt job1) now ex (db\<lparr>db_jobs := mapSet j row' (db_jobs db)\<rparr>)"
  have "list_all2 sentAs (db_outbox ?db1) (outbox (putJob ?job s))" using ag by (simp add: pgAgrees_def)
  from outbox_appends [OF this, of ?job t] have "list_all2 sentAs (db_outbox ?db) (outbox ?s)"
    by (simp add: settleTerminal_def Let_def f pgReleaseDedupe_def)
  moreover have "rowAgrees row' ?job" using rowJ by (simp add: rowAgrees_iff recordAttempt_def)
  ultimately show ?thesis
    by (intro agrees_change [OF ag wf old _ led])
      (use seqs in \<open>simp_all add: settleTerminal_def Let_def f pgReleaseDedupe_def ledger_insert id\<close>)
qed

end
