(* ===== verification/PgVerbs.thy ===== *)
theory PgVerbs
  imports PgAgree
begin

text \<open>
  The verbs of the Postgres driver on plain jobs, one lemma per verb: from stores that agree, the verb
  returns what the in-memory driver returns and leaves stores that agree.
\<close>

section \<open>Transactions\<close>

lemma rollback_same [simp]: "rollback st st = st"
  by (simp add: rollback_def)

lemma transact_ok: "body st = (Inr a, st') \<Longrightarrow> transact body st = (Inr a, st')"
  by (simp add: transact_def)

lemma transact_error: "body st = (Inl e, st) \<Longrightarrow> transact body st = (Inl e, st)"
  by (simp add: transact_def)

lemma retry_deadlocks: "length faults \<le> n \<Longrightarrow> list_all isDeadlockError faults \<Longrightarrow> retryDeadlocks n faults msg run st = run st"
proof (induction faults arbitrary: n)
  case (Cons e faults)
  then show ?case by (cases n) simp_all
qed simp

lemma keep_none [simp]: "keepOrFail msg name s None now st a = (Inr a, st)"
  by (simp add: keepOrFail_def pgApplyKeep_def pgKeepPolicyFor_def)

section \<open>What the relation says of one row\<close>

lemma sim_agrees: "pgSimulates st s \<Longrightarrow> pgAgrees (ps_db st) s"
  by (simp add: pgSimulates_def)

lemma sim_wake: "pgSimulates st s \<Longrightarrow> ps_wake st = pgWakeOf s"
  by (simp add: pgSimulates_def)

lemma sim_absent: "pgSimulates st s \<Longrightarrow> mapGet (jobs s) i = None \<Longrightarrow> mapGet (db_jobs (ps_db st)) i = None"
  using agrees_absent [OF sim_agrees] by blast

lemma sim_job:
  assumes "pgSimulates st s" and "plainStore q s" and "wellFormed s" and "mapGet (jobs s) i = Some job"
  obtains row where "mapGet (db_jobs (ps_db st)) i = Some row" and "rowAgrees row job" and "pj_id row = i" and "j_id job = i"
    and "pj_seq row = seqIn (ps_db st) i" and "j_keep job = None" and "j_dedupeKey job = None" and "j_flow job = None"
    and "job_ok i job" and "j_state job \<noteq> WaitingChildren"
proof -
  from agrees_job [OF sim_agrees [OF assms(1)] assms(4)] obtain row where
    row: "mapGet (db_jobs (ps_db st)) i = Some row" "rowAgrees row job" .
  have "plainJob q job" by (rule plain_job [OF assms(2,4)])
  then have plain: "j_keep job = None" "j_dedupeKey job = None" "j_flow job = None" by (simp_all add: plainJob_def)
  have id: "j_id job = i" "pj_id row = i" using wf_id [OF assms(3,4)] row(2) by (simp_all add: rowAgrees_iff)
  have "pj_seq row = seqIn (ps_db st) i" using row(1) by (simp add: seqIn_def)
  from that [OF row id(2,1) this plain wf_job [OF assms(3,4)] plain_not_waiting [OF assms(2,3,4)]] show thesis .
qed

lemma row_reads: "rowAgrees row job \<Longrightarrow> pj_state row = j_state job \<and> pj_keep row = j_keep job \<and> pj_queue row = j_queue job"
  by (simp add: rowAgrees_iff)

lemma settled_sim:
  assumes "pgSimulates st s" and "wellFormed s" and "mapGet (jobs s) j = Some job" and "rowAgrees row' job1"
    and "j_id job1 = j" and "ex \<noteq> Some JNull" and "j_dedupeKey job1 = None" and "j_keep job1 = None"
    and "pj_seq row' = seqIn (ps_db st) j" and "m_seq job1 = m_seq job" and "m_attempts job1 = m_attempts job"
  shows "pgSimulates (st\<lparr>ps_db := settleTerminal row' oc t ex now ((ps_db st)\<lparr>db_jobs := mapSet j row' (db_jobs (ps_db st))\<rparr>)\<rparr>)
     (applyKeep (recordAttempt oc now ex job1) now (releaseDedupe (recordAttempt oc now ex job1) now
        (appendOutbox (recordAttempt oc now ex job1) t (putJob (recordAttempt oc now ex job1) s))))"
  using agrees_settle [OF sim_agrees [OF assms(1)] assms(2-7,9-11), of oc t now] sim_wake [OF assms(1)] assms(8)
  by (simp add: pgSimulates_def)

section \<open>enqueue\<close>

lemma enqueue_pg:
  assumes sim: "pgSimulates st s" and wf: "wellFormed s" and plain: "plainRequest q r" and fits: "fitsColumns r"
  shows "fst (pgEnqueueOne opts faults now r st) = fst (enqueueOne gen now r s)
    \<and> pgSimulates (snd (pgEnqueueOne opts faults now r st)) (snd (enqueueOne gen now r s))"
proof -
  obtain i where i: "rq_id r = Some i" "rq_dedupe r = None" using plain by (auto simp: plainRequest_def)
  have call: "insertJob opts r now st =
      (case insertRow opts r now i (ps_db st) of (inserted, db) \<Rightarrow>
         (Inr \<lparr>er_id = i, er_duplicate = \<not> inserted\<rparr>, st\<lparr>ps_db := db\<rparr>))"
    using i fits by (simp add: insertJob_def eval_nat_numeral roundId_def split_beta Let_def)
  show ?thesis
  proof (cases "mapGet (jobs s) i")
    case None
    let ?db = "ps_db st" and ?s = "s\<lparr>seqNo := seqNo s + 1, jobs := mapSet i (newJob i r now (seqNo s + 1)) (jobs s)\<rparr>"
    let ?row = "jobRow opts r now i (db_seq ?db + 1)"
    have row: "rowAgrees ?row (newJob i r now (seqNo s + 1))"
      using i by (simp add: rowAgrees_iff jobRow_def newJob_def nullish_def)
    have "pgAgrees (?db\<lparr>db_seq := db_seq ?db + 1, db_jobs := mapSet i ?row (db_jobs ?db)\<rparr>) ?s"
      by (rule agrees_insert [OF sim_agrees [OF sim] wf None row]) (simp_all add: newJob_def jobRow_def)
    then have "pgSimulates (st\<lparr>ps_db := ?db\<lparr>db_seq := db_seq ?db + 1, db_jobs := mapSet i ?row (db_jobs ?db)\<rparr>\<rparr>) ?s"
      using sim by (simp add: pgSimulates_def)
    from pgSimulates_wake [OF this, of "Some (rq_queue r)"] show ?thesis
      using i None sim_absent [OF sim None]
      by (simp add: pgEnqueueOne_def call insertRow_def nextSeq_def enqueueOne_def enqueueDecide_def mapHas_key
          enqueueInsert_def chooseId_def registerJob_def mapGet_None_iff insertJobRecord_def Let_def newJob_def)
  next
    case (Some job)
    from agrees_job [OF sim_agrees [OF sim] Some] obtain row where "mapGet (db_jobs (ps_db st)) i = Some row" .
    moreover have "pgSimulates (st\<lparr>ps_db := (ps_db st)\<lparr>db_seq := db_seq (ps_db st) + 1\<rparr>\<rparr>) s"
      using sim by (fastforce simp: pgSimulates_def pgAgrees_def seqsAgree_def seqIn_def)
    ultimately show ?thesis using i Some
      by (simp add: pgEnqueueOne_def call insertRow_def nextSeq_def enqueueOne_def enqueueDecide_def)
  qed
qed

section \<open>ack\<close>

definition ackedJob :: "ack_outcome \<Rightarrow> millis \<Rightarrow> mem_job \<Rightarrow> mem_job" where
  "ackedJob outcome now job =
     (let job1 = (clearLock job)\<lparr>j_attemptsMade := j_attemptsMade job + 1\<rparr>
      in case outcome of
           Complete ex \<Rightarrow> job1\<lparr>j_cancelRequested := False, j_state := Completed, j_exit := ex, j_finishedAt := Some now\<rparr>
         | Fail ex \<Rightarrow> job1\<lparr>j_cancelRequested := False, j_state := Failed, j_exit := ex, j_finishedAt := Some now\<rparr>
         | _ \<Rightarrow> job1\<lparr>j_cancelRequested := False, j_state := Cancelled, j_finishedAt := Some now\<rparr>)"

lemma ackedJob_kept [simp]:
  "j_id (ackedJob outcome now job) = j_id job" "m_seq (ackedJob outcome now job) = m_seq job"
  "m_attempts (ackedJob outcome now job) = m_attempts job" "j_keep (ackedJob outcome now job) = j_keep job"
  "j_dedupeKey (ackedJob outcome now job) = j_dedupeKey job"
  by (simp_all add: ackedJob_def clearLock_def Let_def split: ack_outcome.split)

lemma nullish_exit: "ex \<noteq> Some JNull \<Longrightarrow> nullish (Some (orElse ex JNull)) = ex"
  by (cases ex) (simp_all add: nullish_def)

lemma acked_seq: "isRetry outcome \<Longrightarrow> pj_cancelRequested row \<Longrightarrow> pj_seq (countAttempt (ackSet outcome now sq row)) = pj_seq row"
  "\<not> isRetry outcome \<Longrightarrow> pj_seq (countAttempt (ackSet outcome now sq row)) = pj_seq row"
  by (simp_all add: countAttempt_def ackSet_def unlockRow_def isRetry_def split: ack_outcome.splits)

lemma acked_row:
  assumes "rowAgrees row job" and "j_state job = Active" and "\<not> isFanOut outcome" and "pgOutcomeExit outcome \<noteq> Some JNull"
    and "isRetry outcome \<Longrightarrow> j_cancelRequested job"
  shows "rowAgrees (countAttempt (ackSet outcome now sq row)) (ackedJob outcome now job)"
proof (cases outcome)
  case (Retry d ex)
  then show ?thesis using assms
    by (simp add: rowAgrees_iff countAttempt_def ackSet_def unlockRow_def ackedJob_def clearLock_def Let_def isRetry_def)
qed (use assms in \<open>simp_all add: rowAgrees_iff countAttempt_def ackSet_def unlockRow_def ackedJob_def clearLock_def Let_def
    pgOutcomeExit_def nullish_exit isFanOut_def\<close>)

lemma clearLock_again: "clearLock ((clearLock job)\<lparr>j_attemptsMade := n\<rparr>) = (clearLock job)\<lparr>j_attemptsMade := n\<rparr>"
  by (cases job) (simp add: clearLock_def)

lemma ack_lands:
  assumes "mapGet (jobs s) i = Some job" and "j_state job = Active" and "m_lockToken job = Some token" and "j_id job = i"
    and "j_keep job = None" and "\<not> isFanOut outcome" and "isRetry outcome \<Longrightarrow> j_cancelRequested job"
  shows "ack now i token outcome s = (Inr (), 
     let job1 = recordAttempt (pgLedgerOutcome outcome (isRetry outcome)) now
           (if isRetry outcome then None else pgOutcomeExit outcome) (ackedJob outcome now job)
     in applyKeep job1 now (releaseDedupe job1 now (appendOutbox job1 (reportOutcome (pgLedgerOutcome outcome (isRetry outcome)))
          (putJob job1 s))))"
  using assms
  by (cases outcome) (simp_all add: ack_def missingChildId_def isFanOut_def isRetry_def applyOutcome_def finishJob_def ackRetry_def
      markCancelled_def ackedJob_def pgLedgerOutcome_def reportOutcome_def pgOutcomeExit_def clearLock_again Let_def)

lemma ack_misses:
  assumes "pgSimulates st s" and "\<not> (\<exists>job. mapGet (jobs s) i = Some job \<and> j_state job = Active \<and> m_lockToken job = Some token)"
  shows "updateJob i (pgHolds token) f (ps_db st) = (None, ps_db st)"
    and "ackSeq i token outcome (ps_db st) = (0, ps_db st)"
    and "explainMiss i (ps_db st) = (if mapGet (jobs s) i = None then JobNotFoundError i else LockLostError i)"
  using agrees_entry [OF sim_agrees [OF assms(1)], of i] assms(2)
  by (auto simp: updateJob_def ackSeq_def explainMiss_def pgHolds_def entryAgrees_def rowAgrees_iff split: option.splits)

lemma ack_pg:
  assumes sim: "pgSimulates st s" and wf: "wellFormed s" and ps: "plainStore q s"
    and nf: "\<not> isFanOut outcome" and ex: "pgOutcomeExit outcome \<noteq> Some JNull"
  shows "fst (pgAck now i token outcome st) = fst (ack now i token outcome s)
    \<and> pgSimulates (snd (pgAck now i token outcome st)) (snd (ack now i token outcome s))"
proof -
  have call: "pgAck now i token outcome st = wakeAfter (transact (ackBody now i token outcome) st)"
    using nf by (cases outcome) (simp_all add: pgAck_def isFanOut_def)
  show ?thesis
  proof (cases "\<exists>job. mapGet (jobs s) i = Some job \<and> j_state job = Active \<and> m_lockToken job = Some token")
    case False
    note miss = ack_misses [OF sim False]
    have "ackBody now i token outcome st = (Inl (explainMiss i (ps_db st)), st)" by (simp add: ackBody_def miss)
    then show ?thesis using False sim
      by (auto simp: call transact_error wakeAfter_def miss ack_def split: option.split)
  next
    case True
    then obtain job where job: "mapGet (jobs s) i = Some job" "j_state job = Active" "m_lockToken job = Some token" by blast
    from sim_job [OF sim ps wf job(1)] obtain row where row: "mapGet (db_jobs (ps_db st)) i = Some row" "rowAgrees row job"
      "pj_id row = i" "j_id job = i" "pj_seq row = seqIn (ps_db st) i" "j_keep job = None" "j_dedupeKey job = None"
      "j_flow job = None" "job_ok i job" .
    have holds: "pgHolds token row" using row(2) job by (simp add: pgHolds_def rowAgrees_iff)
    have asked: "pj_cancelRequested row = j_cancelRequested job" using row(2) by (simp add: rowAgrees_iff)
    show ?thesis
    proof (cases "isRetry outcome \<and> \<not> j_cancelRequested job")
      case False
      let ?row = "countAttempt (ackSet outcome now 0 row)" and ?job = "ackedJob outcome now job"
      let ?led = "pgLedgerOutcome outcome (isRetry outcome)" and ?ex = "if isRetry outcome then None else pgOutcomeExit outcome"
      have ra: "rowAgrees ?row ?job" using acked_row [OF row(2) job(2) nf ex] False by blast
      have sq: "pj_seq ?row = pj_seq row" using acked_seq False asked by blast
      have st: "isRetry outcome \<Longrightarrow> pj_state ?row = Cancelled" "pj_keep ?row = None"
        using row_reads [OF ra] row(6) by (simp_all add: ackedJob_def isRetry_def Let_def split: ack_outcome.splits)
      have noexit: "outcome = CancelledOutcome \<Longrightarrow> pgOutcomeExit outcome = None" by (simp add: pgOutcomeExit_def)
      have "ackBody now i token outcome st = (Inr None,
          st\<lparr>ps_db := settleTerminal ?row ?led (reportOutcome ?led) ?ex now ((ps_db st)\<lparr>db_jobs := mapSet i ?row (db_jobs (ps_db st))\<rparr>)\<rparr>)"
        using False row(1) holds asked st noexit
        by (auto simp: ackBody_def ackSeq_def updateJob_def Let_def)
      moreover have "?ex \<noteq> Some JNull" using ex by simp
      note settled_sim [OF sim wf job(1) ra _ this, of ?led "reportOutcome ?led" now]
      ultimately show ?thesis using ack_lands [OF job row(4,6) nf, of now] False row sq
        by (simp add: call transact_ok wakeAfter_def Let_def)
    next
      case True
      then obtain d exv where retry: "outcome = Retry d exv" "\<not> j_cancelRequested job" by (cases outcome) (auto simp: isRetry_def)
      let ?db = "ps_db st"
      let ?row = "countAttempt (ackSet outcome now (db_seq ?db + 1) row)"
      let ?job = "(recordAttempt ARetried now exv ((clearLock job)\<lparr>j_attemptsMade := j_attemptsMade job + 1\<rparr>))\<lparr>
        j_runAt := now + max 0 d, j_state := (if d > 0 then Delayed else Waiting), m_seq := seqNo s + 1\<rparr>"
      let ?db' = "insertAttempt i ARetried (pj_processedAt row) now exv (?db\<lparr>db_seq := db_seq ?db + 1, db_jobs := mapSet i ?row (db_jobs ?db)\<rparr>)"
      let ?s' = "putJob ?job (s\<lparr>seqNo := seqNo s + 1\<rparr>)"
      have body: "ackBody now i token outcome st = (Inr (Some (j_queue job)), st\<lparr>ps_db := ?db'\<rparr>)"
        using True row(1,2) holds asked retry
        by (simp add: ackBody_def ackSeq_def updateJob_def nextSeq_def Let_def ackSet_def countAttempt_def unlockRow_def isRetry_def
            pgLedgerOutcome_def pgOutcomeExit_def rowAgrees_iff)
      have fin: "j_finishedAt job = None" "j_failedReason job = None" "numbered (m_attempts job)"
        using row(2,9) job(2) by (auto simp: job_ok_def TERMINAL_STATES_def rowAgrees_iff)
      have ra: "rowAgrees ?row ?job"
        using row(2) retry fin
        by (simp add: rowAgrees_iff countAttempt_def ackSet_def unlockRow_def recordAttempt_def clearLock_def)
      have led: "map pgToAttempt (ledgerOf ?db' i) = m_attempts ?job"
      proof -
        have "map pgToAttempt (ledgerOf (?db\<lparr>db_seq := db_seq ?db + 1, db_jobs := mapSet i ?row (db_jobs ?db)\<rparr>) i) = m_attempts job"
          using agrees_job [OF sim_agrees [OF sim] job(1)] by (auto simp: ledgerOf_def)
        from ledger_records [OF this fin(3), of "pj_processedAt row" exv ARetried now] show ?thesis
          using row(2) ex retry(1) by (simp add: rowAgrees_iff recordAttempt_def clearLock_def pgOutcomeExit_def)
      qed
      have "pgAgrees ?db' ?s'"
        by (rule agrees_change [OF sim_agrees [OF sim] wf job(1) ra led])
          (use row(4) sim_agrees [OF sim] in \<open>simp_all add: ledger_insert recordAttempt_def clearLock_def
            countAttempt_def ackSet_def unlockRow_def retry asked pgAgrees_def\<close>)
      then have "pgSimulates (st\<lparr>ps_db := ?db'\<rparr>) ?s'" using sim by (simp add: pgSimulates_def)
      note sims = pgSimulates_wake [OF this, of "Some (j_queue job)"]
      have pg: "pgAck now i token outcome st = (Inr (), pgWakeUp (Some (j_queue job)) (st\<lparr>ps_db := ?db'\<rparr>))"
        by (simp only: call transact_def body wakeAfter_def prod.case sum.case option.case)
      have "ack now i token outcome s = (Inr (), signalWake (Some (j_queue job)) ?s')"
        using job retry
        by (simp add: ack_def isFanOut_def missingChildId_def applyOutcome_def ackRetry_def Let_def clearLock_def recordAttempt_def)
      then show ?thesis by (simp only: pg fst_conv snd_conv sims simp_thms)
    qed
  qed
qed

end
