(* ===== verification/PgAdminSim.thy ===== *)
theory PgAdminSim
  imports PgVerbs
begin

text \<open>
  The relation along the verbs of one job besides ack: release, cancel, retry, promote, remove, the
  pauses, the reads and the waits.
\<close>

section \<open>A row is rewritten\<close>

lemma sim_touch:
  assumes "pgSimulates st s" and "wellFormed s" and "mapGet (jobs s) j = Some job" and "rowAgrees row' job'"
    and "j_id job' = j" and "m_attempts job' = m_attempts job" and "m_seq job' = m_seq job" and "pj_seq row' = seqIn (ps_db st) j"
  shows "pgSimulates (st\<lparr>ps_db := (ps_db st)\<lparr>db_jobs := mapSet j row' (db_jobs (ps_db st))\<rparr>\<rparr>) (putJob job' s)"
proof -
  have ag: "pgAgrees (ps_db st) s" by (rule sim_agrees [OF assms(1)])
  have led: "map pgToAttempt (ledgerOf ((ps_db st)\<lparr>db_jobs := mapSet j row' (db_jobs (ps_db st))\<rparr>) j) = m_attempts job'"
    using agrees_job [OF ag assms(3)] assms(6) by simp metis
  have "pgAgrees ((ps_db st)\<lparr>db_jobs := mapSet j row' (db_jobs (ps_db st))\<rparr>) (putJob job' s)"
    by (rule agrees_change [OF ag assms(2,3,4) led]) (use assms(5,7,8) ag in \<open>simp_all add: pgAgrees_def\<close>)
  then show ?thesis using sim_wake [OF assms(1)] by (simp add: pgSimulates_def)
qed

lemma sim_requeue:
  assumes "pgSimulates st s" and "wellFormed s" and "mapGet (jobs s) j = Some job" and "rowAgrees row' job'"
    and "j_id job' = j" and "m_attempts job' = m_attempts job" and "m_seq job' = seqNo s + 1" and "pj_seq row' = db_seq (ps_db st) + 1"
  shows "pgSimulates (st\<lparr>ps_db := (ps_db st)\<lparr>db_seq := db_seq (ps_db st) + 1, db_jobs := mapSet j row' (db_jobs (ps_db st))\<rparr>\<rparr>)
    (putJob job' (s\<lparr>seqNo := seqNo s + 1\<rparr>))"
proof -
  let ?db = "(ps_db st)\<lparr>db_seq := db_seq (ps_db st) + 1, db_jobs := mapSet j row' (db_jobs (ps_db st))\<rparr>"
  have ag: "pgAgrees (ps_db st) s" by (rule sim_agrees [OF assms(1)])
  have led: "map pgToAttempt (ledgerOf ?db j) = m_attempts job'"
    using agrees_job [OF ag assms(3)] assms(6) by simp metis
  have "pgAgrees ?db (putJob job' (s\<lparr>seqNo := seqNo s + 1\<rparr>))"
    by (rule agrees_change [OF ag assms(2,3,4) led]) (use assms(5,7,8) ag in \<open>simp_all add: pgAgrees_def\<close>)
  then show ?thesis using sim_wake [OF assms(1)] by (simp add: pgSimulates_def)
qed

section \<open>Cancelling\<close>

definition cancelledJob :: "millis \<Rightarrow> mem_job \<Rightarrow> mem_job" where
  "cancelledJob now job = (clearLock job)\<lparr>j_cancelRequested := False, j_state := Cancelled, j_finishedAt := Some now\<rparr>"

lemma cancelledJob_kept [simp]:
  "j_id (cancelledJob now job) = j_id job" "m_seq (cancelledJob now job) = m_seq job"
  "m_attempts (cancelledJob now job) = m_attempts job" "j_keep (cancelledJob now job) = j_keep job"
  "j_dedupeKey (cancelledJob now job) = j_dedupeKey job" "j_state (cancelledJob now job) = Cancelled"
  by (simp_all add: cancelledJob_def clearLock_def)

lemma markCancelled_plain:
  "j_state job \<noteq> WaitingChildren \<Longrightarrow> markCancelled job now s =
    (let job1 = recordAttempt ACancelled now None (cancelledJob now job)
     in applyKeep job1 now (releaseDedupe job1 now (appendOutbox job1 TCancelled (putJob job1 s))))"
  by (simp add: markCancelled_def cancelledJob_def Let_def)

lemma cancelled_sim:
  assumes "pgSimulates st s" and "wellFormed s" and "plainStore q s" and "mapGet (jobs s) i = Some job"
    and "rowAgrees row' (cancelledJob now job)" and "pj_seq row' = seqIn (ps_db st) i"
  shows "pgSimulates (st\<lparr>ps_db := settleTerminal row' ACancelled TCancelled None now
       ((ps_db st)\<lparr>db_jobs := mapSet i row' (db_jobs (ps_db st))\<rparr>)\<rparr>) (markCancelled job now s)"
proof -
  from sim_job [OF assms(1,3,2,4)] have job: "j_id job = i" "j_keep job = None" "j_dedupeKey job = None"
    "j_state job \<noteq> WaitingChildren" by metis+
  have ids: "j_id (cancelledJob now job) = i" "j_dedupeKey (cancelledJob now job) = None" "j_keep (cancelledJob now job) = None"
    using job by simp_all
  from settled_sim [OF assms(1,2,4,5) ids(1) _ ids(2,3) assms(6), of None ACancelled TCancelled now] show ?thesis
    by (simp add: markCancelled_plain [OF job(4)] Let_def)
qed

lemma no_children: "db_children db = [] \<Longrightarrow> cancelPendingChildren i db = (0, db)"
  by (cases db) (simp add: cancelPendingChildren_def)

lemma cancel_pg:
  assumes sim: "pgSimulates st s" and wf: "wellFormed s" and ps: "plainStore q s"
    and faults: "length faults \<le> 3" "list_all isDeadlockError faults"
  shows "fst (pgCancel faults now i st) = fst (cancelJob now i s)
    \<and> pgSimulates (snd (pgCancel faults now i st)) (snd (cancelJob now i s))"
proof -
  have call: "pgCancel faults now i st = transact (cancelBody now i) st" by (simp add: pgCancel_def retry_deadlocks faults)
  have none: "cancelPendingChildren i (ps_db st) = (0, ps_db st)" using sim_agrees [OF sim] by (simp add: pgAgrees_def no_children)
  show ?thesis
  proof (cases "mapGet (jobs s) i")
    case None
    then show ?thesis using sim_absent [OF sim None] sim
      by (simp add: call transact_def cancelBody_def none updateJob_def stateMiss_def cancelJob_def)
  next
    case (Some job)
    from sim_job [OF sim ps wf Some] obtain row where row: "mapGet (db_jobs (ps_db st)) i = Some row" "rowAgrees row job"
      "pj_id row = i" "j_id job = i" "pj_seq row = seqIn (ps_db st) i" "j_keep job = None" "j_dedupeKey job = None"
      "j_flow job = None" "job_ok i job" "j_state job \<noteq> WaitingChildren" .
    have st: "pj_state row = j_state job" "pj_keep row = None" "pj_flowPending row = None"
      using row(2,6) by (simp_all add: rowAgrees_iff)
    consider (idle) "j_state job = Waiting \<or> j_state job = Delayed" | (active) "j_state job = Active"
      | (terminal) "j_state job = Completed \<or> j_state job = Failed \<or> j_state job = Cancelled"
      using row(10) by (cases "j_state job") simp_all
    then show ?thesis
    proof cases
      case idle
      have ok: "m_lockToken job = None" "m_lockExpiresAt job = None" "\<not> j_cancelRequested job" "j_failedReason job = None"
        using row(2,9) idle by (auto simp: job_ok_def rowAgrees_iff)
      have ra: "rowAgrees (cancelSet now row) (cancelledJob now job)"
        using row(2) ok idle by (auto simp: rowAgrees_iff cancelSet_def cancelledJob_def clearLock_def cancellable_def)
      have sq: "pj_seq (cancelSet now row) = seqIn (ps_db st) i" using row(5) by (simp add: cancelSet_def)
      have "cancelBody now i st = (Inr (), st\<lparr>ps_db := settleTerminal (cancelSet now row) ACancelled TCancelled None now
         ((ps_db st)\<lparr>db_jobs := mapSet i (cancelSet now row) (db_jobs (ps_db st))\<rparr>)\<rparr>)"
        using idle row(1) st by (auto simp: cancelBody_def none updateJob_def cancellable_def cancelSet_def)
      then show ?thesis using cancelled_sim [OF sim wf ps Some ra sq] idle Some
        by (auto simp: call transact_def cancelJob_def)
    next
      case active
      have ra: "rowAgrees (cancelSet now row) (job\<lparr>j_cancelRequested := True\<rparr>)"
        using row(2) active by (simp add: rowAgrees_iff cancelSet_def cancellable_def)
      have sq: "pj_seq (cancelSet now row) = seqIn (ps_db st) i" using row(5) by (simp add: cancelSet_def)
      have "pgSimulates (st\<lparr>ps_db := (ps_db st)\<lparr>db_jobs := mapSet i (cancelSet now row) (db_jobs (ps_db st))\<rparr>\<rparr>)
          (putJob (job\<lparr>j_cancelRequested := True\<rparr>) s)"
        by (rule sim_touch [OF sim wf Some ra _ _ _ sq]) (simp_all add: row(4))
      moreover have "cancelBody now i st =
          (Inr (), st\<lparr>ps_db := (ps_db st)\<lparr>db_jobs := mapSet i (cancelSet now row) (db_jobs (ps_db st))\<rparr>\<rparr>)"
        using active row(1) st by (simp add: cancelBody_def none updateJob_def cancellable_def cancelSet_def)
      ultimately show ?thesis using active Some by (simp add: call transact_def cancelJob_def)
    next
      case terminal
      then have "cancelBody now i st = (Inl (JobNotCancellableError i (j_state job)), st)"
        using row(1) st by (auto simp: cancelBody_def none updateJob_def cancellable_def stateMiss_def)
      then show ?thesis using terminal Some sim by (auto simp: call transact_def cancelJob_def)
    qed
  qed
qed

section \<open>release\<close>

lemma release_pg:
  assumes sim: "pgSimulates st s" and wf: "wellFormed s" and ps: "plainStore q s"
  shows "fst (pgRelease now i token st) = fst (release now i token s)
    \<and> pgSimulates (snd (pgRelease now i token st)) (snd (release now i token s))"
proof (cases "\<exists>job. mapGet (jobs s) i = Some job \<and> j_state job = Active \<and> m_lockToken job = Some token")
  case False
  note miss = ack_misses [OF sim False]
  have "releaseBody now i token st = (Inr None, st)" by (simp add: releaseBody_def miss)
  then show ?thesis using False sim
    by (auto simp: pgRelease_def transact_def miss release_def split: option.split)
next
  case True
  then obtain job where job: "mapGet (jobs s) i = Some job" "j_state job = Active" "m_lockToken job = Some token" by blast
  from sim_job [OF sim ps wf job(1)] obtain row where row: "mapGet (db_jobs (ps_db st)) i = Some row" "rowAgrees row job"
    "pj_id row = i" "j_id job = i" "pj_seq row = seqIn (ps_db st) i" "j_keep job = None" "j_dedupeKey job = None"
    "j_flow job = None" "job_ok i job" .
  let ?row = "releaseSet now row"
  have holds: "pgHolds token row" using row(2) job by (simp add: pgHolds_def rowAgrees_iff)
  have sq: "pj_seq ?row = seqIn (ps_db st) i" using row(5) by (simp add: releaseSet_def unlockRow_def)
  have fields: "pj_keep ?row = None" "pj_queue ?row = j_queue job" "pj_cancelRequested row = j_cancelRequested job"
    "pj_state ?row = (if j_cancelRequested job then Cancelled else Waiting)"
    using row(2,6) by (simp_all add: releaseSet_def unlockRow_def rowAgrees_iff)
  have reads: "j_failedReason job = None" "j_finishedAt job = None"
    using row(2,9) job(2) by (auto simp: job_ok_def TERMINAL_STATES_def rowAgrees_iff)
  show ?thesis
  proof (cases "j_cancelRequested job")
    case True
    have ra: "rowAgrees ?row (cancelledJob now job)"
      using row(2) True reads by (simp add: rowAgrees_iff releaseSet_def unlockRow_def cancelledJob_def clearLock_def)
    have "releaseBody now i token st = (Inr (Some (True, j_queue job)), st\<lparr>ps_db := settleTerminal ?row ACancelled TCancelled None now
       ((ps_db st)\<lparr>db_jobs := mapSet i ?row (db_jobs (ps_db st))\<rparr>)\<rparr>)"
      using True row(1) holds fields by (simp add: releaseBody_def updateJob_def)
    then show ?thesis using cancelled_sim [OF sim wf ps job(1) ra sq] True job
      by (simp add: pgRelease_def transact_def release_def)
  next
    case False
    let ?db = "(ps_db st)\<lparr>db_jobs := mapSet i ?row (db_jobs (ps_db st))\<rparr>" and ?s = "putJob ((clearLock job)\<lparr>j_state := Waiting\<rparr>) s"
    have ra: "rowAgrees ?row ((clearLock job)\<lparr>j_state := Waiting\<rparr>)"
      using row(2) False reads by (simp add: rowAgrees_iff releaseSet_def unlockRow_def clearLock_def)
    have "pgSimulates (st\<lparr>ps_db := ?db\<rparr>) ?s"
      by (rule sim_touch [OF sim wf job(1) ra _ _ _ sq]) (simp_all add: row(4) clearLock_def)
    note pgSimulates_wake [OF this, of "Some (j_queue job)"]
    moreover have "releaseBody now i token st = (Inr (Some (False, j_queue job)), st\<lparr>ps_db := ?db\<rparr>)"
      using False row(1) holds fields by (simp add: releaseBody_def updateJob_def)
    ultimately show ?thesis using False job by (simp add: pgRelease_def transact_def release_def)
  qed
qed

section \<open>retry, promote, remove\<close>

lemma retry_pg:
  assumes sim: "pgSimulates st s" and wf: "wellFormed s" and ps: "plainStore q s"
  shows "fst (pgRetry now i st) = fst (retry now i s) \<and> pgSimulates (snd (pgRetry now i st)) (snd (retry now i s))"
proof (cases "mapGet (jobs s) i")
  case None
  then show ?thesis using sim_absent [OF sim None] sim by (simp add: pgRetry_def updateJob_def stateMiss_def retry_def)
next
  case (Some job)
  from sim_job [OF sim ps wf Some] obtain row where row: "mapGet (db_jobs (ps_db st)) i = Some row" "rowAgrees row job"
    "pj_id row = i" "j_id job = i" "pj_seq row = seqIn (ps_db st) i" "j_keep job = None" "j_dedupeKey job = None"
    "j_flow job = None" "job_ok i job" .
  have st: "pj_state row = j_state job" by (simp add: row_reads [OF row(2)])
  show ?thesis
  proof (cases "j_state job = Failed")
    case False
    then show ?thesis using Some row(1) st sim by (simp add: pgRetry_def updateJob_def stateMiss_def retry_def)
  next
    case True
    let ?row = "retrySet now (db_seq (ps_db st) + 1) row"
    let ?job = "job\<lparr>j_state := Waiting, j_attemptsMade := 0, j_stalledCount := 0, j_cancelRequested := False, j_exit := None,
      j_failedReason := None, j_finishedAt := None, j_processedAt := None, j_runAt := now, m_seq := seqNo s + 1\<rparr>"
    have ra: "rowAgrees ?row ?job" using row(2) by (simp add: rowAgrees_iff retrySet_def nullish_def)
    have "pgSimulates (st\<lparr>ps_db := (ps_db st)\<lparr>db_seq := db_seq (ps_db st) + 1, db_jobs := mapSet i ?row (db_jobs (ps_db st))\<rparr>\<rparr>)
        (putJob ?job (s\<lparr>seqNo := seqNo s + 1\<rparr>))"
      by (rule sim_requeue [OF sim wf Some ra]) (simp_all add: row(4) retrySet_def)
    note sims = pgSimulates_wake [OF this, of "Some (j_queue job)"]
    have "pj_queue ?row = j_queue job" using row_reads [OF ra] by simp
    then have pg: "pgRetry now i st = (Inr (), pgWakeUp (Some (j_queue job))
        (st\<lparr>ps_db := (ps_db st)\<lparr>db_seq := db_seq (ps_db st) + 1, db_jobs := mapSet i ?row (db_jobs (ps_db st))\<rparr>\<rparr>))"
      using row(1) st True by (simp add: pgRetry_def updateJob_def nextSeq_def)
    have "retry now i s = (Inr (), signalWake (Some (j_queue job)) (putJob ?job (s\<lparr>seqNo := seqNo s + 1\<rparr>)))"
      using Some True by (simp add: retry_def Let_def)
    then show ?thesis by (simp only: pg fst_conv snd_conv sims simp_thms)
  qed
qed

lemma promote_pg:
  assumes sim: "pgSimulates st s" and wf: "wellFormed s" and ps: "plainStore q s"
  shows "fst (pgPromote now i st) = fst (promote now i s) \<and> pgSimulates (snd (pgPromote now i st)) (snd (promote now i s))"
proof (cases "mapGet (jobs s) i")
  case None
  then show ?thesis using sim_absent [OF sim None] sim by (simp add: pgPromote_def updateJob_def stateMiss_def promote_def)
next
  case (Some job)
  from sim_job [OF sim ps wf Some] obtain row where row: "mapGet (db_jobs (ps_db st)) i = Some row" "rowAgrees row job"
    "pj_id row = i" "j_id job = i" "pj_seq row = seqIn (ps_db st) i" "j_keep job = None" "j_dedupeKey job = None"
    "j_flow job = None" "job_ok i job" .
  have st: "pj_state row = j_state job" "pj_queue row = j_queue job" by (simp_all add: row_reads [OF row(2)])
  show ?thesis
  proof (cases "j_state job = Delayed")
    case False
    then show ?thesis using Some row(1) st sim by (simp add: pgPromote_def updateJob_def stateMiss_def promote_def)
  next
    case True
    let ?row = "row\<lparr>pj_state := Waiting, pj_runAt := now\<rparr>" and ?job = "job\<lparr>j_state := Waiting, j_runAt := now\<rparr>"
    have ra: "rowAgrees ?row ?job" using row(2) True by (simp add: rowAgrees_iff)
    have "pgSimulates (st\<lparr>ps_db := (ps_db st)\<lparr>db_jobs := mapSet i ?row (db_jobs (ps_db st))\<rparr>\<rparr>) (putJob ?job s)"
      by (rule sim_touch [OF sim wf Some ra]) (simp_all add: row(4,5))
    from pgSimulates_wake [OF this, of "Some (j_queue job)"] show ?thesis
      using row(1) st True Some by (simp add: pgPromote_def updateJob_def promote_def)
  qed
qed

lemma purge_one:
  assumes "distinct (mapKeys (db_jobs db))" and "\<And>k row. mapGet (db_jobs db) k = Some row \<Longrightarrow> pj_id row = k"
  shows "set (map pj_id (filter (\<lambda>row. pj_id row = i \<and> P row) (mapValues (db_jobs db)))) =
    (case mapGet (db_jobs db) i of Some row \<Rightarrow> if P row then {i} else {} | None \<Rightarrow> {})"
proof -
  have "k \<in> set (map pj_id (filter (\<lambda>row. pj_id row = i \<and> P row) (mapValues (db_jobs db)))) \<longleftrightarrow>
      k = i \<and> (\<exists>row. mapGet (db_jobs db) i = Some row \<and> P row)" for k
  proof -
    have "k \<in> set (map pj_id (filter (\<lambda>row. pj_id row = i \<and> P row) (mapValues (db_jobs db)))) \<longleftrightarrow>
        k = i \<and> (\<exists>row\<in>set (mapValues (db_jobs db)). pj_id row = i \<and> P row)" by (simp only: set_map set_filter) blast
    also have "\<dots> \<longleftrightarrow> k = i \<and> (\<exists>row. mapGet (db_jobs db) i = Some row \<and> P row)"
      using mapValues_in [OF assms(1)] assms(2) by metis
    finally show ?thesis .
  qed
  then have "set (map pj_id (filter (\<lambda>row. pj_id row = i \<and> P row) (mapValues (db_jobs db)))) =
      {k. k = i \<and> (\<exists>row. mapGet (db_jobs db) i = Some row \<and> P row)}" by blast
  then show ?thesis by (auto simp del: set_map split: option.split)
qed

lemma remove_pg:
  assumes sim: "pgSimulates st s" and wf: "wellFormed s" and ps: "plainStore q s"
  shows "fst (pgRemove i st) = fst (remove i s) \<and> pgSimulates (snd (pgRemove i st)) (snd (remove i s))"
proof -
  let ?db = "ps_db st"
  let ?P = "\<lambda>row. pj_state row \<noteq> Active \<and> pj_state row \<noteq> WaitingChildren"
  have ag: "pgAgrees ?db s" by (rule sim_agrees [OF sim])
  have ids: "pj_id row = k" if "mapGet (db_jobs ?db) k = Some row" for k row
    using agrees_row [OF ag that] wf_id [OF wf] by (metis rowAgrees_iff)
  let ?deleted = "map pj_id (filter (\<lambda>row. pj_id row = i \<and> ?P row) (mapValues (db_jobs ?db)))"
  have del: "set ?deleted = (case mapGet (db_jobs ?db) i of Some row \<Rightarrow> if ?P row then {i} else {} | None \<Rightarrow> {})"
    by (rule purge_one [OF agrees_distinct [OF ag wf] ids])
  have call: "pgRemove i st = (?deleted \<noteq> [], st\<lparr>ps_db := ?db\<lparr>db_jobs := filter (\<lambda>e. fst e \<notin> set ?deleted) (db_jobs ?db),
      db_attempts := filter (\<lambda>a. pa_jobId a \<notin> set ?deleted) (db_attempts ?db),
      db_children := filter (\<lambda>e. fst (fst e) \<notin> set ?deleted) (db_children ?db)\<rparr>\<rparr>)"
    by (simp add: pgRemove_def purgeJobsWhere_def Let_def)
  show ?thesis
  proof (cases "\<exists>job. mapGet (jobs s) i = Some job \<and> j_state job \<noteq> Active \<and> j_state job \<noteq> WaitingChildren")
    case False
    then have "set ?deleted = {}"
      using del agrees_entry [OF ag, of i] by (auto simp: entryAgrees_def rowAgrees_iff split: option.splits)
    then have none: "?deleted = []" by (simp only: set_empty)
    have "pgRemove i st = (False, st)" unfolding call none by simp
    moreover have "remove i s = (False, s)" using False by (auto simp: remove_def split: option.split)
    ultimately show ?thesis using sim by simp
  next
    case True
    then obtain job where job: "mapGet (jobs s) i = Some job" "j_state job \<noteq> Active" "j_state job \<noteq> WaitingChildren" by blast
    from agrees_job [OF ag job(1)] obtain row where "mapGet (db_jobs ?db) i = Some row" "rowAgrees row job" .
    then have one: "set ?deleted = {i}" using del job by (simp add: rowAgrees_iff)
    let ?db' = "?db\<lparr>db_jobs := filter (\<lambda>e. fst e \<notin> {i}) (db_jobs ?db), db_attempts := filter (\<lambda>a. pa_jobId a \<notin> {i}) (db_attempts ?db),
      db_children := filter (\<lambda>e. fst (fst e) \<notin> {i}) (db_children ?db)\<rparr>"
    have "pgAgrees ?db' (deleteJob i s)"
      by (rule agrees_remove [OF ag, where j = i])
        (use ag in \<open>simp_all add: mapDelete_filter deleteJob_def ledgerOf_def pgAgrees_def filter_empty_conv conj_commute cong: conj_cong\<close>)
    moreover have "pgWakeOf (deleteJob i s) = pgWakeOf s" by (simp add: deleteJob_def)
    moreover have "?deleted \<noteq> []" using one by force
    then have "pgRemove i st = (True, st\<lparr>ps_db := ?db'\<rparr>)" unfolding call one by simp
    moreover have "remove i s = (True, deleteJob i s)" using job by (simp add: remove_def)
    ultimately show ?thesis using sim_wake [OF sim] by (simp add: pgSimulates_def)
  qed
qed

section \<open>Queues, reads, waits\<close>

lemma pause_pg: "pgSimulates st s \<Longrightarrow> pgSimulates (pgPause x st) (pause x s)"
  by (auto simp: pgSimulates_def pgAgrees_def pgPause_def pause_def seqsAgree_def ledgerOf_def seqIn_def)

lemma resume_pg:
  assumes sim: "pgSimulates st s" and paused: "x \<in> set (paused s)"
  shows "pgSimulates (pgResume x st) (resume x s)"
proof -
  have "mapGet (db_queues (ps_db st)) x = Some True" using sim_agrees [OF sim] paused by (simp add: pgAgrees_def)
  then have "pgResume x st = pgWakeUp (Some x) (st\<lparr>ps_db := (ps_db st)\<lparr>db_queues := mapSet x False (db_queues (ps_db st))\<rparr>\<rparr>)"
    by (simp add: pgResume_def)
  moreover have "pgSimulates (st\<lparr>ps_db := (ps_db st)\<lparr>db_queues := mapSet x False (db_queues (ps_db st))\<rparr>\<rparr>)
      (s\<lparr>paused := filter (\<lambda>q. q \<noteq> x) (paused s)\<rparr>)"
    using sim by (auto simp: pgSimulates_def pgAgrees_def seqsAgree_def ledgerOf_def seqIn_def)
  ultimately show ?thesis using paused pgSimulates_wake by (simp add: resume_def)
qed

lemma getJob_pg: "pgSimulates st s \<Longrightarrow> pgGetJob i st = getJob i s"
  using agrees_entry [OF sim_agrees, of st s i]
  by (auto simp: pgGetJob_def getJob_def entryAgrees_def rowAgrees_def split: option.splits)

lemma sorted_by_number: "sorted (map f xs) \<Longrightarrow> toSorted (\<lambda>a b. int (f a) - int (f b)) xs = (xs :: 'a list)"
  by (induction xs) (auto, case_tac xs, auto)

lemma getAttempts_pg:
  assumes sim: "pgSimulates st s" and wf: "wellFormed s"
  shows "pgGetAttempts i st = getAttempts i s"
proof (cases "mapGet (jobs s) i")
  case None
  then show ?thesis using agrees_entry [OF sim_agrees [OF sim], of i] sim_absent [OF sim None]
    by (simp add: pgGetAttempts_def getAttempts_def entryAgrees_def ledgerOf_def)
next
  case (Some job)
  from agrees_job [OF sim_agrees [OF sim] Some] have led: "map pgToAttempt (ledgerOf (ps_db st) i) = m_attempts job" by metis
  have "map pa_attempt (ledgerOf (ps_db st) i) = map at_attempt (m_attempts job)"
    unfolding led [symmetric] by (simp add: pgToAttempt_def)
  also have "\<dots> = [1..<Suc (length (m_attempts job))]" using wf_job [OF wf Some] by (simp add: job_ok_def numbered_def)
  finally have "sorted (map pa_attempt (ledgerOf (ps_db st) i))" by (simp only: sorted_upt)
  from sorted_by_number [OF this] led show ?thesis using Some
    by (simp add: pgGetAttempts_def getAttempts_def ledgerOf_def)
qed

lemma await_pg:
  assumes "pgSimulates st s"
  shows "fst (pgAwaitWake qs w st) = fst (awaitWake qs w s) \<and> pgSimulates (snd (pgAwaitWake qs w st)) (snd (awaitWake qs w s))"
    and "pgSimulates (pgCancelWait n st) (cancelWait n s)"
proof -
  have last: "pgLastWakeFor (pgWakeOf s) x = lastWakeFor s x" for x
    by (simp add: pgLastWakeFor_def lastWakeFor_def pgWakeOf_def)
  show "fst (pgAwaitWake qs w st) = fst (awaitWake qs w s) \<and> pgSimulates (snd (pgAwaitWake qs w st)) (snd (awaitWake qs w s))"
    using assms
    by (simp add: pgAwaitWake_def awaitWake_def pgSimulates_def last Let_def pgAgrees_def seqsAgree_def) (simp add: pgWakeOf_def)
  show "pgSimulates (pgCancelWait n st) (cancelWait n s)"
    using assms by (simp add: pgCancelWait_def cancelWait_def pgSimulates_def pgAgrees_def seqsAgree_def) (simp add: pgWakeOf_def)
qed

end
