(* ===== verification/PgClaimSim.thy ===== *)
theory PgClaimSim
  imports PgAdminSim
begin

text \<open>
  The relation along the verbs that look at many jobs: claim, the renewal of locks and the recovery of
  stalled jobs.
\<close>

section \<open>Every row changes\<close>

lemma agrees_all:
  assumes ag: "pgAgrees db s"
    and keys: "mapKeys (db_jobs db') = mapKeys (db_jobs db)" "mapKeys (jobs s') = mapKeys (jobs s)"
    and rows: "\<And>k. mapGet (db_jobs db') k = map_option F (mapGet (db_jobs db) k)"
      "\<And>k. mapGet (jobs s') k = map_option G (mapGet (jobs s) k)"
    and each: "\<And>k row job. mapGet (db_jobs db) k = Some row \<Longrightarrow> mapGet (jobs s) k = Some job \<Longrightarrow> rowAgrees row job \<Longrightarrow>
      map pgToAttempt (ledgerOf db k) = m_attempts job \<Longrightarrow>
      rowAgrees (F row) (G job) \<and> pj_seq (F row) = pj_seq row \<and> m_seq (G job) = m_seq job
      \<and> map pgToAttempt (ledgerOf db' k) = m_attempts (G job)"
    and absent: "\<And>k. mapGet (jobs s) k = None \<Longrightarrow> ledgerOf db' k = ledgerOf db k"
    and same: "db_queues db' = db_queues db" "paused s' = paused s" "db_children db' = db_children db" "db_seq db' = db_seq db"
    and sent: "list_all2 sentAs (db_outbox db') (outbox s')"
  shows "pgAgrees db' s'"
proof -
  have "entryAgrees (mapGet (db_jobs db') k) (ledgerOf db' k) (mapGet (jobs s') k)" for k
    using agrees_entry [OF ag, of k] each [of k] absent [of k] by (auto simp: rows entryAgrees_def split: option.splits)
  moreover have sq: "seqIn db' k = seqIn db k" "mapGet (jobs s) k = Some job \<Longrightarrow> m_seq (G job) = m_seq job" for k job
    using agrees_entry [OF ag, of k] each [of k] by (auto simp: rows seqIn_def entryAgrees_def split: option.splits)
  then have "seqIn db' = seqIn db" by blast
  moreover have "seqsAgree (int (db_seq db)) (seqIn db) s'"
    using ag sq(2) by (auto simp: pgAgrees_def seqsAgree_def rows)
  ultimately show ?thesis using ag same sent keys by (simp add: pgAgrees_def)
qed

lemma keys_map_ran [simp]: "mapKeys (map_ran f m) = mapKeys m"
  by (induction m) (auto simp: map_ran_def)

section \<open>claim\<close>

definition promoteRow :: "millis \<Rightarrow> pg_job \<Rightarrow> pg_job" where
  "promoteRow now row = (if pj_state row = Delayed \<and> pj_runAt row \<le> now then row\<lparr>pj_state := Waiting\<rparr> else row)"

lemma plain_row:
  assumes "pgSimulates st s" and "plainStore q s" and "mapGet (db_jobs (ps_db st)) k = Some row"
  obtains job where "mapGet (jobs s) k = Some job" and "rowAgrees row job" and "pj_queue row = q" and "plainJob q job"
proof -
  from agrees_row [OF sim_agrees [OF assms(1)] assms(3)] obtain job where job: "mapGet (jobs s) k = Some job" "rowAgrees row job" .
  have "plainJob q job" by (rule plain_job [OF assms(2) job(1)])
  with that job show thesis by (simp add: rowAgrees_iff plainJob_def)
qed

lemma promote_rows:
  assumes sim: "pgSimulates st s" and ps: "plainStore q s" and wf: "wellFormed s"
  shows "promoteDueRows q now (ps_db st) = (ps_db st)\<lparr>db_jobs := map_ran (\<lambda>_. promoteRow now) (db_jobs (ps_db st))\<rparr>"
proof -
  have "distinct (mapKeys (db_jobs (ps_db st)))" by (rule agrees_distinct [OF sim_agrees [OF sim] wf])
  then have "pj_queue row = q" if "(k, row) \<in> set (db_jobs (ps_db st))" for k row
    using plain_row [OF sim ps, of k row] that by (metis mapGet_iff)
  then have "map_ran (\<lambda>_ row. if pj_queue row = q \<and> pj_state row = Delayed \<and> pj_runAt row \<le> now then row\<lparr>pj_state := Waiting\<rparr> else row)
      (db_jobs (ps_db st)) = map_ran (\<lambda>_. promoteRow now) (db_jobs (ps_db st))"
    by (auto simp: map_ran_def promoteRow_def)
  then show ?thesis by (simp add: promoteDueRows_def updateJobs_def)
qed

lemma promote_due_pg:
  assumes sim: "pgSimulates st s" and ps: "plainStore q s" and wf: "wellFormed s"
  shows "pgSimulates (st\<lparr>ps_db := promoteDueRows q now (ps_db st)\<rparr>) (promoteDue now s)"
proof -
  have "pgAgrees (promoteDueRows q now (ps_db st)) (promoteDue now s)"
    unfolding promote_rows [OF sim ps wf]
    by (rule agrees_all [OF sim_agrees [OF sim], where F = "promoteRow now" and G = "promoteJob now"])
      (use sim_agrees [OF sim] in \<open>auto simp: promoteDue_def map_ran_conv pgAgrees_def promoteRow_def promoteJob_def rowAgrees_iff\<close>)
  then show ?thesis using sim_wake [OF sim] by (simp add: pgSimulates_def promoteDue_def)
qed

lemma head_least: "toSorted cmp xs = c # cs \<Longrightarrow> consistent_cmp cmp (set xs) \<Longrightarrow> c \<in> set xs \<and> (\<forall>x\<in>set xs. x = c \<or> cmp c x \<le> 0)"
  using sorted_toSorted [of cmp xs] set_toSorted [of cmp xs] by auto

lemma nextDelayed_iff:
  "nextDelayed opts db = Some r \<longleftrightarrow>
     (\<exists>row\<in>set (mapValues (db_jobs db)). pj_queue row = co_queue opts \<and> pj_state row = Delayed \<and> pj_name row \<in> set (co_names opts)
        \<and> pj_runAt row = r)
   \<and> (\<forall>row\<in>set (mapValues (db_jobs db)). pj_queue row = co_queue opts \<and> pj_state row = Delayed \<and> pj_name row \<in> set (co_names opts)
        \<longrightarrow> r \<le> pj_runAt row)"
proof -
  define due where "due = map pj_runAt (filter (\<lambda>row. pj_queue row = co_queue opts \<and> pj_state row = Delayed
    \<and> pj_name row \<in> set (co_names opts)) (mapValues (db_jobs db)))"
  have "nextDelayed opts db = (if due = [] then None else Some (Min (set due)))" by (simp add: nextDelayed_def due_def)
  also have "\<dots> = Some r \<longleftrightarrow> r \<in> set due \<and> (\<forall>x\<in>set due. r \<le> x)" by (auto intro: Min_eqI)
  finally show ?thesis by (auto simp: due_def)
qed

lemma waiting_rows:
  assumes sim: "pgSimulates st s" and wf: "wellFormed s"
  shows "(\<exists>row\<in>set (mapValues (db_jobs (ps_db st))). P (pj_queue row) (pj_name row) (pj_state row) (pj_runAt row)) \<longleftrightarrow>
    (\<exists>k job. mapGet (jobs s) k = Some job \<and> P (j_queue job) (j_name job) (j_state job) (j_runAt job))"
proof -
  have ag: "pgAgrees (ps_db st) s" by (rule sim_agrees [OF sim])
  have "row \<in> set (mapValues (db_jobs (ps_db st))) \<longleftrightarrow> (\<exists>k. mapGet (db_jobs (ps_db st)) k = Some row)" for row
    by (rule mapValues_in [OF agrees_distinct [OF ag wf]])
  then have "(\<exists>row\<in>set (mapValues (db_jobs (ps_db st))). P (pj_queue row) (pj_name row) (pj_state row) (pj_runAt row)) \<longleftrightarrow>
    (\<exists>k row. mapGet (db_jobs (ps_db st)) k = Some row \<and> P (pj_queue row) (pj_name row) (pj_state row) (pj_runAt row))" by blast
  also have "\<dots> \<longleftrightarrow> (\<exists>k job. mapGet (jobs s) k = Some job \<and> P (j_queue job) (j_name job) (j_state job) (j_runAt job))"
  proof -
    have "(\<exists>row. mapGet (db_jobs (ps_db st)) k = Some row \<and> P (pj_queue row) (pj_name row) (pj_state row) (pj_runAt row)) \<longleftrightarrow>
        (\<exists>job. mapGet (jobs s) k = Some job \<and> P (j_queue job) (j_name job) (j_state job) (j_runAt job))" for k
      using agrees_entry [OF ag, of k] by (auto simp: entryAgrees_def rowAgrees_iff split: option.splits)
    then show ?thesis by blast
  qed
  finally show ?thesis .
qed

lemma best_candidate:
  assumes sim: "pgSimulates st s" and wf: "wellFormed s" and head: "candidates opts (ps_db st) = c # cs"
    and job: "mapGet (jobs s) i = Some job" "eligible opts job" "j_state job = Waiting"
    and least: "\<And>k x. mapGet (jobs s) k = Some x \<Longrightarrow> eligible opts x \<Longrightarrow> j_state x = Waiting \<Longrightarrow> jobRank job \<le> jobRank x"
  shows "mapGet (db_jobs (ps_db st)) i = Some c"
proof -
  let ?db = "ps_db st"
  let ?xs = "filter (\<lambda>row. pj_queue row = co_queue opts \<and> pj_state row = Waiting \<and> pj_name row \<in> set (co_names opts)) (mapValues (db_jobs ?db))"
  have ag: "pgAgrees ?db s" by (rule sim_agrees [OF sim])
  have vals: "row \<in> set (mapValues (db_jobs ?db)) \<longleftrightarrow> (\<exists>k. mapGet (db_jobs ?db) k = Some row)" for row
    by (rule mapValues_in [OF agrees_distinct [OF ag wf]])
  from agrees_job [OF ag job(1)] obtain row where row: "mapGet (db_jobs ?db) i = Some row" "rowAgrees row job" .
  have "c \<in> set ?xs \<and> (\<forall>x\<in>set ?xs. x = c \<or> claimCmp c x \<le> 0)"
    by (rule head_least [OF _ claim_order]) (use head in \<open>simp add: candidates_def\<close>)
  then have c: "c \<in> set ?xs" and first: "\<And>x. x \<in> set ?xs \<Longrightarrow> x = c \<or> claimCmp c x \<le> 0" by blast+
  from c vals obtain k where k: "mapGet (db_jobs ?db) k = Some c" by (simp del: set_map) blast
  from agrees_row [OF ag k] obtain jc where jc: "mapGet (jobs s) k = Some jc" "rowAgrees c jc" .
  have rank: "jobRank job \<le> jobRank jc" by (rule least [OF jc(1)]) (use c jc(2) in \<open>auto simp: eligible_def rowAgrees_iff\<close>)
  have "row \<in> set ?xs" using row job vals by (auto simp: eligible_def rowAgrees_iff simp del: set_map)
  from first [OF this] have "row = c \<or> claimCmp c row \<le> 0" .
  then show ?thesis
  proof
    assume "claimCmp c row \<le> 0"
    then have "j_priority job = j_priority jc \<and> pj_seq c \<le> pj_seq row \<and> m_seq job \<le> m_seq jc"
      using rank row(2) jc(2) by (auto simp: claimCmp_def jobRank_def rowAgrees_iff less_eq_prod_def split: if_splits)
    moreover have "m_seq job < m_seq jc \<longleftrightarrow> pj_seq row < pj_seq c"
      using ag job(1) jc(1) row(1) k by (simp add: pgAgrees_def seqsAgree_def seqIn_def)
    ultimately have "m_seq job = m_seq jc" by linarith
    then have "i = k" using wf job(1) jc(1) by (auto simp: wellFormed_def wfx_def seq_ok_def)
    with k show ?thesis by simp
  qed (use row in simp)
qed

lemma claim_pg:
  assumes sim: "pgSimulates st s" and wf: "wellFormed s" and ps: "plainStore q s" and q: "co_queue opts = q"
  shows "fst (pgClaim (\<lambda>_. False) now opts st) = fst (claim now opts s)
    \<and> pgSimulates (snd (pgClaim (\<lambda>_. False) now opts st)) (snd (claim now opts s))"
proof -
  let ?db = "promoteDueRows q now (ps_db st)" and ?s = "promoteDue now s"
  let ?st = "st\<lparr>ps_db := ?db\<rparr>"
  have sim1: "pgSimulates ?st ?s" by (rule promote_due_pg [OF sim ps wf])
  have wf1: "wellFormed ?s" by (rule promoteDue_wf [OF wf])
  have ag1: "pgAgrees ?db ?s" using sim_agrees [OF sim1] by simp
  have paused: "mapGet (db_queues ?db) q = Some True \<longleftrightarrow> q \<in> set (paused s)"
    using ag1 by (simp add: pgAgrees_def promoteDue_def)
  have wake: "pw_version (ps_wake st) = wakeVersion s" using sim_wake [OF sim] by (simp add: pgWakeOf_def)
  have all: "filter (\<lambda>row. \<not> False) xs = xs" for xs :: "pg_job list" by simp
  have "ps_db ?st = ?db" by simp
  note rows = waiting_rows [OF sim1 wf1, unfolded this]
  show ?thesis
    using wf
  proof (cases rule: claim_cases [where now = now and opts = opts])
    case (claimed j)
    let ?j = "promoteJob now j"
    have j: "mapGet (jobs ?s) (j_id j) = Some ?j" "eligible opts ?j" "j_state ?j = Waiting" "q \<notin> set (paused s)"
      using claimed(2,3) q by (auto simp: readyJob_def eligible_def promoteJob_runnable)
    have least: "jobRank ?j \<le> jobRank x" if "mapGet (jobs ?s) k = Some x" "eligible opts x" "j_state x = Waiting" for k x
      using that claimed(2) claimed(4) [of k] q j(4)
      by (auto simp: readyJob_def rankOf_def eligible_def promoteJob_runnable)
    from agrees_job [OF ag1 j(1)] obtain row where row: "mapGet (db_jobs ?db) (j_id j) = Some row" "rowAgrees row ?j" .
    have "\<exists>r\<in>set (mapValues (db_jobs ?db)). pj_queue r = q \<and> pj_state r = Waiting \<and> pj_name r \<in> set (co_names opts)"
      unfolding rows [of "\<lambda>qu na sta _. qu = q \<and> sta = Waiting \<and> na \<in> set (co_names opts)"]
      using j q unfolding eligible_def by metis
    then have "set (candidates opts ?db) \<noteq> {}" using q by (auto simp: candidates_def)
    then obtain c cs where head: "candidates opts ?db = c # cs" by (cases "candidates opts ?db") auto
    have "mapGet (db_jobs (ps_db ?st)) (j_id j) = Some c"
      by (rule best_candidate [OF sim1 wf1 _ j(1-3) least]) (use head in simp_all)
    then have c: "c = row" using row(1) by simp
    have id: "pj_id row = j_id j" using row(2) by (simp add: rowAgrees_iff)
    let ?row = "takeRow opts now row" and ?job = "activate opts now ?j"
    have ra: "rowAgrees ?row ?job" using row(2) j(3) by (auto simp: rowAgrees_iff takeRow_def activate_def)
    have "pgSimulates (?st\<lparr>ps_db := (ps_db ?st)\<lparr>db_jobs := mapSet (j_id j) ?row (db_jobs (ps_db ?st))\<rparr>\<rparr>) (putJob ?job ?s)"
      by (rule sim_touch [OF sim1 wf1 j(1) ra]) (use row(1) in \<open>simp_all add: activate_def takeRow_def seqIn_def\<close>)
    moreover have "pgClaim (\<lambda>_. False) now opts st =
        (Claimed (pgToRecord ?row), st\<lparr>ps_db := ?db\<lparr>db_jobs := mapSet (j_id j) ?row (db_jobs ?db)\<rparr>\<rparr>)"
      using j(4) paused head row(1) c id by (simp add: pgClaim_def q Let_def updateJob_def)
    moreover have "pgToRecord ?row = snapshot ?job" using ra by (simp add: rowAgrees_def)
    ultimately show ?thesis using claimed(1) by simp
  next
    case (empty nextRunAt)
    have none: "\<not> (\<exists>r\<in>set (mapValues (db_jobs ?db)). pj_queue r = q \<and> pj_state r = Waiting \<and> pj_name r \<in> set (co_names opts))"
      if "q \<notin> set (paused s)"
      unfolding rows [of "\<lambda>qu na sta _. qu = q \<and> sta = Waiting \<and> na \<in> set (co_names opts)"]
    proof
      assume "\<exists>k job. mapGet (jobs ?s) k = Some job \<and> j_queue job = q \<and> j_state job = Waiting \<and> j_name job \<in> set (co_names opts)"
      then obtain k x where "mapGet (jobs s) k = Some x" "eligible opts x" "runnable now x"
        using q by (auto simp: eligible_def promoteJob_runnable)
      with empty(2) [of k] that q show False by (simp add: readyJob_def)
    qed
    then have "(if mapGet (db_queues ?db) q = Some True then [] else candidates opts ?db) = []"
    proof (cases "q \<in> set (paused s)")
      case False
      then have "set (candidates opts ?db) = {}" using none q by (auto simp: candidates_def)
      then show ?thesis by simp
    qed (simp add: paused)
    then have pg: "pgClaim (\<lambda>_. False) now opts st = (Empty (nextDelayed opts ?db) (wakeVersion s), ?st)"
      by (auto simp: pgClaim_def q Let_def wake split: if_splits)
    have "nextDelayed opts ?db = Some r \<longleftrightarrow> nextRunAt = Some r" for r
    proof -
      have d: "j_state (promoteJob now x) = Delayed \<longleftrightarrow> j_state x = Delayed \<and> now < j_runAt x" for x
        by (auto simp: promoteJob_def)
      have later: "(\<exists>k job. mapGet (jobs ?s) k = Some job \<and> j_queue job = q \<and> j_state job = Delayed \<and> j_name job \<in> set (co_names opts)
            \<and> R (j_runAt job)) \<longleftrightarrow>
          (\<exists>k x. mapGet (jobs s) k = Some x \<and> eligible opts x \<and> j_state x = Delayed \<and> now < j_runAt x \<and> R (j_runAt x))" for R
      proof -
        have "(\<exists>job. mapGet (jobs ?s) k = Some job \<and> j_queue job = q \<and> j_state job = Delayed \<and> j_name job \<in> set (co_names opts)
              \<and> R (j_runAt job)) \<longleftrightarrow>
            (\<exists>x. mapGet (jobs s) k = Some x \<and> eligible opts x \<and> j_state x = Delayed \<and> now < j_runAt x \<and> R (j_runAt x))" for k
          by (cases "mapGet (jobs s) k") (auto simp: d eligible_def q)
        then show ?thesis by blast
      qed
      note found = rows [of "\<lambda>qu na sta run. qu = q \<and> sta = Delayed \<and> na \<in> set (co_names opts) \<and> run = r"]
      note below = rows [of "\<lambda>qu na sta run. qu = q \<and> sta = Delayed \<and> na \<in> set (co_names opts) \<and> run < r"]
      have "nextDelayed opts ?db = Some r \<longleftrightarrow>
          (\<exists>row\<in>set (mapValues (db_jobs ?db)). pj_queue row = q \<and> pj_state row = Delayed \<and> pj_name row \<in> set (co_names opts) \<and> pj_runAt row = r)
        \<and> \<not> (\<exists>row\<in>set (mapValues (db_jobs ?db)). pj_queue row = q \<and> pj_state row = Delayed \<and> pj_name row \<in> set (co_names opts) \<and> pj_runAt row < r)"
        unfolding nextDelayed_iff q by (meson linorder_not_less)
      also have "\<dots> \<longleftrightarrow> nextRunAt = Some r"
        unfolding found below later [of "\<lambda>run. run = r"] later [of "\<lambda>run. run < r"] empty(3) linorder_not_less [symmetric]
        by blast
      finally show ?thesis .
    qed
    then have "nextDelayed opts ?db = nextRunAt" by (metis option.exhaust)
    then show ?thesis using pg empty(1) sim1 by simp
  qed
qed

end
