(* ===== verification/PgRecoverSim.thy ===== *)
theory PgRecoverSim
  imports PgClaimSim
begin

text \<open>
  The relation along the verbs that change many jobs at once: the renewal of locks, one UPDATE over a
  join, and the recovery of stalled jobs, one UPDATE followed by the ledger entry and the report of each
  row it returns.
\<close>

section \<open>extendLocks\<close>

definition renewed :: "millis \<Rightarrow> (job_id \<times> string) list \<Rightarrow> mem_job \<Rightarrow> mem_job" where
  "renewed e locks job =
     (if j_state job = Active \<and> \<not> j_cancelRequested job \<and> (\<exists>token. (j_id job, token) \<in> set locks \<and> m_lockToken job = Some token)
      then job\<lparr>m_lockExpiresAt := Some e\<rparr> else job)"

definition missesLock :: "mem_store \<Rightarrow> job_id \<times> string \<Rightarrow> bool" where
  "missesLock s l \<longleftrightarrow> holdsLock s (fst l) (snd l) = None"

definition wantsCancel :: "mem_store \<Rightarrow> job_id \<times> string \<Rightarrow> bool" where
  "wantsCancel s l \<longleftrightarrow> (case holdsLock s (fst l) (snd l) of None \<Rightarrow> False | Some job \<Rightarrow> j_cancelRequested job)"

lemma renewed_cons:
  "renewed e ((i, token) # locks) job =
     (if j_id job = i \<and> j_state job = Active \<and> m_lockToken job = Some token \<and> \<not> j_cancelRequested job
      then job\<lparr>m_lockExpiresAt := Some e\<rparr> else renewed e locks job)"
  unfolding renewed_def by (cases "m_lockToken job"; cases "j_id job = i"; auto)

lemma extendLocks_closed:
  assumes "\<And>i job. mapGet (jobs s) i = Some job \<Longrightarrow> j_id job = i" and "distinct (map fst locks)"
  shows "fst (extendLocks now locks d s) = \<lparr>xl_lost = map fst (filter (missesLock s) locks),
      xl_cancelRequested = map fst (filter (wantsCancel s) locks)\<rparr>
    \<and> (\<forall>k. mapGet (jobs (snd (extendLocks now locks d s))) k = map_option (renewed (now + d) locks) (mapGet (jobs s) k))
    \<and> mapKeys (jobs (snd (extendLocks now locks d s))) = mapKeys (jobs s)
    \<and> paused (snd (extendLocks now locks d s)) = paused s \<and> outbox (snd (extendLocks now locks d s)) = outbox s
    \<and> wakeFields (snd (extendLocks now locks d s)) = wakeFields s"
  using assms
proof (induction now locks d s rule: extendLocks.induct)
  case (1 now d s)
  have "renewed (now + d) [] = (\<lambda>job. job)" by (simp add: renewed_def fun_eq_iff)
  then show ?case by (simp add: option.map_ident)
next
  case (2 now i token locks d s)
  have fresh: "\<And>t. (i, t) \<notin> set locks" and dist: "distinct (map fst locks)" using "2.prems"(2) by force+
  show ?case
  proof (cases "holdsLock s i token")
    case None
    have "map_option (renewed (now + d) ((i, token) # locks)) (mapGet (jobs s) k) = map_option (renewed (now + d) locks) (mapGet (jobs s) k)" for k
      using None "2.prems"(1) [of k] by (cases "mapGet (jobs s) k") (auto simp: renewed_cons holdsLock_def)
    note same = this
    have "missesLock s (i, token)" "\<not> wantsCancel s (i, token)" using None by (simp_all add: missesLock_def wantsCancel_def)
    then show ?thesis using "2.IH"(1) [OF None "2.prems"(1) dist] None by (simp add: split_beta same)
  next
    case (Some job)
    then have job: "mapGet (jobs s) i = Some job" "j_state job = Active" "m_lockToken job = Some token"
      by (auto simp: holdsLock_def split: option.splits if_splits)
    have id: "j_id job = i" by (rule "2.prems"(1) [OF job(1)])
    show ?thesis
    proof (cases "j_cancelRequested job")
      case True
      have "map_option (renewed (now + d) ((i, token) # locks)) (mapGet (jobs s) k) = map_option (renewed (now + d) locks) (mapGet (jobs s) k)" for k
        using True job "2.prems"(1) [of k] by (cases "mapGet (jobs s) k") (auto simp: renewed_cons)
      note same = this
      have "\<not> missesLock s (i, token)" "wantsCancel s (i, token)" using Some True by (simp_all add: missesLock_def wantsCancel_def)
      then show ?thesis using "2.IH"(2) [OF Some True "2.prems"(1) dist] Some True by (simp add: split_beta same)
    next
      case False
      define t where "t = putJob (job\<lparr>m_lockExpiresAt := Some (now + d)\<rparr>) s"
      have get: "mapGet (jobs t) k = (if k = i then Some (job\<lparr>m_lockExpiresAt := Some (now + d)\<rparr>) else mapGet (jobs s) k)" for k
        using id by (simp add: t_def)
      have ids: "mapGet (jobs t) k = Some x \<Longrightarrow> j_id x = k" for k x
        using "2.prems"(1) [of k x] id by (auto simp: get split: if_splits)
      have others: "holdsLock t (fst l) (snd l) = holdsLock s (fst l) (snd l)" if "l \<in> set locks" for l
      proof -
        have "fst l \<noteq> i" using that fresh [of "snd l"] by (cases l) auto
        then show ?thesis by (simp add: holdsLock_def get)
      qed
      have filters: "filter (missesLock t) locks = filter (missesLock s) locks" "filter (wantsCancel t) locks = filter (wantsCancel s) locks"
        using others by (auto simp: missesLock_def wantsCancel_def intro!: filter_cong)
      have ren: "map_option (renewed (now + d) locks) (mapGet (jobs t) k) = map_option (renewed (now + d) ((i, token) # locks)) (mapGet (jobs s) k)" for k
      proof (cases "k = i")
        case True
        have "renewed (now + d) locks (job\<lparr>m_lockExpiresAt := Some (now + d)\<rparr>) = job\<lparr>m_lockExpiresAt := Some (now + d)\<rparr>"
          using fresh id by (simp add: renewed_def)
        moreover have "renewed (now + d) ((i, token) # locks) job = job\<lparr>m_lockExpiresAt := Some (now + d)\<rparr>"
          using job id False by (simp add: renewed_cons)
        ultimately show ?thesis using True job(1) by (simp add: get)
      next
        case other: False
        then show ?thesis using "2.prems"(1) [of k] id by (cases "mapGet (jobs s) k") (simp_all add: renewed_cons get)
      qed
      have keys: "mapKeys (jobs t) = mapKeys (jobs s)" unfolding t_def using job id by (simp del: set_map)
      have "paused t = paused s" "outbox t = outbox s" "wakeFields t = wakeFields s" by (simp_all add: t_def)
      moreover have "\<not> missesLock s (i, token)" "\<not> wantsCancel s (i, token)" using Some False
        by (simp_all add: missesLock_def wantsCancel_def)
      moreover have "extendLocks now ((i, token) # locks) d s = extendLocks now locks d t" using Some False by (simp add: t_def)
      ultimately show ?thesis using "2.IH"(3) [OF Some False, folded t_def, OF ids dist] by (simp add: filters ren keys)
    qed
  qed
qed

lemma lock_reads:
  assumes "pgSimulates st s"
  shows "renews (ps_db st) l \<longleftrightarrow> \<not> missesLock s l \<and> \<not> wantsCancel s l" and "asksCancel (ps_db st) l \<longleftrightarrow> wantsCancel s l"
    and "wantsCancel s l \<Longrightarrow> \<not> missesLock s l"
  using agrees_entry [OF sim_agrees [OF assms], of "fst l"]
  by (auto simp: renews_def asksCancel_def missesLock_def wantsCancel_def holdsLock_def entryAgrees_def pgHolds_def rowAgrees_iff
      split: option.splits if_splits)

definition renewRow :: "millis \<Rightarrow> job_id list \<Rightarrow> pg_job \<Rightarrow> pg_job" where
  "renewRow e ids row = (if pj_id row \<in> set ids then row\<lparr>pj_lockExpiresAt := Some e\<rparr> else row)"

lemma extend_pg:
  assumes sim: "pgSimulates st s" and wf: "wellFormed s" and ps: "plainStore q s" and dist: "distinct (map fst locks)"
  shows "fst (pgExtendLocks now locks d st) = fst (extendLocks now locks d s)
    \<and> pgSimulates (snd (pgExtendLocks now locks d st)) (snd (extendLocks now locks d s))"
proof (cases "locks = []")
  case True
  then show ?thesis using sim by (simp add: pgExtendLocks_def)
next
  case False
  let ?db = "ps_db st" and ?s = "snd (extendLocks now locks d s)"
  let ?ids = "map fst (filter (renews ?db) locks)"
  let ?db' = "?db\<lparr>db_jobs := map_ran (\<lambda>_. renewRow (now + d) ?ids) (db_jobs ?db)\<rparr>"
  have ag: "pgAgrees ?db s" by (rule sim_agrees [OF sim])
  note mem = extendLocks_closed [OF wf_id [OF wf] dist, where now = now and d = d]
  have ids: "fst l \<in> set ?ids \<longleftrightarrow> renews ?db l" if "l \<in> set locks" for l
    using that dist by (auto simp: distinct_map dest: inj_onD)
  have cls: "filter (\<lambda>l. \<not> asksCancel ?db l) (filter (\<lambda>l. fst l \<notin> set ?ids) locks) = filter (missesLock s) locks"
    "filter (asksCancel ?db) (filter (\<lambda>l. fst l \<notin> set ?ids) locks) = filter (wantsCancel s) locks"
    unfolding filter_filter using ids lock_reads [OF sim] by (auto intro!: filter_cong simp del: set_map)
  have call: "pgExtendLocks now locks d st = (\<lparr>xl_lost = map fst (filter (missesLock s) locks),
      xl_cancelRequested = map fst (filter (wantsCancel s) locks)\<rparr>, st\<lparr>ps_db := ?db'\<rparr>)"
    using False by (simp only: pgExtendLocks_def Let_def cls updateJobs_def snd_conv if_False renewRow_def [abs_def])
  have row: "rowAgrees (renewRow (now + d) ?ids r) (renewed (now + d) locks job) \<and> pj_seq (renewRow (now + d) ?ids r) = pj_seq r
      \<and> m_seq (renewed (now + d) locks job) = m_seq job \<and> m_attempts (renewed (now + d) locks job) = m_attempts job"
    if k: "mapGet (db_jobs ?db) k = Some r" "mapGet (jobs s) k = Some job" "rowAgrees r job" for k r job
  proof -
    have id: "j_id job = k" "pj_id r = k" using wf_id [OF wf k(2)] k(3) by (simp_all add: rowAgrees_iff)
    have "k \<in> set ?ids \<longleftrightarrow> j_state job = Active \<and> \<not> j_cancelRequested job
        \<and> (\<exists>token. (j_id job, token) \<in> set locks \<and> m_lockToken job = Some token)"
      using k id by (auto simp: renews_def pgHolds_def rowAgrees_iff image_iff)
    then show ?thesis using k(3) id by (auto simp: renewRow_def renewed_def rowAgrees_iff)
  qed
  have "pgAgrees ?db' ?s"
    by (rule agrees_all [OF ag, where F = "renewRow (now + d) ?ids" and G = "renewed (now + d) locks"])
      (use mem row ag in \<open>simp_all add: map_ran_conv pgAgrees_def\<close>)
  then have "pgSimulates (st\<lparr>ps_db := ?db'\<rparr>) ?s" using sim_wake [OF sim] pgWakeOf_fields [of ?s s] mem by (simp add: pgSimulates_def)
  then show ?thesis using mem by (simp only: call fst_conv snd_conv simp_thms)
qed

section \<open>recoverStalled\<close>

lemma recovered_row:
  assumes "rowAgrees row job" and "stalled now job" and "job_ok k job"
  shows "rowAgrees (recoverSet now m row) (recoveredJob now m job)"
proof -
  have st: "j_state job = Active" "j_finishedAt job = None" "j_failedReason job = None"
    using assms by (auto simp: stalled_def job_ok_def TERMINAL_STATES_def rowAgrees_iff)
  then show ?thesis using assms(1,2)
    by (simp add: rowAgrees_iff recoverSet_def unlockRow_def recoveredJob_def clearLock_def recordAttempt_def Let_def)
qed

lemma settled_ledger:
  assumes "map pgToAttempt (ledgerOf db (pj_id row)) = m_attempts job" and "numbered (m_attempts job)"
    and "pj_processedAt row = j_processedAt job" and "pj_dedupeKey row = None"
  shows "map pgToAttempt (ledgerOf (settleTerminal row oc t None now db) (pj_id row)) = m_attempts (recordAttempt oc now None job)"
    and "i \<noteq> pj_id row \<Longrightarrow> ledgerOf (settleTerminal row oc t None now db) i = ledgerOf db i"
    and "db_jobs (settleTerminal row oc t None now db) = db_jobs db" "db_queues (settleTerminal row oc t None now db) = db_queues db"
    "db_children (settleTerminal row oc t None now db) = db_children db" "db_seq (settleTerminal row oc t None now db) = db_seq db"
  using ledger_records [OF assms(1,2,3)] assms(4)
  by (simp_all add: settleTerminal_def Let_def pgReleaseDedupe_def ledger_insert)

lemma settled_outbox:
  assumes "list_all2 sentAs (db_outbox db) (outbox s)" and "rowAgrees row job" and "j_dedupeKey job = None"
  shows "list_all2 sentAs (db_outbox (settleTerminal row oc t ex now db)) (outbox (appendOutbox job t s))"
proof -
  let ?db = "insertAttempt (pj_id row) oc (pj_processedAt row) now ex db"
  have "list_all2 sentAs (db_outbox ?db) (outbox s)" using assms(1) by simp
  from outbox_appends [OF this, of job t] assms(2,3) show ?thesis
    by (simp add: settleTerminal_def Let_def pgReleaseDedupe_def rowAgrees_iff)
qed

lemma outbox_of_same: "list_all2 sentAs xs (outbox (appendOutbox job t s)) \<Longrightarrow> outbox s' = outbox s \<Longrightarrow>
    outboxSeq s' = outboxSeq s \<Longrightarrow> list_all2 sentAs xs (outbox (appendOutbox job t s'))"
  by (simp add: appendOutbox_def split: option.splits)

lemma recover_one:
  assumes ra: "rowAgrees row job" and st: "stalled now job" and job: "mapGet (jobs s) k = Some job" "job_ok k job"
    and plain: "j_keep job = None" "j_dedupeKey job = None"
    and led: "map pgToAttempt (ledgerOf (ps_db st) k) = m_attempts job"
    and sent: "list_all2 sentAs (db_outbox (ps_db st)) (outbox s)"
  obtains db' where "recoverRow now (recoverSet now m row) (Inr rep, st) = (Inr (rep @ recoverReport now m s k), st\<lparr>ps_db := db'\<rparr>)"
    and "db_jobs db' = db_jobs (ps_db st)" "db_queues db' = db_queues (ps_db st)" "db_children db' = db_children (ps_db st)"
      "db_seq db' = db_seq (ps_db st)"
    and "\<And>i. i \<noteq> k \<Longrightarrow> ledgerOf db' i = ledgerOf (ps_db st) i"
    and "map pgToAttempt (ledgerOf db' k) = m_attempts (recoveredJob now m job)"
    and "list_all2 sentAs (db_outbox db') (outbox (snd (recoverStep now m k (rep', s))))"
proof -
  let ?row = "recoverSet now m row" and ?job = "recoveredJob now m job"
  have ra': "rowAgrees ?row ?job" by (rule recovered_row [OF ra st job(2)])
  have act: "j_state job = Active" using st by (simp add: stalled_def)
  have id: "j_id job = k" and num: "numbered (m_attempts job)" using job(2) by (simp_all add: job_ok_def)
  have key: "j_dedupeKey ?job = None" using plain(2) by (simp add: recoveredJob_def clearLock_def recordAttempt_def Let_def)
  have f: "pj_id ?row = k" "pj_dedupeKey ?row = None" "pj_processedAt ?row = j_processedAt job" "pj_keep ?row = None"
    using ra id plain by (simp_all add: rowAgrees_iff recoverSet_def unlockRow_def Let_def)
  have ex: "pj_state ?row = (if j_cancelRequested job then Cancelled else if j_stalledCount job + 1 > m then Failed else Waiting)"
    using ra by (simp add: rowAgrees_iff recoverSet_def Let_def)
  have step: "recoverStep now m k (rep', s) = recoverJob now m job (rep', s)" using job(1) st by (simp add: recoverStep_def)
  note settled = settled_ledger [of "ps_db st" ?row job, unfolded f, OF led num refl refl]
  consider (cancel) "j_cancelRequested job" | (fail) "\<not> j_cancelRequested job" "j_stalledCount job + 1 > m"
    | (again) "\<not> j_cancelRequested job" "\<not> j_stalledCount job + 1 > m" by blast
  then show thesis
  proof cases
    case cancel
    have job': "?job = recordAttempt ACancelled now None (cancelledJob now job)"
      using cancel st by (simp add: recoveredJob_def cancelledJob_def)
    have "outbox (snd (recoverStep now m k (rep', s))) = outbox (appendOutbox ?job TCancelled (putJob ?job s))"
      using cancel act plain by (simp add: step recoverJob_def markCancelled_plain job' Let_def)
    then have "list_all2 sentAs (db_outbox (settleTerminal ?row ACancelled TCancelled None now (ps_db st)))
        (outbox (snd (recoverStep now m k (rep', s))))"
      using outbox_of_same [OF settled_outbox [OF sent ra' key]] by (simp add: putJob_def)
    then show thesis
      by (intro that [of "settleTerminal ?row ACancelled TCancelled None now (ps_db st)"])
        (use cancel st f ex job in \<open>simp_all add: recoverRow_def recoverReport_def settled job' cancelledJob_def clearLock_def recordAttempt_def\<close>)
  next
    case fail
    have job': "?job = (recordAttempt AStalled now None ((clearLock job)\<lparr>j_stalledCount := j_stalledCount job + 1\<rparr>))
        \<lparr>j_state := Failed, j_finishedAt := Some now, j_failedReason := Some ''job stalled more than allowable limit''\<rparr>"
      using fail st by (simp add: recoveredJob_def Let_def)
    have "outbox (snd (recoverStep now m k (rep', s))) = outbox (appendOutbox ?job TFailed (putJob ?job s))"
      using fail by (simp add: step recoverJob_def job' Let_def clearLock_def recordAttempt_def)
    then have "list_all2 sentAs (db_outbox (settleTerminal ?row AStalled TFailed None now (ps_db st)))
        (outbox (snd (recoverStep now m k (rep', s))))"
      using outbox_of_same [OF settled_outbox [OF sent ra' key]] by (simp add: putJob_def)
    then show thesis
      by (intro that [of "settleTerminal ?row AStalled TFailed None now (ps_db st)"])
        (use fail st f ex job in \<open>simp_all add: recoverRow_def recoverReport_def settled job' clearLock_def recordAttempt_def\<close>)
  next
    case again
    have job': "?job = (recordAttempt AStalled now None ((clearLock job)\<lparr>j_stalledCount := j_stalledCount job + 1\<rparr>))\<lparr>j_state := Waiting\<rparr>"
      using again st by (simp add: recoveredJob_def Let_def)
    have "outbox (snd (recoverStep now m k (rep', s))) = outbox s"
      using again by (simp add: step recoverJob_def Let_def clearLock_def recordAttempt_def)
    moreover have "map pgToAttempt (ledgerOf (insertAttempt k AStalled (j_processedAt job) now None (ps_db st)) k) = m_attempts ?job"
      using ledger_records [OF led num refl, of None AStalled now] by (simp add: job' clearLock_def recordAttempt_def)
    ultimately show thesis
      by (intro that [of "insertAttempt k AStalled (j_processedAt job) now None (ps_db st)"])
        (use again st f ex job sent in \<open>simp_all add: recoverRow_def recoverReport_def ledger_insert\<close>)
  qed
qed

lemma recoverSteps_keys:
  assumes "\<And>i job. mapGet (jobs s) i = Some job \<Longrightarrow> j_id job = i \<and> j_keep job = None"
  shows "mapKeys (jobs (snd (fold (recoverStep now m) js (reported, s)))) = mapKeys (jobs s)"
  using assms
proof (induction js arbitrary: reported s)
  case (Cons j js)
  let ?a = "recoverStep now m j (reported, s)"
  have a: "mapKeys (jobs (snd ?a)) = mapKeys (jobs s) \<and> (\<forall>i x. mapGet (jobs (snd ?a)) i = Some x \<longrightarrow> j_id x = i \<and> j_keep x = None)"
  proof (cases "mapGet (jobs s) j")
    case None
    then show ?thesis using Cons.prems by (simp add: recoverStep_def)
  next
    case (Some job)
    then have job: "j_id job = j" "j_keep job = None" using Cons.prems by blast+
    note recoverStep_effect(2) [OF Some job, of now m reported]
    then show ?thesis using Some job Cons.prems by (simp del: set_map)
  qed
  from Cons.IH [of "snd ?a" "fst ?a"] a show ?case by simp
qed simp

lemma stalled_rows: "rowAgrees row job \<Longrightarrow> pgStalled now row \<longleftrightarrow> stalled now job"
  by (auto simp: pgStalled_def stalled_def rowAgrees_iff split: option.split)

text \<open>The rows of a part \<open>es\<close> of the table, and the same part of the in-memory jobs.\<close>

definition rowsRecovered :: "millis \<Rightarrow> int \<Rightarrow> mem_store \<Rightarrow> (job_id \<times> pg_job) list \<Rightarrow> pg_db \<Rightarrow> pg_db \<Rightarrow> mem_store \<Rightarrow> bool" where
  "rowsRecovered now m s es db db' s' \<longleftrightarrow> db_jobs db' = db_jobs db \<and> db_queues db' = db_queues db
     \<and> db_children db' = db_children db \<and> db_seq db' = db_seq db
     \<and> (\<forall>i. i \<notin> set (map fst es) \<longrightarrow> ledgerOf db' i = ledgerOf db i)
     \<and> (\<forall>k\<in>set (map fst es). \<forall>job. mapGet (jobs s) k = Some job \<longrightarrow>
          map pgToAttempt (ledgerOf db' k) = m_attempts (recoveredJob now m job))
     \<and> list_all2 sentAs (db_outbox db') (outbox s')"

definition rowReady :: "mem_store \<Rightarrow> pg_db \<Rightarrow> job_id \<Rightarrow> pg_job \<Rightarrow> bool" where
  "rowReady s db k row \<longleftrightarrow> (\<exists>job. mapGet (jobs s) k = Some job \<and> rowAgrees row job \<and> job_ok k job
     \<and> j_keep job = None \<and> j_dedupeKey job = None \<and> map pgToAttempt (ledgerOf db k) = m_attempts job)"

lemma rowsRecovered_cons:
  assumes "rowsRecovered now m s1 es db1 db2 s2" and "k \<notin> set (map fst es)"
    and "db_jobs db1 = db_jobs db" "db_queues db1 = db_queues db" "db_children db1 = db_children db" "db_seq db1 = db_seq db"
    and "\<And>i. i \<noteq> k \<Longrightarrow> ledgerOf db1 i = ledgerOf db i" and "\<And>i. i \<noteq> k \<Longrightarrow> mapGet (jobs s1) i = mapGet (jobs s) i"
    and "mapGet (jobs s) k = Some job" and "map pgToAttempt (ledgerOf db1 k) = m_attempts (recoveredJob now m job)"
  shows "rowsRecovered now m s ((k, row) # es) db db2 s2"
  unfolding rowsRecovered_def
proof (intro conjI allI ballI impI)
  show "db_jobs db2 = db_jobs db" "db_queues db2 = db_queues db" "db_children db2 = db_children db" "db_seq db2 = db_seq db"
    "list_all2 sentAs (db_outbox db2) (outbox s2)"
    using assms(1,3-6) by (simp_all add: rowsRecovered_def)
  show "ledgerOf db2 i = ledgerOf db i" if "i \<notin> set (map fst ((k, row) # es))" for i
    using that assms(1,7) by (simp add: rowsRecovered_def)
  show "map pgToAttempt (ledgerOf db2 i) = m_attempts (recoveredJob now m x)"
    if "i \<in> set (map fst ((k, row) # es))" "mapGet (jobs s) i = Some x" for i x
  proof (cases "i = k")
    case True
    then have "ledgerOf db2 i = ledgerOf db1 i" using assms(1,2) by (simp add: rowsRecovered_def)
    then show ?thesis using True that(2) assms(9,10) by simp
  next
    case False
    then have "i \<in> set (map fst es)" "mapGet (jobs s1) i = Some x" using that assms(8) by auto
    then show ?thesis using assms(1) unfolding rowsRecovered_def by blast
  qed
qed

lemma recover_rows:
  assumes "distinct (map fst es)" and "\<And>k row. (k, row) \<in> set es \<Longrightarrow> rowReady s (ps_db st) k row"
    and "list_all2 sentAs (db_outbox (ps_db st)) (outbox s)"
  shows "\<exists>db'. fold (recoverRow now) (map (recoverSet now m) (filter (pgStalled now) (map snd es))) (Inr rep, st)
        = (Inr (rep @ concat (map (recoverReport now m s) (map fst es))), st\<lparr>ps_db := db'\<rparr>)
    \<and> rowsRecovered now m s es (ps_db st) db' (snd (fold (recoverStep now m) (map fst es) (rep', s)))"
  using assms
proof (induction es arbitrary: rep rep' st s)
  case Nil
  then show ?case by (intro exI [of _ "ps_db st"]) (simp add: rowsRecovered_def)
next
  case (Cons e es)
  obtain k row where e: "e = (k, row)" by force
  have dist: "distinct (map fst es)" and k: "k \<notin> set (map fst es)" using Cons.prems(1) e by simp_all
  have rest: "k' \<noteq> k" if "(k', row') \<in> set es" for k' row' using k that by force
  obtain job where job: "mapGet (jobs s) k = Some job" "rowAgrees row job" "job_ok k job" "j_keep job = None" "j_dedupeKey job = None"
    "map pgToAttempt (ledgerOf (ps_db st) k) = m_attempts job"
    using Cons.prems(2) [of k row] e by (auto simp: rowReady_def)
  have id: "j_id job = k" using job(3) by (simp add: job_ok_def)
  let ?a = "recoverStep now m k (rep', s)"
  have others: "mapGet (jobs (snd ?a)) k' = mapGet (jobs s) k'" if "k' \<noteq> k" for k'
    using recoverStep_effect(2) [OF job(1) id job(4), of now m rep'] that by simp
  show ?case
  proof (cases "stalled now job")
    case False
    then have same: "?a = (rep', s)" using job(1) by (simp add: recoverStep_def)
    have noop: "recoveredJob now m job = job" "recoverReport now m s k = []" "\<not> pgStalled now row"
      using False job(1) stalled_rows [OF job(2)] by (simp_all add: recoveredJob_def recoverReport_def)
    have prem: "rowReady s (ps_db st) k' row'" if "(k', row') \<in> set es" for k' row'
      by (rule Cons.prems(2)) (simp add: that)
    from Cons.IH [OF dist prem Cons.prems(3), of rep rep'] obtain db' where
      db': "fold (recoverRow now) (map (recoverSet now m) (filter (pgStalled now) (map snd es))) (Inr rep, st)
        = (Inr (rep @ concat (map (recoverReport now m s) (map fst es))), st\<lparr>ps_db := db'\<rparr>)"
      "rowsRecovered now m s es (ps_db st) db' (snd (fold (recoverStep now m) (map fst es) (rep', s)))" by blast
    have "rowsRecovered now m s ((k, row) # es) (ps_db st) db' (snd (fold (recoverStep now m) (map fst es) (rep', s)))"
      by (rule rowsRecovered_cons [OF db'(2) k _ _ _ _ _ _ job(1)]) (simp_all add: noop job(6))
    then show ?thesis using db'(1) by (simp add: e same noop) blast
  next
    case True
    obtain db' where db': "recoverRow now (recoverSet now m row) (Inr rep, st) = (Inr (rep @ recoverReport now m s k), st\<lparr>ps_db := db'\<rparr>)"
      "db_jobs db' = db_jobs (ps_db st)" "db_queues db' = db_queues (ps_db st)" "db_children db' = db_children (ps_db st)"
      "db_seq db' = db_seq (ps_db st)" "\<And>i. i \<noteq> k \<Longrightarrow> ledgerOf db' i = ledgerOf (ps_db st) i"
      "map pgToAttempt (ledgerOf db' k) = m_attempts (recoveredJob now m job)" "list_all2 sentAs (db_outbox db') (outbox (snd ?a))"
      using recover_one [OF job(2) True job(1,3,4,5,6) Cons.prems(3)] by metis
    have prem: "rowReady (snd ?a) (ps_db (st\<lparr>ps_db := db'\<rparr>)) k' row'" if "(k', row') \<in> set es" for k' row'
      using Cons.prems(2) [of k' row'] that rest [OF that] others [of k'] db'(6) [of k'] by (simp add: rowReady_def)
    have reports: "map (recoverReport now m (snd ?a)) (map fst es) = map (recoverReport now m s) (map fst es)"
      using k others by (intro map_cong [OF refl] recoverReport_cong) metis
    have "list_all2 sentAs (db_outbox (ps_db (st\<lparr>ps_db := db'\<rparr>))) (outbox (snd ?a))" using db'(8) by simp
    from Cons.IH [OF dist prem this, of "rep @ recoverReport now m s k" "fst ?a"] obtain db2 where
      db2: "fold (recoverRow now) (map (recoverSet now m) (filter (pgStalled now) (map snd es)))
          (Inr (rep @ recoverReport now m s k), st\<lparr>ps_db := db'\<rparr>)
        = (Inr ((rep @ recoverReport now m s k) @ concat (map (recoverReport now m s) (map fst es))), (st\<lparr>ps_db := db'\<rparr>)\<lparr>ps_db := db2\<rparr>)"
      "rowsRecovered now m (snd ?a) es (ps_db (st\<lparr>ps_db := db'\<rparr>)) db2 (snd (fold (recoverStep now m) (map fst es) (fst ?a, snd ?a)))"
      unfolding reports by blast
    have "rowsRecovered now m s ((k, row) # es) (ps_db st) db2 (snd (fold (recoverStep now m) (map fst es) (fst ?a, snd ?a)))"
      by (rule rowsRecovered_cons [OF db2(2) k _ _ _ _ _ _ job(1)]) (simp_all add: db' others)
    moreover have "pgStalled now row" using True stalled_rows [OF job(2)] by simp
    ultimately show ?thesis using db2(1) db'(1) by (simp add: e) blast
  qed
qed

lemma recover_pg:
  assumes sim: "pgSimulates st s" and wf: "wellFormed s" and ps: "plainStore q s" and fits: "int4 m"
  shows "(\<exists>reported. fst (pgRecoverStalled now m st) = Inr reported \<and> mset reported = mset (fst (recoverStalled now m s)))
    \<and> pgSimulates (snd (pgRecoverStalled now m st)) (snd (recoverStalled now m s))"
proof -
  let ?db = "ps_db st" and ?rows = "db_jobs (ps_db st)" and ?ks = "mapKeys (jobs s)"
  let ?s = "snd (fold (recoverStep now m) ?ks ([], s))" and ?rep = "concat (map (recoverReport now m s) ?ks)"
  let ?F = "\<lambda>row. if pgStalled now row then recoverSet now m row else row"
  let ?db1 = "?db\<lparr>db_jobs := map_ran (\<lambda>_. ?F) ?rows\<rparr>"
  have ag: "pgAgrees ?db s" by (rule sim_agrees [OF sim])
  have dist: "distinct (mapKeys ?rows)" by (rule agrees_distinct [OF ag wf])
  have keys: "mapKeys ?rows = ?ks" using ag by (simp add: pgAgrees_def)
  have each: "rowReady s (ps_db (st\<lparr>ps_db := ?db1\<rparr>)) k row" if "(k, row) \<in> set ?rows" for k row
  proof -
    have "mapGet ?rows k = Some row" using that dist by (simp only: mapGet_iff)
    from agrees_row [OF ag this] obtain job where job: "mapGet (jobs s) k = Some job" "rowAgrees row job"
      "map pgToAttempt (ledgerOf ?db k) = m_attempts job" .
    then show ?thesis using plain_job [OF ps job(1)] wf_job [OF wf job(1)] by (simp add: plainJob_def rowReady_def)
  qed
  have "list_all2 sentAs (db_outbox (ps_db (st\<lparr>ps_db := ?db1\<rparr>))) (outbox s)" using ag by (simp add: pgAgrees_def)
  from recover_rows [OF dist each this, of now m "[]" "[]"] obtain db' where db':
    "fold (recoverRow now) (map (recoverSet now m) (filter (pgStalled now) (map snd ?rows))) (Inr [], st\<lparr>ps_db := ?db1\<rparr>)
      = (Inr ?rep, st\<lparr>ps_db := db'\<rparr>)"
    "rowsRecovered now m s ?rows ?db1 db' ?s"
    unfolding keys by auto
  note rec = db'(2) [unfolded rowsRecovered_def keys]
  have ok: "\<And>i job. mapGet (jobs s) i = Some job \<Longrightarrow> j_id job = i \<and> j_keep job = None"
    using wf_id [OF wf] unlimited_job [OF plain_unlimited [OF ps]] by blast
  note steps = recoverSteps_all [OF ok wf_distinct [OF wf], where now = now and m = m and reported = "[]", unfolded append_Nil]
  have memKeys: "mapKeys (jobs ?s) = ?ks" by (rule recoverSteps_keys [OF ok])
  have get: "mapGet (jobs ?s) k = map_option (recoveredJob now m) (mapGet (jobs s) k)" for k
  proof -
    have "mapGet (jobs ?s) k = (if k \<in> set ?ks then map_option (recoveredJob now m) (mapGet (jobs s) k) else mapGet (jobs s) k)"
      using steps by blast
    also have "\<dots> = map_option (recoveredJob now m) (mapGet (jobs s) k)"
      using mapGet_None_iff [of "jobs s" k] by (metis option.map(1))
    finally show ?thesis .
  qed
  have ag': "pgAgrees db' ?s"
  proof (rule agrees_all [OF ag, where F = ?F and G = "recoveredJob now m"])
    show "mapKeys (db_jobs db') = mapKeys ?rows" by (simp add: rec)
    show "mapGet (db_jobs db') k = map_option ?F (mapGet ?rows k)" for k by (simp add: rec map_ran_conv)
    show "rowAgrees (?F row) (recoveredJob now m job) \<and> pj_seq (?F row) = pj_seq row \<and> m_seq (recoveredJob now m job) = m_seq job
        \<and> map pgToAttempt (ledgerOf db' k) = m_attempts (recoveredJob now m job)"
      if "mapGet ?rows k = Some row" "mapGet (jobs s) k = Some job" "rowAgrees row job" for k row job
    proof -
      have "map pgToAttempt (ledgerOf db' k) = m_attempts (recoveredJob now m job)" using rec that(2) mapHas_key [of "jobs s" k] by (simp del: set_map)
      moreover have "rowAgrees (?F row) (recoveredJob now m job)"
        using recovered_row [OF that(3) _ wf_job [OF wf that(2)]] that(3) stalled_rows [OF that(3)]
        by (simp add: recoveredJob_def [of _ _ job])
      ultimately show ?thesis by (simp add: recoverSet_def unlockRow_def Let_def)
    qed
    show "ledgerOf db' k = ledgerOf ?db k" if "mapGet (jobs s) k = None" for k
      using that rec unfolding mapGet_None_iff by (simp del: set_map)
  qed (use rec steps memKeys get in simp_all)
  have wake: "pgWakeOf ?s = pgWakeOf s" by (rule pgWakeOf_fields) (use steps in simp)
  have body: "recoverBody now m st = (Inr ?rep, st\<lparr>ps_db := db'\<rparr>)"
    using db'(1) by (simp add: recoverBody_def updateJobs_def)
  have call: "pgRecoverStalled now m st =
      (Inr ?rep, if list_ex (\<lambda>(_, failed). \<not> failed) ?rep then pgWakeUp None (st\<lparr>ps_db := db'\<rparr>) else st\<lparr>ps_db := db'\<rparr>)"
    using fits by (simp add: pgRecoverStalled_def transact_def body)
  have call': "recoverStalled now m s =
      (?rep, if list_ex (\<lambda>(_, failed). \<not> failed) ?rep then signalWake None ?s else ?s)"
    unfolding recoverStalled_def using steps by (simp only: split_beta)
  have "pgSimulates (st\<lparr>ps_db := db'\<rparr>) ?s" using ag' wake sim_wake [OF sim] by (simp add: pgSimulates_def)
  then show ?thesis using pgSimulates_wake by (simp add: call call')
qed

end
