(* ===== verification/PgRuns.thy ===== *)
theory PgRuns
  imports PgRecoverSim
begin

text \<open>
  Runs of the Postgres driver. A client that enqueues jobs under its own ids, without dedupe, retention
  or fan-out, and calls any of the verbs in any order sees the same answers from the Postgres driver and
  from the in-memory driver. What the tables add to \<open>plainVerb\<close>: numbers must fit their columns, an
  exit must not be the JSON value \<open>null\<close>, a renewal names a job once, and only a paused queue is
  resumed (the Postgres driver wakes the queue either way).
\<close>

section \<open>Calls\<close>

fun pgVerb :: "pg_options \<Rightarrow> thrown list \<Rightarrow> millis \<Rightarrow> verb \<Rightarrow> pg_store \<Rightarrow> (answer \<times> pg_store) option" where
  "pgVerb opts faults now (VEnqueue r) st = Some (map_prod AEnqueue id (pgEnqueueOne opts faults now r st))"
| "pgVerb opts faults now (VClaim co) st = Some (map_prod AClaim id (pgClaim (\<lambda>_. False) now co st))"
| "pgVerb opts faults now (VAck i token outcome) st = Some (map_prod ASettled id (pgAck now i token outcome st))"
| "pgVerb opts faults now (VRelease i token) st = Some (map_prod ASettled id (pgRelease now i token st))"
| "pgVerb opts faults now (VExtendLocks locks d) st = Some (map_prod ALocks id (pgExtendLocks now locks d st))"
| "pgVerb opts faults now (VRecoverStalled m) st =
     (case pgRecoverStalled now m st of (Inl _, _) \<Rightarrow> None | (Inr xs, st') \<Rightarrow> Some (ARecovered (mset xs), st'))"
| "pgVerb opts faults now (VAwaitWake qs token) st = Some (map_prod AWaiter id (pgAwaitWake qs token st))"
| "pgVerb opts faults now (VCancelWait w) st = Some (ADone, pgCancelWait w st)"
| "pgVerb opts faults now (VCancel i) st = Some (map_prod ASettled id (pgCancel faults now i st))"
| "pgVerb opts faults now (VRetry i) st = Some (map_prod ASettled id (pgRetry now i st))"
| "pgVerb opts faults now (VPromote i) st = Some (map_prod ASettled id (pgPromote now i st))"
| "pgVerb opts faults now (VRemove i) st = Some (map_prod AFlag id (pgRemove i st))"
| "pgVerb opts faults now (VPause q) st = Some (ADone, pgPause q st)"
| "pgVerb opts faults now (VResume q) st = Some (ADone, pgResume q st)"
| "pgVerb opts faults now (VGetJob i) st = Some (AJob (pgGetJob i st), st)"
| "pgVerb opts faults now (VGetAttempts i) st = Some (AAttempts (pgGetAttempts i st), st)"

definition pgRun :: "pg_options \<Rightarrow> thrown list \<Rightarrow> (millis \<times> verb) list \<Rightarrow> pg_store \<Rightarrow> (answer list \<times> pg_store) option" where
  "pgRun opts faults = runVerbs (pgVerb opts faults)"

text \<open>The context of a call: the queues that are paused.\<close>

definition pgVerbOk :: "queue_name \<Rightarrow> queue_name set \<Rightarrow> verb \<Rightarrow> bool" where
  "pgVerbOk q P v \<longleftrightarrow> plainVerb q v
     \<and> (case v of
          VEnqueue r \<Rightarrow> fitsColumns r
        | VAck _ _ outcome \<Rightarrow> pgOutcomeExit outcome \<noteq> Some JNull
        | VExtendLocks locks _ \<Rightarrow> distinct (map fst locks)
        | VRecoverStalled m \<Rightarrow> int4 m
        | VResume x \<Rightarrow> x \<in> P
        | _ \<Rightarrow> True)"

definition pausedAfter :: "queue_name set \<Rightarrow> verb \<Rightarrow> queue_name set" where
  "pausedAfter P v = (case v of VPause x \<Rightarrow> insert x P | VResume x \<Rightarrow> P - {x} | _ \<Rightarrow> P)"

definition pgInv :: "queue_name \<Rightarrow> queue_name set \<Rightarrow> pg_store \<Rightarrow> mem_store \<Rightarrow> bool" where
  "pgInv q P st s \<longleftrightarrow> pgSimulates st s \<and> wellFormed s \<and> plainStore q s \<and> set (paused s) = P"

section \<open>The pauses along a call\<close>

lemma paused_enqueue:
  assumes "plainRequest q r"
  shows "paused (snd (enqueueOne gen now r s)) = paused s"
proof -
  obtain i where i: "rq_id r = Some i" "rq_dedupe r = None" using assms by (auto simp: plainRequest_def)
  then show ?thesis
    by (simp add: enqueueOne_def enqueueDecide_def enqueueInsert_def chooseId_def registerJob_def insertJobRecord_def Let_def)
qed

lemma paused_claim: "paused (snd (claim now opts s)) = paused s"
  by (auto simp: claim_def Let_def split: option.split prod.split)

lemma paused_cancelled: "j_keep job = None \<Longrightarrow> j_state job \<noteq> WaitingChildren \<Longrightarrow> paused (markCancelled job now s) = paused s"
  by (simp add: markCancelled_plain Let_def)

lemma paused_ack:
  assumes "plainStore q s" and "\<not> isFanOut outcome"
  shows "paused (snd (ack now i token outcome s)) = paused s"
proof (cases "mapGet (jobs s) i")
  case (Some job)
  have "j_keep job = None" by (rule plain_keep [OF plain_job [OF assms(1) Some]])
  then show ?thesis using assms(2) Some
    by (cases outcome)
      (simp_all add: ack_def isFanOut_def missingChildId_def applyOutcome_def finishJob_def ackRetry_def paused_cancelled Let_def clearLock_def)
qed (simp add: ack_def)

lemma paused_release:
  assumes "plainStore q s"
  shows "paused (snd (release now i token s)) = paused s"
proof (cases "mapGet (jobs s) i")
  case (Some job)
  have "j_keep job = None" by (rule plain_keep [OF plain_job [OF assms Some]])
  then show ?thesis using Some by (simp add: release_def paused_cancelled)
qed (simp add: release_def)

lemma paused_cancel:
  assumes "plainStore q s" and "wellFormed s"
  shows "paused (snd (cancelJob now i s)) = paused s"
proof (cases "mapGet (jobs s) i")
  case (Some job)
  have "j_keep job = None" by (rule plain_keep [OF plain_job [OF assms(1) Some]])
  then show ?thesis using Some plain_not_waiting [OF assms Some]
    by (simp add: cancelJob_def paused_cancelled split: job_state.split)
qed (simp add: cancelJob_def)

lemma paused_recover:
  assumes "plainStore q s" and "wellFormed s"
  shows "paused (snd (recoverStalled now m s)) = paused s"
proof -
  have ok: "\<And>i job. mapGet (jobs s) i = Some job \<Longrightarrow> j_id job = i \<and> j_keep job = None"
    using wf_id [OF assms(2)] unlimited_job [OF plain_unlimited [OF assms(1)]] by blast
  from recoverSteps_all [OF ok wf_distinct [OF assms(2)], where now = now and m = m and reported = "[]"]
  show ?thesis by (simp add: recoverStalled_def split_beta)
qed

lemma paused_admin:
  "paused (snd (retry now i s)) = paused s" "paused (snd (promote now i s)) = paused s" "paused (snd (remove i s)) = paused s"
  "paused (snd (awaitWake qs w s)) = paused s" "paused (cancelWait n s) = paused s"
  by (simp_all add: retry_def promote_def remove_def awaitWake_def cancelWait_def Let_def split: option.split)

section \<open>One call, and a run\<close>

lemma pg_call:
  assumes inv: "pgInv q P st s" and ok: "pgVerbOk q P v" and faults: "length faults \<le> 3" "list_all isDeadlockError faults"
  shows "\<exists>st'. pgVerb opts faults now v st = Some (fst (memVerb gen now v s), st') \<and> pgInv q (pausedAfter P v) st' (snd (memVerb gen now v s))"
proof -
  have sim: "pgSimulates st s" and wf: "wellFormed s" and ps: "plainStore q s" and pa: "set (paused s) = P"
    using inv by (simp_all add: pgInv_def)
  show ?thesis
  proof (cases v)
    case (VEnqueue r)
    then have r: "plainRequest q r" "fitsColumns r" using ok by (simp_all add: pgVerbOk_def plainVerb_def)
    show ?thesis using VEnqueue enqueue_pg [OF sim wf r] enqueueOne_wf [OF wf] plain_enqueue [OF ps r(1)] paused_enqueue [OF r(1)] pa
      by (simp add: pgInv_def pausedAfter_def)
  next
    case (VClaim co)
    then have "co_queue co = q" using ok by (simp add: pgVerbOk_def plainVerb_def)
    from claim_pg [OF sim wf ps this] show ?thesis using VClaim claim_wf [OF wf] plain_claim [OF ps wf] paused_claim pa
      by (simp add: pgInv_def pausedAfter_def)
  next
    case (VAck i token outcome)
    then have nf: "\<not> isFanOut outcome" "pgOutcomeExit outcome \<noteq> Some JNull" using ok by (simp_all add: pgVerbOk_def plainVerb_def)
    have "fanout_ok outcome" using nf by (cases outcome) (simp_all add: isFanOut_def fanout_ok_def)
    then show ?thesis using VAck ack_pg [OF sim wf ps nf] ack_wf [OF wf] plain_ack [OF ps nf(1)] paused_ack [OF ps nf(1)] pa
      by (simp add: pgInv_def pausedAfter_def)
  next
    case (VRelease i token)
    then show ?thesis using release_pg [OF sim wf ps] release_wf [OF wf] plain_release [OF ps] paused_release [OF ps] pa
      by (simp add: pgInv_def pausedAfter_def)
  next
    case (VExtendLocks locks d)
    then have dist: "distinct (map fst locks)" using ok by (simp add: pgVerbOk_def)
    from extendLocks_closed [OF wf_id [OF wf] dist] have "paused (snd (extendLocks now locks d s)) = paused s" by blast
    then show ?thesis using VExtendLocks extend_pg [OF sim wf ps dist] extendLocks_wf [OF wf] plain_extend [OF ps] pa
      by (simp add: pgInv_def pausedAfter_def)
  next
    case (VRecoverStalled m)
    then have m: "int4 m" using ok by (simp add: pgVerbOk_def)
    obtain reported st' where call: "pgRecoverStalled now m st = (Inr reported, st')"
      using recover_pg [OF sim wf ps m] by (metis prod.collapse)
    then show ?thesis
      using VRecoverStalled recover_pg [OF sim wf ps m, of now] recoverStalled_wf [OF wf] plain_recover [OF ps wf] paused_recover [OF ps wf] pa
      by (simp add: pgInv_def pausedAfter_def)
  next
    case (VAwaitWake qs w)
    have "plainStore q (snd (awaitWake qs w s))" by (rule plain_same [OF ps]) (simp add: awaitWake_def)
    then show ?thesis using VAwaitWake await_pg(1) [OF sim] awaitWake_wf [OF wf] pa
      by (simp add: pgInv_def pausedAfter_def paused_admin)
  next
    case (VCancelWait w)
    have "plainStore q (cancelWait w s)" by (rule plain_same [OF ps]) (simp add: cancelWait_def)
    then show ?thesis using VCancelWait await_pg(2) [OF sim] cancelWait_wf [OF wf] pa
      by (simp add: pgInv_def pausedAfter_def paused_admin)
  next
    case (VCancel i)
    then show ?thesis using cancel_pg [OF sim wf ps faults] cancelJob_wf [OF wf] plain_cancel [OF ps wf] paused_cancel [OF ps wf] pa
      by (simp add: pgInv_def pausedAfter_def)
  next
    case (VRetry i)
    then show ?thesis using retry_pg [OF sim wf ps] retry_wf [OF wf] plain_retry [OF ps] pa
      by (simp add: pgInv_def pausedAfter_def paused_admin)
  next
    case (VPromote i)
    then show ?thesis using promote_pg [OF sim wf ps] promote_wf [OF wf] plain_promote [OF ps] pa
      by (simp add: pgInv_def pausedAfter_def paused_admin)
  next
    case (VRemove i)
    then show ?thesis using remove_pg [OF sim wf ps] remove_wf [OF wf] plain_remove [OF ps] pa
      by (simp add: pgInv_def pausedAfter_def paused_admin)
  next
    case (VPause x)
    have "plainStore q (pause x s)" by (rule plain_same [OF ps]) (simp add: pause_def)
    moreover have "set (paused (pause x s)) = insert x P" using pa by (auto simp: pause_def)
    ultimately show ?thesis using VPause pause_pg [OF sim] pause_wf [OF wf] by (simp add: pgInv_def pausedAfter_def)
  next
    case (VResume x)
    then have x: "x \<in> set (paused s)" using ok pa by (simp add: pgVerbOk_def)
    have "plainStore q (resume x s)" by (rule plain_same [OF ps]) (simp add: resume_def)
    moreover have "set (paused (resume x s)) = P - {x}" using pa x by (auto simp: resume_def)
    ultimately show ?thesis using VResume resume_pg [OF sim x] resume_wf [OF wf] by (simp add: pgInv_def pausedAfter_def)
  next
    case (VGetJob i)
    then show ?thesis using getJob_pg [OF sim] inv by (simp add: pausedAfter_def)
  next
    case (VGetAttempts i)
    then show ?thesis using getAttempts_pg [OF sim wf] inv by (simp add: pausedAfter_def)
  qed
qed

lemma pg_start:
  assumes "ps_db st = emptyDb" and "ps_wake st = noPgWakes"
  shows "pgInv q {} st emptyStore"
proof -
  have "pgAgrees emptyDb emptyStore"
    by (simp add: pgAgrees_def emptyDb_def emptyStore_def entryAgrees_def ledgerOf_def seqsAgree_def)
  moreover have "pgWakeOf emptyStore = noPgWakes" by (simp add: pgWakeOf_def noPgWakes_def emptyStore_def)
  moreover have "paused emptyStore = []" by (simp add: emptyStore_def)
  ultimately show ?thesis using assms by (simp add: pgInv_def pgSimulates_def wf_empty plain_empty)
qed

text \<open>The driver without deadlocks refines the in-memory one; the lemmas above give it with deadlocks too.\<close>

interpretation pg: refines_memory "pgVerb opts []" gen "pgInv q" "pgVerbOk q" pausedAfter for opts gen q
  by unfold_locales (rule pg_call; simp)

lemma pg_refines:
  assumes "length faults \<le> 3" and "list_all isDeadlockError faults"
  shows "refines_memory (pgVerb opts faults) gen (pgInv q) (pgVerbOk q) pausedAfter"
  by unfold_locales (rule pg_call [OF _ _ assms])

end
