(* ===== verification/PgSafety.thy ===== *)
theory PgSafety
  imports PgFlow Samples
begin

text \<open>
  What the Postgres driver promises of any tables, flows and retention included: what a claim takes when
  other transactions hold rows; that a verb that fails leaves no trace (its transaction is rolled back,
  nothing is announced, no waiter wakes, only the sequences may have moved); and that the ids handed back
  to the outbox remove exactly the entries they name.
\<close>

section \<open>Claims and locked rows\<close>

definition pgKeyed :: "pg_db \<Rightarrow> bool" where
  "pgKeyed db \<longleftrightarrow> distinct (mapKeys (db_jobs db)) \<and> (\<forall>k row. mapGet (db_jobs db) k = Some row \<longrightarrow> pj_id row = k)"

definition claimable :: "claim_options \<Rightarrow> pg_job \<Rightarrow> bool" where
  "claimable opts row \<longleftrightarrow> pj_queue row = co_queue opts \<and> pj_state row = Waiting \<and> pj_name row \<in> set (co_names opts)"

lemma keyed_promote: "pgKeyed db \<Longrightarrow> pgKeyed (promoteDueRows q now db)"
proof -
  assume keyed: "pgKeyed db"
  have keys: "mapKeys (map_ran f m) = mapKeys m" for f :: "job_id \<Rightarrow> pg_job \<Rightarrow> pg_job" and m
    by (induction m) (auto simp: map_ran_def)
  show ?thesis using keyed by (auto simp: pgKeyed_def promoteDueRows_def updateJobs_def map_ran_conv keys split: if_splits)
qed

lemma candidates_set:
  assumes "pgKeyed db"
  shows "row \<in> set (candidates opts db) \<longleftrightarrow> mapGet (db_jobs db) (pj_id row) = Some row \<and> claimable opts row"
proof -
  have "row \<in> set (mapValues (db_jobs db)) \<longleftrightarrow> (\<exists>k. mapGet (db_jobs db) k = Some row)"
    using assms by (intro mapValues_in) (simp add: pgKeyed_def)
  also have "\<dots> \<longleftrightarrow> mapGet (db_jobs db) (pj_id row) = Some row" using assms unfolding pgKeyed_def by metis
  finally show ?thesis unfolding candidates_def set_toSorted set_filter claimable_def by blast
qed

text \<open>C14: A Postgres claim takes the best row that is free. Whatever rows other transactions hold, the
  claimed job is a waiting job of the queue with a requested name whose row nobody holds, no free
  candidate has a higher priority or, at the same priority, is older, and the tables change in that row
  only; the claim is empty only when the queue is paused or every candidate is held.\<close>

theorem claims_take_the_best_free_row:
  assumes "pgKeyed (ps_db st)"
  shows "let db = promoteDueRows (co_queue opts) now (ps_db st) in
    case pgClaim locked now opts st of
      (Claimed job, st') \<Rightarrow>
        (\<exists>row. mapGet (db_jobs db) (j_id job) = Some row \<and> claimable opts row \<and> \<not> locked (j_id job)
          \<and> job = pgToRecord (takeRow opts now row)
          \<and> st' = st\<lparr>ps_db := db\<lparr>db_jobs := mapSet (j_id job) (takeRow opts now row) (db_jobs db)\<rparr>\<rparr>
          \<and> (\<forall>k other. mapGet (db_jobs db) k = Some other \<and> claimable opts other \<and> \<not> locked k \<longrightarrow>
               pj_priority other < pj_priority row
               \<or> pj_priority other = pj_priority row \<and> pj_seq row \<le> pj_seq other))
    | (Empty _ _, st') \<Rightarrow> st' = st\<lparr>ps_db := db\<rparr>
        \<and> (mapGet (db_queues db) (co_queue opts) = Some True
           \<or> (\<forall>k row. mapGet (db_jobs db) k = Some row \<and> claimable opts row \<longrightarrow> locked k))"
proof -
  let ?db = "promoteDueRows (co_queue opts) now (ps_db st)"
  let ?free = "filter (\<lambda>row. \<not> locked (pj_id row)) (candidates opts ?db)"
  have keyed: "pgKeyed ?db" by (rule keyed_promote [OF assms])
  have ids: "mapGet (db_jobs ?db) k = Some row \<Longrightarrow> pj_id row = k" for k row using keyed by (simp add: pgKeyed_def)
  note cands = candidates_set [OF keyed, of _ opts]
  have sorted: "sorted_wrt (\<lambda>a b. claimCmp a b \<le> 0) ?free"
    unfolding candidates_def by (rule sorted_wrt_filter, rule sorted_toSorted [OF claim_order])
  show ?thesis
  proof (cases "mapGet (db_queues ?db) (co_queue opts) = Some True")
    case True
    then show ?thesis by (simp add: pgClaim_def Let_def)
  next
    case False
    show ?thesis
    proof (cases ?free)
      case Nil
      have "locked k" if "mapGet (db_jobs ?db) k = Some row" "claimable opts row" for k row
        using Nil cands [of row] that ids [OF that(1)] by (auto simp: filter_empty_conv)
      then show ?thesis using False Nil by (auto simp: pgClaim_def Let_def)
    next
      case (Cons row rest)
      then have "row \<in> set ?free" by simp
      then have row: "mapGet (db_jobs ?db) (pj_id row) = Some row" "claimable opts row" "\<not> locked (pj_id row)"
        using cands [of row] by auto
      have best: "pj_priority other < pj_priority row \<or> pj_priority other = pj_priority row \<and> pj_seq row \<le> pj_seq other"
        if "mapGet (db_jobs ?db) k = Some other" "claimable opts other" "\<not> locked k" for k other
      proof -
        have "other \<in> set ?free" using cands [of other] that ids [OF that(1)] by simp
        then have "other = row \<or> claimCmp row other \<le> 0" using sorted Cons by auto
        then show ?thesis by (auto simp: claimCmp_def split: if_splits)
      qed
      have "pgClaim locked now opts st = (Claimed (pgToRecord (takeRow opts now row)),
          st\<lparr>ps_db := ?db\<lparr>db_jobs := mapSet (pj_id row) (takeRow opts now row) (db_jobs ?db)\<rparr>\<rparr>)"
        using False Cons row(1) by (simp add: pgClaim_def Let_def updateJob_def)
      moreover have "j_id (pgToRecord (takeRow opts now row)) = pj_id row" by (simp add: pgToRecord_def takeRow_def)
      ultimately show ?thesis using row best by (auto simp: Let_def)
    qed
  qed
qed

text \<open>Two rows of one queue, the urgent one held by another transaction.\<close>

definition pgStart :: pg_store where
  "pgStart = \<lparr>ps_db = emptyDb, ps_wake = noPgWakes, ps_notified = [], ps_draws = 0\<rparr>"

definition pgDefaults :: pg_options where
  "pgDefaults = \<lparr>px_columns = [], px_extraValues = None, px_gen = None\<rparr>"

definition twoRows :: pg_store where
  "twoRows = snd (pgEnqueueOne pgDefaults [] 1 (aRequest\<lparr>rq_id := Some ''b'', rq_priority := 5\<rparr>)
     (snd (pgEnqueueOne pgDefaults [] 0 (aRequest\<lparr>rq_id := Some ''a''\<rparr>) pgStart)))"

lemma keyed_list: "distinct (mapKeys (db_jobs db)) \<Longrightarrow> list_all (\<lambda>(k, row). pj_id row = k) (db_jobs db) \<Longrightarrow> pgKeyed db"
  by (auto simp: pgKeyed_def list_all_iff dest!: map_of_SomeD)

lemma twoRows_keyed: "pgKeyed (ps_db twoRows)"
proof (rule keyed_list)
  show "distinct (mapKeys (db_jobs (ps_db twoRows)))" by code_simp
  show "list_all (\<lambda>(k, row). pj_id row = k) (db_jobs (ps_db twoRows))" by code_simp
qed

theorem claims_take_the_best_free_row_witness:
  "(let db = promoteDueRows ''q'' 10 (ps_db twoRows) in
    case pgClaim (\<lambda>i. i = ''b'') 10 someOptions twoRows of
      (Claimed job, st') \<Rightarrow>
        j_id job = ''a'' \<and> (\<exists>row. mapGet (db_jobs db) (j_id job) = Some row \<and> claimable someOptions row \<and> j_id job \<noteq> ''b''
          \<and> job = pgToRecord (takeRow someOptions 10 row))
    | (Empty _ _, st') \<Rightarrow> False)"
proof -
  have "case pgClaim (\<lambda>i. i = ''b'') 10 someOptions twoRows of (Claimed job, _) \<Rightarrow> j_id job = ''a'' | _ \<Rightarrow> False" by code_simp
  moreover have "co_queue someOptions = ''q''" by (simp add: someOptions_def)
  moreover note claims_take_the_best_free_row [OF twoRows_keyed, of someOptions 10 "\<lambda>i. i = ''b''"]
  ultimately show ?thesis by (auto simp: Let_def split: prod.splits claim_result.splits)
qed


section \<open>Failures\<close>

definition untouched :: "pg_store \<Rightarrow> pg_store \<Rightarrow> bool" where
  "untouched st st' \<longleftrightarrow> ps_wake st' = ps_wake st \<and> ps_notified st' = ps_notified st
     \<and> ps_db st' = (ps_db st)\<lparr>db_seq := db_seq (ps_db st'), db_outboxSeq := db_outboxSeq (ps_db st')\<rparr>"

definition silent :: "pg_store \<Rightarrow> pg_store \<Rightarrow> bool" where
  "silent st st' \<longleftrightarrow> ps_wake st' = ps_wake st \<and> ps_notified st' = ps_notified st"

lemma untouched_refl [simp]: "untouched st st"
  by (cases st) (simp add: untouched_def)


lemma untouched_jobs: "untouched st st' \<Longrightarrow> db_jobs (ps_db st') = db_jobs (ps_db st)"
  by (cases "ps_db st"; cases "ps_db st'") (simp add: untouched_def)

lemma silent_db [simp]: "silent st (st'\<lparr>ps_db := db\<rparr>) = silent st st'" "silent (st\<lparr>ps_db := db\<rparr>) st' = silent st st'"
  "silent st (st'\<lparr>ps_draws := n\<rparr>) = silent st st'" "silent (st\<lparr>ps_draws := n\<rparr>) st' = silent st st'" "silent st st"
  by (simp_all add: silent_def)


lemma transact_fails:
  assumes "silent st (snd (body st))" and "fst (transact body st) = Inl e"
  shows "untouched st (snd (transact body st))"
  using assms by (auto simp: transact_def silent_def untouched_def rollback_def split: prod.splits sum.splits)


lemma keepOrFail_silent [simp]: "silent st (snd (keepOrFail msg name s keep now st' a)) = silent st st'"
  by (simp add: keepOrFail_def split: option.split)

section \<open>An insert without a row\<close>







section \<open>The bodies announce nothing\<close>

lemma ackBody_silent: "silent st (snd (ackBody now i token outcome st))"
  by (simp add: ackBody_def Let_def split: prod.split option.split)

lemma fanOutBody_silent: "silent st (snd (fanOutBody now i token failFast children st))"
  by (simp add: fanOutBody_def cancelFannedOut_def Let_def split: prod.split option.split)











section \<open>Verbs\<close>

definition traceless :: "pg_store \<Rightarrow> (store_error + 'a) \<times> pg_store \<Rightarrow> bool" where
  "traceless st answer \<longleftrightarrow> (case answer of (Inl _, st') \<Rightarrow> untouched st st' | (Inr _, _) \<Rightarrow> True)"

lemma traceless_transact: "silent st (snd (body st)) \<Longrightarrow> traceless st (transact body st)"
  using transact_fails [of st body] by (cases "transact body st"; cases "fst (transact body st)") (auto simp: traceless_def)

lemma traceless_fst: "traceless st answer \<longleftrightarrow> (\<forall>e. fst answer = Inl e \<longrightarrow> untouched st (snd answer))"
  by (auto simp: traceless_def split: prod.split sum.split)


lemma traceless_wakeAfter: "traceless st result \<Longrightarrow> traceless st (wakeAfter result)"
  by (auto simp: traceless_def wakeAfter_def split: prod.split sum.split)

lemma traceless_ack: "traceless st (pgAck now i token outcome st)"
  by (simp add: pgAck_def pgAckFanOut_def traceless_wakeAfter traceless_transact ackBody_silent fanOutBody_silent
      split: ack_outcome.split) (simp add: traceless_def)




section \<open>A negative retention count\<close>

text \<open>C32: A retention policy with a negative count blocks the completion of its job on Postgres: every ack
  with a result fails on the LIMIT of the retention statement, and the row stays as it was, active and
  under its lock, whatever else the tables hold.\<close>

theorem negative_keep_blocks_the_ack:
  assumes "mapGet (db_jobs (ps_db st)) i = Some row" and "pgHolds token row"
    and "pgKeepPolicyFor (pj_keep row) Completed = Some policy" and "kp_count policy = Some n" and "n < 0"
  shows "fst (pgAck now i token (Complete ex) st) = Inl (JobStoreError ''ack failed'')
    \<and> mapGet (db_jobs (ps_db (snd (pgAck now i token (Complete ex) st)))) i = Some row"
proof -
  have keep: "pgApplyKeep name Completed (pj_keep row) now db = None" for name db
    using assms(3-5) by (simp add: pgApplyKeep_def Let_def)
  have "pj_keep (countAttempt (ackSet (Complete ex) now sq row)) = pj_keep row"
      "pj_state (countAttempt (ackSet (Complete ex) now sq row)) = Completed" for sq
    by (simp_all add: countAttempt_def unlockRow_def ackSet_def)
  then have "fst (ackBody now i token (Complete ex) st) = Inl (JobStoreError ''ack failed'')"
    using assms(1,2) by (simp add: ackBody_def ackSeq_def isRetry_def updateJob_def keepOrFail_def keep Let_def)
  then have failed: "fst (pgAck now i token (Complete ex) st) = Inl (JobStoreError ''ack failed'')"
    by (auto simp: pgAck_def wakeAfter_def transact_def split: prod.splits)
  moreover from traceless_ack [of st now i token "Complete ex"] failed
  have "untouched st (snd (pgAck now i token (Complete ex) st))" by (simp add: traceless_fst)
  then have "db_jobs (ps_db (snd (pgAck now i token (Complete ex) st))) = db_jobs (ps_db st)"
    by (rule untouched_jobs)
  ultimately show ?thesis using assms(1) by simp
qed

definition stuckJob :: pg_store where
  "stuckJob = snd (pgClaim (\<lambda>_. False) 5 someOptions (snd (pgEnqueueOne pgDefaults [] 0
     (aRequest\<lparr>rq_id := Some ''a'', rq_keep := Some \<lparr>kp_completed = Some \<lparr>kp_count = Some (- 1), kp_ageMs = None\<rparr>,
        kp_failed = None, kp_cancelled = None, kp_flat = None\<rparr>\<rparr>) pgStart)))"

theorem negative_keep_blocks_the_ack_witness:
  "fst (pgAck 9 ''a'' (co_token someOptions) (Complete None) stuckJob) = Inl (JobStoreError ''ack failed'')"
proof -
  let ?row = "\<lambda>st. the (mapGet (db_jobs (ps_db st)) ''a'')"
  have row: "mapGet (db_jobs (ps_db stuckJob)) ''a'' = Some (?row stuckJob)" by code_simp
  have "pgHolds (co_token someOptions) (?row stuckJob)" by code_simp
  moreover have "pgKeepPolicyFor (pj_keep (?row stuckJob)) Completed = Some \<lparr>kp_count = Some (- 1), kp_ageMs = None\<rparr>"
    by code_simp
  ultimately show ?thesis using negative_keep_blocks_the_ack [OF row, of "co_token someOptions" _ "- 1" 9 None] by simp
qed

section \<open>Outbox ids\<close>

lemma digit_back: "isDigit c \<Longrightarrow> digitChar (of_char c - 48) = c \<and> of_char c - 48 < (10::nat)"
  by (auto simp: isDigit_def digitChar_def)

lemma digitChar_zero: "d < 10 \<Longrightarrow> digitChar d = CHR ''0'' \<longleftrightarrow> d = 0"
proof -
  assume "d < 10"
  have "digitChar 0 = CHR ''0''" by code_simp
  moreover have "digitChar d = digitChar 0 \<Longrightarrow> d = 0" using of_char_digitChar [OF \<open>d < 10\<close>] of_char_digitChar [of 0] by simp
  ultimately show "digitChar d = CHR ''0'' \<longleftrightarrow> d = 0" by auto
qed

lemma canonical_natToString: "0 < n \<Longrightarrow> canonicalBigserial (natToString n)"
proof -
  have "0 < n \<Longrightarrow> hd (natToString n) \<noteq> CHR ''0''" for n
  proof (induction n rule: natToString.induct)
    case (1 n)
    then show ?case by (subst natToString.simps) (auto simp: digitChar_zero)
  qed
  then show "0 < n \<Longrightarrow> canonicalBigserial (natToString n)"
    using natToString_digits [of _ n] by (simp add: canonicalBigserial_def list_all_iff)
qed

lemma canonical_reads_back:
  "canonicalBigserial s \<Longrightarrow> parseDigits 0 s = Some n \<Longrightarrow> natToString n = s \<and> 0 < n"
proof (induction s arbitrary: n rule: rev_induct)
  case (snoc c xs)
  from snoc.prems have c: "isDigit c" by (simp add: canonicalBigserial_def)
  let ?d = "of_char c - 48 :: nat"
  note d = digit_back [OF c]
  show ?case
  proof (cases "xs = []")
    case True
    then have "n = ?d" "c \<noteq> CHR ''0''" using snoc.prems c by (simp_all add: canonicalBigserial_def)
    then show ?thesis using d digitChar_zero [of ?d] True by (subst natToString.simps) auto
  next
    case False
    then have "canonicalBigserial xs" using snoc.prems by (simp add: canonicalBigserial_def)
    moreover obtain m where m: "parseDigits 0 xs = Some m" "n = m * 10 + ?d"
      using snoc.prems c by (auto simp: parseDigits_append split: option.splits)
    ultimately have "natToString m = xs" "0 < m" using snoc.IH by auto
    then show ?thesis using m d by (subst natToString.simps) auto
  qed
qed (simp add: canonicalBigserial_def)

lemma outbox_id_named:
  assumes "0 < n" and "None \<notin> set (map bigintOf (filter canonicalBigserial ids))"
  shows "Some n \<in> set (map bigintOf (filter canonicalBigserial ids)) \<longleftrightarrow> natToString n \<in> set ids"
proof
  assume "Some n \<in> set (map bigintOf (filter canonicalBigserial ids))"
  then obtain i where i: "i \<in> set ids" "canonicalBigserial i" "bigintOf i = Some n" by auto
  then have "parseDigits 0 i = Some n" by (auto simp: bigintOf_def split: option.splits if_splits)
  with canonical_reads_back [OF i(2)] i(1) show "natToString n \<in> set ids" by auto
next
  assume named: "natToString n \<in> set ids"
  note c = canonical_natToString [OF assms(1)]
  have "bigintOf (natToString n) \<in> set (map bigintOf (filter canonicalBigserial ids))" using named c by auto
  moreover from this have "bigintOf (natToString n) = Some n"
    using assms(2) by (auto simp: bigintOf_def parseDigits_natToString split: if_splits)
  ultimately show "Some n \<in> set (map bigintOf (filter canonicalBigserial ids))" by simp
qed

text \<open>C33: Deleting from the Postgres outbox removes exactly the entries whose ids are named. Whatever else
  the list holds (ids of another driver, padded or garbled ones), only an id that reads as a number above
  64 bits makes it fail, and then nothing is removed.\<close>

theorem outbox_deletes_what_is_named:
  assumes "\<forall>row\<in>set (db_outbox (ps_db st)). 0 < po_id row"
  shows "pgDeleteOutbox ids st =
    (if list_ex (\<lambda>i. canonicalBigserial i \<and> bigintOf i = None) ids
     then (Inl (JobStoreError ''deleteOutbox failed''), st)
     else (Inr (), st\<lparr>ps_db := (ps_db st)\<lparr>db_outbox :=
             filter (\<lambda>row. ob_id (toEntry row) \<notin> set ids) (db_outbox (ps_db st))\<rparr>\<rparr>))"
proof -
  have none: "None \<in> set (map bigintOf (filter canonicalBigserial ids))
      \<longleftrightarrow> list_ex (\<lambda>i. canonicalBigserial i \<and> bigintOf i = None) ids"
    by (force simp: list_ex_iff)
  have "filter (\<lambda>row. Some (po_id row) \<notin> set (map bigintOf (filter canonicalBigserial ids))) (db_outbox (ps_db st))
      = filter (\<lambda>row. ob_id (toEntry row) \<notin> set ids) (db_outbox (ps_db st))"
    if "None \<notin> set (map bigintOf (filter canonicalBigserial ids))"
    using assms outbox_id_named [OF _ that] by (intro filter_cong refl) (simp add: toEntry_def)
  then show ?thesis unfolding pgDeleteOutbox_def Let_def none [symmetric] by (simp only: if_not_P split: if_split) simp
qed

definition threeReports :: pg_store where
  "threeReports = pgStart\<lparr>ps_db := emptyDb\<lparr>db_outboxSeq := 12, db_outbox :=
     map (\<lambda>n. \<lparr>po_id = n, po_flowName = ''f'', po_parentStoreKey = ''s'', po_report =
       \<lparr>rp_flowId = ''p'', rp_childKey = ''k'', rp_outcome = TCompleted, rp_exit = None, rp_failedReason = None\<rparr>\<rparr>) [1, 2, 12]\<rparr>\<rparr>"

theorem outbox_deletes_what_is_named_witness:
  "map po_id (db_outbox (ps_db (snd (pgDeleteOutbox [''02'', ''12'', ''x'', ''1''] threeReports)))) = [2]
    \<and> pgDeleteOutbox [''1'', ''9223372036854775808''] threeReports = (Inl (JobStoreError ''deleteOutbox failed''), threeReports)"
proof -
  have pos: "\<forall>row\<in>set (db_outbox (ps_db threeReports)). 0 < po_id row" by (simp add: threeReports_def)
  have few: "\<not> list_ex (\<lambda>i. canonicalBigserial i \<and> bigintOf i = None) [''02'', ''12'', ''x'', ''1'']"
    by (simp add: canonicalBigserial_def bigintOf_def isDigit_def int8_def)
  have many: "list_ex (\<lambda>i. canonicalBigserial i \<and> bigintOf i = None) [''1'', ''9223372036854775808'']"
    by (simp add: canonicalBigserial_def bigintOf_def isDigit_def int8_def)
  have "natToString 1 = ''1''" "natToString 2 = ''2''" "natToString 12 = ''12''" by code_simp+
  then have kept: "map po_id (filter (\<lambda>row. ob_id (toEntry row) \<notin> set [''02'', ''12'', ''x'', ''1'']) (db_outbox (ps_db threeReports))) = [2]"
    by (simp add: threeReports_def toEntry_def)
  show ?thesis using few many kept by (simp only: outbox_deletes_what_is_named [OF pos] if_True if_False) simp
qed

end
