(* ===== verification/Listing.thy ===== *)
theory Listing
  imports MemWfFlow MemQuery Samples "HOL-Library.Product_Lexorder"
begin

text \<open>
  Paginated reads. \<open>paged_source\<close> is the contract a page-by-page reader relies on: a page is a
  prefix of what remains after its cursor, and its own cursor names exactly the rest. Inside the locale
  the reader's loop (\<open>drainPages\<close>, the \<open>do .. while\<close> loop of \<open>makeResults.all\<close> in \<open>Flow.ts\<close>) is shown
  to return everything once, in order. The in-memory \<open>list\<close> and \<open>listChildResults\<close> provide the
  contract.
\<close>

section \<open>The reader's loop\<close>

fun drainPages :: "nat \<Rightarrow> ('c option \<Rightarrow> 'a list \<times> 'c option) \<Rightarrow> 'c option \<Rightarrow> 'a list option" where
  "drainPages 0 fetch c = None"
| "drainPages (Suc n) fetch c =
     (case fetch c of
        (items, None) \<Rightarrow> Some items
      | (items, Some next) \<Rightarrow> map_option (\<lambda>rest. items @ rest) (drainPages n fetch (Some next)))"

locale paged_source =
  fixes invar :: "'s \<Rightarrow> bool"
    and fetch :: "'s \<Rightarrow> 'c option \<Rightarrow> 'a list \<times> 'c option"
    and rest :: "'s \<Rightarrow> 'c option \<Rightarrow> 'a list"
    and issued :: "'s \<Rightarrow> 'c option \<Rightarrow> bool"
  assumes start: "invar s \<Longrightarrow> issued s None"
    and last_page: "invar s \<Longrightarrow> issued s c \<Longrightarrow> fetch s c = (items, None) \<Longrightarrow> rest s c = items"
    and more_pages: "invar s \<Longrightarrow> issued s c \<Longrightarrow> fetch s c = (items, Some next) \<Longrightarrow>
      items \<noteq> [] \<and> rest s c = items @ rest s (Some next) \<and> issued s (Some next)"
begin

lemma drain_complete:
  "invar s \<Longrightarrow> issued s c \<Longrightarrow> length (rest s c) < n \<Longrightarrow> drainPages n (fetch s) c = Some (rest s c)"
proof (induction n arbitrary: c)
  case 0
  then show ?case by simp
next
  case (Suc n)
  obtain items nxt where page: "fetch s c = (items, nxt)" by fastforce
  show ?case
  proof (cases nxt)
    case None
    with page last_page [OF Suc.prems(1,2)] show ?thesis by simp
  next
    case (Some c')
    with more_pages [OF Suc.prems(1,2)] page have
      m: "items \<noteq> []" "rest s c = items @ rest s (Some c')" "issued s (Some c')" by auto
    then have "length (rest s (Some c')) < n" using Suc.prems(3) by (cases items) auto
    from Suc.IH [OF Suc.prems(1) m(3) this] page Some m(2) show ?thesis by simp
  qed
qed

end

section \<open>Cutting a strictly sorted list after an element\<close>

lemma filter_after:
  assumes "sorted_wrt R (l @ x # r)" "\<And>a b. R a b \<Longrightarrow> \<not> R b a"
  shows "filter (R x) (l @ x # r) = r"
proof -
  have "filter (R x) l = []" using assms by (auto simp: sorted_wrt_append filter_empty_conv)
  moreover have "\<not> R x x" using assms(2) by blast
  moreover have "filter (R x) r = r" using assms(1) by (auto simp: sorted_wrt_append intro!: filter_True)
  ultimately show ?thesis by simp
qed

text \<open>A page of a filtered, strictly sorted list, and what remains after its last element.\<close>

lemma page_split:
  assumes "sorted_wrt R L" "\<And>a b. R a b \<Longrightarrow> \<not> R b a" "L = pre @ suf" "0 < n" "n < length suf"
  shows "filter (R (suf ! (n - 1))) L = drop n suf"
proof -
  have "suf = take (n - 1) suf @ (suf ! (n - 1)) # drop n suf"
    using assms(4,5) id_take_nth_drop [of "n - 1" suf] by simp
  then have "L = (pre @ take (n - 1) suf) @ (suf ! (n - 1)) # drop n suf"
    using assms(3) by simp
  with filter_after [of R "pre @ take (n - 1) suf" "suf ! (n - 1)" "drop n suf"] assms(1,2)
  show ?thesis by simp
qed

lemma filter_suffix:
  assumes "sorted_wrt R L" "\<And>a b. R a b \<Longrightarrow> \<not> R b a" "x \<in> set L"
  shows "\<exists>pre. L = pre @ filter (R x) L"
proof -
  from split_list [OF assms(3)] obtain l r where L: "L = l @ x # r" by blast
  have "filter (R x) (l @ x # r) = r" by (rule filter_after) (use assms(1,2) L in auto)
  with L show ?thesis by (intro exI [of _ "l @ [x]"]) simp
qed

section \<open>The order of \<open>list\<close>\<close>

definition listBefore :: "order_by \<Rightarrow> bool \<Rightarrow> mem_job \<Rightarrow> mem_job \<Rightarrow> bool" where
  "listBefore ob desc a b \<longleftrightarrow>
     (if desc then orderValue ob b < orderValue ob a \<or> (orderValue ob b = orderValue ob a \<and> j_id b < j_id a)
      else orderValue ob a < orderValue ob b \<or> (orderValue ob a = orderValue ob b \<and> j_id a < j_id b))"

lemma listBefore_asym: "listBefore ob desc a b \<Longrightarrow> \<not> listBefore ob desc b a"
  by (auto simp: listBefore_def split: if_splits)

lemma stringCmp_le: "stringCmp a b \<le> 0 \<longleftrightarrow> a \<le> b"
  by (auto simp: stringCmp_def)

lemma listCmp_le:
  "listCmp ob desc a b \<le> 0 \<longleftrightarrow>
     (if desc then orderValue ob b < orderValue ob a \<or> (orderValue ob b = orderValue ob a \<and> j_id b \<le> j_id a)
      else orderValue ob a < orderValue ob b \<or> (orderValue ob a = orderValue ob b \<and> j_id a \<le> j_id b))"
  by (auto simp: listCmp_def Let_def stringCmp_le)

lemma consistent_by_key:
  fixes key :: "'a \<Rightarrow> 'b::linorder"
  assumes "(\<forall>a b. cmp a b \<le> 0 \<longleftrightarrow> key a \<le> key b) \<or> (\<forall>a b. cmp a b \<le> 0 \<longleftrightarrow> key b \<le> key a)"
  shows "consistent_cmp cmp A"
  using assms unfolding consistent_cmp_def by (elim disjE) (meson linear order_trans)+

lemma listCmp_consistent: "consistent_cmp (listCmp ob desc) A"
proof (rule consistent_by_key [of _ "\<lambda>j. (orderValue ob j, j_id j)"], cases desc)
  case True
  then show "(\<forall>a b. listCmp ob desc a b \<le> 0 \<longleftrightarrow> (orderValue ob a, j_id a) \<le> (orderValue ob b, j_id b))
    \<or> (\<forall>a b. listCmp ob desc a b \<le> 0 \<longleftrightarrow> (orderValue ob b, j_id b) \<le> (orderValue ob a, j_id a))"
    by (intro disjI2) (auto simp: listCmp_le less_eq_prod_def)
next
  case False
  then show "(\<forall>a b. listCmp ob desc a b \<le> 0 \<longleftrightarrow> (orderValue ob a, j_id a) \<le> (orderValue ob b, j_id b))
    \<or> (\<forall>a b. listCmp ob desc a b \<le> 0 \<longleftrightarrow> (orderValue ob b, j_id b) \<le> (orderValue ob a, j_id a))"
    by (intro disjI1) (auto simp: listCmp_le less_eq_prod_def)
qed

lemma sorted_wrt_strict:
  assumes "sorted_wrt P xs" "distinct (map f xs)" "\<And>a b. P a b \<Longrightarrow> f a \<noteq> f b \<Longrightarrow> Q a b"
  shows "sorted_wrt Q xs"
  using assms(1,2) by (induction xs) (use assms(3) in fastforce)+

lemma listSorted_strict:
  assumes "distinct (map j_id (mapValues (jobs s)))"
  shows "sorted_wrt (listBefore (orElse (lo_orderBy opts) ByEnqueuedAt) (orElse (lo_order opts) Desc = Desc))
    (listSorted opts s)"
proof -
  let ?ob = "orElse (lo_orderBy opts) ByEnqueuedAt" and ?d = "orElse (lo_order opts) Desc = Desc"
  let ?L = "listSorted opts s"
  have "sorted_wrt (\<lambda>a b. listCmp ?ob ?d a b \<le> 0) ?L"
    unfolding listSorted_def by (rule sorted_toSorted) (rule listCmp_consistent)
  moreover have "distinct (map j_id ?L)"
  proof -
    have "distinct (map j_id (filter (listFilter opts) (mapValues (jobs s))))"
      using assms by (rule distinct_map_filter)
    moreover have "mset (map j_id ?L) = mset (map j_id (filter (listFilter opts) (mapValues (jobs s))))"
      unfolding listSorted_def mset_map by simp
    ultimately show ?thesis using mset_eq_imp_distinct_iff by blast
  qed
  ultimately show ?thesis
    by (rule sorted_wrt_strict) (auto simp: listCmp_le listBefore_def split: if_splits)
qed

lemma wf_ids_distinct:
  assumes "wellFormed s"
  shows "distinct (map j_id (mapValues (jobs s)))"
proof -
  have "map j_id (mapValues (jobs s)) = mapKeys (jobs s)"
  proof (rule nth_equalityI)
    fix n assume "n < length (map j_id (mapValues (jobs s)))"
    then have n: "n < length (jobs s)" by simp
    obtain k j where kj: "jobs s ! n = (k, j)" by fastforce
    with n have "(k, j) \<in> set (jobs s)" using nth_mem by metis
    with wf_distinct [OF assms] have "mapGet (jobs s) k = Some j" by simp
    from wf_id [OF assms this] kj n show "map j_id (mapValues (jobs s)) ! n = mapKeys (jobs s) ! n" by simp
  qed simp
  then show ?thesis using wf_distinct [OF assms] by (rule back_subst [of distinct, rotated, OF sym])
qed

section \<open>The cursor of \<open>list\<close>\<close>

lemma parse_issued: "parseCursor (intToString t @ CHR '':'' # i) = (Some t, i)"
proof -
  let ?w = "intToString t"
  have i: "indexOf (CHR '':'') (?w @ CHR '':'' # i) = int (length ?w)"
    by (simp add: indexOf_append intToString_no_colon)
  show ?thesis by (simp add: parseCursor_def i Let_def sliceTo_def sliceFrom_def nat_add_distrib)
qed

lemma parse_printCursor: "parseCursor (printCursor ob job) = (Some (orderValue ob job), j_id job)"
  unfolding printCursor_def by (rule parse_issued)

lemma afterCursor_print:
  "afterCursor ob desc (Some (parseCursor (printCursor ob x))) = listBefore ob desc x"
  by (rule ext) (auto simp: parse_printCursor afterCursor_def listBefore_def Let_def)

definition listFetch :: "list_options \<Rightarrow> mem_store \<Rightarrow> string option \<Rightarrow> job_record list \<times> string option" where
  "listFetch opts s c = (let r = listJobs (opts\<lparr>lo_cursor := c\<rparr>) s in (lr_items r, lr_cursor r))"

definition listRest :: "list_options \<Rightarrow> mem_store \<Rightarrow> string option \<Rightarrow> job_record list" where
  "listRest opts s c = map snapshot
     (filter (afterCursor (orElse (lo_orderBy opts) ByEnqueuedAt) (orElse (lo_order opts) Desc = Desc)
        (map_option parseCursor c)) (listSorted opts s))"

definition listIssued :: "list_options \<Rightarrow> mem_store \<Rightarrow> string option \<Rightarrow> bool" where
  "listIssued opts s c \<longleftrightarrow> c = None
     \<or> (\<exists>j\<in>set (listSorted opts s). c = Some (printCursor (orElse (lo_orderBy opts) ByEnqueuedAt) j))"

lemma listSorted_cursor [simp]: "listSorted (opts\<lparr>lo_cursor := c\<rparr>) s = listSorted opts s"
proof -
  have "listFilter (opts\<lparr>lo_cursor := c\<rparr>) = listFilter opts" by (rule ext) (simp add: listFilter_def)
  then show ?thesis by (simp add: listSorted_def)
qed

lemma listFetch_eq:
  fixes opts s
  defines "ob \<equiv> orElse (lo_orderBy opts) ByEnqueuedAt" and "desc \<equiv> orElse (lo_order opts) Desc = Desc"
    and "n \<equiv> nat (max 1 (orElse (lo_limit opts) 50))"
  defines "matched c \<equiv> filter (afterCursor ob desc (map_option parseCursor c)) (listSorted opts s)"
  shows "listFetch opts s c =
    (map snapshot (take n (matched c)),
     if n < length (matched c) then Some (printCursor ob (matched c ! (n - 1))) else None)"
  unfolding listFetch_def listJobs_def Let_def listSorted_cursor matched_def ob_def desc_def n_def
  by (simp add: min_def)

interpretation ls: paged_source wellFormed "listFetch opts" "listRest opts" "listIssued opts" for opts
proof (unfold_locales, goal_cases)
  case (1 s)
  then show ?case by (simp add: listIssued_def)
next
  case (2 s c items)
  then show ?case by (auto simp: listFetch_eq listRest_def split: if_splits)
next
  case (3 s c items nxt)
  let ?ob = "orElse (lo_orderBy opts) ByEnqueuedAt" and ?d = "orElse (lo_order opts) Desc = Desc"
  let ?n = "nat (max 1 (orElse (lo_limit opts) 50))" and ?L = "listSorted opts s"
  let ?m = "filter (afterCursor ?ob ?d (map_option parseCursor c)) ?L"
  have n: "0 < ?n" by simp
  from 3(3) have len: "?n < length ?m" and it: "items = map snapshot (take ?n ?m)"
    and nx: "nxt = printCursor ?ob (?m ! (?n - 1))" by (auto simp: listFetch_eq split: if_splits)
  have sorted: "sorted_wrt (listBefore ?ob ?d) ?L" by (rule listSorted_strict [OF wf_ids_distinct [OF 3(1)]])
  have "\<exists>pre. ?L = pre @ ?m"
  proof (cases c)
    case None
    then show ?thesis by (simp add: afterCursor_def)
  next
    case (Some c')
    with 3(2) obtain j where "j \<in> set ?L" "c' = printCursor ?ob j" by (auto simp: listIssued_def)
    with filter_suffix [OF sorted listBefore_asym] Some show ?thesis by (simp add: afterCursor_print)
  qed
  then obtain pre where pre: "?L = pre @ ?m" by blast
  from page_split [OF sorted listBefore_asym pre n len]
  have "listRest opts s (Some nxt) = map snapshot (drop ?n ?m)"
    by (simp add: listRest_def nx afterCursor_print)
  moreover have "listRest opts s c = map snapshot ?m" by (simp add: listRest_def)
  moreover have "?m ! (?n - 1) \<in> set ?m" by (rule nth_mem) (use len in simp)
  then have "listIssued opts s (Some nxt)" using nx by (auto simp: listIssued_def)
  moreover have "items \<noteq> []" using it len n by auto
  ultimately show ?case using it by (simp flip: map_append)
qed

section \<open>Dependency rows\<close>

definition childFetch ::
  "job_id \<Rightarrow> int option \<Rightarrow> mem_store \<Rightarrow> string option \<Rightarrow> flow_child_record list \<times> string option" where
  "childFetch flowId limit s c = listChildResults flowId c limit s"

definition childAfter :: "string option \<Rightarrow> mem_flow_child \<Rightarrow> bool" where
  "childAfter c row = (case c of None \<Rightarrow> True | Some k \<Rightarrow> ch_childKey row > k)"

definition childRest :: "job_id \<Rightarrow> mem_store \<Rightarrow> string option \<Rightarrow> flow_child_record list" where
  "childRest flowId s c = map childRecord (filter (childAfter c) (sortedRows flowId s))"

definition childIssued :: "job_id \<Rightarrow> mem_store \<Rightarrow> string option \<Rightarrow> bool" where
  "childIssued flowId s c \<longleftrightarrow> c = None \<or> (\<exists>row\<in>set (sortedRows flowId s). c = Some (ch_childKey row))"

lemma map_value_keys:
  assumes "distinct (mapKeys m)" "\<And>k v. mapGet m k = Some v \<Longrightarrow> f v = k"
  shows "map f (mapValues m) = mapKeys m"
proof -
  have "f (snd p) = fst p" if "p \<in> set m" for p
    using assms(2) [of "fst p" "snd p"] assms(1) that by simp
  then show ?thesis by simp
qed

lemma childKeys_distinct:
  assumes w: "wellFormed s"
  shows "distinct (map ch_childKey (mapValues (orElse (mapGet (flowChildren s) flowId) [])))"
proof (cases "mapGet (flowChildren s) flowId")
  case None
  then show ?thesis by simp
next
  case (Some rs)
  then obtain j where j: "mapGet (jobs s) flowId = Some j"
    using wfx_no_job [of "{}" "{}" s flowId] w by (cases "mapGet (jobs s) flowId") (auto simp: wellFormed_def)
  from wf_flow [OF w j] Some have ok: "rows_ok (j_id j) rs" by (auto simp: flow_base_def)
  then have d: "distinct (mapKeys rs)" and k: "\<And>k row. mapGet rs k = Some row \<Longrightarrow> ch_childKey row = k"
    by (simp_all only: rows_ok_def)
  have "map ch_childKey (mapValues rs) = mapKeys rs" by (rule map_value_keys [OF d k])
  with d show ?thesis unfolding Some orElse_simps by (rule back_subst [of distinct, OF _ sym])
qed

lemma sortedRows_strict:
  assumes w: "wellFormed s"
  shows "sorted_wrt (\<lambda>a b. ch_childKey a < ch_childKey b) (sortedRows flowId s)"
proof -
  let ?vs = "mapValues (orElse (mapGet (flowChildren s) flowId) [])"
  let ?cmp = "\<lambda>a b. stringCmp (ch_childKey a) (ch_childKey b)"
  have "consistent_cmp ?cmp A" for A
    by (rule consistent_by_key [of _ ch_childKey]) (simp add: stringCmp_le)
  then have "sorted_wrt (\<lambda>a b. ?cmp a b \<le> 0) (sortedRows flowId s)"
    unfolding sortedRows_def by (rule sorted_toSorted)
  moreover have "mset (map ch_childKey (sortedRows flowId s)) = mset (map ch_childKey ?vs)"
    unfolding sortedRows_def mset_map by simp
  then have "distinct (map ch_childKey (sortedRows flowId s))"
    using childKeys_distinct [OF w] mset_eq_imp_distinct_iff by blast
  ultimately show ?thesis by (rule sorted_wrt_strict) (auto simp: stringCmp_le)
qed

lemma last_take: "0 < n \<Longrightarrow> n \<le> length xs \<Longrightarrow> last (take n xs) = xs ! (n - 1)"
  by (cases n) (simp_all add: take_Suc_conv_app_nth)

lemma childFetch_eq:
  fixes limit flowId s
  defines "n \<equiv> nat (max 1 (orElse limit 1000))"
  defines "matched c \<equiv> filter (childAfter c) (sortedRows flowId s)"
  shows "childFetch flowId limit s c =
    (map childRecord (take n (matched c)),
     if n < length (matched c) then Some (ch_childKey (matched c ! (n - 1))) else None)"
proof -
  have n: "0 < n" by (simp add: n_def)
  have "n < length (matched c) \<Longrightarrow> take n (matched c) \<noteq> []" using n by auto
  moreover have "childAfter c = (\<lambda>row. case c of None \<Rightarrow> True | Some c \<Rightarrow> ch_childKey row > c)"
    by (rule ext) (simp add: childAfter_def)
  ultimately show ?thesis
    unfolding childFetch_def listChildResults_def Let_def matched_def n_def [symmetric]
    using last_take [OF n, of "matched c"] by (simp add: matched_def)
qed

interpretation cs: paged_source wellFormed "childFetch flowId limit" "childRest flowId" "childIssued flowId"
  for flowId limit
proof (unfold_locales, goal_cases)
  case (1 s)
  then show ?case by (simp add: childIssued_def)
next
  case (2 s c items)
  then show ?case by (auto simp: childFetch_eq childRest_def split: if_splits)
next
  case (3 s c items nxt)
  let ?R = "\<lambda>a b. ch_childKey a < ch_childKey b"
  let ?n = "nat (max 1 (orElse limit 1000))" and ?L = "sortedRows flowId s"
  let ?m = "filter (childAfter c) ?L"
  have asym: "\<And>a b. ?R a b \<Longrightarrow> \<not> ?R b a" by simp
  have after: "childAfter (Some (ch_childKey x)) = ?R x" for x by (rule ext) (simp add: childAfter_def)
  have n: "0 < ?n" by simp
  from 3(3) have len: "?n < length ?m" and it: "items = map childRecord (take ?n ?m)"
    and nx: "nxt = ch_childKey (?m ! (?n - 1))" by (auto simp: childFetch_eq split: if_splits)
  note sorted = sortedRows_strict [OF 3(1), of flowId]
  have "\<exists>pre. ?L = pre @ ?m"
  proof (cases c)
    case None
    then show ?thesis by (simp add: childAfter_def)
  next
    case (Some c')
    with 3(2) obtain x where "x \<in> set ?L" "c' = ch_childKey x" by (auto simp: childIssued_def)
    with filter_suffix [OF sorted asym] Some show ?thesis by (simp add: after)
  qed
  then obtain pre where pre: "?L = pre @ ?m" by blast
  from page_split [OF sorted asym pre n len]
  have "childRest flowId s (Some nxt) = map childRecord (drop ?n ?m)"
    by (simp add: childRest_def nx after)
  moreover have "childRest flowId s c = map childRecord ?m" by (simp add: childRest_def)
  moreover have "?m ! (?n - 1) \<in> set ?m" by (rule nth_mem) (use len in simp)
  then have "childIssued flowId s (Some nxt)" using nx by (auto simp: childIssued_def)
  moreover have "items \<noteq> []" using it len n by auto
  ultimately show ?case using it by (simp flip: map_append)
qed

section \<open>The outbox walk\<close>

definition outboxFetch :: "mem_store \<Rightarrow> string option \<Rightarrow> outbox_entry list \<times> string option" where
  "outboxFetch s c =
     (let es = peekOutbox 500 c s in (es, if length es < 500 then None else Some (ob_id (last es))))"

definition outboxAfter :: "string option \<Rightarrow> outbox_entry \<Rightarrow> bool" where
  "outboxAfter c e = (case c of None \<Rightarrow> True | Some a \<Rightarrow> the (outboxSeqOf (ob_id e)) > the (outboxSeqOf a))"

definition outboxRest :: "mem_store \<Rightarrow> string option \<Rightarrow> outbox_entry list" where
  "outboxRest s c = filter (outboxAfter c) (outbox s)"

definition outboxIssued :: "mem_store \<Rightarrow> string option \<Rightarrow> bool" where
  "outboxIssued s c \<longleftrightarrow> c = None \<or> (\<exists>n. c = Some (outboxId n))"

lemma outboxSeqOf_id [simp]: "outboxSeqOf (outboxId n) = Some (int n)"
  by (simp add: outboxSeqOf_def outboxId_def)

lemma outboxId_prefix [simp]: "startsWith ''ob-'' (outboxId n)"
  by (simp add: outboxId_def startsWith_def)

lemma outbox_entry_id:
  assumes "outbox_ok s" "e \<in> set (outbox s)"
  obtains n where "ob_id e = outboxId n" "n \<le> outboxSeq s"
proof -
  from assms(1) obtain ns where ns: "map ob_id (outbox s) = map outboxId ns" "\<forall>n\<in>set ns. n \<le> outboxSeq s"
    by (auto simp: outbox_ok_def)
  from assms(2) have "ob_id e \<in> set (map ob_id (outbox s))" by simp
  with ns that show thesis by auto
qed

lemma peekOutbox_eq:
  assumes "outbox_ok s" "outboxIssued s c"
  shows "peekOutbox limit c s = take (nat (max 0 limit)) (outboxRest s c)"
proof (cases c)
  case None
  then show ?thesis by (simp add: peekOutbox_def outboxRest_def outboxAfter_def)
next
  case (Some a)
  with assms(2) obtain n where a: "a = outboxId n" by (auto simp: outboxIssued_def)
  have "filter (\<lambda>entry. case outboxSeqOf (ob_id entry) of Some m \<Rightarrow> m > int n | None \<Rightarrow> False) (outbox s)
      = filter (outboxAfter c) (outbox s)"
    by (rule filter_cong) (auto simp: Some a outboxAfter_def elim: outbox_entry_id [OF assms(1)])
  then show ?thesis by (simp add: peekOutbox_def outboxRest_def Some a)
qed

lemma outbox_sorted:
  assumes "outbox_ok s"
  shows "sorted_wrt (\<lambda>a b. the (outboxSeqOf (ob_id a)) < the (outboxSeqOf (ob_id b))) (outbox s)"
proof -
  from assms obtain ns where ns: "map ob_id (outbox s) = map outboxId ns" "sorted_wrt (<) ns"
    by (auto simp: outbox_ok_def)
  have "sorted_wrt (\<lambda>a b. the (outboxSeqOf a) < the (outboxSeqOf b)) (map outboxId ns)"
    using ns(2) by (simp add: sorted_wrt_map)
  then show ?thesis unfolding ns(1) [symmetric] by (simp add: sorted_wrt_map)
qed

interpretation os: paged_source wellFormed outboxFetch outboxRest outboxIssued
proof (unfold_locales, goal_cases)
  case (1 s)
  then show ?case by (simp add: outboxIssued_def)
next
  case (2 s c items)
  have "outbox_ok s" using 2(1) by (simp add: wellFormed_def wfx_def)
  with 2 show ?case by (auto simp: outboxFetch_def Let_def peekOutbox_eq split: if_splits)
next
  case (3 s c items nxt)
  let ?R = "\<lambda>a b. the (outboxSeqOf (ob_id a)) < the (outboxSeqOf (ob_id b))"
  have ok: "outbox_ok s" using 3(1) by (simp add: wellFormed_def wfx_def)
  let ?L = "outbox s" and ?m = "outboxRest s c"
  have asym: "\<And>a b. ?R a b \<Longrightarrow> \<not> ?R b a" by simp
  have after: "outboxAfter (Some (ob_id x)) = ?R x" for x by (rule ext) (simp add: outboxAfter_def)
  from 3(3) have it: "items = take 500 ?m" "500 \<le> length ?m" "nxt = ob_id (last (take 500 ?m))"
    by (auto simp: outboxFetch_def Let_def peekOutbox_eq [OF ok 3(2)] split: if_splits)
  have lst: "last (take 500 ?m) = ?m ! 499" using it(2) last_take [of 500 ?m] by simp
  note sorted = outbox_sorted [OF ok]
  define x where "x = ?m ! 499"
  have nx: "nxt = ob_id x" unfolding it(3) lst x_def ..
  have mem: "x \<in> set ?m" unfolding x_def by (rule nth_mem) (use it(2) in simp)
  then have "x \<in> set ?L" and ax: "outboxAfter c x" by (simp_all add: outboxRest_def)
  then obtain k where k: "ob_id x = outboxId k" using outbox_entry_id [OF ok] by blast
  have m: "?m = take 499 ?m @ x # drop 500 ?m"
    using it(2) id_take_nth_drop [of 499 ?m] by (simp add: x_def)
  have srt: "sorted_wrt ?R ?m" unfolding outboxRest_def by (rule sorted_wrt_filter [OF sorted])
  have "sorted_wrt ?R (take 499 ?m @ x # drop 500 ?m)" by (subst m [symmetric]) (rule srt)
  from filter_after [OF this asym] have "filter (?R x) (take 499 ?m @ x # drop 500 ?m) = drop 500 ?m" .
  with arg_cong [OF m, of "filter (?R x)"] have cut: "filter (?R x) ?m = drop 500 ?m" by (rule trans)
  have imp: "outboxAfter c e" if "?R x e" for e
    using that ax by (auto simp: outboxAfter_def split: option.splits)
  have "filter (?R x) (filter (outboxAfter c) ?L) = filter (?R x) ?L"
    unfolding filter_filter by (rule filter_cong) (use imp in blast)+
  then have rest: "outboxRest s (Some nxt) = drop 500 ?m"
    using cut by (simp add: outboxRest_def nx after)
  have "items \<noteq> []" using it(1,2) by auto
  moreover have "?m = items @ outboxRest s (Some nxt)" unfolding rest it(1) by simp
  moreover have "outboxIssued s (Some nxt)" unfolding nx k outboxIssued_def by blast
  ultimately show ?case by blast
qed

section \<open>Properties\<close>

text \<open>C18: paging through \<open>list\<close> returns every matching job exactly once, in the requested order. Reading
  page after page with any filters, order and page size, starting without a cursor and passing each
  page's cursor on, ends and returns the records of exactly the matching jobs, sorted by the requested
  field with ties broken by id.\<close>

theorem list_pages_are_complete:
  assumes "wellFormed s" and "length (jobs s) < n"
  shows "drainPages n (listFetch opts s) None = Some (map snapshot (listSorted opts s))
    \<and> mset (listSorted opts s) = mset (filter (listFilter opts) (mapValues (jobs s)))
    \<and> sorted_wrt (listBefore (orElse (lo_orderBy opts) ByEnqueuedAt) (orElse (lo_order opts) Desc = Desc))
        (listSorted opts s)"
proof (intro conjI)
  have rest: "listRest opts s None = map snapshot (listSorted opts s)"
    by (simp add: listRest_def afterCursor_def)
  have "length (listSorted opts s) \<le> length (jobs s)"
    unfolding listSorted_def length_toSorted using length_filter_le [of _ "mapValues (jobs s)"] by simp
  with assms(2) have "length (listRest opts s None) < n" unfolding rest by simp
  from ls.drain_complete [OF assms(1) ls.start [OF assms(1)] this]
  show "drainPages n (listFetch opts s) None = Some (map snapshot (listSorted opts s))" unfolding rest .
  show "mset (listSorted opts s) = mset (filter (listFilter opts) (mapValues (jobs s)))"
    by (simp add: listSorted_def)
  show "sorted_wrt (listBefore (orElse (lo_orderBy opts) ByEnqueuedAt) (orElse (lo_order opts) Desc = Desc))
        (listSorted opts s)"
    by (rule listSorted_strict [OF wf_ids_distinct [OF assms(1)]])
qed

definition pageOfTwo :: list_options where
  "pageOfTwo = \<lparr> lo_queue = Some ''q'', lo_name = None, lo_states = None, lo_metadata = None,
     lo_orderBy = None, lo_order = None, lo_cursor = None, lo_limit = Some 2 \<rparr>"

theorem list_pages_are_complete_witness:
  "map_option (map j_id) (drainPages 4 (listFetch pageOfTwo threeJobs) None) = Some [''j-3'', ''j-2'', ''j-1'']"
proof -
  have "length (jobs threeJobs) < 4" by code_simp
  from list_pages_are_complete [OF threeJobs_wf this, of pageOfTwo]
  have "map_option (map j_id) (drainPages 4 (listFetch pageOfTwo threeJobs) None)
      = Some (map j_id (map snapshot (listSorted pageOfTwo threeJobs)))" by (simp only: option.map)
  moreover have "map j_id (map snapshot (listSorted pageOfTwo threeJobs)) = [''j-3'', ''j-2'', ''j-1'']" by code_simp
  ultimately show ?thesis by simp
qed

text \<open>Paging through a flow's dependency rows returns every row exactly once, in the order of the
  child keys, whatever the page size.\<close>

theorem child_pages_are_complete:
  assumes "wellFormed s" and "mapGet (flowChildren s) flowId = Some rows" and "length rows < n"
  shows "drainPages n (childFetch flowId limit s) None = Some (map childRecord (sortedRows flowId s))
    \<and> mset (sortedRows flowId s) = mset (mapValues rows)
    \<and> sorted_wrt (\<lambda>a b. ch_childKey a < ch_childKey b) (sortedRows flowId s)"
proof (intro conjI)
  have rest: "childRest flowId s None = map childRecord (sortedRows flowId s)"
    by (simp add: childRest_def childAfter_def)
  show ms: "mset (sortedRows flowId s) = mset (mapValues rows)"
    by (simp add: sortedRows_def assms(2))
  then have "length (sortedRows flowId s) = length rows" by (metis length_map size_mset)
  with assms(3) have "length (childRest flowId s None) < n" unfolding rest by simp
  from cs.drain_complete [OF assms(1) cs.start [OF assms(1)] this]
  show "drainPages n (childFetch flowId limit s) None = Some (map childRecord (sortedRows flowId s))"
    unfolding rest .
  show "sorted_wrt (\<lambda>a b. ch_childKey a < ch_childKey b) (sortedRows flowId s)"
    by (rule sortedRows_strict [OF assms(1)])
qed

lemma fannedOut_sample:
  "\<exists>s rows. wellFormed s \<and> s = execs None [OpEnqueue 0 aRequest, OpClaim 10 someOptions,
       OpAck 20 ''j-1'' ''t'' (FanOut False
         (map (\<lambda>k. \<lparr>cs_childKey = k, cs_storeKey = ''s'', cs_request = aRequest\<lparr>rq_id := Some k\<rparr>\<rparr>) [''b'', ''a'']))] emptyStore
     \<and> mapGet (flowChildren s) ''j-1'' = Some rows \<and> length rows < 3"
proof -
  let ?s = "execs None [OpEnqueue 0 aRequest, OpClaim 10 someOptions,
       OpAck 20 ''j-1'' ''t'' (FanOut False
         (map (\<lambda>k. \<lparr>cs_childKey = k, cs_storeKey = ''s'', cs_request = aRequest\<lparr>rq_id := Some k\<rparr>\<rparr>) [''b'', ''a'']))] emptyStore"
  have "wellFormed ?s" by (rule execs_wf [OF wf_empty]) (simp add: fanout_ok_def)
  moreover have "(case mapGet (flowChildren ?s) ''j-1'' of None \<Rightarrow> False | Some rows \<Rightarrow> length rows < 3)" by code_simp
  ultimately show ?thesis by (auto split: option.splits)
qed

theorem child_pages_are_complete_witness:
  "\<exists>s. drainPages 3 (childFetch ''j-1'' (Some 1) s) None = Some (map childRecord (sortedRows ''j-1'' s))
     \<and> sortedRows ''j-1'' s \<noteq> []"
proof -
  from fannedOut_sample obtain s rows where s: "wellFormed s" "mapGet (flowChildren s) ''j-1'' = Some rows" "length rows < 3"
    and eq: "s = execs None [OpEnqueue 0 aRequest, OpClaim 10 someOptions,
       OpAck 20 ''j-1'' ''t'' (FanOut False
         (map (\<lambda>k. \<lparr>cs_childKey = k, cs_storeKey = ''s'', cs_request = aRequest\<lparr>rq_id := Some k\<rparr>\<rparr>) [''b'', ''a'']))] emptyStore"
    by metis
  have "sortedRows ''j-1'' s \<noteq> []" unfolding eq by code_simp
  with child_pages_are_complete [OF s, of "Some 1"] show ?thesis by blast
qed

text \<open>Walking the outbox by cursor, in pages of 500 as the relay does, visits every entry once and in
  the order of its terminal transitions.\<close>

theorem outbox_walk_is_complete:
  assumes "wellFormed s" and "length (outbox s) < n"
  shows "drainPages n (outboxFetch s) None = Some (outbox s)"
proof -
  have rest: "outboxRest s None = outbox s" by (simp add: outboxRest_def outboxAfter_def)
  from os.drain_complete [OF assms(1) os.start [OF assms(1)], of n] assms(2) show ?thesis
    unfolding rest by blast
qed

theorem outbox_walk_is_complete_witness:
  "drainPages 2 (outboxFetch (exec None (OpCancel 30 ''j-2'') oneActive)) None
     = Some (outbox (exec None (OpCancel 30 ''j-2'') oneActive))"
proof -
  have "wellFormed (exec None (OpCancel 30 ''j-2'') oneActive)" by (rule exec_wf [OF _ oneActive_wf]) simp
  moreover have "length (outbox (exec None (OpCancel 30 ''j-2'') oneActive)) < 2" by code_simp
  ultimately show ?thesis by (rule outbox_walk_is_complete)
qed

end
