(* ===== verification/PgReads.thy ===== *)
theory PgReads
  imports PgRuns PgSafety Listing
begin

text \<open>
  Listing and counting in the Postgres driver. On tables that hold the same jobs as an in-memory store,
  in a database that orders texts by code units, the keyset queries return, page by page, what the
  in-memory driver returns.
\<close>

section \<open>What is assumed of the database\<close>

text \<open>
  Its collation orders texts by code units (the collation C), as the comparisons of the in-memory driver
  do, and it takes the timestamps from the epoch to the last one a \<open>Date\<close> can hold as parameters.
\<close>

definition codeUnitCollation :: "pg_server \<Rightarrow> bool" where
  "codeUnitCollation srv \<longleftrightarrow> (\<forall>a b. sgn (sr_collate srv a b) = stringCmp a b)"

definition takesTimestamps :: "pg_server \<Rightarrow> bool" where
  "takesTimestamps srv \<longleftrightarrow> (\<forall>t. 0 \<le> t \<longrightarrow> t \<le> 8640000000000000 \<longrightarrow> sr_timestamp srv t)"

text \<open>The cursors that pages carry: a time and an id. A caller who follows pages passes no other.\<close>

definition issuedCursor :: "string \<Rightarrow> bool" where
  "issuedCursor c \<longleftrightarrow> (\<exists>t i. c = intToString t @ CHR '':'' # i \<and> 0 \<le> t \<and> t \<le> 8640000000000000)"

lemma collate_sign:
  assumes "codeUnitCollation srv"
  shows "sr_collate srv a b < 0 \<longleftrightarrow> a < b" "sr_collate srv a b > 0 \<longleftrightarrow> b < a"
    "sr_collate srv a b \<le> 0 \<longleftrightarrow> a \<le> b" "0 \<le> sr_collate srv a b \<longleftrightarrow> b \<le> a"
proof -
  have s: "sgn (sr_collate srv a b) = stringCmp a b" using assms by (simp add: codeUnitCollation_def)
  then show "sr_collate srv a b < 0 \<longleftrightarrow> a < b" "sr_collate srv a b > 0 \<longleftrightarrow> b < a"
    by (auto simp: stringCmp_def sgn_if split: if_splits)
  then show "sr_collate srv a b \<le> 0 \<longleftrightarrow> a \<le> b" "0 \<le> sr_collate srv a b \<longleftrightarrow> b \<le> a" by (metis not_le)+
qed

section \<open>Listing on records\<close>

definition recValue :: "order_by \<Rightarrow> job_record \<Rightarrow> int" where
  "recValue orderBy r =
     (case orderBy of ByEnqueuedAt \<Rightarrow> j_enqueuedAt r | ByRunAt \<Rightarrow> j_runAt r | ByFinishedAt \<Rightarrow> orElse (j_finishedAt r) 0)"

definition recBefore :: "order_by \<Rightarrow> bool \<Rightarrow> job_record \<Rightarrow> job_record \<Rightarrow> bool" where
  "recBefore ob desc a b \<longleftrightarrow>
     (if desc then recValue ob b < recValue ob a \<or> (recValue ob b = recValue ob a \<and> j_id b < j_id a)
      else recValue ob a < recValue ob b \<or> (recValue ob a = recValue ob b \<and> j_id a < j_id b))"

definition recFilter :: "list_options \<Rightarrow> job_record \<Rightarrow> bool" where
  "recFilter options r \<longleftrightarrow>
     (case lo_queue options of None \<Rightarrow> True | Some q \<Rightarrow> j_queue r = q)
   \<and> (case lo_name options of None \<Rightarrow> True | Some n \<Rightarrow> j_name r = n)
   \<and> (case lo_states options of None \<Rightarrow> True | Some sts \<Rightarrow> j_state r \<in> set sts)
   \<and> (case lo_metadata options of None \<Rightarrow> True | Some m \<Rightarrow> metadataMatches (j_metadata r) m)"

definition recAfter :: "order_by \<Rightarrow> bool \<Rightarrow> (int option \<times> string) option \<Rightarrow> job_record \<Rightarrow> bool" where
  "recAfter ob desc cursor r =
     (case cursor of
        None \<Rightarrow> True
      | Some (None, _) \<Rightarrow> False
      | Some (Some pos, i) \<Rightarrow>
          (if desc then recValue ob r < pos \<or> (recValue ob r = pos \<and> j_id r < i)
           else recValue ob r > pos \<or> (recValue ob r = pos \<and> j_id r > i)))"

lemma mem_on_records:
  "orderValue ob job = recValue ob (snapshot job)" "listFilter opts job = recFilter opts (snapshot job)"
  "afterCursor ob desc cursor job = recAfter ob desc cursor (snapshot job)" "j_id (snapshot job) = j_id job"
  by (auto simp: orderValue_def recValue_def snapshot_def listFilter_def recFilter_def afterCursor_def recAfter_def
      split: order_by.split option.split)

lemma pg_on_records:
  assumes "codeUnitCollation srv"
  shows "pgOrderValue ob row = recValue ob (pgToRecord row)" "pgListFilter opts row = recFilter opts (pgToRecord row)"
  "pastKeyset srv ob desc pos i row = recAfter ob desc (Some (Some pos, i)) (pgToRecord row)" "j_id (pgToRecord row) = pj_id row"
  by (auto simp: pgOrderValue_def recValue_def pgToRecord_def pgListFilter_def recFilter_def metadataMatches_def
      pastKeyset_def recAfter_def Let_def collate_sign [OF assms] split: order_by.split option.split)

lemma recBefore_asym: "recBefore ob desc a b \<Longrightarrow> \<not> recBefore ob desc b a"
  by (auto simp: recBefore_def split: if_splits)

lemma strictly_sorted_unique:
  assumes "sorted_wrt R xs" "sorted_wrt R ys" "mset xs = mset ys" "\<And>a b. R a b \<Longrightarrow> \<not> R b a"
  shows "xs = ys"
  using assms(1-3)
proof (induction xs arbitrary: ys)
  case (Cons x xs)
  then obtain y zs where ys: "ys = y # zs" by (cases ys) auto
  have "x = y"
  proof (rule ccontr)
    assume "x \<noteq> y"
    then have "x \<in> set zs" "y \<in> set xs" using Cons.prems(3) ys
      by (metis list.set_intros(1) set_ConsD set_mset_mset)+
    then have "R y x" "R x y" using Cons.prems ys by auto
    then show False using assms(4) by blast
  qed
  then show ?case using Cons ys by simp
qed simp

section \<open>The rows of a query\<close>

lemma pgListCmp_le:
  assumes "codeUnitCollation srv"
  shows "pgListCmp srv ob desc a b \<le> 0 \<longleftrightarrow>
     (if desc then pgOrderValue ob b < pgOrderValue ob a \<or> (pgOrderValue ob b = pgOrderValue ob a \<and> pj_id b \<le> pj_id a)
      else pgOrderValue ob a < pgOrderValue ob b \<or> (pgOrderValue ob a = pgOrderValue ob b \<and> pj_id a \<le> pj_id b))"
  by (auto simp: pgListCmp_def Let_def collate_sign [OF assms])

lemma pgListCmp_consistent:
  assumes "codeUnitCollation srv"
  shows "consistent_cmp (pgListCmp srv ob desc) A"
proof (rule consistent_by_key [of _ "\<lambda>j. (pgOrderValue ob j, pj_id j)"], cases desc)
  case True
  then show "(\<forall>a b. pgListCmp srv ob desc a b \<le> 0 \<longleftrightarrow> (pgOrderValue ob a, pj_id a) \<le> (pgOrderValue ob b, pj_id b))
    \<or> (\<forall>a b. pgListCmp srv ob desc a b \<le> 0 \<longleftrightarrow> (pgOrderValue ob b, pj_id b) \<le> (pgOrderValue ob a, pj_id a))"
    by (intro disjI2) (auto simp: pgListCmp_le [OF assms] less_eq_prod_def)
next
  case False
  then show "(\<forall>a b. pgListCmp srv ob desc a b \<le> 0 \<longleftrightarrow> (pgOrderValue ob a, pj_id a) \<le> (pgOrderValue ob b, pj_id b))
    \<or> (\<forall>a b. pgListCmp srv ob desc a b \<le> 0 \<longleftrightarrow> (pgOrderValue ob b, pj_id b) \<le> (pgOrderValue ob a, pj_id a))"
    by (intro disjI1) (auto simp: pgListCmp_le [OF assms] less_eq_prod_def)
qed

lemma agrees_records:
  assumes "pgAgrees db s" and "wellFormed s"
  shows "map pgToRecord (mapValues (db_jobs db)) = map snapshot (mapValues (jobs s))"
proof -
  note d = agrees_distinct [OF assms] wf_distinct [OF assms(2)]
  have "mapValues (db_jobs db) = map (\<lambda>k. the (mapGet (db_jobs db) k)) (mapKeys (db_jobs db))"
    "mapValues (jobs s) = map (\<lambda>k. the (mapGet (jobs s) k)) (mapKeys (jobs s))" using d by auto
  moreover have "pgToRecord (the (mapGet (db_jobs db) k)) = snapshot (the (mapGet (jobs s) k))" if k: "k \<in> set (mapKeys (jobs s))" for k
  proof -
    obtain job where j: "mapGet (jobs s) k = Some job" using k by (cases "mapGet (jobs s) k") (auto simp: map_of_eq_None_iff)
    from agrees_job [OF assms(1) this] obtain row where "mapGet (db_jobs db) k = Some row" "rowAgrees row job" by blast
    with j show ?thesis by (simp add: rowAgrees_def)
  qed
  moreover have "mapKeys (db_jobs db) = mapKeys (jobs s)" using assms(1) by (simp add: pgAgrees_def)
  ultimately show ?thesis by (simp only: map_map) (rule map_cong; simp)
qed

lemma query_rows:
  assumes ob_def: "ob = orElse (lo_orderBy opts) ByEnqueuedAt" and desc_def: "desc = (orElse (lo_order opts) Desc = Desc)"
    and c: "codeUnitCollation srv" and ag: "pgAgrees db s" and wf: "wellFormed s" and keyset: "\<And>row. keyset row = recAfter ob desc cursor (pgToRecord row)"
  shows "map pgToRecord (pgListRows srv opts keyset db) = map snapshot (filter (afterCursor ob desc cursor) (listSorted opts s))"
proof (rule strictly_sorted_unique [OF _ _ _ recBefore_asym])
  note recs = agrees_records [OF ag wf]
  let ?Q = "\<lambda>r. recFilter opts r \<and> recAfter ob desc cursor r"
  have Q: "map pgToRecord (filter (\<lambda>row. pgListFilter opts row \<and> keyset row) xs) = filter ?Q (map pgToRecord xs)" for xs
    by (simp add: keyset pg_on_records [OF c] filter_map comp_def)
  have "map j_id (map pgToRecord (mapValues (db_jobs db))) = map j_id (mapValues (jobs s))"
    unfolding recs by (simp add: mem_on_records)
  then have ids: "distinct (map j_id (map pgToRecord (mapValues (db_jobs db))))" using wf_ids_distinct [OF wf] by simp
  have m: "mset (map pgToRecord (pgListRows srv opts keyset db)) = mset (filter ?Q (map pgToRecord (mapValues (db_jobs db))))"
    unfolding Q [symmetric] pgListRows_def mset_map by simp
  moreover have "mset (map snapshot (filter (afterCursor ob desc cursor) (listSorted opts s)))
      = mset (filter ?Q (map snapshot (mapValues (jobs s))))"
  proof -
    have "map snapshot (filter (\<lambda>job. listFilter opts job \<and> afterCursor ob desc cursor job) xs) = filter ?Q (map snapshot xs)" for xs
      by (simp add: mem_on_records filter_map comp_def)
    then have "mset (filter ?Q (map snapshot (mapValues (jobs s))))
        = mset (map snapshot (filter (afterCursor ob desc cursor) (filter (listFilter opts) (mapValues (jobs s)))))"
      by (simp only: filter_filter conj_commute)
    then show ?thesis by (simp only: listSorted_def mset_map mset_filter mset_toSorted)
  qed
  ultimately show "mset (map pgToRecord (pgListRows srv opts keyset db))
      = mset (map snapshot (filter (afterCursor ob desc cursor) (listSorted opts s)))" by (simp only: recs)
  have "sorted_wrt (\<lambda>a b. pgListCmp srv ob desc a b \<le> 0) (pgListRows srv opts keyset db)"
    unfolding pgListRows_def ob_def desc_def by (rule sorted_toSorted) (rule pgListCmp_consistent [OF c])
  moreover have "mset (map pj_id (pgListRows srv opts keyset db)) = mset (map j_id (filter ?Q (map pgToRecord (mapValues (db_jobs db)))))"
    using arg_cong [OF m, of "image_mset j_id"] by (simp add: pg_on_records [OF c] multiset.map_comp comp_def)
  then have "distinct (map pj_id (pgListRows srv opts keyset db))"
    using distinct_map_filter [OF ids, of ?Q] mset_eq_imp_distinct_iff by blast
  ultimately have "sorted_wrt (\<lambda>a b. recBefore ob desc (pgToRecord a) (pgToRecord b)) (pgListRows srv opts keyset db)"
    by (rule sorted_wrt_strict) (auto simp: pgListCmp_le [OF c] recBefore_def pg_on_records [OF c] split: if_splits)
  then show "sorted_wrt (recBefore ob desc) (map pgToRecord (pgListRows srv opts keyset db))" by (simp add: sorted_wrt_map)
  have "listBefore ob desc = (\<lambda>a b. recBefore ob desc (snapshot a) (snapshot b))"
    by (simp add: listBefore_def recBefore_def mem_on_records fun_eq_iff)
  then have "sorted_wrt (\<lambda>a b. recBefore ob desc (snapshot a) (snapshot b)) (listSorted opts s)"
    using listSorted_strict [OF wf_ids_distinct [OF wf], of opts] by (simp add: ob_def desc_def)
  then show "sorted_wrt (recBefore ob desc) (map snapshot (filter (afterCursor ob desc cursor) (listSorted opts s)))"
    by (simp add: sorted_wrt_map sorted_wrt_filter)
qed

lemma page_on_records:
  fixes opts :: list_options
  defines "limit \<equiv> nat (max 1 (orElse (lo_limit opts) 50))" and "ob \<equiv> orElse (lo_orderBy opts) ByEnqueuedAt"
  assumes c: "codeUnitCollation srv" and rows: "map pgToRecord rows = map snapshot matched"
  shows "pgPage opts rows = \<lparr>lr_items = map snapshot (take limit matched),
     lr_cursor = (if length matched > limit then Some (printCursor ob (matched ! (min limit (length matched) - 1))) else None)\<rparr>"
proof -
  have len: "length rows = length matched" using arg_cong [OF rows, of length] by simp
  have pos: "0 < limit" by (simp add: limit_def)
  have items: "map pgToRecord (take limit rows) = map snapshot (take limit matched)"
    using arg_cong [OF rows, of "take limit"] by (simp add: take_map)
  have cursor: "intToString (pgOrderValue ob (last (take limit rows))) @ CHR '':'' # pj_id (last (take limit rows))
      = printCursor ob (matched ! (limit - 1))" if more: "limit < length matched"
  proof -
    have "last (take limit rows) = rows ! (limit - 1)" by (rule last_take) (use pos more len in simp_all)
    moreover have "pgToRecord (rows ! (limit - 1)) = snapshot (matched ! (limit - 1))"
      using arg_cong [OF rows, of "\<lambda>xs. xs ! (limit - 1)"] more len by simp
    ultimately show ?thesis by (metis printCursor_def pg_on_records(1,4) [OF c] mem_on_records(1,4))
  qed
  have "take limit (take (limit + 1) rows) = take limit rows" by simp
  moreover have "limit < length (take (limit + 1) rows) \<longleftrightarrow> limit < length matched" using len by simp
  moreover have "limit < length matched \<Longrightarrow> take limit rows \<noteq> []" using pos len by auto
  ultimately show ?thesis
    unfolding pgPage_def Let_def limit_def [symmetric] ob_def [symmetric] using items cursor by (simp add: min_def)
qed

lemma list_pages_alike:
  assumes c: "codeUnitCollation srv" and times: "takesTimestamps srv" and ag: "pgAgrees (ps_db st) s" and wf: "wellFormed s"
    and cursor: "\<forall>c. lo_cursor opts = Some c \<longrightarrow> issuedCursor c"
  shows "pgList srv opts st = Inr (listJobs opts s)"
proof (cases "lo_cursor opts")
  case None
  have "map pgToRecord (pgListRows srv opts (\<lambda>_. True) (ps_db st)) = map snapshot
      (filter (afterCursor (orElse (lo_orderBy opts) ByEnqueuedAt) (orElse (lo_order opts) Desc = Desc) None) (listSorted opts s))"
    by (rule query_rows [OF refl refl c ag wf]) (simp add: recAfter_def)
  from page_on_records [OF c this] None show ?thesis by (simp add: pgList_def listJobs_def Let_def)
next
  case (Some cur)
  then obtain pos i where cur: "cur = intToString pos @ CHR '':'' # i" and "0 \<le> pos" "pos \<le> 8640000000000000"
    using cursor unfolding issuedCursor_def by blast
  then have pos: "sr_timestamp srv pos" using times by (simp add: takesTimestamps_def)
  have p: "parseCursor cur = (Some pos, i)" unfolding cur by (rule parse_issued)
  let ?keyset = "pastKeyset srv (orElse (lo_orderBy opts) ByEnqueuedAt) (orElse (lo_order opts) Desc = Desc) pos i"
  have "map pgToRecord (pgListRows srv opts ?keyset (ps_db st)) = map snapshot
      (filter (afterCursor (orElse (lo_orderBy opts) ByEnqueuedAt) (orElse (lo_order opts) Desc = Desc) (Some (Some pos, i)))
        (listSorted opts s))"
    by (rule query_rows [OF refl refl c ag wf]) (simp add: pg_on_records [OF c])
  from page_on_records [OF c this] p Some pos show ?thesis
    by (simp add: pgList_def listJobs_def parseCursor_def Let_def)
qed

section \<open>Counts\<close>

lemma counts_length:
  "fold (countJob queue) xs c st = c st + int (length (filter (\<lambda>job. j_state job = st
     \<and> (case queue of None \<Rightarrow> True | Some q \<Rightarrow> j_queue job = q)) xs))"
  by (induction xs arbitrary: c) (auto simp: countJob_def split: option.split)

lemma counts_alike:
  assumes ag: "pgAgrees (ps_db st) s" and wf: "wellFormed s"
  shows "pgCounts queue st = counts queue s"
proof (rule ext)
  fix x
  let ?P = "\<lambda>r. j_state r = x \<and> (case queue of None \<Rightarrow> True | Some q \<Rightarrow> j_queue r = q)"
  have "length (filter (\<lambda>row. pj_state row = x \<and> (case queue of None \<Rightarrow> True | Some q \<Rightarrow> pj_queue row = q)) rows)
      = length (filter ?P (map pgToRecord rows))" for rows
    by (simp add: filter_map comp_def pgToRecord_def cong: option.case_cong)
  moreover have "length (filter (\<lambda>job. j_state job = x \<and> (case queue of None \<Rightarrow> True | Some q \<Rightarrow> j_queue job = q)) js)
      = length (filter ?P (map snapshot js))" for js
    by (simp add: filter_map comp_def snapshot_def cong: option.case_cong)
  ultimately show "pgCounts queue st x = counts queue s x"
    using agrees_records [OF ag wf] by (simp only: pgCounts_def counts_def counts_length)
qed

text \<open>C31: Listing and counting are the same queries in both drivers. In a database that orders texts by
  code units and takes the timestamps from the epoch on, on tables that hold the jobs of an in-memory
  store, the keyset query of the Postgres driver returns the page the in-memory driver returns, its next
  cursor included, for any filters, order and page size, from the start or from a cursor of the form that
  pages carry (a decimal time in that range and an id); and the counts agree. Under another collation the
  ties of a time come in another order; other texts as cursors (fractions, exponents, blanks, times a
  database does not hold) are outside the claim, the drivers need not agree on them.\<close>

theorem postgres_reads_as_memory:
  assumes "codeUnitCollation srv" and "takesTimestamps srv"
    and "pgSimulates st s" and "wellFormed s"
    and "\<forall>c. lo_cursor opts = Some c \<longrightarrow> issuedCursor c"
  shows "pgList srv opts st = Inr (listJobs opts s) \<and> pgCounts queue st = counts queue s"
proof -
  have "pgAgrees (ps_db st) s" using assms(3) by (simp add: pgSimulates_def)
  from list_pages_alike [OF assms(1,2) this assms(4,5)] counts_alike [OF this assms(4)] show ?thesis by simp
qed

lemma demo_okRun: "okRun (pgVerbOk ''q'') pausedAfter {} demoCalls"
  by (simp add: demoCalls_def pgVerbOk_def pausedAfter_def plainVerb_def plainRequest_def aRequest_def someOptions_def isFanOut_def
      fitsColumns_def int4_def pgOutcomeExit_def)

text \<open>A database with the collation C that takes times up to the last year a \<open>Date\<close> can hold.\<close>

definition plainServer :: pg_server where
  "plainServer = \<lparr> sr_collate = stringCmp, sr_timestamp = (\<lambda>t. - 62135596800000 \<le> t \<and> t \<le> 8640000000000000) \<rparr>"

lemma plainServer_ok: "codeUnitCollation plainServer" "takesTimestamps plainServer"
  by (auto simp: codeUnitCollation_def takesTimestamps_def plainServer_def stringCmp_def)

text \<open>The second page of one job each, behind the cursor that the first page carries.\<close>

definition secondPage :: list_options where
  "secondPage = pageOfTwo\<lparr>lo_limit := Some 1,
     lo_cursor := lr_cursor (listJobs (pageOfTwo\<lparr>lo_limit := Some 1\<rparr>) (snd (memRun None demoCalls emptyStore)))\<rparr>"

theorem postgres_reads_as_memory_witness:
  "\<exists>st. map_option (map j_id \<circ> lr_items) (case pgList plainServer secondPage st of Inr r \<Rightarrow> Some r | Inl _ \<Rightarrow> None) = Some [''a'']
     \<and> pgCounts None st Active = 1"
proof -
  let ?s = "snd (memRun None demoCalls emptyStore)"
  from pg.run_refines [OF pg_start [of pgStart] demo_okRun, of pgDefaults None]
  obtain st where st: "pgSimulates st ?s" "wellFormed ?s" by (auto simp: pgStart_def pgInv_def)
  have "lo_cursor secondPage = Some (intToString 11 @ CHR '':'' # ''b'')" by code_simp
  then have "issuedCursor c" if "lo_cursor secondPage = Some c" for c
    using that unfolding issuedCursor_def by (intro exI [of _ 11] exI [of _ "''b''"]) simp
  then have "\<forall>c. lo_cursor secondPage = Some c \<longrightarrow> issuedCursor c" by blast
  from postgres_reads_as_memory [OF plainServer_ok st this, of None]
  have "pgList plainServer secondPage st = Inr (listJobs secondPage ?s)" "pgCounts None st = counts None ?s" by simp_all
  moreover have "map j_id (lr_items (listJobs secondPage ?s)) = [''a'']" by code_simp
  moreover have "counts None ?s Active = 1" by code_simp
  ultimately show ?thesis by (intro exI [of _ st]) simp
qed

end
