(* ===== verification/JsonText.thy ===== *)
theory JsonText
  imports JobTypes
begin

text \<open>
  JSON text. \<open>jsonText\<close> prints a tree the way \<open>JSON.stringify\<close> does (no blanks, the short
  escapes, \<open>\u00hh\<close> for other control characters), \<open>parseJson\<close> reads it the way \<open>JSON.parse\<close> does.
  The Redis driver moves every structured value through such texts, and its scripts splice texts into
  larger ones. Numbers are integers and characters one byte, as everywhere in the development. Redis's
  \<open>cjson\<close> agrees with the two functions except that it prints a slash with an escape, which the
  reader undoes, and an empty table as an object.
\<close>

section \<open>Printing\<close>

abbreviation quoteChar :: char where "quoteChar \<equiv> CHR 0x22"
abbreviation escChar :: char where "escChar \<equiv> CHR 0x5C"

definition hexDigit :: "nat \<Rightarrow> char" where
  "hexDigit n = (if n < 10 then digitChar n else char_of (87 + n))"

definition escapeChar :: "char \<Rightarrow> string" where
  "escapeChar c =
     (if c = quoteChar then [escChar, quoteChar]
      else if c = escChar then [escChar, escChar]
      else if c = CHR 0x08 then [escChar, CHR ''b'']
      else if c = CHR 0x09 then [escChar, CHR ''t'']
      else if c = CHR 0x0A then [escChar, CHR ''n'']
      else if c = CHR 0x0C then [escChar, CHR ''f'']
      else if c = CHR 0x0D then [escChar, CHR ''r'']
      else if (of_char c :: nat) < 32 then
        [escChar, CHR ''u'', CHR ''0'', CHR ''0'', hexDigit (of_char c div 16), hexDigit (of_char c mod 16)]
      else [c])"

definition jsonString :: "string \<Rightarrow> string" where
  "jsonString s = quoteChar # concat (map escapeChar s) @ [quoteChar]"

fun commaSep :: "string list \<Rightarrow> string" where
  "commaSep [] = []"
| "commaSep [x] = x"
| "commaSep (x # y # rest) = x @ '','' @ commaSep (y # rest)"

fun jsonText :: "json \<Rightarrow> string" where
  "jsonText JNull = ''null''"
| "jsonText (JBool b) = (if b then ''true'' else ''false'')"
| "jsonText (JNum i) = intToString i"
| "jsonText (JStr s) = jsonString s"
| "jsonText (JArr xs) = ''['' @ commaSep (map jsonText xs) @ '']''"
| "jsonText (JObj kvs) = ''{'' @ commaSep (map (\<lambda>(k, v). jsonString k @ '':'' @ jsonText v) kvs) @ ''}''"

section \<open>Reading\<close>

definition hexValue :: "char \<Rightarrow> nat option" where
  "hexValue c =
     (let n = (of_char c :: nat)
      in if 48 \<le> n \<and> n \<le> 57 then Some (n - 48)
         else if 97 \<le> n \<and> n \<le> 102 then Some (n - 87)
         else if 65 \<le> n \<and> n \<le> 70 then Some (n - 55)
         else None)"

definition unescape :: "char \<Rightarrow> char option" where
  "unescape c =
     (if c = quoteChar \<or> c = escChar \<or> c = CHR ''/'' then Some c
      else if c = CHR ''b'' then Some (CHR 0x08)
      else if c = CHR ''t'' then Some (CHR 0x09)
      else if c = CHR ''n'' then Some (CHR 0x0A)
      else if c = CHR ''f'' then Some (CHR 0x0C)
      else if c = CHR ''r'' then Some (CHR 0x0D)
      else None)"

text \<open>The code unit of \<open>\uhhhh\<close>, in the one-byte range.\<close>

definition hexUnit :: "char \<Rightarrow> char \<Rightarrow> char \<Rightarrow> char \<Rightarrow> char option" where
  "hexUnit a b x y =
     (case (hexValue a, hexValue b, hexValue x, hexValue y) of
        (Some 0, Some 0, Some h, Some l) \<Rightarrow> Some (char_of (16 * h + l))
      | _ \<Rightarrow> None)"

definition consTo :: "char option \<Rightarrow> (string \<times> string) option \<Rightarrow> (string \<times> string) option" where
  "consTo c result = (case (c, result) of (Some d, Some (s, rest)) \<Rightarrow> Some (d # s, rest) | _ \<Rightarrow> None)"

fun readChars :: "string \<Rightarrow> (string \<times> string) option" where
  "readChars [] = None"
| "readChars (c # cs) =
     (if c = quoteChar then Some ([], cs)
      else if c = escChar then
        (case cs of
           [] \<Rightarrow> None
         | e # ds \<Rightarrow>
             if e = CHR ''u'' then
               (case ds of
                  a # b # x # y # rest \<Rightarrow> consTo (hexUnit a b x y) (readChars rest)
                | _ \<Rightarrow> None)
             else consTo (unescape e) (readChars ds))
      else if (of_char c :: nat) < 32 then None
      else consTo (Some c) (readChars cs))"

definition readDigits :: "string \<Rightarrow> (nat \<times> string) option" where
  "readDigits s =
     (let ds = takeWhile isDigit s
      in if ds = [] then None else map_option (\<lambda>n. (n, dropWhile isDigit s)) (parseDigits 0 ds))"

definition readInt :: "string \<Rightarrow> (int \<times> string) option" where
  "readInt s =
     (case s of
        [] \<Rightarrow> None
      | c # cs \<Rightarrow>
          if c = CHR ''-'' then map_option (\<lambda>(n, rest). (- int n, rest)) (readDigits cs)
          else map_option (\<lambda>(n, rest). (int n, rest)) (readDigits s))"

definition readScalar :: "string \<Rightarrow> (json \<times> string) option" where
  "readScalar s =
     (if startsWith ''null'' s then Some (JNull, drop 4 s)
      else if startsWith ''true'' s then Some (JBool True, drop 4 s)
      else if startsWith ''false'' s then Some (JBool False, drop 5 s)
      else map_option (\<lambda>(i, rest). (JNum i, rest)) (readInt s))"

fun parseValue :: "nat \<Rightarrow> string \<Rightarrow> (json \<times> string) option"
  and parseItems :: "nat \<Rightarrow> string \<Rightarrow> (json list \<times> string) option"
  and parseMembers :: "nat \<Rightarrow> string \<Rightarrow> ((string \<times> json) list \<times> string) option" where
  "parseValue 0 s = None"
| "parseValue (Suc n) [] = None"
| "parseValue (Suc n) (c # cs) =
     (if c = quoteChar then map_option (\<lambda>(s, rest). (JStr s, rest)) (readChars cs)
      else if c = CHR ''['' then
        (if startsWith '']'' cs then Some (JArr [], tl cs)
         else map_option (\<lambda>(xs, rest). (JArr xs, rest)) (parseItems n cs))
      else if c = CHR ''{'' then
        (if startsWith ''}'' cs then Some (JObj [], tl cs)
         else map_option (\<lambda>(kvs, rest). (JObj kvs, rest)) (parseMembers n cs))
      else readScalar (c # cs))"
| "parseItems 0 s = None"
| "parseItems (Suc n) s =
     (case parseValue n s of
        Some (v, c # rest) \<Rightarrow>
          if c = CHR '','' then map_option (\<lambda>(vs, t). (v # vs, t)) (parseItems n rest)
          else if c = CHR '']'' then Some ([v], rest)
          else None
      | _ \<Rightarrow> None)"
| "parseMembers 0 s = None"
| "parseMembers (Suc n) s =
     (if \<not> startsWith [quoteChar] s then None
      else case readChars (tl s) of
        Some (k, d # r) \<Rightarrow>
          if d \<noteq> CHR '':'' then None
          else (case parseValue n r of
                  Some (v, c # rest) \<Rightarrow>
                    if c = CHR '','' then map_option (\<lambda>(kvs, t). ((k, v) # kvs, t)) (parseMembers n rest)
                    else if c = CHR ''}'' then Some ([(k, v)], rest)
                    else None
                | _ \<Rightarrow> None)
      | _ \<Rightarrow> None)"

definition parseJson :: "string \<Rightarrow> json option" where
  "parseJson s = (case parseValue (Suc (2 * length s)) s of Some (v, []) \<Rightarrow> Some v | _ \<Rightarrow> None)"

section \<open>Reading what was printed\<close>

lemma consTo_simps [simp]:
  "consTo None m = None" "consTo c None = None" "consTo (Some d) (Some (s, r)) = Some (d # s, r)"
  by (simp_all add: consTo_def split: option.split)

lemma hexValue_hexDigit: "n < 16 \<Longrightarrow> hexValue (hexDigit n) = Some n"
  by (simp add: hexValue_def hexDigit_def of_char_digitChar of_char_of Let_def)

lemma hexValue_zero [simp]: "hexValue (CHR ''0'') = Some 0"
  by (simp add: hexValue_def)

lemma readChars_escape: "readChars (escapeChar c @ t) = consTo (Some c) (readChars t)"
proof (cases "(of_char c :: nat) < 32")
  case True
  define h l where "h = of_char c div (16 :: nat)" and "l = of_char c mod (16 :: nat)"
  with True have hl: "h < 16" "l < 16" "16 * h + l = of_char c" by auto
  then have "hexUnit (CHR ''0'') (CHR ''0'') (hexDigit h) (hexDigit l) = Some c"
    by (simp add: hexUnit_def hexValue_hexDigit)
  then show ?thesis
    using True by (auto simp: escapeChar_def unescape_def h_def [symmetric] l_def [symmetric])
next
  case False
  then show ?thesis by (auto simp: escapeChar_def unescape_def)
qed

lemma readChars_escapes: "readChars (concat (map escapeChar s) @ quoteChar # t) = Some (s, t)"
  by (induction s) (simp_all add: readChars_escape)

lemma readDigits_nat:
  assumes "\<And>c cs. t = c # cs \<Longrightarrow> \<not> isDigit c"
  shows "readDigits (natToString n @ t) = Some (n, t)"
proof -
  have d: "\<forall>c\<in>set (natToString n). isDigit c" using natToString_digits by blast
  have "takeWhile isDigit t = []" "dropWhile isDigit t = t" using assms by (cases t; simp)+
  with d have "takeWhile isDigit (natToString n @ t) = natToString n"
    and "dropWhile isDigit (natToString n @ t) = t" by auto
  then show ?thesis by (simp add: readDigits_def parseDigits_natToString)
qed

definition ends :: "string \<Rightarrow> bool" where
  "ends t \<longleftrightarrow> (case t of [] \<Rightarrow> True | c # _ \<Rightarrow> \<not> isDigit c)"

lemma readInt_int: "ends t \<Longrightarrow> readInt (intToString i @ t) = Some (i, t)"
proof -
  assume t: "ends t"
  then have d: "readDigits (natToString n @ t) = Some (n, t)" for n
    by (intro readDigits_nat) (auto simp: ends_def)
  obtain c cs where c: "natToString (nat i) = c # cs" "isDigit c" using natToString_Cons by blast
  then have "c \<noteq> CHR ''-''" using digit_not_sign by blast
  with c d [of "nat i"] d [of "nat (- i)"] show ?thesis
    by (simp add: readInt_def intToString_def del: natToString.simps)
qed

lemma intToString_first: "\<exists>c cs. intToString i = c # cs \<and> (isDigit c \<or> c = CHR ''-'')"
  using natToString_Cons [of "nat i"] by (auto simp: intToString_def)

lemma jsonText_first: "\<exists>c cs. jsonText v = c # cs \<and> c \<noteq> CHR '']'' \<and> c \<noteq> CHR ''}''"
proof (cases v)
  case (JNum i)
  with intToString_first [of i] show ?thesis by (auto simp: isDigit_def)
qed (auto simp: jsonString_def)

lemma readScalar_int:
  assumes "ends t"
  shows "readScalar (intToString i @ t) = Some (JNum i, t)"
proof -
  obtain c cs where c: "intToString i = c # cs" "isDigit c \<or> c = CHR ''-''"
    using intToString_first by blast
  then have "c \<noteq> CHR ''n'' \<and> c \<noteq> CHR ''t'' \<and> c \<noteq> CHR ''f''" by (auto simp: isDigit_def)
  with c(1) readInt_int [OF assms, of i] show ?thesis
    by (simp add: readScalar_def startsWith_def)
qed

lemma parseValue_int: "ends t \<Longrightarrow> parseValue (Suc n) (intToString i @ t) = Some (JNum i, t)"
proof -
  assume t: "ends t"
  obtain c cs where c: "intToString i = c # cs" "isDigit c \<or> c = CHR ''-''"
    using intToString_first by blast
  then have "c \<noteq> quoteChar \<and> c \<noteq> CHR ''['' \<and> c \<noteq> CHR ''{''" by (auto simp: isDigit_def)
  with c(1) readScalar_int [OF t, of i] show ?thesis by simp
qed

text \<open>Items and members by induction on the list, given the reader of each value.\<close>

abbreviation readsBack :: "json \<Rightarrow> bool" where
  "readsBack v \<equiv> \<forall>n t. 2 * length (jsonText v) \<le> n \<longrightarrow> ends t \<longrightarrow> parseValue n (jsonText v @ t) = Some (v, t)"

lemma parseItems_text:
  assumes "\<And>v. v \<in> set vs \<Longrightarrow> readsBack v" and "vs \<noteq> []"
    and "Suc (2 * length (commaSep (map jsonText vs))) \<le> n"
  shows "parseItems n (commaSep (map jsonText vs) @ CHR '']'' # t) = Some (vs, t)"
  using assms(2,1,3)
proof (induction vs arbitrary: n rule: list_nonempty_induct)
  case (single v)
  then obtain m where n: "n = Suc m" "2 * length (jsonText v) \<le> m" by (cases n) auto
  have "parseValue m (jsonText v @ CHR '']'' # t) = Some (v, CHR '']'' # t)"
    using single.prems(1) n(2) by (simp add: ends_def isDigit_def)
  then show ?case using n(1) by simp
next
  case (cons v vs)
  from cons.hyps obtain w ws where vs: "vs = w # ws" by (cases vs) auto
  from cons.prems(2) vs obtain m where n: "n = Suc m" by (cases n) auto
  have m: "2 * length (jsonText v) \<le> m" "Suc (2 * length (commaSep (map jsonText vs))) \<le> m"
    using cons.prems(2) n vs by auto
  let ?t = "commaSep (map jsonText vs) @ CHR '']'' # t"
  have "parseValue m (jsonText v @ CHR '','' # ?t) = Some (v, CHR '','' # ?t)"
    using cons.prems(1) m(1) by (simp add: ends_def isDigit_def)
  moreover have "parseItems m ?t = Some (vs, t)"
    using cons.IH cons.prems(1) m(2) by simp
  ultimately show ?case using n vs by simp
qed

lemma parseMembers_text:
  assumes "\<And>k v. (k, v) \<in> set kvs \<Longrightarrow> readsBack v" and "kvs \<noteq> []"
    and "Suc (2 * length (commaSep (map (\<lambda>(k, v). jsonString k @ '':'' @ jsonText v) kvs))) \<le> n"
  shows "parseMembers n (commaSep (map (\<lambda>(k, v). jsonString k @ '':'' @ jsonText v) kvs) @ CHR ''}'' # t)
    = Some (kvs, t)"
  using assms(2,1,3)
proof (induction kvs arbitrary: n rule: list_nonempty_induct)
  case (single kv)
  obtain k v where kv: "kv = (k, v)" by (cases kv)
  with single.prems(2) obtain m where n: "n = Suc m" "2 * length (jsonText v) \<le> m" by (cases n) auto
  have "parseValue m (jsonText v @ CHR ''}'' # t) = Some (v, CHR ''}'' # t)"
    using single.prems(1) kv n(2) by (simp add: ends_def isDigit_def)
  then show ?case using n(1) kv by (simp add: jsonString_def readChars_escapes startsWith_def)
next
  case (cons kv kvs)
  obtain k v where kv: "kv = (k, v)" by (cases kv)
  from cons.hyps obtain w ws where vs: "kvs = w # ws" by (cases kvs) auto
  from cons.prems(2) vs obtain m where n: "n = Suc m" by (cases n) auto
  let ?text = "commaSep (map (\<lambda>(k, v). jsonString k @ '':'' @ jsonText v) kvs)"
  have m: "2 * length (jsonText v) \<le> m" "Suc (2 * length ?text) \<le> m"
    using cons.prems(2) n vs kv by auto
  let ?t = "?text @ CHR ''}'' # t"
  have "readsBack v" using cons.prems(1) kv by (meson list.set_intros(1))
  then have "parseValue m (jsonText v @ CHR '','' # ?t) = Some (v, CHR '','' # ?t)"
    using m(1) by (simp add: ends_def isDigit_def)
  moreover have "parseMembers m ?t = Some (kvs, t)"
    using cons.IH cons.prems(1) m(2) by (meson list.set_intros(2))
  ultimately show ?case
    using n vs kv by (simp add: jsonString_def readChars_escapes startsWith_def)
qed

lemma commaSep_first:
  assumes "xs \<noteq> []" and "\<And>x. x \<in> set xs \<Longrightarrow> \<exists>c cs. x = c # cs \<and> c \<noteq> d"
  shows "\<not> startsWith [d] (commaSep xs @ t)"
proof -
  from assms(1) obtain x ys where xs: "xs = x # ys" by (cases xs) auto
  with assms(2) [of x] obtain c cs where "x = c # cs" "c \<noteq> d" by auto
  with xs show ?thesis by (cases ys) (auto simp: startsWith_def)
qed

lemma parseValue_text: "readsBack v"
proof (induction v)
  case (JNum i)
  obtain c cs where "intToString i = c # cs" using intToString_first by blast
  then have "0 < length (jsonText (JNum i))" by simp
  then show ?case by (metis Suc_le_D Suc_le_eq jsonText.simps(3) le_trans mult_pos_pos parseValue_int zero_less_numeral)
next
  case (JArr vs)
  show ?case
  proof (intro allI impI)
    fix n t assume n: "2 * length (jsonText (JArr vs)) \<le> n" and "ends t"
    then obtain m where m: "n = Suc m" by (cases n) auto
    show "parseValue n (jsonText (JArr vs) @ t) = Some (JArr vs, t)"
    proof (cases "vs = []")
      case False
      have "\<not> startsWith '']'' (commaSep (map jsonText vs) @ CHR '']'' # t)"
        using False by (intro commaSep_first) (use jsonText_first in fastforce)+
      moreover have "parseItems m (commaSep (map jsonText vs) @ CHR '']'' # t) = Some (vs, t)"
        using JArr False n m by (intro parseItems_text) auto
      ultimately show ?thesis using m by simp
    qed (simp add: m startsWith_def)
  qed
next
  case (JObj kvs)
  show ?case
  proof (intro allI impI)
    fix n t assume n: "2 * length (jsonText (JObj kvs)) \<le> n" and "ends t"
    then obtain m where m: "n = Suc m" by (cases n) auto
    let ?ms = "map (\<lambda>(k, v). jsonString k @ '':'' @ jsonText v) kvs"
    show "parseValue n (jsonText (JObj kvs) @ t) = Some (JObj kvs, t)"
    proof (cases "kvs = []")
      case False
      have "\<not> startsWith ''}'' (commaSep ?ms @ CHR ''}'' # t)"
        using False by (intro commaSep_first) (auto simp: jsonString_def)
      moreover have "parseMembers m (commaSep ?ms @ CHR ''}'' # t) = Some (kvs, t)"
        using JObj False n m by (intro parseMembers_text) auto
      ultimately show ?thesis using m by simp
    qed (simp add: m startsWith_def)
  qed
next
  case (JStr s)
  then show ?case
    by (auto simp: jsonString_def readChars_escapes gr0_conv_Suc dest!: Suc_le_D)
qed (auto simp: readScalar_def startsWith_def gr0_conv_Suc numeral_eq_Suc dest!: Suc_le_D)

theorem parse_jsonText [simp]: "parseJson (jsonText v) = Some v"
proof -
  have "parseValue (Suc (2 * length (jsonText v))) (jsonText v @ []) = Some (v, [])"
    using parseValue_text [of v, THEN spec, of "Suc (2 * length (jsonText v))", THEN spec, of "[]"]
    by (simp add: ends_def del: parseValue.simps)
  then show ?thesis by (simp add: parseJson_def)
qed

lemma jsonText_nonempty [simp]: "jsonText v \<noteq> []"
  using jsonText_first [of v] by auto

lemma jsonText_inj: "jsonText v = jsonText w \<Longrightarrow> v = w"
  using parse_jsonText [of v] by simp

end
