(* ===== verification/RedisApi.thy ===== *)
theory RedisApi
  imports JsonText "HOL-Library.Product_Lexorder"
begin

text \<open>
  The Redis server as the driver uses it. The server is not part of the repository: its commands are
  the fields of the record \<open>'r redis\<close>, an argument of every definition of the driver, over an
  unspecified type \<open>'r\<close> of server states. What the driver relies on is the documented effect of each
  command on the data model \<open>rdata\<close> (hashes, sorted sets, lists, sets and strings under text keys);
  the locale \<open>redis_server\<close> states it through an abstraction function \<open>view\<close>. \<open>dataRedis\<close>, the data
  model itself with its commands, satisfies the locale.

  Each kind of value has its own key space here. A real server has one, and answers \<open>WRONGTYPE\<close> when
  a command meets a value of another kind; the driver's keys differ in the word after the prefix, so
  none of its keys is ever used with two kinds.
\<close>

section \<open>Scores\<close>

datatype score = Fin int | PosInf

instantiation score :: linorder
begin

definition less_eq_score :: "score \<Rightarrow> score \<Rightarrow> bool" where
  "less_eq_score a b = (case (a, b) of (Fin x, Fin y) \<Rightarrow> x \<le> y | (_, PosInf) \<Rightarrow> True | (PosInf, Fin _) \<Rightarrow> False)"

definition less_score :: "score \<Rightarrow> score \<Rightarrow> bool" where
  "less_score a b \<longleftrightarrow> a \<le> b \<and> \<not> b \<le> (a :: score)"

instance
  by standard (auto simp: less_eq_score_def less_score_def split: score.splits)

end

lemma score_le [simp]: "Fin x \<le> Fin y \<longleftrightarrow> x \<le> y" "a \<le> PosInf" "\<not> PosInf \<le> Fin x"
  by (auto simp: less_eq_score_def split: score.split)

lemma score_less [simp]: "Fin x < Fin y \<longleftrightarrow> x < y" "Fin x < PosInf" "\<not> PosInf < a"
  by (auto simp: less_score_def)

definition scoreInt :: "score \<Rightarrow> int" where
  "scoreInt s = (case s of Fin i \<Rightarrow> i | PosInf \<Rightarrow> 0)"

lemma scoreInt_Fin [simp]: "scoreInt (Fin i) = i"
  by (simp add: scoreInt_def)

datatype scoreBound = NegInf | Incl score | Excl score

fun aboveMin :: "scoreBound \<Rightarrow> score \<Rightarrow> bool" where
  "aboveMin NegInf s = True"
| "aboveMin (Incl x) s = (x \<le> s)"
| "aboveMin (Excl x) s = (x < s)"

fun belowMax :: "scoreBound \<Rightarrow> score \<Rightarrow> bool" where
  "belowMax NegInf s = False"
| "belowMax (Incl x) s = (s \<le> x)"
| "belowMax (Excl x) s = (s < x)"

section \<open>The data model\<close>

type_synonym zset = "(string, score) jsmap"

record rdata =
  rd_hashes :: "string \<Rightarrow> (string, string) jsmap"
  rd_zsets :: "string \<Rightarrow> zset"
  rd_lists :: "string \<Rightarrow> string list"
  rd_sets :: "string \<Rightarrow> string list"
  rd_strings :: "string \<Rightarrow> string option"

definition emptyData :: rdata where
  "emptyData = \<lparr> rd_hashes = (\<lambda>_. []), rd_zsets = (\<lambda>_. []), rd_lists = (\<lambda>_. []), rd_sets = (\<lambda>_. []),
     rd_strings = (\<lambda>_. None) \<rparr>"

text \<open>A sorted set in rank order: by score, then by the bytes of the member.\<close>

definition ranking :: "zset \<Rightarrow> (string \<times> score) list" where
  "ranking z = map (\<lambda>(s, m). (m, s)) (sort (map (\<lambda>(m, s). (s, m)) z))"

definition rankSlice :: "int \<Rightarrow> int \<Rightarrow> 'a list \<Rightarrow> 'a list" where
  "rankSlice start stop xs =
     (let n = int (length xs);
          a = (if start < 0 then max 0 (n + start) else start);
          b = (if stop < 0 then n + stop else stop)
      in take (nat (b + 1 - a)) (drop (nat a) xs))"

definition limited :: "(nat \<times> nat) option \<Rightarrow> 'a list \<Rightarrow> 'a list" where
  "limited win xs = (case win of None \<Rightarrow> xs | Some (skip, n) \<Rightarrow> take n (drop skip xs))"

definition hsetD :: "string \<Rightarrow> (string \<times> string) list \<Rightarrow> rdata \<Rightarrow> rdata" where
  "hsetD k fvs d = d\<lparr>rd_hashes := (rd_hashes d)(k := fold (\<lambda>(f, v). mapSet f v) fvs (rd_hashes d k))\<rparr>"

definition textNumber :: "string option \<Rightarrow> int" where
  "textNumber t = (case t of None \<Rightarrow> 0 | Some s \<Rightarrow> (case jsNumber s of None \<Rightarrow> 0 | Some i \<Rightarrow> i))"

definition hincrbyD :: "string \<Rightarrow> string \<Rightarrow> int \<Rightarrow> rdata \<Rightarrow> rdata" where
  "hincrbyD k f n d = hsetD k [(f, intToString (textNumber (mapGet (rd_hashes d k) f) + n))] d"

definition existsD :: "string \<Rightarrow> rdata \<Rightarrow> bool" where
  "existsD k d \<longleftrightarrow> rd_hashes d k \<noteq> [] \<or> rd_zsets d k \<noteq> [] \<or> rd_lists d k \<noteq> [] \<or> rd_sets d k \<noteq> []
     \<or> rd_strings d k \<noteq> None"

definition delD :: "string \<Rightarrow> rdata \<Rightarrow> rdata" where
  "delD k d = d\<lparr>
     rd_hashes := (rd_hashes d)(k := []), rd_zsets := (rd_zsets d)(k := []),
     rd_lists := (rd_lists d)(k := []), rd_sets := (rd_sets d)(k := []),
     rd_strings := (rd_strings d)(k := None) \<rparr>"

definition zaddD :: "string \<Rightarrow> score \<Rightarrow> string \<Rightarrow> rdata \<Rightarrow> rdata" where
  "zaddD k s m d = d\<lparr>rd_zsets := (rd_zsets d)(k := mapSet m s (rd_zsets d k))\<rparr>"

definition zremD :: "string \<Rightarrow> string \<Rightarrow> rdata \<Rightarrow> rdata" where
  "zremD k m d = d\<lparr>rd_zsets := (rd_zsets d)(k := mapDelete m (rd_zsets d k))\<rparr>"

definition byScoreD :: "string \<Rightarrow> scoreBound \<Rightarrow> scoreBound \<Rightarrow> rdata \<Rightarrow> (string \<times> score) list" where
  "byScoreD k lo hi d = filter (\<lambda>(m, s). aboveMin lo s \<and> belowMax hi s) (ranking (rd_zsets d k))"

definition rpushD :: "string \<Rightarrow> string \<Rightarrow> rdata \<Rightarrow> rdata" where
  "rpushD k v d = d\<lparr>rd_lists := (rd_lists d)(k := rd_lists d k @ [v])\<rparr>"

definition saddD :: "string \<Rightarrow> string \<Rightarrow> rdata \<Rightarrow> rdata" where
  "saddD k v d = (if v \<in> set (rd_sets d k) then d else d\<lparr>rd_sets := (rd_sets d)(k := rd_sets d k @ [v])\<rparr>)"

definition sremD :: "string \<Rightarrow> string \<Rightarrow> rdata \<Rightarrow> rdata" where
  "sremD k v d = d\<lparr>rd_sets := (rd_sets d)(k := filter (\<lambda>x. x \<noteq> v) (rd_sets d k))\<rparr>"

definition setD :: "string \<Rightarrow> string \<Rightarrow> rdata \<Rightarrow> rdata" where
  "setD k v d = d\<lparr>rd_strings := (rd_strings d)(k := Some v)\<rparr>"

section \<open>The commands\<close>

record 'r redis =
  rc_hget :: "string \<Rightarrow> string \<Rightarrow> 'r \<Rightarrow> string option"
  rc_hset :: "string \<Rightarrow> (string \<times> string) list \<Rightarrow> 'r \<Rightarrow> 'r"
  rc_hgetall :: "string \<Rightarrow> 'r \<Rightarrow> (string \<times> string) list"
  rc_hincrby :: "string \<Rightarrow> string \<Rightarrow> int \<Rightarrow> 'r \<Rightarrow> 'r"
  rc_exists :: "string \<Rightarrow> 'r \<Rightarrow> bool"
  rc_del :: "string \<Rightarrow> 'r \<Rightarrow> 'r"
  rc_zadd :: "string \<Rightarrow> score \<Rightarrow> string \<Rightarrow> 'r \<Rightarrow> 'r"
  rc_zrem :: "string \<Rightarrow> string \<Rightarrow> 'r \<Rightarrow> nat \<times> 'r"
  rc_zcard :: "string \<Rightarrow> 'r \<Rightarrow> nat"
  rc_zrange :: "string \<Rightarrow> int \<Rightarrow> int \<Rightarrow> 'r \<Rightarrow> (string \<times> score) list"
  rc_zrangebyscore :: "string \<Rightarrow> scoreBound \<Rightarrow> scoreBound \<Rightarrow> (nat \<times> nat) option \<Rightarrow> 'r \<Rightarrow> (string \<times> score) list"
  rc_zrevrangebyscore :: "string \<Rightarrow> scoreBound \<Rightarrow> scoreBound \<Rightarrow> (nat \<times> nat) option \<Rightarrow> 'r \<Rightarrow> (string \<times> score) list"
  rc_zrangebylex :: "string \<Rightarrow> string option \<Rightarrow> nat \<Rightarrow> 'r \<Rightarrow> string list"
  rc_rpush :: "string \<Rightarrow> string \<Rightarrow> 'r \<Rightarrow> 'r"
  rc_lrange :: "string \<Rightarrow> 'r \<Rightarrow> string list"
  rc_sadd :: "string \<Rightarrow> string \<Rightarrow> 'r \<Rightarrow> 'r"
  rc_srem :: "string \<Rightarrow> string \<Rightarrow> 'r \<Rightarrow> nat \<times> 'r"
  rc_smembers :: "string \<Rightarrow> 'r \<Rightarrow> string list"
  rc_incr :: "string \<Rightarrow> 'r \<Rightarrow> int \<times> 'r"
  rc_get :: "string \<Rightarrow> 'r \<Rightarrow> string option"
  rc_set :: "string \<Rightarrow> string \<Rightarrow> 'r \<Rightarrow> 'r"

text \<open>
  Replies of the forms the driver uses: \<open>rc_zrange\<close> and the two ranges by score are read with
  \<open>WITHSCORES\<close>, \<open>rc_zrangebylex key after n\<close> is \<open>ZRANGEBYLEX key (after + LIMIT 0 n\<close> (\<open>None\<close>: from
  the least member), \<open>rc_lrange key\<close> is \<open>LRANGE key 0 -1\<close>.
\<close>

definition hexists :: "'r redis \<Rightarrow> string \<Rightarrow> string \<Rightarrow> 'r \<Rightarrow> bool" where
  "hexists rd k f r \<longleftrightarrow> rc_hget rd k f r \<noteq> None"

abbreviation members :: "(string \<times> score) list \<Rightarrow> string list" where
  "members \<equiv> map fst"

abbreviation zrem :: "'r redis \<Rightarrow> string \<Rightarrow> string \<Rightarrow> 'r \<Rightarrow> 'r" where
  "zrem rd k m r \<equiv> snd (rc_zrem rd k m r)"

definition dataRedis :: "rdata redis" where
  "dataRedis = \<lparr>
     rc_hget = (\<lambda>k f d. mapGet (rd_hashes d k) f),
     rc_hset = hsetD,
     rc_hgetall = (\<lambda>k d. AList.clearjunk (rd_hashes d k)),
     rc_hincrby = hincrbyD,
     rc_exists = existsD,
     rc_del = delD,
     rc_zadd = zaddD,
     rc_zrem = (\<lambda>k m d. (if mapHas (rd_zsets d k) m then 1 else 0, zremD k m d)),
     rc_zcard = (\<lambda>k d. length (rd_zsets d k)),
     rc_zrange = (\<lambda>k a b d. rankSlice a b (ranking (rd_zsets d k))),
     rc_zrangebyscore = (\<lambda>k lo hi win d. limited win (byScoreD k lo hi d)),
     rc_zrevrangebyscore = (\<lambda>k hi lo win d. limited win (rev (byScoreD k lo hi d))),
     rc_zrangebylex = (\<lambda>k after n d.
        take n (filter (\<lambda>m. case after of None \<Rightarrow> True | Some a \<Rightarrow> a < m) (members (ranking (rd_zsets d k))))),
     rc_rpush = rpushD,
     rc_lrange = (\<lambda>k d. rd_lists d k),
     rc_sadd = saddD,
     rc_srem = (\<lambda>k v d. (if v \<in> set (rd_sets d k) then 1 else 0, sremD k v d)),
     rc_smembers = (\<lambda>k d. rd_sets d k),
     rc_incr = (\<lambda>k d. let n = textNumber (rd_strings d k) + 1 in (n, setD k (intToString n) d)),
     rc_get = (\<lambda>k d. rd_strings d k),
     rc_set = setD \<rparr>"

section \<open>What the driver relies on\<close>

text \<open>
  The documented effect of each command on the data model. \<open>HGETALL\<close> and \<open>SMEMBERS\<close> promise no
  order, only what is listed.
\<close>

locale redis_server =
  fixes rd :: "'r redis" and view :: "'r \<Rightarrow> rdata"
  assumes hget: "rc_hget rd k f r = mapGet (rd_hashes (view r) k) f"
    and hset: "view (rc_hset rd k fvs r) = hsetD k fvs (view r)"
    and hgetall: "mapGet (rc_hgetall rd k r) f = mapGet (rd_hashes (view r) k) f"
    and hgetall_distinct: "distinct (map fst (rc_hgetall rd k r))"
    and hincrby: "view (rc_hincrby rd k f amount r) = hincrbyD k f amount (view r)"
    and exists: "rc_exists rd k r = existsD k (view r)"
    and del: "view (rc_del rd k r) = delD k (view r)"
    and zadd: "view (rc_zadd rd k s m r) = zaddD k s m (view r)"
    and zrem_count: "fst (rc_zrem rd k m r) = (if mapHas (rd_zsets (view r) k) m then 1 else 0)"
    and zrem: "view (snd (rc_zrem rd k m r)) = zremD k m (view r)"
    and zcard: "rc_zcard rd k r = length (rd_zsets (view r) k)"
    and zrange: "rc_zrange rd k a b r = rankSlice a b (ranking (rd_zsets (view r) k))"
    and zrangebyscore: "rc_zrangebyscore rd k lo hi win r = limited win (byScoreD k lo hi (view r))"
    and zrevrangebyscore:
      "rc_zrevrangebyscore rd k hi lo win r = limited win (rev (byScoreD k lo hi (view r)))"
    and zrangebylex: "rc_zrangebylex rd k after n r =
        take n (filter (\<lambda>m. case after of None \<Rightarrow> True | Some a \<Rightarrow> a < m)
          (members (ranking (rd_zsets (view r) k))))"
    and rpush: "view (rc_rpush rd k v r) = rpushD k v (view r)"
    and lrange: "rc_lrange rd k r = rd_lists (view r) k"
    and sadd: "view (rc_sadd rd k v r) = saddD k v (view r)"
    and srem_count: "fst (rc_srem rd k v r) = (if v \<in> set (rd_sets (view r) k) then 1 else 0)"
    and srem: "view (snd (rc_srem rd k v r)) = sremD k v (view r)"
    and smembers: "set (rc_smembers rd k r) = set (rd_sets (view r) k)"
    and incr_value: "fst (rc_incr rd k r) = textNumber (rd_strings (view r) k) + 1"
    and incr: "view (snd (rc_incr rd k r)) = setD k (intToString (textNumber (rd_strings (view r) k) + 1)) (view r)"
    and get: "rc_get rd k r = rd_strings (view r) k"
    and set_string: "view (rc_set rd k v r) = setD k v (view r)"
begin

lemmas reads = hget exists zcard zrange zrangebyscore zrevrangebyscore zrangebylex lrange get
  zrem_count srem_count incr_value

lemmas writes = hset hincrby del zadd zrem rpush sadd srem incr set_string

lemmas commands = reads writes

end

interpretation data: redis_server dataRedis id
  by unfold_locales
    (simp_all add: dataRedis_def hincrbyD_def map_of_clearjunk distinct_clearjunk Let_def)

section \<open>Reads after writes\<close>

named_theorems redis_simps "reads of the data model after writes"

lemma hset_reads [redis_simps]:
  "rd_hashes (hsetD k fvs d) k' = (if k' = k then fold (\<lambda>(f, v). mapSet f v) fvs (rd_hashes d k) else rd_hashes d k')"
  "rd_zsets (hsetD k fvs d) = rd_zsets d" "rd_lists (hsetD k fvs d) = rd_lists d"
  "rd_sets (hsetD k fvs d) = rd_sets d" "rd_strings (hsetD k fvs d) = rd_strings d"
  by (simp_all add: hsetD_def)

lemma hincrby_reads [redis_simps]:
  "rd_hashes (hincrbyD k f n d) k' =
     (if k' = k then mapSet f (intToString (textNumber (mapGet (rd_hashes d k) f) + n)) (rd_hashes d k)
      else rd_hashes d k')"
  "rd_zsets (hincrbyD k f n d) = rd_zsets d" "rd_lists (hincrbyD k f n d) = rd_lists d"
  "rd_sets (hincrbyD k f n d) = rd_sets d" "rd_strings (hincrbyD k f n d) = rd_strings d"
  by (simp_all add: hincrbyD_def hset_reads)

lemma del_reads [redis_simps]:
  "rd_hashes (delD k d) k' = (if k' = k then [] else rd_hashes d k')"
  "rd_zsets (delD k d) k' = (if k' = k then [] else rd_zsets d k')"
  "rd_lists (delD k d) k' = (if k' = k then [] else rd_lists d k')"
  "rd_sets (delD k d) k' = (if k' = k then [] else rd_sets d k')"
  "rd_strings (delD k d) k' = (if k' = k then None else rd_strings d k')"
  by (simp_all add: delD_def)

lemma zset_reads [redis_simps]:
  "rd_zsets (zaddD k s m d) k' = (if k' = k then mapSet m s (rd_zsets d k) else rd_zsets d k')"
  "rd_zsets (zremD k m d) k' = (if k' = k then mapDelete m (rd_zsets d k) else rd_zsets d k')"
  "rd_hashes (zaddD k s m d) = rd_hashes d" "rd_hashes (zremD k m d) = rd_hashes d"
  "rd_lists (zaddD k s m d) = rd_lists d" "rd_lists (zremD k m d) = rd_lists d"
  "rd_sets (zaddD k s m d) = rd_sets d" "rd_sets (zremD k m d) = rd_sets d"
  "rd_strings (zaddD k s m d) = rd_strings d" "rd_strings (zremD k m d) = rd_strings d"
  by (simp_all add: zaddD_def zremD_def)

lemma list_reads [redis_simps]:
  "rd_lists (rpushD k v d) k' = (if k' = k then rd_lists d k @ [v] else rd_lists d k')"
  "rd_hashes (rpushD k v d) = rd_hashes d" "rd_zsets (rpushD k v d) = rd_zsets d"
  "rd_sets (rpushD k v d) = rd_sets d" "rd_strings (rpushD k v d) = rd_strings d"
  by (simp_all add: rpushD_def)

lemma set_reads [redis_simps]:
  "set (rd_sets (saddD k v d) k') = (if k' = k then insert v (set (rd_sets d k)) else set (rd_sets d k'))"
  "set (rd_sets (sremD k v d) k') = (if k' = k then set (rd_sets d k) - {v} else set (rd_sets d k'))"
  "rd_hashes (saddD k v d) = rd_hashes d" "rd_hashes (sremD k v d) = rd_hashes d"
  "rd_zsets (saddD k v d) = rd_zsets d" "rd_zsets (sremD k v d) = rd_zsets d"
  "rd_lists (saddD k v d) = rd_lists d" "rd_lists (sremD k v d) = rd_lists d"
  "rd_strings (saddD k v d) = rd_strings d" "rd_strings (sremD k v d) = rd_strings d"
  by (auto simp: saddD_def sremD_def)

lemma string_reads [redis_simps]:
  "rd_strings (setD k v d) k' = (if k' = k then Some v else rd_strings d k')"
  "rd_hashes (setD k v d) = rd_hashes d" "rd_zsets (setD k v d) = rd_zsets d"
  "rd_lists (setD k v d) = rd_lists d" "rd_sets (setD k v d) = rd_sets d"
  by (simp_all add: setD_def)

lemma textNumber_simps [simp]: "textNumber None = 0" "textNumber (Some (intToString i)) = i"
  by (simp_all add: textNumber_def)

section \<open>Rank order\<close>

definition dataOk :: "rdata \<Rightarrow> bool" where
  "dataOk d \<longleftrightarrow> (\<forall>k. distinct (mapKeys (rd_hashes d k))) \<and> (\<forall>k. distinct (mapKeys (rd_zsets d k)))"

lemma mset_ranking [simp]: "mset (ranking z) = mset z"
proof -
  have "mset (ranking z) = image_mset (\<lambda>(s, m). (m, s)) (image_mset (\<lambda>(m, s). (s, m)) (mset z))"
    by (simp add: ranking_def del: image_mset.compositionality)
  then show ?thesis by (simp add: image_mset.compositionality comp_def case_prod_unfold)
qed

lemma set_ranking [simp]: "set (ranking z) = set z"
  by (metis mset_ranking set_mset_mset)

lemma length_ranking [simp]: "length (ranking z) = length z"
  by (metis mset_ranking size_mset)

lemma ranking_Nil [simp]: "ranking z = [] \<longleftrightarrow> z = []"
  by (metis length_0_conv length_ranking)

lemma distinct_ranking: "distinct (mapKeys z) \<Longrightarrow> distinct (members (ranking z))"
  by (metis mset_eq_imp_distinct_iff mset_map mset_ranking)

lemma sorted_ranking: "sorted (map (\<lambda>(m, s). (s, m)) (ranking z))"
  by (simp add: ranking_def comp_def case_prod_unfold)

lemma rankSlice_all [simp]: "rankSlice 0 (- 1) xs = xs"
  by (simp add: rankSlice_def Let_def)

lemma rankSlice_page: "0 \<le> a \<Longrightarrow> 0 < n \<Longrightarrow> rankSlice a (a + int n - 1) xs = take n (drop (nat a) xs)"
  by (simp add: rankSlice_def Let_def)

lemma limited_None [simp]: "limited None xs = xs"
  by (simp add: limited_def)

end
