(* ===== verification/RedisLua.thy ===== *)
theory RedisLua
  imports RedisApi MemState
begin

text \<open>
  The helpers that \<open>redis/scripts.ts\<close> prepends to every script: the texts of the keys and members,
  and the shared steps that insert, index, finish, retain and delete jobs. Every definition takes the
  server's commands \<open>rd\<close> and the key prefix \<open>p\<close>; a step returns the server's new state. Lua's \<open>nil\<close>
  and the \<open>false\<close> of an absent field are \<open>None\<close>, \<open>fmt\<close> is \<open>intToString\<close>, and a number that the
  code also needs as text (\<open>nowStr\<close>) is printed where it is used.
\<close>

section \<open>Numbers and texts of Lua\<close>

definition luaNumber :: "string \<Rightarrow> int option" where
  "luaNumber s = (if s = [] then None else jsNumber s)"

definition luaNumberOr0 :: "string option \<Rightarrow> int" where
  "luaNumberOr0 t = (case Option.bind t luaNumber of None \<Rightarrow> 0 | Some i \<Rightarrow> i)"

definition isBlank :: "string option \<Rightarrow> bool" where
  "isBlank t \<longleftrightarrow> t = None \<or> t = Some []"

text \<open>\<open>string.format("%016.0f", seq)\<close>, for the counters the code formats, which are not negative.\<close>

definition pad16 :: "int \<Rightarrow> string" where
  "pad16 n = replicate (16 - length (intToString n)) CHR ''0'' @ intToString n"

text \<open>An object whose values are already texts, as the scripts splice it together.\<close>

definition rawObject :: "(string \<times> string) list \<Rightarrow> string" where
  "rawObject kvs = ''{'' @ commaSep (map (\<lambda>(k, v). jsonString k @ '':'' @ v) kvs) @ ''}''"

definition flag :: "bool \<Rightarrow> string" where
  "flag b = (if b then ''1'' else ''0'')"

text \<open>Fields of a decoded table, and whether a decoded value is one.\<close>

definition jget :: "string \<Rightarrow> json \<Rightarrow> json option" where
  "jget k j = (case j of JObj kvs \<Rightarrow> map_of kvs k | _ \<Rightarrow> None)"

definition isTable :: "json \<Rightarrow> bool" where
  "isTable j \<longleftrightarrow> (case j of JObj _ \<Rightarrow> True | JArr _ \<Rightarrow> True | _ \<Rightarrow> False)"

definition jnum :: "json \<Rightarrow> int option" where
  "jnum j = (case j of JNum i \<Rightarrow> Some i | JStr s \<Rightarrow> luaNumber s | _ \<Rightarrow> None)"

section \<open>Keys\<close>

definition jobKey :: "string \<Rightarrow> job_id \<Rightarrow> string" where
  "jobKey p i = p @ '':job:'' @ i"

definition attemptsKey :: "string \<Rightarrow> job_id \<Rightarrow> string" where
  "attemptsKey p i = p @ '':attempts:'' @ i"

definition waitingKey :: "string \<Rightarrow> queue_name \<Rightarrow> string" where
  "waitingKey p queue = p @ '':waiting:'' @ queue"

definition delayedKey :: "string \<Rightarrow> queue_name \<Rightarrow> string" where
  "delayedKey p queue = p @ '':delayed:'' @ queue"

definition terminalKey :: "string \<Rightarrow> string \<Rightarrow> string \<Rightarrow> string" where
  "terminalKey p name st = p @ '':terminal:'' @ name @ '':'' @ st"

definition finishedKey :: "string \<Rightarrow> string \<Rightarrow> string" where
  "finishedKey p st = p @ '':finished:'' @ st"

definition bynameKey :: "string \<Rightarrow> string \<Rightarrow> string" where
  "bynameKey p name = p @ '':byname:'' @ name"

definition byqueueKey :: "string \<Rightarrow> queue_name \<Rightarrow> string" where
  "byqueueKey p queue = p @ '':byqueue:'' @ queue"

definition plainKey :: "string \<Rightarrow> string \<Rightarrow> string" where
  "plainKey p word = p @ '':'' @ word"

definition flowChildKey :: "string \<Rightarrow> job_id \<Rightarrow> string \<Rightarrow> string" where
  "flowChildKey p flowId childKey = p @ '':flowchild:'' @ flowId @ CHR 0x00 # childKey"

definition flowIndexKey :: "string \<Rightarrow> job_id \<Rightarrow> string" where
  "flowIndexKey p flowId = p @ '':flowchildren:'' @ flowId"

definition flowMember :: "job_id \<Rightarrow> string \<Rightarrow> string" where
  "flowMember flowId childKey = flowId @ CHR 0x00 # childKey"

definition dedupeStoreKey :: "string \<Rightarrow> string \<Rightarrow> string \<Rightarrow> string" where
  "dedupeStoreKey p name key = p @ '':dedupe:'' @ name @ CHR 0x00 # key"

definition scheduleStoreKey :: "string \<Rightarrow> string \<Rightarrow> string" where
  "scheduleStoreKey p key = p @ '':schedule:'' @ key"

section \<open>Waiting members and counters\<close>

definition waitingMember :: "int \<Rightarrow> job_id \<Rightarrow> string" where
  "waitingMember sq i = pad16 sq @ '':'' @ i"

definition waitingId :: "string \<Rightarrow> job_id" where
  "waitingId member = drop 17 member"

definition addWaiting :: "'r redis \<Rightarrow> string \<Rightarrow> queue_name \<Rightarrow> int \<Rightarrow> int \<Rightarrow> job_id \<Rightarrow> 'r \<Rightarrow> 'r" where
  "addWaiting rd p queue priority sq i r =
     rc_zadd rd (waitingKey p queue) (Fin (- priority)) (waitingMember sq i) r"

definition remWaiting :: "'r redis \<Rightarrow> string \<Rightarrow> queue_name \<Rightarrow> job_id \<Rightarrow> 'r \<Rightarrow> 'r" where
  "remWaiting rd p queue i r =
     (let sq = luaNumberOr0 (rc_hget rd (jobKey p i) ''seq'' r)
      in zrem rd (waitingKey p queue) (waitingMember sq i) r)"

definition countsField :: "queue_name \<Rightarrow> string \<Rightarrow> string" where
  "countsField queue st = queue @ ''|'' @ st"

definition countsAdd :: "'r redis \<Rightarrow> string \<Rightarrow> queue_name \<Rightarrow> string \<Rightarrow> int \<Rightarrow> 'r \<Rightarrow> 'r" where
  "countsAdd rd p queue st n r = rc_hincrby rd (plainKey p ''counts'') (countsField queue st) n r"

section \<open>Ledger and outbox\<close>

definition attemptText :: "nat \<Rightarrow> string \<Rightarrow> string option \<Rightarrow> string \<Rightarrow> string \<Rightarrow> string" where
  "attemptText n outcome startedAt finishedAt exitJson =
     (let started = (if isBlank startedAt then ''null'' else the startedAt)
      in rawObject
           ([(''attempt'', intToString (int n)), (''startedAt'', started), (''finishedAt'', finishedAt),
             (''outcome'', jsonString outcome)]
            @ (if exitJson = [] then [] else [(''exit'', exitJson)])))"

definition appendAttempt ::
  "'r redis \<Rightarrow> string \<Rightarrow> job_id \<Rightarrow> string \<Rightarrow> string option \<Rightarrow> string \<Rightarrow> string \<Rightarrow> 'r \<Rightarrow> 'r" where
  "appendAttempt rd p i outcome startedAt finishedAt exitJson r =
     (let n = length (rc_lrange rd (attemptsKey p i) r) + 1
      in rc_rpush rd (attemptsKey p i) (attemptText n outcome startedAt finishedAt exitJson) r)"

definition outboxText :: "string \<Rightarrow> string \<Rightarrow> string option \<Rightarrow> string option \<Rightarrow> string" where
  "outboxText parentJson outcome exitJson failedReason =
     rawObject
       ([(''parent'', parentJson), (''outcome'', jsonString outcome)]
        @ (if isBlank exitJson then [] else [(''exit'', the exitJson)])
        @ (if isBlank failedReason then [] else [(''failedReason'', jsonText (JStr (the failedReason)))]))"

definition outboxMember :: "int \<Rightarrow> string \<Rightarrow> string" where
  "outboxMember sq body = intToString sq @ CHR 0x00 # body"

definition luaAppendOutbox :: "'r redis \<Rightarrow> string \<Rightarrow> job_id \<Rightarrow> string \<Rightarrow> 'r \<Rightarrow> 'r" where
  "luaAppendOutbox rd p i outcome r =
     (let jk = jobKey p i;
          parentJson = rc_hget rd jk ''parent'' r
      in if isBlank parentJson then r
         else
           (let exitJson = rc_hget rd jk ''exit'' r;
                failedReason = rc_hget rd jk ''failedReason'' r;
                (sq, r1) = rc_incr rd (plainKey p ''flowoutbox:seq'') r
            in rc_zadd rd (plainKey p ''flowoutbox'') (Fin sq)
                 (outboxMember sq (outboxText (the parentJson) outcome exitJson failedReason)) r1))"

section \<open>Dependency rows\<close>

definition flowKeys :: "'r redis \<Rightarrow> string \<Rightarrow> job_id \<Rightarrow> 'r \<Rightarrow> string list" where
  "flowKeys rd p flowId r = members (rc_zrange rd (flowIndexKey p flowId) 0 (- 1) r)"

definition markRow :: "'r redis \<Rightarrow> string \<Rightarrow> job_id \<Rightarrow> string \<Rightarrow> int \<times> 'r \<Rightarrow> int \<times> 'r" where
  "markRow rd p flowId key acc =
     (case acc of (marked, r) \<Rightarrow>
        (let rk = flowChildKey p flowId key
         in if rc_hget rd rk ''status'' r = Some ''pending'' then
              (let r1 = rc_hset rd rk [(''status'', ''cancelled''), (''cascaded'', ''0'')] r;
                   r2 = zrem rd (plainKey p ''flowpending'') (flowMember flowId key) r1;
                   r3 = rc_zadd rd (plainKey p ''flowcascade'') (Fin 0) (flowMember flowId key) r2
               in (marked + 1, r3))
            else (marked, r)))"

definition luaMarkPendingRowsCancelled :: "'r redis \<Rightarrow> string \<Rightarrow> job_id \<Rightarrow> 'r \<Rightarrow> int \<times> 'r" where
  "luaMarkPendingRowsCancelled rd p flowId r =
     fold (markRow rd p flowId) (flowKeys rd p flowId r) (0, r)"

definition luaSettleMarkRows :: "'r redis \<Rightarrow> string \<Rightarrow> job_id \<Rightarrow> 'r \<Rightarrow> 'r" where
  "luaSettleMarkRows rd p flowId r =
     (let (marked, r1) = luaMarkPendingRowsCancelled rd p flowId r;
          jk = jobKey p flowId
      in if hexists rd jk ''flowPending'' r1 then
           (let r2 = rc_hset rd jk [(''flowPending'', ''0'')] r1
            in if marked > 0 then rc_hincrby rd jk ''flowCancelled'' marked r2 else r2)
         else r1)"

definition luaOwesCascades :: "'r redis \<Rightarrow> string \<Rightarrow> job_id \<Rightarrow> 'r \<Rightarrow> bool" where
  "luaOwesCascades rd p i r =
     (if \<not> rc_exists rd (flowIndexKey p i) r then False
      else list_ex (\<lambda>key.
             rc_hget rd (flowChildKey p i key) ''status'' r = Some ''cancelled''
             \<and> rc_hget rd (flowChildKey p i key) ''cascaded'' r = Some ''0'') (flowKeys rd p i r))"

section \<open>Deletion and retention\<close>

definition dropRow :: "'r redis \<Rightarrow> string \<Rightarrow> job_id \<Rightarrow> string \<Rightarrow> 'r \<Rightarrow> 'r" where
  "dropRow rd p i key r =
     (let r1 = rc_del rd (flowChildKey p i key) r;
          r2 = zrem rd (plainKey p ''flowpending'') (flowMember i key) r1
      in zrem rd (plainKey p ''flowcascade'') (flowMember i key) r2)"

definition luaDeleteJob :: "'r redis \<Rightarrow> string \<Rightarrow> job_id \<Rightarrow> 'r \<Rightarrow> 'r" where
  "luaDeleteJob rd p i r =
     (let jk = jobKey p i
      in case rc_hget rd jk ''queue'' r of
           None \<Rightarrow> r
         | Some queue \<Rightarrow>
             (let st = orElse (rc_hget rd jk ''state'' r) [];
                  name = orElse (rc_hget rd jk ''name'' r) [];
                  r1 = countsAdd rd p queue st (- 1) r;
                  r2 = zrem rd (plainKey p ''all'') i r1;
                  r3 = zrem rd (bynameKey p name) i r2;
                  r4 = zrem rd (byqueueKey p queue) i r3;
                  r5 = zrem rd (finishedKey p st) i r4;
                  r6 = zrem rd (plainKey p ''active'') i r5;
                  r7 = zrem rd (terminalKey p name st) i r6;
                  r8 = remWaiting rd p queue i r7;
                  r9 = zrem rd (delayedKey p queue) i r8;
                  r10 = fold (dropRow rd p i) (flowKeys rd p i r9) r9;
                  r11 = rc_del rd (flowIndexKey p i) r10
              in rc_del rd (attemptsKey p i) (rc_del rd jk r11)))"

text \<open>
  The policy that governs a terminal state: the state's own table, or the flat shape of the 0.2
  releases when no state has one.
\<close>

definition luaKeepFor :: "string \<Rightarrow> json \<Rightarrow> json option" where
  "luaKeepFor st decoded =
     (case jget st decoded of
        Some k \<Rightarrow> if isTable k then Some k else None
      | None \<Rightarrow>
          if jget ''completed'' decoded = None \<and> jget ''failed'' decoded = None
             \<and> jget ''cancelled'' decoded = None
             \<and> (jget ''count'' decoded \<noteq> None \<or> jget ''ageMs'' decoded \<noteq> None)
          then Some decoded else None)"

definition luaPrune :: "'r redis \<Rightarrow> string \<Rightarrow> job_id \<Rightarrow> 'r \<Rightarrow> 'r" where
  "luaPrune rd p i r = (if luaOwesCascades rd p i r then r else luaDeleteJob rd p i r)"

type_synonym keep_entry = "job_id \<times> int \<times> int"

definition keepEntryCmp :: "keep_entry \<Rightarrow> keep_entry \<Rightarrow> int" where
  "keepEntryCmp a b =
     (case (a, b) of ((_, fa, sa), (_, fb, sb)) \<Rightarrow> if fa \<noteq> fb then fb - fa else sb - sa)"

definition keepEntries :: "'r redis \<Rightarrow> string \<Rightarrow> string \<Rightarrow> 'r \<Rightarrow> keep_entry list" where
  "keepEntries rd p tkey r =
     toSorted keepEntryCmp
       (map (\<lambda>(m, s). (m, scoreInt s, luaNumberOr0 (rc_hget rd (jobKey p m) ''seq'' r)))
         (rc_zrange rd tkey 0 (- 1) r))"

definition luaKeepAge :: "'r redis \<Rightarrow> string \<Rightarrow> string \<Rightarrow> json \<Rightarrow> millis \<Rightarrow> 'r \<Rightarrow> 'r" where
  "luaKeepAge rd p tkey keep now r =
     (case Option.bind (jget ''ageMs'' keep) jnum of
        None \<Rightarrow> r
      | Some age \<Rightarrow>
          fold (luaPrune rd p)
            (members (rc_zrangebyscore rd tkey NegInf (Incl (Fin (now - age))) None r)) r)"

definition luaKeepCount :: "'r redis \<Rightarrow> string \<Rightarrow> string \<Rightarrow> json \<Rightarrow> 'r \<Rightarrow> 'r" where
  "luaKeepCount rd p tkey keep r =
     (case jget ''count'' keep of
        None \<Rightarrow> r
      | Some c \<Rightarrow>
          (let n = nat (max 0 (orElse (jnum c) 0))
           in if rc_zcard rd tkey r > n then
                fold (luaPrune rd p) (map fst (drop n (keepEntries rd p tkey r))) r
              else r))"

definition luaApplyKeep ::
  "'r redis \<Rightarrow> string \<Rightarrow> string \<Rightarrow> string \<Rightarrow> string option \<Rightarrow> millis \<Rightarrow> 'r \<Rightarrow> 'r" where
  "luaApplyKeep rd p name st keepJson now r =
     (if isBlank keepJson then r
      else
        case parseJson (the keepJson) of
          None \<Rightarrow> r
        | Some decoded \<Rightarrow>
            if \<not> isTable decoded then r
            else
              (case luaKeepFor st decoded of
                 None \<Rightarrow> r
               | Some keep \<Rightarrow>
                   (let tkey = terminalKey p name st
                    in luaKeepCount rd p tkey keep (luaKeepAge rd p tkey keep now r))))"

section \<open>Dedup release and cancellation\<close>

definition luaReleaseDedupe ::
  "'r redis \<Rightarrow> string \<Rightarrow> string \<Rightarrow> string option \<Rightarrow> job_id \<Rightarrow> millis \<Rightarrow> 'r \<Rightarrow> 'r" where
  "luaReleaseDedupe rd p name dkey i now r =
     (if isBlank dkey then r
      else
        (let sk = dedupeStoreKey p name (the dkey)
         in if rc_hget rd sk ''jobId'' r = Some i then
              (let ex = orElse (rc_hget rd sk ''expiresAt'' r) []
               in if ex = [] \<or> luaNumberOr0 (Some ex) \<le> now then
                    zrem rd (plainKey p ''dedupes'') (name @ CHR 0x00 # the dkey) (rc_del rd sk r)
                  else r)
            else r))"

definition luaFinishCancelled ::
  "'r redis \<Rightarrow> string \<Rightarrow> job_id \<Rightarrow> queue_name \<Rightarrow> string \<Rightarrow> string option \<Rightarrow> millis \<Rightarrow> 'r \<Rightarrow> 'r" where
  "luaFinishCancelled rd p i queue name startedAt now r =
     (let jk = jobKey p i;
          nowStr = intToString now;
          r1 = rc_hset rd jk [(''state'', ''cancelled''), (''finishedAt'', nowStr), (''cancelRequested'', ''0''),
                 (''lockToken'', ''''), (''lockExpiresAt'', '''')] r;
          r2 = countsAdd rd p queue ''active'' (- 1) r1;
          r3 = countsAdd rd p queue ''cancelled'' 1 r2;
          r4 = rc_zadd rd (finishedKey p ''cancelled'') (Fin now) i r3;
          r5 = rc_zadd rd (terminalKey p name ''cancelled'') (Fin now) i r4;
          r6 = appendAttempt rd p i ''cancelled'' startedAt nowStr '''' r5;
          r7 = luaAppendOutbox rd p i ''cancelled'' r6;
          r8 = luaReleaseDedupe rd p name (rc_hget rd jk ''dedupeKey'' r7) i now r7
      in luaApplyKeep rd p name ''cancelled'' (rc_hget rd jk ''keep'' r8) now r8)"

section \<open>List indexes and fresh rows\<close>

record index_config =
  ix_name :: bool
  ix_queue :: bool

datatype index_kind = IndexName | IndexQueue

definition indexInto :: "'r redis \<Rightarrow> string \<Rightarrow> index_kind \<Rightarrow> job_id \<Rightarrow> 'r \<Rightarrow> 'r" where
  "indexInto rd p kind i r =
     (case rc_hget rd (jobKey p i) ''name'' r of
        None \<Rightarrow> r
      | Some name \<Rightarrow>
          (let enqueuedAt = luaNumberOr0 (rc_hget rd (jobKey p i) ''enqueuedAt'' r)
           in case kind of
                IndexName \<Rightarrow> rc_zadd rd (bynameKey p name) (Fin enqueuedAt) i r
              | IndexQueue \<Rightarrow>
                  rc_zadd rd (byqueueKey p (orElse (rc_hget rd (jobKey p i) ''queue'' r) [])) (Fin enqueuedAt) i r))"

text \<open>The texts a fresh row is made of, in the order of the helper's parameters.\<close>

record row_args =
  ra_name :: string
  ra_queue :: string
  ra_payload :: string
  ra_metadata :: string
  ra_priority :: string
  ra_attemptsMax :: string
  ra_backoff :: string
  ra_keep :: string
  ra_timeoutMs :: string
  ra_dedupeKey :: string
  ra_trace :: string
  ra_parent :: string
  ra_delayMs :: int

definition rowFields :: "job_id \<Rightarrow> 'z row_args_scheme \<Rightarrow> string \<Rightarrow> millis \<Rightarrow> int \<Rightarrow> (string \<times> string) list" where
  "rowFields i row st now sq =
     [(''id'', i), (''name'', ra_name row), (''queue'', ra_queue row),
      (''payload'', ra_payload row), (''metadata'', ra_metadata row), (''state'', st),
      (''priority'', ra_priority row), (''attemptsMax'', ra_attemptsMax row),
      (''attemptsMade'', ''0''), (''stalledCount'', ''0''),
      (''backoff'', ra_backoff row), (''keep'', ra_keep row), (''timeoutMs'', ra_timeoutMs row),
      (''cancelRequested'', ''0''), (''dedupeKey'', ra_dedupeKey row), (''trace'', ra_trace row),
      (''parent'', ra_parent row),
      (''runAt'', intToString (now + ra_delayMs row)), (''enqueuedAt'', intToString now),
      (''processedAt'', ''''), (''finishedAt'', ''''), (''exit'', ''''), (''failedReason'', ''''),
      (''lockToken'', ''''), (''lockExpiresAt'', ''''), (''seq'', intToString sq)]"

definition insertJobRow ::
  "'r redis \<Rightarrow> string \<Rightarrow> index_config \<Rightarrow> job_id \<Rightarrow> 'z row_args_scheme \<Rightarrow> millis \<Rightarrow> 'r \<Rightarrow> 'r" where
  "insertJobRow rd p ix i row now r =
     (let (sq, r1) = rc_incr rd (plainKey p ''seq'') r;
          st = (if ra_delayMs row > 0 then ''delayed'' else ''waiting'');
          runAt = now + ra_delayMs row;
          r2 = rc_hset rd (jobKey p i) (rowFields i row st now sq) r1;
          r3 = rc_zadd rd (plainKey p ''all'') (Fin now) i r2;
          r4 = (if ix_name ix then rc_zadd rd (bynameKey p (ra_name row)) (Fin now) i r3 else r3);
          r5 = (if ix_queue ix then rc_zadd rd (byqueueKey p (ra_queue row)) (Fin now) i r4 else r4);
          r6 = (if st = ''waiting''
                then addWaiting rd p (ra_queue row) (luaNumberOr0 (Some (ra_priority row))) sq i r5
                else rc_zadd rd (delayedKey p (ra_queue row)) (Fin runAt) i r5)
      in countsAdd rd p (ra_queue row) st 1 r6)"

end
