(* ===== verification/RedisEnqueue.thy ===== *)
theory RedisEnqueue
  imports RedisLua
begin

text \<open>
  The scripts of \<open>redis/scripts.ts\<close> that insert work: \<open>enqueue\<close> with its dedup decision tree,
  \<open>enqueueMany\<close>, and the schedule scripts \<open>upsertSchedule\<close>, \<open>removeSchedule\<close>, \<open>listSchedules\<close>,
  \<open>dueSchedules\<close>, \<open>advanceSchedule\<close> and \<open>tickSchedule\<close>. A script returns its reply text and the new
  state of the server. The ARGV strides of a batch are a list of records.
\<close>

section \<open>Replies\<close>

definition reply :: "(string \<times> json) list \<Rightarrow> string" where
  "reply kvs = jsonText (JObj kvs)"

definition flatPairs :: "(string \<times> string) list \<Rightarrow> json" where
  "flatPairs fvs = JArr (concat (map (\<lambda>(f, v). [JStr f, JStr v]) fvs))"

text \<open>An absent field inside a table that is encoded, and an encoded Lua table used as an array.\<close>

definition fieldJson :: "string option \<Rightarrow> json" where
  "fieldJson t = (case t of None \<Rightarrow> JBool False | Some s \<Rightarrow> JStr s)"

definition luaArray :: "json list \<Rightarrow> json" where
  "luaArray xs = (if xs = [] then JObj [] else JArr xs)"

section \<open>enqueue\<close>

record batch_item = row_args +
  bi_idMode :: string
  bi_id :: string

record enqueue_args = batch_item +
  ea_dedupeTtlMs :: string
  ea_dedupeExtend :: string
  ea_dedupeReplace :: string

definition dedupeMember :: "string \<Rightarrow> string \<Rightarrow> string" where
  "dedupeMember name key = name @ CHR 0x00 # key"

definition armWindow :: "'r redis \<Rightarrow> string \<Rightarrow> string \<Rightarrow> string \<Rightarrow> string \<Rightarrow> millis \<Rightarrow> 'r \<Rightarrow> 'r" where
  "armWindow rd p name dKey ttlMs now r =
     (let windowEnd = now + luaNumberOr0 (Some ttlMs);
          r1 = rc_hset rd (dedupeStoreKey p name dKey) [(''expiresAt'', intToString windowEnd)] r
      in rc_zadd rd (plainKey p ''dedupes'') (Fin windowEnd) (dedupeMember name dKey) r1)"

definition endedState :: "string option \<Rightarrow> bool" where
  "endedState st \<longleftrightarrow> st = Some ''completed'' \<or> st = Some ''failed'' \<or> st = Some ''cancelled''"

definition luaReplace :: "'r redis \<Rightarrow> string \<Rightarrow> enqueue_args \<Rightarrow> millis \<Rightarrow> job_id \<Rightarrow> 'r \<Rightarrow> string \<times> 'r" where
  "luaReplace rd p args now entryJob r =
     (let kjk = jobKey p entryJob;
          newRunAt = now + ra_delayMs args;
          r1 = rc_hset rd kjk
                 [(''payload'', ra_payload args), (''metadata'', ra_metadata args),
                  (''priority'', ra_priority args), (''attemptsMax'', ra_attemptsMax args),
                  (''backoff'', ra_backoff args), (''keep'', ra_keep args),
                  (''timeoutMs'', ra_timeoutMs args), (''trace'', ra_trace args),
                  (''runAt'', intToString newRunAt)] r;
          keyedQueue = orElse (rc_hget rd kjk ''queue'' r1) [];
          r2 = rc_zadd rd (delayedKey p keyedQueue) (Fin newRunAt) entryJob r1;
          r3 = (if ea_dedupeTtlMs args \<noteq> []
                then armWindow rd p (ra_name args) (ra_dedupeKey args) (ea_dedupeTtlMs args) now r2 else r2)
      in (reply [(''id'', JStr entryJob), (''duplicate'', JBool True), (''wake'', JBool True),
                 (''queue'', JStr keyedQueue)], r3))"

definition luaDedupe :: "'r redis \<Rightarrow> string \<Rightarrow> enqueue_args \<Rightarrow> millis \<Rightarrow> 'r \<Rightarrow> string option \<times> 'r" where
  "luaDedupe rd p args now r =
     (let dKey = ra_dedupeKey args; name = ra_name args; sk = dedupeStoreKey p name dKey
      in if dKey = [] then (None, r)
         else
           case rc_hget rd sk ''jobId'' r of
             None \<Rightarrow> (None, r)
           | Some entryJob \<Rightarrow>
               (let expStr = orElse (rc_hget rd sk ''expiresAt'' r) [];
                    windowIsLive = expStr \<noteq> [] \<and> luaNumberOr0 (Some expStr) > now;
                    keyedState = rc_hget rd (jobKey p entryJob) ''state'' r;
                    duplicate = reply [(''id'', JStr entryJob), (''duplicate'', JBool True)]
                in if ea_dedupeReplace args = ''1'' \<and> keyedState = Some ''delayed'' then
                     (case luaReplace rd p args now entryJob r of (text, r1) \<Rightarrow> (Some text, r1))
                   else if windowIsLive then
                     (Some duplicate,
                      if ea_dedupeExtend args = ''1'' \<and> ea_dedupeTtlMs args \<noteq> []
                      then armWindow rd p name dKey (ea_dedupeTtlMs args) now r else r)
                   else if expStr = [] \<and> keyedState \<noteq> None \<and> \<not> endedState keyedState then
                     (Some duplicate, r)
                   else (None, r)))"

fun luaAutoId :: "'r redis \<Rightarrow> string \<Rightarrow> nat \<Rightarrow> 'r \<Rightarrow> job_id option \<times> 'r" where
  "luaAutoId rd p 0 r = (None, r)"
| "luaAutoId rd p (Suc n) r =
     (let (v, r1) = rc_incr rd (plainKey p ''seq'') r;
          candidate = ''j-'' @ intToString v
      in if \<not> rc_exists rd (jobKey p candidate) r1 then (Some candidate, r1)
         else luaAutoId rd p n r1)"

definition luaChooseId :: "'r redis \<Rightarrow> string \<Rightarrow> 'z batch_item_scheme \<Rightarrow> 'r \<Rightarrow> job_id option \<times> 'r" where
  "luaChooseId rd p item r =
     (if bi_idMode item = ''auto'' then luaAutoId rd p 5 r else (Some (bi_id item), r))"

definition registerDedupe :: "'r redis \<Rightarrow> string \<Rightarrow> enqueue_args \<Rightarrow> job_id \<Rightarrow> millis \<Rightarrow> 'r \<Rightarrow> 'r" where
  "registerDedupe rd p args i now r =
     (if ra_dedupeKey args = [] then r
      else
        (let sk = dedupeStoreKey p (ra_name args) (ra_dedupeKey args);
             ttlMs = ea_dedupeTtlMs args;
             windowEnd = now + luaNumberOr0 (Some ttlMs);
             r1 = rc_del rd sk r;
             r2 = rc_hset rd sk
                    [(''jobId'', i), (''expiresAt'', if ttlMs = [] then [] else intToString windowEnd)] r1
         in rc_zadd rd (plainKey p ''dedupes'') (if ttlMs = [] then PosInf else Fin windowEnd)
              (dedupeMember (ra_name args) (ra_dedupeKey args)) r2))"

definition luaEnqueue ::
  "'r redis \<Rightarrow> string \<Rightarrow> index_config \<Rightarrow> enqueue_args \<Rightarrow> millis \<Rightarrow> 'r \<Rightarrow> string \<times> 'r" where
  "luaEnqueue rd p ix args now r =
     (let idMode = bi_idMode args; i = bi_id args
      in if (idMode = ''user'' \<or> idMode = ''generated'') \<and> rc_exists rd (jobKey p i) r then
           (if idMode = ''user'' then (reply [(''duplicate'', JBool True), (''id'', JStr i)], r)
            else (reply [(''collision'', JBool True)], r))
         else
           case luaDedupe rd p args now r of
             (Some text, r1) \<Rightarrow> (text, r1)
           | (None, r1) \<Rightarrow>
               (case luaChooseId rd p args r1 of
                  (None, r2) \<Rightarrow> (reply [(''error'', JStr ''id'')], r2)
                | (Some i', r2) \<Rightarrow>
                    (let r3 = insertJobRow rd p ix i' args now r2;
                         r4 = registerDedupe rd p args i' now r3
                     in (reply [(''id'', JStr i'), (''duplicate'', JBool False), (''wake'', JBool True)], r4))))"

section \<open>enqueueMany\<close>

definition luaEnqueueItem ::
  "'r redis \<Rightarrow> string \<Rightarrow> index_config \<Rightarrow> millis \<Rightarrow> batch_item \<Rightarrow> 'r \<Rightarrow> (string \<times> json) list \<times> 'r" where
  "luaEnqueueItem rd p ix now item r =
     (let idMode = bi_idMode item; i = bi_id item
      in if idMode \<noteq> ''auto'' \<and> rc_exists rd (jobKey p i) r then
           (if idMode = ''user'' then ([(''id'', JStr i), (''duplicate'', JBool True)], r)
            else ([(''collision'', JBool True)], r))
         else
           case luaChooseId rd p item r of
             (None, r1) \<Rightarrow> ([(''error'', JStr ''id'')], r1)
           | (Some i', r1) \<Rightarrow>
               if i' = [] then ([(''error'', JStr ''id'')], r1)
               else ([(''id'', JStr i'), (''duplicate'', JBool False)],
                     insertJobRow rd p ix i' (item\<lparr>ra_dedupeKey := []\<rparr>) now r1))"

fun luaEnqueueItems ::
  "'r redis \<Rightarrow> string \<Rightarrow> index_config \<Rightarrow> millis \<Rightarrow> batch_item list \<Rightarrow> 'r \<Rightarrow> json list \<times> 'r" where
  "luaEnqueueItems rd p ix now [] r = ([], r)"
| "luaEnqueueItems rd p ix now (item # items) r =
     (let (result, r1) = luaEnqueueItem rd p ix now item r;
          (results, r2) = luaEnqueueItems rd p ix now items r1
      in (JObj result # results, r2))"

definition luaEnqueueMany ::
  "'r redis \<Rightarrow> string \<Rightarrow> index_config \<Rightarrow> millis \<Rightarrow> batch_item list \<Rightarrow> 'r \<Rightarrow> string \<times> 'r" where
  "luaEnqueueMany rd p ix now items r =
     (let (results, r1) = luaEnqueueItems rd p ix now items r in (jsonText (JArr results), r1))"

section \<open>Schedules\<close>

record schedule_args =
  sa_key :: string
  sa_jobName :: string
  sa_queue :: string
  sa_cron :: string
  sa_tz :: string
  sa_everyMs :: string
  sa_payload :: string
  sa_metadata :: string
  sa_priority :: string
  sa_attemptsMax :: string
  sa_backoff :: string
  sa_keep :: string
  sa_timeoutMs :: string
  sa_group :: string
  sa_nextRunAt :: millis

definition luaUpsertSchedule :: "'r redis \<Rightarrow> string \<Rightarrow> schedule_args \<Rightarrow> 'r \<Rightarrow> string \<times> 'r" where
  "luaUpsertSchedule rd p args r =
     (let key = sa_key args;
          sk = scheduleStoreKey p key;
          sameCadence = rc_hget rd sk ''cron'' r = Some (sa_cron args)
            \<and> rc_hget rd sk ''tz'' r = Some (sa_tz args)
            \<and> rc_hget rd sk ''everyMs'' r = Some (sa_everyMs args);
          nextRunAt =
            (if sameCadence
             then orElse (Option.bind (rc_hget rd sk ''nextRunAt'' r) luaNumber) (sa_nextRunAt args)
             else sa_nextRunAt args);
          r1 = rc_del rd sk r;
          r2 = rc_hset rd sk
                 [(''key'', key), (''jobName'', sa_jobName args), (''queue'', sa_queue args),
                  (''cron'', sa_cron args), (''tz'', sa_tz args), (''everyMs'', sa_everyMs args),
                  (''payload'', sa_payload args), (''metadata'', sa_metadata args),
                  (''priority'', sa_priority args), (''attemptsMax'', sa_attemptsMax args),
                  (''backoff'', sa_backoff args), (''keep'', sa_keep args),
                  (''timeoutMs'', sa_timeoutMs args), (''group'', sa_group args),
                  (''nextRunAt'', intToString nextRunAt)] r1;
          r3 = rc_zadd rd (plainKey p ''schedules'') (Fin nextRunAt) key r2
      in (reply [(''ok'', JBool True)], r3))"

definition luaRemoveSchedule :: "'r redis \<Rightarrow> string \<Rightarrow> string \<Rightarrow> 'r \<Rightarrow> string \<times> 'r" where
  "luaRemoveSchedule rd p key r =
     (let (removed, r1) = rc_zrem rd (plainKey p ''schedules'') key r
      in (intToString (int removed), rc_del rd (scheduleStoreKey p key) r1))"

definition fieldMatches :: "json \<Rightarrow> (string \<times> string) list \<Rightarrow> string \<Rightarrow> bool" where
  "fieldMatches filters fvs f =
     (case jget f filters of None \<Rightarrow> True | Some v \<Rightarrow> map_option JStr (map_of fvs f) = Some v)"

definition luaListSchedules :: "'r redis \<Rightarrow> string \<Rightarrow> string \<Rightarrow> 'r \<Rightarrow> string option" where
  "luaListSchedules rd p filtersJson r =
     (case parseJson filtersJson of
        None \<Rightarrow> None
      | Some filters \<Rightarrow>
          (let keys = members (rc_zrange rd (plainKey p ''schedules'') 0 (- 1) r);
               records = map (\<lambda>key. rc_hgetall rd (scheduleStoreKey p key) r) keys;
               matching = filter (\<lambda>fvs. fieldMatches filters fvs ''jobName'' \<and> fieldMatches filters fvs ''queue''
                            \<and> fieldMatches filters fvs ''group'') records
           in Some (jsonText (JArr (map flatPairs matching)))))"

definition luaDueSchedules :: "'r redis \<Rightarrow> string \<Rightarrow> millis \<Rightarrow> 'r \<Rightarrow> string" where
  "luaDueSchedules rd p now r =
     (let keys = members (rc_zrangebyscore rd (plainKey p ''schedules'') NegInf (Incl (Fin now)) None r)
      in jsonText (JArr (map (\<lambda>key. flatPairs (rc_hgetall rd (scheduleStoreKey p key) r)) keys)))"

definition slotTaken :: "'r redis \<Rightarrow> string \<Rightarrow> millis \<Rightarrow> 'r \<Rightarrow> bool" where
  "slotTaken rd sk expectedRunAt r \<longleftrightarrow>
     (case rc_hget rd sk ''nextRunAt'' r of
        None \<Rightarrow> True
      | Some current \<Rightarrow> luaNumber current \<noteq> Some expectedRunAt)"

definition moveSchedule :: "'r redis \<Rightarrow> string \<Rightarrow> string \<Rightarrow> millis \<Rightarrow> 'r \<Rightarrow> 'r" where
  "moveSchedule rd p key nextRunAt r =
     rc_zadd rd (plainKey p ''schedules'') (Fin nextRunAt) key
       (rc_hset rd (scheduleStoreKey p key) [(''nextRunAt'', intToString nextRunAt)] r)"

definition luaAdvanceSchedule ::
  "'r redis \<Rightarrow> string \<Rightarrow> string \<Rightarrow> millis \<Rightarrow> millis \<Rightarrow> 'r \<Rightarrow> string \<times> 'r" where
  "luaAdvanceSchedule rd p key expectedRunAt nextRunAt r =
     (if slotTaken rd (scheduleStoreKey p key) expectedRunAt r then (''0'', r)
      else (''1'', moveSchedule rd p key nextRunAt r))"

definition luaTickSchedule ::
  "'r redis \<Rightarrow> string \<Rightarrow> index_config \<Rightarrow> string \<Rightarrow> millis \<Rightarrow> millis \<Rightarrow> job_id \<Rightarrow> row_args \<Rightarrow> millis \<Rightarrow> 'r
    \<Rightarrow> string \<times> 'r" where
  "luaTickSchedule rd p ix key expectedRunAt nextRunAt i row now r =
     (if slotTaken rd (scheduleStoreKey p key) expectedRunAt r then (''0'', r)
      else
        (let r1 = moveSchedule rd p key nextRunAt r
         in if rc_exists rd (jobKey p i) r1 then (''0'', r1)
            else (''1'', insertJobRow rd p ix i (row\<lparr>ra_dedupeKey := []\<rparr>) now r1)))"

end
