(* ===== verification/RedisClaim.thy ===== *)
theory RedisClaim
  imports RedisEnqueue
begin

text \<open>
  The scripts of \<open>redis/scripts.ts\<close> around a lock: \<open>claim\<close>, \<open>ack\<close>, \<open>release\<close>, \<open>extendLocks\<close>
  and \<open>recoverStalled\<close>. The scan of a waiting set in pages is a loop that ends only because the set
  does, so it is a partial function: \<open>None\<close> is not returning.
\<close>

section \<open>claim\<close>

definition stringsOf :: "json \<Rightarrow> string list" where
  "stringsOf j = (case j of JArr xs \<Rightarrow> List.map_filter (\<lambda>x. case x of JStr s \<Rightarrow> Some s | _ \<Rightarrow> None) xs | _ \<Rightarrow> [])"

definition promoteMember :: "'r redis \<Rightarrow> string \<Rightarrow> queue_name \<Rightarrow> job_id \<Rightarrow> 'r \<Rightarrow> 'r" where
  "promoteMember rd p queue i r =
     (let jk = jobKey p i;
          r1 = zrem rd (delayedKey p queue) i r;
          priority = luaNumberOr0 (rc_hget rd jk ''priority'' r1);
          sq = luaNumberOr0 (rc_hget rd jk ''seq'' r1);
          r2 = rc_hset rd jk [(''state'', ''waiting'')] r1;
          r3 = addWaiting rd p queue priority sq i r2;
          r4 = countsAdd rd p queue ''delayed'' (- 1) r3
      in countsAdd rd p queue ''waiting'' 1 r4)"

definition promoteDueMembers :: "'r redis \<Rightarrow> string \<Rightarrow> queue_name \<Rightarrow> millis \<Rightarrow> 'r \<Rightarrow> 'r" where
  "promoteDueMembers rd p queue now r =
     fold (promoteMember rd p queue)
       (members (rc_zrangebyscore rd (delayedKey p queue) NegInf (Incl (Fin now)) None r)) r"

definition named :: "'r redis \<Rightarrow> string \<Rightarrow> string list \<Rightarrow> job_id \<Rightarrow> 'r \<Rightarrow> bool" where
  "named rd p names i r \<longleftrightarrow> (case rc_hget rd (jobKey p i) ''name'' r of None \<Rightarrow> False | Some n \<Rightarrow> n \<in> set names)"

definition earliestDelayed :: "'r redis \<Rightarrow> string \<Rightarrow> queue_name \<Rightarrow> string list \<Rightarrow> 'r \<Rightarrow> millis option" where
  "earliestDelayed rd p queue names r =
     map_option (\<lambda>(m, s). scoreInt s)
       (find (\<lambda>(m, s). named rd p names m r) (rc_zrange rd (delayedKey p queue) 0 (- 1) r))"

partial_function (option) scanWaiting ::
  "'r redis \<Rightarrow> string \<Rightarrow> queue_name \<Rightarrow> string list \<Rightarrow> nat \<Rightarrow> 'r \<Rightarrow> string option option" where
  "scanWaiting rd p queue names offset r =
     (let batch = members (rc_zrange rd (waitingKey p queue) (int offset) (int offset + 99) r)
      in if batch = [] then Some None
         else case find (\<lambda>m. named rd p names (waitingId m) r) batch of
           Some m \<Rightarrow> Some (Some m)
         | None \<Rightarrow> scanWaiting rd p queue names (offset + 100) r)"

definition takeMember ::
  "'r redis \<Rightarrow> string \<Rightarrow> queue_name \<Rightarrow> string \<Rightarrow> string \<Rightarrow> int \<Rightarrow> millis \<Rightarrow> 'r \<Rightarrow> 'r" where
  "takeMember rd p queue m token lockDurationMs now r =
     (let i = waitingId m; jk = jobKey p i;
          r1 = zrem rd (waitingKey p queue) m r;
          r2 = rc_hset rd jk [(''state'', ''active''), (''lockToken'', token),
                 (''lockExpiresAt'', intToString (now + lockDurationMs)), (''processedAt'', intToString now)] r1;
          r3 = rc_zadd rd (plainKey p ''active'') (Fin (now + lockDurationMs)) i r2;
          r4 = countsAdd rd p queue ''waiting'' (- 1) r3
      in countsAdd rd p queue ''active'' 1 r4)"

definition emptyReply :: "millis option \<Rightarrow> string" where
  "emptyReply nextRunAt =
     reply ((''empty'', JBool True) # (case nextRunAt of None \<Rightarrow> [] | Some n \<Rightarrow> [(''nextRunAt'', JNum n)]))"

definition luaClaim ::
  "'r redis \<Rightarrow> string \<Rightarrow> queue_name \<Rightarrow> string \<Rightarrow> string \<Rightarrow> int \<Rightarrow> millis \<Rightarrow> 'r \<Rightarrow> (string \<times> 'r) option" where
  "luaClaim rd p queue namesJson token lockDurationMs now r =
     (let names = (case parseJson namesJson of None \<Rightarrow> [] | Some j \<Rightarrow> stringsOf j);
          r1 = promoteDueMembers rd p queue now r;
          nextRunAt = earliestDelayed rd p queue names r1
      in if queue \<in> set (rc_smembers rd (plainKey p ''paused'') r1) then Some (emptyReply nextRunAt, r1)
         else
           case scanWaiting rd p queue names 0 r1 of
             None \<Rightarrow> None
           | Some None \<Rightarrow> Some (emptyReply nextRunAt, r1)
           | Some (Some m) \<Rightarrow>
               (let r2 = takeMember rd p queue m token lockDurationMs now r1
                in Some (reply [(''job'', flatPairs (rc_hgetall rd (jobKey p (waitingId m)) r2))], r2)))"

section \<open>ack and release\<close>

definition lockHeld :: "'r redis \<Rightarrow> string \<Rightarrow> job_id \<Rightarrow> string \<Rightarrow> 'r \<Rightarrow> bool" where
  "lockHeld rd p i token r \<longleftrightarrow>
     rc_hget rd (jobKey p i) ''state'' r = Some ''active'' \<and> rc_hget rd (jobKey p i) ''lockToken'' r = Some token"

definition errorReply :: "string \<Rightarrow> string" where
  "errorReply e = reply [(''error'', JStr e)]"

definition okReply :: string where
  "okReply = reply [(''ok'', JBool True)]"

definition okWake :: "queue_name \<Rightarrow> string" where
  "okWake queue = reply [(''ok'', JBool True), (''wake'', JBool True), (''queue'', JStr queue)]"

definition luaFinish ::
  "'r redis \<Rightarrow> string \<Rightarrow> job_id \<Rightarrow> queue_name \<Rightarrow> string \<Rightarrow> string option \<Rightarrow> millis
    \<Rightarrow> string \<Rightarrow> string option \<Rightarrow> string \<Rightarrow> string \<Rightarrow> 'r \<Rightarrow> 'r" where
  "luaFinish rd p i queue name startedAt now newState storeExit outcome ledgerExit r =
     (let jk = jobKey p i;
          nowStr = intToString now;
          r1 = rc_hset rd jk [(''state'', newState), (''finishedAt'', nowStr), (''cancelRequested'', ''0''),
                 (''lockToken'', ''''), (''lockExpiresAt'', '''')] r;
          r2 = (case storeExit of None \<Rightarrow> r1 | Some ex \<Rightarrow> rc_hset rd jk [(''exit'', ex)] r1);
          r3 = countsAdd rd p queue ''active'' (- 1) r2;
          r4 = countsAdd rd p queue newState 1 r3;
          r5 = rc_zadd rd (finishedKey p newState) (Fin now) i r4;
          r6 = rc_zadd rd (terminalKey p name newState) (Fin now) i r5;
          r7 = appendAttempt rd p i outcome startedAt nowStr ledgerExit r6;
          r8 = luaAppendOutbox rd p i newState r7;
          r9 = luaReleaseDedupe rd p name (rc_hget rd jk ''dedupeKey'' r8) i now r8
      in luaApplyKeep rd p name newState (rc_hget rd jk ''keep'' r9) now r9)"

definition luaAckRetry ::
  "'r redis \<Rightarrow> string \<Rightarrow> job_id \<Rightarrow> queue_name \<Rightarrow> string option \<Rightarrow> string \<Rightarrow> int \<Rightarrow> millis \<Rightarrow> 'r \<Rightarrow> 'r" where
  "luaAckRetry rd p i queue startedAt exitJson delayMs now r =
     (let jk = jobKey p i;
          r1 = appendAttempt rd p i ''retried'' startedAt (intToString now) exitJson r;
          (sq, r2) = rc_incr rd (plainKey p ''seq'') r1;
          runAt = now + delayMs;
          st = (if delayMs > 0 then ''delayed'' else ''waiting'');
          r3 = rc_hset rd jk [(''state'', st), (''seq'', intToString sq), (''runAt'', intToString runAt),
                 (''lockToken'', ''''), (''lockExpiresAt'', '''')] r2;
          r4 = countsAdd rd p queue ''active'' (- 1) r3;
          r5 = countsAdd rd p queue st 1 r4
      in if st = ''waiting''
         then addWaiting rd p queue (luaNumberOr0 (rc_hget rd jk ''priority'' r5)) sq i r5
         else rc_zadd rd (delayedKey p queue) (Fin runAt) i r5)"

definition luaAck ::
  "'r redis \<Rightarrow> string \<Rightarrow> job_id \<Rightarrow> string \<Rightarrow> string \<Rightarrow> string \<Rightarrow> int \<Rightarrow> millis \<Rightarrow> 'r \<Rightarrow> string \<times> 'r" where
  "luaAck rd p i token tag exitJson delayMs now r =
     (let jk = jobKey p i
      in if \<not> rc_exists rd jk r then (errorReply ''notfound'', r)
         else if \<not> lockHeld rd p i token r then (errorReply ''locklost'', r)
         else
           (let queue = orElse (rc_hget rd jk ''queue'' r) [];
                name = orElse (rc_hget rd jk ''name'' r) [];
                startedAt = rc_hget rd jk ''processedAt'' r;
                cancelRequested = (rc_hget rd jk ''cancelRequested'' r = Some ''1'');
                r1 = rc_hincrby rd jk ''attemptsMade'' 1 r;
                r2 = zrem rd (plainKey p ''active'') i r1;
                finish = luaFinish rd p i queue name startedAt now
            in if tag = ''Complete'' then
                 (okReply, finish ''completed'' (Some exitJson) ''completed'' exitJson r2)
               else if tag = ''Fail'' then
                 (okReply, finish ''failed'' (Some exitJson) ''failed'' exitJson r2)
               else if tag = ''Cancelled'' \<or> cancelRequested then
                 (okReply, finish ''cancelled'' None ''cancelled'' '''' r2)
               else (okWake queue, luaAckRetry rd p i queue startedAt exitJson delayMs now r2)))"

definition luaRelease :: "'r redis \<Rightarrow> string \<Rightarrow> job_id \<Rightarrow> string \<Rightarrow> millis \<Rightarrow> 'r \<Rightarrow> string \<times> 'r" where
  "luaRelease rd p i token now r =
     (let jk = jobKey p i
      in if \<not> rc_exists rd jk r then (errorReply ''notfound'', r)
         else if \<not> lockHeld rd p i token r then (errorReply ''locklost'', r)
         else
           (let queue = orElse (rc_hget rd jk ''queue'' r) [];
                r1 = zrem rd (plainKey p ''active'') i r
            in if rc_hget rd jk ''cancelRequested'' r1 = Some ''1'' then
                 (okReply,
                  luaFinishCancelled rd p i queue (orElse (rc_hget rd jk ''name'' r1) [])
                    (rc_hget rd jk ''processedAt'' r1) now r1)
               else
                 (let sq = luaNumberOr0 (rc_hget rd jk ''seq'' r1);
                      priority = luaNumberOr0 (rc_hget rd jk ''priority'' r1);
                      r2 = rc_hset rd jk [(''state'', ''waiting''), (''lockToken'', ''''),
                             (''lockExpiresAt'', '''')] r1;
                      r3 = addWaiting rd p queue priority sq i r2;
                      r4 = countsAdd rd p queue ''active'' (- 1) r3
                  in (okWake queue, countsAdd rd p queue ''waiting'' 1 r4))))"

section \<open>extendLocks\<close>

definition extendOne ::
  "'r redis \<Rightarrow> string \<Rightarrow> int \<Rightarrow> millis \<Rightarrow> job_id \<times> string \<Rightarrow> string list \<times> string list \<times> 'r
    \<Rightarrow> string list \<times> string list \<times> 'r" where
  "extendOne rd p durationMs now lock acc =
     (case (lock, acc) of ((i, token), (lost, cancel, r)) \<Rightarrow>
        if \<not> lockHeld rd p i token r then (lost @ [i], cancel, r)
        else if rc_hget rd (jobKey p i) ''cancelRequested'' r = Some ''1'' then (lost, cancel @ [i], r)
        else (lost, cancel,
              rc_zadd rd (plainKey p ''active'') (Fin (now + durationMs)) i
                (rc_hset rd (jobKey p i) [(''lockExpiresAt'', intToString (now + durationMs))] r)))"

definition lockOf :: "json \<Rightarrow> (job_id \<times> string) option" where
  "lockOf j =
     (case (jget ''id'' j, jget ''token'' j) of (Some (JStr i), Some (JStr t)) \<Rightarrow> Some (i, t) | _ \<Rightarrow> None)"

definition locksOf :: "string \<Rightarrow> (job_id \<times> string) list" where
  "locksOf locksJson =
     (case parseJson locksJson of Some (JArr xs) \<Rightarrow> List.map_filter lockOf xs | _ \<Rightarrow> [])"

definition luaExtendLocks :: "'r redis \<Rightarrow> string \<Rightarrow> string \<Rightarrow> int \<Rightarrow> millis \<Rightarrow> 'r \<Rightarrow> string \<times> 'r" where
  "luaExtendLocks rd p locksJson durationMs now r =
     (case fold (extendOne rd p durationMs now) (locksOf locksJson) ([], [], r) of (lost, cancel, r1) \<Rightarrow>
        (reply [(''lost'', luaArray (map JStr lost)), (''cancel'', luaArray (map JStr cancel))], r1))"

section \<open>recoverStalled\<close>

definition recoverMember ::
  "'r redis \<Rightarrow> string \<Rightarrow> int \<Rightarrow> millis \<Rightarrow> job_id \<Rightarrow> (job_id \<times> bool) list \<times> 'r \<Rightarrow> (job_id \<times> bool) list \<times> 'r" where
  "recoverMember rd p maxStalledCount now i acc =
     (case acc of (recovered, r) \<Rightarrow>
        (let jk = jobKey p i; nowStr = intToString now
         in if rc_hget rd jk ''state'' r \<noteq> Some ''active'' then (recovered, r)
            else
              (let queue = orElse (rc_hget rd jk ''queue'' r) [];
                   name = orElse (rc_hget rd jk ''name'' r) [];
                   startedAt = rc_hget rd jk ''processedAt'' r;
                   r1 = zrem rd (plainKey p ''active'') i r
               in if rc_hget rd jk ''cancelRequested'' r1 = Some ''1'' then
                    (recovered, luaFinishCancelled rd p i queue name startedAt now r1)
                  else
                    (let stalled = luaNumberOr0 (rc_hget rd jk ''stalledCount'' r1) + 1;
                         r2 = rc_hset rd jk [(''stalledCount'', intToString stalled), (''lockToken'', ''''),
                                (''lockExpiresAt'', '''')] r1;
                         r3 = appendAttempt rd p i ''stalled'' startedAt nowStr '''' r2
                     in if stalled > maxStalledCount then
                          (let r4 = rc_hset rd jk [(''state'', ''failed''), (''finishedAt'', nowStr),
                                      (''failedReason'', ''job stalled more than allowable limit'')] r3;
                               r5 = countsAdd rd p queue ''active'' (- 1) r4;
                               r6 = countsAdd rd p queue ''failed'' 1 r5;
                               r7 = rc_zadd rd (finishedKey p ''failed'') (Fin now) i r6;
                               r8 = rc_zadd rd (terminalKey p name ''failed'') (Fin now) i r7;
                               r9 = luaAppendOutbox rd p i ''failed'' r8
                           in (recovered @ [(i, True)],
                               luaReleaseDedupe rd p name (rc_hget rd jk ''dedupeKey'' r9) i now r9))
                        else
                          (let sq = luaNumberOr0 (rc_hget rd jk ''seq'' r3);
                               priority = luaNumberOr0 (rc_hget rd jk ''priority'' r3);
                               r4 = rc_hset rd jk [(''state'', ''waiting'')] r3;
                               r5 = addWaiting rd p queue priority sq i r4;
                               r6 = countsAdd rd p queue ''active'' (- 1) r5
                           in (recovered @ [(i, False)], countsAdd rd p queue ''waiting'' 1 r6))))))"

definition luaRecoverStalled :: "'r redis \<Rightarrow> string \<Rightarrow> int \<Rightarrow> millis \<Rightarrow> 'r \<Rightarrow> string \<times> 'r" where
  "luaRecoverStalled rd p maxStalledCount now r =
     (let expired = members (rc_zrangebyscore rd (plainKey p ''active'') NegInf (Incl (Fin now)) None r)
      in case fold (recoverMember rd p maxStalledCount now) expired ([], r) of (recovered, r1) \<Rightarrow>
           (jsonText (JArr (map (\<lambda>(i, failed). JObj [(''id'', JStr i), (''failed'', JBool failed)]) recovered)), r1))"

end
