(* ===== verification/RedisAdmin.thy ===== *)
theory RedisAdmin
  imports RedisClaim
begin

text \<open>
  The remaining scripts of \<open>redis/scripts.ts\<close> over jobs: the reads \<open>getJob\<close>, \<open>list\<close> and \<open>counts\<close>,
  the administrative verbs \<open>remove\<close>, \<open>retry\<close>, \<open>cancel\<close> and \<open>promote\<close>, the index maintenance
  \<open>indexMembers\<close> and \<open>indexTailPage\<close>, and the two sweeps \<open>sweepState\<close> and \<open>sweepDedupes\<close>.
\<close>

section \<open>getJob and counts\<close>

definition luaGetJob :: "'r redis \<Rightarrow> string \<Rightarrow> job_id \<Rightarrow> 'r \<Rightarrow> string" where
  "luaGetJob rd p i r = jsonText (flatPairs (rc_hgetall rd (jobKey p i) r))"

definition luaCounts :: "'r redis \<Rightarrow> string \<Rightarrow> 'r \<Rightarrow> string" where
  "luaCounts rd p r = jsonText (flatPairs (rc_hgetall rd (plainKey p ''counts'') r))"

section \<open>remove, retry, cancel and promote\<close>

definition luaRemove :: "'r redis \<Rightarrow> string \<Rightarrow> job_id \<Rightarrow> 'r \<Rightarrow> string \<times> 'r" where
  "luaRemove rd p i r =
     (let jk = jobKey p i; st = rc_hget rd jk ''state'' r
      in if \<not> rc_exists rd jk r \<or> st = Some ''active'' \<or> st = Some ''waiting-children'' then (''0'', r)
         else (''1'', luaDeleteJob rd p i r))"

definition stateError :: "string option \<Rightarrow> string" where
  "stateError st = reply [(''error'', JStr ''state''), (''state'', fieldJson st)]"

definition okQueue :: "queue_name \<Rightarrow> string" where
  "okQueue queue = reply [(''ok'', JBool True), (''queue'', JStr queue)]"

definition luaRetry :: "'r redis \<Rightarrow> string \<Rightarrow> job_id \<Rightarrow> millis \<Rightarrow> 'r \<Rightarrow> string \<times> 'r" where
  "luaRetry rd p i now r =
     (let jk = jobKey p i; st = rc_hget rd jk ''state'' r
      in if \<not> rc_exists rd jk r then (errorReply ''notfound'', r)
         else if st \<noteq> Some ''failed'' then (stateError st, r)
         else
           (let queue = orElse (rc_hget rd jk ''queue'' r) [];
                name = orElse (rc_hget rd jk ''name'' r) [];
                (sq, r1) = rc_incr rd (plainKey p ''seq'') r;
                r2 = rc_hset rd jk
                       [(''state'', ''waiting''), (''attemptsMade'', ''0''), (''stalledCount'', ''0''),
                        (''cancelRequested'', ''0''), (''exit'', ''''), (''failedReason'', ''''),
                        (''finishedAt'', ''''), (''processedAt'', ''''), (''runAt'', intToString now),
                        (''seq'', intToString sq)] r1;
                r3 = zrem rd (finishedKey p ''failed'') i r2;
                r4 = zrem rd (terminalKey p name ''failed'') i r3;
                priority = luaNumberOr0 (rc_hget rd jk ''priority'' r4);
                r5 = addWaiting rd p queue priority sq i r4;
                r6 = countsAdd rd p queue ''failed'' (- 1) r5
            in (okQueue queue, countsAdd rd p queue ''waiting'' 1 r6)))"

definition luaCancel :: "'r redis \<Rightarrow> string \<Rightarrow> job_id \<Rightarrow> millis \<Rightarrow> 'r \<Rightarrow> string \<times> 'r" where
  "luaCancel rd p i now r =
     (let jk = jobKey p i; st = rc_hget rd jk ''state'' r
      in if \<not> rc_exists rd jk r then (errorReply ''notfound'', r)
         else if st = Some ''active'' then
           (okReply, rc_hset rd jk [(''cancelRequested'', ''1'')] r)
         else if st \<noteq> Some ''waiting'' \<and> st \<noteq> Some ''delayed'' \<and> st \<noteq> Some ''waiting-children'' then
           (stateError st, r)
         else
           (let nowStr = intToString now;
                queue = orElse (rc_hget rd jk ''queue'' r) [];
                name = orElse (rc_hget rd jk ''name'' r) [];
                r1 = (if st = Some ''waiting-children'' then luaSettleMarkRows rd p i r else r);
                r2 = remWaiting rd p queue i r1;
                r3 = zrem rd (delayedKey p queue) i r2;
                r4 = rc_hset rd jk [(''state'', ''cancelled''), (''finishedAt'', nowStr),
                       (''cancelRequested'', ''0'')] r3;
                r5 = countsAdd rd p queue (the st) (- 1) r4;
                r6 = countsAdd rd p queue ''cancelled'' 1 r5;
                r7 = rc_zadd rd (finishedKey p ''cancelled'') (Fin now) i r6;
                r8 = rc_zadd rd (terminalKey p name ''cancelled'') (Fin now) i r7;
                r9 = appendAttempt rd p i ''cancelled'' (rc_hget rd jk ''processedAt'' r8) nowStr '''' r8;
                r10 = luaAppendOutbox rd p i ''cancelled'' r9;
                r11 = luaReleaseDedupe rd p name (rc_hget rd jk ''dedupeKey'' r10) i now r10
            in (okReply, luaApplyKeep rd p name ''cancelled'' (rc_hget rd jk ''keep'' r11) now r11)))"

definition luaPromote :: "'r redis \<Rightarrow> string \<Rightarrow> job_id \<Rightarrow> millis \<Rightarrow> 'r \<Rightarrow> string \<times> 'r" where
  "luaPromote rd p i now r =
     (let jk = jobKey p i; st = rc_hget rd jk ''state'' r
      in if \<not> rc_exists rd jk r then (errorReply ''notfound'', r)
         else if st \<noteq> Some ''delayed'' then (stateError st, r)
         else
           (let queue = orElse (rc_hget rd jk ''queue'' r) [];
                sq = luaNumberOr0 (rc_hget rd jk ''seq'' r);
                priority = luaNumberOr0 (rc_hget rd jk ''priority'' r);
                r1 = zrem rd (delayedKey p queue) i r;
                r2 = rc_hset rd jk [(''state'', ''waiting''), (''runAt'', intToString now)] r1;
                r3 = addWaiting rd p queue priority sq i r2;
                r4 = countsAdd rd p queue ''delayed'' (- 1) r3
            in (okQueue queue, countsAdd rd p queue ''waiting'' 1 r4)))"

section \<open>list\<close>

text \<open>One buffered iterator per source: the members read and not yet consumed are \<open>li_buf\<close>.\<close>

record list_iter =
  li_key :: string
  li_offset :: nat
  li_buf :: "(string \<times> score) list"
  li_exhausted :: bool

record list_query =
  lq_desc :: bool
  lq_cursor :: "(int \<times> string) option"
  lq_filters :: json
  lq_limit :: nat

definition refill :: "'r redis \<Rightarrow> list_query \<Rightarrow> 'r \<Rightarrow> list_iter \<Rightarrow> list_iter" where
  "refill rd q r it =
     (if li_buf it \<noteq> [] \<or> li_exhausted it then it
      else
        (let win = Some (li_offset it, 100);
             buf = (if lq_desc q then
                      rc_zrevrangebyscore rd (li_key it)
                        (case lq_cursor q of None \<Rightarrow> Incl PosInf | Some (c, _) \<Rightarrow> Incl (Fin c)) NegInf win r
                    else
                      rc_zrangebyscore rd (li_key it)
                        (case lq_cursor q of None \<Rightarrow> NegInf | Some (c, _) \<Rightarrow> Incl (Fin c)) (Incl PosInf) win r)
         in it\<lparr>li_buf := buf, li_exhausted := (buf = [])\<rparr>))"

definition listHead :: "list_iter \<Rightarrow> (string \<times> int) option" where
  "listHead it = (case li_buf it of [] \<Rightarrow> None | (m, s) # _ \<Rightarrow> Some (m, scoreInt s))"

definition headWins :: "bool \<Rightarrow> string \<times> int \<Rightarrow> string \<times> int \<Rightarrow> bool" where
  "headWins desc a b =
     (case (a, b) of ((i, at1), (j, at2)) \<Rightarrow>
        if at1 \<noteq> at2 then (if desc then at2 < at1 else at1 < at2) else (if desc then j < i else i < j))"

fun bestHead :: "bool \<Rightarrow> nat \<Rightarrow> list_iter list \<Rightarrow> (nat \<times> string \<times> int) option \<Rightarrow> (nat \<times> string \<times> int) option" where
  "bestHead desc n [] best = best"
| "bestHead desc n (it # its) best =
     (case listHead it of
        None \<Rightarrow> bestHead desc (n + 1) its best
      | Some h \<Rightarrow>
          (case best of
             None \<Rightarrow> bestHead desc (n + 1) its (Some (n, h))
           | Some (k, b) \<Rightarrow>
               if headWins desc h b then bestHead desc (n + 1) its (Some (n, h))
               else bestHead desc (n + 1) its best))"

definition pastCursor :: "list_query \<Rightarrow> string \<Rightarrow> int \<Rightarrow> bool" where
  "pastCursor q i t =
     (case lq_cursor q of
        None \<Rightarrow> True
      | Some (c, ci) \<Rightarrow>
          if lq_desc q then t < c \<or> (t = c \<and> i < ci) else t > c \<or> (t = c \<and> i > ci))"

definition metadataMatch :: "json \<Rightarrow> string option \<Rightarrow> bool" where
  "metadataMatch filt metaJson =
     (case Option.bind metaJson parseJson of
        None \<Rightarrow> False
      | Some meta \<Rightarrow>
          (case filt of
             JObj kvs \<Rightarrow> list_all (\<lambda>(k, v). jget k meta = Some v) kvs
           | _ \<Rightarrow> True))"

definition rowMatches :: "'r redis \<Rightarrow> string \<Rightarrow> json \<Rightarrow> job_id \<Rightarrow> 'r \<Rightarrow> bool" where
  "rowMatches rd p filters i r \<longleftrightarrow>
     (let jk = jobKey p i;
          same = (\<lambda>f. case jget f filters of None \<Rightarrow> True | Some v \<Rightarrow> map_option JStr (rc_hget rd jk f r) = Some v)
      in same ''queue'' \<and> same ''name''
         \<and> (case jget ''states'' filters of
              None \<Rightarrow> True
            | Some sts \<Rightarrow> (case rc_hget rd jk ''state'' r of None \<Rightarrow> False | Some st \<Rightarrow> st \<in> set (stringsOf sts)))
         \<and> (case jget ''metadata'' filters of
              None \<Rightarrow> True
            | Some filt \<Rightarrow> metadataMatch filt (rc_hget rd jk ''metadata'' r)))"

definition consume :: "nat \<Rightarrow> list_iter list \<Rightarrow> list_iter list" where
  "consume k its = its[k := (its ! k)\<lparr>li_buf := tl (li_buf (its ! k)), li_offset := li_offset (its ! k) + 1\<rparr>]"

definition unconsume :: "nat \<Rightarrow> list_iter list \<Rightarrow> list_iter list" where
  "unconsume k its = its[k := (its ! k)\<lparr>li_offset := li_offset (its ! k) - 1\<rparr>]"

partial_function (option) listLoop ::
  "'r redis \<Rightarrow> string \<Rightarrow> list_query \<Rightarrow> list_iter list \<Rightarrow> (string \<times> string) list list \<Rightarrow> 'r
    \<Rightarrow> ((string \<times> string) list list \<times> bool \<times> 'r) option" where
  "listLoop rd p q its items r =
     (let its1 = map (refill rd q r) its
      in case bestHead (lq_desc q) 0 its1 None of
           None \<Rightarrow> Some (items, False, r)
         | Some (k, i, t) \<Rightarrow>
             (let its2 = consume k its1
              in if \<not> pastCursor q i t then listLoop rd p q its2 items r
                 else if \<not> rc_exists rd (jobKey p i) r then
                   listLoop rd p q (unconsume k its2) items (zrem rd (li_key (its2 ! k)) i r)
                 else if \<not> rowMatches rd p (lq_filters q) i r then listLoop rd p q its2 items r
                 else if length items \<ge> lq_limit q then Some (items, True, r)
                 else listLoop rd p q its2 (items @ [rc_hgetall rd (jobKey p i) r]) r))"

definition listCursor :: "string \<Rightarrow> (int \<times> string) option" where
  "listCursor cursor =
     (if CHR '':'' \<notin> set cursor then None
      else map_option (\<lambda>c. (c, tl (dropWhile (\<lambda>c. c \<noteq> CHR '':'') cursor)))
             (luaNumber (takeWhile (\<lambda>c. c \<noteq> CHR '':'') cursor)))"

definition luaList ::
  "'r redis \<Rightarrow> string \<Rightarrow> string \<Rightarrow> string \<Rightarrow> string \<Rightarrow> string \<Rightarrow> nat \<Rightarrow> 'r \<Rightarrow> (string \<times> 'r) option" where
  "luaList rd p sourcesJson order filtersJson cursor n r =
     (case (parseJson sourcesJson, parseJson filtersJson) of
        (Some sources, Some filters) \<Rightarrow>
          (let q = \<lparr>lq_desc = (order = ''desc''), lq_cursor = listCursor cursor, lq_filters = filters, lq_limit = n\<rparr>;
               its = map (\<lambda>key. \<lparr>li_key = key, li_offset = 0, li_buf = [], li_exhausted = False\<rparr>) (stringsOf sources)
           in map_option (\<lambda>(items, more, r1).
                (reply [(''items'', if items = [] then JArr [] else JArr (map flatPairs items)), (''more'', JBool more)], r1))
                (listLoop rd p q its [] r))
      | _ \<Rightarrow> Some (reply [(''items'', JArr []), (''more'', JBool False)], r))"

section \<open>Index maintenance\<close>

definition luaIndexMembers :: "'r redis \<Rightarrow> string \<Rightarrow> index_kind \<Rightarrow> string \<Rightarrow> 'r \<Rightarrow> 'r" where
  "luaIndexMembers rd p kind idsJson r =
     fold (indexInto rd p kind) (case parseJson idsJson of None \<Rightarrow> [] | Some j \<Rightarrow> stringsOf j) r"

definition luaIndexTailPage :: "'r redis \<Rightarrow> string \<Rightarrow> index_kind \<Rightarrow> int \<Rightarrow> nat \<Rightarrow> nat \<Rightarrow> 'r \<Rightarrow> string \<times> 'r" where
  "luaIndexTailPage rd p kind from offset pageSize r =
     (let batch = members (rc_zrangebyscore rd (plainKey p ''all'') (Incl (Fin from)) (Incl PosInf)
                    (Some (offset, pageSize)) r)
      in (intToString (int (length batch)), fold (indexInto rd p kind) batch r))"

section \<open>sweepState\<close>

definition sweepCutoff :: "string \<Rightarrow> int option \<Rightarrow> string option \<Rightarrow> int option" where
  "sweepCutoff st ttl keepJson =
     (if isBlank keepJson then ttl
      else
        case parseJson (the keepJson) of
          None \<Rightarrow> ttl
        | Some keep \<Rightarrow>
            if \<not> isTable keep then ttl
            else
              (let own = (case jget st keep of Some k \<Rightarrow> (if isTable k then Some k else None) | None \<Rightarrow> None);
                   policy =
                     (if own = None \<and> jget ''completed'' keep = None \<and> jget ''failed'' keep = None
                         \<and> jget ''cancelled'' keep = None
                         \<and> (jget ''count'' keep \<noteq> None \<or> jget ''ageMs'' keep \<noteq> None)
                      then Some keep else own)
               in case Option.bind (Option.bind policy (jget ''ageMs'')) jnum of
                    None \<Rightarrow> ttl
                  | Some age \<Rightarrow>
                      (case ttl of None \<Rightarrow> Some age | Some t \<Rightarrow> if age < t then Some age else Some t)))"

definition sweepEntry ::
  "'r redis \<Rightarrow> string \<Rightarrow> string \<Rightarrow> int option \<Rightarrow> millis \<Rightarrow> string \<times> score \<Rightarrow> nat \<times> 'r \<Rightarrow> nat \<times> 'r" where
  "sweepEntry rd p st ttl now entry acc =
     (case (entry, acc) of ((i, s), (deleted, r)) \<Rightarrow>
        if \<not> rc_exists rd (jobKey p i) r then (deleted + 1, zrem rd (finishedKey p st) i r)
        else
          (case sweepCutoff st ttl (rc_hget rd (jobKey p i) ''keep'' r) of
             None \<Rightarrow> (deleted, r)
           | Some age \<Rightarrow>
               if scoreInt s \<le> now - age \<and> \<not> luaOwesCascades rd p i r
               then (deleted + 1, luaDeleteJob rd p i r)
               else (deleted, r)))"

definition luaSweepState ::
  "'r redis \<Rightarrow> string \<Rightarrow> string \<Rightarrow> string \<Rightarrow> nat \<Rightarrow> nat \<Rightarrow> millis \<Rightarrow> 'r \<Rightarrow> string \<times> 'r" where
  "luaSweepState rd p st ttlMs n offset now r =
     (let ttl = luaNumber ttlMs;
          batch = rc_zrangebyscore rd (finishedKey p st) NegInf (Incl (Fin now)) (Some (offset, n)) r;
          (deleted, r1) = fold (sweepEntry rd p st ttl now) batch (0, r)
      in (reply [(''scanned'', JNum (int (length batch))), (''deleted'', JNum (int deleted))], r1))"

section \<open>sweepDedupes\<close>

definition migrateLegacy :: "'r redis \<Rightarrow> string \<Rightarrow> string \<times> score \<Rightarrow> 'r \<Rightarrow> 'r" where
  "migrateLegacy rd p entry r =
     (case entry of (i, s) \<Rightarrow>
        (let st = rc_hget rd (jobKey p i) ''state'' r;
             r1 = (if endedState st then rc_zadd rd (finishedKey p (the st)) s i r else r)
         in zrem rd (plainKey p ''finished'') i r1))"

definition dedupeTextKey :: "string \<Rightarrow> string \<Rightarrow> string" where
  "dedupeTextKey p member = p @ '':dedupe:'' @ member"

definition dropDedupe :: "'r redis \<Rightarrow> string \<Rightarrow> string \<Rightarrow> 'r \<Rightarrow> 'r" where
  "dropDedupe rd p member r = zrem rd (plainKey p ''dedupes'') member (rc_del rd (dedupeTextKey p member) r)"

definition deadPointer :: "'r redis \<Rightarrow> string \<Rightarrow> string \<Rightarrow> 'r \<Rightarrow> bool" where
  "deadPointer rd p member r \<longleftrightarrow>
     (case rc_hget rd (dedupeTextKey p member) ''jobId'' r of
        None \<Rightarrow> True
      | Some jobId \<Rightarrow>
          (let st = rc_hget rd (jobKey p jobId) ''state'' r in st = None \<or> endedState st))"

definition sweepPending :: "'r redis \<Rightarrow> string \<Rightarrow> string \<Rightarrow> nat \<times> 'r \<Rightarrow> nat \<times> 'r" where
  "sweepPending rd p member acc =
     (case acc of (removed, r) \<Rightarrow>
        if deadPointer rd p member r then (removed + 1, dropDedupe rd p member r) else (removed, r))"

definition luaSweepDedupes :: "'r redis \<Rightarrow> string \<Rightarrow> nat \<Rightarrow> millis \<Rightarrow> 'r \<Rightarrow> string \<times> 'r" where
  "luaSweepDedupes rd p n now r =
     (let legacy = rc_zrange rd (plainKey p ''finished'') 0 (int n - 1) r;
          r1 = fold (migrateLegacy rd p) legacy r;
          expired = members (rc_zrangebyscore rd (plainKey p ''dedupes'') NegInf (Incl (Fin now)) (Some (0, n)) r1);
          r2 = fold (dropDedupe rd p) expired r1;
          pendings = members (rc_zrangebyscore rd (plainKey p ''dedupes'') (Incl PosInf) (Incl PosInf) (Some (0, n)) r2);
          (removed, r3) = fold (sweepPending rd p) pendings (0, r2)
      in (intToString (int (length legacy + length expired + removed)), r3))"

end
