(* ===== verification/RedisFlow.thy ===== *)
theory RedisFlow
  imports RedisAdmin
begin

text \<open>
  The flow scripts of \<open>redis/scripts.ts\<close>: \<open>fanOut\<close>, \<open>recordChildResults\<close>, \<open>listChildResults\<close>,
  \<open>flowSweepWork\<close> and \<open>markChildrenCascaded\<close>.
\<close>

section \<open>fanOut\<close>

record fan_item =
  fi_childKey :: string
  fi_storeKey :: string
  fi_childJobId :: string
  fi_name :: string
  fi_spec :: string

record fan_args =
  fa_id :: job_id
  fa_token :: string
  fa_final :: bool
  fa_clearStaged :: bool
  fa_failFast :: string
  fa_total :: int

definition clearStagedRows :: "'r redis \<Rightarrow> string \<Rightarrow> job_id \<Rightarrow> 'r \<Rightarrow> 'r" where
  "clearStagedRows rd p i r =
     rc_del rd (flowIndexKey p i) (fold (dropRow rd p i) (flowKeys rd p i r) r)"

definition stageRow :: "'r redis \<Rightarrow> string \<Rightarrow> job_id \<Rightarrow> millis \<Rightarrow> fan_item \<Rightarrow> 'r \<Rightarrow> 'r" where
  "stageRow rd p i now item r =
     (let childKey = fi_childKey item;
          rk = flowChildKey p i childKey;
          r1 = rc_del rd rk r;
          r2 = rc_hset rd rk
                 [(''childKey'', childKey), (''storeKey'', fi_storeKey item), (''childJobId'', fi_childJobId item),
                  (''name'', fi_name item), (''spec'', fi_spec item), (''status'', ''pending''), (''exit'', ''''),
                  (''failedReason'', ''''), (''cascaded'', ''0''), (''pendingSince'', intToString now)] r1;
          r3 = rc_zadd rd (flowIndexKey p i) (Fin 0) childKey r2
      in rc_zadd rd (plainKey p ''flowpending'') (Fin now) (flowMember i childKey) r3)"

definition hasManifest :: "'r redis \<Rightarrow> string \<Rightarrow> job_id \<Rightarrow> 'r \<Rightarrow> bool" where
  "hasManifest rd p i r \<longleftrightarrow> \<not> isBlank (rc_hget rd (jobKey p i) ''flowPending'' r)"

definition landFanOut :: "'r redis \<Rightarrow> string \<Rightarrow> fan_args \<Rightarrow> millis \<Rightarrow> bool \<Rightarrow> string option \<Rightarrow> 'r \<Rightarrow> string \<times> 'r" where
  "landFanOut rd p args now manifest pendingStr r =
     (let i = fa_id args; jk = jobKey p i; nowStr = intToString now;
          queue = orElse (rc_hget rd jk ''queue'' r) [];
          name = orElse (rc_hget rd jk ''name'' r) [];
          startedAt = rc_hget rd jk ''processedAt'' r;
          r1 = appendAttempt rd p i ''fanned-out'' startedAt nowStr '''' r;
          r2 = zrem rd (plainKey p ''active'') i r1;
          pending = (if manifest then luaNumberOr0 pendingStr else fa_total args);
          r3 = (if manifest then r2
                else rc_hset rd jk
                       [(''flowFailFast'', fa_failFast args), (''flowPending'', intToString (fa_total args)),
                        (''flowCompleted'', ''0''), (''flowFailed'', ''0''), (''flowCancelled'', ''0'')] r2)
      in if rc_hget rd jk ''cancelRequested'' r3 = Some ''1'' then
           (okReply, luaFinishCancelled rd p i queue name startedAt now (luaSettleMarkRows rd p i r3))
         else if pending > 0 then
           (let r4 = rc_hset rd jk [(''state'', ''waiting-children''), (''lockToken'', ''''),
                       (''lockExpiresAt'', '''')] r3;
                r5 = countsAdd rd p queue ''active'' (- 1) r4
            in (okReply, countsAdd rd p queue ''waiting-children'' 1 r5))
         else
           (let (sq, r4) = rc_incr rd (plainKey p ''seq'') r3;
                r5 = rc_hset rd jk [(''state'', ''waiting''), (''runAt'', nowStr), (''seq'', intToString sq),
                       (''lockToken'', ''''), (''lockExpiresAt'', '''')] r4;
                priority = luaNumberOr0 (rc_hget rd jk ''priority'' r5);
                r6 = addWaiting rd p queue priority sq i r5;
                r7 = countsAdd rd p queue ''active'' (- 1) r6
            in (okWake queue, countsAdd rd p queue ''waiting'' 1 r7)))"

definition luaFanOut :: "'r redis \<Rightarrow> string \<Rightarrow> fan_args \<Rightarrow> millis \<Rightarrow> fan_item list \<Rightarrow> 'r \<Rightarrow> string \<times> 'r" where
  "luaFanOut rd p args now items r =
     (let i = fa_id args; jk = jobKey p i
      in if \<not> rc_exists rd jk r then (errorReply ''notfound'', r)
         else if \<not> lockHeld rd p i (fa_token args) r then (errorReply ''locklost'', r)
         else
           (let pendingStr = rc_hget rd jk ''flowPending'' r;
                manifest = hasManifest rd p i r;
                r1 = (if manifest then r
                      else fold (stageRow rd p i now) items
                             (if fa_clearStaged args then clearStagedRows rd p i r else r))
            in if \<not> fa_final args then (okReply, r1)
               else landFanOut rd p args now manifest pendingStr r1))"

section \<open>recordChildResults\<close>

record report_item =
  ri_flowId :: job_id
  ri_childKey :: string
  ri_outcome :: string
  ri_exit :: string
  ri_failedReason :: string

record lua_touch =
  lt_last :: nat
  lt_firstFailed :: "nat option"
  lt_failedKey :: string

definition countReportField :: "'r redis \<Rightarrow> string \<Rightarrow> report_item \<Rightarrow> 'r \<Rightarrow> 'r" where
  "countReportField rd p report r =
     (let jk = jobKey p (ri_flowId report);
          pendingStr = rc_hget rd jk ''flowPending'' r
      in if isBlank pendingStr then r
         else
           (let r1 = rc_hset rd jk [(''flowPending'', intToString (max 0 (luaNumberOr0 pendingStr - 1)))] r;
                bucket = (if ri_outcome report = ''completed'' then ''flowCompleted''
                          else if ri_outcome report = ''failed'' then ''flowFailed'' else ''flowCancelled'')
            in rc_hincrby rd jk bucket 1 r1))"

definition touchReport :: "nat \<Rightarrow> report_item \<Rightarrow> (job_id, lua_touch) jsmap \<Rightarrow> (job_id, lua_touch) jsmap" where
  "touchReport index report touched =
     (let t = orElse (mapGet touched (ri_flowId report))
                \<lparr>lt_last = index, lt_firstFailed = None, lt_failedKey = []\<rparr>;
          t1 = t\<lparr>lt_last := index\<rparr>;
          t2 = (if ri_outcome report = ''failed'' \<and> lt_firstFailed t1 = None
                then t1\<lparr>lt_firstFailed := Some index, lt_failedKey := ri_childKey report\<rparr> else t1)
      in mapSet (ri_flowId report) t2 touched)"

type_synonym 'r report_state = "nat list \<times> (job_id, lua_touch) jsmap \<times> 'r"

text \<open>The first component lists the indices of the reports that were applied.\<close>

definition applyItem :: "'r redis \<Rightarrow> string \<Rightarrow> nat \<times> report_item \<Rightarrow> 'r report_state \<Rightarrow> 'r report_state" where
  "applyItem rd p entry acc =
     (case (entry, acc) of ((index, report), (applied, touched, r)) \<Rightarrow>
        (let rk = flowChildKey p (ri_flowId report) (ri_childKey report)
         in if rc_hget rd rk ''status'' r \<noteq> Some ''pending'' then acc
            else
              (let r1 = rc_hset rd rk
                          [(''status'', ri_outcome report), (''exit'', ri_exit report),
                           (''failedReason'', ri_failedReason report), (''cascaded'', ''1'')] r;
                   r2 = zrem rd (plainKey p ''flowpending'')
                          (flowMember (ri_flowId report) (ri_childKey report)) r1
               in (applied @ [index], touchReport index report touched, countReportField rd p report r2))))"

definition luaFailParent :: "'r redis \<Rightarrow> string \<Rightarrow> job_id \<Rightarrow> string \<Rightarrow> millis \<Rightarrow> 'r \<Rightarrow> 'r" where
  "luaFailParent rd p flowId failedKey now r =
     (let jk = jobKey p flowId; nowStr = intToString now;
          queue = orElse (rc_hget rd jk ''queue'' r) [];
          name = orElse (rc_hget rd jk ''name'' r) [];
          startedAt = rc_hget rd jk ''processedAt'' r;
          r1 = luaSettleMarkRows rd p flowId r;
          r2 = rc_hset rd jk
                 [(''state'', ''failed''), (''finishedAt'', nowStr), (''cancelRequested'', ''0''),
                  (''failedReason'', ''effect-mq: flow child '' @ [CHR 0x22] @ failedKey @ [CHR 0x22] @ '' failed'')] r1;
          r3 = countsAdd rd p queue ''waiting-children'' (- 1) r2;
          r4 = countsAdd rd p queue ''failed'' 1 r3;
          r5 = rc_zadd rd (finishedKey p ''failed'') (Fin now) flowId r4;
          r6 = rc_zadd rd (terminalKey p name ''failed'') (Fin now) flowId r5;
          r7 = appendAttempt rd p flowId ''failed'' startedAt nowStr '''' r6;
          r8 = luaAppendOutbox rd p flowId ''failed'' r7;
          r9 = luaReleaseDedupe rd p name (rc_hget rd jk ''dedupeKey'' r8) flowId now r8
      in luaApplyKeep rd p name ''failed'' (rc_hget rd jk ''keep'' r9) now r9)"

definition luaResumeParent :: "'r redis \<Rightarrow> string \<Rightarrow> job_id \<Rightarrow> queue_name \<Rightarrow> millis \<Rightarrow> 'r \<Rightarrow> 'r" where
  "luaResumeParent rd p flowId queue now r =
     (let jk = jobKey p flowId;
          (sq, r1) = rc_incr rd (plainKey p ''seq'') r;
          r2 = rc_hset rd jk [(''state'', ''waiting''), (''runAt'', intToString now), (''seq'', intToString sq)] r1;
          r3 = addWaiting rd p queue (luaNumberOr0 (rc_hget rd jk ''priority'' r2)) sq flowId r2;
          r4 = countsAdd rd p queue ''waiting-children'' (- 1) r3
      in countsAdd rd p queue ''waiting'' 1 r4)"

definition settleFlow ::
  "'r redis \<Rightarrow> string \<Rightarrow> millis \<Rightarrow> job_id \<times> lua_touch \<Rightarrow> nat list \<times> queue_name list \<times> 'r
    \<Rightarrow> nat list \<times> queue_name list \<times> 'r" where
  "settleFlow rd p now entry acc =
     (case (entry, acc) of ((flowId, touch), (settled, wakes, r)) \<Rightarrow>
        (let jk = jobKey p flowId;
             pendingStr = rc_hget rd jk ''flowPending'' r
         in if isBlank pendingStr \<or> rc_hget rd jk ''state'' r \<noteq> Some ''waiting-children'' then acc
            else
              (let queue = orElse (rc_hget rd jk ''queue'' r) []
               in case (if rc_hget rd jk ''flowFailFast'' r = Some ''1'' then lt_firstFailed touch else None) of
                    Some failedIndex \<Rightarrow>
                      (settled @ [failedIndex], wakes, luaFailParent rd p flowId (lt_failedKey touch) now r)
                  | None \<Rightarrow>
                      if luaNumberOr0 pendingStr = 0 then
                        (settled @ [lt_last touch], wakes @ [queue], luaResumeParent rd p flowId queue now r)
                      else acc)))"

definition luaRecordChildResults ::
  "'r redis \<Rightarrow> string \<Rightarrow> millis \<Rightarrow> report_item list \<Rightarrow> 'r \<Rightarrow> string \<times> 'r" where
  "luaRecordChildResults rd p now reports r =
     (case fold (applyItem rd p) (enumerate 0 reports) ([], [], r) of (applied, touched, r1) \<Rightarrow>
        (case fold (settleFlow rd p now) touched ([], [], r1) of (settled, wakes, r2) \<Rightarrow>
           (let results = map (\<lambda>k. JObj [(''applied'', JBool (k \<in> set applied)),
                                         (''parentSettled'', JBool (k \<in> set settled))]) [0..<length reports]
            in (reply [(''results'', JArr results), (''wakes'', JArr (map JStr wakes))], r2))))"

section \<open>listChildResults\<close>

definition childTuple :: "'r redis \<Rightarrow> string \<Rightarrow> job_id \<Rightarrow> 'r \<Rightarrow> string \<Rightarrow> json" where
  "childTuple rd p flowId r key =
     JArr (map (\<lambda>f. fieldJson (rc_hget rd (flowChildKey p flowId key) f r))
       [''childKey'', ''storeKey'', ''childJobId'', ''name'', ''status'', ''exit'', ''failedReason'', ''cascaded''])"

definition luaListChildResults :: "'r redis \<Rightarrow> string \<Rightarrow> job_id \<Rightarrow> string \<Rightarrow> nat \<Rightarrow> 'r \<Rightarrow> string" where
  "luaListChildResults rd p flowId cursor n r =
     (let keys = rc_zrangebylex rd (flowIndexKey p flowId) (if cursor = [] then None else Some cursor) (n + 1) r;
          items = map (childTuple rd p flowId r) (take n keys)
      in if items = [] then reply [(''items'', JArr []), (''more'', JBool False)]
         else reply [(''items'', JArr items), (''more'', JBool (length keys > n))])"

section \<open>flowSweepWork\<close>

definition memberParts :: "string \<Rightarrow> job_id \<times> string" where
  "memberParts member =
     (takeWhile (\<lambda>c. c \<noteq> CHR 0x00) member, tl (dropWhile (\<lambda>c. c \<noteq> CHR 0x00) member))"

type_synonym work_groups = "(job_id, json list) jsmap"

definition addChild :: "job_id \<Rightarrow> json \<Rightarrow> work_groups \<Rightarrow> work_groups" where
  "addChild flowId child groups = mapSet flowId (orElse (mapGet groups flowId) [] @ [child]) groups"

definition groupsJson :: "work_groups \<Rightarrow> json" where
  "groupsJson groups =
     luaArray (map (\<lambda>(flowId, children). JObj [(''flowId'', JStr flowId), (''children'', JArr children)]) groups)"

definition reconcileMember :: "'r redis \<Rightarrow> string \<Rightarrow> millis \<Rightarrow> string \<Rightarrow> work_groups \<times> 'r \<Rightarrow> work_groups \<times> 'r" where
  "reconcileMember rd p now member acc =
     (case (memberParts member, acc) of ((flowId, childKey), (groups, r)) \<Rightarrow>
        (let jk = jobKey p flowId;
             st = rc_hget rd jk ''state'' r;
             rk = flowChildKey p flowId childKey
         in if st = None \<or> (endedState st \<and> \<not> hasManifest rd p flowId r) then
              (groups, zrem rd (plainKey p ''flowpending'') member
                         (zrem rd (flowIndexKey p flowId) childKey (rc_del rd rk r)))
            else if st \<noteq> Some ''waiting-children'' then
              (groups, rc_zadd rd (plainKey p ''flowpending'') (Fin now) member r)
            else if rc_hget rd rk ''status'' r \<noteq> Some ''pending'' then
              (groups, zrem rd (plainKey p ''flowpending'') member r)
            else
              (addChild flowId
                 (JObj [(''childKey'', JStr childKey), (''storeKey'', fieldJson (rc_hget rd rk ''storeKey'' r)),
                        (''spec'', fieldJson (rc_hget rd rk ''spec'' r))]) groups,
               rc_zadd rd (plainKey p ''flowpending'') (Fin now) member r)))"

definition cascadeMember :: "'r redis \<Rightarrow> string \<Rightarrow> 'r \<Rightarrow> string \<Rightarrow> work_groups \<Rightarrow> work_groups" where
  "cascadeMember rd p r member groups =
     (case memberParts member of (flowId, childKey) \<Rightarrow>
        (let rk = flowChildKey p flowId childKey
         in if \<not> rc_exists rd rk r then groups
            else addChild flowId
                   (JObj [(''childKey'', JStr childKey), (''storeKey'', fieldJson (rc_hget rd rk ''storeKey'' r)),
                          (''childJobId'', fieldJson (rc_hget rd rk ''childJobId'' r))]) groups))"

definition luaFlowSweepWork :: "'r redis \<Rightarrow> string \<Rightarrow> int \<Rightarrow> nat \<Rightarrow> millis \<Rightarrow> 'r \<Rightarrow> string \<times> 'r" where
  "luaFlowSweepWork rd p pendingAgeMs n now r =
     (let due = members (rc_zrangebyscore rd (plainKey p ''flowpending'') NegInf
                  (Incl (Fin (now - pendingAgeMs))) (Some (0, n)) r);
          (reconcile, r1) = fold (reconcileMember rd p now) due ([], r);
          owed = members (rc_zrange rd (plainKey p ''flowcascade'') 0 (int n - 1) r1);
          cascade = fold (cascadeMember rd p r1) owed []
      in (reply [(''reconcile'', groupsJson reconcile), (''cascade'', groupsJson cascade)], r1))"

section \<open>markChildrenCascaded\<close>

definition markCascaded :: "'r redis \<Rightarrow> string \<Rightarrow> job_id \<Rightarrow> string \<Rightarrow> 'r \<Rightarrow> 'r" where
  "markCascaded rd p flowId key r =
     (let rk = flowChildKey p flowId key;
          r1 = (if rc_exists rd rk r then rc_hset rd rk [(''cascaded'', ''1'')] r else r)
      in zrem rd (plainKey p ''flowcascade'') (flowMember flowId key) r1)"

definition luaMarkChildrenCascaded :: "'r redis \<Rightarrow> string \<Rightarrow> job_id \<Rightarrow> string \<Rightarrow> 'r \<Rightarrow> 'r" where
  "luaMarkChildrenCascaded rd p flowId keysJson r =
     fold (markCascaded rd p flowId) (case parseJson keysJson of None \<Rightarrow> [] | Some j \<Rightarrow> stringsOf j) r"

end
