(* ===== verification/RedisCodec.thy ===== *)
theory RedisCodec
  imports RedisFlow
begin

text \<open>
  How \<open>redis/RedisJobStore.ts\<close> turns records into texts and back: the JSON of the satellites of a job
  (backoff, retention, trace and parent data, requests of flow children), \<open>foldPairs\<close> and the
  decoders \<open>toRecord\<close>, \<open>toSchedule\<close>, \<open>toOutboxEntry\<close> and \<open>toChildRecord\<close>. An absent optional
  value is the empty text in a hash field and a missing member in an object. \<open>JSON.parse\<close> of a text
  that is not JSON raises in the code; the readers below give a default there, and the theorems about
  them are about texts the driver wrote.
\<close>

section \<open>Optional texts\<close>

definition optionalString :: "string option \<Rightarrow> string option" where
  "optionalString t = (if isBlank t then None else t)"

definition numberOr :: "int \<Rightarrow> string option \<Rightarrow> int" where
  "numberOr d t = (case t of None \<Rightarrow> d | Some s \<Rightarrow> orElse (jsNumber s) d)"

definition optionalNumber :: "string option \<Rightarrow> int option" where
  "optionalNumber t = (if isBlank t then None else jsNumber (the t))"

definition optionalJson :: "string option \<Rightarrow> json option" where
  "optionalJson t = (if isBlank t then None else parseJson (the t))"

definition showOpt :: "('a \<Rightarrow> json) \<Rightarrow> 'a option \<Rightarrow> string" where
  "showOpt f x = (case x of None \<Rightarrow> [] | Some v \<Rightarrow> jsonText (f v))"

definition showNum :: "int option \<Rightarrow> string" where
  "showNum x = (case x of None \<Rightarrow> [] | Some v \<Rightarrow> intToString v)"

section \<open>Objects\<close>

definition member :: "string \<Rightarrow> ('a \<Rightarrow> json) \<Rightarrow> 'a option \<Rightarrow> (string \<times> json) list" where
  "member k f x = (case x of None \<Rightarrow> [] | Some v \<Rightarrow> [(k, f v)])"

definition jsonInt :: "json option \<Rightarrow> int option" where
  "jsonInt j = (case j of Some (JNum i) \<Rightarrow> Some i | _ \<Rightarrow> None)"

definition jsonStr :: "json option \<Rightarrow> string option" where
  "jsonStr j = (case j of Some (JStr s) \<Rightarrow> Some s | _ \<Rightarrow> None)"

definition jsonBool :: "json option \<Rightarrow> bool" where
  "jsonBool j \<longleftrightarrow> j = Some (JBool True)"

definition metadataJson :: "metadata \<Rightarrow> json" where
  "metadataJson m = JObj (map (\<lambda>(k, v). (k, JStr v)) m)"

definition metadataOfJson :: "json \<Rightarrow> metadata" where
  "metadataOfJson j = (case j of JObj kvs \<Rightarrow> map (\<lambda>(k, v). (k, orElse (jsonStr (Some v)) [])) kvs | _ \<Rightarrow> [])"

definition backoffJson :: "backoff_policy \<Rightarrow> json" where
  "backoffJson b = JObj
     ([(''_tag'', JStr (case bo_tag b of Fixed \<Rightarrow> ''Fixed'' | Exponential \<Rightarrow> ''Exponential'')),
       (''delayMs'', JNum (bo_delayMs b))] @ member ''factor'' (\<lambda>f. JNum \<lfloor>f\<rfloor>) (bo_factor b))"

definition backoffOf :: "json \<Rightarrow> backoff_policy" where
  "backoffOf j = \<lparr>
     bo_tag = (if jsonStr (jget ''_tag'' j) = Some ''Fixed'' then Fixed else Exponential),
     bo_delayMs = orElse (jsonInt (jget ''delayMs'' j)) 0,
     bo_factor = map_option rat_of_int (jsonInt (jget ''factor'' j)) \<rparr>"

definition keepStateJson :: "keep_state_policy \<Rightarrow> json" where
  "keepStateJson k = JObj (member ''count'' JNum (kp_count k) @ member ''ageMs'' JNum (kp_ageMs k))"

definition keepStateOf :: "json \<Rightarrow> keep_state_policy" where
  "keepStateOf j = \<lparr>kp_count = jsonInt (jget ''count'' j), kp_ageMs = jsonInt (jget ''ageMs'' j)\<rparr>"

definition keepJson :: "keep_policy \<Rightarrow> json" where
  "keepJson k = JObj
     (member ''completed'' keepStateJson (kp_completed k) @ member ''failed'' keepStateJson (kp_failed k)
      @ member ''cancelled'' keepStateJson (kp_cancelled k)
      @ (case kp_flat k of
           None \<Rightarrow> []
         | Some f \<Rightarrow> member ''count'' JNum (kp_count f) @ member ''ageMs'' JNum (kp_ageMs f)))"

definition keepOf :: "json \<Rightarrow> keep_policy" where
  "keepOf j = \<lparr>
     kp_completed = map_option keepStateOf (jget ''completed'' j),
     kp_failed = map_option keepStateOf (jget ''failed'' j),
     kp_cancelled = map_option keepStateOf (jget ''cancelled'' j),
     kp_flat = (if jget ''count'' j \<noteq> None \<or> jget ''ageMs'' j \<noteq> None then Some (keepStateOf j) else None) \<rparr>"

definition traceJson :: "trace_context \<Rightarrow> json" where
  "traceJson t = JObj [(''traceId'', JStr (tr_traceId t)), (''spanId'', JStr (tr_spanId t)),
     (''sampled'', JBool (tr_sampled t)), (''delayed'', JBool (tr_delayed t))]"

definition traceOfJson :: "json \<Rightarrow> trace_context" where
  "traceOfJson j = \<lparr>
     tr_traceId = orElse (jsonStr (jget ''traceId'' j)) [], tr_spanId = orElse (jsonStr (jget ''spanId'' j)) [],
     tr_sampled = jsonBool (jget ''sampled'' j), tr_delayed = jsonBool (jget ''delayed'' j) \<rparr>"

definition parentJson :: "parent_envelope \<Rightarrow> json" where
  "parentJson e = JObj [(''flowName'', JStr (pe_flowName e)), (''flowId'', JStr (pe_flowId e)),
     (''childKey'', JStr (pe_childKey e)), (''parentStoreKey'', JStr (pe_parentStoreKey e)),
     (''depth'', JNum (int (pe_depth e)))]"

definition parentOf :: "json \<Rightarrow> parent_envelope" where
  "parentOf j = \<lparr>
     pe_flowName = orElse (jsonStr (jget ''flowName'' j)) [], pe_flowId = orElse (jsonStr (jget ''flowId'' j)) [],
     pe_childKey = orElse (jsonStr (jget ''childKey'' j)) [],
     pe_parentStoreKey = orElse (jsonStr (jget ''parentStoreKey'' j)) [],
     pe_depth = nat (orElse (jsonInt (jget ''depth'' j)) 0) \<rparr>"

definition dedupeJson :: "dedupe_policy \<Rightarrow> json" where
  "dedupeJson d = JObj ([(''key'', JStr (dp_key d))] @ member ''ttlMs'' JNum (dp_ttlMs d)
     @ [(''extend'', JBool (dp_extend d)), (''replace'', JBool (dp_replace d))])"

definition dedupeOf :: "json \<Rightarrow> dedupe_policy" where
  "dedupeOf j = \<lparr>
     dp_key = orElse (jsonStr (jget ''key'' j)) [], dp_ttlMs = jsonInt (jget ''ttlMs'' j),
     dp_extend = jsonBool (jget ''extend'' j), dp_replace = jsonBool (jget ''replace'' j) \<rparr>"

definition requestJson :: "enqueue_request \<Rightarrow> json" where
  "requestJson q = JObj
     (member ''id'' JStr (rq_id q)
      @ [(''name'', JStr (rq_name q)), (''queue'', JStr (rq_queue q)), (''payload'', rq_payload q),
         (''metadata'', metadataJson (rq_metadata q)), (''priority'', JNum (rq_priority q)),
         (''attemptsMax'', JNum (rq_attemptsMax q))]
      @ member ''backoff'' backoffJson (rq_backoff q) @ member ''keep'' keepJson (rq_keep q)
      @ member ''timeoutMs'' JNum (rq_timeoutMs q) @ member ''dedupe'' dedupeJson (rq_dedupe q)
      @ member ''trace'' traceJson (rq_trace q) @ member ''parent'' parentJson (rq_parent q)
      @ [(''delayMs'', JNum (rq_delayMs q))])"

definition requestOf :: "json \<Rightarrow> enqueue_request" where
  "requestOf j = \<lparr>
     rq_id = jsonStr (jget ''id'' j),
     rq_name = orElse (jsonStr (jget ''name'' j)) [],
     rq_queue = orElse (jsonStr (jget ''queue'' j)) [],
     rq_payload = orElse (jget ''payload'' j) JNull,
     rq_metadata = (case jget ''metadata'' j of None \<Rightarrow> [] | Some m \<Rightarrow> metadataOfJson m),
     rq_priority = orElse (jsonInt (jget ''priority'' j)) 0,
     rq_attemptsMax = orElse (jsonInt (jget ''attemptsMax'' j)) 0,
     rq_backoff = map_option backoffOf (jget ''backoff'' j),
     rq_keep = map_option keepOf (jget ''keep'' j),
     rq_timeoutMs = jsonInt (jget ''timeoutMs'' j),
     rq_dedupe = map_option dedupeOf (jget ''dedupe'' j),
     rq_trace = map_option traceOfJson (jget ''trace'' j),
     rq_parent = map_option parentOf (jget ''parent'' j),
     rq_delayMs = orElse (jsonInt (jget ''delayMs'' j)) 0 \<rparr>"

section \<open>Hashes\<close>

definition foldPairs :: "json \<Rightarrow> (string, string) jsmap" where
  "foldPairs flat =
     (let texts = stringsOf flat
      in fold (\<lambda>k m. mapSet (texts ! (2 * k)) (texts ! (2 * k + 1)) m) [0..<length texts div 2] [])"

definition stateText :: "job_state \<Rightarrow> string" where
  "stateText st =
     (case st of Waiting \<Rightarrow> ''waiting'' | Delayed \<Rightarrow> ''delayed'' | Active \<Rightarrow> ''active''
      | WaitingChildren \<Rightarrow> ''waiting-children'' | Completed \<Rightarrow> ''completed'' | Failed \<Rightarrow> ''failed''
      | Cancelled \<Rightarrow> ''cancelled'')"

definition JOB_STATES :: "job_state list" where
  "JOB_STATES = [Waiting, Delayed, Active, WaitingChildren, Completed, Failed, Cancelled]"

definition stateOf :: "string option \<Rightarrow> job_state" where
  "stateOf t = (case t of None \<Rightarrow> Waiting
     | Some s \<Rightarrow> (case find (\<lambda>st. stateText st = s) JOB_STATES of None \<Rightarrow> Waiting | Some st \<Rightarrow> st))"

definition toRecord :: "(string, string) jsmap \<Rightarrow> job_record" where
  "toRecord hash = (let get = mapGet hash in \<lparr>
     j_id = orElse (get ''id'') [],
     j_name = orElse (get ''name'') [],
     j_queue = orElse (get ''queue'') [],
     j_payload = orElse (optionalJson (get ''payload'')) JNull,
     j_metadata = (case optionalJson (get ''metadata'') of None \<Rightarrow> [] | Some m \<Rightarrow> metadataOfJson m),
     j_state = stateOf (get ''state''),
     j_priority = numberOr 0 (get ''priority''),
     j_attemptsMax = numberOr 1 (get ''attemptsMax''),
     j_attemptsMade = numberOr 0 (get ''attemptsMade''),
     j_stalledCount = numberOr 0 (get ''stalledCount''),
     j_backoff = map_option backoffOf (optionalJson (get ''backoff'')),
     j_keep = map_option keepOf (optionalJson (get ''keep'')),
     j_timeoutMs = optionalNumber (get ''timeoutMs''),
     j_cancelRequested = (get ''cancelRequested'' = Some ''1''),
     j_dedupeKey = optionalString (get ''dedupeKey''),
     j_trace = map_option traceOfJson (optionalJson (get ''trace'')),
     j_parent = map_option parentOf (optionalJson (get ''parent'')),
     j_flow = (if optionalString (get ''flowPending'') = None then None
               else Some \<lparr>
                 fs_failFast = (get ''flowFailFast'' = Some ''1''),
                 fs_pending = numberOr 0 (get ''flowPending''),
                 fs_completed = numberOr 0 (get ''flowCompleted''),
                 fs_failed = numberOr 0 (get ''flowFailed''),
                 fs_cancelled = numberOr 0 (get ''flowCancelled'') \<rparr>),
     j_runAt = numberOr 0 (get ''runAt''),
     j_enqueuedAt = numberOr 0 (get ''enqueuedAt''),
     j_processedAt = optionalNumber (get ''processedAt''),
     j_finishedAt = optionalNumber (get ''finishedAt''),
     j_exit = optionalJson (get ''exit''),
     j_failedReason = optionalString (get ''failedReason'') \<rparr>)"

definition toSchedule :: "(string, string) jsmap \<Rightarrow> schedule_record" where
  "toSchedule hash = (let get = mapGet hash in \<lparr>
     sc_key = orElse (get ''key'') [],
     sc_jobName = orElse (get ''jobName'') [],
     sc_queue = orElse (get ''queue'') [],
     sc_cron = optionalString (get ''cron''),
     sc_tz = optionalString (get ''tz''),
     sc_everyMs = optionalNumber (get ''everyMs''),
     sc_payload = orElse (optionalJson (get ''payload'')) JNull,
     sc_metadata = (case optionalJson (get ''metadata'') of None \<Rightarrow> [] | Some m \<Rightarrow> metadataOfJson m),
     sc_priority = numberOr 0 (get ''priority''),
     sc_attemptsMax = numberOr 1 (get ''attemptsMax''),
     sc_backoff = map_option backoffOf (optionalJson (get ''backoff'')),
     sc_keep = map_option keepOf (optionalJson (get ''keep'')),
     sc_timeoutMs = optionalNumber (get ''timeoutMs''),
     sc_group = optionalString (get ''group''),
     sc_nextRunAt = numberOr 0 (get ''nextRunAt'') \<rparr>)"

section \<open>Outbox entries, dependency rows and ledger entries\<close>

definition terminalText :: "terminal_state \<Rightarrow> string" where
  "terminalText t = stateText (stateOfTerminal t)"

definition terminalOfText :: "string \<Rightarrow> terminal_state" where
  "terminalOfText s = (if s = ''completed'' then TCompleted else if s = ''failed'' then TFailed else TCancelled)"

definition toOutboxEntry :: "string \<Rightarrow> outbox_entry" where
  "toOutboxEntry m =
     (let body = orElse (parseJson (snd (memberParts m))) JNull;
          envelope = parentOf (orElse (jget ''parent'' body) JNull)
      in \<lparr> ob_id = m,
           ob_flowName = pe_flowName envelope,
           ob_parentStoreKey = pe_parentStoreKey envelope,
           ob_report = \<lparr>
             rp_flowId = pe_flowId envelope,
             rp_childKey = pe_childKey envelope,
             rp_outcome = terminalOfText (orElse (jsonStr (jget ''outcome'' body)) []),
             rp_exit = jget ''exit'' body,
             rp_failedReason = jsonStr (jget ''failedReason'' body) \<rparr> \<rparr>)"

definition rowStatusOf :: "string \<Rightarrow> row_status" where
  "rowStatusOf s = (if s = ''pending'' then RPending else statusOf (terminalOfText s))"

definition toChildRecord :: "job_id \<Rightarrow> json \<Rightarrow> flow_child_record" where
  "toChildRecord flowId row =
     (let cells = (case row of JArr xs \<Rightarrow> xs | _ \<Rightarrow> []);
          cell = (\<lambda>k. if k < length cells then jsonStr (Some (cells ! k)) else None)
      in \<lparr> fr_flowId = flowId,
           fr_childKey = orElse (cell 0) [],
           fr_name = orElse (cell 3) [],
           fr_storeKey = orElse (cell 1) [],
           fr_childJobId = Some (orElse (cell 2) []),
           fr_status = rowStatusOf (orElse (cell 4) ''pending''),
           fr_exit = optionalJson (cell 5),
           fr_failedReason = optionalString (cell 6),
           fr_cascaded = (cell 7 = Some ''1'') \<rparr>)"

definition outcomeOfText :: "string \<Rightarrow> attempt_outcome" where
  "outcomeOfText s =
     (if s = ''completed'' then ACompleted else if s = ''retried'' then ARetried
      else if s = ''failed'' then AFailed else if s = ''stalled'' then AStalled
      else if s = ''cancelled'' then ACancelled else AFannedOut)"

definition toAttempt :: "string \<Rightarrow> attempt_record" where
  "toAttempt entry =
     (let parsed = orElse (parseJson entry) JNull
      in \<lparr> at_attempt = nat (orElse (jsonInt (jget ''attempt'' parsed)) 0),
           at_startedAt = jsonInt (jget ''startedAt'' parsed),
           at_finishedAt = orElse (jsonInt (jget ''finishedAt'' parsed)) 0,
           at_outcome = outcomeOfText (orElse (jsonStr (jget ''outcome'' parsed)) []),
           at_exit = jget ''exit'' parsed \<rparr>)"

end
