(* ===== verification/RedisDriver.thy ===== *)
theory RedisDriver
  imports RedisCodec MemEnqueue MemFlow
begin

text \<open>
  The store that \<open>make\<close> of \<open>redis/RedisJobStore.ts\<close> returns: each method of the interface as one or
  more script calls, the decoding of their replies, the wake-up protocol of the process, and the loops
  that run beside the methods (index reconcile at start, history sweep). The closure's variables are
  \<open>redis_store\<close>: the server, the waiter registry, the messages published so far, and the number of
  calls made to a user-supplied id generator. A method takes the value of the clock where the code
  reads it. A server call that fails surfaces as a store error in the code and is the business of the
  link between a client and the store; here every call reaches the server.
\<close>

section \<open>State\<close>

record wake_state =
  wk_version :: nat
  wk_lastBroadcast :: nat
  wk_lastWake :: "(queue_name, nat) jsmap"
  wk_waiters :: "waiter list"
  wk_resolved :: "nat list"
  wk_nextWaiter :: nat

definition noWakes :: wake_state where
  "noWakes = \<lparr>wk_version = 0, wk_lastBroadcast = 0, wk_lastWake = [], wk_waiters = [], wk_resolved = [],
     wk_nextWaiter = 0\<rparr>"

record 'r redis_store =
  rs_server :: 'r
  rs_wake :: wake_state
  rs_published :: "string list"
  rs_draws :: nat

text \<open>What a store instance is built from: the client, \<open>options\<close> and the scripts made for its indexes.\<close>

record 'r redis_driver =
  dr_redis :: "'r redis"
  dr_prefix :: string
  dr_indexes :: index_config
  dr_gen :: "id_generator option"

definition indexesOf :: "(bool option \<times> bool option) option \<Rightarrow> index_config" where
  "indexesOf opts =
     (case opts of
        None \<Rightarrow> \<lparr>ix_name = False, ix_queue = False\<rparr>
      | Some (n, q) \<Rightarrow> \<lparr>ix_name = orElse n True, ix_queue = orElse q True\<rparr>)"

section \<open>Wake-ups\<close>

definition redisWakeFor :: "wake_state \<Rightarrow> queue_name \<Rightarrow> nat" where
  "redisWakeFor w queue = max (orElse (mapGet (wk_lastWake w) queue) 0) (wk_lastBroadcast w)"

definition signalWakeLocal :: "queue_name option \<Rightarrow> wake_state \<Rightarrow> wake_state" where
  "signalWakeLocal queue w =
     (let v = wk_version w + 1;
          toWake = filter (watches queue) (wk_waiters w)
      in w\<lparr> wk_version := v,
            wk_lastBroadcast := (case queue of None \<Rightarrow> v | Some _ \<Rightarrow> wk_lastBroadcast w),
            wk_lastWake := (case queue of None \<Rightarrow> wk_lastWake w | Some q \<Rightarrow> mapSet q v (wk_lastWake w)),
            wk_waiters := filter (\<lambda>x. \<not> watches queue x) (wk_waiters w),
            wk_resolved := wk_resolved w @ map wt_id toWake \<rparr>)"

definition wakeMessage :: "queue_name option \<Rightarrow> string" where
  "wakeMessage queue = (case queue of Some q \<Rightarrow> if q \<noteq> [] then q else ''*'' | None \<Rightarrow> ''*'')"

definition wakeUp :: "queue_name option \<Rightarrow> 'r redis_store \<Rightarrow> 'r redis_store" where
  "wakeUp queue st = st\<lparr>rs_wake := signalWakeLocal queue (rs_wake st),
                        rs_published := rs_published st @ [wakeMessage queue]\<rparr>"

definition pumpMessage :: "string \<Rightarrow> 'r redis_store \<Rightarrow> 'r redis_store" where
  "pumpMessage message st =
     st\<lparr>rs_wake := signalWakeLocal (if message = ''*'' then None else Some message) (rs_wake st)\<rparr>"

definition redisAwaitWake :: "queue_name list \<Rightarrow> nat \<Rightarrow> 'r redis_store \<Rightarrow> nat option \<times> 'r redis_store" where
  "redisAwaitWake queues wakeToken st =
     (let w = rs_wake st
      in if list_ex (\<lambda>queue. redisWakeFor w queue > wakeToken) queues then (None, st)
         else (Some (wk_nextWaiter w),
               st\<lparr>rs_wake := w\<lparr>wk_waiters := wk_waiters w @ [\<lparr>wt_id = wk_nextWaiter w, wt_queues = queues\<rparr>],
                               wk_nextWaiter := wk_nextWaiter w + 1\<rparr>\<rparr>))"

definition redisCancelWait :: "nat \<Rightarrow> 'r redis_store \<Rightarrow> 'r redis_store" where
  "redisCancelWait n st =
     st\<lparr>rs_wake := (rs_wake st)\<lparr>wk_waiters := filter (\<lambda>x. wt_id x \<noteq> n) (wk_waiters (rs_wake st))\<rparr>\<rparr>"

section \<open>enqueue\<close>

definition requestRow :: "enqueue_request \<Rightarrow> string \<Rightarrow> row_args" where
  "requestRow q dedupeKey = \<lparr>
     ra_name = rq_name q,
     ra_queue = rq_queue q,
     ra_payload = jsonText (rq_payload q),
     ra_metadata = jsonText (metadataJson (rq_metadata q)),
     ra_priority = intToString (rq_priority q),
     ra_attemptsMax = intToString (rq_attemptsMax q),
     ra_backoff = showOpt backoffJson (rq_backoff q),
     ra_keep = showOpt keepJson (rq_keep q),
     ra_timeoutMs = showNum (rq_timeoutMs q),
     ra_dedupeKey = dedupeKey,
     ra_trace = showOpt traceJson (rq_trace q),
     ra_parent = showOpt parentJson (rq_parent q),
     ra_delayMs = max 0 (rq_delayMs q) \<rparr>"

definition batchItem :: "enqueue_request \<Rightarrow> string \<Rightarrow> string \<Rightarrow> string \<Rightarrow> batch_item" where
  "batchItem q dedupeKey mode candidate =
     row_args.extend (requestRow q dedupeKey) (batch_item.fields mode candidate)"

definition enqueueArgs :: "enqueue_request \<Rightarrow> string \<Rightarrow> string \<Rightarrow> enqueue_args" where
  "enqueueArgs q mode candidate =
     batch_item.extend
       (batchItem q (case rq_dedupe q of None \<Rightarrow> [] | Some d \<Rightarrow> dp_key d) mode candidate)
       (enqueue_args.fields
         (case rq_dedupe q of None \<Rightarrow> [] | Some d \<Rightarrow> showNum (dp_ttlMs d))
         (flag (case rq_dedupe q of None \<Rightarrow> False | Some d \<Rightarrow> dp_extend d))
         (flag (case rq_dedupe q of None \<Rightarrow> False | Some d \<Rightarrow> dp_replace d)))"

text \<open>The id mode and the candidate id of a request; a generated candidate counts one draw.\<close>

definition idMode :: "'r redis_driver \<Rightarrow> enqueue_request \<Rightarrow> string" where
  "idMode dr q = (if rq_id q \<noteq> None then ''user'' else if dr_gen dr \<noteq> None then ''generated'' else ''auto'')"

definition candidateId :: "'r redis_driver \<Rightarrow> enqueue_request \<Rightarrow> 'r redis_store \<Rightarrow> job_id \<times> 'r redis_store" where
  "candidateId dr q st =
     (case rq_id q of
        Some i \<Rightarrow> (i, st)
      | None \<Rightarrow>
          (case dr_gen dr of
             None \<Rightarrow> ([], st)
           | Some generate \<Rightarrow> (generate q (rs_draws st), st\<lparr>rs_draws := rs_draws st + 1\<rparr>)))"

definition replyOf :: "string \<Rightarrow> json" where
  "replyOf text = orElse (parseJson text) JNull"

definition noUniqueId :: "string \<Rightarrow> store_error" where
  "noUniqueId verb = JobStoreError (verb @ '' failed: could not generate a unique job id'')"

fun enqueueRounds ::
  "nat \<Rightarrow> 'r redis_driver \<Rightarrow> millis \<Rightarrow> enqueue_request \<Rightarrow> 'r redis_store
    \<Rightarrow> (store_error + enqueue_result) \<times> 'r redis_store" where
  "enqueueRounds 0 dr now q st = (Inl (noUniqueId ''enqueue''), st)"
| "enqueueRounds (Suc n) dr now q st =
     (let (candidate, st1) = candidateId dr q st;
          (text, r) = luaEnqueue (dr_redis dr) (dr_prefix dr) (dr_indexes dr)
                        (enqueueArgs q (idMode dr q) candidate) now (rs_server st1);
          st2 = st1\<lparr>rs_server := r\<rparr>;
          rep = replyOf text
      in if jsonBool (jget ''collision'' rep) then enqueueRounds n dr now q st2
         else
           case (jget ''error'' rep, jsonStr (jget ''id'' rep)) of
             (None, Some i) \<Rightarrow>
               (Inr \<lparr>er_id = i, er_duplicate = jsonBool (jget ''duplicate'' rep)\<rparr>,
                if jsonBool (jget ''wake'' rep)
                then wakeUp (Some (orElse (jsonStr (jget ''queue'' rep)) (rq_queue q))) st2 else st2)
           | _ \<Rightarrow> (Inl (noUniqueId ''enqueue''), st2))"

definition redisEnqueue ::
  "'r redis_driver \<Rightarrow> millis \<Rightarrow> enqueue_request \<Rightarrow> 'r redis_store
    \<Rightarrow> (store_error + enqueue_result) \<times> 'r redis_store" where
  "redisEnqueue dr now q st = enqueueRounds 5 dr now q st"

section \<open>enqueueMany\<close>

fun chunksOf :: "nat \<Rightarrow> 'a list \<Rightarrow> 'a list list" where
  "chunksOf n xs = (if xs = [] \<or> n = 0 then [] else take n xs # chunksOf n (drop n xs))"

declare chunksOf.simps [simp del]

fun drawItems ::
  "'r redis_driver \<Rightarrow> (nat \<times> enqueue_request) list \<Rightarrow> 'r redis_store \<Rightarrow> batch_item list \<times> 'r redis_store" where
  "drawItems dr [] st = ([], st)"
| "drawItems dr ((_, q) # chunk) st =
     (let (candidate, st1) = candidateId dr q st;
          (items, st2) = drawItems dr chunk st1
      in (batchItem q [] (idMode dr q) candidate # items, st2))"

record batch_state =
  bs_results :: "(nat, enqueue_result) jsmap"
  bs_pending :: "(nat \<times> enqueue_request) list"
  bs_fresh :: "queue_name list"
  bs_failed :: bool

definition batchReply :: "(nat \<times> enqueue_request) \<times> json \<Rightarrow> batch_state \<Rightarrow> batch_state" where
  "batchReply entry acc =
     (case entry of ((index, q), rep) \<Rightarrow>
        if jget ''error'' rep \<noteq> None then acc\<lparr>bs_failed := True\<rparr>
        else if jsonBool (jget ''collision'' rep) then acc\<lparr>bs_pending := bs_pending acc @ [(index, q)]\<rparr>
        else
          (case jsonStr (jget ''id'' rep) of
             None \<Rightarrow> acc\<lparr>bs_failed := True\<rparr>
           | Some i \<Rightarrow>
               (let duplicate = jsonBool (jget ''duplicate'' rep)
                in acc\<lparr> bs_results := mapSet index \<lparr>er_id = i, er_duplicate = duplicate\<rparr> (bs_results acc),
                        bs_fresh := (if \<not> duplicate \<and> rq_queue q \<notin> set (bs_fresh acc)
                                     then bs_fresh acc @ [rq_queue q] else bs_fresh acc) \<rparr>)))"

definition repliesOf :: "string \<Rightarrow> json list" where
  "repliesOf text = (case parseJson text of Some (JArr xs) \<Rightarrow> xs | _ \<Rightarrow> [])"

definition batchChunk ::
  "'r redis_driver \<Rightarrow> millis \<Rightarrow> (nat \<times> enqueue_request) list \<Rightarrow> batch_state \<Rightarrow> 'r redis_store
    \<Rightarrow> batch_state \<times> 'r redis_store" where
  "batchChunk dr now chunk acc st =
     (let (items, st1) = drawItems dr chunk st;
          (text, r) = luaEnqueueMany (dr_redis dr) (dr_prefix dr) (dr_indexes dr) now items (rs_server st1);
          reps = repliesOf text;
          padded = reps @ replicate (length chunk - length reps) (JObj [(''error'', JNull)]);
          acc1 = fold batchReply (zip chunk padded) (acc\<lparr>bs_fresh := []\<rparr>)
      in (acc1, fold (\<lambda>queue. wakeUp (Some queue)) (bs_fresh acc1) (st1\<lparr>rs_server := r\<rparr>)))"

fun batchChunks ::
  "'r redis_driver \<Rightarrow> millis \<Rightarrow> (nat \<times> enqueue_request) list list \<Rightarrow> batch_state \<Rightarrow> 'r redis_store
    \<Rightarrow> batch_state \<times> 'r redis_store" where
  "batchChunks dr now [] acc st = (acc, st)"
| "batchChunks dr now (chunk # chunks) acc st =
     (case batchChunk dr now chunk acc st of (acc1, st1) \<Rightarrow>
        if bs_failed acc1 then (acc1, st1) else batchChunks dr now chunks acc1 st1)"

text \<open>Up to five rounds; \<open>clock k\<close> is what round \<open>k\<close> reads.\<close>

fun batchRounds ::
  "nat \<Rightarrow> nat \<Rightarrow> 'r redis_driver \<Rightarrow> (nat \<Rightarrow> millis) \<Rightarrow> batch_state \<Rightarrow> 'r redis_store \<Rightarrow> batch_state \<times> 'r redis_store" where
  "batchRounds 0 k dr clock acc st = (acc, st)"
| "batchRounds (Suc n) k dr clock acc st =
     (if bs_pending acc = [] then (acc, st)
      else
        case batchChunks dr (clock k) (chunksOf 500 (bs_pending acc)) (acc\<lparr>bs_pending := []\<rparr>) st of
          (acc1, st1) \<Rightarrow> if bs_failed acc1 then (acc1, st1) else batchRounds n (k + 1) dr clock acc1 st1)"

definition insertBatch ::
  "'r redis_driver \<Rightarrow> (nat \<Rightarrow> millis) \<Rightarrow> enqueue_request list \<Rightarrow> 'r redis_store
    \<Rightarrow> (store_error + enqueue_result list) \<times> 'r redis_store" where
  "insertBatch dr clock requests st =
     (case batchRounds 5 0 dr clock
             \<lparr>bs_results = [], bs_pending = enumerate 0 requests, bs_fresh = [], bs_failed = False\<rparr> st of
        (acc, st1) \<Rightarrow>
          if bs_failed acc \<or> list_ex (\<lambda>k. mapGet (bs_results acc) k = None) [0..<length requests]
          then (Inl (noUniqueId ''enqueueMany''), st1)
          else (Inr (map (\<lambda>k. the (mapGet (bs_results acc) k)) [0..<length requests]), st1))"

definition flushBatch ::
  "'r redis_driver \<Rightarrow> (nat \<Rightarrow> millis) \<Rightarrow> enqueue_request list \<Rightarrow> 'r redis_store
    \<Rightarrow> (store_error + enqueue_result list) \<times> 'r redis_store" where
  "flushBatch dr clock batch st = (if batch = [] then (Inr [], st) else insertBatch dr clock batch st)"

text \<open>
  The loop over the requests: \<open>clock\<close> gives the readings that follow, each step using its own.
\<close>

fun enqueueManyLoop ::
  "'r redis_driver \<Rightarrow> (nat \<Rightarrow> nat \<Rightarrow> millis) \<Rightarrow> enqueue_request list \<Rightarrow> enqueue_request list
    \<Rightarrow> enqueue_result list \<Rightarrow> 'r redis_store \<Rightarrow> (store_error + enqueue_result list) \<times> 'r redis_store" where
  "enqueueManyLoop dr clock [] batch results st =
     (case flushBatch dr (clock 0) batch st of
        (Inl e, st1) \<Rightarrow> (Inl e, st1)
      | (Inr rs, st1) \<Rightarrow> (Inr (results @ rs), st1))"
| "enqueueManyLoop dr clock (q # qs) batch results st =
     (if rq_dedupe q = None then enqueueManyLoop dr clock qs (batch @ [q]) results st
      else
        case flushBatch dr (clock (length qs + 1)) batch st of
          (Inl e, st1) \<Rightarrow> (Inl e, st1)
        | (Inr rs, st1) \<Rightarrow>
            (case redisEnqueue dr (clock (length qs + 1) 5) q st1 of
               (Inl e, st2) \<Rightarrow> (Inl e, st2)
             | (Inr res, st2) \<Rightarrow> enqueueManyLoop dr clock qs [] (results @ rs @ [res]) st2))"

definition redisEnqueueMany ::
  "'r redis_driver \<Rightarrow> (nat \<Rightarrow> nat \<Rightarrow> millis) \<Rightarrow> enqueue_request list \<Rightarrow> 'r redis_store
    \<Rightarrow> (store_error + enqueue_result list) \<times> 'r redis_store" where
  "redisEnqueueMany dr clock requests st = enqueueManyLoop dr clock requests [] [] st"

section \<open>claim, ack, release, locks\<close>

definition claimReply :: "string \<Rightarrow> nat \<Rightarrow> claim_result" where
  "claimReply text observedWake =
     (case jget ''job'' (replyOf text) of
        Some job \<Rightarrow> Claimed (toRecord (foldPairs job))
      | None \<Rightarrow> Empty (jsonInt (jget ''nextRunAt'' (replyOf text))) observedWake)"

definition redisClaim ::
  "'r redis_driver \<Rightarrow> millis \<Rightarrow> claim_options \<Rightarrow> 'r redis_store \<Rightarrow> (claim_result \<times> 'r redis_store) option" where
  "redisClaim dr now opts st =
     (let observedWake = wk_version (rs_wake st)
      in map_option (\<lambda>(text, r). (claimReply text observedWake, st\<lparr>rs_server := r\<rparr>))
           (luaClaim (dr_redis dr) (dr_prefix dr) (co_queue opts) (jsonText (JArr (map JStr (co_names opts))))
              (co_token opts) (co_lockDurationMs opts) now (rs_server st)))"

text \<open>The reply of a token-guarded script: the two typed errors, or success with an optional wake.\<close>

definition guardedReply :: "job_id \<Rightarrow> string \<Rightarrow> 'r redis_store \<Rightarrow> (store_error + unit) \<times> 'r redis_store" where
  "guardedReply i text st =
     (let rep = replyOf text
      in if jsonStr (jget ''error'' rep) = Some ''notfound'' then (Inl (JobNotFoundError i), st)
         else if jsonStr (jget ''error'' rep) = Some ''locklost'' then (Inl (LockLostError i), st)
         else (Inr (), if jsonBool (jget ''wake'' rep) then wakeUp (jsonStr (jget ''queue'' rep)) st else st))"

definition fanItem :: "flow_child_spec \<Rightarrow> fan_item" where
  "fanItem child = \<lparr>
     fi_childKey = cs_childKey child, fi_storeKey = cs_storeKey child,
     fi_childJobId = orElse (rq_id (cs_request child)) [], fi_name = rq_name (cs_request child),
     fi_spec = jsonText (requestJson (cs_request child)) \<rparr>"

fun fanOutChunks ::
  "'r redis_driver \<Rightarrow> millis \<Rightarrow> job_id \<Rightarrow> string \<Rightarrow> bool \<Rightarrow> nat \<Rightarrow> bool \<Rightarrow> flow_child_spec list list
    \<Rightarrow> 'r redis_store \<Rightarrow> (store_error + unit) \<times> 'r redis_store" where
  "fanOutChunks dr now i token failFast allRows isFirst [] st = (Inr (), st)"
| "fanOutChunks dr now i token failFast allRows isFirst (chunk # chunks) st =
     (let args = \<lparr>fa_id = i, fa_token = token, fa_final = (chunks = []), fa_clearStaged = isFirst,
                  fa_failFast = flag failFast, fa_total = int allRows\<rparr>;
          (text, r) = luaFanOut (dr_redis dr) (dr_prefix dr) args now (map fanItem chunk) (rs_server st)
      in case guardedReply i text (st\<lparr>rs_server := r\<rparr>) of
           (Inl e, st1) \<Rightarrow> (Inl e, st1)
         | (Inr _, st1) \<Rightarrow> fanOutChunks dr now i token failFast allRows False chunks st1)"

definition fanOutAck ::
  "'r redis_driver \<Rightarrow> millis \<Rightarrow> job_id \<Rightarrow> string \<Rightarrow> bool \<Rightarrow> flow_child_spec list \<Rightarrow> 'r redis_store
    \<Rightarrow> (store_error + unit) \<times> 'r redis_store" where
  "fanOutAck dr now i token failFast children st =
     (if list_ex (\<lambda>child. rq_id (cs_request child) = None) children
      then (Inl (JobStoreError ''FanOut child specs require an explicit request.id''), st)
      else
        (let chunks = chunksOf 500 children
         in fanOutChunks dr now i token failFast (length children) True
              (if chunks = [] then [[]] else chunks) st))"

definition outcomeTag :: "ack_outcome \<Rightarrow> string" where
  "outcomeTag outcome =
     (case outcome of Complete _ \<Rightarrow> ''Complete'' | Retry _ _ \<Rightarrow> ''Retry'' | Fail _ \<Rightarrow> ''Fail''
      | CancelledOutcome \<Rightarrow> ''Cancelled'' | FanOut _ _ \<Rightarrow> ''FanOut'')"

definition outcomeExit :: "ack_outcome \<Rightarrow> json option" where
  "outcomeExit outcome =
     (case outcome of Complete ex \<Rightarrow> ex | Retry _ ex \<Rightarrow> ex | Fail ex \<Rightarrow> ex | _ \<Rightarrow> None)"

definition redisAck ::
  "'r redis_driver \<Rightarrow> millis \<Rightarrow> job_id \<Rightarrow> string \<Rightarrow> ack_outcome \<Rightarrow> 'r redis_store
    \<Rightarrow> (store_error + unit) \<times> 'r redis_store" where
  "redisAck dr now i token outcome st =
     (case outcome of
        FanOut failFast children \<Rightarrow> fanOutAck dr now i token failFast children st
      | _ \<Rightarrow>
          (let exitJson = showOpt (\<lambda>e. e) (outcomeExit outcome);
               delayMs = (case outcome of Retry d _ \<Rightarrow> max 0 d | _ \<Rightarrow> 0);
               (text, r) = luaAck (dr_redis dr) (dr_prefix dr) i token (outcomeTag outcome) exitJson delayMs now
                             (rs_server st)
           in guardedReply i text (st\<lparr>rs_server := r\<rparr>)))"

definition redisRelease ::
  "'r redis_driver \<Rightarrow> millis \<Rightarrow> job_id \<Rightarrow> string \<Rightarrow> 'r redis_store \<Rightarrow> (store_error + unit) \<times> 'r redis_store" where
  "redisRelease dr now i token st =
     (case luaRelease (dr_redis dr) (dr_prefix dr) i token now (rs_server st) of
        (text, r) \<Rightarrow> guardedReply i text (st\<lparr>rs_server := r\<rparr>))"

text \<open>\<open>asArray\<close>: cjson prints an empty table as an object.\<close>

definition asArray :: "json option \<Rightarrow> json list" where
  "asArray j = (case j of Some (JArr xs) \<Rightarrow> xs | _ \<Rightarrow> [])"

definition asStrings :: "json option \<Rightarrow> string list" where
  "asStrings j = stringsOf (JArr (asArray j))"

definition redisExtendLocks ::
  "'r redis_driver \<Rightarrow> millis \<Rightarrow> (job_id \<times> string) list \<Rightarrow> int \<Rightarrow> 'r redis_store
    \<Rightarrow> extend_locks_result \<times> 'r redis_store" where
  "redisExtendLocks dr now locks durationMs st =
     (if locks = [] then (\<lparr>xl_lost = [], xl_cancelRequested = []\<rparr>, st)
      else
        (let locksJson = jsonText (JArr (map (\<lambda>(i, t). JObj [(''id'', JStr i), (''token'', JStr t)]) locks));
             (text, r) = luaExtendLocks (dr_redis dr) (dr_prefix dr) locksJson durationMs now (rs_server st);
             rep = replyOf text
         in (\<lparr>xl_lost = asStrings (jget ''lost'' rep), xl_cancelRequested = asStrings (jget ''cancel'' rep)\<rparr>,
             st\<lparr>rs_server := r\<rparr>)))"

definition recoveredOf :: "json \<Rightarrow> job_id \<times> bool" where
  "recoveredOf j = (orElse (jsonStr (jget ''id'' j)) [], jsonBool (jget ''failed'' j))"

definition redisRecoverStalled ::
  "'r redis_driver \<Rightarrow> millis \<Rightarrow> int \<Rightarrow> 'r redis_store \<Rightarrow> (job_id \<times> bool) list \<times> 'r redis_store" where
  "redisRecoverStalled dr now maxStalledCount st =
     (let (text, r) = luaRecoverStalled (dr_redis dr) (dr_prefix dr) maxStalledCount now (rs_server st);
          result = map recoveredOf (repliesOf text);
          st1 = st\<lparr>rs_server := r\<rparr>
      in (result, if list_ex (\<lambda>(_, failed). \<not> failed) result then wakeUp None st1 else st1))"

section \<open>Reads\<close>

definition redisGetJob :: "'r redis_driver \<Rightarrow> job_id \<Rightarrow> 'r redis_store \<Rightarrow> job_record option" where
  "redisGetJob dr i st =
     (let flat = replyOf (luaGetJob (dr_redis dr) (dr_prefix dr) i (rs_server st))
      in if stringsOf flat = [] then None else Some (toRecord (foldPairs flat)))"

definition redisGetAttempts :: "'r redis_driver \<Rightarrow> job_id \<Rightarrow> 'r redis_store \<Rightarrow> attempt_record list" where
  "redisGetAttempts dr i st =
     map toAttempt (rc_lrange (dr_redis dr) (attemptsKey (dr_prefix dr) i) (rs_server st))"

datatype list_defect = OrderUnsupported order_by | IndexDisabled index_kind

definition residualJson ::
  "queue_name option \<Rightarrow> string option \<Rightarrow> job_state list option \<Rightarrow> metadata option \<Rightarrow> json" where
  "residualJson queue name states meta = JObj
     (member ''queue'' JStr queue @ member ''name'' JStr name
      @ member ''states'' (\<lambda>sts. JArr (map (\<lambda>st. JStr (stateText st)) sts)) states
      @ member ''metadata'' metadataJson meta)"

definition listRoute ::
  "string \<Rightarrow> index_config \<Rightarrow> list_options \<Rightarrow> list_defect + string list \<times> json" where
  "listRoute p ix options =
     (let name = lo_name options; queue = lo_queue options; states = lo_states options;
          meta = lo_metadata options; orderBy = orElse (lo_orderBy options) ByEnqueuedAt
      in case orderBy of
           ByFinishedAt \<Rightarrow>
             (case states of
                None \<Rightarrow> Inl (OrderUnsupported orderBy)
              | Some sts \<Rightarrow>
                  if list_ex (\<lambda>st. st \<notin> TERMINAL_STATES) sts then Inl (OrderUnsupported orderBy)
                  else Inr (map (\<lambda>st. case name of
                                   None \<Rightarrow> finishedKey p (stateText st)
                                 | Some n \<Rightarrow> terminalKey p n (stateText st)) (remdups sts),
                            residualJson queue None None meta))
         | ByRunAt \<Rightarrow>
             (case (queue, states) of
                (Some q, Some sts) \<Rightarrow>
                  if sts \<noteq> [] \<and> list_all (\<lambda>st. st = Delayed) sts
                  then Inr ([delayedKey p q], residualJson None name None meta)
                  else Inl (OrderUnsupported orderBy)
              | _ \<Rightarrow> Inl (OrderUnsupported orderBy))
         | ByEnqueuedAt \<Rightarrow>
             (case name of
                Some n \<Rightarrow>
                  if \<not> ix_name ix then Inl (IndexDisabled IndexName)
                  else Inr ([bynameKey p n], residualJson queue None states meta)
              | None \<Rightarrow>
                  (case queue of
                     Some q \<Rightarrow>
                       if \<not> ix_queue ix then Inl (IndexDisabled IndexQueue)
                       else Inr ([byqueueKey p q], residualJson None None states meta)
                   | None \<Rightarrow> Inr ([plainKey p ''all''], residualJson None None states meta))))"

definition lastValue :: "order_by \<Rightarrow> job_record \<Rightarrow> int" where
  "lastValue orderBy job =
     (case orderBy of ByEnqueuedAt \<Rightarrow> j_enqueuedAt job | ByRunAt \<Rightarrow> j_runAt job
      | ByFinishedAt \<Rightarrow> orElse (j_finishedAt job) 0)"

definition redisList ::
  "'r redis_driver \<Rightarrow> list_options \<Rightarrow> 'r redis_store \<Rightarrow> ((list_defect + list_result) \<times> 'r redis_store) option" where
  "redisList dr options st =
     (let n = nat (max 1 (orElse (lo_limit options) 50));
          orderBy = orElse (lo_orderBy options) ByEnqueuedAt;
          order = (case orElse (lo_order options) Desc of Desc \<Rightarrow> ''desc'' | Asc \<Rightarrow> ''asc'')
      in case listRoute (dr_prefix dr) (dr_indexes dr) options of
           Inl d \<Rightarrow> Some (Inl d, st)
         | Inr (sources, residual) \<Rightarrow>
             map_option (\<lambda>(text, r).
               (let rep = replyOf text;
                    items = map (\<lambda>flat. toRecord (foldPairs flat)) (asArray (jget ''items'' rep))
                in (Inr \<lparr> lr_items = items,
                          lr_cursor = (if jsonBool (jget ''more'' rep) \<and> items \<noteq> []
                                       then Some (intToString (lastValue orderBy (last items)) @ '':'' @ j_id (last items))
                                       else None) \<rparr>, st\<lparr>rs_server := r\<rparr>)))
               (luaList (dr_redis dr) (dr_prefix dr) (jsonText (JArr (map JStr sources))) order
                  (jsonText residual) (orElse (lo_cursor options) []) n (rs_server st)))"

text \<open>\<open>counts\<close>: the state is what follows the last bar of the field, the queue what precedes it.\<close>

definition countsSplit :: "string \<Rightarrow> queue_name \<times> string" where
  "countsSplit f =
     (rev (tl (dropWhile (\<lambda>c. c \<noteq> CHR ''|'') (rev f))), rev (takeWhile (\<lambda>c. c \<noteq> CHR ''|'') (rev f)))"

definition countsStep ::
  "queue_name option \<Rightarrow> string \<times> string \<Rightarrow> (string \<Rightarrow> int) \<Rightarrow> string \<Rightarrow> int" where
  "countsStep queue entry totals =
     (case entry of (f, n) \<Rightarrow>
        (case countsSplit f of (fieldQueue, st) \<Rightarrow>
           if queue = None \<or> queue = Some fieldQueue
           then totals(st := totals st + numberOr 0 (Some n)) else totals))"

definition redisCounts :: "'r redis_driver \<Rightarrow> queue_name option \<Rightarrow> 'r redis_store \<Rightarrow> job_state \<Rightarrow> int" where
  "redisCounts dr queue st =
     (let byField = foldPairs (replyOf (luaCounts (dr_redis dr) (dr_prefix dr) (rs_server st)));
          totals = fold (countsStep queue) byField (\<lambda>_. 0)
      in (\<lambda>state. totals (stateText state)))"

section \<open>Administration\<close>

definition verbReply ::
  "(job_state \<Rightarrow> store_error) \<Rightarrow> job_state \<Rightarrow> job_id \<Rightarrow> string \<Rightarrow> (store_error + queue_name option)" where
  "verbReply stateErr fallback i text =
     (let rep = replyOf text
      in if jsonStr (jget ''error'' rep) = Some ''notfound'' then Inl (JobNotFoundError i)
         else if jsonStr (jget ''error'' rep) = Some ''state'' then
           Inl (stateErr (case jsonStr (jget ''state'' rep) of None \<Rightarrow> fallback | Some s \<Rightarrow> stateOf (Some s)))
         else Inr (jsonStr (jget ''queue'' rep)))"

definition redisRetry ::
  "'r redis_driver \<Rightarrow> millis \<Rightarrow> job_id \<Rightarrow> 'r redis_store \<Rightarrow> (store_error + unit) \<times> 'r redis_store" where
  "redisRetry dr now i st =
     (let (text, r) = luaRetry (dr_redis dr) (dr_prefix dr) i now (rs_server st); st1 = st\<lparr>rs_server := r\<rparr>
      in case verbReply (JobNotRetryableError i) Failed i text of
           Inl e \<Rightarrow> (Inl e, st1)
         | Inr queue \<Rightarrow> (Inr (), wakeUp queue st1))"

definition redisPromote ::
  "'r redis_driver \<Rightarrow> millis \<Rightarrow> job_id \<Rightarrow> 'r redis_store \<Rightarrow> (store_error + unit) \<times> 'r redis_store" where
  "redisPromote dr now i st =
     (let (text, r) = luaPromote (dr_redis dr) (dr_prefix dr) i now (rs_server st); st1 = st\<lparr>rs_server := r\<rparr>
      in case verbReply (JobNotPromotableError i) Completed i text of
           Inl e \<Rightarrow> (Inl e, st1)
         | Inr queue \<Rightarrow> (Inr (), wakeUp queue st1))"

definition redisCancel ::
  "'r redis_driver \<Rightarrow> millis \<Rightarrow> job_id \<Rightarrow> 'r redis_store \<Rightarrow> (store_error + unit) \<times> 'r redis_store" where
  "redisCancel dr now i st =
     (let (text, r) = luaCancel (dr_redis dr) (dr_prefix dr) i now (rs_server st); st1 = st\<lparr>rs_server := r\<rparr>
      in case verbReply (JobNotCancellableError i) Completed i text of
           Inl e \<Rightarrow> (Inl e, st1)
         | Inr _ \<Rightarrow> (Inr (), st1))"

definition redisCancelByDedupe ::
  "'r redis_driver \<Rightarrow> millis \<Rightarrow> string \<Rightarrow> string \<Rightarrow> 'r redis_store \<Rightarrow> (store_error + bool) \<times> 'r redis_store" where
  "redisCancelByDedupe dr now name key st =
     (let jobId = rc_hget (dr_redis dr) (dedupeStoreKey (dr_prefix dr) name key) ''jobId'' (rs_server st)
      in if isBlank jobId then (Inr False, st)
         else
           case redisCancel dr now (the jobId) st of
             (Inr _, st1) \<Rightarrow> (Inr True, st1)
           | (Inl (JobNotFoundError _), st1) \<Rightarrow> (Inr False, st1)
           | (Inl (JobNotCancellableError _ _), st1) \<Rightarrow> (Inr False, st1)
           | (Inl e, st1) \<Rightarrow> (Inl e, st1))"

definition redisRemove :: "'r redis_driver \<Rightarrow> job_id \<Rightarrow> 'r redis_store \<Rightarrow> bool \<times> 'r redis_store" where
  "redisRemove dr i st =
     (case luaRemove (dr_redis dr) (dr_prefix dr) i (rs_server st) of (text, r) \<Rightarrow>
        (text \<noteq> ''0'', st\<lparr>rs_server := r\<rparr>))"

definition redisPause :: "'r redis_driver \<Rightarrow> queue_name \<Rightarrow> 'r redis_store \<Rightarrow> 'r redis_store" where
  "redisPause dr queue st =
     st\<lparr>rs_server := rc_sadd (dr_redis dr) (plainKey (dr_prefix dr) ''paused'') queue (rs_server st)\<rparr>"

definition redisResume :: "'r redis_driver \<Rightarrow> queue_name \<Rightarrow> 'r redis_store \<Rightarrow> 'r redis_store" where
  "redisResume dr queue st =
     (let (removed, r) = rc_srem (dr_redis dr) (plainKey (dr_prefix dr) ''paused'') queue (rs_server st);
          st1 = st\<lparr>rs_server := r\<rparr>
      in if removed > 0 then wakeUp (Some queue) st1 else st1)"

definition redisPausedQueues :: "'r redis_driver \<Rightarrow> 'r redis_store \<Rightarrow> queue_name list" where
  "redisPausedQueues dr st = rc_smembers (dr_redis dr) (plainKey (dr_prefix dr) ''paused'') (rs_server st)"

section \<open>Schedules\<close>

definition scheduleArgs :: "schedule_record \<Rightarrow> schedule_args" where
  "scheduleArgs sc = \<lparr>
     sa_key = sc_key sc,
     sa_jobName = sc_jobName sc,
     sa_queue = sc_queue sc,
     sa_cron = orElse (sc_cron sc) [],
     sa_tz = orElse (sc_tz sc) [],
     sa_everyMs = showNum (sc_everyMs sc),
     sa_payload = jsonText (sc_payload sc),
     sa_metadata = jsonText (metadataJson (sc_metadata sc)),
     sa_priority = intToString (sc_priority sc),
     sa_attemptsMax = intToString (sc_attemptsMax sc),
     sa_backoff = showOpt backoffJson (sc_backoff sc),
     sa_keep = showOpt keepJson (sc_keep sc),
     sa_timeoutMs = showNum (sc_timeoutMs sc),
     sa_group = orElse (sc_group sc) [],
     sa_nextRunAt = sc_nextRunAt sc \<rparr>"

definition redisUpsertSchedule :: "'r redis_driver \<Rightarrow> schedule_record \<Rightarrow> 'r redis_store \<Rightarrow> 'r redis_store" where
  "redisUpsertSchedule dr sc st =
     wakeUp (Some (sc_queue sc))
       (st\<lparr>rs_server := snd (luaUpsertSchedule (dr_redis dr) (dr_prefix dr) (scheduleArgs sc) (rs_server st))\<rparr>)"

definition redisRemoveSchedule :: "'r redis_driver \<Rightarrow> schedule_key \<Rightarrow> 'r redis_store \<Rightarrow> bool \<times> 'r redis_store" where
  "redisRemoveSchedule dr key st =
     (case luaRemoveSchedule (dr_redis dr) (dr_prefix dr) key (rs_server st) of (text, r) \<Rightarrow>
        (text \<noteq> ''0'', st\<lparr>rs_server := r\<rparr>))"

definition redisListSchedules ::
  "'r redis_driver \<Rightarrow> string option \<Rightarrow> queue_name option \<Rightarrow> string option \<Rightarrow> 'r redis_store \<Rightarrow> schedule_record list" where
  "redisListSchedules dr jobName queue grp st =
     (let filters = JObj (member ''jobName'' JStr jobName @ member ''queue'' JStr queue @ member ''group'' JStr grp)
      in case luaListSchedules (dr_redis dr) (dr_prefix dr) (jsonText filters) (rs_server st) of
           None \<Rightarrow> []
         | Some text \<Rightarrow> map (\<lambda>flat. toSchedule (foldPairs flat)) (repliesOf text))"

definition redisDueSchedules :: "'r redis_driver \<Rightarrow> millis \<Rightarrow> 'r redis_store \<Rightarrow> schedule_record list" where
  "redisDueSchedules dr now st =
     map (\<lambda>flat. toSchedule (foldPairs flat))
       (repliesOf (luaDueSchedules (dr_redis dr) (dr_prefix dr) now (rs_server st)))"

definition redisTickSchedule ::
  "'r redis_driver \<Rightarrow> millis \<Rightarrow> schedule_key \<Rightarrow> millis \<Rightarrow> millis \<Rightarrow> enqueue_request \<Rightarrow> 'r redis_store
    \<Rightarrow> (store_error + bool) \<times> 'r redis_store" where
  "redisTickSchedule dr now key expectedRunAt nextRunAt q st =
     (case rq_id q of
        None \<Rightarrow> (Inl (JobStoreError ''tickSchedule requires an explicit request.id''), st)
      | Some i \<Rightarrow>
          (case luaTickSchedule (dr_redis dr) (dr_prefix dr) (dr_indexes dr) key expectedRunAt nextRunAt i
                  (requestRow q []) now (rs_server st) of
             (text, r) \<Rightarrow>
               (let fired = (text = ''1''); st1 = st\<lparr>rs_server := r\<rparr>
                in (Inr fired, if fired then wakeUp (Some (rq_queue q)) st1 else st1))))"

definition redisAdvanceSchedule ::
  "'r redis_driver \<Rightarrow> schedule_key \<Rightarrow> millis \<Rightarrow> millis \<Rightarrow> 'r redis_store \<Rightarrow> 'r redis_store" where
  "redisAdvanceSchedule dr key expectedRunAt nextRunAt st =
     st\<lparr>rs_server := snd (luaAdvanceSchedule (dr_redis dr) (dr_prefix dr) key expectedRunAt nextRunAt (rs_server st))\<rparr>"

section \<open>Flows\<close>

definition reportItem :: "flow_child_report \<Rightarrow> report_item" where
  "reportItem rep = \<lparr>
     ri_flowId = rp_flowId rep, ri_childKey = rp_childKey rep, ri_outcome = terminalText (rp_outcome rep),
     ri_exit = showOpt (\<lambda>e. e) (rp_exit rep), ri_failedReason = orElse (rp_failedReason rep) [] \<rparr>"

definition appliedOf :: "json \<Rightarrow> report_result" where
  "appliedOf j = \<lparr>rr_applied = jsonBool (jget ''applied'' j), rr_parentSettled = jsonBool (jget ''parentSettled'' j)\<rparr>"

fun recordChunks ::
  "'r redis_driver \<Rightarrow> millis \<Rightarrow> flow_child_report list list \<Rightarrow> 'r redis_store \<Rightarrow> report_result list \<times> 'r redis_store" where
  "recordChunks dr now [] st = ([], st)"
| "recordChunks dr now (chunk # chunks) st =
     (let (text, r) = luaRecordChildResults (dr_redis dr) (dr_prefix dr) now (map reportItem chunk) (rs_server st);
          rep = replyOf text;
          st1 = fold (\<lambda>queue. wakeUp (Some queue)) (asStrings (jget ''wakes'' rep)) (st\<lparr>rs_server := r\<rparr>);
          (rest, st2) = recordChunks dr now chunks st1
      in (map appliedOf (asArray (jget ''results'' rep)) @ rest, st2))"

definition redisRecordChildResults ::
  "'r redis_driver \<Rightarrow> millis \<Rightarrow> flow_child_report list \<Rightarrow> 'r redis_store \<Rightarrow> report_result list \<times> 'r redis_store" where
  "redisRecordChildResults dr now reports st = recordChunks dr now (chunksOf 500 reports) st"

definition redisPeekOutbox ::
  "'r redis_driver \<Rightarrow> int \<Rightarrow> string option \<Rightarrow> 'r redis_store \<Rightarrow> outbox_entry list" where
  "redisPeekOutbox dr n after st =
     (if n \<le> 0 then []
      else
        (let key = plainKey (dr_prefix dr) ''flowoutbox'';
             afterSeq = (case after of
                           None \<Rightarrow> None
                         | Some a \<Rightarrow>
                             if CHR 0x00 \<notin> set a \<or> startsWith [CHR 0x00] a then None
                             else jsNumber (fst (memberParts a)));
             ms = (case afterSeq of
                     None \<Rightarrow> members (rc_zrange (dr_redis dr) key 0 (n - 1) (rs_server st))
                   | Some sq \<Rightarrow> members (rc_zrangebyscore (dr_redis dr) key (Excl (Fin sq)) (Incl PosInf)
                                          (Some (0, nat n)) (rs_server st)))
         in map toOutboxEntry ms))"

definition redisDeleteOutbox :: "'r redis_driver \<Rightarrow> string list \<Rightarrow> 'r redis_store \<Rightarrow> 'r redis_store" where
  "redisDeleteOutbox dr ids st =
     st\<lparr>rs_server := fold (fold (zrem (dr_redis dr) (plainKey (dr_prefix dr) ''flowoutbox''))) (chunksOf 500 ids)
          (rs_server st)\<rparr>"

definition redisListChildResults ::
  "'r redis_driver \<Rightarrow> job_id \<Rightarrow> string option \<Rightarrow> int option \<Rightarrow> 'r redis_store
    \<Rightarrow> flow_child_record list \<times> string option" where
  "redisListChildResults dr flowId cursor limitOpt st =
     (let n = nat (max 1 (orElse limitOpt 1000));
          rep = replyOf (luaListChildResults (dr_redis dr) (dr_prefix dr) flowId (orElse cursor []) n (rs_server st));
          items = map (toChildRecord flowId) (asArray (jget ''items'' rep))
      in (items, if jsonBool (jget ''more'' rep) \<and> items \<noteq> [] then Some (fr_childKey (last items)) else None))"

definition workGroup :: "(json \<Rightarrow> 'c) \<Rightarrow> json \<Rightarrow> job_id \<times> 'c list" where
  "workGroup f j = (orElse (jsonStr (jget ''flowId'' j)) [], map f (asArray (jget ''children'' j)))"

definition pendingChild :: "json \<Rightarrow> flow_child_spec" where
  "pendingChild j = \<lparr>
     cs_childKey = orElse (jsonStr (jget ''childKey'' j)) [], cs_storeKey = orElse (jsonStr (jget ''storeKey'' j)) [],
     cs_request = requestOf (replyOf (orElse (jsonStr (jget ''spec'' j)) [])) \<rparr>"

definition cascadeOf :: "json \<Rightarrow> cascade_child" where
  "cascadeOf j = \<lparr>
     cc_childKey = orElse (jsonStr (jget ''childKey'' j)) [], cc_storeKey = orElse (jsonStr (jget ''storeKey'' j)) [],
     cc_childJobId = Some (orElse (jsonStr (jget ''childJobId'' j)) []) \<rparr>"

definition redisFlowSweepWork ::
  "'r redis_driver \<Rightarrow> millis \<Rightarrow> int \<Rightarrow> int option \<Rightarrow> 'r redis_store \<Rightarrow> flow_sweep_work \<times> 'r redis_store" where
  "redisFlowSweepWork dr now pendingAgeMs limitOpt st =
     (let n = nat (max 1 (orElse limitOpt 1000));
          (text, r) = luaFlowSweepWork (dr_redis dr) (dr_prefix dr) pendingAgeMs n now (rs_server st);
          rep = replyOf text
      in (\<lparr>sw_reconcile = map (workGroup pendingChild) (asArray (jget ''reconcile'' rep)),
           sw_cascade = map (workGroup cascadeOf) (asArray (jget ''cascade'' rep))\<rparr>, st\<lparr>rs_server := r\<rparr>))"

definition redisMarkChildrenCascaded ::
  "'r redis_driver \<Rightarrow> job_id \<Rightarrow> string list \<Rightarrow> 'r redis_store \<Rightarrow> 'r redis_store" where
  "redisMarkChildrenCascaded dr flowId keys st =
     st\<lparr>rs_server := luaMarkChildrenCascaded (dr_redis dr) (dr_prefix dr) flowId
          (jsonText (JArr (map JStr keys))) (rs_server st)\<rparr>"

section \<open>History sweep\<close>

partial_function (option) sweepPages ::
  "'r redis \<Rightarrow> string \<Rightarrow> string \<Rightarrow> string \<Rightarrow> nat \<Rightarrow> millis \<Rightarrow> 'r \<Rightarrow> 'r option" where
  "sweepPages rd p st ttlMs offset now r =
     (let (text, r1) = luaSweepState rd p st ttlMs 200 offset now r;
          scanned = orElse (jsonInt (jget ''scanned'' (replyOf text))) 0;
          deleted = orElse (jsonInt (jget ''deleted'' (replyOf text))) 0
      in if scanned < 200 then Some r1
         else sweepPages rd p st ttlMs (nat (int offset + (scanned - deleted))) now r1)"

partial_function (option) sweepDedupePages :: "'r redis \<Rightarrow> string \<Rightarrow> millis \<Rightarrow> 'r \<Rightarrow> 'r option" where
  "sweepDedupePages rd p now r =
     (let (text, r1) = luaSweepDedupes rd p 200 now r
      in if text = ''0'' then Some r1 else sweepDedupePages rd p now r1)"

definition redisHistorySweep :: "'r redis_driver \<Rightarrow> history_ttl \<Rightarrow> millis \<Rightarrow> 'r redis_store \<Rightarrow> 'r redis_store option" where
  "redisHistorySweep dr ttlByState now st =
     (let pages = (\<lambda>t. sweepPages (dr_redis dr) (dr_prefix dr) (terminalText t) (showNum (ttlFor ttlByState t)) 0 now)
      in map_option (\<lambda>r. st\<lparr>rs_server := r\<rparr>)
           (Option.bind (pages TCompleted (rs_server st)) (\<lambda>r1.
            Option.bind (pages TFailed r1) (\<lambda>r2.
            Option.bind (pages TCancelled r2) (sweepDedupePages (dr_redis dr) (dr_prefix dr) now)))))"

section \<open>Index reconcile at start\<close>

text \<open>
  \<open>scan cursor r\<close> is \<open>ZSCAN all cursor COUNT 500\<close>: the next cursor and the members of this step.
\<close>

definition indexWord :: "index_kind \<Rightarrow> string" where
  "indexWord kind = (case kind of IndexName \<Rightarrow> ''name'' | IndexQueue \<Rightarrow> ''queue'')"

definition markerKey :: "string \<Rightarrow> index_kind \<Rightarrow> string" where
  "markerKey p kind = p @ '':index:'' @ indexWord kind @ '':ready''"

partial_function (option) rebuildIndex ::
  "(string \<Rightarrow> 'r \<Rightarrow> string \<times> string list) \<Rightarrow> 'r redis \<Rightarrow> string \<Rightarrow> index_kind \<Rightarrow> string \<Rightarrow> 'r \<Rightarrow> 'r option" where
  "rebuildIndex scan rd p kind cursor r =
     (let (next, ids) = scan cursor r;
          r1 = fold (\<lambda>chunk. luaIndexMembers rd p kind (jsonText (JArr (map JStr chunk)))) (chunksOf 500 ids) r
      in if next = ''0'' then Some r1 else rebuildIndex scan rd p kind next r1)"

partial_function (option) healTail ::
  "'r redis \<Rightarrow> string \<Rightarrow> index_kind \<Rightarrow> int \<Rightarrow> nat \<Rightarrow> 'r \<Rightarrow> 'r option" where
  "healTail rd p kind from offset r =
     (let (text, r1) = luaIndexTailPage rd p kind from offset 500 r;
          scanned = numberOr 0 (Some text)
      in if scanned < 500 then Some r1 else healTail rd p kind from (nat (int offset + scanned)) r1)"

definition reconcileIndex ::
  "(string \<Rightarrow> 'r \<Rightarrow> string \<times> string list) \<Rightarrow> 'r redis_driver \<Rightarrow> millis \<Rightarrow> index_kind \<Rightarrow> 'r \<Rightarrow> 'r option" where
  "reconcileIndex scan dr bootAt kind r =
     (let rd = dr_redis dr; p = dr_prefix dr; marker = markerKey p kind;
          enabled = (case kind of IndexName \<Rightarrow> ix_name (dr_indexes dr) | IndexQueue \<Rightarrow> ix_queue (dr_indexes dr))
      in if \<not> enabled then Some (rc_del rd marker r)
         else
           map_option (rc_set rd marker (intToString bootAt))
             (case (if isBlank (rc_get rd marker r) then None else jsNumber (the (rc_get rd marker r))) of
                None \<Rightarrow> rebuildIndex scan rd p kind ''0'' r
              | Some markerAt \<Rightarrow> healTail rd p kind (markerAt - 60000) 0 r))"

definition redisBoot ::
  "(string \<Rightarrow> 'r \<Rightarrow> string \<times> string list) \<Rightarrow> 'r redis_driver \<Rightarrow> millis \<Rightarrow> 'r \<Rightarrow> 'r redis_store option" where
  "redisBoot scan dr bootAt r =
     map_option (\<lambda>r2. \<lparr>rs_server = r2, rs_wake = noWakes, rs_published = [], rs_draws = 0\<rparr>)
       (Option.bind (reconcileIndex scan dr bootAt IndexName r) (reconcileIndex scan dr bootAt IndexQueue))"

end
