(* ===== verification/RedisRows.thy ===== *)
theory RedisRows
  imports RedisDriver Verbs
begin

text \<open>
  What the texts in the server mean: \<open>rowTexts\<close> lists the hash fields that represent a job of the
  in-memory driver, \<open>attemptEntry\<close> the text of a ledger entry, and decoding them gives the record back.
  Keys of different kinds never coincide, and a member of a waiting set yields its id and orders by its
  counter.
\<close>

section \<open>Keys\<close>

named_theorems key_simps "comparison of the texts of keys"

lemma jobKey_eqs [key_simps]:
  "jobKey p i = jobKey p j \<longleftrightarrow> i = j"
  "jobKey p i = plainKey p w \<longleftrightarrow> ''job:'' @ i = w" "plainKey p w = jobKey p i \<longleftrightarrow> w = ''job:'' @ i"
  "jobKey p i \<noteq> attemptsKey p j" "attemptsKey p j \<noteq> jobKey p i"
  "jobKey p i \<noteq> dedupeStoreKey p n k" "dedupeStoreKey p n k \<noteq> jobKey p i"
  "jobKey p i \<noteq> flowChildKey p f k" "flowChildKey p f k \<noteq> jobKey p i"
  "jobKey p i \<noteq> flowIndexKey p f" "flowIndexKey p f \<noteq> jobKey p i"
  "jobKey p i \<noteq> scheduleStoreKey p k" "scheduleStoreKey p k \<noteq> jobKey p i"
  "jobKey p i \<noteq> waitingKey p q" "waitingKey p q \<noteq> jobKey p i"
  "jobKey p i \<noteq> delayedKey p q" "delayedKey p q \<noteq> jobKey p i"
  by (auto simp: jobKey_def plainKey_def attemptsKey_def dedupeStoreKey_def flowChildKey_def
      flowIndexKey_def scheduleStoreKey_def waitingKey_def delayedKey_def)

lemma attemptsKey_eqs [key_simps]:
  "attemptsKey p i = attemptsKey p j \<longleftrightarrow> i = j"
  "attemptsKey p i = plainKey p w \<longleftrightarrow> ''attempts:'' @ i = w" "plainKey p w = attemptsKey p i \<longleftrightarrow> w = ''attempts:'' @ i"
  "attemptsKey p i \<noteq> dedupeStoreKey p n k" "dedupeStoreKey p n k \<noteq> attemptsKey p i"
  "attemptsKey p i \<noteq> flowChildKey p f k" "flowChildKey p f k \<noteq> attemptsKey p i"
  "attemptsKey p i \<noteq> flowIndexKey p f" "flowIndexKey p f \<noteq> attemptsKey p i"
  by (auto simp: attemptsKey_def plainKey_def dedupeStoreKey_def flowChildKey_def flowIndexKey_def)

lemma plainKey_eq [key_simps]: "plainKey p a = plainKey p b \<longleftrightarrow> a = b"
  by (simp add: plainKey_def)

section \<open>Decoding what was encoded\<close>

definition outcomeText :: "attempt_outcome \<Rightarrow> string" where
  "outcomeText a =
     (case a of ACompleted \<Rightarrow> ''completed'' | ARetried \<Rightarrow> ''retried'' | AFailed \<Rightarrow> ''failed''
      | AStalled \<Rightarrow> ''stalled'' | ACancelled \<Rightarrow> ''cancelled'' | AFannedOut \<Rightarrow> ''fanned-out'')"

lemma outcomeOfText_text [simp]: "outcomeOfText (outcomeText a) = a"
  by (cases a) (simp_all add: outcomeText_def outcomeOfText_def)

lemma stateOf_text [simp]: "stateOf (Some (stateText st)) = st"
  by (cases st) (simp_all add: stateOf_def stateText_def JOB_STATES_def)

lemma stateText_inj [simp]: "stateText a = stateText b \<longleftrightarrow> a = b"
  by (cases a; cases b) (simp_all add: stateText_def)

lemma terminalOfText_text [simp]: "terminalOfText (terminalText t) = t"
  by (cases t) (simp_all add: terminalOfText_def terminalText_def stateText_def)

lemma jsonInt_simps [simp]: "jsonInt (Some (JNum i)) = Some i" "jsonInt None = None"
  by (simp_all add: jsonInt_def)

lemma jsonStr_simps [simp]: "jsonStr (Some (JStr s)) = Some s" "jsonStr None = None"
  by (simp_all add: jsonStr_def)

lemma jsonBool_simps [simp]: "jsonBool (Some (JBool b)) = b" "jsonBool None = False"
  by (simp_all add: jsonBool_def)

lemma member_simps [simp]: "member k f None = []" "member k f (Some v) = [(k, f v)]"
  by (simp_all add: member_def)

lemma jget_obj [simp]: "jget k (JObj kvs) = map_of kvs k"
  by (simp add: jget_def)

lemma intToString_nonempty [simp]: "intToString i \<noteq> []"
  by (simp add: intToString_def)

lemma isBlank_simps [simp]: "isBlank None" "isBlank (Some s) \<longleftrightarrow> s = []"
  by (simp_all add: isBlank_def)

lemma optionalJson_show [simp]: "optionalJson (Some (showOpt f x)) = map_option f x"
  by (simp add: optionalJson_def showOpt_def isBlank_def split: option.split)

lemma optionalJson_text [simp]: "optionalJson (Some (jsonText j)) = Some j"
  by (simp add: optionalJson_def isBlank_def)

lemma optionalNumber_show [simp]: "optionalNumber (Some (showNum x)) = x"
  by (simp add: optionalNumber_def showNum_def isBlank_def split: option.split)

lemma numberOr_int [simp]: "numberOr d (Some (intToString i)) = i"
  by (simp add: numberOr_def)

lemma luaNumber_int [simp]: "luaNumber (intToString i) = Some i"
  by (simp add: luaNumber_def)

lemma luaNumberOr0_int [simp]: "luaNumberOr0 (Some (intToString i)) = i" "luaNumberOr0 None = 0"
  by (simp_all add: luaNumberOr0_def)

lemma metadataOfJson_json [simp]: "metadataOfJson (metadataJson m) = m"
  by (simp add: metadataOfJson_def metadataJson_def comp_def case_prod_unfold)

lemma backoffOf_json [simp]: "integralBackoff b \<Longrightarrow> backoffOf (backoffJson b) = b"
  by (cases "bo_tag b"; cases "bo_factor b")
    (simp_all add: backoffOf_def backoffJson_def integralBackoff_def)

definition flatOk :: "keep_policy \<Rightarrow> bool" where
  "flatOk k \<longleftrightarrow> (case kp_flat k of None \<Rightarrow> True | Some f \<Rightarrow> kp_count f \<noteq> None \<or> kp_ageMs f \<noteq> None)"

lemma keepStateOf_json [simp]: "keepStateOf (keepStateJson k) = k"
  by (cases "kp_count k"; cases "kp_ageMs k") (simp_all add: keepStateOf_def keepStateJson_def)

lemma keepOf_json [simp]: "flatOk k \<Longrightarrow> keepOf (keepJson k) = k"
proof -
  assume k: "flatOk k"
  obtain a b c f where abcf: "kp_completed k = a" "kp_failed k = b" "kp_cancelled k = c" "kp_flat k = f"
    by blast
  have "keepOf (keepJson k) = \<lparr>kp_completed = a, kp_failed = b, kp_cancelled = c, kp_flat = f\<rparr>"
  proof (cases f)
    case None
    then show ?thesis
      by (cases a; cases b; cases c) (simp_all add: keepOf_def keepJson_def abcf)
  next
    case (Some x)
    with k abcf have "kp_count x \<noteq> None \<or> kp_ageMs x \<noteq> None" by (simp add: flatOk_def)
    then show ?thesis
      using Some by (cases a; cases b; cases c; cases "kp_count x"; cases "kp_ageMs x")
        (simp_all add: keepOf_def keepJson_def abcf keepStateOf_json [unfolded keepStateOf_def]
          keepStateOf_def [of "JObj kvs" for kvs])
  qed
  then show ?thesis using abcf by (metis keep_policy.surjective old.unit.exhaust)
qed

lemma traceOfJson_json [simp]: "traceOfJson (traceJson t) = t"
  by (simp add: traceOfJson_def traceJson_def)

lemma parentOf_json [simp]: "parentOf (parentJson e) = e"
  by (simp add: parentOf_def parentJson_def)

section \<open>HGETALL replies\<close>

lemma stringsOf_strings [simp]: "stringsOf (JArr (map JStr xs)) = xs"
  by (induction xs) (simp_all add: stringsOf_def List.map_filter_simps)

lemma stringsOf_flat: "stringsOf (flatPairs fvs) = concat (map (\<lambda>p. [fst p, snd p]) fvs)"
  by (induction fvs) (auto simp: stringsOf_def flatPairs_def List.map_filter_simps)

lemma length_flat [simp]: "length (concat (map (\<lambda>p. [fst p, snd p]) fvs)) = 2 * length fvs"
  by (induction fvs) auto

lemma nth_flat:
  "k < length fvs \<Longrightarrow> concat (map (\<lambda>p. [fst p, snd p]) fvs) ! (2 * k) = fst (fvs ! k)
    \<and> concat (map (\<lambda>p. [fst p, snd p]) fvs) ! Suc (2 * k) = snd (fvs ! k)"
proof (induction fvs arbitrary: k)
  case (Cons fv fvs)
  then show ?case by (cases k) auto
qed simp

lemma fold_nth: "fold (\<lambda>k. g (xs ! k)) [0..<length xs] a = fold g xs a"
proof -
  have "fold g xs a = fold g (map ((!) xs) [0..<length xs]) a" by (simp only: map_nth)
  then show ?thesis by (simp only: fold_map comp_def)
qed

lemma foldPairs_flat: "foldPairs (flatPairs fvs) = fold (\<lambda>p. mapSet (fst p) (snd p)) fvs []"
proof -
  let ?xs = "concat (map (\<lambda>p. [fst p, snd p]) fvs)"
  have "fold (\<lambda>k m. mapSet (?xs ! (2 * k)) (?xs ! Suc (2 * k)) m) [0..<length fvs] []
      = fold (\<lambda>k. (\<lambda>p. mapSet (fst p) (snd p)) (fvs ! k)) [0..<length fvs] []"
    by (rule fold_cong) (simp_all add: nth_flat fun_eq_iff)
  moreover have "\<dots> = fold (\<lambda>p. mapSet (fst p) (snd p)) fvs []"
    by (rule fold_nth [of "\<lambda>p. mapSet (fst p) (snd p)"])
  ultimately show ?thesis by (simp add: foldPairs_def stringsOf_flat Let_def)
qed

lemma mapGet_sets:
  "distinct (map fst fvs) \<Longrightarrow>
    mapGet (fold (\<lambda>p. mapSet (fst p) (snd p)) fvs m) f = (case map_of fvs f of None \<Rightarrow> mapGet m f | Some v \<Rightarrow> Some v)"
proof (induction fvs arbitrary: m)
  case (Cons fv fvs)
  then show ?case
    by (cases fv) (auto split: option.split dest: weak_map_of_SomeI simp: map_of_eq_None_iff rev_image_eqI)
qed simp

lemma mapGet_foldPairs: "distinct (map fst fvs) \<Longrightarrow> mapGet (foldPairs (flatPairs fvs)) f = map_of fvs f"
  by (simp add: foldPairs_flat mapGet_sets split: option.split)

end
