(* ===== verification/RedisView.thy ===== *)
theory RedisView
  imports RedisRows
begin

text \<open>
  What the server holds about one job id. \<open>jobView p d i\<close> collects the job's hash, its ledger and its
  entries in the sorted sets (and that its key holds nothing but the hash); the rules \<open>view_simps\<close> say how each write of a script changes it.
  \<open>represents\<close> relates a view to a job of the in-memory driver: the hash carries the job's fields, the
  ledger its attempts, and the id sits in exactly the index its state calls for.
\<close>

section \<open>The view of one job\<close>

record job_view =
  jv_hash :: "string \<Rightarrow> string option"
  jv_ledger :: "string list"
  jv_delayed :: "queue_name \<Rightarrow> score option"
  jv_waiting :: "queue_name \<Rightarrow> nat \<Rightarrow> score option"
  jv_active :: "score option"
  jv_finished :: "job_state \<Rightarrow> score option"
  jv_terminal :: "string \<Rightarrow> job_state \<Rightarrow> score option"
  jv_all :: "score option"
  jv_clean :: bool

definition jobView :: "string \<Rightarrow> rdata \<Rightarrow> job_id \<Rightarrow> job_view" where
  "jobView p d i = \<lparr>
     jv_hash = mapGet (rd_hashes d (jobKey p i)),
     jv_ledger = rd_lists d (attemptsKey p i),
     jv_delayed = (\<lambda>q. mapGet (rd_zsets d (delayedKey p q)) i),
     jv_waiting = (\<lambda>q sq. mapGet (rd_zsets d (waitingKey p q)) (waitingMember (int sq) i)),
     jv_active = mapGet (rd_zsets d (plainKey p ''active'')) i,
     jv_finished = (\<lambda>st. mapGet (rd_zsets d (finishedKey p (stateText st))) i),
     jv_terminal = (\<lambda>n st. mapGet (rd_zsets d (terminalKey p n (stateText st))) i),
     jv_all = mapGet (rd_zsets d (plainKey p ''all'')) i,
     jv_clean = (rd_zsets d (jobKey p i) = [] \<and> rd_lists d (jobKey p i) = [] \<and> set (rd_sets d (jobKey p i)) = {}
       \<and> rd_strings d (jobKey p i) = None) \<rparr>"

section \<open>Keys of sorted sets\<close>

lemma stateText_no_colon: "CHR '':'' \<notin> set (stateText st)"
  by (cases st) (simp_all add: stateText_def)

lemma stateText_no_bar: "CHR ''|'' \<notin> set (stateText st)"
  by (cases st) (simp_all add: stateText_def)

lemma takeWhile_until: "c \<notin> set xs \<Longrightarrow> takeWhile (\<lambda>x. x \<noteq> c) (xs @ c # ys) = xs"
  by (induction xs) auto

lemma dropWhile_until: "c \<notin> set xs \<Longrightarrow> dropWhile (\<lambda>x. x \<noteq> c) (xs @ c # ys) = c # ys"
  by (induction xs) auto

lemma last_part_unique:
  assumes "c \<notin> set b" and "c \<notin> set b'" and "a @ c # b = a' @ c # b'"
  shows "a = a' \<and> b = b'"
proof -
  have *: "takeWhile (\<lambda>x. x \<noteq> c) (rev (a @ c # b)) = rev b" if "c \<notin> set b" for a b
    using that takeWhile_until [of c "rev b" "rev a"] by simp
  have "rev b = rev b'" using *[OF assms(1)] *[OF assms(2)] assms(3) by metis
  with assms(3) show ?thesis by simp
qed

lemma terminalKey_eq [key_simps]:
  "terminalKey p n (stateText st) = terminalKey p n' (stateText st') \<longleftrightarrow> n = n' \<and> st = st'"
  using last_part_unique [OF stateText_no_colon stateText_no_colon, of n st n' st']
  by (auto simp: terminalKey_def)

lemma zset_key_eqs [key_simps]:
  "delayedKey p q = delayedKey p q' \<longleftrightarrow> q = q'"
  "waitingKey p q = waitingKey p q' \<longleftrightarrow> q = q'"
  "finishedKey p a = finishedKey p b \<longleftrightarrow> a = b"
  "delayedKey p q = plainKey p w \<longleftrightarrow> ''delayed:'' @ q = w" "plainKey p w = delayedKey p q \<longleftrightarrow> w = ''delayed:'' @ q"
  "waitingKey p q = plainKey p w \<longleftrightarrow> ''waiting:'' @ q = w" "plainKey p w = waitingKey p q \<longleftrightarrow> w = ''waiting:'' @ q"
  "finishedKey p q = plainKey p w \<longleftrightarrow> ''finished:'' @ q = w" "plainKey p w = finishedKey p q \<longleftrightarrow> w = ''finished:'' @ q"
  "terminalKey p n q = plainKey p w \<longleftrightarrow> ''terminal:'' @ n @ '':'' @ q = w"
  "plainKey p w = terminalKey p n q \<longleftrightarrow> w = ''terminal:'' @ n @ '':'' @ q"
  "delayedKey p q \<noteq> waitingKey p q'" "waitingKey p q' \<noteq> delayedKey p q"
  "delayedKey p q \<noteq> finishedKey p a" "finishedKey p a \<noteq> delayedKey p q"
  "delayedKey p q \<noteq> terminalKey p n a" "terminalKey p n a \<noteq> delayedKey p q"
  "waitingKey p q \<noteq> finishedKey p a" "finishedKey p a \<noteq> waitingKey p q"
  "waitingKey p q \<noteq> terminalKey p n a" "terminalKey p n a \<noteq> waitingKey p q"
  "finishedKey p b \<noteq> terminalKey p n a" "terminalKey p n a \<noteq> finishedKey p b"
  "bynameKey p n \<noteq> waitingKey p q" "bynameKey p n \<noteq> delayedKey p q" "bynameKey p n \<noteq> finishedKey p a"
  "bynameKey p n \<noteq> terminalKey p n' a"
  "byqueueKey p n \<noteq> waitingKey p q" "byqueueKey p n \<noteq> delayedKey p q" "byqueueKey p n \<noteq> finishedKey p a"
  "byqueueKey p n \<noteq> terminalKey p n' a"
  "waitingKey p q \<noteq> bynameKey p n" "delayedKey p q \<noteq> bynameKey p n" "finishedKey p a \<noteq> bynameKey p n"
  "terminalKey p n' a \<noteq> bynameKey p n"
  "waitingKey p q \<noteq> byqueueKey p n" "delayedKey p q \<noteq> byqueueKey p n" "finishedKey p a \<noteq> byqueueKey p n"
  "terminalKey p n' a \<noteq> byqueueKey p n"
  "plainKey p w = bynameKey p n \<longleftrightarrow> w = ''byname:'' @ n" "plainKey p w = byqueueKey p n \<longleftrightarrow> w = ''byqueue:'' @ n"
  "flowIndexKey p f \<noteq> waitingKey p q" "flowIndexKey p f \<noteq> delayedKey p q" "flowIndexKey p f \<noteq> finishedKey p a"
  "flowIndexKey p f \<noteq> terminalKey p n a" "waitingKey p q \<noteq> flowIndexKey p f" "delayedKey p q \<noteq> flowIndexKey p f"
  "finishedKey p a \<noteq> flowIndexKey p f" "terminalKey p n a \<noteq> flowIndexKey p f"
  "plainKey p w = flowIndexKey p f \<longleftrightarrow> w = ''flowchildren:'' @ f"
  by (auto simp: delayedKey_def waitingKey_def finishedKey_def terminalKey_def plainKey_def bynameKey_def
      byqueueKey_def flowIndexKey_def)

lemma pad16_digits: "0 \<le> n \<Longrightarrow> c \<in> set (pad16 n) \<Longrightarrow> isDigit c"
  using natToString_digits [of c "nat n"]
  by (auto simp: pad16_def intToString_def isDigit_def split: if_splits)

lemma parseDigits_zeros: "parseDigits 0 (replicate k CHR ''0'' @ ds) = parseDigits 0 ds"
  by (induction k) (auto simp: isDigit_def)

lemma parseDigits_pad16: "0 \<le> n \<Longrightarrow> parseDigits 0 (pad16 n) = Some (nat n)"
  by (simp add: pad16_def parseDigits_zeros intToString_def parseDigits_natToString)

lemma pad16_no_colon: "0 \<le> n \<Longrightarrow> CHR '':'' \<notin> set (pad16 n)"
  using pad16_digits [of n "CHR '':''"] by (auto simp: isDigit_def)

lemma waitingMember_eq:
  assumes "0 \<le> a" and "0 \<le> b"
  shows "waitingMember a i = waitingMember b j \<longleftrightarrow> a = b \<and> i = j"
proof
  assume eq: "waitingMember a i = waitingMember b j"
  have tw: "takeWhile (\<lambda>c. c \<noteq> CHR '':'') (waitingMember n k) = pad16 n" if "0 \<le> n" for n k
    using pad16_no_colon [OF that] by (simp add: waitingMember_def takeWhile_until)
  have "pad16 a = pad16 b" using tw [OF assms(1), of i] tw [OF assms(2), of j] eq by simp
  then have "nat a = nat b" using parseDigits_pad16 assms by (metis option.inject)
  with assms have "a = b" by (simp add: nat_eq_iff)
  with eq show "a = b \<and> i = j" by (simp add: waitingMember_def)
qed simp

lemma store_key_eqs [key_simps]:
  "jobKey p i \<noteq> finishedKey p q" "jobKey p i \<noteq> terminalKey p n' q" "jobKey p i \<noteq> bynameKey p n" "jobKey p i \<noteq> byqueueKey p n"
  "attemptsKey p i \<noteq> finishedKey p q" "attemptsKey p i \<noteq> terminalKey p n' q" "attemptsKey p i \<noteq> delayedKey p q"
  "attemptsKey p i \<noteq> waitingKey p q"
  "attemptsKey p i \<noteq> dedupeStoreKey p n k" "dedupeStoreKey p n k \<noteq> attemptsKey p i"
  "delayedKey p q \<noteq> dedupeStoreKey p n k" "waitingKey p q \<noteq> dedupeStoreKey p n k"
  "finishedKey p q \<noteq> dedupeStoreKey p n k" "terminalKey p n' q \<noteq> dedupeStoreKey p n k"
  "plainKey p w = dedupeStoreKey p n k \<longleftrightarrow> w = ''dedupe:'' @ n @ CHR 0x00 # k"
  "delayedKey p q \<noteq> jobKey p i" "waitingKey p q \<noteq> jobKey p i" "finishedKey p q \<noteq> jobKey p i"
  "terminalKey p n' q \<noteq> jobKey p i"
  "delayedKey p q \<noteq> attemptsKey p i" "waitingKey p q \<noteq> attemptsKey p i" "finishedKey p q \<noteq> attemptsKey p i"
  "terminalKey p n' q \<noteq> attemptsKey p i"
  "delayedKey p q \<noteq> flowChildKey p i k" "waitingKey p q \<noteq> flowChildKey p i k" "finishedKey p q \<noteq> flowChildKey p i k"
  "terminalKey p n' q \<noteq> flowChildKey p i k"
  "plainKey p w = flowChildKey p i k \<longleftrightarrow> w = ''flowchild:'' @ i @ CHR 0x00 # k"
  by (auto simp: attemptsKey_def dedupeStoreKey_def delayedKey_def waitingKey_def finishedKey_def terminalKey_def
      plainKey_def jobKey_def flowChildKey_def bynameKey_def byqueueKey_def)

section \<open>How writes change the view\<close>

named_theorems view_simps "the view of a job after a write"

lemma mapGet_puts:
  "mapGet (fold (\<lambda>(f, v). mapSet f v) fvs m) = mapGet m ++ map_of (rev fvs)"
  by (induction fvs arbitrary: m) (auto simp: fun_eq_iff map_add_def split: option.split)

lemma view_hset_job [view_simps]:
  "jobView p (hsetD (jobKey p j) fvs d) i =
     (if i = j then (jobView p d i)\<lparr>jv_hash := jv_hash (jobView p d i) ++ map_of (rev fvs)\<rparr>
      else jobView p d i)"
  by (simp add: jobView_def redis_simps key_simps mapGet_puts)

lemma view_hincrby_counts [view_simps]:
  "jobView p (hincrbyD (plainKey p ''counts'') f n d) i = jobView p d i"
  by (simp add: jobView_def redis_simps key_simps)

lemma view_hincrby_job [view_simps]:
  "jobView p (hincrbyD (jobKey p j) f n d) i =
     (if i = j then (jobView p d i)\<lparr>jv_hash := (jv_hash (jobView p d i))
                       (f \<mapsto> intToString (textNumber (jv_hash (jobView p d i) f) + n))\<rparr>
      else jobView p d i)"
  by (auto simp: jobView_def redis_simps key_simps)

lemma view_rpush [view_simps]:
  "jobView p (rpushD (attemptsKey p j) v d) i =
     (if i = j then (jobView p d i)\<lparr>jv_ledger := jv_ledger (jobView p d i) @ [v]\<rparr> else jobView p d i)"
  by (simp add: jobView_def redis_simps key_simps)

lemma view_set_string [view_simps]: "jobView p (setD (plainKey p ''seq'') v d) i = jobView p d i"
  "jobView p (setD (plainKey p ''flowoutbox:seq'') v d) i = jobView p d i"
  by (simp_all add: jobView_def redis_simps key_simps)

lemma view_delayed [view_simps]:
  "jobView p (zaddD (delayedKey p q) s j d) i =
     (if i = j then (jobView p d i)\<lparr>jv_delayed := (jv_delayed (jobView p d i))(q \<mapsto> s)\<rparr> else jobView p d i)"
  "jobView p (zremD (delayedKey p q) j d) i =
     (if i = j then (jobView p d i)\<lparr>jv_delayed := (jv_delayed (jobView p d i))(q := None)\<rparr> else jobView p d i)"
  by (auto simp: jobView_def redis_simps key_simps map_simps fun_eq_iff)

lemma view_active [view_simps]:
  "jobView p (zaddD (plainKey p ''active'') s j d) i =
     (if i = j then (jobView p d i)\<lparr>jv_active := Some s\<rparr> else jobView p d i)"
  "jobView p (zremD (plainKey p ''active'') j d) i =
     (if i = j then (jobView p d i)\<lparr>jv_active := None\<rparr> else jobView p d i)"
  by (auto simp: jobView_def redis_simps key_simps map_simps fun_eq_iff)

lemma view_all [view_simps]:
  "jobView p (zaddD (plainKey p ''all'') s j d) i =
     (if i = j then (jobView p d i)\<lparr>jv_all := Some s\<rparr> else jobView p d i)"
  "jobView p (zremD (plainKey p ''all'') j d) i =
     (if i = j then (jobView p d i)\<lparr>jv_all := None\<rparr> else jobView p d i)"
  by (auto simp: jobView_def redis_simps key_simps map_simps fun_eq_iff)

lemma view_finished:
  "jobView p (zaddD (finishedKey p (stateText st)) s j d) i =
     (if i = j then (jobView p d i)\<lparr>jv_finished := (jv_finished (jobView p d i))(st \<mapsto> s)\<rparr> else jobView p d i)"
  "jobView p (zremD (finishedKey p (stateText st)) j d) i =
     (if i = j then (jobView p d i)\<lparr>jv_finished := (jv_finished (jobView p d i))(st := None)\<rparr> else jobView p d i)"
  by (auto simp: jobView_def redis_simps key_simps map_simps fun_eq_iff)

lemma view_terminal:
  "jobView p (zaddD (terminalKey p n (stateText st)) s j d) i =
     (if i = j then (jobView p d i)\<lparr>jv_terminal := (jv_terminal (jobView p d i))
                       (n := (jv_terminal (jobView p d i) n)(st \<mapsto> s))\<rparr>
      else jobView p d i)"
  "jobView p (zremD (terminalKey p n (stateText st)) j d) i =
     (if i = j then (jobView p d i)\<lparr>jv_terminal := (jv_terminal (jobView p d i))
                       (n := (jv_terminal (jobView p d i) n)(st := None))\<rparr>
      else jobView p d i)"
  by (auto simp: jobView_def redis_simps key_simps map_simps fun_eq_iff)

lemma state_texts:
  "stateText Completed = ''completed''" "stateText Failed = ''failed''" "stateText Cancelled = ''cancelled''"
  by (simp_all add: stateText_def)

lemmas view_ended [view_simps] =
  view_finished [where st = Completed, unfolded state_texts] view_finished [where st = Failed, unfolded state_texts]
  view_finished [where st = Cancelled, unfolded state_texts]
  view_terminal [where st = Completed, unfolded state_texts] view_terminal [where st = Failed, unfolded state_texts]
  view_terminal [where st = Cancelled, unfolded state_texts]

lemma view_index [view_simps]:
  "jobView p (zaddD (bynameKey p n) s m d) i = jobView p d i" "jobView p (zaddD (byqueueKey p n) s m d) i = jobView p d i"
  "jobView p (zremD (bynameKey p n) m d) i = jobView p d i" "jobView p (zremD (byqueueKey p n) m d) i = jobView p d i"
  "jobView p (zaddD (plainKey p ''flowoutbox'') s m d) i = jobView p d i"
  "jobView p (zaddD (plainKey p ''dedupes'') s m d) i = jobView p d i"
  "jobView p (zremD (plainKey p ''dedupes'') m d) i = jobView p d i"
  "jobView p (zremD (plainKey p ''flowpending'') m d) i = jobView p d i"
  "jobView p (zremD (plainKey p ''flowcascade'') m d) i = jobView p d i"
  by (simp_all add: jobView_def redis_simps key_simps)

text \<open>Waiting members carry the counter, so the view records the score for each counter value.\<close>

lemma view_waiting [view_simps]:
  assumes "0 \<le> sq"
  shows "jobView p (zaddD (waitingKey p q) s (waitingMember sq j) d) i =
     (if i = j then (jobView p d i)\<lparr>jv_waiting := (jv_waiting (jobView p d i))
                       (q := (jv_waiting (jobView p d i) q)(nat sq \<mapsto> s))\<rparr>
      else jobView p d i)"
    and "jobView p (zremD (waitingKey p q) (waitingMember sq j) d) i =
     (if i = j then (jobView p d i)\<lparr>jv_waiting := (jv_waiting (jobView p d i))
                       (q := (jv_waiting (jobView p d i) q)(nat sq := None))\<rparr>
      else jobView p d i)"
  using assms
  by (auto simp: jobView_def redis_simps key_simps map_simps fun_eq_iff waitingMember_eq nat_eq_iff)

lemma view_del_dedupe [view_simps]: "jobView p (delD (dedupeStoreKey p n k) d) i = jobView p d i"
  by (simp add: jobView_def redis_simps key_simps)

lemma view_del_job [view_simps]:
  "jobView p (delD (jobKey p j) d) i =
     (if i = j then (jobView p d i)\<lparr>jv_hash := (\<lambda>_. None), jv_clean := True\<rparr> else jobView p d i)"
  "jobView p (delD (attemptsKey p j) d) i =
     (if i = j then (jobView p d i)\<lparr>jv_ledger := []\<rparr> else jobView p d i)"
  by (auto simp: jobView_def redis_simps key_simps fun_eq_iff)

section \<open>The texts of a job\<close>

definition flowTexts :: "flow_state option \<Rightarrow> (string \<times> string) list" where
  "flowTexts flow =
     (case flow of
        None \<Rightarrow> []
      | Some f \<Rightarrow>
          [(''flowFailFast'', flag (fs_failFast f)), (''flowPending'', intToString (fs_pending f)),
           (''flowCompleted'', intToString (fs_completed f)), (''flowFailed'', intToString (fs_failed f)),
           (''flowCancelled'', intToString (fs_cancelled f))])"

definition rowTexts :: "nat \<Rightarrow> mem_job \<Rightarrow> (string \<times> string) list" where
  "rowTexts n job =
     [(''id'', j_id job), (''name'', j_name job), (''queue'', j_queue job),
      (''payload'', jsonText (j_payload job)), (''metadata'', jsonText (metadataJson (j_metadata job))),
      (''state'', stateText (j_state job)),
      (''priority'', intToString (j_priority job)), (''attemptsMax'', intToString (j_attemptsMax job)),
      (''attemptsMade'', intToString (j_attemptsMade job)), (''stalledCount'', intToString (j_stalledCount job)),
      (''backoff'', showOpt backoffJson (j_backoff job)), (''keep'', showOpt keepJson (j_keep job)),
      (''timeoutMs'', showNum (j_timeoutMs job)), (''cancelRequested'', flag (j_cancelRequested job)),
      (''dedupeKey'', orElse (j_dedupeKey job) []), (''trace'', showOpt traceJson (j_trace job)),
      (''parent'', showOpt parentJson (j_parent job)),
      (''runAt'', intToString (j_runAt job)), (''enqueuedAt'', intToString (j_enqueuedAt job)),
      (''processedAt'', showNum (j_processedAt job)), (''finishedAt'', showNum (j_finishedAt job)),
      (''exit'', showOpt (\<lambda>e. e) (j_exit job)), (''failedReason'', orElse (j_failedReason job) []),
      (''lockToken'', orElse (m_lockToken job) []), (''lockExpiresAt'', showNum (m_lockExpiresAt job)),
      (''seq'', intToString (int n))] @ flowTexts (j_flow job)"

definition attemptEntry :: "attempt_record \<Rightarrow> string" where
  "attemptEntry a =
     attemptText (at_attempt a) (outcomeText (at_outcome a)) (Some (showNum (at_startedAt a)))
       (intToString (at_finishedAt a)) (showOpt (\<lambda>e. e) (at_exit a))"

text \<open>The view of a job whose row carries the counter value \<open>n\<close>, and the view of an absent job.\<close>

definition viewOf :: "nat \<Rightarrow> mem_job \<Rightarrow> job_view" where
  "viewOf n job = \<lparr>
     jv_hash = map_of (rowTexts n job),
     jv_ledger = map attemptEntry (m_attempts job),
     jv_delayed = (\<lambda>q. if j_state job = Delayed \<and> q = j_queue job then Some (Fin (j_runAt job)) else None),
     jv_waiting = (\<lambda>q k. if j_state job = Waiting \<and> q = j_queue job \<and> k = n
                         then Some (Fin (- j_priority job)) else None),
     jv_active = (if j_state job = Active then map_option Fin (m_lockExpiresAt job) else None),
     jv_finished = (\<lambda>st. if st = j_state job \<and> st \<in> TERMINAL_STATES then map_option Fin (j_finishedAt job) else None),
     jv_terminal = (\<lambda>name st. if name = j_name job \<and> st = j_state job \<and> st \<in> TERMINAL_STATES
                              then map_option Fin (j_finishedAt job) else None),
     jv_all = Some (Fin (j_enqueuedAt job)), jv_clean = True \<rparr>"

definition emptyView :: job_view where
  "emptyView = \<lparr>jv_hash = (\<lambda>_. None), jv_ledger = [], jv_delayed = (\<lambda>_. None), jv_waiting = (\<lambda>_ _. None),
     jv_active = None, jv_finished = (\<lambda>_. None), jv_terminal = (\<lambda>_ _. None), jv_all = None, jv_clean = True\<rparr>"

text \<open>A record whose optional texts and numbers have a distinguishable text: what the driver can store.\<close>

definition storable :: "mem_job \<Rightarrow> bool" where
  "storable job \<longleftrightarrow> j_dedupeKey job \<noteq> Some [] \<and> j_failedReason job \<noteq> Some []
     \<and> (case j_backoff job of None \<Rightarrow> True | Some b \<Rightarrow> integralBackoff b)
     \<and> (case j_keep job of None \<Rightarrow> True | Some k \<Rightarrow> flatOk k)"

lemma flag_eq [simp]: "flag b = ''1'' \<longleftrightarrow> b" "Some (flag b) = Some ''1'' \<longleftrightarrow> b"
  by (simp_all add: flag_def)

lemma optionalString_orElse [simp]: "x \<noteq> Some [] \<Longrightarrow> optionalString (Some (orElse x [])) = x"
  by (cases x) (auto simp: optionalString_def isBlank_def)

lemma optionalString_None [simp]: "optionalString None = None"
  by (simp add: optionalString_def)

lemma optionalString_int [simp]: "optionalString (Some (intToString i)) = Some (intToString i)"
  by (simp add: optionalString_def isBlank_def)

lemma row_fields [simp]:
  "map_of (rowTexts n job) ''id'' = Some (j_id job)"
  "map_of (rowTexts n job) ''name'' = Some (j_name job)"
  "map_of (rowTexts n job) ''queue'' = Some (j_queue job)"
  "map_of (rowTexts n job) ''payload'' = Some (jsonText (j_payload job))"
  "map_of (rowTexts n job) ''metadata'' = Some (jsonText (metadataJson (j_metadata job)))"
  "map_of (rowTexts n job) ''state'' = Some (stateText (j_state job))"
  "map_of (rowTexts n job) ''priority'' = Some (intToString (j_priority job))"
  "map_of (rowTexts n job) ''attemptsMax'' = Some (intToString (j_attemptsMax job))"
  "map_of (rowTexts n job) ''attemptsMade'' = Some (intToString (j_attemptsMade job))"
  "map_of (rowTexts n job) ''stalledCount'' = Some (intToString (j_stalledCount job))"
  "map_of (rowTexts n job) ''backoff'' = Some (showOpt backoffJson (j_backoff job))"
  "map_of (rowTexts n job) ''keep'' = Some (showOpt keepJson (j_keep job))"
  "map_of (rowTexts n job) ''timeoutMs'' = Some (showNum (j_timeoutMs job))"
  "map_of (rowTexts n job) ''cancelRequested'' = Some (flag (j_cancelRequested job))"
  "map_of (rowTexts n job) ''dedupeKey'' = Some (orElse (j_dedupeKey job) [])"
  "map_of (rowTexts n job) ''trace'' = Some (showOpt traceJson (j_trace job))"
  "map_of (rowTexts n job) ''parent'' = Some (showOpt parentJson (j_parent job))"
  "map_of (rowTexts n job) ''runAt'' = Some (intToString (j_runAt job))"
  "map_of (rowTexts n job) ''enqueuedAt'' = Some (intToString (j_enqueuedAt job))"
  "map_of (rowTexts n job) ''processedAt'' = Some (showNum (j_processedAt job))"
  "map_of (rowTexts n job) ''finishedAt'' = Some (showNum (j_finishedAt job))"
  "map_of (rowTexts n job) ''exit'' = Some (showOpt (\<lambda>e. e) (j_exit job))"
  "map_of (rowTexts n job) ''failedReason'' = Some (orElse (j_failedReason job) [])"
  "map_of (rowTexts n job) ''lockToken'' = Some (orElse (m_lockToken job) [])"
  "map_of (rowTexts n job) ''lockExpiresAt'' = Some (showNum (m_lockExpiresAt job))"
  "map_of (rowTexts n job) ''seq'' = Some (intToString (int n))"
  by (simp_all add: rowTexts_def)

lemma row_flow [simp]:
  "map_of (rowTexts n job) ''flowFailFast'' = map_option (\<lambda>f. flag (fs_failFast f)) (j_flow job)"
  "map_of (rowTexts n job) ''flowPending'' = map_option (\<lambda>f. intToString (fs_pending f)) (j_flow job)"
  "map_of (rowTexts n job) ''flowCompleted'' = map_option (\<lambda>f. intToString (fs_completed f)) (j_flow job)"
  "map_of (rowTexts n job) ''flowFailed'' = map_option (\<lambda>f. intToString (fs_failed f)) (j_flow job)"
  "map_of (rowTexts n job) ''flowCancelled'' = map_option (\<lambda>f. intToString (fs_cancelled f)) (j_flow job)"
  by (cases "j_flow job"; simp add: rowTexts_def flowTexts_def)+

lemma toRecord_rowTexts:
  assumes "mapGet hash = map_of (rowTexts n job)" and "storable job"
  shows "toRecord hash = snapshot job"
proof -
  have backoff: "map_option (backoffOf \<circ> backoffJson) (j_backoff job) = j_backoff job"
    and keep: "map_option (keepOf \<circ> keepJson) (j_keep job) = j_keep job"
    using assms(2) by (auto simp: storable_def split: option.splits)
  show ?thesis
    using assms(2) backoff keep
    by (cases "j_flow job")
      (simp_all add: toRecord_def snapshot_def assms(1) Let_def option.map_comp storable_def comp_def
        option.map_ident)
qed

lemma intToString_0: "intToString 0 = ''0''"
  by code_simp

lemma upd_eqI: "m' k = Some v \<Longrightarrow> (\<And>f. f \<noteq> k \<Longrightarrow> m f = m' f) \<Longrightarrow> m(k \<mapsto> v) = m'"
  by (auto simp: fun_eq_iff)

text \<open>Writing a field is updating the record.\<close>

lemma row_updates:
  "(map_of (rowTexts n job))(''state'' \<mapsto> stateText st) = map_of (rowTexts n (job\<lparr>j_state := st\<rparr>))"
  "(map_of (rowTexts n job))(''state'' \<mapsto> ''waiting'') = map_of (rowTexts n (job\<lparr>j_state := Waiting\<rparr>))"
  "(map_of (rowTexts n job))(''state'' \<mapsto> ''delayed'') = map_of (rowTexts n (job\<lparr>j_state := Delayed\<rparr>))"
  "(map_of (rowTexts n job))(''state'' \<mapsto> ''active'') = map_of (rowTexts n (job\<lparr>j_state := Active\<rparr>))"
  "(map_of (rowTexts n job))(''state'' \<mapsto> ''waiting-children'') = map_of (rowTexts n (job\<lparr>j_state := WaitingChildren\<rparr>))"
  "(map_of (rowTexts n job))(''state'' \<mapsto> ''completed'') = map_of (rowTexts n (job\<lparr>j_state := Completed\<rparr>))"
  "(map_of (rowTexts n job))(''state'' \<mapsto> ''failed'') = map_of (rowTexts n (job\<lparr>j_state := Failed\<rparr>))"
  "(map_of (rowTexts n job))(''state'' \<mapsto> ''cancelled'') = map_of (rowTexts n (job\<lparr>j_state := Cancelled\<rparr>))"
  "(map_of (rowTexts n job))(''payload'' \<mapsto> jsonText vj) = map_of (rowTexts n (job\<lparr>j_payload := vj\<rparr>))"
  "(map_of (rowTexts n job))(''metadata'' \<mapsto> jsonText (metadataJson vm)) = map_of (rowTexts n (job\<lparr>j_metadata := vm\<rparr>))"
  "(map_of (rowTexts n job))(''priority'' \<mapsto> intToString vi) = map_of (rowTexts n (job\<lparr>j_priority := vi\<rparr>))"
  "(map_of (rowTexts n job))(''attemptsMax'' \<mapsto> intToString vi) = map_of (rowTexts n (job\<lparr>j_attemptsMax := vi\<rparr>))"
  "(map_of (rowTexts n job))(''attemptsMade'' \<mapsto> intToString vi) = map_of (rowTexts n (job\<lparr>j_attemptsMade := vi\<rparr>))"
  "(map_of (rowTexts n job))(''stalledCount'' \<mapsto> intToString vi) = map_of (rowTexts n (job\<lparr>j_stalledCount := vi\<rparr>))"
  "(map_of (rowTexts n job))(''runAt'' \<mapsto> intToString vi) = map_of (rowTexts n (job\<lparr>j_runAt := vi\<rparr>))"
  "(map_of (rowTexts n job))(''enqueuedAt'' \<mapsto> intToString vi) = map_of (rowTexts n (job\<lparr>j_enqueuedAt := vi\<rparr>))"
  "(map_of (rowTexts n job))(''attemptsMade'' \<mapsto> ''0'') = map_of (rowTexts n (job\<lparr>j_attemptsMade := 0\<rparr>))"
  "(map_of (rowTexts n job))(''stalledCount'' \<mapsto> ''0'') = map_of (rowTexts n (job\<lparr>j_stalledCount := 0\<rparr>))"
  "(map_of (rowTexts n job))(''backoff'' \<mapsto> showOpt backoffJson vb) = map_of (rowTexts n (job\<lparr>j_backoff := vb\<rparr>))"
  "(map_of (rowTexts n job))(''keep'' \<mapsto> showOpt keepJson vk) = map_of (rowTexts n (job\<lparr>j_keep := vk\<rparr>))"
  "(map_of (rowTexts n job))(''timeoutMs'' \<mapsto> showNum vn) = map_of (rowTexts n (job\<lparr>j_timeoutMs := vn\<rparr>))"
  "(map_of (rowTexts n job))(''trace'' \<mapsto> showOpt traceJson vt) = map_of (rowTexts n (job\<lparr>j_trace := vt\<rparr>))"
  "(map_of (rowTexts n job))(''cancelRequested'' \<mapsto> ''0'') = map_of (rowTexts n (job\<lparr>j_cancelRequested := False\<rparr>))"
  "(map_of (rowTexts n job))(''cancelRequested'' \<mapsto> ''1'') = map_of (rowTexts n (job\<lparr>j_cancelRequested := True\<rparr>))"
  "(map_of (rowTexts n job))(''processedAt'' \<mapsto> intToString vi) = map_of (rowTexts n (job\<lparr>j_processedAt := Some vi\<rparr>))"
  "(map_of (rowTexts n job))(''processedAt'' \<mapsto> []) = map_of (rowTexts n (job\<lparr>j_processedAt := None\<rparr>))"
  "(map_of (rowTexts n job))(''finishedAt'' \<mapsto> intToString vi) = map_of (rowTexts n (job\<lparr>j_finishedAt := Some vi\<rparr>))"
  "(map_of (rowTexts n job))(''finishedAt'' \<mapsto> []) = map_of (rowTexts n (job\<lparr>j_finishedAt := None\<rparr>))"
  "(map_of (rowTexts n job))(''exit'' \<mapsto> showOpt (\<lambda>e. e) ve) = map_of (rowTexts n (job\<lparr>j_exit := ve\<rparr>))"
  "(map_of (rowTexts n job))(''exit'' \<mapsto> []) = map_of (rowTexts n (job\<lparr>j_exit := None\<rparr>))"
  "(map_of (rowTexts n job))(''failedReason'' \<mapsto> []) = map_of (rowTexts n (job\<lparr>j_failedReason := None\<rparr>))"
  "(map_of (rowTexts n job))(''failedReason'' \<mapsto> c # cs) = map_of (rowTexts n (job\<lparr>j_failedReason := Some (c # cs)\<rparr>))"
  "(map_of (rowTexts n job))(''lockToken'' \<mapsto> []) = map_of (rowTexts n (job\<lparr>m_lockToken := None\<rparr>))"
  "(map_of (rowTexts n job))(''lockExpiresAt'' \<mapsto> []) = map_of (rowTexts n (job\<lparr>m_lockExpiresAt := None\<rparr>))"
  "(map_of (rowTexts n job))(''lockExpiresAt'' \<mapsto> intToString vi) = map_of (rowTexts n (job\<lparr>m_lockExpiresAt := Some vi\<rparr>))"
  "0 \<le> k \<Longrightarrow> (map_of (rowTexts n job))(''seq'' \<mapsto> intToString k) = map_of (rowTexts (nat k) job)"
  by (rule upd_eqI; simp add: rowTexts_def stateText_def flag_def showNum_def showOpt_def intToString_0
    split del: if_split cong: if_cong)+

lemma row_lock:
  "(map_of (rowTexts n job))(''lockToken'' \<mapsto> vs) = map_of (rowTexts n (job\<lparr>m_lockToken := Some vs\<rparr>))"
  by (rule upd_eqI; simp add: rowTexts_def split del: if_split cong: if_cong)

text \<open>The counter and the ledger of the record are not in the hash.\<close>

lemma row_irrelevant [simp]:
  "rowTexts n (job\<lparr>m_attempts := a\<rparr>) = rowTexts n job" "rowTexts n (job\<lparr>m_seq := k\<rparr>) = rowTexts n job"
  by (simp_all add: rowTexts_def)

end
