(* ===== verification/RedisSim.thy ===== *)
theory RedisSim
  imports RedisView
begin

text \<open>
  The effect of each script on the view of every job. Stated inside the locale \<open>redis_server\<close>, so they
  hold of every server that keeps the documented effects of its commands.
\<close>

lemma view_Some [simp]:
  "jv_hash (viewOf n job) = map_of (rowTexts n job)"
  "jv_ledger (viewOf n job) = map attemptEntry (m_attempts job)"
  "jv_clean (viewOf n job)"
  by (simp_all add: viewOf_def)

lemma view_None [simp]: "jv_hash emptyView = (\<lambda>_. None)" "jv_ledger emptyView = []" "jv_clean emptyView"
  by (simp_all add: emptyView_def)

lemma exists_view: "jv_clean (jobView p d i) \<Longrightarrow> existsD (jobKey p i) d \<longleftrightarrow> jv_hash (jobView p d i) \<noteq> (\<lambda>_. None)"
  by (auto simp: existsD_def jobView_def map_of_eq_empty_iff)

lemma row_present [simp]: "map_of (rowTexts n job) \<noteq> (\<lambda>_. None)"
  by (metis option.distinct(1) row_fields(1))

context redis_server
begin

lemma hget_job: "rc_hget rd (jobKey p i) f r = jv_hash (jobView p (view r) i) f"
  by (simp add: hget jobView_def)

lemma countsAdd_view [simp]: "jobView p (view (countsAdd rd p q st n r)) i = jobView p (view r) i"
  by (simp add: countsAdd_def writes view_simps)

lemma appendAttempt_view:
  "jobView p (view (appendAttempt rd p j out st fin ex r)) i =
     (if i = j then (jobView p (view r) i)\<lparr>jv_ledger := jv_ledger (jobView p (view r) i)
                       @ [attemptText (length (jv_ledger (jobView p (view r) i)) + 1) out st fin ex]\<rparr>
      else jobView p (view r) i)"
  by (auto simp: appendAttempt_def writes view_simps Let_def lrange) (simp_all add: jobView_def)

lemma appendOutbox_view [simp]: "jobView p (view (luaAppendOutbox rd p j out r)) i = jobView p (view r) i"
  by (simp add: luaAppendOutbox_def writes view_simps Let_def split_beta)

lemma releaseDedupe_view [simp]: "jobView p (view (luaReleaseDedupe rd p n k j now r)) i = jobView p (view r) i"
  by (simp add: luaReleaseDedupe_def writes view_simps Let_def)

lemma luaKeep_none: "isBlank keep \<Longrightarrow> luaApplyKeep rd p n st keep now r = r"
  by (simp add: luaApplyKeep_def)

lemmas job_writes = writes view_simps hget_job appendAttempt_view

lemma incr_counter: "fst (rc_incr rd k r) = textNumber (rd_strings (view r) k) + 1"
  by (rule incr_value)

lemma addWaiting_view:
  "0 \<le> sq \<Longrightarrow> jobView p (view (addWaiting rd p q pr sq j r)) i =
     (if i = j then (jobView p (view r) i)\<lparr>jv_waiting := (jv_waiting (jobView p (view r) i))
                       (q := (jv_waiting (jobView p (view r) i) q)(nat sq \<mapsto> Fin (- pr)))\<rparr>
      else jobView p (view r) i)"
  by (simp add: addWaiting_def writes view_simps)

lemma remWaiting_view:
  "jv_hash (jobView p (view r) j) ''seq'' = Some (intToString (int n)) \<Longrightarrow>
   jobView p (view (remWaiting rd p q j r)) i =
     (if i = j then (jobView p (view r) i)\<lparr>jv_waiting := (jv_waiting (jobView p (view r) i))
                       (q := (jv_waiting (jobView p (view r) i) q)(n := None))\<rparr>
      else jobView p (view r) i)"
  by (simp add: remWaiting_def writes view_simps hget_job Let_def)

lemmas script_views = job_writes addWaiting_view remWaiting_view view_finished view_terminal

end

section \<open>Counter and paused queues\<close>

definition globalView :: "string \<Rightarrow> rdata \<Rightarrow> int \<times> queue_name set" where
  "globalView p d = (textNumber (rd_strings d (plainKey p ''seq'')), set (rd_sets d (plainKey p ''paused'')))"

named_theorems global_simps "the counter and the paused set after a write"

lemma global_writes [global_simps]:
  "globalView p (hsetD k fvs d) = globalView p d" "globalView p (hincrbyD k f n d) = globalView p d"
  "globalView p (zaddD k s m d) = globalView p d" "globalView p (zremD k m d) = globalView p d"
  "globalView p (rpushD k v d) = globalView p d"
  by (simp_all add: globalView_def redis_simps)

lemma global_del [global_simps]:
  "globalView p (delD (jobKey p i) d) = globalView p d" "globalView p (delD (attemptsKey p i) d) = globalView p d"
  "globalView p (delD (dedupeStoreKey p n k) d) = globalView p d"
  "globalView p (delD (flowIndexKey p i) d) = globalView p d" "globalView p (delD (flowChildKey p i k) d) = globalView p d"
  by (simp_all add: globalView_def redis_simps key_simps)

lemma global_outbox_seq [global_simps]: "globalView p (setD (plainKey p ''flowoutbox:seq'') v d) = globalView p d"
  by (simp add: globalView_def redis_simps key_simps)

lemma global_seq [global_simps]:
  "globalView p (setD (plainKey p ''seq'') (intToString v) d) = (v, snd (globalView p d))"
  by (simp add: globalView_def redis_simps key_simps)

lemma seq_global: "textNumber (rd_strings d (plainKey p ''seq'')) = fst (globalView p d)"
  by (simp add: globalView_def)

context redis_server
begin

lemma global_steps [global_simps]:
  "globalView p (view (countsAdd rd p q st n r)) = globalView p (view r)"
  "globalView p (view (appendAttempt rd p j out sta fin ex r)) = globalView p (view r)"
  "globalView p (view (luaAppendOutbox rd p j out r)) = globalView p (view r)"
  "globalView p (view (luaReleaseDedupe rd p nm k j now r)) = globalView p (view r)"
  "globalView p (view (addWaiting rd p q pr sq j r)) = globalView p (view r)"
  "globalView p (view (remWaiting rd p q j r)) = globalView p (view r)"
  by (simp_all add: countsAdd_def appendAttempt_def luaAppendOutbox_def luaReleaseDedupe_def addWaiting_def
      remWaiting_def writes global_simps Let_def split_beta)

lemma incr_seq: "fst (rc_incr rd (plainKey p ''seq'') r) = fst (globalView p (view r)) + 1"
  by (simp add: globalView_def incr_value)

lemma incr_global [global_simps]:
  "globalView p (view (snd (rc_incr rd (plainKey p ''seq'') r))) = (fst (globalView p (view r)) + 1, snd (globalView p (view r)))"
  by (simp add: incr global_simps) (simp add: globalView_def)

end

section \<open>Scripts that end or return a claimed job\<close>

lemma viewOf_hash [simp]:
  "(viewOf n job)\<lparr>jv_hash := map_of (rowTexts n (job\<lparr>j_attemptsMade := k\<rparr>))\<rparr> = viewOf n (job\<lparr>j_attemptsMade := k\<rparr>)"
  by (simp add: viewOf_def cong: if_cong)

context redis_server
begin

lemma luaFinish_view:
  assumes "jobView p (view r) j = (viewOf n job)\<lparr>jv_active := None\<rparr>" and "j_state job = Active"
    and "j_keep job = None" and "st \<in> TERMINAL_STATES"
  shows "jobView p (view (luaFinish rd p j (j_queue job) (j_name job) (Some (showNum (j_processedAt job))) now
      (stateText st) (if storeExit then Some (showOpt (\<lambda>e. e) ex) else None) (outcomeText out) (showOpt (\<lambda>e. e) ex) r)) i =
    (if i = j then viewOf n (recordAttempt out now ex ((clearLock job)\<lparr>j_cancelRequested := False, j_state := st,
                        j_exit := (if storeExit then ex else j_exit job), j_finishedAt := Some now\<rparr>))
     else jobView p (view r) i)"
  using assms
  by (cases storeExit; auto simp: luaFinish_def Let_def script_views luaKeep_none showOpt_def [of keepJson]
      row_updates viewOf_def fun_eq_iff attemptEntry_def recordAttempt_def clearLock_def)
    (simp_all add: rowTexts_def)

lemma luaFinish_global:
  assumes "jobView p (view r) j = (viewOf n job)\<lparr>jv_active := None\<rparr>" and "j_keep job = None"
    and "st \<in> TERMINAL_STATES"
  shows "globalView p (view (luaFinish rd p j q nm sta now (stateText st) ex out ledger r)) = globalView p (view r)"
  using assms
  by (cases ex) (auto simp: luaFinish_def Let_def script_views luaKeep_none showOpt_def [of keepJson] global_simps)

lemma luaFinishCancelled_view:
  assumes "jobView p (view r) j = (viewOf n job)\<lparr>jv_active := None\<rparr>" and "j_state job = Active" and "j_keep job = None"
  shows "jobView p (view (luaFinishCancelled rd p j (j_queue job) (j_name job) (Some (showNum (j_processedAt job))) now r)) i =
    (if i = j then viewOf n (recordAttempt ACancelled now None ((clearLock job)\<lparr>j_cancelRequested := False, j_state := Cancelled,
                        j_finishedAt := Some now\<rparr>))
     else jobView p (view r) i)"
    and "globalView p (view (luaFinishCancelled rd p j (j_queue job) (j_name job) (Some (showNum (j_processedAt job))) now r))
      = globalView p (view r)"
  using assms
  by (auto simp: luaFinishCancelled_def Let_def script_views luaKeep_none showOpt_def [of keepJson] global_simps
      row_updates viewOf_def fun_eq_iff attemptEntry_def recordAttempt_def clearLock_def outcomeText_def showOpt_def)
    (simp_all add: rowTexts_def)

lemma luaAckRetry_view:
  assumes "jobView p (view r) j = (viewOf n job)\<lparr>jv_active := None\<rparr>" and "j_state job = Active"
    and "0 \<le> fst (globalView p (view r))" and "0 \<le> delayMs"
  shows "jobView p (view (luaAckRetry rd p j (j_queue job) (Some (showNum (j_processedAt job))) (showOpt (\<lambda>e. e) ex) delayMs now r)) i =
    (if i = j then viewOf (nat (fst (globalView p (view r)) + 1))
       ((recordAttempt ARetried now ex (clearLock job))\<lparr>j_runAt := now + delayMs,
          j_state := (if delayMs > 0 then Delayed else Waiting)\<rparr>)
     else jobView p (view r) i)"
    and "globalView p (view (luaAckRetry rd p j (j_queue job) (Some (showNum (j_processedAt job))) (showOpt (\<lambda>e. e) ex) delayMs now r))
      = (fst (globalView p (view r)) + 1, snd (globalView p (view r)))"
  using assms
  by (auto simp: luaAckRetry_def Let_def split_beta incr_seq seq_global script_views global_simps
      row_updates viewOf_def fun_eq_iff attemptEntry_def recordAttempt_def clearLock_def outcomeText_def)
    (simp_all add: rowTexts_def)

end

end
