(* ===== verification/RedisAgree.thy ===== *)
theory RedisAgree
  imports RedisSim MemWf Verbs
begin

text \<open>
  The simulation relation between the Redis driver and the in-memory driver. \<open>agree\<close>: for every id the
  server holds exactly the view of the in-memory job (nothing for an absent one), the counters in the
  rows order jobs as the in-memory sequence numbers do, and the paused queues are the same.
  \<open>simulates\<close> adds the waiter registries of the two processes.
\<close>

definition viewIn :: "(job_id \<Rightarrow> nat) \<Rightarrow> mem_store \<Rightarrow> job_id \<Rightarrow> job_view" where
  "viewIn ns s i = (case mapGet (jobs s) i of None \<Rightarrow> emptyView | Some job \<Rightarrow> viewOf (ns i) job)"

definition wakeOf :: "mem_store \<Rightarrow> wake_state" where
  "wakeOf s = \<lparr>wk_version = wakeVersion s, wk_lastBroadcast = lastBroadcast s, wk_lastWake = lastWake s,
     wk_waiters = waiters s, wk_resolved = resolved s, wk_nextWaiter = nextWaiter s\<rparr>"

lemma wakeOf_signal [simp]: "wakeOf (signalWake q s) = signalWakeLocal q (wakeOf s)"
  by (cases q) (simp_all add: wakeOf_def signalWake_def signalWakeLocal_def Let_def)

lemma wakeOf_same [simp]:
  "wakeOf (s\<lparr>jobs := x\<rparr>) = wakeOf s" "wakeOf (s\<lparr>seqNo := n\<rparr>) = wakeOf s" "wakeOf (s\<lparr>flowChildren := fc\<rparr>) = wakeOf s"
  "wakeOf (s\<lparr>outbox := ob\<rparr>) = wakeOf s" "wakeOf (s\<lparr>outboxSeq := on\<rparr>) = wakeOf s" "wakeOf (s\<lparr>dedupes := dd\<rparr>) = wakeOf s"
  "wakeOf (s\<lparr>idCounter := ic\<rparr>) = wakeOf s" "wakeOf (s\<lparr>draws := dn\<rparr>) = wakeOf s" "wakeOf (s\<lparr>paused := pd\<rparr>) = wakeOf s"
  by (simp_all add: wakeOf_def)

lemma wakeOf_fields: "wakeFields s' = wakeFields s \<Longrightarrow> wakeOf s' = wakeOf s"
  by (simp add: wakeOf_def wakeFields_def)

lemma wakeOf_tail [simp]:
  "wakeOf (putJob job s) = wakeOf s" "wakeOf (appendOutbox job t s) = wakeOf s" "wakeOf (releaseDedupe job now s) = wakeOf s"
  by (rule wakeOf_fields, simp)+

section \<open>One job changes\<close>

definition agree :: "string \<Rightarrow> rdata \<Rightarrow> mem_store \<Rightarrow> bool" where
  "agree p d s \<longleftrightarrow> (\<exists>ns. (\<forall>i. jobView p d i = viewIn ns s i)
     \<and> seqsAgree (fst (globalView p d)) ns s)
     \<and> snd (globalView p d) = set (paused s)"

text \<open>A verb that rewrites a job without a new counter value.\<close>

lemma agree_put:
  assumes "agree p d s" and "mapGet (jobs s) j = Some job"
    and "\<And>n i. jobView p d j = viewOf n job \<Longrightarrow>
          jobView p d' i = (if i = j then viewOf n job' else jobView p d i)"
    and "\<And>n. jobView p d j = viewOf n job \<Longrightarrow> globalView p d' = globalView p d"
    and "jobs s' = mapSet j job' (jobs s)" and "paused s' = paused s" and "m_seq job' = m_seq job"
  shows "agree p d' s'"
proof -
  from assms(1) obtain ns where ns: "\<And>i. jobView p d i = viewIn ns s i"
    "seqsAgree (fst (globalView p d)) ns s" and pd: "snd (globalView p d) = set (paused s)"
    unfolding agree_def by blast
  from ns(1) [of j] assms(2) have j: "jobView p d j = viewOf (ns j) job" by (simp add: viewIn_def)
  have "jobView p d' i = viewIn ns s' i" for i
    using assms(3) [OF j, of i] ns(1) [of i] assms(5) by (simp add: viewIn_def)
  moreover have "seqsAgree (fst (globalView p d')) ns s'"
    using ns(2) assms(2,5,7) assms(4) [OF j] by (auto simp: seqsAgree_def)
  moreover have "snd (globalView p d') = set (paused s')" using pd assms(4) [OF j] assms(6) by simp
  ultimately show ?thesis unfolding agree_def by blast
qed

text \<open>A verb that writes a job with a fresh counter value.\<close>

lemma agree_fresh:
  assumes "agree p d s" and "wellFormed s"
    and "\<And>i. jobView p d' i =
          (if i = j then viewOf (nat (fst (globalView p d) + 1)) job' else jobView p d i)"
    and "globalView p d' = (fst (globalView p d) + 1, snd (globalView p d))"
    and "jobs s' = mapSet j job' (jobs s)" and "paused s' = paused s" and "m_seq job' = seqNo s + 1"
  shows "agree p d' s'"
proof -
  from assms(1) obtain ns where ns: "\<And>i. jobView p d i = viewIn ns s i"
    and sq: "seqsAgree (fst (globalView p d)) ns s" and pd: "snd (globalView p d) = set (paused s)"
    unfolding agree_def by blast
  let ?c = "fst (globalView p d)" and ?ns = "ns(j := nat (fst (globalView p d) + 1))"
  have "jobView p d' i = viewIn ?ns s' i" for i
    using assms(3) [of i] ns [of i] assms(5) by (simp add: viewIn_def split: option.split)
  moreover have "seqsAgree (fst (globalView p d')) ?ns s'"
    using seqsAgree_fresh [OF sq assms(2,5,7)] assms(4) by simp
  moreover have "snd (globalView p d') = set (paused s')" using pd assms(4,6) by simp
  ultimately show ?thesis unfolding agree_def by blast
qed

text \<open>A verb that deletes a job.\<close>

lemma agree_drop:
  assumes "agree p d s"
    and "\<And>i. jobView p d' i = (if i = j then emptyView else jobView p d i)"
    and "globalView p d' = globalView p d"
    and "jobs s' = mapDelete j (jobs s)" and "paused s' = paused s"
  shows "agree p d' s'"
proof -
  from assms(1) obtain ns where ns: "\<And>i. jobView p d i = viewIn ns s i"
    and sq: "seqsAgree (fst (globalView p d)) ns s" and pd: "snd (globalView p d) = set (paused s)"
    unfolding agree_def by blast
  have "jobView p d' i = viewIn ns s' i" for i
    using assms(2) [of i] ns [of i] assms(4) by (simp add: viewIn_def map_simps)
  moreover have "seqsAgree (fst (globalView p d')) ns s'"
    using sq unfolding seqsAgree_def assms(3,4) by (auto simp: map_simps split: if_splits)
  ultimately show ?thesis using pd assms(3,5) unfolding agree_def by auto
qed

end
