(* ===== verification/RedisVerbs.thy ===== *)
theory RedisVerbs
  imports RedisAgree RedisDriver MemAdmin MemAck MemEnqueue
begin

text \<open>
  One step of the Redis driver against one step of the in-memory driver. Each lemma takes a store of
  either driver related by \<open>simulates\<close>, runs the same operation on both at the same clock value, and
  concludes that the results are equal and the stores related again.
\<close>

definition simulates :: "'r redis_driver \<Rightarrow> ('r \<Rightarrow> rdata) \<Rightarrow> 'r redis_store \<Rightarrow> mem_store \<Rightarrow> bool" where
  "simulates dr view st s \<longleftrightarrow> agree (dr_prefix dr) (view (rs_server st)) s \<and> rs_wake st = wakeOf s"

section \<open>Replies\<close>

lemma replyOf_reply [simp]: "replyOf (reply kvs) = JObj kvs"
  by (simp only: replyOf_def reply_def parse_jsonText orElse_simps)

lemma jget_JObj [simp]: "jget k (JObj kvs) = map_of kvs k"
  by (simp add: jget_def)

lemma json_reads [simp]:
  "jsonStr (Some (JStr t)) = Some t" "jsonStr None = None" "jsonBool (Some (JBool b)) = b" "jsonBool None = False"
  by (simp_all add: jsonStr_def jsonBool_def)

lemma guarded_replies [simp]:
  "guardedReply i (errorReply ''notfound'') st = (Inl (JobNotFoundError i), st)"
  "guardedReply i (errorReply ''locklost'') st = (Inl (LockLostError i), st)"
  "guardedReply i okReply st = (Inr (), st)"
  "guardedReply i (okWake q) st = (Inr (), wakeUp (Some q) st)"
  by (simp_all add: guardedReply_def errorReply_def okReply_def okWake_def)

lemma verb_replies [simp]:
  "verbReply f d i (errorReply ''notfound'') = Inl (JobNotFoundError i)"
  "verbReply f d i (stateError (Some (stateText a))) = Inl (f a)"
  "verbReply f d i (okQueue q) = Inr (Some q)" "verbReply f d i okReply = Inr None"
  by (simp_all add: verbReply_def errorReply_def stateError_def okQueue_def okReply_def fieldJson_def)

lemma wakeUp_store [simp]:
  "rs_server (wakeUp q st) = rs_server st" "rs_wake (wakeUp q st) = signalWakeLocal q (rs_wake st)"
  by (simp_all add: wakeUp_def)

section \<open>Reading a job\<close>

lemma agree_view:
  assumes "agree p d s"
  obtains n where "jobView p d i = (case mapGet (jobs s) i of None \<Rightarrow> emptyView | Some job \<Rightarrow> viewOf n job)"
  using assms by (auto simp: agree_def viewIn_def split: option.split)

lemma rowTexts_nonempty [simp]: "rowTexts n job \<noteq> []"
  by (simp add: rowTexts_def)

lemma stateText_eq [simp]:
  "stateText a = stateText b \<longleftrightarrow> a = b" "stateText a = ''active'' \<longleftrightarrow> a = Active" "stateText a = ''failed'' \<longleftrightarrow> a = Failed"
  "stateText a = ''delayed'' \<longleftrightarrow> a = Delayed" "stateText a = ''waiting'' \<longleftrightarrow> a = Waiting"
  "stateText a = ''waiting-children'' \<longleftrightarrow> a = WaitingChildren"
  by (cases a; cases b; simp add: stateText_def) (cases a; simp add: stateText_def)+

context redis_server
begin

lemma exists_job:
  assumes "agree p (view r) s"
  shows "rc_exists rd (jobKey p i) r \<longleftrightarrow> mapGet (jobs s) i \<noteq> None"
proof -
  obtain n where v: "jobView p (view r) i = (case mapGet (jobs s) i of None \<Rightarrow> emptyView | Some job \<Rightarrow> viewOf n job)"
    using agree_view [OF assms] .
  have "jv_clean (jobView p (view r) i)" by (simp add: v split: option.split)
  from exists_view [OF this] v show ?thesis by (simp add: exists split: option.split)
qed

lemma lockHeld_job:
  assumes "agree p (view r) s" and "wellFormed s"
  shows "lockHeld rd p i token r \<longleftrightarrow>
    (case mapGet (jobs s) i of None \<Rightarrow> False | Some job \<Rightarrow> j_state job = Active \<and> m_lockToken job = Some token)"
proof -
  obtain n where v: "jobView p (view r) i = (case mapGet (jobs s) i of None \<Rightarrow> emptyView | Some job \<Rightarrow> viewOf n job)"
    using agree_view [OF assms(1)] .
  show ?thesis
  proof (cases "mapGet (jobs s) i")
    case None
    then show ?thesis using v by (simp add: lockHeld_def hget_job)
  next
    case (Some job)
    then have "job_ok i job" using wf_job assms(2) by blast
    then show ?thesis using v Some by (cases "m_lockToken job") (auto simp: lockHeld_def hget_job job_ok_def)
  qed
qed

text \<open>The two cases every verb distinguishes first.\<close>

lemma job_cases:
  assumes "simulates dr view st s" and "wellFormed s"
  obtains (absent) "mapGet (jobs s) j = None" "\<not> rc_exists rd (jobKey (dr_prefix dr) j) (rs_server st)"
      "jobView (dr_prefix dr) (view (rs_server st)) j = emptyView"
    | (present) n job where "mapGet (jobs s) j = Some job" "rc_exists rd (jobKey (dr_prefix dr) j) (rs_server st)"
        "jobView (dr_prefix dr) (view (rs_server st)) j = viewOf n job" "j_id job = j" "job_ok j job"
proof -
  have ag: "agree (dr_prefix dr) (view (rs_server st)) s" using assms(1) by (simp add: simulates_def)
  obtain n where v: "jobView (dr_prefix dr) (view (rs_server st)) j =
      (case mapGet (jobs s) j of None \<Rightarrow> emptyView | Some job \<Rightarrow> viewOf n job)"
    using agree_view [OF ag] .
  show thesis
  proof (cases "mapGet (jobs s) j")
    case None
    then show thesis using exists_job [OF ag, of j] v absent by simp
  next
    case (Some job)
    then show thesis using exists_job [OF ag, of j] v wf_job [OF assms(2) Some] wf_id [OF assms(2) Some] present by simp
  qed
qed

lemma counter_pos: "agree p d s \<Longrightarrow> 0 \<le> fst (globalView p d)"
  by (auto simp: agree_def seqsAgree_def)

section \<open>release\<close>

lemma release_view:
  assumes "jobView p (view r) j = viewOf n job" and "j_state job = Active" and "\<not> j_cancelRequested job"
    and "rc_exists rd (jobKey p j) r" and "lockHeld rd p j token r"
  shows "jobView p (view (snd (luaRelease rd p j token now r))) i =
        (if i = j then viewOf n ((clearLock job)\<lparr>j_state := Waiting\<rparr>) else jobView p (view r) i)"
    and "globalView p (view (snd (luaRelease rd p j token now r))) = globalView p (view r)"
    and "fst (luaRelease rd p j token now r) = okWake (j_queue job)"
  using assms
  by (auto simp: luaRelease_def Let_def script_views global_simps row_updates viewOf_def fun_eq_iff clearLock_def)
    (simp_all add: rowTexts_def)

lemma release_cancel_view:
  assumes "jobView p (view r) j = viewOf n job" and "j_state job = Active" and "j_cancelRequested job"
    and "rc_exists rd (jobKey p j) r" and "lockHeld rd p j token r" and "j_keep job = None"
  shows "jobView p (view (snd (luaRelease rd p j token now r))) i =
        (if i = j then viewOf n (recordAttempt ACancelled now None ((clearLock job)\<lparr>j_cancelRequested := False,
             j_state := Cancelled, j_finishedAt := Some now\<rparr>)) else jobView p (view r) i)"
    and "globalView p (view (snd (luaRelease rd p j token now r))) = globalView p (view r)"
    and "fst (luaRelease rd p j token now r) = okReply"
proof -
  let ?r = "zrem rd (plainKey p ''active'') j r"
  have v: "jobView p (view ?r) i = (if i = j then (viewOf n job)\<lparr>jv_active := None\<rparr> else jobView p (view r) i)" for i
    using assms(1) by (simp add: script_views)
  have e: "luaRelease rd p j token now r =
      (okReply, luaFinishCancelled rd p j (j_queue job) (j_name job) (Some (showNum (j_processedAt job))) now ?r)"
    using assms(1,3,4,5) by (simp add: luaRelease_def Let_def hget_job v)
  have vj: "jobView p (view ?r) j = (viewOf n job)\<lparr>jv_active := None\<rparr>" by (simp add: v)
  note fin = luaFinishCancelled_view [OF vj assms(2,6)]
  show "jobView p (view (snd (luaRelease rd p j token now r))) i =
        (if i = j then viewOf n (recordAttempt ACancelled now None ((clearLock job)\<lparr>j_cancelRequested := False,
             j_state := Cancelled, j_finishedAt := Some now\<rparr>)) else jobView p (view r) i)"
    using fin(1) [of now i] by (simp add: e v)
  show "globalView p (view (snd (luaRelease rd p j token now r))) = globalView p (view r)"
    by (simp add: e fin(2)) (simp add: writes global_simps)
  show "fst (luaRelease rd p j token now r) = okReply" by (simp add: e)
qed

lemma release_sim:
  assumes "simulates dr view st s" and "dr_redis dr = rd" and "wellFormed s" and "unlimited s"
  shows "fst (redisRelease dr now j token st) = fst (release now j token s) \<and>
    simulates dr view (snd (redisRelease dr now j token st)) (snd (release now j token s))"
proof -
  let ?p = "dr_prefix dr" and ?r = "rs_server st"
  have ag: "agree ?p (view ?r) s" and wk: "rs_wake st = wakeOf s" using assms(1) by (simp_all add: simulates_def)
  note held = lockHeld_job [OF ag assms(3), of j token] and ex = exists_job [OF ag, of j]
  show ?thesis
  proof (cases "mapGet (jobs s) j")
    case None
    then show ?thesis using ex ag wk
      by (simp add: redisRelease_def luaRelease_def release_def assms(2) simulates_def)
  next
    case (Some job)
    show ?thesis
    proof (cases "j_state job = Active \<and> m_lockToken job = Some token")
      case False
      then show ?thesis using Some ex held ag wk
        by (simp add: redisRelease_def luaRelease_def release_def assms(2) simulates_def)
    next
      case True
      have id: "j_id job = j" and keep: "j_keep job = None"
        using assms(3,4) Some wf_id by (auto simp: unlimited_def)
      have hl: "lockHeld rd ?p j token ?r" and hx: "rc_exists rd (jobKey ?p j) ?r"
        using held ex Some True by simp_all
      obtain n where "jobView ?p (view ?r) j = viewOf n job" using agree_view [OF ag, of j] Some by auto
      note rel = release_view [OF this _ _ hx hl] release_cancel_view [OF this _ _ hx hl keep]
      show ?thesis
      proof (cases "j_cancelRequested job")
        case c: True
        have "agree ?p (view (snd (luaRelease rd ?p j token now ?r))) (markCancelled job now s)"
          by (rule agree_put [OF ag Some, where job' = "recordAttempt ACancelled now None
                ((clearLock job)\<lparr>j_cancelRequested := False, j_state := Cancelled, j_finishedAt := Some now\<rparr>)"])
            (use True c keep id in \<open>simp_all add: release_cancel_view [OF _ _ _ hx hl] markCancelled_def Let_def
                clearLock_def recordAttempt_def\<close>)
        with rel(6) True c Some wk show ?thesis
          by (simp add: redisRelease_def assms(2) release_def simulates_def split_beta)
            (simp add: markCancelled_def Let_def clearLock_def recordAttempt_def keep)
      next
        case c: False
        have "agree ?p (view (snd (luaRelease rd ?p j token now ?r)))
               (signalWake (Some (j_queue job)) (putJob ((clearLock job)\<lparr>j_state := Waiting\<rparr>) s))"
          by (rule agree_put [OF ag Some, where job' = "(clearLock job)\<lparr>j_state := Waiting\<rparr>"])
            (use True c id in \<open>simp_all add: release_view [OF _ _ _ hx hl] clearLock_def\<close>)
        with rel(3) True c Some wk show ?thesis
          by (simp add: redisRelease_def assms(2) release_def simulates_def split_beta)
      qed
    qed
  qed
qed

end

section \<open>ack\<close>

lemma clearLock_attempts: "clearLock (job\<lparr>j_attemptsMade := k\<rparr>) = (clearLock job)\<lparr>j_attemptsMade := k\<rparr>"
  by (cases job) (simp add: clearLock_def)

context redis_server
begin

lemma ack_start:
  assumes "jobView p (view r) j = viewOf n job"
  shows "jobView p (view (zrem rd (plainKey p ''active'') j (rc_hincrby rd (jobKey p j) ''attemptsMade'' 1 r))) i =
    (if i = j then (viewOf n (job\<lparr>j_attemptsMade := j_attemptsMade job + 1\<rparr>))\<lparr>jv_active := None\<rparr>
     else jobView p (view r) i)"
  using assms by (simp add: script_views row_updates viewOf_def cong: if_cong)

lemma ack_cases:
  assumes "jobView p (view r) j = viewOf n job" and "rc_exists rd (jobKey p j) r" and "lockHeld rd p j token r"
  shows "luaAck rd p j token tag ex delayMs now r =
    (let r2 = zrem rd (plainKey p ''active'') j (rc_hincrby rd (jobKey p j) ''attemptsMade'' 1 r);
         started = Some (showNum (j_processedAt job));
         finish = luaFinish rd p j (j_queue job) (j_name job) started now
     in if tag = ''Complete'' then (okReply, finish ''completed'' (Some ex) ''completed'' ex r2)
        else if tag = ''Fail'' then (okReply, finish ''failed'' (Some ex) ''failed'' ex r2)
        else if tag = ''Cancelled'' \<or> j_cancelRequested job then (okReply, finish ''cancelled'' None ''cancelled'' [] r2)
        else (okWake (j_queue job), luaAckRetry rd p j (j_queue job) started ex delayMs now r2))"
  using assms by (simp add: luaAck_def Let_def hget_job)

lemma ack_finish_agrees:
  assumes ag: "agree p (view r) s" and some: "mapGet (jobs s) j = Some job" and act: "j_state job = Active"
    and keep: "j_keep job = None" and id: "j_id job = j" and ended: "st \<in> TERMINAL_STATES"
  shows "agree p (view (luaFinish rd p j (j_queue job) (j_name job) (Some (showNum (j_processedAt job))) now
        (stateText st) (if storeExit then Some (showOpt (\<lambda>e. e) ex) else None) (outcomeText out) (showOpt (\<lambda>e. e) ex)
        (zrem rd (plainKey p ''active'') j (rc_hincrby rd (jobKey p j) ''attemptsMade'' 1 r))))
      (finishJob st out rep ex storeExit now ((clearLock job)\<lparr>j_attemptsMade := j_attemptsMade job + 1\<rparr>) s)"
proof -
  let ?job = "job\<lparr>j_attemptsMade := j_attemptsMade job + 1\<rparr>"
  let ?r2 = "zrem rd (plainKey p ''active'') j (rc_hincrby rd (jobKey p j) ''attemptsMade'' 1 r)"
  let ?job' = "recordAttempt out now ex ((clearLock ?job)\<lparr>j_cancelRequested := False, j_state := st,
                 j_exit := (if storeExit then ex else j_exit ?job), j_finishedAt := Some now\<rparr>)"
  show ?thesis
  proof (rule agree_put [OF ag some, where job' = ?job'])
    fix n i
    assume v: "jobView p (view r) j = viewOf n job"
    have "jobView p (view ?r2) j = (viewOf n ?job)\<lparr>jv_active := None\<rparr>" using ack_start [OF v, of j] by simp
    from luaFinish_view [OF this _ _ ended, of now storeExit ex out i] act keep
    show "jobView p (view (luaFinish rd p j (j_queue job) (j_name job) (Some (showNum (j_processedAt job))) now
        (stateText st) (if storeExit then Some (showOpt (\<lambda>e. e) ex) else None) (outcomeText out) (showOpt (\<lambda>e. e) ex) ?r2)) i =
        (if i = j then viewOf n ?job' else jobView p (view r) i)"
      using ack_start [OF v, of i] by simp
  next
    fix n
    assume v: "jobView p (view r) j = viewOf n job"
    have "jobView p (view ?r2) j = (viewOf n ?job)\<lparr>jv_active := None\<rparr>" using ack_start [OF v, of j] by simp
    from luaFinish_global [OF this _ ended] keep
    show "globalView p (view (luaFinish rd p j (j_queue job) (j_name job) (Some (showNum (j_processedAt job))) now
        (stateText st) (if storeExit then Some (showOpt (\<lambda>e. e) ex) else None) (outcomeText out) (showOpt (\<lambda>e. e) ex) ?r2)) =
        globalView p (view r)"
      by (simp add: writes global_simps)
  qed (use keep id in \<open>simp_all add: finishJob_def Let_def clearLock_attempts cong: if_cong\<close>)
qed

lemma ack_retry_agrees:
  assumes ag: "agree p (view r) s" and wf: "wellFormed s" and some: "mapGet (jobs s) j = Some job"
    and act: "j_state job = Active" and nc: "\<not> j_cancelRequested job"
  shows "agree p (view (luaAckRetry rd p j (j_queue job) (Some (showNum (j_processedAt job))) (showOpt (\<lambda>e. e) ex) (max 0 d) now
        (zrem rd (plainKey p ''active'') j (rc_hincrby rd (jobKey p j) ''attemptsMade'' 1 r))))
      (ackRetry now d ex ((clearLock job)\<lparr>j_attemptsMade := j_attemptsMade job + 1\<rparr>) s)"
proof -
  let ?job = "job\<lparr>j_attemptsMade := j_attemptsMade job + 1\<rparr>"
  let ?r2 = "zrem rd (plainKey p ''active'') j (rc_hincrby rd (jobKey p j) ''attemptsMade'' 1 r)"
  obtain n where v: "jobView p (view r) j = viewOf n job" using agree_view [OF ag, of j] some by auto
  have v2: "jobView p (view ?r2) j = (viewOf n ?job)\<lparr>jv_active := None\<rparr>" using ack_start [OF v, of j] by simp
  have g: "globalView p (view ?r2) = globalView p (view r)" by (simp add: writes global_simps)
  have c: "0 \<le> fst (globalView p (view r))" using ag by (auto simp: agree_def seqsAgree_def)
  note ret = luaAckRetry_view [OF v2 _ _, of "max 0 d" ex now]
  have id: "j_id job = j" using wf_id wf some by blast
  let ?job' = "(recordAttempt ARetried now ex (clearLock ?job))\<lparr>j_runAt := now + max 0 d,
      j_state := (if d > 0 then Delayed else Waiting), m_seq := seqNo s + 1\<rparr>"
  show ?thesis
  proof (rule agree_fresh [OF ag wf, where job' = ?job' and j = j])
    fix i
    show "jobView p (view (luaAckRetry rd p j (j_queue job) (Some (showNum (j_processedAt job))) (showOpt (\<lambda>e. e) ex) (max 0 d) now ?r2)) i =
        (if i = j then viewOf (nat (fst (globalView p (view r)) + 1)) ?job' else jobView p (view r) i)"
      using ret(1) [of i] act c g ack_start [OF v, of i] by (simp add: viewOf_def cong: if_cong)
  next
    show "globalView p (view (luaAckRetry rd p j (j_queue job) (Some (showNum (j_processedAt job))) (showOpt (\<lambda>e. e) ex) (max 0 d) now ?r2)) =
        (fst (globalView p (view r)) + 1, snd (globalView p (view r)))"
      using ret(2) act c g by simp
  qed (use nc id in \<open>simp_all add: ackRetry_def Let_def clearLock_attempts cong: if_cong\<close>)
qed

end

lemma wakeOf_finish [simp]: "j_keep job = None \<Longrightarrow> wakeOf (finishJob st out rep ex b now job s) = wakeOf s"
  by (simp add: finishJob_def Let_def)

lemma wakeOf_cancel: "j_keep job = None \<Longrightarrow> j_state job \<noteq> WaitingChildren \<Longrightarrow> wakeOf (markCancelled job now s) = wakeOf s"
  by (simp add: markCancelled_def Let_def)

text \<open>A cancelled outcome and a cancel request that meets a retry end the job alike.\<close>

lemma finish_cancelled:
  assumes "j_state job = Active"
  shows "finishJob Cancelled ACancelled TCancelled None False now ((clearLock job)\<lparr>j_attemptsMade := k\<rparr>) s
    = markCancelled ((clearLock job)\<lparr>j_attemptsMade := k\<rparr>) now s"
  using assms
  by (cases job) (simp add: finishJob_def markCancelled_def Let_def clearLock_def recordAttempt_def)

context redis_server
begin

lemma ack_sim:
  assumes "simulates dr view st s" and "dr_redis dr = rd" and "wellFormed s" and "unlimited s"
    and "\<not> isFanOut outcome"
  shows "fst (redisAck dr now j token outcome st) = fst (ack now j token outcome s) \<and>
    simulates dr view (snd (redisAck dr now j token outcome st)) (snd (ack now j token outcome s))"
proof -
  let ?p = "dr_prefix dr" and ?r = "rs_server st"
  let ?ex = "showOpt (\<lambda>e. e) (outcomeExit outcome)"
  let ?d = "case outcome of Retry d _ \<Rightarrow> max 0 d | _ \<Rightarrow> 0"
  have ag: "agree ?p (view ?r) s" and wk: "rs_wake st = wakeOf s" using assms(1) by (simp_all add: simulates_def)
  note held = lockHeld_job [OF ag assms(3), of j token] and ex = exists_job [OF ag, of j]
  have call: "redisAck dr now j token outcome st =
      guardedReply j (fst (luaAck rd ?p j token (outcomeTag outcome) ?ex ?d now ?r))
        (st\<lparr>rs_server := snd (luaAck rd ?p j token (outcomeTag outcome) ?ex ?d now ?r)\<rparr>)"
    using assms(2,5) by (cases outcome) (simp_all add: redisAck_def isFanOut_def split_beta Let_def)
  have nm: "\<not> missingChildId outcome" using assms(5) by (cases outcome) (simp_all add: missingChildId_def isFanOut_def)
  show ?thesis
  proof (cases "mapGet (jobs s) j")
    case None
    then show ?thesis using ex ag wk by (simp add: call luaAck_def ack_def simulates_def)
  next
    case (Some job)
    show ?thesis
    proof (cases "j_state job = Active \<and> m_lockToken job = Some token")
      case False
      then show ?thesis using Some ex held ag wk by (simp add: call luaAck_def ack_def simulates_def)
    next
      case True
      have id: "j_id job = j" and keep: "j_keep job = None"
        using wf_id [OF assms(3) Some] unlimited_job [OF assms(4) Some] by simp_all
      have hl: "lockHeld rd ?p j token ?r" and hx: "rc_exists rd (jobKey ?p j) ?r"
        using held ex Some True by simp_all
      obtain n where v: "jobView ?p (view ?r) j = viewOf n job" using agree_view [OF ag, of j] Some by auto
      note cases = ack_cases [OF v hx hl, unfolded Let_def]
      note fin = ack_finish_agrees [OF ag Some _ keep id, of _ now _ "outcomeExit outcome"]
      let ?job = "(clearLock job)\<lparr>j_attemptsMade := j_attemptsMade job + 1\<rparr>"
      have mem: "ack now j token outcome s = (Inr (), applyOutcome now outcome ?job s)"
        using Some True nm assms(5) by (simp add: ack_def Let_def)
      have okay: ?thesis
        if "luaAck rd ?p j token (outcomeTag outcome) ?ex ?d now ?r = (okReply, r')"
          and "agree ?p (view r') s'" and "wakeOf s' = wakeOf s" and "applyOutcome now outcome ?job s = s'" for r' s'
        using that wk by (simp add: call simulates_def mem)
      note texts = cases outcomeTag_def outcomeExit_def state_texts outcomeText_def showOpt_def applyOutcome_def
      show ?thesis
      proof (cases outcome)
        case (Complete e)
        show ?thesis by (rule okay [OF _ fin [of Completed True ACompleted TCompleted]]; use True keep Complete in \<open>simp add: texts\<close>)
      next
        case (Fail e)
        show ?thesis by (rule okay [OF _ fin [of Failed True AFailed TFailed]]; use True keep Fail in \<open>simp add: texts\<close>)
      next
        case CancelledOutcome
        show ?thesis by (rule okay [OF _ fin [of Cancelled False ACancelled TCancelled]]; use True keep CancelledOutcome in \<open>simp add: texts\<close>)
      next
        case (Retry d e)
        show ?thesis
        proof (cases "j_cancelRequested job")
          case c: True
          have "applyOutcome now outcome ?job s = finishJob Cancelled ACancelled TCancelled None False now ?job s"
            using c True Retry by (simp add: applyOutcome_def ackRetry_def finish_cancelled)
          then show ?thesis
            by (rule okay [rotated 3, OF _ _ ack_finish_agrees [OF ag Some _ keep id, of Cancelled now False None ACancelled TCancelled]];
                use True c keep Retry in \<open>simp add: texts\<close>)
        next
          case c: False
          have m: "applyOutcome now outcome ?job s = ackRetry now d e ?job s" using Retry by (simp add: applyOutcome_def)
          have "luaAck rd ?p j token (outcomeTag outcome) ?ex ?d now ?r = (okWake (j_queue job),
              luaAckRetry rd ?p j (j_queue job) (Some (showNum (j_processedAt job))) (showOpt (\<lambda>e. e) e) (max 0 d) now
                (zrem rd (plainKey ?p ''active'') j (rc_hincrby rd (jobKey ?p j) ''attemptsMade'' 1 ?r)))"
            using c Retry by (simp add: cases outcomeTag_def outcomeExit_def)
          moreover have "wakeOf (ackRetry now d e ?job s) = signalWakeLocal (Some (j_queue job)) (wakeOf s)"
            using c by (simp add: ackRetry_def Let_def)
          ultimately show ?thesis
            using ack_retry_agrees [OF ag assms(3) Some _ c, of e d now] True wk by (simp add: call mem m simulates_def)
        qed
      qed (use assms(5) in \<open>simp add: isFanOut_def\<close>)
    qed
  qed
qed

end

end
