(* ===== verification/RedisOrder.thy ===== *)
theory RedisOrder
  imports RedisVerbs
begin

text \<open>
  The order of the waiting sets. A member is the counter, padded to sixteen digits, before the id; the
  byte order of members is then the order of the counters, as long as these have sixteen digits. The
  paged scan of a claim is a search through the whole ranking.
\<close>

section \<open>Padded counters\<close>

lemma parseDigits_value:
  "list_all isDigit cs \<Longrightarrow> \<exists>v. parseDigits a cs = Some (a * 10 ^ length cs + v) \<and> v < 10 ^ length cs"
proof (induction cs arbitrary: a)
  case (Cons c cs)
  then have c: "isDigit c" by simp
  then have "(of_char c :: nat) - 48 \<le> 9" by (auto simp: isDigit_def)
  from Cons.IH [of "a * 10 + (of_char c - 48)"] Cons.prems obtain v where
    v: "parseDigits (a * 10 + (of_char c - 48)) cs = Some ((a * 10 + (of_char c - 48)) * 10 ^ length cs + v)"
      "v < 10 ^ length cs" by auto
  have "parseDigits a (c # cs) = Some (a * 10 ^ length (c # cs) + ((of_char c - 48) * 10 ^ length cs + v))"
    using v(1) c by (simp add: algebra_simps)
  moreover have "(of_char c - 48) * 10 ^ length cs + v < 10 ^ length (c # cs)"
  proof -
    have "(of_char c - 48) * 10 ^ length cs \<le> 9 * (10 :: nat) ^ length cs"
      using \<open>(of_char c :: nat) - 48 \<le> 9\<close> by (rule mult_right_mono) simp
    with v(2) have "(of_char c - 48) * 10 ^ length cs + v < 9 * 10 ^ length cs + 10 ^ length cs" by linarith
    then show ?thesis by simp
  qed
  ultimately show ?case by blast
qed simp

lemma digits_order:
  assumes "length xs = length ys" and "list_all isDigit xs" and "list_all isDigit ys"
    and "parseDigits a xs = Some m" and "parseDigits a ys = Some n" and "m < n"
  shows "xs @ us < ys @ vs"
  using assms
proof (induction xs ys arbitrary: a rule: list_induct2)
  case (Cons x xs y ys)
  have d: "isDigit x" "isDigit y" using Cons.prems by auto
  show ?case
  proof (cases "x = y")
    case True
    with Cons d show ?thesis by auto
  next
    case False
    let ?x = "(of_char x :: nat) - 48" and ?y = "(of_char y :: nat) - 48"
    obtain v w where
      v: "m = (a * 10 + ?x) * 10 ^ length xs + v" "v < 10 ^ length xs" and
      w: "n = (a * 10 + ?y) * 10 ^ length ys + w" "w < 10 ^ length ys"
      using parseDigits_value [of xs "a * 10 + ?x"] parseDigits_value [of ys "a * 10 + ?y"] Cons.prems d by auto
    have "\<not> ?y < ?x"
    proof
      assume "?y < ?x"
      then have "(a * 10 + ?y + 1) * 10 ^ length xs \<le> (a * 10 + ?x) * 10 ^ length xs"
        by (intro mult_right_mono) auto
      with v w Cons.hyps Cons.prems(5) show False by (simp add: algebra_simps)
    qed
    moreover have "(of_char x :: nat) \<noteq> of_char y" using False by simp
    moreover have "(of_char x :: nat) = ?x + 48" "(of_char y :: nat) = ?y + 48" using d by (simp_all add: isDigit_def)
    ultimately have "(of_char x :: nat) < of_char y" by linarith
    then show ?thesis by (simp add: less_char_def)
  qed
qed simp

lemma natToString_length: "n < 10 ^ Suc k \<Longrightarrow> length (natToString n) \<le> Suc k"
proof (induction k arbitrary: n)
  case 0
  then show ?case by (subst natToString.simps) simp
next
  case (Suc k)
  then have "n div 10 < 10 ^ Suc k" by (simp add: less_mult_imp_div_less mult.commute)
  from Suc.IH [OF this] show ?case by (subst natToString.simps) simp
qed

lemma pad16_length: "0 \<le> n \<Longrightarrow> n < 10 ^ 16 \<Longrightarrow> length (pad16 n) = 16"
  using natToString_length [of "nat n" 15] by (simp add: pad16_def intToString_def nat_less_iff)

lemma waitingMember_less:
  assumes "0 \<le> a" and "a < b" and "b < 10 ^ 16"
  shows "waitingMember a i < waitingMember b j"
proof -
  have "pad16 a @ CHR '':'' # i < pad16 b @ CHR '':'' # j"
    by (rule digits_order [where a = 0, OF _ _ _ parseDigits_pad16 parseDigits_pad16])
      (use assms pad16_length pad16_digits [of a] pad16_digits [of b] in \<open>auto simp: list_all_iff\<close>)
  then show ?thesis by (simp add: waitingMember_def)
qed

lemma waitingId_member: "0 \<le> n \<Longrightarrow> n < 10 ^ 16 \<Longrightarrow> waitingId (waitingMember n i) = i"
  by (simp add: waitingId_def waitingMember_def pad16_length)

section \<open>Searching a ranking\<close>

lemma find_append: "find P (xs @ ys) = (case find P xs of None \<Rightarrow> find P ys | Some x \<Rightarrow> Some x)"
  by (induction xs) auto

lemma find_least:
  "sorted (map f xs) \<Longrightarrow> find P xs = Some x \<Longrightarrow> x \<in> set xs \<and> P x \<and> (\<forall>y\<in>set xs. P y \<longrightarrow> f x \<le> f y)"
  by (induction xs) (auto split: if_splits)

lemma ranking_find:
  assumes "find P (ranking z) = Some (m, sc)"
  shows "(m, sc) \<in> set z \<and> P (m, sc) \<and> (\<forall>(m', sc')\<in>set z. P (m', sc') \<longrightarrow> (sc, m) \<le> (sc', m'))"
  using find_least [OF sorted_ranking assms] by auto

context redis_server
begin

lemma scanWaiting_find:
  "scanWaiting rd p q names off r =
     Some (find (\<lambda>m. named rd p names (waitingId m) r) (drop off (members (ranking (rd_zsets (view r) (waitingKey p q))))))"
proof (induction "length (rd_zsets (view r) (waitingKey p q)) - off" arbitrary: off rule: less_induct)
  case less
  let ?ms = "members (ranking (rd_zsets (view r) (waitingKey p q)))"
  have page: "members (rc_zrange rd (waitingKey p q) (int off) (int off + 99) r) = take 100 (drop off ?ms)"
    using rankSlice_page [of "int off" 100 "ranking (rd_zsets (view r) (waitingKey p q))"]
    by (simp add: zrange take_map drop_map algebra_simps)
  show ?case
  proof (cases "drop off ?ms = []")
    case True
    then show ?thesis by (subst scanWaiting.simps) (simp add: page Let_def del: drop_eq_Nil)
  next
    case False
    then have "scanWaiting rd p q names (off + 100) r
        = Some (find (\<lambda>m. named rd p names (waitingId m) r) (drop (off + 100) ?ms))"
      by (intro less.hyps) simp
    moreover have "drop off ?ms = take 100 (drop off ?ms) @ drop (off + 100) ?ms"
      by (metis append_take_drop_id drop_drop add.commute)
    ultimately show ?thesis
      using find_append [of "\<lambda>m. named rd p names (waitingId m) r" "take 100 (drop off ?ms)" "drop (off + 100) ?ms"]
      by (subst scanWaiting.simps) (use False in \<open>auto simp: page Let_def split: option.split\<close>)
  qed
qed

end

end
