(* ===== verification/RedisAdminSim.thy ===== *)
theory RedisAdminSim
  imports RedisVerbs
begin

text \<open>
  The administrative verbs of the Redis driver against those of the in-memory driver: \<open>retry\<close>,
  \<open>promote\<close>, \<open>cancel\<close>, \<open>remove\<close>, \<open>pause\<close> and \<open>resume\<close>.
\<close>

section \<open>retry and promote\<close>

context redis_server
begin

lemma retry_view:
  assumes "jobView p (view r) j = viewOf n job" and "j_state job = Failed" and "rc_exists rd (jobKey p j) r"
    and "0 \<le> fst (globalView p (view r))"
  shows "jobView p (view (snd (luaRetry rd p j now r))) i =
      (if i = j then viewOf (nat (fst (globalView p (view r)) + 1))
         (job\<lparr>j_state := Waiting, j_attemptsMade := 0, j_stalledCount := 0, j_cancelRequested := False, j_exit := None,
           j_failedReason := None, j_finishedAt := None, j_processedAt := None, j_runAt := now\<rparr>)
       else jobView p (view r) i)"
    and "globalView p (view (snd (luaRetry rd p j now r))) = (fst (globalView p (view r)) + 1, snd (globalView p (view r)))"
    and "fst (luaRetry rd p j now r) = okQueue (j_queue job)"
  using assms
  by (auto simp: luaRetry_def Let_def split_beta incr_seq seq_global script_views global_simps row_updates viewOf_def
      fun_eq_iff)

lemma promote_view:
  assumes "jobView p (view r) j = viewOf n job" and "j_state job = Delayed" and "rc_exists rd (jobKey p j) r"
  shows "jobView p (view (snd (luaPromote rd p j now r))) i =
      (if i = j then viewOf n (job\<lparr>j_state := Waiting, j_runAt := now\<rparr>) else jobView p (view r) i)"
    and "globalView p (view (snd (luaPromote rd p j now r))) = globalView p (view r)"
    and "fst (luaPromote rd p j now r) = okQueue (j_queue job)"
  using assms
  by (auto simp: luaPromote_def Let_def script_views global_simps row_updates viewOf_def fun_eq_iff)

lemma retry_sim:
  assumes sim: "simulates dr view st s" and rd: "dr_redis dr = rd" and wf: "wellFormed s"
  shows "fst (redisRetry dr now j st) = fst (retry now j s) \<and>
    simulates dr view (snd (redisRetry dr now j st)) (snd (retry now j s))"
  using sim wf
proof (cases rule: job_cases [where j = j])
  case absent
  then show ?thesis using sim by (simp add: redisRetry_def luaRetry_def retry_def rd Let_def)
next
  case (present n job)
  show ?thesis
  proof (cases "j_state job = Failed")
    case False
    then show ?thesis using present sim
      by (simp add: redisRetry_def luaRetry_def retry_def rd simulates_def Let_def hget_job)
  next
    case True
    let ?p = "dr_prefix dr" and ?r = "rs_server st"
    have ag: "agree ?p (view ?r) s" using sim by (simp add: simulates_def)
    note ret = retry_view [OF present(3) True present(2) counter_pos [OF ag], of now]
    have "agree ?p (view (snd (luaRetry rd ?p j now ?r))) (snd (retry now j s))"
      by (rule agree_fresh [OF ag wf ret(1) [THEN trans] ret(2), where j = j and job' = "the (mapGet (jobs (snd (retry now j s))) j)"])
        (use present True in \<open>simp_all add: retry_def Let_def viewOf_def cong: if_cong\<close>)
    then show ?thesis using ret(3) present True sim
      by (simp add: redisRetry_def retry_def rd simulates_def Let_def split_beta)
  qed
qed

lemma promote_sim:
  assumes sim: "simulates dr view st s" and rd: "dr_redis dr = rd" and wf: "wellFormed s"
  shows "fst (redisPromote dr now j st) = fst (promote now j s) \<and>
    simulates dr view (snd (redisPromote dr now j st)) (snd (promote now j s))"
  using sim wf
proof (cases rule: job_cases [where j = j])
  case absent
  then show ?thesis using sim by (simp add: redisPromote_def luaPromote_def promote_def rd Let_def)
next
  case (present n job)
  show ?thesis
  proof (cases "j_state job = Delayed")
    case False
    then show ?thesis using present sim
      by (simp add: redisPromote_def luaPromote_def promote_def rd simulates_def Let_def hget_job)
  next
    case True
    let ?p = "dr_prefix dr" and ?r = "rs_server st"
    have ag: "agree ?p (view ?r) s" using sim by (simp add: simulates_def)
    have "agree ?p (view (snd (luaPromote rd ?p j now ?r))) (snd (promote now j s))"
      by (rule agree_put [OF ag present(1), where job' = "job\<lparr>j_state := Waiting, j_runAt := now\<rparr>"])
        (use present True in \<open>simp_all add: promote_def Let_def promote_view [OF _ True present(2)]\<close>)
    then show ?thesis using promote_view(3) [OF present(3) True present(2)] present True sim
      by (simp add: redisPromote_def promote_def rd simulates_def Let_def split_beta)
  qed
qed

section \<open>cancel and remove\<close>

lemma cancel_pending_view:
  assumes "jobView p (view r) j = viewOf n job" and "j_state job \<in> {Waiting, Delayed}" and "rc_exists rd (jobKey p j) r"
    and "j_keep job = None" and "m_lockToken job = None" and "m_lockExpiresAt job = None"
  shows "jobView p (view (snd (luaCancel rd p j now r))) i =
      (if i = j then viewOf n (recordAttempt ACancelled now None ((clearLock job)\<lparr>j_cancelRequested := False,
           j_state := Cancelled, j_finishedAt := Some now\<rparr>)) else jobView p (view r) i)"
    and "globalView p (view (snd (luaCancel rd p j now r))) = globalView p (view r)"
    and "fst (luaCancel rd p j now r) = okReply"
  using assms
  by (auto simp: luaCancel_def Let_def script_views luaKeep_none showOpt_def [of keepJson] global_simps
      row_updates viewOf_def fun_eq_iff attemptEntry_def recordAttempt_def clearLock_def outcomeText_def showOpt_def)
    (simp_all add: rowTexts_def)

end

lemma view_flow_del:
  "jobView p (delD (flowChildKey p f k) d) i = jobView p d i" "jobView p (delD (flowIndexKey p f) d) i = jobView p d i"
  by (simp_all add: jobView_def redis_simps key_simps)

context redis_server
begin

lemma dropRows_view:
  "jobView p (view (fold (dropRow rd p j) ks r)) i = jobView p (view r) i"
  "globalView p (view (fold (dropRow rd p j) ks r)) = globalView p (view r)"
  by (induction ks arbitrary: r) (simp_all add: dropRow_def writes view_simps view_flow_del global_simps Let_def)

lemma delete_view:
  assumes "jobView p (view r) j = viewOf n job"
  shows "jobView p (view (luaDeleteJob rd p j r)) i = (if i = j then emptyView else jobView p (view r) i)"
    and "globalView p (view (luaDeleteJob rd p j r)) = globalView p (view r)"
  using assms
  by (auto simp: luaDeleteJob_def Let_def script_views dropRows_view view_flow_del global_simps viewOf_def
      emptyView_def fun_eq_iff)

lemma remove_sim:
  assumes sim: "simulates dr view st s" and rd: "dr_redis dr = rd" and wf: "wellFormed s"
  shows "fst (redisRemove dr j st) = fst (remove j s) \<and>
    simulates dr view (snd (redisRemove dr j st)) (snd (remove j s))"
  using sim wf
proof (cases rule: job_cases [where j = j])
  case absent
  then show ?thesis using sim by (simp add: redisRemove_def luaRemove_def remove_def rd Let_def simulates_def)
next
  case (present n job)
  show ?thesis
  proof (cases "j_state job = Active \<or> j_state job = WaitingChildren")
    case True
    then show ?thesis using present sim
      by (simp add: redisRemove_def luaRemove_def remove_def rd simulates_def Let_def hget_job)
  next
    case False
    let ?p = "dr_prefix dr" and ?r = "rs_server st"
    have ag: "agree ?p (view ?r) s" using sim by (simp add: simulates_def)
    have "agree ?p (view (luaDeleteJob rd ?p j ?r)) (deleteJob j s)"
      by (rule agree_drop [OF ag delete_view [OF present(3)]]) (simp_all add: deleteJob_def)
    then show ?thesis using present False sim
      by (simp add: redisRemove_def luaRemove_def remove_def rd simulates_def Let_def hget_job)
        (simp add: deleteJob_def wakeOf_def)
  qed
qed

lemma cancel_active_view:
  assumes "jobView p (view r) j = viewOf n job" and "j_state job = Active" and "rc_exists rd (jobKey p j) r"
  shows "jobView p (view (snd (luaCancel rd p j now r))) i =
      (if i = j then viewOf n (job\<lparr>j_cancelRequested := True\<rparr>) else jobView p (view r) i)"
    and "globalView p (view (snd (luaCancel rd p j now r))) = globalView p (view r)"
    and "fst (luaCancel rd p j now r) = okReply"
  using assms by (auto simp: luaCancel_def Let_def script_views global_simps row_updates viewOf_def cong: if_cong)

lemma cancel_sim:
  assumes sim: "simulates dr view st s" and rd: "dr_redis dr = rd" and wf: "wellFormed s" and un: "unlimited s"
    and nw: "\<And>job. mapGet (jobs s) j = Some job \<Longrightarrow> j_state job \<noteq> WaitingChildren"
  shows "fst (redisCancel dr now j st) = fst (cancelJob now j s) \<and>
    simulates dr view (snd (redisCancel dr now j st)) (snd (cancelJob now j s))"
  using sim wf
proof (cases rule: job_cases [where j = j])
  case absent
  then show ?thesis using sim by (simp add: redisCancel_def luaCancel_def cancelJob_def rd Let_def)
next
  case (present n job)
  let ?p = "dr_prefix dr" and ?r = "rs_server st"
  have ag: "agree ?p (view ?r) s" using sim by (simp add: simulates_def)
  have keep: "j_keep job = None" using unlimited_job [OF un present(1)] .
  consider (active) "j_state job = Active" | (pending) "j_state job \<in> {Waiting, Delayed}"
    | (ended) "j_state job \<in> TERMINAL_STATES"
    using nw [OF present(1)] by (cases "j_state job") auto
  then show ?thesis
  proof cases
    case active
    have "agree ?p (view (snd (luaCancel rd ?p j now ?r))) (putJob (job\<lparr>j_cancelRequested := True\<rparr>) s)"
      by (rule agree_put [OF ag present(1), where job' = "job\<lparr>j_cancelRequested := True\<rparr>"])
        (use present in \<open>simp_all add: cancel_active_view [OF _ active present(2)]\<close>)
    then show ?thesis using cancel_active_view(3) [OF present(3) active present(2)] present active sim
      by (simp add: redisCancel_def cancelJob_def rd simulates_def Let_def split_beta)
  next
    case pending
    have lock: "m_lockToken job = None" "m_lockExpiresAt job = None" using present(5) pending by (auto simp: job_ok_def)
    note can = cancel_pending_view [OF _ pending present(2) keep lock]
    have "agree ?p (view (snd (luaCancel rd ?p j now ?r))) (markCancelled job now s)"
      by (rule agree_put [OF ag present(1), where job' = "recordAttempt ACancelled now None ((clearLock job)
              \<lparr>j_cancelRequested := False, j_state := Cancelled, j_finishedAt := Some now\<rparr>)"])
        (use present pending keep in \<open>auto simp: can markCancelled_def Let_def\<close>)
    then show ?thesis using can(3) [OF present(3)] present pending sim
      by (auto simp: redisCancel_def cancelJob_def rd simulates_def Let_def split_beta wakeOf_cancel keep)
  next
    case ended
    then show ?thesis using present sim
      by (auto simp: redisCancel_def luaCancel_def cancelJob_def rd simulates_def Let_def hget_job)
  qed
qed

end

section \<open>pause and resume\<close>

lemma view_paused:
  "jobView p (saddD (plainKey p ''paused'') q d) i = jobView p d i"
  "jobView p (sremD (plainKey p ''paused'') q d) i = jobView p d i"
  by (simp_all add: jobView_def redis_simps key_simps)

lemma global_paused:
  "globalView p (saddD (plainKey p ''paused'') q d) = (fst (globalView p d), insert q (snd (globalView p d)))"
  "globalView p (sremD (plainKey p ''paused'') q d) = (fst (globalView p d), snd (globalView p d) - {q})"
  by (simp_all add: globalView_def redis_simps)

lemma agree_paused:
  assumes "agree p d s" and "\<And>i. jobView p d' i = jobView p d i"
    and "globalView p d' = (fst (globalView p d), set (paused s'))" and "jobs s' = jobs s"
  shows "agree p d' s'"
  using assms by (auto simp: agree_def viewIn_def seqsAgree_def)

lemma agree_pausedQueues: "agree p d s \<Longrightarrow> snd (globalView p d) = set (paused s)"
  by (simp add: agree_def)

context redis_server
begin

lemma pause_sim:
  assumes "simulates dr view st s" and "dr_redis dr = rd"
  shows "simulates dr view (redisPause dr queue st) (pause queue s)"
proof -
  have ag: "agree (dr_prefix dr) (view (rs_server st)) s" using assms(1) by (simp add: simulates_def)
  have "agree (dr_prefix dr) (saddD (plainKey (dr_prefix dr) ''paused'') queue (view (rs_server st))) (pause queue s)"
    by (rule agree_paused [OF ag])
      (auto simp: view_paused global_paused agree_pausedQueues [OF ag] pause_def)
  then show ?thesis using assms by (simp add: simulates_def redisPause_def writes) (simp add: pause_def)
qed

lemma resume_sim:
  assumes "simulates dr view st s" and "dr_redis dr = rd"
  shows "simulates dr view (redisResume dr queue st) (resume queue s)"
proof -
  let ?p = "dr_prefix dr" and ?r = "rs_server st"
  have ag: "agree ?p (view ?r) s" using assms(1) by (simp add: simulates_def)
  have in_set: "queue \<in> set (rd_sets (view ?r) (plainKey ?p ''paused'')) \<longleftrightarrow> queue \<in> set (paused s)"
    using agree_pausedQueues [OF ag] by (simp add: globalView_def)
  have "agree ?p (sremD (plainKey ?p ''paused'') queue (view ?r)) (resume queue s)"
    by (rule agree_paused [OF ag]) (auto simp: view_paused global_paused agree_pausedQueues [OF ag] resume_def)
  then show ?thesis using assms in_set
    by (simp add: simulates_def redisResume_def writes srem_count split_beta Let_def) (simp add: resume_def)
qed

end

end
