(* ===== verification/RedisEnqueueSim.thy ===== *)
theory RedisEnqueueSim
  imports RedisVerbs MemQuery
begin

text \<open>
  Enqueueing under an id of the caller's, renewing locks and reading jobs: the Redis driver against the
  in-memory driver.
\<close>

section \<open>enqueue\<close>

lemma row_names: "distinct (map fst (rowTexts n job))"
  by (cases "j_flow job") (simp_all add: rowTexts_def flowTexts_def)

lemma fresh_row:
  assumes "rq_dedupe q = None"
  shows "rowFields i (enqueueArgs q mode cand) (if 0 < rq_delayMs q then ''delayed'' else ''waiting'') now (int n)
    = rowTexts n (newJob i q now sq)"
  using assms
  by (simp add: rowFields_def rowTexts_def newJob_def enqueueArgs_def batchItem_def requestRow_def row_args.defs
      batch_item.defs enqueue_args.defs stateText_def flag_def showNum_def showOpt_def intToString_0 flowTexts_def)

lemma enqueueArgs_row [simp]:
  "ra_name (enqueueArgs q mode cand) = rq_name q" "ra_queue (enqueueArgs q mode cand) = rq_queue q"
  "ra_priority (enqueueArgs q mode cand) = intToString (rq_priority q)"
  "ra_delayMs (enqueueArgs q mode cand) = max 0 (rq_delayMs q)"
  "bi_idMode (enqueueArgs q mode cand) = mode" "bi_id (enqueueArgs q mode cand) = cand"
  "rq_dedupe q = None \<Longrightarrow> ra_dedupeKey (enqueueArgs q mode cand) = []"
  by (simp_all add: enqueueArgs_def batchItem_def requestRow_def row_args.defs batch_item.defs enqueue_args.defs)

lemma map_of_reversed: "distinct (map fst xs) \<Longrightarrow> map_of (rev xs) = map_of xs"
  by (rule map_of_eqI) (auto simp: map_of_eq_Some_iff rev_map [symmetric] dom_map_of_conv_image_fst)

lemma view_updates: "emptyView\<lparr>jv_hash := h, jv_all := a\<rparr> =
    \<lparr>jv_hash = h, jv_ledger = [], jv_delayed = (\<lambda>_. None), jv_waiting = (\<lambda>_ _. None), jv_active = None,
     jv_finished = (\<lambda>_. None), jv_terminal = (\<lambda>_ _. None), jv_all = a, jv_clean = True\<rparr>"
  by (simp add: emptyView_def)

lemma newJob_state [simp]:
  "j_queue (newJob i q now sq) = rq_queue q" "j_runAt (newJob i q now sq) = now + max 0 (rq_delayMs q)"
  "j_priority (newJob i q now sq) = rq_priority q" "j_enqueuedAt (newJob i q now sq) = now"
  "j_state (newJob i q now sq) = (if 0 < rq_delayMs q then Delayed else Waiting)"
  "m_attempts (newJob i q now sq) = []"
  by (simp_all add: newJob_def)

context redis_server
begin

lemma insert_view:
  assumes "jobView p (view r) j = emptyView" and "rq_dedupe q = None" and "0 \<le> fst (globalView p (view r))"
  shows "jobView p (view (insertJobRow rd p ix j (enqueueArgs q mode cand) now r)) i =
      (if i = j then viewOf (nat (fst (globalView p (view r)) + 1)) (newJob j q now sq) else jobView p (view r) i)"
    and "globalView p (view (insertJobRow rd p ix j (enqueueArgs q mode cand) now r)) =
      (fst (globalView p (view r)) + 1, snd (globalView p (view r)))"
proof -
  let ?c = "fst (globalView p (view r)) + 1"
  let ?job = "newJob j q now sq"
  have row: "map_of (rev (rowFields j (enqueueArgs q mode cand) (if 0 < rq_delayMs q then ''delayed'' else ''waiting'') now ?c))
      = map_of (rowTexts (nat ?c) ?job)"
    using fresh_row [OF assms(2), of j mode cand now "nat ?c" sq] assms(3) row_names by (simp add: map_of_reversed)
  show "jobView p (view (insertJobRow rd p ix j (enqueueArgs q mode cand) now r)) i =
      (if i = j then viewOf (nat ?c) ?job else jobView p (view r) i)"
  proof (cases "0 < rq_delayMs q")
    case True
    with row assms show ?thesis
      by (auto simp: insertJobRow_def Let_def split_beta incr_seq seq_global script_views viewOf_def view_updates fun_eq_iff)
  next
    case False
    with row assms show ?thesis
      by (auto simp: insertJobRow_def Let_def split_beta incr_seq seq_global script_views viewOf_def view_updates fun_eq_iff)
  qed
  show "globalView p (view (insertJobRow rd p ix j (enqueueArgs q mode cand) now r)) = (?c, snd (globalView p (view r)))"
    using assms(3) by (simp add: insertJobRow_def Let_def split_beta incr_seq seq_global global_simps writes)
qed

lemma enqueue_sim:
  assumes sim: "simulates dr view st s" and rd: "dr_redis dr = rd" and wf: "wellFormed s"
    and id: "rq_id q = Some j" and nd: "rq_dedupe q = None"
  shows "fst (redisEnqueue dr now q st) = fst (enqueueOne gen now q s) \<and>
    simulates dr view (snd (redisEnqueue dr now q st)) (snd (enqueueOne gen now q s))"
  using sim wf
proof (cases rule: job_cases [where j = j])
  case (present n job)
  then show ?thesis using sim id
    by (simp add: redisEnqueue_def eval_nat_numeral candidateId_def idMode_def luaEnqueue_def rd enqueueOne_def
        enqueueDecide_def mapHas_key simulates_def Let_def)
next
  case absent
  let ?p = "dr_prefix dr" and ?r = "rs_server st"
  let ?r' = "insertJobRow rd ?p (dr_indexes dr) j (enqueueArgs q ''user'' j) now ?r"
  have ag: "agree ?p (view ?r) s" using sim by (simp add: simulates_def)
  note ins = insert_view [OF absent(3) nd counter_pos [OF ag]]
  have "agree ?p (view ?r') (insertJobRecord j q now s)"
    by (rule agree_fresh [OF ag wf ins(1) ins(2)]) (simp_all add: insertJobRecord_def Let_def newJob_def)
  moreover have "redisEnqueue dr now q st = (Inr \<lparr>er_id = j, er_duplicate = False\<rparr>,
      wakeUp (Some (rq_queue q)) (st\<lparr>rs_server := ?r'\<rparr>))"
    using absent id nd
    by (simp add: redisEnqueue_def eval_nat_numeral candidateId_def idMode_def luaEnqueue_def rd luaDedupe_def
        luaChooseId_def registerDedupe_def Let_def)
  moreover have "enqueueOne gen now q s = (Inr \<lparr>er_id = j, er_duplicate = False\<rparr>, insertJobRecord j q now s)"
    using absent id nd
    by (simp add: enqueueOne_def enqueueDecide_def mapHas_key enqueueInsert_def chooseId_def registerJob_def)
  ultimately show ?thesis using sim by (simp add: simulates_def) (simp add: insertJobRecord_def Let_def)
qed

end

section \<open>extendLocks\<close>

lemma locksOf_text [simp]:
  "locksOf (jsonText (JArr (map (\<lambda>(i, t). JObj [(''id'', JStr i), (''token'', JStr t)]) locks))) = locks"
proof -
  have "List.map_filter lockOf (map (\<lambda>(i, t). JObj [(''id'', JStr i), (''token'', JStr t)]) locks) = locks"
    by (induction locks) (auto simp: List.map_filter_simps lockOf_def)
  then show ?thesis by (simp only: locksOf_def parse_jsonText option.case json.case)
qed

lemma asStrings_array [simp]: "asStrings (Some (luaArray (map JStr xs))) = xs"
  by (simp add: asStrings_def asArray_def luaArray_def) (simp add: stringsOf_def List.map_filter_simps)

context redis_server
begin

lemma extend_view:
  assumes "jobView p (view r) j = viewOf n job" and "j_state job = Active"
  shows "jobView p (view (rc_zadd rd (plainKey p ''active'') (Fin t) j
          (rc_hset rd (jobKey p j) [(''lockExpiresAt'', intToString t)] r))) i =
      (if i = j then viewOf n (job\<lparr>m_lockExpiresAt := Some t\<rparr>) else jobView p (view r) i)"
    and "globalView p (view (rc_zadd rd (plainKey p ''active'') (Fin t) j
          (rc_hset rd (jobKey p j) [(''lockExpiresAt'', intToString t)] r))) = globalView p (view r)"
  using assms by (auto simp: script_views global_simps row_updates viewOf_def cong: if_cong)

lemma extendOne_agrees:
  assumes ag: "agree p (view r) s" and wf: "wellFormed s"
  shows "\<exists>r'. extendOne rd p d now (j, token) (lost, cancel, r) =
        (lost @ xl_lost (fst (extendLocks now [(j, token)] d s)),
         cancel @ xl_cancelRequested (fst (extendLocks now [(j, token)] d s)), r')
      \<and> agree p (view r') (snd (extendLocks now [(j, token)] d s))"
proof (cases "holdsLock s j token")
  case None
  then have "\<not> lockHeld rd p j token r"
    by (simp add: lockHeld_job [OF ag wf] holdsLock_def split: option.splits if_splits)
  with None ag show ?thesis by (simp add: extendOne_def)
next
  case (Some job)
  then have some: "mapGet (jobs s) j = Some job" and act: "j_state job = Active"
    and held: "lockHeld rd p j token r"
    by (auto simp: lockHeld_job [OF ag wf] holdsLock_def split: option.splits if_splits)
  obtain n where v: "jobView p (view r) j = viewOf n job" using agree_view [OF ag, of j] some by auto
  show ?thesis
  proof (cases "j_cancelRequested job")
    case True
    with Some held v ag show ?thesis by (simp add: extendOne_def hget_job)
  next
    case False
    have "agree p (view (rc_zadd rd (plainKey p ''active'') (Fin (now + d)) j
          (rc_hset rd (jobKey p j) [(''lockExpiresAt'', intToString (now + d))] r)))
        (putJob (job\<lparr>m_lockExpiresAt := Some (now + d)\<rparr>) s)"
      by (rule agree_put [OF ag some, where job' = "job\<lparr>m_lockExpiresAt := Some (now + d)\<rparr>"])
        (use wf_id [OF wf some] in \<open>simp_all add: extend_view [OF _ act]\<close>)
    with False Some held v show ?thesis by (simp add: extendOne_def hget_job)
  qed
qed

lemma extendLocks_Cons:
  "xl_lost (fst (extendLocks now (lock # locks) d s)) = xl_lost (fst (extendLocks now [lock] d s))
     @ xl_lost (fst (extendLocks now locks d (snd (extendLocks now [lock] d s))))"
  "xl_cancelRequested (fst (extendLocks now (lock # locks) d s)) = xl_cancelRequested (fst (extendLocks now [lock] d s))
     @ xl_cancelRequested (fst (extendLocks now locks d (snd (extendLocks now [lock] d s))))"
  "snd (extendLocks now (lock # locks) d s) = snd (extendLocks now locks d (snd (extendLocks now [lock] d s)))"
  by (cases lock; auto split: option.split simp: split_beta Let_def)+

lemma extendOnes_agree:
  assumes "agree p (view r) s" and "wellFormed s"
  shows "\<exists>r'. fold (extendOne rd p d now) locks (lost, cancel, r) =
        (lost @ xl_lost (fst (extendLocks now locks d s)),
         cancel @ xl_cancelRequested (fst (extendLocks now locks d s)), r')
      \<and> agree p (view r') (snd (extendLocks now locks d s))"
  using assms
proof (induction locks arbitrary: lost cancel r s)
  case (Cons lock locks)
  obtain j token where lock: "lock = (j, token)" by force
  let ?s = "snd (extendLocks now [lock] d s)"
  from extendOne_agrees [OF Cons.prems, of d now j token lost cancel] lock obtain r' where r':
    "extendOne rd p d now lock (lost, cancel, r) = (lost @ xl_lost (fst (extendLocks now [lock] d s)),
       cancel @ xl_cancelRequested (fst (extendLocks now [lock] d s)), r')" "agree p (view r') ?s"
    by auto
  from Cons.IH [OF r'(2) extendLocks_wf [OF Cons.prems(2)], of "lost @ xl_lost (fst (extendLocks now [lock] d s))"
      "cancel @ xl_cancelRequested (fst (extendLocks now [lock] d s))"]
  show ?case
    by (simp add: r'(1) extendLocks_Cons [of now lock locks] del: extendLocks.simps)
qed simp

lemma wakeOf_extend: "wakeOf (snd (extendLocks now locks d s)) = wakeOf s"
  by (induction now locks d s rule: extendLocks.induct) (auto simp: split_beta Let_def split: option.split)

lemma extendLocks_sim:
  assumes sim: "simulates dr view st s" and rd: "dr_redis dr = rd" and wf: "wellFormed s"
  shows "fst (redisExtendLocks dr now locks d st) = fst (extendLocks now locks d s) \<and>
    simulates dr view (snd (redisExtendLocks dr now locks d st)) (snd (extendLocks now locks d s))"
proof (cases "locks = []")
  case True
  then show ?thesis using sim by (simp add: redisExtendLocks_def)
next
  case False
  have ag: "agree (dr_prefix dr) (view (rs_server st)) s" using sim by (simp add: simulates_def)
  from extendOnes_agree [OF ag wf, of d now locks "[]" "[]"] False sim show ?thesis
    by (auto simp: redisExtendLocks_def rd luaExtendLocks_def Let_def simulates_def wakeOf_extend
        simp del: jsonText.simps)
qed

section \<open>Reads\<close>

lemma getJob_sim:
  assumes sim: "simulates dr view st s" and rd: "dr_redis dr = rd" and wf: "wellFormed s"
    and ok: "\<And>job. mapGet (jobs s) j = Some job \<Longrightarrow> storable job"
  shows "redisGetJob dr j st = getJob j s"
proof -
  let ?p = "dr_prefix dr" and ?r = "rs_server st"
  let ?row = "rc_hgetall rd (jobKey ?p j) ?r"
  have get: "map_of ?row = jv_hash (jobView ?p (view ?r) j)"
    using hgetall [of "jobKey ?p j" ?r] by (simp add: jobView_def fun_eq_iff)
  have call: "redisGetJob dr j st = (if ?row = [] then None else Some (toRecord (foldPairs (flatPairs ?row))))"
    by (cases ?row) (simp_all add: redisGetJob_def rd luaGetJob_def replyOf_def Let_def stringsOf_flat
        del: jsonText.simps)
  from sim wf show ?thesis
  proof (cases rule: job_cases [where j = j])
    case absent
    then have "?row = []" using get by simp
    then show ?thesis using absent by (simp add: call getJob_def)
  next
    case (present n job)
    then have "mapGet (foldPairs (flatPairs ?row)) = map_of (rowTexts n job)"
      using get mapGet_foldPairs [OF hgetall_distinct] by (simp add: fun_eq_iff)
    from toRecord_rowTexts [OF this ok [OF present(1)]] present get show ?thesis
      by (auto simp: call getJob_def)
  qed
qed

end

text \<open>The ledger's entries read back.\<close>

lemma attemptEntry_json:
  "attemptEntry a = jsonText (JObj ([(''attempt'', JNum (int (at_attempt a))),
      (''startedAt'', case at_startedAt a of None \<Rightarrow> JNull | Some t \<Rightarrow> JNum t), (''finishedAt'', JNum (at_finishedAt a)),
      (''outcome'', JStr (outcomeText (at_outcome a)))] @ member ''exit'' (\<lambda>e. e) (at_exit a)))"
  by (cases "at_startedAt a"; cases "at_exit a")
    (simp_all add: attemptEntry_def attemptText_def rawObject_def showNum_def showOpt_def isBlank_def member_def)

lemma toAttempt_entry: "toAttempt (attemptEntry a) = a"
proof -
  have "outcomeOfText (outcomeText (at_outcome a)) = at_outcome a"
    by (cases "at_outcome a") (simp_all add: outcomeOfText_def outcomeText_def)
  then show ?thesis
    by (cases "at_startedAt a"; cases "at_exit a")
      (simp_all add: attemptEntry_json toAttempt_def member_def jsonInt_def jget_def del: jsonText.simps)
qed

context redis_server
begin

lemma getAttempts_sim:
  assumes sim: "simulates dr view st s" and rd: "dr_redis dr = rd" and wf: "wellFormed s"
  shows "redisGetAttempts dr j st = getAttempts j s"
proof -
  have "redisGetAttempts dr j st = map toAttempt (jv_ledger (jobView (dr_prefix dr) (view (rs_server st)) j))"
    by (simp add: redisGetAttempts_def rd lrange jobView_def)
  with sim wf show ?thesis
    by (cases rule: job_cases [where j = j]) (simp_all add: getAttempts_def comp_def toAttempt_entry)
qed

end

end
