(* ===== verification/RedisTidy.thy ===== *)
theory RedisTidy
  imports RedisOrder RedisAdminSim RedisEnqueueSim
begin

text \<open>
  What the claim relies on beyond the view of each job: a sorted set lists a member once, and the
  waiting sets hold nothing but padded members. Every write of the scripts keeps it.
\<close>

definition tidy :: "string \<Rightarrow> rdata \<Rightarrow> bool" where
  "tidy p d \<longleftrightarrow> (\<forall>k. distinct (mapKeys (rd_zsets d k)))
     \<and> (\<forall>q m sc. mapGet (rd_zsets d (waitingKey p q)) m = Some sc \<longrightarrow> (\<exists>sq i. 0 \<le> sq \<and> m = waitingMember sq i))"

lemma tidy_empty: "tidy p emptyData"
  by (simp add: tidy_def emptyData_def)

named_theorems tidy_rules "writes that keep the sorted sets tidy"

lemma tidy_plain [tidy_rules]:
  "tidy p (hsetD k fvs d) = tidy p d" "tidy p (hincrbyD k f n d) = tidy p d" "tidy p (rpushD k v d) = tidy p d"
  "tidy p (saddD k v d) = tidy p d" "tidy p (sremD k v d) = tidy p d" "tidy p (setD k v d) = tidy p d"
  by (simp_all add: tidy_def redis_simps)

lemma tidy_drops [tidy_rules]: "tidy p d \<Longrightarrow> tidy p (zremD k m d)" "tidy p d \<Longrightarrow> tidy p (delD k d)"
  by (auto simp: tidy_def redis_simps distinct_mapDelete mapGet_delete simp del: map_of_eq_Some_iff split: if_splits) blast+

lemma tidy_zadd: "tidy p d \<Longrightarrow> (\<And>q. k \<noteq> waitingKey p q) \<Longrightarrow> tidy p (zaddD k s m d)"
  by (auto simp: tidy_def redis_simps distinct_mapSet simp del: map_of_eq_Some_iff)

lemma tidy_zadds [tidy_rules]:
  "tidy p d \<Longrightarrow> tidy p (zaddD (delayedKey p q) s m d)" "tidy p d \<Longrightarrow> tidy p (zaddD (finishedKey p q) s m d)"
  "tidy p d \<Longrightarrow> tidy p (zaddD (terminalKey p n q) s m d)" "tidy p d \<Longrightarrow> tidy p (zaddD (bynameKey p n) s m d)"
  "tidy p d \<Longrightarrow> tidy p (zaddD (byqueueKey p n) s m d)" "tidy p d \<Longrightarrow> tidy p (zaddD (plainKey p ''active'') s m d)"
  "tidy p d \<Longrightarrow> tidy p (zaddD (plainKey p ''all'') s m d)" "tidy p d \<Longrightarrow> tidy p (zaddD (plainKey p ''flowoutbox'') s m d)"
  "tidy p d \<Longrightarrow> tidy p (zaddD (plainKey p ''flowpending'') s m d)"
  "tidy p d \<Longrightarrow> tidy p (zaddD (plainKey p ''dedupes'') s m d)"
  by (rule tidy_zadd; simp add: key_simps)+

lemma tidy_waiting [tidy_rules]:
  "tidy p d \<Longrightarrow> 0 \<le> sq \<Longrightarrow> tidy p (zaddD (waitingKey p q) s (waitingMember sq i) d)"
  by (auto simp: tidy_def redis_simps distinct_mapSet key_simps simp del: map_of_eq_Some_iff split: if_splits)

context redis_server
begin

lemma tidy_helpers [tidy_rules]:
  "tidy p (view r) \<Longrightarrow> tidy p (view (countsAdd rd p q st n r))"
  "tidy p (view r) \<Longrightarrow> tidy p (view (appendAttempt rd p j out sta fin ex r))"
  "tidy p (view r) \<Longrightarrow> tidy p (view (luaAppendOutbox rd p j out r))"
  "tidy p (view r) \<Longrightarrow> tidy p (view (luaReleaseDedupe rd p nm k j now r))"
  "tidy p (view r) \<Longrightarrow> 0 \<le> sq \<Longrightarrow> tidy p (view (addWaiting rd p q pr sq j r))"
  "tidy p (view r) \<Longrightarrow> tidy p (view (remWaiting rd p q j r))"
  "tidy p (view r) \<Longrightarrow> tidy p (view (fold (dropRow rd p j) ks r))"
proof -
  assume "tidy p (view r)"
  then show "tidy p (view (fold (dropRow rd p j) ks r))"
    by (induction ks arbitrary: r) (simp_all add: dropRow_def writes tidy_rules Let_def)
qed (simp_all add: countsAdd_def appendAttempt_def luaAppendOutbox_def luaReleaseDedupe_def addWaiting_def
    remWaiting_def writes tidy_rules Let_def split_beta)

lemma tidy_delete [tidy_rules]: "tidy p (view r) \<Longrightarrow> tidy p (view (luaDeleteJob rd p j r))"
  by (simp add: luaDeleteJob_def writes tidy_rules Let_def split: option.split)

lemma tidy_prunes [tidy_rules]: "tidy p (view r) \<Longrightarrow> tidy p (view (fold (luaPrune rd p) is r))"
  by (induction "is" arbitrary: r) (simp_all add: luaPrune_def tidy_rules)

lemma tidy_keep [tidy_rules]: "tidy p (view r) \<Longrightarrow> tidy p (view (luaApplyKeep rd p nm st keep now r))"
  by (auto simp: luaApplyKeep_def luaKeepAge_def luaKeepCount_def tidy_rules Let_def split: option.split)

lemma tidy_remove [tidy_rules]: "tidy p (view r) \<Longrightarrow> tidy p (view (snd (luaRemove rd p j r)))"
  by (simp add: luaRemove_def tidy_rules Let_def)

lemma tidy_finish [tidy_rules]:
  "tidy p (view r) \<Longrightarrow> tidy p (view (luaFinish rd p j q nm sta now st ex out led r))"
  "tidy p (view r) \<Longrightarrow> tidy p (view (luaFinishCancelled rd p j q nm sta now r))"
  by (simp_all add: luaFinish_def luaFinishCancelled_def writes tidy_rules Let_def split: option.split)

end

section \<open>The verbs\<close>

lemma seq_text_pos: "agree p d s \<Longrightarrow> 0 \<le> luaNumberOr0 (jv_hash (jobView p d j) ''seq'')"
  by (auto simp: agree_def viewIn_def split: option.split)

context redis_server
begin

lemma release_tidy:
  "tidy p (view r) \<Longrightarrow> agree p (view r) s \<Longrightarrow> tidy p (view (snd (luaRelease rd p j token now r)))"
  by (simp add: luaRelease_def writes tidy_rules Let_def script_views seq_text_pos)

lemma ack_retry_tidy:
  "tidy p (view r) \<Longrightarrow> 0 \<le> fst (globalView p (view r)) \<Longrightarrow>
     tidy p (view (luaAckRetry rd p j q sta ex d now r))"
  by (simp add: luaAckRetry_def writes tidy_rules Let_def split_beta incr_seq global_simps)

lemma ack_tidy:
  "tidy p (view r) \<Longrightarrow> agree p (view r) s \<Longrightarrow> tidy p (view (snd (luaAck rd p j token tag ex d now r)))"
  by (simp add: luaAck_def writes tidy_rules ack_retry_tidy Let_def global_simps counter_pos)

lemma retry_tidy:
  "tidy p (view r) \<Longrightarrow> agree p (view r) s \<Longrightarrow> tidy p (view (snd (luaRetry rd p j now r)))"
  by (simp add: luaRetry_def writes tidy_rules Let_def split_beta incr_seq counter_pos add_increasing2)

lemma promote_tidy:
  "tidy p (view r) \<Longrightarrow> agree p (view r) s \<Longrightarrow> tidy p (view (snd (luaPromote rd p j now r)))"
  by (simp add: luaPromote_def writes tidy_rules Let_def hget_job seq_text_pos)

lemma cancel_tidy:
  assumes "tidy p (view r)" and "rc_hget rd (jobKey p j) ''state'' r \<noteq> Some ''waiting-children''"
  shows "tidy p (view (snd (luaCancel rd p j now r)))"
  using assms by (simp add: luaCancel_def writes tidy_rules Let_def)

lemma insert_tidy:
  "tidy p (view r) \<Longrightarrow> agree p (view r) s \<Longrightarrow> tidy p (view (insertJobRow rd p ix j row now r))"
  by (simp add: insertJobRow_def writes tidy_rules Let_def split_beta incr_seq counter_pos add_increasing2)

lemma extend_tidy:
  "tidy p (view r) \<Longrightarrow> tidy p (view (snd (snd (fold (extendOne rd p d now) locks (lost, cancel, r)))))"
  by (induction locks arbitrary: lost cancel r) (auto simp: extendOne_def writes tidy_rules)

end

end
