(* ===== verification/RedisClaimSim.thy ===== *)
theory RedisClaimSim
  imports RedisTidy ClaimQueue
begin

text \<open>
  Claiming: the Redis script promotes the due jobs of the claimed queue, then takes the first member of
  the waiting set whose job has a requested name. Against the in-memory driver, whose scan of all jobs
  picks the ready job of least rank, it returns the same record or the same next run time.
\<close>

section \<open>Stores with the same jobs\<close>

lemma agree_cong:
  "agree p d s \<Longrightarrow> (\<And>i. mapGet (jobs s') i = mapGet (jobs s) i) \<Longrightarrow> paused s' = paused s \<Longrightarrow> agree p d s'"
  by (simp add: agree_def viewIn_def seqsAgree_def)

abbreviation wake1 :: "job_id \<Rightarrow> mem_store \<Rightarrow> mem_store" where
  "wake1 \<equiv> updJob (\<lambda>job. job\<lparr>j_state := Waiting\<rparr>)"

context redis_server
begin

lemma promoteMember_view:
  assumes "jobView p (view r) j = viewOf n job" and "j_state job = Delayed"
  shows "jobView p (view (promoteMember rd p (j_queue job) j r)) i =
      (if i = j then viewOf n (job\<lparr>j_state := Waiting\<rparr>) else jobView p (view r) i)"
    and "globalView p (view (promoteMember rd p (j_queue job) j r)) = globalView p (view r)"
  using assms
  by (auto simp: promoteMember_def Let_def script_views global_simps row_updates viewOf_def fun_eq_iff)

lemma promoteMember_tidy:
  "tidy p (view r) \<Longrightarrow> agree p (view r) s \<Longrightarrow> tidy p (view (promoteMember rd p q j r))"
  by (simp add: promoteMember_def writes tidy_rules Let_def script_views seq_text_pos)

lemma promoteMembers_agree:
  assumes "agree p (view r) s" and "tidy p (view r)" and "distinct js"
    and "\<And>i. i \<in> set js \<Longrightarrow> \<exists>job. mapGet (jobs s) i = Some job \<and> j_id job = i \<and> j_state job = Delayed \<and> j_queue job = q"
  shows "agree p (view (fold (promoteMember rd p q) js r)) (fold wake1 js s)
    \<and> tidy p (view (fold (promoteMember rd p q) js r))"
  using assms
proof (induction js arbitrary: r s)
  case (Cons j js)
  from Cons.prems(4) [of j] obtain job where
    job: "mapGet (jobs s) j = Some job" "j_id job = j" "j_state job = Delayed" "j_queue job = q" by auto
  have w: "wake1 j s = putJob (job\<lparr>j_state := Waiting\<rparr>) s" using job by (simp add: updJob_def)
  have ag: "agree p (view (promoteMember rd p q j r)) (wake1 j s)"
  proof (rule agree_put [OF Cons.prems(1) job(1), where job' = "job\<lparr>j_state := Waiting\<rparr>"])
    fix n i
    assume v: "jobView p (view r) j = viewOf n job"
    show "jobView p (view (promoteMember rd p q j r)) i =
        (if i = j then viewOf n (job\<lparr>j_state := Waiting\<rparr>) else jobView p (view r) i)"
      using promoteMember_view(1) [OF v job(3), of i] job(4) by simp
    show "globalView p (view (promoteMember rd p q j r)) = globalView p (view r)"
      using promoteMember_view(2) [OF v job(3)] job(4) by simp
  qed (simp_all add: w job(2))
  have td: "tidy p (view (promoteMember rd p q j r))" by (rule promoteMember_tidy [OF Cons.prems(2,1)])
  have "\<exists>job. mapGet (jobs (wake1 j s)) i = Some job \<and> j_id job = i \<and> j_state job = Delayed \<and> j_queue job = q"
    if "i \<in> set js" for i
  proof -
    have "i \<noteq> j" using Cons.prems(3) that by auto
    moreover have "i \<in> set (j # js)" using that by simp
    ultimately show ?thesis using Cons.prems(4) [of i] by (simp add: w job(2))
  qed
  from Cons.IH [OF ag td _ this] Cons.prems(3) show ?case by simp
qed simp

end

section \<open>Reading the indexes\<close>

lemma zset_get: "tidy p d \<Longrightarrow> (m, sc) \<in> set (rd_zsets d k) \<longleftrightarrow> mapGet (rd_zsets d k) m = Some sc"
  by (simp add: tidy_def)

lemma delayed_set:
  assumes "agree p d s" and "tidy p d"
  shows "(m, sc) \<in> set (rd_zsets d (delayedKey p q)) \<longleftrightarrow>
    (\<exists>job. mapGet (jobs s) m = Some job \<and> j_state job = Delayed \<and> j_queue job = q \<and> sc = Fin (j_runAt job))"
proof -
  obtain n where v: "jobView p d m = (case mapGet (jobs s) m of None \<Rightarrow> emptyView | Some job \<Rightarrow> viewOf n job)"
    using agree_view [OF assms(1)] .
  have "mapGet (rd_zsets d (delayedKey p q)) m = jv_delayed (jobView p d m) q" by (simp add: jobView_def)
  then show ?thesis unfolding zset_get [OF assms(2)]
    by (auto simp: v viewOf_def emptyView_def split: option.splits if_splits)
qed

lemma waiting_set:
  assumes "\<And>i. jobView p d i = viewIn ns s i" and "tidy p d"
  shows "(m, sc) \<in> set (rd_zsets d (waitingKey p q)) \<longleftrightarrow>
    (\<exists>i job. mapGet (jobs s) i = Some job \<and> j_state job = Waiting \<and> j_queue job = q \<and> sc = Fin (- j_priority job)
       \<and> m = waitingMember (int (ns i)) i)"
proof -
  have get: "mapGet (rd_zsets d (waitingKey p q)) (waitingMember (int n) i) = Some sc \<longleftrightarrow>
      (\<exists>job. mapGet (jobs s) i = Some job \<and> j_state job = Waiting \<and> j_queue job = q \<and> n = ns i \<and> sc = Fin (- j_priority job))"
    for n i
  proof -
    have "mapGet (rd_zsets d (waitingKey p q)) (waitingMember (int n) i) = jv_waiting (jobView p d i) q n"
      by (simp add: jobView_def)
    then show ?thesis by (auto simp: assms(1) viewIn_def viewOf_def emptyView_def split: option.splits if_splits)
  qed
  show ?thesis unfolding zset_get [OF assms(2)]
  proof
    assume m: "mapGet (rd_zsets d (waitingKey p q)) m = Some sc"
    with assms(2) obtain sq i where "0 \<le> sq" "m = waitingMember sq i" by (fastforce simp: tidy_def)
    then obtain n where "m = waitingMember (int n) i" by (metis nonneg_int_cases)
    with m get [of n i] show "\<exists>i job. mapGet (jobs s) i = Some job \<and> j_state job = Waiting \<and> j_queue job = q
        \<and> sc = Fin (- j_priority job) \<and> m = waitingMember (int (ns i)) i"
      by blast
  qed (use get in blast)
qed

context redis_server
begin

lemma named_job:
  assumes "agree p (view r) s"
  shows "named rd p names i r \<longleftrightarrow> (\<exists>job. mapGet (jobs s) i = Some job \<and> j_name job \<in> set names)"
proof -
  obtain n where v: "jobView p (view r) i = (case mapGet (jobs s) i of None \<Rightarrow> emptyView | Some job \<Rightarrow> viewOf n job)"
    using agree_view [OF assms] .
  then show ?thesis by (simp add: named_def hget_job split: option.split)
qed

lemma promoteDue_agrees:
  assumes ag: "agree p (view r) s" and td: "tidy p (view r)" and wf: "wellFormed s"
    and due: "\<And>i job. mapGet (jobs s) i = Some job \<Longrightarrow> j_state job = Delayed \<Longrightarrow> j_runAt job \<le> now \<Longrightarrow> j_queue job = q"
  shows "agree p (view (promoteDueMembers rd p q now r)) (promoteDue now s) \<and> tidy p (view (promoteDueMembers rd p q now r))"
proof -
  let ?z = "rd_zsets (view r) (delayedKey p q)"
  let ?js = "members (filter (\<lambda>(m, sc). sc \<le> Fin now) (ranking ?z))"
  have js: "members (rc_zrangebyscore rd (delayedKey p q) NegInf (Incl (Fin now)) None r) = ?js"
    by (simp add: zrangebyscore byScoreD_def)
  have "distinct (members (ranking ?z))" using td by (simp add: tidy_def distinct_ranking)
  then have dist: "distinct ?js" by (rule distinct_map_filter)
  have mem: "i \<in> set ?js \<longleftrightarrow>
      (\<exists>job. mapGet (jobs s) i = Some job \<and> j_state job = Delayed \<and> j_queue job = q \<and> j_runAt job \<le> now)" for i
    using delayed_set [OF ag td, of i _ q] by (force simp: image_iff)
  have "mapGet (jobs (promoteDue now s)) i = mapGet (jobs (fold wake1 ?js s)) i" for i
  proof (cases "mapGet (jobs s) i")
    case None
    then show ?thesis by (simp add: updJobs_get [OF wf_id [OF wf] _ dist])
  next
    case (Some job)
    have "i \<in> set ?js \<longleftrightarrow> j_state job = Delayed \<and> j_runAt job \<le> now" using Some mem [of i] due [of i] by auto
    then show ?thesis using Some by (simp add: updJobs_get [OF wf_id [OF wf] _ dist] promoteJob_def del: set_map)
  qed
  moreover have "agree p (view (fold (promoteMember rd p q) ?js r)) (fold wake1 ?js s)
      \<and> tidy p (view (fold (promoteMember rd p q) ?js r))"
    by (rule promoteMembers_agree [OF ag td dist]) (use mem wf_id [OF wf] in blast)
  ultimately show ?thesis
    using agree_cong [of p "view (fold (promoteMember rd p q) ?js r)" "fold wake1 ?js s" "promoteDue now s"]
    by (simp add: promoteDueMembers_def js del: set_map)
qed

end

section \<open>What the claim finds\<close>

lemma find_map_fst: "find (\<lambda>m. P m) (map fst xs) = map_option fst (find (\<lambda>(m, sc). P m) xs)"
  by (induction xs) auto

definition wanted :: "queue_name \<Rightarrow> string list \<Rightarrow> job_state \<Rightarrow> mem_store \<Rightarrow> job_id \<Rightarrow> mem_job \<Rightarrow> bool" where
  "wanted q names st s i job \<longleftrightarrow>
     mapGet (jobs s) i = Some job \<and> j_queue job = q \<and> j_name job \<in> set names \<and> j_state job = st"

context redis_server
begin

lemma earliestDelayed_least:
  assumes ag: "agree p (view r) s" and td: "tidy p (view r)"
  shows "earliestDelayed rd p q names r = Some t \<longleftrightarrow>
    (\<exists>i job. wanted q names Delayed s i job \<and> j_runAt job = t)
    \<and> (\<forall>i job. wanted q names Delayed s i job \<longrightarrow> t \<le> j_runAt job)"
proof -
  let ?z = "rd_zsets (view r) (delayedKey p q)"
  let ?find = "find (\<lambda>(m, sc). named rd p names m r) (ranking ?z)"
  note member = delayed_set [OF ag td, of _ _ q] and named = named_job [OF ag]
  have val: "earliestDelayed rd p q names r = map_option (\<lambda>(m, sc). scoreInt sc) ?find"
    by (simp add: earliestDelayed_def zrange)
  have elem: "wanted q names Delayed s i job \<Longrightarrow> (i, Fin (j_runAt job)) \<in> set ?z \<and> named rd p names i r" for i job
    by (auto simp: wanted_def member named)
  show ?thesis
  proof (cases ?find)
    case None
    then have "\<not> wanted q names Delayed s i job" for i job
      using elem [of i job] by (auto simp: find_None_iff)
    with None show ?thesis by (simp add: val)
  next
    case (Some x)
    obtain m sc where x: "x = (m, sc)" by force
    from ranking_find [OF Some [unfolded x]] have
      m: "(m, sc) \<in> set ?z" "named rd p names m r" and
      least: "\<And>m' sc'. (m', sc') \<in> set ?z \<Longrightarrow> named rd p names m' r \<Longrightarrow> (sc, m) \<le> (sc', m')" by auto
    from m obtain job where job: "wanted q names Delayed s m job" "sc = Fin (j_runAt job)"
      by (auto simp: wanted_def member named)
    have le: "j_runAt job \<le> j_runAt y" if "wanted q names Delayed s k y" for k y
      using least [of k "Fin (j_runAt y)"] elem [OF that] job(2) by (auto simp: less_eq_prod_def)
    have "earliestDelayed rd p q names r = Some (j_runAt job)" using Some x job(2) by (simp add: val)
    then show ?thesis using job(1) le by (auto intro: order_antisym)
  qed
qed

lemma first_waiting:
  assumes ns: "\<And>i. jobView p (view r) i = viewIn ns s i" and sq: "seqsAgree c ns s" and c: "c < 10 ^ 16"
    and ag: "agree p (view r) s" and td: "tidy p (view r)"
    and found: "find (\<lambda>(m, sc). named rd p names (waitingId m) r) (ranking (rd_zsets (view r) (waitingKey p q))) = Some (m, sc)"
  shows "\<exists>i job. wanted q names Waiting s i job \<and> m = waitingMember (int (ns i)) i
    \<and> (\<forall>k y. wanted q names Waiting s k y \<longrightarrow> jobRank job \<le> jobRank y)"
proof -
  let ?z = "rd_zsets (view r) (waitingKey p q)"
  note member = waiting_set [OF ns td, of _ _ q] and named = named_job [OF ag]
  have small: "int (ns i) < 10 ^ 16" if "mapGet (jobs s) i = Some job" for i job
    using sq that c by (force simp: seqsAgree_def)
  from ranking_find [OF found] have
    m: "(m, sc) \<in> set ?z" "named rd p names (waitingId m) r" and
    least: "\<And>m' sc'. (m', sc') \<in> set ?z \<Longrightarrow> named rd p names (waitingId m') r \<Longrightarrow> (sc, m) \<le> (sc', m')" by auto
  from m(1) obtain i job where i: "mapGet (jobs s) i = Some job" "j_state job = Waiting" "j_queue job = q"
    "sc = Fin (- j_priority job)" "m = waitingMember (int (ns i)) i" by (auto simp: member)
  from m(2) i small [OF i(1)] have w: "wanted q names Waiting s i job"
    by (auto simp: wanted_def named waitingId_member)
  have "jobRank job \<le> jobRank y" if y: "wanted q names Waiting s k y" for k y
  proof -
    have k: "mapGet (jobs s) k = Some y" using y by (simp add: wanted_def)
    have "(waitingMember (int (ns k)) k, Fin (- j_priority y)) \<in> set ?z"
      and "named rd p names (waitingId (waitingMember (int (ns k)) k)) r"
      using y small [OF k] by (auto simp: wanted_def member named waitingId_member)
    from least [OF this] have le: "(Fin (- j_priority job), m) \<le> (Fin (- j_priority y), waitingMember (int (ns k)) k)"
      using i(4) by simp
    have "m_seq job \<le> m_seq y" if "m \<le> waitingMember (int (ns k)) k"
    proof (rule ccontr)
      assume "\<not> m_seq job \<le> m_seq y"
      then have "ns k < ns i" using sq i(1) k by (simp add: seqsAgree_def not_le)
      then have "waitingMember (int (ns k)) k < m" using small [OF i(1)] i(5) by (simp add: waitingMember_less)
      with that show False by simp
    qed
    then show ?thesis using le by (auto simp: jobRank_def less_eq_prod_def)
  qed
  with w i(5) show ?thesis by blast
qed

lemma no_waiting:
  assumes ns: "\<And>i. jobView p (view r) i = viewIn ns s i" and sq: "seqsAgree c ns s" and c: "c < 10 ^ 16"
    and ag: "agree p (view r) s" and td: "tidy p (view r)"
    and none: "find (\<lambda>(m, sc). named rd p names (waitingId m) r) (ranking (rd_zsets (view r) (waitingKey p q))) = None"
  shows "\<not> wanted q names Waiting s k y"
proof
  assume y: "wanted q names Waiting s k y"
  then have k: "mapGet (jobs s) k = Some y" by (simp add: wanted_def)
  have "int (ns k) < 10 ^ 16" using sq k c by (force simp: seqsAgree_def)
  with y have "(waitingMember (int (ns k)) k, Fin (- j_priority y)) \<in> set (rd_zsets (view r) (waitingKey p q))"
    and "named rd p names (waitingId (waitingMember (int (ns k)) k)) r"
    by (auto simp: wanted_def waiting_set [OF ns td] named_job [OF ag] waitingId_member)
  with none show False by (auto simp: find_None_iff)
qed

lemma takeMember_view:
  assumes "jobView p (view r) j = viewOf n job" and "j_state job = Waiting" and "int n < 10 ^ 16" and "j_queue job = co_queue opts"
  shows "jobView p (view (takeMember rd p (co_queue opts) (waitingMember (int n) j) (co_token opts) (co_lockDurationMs opts) now r)) i =
      (if i = j then viewOf n (activate opts now job) else jobView p (view r) i)"
    and "globalView p (view (takeMember rd p (co_queue opts) (waitingMember (int n) j) (co_token opts) (co_lockDurationMs opts) now r))
      = globalView p (view r)"
  using assms
  by (auto simp: takeMember_def waitingId_member Let_def script_views global_simps row_updates row_lock viewOf_def
      fun_eq_iff activate_def)

lemma takeMember_tidy:
  "tidy p (view r) \<Longrightarrow> tidy p (view (takeMember rd p q m token d now r))"
  by (simp add: takeMember_def writes tidy_rules Let_def)

end

section \<open>claim\<close>

lemma viewOf_counter: "viewOf n job = viewOf n' job \<Longrightarrow> n = n'"
proof -
  assume "viewOf n job = viewOf n' job"
  then have "map_of (rowTexts n job) ''seq'' = map_of (rowTexts n' job) ''seq''" by (metis view_Some(1))
  then have "textNumber (Some (intToString (int n))) = textNumber (Some (intToString (int n')))" by simp
  then show "n = n'" by (simp only: textNumber_simps of_nat_eq_iff)
qed

lemma claim_replies [simp]:
  "claimReply (emptyReply n) w = Empty n w"
  "claimReply (reply [(''job'', row)]) w = Claimed (toRecord (foldPairs row))"
  by (simp_all add: claimReply_def emptyReply_def jsonInt_def split: option.split)

lemma wanted_ready:
  "wanted (co_queue opts) (co_names opts) Waiting (promoteDue now s) i x \<Longrightarrow> co_queue opts \<notin> set (paused s) \<Longrightarrow>
     readyJob now opts s i \<and> rankOf s i = jobRank x"
  by (auto simp: wanted_def readyJob_def rankOf_def eligible_def promoteJob_runnable)

lemma wanted_next:
  "wanted (co_queue opts) (co_names opts) Delayed (promoteDue now s) i x \<longleftrightarrow>
     mapGet (jobs s) i = Some x \<and> eligible opts x \<and> j_state x = Delayed \<and> now < j_runAt x"
  by (auto simp: wanted_def eligible_def promoteJob_def split: if_splits) (drule arg_cong [where f = j_state], simp)

context redis_server
begin

lemma promoteDue_global: "globalView p (view (promoteDueMembers rd p q now r)) = globalView p (view r)"
proof -
  have "globalView p (view (fold (promoteMember rd p q) js r)) = globalView p (view r)" for js
    by (induction js arbitrary: r) (simp_all add: promoteMember_def writes global_simps Let_def)
  then show ?thesis by (simp add: promoteDueMembers_def)
qed

lemma row_record:
  assumes "jobView p (view r) j = viewOf n job" and "storable job"
  shows "toRecord (foldPairs (flatPairs (rc_hgetall rd (jobKey p j) r))) = snapshot job"
proof (rule toRecord_rowTexts [where n = n, OF _ assms(2)])
  have "map_of (rc_hgetall rd (jobKey p j) r) = map_of (rowTexts n job)"
    using hgetall [of "jobKey p j" r] assms(1) by (simp add: jobView_def viewOf_def fun_eq_iff)
  then show "mapGet (foldPairs (flatPairs (rc_hgetall rd (jobKey p j) r))) = map_of (rowTexts n job)"
    using mapGet_foldPairs [OF hgetall_distinct] by (simp add: fun_eq_iff)
qed

lemma earliest_claims:
  assumes "agree p (view r) (promoteDue now s)" and "tidy p (view r)"
    and "\<And>t. nextRunAt = Some t \<longleftrightarrow>
       (\<exists>i j. mapGet (jobs s) i = Some j \<and> eligible opts j \<and> j_state j = Delayed \<and> now < j_runAt j \<and> j_runAt j = t)
       \<and> (\<forall>i j. mapGet (jobs s) i = Some j \<longrightarrow> eligible opts j \<longrightarrow> j_state j = Delayed \<longrightarrow> now < j_runAt j \<longrightarrow> t \<le> j_runAt j)"
  shows "earliestDelayed rd p (co_queue opts) (co_names opts) r = nextRunAt"
proof -
  have "earliestDelayed rd p (co_queue opts) (co_names opts) r = Some t \<longleftrightarrow> nextRunAt = Some t" for t
    unfolding earliestDelayed_least [OF assms(1,2)] wanted_next assms(3) by blast
  then show ?thesis by (metis option.exhaust)
qed

lemma claim_sim:
  assumes sim: "simulates dr view st s" and td: "tidy (dr_prefix dr) (view (rs_server st))" and rd: "dr_redis dr = rd"
    and wf: "wellFormed s"
    and due: "\<And>i job. mapGet (jobs s) i = Some job \<Longrightarrow> j_state job = Delayed \<Longrightarrow> j_runAt job \<le> now \<Longrightarrow> j_queue job = co_queue opts"
    and ok: "\<And>i job. mapGet (jobs s) i = Some job \<Longrightarrow> storable job"
    and c: "fst (globalView (dr_prefix dr) (view (rs_server st))) < 10 ^ 16"
  shows "\<exists>st'. redisClaim dr now opts st = Some (fst (claim now opts s), st') \<and> simulates dr view st' (snd (claim now opts s))
    \<and> tidy (dr_prefix dr) (view (rs_server st'))"
proof -
  let ?p = "dr_prefix dr" and ?r = "rs_server st" and ?q = "co_queue opts" and ?names = "co_names opts"
  let ?r1 = "promoteDueMembers rd ?p ?q now ?r" and ?s1 = "promoteDue now s"
  have ag0: "agree ?p (view ?r) s" and wk: "rs_wake st = wakeOf s" using sim by (simp_all add: simulates_def)
  have ag: "agree ?p (view ?r1) ?s1" and td1: "tidy ?p (view ?r1)"
    using promoteDue_agrees [OF ag0 td wf due] by auto
  obtain ns where ns: "\<And>i. jobView ?p (view ?r1) i = viewIn ns ?s1 i" and
    sq: "seqsAgree (fst (globalView ?p (view ?r1))) ns ?s1" and
    pd: "snd (globalView ?p (view ?r1)) = set (paused ?s1)"
    using ag unfolding agree_def by blast
  have c1: "fst (globalView ?p (view ?r1)) < 10 ^ 16" using c by (simp add: promoteDue_global)
  have paused: "?q \<in> set (rc_smembers rd (plainKey ?p ''paused'') ?r1) \<longleftrightarrow> ?q \<in> set (paused s)"
    using pd by (simp add: smembers globalView_def promoteDue_def)
  let ?find = "find (\<lambda>(m, sc). named rd ?p ?names (waitingId m) ?r1) (ranking (rd_zsets (view ?r1) (waitingKey ?p ?q)))"
  have scan: "scanWaiting rd ?p ?q ?names 0 ?r1 = Some (map_option fst ?find)"
    by (simp add: scanWaiting_find find_map_fst)
  have names: "(case parseJson (jsonText (JArr (map JStr ?names))) of None \<Rightarrow> [] | Some j \<Rightarrow> stringsOf j) = ?names"
    by (simp only: parse_jsonText option.case stringsOf_strings)
  have wk1: "wakeOf ?s1 = wakeOf s" "wk_version (rs_wake st) = wakeVersion s"
    using wk by (simp_all add: promoteDue_def) (simp add: wakeOf_def)
  note call = redisClaim_def luaClaim_def rd names Let_def paused scan
  from wf show ?thesis
  proof (cases rule: claim_cases [where now = now and opts = opts])
    case (empty n)
    have next_: "earliestDelayed rd ?p ?q ?names ?r1 = n" by (rule earliest_claims [OF ag td1 empty(3)])
    have "?find = None" if "?q \<notin> set (paused s)"
    proof (rule ccontr)
      assume "?find \<noteq> None"
      then obtain m sc where "?find = Some (m, sc)" by auto
      from first_waiting [OF ns sq c1 ag td1 this] wanted_ready [OF _ that] empty(2) show False by blast
    qed
    then have "redisClaim dr now opts st = Some (Empty n (wakeVersion s), st\<lparr>rs_server := ?r1\<rparr>)"
      using next_ wk1 by (simp add: call del: jsonText.simps)
    then show ?thesis using empty(1) ag td1 wk wk1 by (simp add: simulates_def)
  next
    case (claimed j)
    let ?x = "promoteJob now j" and ?i = "j_id j"
    have np: "?q \<notin> set (paused s)" and elig: "eligible opts j" and run: "runnable now j"
      using claimed(2,3) by (auto simp: readyJob_def)
    have got: "mapGet (jobs ?s1) ?i = Some ?x" using claimed(2) by simp
    have w: "wanted ?q ?names Waiting ?s1 ?i ?x"
      using got elig run by (simp add: wanted_def eligible_def promoteJob_runnable)
    obtain m sc where found: "?find = Some (m, sc)"
      using no_waiting [OF ns sq c1 ag td1, of ?names ?q ?i ?x] w by fastforce
    from first_waiting [OF ns sq c1 ag td1 found] obtain k y where
      y: "wanted ?q ?names Waiting ?s1 k y" "m = waitingMember (int (ns k)) k" and
      least: "\<And>k' y'. wanted ?q ?names Waiting ?s1 k' y' \<Longrightarrow> jobRank y \<le> jobRank y'" by blast
    have "jobRank y = jobRank ?x"
      using least [OF w] claimed(4) [of k] wanted_ready [OF y(1) np] wanted_ready [OF w np] by (auto intro: order_antisym)
    moreover have "mapGet (jobs ?s1) k = Some y" using y(1) by (simp add: wanted_def)
    moreover have "seq_ok ?s1" using promoteDue_wf [OF wf, of now] by (simp add: wellFormed_def wfx_def)
    ultimately have k: "k = ?i" using got unfolding seq_ok_def jobRank_def prod.inject by blast
    let ?n = "ns ?i"
    let ?r2 = "takeMember rd ?p ?q m (co_token opts) (co_lockDurationMs opts) now ?r1"
    have v: "jobView ?p (view ?r1) ?i = viewOf ?n ?x" using ns [of ?i] claimed(2) by (simp add: viewIn_def)
    have small: "int ?n < 10 ^ 16" using sq got c1 by (force simp: seqsAgree_def)
    have wait: "j_state ?x = Waiting" "j_queue ?x = ?q" using w by (simp_all add: wanted_def)
    note take = takeMember_view [OF _ wait(1) small wait(2), where now = now]
    have m: "m = waitingMember (int ?n) ?i" using y(2) k(1) by simp
    have ag2: "agree ?p (view ?r2) (putJob (activate opts now ?x) ?s1)"
    proof (rule agree_put [OF ag got, where job' = "activate opts now ?x"])
      fix n' i'
      assume "jobView ?p (view ?r1) ?i = viewOf n' ?x"
      with v have n': "n' = ?n" using viewOf_counter by metis
      show "jobView ?p (view ?r2) i' = (if i' = ?i then viewOf n' (activate opts now ?x) else jobView ?p (view ?r1) i')"
        using take(1) [OF v, of i'] by (simp add: m n')
    qed (use take(2) [OF v] in \<open>simp_all add: m\<close>)
    have v2: "jobView ?p (view ?r2) ?i = viewOf ?n (activate opts now ?x)" using take(1) [OF v, of ?i] by (simp add: m)
    have "storable (activate opts now ?x)"
      using ok [OF claimed(2)] by (simp add: storable_def activate_def promoteJob_def)
    from row_record [OF v2 this]
    have "redisClaim dr now opts st = Some (Claimed (snapshot (activate opts now ?x)), st\<lparr>rs_server := ?r2\<rparr>)"
      using np found small by (simp add: call m waitingId_member del: jsonText.simps)
    then show ?thesis using claimed(1) ag2 takeMember_tidy [OF td1] wk wk1 by (simp add: simulates_def)
  qed
qed

end

end
