(* ===== verification/RedisRecoverSim.thy ===== *)
theory RedisRecoverSim
  imports RedisClaimSim
begin

text \<open>
  The recovery of expired locks. The Redis script visits the expired members of the active set in the
  order of their expiry, the in-memory driver its jobs in the order of insertion; what either does to a
  job does not depend on the others, so the stores agree afterwards and the reports are permutations of
  each other.
\<close>

section \<open>The script\<close>

lemma active_set:
  assumes "agree p d s" and "tidy p d"
  shows "(m, sc) \<in> set (rd_zsets d (plainKey p ''active'')) \<longleftrightarrow>
    (\<exists>job e. mapGet (jobs s) m = Some job \<and> j_state job = Active \<and> m_lockExpiresAt job = Some e \<and> sc = Fin e)"
proof -
  obtain n where v: "jobView p d m = (case mapGet (jobs s) m of None \<Rightarrow> emptyView | Some job \<Rightarrow> viewOf n job)"
    using agree_view [OF assms(1)] .
  have "mapGet (rd_zsets d (plainKey p ''active'')) m = jv_active (jobView p d m)" by (simp add: jobView_def)
  then show ?thesis unfolding zset_get [OF assms(2)]
    by (auto simp: v viewOf_def emptyView_def split: option.splits if_splits)
qed

context redis_server
begin

lemma recoverMember_cancel:
  assumes "jobView p (view r) j = viewOf n job" and "j_state job = Active" and "j_cancelRequested job" and "j_keep job = None"
  shows "\<exists>r'. recoverMember rd p m now j (reported, r) = (reported, r')
    \<and> (\<forall>i. jobView p (view r') i = (if i = j then viewOf n (recordAttempt ACancelled now None
          ((clearLock job)\<lparr>j_cancelRequested := False, j_state := Cancelled, j_finishedAt := Some now\<rparr>)) else jobView p (view r) i))
    \<and> globalView p (view r') = globalView p (view r)"
proof -
  let ?r = "zrem rd (plainKey p ''active'') j r"
  have v: "jobView p (view ?r) i = (if i = j then (viewOf n job)\<lparr>jv_active := None\<rparr> else jobView p (view r) i)" for i
    using assms(1) by (simp add: script_views)
  then have vj: "jobView p (view ?r) j = (viewOf n job)\<lparr>jv_active := None\<rparr>" by simp
  note fin = luaFinishCancelled_view [OF vj assms(2,4)]
  have "recoverMember rd p m now j (reported, r) = (reported,
      luaFinishCancelled rd p j (j_queue job) (j_name job) (Some (showNum (j_processedAt job))) now ?r)"
    using assms(1,2,3) by (simp add: recoverMember_def Let_def hget_job v)
  then show ?thesis using fin by (simp add: v) (simp add: writes global_simps)
qed

lemma recoverMember_fail:
  assumes "jobView p (view r) j = viewOf n job" and "j_state job = Active" and "\<not> j_cancelRequested job"
    and "j_stalledCount job + 1 > m"
  shows "\<exists>r'. recoverMember rd p m now j (reported, r) = (reported @ [(j, True)], r')
    \<and> (\<forall>i. jobView p (view r') i = (if i = j then viewOf n ((recordAttempt AStalled now None
          ((clearLock job)\<lparr>j_stalledCount := j_stalledCount job + 1\<rparr>))\<lparr>j_state := Failed, j_finishedAt := Some now,
             j_failedReason := Some ''job stalled more than allowable limit''\<rparr>) else jobView p (view r) i))
    \<and> globalView p (view r') = globalView p (view r)"
  using assms
  by (auto simp: recoverMember_def Let_def script_views global_simps row_updates viewOf_def fun_eq_iff attemptEntry_def
      recordAttempt_def clearLock_def outcomeText_def showOpt_def)
    (simp_all add: rowTexts_def)

lemma recoverMember_wait:
  assumes "jobView p (view r) j = viewOf n job" and "j_state job = Active" and "\<not> j_cancelRequested job"
    and "\<not> j_stalledCount job + 1 > m"
  shows "\<exists>r'. recoverMember rd p m now j (reported, r) = (reported @ [(j, False)], r')
    \<and> (\<forall>i. jobView p (view r') i = (if i = j then viewOf n ((recordAttempt AStalled now None
          ((clearLock job)\<lparr>j_stalledCount := j_stalledCount job + 1\<rparr>))\<lparr>j_state := Waiting\<rparr>) else jobView p (view r) i))
    \<and> globalView p (view r') = globalView p (view r)"
  using assms
  by (auto simp: recoverMember_def Let_def script_views global_simps row_updates viewOf_def fun_eq_iff attemptEntry_def
      recordAttempt_def clearLock_def outcomeText_def showOpt_def)
    (simp_all add: rowTexts_def)

lemma recoverMember_tidy:
  "tidy p (view r) \<Longrightarrow> agree p (view r) s \<Longrightarrow> tidy p (view (snd (recoverMember rd p m now j (reported, r))))"
  by (simp add: recoverMember_def writes tidy_rules Let_def script_views seq_text_pos)

lemma recoverMember_agrees:
  assumes ag: "agree p (view r) s" and some: "mapGet (jobs s) j = Some job" and id: "j_id job = j"
    and keep: "j_keep job = None" and st: "stalled now job"
  shows "\<exists>r'. recoverMember rd p m now j (reported, r) = (reported @ recoverReport now m s j, r')
    \<and> agree p (view r') (updJob (recoveredJob now m) j s)"
proof -
  obtain n where v: "jobView p (view r) j = viewOf n job" using agree_view [OF ag, of j] some by auto
  have act: "j_state job = Active" using st by (simp add: stalled_def)
  have "\<exists>r'. recoverMember rd p m now j (reported, r) = (reported @ recoverReport now m s j, r')
    \<and> (\<forall>i. jobView p (view r') i = (if i = j then viewOf n (recoveredJob now m job) else jobView p (view r) i))
    \<and> globalView p (view r') = globalView p (view r)"
  proof (cases "j_cancelRequested job")
    case True
    have "recoveredJob now m job = recordAttempt ACancelled now None
        ((clearLock job)\<lparr>j_cancelRequested := False, j_state := Cancelled, j_finishedAt := Some now\<rparr>)"
      "recoverReport now m s j = []"
      using True some st by (simp_all add: recoverReport_def recoveredJob_def)
    with recoverMember_cancel [OF v act True keep, of m now reported] show ?thesis by (simp only: append_Nil2)
  next
    case nc: False
    show ?thesis
    proof (cases "j_stalledCount job + 1 > m")
      case True
      have "recoveredJob now m job = (recordAttempt AStalled now None
          ((clearLock job)\<lparr>j_stalledCount := j_stalledCount job + 1\<rparr>))\<lparr>j_state := Failed, j_finishedAt := Some now,
             j_failedReason := Some ''job stalled more than allowable limit''\<rparr>"
        "recoverReport now m s j = [(j, True)]"
        using nc True some st by (simp_all add: recoverReport_def recoveredJob_def Let_def)
      with recoverMember_fail [OF v act nc True, of now reported] show ?thesis by (simp only:)
    next
      case False
      have "recoveredJob now m job = (recordAttempt AStalled now None
          ((clearLock job)\<lparr>j_stalledCount := j_stalledCount job + 1\<rparr>))\<lparr>j_state := Waiting\<rparr>"
        "recoverReport now m s j = [(j, False)]"
        using nc False some st by (simp_all add: recoverReport_def recoveredJob_def Let_def)
      with recoverMember_wait [OF v act nc False, of now reported] show ?thesis by (simp only:)
    qed
  qed
  then obtain r' where r': "recoverMember rd p m now j (reported, r) = (reported @ recoverReport now m s j, r')"
    "\<And>i. jobView p (view r') i = (if i = j then viewOf n (recoveredJob now m job) else jobView p (view r) i)"
    "globalView p (view r') = globalView p (view r)" by blast
  have "agree p (view r') (updJob (recoveredJob now m) j s)"
  proof (rule agree_put [OF ag some, where job' = "recoveredJob now m job"])
    fix n' i
    assume "jobView p (view r) j = viewOf n' job"
    with v have "n' = n" using viewOf_counter by metis
    then show "jobView p (view r') i = (if i = j then viewOf n' (recoveredJob now m job) else jobView p (view r) i)"
      using r'(2) [of i] by simp
  qed (use r'(3) some id in \<open>simp_all add: updJob_def\<close>)
  with r'(1) show ?thesis by blast
qed

lemma recoverMembers_agree:
  assumes "agree p (view r) s" and "tidy p (view r)" and "distinct js"
    and "\<And>i. i \<in> set js \<Longrightarrow> \<exists>job. mapGet (jobs s) i = Some job \<and> j_id job = i \<and> j_keep job = None \<and> stalled now job"
  shows "\<exists>r'. fold (recoverMember rd p m now) js (reported, r) = (reported @ concat (map (recoverReport now m s) js), r')
    \<and> agree p (view r') (fold (updJob (recoveredJob now m)) js s) \<and> tidy p (view r')"
  using assms
proof (induction js arbitrary: r s reported)
  case (Cons j js)
  from Cons.prems(4) [of j] obtain job where
    job: "mapGet (jobs s) j = Some job" "j_id job = j" "j_keep job = None" "stalled now job" by auto
  let ?s = "updJob (recoveredJob now m) j s"
  from recoverMember_agrees [OF Cons.prems(1) job, of m reported] obtain r' where
    r': "recoverMember rd p m now j (reported, r) = (reported @ recoverReport now m s j, r')" "agree p (view r') ?s" by blast
  have td: "tidy p (view r')" using recoverMember_tidy [OF Cons.prems(2,1), of m now j reported] r'(1) by simp
  have same: "mapGet (jobs ?s) i = mapGet (jobs s) i" if "i \<in> set js" for i
    using that Cons.prems(3) job by (auto simp: updJob_def)
  have reports: "map (recoverReport now m ?s) js = map (recoverReport now m s) js"
    using same by (auto intro!: recoverReport_cong)
  have "\<exists>r''. fold (recoverMember rd p m now) js (reported @ recoverReport now m s j, r')
      = ((reported @ recoverReport now m s j) @ concat (map (recoverReport now m ?s) js), r'')
    \<and> agree p (view r'') (fold (updJob (recoveredJob now m)) js ?s) \<and> tidy p (view r'')"
  proof (rule Cons.IH [OF r'(2) td])
    fix i assume i: "i \<in> set js"
    then have "i \<in> set (j # js)" by simp
    from Cons.prems(4) [OF this] same [OF i]
    show "\<exists>job. mapGet (jobs ?s) i = Some job \<and> j_id job = i \<and> j_keep job = None \<and> stalled now job" by simp
  qed (use Cons.prems(3) in simp)
  then show ?case by (simp add: r'(1) reports)
qed simp

end

section \<open>recoverStalled\<close>

lemma recoveredOf_reply [simp]: "recoveredOf (JObj [(''id'', JStr i), (''failed'', JBool b)]) = (i, b)"
  by (simp add: recoveredOf_def orElse_def)

lemma recovered_reply:
  "map recoveredOf (repliesOf (jsonText (JArr (map (\<lambda>(i, failed). JObj [(''id'', JStr i), (''failed'', JBool failed)]) xs)))) = xs"
proof -
  have "map recoveredOf (map (\<lambda>(i, failed). JObj [(''id'', JStr i), (''failed'', JBool failed)]) xs) = xs"
    by (induction xs) auto
  then show ?thesis by (simp only: repliesOf_def parse_jsonText option.case json.case)
qed

context redis_server
begin

lemma recoverStalled_sim:
  assumes sim: "simulates dr view st s" and td: "tidy (dr_prefix dr) (view (rs_server st))" and rd: "dr_redis dr = rd"
    and wf: "wellFormed s" and un: "unlimited s"
  shows "mset (fst (redisRecoverStalled dr now m st)) = mset (fst (recoverStalled now m s))
    \<and> simulates dr view (snd (redisRecoverStalled dr now m st)) (snd (recoverStalled now m s))
    \<and> tidy (dr_prefix dr) (view (rs_server (snd (redisRecoverStalled dr now m st))))"
proof -
  let ?p = "dr_prefix dr" and ?r = "rs_server st"
  let ?z = "rd_zsets (view ?r) (plainKey ?p ''active'')"
  let ?js = "members (filter (\<lambda>(m, sc). sc \<le> Fin now) (ranking ?z))" and ?ks = "mapKeys (jobs s)"
  let ?found = "concat (map (recoverReport now m s) ?js)" and ?s = "snd (fold (recoverStep now m) ?ks ([], s))"
  have ag: "agree ?p (view ?r) s" and wk: "rs_wake st = wakeOf s" using sim by (simp_all add: simulates_def)
  have js: "members (rc_zrangebyscore rd (plainKey ?p ''active'') NegInf (Incl (Fin now)) None ?r) = ?js"
    by (simp add: zrangebyscore byScoreD_def)
  have "distinct (members (ranking ?z))" using td by (simp add: tidy_def distinct_ranking)
  then have dist: "distinct ?js" by (rule distinct_map_filter)
  have mem: "i \<in> set ?js \<longleftrightarrow> (\<exists>job. mapGet (jobs s) i = Some job \<and> stalled now job)" for i
    using active_set [OF ag td, of i] by (force simp: image_iff stalled_def split: option.splits)
  have ok: "\<And>i job. mapGet (jobs s) i = Some job \<Longrightarrow> j_id job = i \<and> j_keep job = None"
    using wf_id [OF wf] unlimited_job [OF un] by blast
  note steps = recoverSteps_all [OF ok wf_distinct [OF wf], where now = now and m = m and reported = "[]", unfolded append_Nil]
  obtain r' where r': "fold (recoverMember rd ?p m now) ?js ([], ?r) = (?found, r')"
    "agree ?p (view r') (fold (updJob (recoveredJob now m)) ?js s)" "tidy ?p (view r')"
    using recoverMembers_agree [OF ag td dist, where m = m and now = now and reported = "[]"] mem ok by fastforce
  have redis: "mapGet (jobs (fold (updJob (recoveredJob now m)) ?js s)) i =
      (if i \<in> set ?js then map_option (recoveredJob now m) (mapGet (jobs s) i) else mapGet (jobs s) i)" for i
    by (rule updJobs_get [OF wf_id [OF wf] _ dist]) simp_all
  have memory: "mapGet (jobs ?s) i =
      (if i \<in> set ?ks then map_option (recoveredJob now m) (mapGet (jobs s) i) else mapGet (jobs s) i)" for i
    using steps by simp
  have same: "mapGet (jobs ?s) i = mapGet (jobs (fold (updJob (recoveredJob now m)) ?js s)) i" for i
  proof (cases "mapGet (jobs s) i")
    case (Some job)
    then have "i \<in> set ?ks" by (metis mapGet_None_iff option.distinct(1))
    moreover have "i \<in> set ?js \<longleftrightarrow> stalled now job" using mem [of i] Some by auto
    moreover have "\<not> stalled now job \<Longrightarrow> recoveredJob now m job = job" by (simp add: recoveredJob_def)
    ultimately show ?thesis unfolding redis memory Some by (metis option.map(2))
  qed (simp add: redis memory del: set_map)
  have ag': "agree ?p (view r') ?s"
    by (rule agree_cong [OF r'(2) same]) (use steps in simp)
  have perm: "mset ?found = mset (concat (map (recoverReport now m s) ?ks))"
  proof (rule recoverReports_perm [OF dist wf_distinct [OF wf]])
    fix i assume "reportable now s i"
    then obtain job where job: "mapGet (jobs s) i = Some job" "stalled now job"
      by (auto simp: reportable_def split: option.splits)
    then have "i \<in> set ?ks" by (metis mapGet_None_iff option.distinct(1))
    with job show "i \<in> set ?js \<longleftrightarrow> i \<in> set ?ks" using mem [of i] by blast
  qed
  then have "set ?found = set (concat (map (recoverReport now m s) ?ks))" by (rule mset_eq_setD)
  then have wake: "list_ex (\<lambda>(_, failed). \<not> failed) ?found
      = list_ex (\<lambda>(_, failed). \<not> failed) (concat (map (recoverReport now m s) ?ks))" by (simp only: list_ex_iff)
  have call: "redisRecoverStalled dr now m st = (?found,
      if list_ex (\<lambda>(_, failed). \<not> failed) ?found then wakeUp None (st\<lparr>rs_server := r'\<rparr>) else st\<lparr>rs_server := r'\<rparr>)"
    by (simp add: redisRecoverStalled_def luaRecoverStalled_def rd js r'(1) recovered_reply del: jsonText.simps)
  have call': "recoverStalled now m s = (concat (map (recoverReport now m s) ?ks),
      if list_ex (\<lambda>(_, failed). \<not> failed) ?found then signalWake None ?s else ?s)"
    unfolding recoverStalled_def using steps by (simp only: split_beta wake)
  have kept: "wakeOf ?s = wakeOf s" by (rule wakeOf_fields) (use steps in simp)
  have "agree ?p (view r') (signalWake None ?s)" by (rule agree_cong [OF ag']) simp_all
  then show ?thesis using ag' perm r'(3) wk kept by (simp add: call call' simulates_def)
qed

end

end
