(* ===== verification/RedisRuns.thy ===== *)
theory RedisRuns
  imports RedisRecoverSim
begin

text \<open>
  Runs. A client that enqueues jobs under its own ids, without dedupe, retention or fan-out, and calls
  any of the verbs in any order sees the same answers from the Redis driver and from the in-memory
  driver. The invariants: the counter of the server grows by at most one per call, and every job is one
  of the plain jobs the client enqueued.
\<close>

section \<open>The counter of the server\<close>

context redis_server
begin

abbreviation counter :: "string \<Rightarrow> 'r \<Rightarrow> int" where
  "counter p r \<equiv> fst (globalView p (view r))"

lemma global_drop [global_simps]: "globalView p (view (fold (dropRow rd p j) ks r)) = globalView p (view r)"
  by (induction ks arbitrary: r) (simp_all add: dropRow_def writes global_simps Let_def)

lemma global_delete [global_simps]: "globalView p (view (luaDeleteJob rd p j r)) = globalView p (view r)"
  by (simp add: luaDeleteJob_def writes global_simps Let_def split: option.split)

lemma global_prune [global_simps]: "globalView p (view (fold (luaPrune rd p) is r)) = globalView p (view r)"
  by (induction "is" arbitrary: r) (simp_all add: luaPrune_def global_simps)

lemma global_keep [global_simps]: "globalView p (view (luaApplyKeep rd p nm st keep now r)) = globalView p (view r)"
  by (auto simp: luaApplyKeep_def luaKeepAge_def luaKeepCount_def global_simps Let_def split: option.split)

lemma global_finish [global_simps]:
  "globalView p (view (luaFinish rd p j q nm sta now st ex out led r)) = globalView p (view r)"
  "globalView p (view (luaFinishCancelled rd p j q nm sta now r)) = globalView p (view r)"
  by (simp_all add: luaFinish_def luaFinishCancelled_def writes global_simps Let_def split: option.split)

lemma counter_release: "counter p (snd (luaRelease rd p j token now r)) = counter p r"
  by (simp add: luaRelease_def writes global_simps Let_def)

lemma counter_ack: "counter p (snd (luaAck rd p j token tag ex d now r)) \<le> counter p r + 1"
  by (simp add: luaAck_def luaAckRetry_def writes global_simps Let_def split_beta incr_seq seq_global)

lemma counter_retry: "counter p (snd (luaRetry rd p j now r)) \<le> counter p r + 1"
  by (simp add: luaRetry_def writes global_simps Let_def split_beta incr_seq seq_global)

lemma counter_promote: "counter p (snd (luaPromote rd p j now r)) = counter p r"
  by (simp add: luaPromote_def writes global_simps Let_def split_beta)

lemma counter_cancel:
  "rc_hget rd (jobKey p j) ''state'' r \<noteq> Some ''waiting-children'' \<Longrightarrow> counter p (snd (luaCancel rd p j now r)) = counter p r"
  by (simp add: luaCancel_def writes global_simps Let_def)

lemma counter_remove: "counter p (snd (luaRemove rd p j r)) = counter p r"
  by (simp add: luaRemove_def writes global_simps Let_def)

lemma counter_insert: "counter p (insertJobRow rd p ix j row now r) = counter p r + 1"
  by (simp add: insertJobRow_def writes global_simps Let_def split_beta incr_seq seq_global)

lemma counter_recover: "counter p (snd (luaRecoverStalled rd p m now r)) = counter p r"
proof -
  have "counter p (snd (recoverMember rd p m now i acc)) = counter p (snd acc)" for i acc
    by (cases acc) (simp add: recoverMember_def writes global_simps Let_def)
  then have "counter p (snd (fold (recoverMember rd p m now) is acc)) = counter p (snd acc)" for "is" acc
    by (induction "is" arbitrary: acc) simp_all
  then show ?thesis by (simp add: luaRecoverStalled_def Let_def split_beta)
qed

lemma counter_extend: "counter p (snd (luaExtendLocks rd p locks d now r)) = counter p r"
proof -
  have "counter p (snd (snd (extendOne rd p d now l acc))) = counter p (snd (snd acc))" for l acc
    by (cases l; cases acc) (simp add: extendOne_def writes global_simps Let_def)
  then have "counter p (snd (snd (fold (extendOne rd p d now) ls acc))) = counter p (snd (snd acc))" for ls acc
    by (induction ls arbitrary: acc) simp_all
  then show ?thesis by (simp add: luaExtendLocks_def Let_def split_beta)
qed

lemma counter_claim: "luaClaim rd p q names token d now r = Some (text, r') \<Longrightarrow> counter p r' = counter p r"
  by (auto simp: luaClaim_def takeMember_def writes global_simps Let_def promoteDue_global split: if_splits option.splits)

end

lemma plain_storable: "plainJob q job \<Longrightarrow> storable job"
  by (simp add: plainJob_def storable_def)

section \<open>Calls\<close>

fun redisVerb :: "'r redis_driver \<Rightarrow> millis \<Rightarrow> verb \<Rightarrow> 'r redis_store \<Rightarrow> (answer \<times> 'r redis_store) option" where
  "redisVerb dr now (VEnqueue r) st = Some (map_prod AEnqueue id (redisEnqueue dr now r st))"
| "redisVerb dr now (VClaim opts) st = map_option (map_prod AClaim id) (redisClaim dr now opts st)"
| "redisVerb dr now (VAck i token outcome) st = Some (map_prod ASettled id (redisAck dr now i token outcome st))"
| "redisVerb dr now (VRelease i token) st = Some (map_prod ASettled id (redisRelease dr now i token st))"
| "redisVerb dr now (VExtendLocks locks d) st = Some (map_prod ALocks id (redisExtendLocks dr now locks d st))"
| "redisVerb dr now (VRecoverStalled m) st =
     Some (map_prod (\<lambda>xs. ARecovered (mset xs)) id (redisRecoverStalled dr now m st))"
| "redisVerb dr now (VAwaitWake qs token) st = Some (map_prod AWaiter id (redisAwaitWake qs token st))"
| "redisVerb dr now (VCancelWait w) st = Some (ADone, redisCancelWait w st)"
| "redisVerb dr now (VCancel i) st = Some (map_prod ASettled id (redisCancel dr now i st))"
| "redisVerb dr now (VRetry i) st = Some (map_prod ASettled id (redisRetry dr now i st))"
| "redisVerb dr now (VPromote i) st = Some (map_prod ASettled id (redisPromote dr now i st))"
| "redisVerb dr now (VRemove i) st = Some (map_prod AFlag id (redisRemove dr i st))"
| "redisVerb dr now (VPause q) st = Some (ADone, redisPause dr q st)"
| "redisVerb dr now (VResume q) st = Some (ADone, redisResume dr q st)"
| "redisVerb dr now (VGetJob i) st = Some (AJob (redisGetJob dr i st), st)"
| "redisVerb dr now (VGetAttempts i) st = Some (AAttempts (redisGetAttempts dr i st), st)"

definition redisRun :: "'r redis_driver \<Rightarrow> (millis \<times> verb) list \<Rightarrow> 'r redis_store \<Rightarrow> (answer list \<times> 'r redis_store) option" where
  "redisRun dr = runVerbs (redisVerb dr)"

section \<open>One call\<close>

definition runInv ::
  "queue_name \<Rightarrow> int \<Rightarrow> 'r redis_driver \<Rightarrow> ('r \<Rightarrow> rdata) \<Rightarrow> 'r redis_store \<Rightarrow> mem_store \<Rightarrow> bool" where
  "runInv q c dr view st s \<longleftrightarrow> simulates dr view st s \<and> tidy (dr_prefix dr) (view (rs_server st)) \<and> wellFormed s
     \<and> plainStore q s \<and> fst (globalView (dr_prefix dr) (view (rs_server st))) \<le> c"

lemma guardedReply_server [simp]: "rs_server (snd (guardedReply i text st)) = rs_server st"
  by (auto simp: guardedReply_def Let_def split: option.split)

lemma verb_server [simp]:
  "rs_server (snd (redisRelease dr now i token st)) = snd (luaRelease (dr_redis dr) (dr_prefix dr) i token now (rs_server st))"
  "rs_server (snd (redisRetry dr now i st)) = snd (luaRetry (dr_redis dr) (dr_prefix dr) i now (rs_server st))"
  "rs_server (snd (redisPromote dr now i st)) = snd (luaPromote (dr_redis dr) (dr_prefix dr) i now (rs_server st))"
  "rs_server (snd (redisCancel dr now i st)) = snd (luaCancel (dr_redis dr) (dr_prefix dr) i now (rs_server st))"
  "rs_server (snd (redisRemove dr i st)) = snd (luaRemove (dr_redis dr) (dr_prefix dr) i (rs_server st))"
  "rs_server (snd (redisRecoverStalled dr now m st)) =
     snd (luaRecoverStalled (dr_redis dr) (dr_prefix dr) m now (rs_server st))"
  "rs_server (snd (redisAwaitWake qs w st)) = rs_server st" "rs_server (redisCancelWait w st) = rs_server st"
  by (auto simp: redisRelease_def redisRetry_def redisPromote_def redisCancel_def redisRemove_def
      redisRecoverStalled_def redisAwaitWake_def redisCancelWait_def Let_def split_beta split: sum.split option.split)

lemma await_sim:
  assumes "simulates dr view st s"
  shows "fst (redisAwaitWake qs w st) = fst (awaitWake qs w s)
    \<and> simulates dr view (snd (redisAwaitWake qs w st)) (snd (awaitWake qs w s))"
    and "simulates dr view (redisCancelWait n st) (cancelWait n s)"
proof -
  have wk: "rs_wake st = wakeOf s" using assms by (simp add: simulates_def)
  have "redisWakeFor (wakeOf s) q = lastWakeFor s q" for q
    by (simp add: redisWakeFor_def lastWakeFor_def wakeOf_def)
  then show "fst (redisAwaitWake qs w st) = fst (awaitWake qs w s)
    \<and> simulates dr view (snd (redisAwaitWake qs w st)) (snd (awaitWake qs w s))"
    using assms by (simp add: redisAwaitWake_def awaitWake_def wk Let_def simulates_def agree_def viewIn_def seqsAgree_def)
      (simp add: wakeOf_def)
  show "simulates dr view (redisCancelWait n st) (cancelWait n s)"
    using assms by (simp add: redisCancelWait_def cancelWait_def simulates_def agree_def viewIn_def seqsAgree_def)
      (simp add: wakeOf_def)
qed

context redis_server
begin

lemma inv_step:
  assumes "runInv q c dr view st s"
    and "simulates dr view st' s'" and "tidy (dr_prefix dr) (view (rs_server st'))" and "wellFormed s'" and "plainStore q s'"
    and "fst (globalView (dr_prefix dr) (view (rs_server st'))) \<le> fst (globalView (dr_prefix dr) (view (rs_server st))) + 1"
  shows "runInv q (c + 1) dr view st' s'"
  using assms by (simp add: runInv_def)

lemma enqueue_step:
  assumes inv: "runInv q c dr view st s" and rd: "dr_redis dr = rd" and plain: "plainRequest q r"
  shows "fst (redisEnqueue dr now r st) = fst (enqueueOne gen now r s)
    \<and> runInv q (c + 1) dr view (snd (redisEnqueue dr now r st)) (snd (enqueueOne gen now r s))"
proof -
  obtain i where i: "rq_id r = Some i" "rq_dedupe r = None" using plain by (auto simp: plainRequest_def)
  have sim: "simulates dr view st s" and wf: "wellFormed s" and td: "tidy (dr_prefix dr) (view (rs_server st))"
    and ps: "plainStore q s" using inv by (simp_all add: runInv_def)
  have ag: "agree (dr_prefix dr) (view (rs_server st)) s" using sim by (simp add: simulates_def)
  let ?r' = "insertJobRow rd (dr_prefix dr) (dr_indexes dr) i (enqueueArgs r ''user'' i) now (rs_server st)"
  have server: "rs_server (snd (redisEnqueue dr now r st)) =
      (if rc_exists rd (jobKey (dr_prefix dr) i) (rs_server st) then rs_server st else ?r')"
    using i by (simp add: redisEnqueue_def eval_nat_numeral candidateId_def idMode_def luaEnqueue_def rd luaDedupe_def
        luaChooseId_def registerDedupe_def Let_def)
  note both = enqueue_sim [OF sim rd wf i, of now gen]
  have "runInv q (c + 1) dr view (snd (redisEnqueue dr now r st)) (snd (enqueueOne gen now r s))"
    by (rule inv_step [OF inv conjunct2 [OF both] _ enqueueOne_wf [OF wf] plain_enqueue [OF ps plain]])
      (simp_all add: server counter_insert td insert_tidy [OF td ag])
  with both show ?thesis by simp
qed

lemma claim_step:
  assumes inv: "runInv q c dr view st s" and rd: "dr_redis dr = rd" and q: "co_queue opts = q" and c: "c < 10 ^ 16"
  shows "\<exists>st'. redisClaim dr now opts st = Some (fst (claim now opts s), st')
    \<and> runInv q (c + 1) dr view st' (snd (claim now opts s))"
proof -
  have sim: "simulates dr view st s" and wf: "wellFormed s" and td: "tidy (dr_prefix dr) (view (rs_server st))"
    and ps: "plainStore q s" and small: "fst (globalView (dr_prefix dr) (view (rs_server st))) < 10 ^ 16"
    using inv c by (simp_all add: runInv_def)
  obtain st' where st': "redisClaim dr now opts st = Some (fst (claim now opts s), st')"
    "simulates dr view st' (snd (claim now opts s))" "tidy (dr_prefix dr) (view (rs_server st'))"
    using claim_sim [OF sim td rd wf, of now opts] small plain_job [OF ps] q plain_storable by (fastforce simp: plainJob_def)
  from st'(1) obtain out where "luaClaim rd (dr_prefix dr) (co_queue opts) (jsonText (JArr (map JStr (co_names opts))))
      (co_token opts) (co_lockDurationMs opts) now (rs_server st) = Some (out, rs_server st')"
    by (auto simp: redisClaim_def rd Let_def simp del: jsonText.simps)
  from counter_claim [OF this] st' show ?thesis
    using inv_step [OF inv st'(2,3) claim_wf [OF wf] plain_claim [OF ps wf]] by simp
qed

lemma ack_step:
  assumes inv: "runInv q c dr view st s" and rd: "dr_redis dr = rd" and nf: "\<not> isFanOut outcome"
  shows "fst (redisAck dr now i token outcome st) = fst (ack now i token outcome s)
    \<and> runInv q (c + 1) dr view (snd (redisAck dr now i token outcome st)) (snd (ack now i token outcome s))"
proof -
  have sim: "simulates dr view st s" and wf: "wellFormed s" and td: "tidy (dr_prefix dr) (view (rs_server st))"
    and ps: "plainStore q s" using inv by (simp_all add: runInv_def)
  have ag: "agree (dr_prefix dr) (view (rs_server st)) s" using sim by (simp add: simulates_def)
  have server: "rs_server (snd (redisAck dr now i token outcome st)) =
      snd (luaAck rd (dr_prefix dr) i token (outcomeTag outcome) (showOpt (\<lambda>e. e) (outcomeExit outcome))
        (case outcome of Retry d _ \<Rightarrow> max 0 d | _ \<Rightarrow> 0) now (rs_server st))"
    using nf rd by (cases outcome) (simp_all add: redisAck_def isFanOut_def split_beta Let_def)
  have ok: "fanout_ok outcome" using nf by (cases outcome) (simp_all add: isFanOut_def fanout_ok_def)
  note both = ack_sim [OF sim rd wf plain_unlimited [OF ps] nf, of now i token]
  have "runInv q (c + 1) dr view (snd (redisAck dr now i token outcome st)) (snd (ack now i token outcome s))"
    by (rule inv_step [OF inv conjunct2 [OF both] _ _ plain_ack [OF ps nf]])
      (simp_all add: server ack_tidy [OF td ag] counter_ack ack_wf wf ok)
  with both show ?thesis by simp
qed

lemma extend_step:
  assumes inv: "runInv q c dr view st s" and rd: "dr_redis dr = rd"
  shows "fst (redisExtendLocks dr now locks d st) = fst (extendLocks now locks d s)
    \<and> runInv q (c + 1) dr view (snd (redisExtendLocks dr now locks d st)) (snd (extendLocks now locks d s))"
proof -
  have sim: "simulates dr view st s" and wf: "wellFormed s" and td: "tidy (dr_prefix dr) (view (rs_server st))"
    and ps: "plainStore q s" using inv by (simp_all add: runInv_def)
  let ?locks = "jsonText (JArr (map (\<lambda>(i, t). JObj [(''id'', JStr i), (''token'', JStr t)]) locks))"
  have server: "rs_server (snd (redisExtendLocks dr now locks d st)) =
      (if locks = [] then rs_server st else snd (luaExtendLocks rd (dr_prefix dr) ?locks d now (rs_server st)))"
    by (simp add: redisExtendLocks_def rd Let_def split_beta del: jsonText.simps)
  have "tidy (dr_prefix dr) (view (snd (luaExtendLocks rd (dr_prefix dr) ?locks d now (rs_server st))))"
    using extend_tidy [OF td] by (simp add: luaExtendLocks_def split_beta)
  then have "runInv q (c + 1) dr view (snd (redisExtendLocks dr now locks d st)) (snd (extendLocks now locks d s))"
    by (intro inv_step [OF inv conjunct2 [OF extendLocks_sim [OF sim rd wf]] _ extendLocks_wf [OF wf] plain_extend [OF ps]])
      (simp_all add: server td counter_extend)
  with extendLocks_sim [OF sim rd wf] show ?thesis by simp
qed

lemma cancel_step:
  assumes inv: "runInv q c dr view st s" and rd: "dr_redis dr = rd"
  shows "fst (redisCancel dr now i st) = fst (cancelJob now i s)
    \<and> runInv q (c + 1) dr view (snd (redisCancel dr now i st)) (snd (cancelJob now i s))"
proof -
  have sim: "simulates dr view st s" and wf: "wellFormed s" and td: "tidy (dr_prefix dr) (view (rs_server st))"
    and ps: "plainStore q s" using inv by (simp_all add: runInv_def)
  have nw: "mapGet (jobs s) i = Some job \<Longrightarrow> j_state job \<noteq> WaitingChildren" for job
    by (rule plain_not_waiting [OF ps wf])
  have st: "rc_hget rd (jobKey (dr_prefix dr) i) ''state'' (rs_server st) \<noteq> Some ''waiting-children''"
    using sim wf by (cases rule: job_cases [where j = i]) (use nw in \<open>auto simp: hget_job\<close>)
  note both = cancel_sim [OF sim rd wf plain_unlimited [OF ps] nw]
  have "runInv q (c + 1) dr view (snd (redisCancel dr now i st)) (snd (cancelJob now i s))"
    by (rule inv_step [OF inv conjunct2 [OF both] _ cancelJob_wf [OF wf] plain_cancel [OF ps wf]])
      (simp_all add: rd cancel_tidy [OF td st] counter_cancel [OF st])
  with both show ?thesis by simp
qed

lemma verb_step:
  assumes inv: "runInv q c dr view st s" and rd: "dr_redis dr = rd" and v: "plainVerb q v" and c: "c < 10 ^ 16"
  shows "\<exists>st'. redisVerb dr now v st = Some (fst (memVerb gen now v s), st')
    \<and> runInv q (c + 1) dr view st' (snd (memVerb gen now v s))"
proof -
  have sim: "simulates dr view st s" and wf: "wellFormed s" and td: "tidy (dr_prefix dr) (view (rs_server st))"
    and ps: "plainStore q s" using inv by (simp_all add: runInv_def)
  have ag: "agree (dr_prefix dr) (view (rs_server st)) s" using sim by (simp add: simulates_def)
  note un = plain_unlimited [OF ps] and step = inv_step [OF inv]
  show ?thesis
  proof (cases v)
    case (VEnqueue r)
    then show ?thesis using enqueue_step [OF inv rd, of r now gen] v by (simp add: plainVerb_def)
  next
    case (VClaim opts)
    then show ?thesis using claim_step [OF inv rd _ c, of opts now] v by (auto simp: plainVerb_def)
  next
    case (VAck i token outcome)
    then show ?thesis using ack_step [OF inv rd, of outcome now i token] v by (simp add: plainVerb_def)
  next
    case (VRelease i token)
    note both = release_sim [OF sim rd wf un, of now i token]
    have "runInv q (c + 1) dr view (snd (redisRelease dr now i token st)) (snd (release now i token s))"
      by (rule step [OF conjunct2 [OF both] _ release_wf [OF wf] plain_release [OF ps]])
        (simp_all add: rd release_tidy [OF td ag] counter_release)
    with both VRelease show ?thesis by simp
  next
    case (VExtendLocks locks d)
    then show ?thesis using extend_step [OF inv rd, of now locks d] by simp
  next
    case (VRecoverStalled m)
    note both = recoverStalled_sim [OF sim td rd wf un, of now m]
    have "runInv q (c + 1) dr view (snd (redisRecoverStalled dr now m st)) (snd (recoverStalled now m s))"
      by (rule step [OF _ _ recoverStalled_wf [OF wf] plain_recover [OF ps wf]])
        (use both in \<open>simp_all add: rd counter_recover\<close>)
    with both VRecoverStalled show ?thesis by simp
  next
    case (VAwaitWake qs w)
    have "runInv q (c + 1) dr view (snd (redisAwaitWake qs w st)) (snd (awaitWake qs w s))"
      by (rule step [OF conjunct2 [OF await_sim(1) [OF sim]] _ awaitWake_wf [OF wf]])
        (simp_all add: td plain_same [OF ps] awaitWake_def)
    with await_sim(1) [OF sim] VAwaitWake show ?thesis by simp
  next
    case (VCancelWait w)
    have "runInv q (c + 1) dr view (redisCancelWait w st) (cancelWait w s)"
      by (rule step [OF await_sim(2) [OF sim] _ cancelWait_wf [OF wf]])
        (simp_all add: td plain_same [OF ps] cancelWait_def)
    with VCancelWait show ?thesis by simp
  next
    case (VCancel i)
    then show ?thesis using cancel_step [OF inv rd, of now i] by simp
  next
    case (VRetry i)
    note both = retry_sim [OF sim rd wf, of now i]
    have "runInv q (c + 1) dr view (snd (redisRetry dr now i st)) (snd (retry now i s))"
      by (rule step [OF conjunct2 [OF both] _ retry_wf [OF wf] plain_retry [OF ps]])
        (simp_all add: rd retry_tidy [OF td ag] counter_retry)
    with both VRetry show ?thesis by simp
  next
    case (VPromote i)
    note both = promote_sim [OF sim rd wf, of now i]
    have "runInv q (c + 1) dr view (snd (redisPromote dr now i st)) (snd (promote now i s))"
      by (rule step [OF conjunct2 [OF both] _ promote_wf [OF wf] plain_promote [OF ps]])
        (simp_all add: rd promote_tidy [OF td ag] counter_promote)
    with both VPromote show ?thesis by simp
  next
    case (VRemove i)
    note both = remove_sim [OF sim rd wf, of i]
    have "runInv q (c + 1) dr view (snd (redisRemove dr i st)) (snd (remove i s))"
      by (rule step [OF conjunct2 [OF both] _ remove_wf [OF wf] plain_remove [OF ps]])
        (simp_all add: rd tidy_remove [OF td] counter_remove)
    with both VRemove show ?thesis by simp
  next
    case (VPause x)
    have "runInv q (c + 1) dr view (redisPause dr x st) (pause x s)"
      by (rule step [OF pause_sim [OF sim rd] _ pause_wf [OF wf]])
        (simp_all add: redisPause_def rd writes tidy_rules td plain_same [OF ps] pause_def globalView_def redis_simps)
    with VPause show ?thesis by simp
  next
    case (VResume x)
    have "runInv q (c + 1) dr view (redisResume dr x st) (resume x s)"
      by (rule step [OF resume_sim [OF sim rd] _ resume_wf [OF wf]])
        (simp_all add: redisResume_def rd writes tidy_rules td plain_same [OF ps] resume_def globalView_def redis_simps
          split_beta Let_def)
    with VResume show ?thesis by simp
  next
    case (VGetJob i)
    have "redisGetJob dr i st = getJob i s"
      by (rule getJob_sim [OF sim rd wf]) (rule plain_storable [OF plain_job [OF ps]])
    with VGetJob step [OF sim td wf ps] show ?thesis by simp
  next
    case (VGetAttempts i)
    with getAttempts_sim [OF sim rd wf] step [OF sim td wf ps] show ?thesis by simp
  qed
qed

section \<open>Runs\<close>

lemma refinesM:
  assumes "dr_redis dr = rd"
  shows "refines_memory (redisVerb dr) gen (\<lambda>c. runInv q c dr view) (\<lambda>c v. plainVerb q v \<and> c < 10 ^ 16) (\<lambda>c _. c + 1)"
  by unfold_locales (rule verb_step [OF _ assms]; simp)

lemma run_agrees:
  assumes "runInv q c dr view st s" and "dr_redis dr = rd" and "\<forall>(now, v)\<in>set calls. plainVerb q v"
    and "c + int (length calls) \<le> 10 ^ 16"
  shows "\<exists>st'. redisRun dr calls st = Some (fst (memRun gen calls s), st')
    \<and> (\<exists>c. runInv q c dr view st' (snd (memRun gen calls s)))"
proof -
  have "okRun (\<lambda>c v. plainVerb q v \<and> c < 10 ^ 16) (\<lambda>c _. c + 1) c calls"
    using assms(3,4) by (induction calls arbitrary: c) auto
  from refines_memory.run_refines [OF refinesM [OF assms(2)] assms(1) this, of gen] show ?thesis
    unfolding redisRun_def by blast
qed

lemma run_start:
  assumes "view (rs_server st) = emptyData" and "rs_wake st = noWakes"
  shows "runInv q 0 dr view st emptyStore"
proof -
  have "jobView p emptyData i = viewIn (\<lambda>_. 0) emptyStore i" for p i
    by (simp add: jobView_def emptyData_def viewIn_def emptyStore_def emptyView_def)
  moreover have "globalView p emptyData = (0, {})" for p
    by (simp add: globalView_def emptyData_def textNumber_def)
  ultimately have "agree p emptyData emptyStore" for p
    unfolding agree_def seqsAgree_def by (intro conjI exI [of _ "\<lambda>_. 0"]) (simp_all add: emptyStore_def)
  moreover have "globalView p emptyData = (0, {})" for p
    by (simp add: globalView_def emptyData_def textNumber_def)
  ultimately show ?thesis using assms
    by (simp add: runInv_def simulates_def tidy_empty wf_empty plain_empty) (simp add: noWakes_def wakeOf_def emptyStore_def)
qed

end

end
