(* ===== verification/RedisProps.thy ===== *)
theory RedisProps
  imports RedisRuns
begin

text \<open>
  What the Redis driver promises: it answers as the in-memory driver does along every run of plain
  calls, its ledger reads back, and the members of its waiting sets sort by age.
\<close>

section \<open>Runs\<close>

text \<open>C2: The Redis driver refines the in-memory driver. Over any server that behaves as documented, a
  run of calls on one queue (enqueues under ids of the caller's without dedupe, retention or fan-out;
  claims, acks, releases, renewals, recoveries, waits, cancels, retries, promotions, removals, pauses
  and reads in any order) returns, answer by answer, what the in-memory driver returns, recovery
  reports up to their order, and the server then holds the same jobs, pauses and waiters.\<close>

theorem redis_runs_as_memory:
  assumes "redis_server (dr_redis dr) view" and "view (rs_server st) = emptyData" and "rs_wake st = noWakes"
    and "\<forall>(now, v)\<in>set calls. plainVerb q v" and "int (length calls) \<le> 10 ^ 16"
  shows "\<exists>st'. redisRun dr calls st = Some (fst (memRun gen calls emptyStore), st')
    \<and> simulates dr view st' (snd (memRun gen calls emptyStore))"
proof -
  from redis_server.run_agrees [OF assms(1) redis_server.run_start [OF assms(1-3)] refl assms(4)] assms(5) show ?thesis
    by (auto simp: runInv_def)
qed

definition demoDriver :: "rdata redis_driver" where
  "demoDriver = \<lparr>dr_redis = dataRedis, dr_prefix = ''mq:'', dr_indexes = indexesOf None, dr_gen = None\<rparr>"

definition demoStart :: "rdata redis_store" where
  "demoStart = \<lparr>rs_server = emptyData, rs_wake = noWakes, rs_published = [], rs_draws = 0\<rparr>"

theorem redis_runs_as_memory_witness:
  "\<exists>st'. redisRun demoDriver demoCalls demoStart = Some (fst (memRun None demoCalls emptyStore), st')
     \<and> simulates demoDriver id st' (snd (memRun None demoCalls emptyStore))
     \<and> map claimedId (fst (memRun None demoCalls emptyStore)) =
         [None, None, Some ''a'', None, None, None, None, Some ''b'', None, None, None]
     \<and> drop 8 (fst (memRun None demoCalls emptyStore)) =
         [ARecovered {#}, ASettled (Inl (LockLostError ''b'')),
          AAttempts [\<lparr>at_attempt = 1, at_startedAt = Some 12, at_finishedAt = 15, at_outcome = ARetried, at_exit = None\<rparr>]]"
proof -
  have plain: "\<forall>(now, v)\<in>set demoCalls. plainVerb ''q'' v"
    by (simp add: demoCalls_def plainVerb_def plainRequest_def aRequest_def someOptions_def isFanOut_def)
  show ?thesis
    using redis_runs_as_memory [of demoDriver id demoStart demoCalls "''q''" None] plain demo_claims demo_last
    by (simp add: demoDriver_def demoStart_def data.redis_server_axioms) (simp add: demoCalls_def)
qed

section \<open>Claims and other queues\<close>

lemma list_empty: "(\<And>m sc. (m, sc) \<notin> set xs) \<Longrightarrow> xs = []"
  by (cases xs) auto

context redis_server
begin

lemma claim_elsewhere:
  assumes sim: "simulates dr view st s" and td: "tidy (dr_prefix dr) (view (rs_server st))" and rd: "dr_redis dr = rd"
    and none: "\<And>i job. mapGet (jobs s) i = Some job \<Longrightarrow> j_queue job \<noteq> co_queue opts"
  shows "redisClaim dr now opts st = Some (Empty None (wakeVersion s), st)"
proof -
  let ?p = "dr_prefix dr" and ?r = "rs_server st" and ?q = "co_queue opts"
  have ag: "agree ?p (view ?r) s" and wk: "wk_version (rs_wake st) = wakeVersion s"
    using sim by (simp_all add: simulates_def wakeOf_def)
  obtain ns where ns: "\<And>i. jobView ?p (view ?r) i = viewIn ns s i" using ag unfolding agree_def by blast
  have d: "rd_zsets (view ?r) (delayedKey ?p ?q) = []"
    using delayed_set [OF ag td, of _ _ ?q] none by (intro list_empty) blast
  have w: "rd_zsets (view ?r) (waitingKey ?p ?q) = []"
    using waiting_set [OF ns td, of _ _ ?q] none by (intro list_empty) blast
  show ?thesis
    by (simp add: redisClaim_def luaClaim_def rd Let_def promoteDueMembers_def ranking_def zrangebyscore byScoreD_def d
        earliestDelayed_def zrange scanWaiting_find w wk del: jsonText.simps)
qed

end

lemma promote_waiting:
  "mapGet (jobs s) i = Some job \<Longrightarrow> j_state job = Waiting \<Longrightarrow> fst (promote now i s) = Inl (JobNotPromotableError i Waiting)"
  by (simp add: promote_def)

text \<open>C39: A claim promotes due delayed jobs of all queues in the in-memory driver and of the claimed queue
  alone in the Redis driver. In two stores that agree, with a due delayed job elsewhere and nothing in
  the claimed queue, the claims answer alike, but the job can then be promoted by hand only under Redis:
  the in-memory driver refuses, since it waits already.\<close>

theorem due_jobs_wait_for_their_own_queue:
  assumes "redis_server (dr_redis dr) view" and "simulates dr view st s" and "tidy (dr_prefix dr) (view (rs_server st))"
    and "wellFormed s" and "mapGet (jobs s) i = Some job" and "j_state job = Delayed" and "j_runAt job \<le> now"
    and "\<forall>k x. mapGet (jobs s) k = Some x \<longrightarrow> j_queue x \<noteq> co_queue opts"
  shows "redisClaim dr now opts st = Some (Empty None (wakeVersion s), st)
    \<and> fst (claim now opts s) = Empty None (wakeVersion s)
    \<and> fst (redisPromote dr later i st) = Inr ()
    \<and> fst (promote later i (snd (claim now opts s))) = Inl (JobNotPromotableError i Waiting)"
proof -
  have redis: "redisClaim dr now opts st = Some (Empty None (wakeVersion s), st)"
    using redis_server.claim_elsewhere [OF assms(1,2,3) refl, of opts now] assms(8) by blast
  have "fst (redisPromote dr later i st) = fst (promote later i s)"
    using redis_server.promote_sim [OF assms(1,2) refl assms(4)] by blast
  moreover have "fst (promote later i s) = Inr ()" using assms(5,6) by (simp add: promote_def)
  moreover have "claim now opts s = (Empty None (wakeVersion s), promoteDue now s)"
    using assms(4)
  proof (cases rule: claim_cases [where now = now and opts = opts])
    case (empty n)
    have "n = None" using empty(3) [of "the n"] assms(8) by (cases n) (auto simp: eligible_def)
    with empty(1) show ?thesis by simp
  qed (use assms(8) in \<open>auto simp: readyJob_def eligible_def\<close>)
  moreover have "mapGet (jobs (promoteDue now s)) i = Some (job\<lparr>j_state := Waiting\<rparr>)"
    using assms(5-7) by (simp add: promoteJob_def)
  then have "fst (promote later i (promoteDue now s)) = Inl (JobNotPromotableError i Waiting)"
    by (rule promote_waiting) simp
  ultimately show ?thesis using redis by simp
qed

text \<open>A job delayed until 5, seen by claims on another queue at 10.\<close>

definition lateRequest :: enqueue_request where
  "lateRequest = aRequest\<lparr>rq_id := Some ''a'', rq_delayMs := 5\<rparr>"

lemma late_jobs: "jobs (snd (enqueueOne None 0 lateRequest emptyStore)) = [(''a'', newJob ''a'' lateRequest 0 1)]"
  by code_simp

theorem due_jobs_wait_for_their_own_queue_witness:
  "let st = snd (redisEnqueue demoDriver 0 lateRequest demoStart); s = snd (enqueueOne None 0 lateRequest emptyStore);
       opts = someOptions\<lparr>co_queue := ''other''\<rparr>
   in redisClaim demoDriver 10 opts st = Some (Empty None (wakeVersion s), st)
    \<and> fst (claim 10 opts s) = Empty None (wakeVersion s)
    \<and> fst (redisPromote demoDriver 11 ''a'' st) = Inr ()
    \<and> fst (promote 11 ''a'' (snd (claim 10 opts s))) = Inl (JobNotPromotableError ''a'' Waiting)"
proof -
  let ?st = "snd (redisEnqueue demoDriver 0 lateRequest demoStart)" and ?s = "snd (enqueueOne None 0 lateRequest emptyStore)"
  have "runInv ''q'' 0 demoDriver id demoStart emptyStore"
    by (rule data.run_start) (simp_all add: demoStart_def)
  then have "runInv ''q'' (0 + 1) demoDriver id ?st ?s"
    using data.enqueue_step [of "''q''" 0 demoDriver demoStart emptyStore lateRequest 0 None]
    by (simp add: demoDriver_def plainRequest_def lateRequest_def aRequest_def)
  then have inv: "simulates demoDriver id ?st ?s" "tidy (dr_prefix demoDriver) (id (rs_server ?st))" "wellFormed ?s"
    by (simp_all add: runInv_def)
  have server: "redis_server (dr_redis demoDriver) id" by (simp add: demoDriver_def data.redis_server_axioms)
  have late: "mapGet (jobs ?s) ''a'' = Some (newJob ''a'' lateRequest 0 1)" by (simp add: late_jobs)
  have elsewhere: "\<forall>k x. mapGet (jobs ?s) k = Some x \<longrightarrow> j_queue x \<noteq> co_queue (someOptions\<lparr>co_queue := ''other''\<rparr>)"
    unfolding late_jobs by (auto simp: newJob_def lateRequest_def aRequest_def split: if_splits)
  show ?thesis unfolding Let_def
    by (rule due_jobs_wait_for_their_own_queue [OF server inv late _ _ elsewhere])
      (simp_all add: newJob_def lateRequest_def aRequest_def)
qed

section \<open>Rows, members and entries\<close>

text \<open>An entry the scripts append to the ledger of a job is read back as the attempt it records.\<close>

theorem ledger_entries_read_back:
  "toAttempt (attemptText (at_attempt a) (outcomeText (at_outcome a)) (Some (showNum (at_startedAt a)))
     (intToString (at_finishedAt a)) (showOpt (\<lambda>e. e) (at_exit a))) = a"
  using toAttempt_entry [of a] by (simp add: attemptEntry_def)

text \<open>Among waiting jobs of one priority the sorted set hands out the oldest first: the padded members
  compare as their counters do, then by id, and the id is recovered from the member, for counters up
  to 10 ^ 16.\<close>

theorem waiting_members_sort_by_age:
  assumes "0 \<le> a" and "a < 10 ^ 16" and "0 \<le> b" and "b < 10 ^ 16"
  shows "waitingId (waitingMember a i) = i
    \<and> (waitingMember a i < waitingMember b j \<longleftrightarrow> a < b \<or> a = b \<and> i < j)"
proof -
  have "p @ xs < p @ ys \<longleftrightarrow> xs < ys" for p xs ys :: string by (induction p) simp_all
  then have same: "waitingMember a i < waitingMember a j \<longleftrightarrow> i < j" by (simp add: waitingMember_def)
  have less: "waitingMember a i < waitingMember b j" if "a < b" using assms that by (simp add: waitingMember_less)
  have more: "\<not> waitingMember a i < waitingMember b j" if "b < a"
    using waitingMember_less [OF assms(3) that assms(2), of j i] by (simp add: not_less order_less_imp_le)
  from same less more assms show ?thesis by (cases a b rule: linorder_cases) (simp_all add: waitingId_member)
qed

theorem waiting_members_sort_by_age_witness:
  "waitingId (waitingMember 9 ''b'') = ''b'' \<and> waitingMember 9 ''b'' < waitingMember 10 ''a''"
  using waiting_members_sort_by_age [of 9 10 "''b''" "''a''"] by simp

end
