(* ===== verification/PgProps.thy ===== *)
theory PgProps
  imports PgReads RedisProps
begin

text \<open>
  The Postgres driver against the others: along a run of plain calls it answers as the in-memory driver
  does, hence as the Redis driver.
\<close>

section \<open>Runs\<close>

text \<open>C3: The Postgres driver refines the in-memory driver. From empty tables, a run of calls on one
  queue (enqueues under ids of the caller's without dedupe, retention or fan-out, of numbers that fit
  their columns; claims, acks, releases, renewals, recoveries, waits, cancels, retries, promotions,
  removals, pauses, and reads in any order) returns, answer by answer, what the in-memory driver
  returns, and leaves the same jobs, ledgers, reports, pauses and waiters, even where a deadlock kills a
  cancel up to three times.\<close>

theorem postgres_runs_as_memory:
  assumes "ps_db st = emptyDb" and "ps_wake st = noPgWakes" and "okRun (pgVerbOk q) pausedAfter {} calls"
    and "length faults \<le> 3" and "list_all isDeadlockError faults"
  shows "\<exists>st'. pgRun opts faults calls st = Some (fst (memRun gen calls emptyStore), st')
    \<and> pgSimulates st' (snd (memRun gen calls emptyStore))"
proof -
  note run = refines_memory.run_refines [OF pg_refines [OF assms(4,5)] pg_start [OF assms(1,2)] assms(3)]
  show ?thesis using run [of opts gen] unfolding pgRun_def pgInv_def by blast
qed

definition deadlock :: thrown where
  "deadlock = Envelope (Some (SqlError DeadlockReason))"

theorem postgres_runs_as_memory_witness:
  "\<exists>st'. pgRun pgDefaults [deadlock, deadlock] demoCalls pgStart = Some (fst (memRun None demoCalls emptyStore), st')
     \<and> pgSimulates st' (snd (memRun None demoCalls emptyStore))
     \<and> map claimedId (fst (memRun None demoCalls emptyStore)) =
         [None, None, Some ''a'', None, None, None, None, Some ''b'', None, None, None]
     \<and> drop 8 (fst (memRun None demoCalls emptyStore)) =
         [ARecovered {#}, ASettled (Inl (LockLostError ''b'')),
          AAttempts [\<lparr>at_attempt = 1, at_startedAt = Some 12, at_finishedAt = 15, at_outcome = ARetried, at_exit = None\<rparr>]]"
proof -
  have "length [deadlock, deadlock] \<le> 3" "list_all isDeadlockError [deadlock, deadlock]"
    by (simp_all add: deadlock_def isDeadlockError_def)
  with postgres_runs_as_memory [of pgStart "''q''" demoCalls "[deadlock, deadlock]" pgDefaults None] demo_okRun
  show ?thesis by (simp add: pgStart_def demo_claims demo_last)
qed

text \<open>The Redis and the Postgres driver answer alike. The same plain calls, from an empty server and
  from empty tables, get the same answers, recovery reports up to their order.\<close>

theorem redis_and_postgres_answer_alike:
  assumes "redis_server (dr_redis dr) view" and "view (rs_server rst) = emptyData" and "rs_wake rst = noWakes"
    and "ps_db pst = emptyDb" and "ps_wake pst = noPgWakes"
    and "okRun (pgVerbOk q) pausedAfter {} calls" and "int (length calls) \<le> 10 ^ 16"
  shows "map_option fst (redisRun dr calls rst) = map_option fst (pgRun opts [] calls pst)
    \<and> pgRun opts [] calls pst \<noteq> None"
proof -
  have plain: "okRun (pgVerbOk q) pausedAfter P calls \<Longrightarrow> \<forall>(now, v)\<in>set calls. plainVerb q v" for P
  proof (induction calls arbitrary: P)
    case (Cons call calls)
    obtain now v where call: "call = (now, v)" by force
    with Cons.prems have "pgVerbOk q P v" and rest: "okRun (pgVerbOk q) pausedAfter (pausedAfter P v) calls" by simp_all
    then have "plainVerb q v" by (simp add: pgVerbOk_def)
    with Cons.IH [OF rest] call show ?case by simp
  qed simp
  from redis_server.run_agrees [OF assms(1) redis_server.run_start [OF assms(1-3)] refl plain [OF assms(6)], of None] assms(7)
  have "map_option fst (redisRun dr calls rst) = Some (fst (memRun None calls emptyStore))" by fastforce
  moreover have "map_option fst (pgRun opts [] calls pst) = Some (fst (memRun None calls emptyStore))"
    using pg.run_refines [OF pg_start [OF assms(4,5)] assms(6), of opts None] unfolding pgRun_def by fastforce
  ultimately show ?thesis by auto
qed

theorem redis_and_postgres_answer_alike_witness:
  "map_option fst (redisRun demoDriver demoCalls demoStart) = map_option fst (pgRun pgDefaults [] demoCalls pgStart)
    \<and> pgRun pgDefaults [] demoCalls pgStart \<noteq> None"
  by (rule redis_and_postgres_answer_alike [where view = id and q = "''q''"])
    (simp_all add: demoDriver_def demoStart_def pgStart_def data.redis_server_axioms demo_okRun, simp add: demoCalls_def)

end
