(* ===== verification/TestStore.thy ===== *)
theory TestStore
  imports Listing
begin

text \<open>
  The test harness of \<open>testing/TestJobStore.ts\<close>: an in-memory store whose jobs nothing claims, and the
  accessors that read them back oldest first, with their payloads decoded. The pages are read while
  nothing else uses the store; the loop over them takes fuel.
\<close>

section \<open>Reading the store\<close>

definition drainQuery :: "string option \<Rightarrow> string option \<Rightarrow> list_options" where
  "drainQuery name cursor = \<lparr> lo_queue = None, lo_name = name, lo_states = None, lo_metadata = None,
     lo_orderBy = None, lo_order = None, lo_cursor = cursor, lo_limit = Some 200 \<rparr>"

fun drainLoop :: "nat \<Rightarrow> string option \<Rightarrow> string option \<Rightarrow> job_record list \<Rightarrow> mem_store \<Rightarrow> job_record list option" where
  "drainLoop 0 name cursor all s = None"
| "drainLoop (Suc n) name cursor all s =
     (let page = listJobs (drainQuery name cursor) s;
          all1 = all @ lr_items page
      in case lr_cursor page of
           None \<Rightarrow> Some all1
         | Some c \<Rightarrow> drainLoop n name (Some c) all1 s)"

definition drainList :: "nat \<Rightarrow> string option \<Rightarrow> mem_store \<Rightarrow> job_record list option" where
  "drainList n name s = map_option rev (drainLoop n name None [] s)"

definition enqueued :: "nat \<Rightarrow> string option \<Rightarrow> mem_store \<Rightarrow> job_record list option" where
  "enqueued n name s = drainList n name s"

text \<open>A record whose payload is decoded: the record as stored, and the typed payload in its place.\<close>

record 'p enqueued_job =
  ej_record :: job_record
  ej_payload :: 'p

text \<open>\<open>decode\<close> is the payload codec of the job; a payload it refuses is a defect, \<open>None\<close> here.\<close>

fun decodeAll :: "(json \<Rightarrow> 'p option) \<Rightarrow> job_record list \<Rightarrow> 'p enqueued_job list option" where
  "decodeAll decode [] = Some []"
| "decodeAll decode (record1 # records) =
     (case decode (j_payload record1) of
        None \<Rightarrow> None
      | Some p \<Rightarrow> map_option (\<lambda>rest. \<lparr>ej_record = record1, ej_payload = p\<rparr> # rest) (decodeAll decode records))"

text \<open>The outer \<open>None\<close> is the fuel of the pages, the inner one the defect.\<close>

definition enqueuedOf :: "nat \<Rightarrow> string \<Rightarrow> (json \<Rightarrow> 'p option) \<Rightarrow> mem_store \<Rightarrow> 'p enqueued_job list option option" where
  "enqueuedOf n tag decode s = map_option (decodeAll decode) (drainList n (Some tag) s)"

section \<open>The loop\<close>

lemma drainLoop_pages:
  "drainLoop n name c all s = map_option (\<lambda>rest. all @ rest) (drainPages n (listFetch (drainQuery name c0) s) c)"
proof (induction n arbitrary: c all)
  case (Suc n)
  have q: "(drainQuery name c0)\<lparr>lo_cursor := c\<rparr> = drainQuery name c" by (simp add: drainQuery_def)
  show ?case
    by (cases "lr_cursor (listJobs (drainQuery name c) s)")
      (simp_all add: listFetch_def q Let_def Suc option.map_comp comp_def)
qed simp

definition oldestFirst :: "string option \<Rightarrow> mem_store \<Rightarrow> mem_job list" where
  "oldestFirst name s = rev (listSorted (drainQuery name None) s)"

lemma drainList_reads:
  assumes "wellFormed s" and "length (jobs s) < n"
  shows "drainList n name s = Some (map snapshot (oldestFirst name s))"
    and "mset (oldestFirst name s) = mset (filter (\<lambda>job. case name of None \<Rightarrow> True | Some x \<Rightarrow> j_name job = x) (mapValues (jobs s)))"
    and "sorted_wrt (\<lambda>a b. j_enqueuedAt a < j_enqueuedAt b \<or> j_enqueuedAt a = j_enqueuedAt b \<and> j_id a < j_id b) (oldestFirst name s)"
proof -
  let ?q = "drainQuery name None" and ?L = "listSorted (drainQuery name None) s"
  have "length (listRest ?q s None) < n"
    using assms(2) le_less_trans [OF length_filter_le [of "listFilter ?q" "mapValues (jobs s)"]]
    by (simp add: listRest_def afterCursor_def listSorted_def del: filter_map)
  from ls.drain_complete [OF assms(1) ls.start [OF assms(1)] this]
  have "drainPages n (listFetch ?q s) None = Some (map snapshot ?L)" by (simp add: listRest_def afterCursor_def)
  then show "drainList n name s = Some (map snapshot (oldestFirst name s))"
    using drainLoop_pages [of n name None "[]" s None] by (simp add: drainList_def oldestFirst_def rev_map)
  have "listFilter ?q = (\<lambda>job. case name of None \<Rightarrow> True | Some x \<Rightarrow> j_name job = x)"
    by (simp add: listFilter_def drainQuery_def fun_eq_iff)
  then show "mset (oldestFirst name s) = mset (filter (\<lambda>job. case name of None \<Rightarrow> True | Some x \<Rightarrow> j_name job = x) (mapValues (jobs s)))"
    by (simp add: oldestFirst_def listSorted_def)
  have "sorted_wrt (listBefore ByEnqueuedAt True) ?L"
    using listSorted_strict [OF wf_ids_distinct [OF assms(1)], of ?q] by (simp add: drainQuery_def)
  then show "sorted_wrt (\<lambda>a b. j_enqueuedAt a < j_enqueuedAt b \<or> j_enqueuedAt a = j_enqueuedAt b \<and> j_id a < j_id b) (oldestFirst name s)"
    unfolding oldestFirst_def sorted_wrt_rev by (rule sorted_wrt_mono_rel [rotated]) (auto simp: listBefore_def orderValue_def)
qed

lemma decodeAll_ok:
  "\<forall>r\<in>set rs. decode (j_payload r) \<noteq> None \<Longrightarrow>
    decodeAll decode rs = Some (map (\<lambda>r. \<lparr>ej_record = r, ej_payload = the (decode (j_payload r))\<rparr>) rs)"
  by (induction rs) auto

lemma decodeAll_dies: "decodeAll decode rs = None \<longleftrightarrow> (\<exists>r\<in>set rs. decode (j_payload r) = None)"
  by (induction rs) (auto split: option.splits)

text \<open>C40: The test harness shows every job of a name once, oldest first, with the payload its codec
  reads, however many pages that takes; it dies exactly when some payload does not decode.\<close>

theorem test_store_shows_every_job:
  assumes "wellFormed s" and "length (jobs s) < n"
  shows "enqueuedOf n tag decode s =
      Some (if list_all (\<lambda>job. decode (j_payload job) \<noteq> None) (oldestFirst (Some tag) s)
            then Some (map (\<lambda>job. \<lparr>ej_record = snapshot job, ej_payload = the (decode (j_payload job))\<rparr>) (oldestFirst (Some tag) s))
            else None)
    \<and> mset (oldestFirst (Some tag) s) = mset (filter (\<lambda>job. j_name job = tag) (mapValues (jobs s)))
    \<and> sorted_wrt (\<lambda>a b. j_enqueuedAt a < j_enqueuedAt b \<or> j_enqueuedAt a = j_enqueuedAt b \<and> j_id a < j_id b)
        (oldestFirst (Some tag) s)"
proof (intro conjI)
  let ?jobs = "oldestFirst (Some tag) s"
  have payload: "j_payload (snapshot job) = j_payload job" for job by (simp add: snapshot_def)
  show "enqueuedOf n tag decode s = Some (if list_all (\<lambda>job. decode (j_payload job) \<noteq> None) ?jobs
      then Some (map (\<lambda>job. \<lparr>ej_record = snapshot job, ej_payload = the (decode (j_payload job))\<rparr>) ?jobs) else None)"
  proof (cases "list_all (\<lambda>job. decode (j_payload job) \<noteq> None) ?jobs")
    case True
    then show ?thesis using decodeAll_ok [of "map snapshot ?jobs" decode]
      by (simp add: enqueuedOf_def drainList_reads(1) [OF assms] list_all_iff payload)
  next
    case False
    then have "decodeAll decode (map snapshot ?jobs) = None" by (auto simp: decodeAll_dies list_all_iff payload)
    then show ?thesis using False by (simp add: enqueuedOf_def drainList_reads(1) [OF assms])
  qed
  show "mset ?jobs = mset (filter (\<lambda>job. j_name job = tag) (mapValues (jobs s)))"
    using drainList_reads(2) [OF assms, of "Some tag"] by simp
qed (rule drainList_reads(3) [OF assms])

theorem test_store_shows_every_job_witness:
  "\<exists>found. enqueuedOf 4 (rq_name aRequest) Some threeJobs = Some (Some found)
     \<and> map (\<lambda>e. (j_id (ej_record e), ej_payload e)) found
         = map (\<lambda>i. (i, rq_payload aRequest)) [''j-1'', ''j-2'', ''j-3'']"
proof -
  have "length (jobs threeJobs) < 4" by code_simp
  from test_store_shows_every_job [OF threeJobs_wf this, of "rq_name aRequest" Some]
  have "enqueuedOf 4 (rq_name aRequest) Some threeJobs = Some (Some
      (map (\<lambda>job. \<lparr>ej_record = snapshot job, ej_payload = j_payload job\<rparr>) (oldestFirst (Some (rq_name aRequest)) threeJobs)))"
    by (simp add: list_all_iff)
  moreover have "map (\<lambda>job. (j_id job, j_payload job)) (oldestFirst (Some (rq_name aRequest)) threeJobs)
      = map (\<lambda>i. (i, rq_payload aRequest)) [''j-1'', ''j-2'', ''j-3'']" by code_simp
  ultimately show ?thesis by (simp add: comp_def snapshot_def)
qed

end
