(* ===== verification/Service.thy ===== *)
theory Service
  imports MemStep MemQuery
begin

text \<open>
  The storage interface the rest of the program is written against, \<open>JobStore.Service\<close>, as a record
  of operations over an abstract world \<open>'w\<close>: every call may change the world (other processes act
  in it too) and may fail with a typed error. \<open>memService\<close> is the in-memory driver behind that
  interface, reached over a link that makes the hard behaviours of a real deployment explicit: before
  each call other actors may have run any operations on any of the stores, each call reads the clock
  for itself, and a call may fail before or after its effect took place. A link without faults and
  without other actors is the driver itself.

  The theory also holds the worker's wrappers around a call, \<open>retryStore\<close>, \<open>ackSafely\<close> and
  \<open>ackLanded\<close> (\<open>Worker.ts\<close>). An effect is a function from a world to an optional result, \<open>None\<close>
  when it died, and the world it leaves.
\<close>

section \<open>The interface\<close>

type_synonym ('w, 'a) call = "'w \<Rightarrow> (store_error + 'a) \<times> 'w"
type_synonym ('w, 'a) eff = "'w \<Rightarrow> 'a option \<times> 'w"

record 'w service =
  sv_enqueue :: "enqueue_request \<Rightarrow> ('w, enqueue_result) call"
  sv_enqueueMany :: "enqueue_request list \<Rightarrow> ('w, enqueue_result list) call"
  sv_claim :: "claim_options \<Rightarrow> ('w, claim_result) call"
  sv_ack :: "job_id \<Rightarrow> string \<Rightarrow> ack_outcome \<Rightarrow> ('w, unit) call"
  sv_release :: "job_id \<Rightarrow> string \<Rightarrow> ('w, unit) call"
  sv_extendLocks :: "(job_id \<times> string) list \<Rightarrow> int \<Rightarrow> ('w, extend_locks_result) call"
  sv_recoverStalled :: "int \<Rightarrow> ('w, (job_id \<times> bool) list) call"
  sv_awaitWake :: "queue_name list \<Rightarrow> nat \<Rightarrow> ('w, nat option) call"
  sv_getJob :: "job_id \<Rightarrow> ('w, job_record option) call"
  sv_getAttempts :: "job_id \<Rightarrow> ('w, attempt_record list) call"
  sv_list :: "list_options \<Rightarrow> ('w, list_result) call"
  sv_retry :: "job_id \<Rightarrow> ('w, unit) call"
  sv_cancel :: "job_id \<Rightarrow> ('w, unit) call"
  sv_cancelByDedupe :: "string \<Rightarrow> string \<Rightarrow> ('w, bool) call"
  sv_promote :: "job_id \<Rightarrow> ('w, unit) call"
  sv_pause :: "queue_name \<Rightarrow> ('w, unit) call"
  sv_resume :: "queue_name \<Rightarrow> ('w, unit) call"
  sv_pausedQueues :: "('w, queue_name list) call"
  sv_upsertSchedule :: "schedule_record \<Rightarrow> ('w, unit) call"
  sv_removeSchedule :: "schedule_key \<Rightarrow> ('w, bool) call"
  sv_listSchedules :: "string option \<Rightarrow> queue_name option \<Rightarrow> string option \<Rightarrow> ('w, schedule_record list) call"
  sv_dueSchedules :: "('w, schedule_record list) call"
  sv_tickSchedule :: "schedule_key \<Rightarrow> millis \<Rightarrow> millis \<Rightarrow> enqueue_request \<Rightarrow> ('w, bool) call"
  sv_advanceSchedule :: "schedule_key \<Rightarrow> millis \<Rightarrow> millis \<Rightarrow> ('w, unit) call"
  sv_recordChildResults :: "flow_child_report list \<Rightarrow> ('w, report_result list) call"
  sv_peekOutbox :: "int \<Rightarrow> string option \<Rightarrow> ('w, outbox_entry list) call"
  sv_deleteOutbox :: "string list \<Rightarrow> ('w, unit) call"
  sv_listChildResults :: "job_id \<Rightarrow> string option \<Rightarrow> int option \<Rightarrow> ('w, flow_child_record list \<times> string option) call"
  sv_flowSweepWork :: "int \<Rightarrow> int option \<Rightarrow> ('w, flow_sweep_work) call"
  sv_markChildrenCascaded :: "job_id \<Rightarrow> string list \<Rightarrow> ('w, unit) call"
  sv_counts :: "queue_name option \<Rightarrow> ('w, job_state \<Rightarrow> int) call"
  sv_remove :: "job_id \<Rightarrow> ('w, bool) call"

section \<open>The in-memory driver behind the interface\<close>

text \<open>
  A call reads the clock once. \<open>enqueueMany\<close>, which reads it for each request, gets one reading for all
  of them: with an in-memory driver they are taken in one synchronous stretch.
\<close>

datatype fault = NoFault | FailsBefore | FailsAfter

record world =
  wd_stores :: "string \<Rightarrow> mem_store"
  wd_step :: nat

text \<open>
  The link, a function of the number of the call: the stores as the other actors leave them, the clock,
  the fault of the call, and the id generator of each store.
\<close>

record link =
  lk_others :: "nat \<Rightarrow> (string \<Rightarrow> mem_store) \<Rightarrow> string \<Rightarrow> mem_store"
  lk_clock :: "nat \<Rightarrow> millis"
  lk_fault :: "nat \<Rightarrow> fault"
  lk_gen :: "string \<Rightarrow> id_generator option"

definition driverDown :: store_error where
  "driverDown = JobStoreError ''driver unavailable''"

definition memCall ::
  "link \<Rightarrow> string \<Rightarrow> (millis \<Rightarrow> mem_store \<Rightarrow> (store_error + 'a) \<times> mem_store) \<Rightarrow> (world, 'a) call" where
  "memCall lk key f w =
     (let n = wd_step w;
          stores = lk_others lk n (wd_stores w);
          (r, s') = f (lk_clock lk n) (stores key);
          done = stores(key := s')
      in case lk_fault lk n of
           NoFault \<Rightarrow> (r, \<lparr>wd_stores = done, wd_step = n + 1\<rparr>)
         | FailsBefore \<Rightarrow> (Inl driverDown, \<lparr>wd_stores = stores, wd_step = n + 1\<rparr>)
         | FailsAfter \<Rightarrow> (Inl driverDown, \<lparr>wd_stores = done, wd_step = n + 1\<rparr>))"

definition sure :: "('s \<Rightarrow> 'a \<times> 's) \<Rightarrow> 's \<Rightarrow> (store_error + 'a) \<times> 's" where
  "sure f s = (case f s of (a, s') \<Rightarrow> (Inr a, s'))"

definition quietly :: "('s \<Rightarrow> 's) \<Rightarrow> 's \<Rightarrow> (store_error + unit) \<times> 's" where
  "quietly f s = (Inr (), f s)"

definition reads :: "('s \<Rightarrow> 'a) \<Rightarrow> 's \<Rightarrow> (store_error + 'a) \<times> 's" where
  "reads f s = (Inr (f s), s)"

definition memService :: "link \<Rightarrow> string \<Rightarrow> world service" where
  "memService lk key = \<lparr>
     sv_enqueue = (\<lambda>r. memCall lk key (\<lambda>now. enqueueOne (lk_gen lk key) now r)),
     sv_enqueueMany = (\<lambda>rs. memCall lk key (\<lambda>now. enqueueMany (lk_gen lk key) (map (Pair now) rs))),
     sv_claim = (\<lambda>opts. memCall lk key (\<lambda>now. sure (claim now opts))),
     sv_ack = (\<lambda>i token outcome. memCall lk key (\<lambda>now. ack now i token outcome)),
     sv_release = (\<lambda>i token. memCall lk key (\<lambda>now. release now i token)),
     sv_extendLocks = (\<lambda>locks d. memCall lk key (\<lambda>now. sure (extendLocks now locks d))),
     sv_recoverStalled = (\<lambda>m. memCall lk key (\<lambda>now. sure (recoverStalled now m))),
     sv_awaitWake = (\<lambda>queues t. memCall lk key (\<lambda>_. sure (awaitWake queues t))),
     sv_getJob = (\<lambda>i. memCall lk key (\<lambda>_. reads (getJob i))),
     sv_getAttempts = (\<lambda>i. memCall lk key (\<lambda>_. reads (getAttempts i))),
     sv_list = (\<lambda>options. memCall lk key (\<lambda>_. reads (listJobs options))),
     sv_retry = (\<lambda>i. memCall lk key (\<lambda>now. retry now i)),
     sv_cancel = (\<lambda>i. memCall lk key (\<lambda>now. cancelJob now i)),
     sv_cancelByDedupe = (\<lambda>name k. memCall lk key (\<lambda>now. cancelByDedupe now name k)),
     sv_promote = (\<lambda>i. memCall lk key (\<lambda>now. promote now i)),
     sv_pause = (\<lambda>q. memCall lk key (\<lambda>_. quietly (pause q))),
     sv_resume = (\<lambda>q. memCall lk key (\<lambda>_. quietly (resume q))),
     sv_pausedQueues = memCall lk key (\<lambda>_. reads pausedQueues),
     sv_upsertSchedule = (\<lambda>sc. memCall lk key (\<lambda>_. quietly (upsertSchedule sc))),
     sv_removeSchedule = (\<lambda>k. memCall lk key (\<lambda>_. sure (removeSchedule k))),
     sv_listSchedules = (\<lambda>n q g. memCall lk key (\<lambda>_. reads (listSchedules n q g))),
     sv_dueSchedules = memCall lk key (\<lambda>now. reads (dueSchedules now)),
     sv_tickSchedule = (\<lambda>k a b r. memCall lk key (\<lambda>now. tickSchedule now k a b r)),
     sv_advanceSchedule = (\<lambda>k a b. memCall lk key (\<lambda>_. quietly (advanceSchedule k a b))),
     sv_recordChildResults = (\<lambda>rs. memCall lk key (\<lambda>now. sure (recordChildResults now rs))),
     sv_peekOutbox = (\<lambda>limit after. memCall lk key (\<lambda>_. reads (peekOutbox limit after))),
     sv_deleteOutbox = (\<lambda>ids. memCall lk key (\<lambda>_. quietly (deleteOutbox ids))),
     sv_listChildResults = (\<lambda>i c l. memCall lk key (\<lambda>_. reads (listChildResults i c l))),
     sv_flowSweepWork = (\<lambda>age l. memCall lk key (\<lambda>now. sure (flowSweepWork now age l))),
     sv_markChildrenCascaded = (\<lambda>i ks. memCall lk key (\<lambda>_. quietly (markChildrenCascaded i ks))),
     sv_counts = (\<lambda>q. memCall lk key (\<lambda>_. reads (counts q))),
     sv_remove = (\<lambda>i. memCall lk key (\<lambda>_. sure (remove i))) \<rparr>"

text \<open>A link to the driver itself: no fault, nobody else.\<close>

definition directLink :: "(nat \<Rightarrow> millis) \<Rightarrow> link" where
  "directLink clock = \<lparr>lk_others = (\<lambda>_ st. st), lk_clock = clock, lk_fault = (\<lambda>_. NoFault), lk_gen = (\<lambda>_. None)\<rparr>"

text \<open>What other actors may do: any sequence of store operations on each store.\<close>

definition actors_ok :: "link \<Rightarrow> bool" where
  "actors_ok lk \<longleftrightarrow> (\<forall>n st key. \<exists>gen ops. list_all op_ok ops \<and> lk_others lk n st key = execs gen ops (st key))"

definition worldOk :: "world \<Rightarrow> bool" where
  "worldOk w \<longleftrightarrow> (\<forall>key. wellFormed (wd_stores w key))"

section \<open>Wrappers of a store call\<close>

definition bindE :: "('w, 'a) eff \<Rightarrow> ('a \<Rightarrow> ('w, 'b) eff) \<Rightarrow> ('w, 'b) eff" where
  "bindE m f w = (case m w of (None, w') \<Rightarrow> (None, w') | (Some a, w') \<Rightarrow> f a w')"

definition returnE :: "'a \<Rightarrow> ('w, 'a) eff" where
  "returnE a w = (Some a, w)"

definition dieE :: "('w, 'a) eff" where
  "dieE w = (None, w)"

text \<open>\<open>Effect.retry\<close> while the error is a \<open>JobStoreError\<close>, at most \<open>k\<close> times after the first attempt.\<close>

fun retrying :: "nat \<Rightarrow> ('w, 'a) call \<Rightarrow> ('w, 'a) call" where
  "retrying 0 c w = c w"
| "retrying (Suc k) c w =
     (case c w of
        (Inl e, w') \<Rightarrow> if isJobStoreError e then retrying k c w' else (Inl e, w')
      | (Inr a, w') \<Rightarrow> (Inr a, w'))"

definition storeRetryTimes :: nat where
  "storeRetryTimes = 8"

definition retryStore :: "('w, 'a) call \<Rightarrow> ('w, 'a) eff" where
  "retryStore c w =
     (case retrying storeRetryTimes c w of (Inl _, w') \<Rightarrow> (None, w') | (Inr a, w') \<Rightarrow> (Some a, w'))"

definition ackLanded :: "('w, unit) call \<Rightarrow> 'w \<Rightarrow> bool \<times> 'w" where
  "ackLanded c w =
     (case retrying storeRetryTimes c w of (Inl _, w') \<Rightarrow> (False, w') | (Inr _, w') \<Rightarrow> (True, w'))"

definition ackSafely :: "('w, unit) call \<Rightarrow> 'w \<Rightarrow> 'w" where
  "ackSafely c w = snd (retrying storeRetryTimes c w)"

text \<open>\<open>Effect.catchTag\<close> of the two errors that make a cancel idempotent.\<close>

definition cancelQuietly :: "('w, unit) call \<Rightarrow> ('w, unit) call" where
  "cancelQuietly c w =
     (case c w of
        (Inl (JobNotFoundError _), w') \<Rightarrow> (Inr (), w')
      | (Inl (JobNotCancellableError _ _), w') \<Rightarrow> (Inr (), w')
      | r \<Rightarrow> r)"

section \<open>Facts about calls\<close>

named_theorems eff_simps "evaluation of effects and calls"

lemma bindE_simps [simp]:
  "m w = (None, w') \<Longrightarrow> bindE m f w = (None, w')"
  "m w = (Some a, w') \<Longrightarrow> bindE m f w = f a w'"
  by (simp_all add: bindE_def)

lemma bindE_cases:
  assumes "bindE m f w = (r, w')"
  obtains "m w = (None, w')" "r = None" | a w1 where "m w = (Some a, w1)" "f a w1 = (r, w')"
  using assms by (auto simp: bindE_def split: prod.splits option.splits)

text \<open>
  A call leaves every store as the actors left it, except that its own store may have gone through the
  operation \<open>f\<close> once.
\<close>

definition stepStores :: "link \<Rightarrow> world \<Rightarrow> string \<Rightarrow> mem_store" where
  "stepStores lk w = lk_others lk (wd_step w) (wd_stores w)"

lemma memCall_stores:
  "wd_stores (snd (memCall lk key f w)) = stepStores lk w
   \<or> wd_stores (snd (memCall lk key f w))
        = (stepStores lk w)(key := snd (f (lk_clock lk (wd_step w)) (stepStores lk w key)))"
  by (auto simp: memCall_def stepStores_def Let_def split_beta split: fault.split)

lemma memCall_Inr:
  assumes "memCall lk key f w = (Inr a, w')"
  shows "\<exists>s'. f (lk_clock lk (wd_step w)) (stepStores lk w key) = (Inr a, s')
    \<and> wd_stores w' = (stepStores lk w)(key := s')"
  using assms
  by (cases "f (lk_clock lk (wd_step w)) (stepStores lk w key)")
    (auto simp: memCall_def stepStores_def Let_def split: fault.splits)

lemma memCall_Inl:
  assumes "memCall lk key f w = (Inl e, w')"
  shows "e = driverDown \<or> (\<exists>s'. f (lk_clock lk (wd_step w)) (stepStores lk w key) = (Inl e, s')
    \<and> wd_stores w' = (stepStores lk w)(key := s'))"
  using assms
  by (cases "f (lk_clock lk (wd_step w)) (stepStores lk w key)")
    (auto simp: memCall_def stepStores_def Let_def split: fault.splits)

text \<open>\<open>preserved I P\<close>: a predicate of one store that every actor and the operation keep is kept by calls.\<close>

definition actorsKeep :: "link \<Rightarrow> string \<Rightarrow> (mem_store \<Rightarrow> bool) \<Rightarrow> bool" where
  "actorsKeep lk key I \<longleftrightarrow> (\<forall>n st. I (st key) \<longrightarrow> I (lk_others lk n st key))"

lemma memCall_keeps:
  assumes "actorsKeep lk k I" and "\<And>now s. key = k \<Longrightarrow> I s \<Longrightarrow> I (snd (f now s))" and "I (wd_stores w k)"
  shows "I (wd_stores (snd (memCall lk key f w)) k)"
proof -
  from assms(1,3) have "I (stepStores lk w k)" by (simp add: actorsKeep_def stepStores_def)
  with memCall_stores [of lk key f w] assms(2) show ?thesis by auto
qed

text \<open>Retrying a call preserves what the call preserves.\<close>

lemma retrying_keeps:
  assumes "\<And>w. Q w \<Longrightarrow> Q (snd (c w))" and "Q w"
  shows "Q (snd (retrying k c w))"
  using assms(2)
proof (induction k arbitrary: w)
  case (Suc k)
  with assms(1) [of w] show ?case by (auto split: prod.split sum.split)
qed (simp add: assms(1))

lemma retryStore_keeps: "(\<And>w. Q w \<Longrightarrow> Q (snd (c w))) \<Longrightarrow> Q w \<Longrightarrow> Q (snd (retryStore c w))"
  using retrying_keeps [of Q c w storeRetryTimes] by (auto simp: retryStore_def split: prod.split sum.split)

lemma ackSafely_keeps: "(\<And>w. Q w \<Longrightarrow> Q (snd (c w))) \<Longrightarrow> Q w \<Longrightarrow> Q (ackSafely c w)"
  by (simp add: ackSafely_def retrying_keeps)

lemma ackLanded_keeps: "(\<And>w. Q w \<Longrightarrow> Q (snd (c w))) \<Longrightarrow> Q w \<Longrightarrow> Q (snd (ackLanded c w))"
  using retrying_keeps [of Q c w storeRetryTimes] by (auto simp: ackLanded_def split: prod.split sum.split)

lemma bindE_keeps:
  assumes "Q (snd (m w))" and "\<And>a w'. m w = (Some a, w') \<Longrightarrow> Q w' \<Longrightarrow> Q (snd (f a w'))"
  shows "Q (snd (bindE m f w))"
  using assms by (auto simp: bindE_def split: prod.split option.split)

text \<open>A successful retried call succeeded at its last attempt, after attempts that preserve \<open>Q\<close>.\<close>

lemma retrying_Inr:
  assumes "\<And>w. Q w \<Longrightarrow> Q (snd (c w))" and "Q w" and "retrying k c w = (Inr a, w')"
  shows "\<exists>w1. Q w1 \<and> c w1 = (Inr a, w')"
  using assms(2,3)
proof (induction k arbitrary: w)
  case (Suc k)
  with assms(1) [of w] show ?case by (auto split: prod.splits sum.splits if_splits)
qed auto

lemma retryStore_Some:
  assumes "\<And>w. Q w \<Longrightarrow> Q (snd (c w))" and "Q w" and "retryStore c w = (Some a, w')"
  shows "\<exists>w1. Q w1 \<and> c w1 = (Inr a, w')"
  using assms retrying_Inr [of Q c w storeRetryTimes a w'] by (auto simp: retryStore_def split: prod.splits sum.splits)

text \<open>Without faults a call is the operation, and a retry is one call.\<close>

lemma direct_call [eff_simps]:
  "memCall (directLink clock) key f w =
     (case f (clock (wd_step w)) (wd_stores w key) of
        (r, s') \<Rightarrow> (r, \<lparr>wd_stores = (wd_stores w)(key := s'), wd_step = wd_step w + 1\<rparr>))"
  by (simp add: memCall_def directLink_def Let_def split: prod.split)

lemma retryStore_Inr [eff_simps]: "c w = (Inr a, w') \<Longrightarrow> retryStore c w = (Some a, w')"
  by (simp add: retryStore_def storeRetryTimes_def eval_nat_numeral)

lemma actors_ok_direct: "actors_ok (directLink clock)"
proof -
  have "list_all op_ok [] \<and> lk_others (directLink clock) n st key = execs None [] (st key)" for n st key
    by (simp add: directLink_def)
  then show ?thesis unfolding actors_ok_def by blast
qed

lemma actorsKeep_exec:
  assumes "actors_ok lk" and "\<And>gen op s. op_ok op \<Longrightarrow> I s \<Longrightarrow> I (exec gen op s)"
  shows "actorsKeep lk key I"
proof -
  have "list_all op_ok ops \<Longrightarrow> I s \<Longrightarrow> I (execs gen ops s)" for gen ops s
    by (induction ops arbitrary: s) (auto simp: assms(2))
  then show ?thesis using assms(1) unfolding actors_ok_def actorsKeep_def by metis
qed

lemma actorsKeep_wf: "actors_ok lk \<Longrightarrow> actorsKeep lk key wellFormed"
  by (rule actorsKeep_exec) (simp_all add: exec_wf)

end
