(* ===== verification/WorkerRun.thy ===== *)
theory WorkerRun
  imports Service
begin

text \<open>
  The taker side of the worker, \<open>packages/effect-mq/src/Worker.ts\<close>: options, lock tokens, failure
  routing, \<open>processJob\<close>, the taker iteration, registration of handlers and the lock heartbeat. The
  closure's mutable variables are the record \<open>worker\<close>; a run of user code is a parameter that takes
  the world and the worker to an exit and whatever world and worker it leaves behind (other fibers of
  the worker, such as the heartbeat that marks a cancelled run, act meanwhile). Exits and causes are
  values of the effect library: their constructors are a datatype, and the functions on causes the
  code calls are the record \<open>cause_lib\<close>. Metrics, spans and log lines are left out.
\<close>

section \<open>Exits and causes\<close>

datatype ('v, 'c) exit = ExitSuccess 'v | ExitFailure 'c

record ('c, 'e) cause_lib =
  cl_interruptsOnly :: "'c \<Rightarrow> bool"
  cl_findError :: "'c \<Rightarrow> 'e option"
  cl_findDie :: "'c \<Rightarrow> 'e option"
  cl_die :: "string \<Rightarrow> 'c"
  cl_marked :: "'e \<Rightarrow> bool"

text \<open>A \<open>retryable\<close> predicate may throw, which is \<open>None\<close>.\<close>

definition toUnrecoverableFailure ::
  "('c, 'e) cause_lib \<Rightarrow> ('e \<Rightarrow> bool option) option \<Rightarrow> ('c \<Rightarrow> bool) option" where
  "toUnrecoverableFailure lib retryable =
     (case retryable of
        None \<Rightarrow> None
      | Some p \<Rightarrow>
          Some (\<lambda>cause. case cl_findError lib cause of
                          None \<Rightarrow> False
                        | Some e \<Rightarrow> (case p e of None \<Rightarrow> False | Some again \<Rightarrow> \<not> again)))"

definition causeIsMarkedUnrecoverable :: "('c, 'e) cause_lib \<Rightarrow> 'c \<Rightarrow> bool" where
  "causeIsMarkedUnrecoverable lib cause =
     ((case cl_findError lib cause of None \<Rightarrow> False | Some e \<Rightarrow> cl_marked lib e)
      \<or> (case cl_findDie lib cause of None \<Rightarrow> False | Some d \<Rightarrow> cl_marked lib d))"

section \<open>Backoff and options\<close>

text \<open>\<open>Math.round\<close> rounds halves up; \<open>x ** n\<close> is taken on rationals.\<close>

definition jsRound :: "rat \<Rightarrow> int" where
  "jsRound x = \<lfloor>x + 1 / 2\<rfloor>"

definition backoffDelayMs :: "backoff_policy option \<Rightarrow> int \<Rightarrow> int" where
  "backoffDelayMs backoff attempt =
     (case backoff of
        None \<Rightarrow> 0
      | Some b \<Rightarrow>
          (case bo_tag b of
             Fixed \<Rightarrow> bo_delayMs b
           | Exponential \<Rightarrow>
               jsRound (of_int (bo_delayMs b) * orElse (bo_factor b) 2 ^ nat (attempt - 1))))"

record 'd worker_options =
  wo_concurrency :: "int option"
  wo_queues :: "(queue_name, int option) jsmap"
  wo_lockDuration :: "'d option"
  wo_lockRenewInterval :: "'d option"
  wo_stalledInterval :: "'d option"
  wo_maxStalledCount :: "int option"
  wo_pollInterval :: "'d option"
  wo_scheduleSweepInterval :: "'d option"
  wo_flowSweepInterval :: "'d option"
  wo_id :: "string option"

record worker_config =
  wc_lockDurationMs :: int
  wc_lockRenewMs :: int
  wc_stalledMs :: int
  wc_scheduleSweepMs :: int
  wc_flowSweepMs :: int
  wc_maxStalledCount :: int
  wc_pollMs :: int
  wc_workerId :: string

definition millisOr :: "('d \<Rightarrow> int) \<Rightarrow> int \<Rightarrow> 'd option \<Rightarrow> int" where
  "millisOr toMillis fallback d = (case d of None \<Rightarrow> fallback | Some x \<Rightarrow> toMillis x)"

definition resolveOptions :: "('d \<Rightarrow> int) \<Rightarrow> string \<Rightarrow> 'd worker_options \<Rightarrow> worker_config" where
  "resolveOptions toMillis randomId options =
     (let lock = millisOr toMillis 30000 (wo_lockDuration options)
      in \<lparr> wc_lockDurationMs = lock,
           wc_lockRenewMs = (case wo_lockRenewInterval options of
                               Some d \<Rightarrow> toMillis d | None \<Rightarrow> max 1 (lock div 2)),
           wc_stalledMs = millisOr toMillis 30000 (wo_stalledInterval options),
           wc_scheduleSweepMs = millisOr toMillis 15000 (wo_scheduleSweepInterval options),
           wc_flowSweepMs = millisOr toMillis 30000 (wo_flowSweepInterval options),
           wc_maxStalledCount = orElse (wo_maxStalledCount options) 1,
           wc_pollMs = millisOr toMillis 5000 (wo_pollInterval options),
           wc_workerId = orElse (wo_id options) (''worker-'' @ randomId) \<rparr>)"

definition queueConcurrency :: "'d worker_options \<Rightarrow> queue_name \<Rightarrow> int option \<Rightarrow> int" where
  "queueConcurrency options queue registered =
     max 1 (case Option.bind (mapGet (wo_queues options) queue) (\<lambda>c. c) of
              Some c \<Rightarrow> c
            | None \<Rightarrow> (case registered of
                         Some c \<Rightarrow> c
                       | None \<Rightarrow> orElse (wo_concurrency options) 1))"

section \<open>The worker's state and its handlers\<close>

record job_context =
  jc_jobId :: job_id
  jc_name :: string
  jc_queue :: queue_name
  jc_attempt :: int
  jc_attemptsMax :: int

record job_failure =
  jf_jobId :: job_id
  jf_name :: string
  jf_queue :: queue_name
  jf_attempt :: int
  jf_attemptsMax :: int
  jf_willRetry :: bool

text \<open>
  \<open>wk_takers\<close> lists the taker fibers started, \<open>wk_failures\<close> the failures handed to the
  \<open>onJobFailure\<close> hook; \<open>wk_shutdown\<close> says that an external interrupt of the running fiber is pending.
\<close>

record worker =
  wk_inflight :: "(job_id, string) jsmap"
  wk_cancelling :: "job_id list"
  wk_queueNames :: "(queue_name, string list) jsmap"
  wk_startedQueues :: "queue_name list"
  wk_takers :: "queue_name list"
  wk_tokenCounter :: nat
  wk_pulseVersion :: nat
  wk_relayPulseVersion :: nat
  wk_flowSweeperStarted :: bool
  wk_relayStarted :: bool
  wk_flowPolicies :: "(string, bool) jsmap"
  wk_shutdown :: bool
  wk_failures :: "job_failure list"

definition idleWorker :: worker where
  "idleWorker = \<lparr> wk_inflight = [], wk_cancelling = [], wk_queueNames = [], wk_startedQueues = [],
     wk_takers = [], wk_tokenCounter = 0, wk_pulseVersion = 0, wk_relayPulseVersion = 0,
     wk_flowSweeperStarted = False, wk_relayStarted = False, wk_flowPolicies = [], wk_shutdown = False,
     wk_failures = [] \<rparr>"

record ('w, 'c) flow_entry =
  fe_flowName :: string
  fe_failFast :: bool
  fe_fanOut :: "json \<Rightarrow> job_context \<Rightarrow> nat \<Rightarrow> 'w \<times> worker \<Rightarrow> (flow_child_spec list, 'c) exit \<times> ('w \<times> worker)"

record ('w, 'v, 'c) handler_entry =
  he_run :: "json \<Rightarrow> job_context \<Rightarrow> flow_state option \<Rightarrow> 'w \<times> worker \<Rightarrow> ('v, 'c) exit \<times> ('w \<times> worker)"
  he_encodeExit :: "('v, 'c) exit \<Rightarrow> json option"
  he_unrecoverableFailure :: "('c \<Rightarrow> bool) option"
  he_flow :: "('w, 'c) flow_entry option"

text \<open>What the closure of one worker fixes: its store, the stores it can reach, its handlers.\<close>

record ('w, 'v, 'c, 'e) runtime =
  rt_store :: "'w service"
  rt_storeKey :: string
  rt_storesByKey :: "(string, 'w service) jsmap"
  rt_handlers :: "(string, ('w, 'v, 'c) handler_entry) jsmap"
  rt_config :: worker_config
  rt_lib :: "('c, 'e) cause_lib"
  rt_clock :: "'w \<Rightarrow> millis"

definition nextToken :: "string \<Rightarrow> worker \<Rightarrow> string \<times> worker" where
  "nextToken workerId k =
     (let n = wk_tokenCounter k + 1
      in (workerId @ CHR '':'' # natToString n, k\<lparr>wk_tokenCounter := n\<rparr>))"

definition firePulse :: "worker \<Rightarrow> worker" where
  "firePulse k = k\<lparr>wk_pulseVersion := wk_pulseVersion k + 1\<rparr>"

definition fireRelayPulse :: "worker \<Rightarrow> worker" where
  "fireRelayPulse k = k\<lparr>wk_relayPulseVersion := wk_relayPulseVersion k + 1\<rparr>"

definition pulsed :: "nat \<Rightarrow> worker \<Rightarrow> bool" where
  "pulsed observed k \<longleftrightarrow> wk_pulseVersion k > observed"

definition reportFailure :: "job_record \<Rightarrow> bool \<Rightarrow> worker \<Rightarrow> worker" where
  "reportFailure record willRetry k = k\<lparr>wk_failures := wk_failures k @ [\<lparr>
     jf_jobId = j_id record, jf_name = j_name record, jf_queue = j_queue record,
     jf_attempt = j_attemptsMade record + 1, jf_attemptsMax = j_attemptsMax record,
     jf_willRetry = willRetry \<rparr>]\<rparr>"

section \<open>Outcomes of a run\<close>

definition routeFailure :: "job_record \<Rightarrow> json option \<Rightarrow> ack_outcome" where
  "routeFailure record ex =
     (let attempt = j_attemptsMade record + 1
      in if attempt \<ge> j_attemptsMax record then Fail ex
         else Retry (backoffDelayMs (j_backoff record) attempt) ex)"

definition selfInterrupted :: "job_record \<Rightarrow> string" where
  "selfInterrupted record =
     ''effect-mq: handler for job '' @ [CHR 0x22] @ j_name record @ [CHR 0x22] @ '' interrupted itself''"

definition notEncodable :: "job_record \<Rightarrow> string" where
  "notEncodable record =
     ''effect-mq: failed to encode handler exit for job '' @ [CHR 0x22] @ j_name record @ [CHR 0x22]"

definition notAFlow :: "job_record \<Rightarrow> string" where
  "notAFlow record =
     ''effect-mq: job '' @ [CHR 0x22] @ j_name record @ [CHR 0x22]
     @ '' carries flow state (collect phase) but is registered as a plain handler; register its flow via Flow.toLayer instead of Job.toLayer''"

definition interruptedOnly :: "('c, 'e) cause_lib \<Rightarrow> ('a, 'c) exit \<Rightarrow> bool" where
  "interruptedOnly lib ex = (case ex of ExitSuccess _ \<Rightarrow> False | ExitFailure c \<Rightarrow> cl_interruptsOnly lib c)"

text \<open>What the end of a run means: a cancel request, a shutdown, or an exit to settle.\<close>

datatype ('a, 'c) verdict = RunCancelled | RunShutdown | RunSettles "('a, 'c) exit"

definition runVerdict ::
  "('c, 'e) cause_lib \<Rightarrow> job_record \<Rightarrow> bool \<Rightarrow> bool \<Rightarrow> ('a, 'c) exit \<Rightarrow> ('a, 'c) verdict" where
  "runVerdict lib record wasCancelled shutdown ex =
     (if wasCancelled \<and> interruptedOnly lib ex then RunCancelled
      else if shutdown then RunShutdown
      else RunSettles (if interruptedOnly lib ex then ExitFailure (cl_die lib (selfInterrupted record)) else ex))"

definition encodedExit ::
  "('c, 'e) cause_lib \<Rightarrow> ('w, 'v, 'c) handler_entry \<Rightarrow> job_record \<Rightarrow> ('v, 'c) exit \<Rightarrow> json option \<times> bool" where
  "encodedExit lib entry record ex =
     (case he_encodeExit entry ex of
        Some j \<Rightarrow> (Some j, True)
      | None \<Rightarrow> (he_encodeExit entry (ExitFailure (cl_die lib (notEncodable record))), False))"

definition unrecoverableExit ::
  "('c, 'e) cause_lib \<Rightarrow> ('w, 'v, 'c) handler_entry \<Rightarrow> ('v, 'c) exit \<Rightarrow> bool" where
  "unrecoverableExit lib entry ex =
     (case ex of
        ExitSuccess _ \<Rightarrow> False
      | ExitFailure c \<Rightarrow> causeIsMarkedUnrecoverable lib c
          \<or> (case he_unrecoverableFailure entry of None \<Rightarrow> False | Some p \<Rightarrow> p c))"

definition runOutcome ::
  "('c, 'e) cause_lib \<Rightarrow> ('w, 'v, 'c) handler_entry \<Rightarrow> job_record \<Rightarrow> ('v, 'c) exit \<Rightarrow> ack_outcome" where
  "runOutcome lib entry record ex =
     (case encodedExit lib entry record ex of
        (exitValue, encodable) \<Rightarrow>
          (case ex of
             ExitSuccess _ \<Rightarrow> if encodable then Complete exitValue else Fail exitValue
           | ExitFailure _ \<Rightarrow>
               if unrecoverableExit lib entry ex then Fail exitValue else routeFailure record exitValue))"

section \<open>processJob\<close>

text \<open>Grouping into a \<open>Map\<close> of arrays, in order of first occurrence.\<close>

definition groupByKey :: "('a \<Rightarrow> 'k) \<Rightarrow> 'a list \<Rightarrow> ('k, 'a list) jsmap" where
  "groupByKey f xs = fold (\<lambda>x m. mapSet (f x) (orElse (mapGet m (f x)) [] @ [x]) m) xs []"

definition enqueueGroup ::
  "(string, 'w service) jsmap \<Rightarrow> string \<times> flow_child_spec list \<Rightarrow> 'w \<Rightarrow> 'w" where
  "enqueueGroup stores grp w =
     (case mapGet stores (fst grp) of
        None \<Rightarrow> w
      | Some childStore \<Rightarrow> snd (retryStore (sv_enqueueMany childStore (map cs_request (snd grp))) w))"

definition enqueueChildren :: "(string, 'w service) jsmap \<Rightarrow> flow_child_spec list \<Rightarrow> 'w \<Rightarrow> 'w" where
  "enqueueChildren stores children w = fold (enqueueGroup stores) (groupByKey cs_storeKey children) w"

definition pulseForParent :: "bool \<Rightarrow> job_record \<Rightarrow> worker \<Rightarrow> worker" where
  "pulseForParent landed record k = (if landed \<and> j_parent record \<noteq> None then fireRelayPulse k else k)"

definition settleFanOut ::
  "('w, 'v, 'c, 'e) runtime \<Rightarrow> bool \<Rightarrow> job_record \<Rightarrow> string \<Rightarrow> flow_child_spec list
    \<Rightarrow> 'w \<times> worker \<Rightarrow> unit option \<times> ('w \<times> worker)" where
  "settleFanOut rt failFast record token children st =
     (case st of (w, k) \<Rightarrow>
        (case ackLanded (sv_ack (rt_store rt) (j_id record) token (FanOut failFast children)) w of
           (False, w1) \<Rightarrow> (Some (), (w1, k))
         | (True, w1) \<Rightarrow>
             if children = [] then (Some (), (w1, k))
             else
               (case retryStore (sv_getJob (rt_store rt) (j_id record)) w1 of
                  (None, w2) \<Rightarrow> (None, (w2, k))
                | (Some parked, w2) \<Rightarrow>
                    (case parked of
                       None \<Rightarrow> (Some (), (w2, k))
                     | Some job \<Rightarrow>
                         if j_state job = WaitingChildren
                         then (Some (), (enqueueChildren (rt_storesByKey rt) children w2, k))
                         else (Some (), (w2, k))))))"

definition settleExit ::
  "('w, 'v, 'c, 'e) runtime \<Rightarrow> ('w, 'v, 'c) handler_entry \<Rightarrow> job_record \<Rightarrow> string \<Rightarrow> ('v, 'c) exit
    \<Rightarrow> 'w \<times> worker \<Rightarrow> unit option \<times> ('w \<times> worker)" where
  "settleExit rt entry record token ex st =
     (case st of (w, k) \<Rightarrow>
        (let outcome = runOutcome (rt_lib rt) entry record ex;
             (landed, w1) = ackLanded (sv_ack (rt_store rt) (j_id record) token outcome) w;
             terminal = (case outcome of Complete _ \<Rightarrow> True | Fail _ \<Rightarrow> True | _ \<Rightarrow> False);
             k1 = pulseForParent (landed \<and> terminal) record k;
             k2 = (case outcome of
                     Fail _ \<Rightarrow> reportFailure record False k1
                   | Retry _ _ \<Rightarrow> reportFailure record True k1
                   | _ \<Rightarrow> k1)
         in (Some (), (w1, k2))))"

definition takeFlight :: "job_id \<Rightarrow> worker \<Rightarrow> bool \<times> worker" where
  "takeFlight i k =
     (i \<in> set (wk_cancelling k),
      k\<lparr>wk_inflight := mapDelete i (wk_inflight k),
        wk_cancelling := filter (\<lambda>x. x \<noteq> i) (wk_cancelling k)\<rparr>)"

text \<open>From the exit of the handler's fiber on, for either phase.\<close>

definition afterRun ::
  "('w, 'v, 'c, 'e) runtime \<Rightarrow> job_record \<Rightarrow> string
    \<Rightarrow> (('a, 'c) exit \<Rightarrow> 'w \<times> worker \<Rightarrow> unit option \<times> ('w \<times> worker))
    \<Rightarrow> ('a, 'c) exit \<times> ('w \<times> worker) \<Rightarrow> unit option \<times> ('w \<times> worker)" where
  "afterRun rt record token settle result =
     (case result of (ex, (w, k)) \<Rightarrow>
        (case takeFlight (j_id record) k of (wasCancelled, k1) \<Rightarrow>
           (case runVerdict (rt_lib rt) record wasCancelled (wk_shutdown k1) ex of
              RunCancelled \<Rightarrow>
                (case ackLanded (sv_ack (rt_store rt) (j_id record) token CancelledOutcome) w of
                   (landed, w1) \<Rightarrow> (Some (), (w1, pulseForParent landed record k1)))
            | RunShutdown \<Rightarrow>
                (None, (ackSafely (sv_release (rt_store rt) (j_id record) token) w, k1))
            | RunSettles effective \<Rightarrow> settle effective (w, k1))))"

definition contextOf :: "job_record \<Rightarrow> job_context" where
  "contextOf record = \<lparr> jc_jobId = j_id record, jc_name = j_name record, jc_queue = j_queue record,
     jc_attempt = j_attemptsMade record + 1, jc_attemptsMax = j_attemptsMax record \<rparr>"

definition depthOf :: "job_record \<Rightarrow> nat" where
  "depthOf record = (case j_parent record of None \<Rightarrow> 0 | Some p \<Rightarrow> pe_depth p)"

definition settleFanOutExit ::
  "('w, 'v, 'c, 'e) runtime \<Rightarrow> ('w, 'v, 'c) handler_entry \<Rightarrow> bool \<Rightarrow> job_record \<Rightarrow> string
    \<Rightarrow> (flow_child_spec list, 'c) exit \<Rightarrow> 'w \<times> worker \<Rightarrow> unit option \<times> ('w \<times> worker)" where
  "settleFanOutExit rt entry failFast record token ex st =
     (case ex of
        ExitSuccess children \<Rightarrow> settleFanOut rt failFast record token children st
      | ExitFailure c \<Rightarrow> settleExit rt entry record token (ExitFailure c) st)"

definition processJob ::
  "('w, 'v, 'c, 'e) runtime \<Rightarrow> job_record \<Rightarrow> string \<Rightarrow> 'w \<times> worker \<Rightarrow> unit option \<times> ('w \<times> worker)" where
  "processJob rt record token st =
     (case st of (w, k) \<Rightarrow>
        (case mapGet (rt_handlers rt) (j_name record) of
           None \<Rightarrow> (Some (), (ackSafely (sv_release (rt_store rt) (j_id record) token) w, k))
         | Some entry \<Rightarrow>
             if j_flow record \<noteq> None \<and> he_flow entry = None then
               (let ex = he_encodeExit entry (ExitFailure (cl_die (rt_lib rt) (notAFlow record)))
                in (Some (), (ackSafely (sv_ack (rt_store rt) (j_id record) token (Fail ex)) w,
                              reportFailure record False k)))
             else
               (let k1 = k\<lparr>wk_inflight := mapSet (j_id record) token (wk_inflight k)\<rparr>
                in (case (j_flow record, he_flow entry) of
                      (None, Some fl) \<Rightarrow>
                        afterRun rt record token (settleFanOutExit rt entry (fe_failFast fl) record token)
                          (fe_fanOut fl (j_payload record) (contextOf record) (depthOf record) (w, k1))
                    | _ \<Rightarrow>
                        afterRun rt record token (settleExit rt entry record token)
                          (he_run entry (j_payload record) (contextOf record) (j_flow record) (w, k1))))))"

section \<open>The taker loop\<close>

text \<open>
  How an iteration ends: nothing registered (wait for a pulse after the observed one, at most
  \<open>pollMs\<close>), nothing to claim (wait for a wake-up of the queue, a pulse, or the timeout), a job
  processed, or a defect that the loop logs.
\<close>

datatype iteration =
    NothingRegistered nat int
  | NothingToClaim nat int nat
  | Processed "unit option"
  | IterationDied

definition takerIteration ::
  "('w, 'v, 'c, 'e) runtime \<Rightarrow> queue_name \<Rightarrow> 'w \<times> worker \<Rightarrow> iteration \<times> ('w \<times> worker)" where
  "takerIteration rt queue st =
     (case st of (w, k) \<Rightarrow>
        (let observed = wk_pulseVersion k;
             names = orElse (mapGet (wk_queueNames k) queue) []
         in if names = [] then (NothingRegistered observed (wc_pollMs (rt_config rt)), st)
            else
              (case nextToken (wc_workerId (rt_config rt)) k of (token, k1) \<Rightarrow>
                 (case retryStore (sv_claim (rt_store rt)
                         \<lparr>co_queue = queue, co_names = names, co_token = token,
                          co_lockDurationMs = wc_lockDurationMs (rt_config rt)\<rparr>) w of
                    (None, w1) \<Rightarrow> (IterationDied, (w1, k1))
                  | (Some (Empty nextRunAt wakeToken), w1) \<Rightarrow>
                      (NothingToClaim wakeToken
                         (case nextRunAt of
                            Some r \<Rightarrow> max 0 (min (r - rt_clock rt w1) (wc_pollMs (rt_config rt)))
                          | None \<Rightarrow> wc_pollMs (rt_config rt)) observed, (w1, k1))
                  | (Some (Claimed job), w1) \<Rightarrow>
                      (case processJob rt job token (w1, k1) of (r, st') \<Rightarrow> (Processed r, st'))))))"

section \<open>The lock heartbeat\<close>

definition heartbeat ::
  "('w, 'v, 'c, 'e) runtime \<Rightarrow> 'w \<times> worker \<Rightarrow> 'w \<times> worker" where
  "heartbeat rt st =
     (case st of (w, k) \<Rightarrow>
        if wk_inflight k = [] then st
        else
          (case retryStore (sv_extendLocks (rt_store rt) (wk_inflight k) (wc_lockDurationMs (rt_config rt))) w of
             (None, w1) \<Rightarrow> (w1, k)
           | (Some r, w1) \<Rightarrow>
               (let flights = fold mapDelete (xl_lost r) (wk_inflight k);
                    marked = filter (mapHas flights) (xl_cancelRequested r)
                in (w1, k\<lparr>wk_inflight := flights,
                          wk_cancelling := wk_cancelling k @ filter (\<lambda>i. i \<notin> set (wk_cancelling k)) (remdups marked)\<rparr>))))"

section \<open>Registration\<close>

type_synonym ('w, 'v, 'c) handlers = "(string, ('w, 'v, 'c) handler_entry) jsmap"

definition ensureQueueLoop :: "'d worker_options \<Rightarrow> queue_name \<Rightarrow> int option \<Rightarrow> worker \<Rightarrow> worker" where
  "ensureQueueLoop options queue registered k =
     (if queue \<in> set (wk_startedQueues k) then k
      else k\<lparr>wk_startedQueues := wk_startedQueues k @ [queue],
             wk_takers := wk_takers k @ replicate (nat (queueConcurrency options queue registered)) queue\<rparr>)"

definition addName :: "queue_name \<Rightarrow> string \<Rightarrow> worker \<Rightarrow> worker" where
  "addName queue name k =
     (let names = orElse (mapGet (wk_queueNames k) queue) []
      in k\<lparr>wk_queueNames := mapSet queue (if name \<in> set names then names else names @ [name]) (wk_queueNames k)\<rparr>)"

datatype register_error = DuplicateHandler string | WrongStore string | MissingChildStore string

text \<open>
  What a registration is given: the job's descriptor with its codecs (decoding a payload ends in a
  value or the cause of a defect), and the options. Store keys are their key strings.
\<close>

record ('p, 'v, 'c, 'e) job_descriptor =
  jd_tag :: string
  jd_queue :: queue_name
  jd_store :: string
  jd_decodePayload :: "json \<Rightarrow> 'c + 'p"
  jd_encodeExit :: "('v, 'c) exit \<Rightarrow> json option"
  jd_retryable :: "('e \<Rightarrow> bool option) option"

record register_options =
  ro_concurrency :: "int option"
  ro_queue :: "queue_name option"

record ('w, 'p, 'v, 'c, 'e) flow_descriptor =
  fd_name :: string
  fd_parent :: "('p, 'v, 'c, 'e) job_descriptor"
  fd_failFast :: bool
  fd_childStores :: "string list"
  fd_fanOut :: "'p \<Rightarrow> job_context \<Rightarrow> nat \<Rightarrow> 'w \<times> worker \<Rightarrow> (flow_child_spec list, 'c) exit \<times> ('w \<times> worker)"
  fd_collect :: "'p \<Rightarrow> flow_state \<Rightarrow> job_context \<Rightarrow> 'w \<times> worker \<Rightarrow> ('v, 'c) exit \<times> ('w \<times> worker)"

definition withPayload ::
  "('p, 'v, 'c, 'e) job_descriptor \<Rightarrow> json \<Rightarrow> ('p \<Rightarrow> 's \<Rightarrow> ('a, 'c) exit \<times> 's) \<Rightarrow> 's \<Rightarrow> ('a, 'c) exit \<times> 's" where
  "withPayload job payload f st =
     (case jd_decodePayload job payload of Inl c \<Rightarrow> (ExitFailure c, st) | Inr p \<Rightarrow> f p st)"

definition jobEntry ::
  "('c, 'e) cause_lib \<Rightarrow> ('p, 'v, 'c, 'e) job_descriptor
    \<Rightarrow> ('p \<Rightarrow> job_context \<Rightarrow> 'w \<times> worker \<Rightarrow> ('v, 'c) exit \<times> ('w \<times> worker)) \<Rightarrow> ('w, 'v, 'c) handler_entry" where
  "jobEntry lib job handler = \<lparr>
     he_run = (\<lambda>payload context _. withPayload job payload (\<lambda>p. handler p context)),
     he_encodeExit = jd_encodeExit job,
     he_unrecoverableFailure = toUnrecoverableFailure lib (jd_retryable job),
     he_flow = None \<rparr>"

definition emptyFlow :: "bool \<Rightarrow> flow_state" where
  "emptyFlow failFast = \<lparr> fs_failFast = failFast, fs_pending = 0, fs_completed = 0, fs_failed = 0, fs_cancelled = 0 \<rparr>"

definition flowEntry ::
  "('c, 'e) cause_lib \<Rightarrow> ('w, 'p, 'v, 'c, 'e) flow_descriptor \<Rightarrow> ('w, 'v, 'c) handler_entry" where
  "flowEntry lib flow = \<lparr>
     he_run = (\<lambda>payload context flowState. withPayload (fd_parent flow) payload
                 (\<lambda>p. fd_collect flow p (orElse flowState (emptyFlow (fd_failFast flow))) context)),
     he_encodeExit = jd_encodeExit (fd_parent flow),
     he_unrecoverableFailure = toUnrecoverableFailure lib (jd_retryable (fd_parent flow)),
     he_flow = Some \<lparr>
       fe_flowName = fd_name flow,
       fe_failFast = fd_failFast flow,
       fe_fanOut = (\<lambda>payload context depth. withPayload (fd_parent flow) payload
                      (\<lambda>p. fd_fanOut flow p context depth)) \<rparr> \<rparr>"

text \<open>The finalizer that the scope of a registration runs is \<open>unregister\<close>.\<close>

definition register ::
  "'d worker_options \<Rightarrow> string \<Rightarrow> ('c, 'e) cause_lib \<Rightarrow> ('p, 'v, 'c, 'e) job_descriptor
    \<Rightarrow> ('p \<Rightarrow> job_context \<Rightarrow> 'w \<times> worker \<Rightarrow> ('v, 'c) exit \<times> ('w \<times> worker)) \<Rightarrow> register_options
    \<Rightarrow> ('w, 'v, 'c) handlers \<times> worker \<Rightarrow> register_error + (('w, 'v, 'c) handlers \<times> worker)" where
  "register options workerStore lib job handler ro st =
     (case st of (handlers, k) \<Rightarrow>
        if mapHas handlers (jd_tag job) then Inl (DuplicateHandler (jd_tag job))
        else if jd_store job \<noteq> workerStore then Inl (WrongStore (jd_store job))
        else
          (let queue = orElse (ro_queue ro) (jd_queue job)
           in Inr (mapSet (jd_tag job) (jobEntry lib job handler) handlers,
                   firePulse (ensureQueueLoop options queue (ro_concurrency ro) (addName queue (jd_tag job) k)))))"

definition unregister ::
  "string \<Rightarrow> queue_name \<Rightarrow> ('w, 'v, 'c) handlers \<times> worker \<Rightarrow> ('w, 'v, 'c) handlers \<times> worker" where
  "unregister name queue st =
     (case st of (handlers, k) \<Rightarrow>
        (mapDelete name handlers,
         (case mapGet (wk_queueNames k) queue of
            None \<Rightarrow> k
          | Some names \<Rightarrow>
              k\<lparr>wk_queueNames := mapSet queue (filter (\<lambda>n. n \<noteq> name) names) (wk_queueNames k)\<rparr>)))"

definition ensureFlowSweeper :: "worker \<Rightarrow> worker" where
  "ensureFlowSweeper k = k\<lparr>wk_flowSweeperStarted := True\<rparr>"

definition ensureRelay :: "worker \<Rightarrow> worker" where
  "ensureRelay k = k\<lparr>wk_relayStarted := True\<rparr>"

text \<open>
  \<open>resolveStores\<close> looks the flow's child stores up in the registration context, in order; a store that
  is missing aborts the registration, after the ones before it were already recorded.
\<close>

fun resolveStores ::
  "(string \<Rightarrow> 'w service option) \<Rightarrow> string list \<Rightarrow> (string, 'w service) jsmap
    \<Rightarrow> string option \<times> (string, 'w service) jsmap" where
  "resolveStores provided [] stores = (None, stores)"
| "resolveStores provided (key # keys) stores =
     (case provided key of
        None \<Rightarrow> (Some key, stores)
      | Some service \<Rightarrow> resolveStores provided keys (mapSet key service stores))"

definition registerFlow ::
  "'d worker_options \<Rightarrow> string \<Rightarrow> ('c, 'e) cause_lib \<Rightarrow> ('w, 'p, 'v, 'c, 'e) flow_descriptor
    \<Rightarrow> (string \<Rightarrow> 'w service option) \<Rightarrow> register_options
    \<Rightarrow> ('w, 'v, 'c) handlers \<times> (string, 'w service) jsmap \<times> worker
    \<Rightarrow> register_error option \<times> (('w, 'v, 'c) handlers \<times> (string, 'w service) jsmap \<times> worker)" where
  "registerFlow options workerStore lib flow provided ro st =
     (case st of (handlers, stores, k) \<Rightarrow>
        (let name = jd_tag (fd_parent flow)
         in if mapHas handlers name then (Some (DuplicateHandler name), st)
            else if jd_store (fd_parent flow) \<noteq> workerStore then (Some (WrongStore (jd_store (fd_parent flow))), st)
            else
              (case resolveStores provided (fd_childStores flow) stores of
                 (Some key, stores1) \<Rightarrow> (Some (MissingChildStore key), (handlers, stores1, k))
               | (None, stores1) \<Rightarrow>
                   (let k1 = k\<lparr>wk_flowPolicies := mapSet (fd_name flow) (fd_failFast flow) (wk_flowPolicies k)\<rparr>;
                        queue = orElse (ro_queue ro) (jd_queue (fd_parent flow))
                    in (None, (mapSet name (flowEntry lib flow) handlers, stores1,
                               firePulse (ensureRelay (ensureFlowSweeper
                                 (ensureQueueLoop options queue (ro_concurrency ro)
                                   (addName queue name k1))))))))))"

text \<open>
  The worker at the end of \<open>make\<close>: its own store, the parent stores of the flows it is configured with,
  and the relay when there is one. A flow here is its parent store, its name and its fail-fast bit.
\<close>

definition startWorker ::
  "string \<Rightarrow> 'w service \<Rightarrow> (string \<times> 'w service \<times> string \<times> bool) list \<Rightarrow> (string, 'w service) jsmap \<times> worker" where
  "startWorker storeKey store flows =
     (let (stores, k) = fold (\<lambda>(key, service, name, failFast) (stores, k).
                (mapSet key service stores, k\<lparr>wk_flowPolicies := mapSet name failFast (wk_flowPolicies k)\<rparr>))
              flows (mapSet storeKey store [], idleWorker)
      in (stores, if wk_flowPolicies k = [] then k else ensureRelay k))"

end
