(* ===== verification/WorkerLoops.thy ===== *)
theory WorkerLoops
  imports WorkerRun
begin

text \<open>
  The maintenance fibers of the worker (\<open>Worker.ts\<close>), one pass each: the outbox relay, the flow
  sweeper with reconciliation and cascades, the schedule sweep and the recovery of stalled jobs. A
  pass that the code isolates with \<open>catchCause\<close> is a function from world to world.
\<close>

section \<open>The outbox relay\<close>

definition relayPageSize :: int where
  "relayPageSize = 500"

definition deliverGroup ::
  "('w, 'v, 'c, 'e) runtime \<Rightarrow> string \<times> outbox_entry list \<Rightarrow> 'w \<Rightarrow> 'w" where
  "deliverGroup rt grp w =
     (case mapGet (rt_storesByKey rt) (fst grp) of
        None \<Rightarrow> w
      | Some target \<Rightarrow>
          snd (bindE (retryStore (sv_recordChildResults target (map ob_report (snd grp))))
                 (\<lambda>_. retryStore (sv_deleteOutbox (rt_store rt) (map ob_id (snd grp)))) w))"

definition routable :: "('w, 'v, 'c, 'e) runtime \<Rightarrow> outbox_entry \<Rightarrow> bool" where
  "routable rt entry \<longleftrightarrow> mapHas (rt_storesByKey rt) (ob_parentStoreKey entry)"

definition deliverPage ::
  "('w, 'v, 'c, 'e) runtime \<Rightarrow> outbox_entry list \<Rightarrow> 'w \<Rightarrow> 'w" where
  "deliverPage rt entries w =
     fold (deliverGroup rt) (groupByKey ob_parentStoreKey (filter (routable rt) entries)) w"

text \<open>
  The loop walks the outbox page by page behind a cursor. It may go on as long as other actors fill
  pages behind it, so it takes fuel, one unit a page: \<open>None\<close> is a drain that has not returned yet,
  \<open>Some None\<close> one that died on its own store, \<open>Some (Some ())\<close> one that returned.
\<close>

fun relayDrain ::
  "('w, 'v, 'c, 'e) runtime \<Rightarrow> nat \<Rightarrow> string option \<Rightarrow> 'w \<Rightarrow> unit option option \<times> 'w" where
  "relayDrain rt 0 after w = (None, w)"
| "relayDrain rt (Suc n) after w =
     (case retryStore (sv_peekOutbox (rt_store rt) relayPageSize after) w of
        (None, w1) \<Rightarrow> (Some None, w1)
      | (Some entries, w1) \<Rightarrow>
          if entries = [] then (Some (Some ()), w1)
          else
            (let w2 = deliverPage rt entries w1
             in if int (length entries) < relayPageSize then (Some (Some ()), w2)
                else relayDrain rt n (Some (ob_id (last entries))) w2))"

section \<open>The flow sweeper\<close>

definition waitsForChildren :: "job_record option \<Rightarrow> bool" where
  "waitsForChildren job = (case job of None \<Rightarrow> False | Some j \<Rightarrow> j_state j = WaitingChildren)"

definition synthesizedReport :: "job_id \<Rightarrow> string \<Rightarrow> terminal_state \<Rightarrow> job_record \<Rightarrow> flow_child_report" where
  "synthesizedReport flowId childKey outcome job = \<lparr> rp_flowId = flowId, rp_childKey = childKey,
     rp_outcome = outcome, rp_exit = j_exit job, rp_failedReason = j_failedReason job \<rparr>"

definition redriveChild ::
  "'w service \<Rightarrow> 'w service \<Rightarrow> job_id \<Rightarrow> job_id \<Rightarrow> enqueue_request \<Rightarrow> ('w, unit) eff" where
  "redriveChild store childStore flowId i request =
     bindE (retryStore (sv_getJob store flowId)) (\<lambda>before.
       if \<not> waitsForChildren before then returnE ()
       else bindE (retryStore (sv_enqueue childStore request)) (\<lambda>_.
         bindE (retryStore (sv_getJob store flowId)) (\<lambda>after.
           if \<not> waitsForChildren after
           then retryStore (cancelQuietly (sv_cancel childStore i))
           else returnE ())))"

definition reconcileChild ::
  "('w, 'v, 'c, 'e) runtime \<Rightarrow> job_id \<Rightarrow> flow_child_spec \<Rightarrow> ('w, unit) eff" where
  "reconcileChild rt flowId child =
     (case mapGet (rt_storesByKey rt) (cs_storeKey child) of
        None \<Rightarrow> returnE ()
      | Some childStore \<Rightarrow>
          (case rq_id (cs_request child) of
             None \<Rightarrow> returnE ()
           | Some i \<Rightarrow>
               bindE (retryStore (sv_getJob childStore i)) (\<lambda>existing.
                 case existing of
                   None \<Rightarrow> redriveChild (rt_store rt) childStore flowId i (cs_request child)
                 | Some job \<Rightarrow>
                     (case terminalOf (j_state job) of
                        None \<Rightarrow> returnE ()
                      | Some outcome \<Rightarrow>
                          bindE (retryStore (sv_recordChildResults (rt_store rt)
                                   [synthesizedReport flowId (cs_childKey child) outcome job]))
                            (\<lambda>_. returnE ())))))"

text \<open>The keys whose cancel was delivered, in order; a call that dies aborts the group.\<close>

fun cascadeCancels ::
  "(string, 'w service) jsmap \<Rightarrow> cascade_child list \<Rightarrow> ('w, string list) eff" where
  "cascadeCancels stores [] = returnE []"
| "cascadeCancels stores (child # children) =
     (case mapGet stores (cc_storeKey child) of
        None \<Rightarrow> cascadeCancels stores children
      | Some childStore \<Rightarrow>
          bindE (retryStore (cancelQuietly (sv_cancel childStore (orElse (cc_childJobId child) ''''))))
            (\<lambda>_. bindE (cascadeCancels stores children) (\<lambda>done. returnE (cc_childKey child # done))))"

definition cascadeChildren ::
  "('w, 'v, 'c, 'e) runtime \<Rightarrow> job_id \<Rightarrow> cascade_child list \<Rightarrow> ('w, unit) eff" where
  "cascadeChildren rt flowId children =
     bindE (cascadeCancels (rt_storesByKey rt) children) (\<lambda>done.
       if done = [] then returnE ()
       else retryStore (sv_markChildrenCascaded (rt_store rt) flowId done))"

definition flowSweepLimit :: int where
  "flowSweepLimit = 512"

definition reconcileGroup ::
  "('w, 'v, 'c, 'e) runtime \<Rightarrow> job_id \<times> flow_child_spec list \<Rightarrow> 'w \<Rightarrow> 'w" where
  "reconcileGroup rt grp w = fold (\<lambda>child w. snd (reconcileChild rt (fst grp) child w)) (snd grp) w"

definition flowSweep :: "('w, 'v, 'c, 'e) runtime \<Rightarrow> ('w, unit) eff" where
  "flowSweep rt =
     bindE (retryStore (sv_flowSweepWork (rt_store rt) (wc_flowSweepMs (rt_config rt)) (Some flowSweepLimit)))
       (\<lambda>work w.
          (let w1 = fold (reconcileGroup rt) (sw_reconcile work) w;
               w2 = fold (\<lambda>grp w. snd (cascadeChildren rt (fst grp) (snd grp) w)) (sw_cascade work) w1
           in (Some (), w2)))"

section \<open>The schedule sweep\<close>

text \<open>\<open>isoDate\<close> is \<open>new Date(slot).toISOString()\<close>; \<open>cronParse\<close> and \<open>cronNext\<close> are the cron library.\<close>

definition slotJobId :: "schedule_key \<Rightarrow> millis \<Rightarrow> job_id" where
  "slotJobId key slot = ''sched/'' @ key @ CHR ''/'' # intToString slot"

definition scheduleRequest :: "(millis \<Rightarrow> string) \<Rightarrow> schedule_record \<Rightarrow> enqueue_request" where
  "scheduleRequest isoDate sc = \<lparr>
     rq_id = Some (slotJobId (sc_key sc) (sc_nextRunAt sc)),
     rq_name = sc_jobName sc,
     rq_queue = sc_queue sc,
     rq_payload = sc_payload sc,
     rq_metadata = mapSet ''scheduledFor'' (isoDate (sc_nextRunAt sc)) (sc_metadata sc),
     rq_priority = sc_priority sc,
     rq_attemptsMax = sc_attemptsMax sc,
     rq_backoff = sc_backoff sc,
     rq_keep = sc_keep sc,
     rq_timeoutMs = sc_timeoutMs sc,
     rq_dedupe = None,
     rq_trace = None,
     rq_parent = None,
     rq_delayMs = 0 \<rparr>"

record 'c cron_lib =
  cr_parse :: "string \<Rightarrow> string option \<Rightarrow> 'c option"
  cr_next :: "'c \<Rightarrow> millis \<Rightarrow> millis option"
  cr_iso :: "millis \<Rightarrow> string"

definition sweepSchedule ::
  "('w, 'v, 'c, 'e) runtime \<Rightarrow> 'd cron_lib \<Rightarrow> schedule_record \<Rightarrow> ('w, bool) eff" where
  "sweepSchedule rt lib sc w =
     (case nextOccurrence (cr_parse lib) (cr_next lib) (sc_cron sc) (sc_tz sc) (sc_everyMs sc)
             (sc_nextRunAt sc) (rt_clock rt w) of
        None \<Rightarrow> (Some False, w)
      | Some next \<Rightarrow>
          retryStore (sv_tickSchedule (rt_store rt) (sc_key sc) (sc_nextRunAt sc) next
            (scheduleRequest (cr_iso lib) sc)) w)"

definition scheduleSweep :: "('w, 'v, 'c, 'e) runtime \<Rightarrow> 'd cron_lib \<Rightarrow> ('w, unit) eff" where
  "scheduleSweep rt lib =
     bindE (retryStore (sv_dueSchedules (rt_store rt)))
       (\<lambda>due w. (Some (), fold (\<lambda>sc w. snd (sweepSchedule rt lib sc w)) due w))"

section \<open>The recovery of stalled jobs\<close>

fun reportStalled ::
  "'w service \<Rightarrow> (job_id \<times> bool) list \<Rightarrow> 'w \<times> worker \<Rightarrow> unit option \<times> ('w \<times> worker)" where
  "reportStalled store [] st = (Some (), st)"
| "reportStalled store ((i, failed) # rest) (w, k) =
     (if \<not> failed then reportStalled store rest (w, k)
      else
        (case retryStore (sv_getJob store i) w of
           (None, w1) \<Rightarrow> (None, (w1, k))
         | (Some None, w1) \<Rightarrow> reportStalled store rest (w1, k)
         | (Some (Some job), w1) \<Rightarrow> reportStalled store rest (w1, reportFailure job False k)))"

definition stalledSweep ::
  "('w, 'v, 'c, 'e) runtime \<Rightarrow> 'w \<times> worker \<Rightarrow> unit option \<times> ('w \<times> worker)" where
  "stalledSweep rt st =
     (case st of (w, k) \<Rightarrow>
        (case retryStore (sv_recoverStalled (rt_store rt) (wc_maxStalledCount (rt_config rt))) w of
           (None, w1) \<Rightarrow> (None, (w1, k))
         | (Some recovered, w1) \<Rightarrow> reportStalled (rt_store rt) recovered (w1, k)))"

section \<open>A worker on in-memory drivers\<close>

text \<open>The stores of the worker are in-memory drivers behind one link.\<close>

definition drivenBy :: "link \<Rightarrow> string \<Rightarrow> (world, 'v, 'c, 'e) runtime \<Rightarrow> bool" where
  "drivenBy lk key rt \<longleftrightarrow> rt_store rt = memService lk key
     \<and> (\<forall>k sv. mapGet (rt_storesByKey rt) k = Some sv \<longrightarrow> sv = memService lk k)"

end
