(* ===== verification/JobApi.thy ===== *)
theory JobApi
  imports WorkerLoops
begin

text \<open>
  The producer side, \<open>packages/effect-mq/src/Job.ts\<close>: the inputs of a job definition and of its calls,
  their normalisation into policies, the definition that \<open>make\<close> builds, and its methods \<open>enqueue\<close>,
  \<open>enqueueMany\<close>, \<open>poll\<close>, \<open>attempts\<close>, \<open>awaitResult\<close>, \<open>execute\<close>, \<open>retry\<close>, \<open>cancel\<close>, \<open>cancelByKey\<close>,
  \<open>promote\<close>, \<open>schedule\<close> and \<open>unschedule\<close> over any store service. Schemas, durations, instants and
  cron are parameters: a codec is a partial function (\<open>None\<close> where it fails or throws), a duration
  its milliseconds. Optional object fields that the code tests with \<open>in\<close> are options of options.
  A method ends in a value, a typed failure, or a defect; metrics and spans are left out, except the
  context of the current span, which travels on the request.
\<close>

section \<open>Outcomes of a call\<close>

datatype defect =
    Thrown string
  | BadPayload
  | BadInstant
  | BadExit
  | StoreFailed store_error
  | JobVanished job_id
  | JobWasCancelled job_id
  | NoResult job_id "string option"
  | ScheduleExhausted string

datatype 'a outcome = Returned 'a | Failing store_error | Died defect

type_synonym ('w, 'a) api = "'w \<Rightarrow> 'a outcome \<times> 'w"

text \<open>\<open>Effect.orDie\<close>, and \<open>Effect.catchTag("JobStoreError", die)\<close>.\<close>

definition orDie :: "('w, 'a) call \<Rightarrow> ('w, 'a) api" where
  "orDie c w = (case c w of (Inr a, w') \<Rightarrow> (Returned a, w') | (Inl e, w') \<Rightarrow> (Died (StoreFailed e), w'))"

definition dieOnStoreError :: "('w, 'a) call \<Rightarrow> ('w, 'a) api" where
  "dieOnStoreError c w =
     (case c w of
        (Inr a, w') \<Rightarrow> (Returned a, w')
      | (Inl e, w') \<Rightarrow> (if isJobStoreError e then Died (StoreFailed e) else Failing e, w'))"

definition bindA :: "('w, 'a) api \<Rightarrow> ('a \<Rightarrow> ('w, 'b) api) \<Rightarrow> ('w, 'b) api" where
  "bindA m f w =
     (case m w of
        (Returned a, w') \<Rightarrow> f a w'
      | (Failing e, w') \<Rightarrow> (Failing e, w')
      | (Died d, w') \<Rightarrow> (Died d, w'))"

text \<open>The pure steps before a call: a value, or the defect that a \<open>throw\<close> becomes.\<close>

type_synonym 'a pure = "defect + 'a"

fun bindP :: "'a pure \<Rightarrow> ('a \<Rightarrow> 'b pure) \<Rightarrow> 'b pure" where
  "bindP (Inl d) f = Inl d"
| "bindP (Inr a) f = f a"

definition needed :: "defect \<Rightarrow> 'a option \<Rightarrow> 'a pure" where
  "needed d x = (case x of None \<Rightarrow> Inl d | Some a \<Rightarrow> Inr a)"

fun traverse :: "('a \<Rightarrow> 'b pure) \<Rightarrow> 'a list \<Rightarrow> 'b list pure" where
  "traverse f [] = Inr []"
| "traverse f (x # xs) = bindP (f x) (\<lambda>y. bindP (traverse f xs) (\<lambda>ys. Inr (y # ys)))"

section \<open>Inputs and their normalisation\<close>

record 'd backoff_input =
  bi_type :: backoff_tag
  bi_delay :: 'd
  bi_factor :: "rat option"

record 'd keep_state_input =
  ks_count :: "int option"
  ks_age :: "'d option"

record 'd keep_input =
  ki_count :: "int option option"
  ki_age :: "'d option option"
  ki_completed :: "'d keep_state_input option option"
  ki_failed :: "'d keep_state_input option option"
  ki_cancelled :: "'d keep_state_input option option"

record 'd dedupe_config =
  dc_key :: string
  dc_ttl :: "'d option"
  dc_extend :: "bool option"
  dc_replace :: "bool option"

datatype 'd dedupe_input = DedupeKey string | DedupeConfig "'d dedupe_config"

text \<open>\<open>Duration.toMillis\<close>, and \<open>DateTime.toEpochMillis(DateTime.makeUnsafe(..))\<close>, which may throw.\<close>

record ('d, 'i) time_lib =
  tl_millis :: "'d \<Rightarrow> int"
  tl_epoch :: "'i \<Rightarrow> millis option"

definition normalizeBackoff :: "('d \<Rightarrow> int) \<Rightarrow> 'd backoff_input option \<Rightarrow> backoff_policy option" where
  "normalizeBackoff toMillis input =
     (case input of
        None \<Rightarrow> None
      | Some b \<Rightarrow> Some \<lparr> bo_tag = bi_type b, bo_delayMs = toMillis (bi_delay b), bo_factor = bi_factor b \<rparr>)"

definition normalizeKeepState :: "('d \<Rightarrow> int) \<Rightarrow> 'd keep_state_input \<Rightarrow> keep_state_policy" where
  "normalizeKeepState toMillis input =
     \<lparr> kp_count = ks_count input, kp_ageMs = map_option toMillis (ks_age input) \<rparr>"

definition mixedKeep :: string where
  "mixedKeep = ''effect-mq: `keep` must be either flat { count, age } or split per state, not both''"

definition normalizeKeep :: "('d \<Rightarrow> int) \<Rightarrow> 'd keep_input option \<Rightarrow> keep_policy option pure" where
  "normalizeKeep toMillis input =
     (case input of
        None \<Rightarrow> Inr None
      | Some k \<Rightarrow>
          (let split = ki_completed k \<noteq> None \<or> ki_failed k \<noteq> None \<or> ki_cancelled k \<noteq> None;
               flat = ki_count k \<noteq> None \<or> ki_age k \<noteq> None;
               perState = (\<lambda>x. map_option (normalizeKeepState toMillis) (Option.bind x (\<lambda>v. v)))
           in if split \<and> flat then Inl (Thrown mixedKeep)
              else if split then
                Inr (Some \<lparr> kp_completed = perState (ki_completed k), kp_failed = perState (ki_failed k),
                            kp_cancelled = perState (ki_cancelled k), kp_flat = None \<rparr>)
              else
                (let policy = normalizeKeepState toMillis
                       \<lparr> ks_count = Option.bind (ki_count k) (\<lambda>v. v), ks_age = Option.bind (ki_age k) (\<lambda>v. v) \<rparr>
                 in Inr (Some \<lparr> kp_completed = Some policy, kp_failed = Some policy,
                                kp_cancelled = Some policy, kp_flat = None \<rparr>))))"

definition normalizeDedupe :: "('d \<Rightarrow> int) \<Rightarrow> 'd dedupe_input option \<Rightarrow> dedupe_policy option pure" where
  "normalizeDedupe toMillis input =
     (case input of
        None \<Rightarrow> Inr None
      | Some d \<Rightarrow>
          (let config = (case d of
                           DedupeKey key \<Rightarrow> \<lparr> dc_key = key, dc_ttl = None, dc_extend = None, dc_replace = None \<rparr>
                         | DedupeConfig c \<Rightarrow> c)
           in if dc_key config = '''' then Inl (Thrown ''effect-mq: dedupe `key` must be non-empty'')
              else if dc_extend config = Some True \<and> dc_ttl config = None
              then Inl (Thrown ''effect-mq: dedupe `extend` requires a `ttl`'')
              else Inr (Some \<lparr> dp_key = dc_key config, dp_ttlMs = map_option toMillis (dc_ttl config),
                               dp_extend = (dc_extend config = Some True),
                               dp_replace = (dc_replace config = Some True) \<rparr>)))"

section \<open>Options and the job definition\<close>

record 'd job_options =
  jo_delay :: "'d option"
  jo_priority :: "int option"
  jo_attempts :: "int option"
  jo_backoff :: "'d backoff_input option"
  jo_keep :: "'d keep_input option"
  jo_timeout :: "'d option"

record ('d, 'i) enqueue_options = "'d job_options" +
  eo_at :: "'i option"
  eo_jobId :: "string option"
  eo_queue :: "string option"
  eo_metadata :: metadata
  eo_dedupe :: "'d dedupe_input option"

record ('d, 'i) enqueue_many_options = "'d job_options" +
  em_at :: "'i option"
  em_queue :: "string option"
  em_metadata :: metadata

record ('d, 'f) schedule_options =
  so_cron :: "string option"
  so_tz :: "string option"
  so_every :: "'d option"
  so_payload :: 'f
  so_metadata :: metadata
  so_priority :: "int option"
  so_attempts :: "int option"
  so_backoff :: "'d backoff_input option"
  so_keep :: "'d keep_input option"
  so_timeout :: "'d option"
  so_group :: "string option"

record resolved_defaults =
  rd_delayMs :: int
  rd_priority :: int
  rd_attempts :: int
  rd_backoff :: "backoff_policy option"
  rd_keep :: "keep_policy option"
  rd_timeoutMs :: "int option"

definition resolveDefaults :: "('d \<Rightarrow> int) \<Rightarrow> 'd job_options option \<Rightarrow> resolved_defaults pure" where
  "resolveDefaults toMillis defaults =
     bindP (normalizeKeep toMillis (Option.bind defaults jo_keep)) (\<lambda>keep.
       Inr \<lparr> rd_delayMs = millisOr toMillis 0 (Option.bind defaults jo_delay),
             rd_priority = orElse (Option.bind defaults jo_priority) 0,
             rd_attempts = max 1 (orElse (Option.bind defaults jo_attempts) 1),
             rd_backoff = normalizeBackoff toMillis (Option.bind defaults jo_backoff),
             rd_keep = keep,
             rd_timeoutMs = map_option toMillis (Option.bind defaults jo_timeout) \<rparr>)"

text \<open>
  A definition over inputs \<open>'f\<close> of the payload schema, payloads \<open>'p\<close>, values \<open>'v\<close> and causes \<open>'c\<close>.
  \<open>jb_makePayload\<close> is \<open>payloadSchema.make\<close>, \<open>jb_encode\<close> and \<open>jb_decodeExit\<close> are the JSON codecs.
\<close>

record ('f, 'p, 'v, 'c, 'd) job_def =
  jb_tag :: string
  jb_queue :: queue_name
  jb_store :: string
  jb_makePayload :: "'f \<Rightarrow> 'p option"
  jb_encode :: "'p \<Rightarrow> json option"
  jb_decodeExit :: "json \<Rightarrow> ('v, 'c) exit option"
  jb_idempotencyKey :: "('p \<Rightarrow> string) option"
  jb_dedupe :: "('p \<Rightarrow> 'd dedupe_input) option"
  jb_metadata :: "('p \<Rightarrow> metadata) option"
  jb_defaults :: resolved_defaults

section \<open>Enqueueing\<close>

text \<open>\<open>{...a, ...b}\<close>: the fields of \<open>b\<close> win.\<close>

definition spread :: "metadata \<Rightarrow> metadata \<Rightarrow> metadata" where
  "spread a b = fold (\<lambda>(k, v). mapSet k v) b (fold (\<lambda>(k, v). mapSet k v) a [])"

definition metadataOf :: "('f, 'p, 'v, 'c, 'd) job_def \<Rightarrow> 'p \<Rightarrow> metadata \<Rightarrow> metadata" where
  "metadataOf self payload extra =
     spread (case jb_metadata self of None \<Rightarrow> [] | Some f \<Rightarrow> f payload) extra"

definition keyedId :: "('f, 'p, 'v, 'c, 'd) job_def \<Rightarrow> 'p \<Rightarrow> job_id option" where
  "keyedId self payload = map_option (\<lambda>key. jb_tag self @ CHR ''/'' # key payload) (jb_idempotencyKey self)"

definition delayAndAt :: string where
  "delayAndAt = ''effect-mq: set either `delay` or `at`, not both''"

text \<open>The delay of a call: an absolute instant against the clock, a relative delay, or the default.\<close>

definition resolveDelay ::
  "('d, 'i) time_lib \<Rightarrow> resolved_defaults \<Rightarrow> millis \<Rightarrow> 'i option \<Rightarrow> 'd option \<Rightarrow> int pure" where
  "resolveDelay lib defaults now instant delay =
     (case instant of
        Some i \<Rightarrow> bindP (needed BadInstant (tl_epoch lib i)) (\<lambda>t. Inr (max 0 (t - now)))
      | None \<Rightarrow> Inr (millisOr (tl_millis lib) (rd_delayMs defaults) delay))"

type_synonym span = "(string \<times> string \<times> bool) option"

definition traceOf :: "span \<Rightarrow> bool \<Rightarrow> trace_context option" where
  "traceOf sp delayed =
     map_option (\<lambda>(t, s, sampled). \<lparr> tr_traceId = t, tr_spanId = s, tr_sampled = sampled, tr_delayed = delayed \<rparr>) sp"

definition keepOr :: "('d \<Rightarrow> int) \<Rightarrow> 'd keep_input option \<Rightarrow> keep_policy option \<Rightarrow> keep_policy option pure" where
  "keepOr toMillis input fallback = (case input of None \<Rightarrow> Inr fallback | Some _ \<Rightarrow> normalizeKeep toMillis input)"

definition backoffOr ::
  "('d \<Rightarrow> int) \<Rightarrow> 'd backoff_input option \<Rightarrow> backoff_policy option \<Rightarrow> backoff_policy option" where
  "backoffOr toMillis input fallback = (case input of None \<Rightarrow> fallback | Some _ \<Rightarrow> normalizeBackoff toMillis input)"

definition timeoutOr :: "('d \<Rightarrow> int) \<Rightarrow> 'd option \<Rightarrow> int option \<Rightarrow> int option" where
  "timeoutOr toMillis input fallback = (case input of None \<Rightarrow> fallback | Some d \<Rightarrow> Some (toMillis d))"

definition enqueueRequest ::
  "('d, 'i) time_lib \<Rightarrow> ('f, 'p, 'v, 'c, 'd) job_def \<Rightarrow> span \<Rightarrow> millis \<Rightarrow> 'f
    \<Rightarrow> ('d, 'i) enqueue_options \<Rightarrow> enqueue_request pure" where
  "enqueueRequest lib self sp now form options =
     bindP (needed BadPayload (jb_makePayload self form)) (\<lambda>payload.
     bindP (normalizeDedupe (tl_millis lib)
              (case eo_dedupe options of
                 Some d \<Rightarrow> Some d
               | None \<Rightarrow> map_option (\<lambda>f. f payload) (jb_dedupe self))) (\<lambda>dedupe.
     if eo_at options \<noteq> None \<and> jo_delay options \<noteq> None then Inl (Thrown delayAndAt)
     else
     bindP (needed BadPayload (jb_encode self payload)) (\<lambda>encoded.
     bindP (resolveDelay lib (jb_defaults self) now (eo_at options) (jo_delay options)) (\<lambda>delayMs.
     bindP (keepOr (tl_millis lib) (jo_keep options) (rd_keep (jb_defaults self))) (\<lambda>keep.
       Inr \<lparr> rq_id = (case eo_jobId options of Some i \<Rightarrow> Some i | None \<Rightarrow> keyedId self payload),
             rq_name = jb_tag self,
             rq_queue = orElse (eo_queue options) (jb_queue self),
             rq_payload = encoded,
             rq_metadata = metadataOf self payload (eo_metadata options),
             rq_priority = orElse (jo_priority options) (rd_priority (jb_defaults self)),
             rq_attemptsMax = max 1 (orElse (jo_attempts options) (rd_attempts (jb_defaults self))),
             rq_backoff = backoffOr (tl_millis lib) (jo_backoff options) (rd_backoff (jb_defaults self)),
             rq_keep = keep,
             rq_timeoutMs = timeoutOr (tl_millis lib) (jo_timeout options) (rd_timeoutMs (jb_defaults self)),
             rq_dedupe = dedupe,
             rq_trace = traceOf sp (delayMs > 0),
             rq_parent = None,
             rq_delayMs = delayMs \<rparr>)))))"

definition enqueue ::
  "('d, 'i) time_lib \<Rightarrow> ('f, 'p, 'v, 'c, 'd) job_def \<Rightarrow> 'w service \<Rightarrow> span \<Rightarrow> ('w \<Rightarrow> millis) \<Rightarrow> 'f
    \<Rightarrow> ('d, 'i) enqueue_options \<Rightarrow> ('w, job_id) api" where
  "enqueue lib self store sp clock form options w =
     (case enqueueRequest lib self sp (clock w) form options of
        Inl d \<Rightarrow> (Died d, w)
      | Inr request \<Rightarrow> bindA (orDie (sv_enqueue store request)) (\<lambda>r w'. (Returned (er_id r), w')) w)"

text \<open>All payloads are made and encoded before the requests are built, one delay for the batch.\<close>

definition enqueueManyRequest ::
  "('d, 'i) time_lib \<Rightarrow> ('f, 'p, 'v, 'c, 'd) job_def \<Rightarrow> span \<Rightarrow> ('d, 'i) enqueue_many_options \<Rightarrow> int
    \<Rightarrow> 'p \<times> json \<Rightarrow> enqueue_request pure" where
  "enqueueManyRequest lib self sp options delayMs item =
     (case item of (payload, encoded) \<Rightarrow>
     bindP (keepOr (tl_millis lib) (jo_keep options) (rd_keep (jb_defaults self))) (\<lambda>keep.
     bindP (normalizeDedupe (tl_millis lib) (map_option (\<lambda>f. f payload) (jb_dedupe self))) (\<lambda>dedupe.
       Inr \<lparr> rq_id = keyedId self payload,
             rq_name = jb_tag self,
             rq_queue = orElse (em_queue options) (jb_queue self),
             rq_payload = encoded,
             rq_metadata = metadataOf self payload (em_metadata options),
             rq_priority = orElse (jo_priority options) (rd_priority (jb_defaults self)),
             rq_attemptsMax = max 1 (orElse (jo_attempts options) (rd_attempts (jb_defaults self))),
             rq_backoff = backoffOr (tl_millis lib) (jo_backoff options) (rd_backoff (jb_defaults self)),
             rq_keep = keep,
             rq_timeoutMs = timeoutOr (tl_millis lib) (jo_timeout options) (rd_timeoutMs (jb_defaults self)),
             rq_dedupe = dedupe,
             rq_trace = traceOf sp (delayMs > 0),
             rq_parent = None,
             rq_delayMs = delayMs \<rparr>)))"

definition encodeAll :: "('f, 'p, 'v, 'c, 'd) job_def \<Rightarrow> 'f list \<Rightarrow> ('p \<times> json) list pure" where
  "encodeAll self payloads = traverse (\<lambda>form.
     bindP (needed BadPayload (jb_makePayload self form)) (\<lambda>payload.
     bindP (needed BadPayload (jb_encode self payload)) (\<lambda>encoded. Inr (payload, encoded)))) payloads"

definition enqueueManyRequests ::
  "('d, 'i) time_lib \<Rightarrow> ('f, 'p, 'v, 'c, 'd) job_def \<Rightarrow> span \<Rightarrow> millis \<Rightarrow> 'f list
    \<Rightarrow> ('d, 'i) enqueue_many_options \<Rightarrow> enqueue_request list pure" where
  "enqueueManyRequests lib self sp now payloads options =
     (if em_at options \<noteq> None \<and> jo_delay options \<noteq> None then Inl (Thrown delayAndAt)
      else
      bindP (encodeAll self payloads) (\<lambda>items.
      bindP (resolveDelay lib (jb_defaults self) now (em_at options) (jo_delay options)) (\<lambda>delayMs.
        traverse (enqueueManyRequest lib self sp options delayMs) items)))"

definition enqueueBatch ::
  "('d, 'i) time_lib \<Rightarrow> ('f, 'p, 'v, 'c, 'd) job_def \<Rightarrow> 'w service \<Rightarrow> span \<Rightarrow> ('w \<Rightarrow> millis) \<Rightarrow> 'f list
    \<Rightarrow> ('d, 'i) enqueue_many_options \<Rightarrow> ('w, job_id list) api" where
  "enqueueBatch lib self store sp clock payloads options w =
     (case enqueueManyRequests lib self sp (clock w) payloads options of
        Inl d \<Rightarrow> (Died d, w)
      | Inr requests \<Rightarrow>
          bindA (orDie (sv_enqueueMany store requests)) (\<lambda>rs w'. (Returned (map er_id rs), w')) w)"

section \<open>Reading a job back\<close>

record ('v, 'c) job_status =
  st_state :: job_state
  st_attemptsMade :: int
  st_metadata :: metadata
  st_exit :: "('v, 'c) exit option"
  st_failedReason :: "string option"

record ('v, 'c) job_attempt =
  ja_attempt :: nat
  ja_startedAt :: "millis option"
  ja_finishedAt :: millis
  ja_outcome :: attempt_outcome
  ja_exit :: "('v, 'c) exit option"

definition decodeStored :: "('f, 'p, 'v, 'c, 'd) job_def \<Rightarrow> json option \<Rightarrow> ('v, 'c) exit option pure" where
  "decodeStored self stored =
     (case stored of
        None \<Rightarrow> Inr None
      | Some j \<Rightarrow> bindP (needed BadExit (jb_decodeExit self j)) (\<lambda>ex. Inr (Some ex)))"

definition lift :: "'a pure \<Rightarrow> ('w, 'a) api" where
  "lift x w = (case x of Inl d \<Rightarrow> (Died d, w) | Inr a \<Rightarrow> (Returned a, w))"

definition statusFrom :: "('f, 'p, 'v, 'c, 'd) job_def \<Rightarrow> job_record \<Rightarrow> ('v, 'c) job_status pure" where
  "statusFrom self record =
     bindP (decodeStored self (j_exit record)) (\<lambda>ex.
       Inr \<lparr> st_state = j_state record, st_attemptsMade = j_attemptsMade record,
             st_metadata = j_metadata record, st_exit = ex, st_failedReason = j_failedReason record \<rparr>)"

definition poll :: "('f, 'p, 'v, 'c, 'd) job_def \<Rightarrow> 'w service \<Rightarrow> job_id \<Rightarrow> ('w, ('v, 'c) job_status option) api" where
  "poll self store i =
     bindA (orDie (sv_getJob store i)) (\<lambda>found.
       case found of
         None \<Rightarrow> lift (Inr None)
       | Some record \<Rightarrow> lift (bindP (statusFrom self record) (\<lambda>s. Inr (Some s))))"

definition attemptFrom :: "('f, 'p, 'v, 'c, 'd) job_def \<Rightarrow> attempt_record \<Rightarrow> ('v, 'c) job_attempt pure" where
  "attemptFrom self a =
     bindP (decodeStored self (at_exit a)) (\<lambda>ex.
       Inr \<lparr> ja_attempt = at_attempt a, ja_startedAt = at_startedAt a, ja_finishedAt = at_finishedAt a,
             ja_outcome = at_outcome a, ja_exit = ex \<rparr>)"

definition attempts :: "('f, 'p, 'v, 'c, 'd) job_def \<Rightarrow> 'w service \<Rightarrow> job_id \<Rightarrow> ('w, ('v, 'c) job_attempt list) api" where
  "attempts self store i =
     bindA (orDie (sv_getAttempts store i)) (\<lambda>ledger. lift (traverse (attemptFrom self) ledger))"

text \<open>
  What one poll decides: the exit of the job, or \<open>None\<close> to go on waiting.
\<close>

definition judge :: "job_id \<Rightarrow> ('v, 'c) job_status option \<Rightarrow> ('v, 'c) exit option pure" where
  "judge i status =
     (case status of
        None \<Rightarrow> Inl (JobVanished i)
      | Some s \<Rightarrow>
          if st_state s = Cancelled then Inl (JobWasCancelled i)
          else if st_state s = Completed \<or> st_state s = Failed then
            (case st_exit s of Some ex \<Rightarrow> Inr (Some ex) | None \<Rightarrow> Inl (NoResult i (st_failedReason s)))
          else Inr None)"

text \<open>
  \<open>awaitResult\<close> polls for ever, so it takes fuel, one unit a poll; the outer \<open>None\<close> is a call that
  has not returned yet. \<open>sleeps n\<close> says whether the poll schedule has an \<open>n\<close>-th sleep.
\<close>

fun awaitResult ::
  "('f, 'p, 'v, 'c, 'd) job_def \<Rightarrow> 'w service \<Rightarrow> (nat \<Rightarrow> bool) \<Rightarrow> job_id \<Rightarrow> nat \<Rightarrow> nat \<Rightarrow> 'w
    \<Rightarrow> ('v, 'c) exit outcome option \<times> 'w" where
  "awaitResult self store sleeps i 0 n w = (None, w)"
| "awaitResult self store sleeps i (Suc fuel) n w =
     (case bindA (poll self store i) (\<lambda>status. lift (judge i status)) w of
        (Returned None, w') \<Rightarrow>
          if sleeps n then awaitResult self store sleeps i fuel (Suc n) w'
          else (Some (Died (ScheduleExhausted (jb_tag self))), w')
      | (Returned (Some ex), w') \<Rightarrow> (Some (Returned ex), w')
      | (Failing e, w') \<Rightarrow> (Some (Failing e), w')
      | (Died d, w') \<Rightarrow> (Some (Died d), w'))"

definition execute ::
  "('d, 'i) time_lib \<Rightarrow> ('f, 'p, 'v, 'c, 'd) job_def \<Rightarrow> 'w service \<Rightarrow> span \<Rightarrow> ('w \<Rightarrow> millis) \<Rightarrow> (nat \<Rightarrow> bool)
    \<Rightarrow> nat \<Rightarrow> 'f \<Rightarrow> ('d, 'i) enqueue_options \<Rightarrow> 'w \<Rightarrow> ('v, 'c) exit outcome option \<times> 'w" where
  "execute lib self store sp clock sleeps fuel form options w =
     (case enqueue lib self store sp clock form options w of
        (Returned i, w') \<Rightarrow> awaitResult self store sleeps i fuel 0 w'
      | (Failing e, w') \<Rightarrow> (Some (Failing e), w')
      | (Died d, w') \<Rightarrow> (Some (Died d), w'))"

section \<open>Administration and schedules\<close>

definition retryJob :: "'w service \<Rightarrow> job_id \<Rightarrow> ('w, unit) api" where
  "retryJob store i = dieOnStoreError (sv_retry store i)"

definition cancelJobById :: "'w service \<Rightarrow> job_id \<Rightarrow> ('w, unit) api" where
  "cancelJobById store i = dieOnStoreError (sv_cancel store i)"

definition cancelByKey :: "('f, 'p, 'v, 'c, 'd) job_def \<Rightarrow> 'w service \<Rightarrow> string \<Rightarrow> ('w, bool) api" where
  "cancelByKey self store key = dieOnStoreError (sv_cancelByDedupe store (jb_tag self) key)"

definition promoteById :: "'w service \<Rightarrow> job_id \<Rightarrow> ('w, unit) api" where
  "promoteById store i = dieOnStoreError (sv_promote store i)"

definition scheduleKeyOf :: "('f, 'p, 'v, 'c, 'd) job_def \<Rightarrow> string \<Rightarrow> schedule_key" where
  "scheduleKeyOf self key = jb_tag self @ CHR ''/'' # key"

definition oneCadence :: "string \<Rightarrow> string" where
  "oneCadence key = ''effect-mq: schedule '' @ [CHR 0x22] @ key @ [CHR 0x22] @ '' must set exactly one of `cron` or `every`''"

definition badCron :: "string \<Rightarrow> string" where
  "badCron key = ''effect-mq: schedule '' @ [CHR 0x22] @ key @ [CHR 0x22] @ '' has an invalid cron expression''"

definition scheduleRecordOf ::
  "('d \<Rightarrow> int) \<Rightarrow> 'x cron_lib \<Rightarrow> ('f, 'p, 'v, 'c, 'd) job_def \<Rightarrow> millis \<Rightarrow> string
    \<Rightarrow> ('d, 'f) schedule_options \<Rightarrow> schedule_record pure" where
  "scheduleRecordOf toMillis lib self now key options =
     (if (so_cron options \<noteq> None) = (so_every options \<noteq> None) then Inl (Thrown (oneCadence key))
      else
        (let everyMs = map_option toMillis (so_every options)
         in case nextOccurrence (cr_parse lib) (cr_next lib) (so_cron options) (so_tz options) everyMs now now of
              None \<Rightarrow> Inl (Thrown (badCron key))
            | Some nextRunAt \<Rightarrow>
                bindP (needed BadPayload (jb_makePayload self (so_payload options))) (\<lambda>payload.
                bindP (needed BadPayload (jb_encode self payload)) (\<lambda>encoded.
                bindP (keepOr toMillis (so_keep options) (rd_keep (jb_defaults self))) (\<lambda>keep.
                  Inr \<lparr> sc_key = scheduleKeyOf self key,
                        sc_jobName = jb_tag self,
                        sc_queue = jb_queue self,
                        sc_cron = so_cron options,
                        sc_tz = so_tz options,
                        sc_everyMs = everyMs,
                        sc_payload = encoded,
                        sc_metadata = metadataOf self payload (so_metadata options),
                        sc_priority = orElse (so_priority options) (rd_priority (jb_defaults self)),
                        sc_attemptsMax = max 1 (orElse (so_attempts options) (rd_attempts (jb_defaults self))),
                        sc_backoff = backoffOr toMillis (so_backoff options) (rd_backoff (jb_defaults self)),
                        sc_keep = keep,
                        sc_timeoutMs = timeoutOr toMillis (so_timeout options) (rd_timeoutMs (jb_defaults self)),
                        sc_group = so_group options,
                        sc_nextRunAt = nextRunAt \<rparr>)))))"

definition schedule ::
  "('d \<Rightarrow> int) \<Rightarrow> 'x cron_lib \<Rightarrow> ('f, 'p, 'v, 'c, 'd) job_def \<Rightarrow> 'w service \<Rightarrow> ('w \<Rightarrow> millis) \<Rightarrow> string
    \<Rightarrow> ('d, 'f) schedule_options \<Rightarrow> ('w, schedule_key) api" where
  "schedule toMillis lib self store clock key options w =
     (case scheduleRecordOf toMillis lib self (clock w) key options of
        Inl d \<Rightarrow> (Died d, w)
      | Inr sc \<Rightarrow> bindA (orDie (sv_upsertSchedule store sc)) (\<lambda>_ w'. (Returned (sc_key sc), w')) w)"

definition unschedule :: "('f, 'p, 'v, 'c, 'd) job_def \<Rightarrow> 'w service \<Rightarrow> string \<Rightarrow> ('w, bool) api" where
  "unschedule self store key = orDie (sv_removeSchedule store (scheduleKeyOf self key))"

end
