(* ===== verification/FlowApi.thy ===== *)
theory FlowApi
  imports JobApi
begin

text \<open>
  Flows, \<open>packages/effect-mq/src/Flow.ts\<close>: the deterministic ids of children, the definition that
  \<open>make\<close> checks, \<open>buildSpecs\<close>, which turns the groups a fan-out handler produced into the persisted
  manifest, the accessors over the dependency rows (\<open>decodeRow\<close>, \<open>makeResults\<close>, \<open>childResults\<close>), and
  the descriptor that \<open>toLayer\<close> registers with the worker. All member definitions share the type
  parameters of one \<open>job_def\<close>, which stand for the unions of their payloads, values and causes.
\<close>

section \<open>Children\<close>

definition childJobId :: "string \<Rightarrow> string \<Rightarrow> string \<Rightarrow> string" where
  "childJobId parentStoreKey flowId childKey =
     ''flow/'' @ natToString (length parentStoreKey) @ CHR ''.'' # natToString (length flowId)
       @ CHR ''/'' # parentStoreKey @ CHR ''/'' # flowId @ CHR ''/'' # childKey"

record 'd child_options = "'d job_options" +
  ch_metadata :: metadata

record ('d, 'f) child_item =
  ci_key :: string
  ci_payload :: 'f
  ci_options :: "'d child_options"

record ('d, 'f) child_group =
  cg_job :: string
  cg_items :: "('d, 'f) child_item list"

datatype ('d, 'f) children_input = OneGroup "('d, 'f) child_group" | Groups "('d, 'f) child_group list"

fun groupsOf :: "('d, 'f) children_input \<Rightarrow> ('d, 'f) child_group list" where
  "groupsOf (OneGroup g) = [g]"
| "groupsOf (Groups gs) = gs"

section \<open>The definition\<close>

record ('f, 'p, 'v, 'c, 'd) flow_def =
  fw_name :: string
  fw_parent :: "('f, 'p, 'v, 'c, 'd) job_def"
  fw_children :: "('f, 'p, 'v, 'c, 'd) job_def list"
  fw_byName :: "(string, ('f, 'p, 'v, 'c, 'd) job_def) jsmap"
  fw_failFast :: bool

datatype flow_error = DeclaredTwice string | ParentAmongChildren string

fun membersByName ::
  "('f, 'p, 'v, 'c, 'd) job_def list \<Rightarrow> (string, ('f, 'p, 'v, 'c, 'd) job_def) jsmap
    \<Rightarrow> flow_error + (string, ('f, 'p, 'v, 'c, 'd) job_def) jsmap" where
  "membersByName [] byName = Inr byName"
| "membersByName (child # children) byName =
     (if mapHas byName (jb_tag child) then Inl (DeclaredTwice (jb_tag child))
      else membersByName children (mapSet (jb_tag child) child byName))"

datatype child_failure = FailOnChildFailure | ContinueOnChildFailure

definition makeFlow ::
  "string \<Rightarrow> ('f, 'p, 'v, 'c, 'd) job_def \<Rightarrow> ('f, 'p, 'v, 'c, 'd) job_def list \<Rightarrow> child_failure option
    \<Rightarrow> flow_error + ('f, 'p, 'v, 'c, 'd) flow_def" where
  "makeFlow name parent children onChildFailure =
     (case membersByName children [] of
        Inl e \<Rightarrow> Inl e
      | Inr byName \<Rightarrow>
          if mapHas byName (jb_tag parent) then Inl (ParentAmongChildren (jb_tag parent))
          else Inr \<lparr> fw_name = name, fw_parent = parent, fw_children = children, fw_byName = byName,
                     fw_failFast = (onChildFailure = Some FailOnChildFailure) \<rparr>)"

section \<open>The manifest\<close>

text \<open>
  Why a fan-out dies: a definition bug that is marked unrecoverable, or a defect of the code that reads
  the options, which is not.
\<close>

datatype flow_bug =
    TooDeep
  | NotDeclared string
  | EmptyKey
  | DuplicateKey string
  | InvalidPayload string
  | UnencodablePayload string

datatype flow_failure = Unrecoverable flow_bug | Defective defect

definition maxDepth :: nat where
  "maxDepth = 8"

definition childRequest ::
  "('d \<Rightarrow> int) \<Rightarrow> ('f, 'p, 'v, 'c, 'd) flow_def \<Rightarrow> job_context \<Rightarrow> nat \<Rightarrow> span
    \<Rightarrow> ('f, 'p, 'v, 'c, 'd) job_def \<Rightarrow> ('d, 'f) child_item \<Rightarrow> 'p \<Rightarrow> json \<Rightarrow> enqueue_request pure" where
  "childRequest toMillis flow context depth sp member item payload encoded =
     bindP (keepOr toMillis (jo_keep (ci_options item)) (rd_keep (jb_defaults member))) (\<lambda>keep.
       Inr \<lparr> rq_id = Some (childJobId (jb_store (fw_parent flow)) (jc_jobId context) (ci_key item)),
             rq_name = jb_tag member,
             rq_queue = jb_queue member,
             rq_payload = encoded,
             rq_metadata = metadataOf member payload (ch_metadata (ci_options item)),
             rq_priority = orElse (jo_priority (ci_options item)) (rd_priority (jb_defaults member)),
             rq_attemptsMax = max 1 (orElse (jo_attempts (ci_options item)) (rd_attempts (jb_defaults member))),
             rq_backoff = backoffOr toMillis (jo_backoff (ci_options item)) (rd_backoff (jb_defaults member)),
             rq_keep = keep,
             rq_timeoutMs = timeoutOr toMillis (jo_timeout (ci_options item)) (rd_timeoutMs (jb_defaults member)),
             rq_dedupe = None,
             rq_trace = traceOf sp False,
             rq_parent = Some \<lparr> pe_flowName = fw_name flow, pe_flowId = jc_jobId context,
               pe_childKey = ci_key item, pe_parentStoreKey = jb_store (fw_parent flow), pe_depth = depth \<rparr>,
             rq_delayMs = 0 \<rparr>)"

definition buildItem ::
  "('d \<Rightarrow> int) \<Rightarrow> ('f, 'p, 'v, 'c, 'd) flow_def \<Rightarrow> job_context \<Rightarrow> nat \<Rightarrow> span
    \<Rightarrow> ('f, 'p, 'v, 'c, 'd) job_def \<Rightarrow> string list \<Rightarrow> ('d, 'f) child_item \<Rightarrow> flow_failure + flow_child_spec" where
  "buildItem toMillis flow context depth sp member seen item =
     (if ci_key item = '''' then Inl (Unrecoverable EmptyKey)
      else if ci_key item \<in> set seen then Inl (Unrecoverable (DuplicateKey (ci_key item)))
      else
        (case jb_makePayload member (ci_payload item) of
           None \<Rightarrow> Inl (Unrecoverable (InvalidPayload (ci_key item)))
         | Some payload \<Rightarrow>
             (case jb_encode member payload of
                None \<Rightarrow> Inl (Unrecoverable (UnencodablePayload (ci_key item)))
              | Some encoded \<Rightarrow>
                  (case childRequest toMillis flow context depth sp member item payload encoded of
                     Inl d \<Rightarrow> Inl (Defective d)
                   | Inr request \<Rightarrow>
                       Inr \<lparr> cs_childKey = ci_key item, cs_storeKey = jb_store member, cs_request = request \<rparr>))))"

fun buildItems ::
  "('d \<Rightarrow> int) \<Rightarrow> ('f, 'p, 'v, 'c, 'd) flow_def \<Rightarrow> job_context \<Rightarrow> nat \<Rightarrow> span
    \<Rightarrow> ('f, 'p, 'v, 'c, 'd) job_def \<Rightarrow> ('d, 'f) child_item list \<Rightarrow> string list \<times> flow_child_spec list
    \<Rightarrow> flow_failure + (string list \<times> flow_child_spec list)" where
  "buildItems toMillis flow context depth sp member [] acc = Inr acc"
| "buildItems toMillis flow context depth sp member (item # items) (seen, specs) =
     (case buildItem toMillis flow context depth sp member seen item of
        Inl e \<Rightarrow> Inl e
      | Inr spec \<Rightarrow>
          buildItems toMillis flow context depth sp member items (ci_key item # seen, specs @ [spec]))"

fun buildGroups ::
  "('d \<Rightarrow> int) \<Rightarrow> ('f, 'p, 'v, 'c, 'd) flow_def \<Rightarrow> job_context \<Rightarrow> nat \<Rightarrow> span
    \<Rightarrow> ('d, 'f) child_group list \<Rightarrow> string list \<times> flow_child_spec list
    \<Rightarrow> flow_failure + (string list \<times> flow_child_spec list)" where
  "buildGroups toMillis flow context depth sp [] acc = Inr acc"
| "buildGroups toMillis flow context depth sp (grp # groups) acc =
     (case mapGet (fw_byName flow) (cg_job grp) of
        None \<Rightarrow> Inl (Unrecoverable (NotDeclared (cg_job grp)))
      | Some member \<Rightarrow>
          (case buildItems toMillis flow context depth sp member (cg_items grp) acc of
             Inl e \<Rightarrow> Inl e
           | Inr acc' \<Rightarrow> buildGroups toMillis flow context depth sp groups acc'))"

definition buildSpecs ::
  "('d \<Rightarrow> int) \<Rightarrow> ('f, 'p, 'v, 'c, 'd) flow_def \<Rightarrow> span \<Rightarrow> ('d, 'f) children_input \<Rightarrow> job_context \<Rightarrow> nat
    \<Rightarrow> flow_failure + flow_child_spec list" where
  "buildSpecs toMillis flow sp input context parentDepth =
     (let depth = parentDepth + 1
      in if depth > maxDepth then Inl (Unrecoverable TooDeep)
         else
           (case buildGroups toMillis flow context depth sp (groupsOf input) ([], []) of
              Inl e \<Rightarrow> Inl e
            | Inr (_, specs) \<Rightarrow> Inr specs))"

section \<open>The results of a flow\<close>

datatype ('v, 'c) settled_child =
    CompletedChild string string 'v
  | FailedChild string string 'c
  | CancelledChild string string

definition childWithoutResult :: "string \<Rightarrow> string" where
  "childWithoutResult key = ''effect-mq: flow child '' @ [CHR 0x22] @ key @ [CHR 0x22] @ '' failed without a result''"

definition noMember :: "string \<Rightarrow> string \<Rightarrow> string" where
  "noMember flowName child = ''effect-mq: flow '' @ [CHR 0x22] @ flowName @ [CHR 0x22]
     @ '' has no member definition for child '' @ [CHR 0x22] @ child @ [CHR 0x22]"

definition decodeRow ::
  "('c, 'e) cause_lib \<Rightarrow> ('f, 'p, 'v, 'c, 'd) flow_def \<Rightarrow> flow_child_record
    \<Rightarrow> ('v, 'c) settled_child option pure" where
  "decodeRow lib flow row =
     (if fr_status row = RPending then Inr None
      else if fr_status row = RCancelled then Inr (Some (CancelledChild (fr_childKey row) (fr_name row)))
      else
        (case fr_exit row of
           None \<Rightarrow> Inr (Some (FailedChild (fr_childKey row) (fr_name row)
                     (cl_die lib (orElse (fr_failedReason row) (childWithoutResult (fr_childKey row))))))
         | Some j \<Rightarrow>
             (case mapGet (fw_byName flow) (fr_name row) of
                None \<Rightarrow> Inr (Some (FailedChild (fr_childKey row) (fr_name row)
                          (cl_die lib (noMember (fw_name flow) (fr_name row)))))
              | Some member \<Rightarrow>
                  bindP (needed BadExit (jb_decodeExit member j)) (\<lambda>ex.
                    Inr (Some (case ex of
                                 ExitSuccess v \<Rightarrow> CompletedChild (fr_childKey row) (fr_name row) v
                               | ExitFailure c \<Rightarrow> FailedChild (fr_childKey row) (fr_name row) c))))))"

definition decodePage ::
  "('c, 'e) cause_lib \<Rightarrow> ('f, 'p, 'v, 'c, 'd) flow_def \<Rightarrow> 'w service \<Rightarrow> job_id \<Rightarrow> string option
    \<Rightarrow> ('w, ('v, 'c) settled_child list \<times> string option) api" where
  "decodePage lib flow store flowId cursor =
     bindA (orDie (sv_listChildResults store flowId cursor None)) (\<lambda>(items, next).
       lift (bindP (traverse (decodeRow lib flow) items) (\<lambda>entries.
         Inr (map the (filter (\<lambda>e. e \<noteq> None) entries), next))))"

record ('v, 'c) settled_children =
  se_completed :: "('v, 'c) settled_child list"
  se_failed :: "('v, 'c) settled_child list"
  se_cancelled :: "('v, 'c) settled_child list"

fun sortEntry :: "('v, 'c) settled_child \<Rightarrow> ('v, 'c) settled_children \<Rightarrow> ('v, 'c) settled_children" where
  "sortEntry (CompletedChild k n v) acc =
     acc\<lparr>se_completed := se_completed acc @ [CompletedChild k n v]\<rparr>"
| "sortEntry (FailedChild k n c) acc = acc\<lparr>se_failed := se_failed acc @ [FailedChild k n c]\<rparr>"
| "sortEntry (CancelledChild k n) acc = acc\<lparr>se_cancelled := se_cancelled acc @ [CancelledChild k n]\<rparr>"

text \<open>
  \<open>all\<close> pages until the store has no cursor for it, so it takes fuel, one unit a page: the outer \<open>None\<close>
  is a call that has not returned yet. \<open>stream\<close> emits the entries of the same pages in order.
\<close>

fun allFrom ::
  "('c, 'e) cause_lib \<Rightarrow> ('f, 'p, 'v, 'c, 'd) flow_def \<Rightarrow> 'w service \<Rightarrow> job_id \<Rightarrow> nat \<Rightarrow> string option
    \<Rightarrow> ('v, 'c) settled_children \<Rightarrow> 'w \<Rightarrow> ('v, 'c) settled_children outcome option \<times> 'w" where
  "allFrom lib flow store flowId 0 cursor acc w = (None, w)"
| "allFrom lib flow store flowId (Suc n) cursor acc w =
     (case decodePage lib flow store flowId cursor w of
        (Returned (entries, next), w') \<Rightarrow>
          (let acc' = fold sortEntry entries acc
           in case next of
                None \<Rightarrow> (Some (Returned acc'), w')
              | Some c \<Rightarrow> allFrom lib flow store flowId n (Some c) acc' w')
      | (Failing e, w') \<Rightarrow> (Some (Failing e), w')
      | (Died d, w') \<Rightarrow> (Some (Died d), w'))"

fun streamFrom ::
  "('c, 'e) cause_lib \<Rightarrow> ('f, 'p, 'v, 'c, 'd) flow_def \<Rightarrow> 'w service \<Rightarrow> job_id \<Rightarrow> nat \<Rightarrow> string option
    \<Rightarrow> 'w \<Rightarrow> ('v, 'c) settled_child list \<times> unit outcome option \<times> 'w" where
  "streamFrom lib flow store flowId 0 cursor w = ([], None, w)"
| "streamFrom lib flow store flowId (Suc n) cursor w =
     (case decodePage lib flow store flowId cursor w of
        (Returned (entries, next), w') \<Rightarrow>
          (case next of
             None \<Rightarrow> (entries, Some (Returned ()), w')
           | Some c \<Rightarrow> (case streamFrom lib flow store flowId n (Some c) w' of (rest, r) \<Rightarrow> (entries @ rest, r)))
      | (Failing e, w') \<Rightarrow> ([], Some (Failing e), w')
      | (Died d, w') \<Rightarrow> ([], Some (Died d), w'))"

record child_counts =
  nc_pending :: int
  nc_completed :: int
  nc_failed :: int
  nc_cancelled :: int

record ('w, 'v, 'c) child_results =
  rs_counts :: child_counts
  rs_all :: "nat \<Rightarrow> 'w \<Rightarrow> ('v, 'c) settled_children outcome option \<times> 'w"
  rs_stream :: "nat \<Rightarrow> 'w \<Rightarrow> ('v, 'c) settled_child list \<times> unit outcome option \<times> 'w"

definition nobody :: "('v, 'c) settled_children" where
  "nobody = \<lparr> se_completed = [], se_failed = [], se_cancelled = [] \<rparr>"

definition makeResults ::
  "('c, 'e) cause_lib \<Rightarrow> ('f, 'p, 'v, 'c, 'd) flow_def \<Rightarrow> 'w service \<Rightarrow> flow_state \<Rightarrow> job_id
    \<Rightarrow> ('w, 'v, 'c) child_results" where
  "makeResults lib flow store flowState flowId = \<lparr>
     rs_counts = \<lparr> nc_pending = fs_pending flowState, nc_completed = fs_completed flowState,
                   nc_failed = fs_failed flowState, nc_cancelled = fs_cancelled flowState \<rparr>,
     rs_all = (\<lambda>fuel. allFrom lib flow store flowId fuel None nobody),
     rs_stream = (\<lambda>fuel. streamFrom lib flow store flowId fuel None) \<rparr>"

definition childResults ::
  "('c, 'e) cause_lib \<Rightarrow> ('f, 'p, 'v, 'c, 'd) flow_def \<Rightarrow> 'w service \<Rightarrow> job_id
    \<Rightarrow> ('w, ('w, 'v, 'c) child_results) api" where
  "childResults lib flow store flowId =
     bindA (orDie (sv_getJob store flowId)) (\<lambda>record.
       lift (Inr (makeResults lib flow store
         (orElse (Option.bind record j_flow) (emptyFlow (fw_failFast flow))) flowId)))"

section \<open>Registration\<close>

record ('w, 'p, 'v, 'c, 'd, 'f) flow_handlers =
  fh_fanOut :: "'p \<Rightarrow> job_context \<Rightarrow> 'w \<times> worker \<Rightarrow> (('d, 'f) children_input, 'c) exit \<times> ('w \<times> worker)"
  fh_collect :: "'p \<Rightarrow> ('w, 'v, 'c) child_results \<Rightarrow> job_context \<Rightarrow> 'w \<times> worker \<Rightarrow> ('v, 'c) exit \<times> ('w \<times> worker)"

text \<open>
  \<open>asCause\<close> is the cause that a fan-out's defect becomes, and \<open>descriptor\<close> the part of the parent's
  definition that the worker sees: its codecs on the consumer's side.
\<close>

definition flowDescriptor ::
  "('d \<Rightarrow> int) \<Rightarrow> ('c, 'e) cause_lib \<Rightarrow> (flow_failure \<Rightarrow> 'c) \<Rightarrow> ('f, 'p, 'v, 'c, 'd) flow_def
    \<Rightarrow> ('p, 'v, 'c, 'e) job_descriptor \<Rightarrow> 'w service \<Rightarrow> (job_context \<Rightarrow> span)
    \<Rightarrow> ('w, 'p, 'v, 'c, 'd, 'f) flow_handlers \<Rightarrow> ('w, 'p, 'v, 'c, 'e) flow_descriptor" where
  "flowDescriptor toMillis lib asCause flow descriptor store spanOf handlers = \<lparr>
     fd_name = fw_name flow,
     fd_parent = descriptor,
     fd_failFast = fw_failFast flow,
     fd_childStores = map jb_store (fw_children flow),
     fd_fanOut = (\<lambda>payload context parentDepth st.
       case fh_fanOut handlers payload context st of
         (ExitFailure c, st') \<Rightarrow> (ExitFailure c, st')
       | (ExitSuccess produced, st') \<Rightarrow>
           (case buildSpecs toMillis flow (spanOf context) produced context parentDepth of
              Inl e \<Rightarrow> (ExitFailure (asCause e), st')
            | Inr specs \<Rightarrow> (ExitSuccess specs, st'))),
     fd_collect = (\<lambda>payload flowState context.
       fh_collect handlers payload (makeResults lib flow store flowState (jc_jobId context)) context) \<rparr>"

end
