(* ===== verification/SchedulesApi.thy ===== *)
theory SchedulesApi
  imports JobApi
begin

text \<open>
  Declared schedule groups, \<open>packages/effect-mq/src/JobSchedules.ts\<close>: \<open>schedule\<close> makes an entry of a
  group, \<open>reconcile\<close> upserts every declared entry and then looks for drift, the schedules that carry
  the group's name and are declared no more; it reports them, prunes them at once, or hands the prune
  to a fiber that runs it later. A store key is an object \<open>'k\<close> of the program: the code groups entries
  by the identity of these objects, and \<open>provided\<close> resolves them to services.
\<close>

record ('w, 'k) schedule_entry =
  sn_jobName :: string
  sn_key :: string
  sn_store :: 'k
  sn_register :: "string \<Rightarrow> ('w, schedule_key) api"

definition scheduleEntry ::
  "('d \<Rightarrow> int) \<Rightarrow> 'x cron_lib \<Rightarrow> ('f, 'p, 'v, 'c, 'd) job_def \<Rightarrow> 'k \<Rightarrow> 'w service \<Rightarrow> ('w \<Rightarrow> millis) \<Rightarrow> string
    \<Rightarrow> ('d, 'f) schedule_options \<Rightarrow> ('w, 'k) schedule_entry" where
  "scheduleEntry toMillis lib job storeKey store clock key options = \<lparr>
     sn_jobName = jb_tag job, sn_key = key, sn_store = storeKey,
     sn_register = (\<lambda>g. schedule toMillis lib job store clock key (options\<lparr>so_group := Some g\<rparr>)) \<rparr>"

datatype removal = WarnOnly | RemoveGroup

record ('w, 'k, 'd) reconcile_options =
  rc_group :: string
  rc_schedules :: "('w, 'k) schedule_entry list"
  rc_removal :: "removal option"
  rc_removeAfter :: "'d option"
  rc_stores :: "'k list"

text \<open>\<open>Effect.retry({ times: 5 })\<close> retries every error; \<open>retryFive\<close> is that with \<open>orDie\<close>.\<close>

fun retryAny :: "nat \<Rightarrow> ('w, 'a) call \<Rightarrow> ('w, 'a) call" where
  "retryAny 0 c w = c w"
| "retryAny (Suc k) c w = (case c w of (Inl _, w') \<Rightarrow> retryAny k c w' | (Inr a, w') \<Rightarrow> (Inr a, w'))"

definition retryFive :: "('w, 'a) call \<Rightarrow> ('w, 'a) api" where
  "retryFive c = orDie (retryAny 5 c)"

definition entryId :: "('w, 'k) schedule_entry \<Rightarrow> string" where
  "entryId e = sn_jobName e @ CHR ''/'' # sn_key e"

fun firstDuplicate :: "('w, 'k) schedule_entry list \<Rightarrow> string list \<Rightarrow> string option" where
  "firstDuplicate [] seen = None"
| "firstDuplicate (e # es) seen =
     (if entryId e \<in> set seen then Some (entryId e) else firstDuplicate es (entryId e # seen))"

fun registerAll ::
  "string \<Rightarrow> ('w, 'k) schedule_entry list \<Rightarrow> ('k, schedule_key list) jsmap \<Rightarrow> ('w, ('k, schedule_key list) jsmap) api" where
  "registerAll g [] byStore w = (Returned byStore, w)"
| "registerAll g (e # es) byStore w =
     bindA (sn_register e g) (\<lambda>registered.
       registerAll g es (mapSet (sn_store e)
         (let declared = orElse (mapGet byStore (sn_store e)) []
          in if registered \<in> set declared then declared else declared @ [registered]) byStore)) w"

fun removeKeys :: "'w service \<Rightarrow> schedule_key list \<Rightarrow> ('w, unit) api" where
  "removeKeys store [] w = (Returned (), w)"
| "removeKeys store (key # keys) w =
     bindA (retryFive (sv_removeSchedule store key)) (\<lambda>_. removeKeys store keys) w"

text \<open>The drift of one store: the list of undeclared members that it warns about, or removes.\<close>

definition prune ::
  "removal \<Rightarrow> string \<Rightarrow> 'w service \<Rightarrow> schedule_key list \<Rightarrow> ('w, schedule_key list) api" where
  "prune removal g store declared =
     bindA (retryFive (sv_listSchedules store None None (Some g))) (\<lambda>members.
       let undeclared = map sc_key (filter (\<lambda>m. sc_key m \<notin> set declared) members)
       in if undeclared = [] then lift (Inr [])
          else if removal = WarnOnly then lift (Inr undeclared)
          else bindA (removeKeys store undeclared) (\<lambda>_. lift (Inr undeclared)))"

fun pruneAll ::
  "removal \<Rightarrow> string \<Rightarrow> ('k \<Rightarrow> 'w service) \<Rightarrow> ('k \<times> schedule_key list) list \<Rightarrow> ('w, unit) api" where
  "pruneAll removal g provided [] w = (Returned (), w)"
| "pruneAll removal g provided ((k, declared) # rest) w =
     bindA (prune removal g (provided k) declared) (\<lambda>_. pruneAll removal g provided rest) w"

definition removeAfterNeedsGroup :: string where
  "removeAfterNeedsGroup = ''effect-mq: `removeAfter` requires `removal: group`''"

definition declaredTwice :: "string \<Rightarrow> string \<Rightarrow> string" where
  "declaredTwice i g = ''effect-mq: schedule '' @ [CHR 0x22] @ i @ [CHR 0x22]
     @ '' is declared twice in group '' @ [CHR 0x22] @ g @ [CHR 0x22]"

text \<open>\<open>reconcile\<close> returns the prunes that it forked to run after the delay.\<close>

definition reconcile ::
  "('k \<Rightarrow> 'w service) \<Rightarrow> ('w, 'k, 'd) reconcile_options \<Rightarrow> ('w, ('k \<times> schedule_key list) list) api" where
  "reconcile provided options w =
     (let removal = orElse (rc_removal options) WarnOnly
      in if rc_removeAfter options \<noteq> None \<and> removal \<noteq> RemoveGroup
         then (Died (Thrown removeAfterNeedsGroup), w)
         else
           (case firstDuplicate (rc_schedules options) [] of
              Some i \<Rightarrow> (Died (Thrown (declaredTwice i (rc_group options))), w)
            | None \<Rightarrow>
                bindA (registerAll (rc_group options) (rc_schedules options)
                         (fold (\<lambda>k m. mapSet k [] m) (rc_stores options) []))
                  (\<lambda>byStore.
                     if removal = RemoveGroup \<and> rc_removeAfter options \<noteq> None then lift (Inr byStore)
                     else bindA (pruneAll removal (rc_group options) provided byStore) (\<lambda>_. lift (Inr []))) w))"

text \<open>A forked prune: its failure is logged.\<close>

definition deferredPrune ::
  "string \<Rightarrow> ('k \<Rightarrow> 'w service) \<Rightarrow> 'k \<times> schedule_key list \<Rightarrow> 'w \<Rightarrow> 'w" where
  "deferredPrune g provided entry w = (case entry of (k, declared) \<Rightarrow> snd (prune RemoveGroup g (provided k) declared w))"

end
