(* ===== verification/WorkerSamples.thy ===== *)
theory WorkerSamples
  imports WorkerLoops FlowApi SchedulesApi Samples
begin

text \<open>
  A small concrete worker that the witnesses of the worker's properties run: causes are numbers, zero
  the interrupt-only one, and \<open>mailEntry\<close> is a handler of the jobs of \<open>Samples\<close> that ends in a given exit.
\<close>

definition plainLib :: "(nat, nat) cause_lib" where
  "plainLib = \<lparr> cl_interruptsOnly = (\<lambda>c. c = 0), cl_findError = (\<lambda>c. if c < 10 then None else Some c),
     cl_findDie = (\<lambda>c. if 0 < c \<and> c < 10 then Some c else None), cl_die = (\<lambda>_. 1), cl_marked = (\<lambda>e. e = 7) \<rparr>"

definition encodeNat :: "(nat, nat) exit \<Rightarrow> json option" where
  "encodeNat ex = (case ex of ExitSuccess v \<Rightarrow> if v = 99 then None else Some (JNum (int v))
                            | ExitFailure c \<Rightarrow> Some (JArr [JNum (int c)]))"

definition mailEntry :: "(nat, nat) exit \<Rightarrow> (world, nat, nat) handler_entry" where
  "mailEntry ex = \<lparr> he_run = (\<lambda>_ _ _ st. (ex, st)), he_encodeExit = encodeNat,
     he_unrecoverableFailure = None, he_flow = None \<rparr>"

definition someConfig :: worker_config where
  "someConfig = \<lparr> wc_lockDurationMs = 30, wc_lockRenewMs = 15, wc_stalledMs = 30, wc_scheduleSweepMs = 15,
     wc_flowSweepMs = 30, wc_maxStalledCount = 1, wc_pollMs = 5, wc_workerId = ''w'' \<rparr>"

definition mailWorker :: "link \<Rightarrow> (nat, nat) exit \<Rightarrow> (world, nat, nat, nat) runtime" where
  "mailWorker lk ex = \<lparr> rt_store = memService lk ''s'', rt_storeKey = ''s'',
     rt_storesByKey = [(''s'', memService lk ''s'')], rt_handlers = [(''mail'', mailEntry ex)],
     rt_config = someConfig, rt_lib = plainLib, rt_clock = (\<lambda>w. int (wd_step w)) \<rparr>"

definition worldOf :: "mem_store \<Rightarrow> world" where
  "worldOf s = \<lparr> wd_stores = (\<lambda>_. s), wd_step = 0 \<rparr>"

definition activeJob :: job_record where
  "activeJob = the (getJob ''j-2'' oneActive)"

lemma worldOf_sel [simp]: "wd_stores (worldOf s) k = s" "wd_step (worldOf s) = 0"
  by (simp_all add: worldOf_def)

lemma mailWorker_sel [simp]:
  "rt_store (mailWorker lk ex) = memService lk ''s''" "rt_lib (mailWorker lk ex) = plainLib"
  "mapGet (rt_handlers (mailWorker lk ex)) ''mail'' = Some (mailEntry ex)"
  by (simp_all add: mailWorker_def)

lemma activeJob_sel:
  "j_id activeJob = ''j-2''" "j_name activeJob = ''mail''" "j_flow activeJob = None"
  by code_simp+

lemma mailWorker_driven: "drivenBy lk ''s'' (mailWorker lk ex)"
  by (simp add: drivenBy_def) (simp add: mailWorker_def)

section \<open>Producers\<close>

text \<open>
  A small concrete job definition over numbers, with its codecs, its durations (milliseconds already)
  and a cron library without expressions, for the witnesses of the properties of the producer.
\<close>


definition numberDef :: "string \<Rightarrow> (nat, nat, nat, nat, int) job_def" where
  "numberDef tag = \<lparr> jb_tag = tag, jb_queue = ''q'', jb_store = ''s'',
     jb_makePayload = (\<lambda>f. if f < 100 then Some f else None),
     jb_encode = (\<lambda>p. if p = 13 then None else Some (JNum (int p))),
     jb_decodeExit = (\<lambda>j. case j of JNum n \<Rightarrow> Some (ExitSuccess (nat n)) | JArr [JNum n] \<Rightarrow> Some (ExitFailure (nat n)) | _ \<Rightarrow> None),
     jb_idempotencyKey = Some (\<lambda>p. natToString p), jb_dedupe = None, jb_metadata = None,
     jb_defaults = \<lparr> rd_delayMs = 0, rd_priority = 0, rd_attempts = 3, rd_backoff = None, rd_keep = None,
       rd_timeoutMs = None \<rparr> \<rparr>"

definition plainTime :: "(int, int) time_lib" where
  "plainTime = \<lparr> tl_millis = (\<lambda>d. d), tl_epoch = (\<lambda>i. if i < 0 then None else Some i) \<rparr>"

definition noCron :: "unit cron_lib" where
  "noCron = \<lparr> cr_parse = (\<lambda>_ _. None), cr_next = (\<lambda>_ _. None), cr_iso = intToString \<rparr>"

definition noOptions :: "(int, int) enqueue_options" where
  "noOptions = \<lparr> jo_delay = None, jo_priority = None, jo_attempts = None, jo_backoff = None, jo_keep = None,
     jo_timeout = None, eo_at = None, eo_jobId = None, eo_queue = None, eo_metadata = [], eo_dedupe = None \<rparr>"

definition everyHour :: "(int, nat) schedule_options" where
  "everyHour = \<lparr> so_cron = None, so_tz = None, so_every = Some 3600000, so_payload = 7, so_metadata = [],
     so_priority = None, so_attempts = None, so_backoff = None, so_keep = None, so_timeout = None, so_group = None \<rparr>"

end
