(* ===== verification/Lifecycle.thy ===== *)
theory Lifecycle
  imports ClaimQueue
begin

text \<open>
  The abstract specification of a job's life: an event system on the \<open>jobs\<close> map and the outbox in
  which every change is one of ten events, each with its guard. \<open>exec_refines\<close> shows that every
  operation of the in-memory store is a sequence of events its caller is permitted to cause; the
  safety properties (terminal records are final, a lock is lost only by its owner or after its
  expiry, no terminal transition of a flow child goes unreported) are then inductions over events.
\<close>

section \<open>Events\<close>

datatype event =
    Quiet
  | Drained
  | Created job_id
  | DuePromoted millis
  | Promoted job_id
  | Taken job_id string
  | Edited job_id
  | Parked job_id
  | Requeued job_id
  | Finished job_id terminal_state
  | Revived job_id
  | Pruned job_id
  | Removed job_id

definition sameIdentity :: "mem_job \<Rightarrow> mem_job \<Rightarrow> bool" where
  "sameIdentity j j' \<longleftrightarrow> j_id j' = j_id j \<and> j_name j' = j_name j \<and> j_queue j' = j_queue j
     \<and> j_parent j' = j_parent j \<and> j_dedupeKey j' = j_dedupeKey j \<and> j_enqueuedAt j' = j_enqueuedAt j"

definition changes :: "mem_store \<Rightarrow> job_id \<Rightarrow> mem_job option \<Rightarrow> mem_store \<Rightarrow> bool" where
  "changes s i x s' \<longleftrightarrow>
     (\<forall>k. mapGet (jobs s') k = (if k = i then x else mapGet (jobs s) k))"

definition reportOf :: "nat \<Rightarrow> mem_job \<Rightarrow> terminal_state \<Rightarrow> outbox_entry list" where
  "reportOf n j t =
     (case j_parent j of
        None \<Rightarrow> []
      | Some p \<Rightarrow> [\<lparr> ob_id = outboxId n, ob_flowName = pe_flowName p,
                    ob_parentStoreKey = pe_parentStoreKey p,
                    ob_report = \<lparr> rp_flowId = pe_flowId p, rp_childKey = pe_childKey p,
                                  rp_outcome = t, rp_exit = j_exit j,
                                  rp_failedReason = j_failedReason j \<rparr> \<rparr>])"

inductive life :: "mem_store \<Rightarrow> event \<Rightarrow> mem_store \<Rightarrow> bool" where
  quiet: "\<lbrakk>\<And>k. mapGet (jobs s') k = mapGet (jobs s) k; outbox s' = outbox s\<rbrakk> \<Longrightarrow> life s Quiet s'"
| drained: "\<lbrakk>jobs s' = jobs s; set (outbox s') \<subseteq> set (outbox s)\<rbrakk> \<Longrightarrow> life s Drained s'"
| created: "\<lbrakk>mapGet (jobs s) i = None; changes s i (Some j) s'; j_id j = i;
     j_state j \<in> {Waiting, Delayed}; m_lockToken j = None; m_attempts j = []; outbox s' = outbox s\<rbrakk>
     \<Longrightarrow> life s (Created i) s'"
| due_promoted: "\<lbrakk>\<And>k. mapGet (jobs s') k = map_option (promoteJob now) (mapGet (jobs s) k);
     outbox s' = outbox s\<rbrakk> \<Longrightarrow> life s (DuePromoted now) s'"
| promoted: "\<lbrakk>mapGet (jobs s) i = Some j; j_state j = Delayed; changes s i (Some j') s';
     sameIdentity j j'; j_state j' = Waiting; m_lockToken j' = None; outbox s' = outbox s\<rbrakk>
     \<Longrightarrow> life s (Promoted i) s'"
| taken: "\<lbrakk>mapGet (jobs s) i = Some j; j_state j = Waiting; changes s i (Some j') s';
     sameIdentity j j'; j_state j' = Active; m_lockToken j' = Some token; outbox s' = outbox s\<rbrakk>
     \<Longrightarrow> life s (Taken i token) s'"
| edited: "\<lbrakk>mapGet (jobs s) i = Some j; j_state j \<notin> TERMINAL_STATES; changes s i (Some j') s';
     sameIdentity j j'; j_state j' = j_state j; m_lockToken j' = m_lockToken j;
     j_cancelRequested j \<longrightarrow> j_cancelRequested j'; m_attempts j' = m_attempts j; outbox s' = outbox s\<rbrakk> \<Longrightarrow> life s (Edited i) s'"
| parked: "\<lbrakk>mapGet (jobs s) i = Some j; j_state j = Active; \<not> j_cancelRequested j; changes s i (Some j') s';
     sameIdentity j j'; j_state j' = WaitingChildren; m_lockToken j' = None; outbox s' = outbox s\<rbrakk>
     \<Longrightarrow> life s (Parked i) s'"
| requeued: "\<lbrakk>mapGet (jobs s) i = Some j; j_state j \<in> {Active, WaitingChildren};
     \<not> j_cancelRequested j; changes s i (Some j') s'; sameIdentity j j'; j_state j' \<in> {Waiting, Delayed};
     m_lockToken j' = None; outbox s' = outbox s\<rbrakk> \<Longrightarrow> life s (Requeued i) s'"
| finished: "\<lbrakk>mapGet (jobs s) i = Some j; j_state j \<notin> TERMINAL_STATES; changes s i (Some j') s';
     sameIdentity j j'; j_state j' = stateOfTerminal t; m_lockToken j' = None; j_finishedAt j' \<noteq> None;
     outbox s' = outbox s @ reportOf n j' t; outboxSeq s < n\<rbrakk> \<Longrightarrow> life s (Finished i t) s'"
| revived: "\<lbrakk>mapGet (jobs s) i = Some j; j_state j = Failed; changes s i (Some j') s';
     sameIdentity j j'; j_state j' = Waiting; m_lockToken j' = None; outbox s' = outbox s\<rbrakk>
     \<Longrightarrow> life s (Revived i) s'"
| pruned: "\<lbrakk>mapGet (jobs s) i = Some j; j_state j \<in> TERMINAL_STATES; \<not> owesCascades s i;
     changes s i None s'; outbox s' = outbox s\<rbrakk> \<Longrightarrow> life s (Pruned i) s'"
| removed: "\<lbrakk>mapGet (jobs s) i = Some j; j_state j \<notin> {Active, WaitingChildren}; changes s i None s';
     outbox s' = outbox s\<rbrakk> \<Longrightarrow> life s (Removed i) s'"

inductive trace :: "(mem_store \<Rightarrow> event \<Rightarrow> bool) \<Rightarrow> mem_store \<Rightarrow> mem_store \<Rightarrow> bool" for P where
  trace_refl: "trace P s s"
| trace_step: "life s e s' \<Longrightarrow> P s e \<Longrightarrow> trace P s' s'' \<Longrightarrow> trace P s s''"

lemma trace_one: "life s e s' \<Longrightarrow> P s e \<Longrightarrow> trace P s s'"
  by (rule trace_step [OF _ _ trace_refl])

lemma trace_trans: "trace P s s' \<Longrightarrow> trace P s' s'' \<Longrightarrow> trace P s s''"
  by (induction rule: trace.induct) (auto intro: trace_step)

lemma trace_mono: "trace P s s' \<Longrightarrow> (\<And>s e. P s e \<Longrightarrow> Q s e) \<Longrightarrow> trace Q s s'"
  by (induction rule: trace.induct) (auto intro: trace.intros)

text \<open>Changes to anything but jobs and outbox are invisible.\<close>

definition calm :: "mem_store \<Rightarrow> mem_store \<Rightarrow> bool" where
  "calm s s' \<longleftrightarrow> jobs s' = jobs s \<and> outbox s' = outbox s"

lemma life_calm: "calm s s' \<Longrightarrow> life s Quiet s'"
  by (rule quiet) (simp_all add: calm_def)

lemma trace_calm: "calm s s' \<Longrightarrow> P s Quiet \<Longrightarrow> trace P s s'"
  by (rule trace_one [OF life_calm])

lemma sameIdentity_refl [simp]: "sameIdentity j j"
  by (simp add: sameIdentity_def)

section \<open>What each operation may do\<close>

definition locked :: "mem_store \<Rightarrow> job_id \<Rightarrow> string \<Rightarrow> bool" where
  "locked s i token \<longleftrightarrow> holdsLock s i token \<noteq> None"

fun permitted :: "op \<Rightarrow> mem_store \<Rightarrow> event \<Rightarrow> bool" where
  "permitted _ s Quiet = True"
| "permitted op s Drained = (\<exists>ids. op = OpDeleteOutbox ids)"
| "permitted op s (Created i) =
     ((\<exists>now r. op = OpEnqueue now r) \<or> (\<exists>rs. op = OpEnqueueMany rs)
      \<or> (\<exists>now k a b r. op = OpTickSchedule now k a b r))"
| "permitted op s (DuePromoted now) = (\<exists>opts. op = OpClaim now opts)"
| "permitted op s (Promoted i) = (\<exists>now. op = OpPromote now i)"
| "permitted op s (Taken i token) = (\<exists>now opts. op = OpClaim now opts \<and> co_token opts = token)"
| "permitted op s (Edited i) =
     ((\<exists>now r. op = OpEnqueue now r) \<or> (\<exists>rs. op = OpEnqueueMany rs)
      \<or> (\<exists>now locks d. op = OpExtendLocks now locks d) \<or> (\<exists>now. op = OpCancel now i)
      \<or> (\<exists>now name key. op = OpCancelByDedupe now name key)
      \<or> (\<exists>now rs. op = OpRecordChildResults now rs))"
| "permitted op s (Parked i) = (\<exists>now token oc. op = OpAck now i token oc \<and> locked s i token)"
| "permitted op s (Requeued i) =
     ((\<exists>now token oc. op = OpAck now i token oc \<and> locked s i token)
      \<or> (\<exists>now token. op = OpRelease now i token \<and> locked s i token)
      \<or> (\<exists>now m. op = OpRecoverStalled now m \<and> (\<exists>j. mapGet (jobs s) i = Some j \<and> stalled now j))
      \<or> (\<exists>now rs. op = OpRecordChildResults now rs
           \<and> (\<exists>j. mapGet (jobs s) i = Some j \<and> j_state j = WaitingChildren)))"
| "permitted op s (Finished i t) =
     ((\<exists>now token oc. op = OpAck now i token oc \<and> locked s i token)
      \<or> (\<exists>now token. op = OpRelease now i token \<and> locked s i token)
      \<or> (\<exists>now m. op = OpRecoverStalled now m \<and> (\<exists>j. mapGet (jobs s) i = Some j \<and> stalled now j))
      \<or> (\<exists>now rs. op = OpRecordChildResults now rs
           \<and> (\<exists>j. mapGet (jobs s) i = Some j \<and> j_state j = WaitingChildren))
      \<or> (t = TCancelled \<and> (\<exists>now. op = OpCancel now i \<or> (\<exists>name key. op = OpCancelByDedupe now name key))
           \<and> (\<exists>j. mapGet (jobs s) i = Some j \<and> j_state j \<noteq> Active)))"
| "permitted op s (Revived i) = (\<exists>now. op = OpRetry now i)"
| "permitted op s (Pruned i) =
     ((\<exists>now k token oc. op = OpAck now k token oc) \<or> (\<exists>now k token. op = OpRelease now k token)
      \<or> (\<exists>now m. op = OpRecoverStalled now m) \<or> (\<exists>now k. op = OpCancel now k)
      \<or> (\<exists>now name key. op = OpCancelByDedupe now name key)
      \<or> (\<exists>now rs. op = OpRecordChildResults now rs) \<or> (\<exists>now ttl. op = OpSweepHistory now ttl))"
| "permitted op s (Removed i) = (op = OpRemove i)"

section \<open>Tails: retention\<close>

lemma changes_delete: "changes s i None (deleteJob i s)"
  by (simp add: changes_def mapGet_delete)

lemma changes_put: "j_id j = i \<Longrightarrow> changes s i (Some j) (putJob j s)"
  by (simp add: changes_def)

lemma changes_jobs: "changes s i x s' \<Longrightarrow> jobs s'' = jobs s' \<Longrightarrow> changes s i x s''"
  by (simp add: changes_def)

text \<open>A loop that only deletes, and only jobs that are terminal before it starts.\<close>

lemma prune_fold:
  assumes "\<And>x s. x \<in> set xs \<Longrightarrow>
      f x s = s \<or> (T x \<and> f x s = deleteJob (g x) s \<and> \<not> owesCascades s (g x))"
    and "\<And>x j. x \<in> set xs \<Longrightarrow> T x \<Longrightarrow> mapGet (jobs s) (g x) = Some j \<Longrightarrow> j_state j \<in> TERMINAL_STATES"
    and P: "\<And>s i. P s (Pruned i)" "\<And>s. P s Quiet"
  shows "trace P s (fold f xs s)"
  using assms(1,2)
proof (induction xs arbitrary: s)
  case Nil
  then show ?case by (simp add: trace_refl)
next
  case (Cons x xs)
  note step = Cons.prems(1) [of x s, simplified]
  have one: "trace P s (f x s)"
  proof (cases "f x s = s")
    case True
    then show ?thesis by (simp add: trace_refl)
  next
    case False
    with step have f: "T x" "f x s = deleteJob (g x) s" "\<not> owesCascades s (g x)" by auto
    show ?thesis
    proof (cases "mapGet (jobs s) (g x)")
      case None
      then have "life s Quiet (deleteJob (g x) s)" by (intro quiet) (simp_all add: mapGet_delete)
      with f P show ?thesis by (simp add: trace_one)
    next
      case (Some j)
      with Cons.prems(2) [of x j] f have "life s (Pruned (g x)) (deleteJob (g x) s)"
        by (intro pruned [OF Some] changes_delete) auto
      with f P show ?thesis by (simp add: trace_one)
    qed
  qed
  have earlier: "mapGet (jobs s) k = Some j" if "mapGet (jobs (f x s)) k = Some j" for k j
    using step that by (auto simp: mapGet_delete split: if_splits)
  have "trace P (f x s) (fold f xs (f x s))"
  proof (rule Cons.IH, goal_cases)
    case (1 y s)
    with Cons.prems(1) [of y s] show ?case by simp
  next
    case (2 y j)
    with Cons.prems(2) [of y j] earlier show ?case by simp
  qed
  with one show ?case by (simp add: trace_trans)
qed

definition keyed :: "(job_id, mem_job) jsmap \<Rightarrow> bool" where
  "keyed m \<longleftrightarrow> distinct (mapKeys m) \<and> (\<forall>i j. mapGet m i = Some j \<longrightarrow> j_id j = i)"

lemma wf_keyed: "wellFormed s \<Longrightarrow> keyed (jobs s)"
  by (auto simp: keyed_def wf_distinct wf_id)

lemma keyed_put: "keyed m \<Longrightarrow> keyed (mapSet (j_id j) j m)"
  by (auto simp: keyed_def)

lemma keyed_value: "keyed m \<Longrightarrow> j \<in> set (mapValues m) \<Longrightarrow> mapGet m (j_id j) = Some j"
  using mapValues_in by (fastforce simp: keyed_def)

lemma applyKeep_trace:
  assumes w: "keyed (jobs s)" and st: "j_state job \<in> TERMINAL_STATES"
    and P: "\<And>s i. P s (Pruned i)" "\<And>s. P s Quiet"
  shows "trace P s (applyKeep job now s)"
proof (cases "keepPolicyFor (j_keep job) (j_state job)")
  case None
  then show ?thesis by (simp add: applyKeep_def trace_refl)
next
  case (Some policy)
  have "trace P s (fold pruneUnlessOwing (remdups (keepRemovals policy now (keepPeers job s))) s)"
  proof (rule prune_fold [where T = "\<lambda>_. True" and g = "\<lambda>x. x", OF _ _ P], goal_cases)
    case (1 x s)
    then show ?case by (simp add: pruneUnlessOwing_def)
  next
    case (2 x j)
    then have "x \<in> j_id ` set (keepPeers job s)"
      by (auto simp: keepRemovals_def dest: in_set_dropD split: option.splits)
    then obtain peer where peer: "x = j_id peer" "peer \<in> set (mapValues (jobs s))" "j_state peer = j_state job"
      by (auto simp: keepPeers_def)
    with keyed_value [OF w peer(2)] 2(3) st show ?case by auto
  qed
  with Some show ?thesis by (simp add: applyKeep_def)
qed

section \<open>Terminal transitions as events\<close>

lemma appendOutbox_reports:
  "outbox (appendOutbox j t s) = outbox s @ reportOf (outboxSeq s + 1) j t"
  by (simp add: appendOutbox_def reportOf_def split: option.split)

lemma finish_life:
  assumes "mapGet (jobs s) i = Some j0" "j_state j0 \<notin> TERMINAL_STATES" "sameIdentity j0 j" "j_id j = i"
    and "j_state j = stateOfTerminal t" "m_lockToken j = None" "j_finishedAt j \<noteq> None"
    and "jobs s2 = jobs s" "outbox s2 = outbox s" "outboxSeq s2 = outboxSeq s"
  shows "life s (Finished i t) (releaseDedupe j now (appendOutbox j t (putJob j s2)))"
  by (rule finished [OF assms(1,2) _ assms(3,5,6,7), of _ "outboxSeq s + 1"])
    (use assms in \<open>simp_all add: changes_def appendOutbox_reports\<close>)

lemma settleMarkRows_frame [simp]:
  "jobs (snd (settleMarkRows j s)) = jobs s" "outbox (snd (settleMarkRows j s)) = outbox s"
  "outboxSeq (snd (settleMarkRows j s)) = outboxSeq s" "seqNo (snd (settleMarkRows j s)) = seqNo s"
  "dedupes (snd (settleMarkRows j s)) = dedupes s"
  by (auto simp: settleMarkRows_def markPendingRowsCancelled_def split: option.split prod.split)

lemma settleMarkRows_job:
  "\<exists>f. fst (settleMarkRows j s) = j\<lparr>j_flow := f\<rparr>"
proof (cases "j_flow j")
  case None
  then have "fst (settleMarkRows j s) = j\<lparr>j_flow := j_flow j\<rparr>"
    by (simp add: settleMarkRows_def split: prod.split)
  then show ?thesis by blast
next
  case (Some f)
  then show ?thesis by (auto simp: settleMarkRows_def split: prod.split)
qed

text \<open>\<open>markCancelled\<close> up to the retention: one \<open>Finished\<close> event.\<close>

definition cancelRecord :: "mem_job \<Rightarrow> millis \<Rightarrow> mem_store \<Rightarrow> mem_job" where
  "cancelRecord job now s = recordAttempt ACancelled now None
     ((if j_state job = WaitingChildren
       then fst (settleMarkRows ((clearLock job)\<lparr>j_cancelRequested := False\<rparr>) s)
       else (clearLock job)\<lparr>j_cancelRequested := False\<rparr>)\<lparr>j_state := Cancelled, j_finishedAt := Some now\<rparr>)"

lemma cancelRecord_sel [simp]:
  "sameIdentity job (cancelRecord job now s)" "j_state (cancelRecord job now s) = Cancelled"
  "m_lockToken (cancelRecord job now s) = None" "j_finishedAt (cancelRecord job now s) = Some now"
  "j_id (cancelRecord job now s) = j_id job" "j_keep (cancelRecord job now s) = j_keep job"
  "j_dedupeKey (cancelRecord job now s) = j_dedupeKey job" "j_name (cancelRecord job now s) = j_name job"
  "j_parent (cancelRecord job now s) = j_parent job" "j_queue (cancelRecord job now s) = j_queue job"
proof -
  obtain f where "fst (settleMarkRows ((clearLock job)\<lparr>j_cancelRequested := False\<rparr>) s) =
    ((clearLock job)\<lparr>j_cancelRequested := False\<rparr>)\<lparr>j_flow := f\<rparr>" using settleMarkRows_job by blast
  then show "sameIdentity job (cancelRecord job now s)" "j_state (cancelRecord job now s) = Cancelled"
    "m_lockToken (cancelRecord job now s) = None" "j_finishedAt (cancelRecord job now s) = Some now"
    "j_id (cancelRecord job now s) = j_id job" "j_keep (cancelRecord job now s) = j_keep job"
    "j_dedupeKey (cancelRecord job now s) = j_dedupeKey job" "j_name (cancelRecord job now s) = j_name job"
    "j_parent (cancelRecord job now s) = j_parent job" "j_queue (cancelRecord job now s) = j_queue job"
    by (simp_all add: cancelRecord_def sameIdentity_def clearLock_def recordAttempt_def)
qed

lemma settleMarkRows_store: "\<exists>fc. snd (settleMarkRows j s) = s\<lparr>flowChildren := fc\<rparr>"
proof (cases "mapGet (flowChildren s) (j_id j)")
  case None
  then have "snd (settleMarkRows j s) = s\<lparr>flowChildren := flowChildren s\<rparr>"
    by (simp add: settleMarkRows_def markPendingRowsCancelled_def)
  then show ?thesis by blast
next
  case (Some rs)
  then show ?thesis by (auto simp: settleMarkRows_def markPendingRowsCancelled_def)
qed

lemma markCancelled_eq:
  "\<exists>fc. markCancelled job now s = applyKeep (cancelRecord job now s) now
         (releaseDedupe (cancelRecord job now s) now
            (appendOutbox (cancelRecord job now s) TCancelled
               (putJob (cancelRecord job now s) (s\<lparr>flowChildren := fc\<rparr>))))"
proof (cases "j_state job = WaitingChildren")
  case True
  let ?j = "(clearLock job)\<lparr>j_cancelRequested := False\<rparr>"
  obtain fc where "snd (settleMarkRows ?j s) = s\<lparr>flowChildren := fc\<rparr>" using settleMarkRows_store by blast
  then show ?thesis
    using True by (intro exI [of _ fc]) (simp add: markCancelled_def cancelRecord_def Let_def split_beta)
next
  case False
  then show ?thesis
    by (intro exI [of _ "flowChildren s"]) (simp add: markCancelled_def cancelRecord_def Let_def)
qed

text \<open>
  \<open>job\<close> is the record the operation works on: the stored one up to fields a terminal transition
  overwrites anyway.
\<close>

lemma markCancelled_trace:
  assumes w: "wellFormed s" and old: "mapGet (jobs s) i = Some j0" "j_state j0 \<notin> TERMINAL_STATES"
    and job: "sameIdentity j0 job"
    and P: "\<And>s i. P s (Pruned i)" "\<And>s. P s Quiet" "P s (Finished i TCancelled)"
  shows "trace P s (markCancelled job now s)"
proof -
  have id: "j_id job = i" using job wf_id [OF w old(1)] by (simp add: sameIdentity_def)
  from markCancelled_eq [of job now s] obtain fc where
    eq: "markCancelled job now s = applyKeep (cancelRecord job now s) now
         (releaseDedupe (cancelRecord job now s) now
            (appendOutbox (cancelRecord job now s) TCancelled
               (putJob (cancelRecord job now s) (s\<lparr>flowChildren := fc\<rparr>))))"
    by blast
  define s2 where "s2 = s\<lparr>flowChildren := fc\<rparr>"
  note eq = eq [folded s2_def]
  have s2: "jobs s2 = jobs s" "outbox s2 = outbox s" "outboxSeq s2 = outboxSeq s"
    by (simp_all add: s2_def)
  let ?j = "cancelRecord job now s"
  let ?s = "releaseDedupe ?j now (appendOutbox ?j TCancelled (putJob ?j s2))"
  have "sameIdentity j0 ?j" using job cancelRecord_sel(1) [of job now s] by (simp add: sameIdentity_def)
  from finish_life [OF old this, of TCancelled s2 now] id s2
  have l: "life s (Finished i TCancelled) ?s" by simp
  have "keyed (jobs ?s)" using keyed_put [OF wf_keyed [OF w], of ?j] s2 by simp
  from applyKeep_trace [OF this _ P(1,2)] have "trace P ?s (markCancelled job now s)"
    unfolding eq by simp
  with l P(3) show ?thesis by (rule trace_step)
qed

section \<open>The operations as event sequences\<close>

lemma sameIdentity_clearLock [simp]: "sameIdentity j (clearLock j)"
  by (simp add: sameIdentity_def clearLock_def)

lemma enqueuedAt_sel [simp]:
  "j_enqueuedAt (clearLock j) = j_enqueuedAt j" "j_enqueuedAt (recordAttempt a t e j) = j_enqueuedAt j"
  by (simp_all add: clearLock_def recordAttempt_def)

lemma newJob_sel [simp]:
  "j_id (newJob i r now sq) = i" "j_state (newJob i r now sq) = (if rq_delayMs r > 0 then Delayed else Waiting)"
  "m_lockToken (newJob i r now sq) = None" "m_attempts (newJob i r now sq) = []"
  "j_queue (newJob i r now sq) = rq_queue r" "j_name (newJob i r now sq) = rq_name r"
  "j_dedupeKey (newJob i r now sq) = map_option dp_key (rq_dedupe r)" "j_finishedAt (newJob i r now sq) = None"
  "m_seq (newJob i r now sq) = sq" "j_parent (newJob i r now sq) = rq_parent r"
  "j_runAt (newJob i r now sq) = now + max 0 (rq_delayMs r)" "j_priority (newJob i r now sq) = rq_priority r"
  "j_flow (newJob i r now sq) = None" "j_attemptsMade (newJob i r now sq) = 0"
  by (simp_all add: newJob_def)

lemma insertJobRecord_frame [simp]:
  "jobs (insertJobRecord i r now s) = mapSet i (newJob i r now (seqNo s + 1)) (jobs s)"
  "outbox (insertJobRecord i r now s) = outbox s" "flowChildren (insertJobRecord i r now s) = flowChildren s"
  "dedupes (insertJobRecord i r now s) = dedupes s" "schedules (insertJobRecord i r now s) = schedules s"
  "paused (insertJobRecord i r now s) = paused s" "seqNo (insertJobRecord i r now s) = seqNo s + 1"
  "outboxSeq (insertJobRecord i r now s) = outboxSeq s"
  by (simp_all add: insertJobRecord_def Let_def)

lemma registerJob_frame [simp]:
  "jobs (registerJob i r now s) = mapSet i (newJob i r now (seqNo s + 1)) (jobs s)"
  "outbox (registerJob i r now s) = outbox s" "flowChildren (registerJob i r now s) = flowChildren s"
  "schedules (registerJob i r now s) = schedules s" "paused (registerJob i r now s) = paused s"
  "outboxSeq (registerJob i r now s) = outboxSeq s" "seqNo (registerJob i r now s) = seqNo s + 1"
  by (auto simp: registerJob_def Let_def split: option.split)

lemma create_life:
  assumes "mapGet (jobs s) i = None" "jobs s' = mapSet i (newJob i r now sq) (jobs s)" "outbox s' = outbox s"
  shows "life s (Created i) s'"
  by (rule created [OF assms(1), where j = "newJob i r now sq"])
    (use assms in \<open>simp_all add: changes_def\<close>)

lemma dedupeDecide_life:
  assumes w: "wellFormed s"
  shows "life s Quiet (snd (dedupeDecide now r d s)) \<or> (\<exists>i. life s (Edited i) (snd (dedupeDecide now r d s)))"
proof (cases "mapGet (dedupes s) (dedupeMapKey (rq_name r) (dp_key d))")
  case None
  then show ?thesis by (simp add: dedupeDecide_def life_calm calm_def)
next
  case (Some entry)
  note ent = Some
  show ?thesis
  proof (cases "mapGet (jobs s) (de_jobId entry)")
    case None
    with ent show ?thesis
      by (auto simp: dedupeDecide_def Let_def intro!: life_calm split: option.split) (simp_all add: calm_def)
  next
    case (Some k)
    have id: "j_id k = de_jobId entry" by (rule wf_id [OF w Some])
    let ?s = "snd (dedupeDecide now r d s)"
    show ?thesis
    proof (cases "dp_replace d \<and> j_state k = Delayed")
      case True
      have "jobs ?s = mapSet (j_id k) (replaceJob r now k) (jobs s)" "outbox ?s = outbox s"
        using True Some ent by (auto simp: dedupeDecide_def Let_def split: option.split)
      then have "life s (Edited (de_jobId entry)) ?s"
        by (intro edited [OF Some, where j' = "replaceJob r now k"])
          (use True id in \<open>simp_all add: changes_def sameIdentity_def\<close>)
      then show ?thesis by blast
    next
      case False
      then have "calm s ?s"
        using Some ent by (auto simp: dedupeDecide_def Let_def calm_def split: option.split)
      then show ?thesis by (simp add: life_calm)
    qed
  qed
qed

lemma enqueueDecide_trace:
  assumes w: "wellFormed s" and P: "\<And>s. P s Quiet" "\<And>s i. P s (Edited i)"
  shows "trace P s (snd (enqueueDecide now r s))"
proof -
  have "trace P s (snd (dedupeDecide now r d s))" for d
    using dedupeDecide_life [OF w, of now r d] P by (auto intro: trace_one)
  then show ?thesis
    by (auto simp: enqueueDecide_def trace_refl split: option.split)
qed

lemma enqueueInsert_trace:
  assumes "\<And>k. rq_id r = Some k \<Longrightarrow> mapGet (jobs s) k = None"
    and P: "\<And>s. P s Quiet" "\<And>s i. P s (Created i)"
  shows "trace P s (snd (enqueueInsert gen now r s))"
proof (cases "chooseId gen r s")
  case (Pair found s1)
  have c: "calm s s1"
    using Pair by (auto simp: chooseId_def Let_def calm_def split: option.splits prod.splits)
  show ?thesis
  proof (cases found)
    case None
    with Pair c P show ?thesis by (simp add: enqueueInsert_def trace_calm)
  next
    case (Some i)
    from chooseId_fresh [of gen r s i s1] Pair Some assms(1) have "mapGet (jobs s) i = None" by auto
    moreover have "jobs s1 = jobs s" "outbox s1 = outbox s" using c by (simp_all add: calm_def)
    ultimately have "life s (Created i) (registerJob i r now s1)" by (intro create_life) simp_all
    with Pair Some P show ?thesis by (simp add: enqueueInsert_def trace_one)
  qed
qed

lemma enqueueOne_trace:
  assumes w: "wellFormed s"
    and P: "\<And>s. P s Quiet" "\<And>s i. P s (Created i)" "\<And>s i. P s (Edited i)"
  shows "trace P s (snd (enqueueOne gen now r s))"
proof (cases "enqueueDecide now r s")
  case (Pair found s')
  from enqueueDecide_trace [where P = P and now = now and r = r, OF w P(1,3)] Pair have t: "trace P s s'" by simp
  show ?thesis
  proof (cases found)
    case None
    with Pair enqueueDecide_fresh [OF w] have "\<And>k. rq_id r = Some k \<Longrightarrow> mapGet (jobs s') k = None" by blast
    from trace_trans [OF t enqueueInsert_trace [where P = P, OF this P(1,2)]] Pair None show ?thesis
      by (simp add: enqueueOne_def)
  next
    case (Some x)
    with Pair t show ?thesis by (simp add: enqueueOne_def)
  qed
qed

lemma enqueueMany_trace:
  assumes P: "\<And>s. P s Quiet" "\<And>s i. P s (Created i)" "\<And>s i. P s (Edited i)"
  shows "wellFormed s \<Longrightarrow> trace P s (snd (enqueueMany gen rs s))"
proof (induction gen rs s rule: enqueueMany.induct)
  case (1 gen s)
  then show ?case by (simp add: trace_refl)
next
  case (2 gen now r rest s)
  from enqueueOne_trace [where P = P, OF 2(2) P] have t: "trace P s (snd (enqueueOne gen now r s))" .
  have w: "wellFormed (snd (enqueueOne gen now r s))" by (rule enqueueOne_wf [OF 2(2)])
  show ?case
    using t 2(1) w by (auto split: prod.splits sum.splits intro: trace_trans)
qed

lemma claim_trace:
  assumes w: "wellFormed s"
  shows "trace (permitted (OpClaim now opts)) s (snd (claim now opts s))"
  using w
proof (cases rule: claim_cases [of s now opts])
  case (claimed j)
  let ?j = "promoteJob now j"
  have p: "life s (DuePromoted now) (promoteDue now s)" by (rule due_promoted) simp_all
  have st: "j_state ?j = Waiting" "mapGet (jobs (promoteDue now s)) (j_id j) = Some ?j"
    using claimed(2,3) by (simp_all add: readyJob_def promoteJob_runnable)
  have "life (promoteDue now s) (Taken (j_id j) (co_token opts)) (putJob (activate opts now ?j) (promoteDue now s))"
    by (rule taken [OF st(2,1) changes_put]) (simp_all add: sameIdentity_def activate_def)
  from trace_step [OF p _ trace_one [OF this]] claimed(1) show ?thesis by simp
next
  case (empty r)
  then show ?thesis by (auto intro!: trace_one [OF due_promoted])
qed

lemma extendLocks_trace:
  "wellFormed s \<Longrightarrow> trace (permitted (OpExtendLocks now locks d)) s (snd (extendLocks now locks d s))"
proof -
  have "wellFormed s \<Longrightarrow> (\<And>s i. P s (Edited i)) \<Longrightarrow> trace P s (snd (extendLocks now locks d s))" for P
  proof (induction now locks d s rule: extendLocks.induct)
    case (1 now d s)
    then show ?case by (simp add: trace_refl)
  next
    case (2 now i token locks d s)
    show ?case
    proof (cases "holdsLock s i token")
      case None
      with 2 show ?thesis by (simp add: split_beta Let_def)
    next
      case (Some job)
      then have job: "mapGet (jobs s) i = Some job" "j_state job = Active"
        by (auto simp: holdsLock_def split: option.splits if_splits)
      let ?s = "putJob (job\<lparr>m_lockExpiresAt := Some (now + d)\<rparr>) s"
      have "life s (Edited i) ?s"
        by (rule edited [OF job(1) _ changes_put]) (use job wf_id [OF 2(4) job(1)] in \<open>simp_all add: sameIdentity_def\<close>)
      moreover have "wellFormed ?s"
        by (rule wf_put_state [OF 2(4) job(1)])
          (use wf_job [OF 2(4) job(1)] job(2) in \<open>simp_all add: job_ok_def\<close>)
      ultimately show ?thesis
        using Some 2 by (simp add: split_beta Let_def) (metis trace_step)
    qed
  qed
  then show "wellFormed s \<Longrightarrow> ?thesis" by simp
qed

lemma finishJob_trace:
  assumes w: "wellFormed s" and old: "mapGet (jobs s) i = Some j0" "j_state j0 \<notin> TERMINAL_STATES"
    and job: "sameIdentity j0 job" "m_lockToken job = None"
    and P: "\<And>s i. P s (Pruned i)" "\<And>s. P s Quiet" "P s (Finished i t)"
  shows "trace P s (finishJob (stateOfTerminal t) oc t ex b now job s)"
proof -
  have id: "j_id job = i" using job wf_id [OF w old(1)] by (simp add: sameIdentity_def)
  let ?j = "recordAttempt oc now ex (job\<lparr>j_cancelRequested := False, j_state := stateOfTerminal t,
    j_exit := (if b then ex else j_exit job), j_finishedAt := Some now\<rparr>)"
  let ?s = "releaseDedupe ?j now (appendOutbox ?j t (putJob ?j s))"
  have "sameIdentity j0 ?j" using job by (simp add: sameIdentity_def recordAttempt_def)
  from finish_life [OF old this, of t s now] job id have l: "life s (Finished i t) ?s" by simp
  have "keyed (jobs ?s)" using keyed_put [OF wf_keyed [OF w], of ?j] by simp
  then have "trace P ?s (applyKeep ?j now ?s)"
    by (rule applyKeep_trace) (simp_all add: P del: terminal_iff)
  then have "trace P ?s (finishJob (stateOfTerminal t) oc t ex b now job s)"
    by (simp only: finishJob_def Let_def)
  with l P(3) show ?thesis by (rule trace_step)
qed

lemma sameIdentity_trans: "sameIdentity a b \<Longrightarrow> sameIdentity b c \<Longrightarrow> sameIdentity a c"
  by (simp add: sameIdentity_def)

lemma requeue_life:
  assumes "mapGet (jobs s) i = Some j0" "j_state j0 \<in> {Active, WaitingChildren}" "sameIdentity j0 j" "j_id j = i"
    and "j_state j \<in> {Waiting, Delayed}" "m_lockToken j = None" "jobs s' = mapSet i j (jobs s)" "outbox s' = outbox s"
    and "\<not> j_cancelRequested j0"
  shows "life s (Requeued i) s'"
  by (rule requeued [OF assms(1,2,9) _ assms(3,5,6,8)]) (use assms in \<open>simp add: changes_def\<close>)

lemma ackFanOut_trace:
  assumes w: "wellFormed s" and old: "mapGet (jobs s) i = Some j0" and act: "j_state j0 = Active"
    and lock: "m_lockToken j0 = Some token"
    and P: "\<And>s i. P s (Pruned i)" "\<And>s. P s Quiet" "P s (Finished i TCancelled)" "P s (Requeued i)" "P s (Parked i)"
  shows "trace P s (ackFanOut now ff children (clearLock j0) s)"
proof -
  have i: "j_id j0 = i" by (rule wf_id [OF w old])
  let ?job1 = "recordAttempt AFannedOut now None (clearLock j0)"
  obtain flow s2 where
    open_flow: "(case j_flow ?job1 of Some flow \<Rightarrow> (?job1, flow, s)
       | None \<Rightarrow> (let flow = openFlow ff children in (?job1\<lparr>j_flow := Some flow\<rparr>, flow,
            s\<lparr>flowChildren := mapSet (j_id ?job1) (stageRows (j_id ?job1) now children) (flowChildren s)\<rparr>)))
       = (?job1\<lparr>j_flow := Some flow\<rparr>, flow, s2)"
    and j2: "jobs s2 = jobs s" "outbox s2 = outbox s" "outboxSeq s2 = outboxSeq s" "seqNo s2 = seqNo s"
  proof (cases "j_flow j0")
    case None
    with that [of "openFlow ff children"
        "s\<lparr>flowChildren := mapSet i (stageRows i now children) (flowChildren s)\<rparr>"] i
    show thesis by (simp add: Let_def)
  next
    case (Some flow)
    then have "?job1\<lparr>j_flow := Some flow\<rparr> = ?job1" by (simp add: recordAttempt_def clearLock_def)
    with that [of flow s] Some show thesis by simp
  qed
  let ?job2 = "?job1\<lparr>j_flow := Some flow\<rparr>"
  have same: "sameIdentity j0 ?job2" by (simp add: sameIdentity_def recordAttempt_def clearLock_def)
  consider (c) "j_cancelRequested j0" | (w) "\<not> j_cancelRequested j0" "0 < fs_pending flow"
    | (r) "\<not> j_cancelRequested j0" "\<not> 0 < fs_pending flow" by blast
  then show ?thesis
  proof cases
    case c
    obtain f where f: "fst (settleMarkRows ?job2 s2) = ?job2\<lparr>j_flow := f\<rparr>"
      using settleMarkRows_job by blast
    define s3 where "s3 = snd (settleMarkRows ?job2 s2)"
    have m: "settleMarkRows ?job2 s2 = (?job2\<lparr>j_flow := f\<rparr>, s3)"
      by (rule prod_eqI) (simp_all only: f s3_def fst_conv snd_conv)
    then have j3: "jobs s3 = jobs s2" "outbox s3 = outbox s2" "outboxSeq s3 = outboxSeq s2"
      using settleMarkRows_frame [of ?job2 s2] by simp_all
    have same3: "sameIdentity j0 (?job2\<lparr>j_flow := f\<rparr>)" using same by (simp add: sameIdentity_def)
    from markCancelled_eq [of "?job2\<lparr>j_flow := f\<rparr>" now s3] obtain fc where
      eq: "markCancelled (?job2\<lparr>j_flow := f\<rparr>) now s3 =
        applyKeep (cancelRecord (?job2\<lparr>j_flow := f\<rparr>) now s3) now
         (releaseDedupe (cancelRecord (?job2\<lparr>j_flow := f\<rparr>) now s3) now
            (appendOutbox (cancelRecord (?job2\<lparr>j_flow := f\<rparr>) now s3) TCancelled
               (putJob (cancelRecord (?job2\<lparr>j_flow := f\<rparr>) now s3) (s3\<lparr>flowChildren := fc\<rparr>))))" by blast
    define s4 where "s4 = s3\<lparr>flowChildren := fc\<rparr>"
    note eq = eq [folded s4_def]
    have j4: "jobs s4 = jobs s3" "outbox s4 = outbox s3" "outboxSeq s4 = outboxSeq s3"
      by (simp_all add: s4_def)
    let ?j = "cancelRecord (?job2\<lparr>j_flow := f\<rparr>) now s3"
    let ?s = "releaseDedupe ?j now (appendOutbox ?j TCancelled (putJob ?j s4))"
    have "life s (Finished i TCancelled) ?s"
      by (rule finish_life [OF old]) (use act i j2 j3 j4 sameIdentity_trans [OF same3 cancelRecord_sel(1)] in simp_all)
    moreover have "keyed (jobs ?s)"
      using keyed_put [OF wf_keyed [OF w], of ?j] j2 j3 j4 i by simp
    then have "trace P ?s (markCancelled (?job2\<lparr>j_flow := f\<rparr>) now s3)"
      unfolding eq by (rule applyKeep_trace) (simp_all add: P)
    ultimately have "trace P s (markCancelled (?job2\<lparr>j_flow := f\<rparr>) now s3)"
      using P(3) trace_step by blast
    with c m open_flow show ?thesis by (simp add: ackFanOut_def)
  next
    case w
    have "life s (Parked i) (putJob (?job2\<lparr>j_state := WaitingChildren\<rparr>) s2)"
      by (rule parked [OF old act, where j' = "?job2\<lparr>j_state := WaitingChildren\<rparr>"])
        (use same i j2 w(1) in \<open>simp_all add: changes_def sameIdentity_def\<close>)
    with w open_flow P show ?thesis by (simp add: ackFanOut_def trace_one)
  next
    case r
    let ?s = "signalWake (Some (j_queue j0)) (putJob (?job2\<lparr>j_state := Waiting, j_runAt := now, m_seq := Suc (seqNo s2)\<rparr>)
       (s2\<lparr>seqNo := Suc (seqNo s2)\<rparr>))"
    have "life s (Requeued i) ?s"
      by (rule requeue_life [OF old, where j = "?job2\<lparr>j_state := Waiting, j_runAt := now, m_seq := Suc (seqNo s2)\<rparr>"])
        (use same i j2 act r(1) in \<open>simp_all add: sameIdentity_def\<close>)
    with r open_flow P show ?thesis by (simp add: ackFanOut_def trace_one Let_def)
  qed
qed

lemma locked_iff:
  "locked s i token \<longleftrightarrow> (\<exists>j. mapGet (jobs s) i = Some j \<and> j_state j = Active \<and> m_lockToken j = Some token)"
  by (auto simp: locked_def holdsLock_def split: option.splits)

lemma ack_trace:
  assumes w: "wellFormed s"
  shows "trace (permitted (OpAck now i token outcome)) s (snd (ack now i token outcome s))"
proof (cases "\<exists>j. mapGet (jobs s) i = Some j \<and> j_state j = Active \<and> m_lockToken j = Some token
    \<and> \<not> missingChildId outcome")
  case False
  then have "snd (ack now i token outcome s) = s" by (auto simp: ack_def split: option.split)
  then show ?thesis by (simp add: trace_refl)
next
  case True
  then obtain j where j: "mapGet (jobs s) i = Some j" "j_state j = Active" "m_lockToken j = Some token"
    and ids: "\<not> missingChildId outcome" by blast
  let ?P = "permitted (OpAck now i token outcome)"
  let ?job = "(clearLock j)\<lparr>j_attemptsMade := j_attemptsMade j + 1\<rparr>"
  have P: "\<And>s i. ?P s (Pruned i)" "\<And>s. ?P s Quiet" "\<And>t. ?P s (Finished i t)" "?P s (Requeued i)"
    "?P s (Parked i)" using j by (simp_all add: locked_iff)
  have same: "sameIdentity j ?job" by (simp add: sameIdentity_def)
  have nt: "j_state j \<notin> TERMINAL_STATES" using j(2) by simp
  have fin: "trace ?P s (finishJob (stateOfTerminal t) oc t ex b now ?job s)" for t oc ex b
    by (rule finishJob_trace [OF w j(1) nt same]) (use P in simp_all)
  have red: "snd (ack now i token outcome s) = applyOutcome now outcome
    (if isFanOut outcome then clearLock j else ?job) s"
    using j ids by (simp add: ack_def Let_def)
  show ?thesis
  proof (cases outcome)
    case (Complete ex)
    with red fin [of TCompleted] show ?thesis by (simp add: applyOutcome_def isFanOut_def)
  next
    case (Fail ex)
    with red fin [of TFailed] show ?thesis by (simp add: applyOutcome_def isFanOut_def)
  next
    case CancelledOutcome
    with red fin [of TCancelled] show ?thesis by (simp add: applyOutcome_def isFanOut_def)
  next
    case (FanOut ff children)
    with red ackFanOut_trace [where P = ?P, OF w j P(1,2,3,4,5)] show ?thesis
      by (simp add: applyOutcome_def isFanOut_def)
  next
    case (Retry d ex)
    show ?thesis
    proof (cases "j_cancelRequested j")
      case True
      with Retry red markCancelled_trace [where P = ?P, OF w j(1) nt same P(1,2,3)] show ?thesis
        by (simp add: applyOutcome_def isFanOut_def ackRetry_def)
    next
      case False
      let ?j = "(recordAttempt ARetried now ex ?job)\<lparr>j_runAt := now + max 0 d,
        j_state := (if d > 0 then Delayed else Waiting), m_seq := Suc (seqNo s)\<rparr>"
      have "life s (Requeued i) (snd (ack now i token outcome s))"
        by (rule requeue_life [OF j(1), where j = ?j])
          (use Retry red False j wf_id [OF w j(1)] in
            \<open>auto simp: applyOutcome_def isFanOut_def ackRetry_def Let_def sameIdentity_def\<close>)
      then show ?thesis using P(4) by (rule trace_one)
    qed
  qed
qed

lemma release_trace:
  assumes w: "wellFormed s"
  shows "trace (permitted (OpRelease now i token)) s (snd (release now i token s))"
proof (cases "\<exists>j. mapGet (jobs s) i = Some j \<and> j_state j = Active \<and> m_lockToken j = Some token")
  case False
  then have "snd (release now i token s) = s" by (auto simp: release_def split: option.split)
  then show ?thesis by (simp add: trace_refl)
next
  case True
  then obtain j where j: "mapGet (jobs s) i = Some j" "j_state j = Active" "m_lockToken j = Some token"
    by blast
  let ?P = "permitted (OpRelease now i token)"
  have P: "\<And>s i. ?P s (Pruned i)" "\<And>s. ?P s Quiet" "\<And>t. ?P s (Finished i t)" "?P s (Requeued i)"
    using j by (simp_all add: locked_iff)
  show ?thesis
  proof (cases "j_cancelRequested j")
    case True
    with j markCancelled_trace [where P = ?P, OF w j(1) _ _ P(1,2,3)] show ?thesis
      by (simp add: release_def)
  next
    case False
    have "life s (Requeued i) (snd (release now i token s))"
      by (rule requeue_life [OF j(1), where j = "(clearLock j)\<lparr>j_state := Waiting\<rparr>"])
        (use False j wf_id [OF w j(1)] in \<open>simp_all add: release_def sameIdentity_def\<close>)
    then show ?thesis using P(4) by (rule trace_one)
  qed
qed

lemma recoverStep_trace:
  assumes w: "wellFormed (snd acc)"
  shows "trace (permitted (OpRecoverStalled now m)) (snd acc) (snd (recoverStep now m i acc))"
proof -
  obtain rec s where acc: "acc = (rec, s)" by fastforce
  let ?P = "permitted (OpRecoverStalled now m)"
  show ?thesis
  proof (cases "\<exists>j. mapGet (jobs s) i = Some j \<and> stalled now j")
    case False
    then show ?thesis by (auto simp: recoverStep_def acc trace_refl split: option.split)
  next
    case True
    then obtain j where j: "mapGet (jobs s) i = Some j" "stalled now j" by blast
    then have act: "j_state j = Active" by (simp add: stalled_def)
    have id: "j_id j = i" using wf_id w j(1) acc by simp
    have P: "\<And>s i. ?P s (Pruned i)" "\<And>s. ?P s Quiet" "\<And>t. ?P s (Finished i t)" "?P s (Requeued i)"
      using j by auto
    have red: "snd (recoverStep now m i acc) = snd (recoverJob now m j (rec, s))"
      using j acc by (simp add: recoverStep_def)
    let ?job2 = "recordAttempt AStalled now None ((clearLock j)\<lparr>j_stalledCount := j_stalledCount j + 1\<rparr>)"
    let ?job3 = "?job2\<lparr>j_state := Failed, j_finishedAt := Some now,
      j_failedReason := Some ''job stalled more than allowable limit''\<rparr>"
    consider "j_cancelRequested j" | "\<not> j_cancelRequested j" "j_stalledCount ?job2 > m"
      | "\<not> j_cancelRequested j" "\<not> j_stalledCount ?job2 > m" by blast
    then show ?thesis
    proof cases
      case 1
      with acc red w markCancelled_trace [where P = ?P, OF _ j(1) _ _ P(1,2,3)] act show ?thesis
        by (simp add: recoverJob_def)
    next
      case 2
      have "life s (Finished i TFailed) (releaseDedupe ?job3 now (appendOutbox ?job3 TFailed (putJob ?job3 s)))"
        by (rule finish_life [OF j(1)]) (use act id in \<open>simp_all add: sameIdentity_def\<close>)
      with 2 acc red P(3) show ?thesis by (simp add: recoverJob_def Let_def trace_one)
    next
      case 3
      have "life s (Requeued i) (putJob (?job2\<lparr>j_state := Waiting\<rparr>) s)"
        by (rule requeue_life [OF j(1)]) (use act id 3 in \<open>auto simp: sameIdentity_def\<close>)
      with 3 acc red P(4) show ?thesis by (simp add: recoverJob_def Let_def trace_one)
    qed
  qed
qed

lemma recoverStalled_trace:
  assumes w: "wellFormed s"
  shows "trace (permitted (OpRecoverStalled now m)) s (snd (recoverStalled now m s))"
proof -
  let ?P = "permitted (OpRecoverStalled now m)"
  let ?r = "fold (recoverStep now m) (mapKeys (jobs s)) ([], s)"
  have "wellFormed (snd ?r) \<and> trace ?P s (snd ?r)"
    by (rule fold_invariant_list [where I = "\<lambda>acc. wellFormed (snd acc) \<and> trace ?P s (snd acc)"])
      (use w recoverStep_wf recoverStep_trace in \<open>auto simp: trace_refl intro: trace_trans\<close>)
  then have "trace ?P s (snd ?r)" by simp
  moreover have "calm (snd ?r) (snd (recoverStalled now m s))"
    by (simp add: recoverStalled_def calm_def split: prod.split)
  then have "trace ?P (snd ?r) (snd (recoverStalled now m s))" by (rule trace_calm) simp
  ultimately show ?thesis by (rule trace_trans)
qed

lemma cancelJob_trace:
  assumes w: "wellFormed s" and P: "\<And>s i. P s (Pruned i)" "\<And>s. P s Quiet"
    "\<And>j. mapGet (jobs s) i = Some j \<Longrightarrow> j_state j \<noteq> Active \<Longrightarrow> P s (Finished i TCancelled)" "P s (Edited i)"
  shows "trace P s (snd (cancelJob now i s))"
proof (cases "mapGet (jobs s) i")
  case None
  then show ?thesis by (simp add: cancelJob_def trace_refl)
next
  case (Some j)
  have "trace P s (markCancelled j now s)" if "j_state j \<notin> TERMINAL_STATES" "j_state j \<noteq> Active"
    by (rule markCancelled_trace [where P = P, OF w Some that(1)]) (use P Some that in simp_all)
  moreover have "trace P s (putJob (j\<lparr>j_cancelRequested := True\<rparr>) s)" if "j_state j = Active"
  proof -
    have "life s (Edited i) (putJob (j\<lparr>j_cancelRequested := True\<rparr>) s)"
      by (rule edited [OF Some _ changes_put]) (use that wf_id [OF w Some] in \<open>simp_all add: sameIdentity_def\<close>)
    then show ?thesis using P(4) by (rule trace_one)
  qed
  ultimately show ?thesis using Some
    by (cases "j_state j") (simp_all add: cancelJob_def trace_refl)
qed

lemma cancelByDedupe_trace:
  assumes w: "wellFormed s"
  shows "trace (permitted (OpCancelByDedupe now name key)) s (snd (cancelByDedupe now name key s))"
proof -
  let ?P = "permitted (OpCancelByDedupe now name key)"
  have c: "trace ?P s (snd (cancelJob now i s))" for i
    by (rule cancelJob_trace [OF w]) auto
  have "snd (cancelByDedupe now name key s) = s \<or> (\<exists>i. snd (cancelByDedupe now name key s) = snd (cancelJob now i s))"
    by (auto simp: cancelByDedupe_def split: option.splits prod.splits sum.splits store_error.splits)
      (metis snd_conv)+
  with c show ?thesis by (auto simp: trace_refl)
qed

lemma retry_trace:
  assumes w: "wellFormed s"
  shows "trace (permitted (OpRetry now i)) s (snd (retry now i s))"
proof (cases "\<exists>j. mapGet (jobs s) i = Some j \<and> j_state j = Failed")
  case False
  then have "snd (retry now i s) = s" by (auto simp: retry_def split: option.splits)
  then show ?thesis by (simp add: trace_refl)
next
  case True
  then obtain j where j: "mapGet (jobs s) i = Some j" "j_state j = Failed" by blast
  have ok: "job_ok i j" by (rule wf_job [OF w j(1)])
  have "life s (Revived i) (snd (retry now i s))"
    by (rule revived [OF j, where j' = "j\<lparr>j_state := Waiting, j_attemptsMade := 0, j_stalledCount := 0,
        j_cancelRequested := False, j_exit := None, j_failedReason := None, j_finishedAt := None,
        j_processedAt := None, j_runAt := now, m_seq := seqNo s + 1\<rparr>"])
      (use j ok in \<open>simp_all add: retry_def Let_def changes_def sameIdentity_def job_ok_def\<close>)
  then show ?thesis by (rule trace_one) simp
qed

lemma promote_trace:
  assumes w: "wellFormed s"
  shows "trace (permitted (OpPromote now i)) s (snd (promote now i s))"
proof (cases "\<exists>j. mapGet (jobs s) i = Some j \<and> j_state j = Delayed")
  case False
  then have "snd (promote now i s) = s" by (auto simp: promote_def split: option.splits)
  then show ?thesis by (simp add: trace_refl)
next
  case True
  then obtain j where j: "mapGet (jobs s) i = Some j" "j_state j = Delayed" by blast
  have ok: "job_ok i j" by (rule wf_job [OF w j(1)])
  have "life s (Promoted i) (snd (promote now i s))"
    by (rule promoted [OF j, where j' = "j\<lparr>j_state := Waiting, j_runAt := now\<rparr>"])
      (use j ok in \<open>simp_all add: promote_def changes_def sameIdentity_def job_ok_def\<close>)
  then show ?thesis by (rule trace_one) simp
qed

lemma remove_trace: "trace (permitted (OpRemove i)) s (snd (remove i s))"
proof (cases "\<exists>j. mapGet (jobs s) i = Some j \<and> j_state j \<notin> {Active, WaitingChildren}")
  case False
  then have "snd (remove i s) = s" by (auto simp: remove_def split: option.splits)
  then show ?thesis by (simp add: trace_refl)
next
  case True
  then obtain j where j: "mapGet (jobs s) i = Some j" "j_state j \<notin> {Active, WaitingChildren}" by blast
  have "life s (Removed i) (snd (remove i s))"
    by (rule removed [OF j]) (use j in \<open>simp_all add: remove_def changes_delete\<close>)
  then show ?thesis by (rule trace_one) simp
qed

lemma tickSchedule_trace:
  "trace (permitted (OpTickSchedule now k a b r)) s (snd (tickSchedule now k a b r s))"
proof -
  let ?s = "snd (tickSchedule now k a b r s)"
  have "calm s ?s \<or> (\<exists>i. mapGet (jobs s) i = None \<and> jobs ?s = mapSet i (newJob i r now (seqNo s + 1)) (jobs s)
    \<and> outbox ?s = outbox s)"
    by (auto simp: tickSchedule_def Let_def calm_def setNextRun_def split: option.splits)
  then show ?thesis
  proof (elim disjE exE conjE)
    assume "calm s ?s"
    then show ?thesis by (rule trace_calm) simp
  next
    fix i assume "mapGet (jobs s) i = None" "jobs ?s = mapSet i (newJob i r now (seqNo s + 1)) (jobs s)"
      "outbox ?s = outbox s"
    then have "life s (Created i) ?s" by (rule create_life)
    then show ?thesis by (rule trace_one) simp
  qed
qed

lemma sweepHistory_trace:
  assumes w: "wellFormed s"
  shows "trace (permitted (OpSweepHistory now ttl)) s (sweepHistory now ttl s)"
proof -
  let ?P = "permitted (OpSweepHistory now ttl)"
  have "trace ?P s (fold (sweepJob now ttl) (mapValues (jobs s)) s)"
  proof (rule prune_fold [where T = "\<lambda>j. terminalOf (j_state j) \<noteq> None" and g = j_id], goal_cases)
    case (1 x s)
    then show ?case by (auto simp: sweepJob_def split: option.split)
  next
    case (2 x j)
    with wf_value [OF w] have "j = x" by fastforce
    with 2 show ?case by (cases "j_state x") auto
  qed simp_all
  moreover have "calm (fold (sweepJob now ttl) (mapValues (jobs s)) s) (sweepHistory now ttl s)"
    by (simp add: sweepHistory_def calm_def Let_def)
  then have "trace ?P (fold (sweepJob now ttl) (mapValues (jobs s)) s) (sweepHistory now ttl s)"
    by (rule trace_calm) simp
  ultimately show ?thesis by (rule trace_trans)
qed

section \<open>Flow reports as events\<close>

lemma recordOne_trace:
  assumes ok: "phase1_ok acc"
  shows "trace (permitted (OpRecordChildResults now rs)) (snd (snd acc)) (snd (snd (recordOne e acc)))"
proof -
  obtain i r where e: "e = (i, r)" by fastforce
  obtain results touched s where acc: "acc = (results, touched, s)" by (metis prod_cases3)
  show ?thesis
  proof (cases "\<exists>row. rowOf s (rp_flowId r) (rp_childKey r) = Some row \<and> ch_status row = RPending")
    case True
    then obtain row where row: "rowOf s (rp_flowId r) (rp_childKey r) = Some row" "ch_status row = RPending"
      by blast
    from ok acc have w: "wfx {} (set (mapKeys touched)) s" by (simp add: phase1_ok_def)
    from applyReport_wf [OF this row] obtain parent f rows where
      p: "mapGet (jobs s) (rp_flowId r) = Some parent" "j_state parent = WaitingChildren"
        "applyReport r row s =
         putJob (parent\<lparr>j_flow := Some (countReport (rp_outcome r) f)\<rparr>)
           (s\<lparr>flowChildren := mapSet (rp_flowId r) (mapSet (rp_childKey r) (settleRow r row) rows) (flowChildren s)\<rparr>)"
      by metis
    have id: "j_id parent = rp_flowId r" using wfx_id [OF w _ p(1)] by simp
    have "life s (Edited (rp_flowId r)) (applyReport r row s)"
      by (rule edited [OF p(1), where j' = "parent\<lparr>j_flow := Some (countReport (rp_outcome r) f)\<rparr>"])
        (use p id in \<open>simp_all add: changes_def sameIdentity_def\<close>)
    then show ?thesis using row by (simp add: acc e recordOne_applied trace_one)
  next
    case False
    then show ?thesis by (auto simp: acc e recordOne_applied trace_refl split: option.split)
  qed
qed

lemma recordPhase1_trace:
  assumes w: "wellFormed s"
  shows "trace (permitted (OpRecordChildResults now rs)) s (snd (snd (recordPhase1 reports s)))"
proof -
  let ?P = "permitted (OpRecordChildResults now rs)"
  have "phase1_ok (recordPhase1 reports s) \<and> trace ?P s (snd (snd (recordPhase1 reports s)))"
    unfolding recordPhase1_def
  proof (rule fold_invariant_list [where I = "\<lambda>acc. phase1_ok acc \<and> trace ?P s (snd (snd acc))"], goal_cases)
    case 1
    then show ?case using w by (simp add: phase1_ok_def wellFormed_def trace_refl)
  next
    case (2 x acc)
    then show ?case using recordOne_ok recordOne_trace trace_trans by blast
  qed
  then show ?thesis by simp
qed

lemma failParent_trace:
  assumes w: "keyed (jobs s)" and old: "mapGet (jobs s) i = Some parent"
    and st: "j_state parent = WaitingChildren" and lock: "m_lockToken parent = None"
    and P: "\<And>s i. P s (Pruned i)" "\<And>s. P s Quiet" "P s (Finished i TFailed)"
  shows "trace P s (failParent key now parent s)"
proof -
  have id: "j_id parent = i" using w old by (simp add: keyed_def)
  obtain f where f: "fst (settleMarkRows parent s) = parent\<lparr>j_flow := f\<rparr>"
    using settleMarkRows_job by blast
  let ?s2 = "snd (settleMarkRows parent s)"
  let ?p = "recordAttempt AFailed now None
    (parent\<lparr>j_flow := f, j_cancelRequested := False, j_state := Failed, j_finishedAt := Some now,
       j_failedReason := Some (''effect-mq: flow child '' @ [CHR 0x22] @ key @ [CHR 0x22] @ '' failed'')\<rparr>)"
  let ?s = "releaseDedupe ?p now (appendOutbox ?p TFailed (putJob ?p ?s2))"
  have eq: "failParent key now parent s = applyKeep ?p now ?s"
    using f by (simp add: failParent_def Let_def split_beta)
  have "life s (Finished i TFailed) ?s"
    by (rule finish_life [OF old]) (use st id lock in \<open>simp_all add: sameIdentity_def\<close>)
  moreover have "keyed (jobs ?s)" using keyed_put [OF w, of ?p] by simp
  then have "trace P ?s (failParent key now parent s)"
    unfolding eq by (rule applyKeep_trace) (simp_all add: P)
  ultimately show ?thesis using P(3) by (rule_tac trace_step)
qed

lemma settleOne_trace:
  assumes w: "wfx {} B s"
  shows "trace (permitted (OpRecordChildResults now rs)) s (snd (settleOne now reports (i, t) (results, s)))"
proof (cases "\<exists>p. mapGet (jobs s) i = Some p \<and> j_state p = WaitingChildren")
  case False
  then show ?thesis by (auto simp: settleOne_def trace_refl split: option.split)
next
  case True
  then obtain p where p: "mapGet (jobs s) i = Some p" "j_state p = WaitingChildren" by blast
  let ?P = "permitted (OpRecordChildResults now rs)"
  have ok: "job_ok i p" using wfx_job [OF w _ p(1)] by simp
  have "keyed (jobs s)"
    using wfx_distinct [OF w] wfx_id [OF w] by (auto simp: keyed_def)
  then have fail: "trace ?P s (failParent key now p s)" for key
    by (rule failParent_trace [where P = ?P, OF _ p]) (use ok p in \<open>auto simp: job_ok_def\<close>)
  have "life s (Requeued i) (resumeParent now p s)"
    by (rule requeue_life [OF p(1), where j = "p\<lparr>j_state := Waiting, j_runAt := now, m_seq := seqNo s + 1\<rparr>"])
      (use ok p in \<open>auto simp: job_ok_def resumeParent_def Let_def sameIdentity_def\<close>)
  then have "trace ?P s (resumeParent now p s)" by (rule trace_one) (use p in auto)
  with fail show ?thesis by (auto simp: settleOne_def trace_refl p split: option.split)
qed

lemma settleOne_fold_trace:
  "wfx {} (set (mapKeys touched)) s \<Longrightarrow>
     trace (permitted (OpRecordChildResults now rs)) s (snd (fold (settleOne now reports) touched (results, s)))"
proof (induction touched arbitrary: results s)
  case Nil
  then show ?case by (simp add: trace_refl)
next
  case (Cons p ps)
  obtain i t where p: "p = (i, t)" by fastforce
  obtain results' s' where step: "settleOne now reports p (results, s) = (results', s')" by fastforce
  have "wfx {} (set (mapKeys ps)) s'"
    using settleOne_wf [of i "set (mapKeys ps)" s now reports t results] Cons.prems p step by simp
  from Cons.IH [OF this, of results'] settleOne_trace [OF Cons.prems, of now rs reports i t results]
  show ?case using p step by (auto intro: trace_trans)
qed

lemma recordChildResults_trace:
  assumes w: "wellFormed s"
  shows "trace (permitted (OpRecordChildResults now reports)) s (snd (recordChildResults now reports s))"
proof -
  obtain results touched s1 where p1: "recordPhase1 reports s = (results, touched, s1)"
    by (metis prod_cases3)
  have "wfx {} (set (mapKeys touched)) s1"
    using recordPhase1_ok [OF w, of reports] p1 by (simp add: phase1_ok_def)
  from settleOne_fold_trace [OF this] recordPhase1_trace [OF w, of now reports reports] p1
  show ?thesis by (auto simp: recordChildResults_def intro: trace_trans)
qed

section \<open>The refinement\<close>

lemmas op_trace = claim_trace extendLocks_trace ack_trace release_trace recoverStalled_trace
  cancelByDedupe_trace retry_trace promote_trace remove_trace tickSchedule_trace
  recordChildResults_trace sweepHistory_trace

lemma exec_trace:
  assumes w: "wellFormed s"
  shows "trace (permitted op) s (exec gen op s)"
proof (cases op)
  case (OpEnqueue now r)
  with enqueueOne_trace [OF w, where P = "permitted op"] show ?thesis by simp
next
  case (OpEnqueueMany rs)
  with enqueueMany_trace [OF _ _ _ w, where P = "permitted op"] show ?thesis by simp
next
  case (OpCancel now i)
  have "trace (permitted op) s (snd (cancelJob now i s))"
    by (rule cancelJob_trace [OF w]) (use OpCancel in auto)
  with OpCancel show ?thesis by simp
next
  case (OpDeleteOutbox ids)
  have "life s Drained (exec gen op s)"
    by (rule drained) (use OpDeleteOutbox in \<open>auto simp: deleteOutbox_def\<close>)
  then show ?thesis by (rule trace_one) (use OpDeleteOutbox in simp)
qed (use w in \<open>simp_all add: op_trace trace_calm calm_def awaitWake_def cancelWait_def pause_def resume_def
       upsertSchedule_def removeSchedule_def advanceSchedule_def flowSweepWork_def markChildrenCascaded_def
       setNextRun_def Let_def split_beta split: option.split\<close>)

end
