(* ===== verification/Safety.thy ===== *)
theory Safety
  imports Lifecycle Samples
begin

text \<open>
  Safety of the in-memory store, read off the event sequences of \<open>Lifecycle\<close>: the invariant of the
  reachable states, the refinement itself, finality of terminal records, ownership of locks, and
  reports of flow children.
\<close>

section \<open>Inductions over events\<close>

definition terminalIn :: "mem_store \<Rightarrow> job_id \<Rightarrow> mem_job \<Rightarrow> bool" where
  "terminalIn s i j \<longleftrightarrow> mapGet (jobs s) i = Some j \<and> j_state j \<in> TERMINAL_STATES"

definition pendingIn :: "mem_store \<Rightarrow> job_id \<Rightarrow> mem_job \<Rightarrow> bool" where
  "pendingIn s i j \<longleftrightarrow> mapGet (jobs s) i = Some j \<and> j_state j \<notin> TERMINAL_STATES"

definition changesNothing :: "event \<Rightarrow> bool" where
  "changesNothing e \<longleftrightarrow> e = Quiet \<or> e = Drained"

lemma life_terminal:
  assumes "life s e s'" "mapGet (jobs s) i = Some j" "j_state j \<in> TERMINAL_STATES" "e \<noteq> Revived i"
  shows "mapGet (jobs s') i = Some j \<or> (mapGet (jobs s') i = None \<and> (e = Pruned i \<or> e = Removed i))"
  using assms
  by (cases rule: life.cases) (auto simp: changes_def promoteJob_def)

lemma life_absent:
  assumes "life s e s'" "mapGet (jobs s) i = None" "e \<noteq> Created i"
  shows "mapGet (jobs s') i = None"
  using assms by (cases rule: life.cases) (auto simp: changes_def)

lemma trace_terminal:
  assumes "trace P s s'" "mapGet (jobs s) i = Some j" "j_state j \<in> TERMINAL_STATES"
    and "\<And>s. \<not> P s (Revived i)" and "\<And>s. \<not> P s (Created i)"
  shows "mapGet (jobs s') i = Some j \<or> mapGet (jobs s') i = None"
proof -
  have "mapGet (jobs s) i = Some j \<or> mapGet (jobs s) i = None \<Longrightarrow>
    mapGet (jobs s') i = Some j \<or> mapGet (jobs s') i = None"
    using assms(1,4,5)
  proof (induction rule: trace.induct)
    case (trace_refl s)
    then show ?case by simp
  next
    case (trace_step s e s' s'')
    then have "mapGet (jobs s') i = Some j \<or> mapGet (jobs s') i = None"
      using life_terminal [OF trace_step.hyps(1) _ assms(3), of i] life_absent [OF trace_step.hyps(1), of i]
      by (metis (no_types))
    then show ?case by (rule trace_step.IH [OF _ trace_step.prems(2,3)])
  qed
  with assms(2) show ?thesis by simp
qed

lemma trace_terminal_kept:
  assumes "trace P s s'" "mapGet (jobs s) i = Some j" "j_state j \<in> TERMINAL_STATES"
    and "\<And>s e. P s e \<Longrightarrow> e \<noteq> Revived i \<and> e \<noteq> Pruned i \<and> e \<noteq> Removed i"
  shows "mapGet (jobs s') i = Some j"
  using assms
proof (induction rule: trace.induct)
  case (trace_refl s)
  then show ?case by simp
next
  case (trace_step s e s' s'')
  then show ?case using life_terminal [OF trace_step.hyps(1)] by blast
qed

lemma life_lock:
  assumes "life s e s'" "locked s i token"
    and "e \<noteq> Parked i" "e \<noteq> Requeued i" "\<And>t. e \<noteq> Finished i t"
  shows "locked s' i token"
  using assms
  by (cases rule: life.cases) (auto simp: locked_iff changes_def promoteJob_state split: if_splits)

lemma trace_lock:
  assumes "trace P s s'" "locked s i token"
    and "\<And>s e. P s e \<Longrightarrow> locked s i token \<Longrightarrow> e \<noteq> Parked i \<and> e \<noteq> Requeued i \<and> (\<forall>t. e \<noteq> Finished i t)"
  shows "locked s' i token"
  using assms(1,2)
proof (induction rule: trace.induct)
  case (trace_refl s)
  then show ?case by simp
next
  case (trace_step s e s' s'')
  then show ?case using life_lock [OF trace_step.hyps(1)] assms(3) by metis
qed

lemma life_active_same:
  assumes "life s e s'" "mapGet (jobs s) i = Some j" "j_state j = Active"
    and "e \<noteq> Parked i" "e \<noteq> Requeued i" "e \<noteq> Edited i" "\<And>t. e \<noteq> Finished i t"
  shows "mapGet (jobs s') i = Some j"
  using assms by (cases rule: life.cases) (auto simp: changes_def promoteJob_def)

lemma trace_active_same:
  assumes "trace P s s'" "mapGet (jobs s) i = Some j" "j_state j = Active"
    and "\<And>s e. P s e \<Longrightarrow> mapGet (jobs s) i = Some j \<Longrightarrow>
           e \<noteq> Parked i \<and> e \<noteq> Requeued i \<and> e \<noteq> Edited i \<and> (\<forall>t. e \<noteq> Finished i t)"
  shows "mapGet (jobs s') i = Some j"
  using assms(1,2)
proof (induction rule: trace.induct)
  case (trace_refl s)
  then show ?case by simp
next
  case (trace_step s e s' s'')
  then show ?case using life_active_same [OF trace_step.hyps(1) _ assms(3)] assms(4) by metis
qed

definition cancelBound :: "mem_store \<Rightarrow> job_id \<Rightarrow> bool" where
  "cancelBound s i =
     (case mapGet (jobs s) i of
        None \<Rightarrow> True
      | Some j \<Rightarrow> (j_state j = Active \<and> j_cancelRequested j) \<or> j_state j \<in> TERMINAL_STATES)"

lemma cancelBound_iff:
  "cancelBound s i \<longleftrightarrow> (\<forall>j. mapGet (jobs s) i = Some j \<longrightarrow>
     (j_state j = Active \<and> j_cancelRequested j) \<or> j_state j \<in> TERMINAL_STATES)"
  by (auto simp: cancelBound_def split: option.split)

lemma life_cancelBound:
  assumes "life s e s'" "cancelBound s i" "e \<noteq> Created i" "e \<noteq> Revived i"
  shows "cancelBound s' i"
  using assms
proof (cases rule: life.cases)
  case (due_promoted now)
  with assms(2) show ?thesis by (auto simp: cancelBound_iff promoteJob_def)
next
  case (finished k j j' t n)
  with assms(2) stateOfTerminal_terminal [of t] show ?thesis
    by (auto simp: cancelBound_iff changes_def simp del: terminal_iff stateOfTerminal_terminal)
qed (auto simp: cancelBound_iff changes_def)

lemma trace_cancelBound:
  assumes "trace P s s'" "cancelBound s i" "\<And>s e. P s e \<Longrightarrow> e \<noteq> Created i \<and> e \<noteq> Revived i"
  shows "cancelBound s' i"
  using assms by (induction rule: trace.induct) (auto dest: life_cancelBound)

lemma trace_cancel_kept:
  assumes "trace P s s'" "mapGet (jobs s) i = Some j" "j_state j = Active" "j_cancelRequested j"
    and "\<And>s e. P s e \<Longrightarrow> e = Quiet \<or> (\<exists>i. e = Created i \<or> e = Edited i)"
  shows "cancelBound s' i"
proof -
  have "\<exists>j. mapGet (jobs s') i = Some j \<and> j_state j = Active \<and> j_cancelRequested j"
    using assms
  proof (induction arbitrary: j rule: trace.induct)
    case (trace_refl s)
    then show ?case by blast
  next
    case (trace_step s e s' s'')
    from trace_step.hyps(1) trace_step.prems(4) [OF trace_step.hyps(2)] trace_step.prems(1-3)
    have "\<exists>j. mapGet (jobs s') i = Some j \<and> j_state j = Active \<and> j_cancelRequested j"
      by (cases rule: life.cases) (auto simp: changes_def)
    then show ?case using trace_step.IH trace_step.prems(4) by blast
  qed
  then show ?thesis by (auto simp: cancelBound_def)
qed

section \<open>Reports of terminal transitions\<close>

type_synonym finish = "job_id \<times> nat \<times> mem_job \<times> terminal_state"

definition finishEntries :: "finish list \<Rightarrow> outbox_entry list" where
  "finishEntries fs = concat (map (\<lambda>(_, n, j, t). reportOf n j t) fs)"

definition finishedBetween :: "mem_store \<Rightarrow> mem_store \<Rightarrow> finish list \<Rightarrow> bool" where
  "finishedBetween s s' fs \<longleftrightarrow>
     distinct (map fst fs)
   \<and> outbox s' = outbox s @ finishEntries fs
   \<and> (\<forall>i. i \<in> set (map fst fs) \<longleftrightarrow>
        (\<exists>j. pendingIn s i j) \<and> (\<forall>j'. \<not> pendingIn s' i j'))
   \<and> (\<forall>(i, n, j, t) \<in> set fs. j_state j = stateOfTerminal t
        \<and> (\<exists>j0. mapGet (jobs s) i = Some j0 \<and> sameIdentity j0 j))"

text \<open>One event that is not an enqueue, a removal, a revival or a drain of the outbox.\<close>

definition ordinary :: "event \<Rightarrow> bool" where
  "ordinary e \<longleftrightarrow> (\<forall>i. e \<noteq> Created i \<and> e \<noteq> Revived i \<and> e \<noteq> Removed i) \<and> e \<noteq> Drained"

lemma life_ordinary:
  assumes "life s e s'" "ordinary e" "\<And>i t. e \<noteq> Finished i t"
  shows "outbox s' = outbox s" and "(\<exists>j. pendingIn s i j) \<longleftrightarrow> (\<exists>j. pendingIn s' i j)"
    and "pendingIn s i j \<Longrightarrow> pendingIn s' i j' \<Longrightarrow> sameIdentity j j'"
proof -
  show "outbox s' = outbox s"
    using assms by (cases rule: life.cases) (auto simp: ordinary_def)
  show "(\<exists>j. pendingIn s i j) \<longleftrightarrow> (\<exists>j. pendingIn s' i j)"
    using assms
    by (cases rule: life.cases)
      (auto simp: ordinary_def pendingIn_def changes_def promoteJob_state split: if_splits)
  show "pendingIn s i j \<Longrightarrow> pendingIn s' i j' \<Longrightarrow> sameIdentity j j'"
    using assms
    by (cases rule: life.cases)
      (auto simp: ordinary_def pendingIn_def changes_def promoteJob_def sameIdentity_def split: if_splits)
qed

lemma trace_finished:
  assumes "trace P s s'" "\<And>s e. P s e \<Longrightarrow> ordinary e"
  shows "\<exists>fs. finishedBetween s s' fs"
  using assms(1)
proof (induction rule: trace.induct)
  case (trace_refl s)
  show ?case
    by (intro exI [of _ "[]"]) (auto simp: finishedBetween_def finishEntries_def)
next
  case (trace_step s e s' s'')
  then obtain fs where fs: "finishedBetween s' s'' fs" by blast
  have ord: "ordinary e" using assms(2) trace_step.hyps(2) by blast
  show ?case
  proof (cases "\<exists>i t. e = Finished i t")
    case False
    then have nf: "\<And>i t. e \<noteq> Finished i t" by blast
    note eq = life_ordinary [OF trace_step.hyps(1) ord nf]
    have "\<exists>j0. mapGet (jobs s) i = Some j0 \<and> sameIdentity j0 j" if m: "(i, n, j, t) \<in> set fs" for i n j t
    proof -
      from fs m obtain j1 where j1: "mapGet (jobs s') i = Some j1" "sameIdentity j1 j"
        by (auto simp: finishedBetween_def)
      from m have "i \<in> set (map fst fs)" by (metis fst_conv image_eqI list.set_map)
      with fs have "\<exists>j. pendingIn s' i j" unfolding finishedBetween_def by blast
      with j1 have p1: "pendingIn s' i j1" by (simp add: pendingIn_def)
      with eq(2) obtain j0 where p0: "pendingIn s i j0" by blast
      from eq(3) [OF p0 p1] p0 j1(2) show ?thesis
        by (auto simp: pendingIn_def intro: sameIdentity_trans)
    qed
    then have "finishedBetween s s'' fs"
      using fs eq(1,2) unfolding finishedBetween_def by auto
    then show ?thesis by blast
  next
    case True
    then obtain i t where e: "e = Finished i t" by blast
    from trace_step.hyps(1) [unfolded e] obtain j j' n where
      f: "mapGet (jobs s) i = Some j" "j_state j \<notin> TERMINAL_STATES" "changes s i (Some j') s'"
        "sameIdentity j j'" "j_state j' = stateOfTerminal t" "outbox s' = outbox s @ reportOf n j' t"
      by (cases rule: life.cases) auto
    have at_i: "mapGet (jobs s') i = Some j'" and other: "\<And>k. k \<noteq> i \<Longrightarrow> mapGet (jobs s') k = mapGet (jobs s) k"
      using f(3) by (auto simp: changes_def)
    have np: "\<not> pendingIn s' i x" for x using at_i f(5) stateOfTerminal_terminal [of t] by (auto simp: pendingIn_def simp del: terminal_iff stateOfTerminal_terminal)
    have new: "i \<notin> set (map fst fs)" using fs np unfolding finishedBetween_def by blast
    have later: "\<not> pendingIn s'' i x" for x
    proof
      assume "pendingIn s'' i x"
      moreover have "mapGet (jobs s'') i = Some j' \<or> mapGet (jobs s'') i = None"
        by (rule trace_terminal [OF trace_step.hyps(3) at_i])
          (use f(5) assms(2) in \<open>auto simp: ordinary_def simp del: terminal_iff\<close>)
      ultimately show False using f(5) stateOfTerminal_terminal [of t] by (auto simp: pendingIn_def simp del: terminal_iff stateOfTerminal_terminal)
    qed
    have pend: "pendingIn s' k x \<longleftrightarrow> pendingIn s k x" if "k \<noteq> i" for k x
      using other [OF that] by (simp add: pendingIn_def)
    let ?fs = "(i, n, j', t) # fs"
    have "k \<in> set (map fst ?fs) \<longleftrightarrow> (\<exists>j. pendingIn s k j) \<and> (\<forall>j'. \<not> pendingIn s'' k j')" for k
    proof (cases "k = i")
      case True
      with f(1,2) later show ?thesis by (auto simp: pendingIn_def)
    next
      case False
      then have "k \<in> set (map fst ?fs) \<longleftrightarrow> k \<in> set (map fst fs)" by simp
      also have "\<dots> \<longleftrightarrow> (\<exists>j. pendingIn s' k j) \<and> (\<forall>j'. \<not> pendingIn s'' k j')"
        using fs unfolding finishedBetween_def by blast
      finally show ?thesis using pend [OF False] by simp
    qed
    moreover have "outbox s'' = outbox s @ finishEntries ?fs"
      using fs f(6) by (simp add: finishedBetween_def finishEntries_def)
    moreover have "distinct (map fst ?fs)" using new fs by (simp add: finishedBetween_def)
    moreover have "j_state b = stateOfTerminal c \<and> (\<exists>j0. mapGet (jobs s) k = Some j0 \<and> sameIdentity j0 b)"
      if m: "(k, a, b, c) \<in> set ?fs" for k a b c
    proof (cases "k = i")
      case True
      have "(k, a, b, c) \<notin> set fs"
        using True new by (metis fst_conv image_eqI list.set_map)
      with m have "(a, b, c) = (n, j', t)" by simp
      with f True show ?thesis by simp
    next
      case False
      with m fs other show ?thesis by (auto simp: finishedBetween_def)
    qed
    ultimately have "finishedBetween s s'' ?fs" unfolding finishedBetween_def by blast
    then show ?thesis by blast
  qed
qed

lemma trace_unfinished:
  assumes "trace P s s'" "\<And>s e. P s e \<Longrightarrow> e = Quiet \<or> (\<exists>i. e = Created i \<or> e = Edited i)"
  shows "finishedBetween s s' []"
proof -
  have "outbox s' = outbox s \<and> (\<forall>i j. pendingIn s i j \<longrightarrow> (\<exists>j'. pendingIn s' i j'))"
    using assms(1)
  proof (induction rule: trace.induct)
    case (trace_refl s)
    then show ?case by blast
  next
    case (trace_step s e s' s'')
    from trace_step.hyps(1) assms(2) [OF trace_step.hyps(2)]
    have "outbox s' = outbox s \<and> (\<forall>i j. pendingIn s i j \<longrightarrow> (\<exists>j'. pendingIn s' i j'))"
      by (cases rule: life.cases) (auto simp: pendingIn_def changes_def)
    with trace_step.IH show ?case by metis
  qed
  then show ?thesis by (auto simp: finishedBetween_def finishEntries_def)
qed

section \<open>Properties\<close>

text \<open>C6: in every reachable configuration (any sequence of operations, with enqueues suspended on an
  effectful id generator and resumed at any later point) the store is well-formed: ids are keys,
  exactly the active jobs hold a lock, exactly the terminal ones have a finish time, attempts are
  numbered from 1, insertion sequence numbers are distinct, a flow's four counters tally its rows, a
  job waits for children exactly while some are pending, and the outbox is ordered by its ids.\<close>

theorem reachable_states_well_formed:
  "reachable gen (s, P) \<Longrightarrow> wellFormed s"
  using reachable_wf [of gen "(s, P)"] by simp

lemma sample_reachable: "reachable None (threeJobs, [])"
  unfolding threeJobs_def by (rule reachable_execs [OF reachable_init]) simp

theorem reachable_states_well_formed_witness:
  "wellFormed (exec None (OpCancel 20 ''j-2'') threeJobs)"
proof -
  have "reachable None (exec None (OpCancel 20 ''j-2'') threeJobs, [])"
    by (rule reachable_step [OF sample_reachable step_op]) simp
  then show ?thesis by (rule reachable_states_well_formed)
qed

text \<open>C1: every operation of the store refines the life-cycle specification: what it does to jobs and
  outbox is a sequence of life-cycle events, each with its guard, and each one the caller of that
  operation is permitted to cause (only a lock holder, an expired lock or a settled flow requeues or
  finishes a job, only a retry revives, only a removal deletes a queued job).\<close>

theorem operations_refine_lifecycle:
  "wellFormed s \<Longrightarrow> trace (permitted op) s (exec gen op s)"
  by (rule exec_trace)

theorem operations_refine_lifecycle_witness:
  "trace (permitted (OpAck 20 ''j-2'' ''t'' (Complete None))) oneActive
     (exec None (OpAck 20 ''j-2'' ''t'' (Complete None)) oneActive)"
  by (rule operations_refine_lifecycle [OF oneActive_wf])

text \<open>C7: a terminal record is final. Whatever operation runs, a completed, failed or cancelled job is
  afterwards either untouched or deleted; only a retry of that job is exempt.\<close>

theorem terminal_records_are_final:
  assumes "wellFormed s" and "mapGet (jobs s) i = Some j" and "j_state j \<in> TERMINAL_STATES"
    and "\<forall>now. op \<noteq> OpRetry now i"
  shows "mapGet (jobs (exec gen op s)) i \<in> {Some j, None}"
proof (cases "\<exists>s. permitted op s (Created i)")
  case True
  then have "permitted op s e \<Longrightarrow> e \<noteq> Revived i \<and> e \<noteq> Pruned i \<and> e \<noteq> Removed i" for s e by auto
  from trace_terminal_kept [OF exec_trace [OF assms(1)] assms(2,3) this] show ?thesis by simp
next
  case False
  moreover have "\<not> permitted op s (Revived i)" for s using assms(4) by simp
  ultimately show ?thesis
    using trace_terminal [OF exec_trace [OF assms(1), of op gen] assms(2,3)] by blast
qed

text \<open>\<open>j-2\<close> completed at 20.\<close>

definition oneDone :: mem_store where
  "oneDone = exec None (OpAck 20 ''j-2'' ''t'' (Complete (Some JNull))) oneActive"

lemma oneDone_wf: "wellFormed oneDone"
  unfolding oneDone_def by (rule exec_wf [OF _ oneActive_wf]) (simp add: fanout_ok_def)

lemma oneDone_job:
  "\<exists>j. mapGet (jobs oneDone) ''j-2'' = Some j \<and> j_state j = Completed"
proof -
  have "(case mapGet (jobs oneDone) ''j-2'' of None \<Rightarrow> False | Some j \<Rightarrow> j_state j = Completed)" by code_simp
  then show ?thesis by (auto split: option.splits)
qed

text \<open>A cancel of the completed job leaves its record as it is; a removal deletes it.\<close>

theorem terminal_records_are_final_witness:
  "\<exists>j. mapGet (jobs oneDone) ''j-2'' = Some j \<and> j_state j = Completed
     \<and> mapGet (jobs (exec None (OpCancel 30 ''j-2'') oneDone)) ''j-2'' = Some j
     \<and> mapGet (jobs (exec None (OpRemove ''j-2'') oneDone)) ''j-2'' = None"
proof -
  from oneDone_job obtain j where j: "mapGet (jobs oneDone) ''j-2'' = Some j" "j_state j = Completed" by blast
  have "mapGet (jobs (exec None (OpCancel 30 ''j-2'') oneDone)) ''j-2'' \<in> {Some j, None}"
    by (rule terminal_records_are_final [OF oneDone_wf j(1)]) (simp_all add: j(2))
  moreover have "mapGet (jobs (exec None (OpCancel 30 ''j-2'') oneDone)) ''j-2'' \<noteq> None" by code_simp
  moreover have "mapGet (jobs (exec None (OpRemove ''j-2'') oneDone)) ''j-2'' = None" by code_simp
  ultimately show ?thesis using j by auto
qed

text \<open>C8: a lock is lost only by its holder or after its expiry. While a worker holds the lock of a job,
  no operation takes it away except its own acknowledgement or release, and the recovery of stalled
  jobs at a time its lock has expired: cancel, retry, remove, retention, history sweeps, flow
  reports and other workers' calls leave it in place.\<close>

theorem locks_are_lost_only_by_owner_or_expiry:
  assumes "wellFormed s" and "mapGet (jobs s) i = Some j" and "locked s i token"
    and "\<forall>now outcome. op \<noteq> OpAck now i token outcome" and "\<forall>now. op \<noteq> OpRelease now i token"
    and "\<forall>now m. op = OpRecoverStalled now m \<longrightarrow> \<not> stalled now j"
  shows "locked (exec gen op s) i token"
proof (cases "\<exists>now m. op = OpRecoverStalled now m")
  case True
  from assms(2,3) have j: "j_state j = Active" "m_lockToken j = Some token" by (auto simp: locked_iff)
  have "mapGet (jobs (exec gen op s)) i = Some j"
  proof (rule trace_active_same [OF exec_trace [OF assms(1)] assms(2) j(1)])
    fix s e assume "permitted op s e" "mapGet (jobs s) i = Some j"
    with True assms(6) show "e \<noteq> Parked i \<and> e \<noteq> Requeued i \<and> e \<noteq> Edited i \<and> (\<forall>t. e \<noteq> Finished i t)"
      by auto
  qed
  with j show ?thesis by (simp add: locked_iff)
next
  case False
  show ?thesis
  proof (rule trace_lock [OF exec_trace [OF assms(1)] assms(3)])
    fix s e assume p: "permitted op s e" and l: "locked s i token"
    then have tok: "locked s i t \<Longrightarrow> t = token" for t by (auto simp: locked_iff)
    have act: "j_state j = Active" if "mapGet (jobs s) i = Some j" for j
      using l that by (auto simp: locked_iff)
    have own: False if "(\<exists>now token oc. op = OpAck now i token oc \<and> locked s i token)
      \<or> (\<exists>now token. op = OpRelease now i token \<and> locked s i token)"
      using that tok assms(4,5) by blast
    have none: False if "mapGet (jobs s) i = Some j" "j_state j = WaitingChildren \<or> j_state j \<noteq> Active" for j
      using act that by auto
    show "e \<noteq> Parked i \<and> e \<noteq> Requeued i \<and> (\<forall>t. e \<noteq> Finished i t)"
    proof (intro conjI notI allI)
      assume "e = Parked i"
      with p own show False by simp
    next
      assume "e = Requeued i"
      with p own none False show False by simp blast
    next
      fix t assume "e = Finished i t"
      with p own none False show False by simp blast
    qed
  qed
qed

lemma oneActive_locked:
  "locked oneActive ''j-2'' ''t'' \<and> (\<exists>j. mapGet (jobs oneActive) ''j-2'' = Some j \<and> \<not> stalled 39 j)"
proof -
  have "(case mapGet (jobs oneActive) ''j-2'' of None \<Rightarrow> False
    | Some j \<Rightarrow> j_state j = Active \<and> m_lockToken j = Some ''t'' \<and> \<not> stalled 39 j)" by code_simp
  then show ?thesis by (auto simp: locked_iff split: option.splits)
qed

theorem locks_are_lost_only_by_owner_or_expiry_witness:
  "locked (exec None (OpRecoverStalled 39 1) oneActive) ''j-2'' ''t''"
proof -
  from oneActive_locked obtain j where
    "mapGet (jobs oneActive) ''j-2'' = Some j" "locked oneActive ''j-2'' ''t''" "\<not> stalled 39 j" by blast
  then show ?thesis
    using locks_are_lost_only_by_owner_or_expiry [OF oneActive_wf, of "''j-2''" j "''t''" "OpRecoverStalled 39 1" None]
    by simp
qed

text \<open>C4: no terminal transition of a flow child goes unreported, and none is reported twice. Between
  the store before and after any operation (other than a retry, an operator removal or the drain of
  the outbox itself), the outbox grows by exactly one report for each job that left the pending
  states, with its outcome, and by nothing else; a job without a parent reports nothing.\<close>

theorem terminal_transitions_are_reported_once:
  assumes "wellFormed s"
    and "\<forall>i now. op \<noteq> OpRetry now i" "\<forall>i. op \<noteq> OpRemove i" "\<forall>ids. op \<noteq> OpDeleteOutbox ids"
  shows "\<exists>fs. finishedBetween s (exec gen op s) fs"
proof (cases "(\<exists>now r. op = OpEnqueue now r) \<or> (\<exists>rs. op = OpEnqueueMany rs)
    \<or> (\<exists>now k a b r. op = OpTickSchedule now k a b r)")
  case True
  have only: "e = Quiet \<or> (\<exists>i. e = Created i \<or> e = Edited i)" if "permitted op s e" for s e
    using that True by (cases e) auto
  have "finishedBetween s (exec gen op s) []"
    by (rule trace_unfinished [OF exec_trace [OF assms(1)]]) (rule only)
  then show ?thesis by blast
next
  case False
  have "ordinary e" if "permitted op s e" for s e
    using that False assms(2-4) by (cases e) (auto simp: ordinary_def)
  from trace_finished [where P = "permitted op", OF exec_trace [OF assms(1)] this] show ?thesis .
qed

definition childStore :: mem_store where
  "childStore = execs None
     [OpEnqueue 0 (aRequest\<lparr>rq_parent := Some anEnvelope\<rparr>), OpClaim 10 someOptions] emptyStore"

lemma childStore_wf: "wellFormed childStore"
  unfolding childStore_def by (rule execs_wf [OF wf_empty]) simp

theorem terminal_transitions_are_reported_once_witness:
  "\<exists>fs. finishedBetween childStore (exec None (OpAck 20 ''j-1'' ''t'' (Fail None)) childStore) fs
     \<and> map (\<lambda>e. (rp_childKey (ob_report e), rp_outcome (ob_report e))) (finishEntries fs) = [(''a'', TFailed)]"
proof -
  obtain fs where fs: "finishedBetween childStore (exec None (OpAck 20 ''j-1'' ''t'' (Fail None)) childStore) fs"
    using terminal_transitions_are_reported_once [OF childStore_wf, of "OpAck 20 ''j-1'' ''t'' (Fail None)" None]
    by auto
  have "outbox childStore = []" by code_simp
  moreover have "map (\<lambda>e. (rp_childKey (ob_report e), rp_outcome (ob_report e)))
    (outbox (exec None (OpAck 20 ''j-1'' ''t'' (Fail None)) childStore)) = [(''a'', TFailed)]" by code_simp
  ultimately show ?thesis using fs by (auto simp: finishedBetween_def)
qed

section \<open>Guards\<close>

text \<open>A caller without the lock changes nothing. Acknowledging or releasing a job with a token that
  does not hold its lock fails with \<open>LockLostError\<close> (or \<open>JobNotFoundError\<close>) and leaves the store as it
  was, extending it reports the lock as lost and leaves the store as it was.\<close>

theorem stale_callers_change_nothing:
  "locked s i token \<or>
     (ack now i token outcome s = (Inl (if mapHas (jobs s) i then LockLostError i else JobNotFoundError i), s)
      \<and> release now i token s = (Inl (if mapHas (jobs s) i then LockLostError i else JobNotFoundError i), s)
      \<and> extendLocks now [(i, token)] d s = (\<lparr>xl_lost = [i], xl_cancelRequested = []\<rparr>, s))"
  by (cases "mapGet (jobs s) i") (auto simp: locked_iff ack_def release_def holdsLock_def)

text \<open>A fan-out whose specifications lack an explicit child id is refused before anything is
  written: the job keeps its lock and the store is unchanged.\<close>

theorem bad_fan_out_leaves_the_store:
  assumes "locked s i token" and "\<exists>c \<in> set children. rq_id (cs_request c) = None"
  shows "ack now i token (FanOut ff children) s =
    (Inl (JobStoreError ''FanOut child specs require an explicit request.id''), s)"
  using assms by (force simp: locked_iff ack_def missingChildId_def list_ex_iff)

theorem bad_fan_out_leaves_the_store_witness:
  "ack 20 ''j-2'' ''t'' (FanOut True [\<lparr>cs_childKey = ''a'', cs_storeKey = ''s'', cs_request = aRequest\<rparr>]) oneActive =
    (Inl (JobStoreError ''FanOut child specs require an explicit request.id''), oneActive)"
  by (rule bad_fan_out_leaves_the_store) (use oneActive_locked in \<open>simp_all add: aRequest_def\<close>)

text \<open>C16: cancellation wins. Once a cancel has been requested of a running job, no operation brings the
  job back to a queue or parks it: after any operation it is still running with the request standing,
  or terminal, or deleted. A retry acknowledgement, a fan-out, a release at shutdown and the recovery
  of a stalled job all honour the request. (Once the job is terminal an operator's \<open>retry\<close> may make it
  run again: that is a new life of the job, and takes an operation of its own.)\<close>

theorem cancellation_wins_over_revival:
  assumes "wellFormed s" and "mapGet (jobs s) i = Some j" and "j_state j = Active" "j_cancelRequested j"
  shows "cancelBound (exec gen op s) i"
proof (cases "\<exists>s. permitted op s (Created i)")
  case True
  have only: "e = Quiet \<or> (\<exists>i. e = Created i \<or> e = Edited i)" if "permitted op s e" for s e
    using that True by (cases e) auto
  show ?thesis by (rule trace_cancel_kept [OF exec_trace [OF assms(1)] assms(2-4)]) (rule only)
next
  case False
  show ?thesis
  proof (cases "\<exists>now. op = OpRetry now i")
    case True
    then have "exec gen op s = s" using assms(2,3) by (auto simp: retry_def)
    then show ?thesis using assms by (simp add: cancelBound_def)
  next
    case no: False
    have "cancelBound s i" using assms by (simp add: cancelBound_def)
    then show ?thesis
      by (rule trace_cancelBound [OF exec_trace [OF assms(1)]]) (use False no in auto)
  qed
qed

lemma cancelRequested_sample:
  "\<exists>j. mapGet (jobs (exec None (OpCancel 15 ''j-2'') oneActive)) ''j-2'' = Some j
     \<and> j_state j = Active \<and> j_cancelRequested j"
proof -
  have "(case mapGet (jobs (exec None (OpCancel 15 ''j-2'') oneActive)) ''j-2'' of None \<Rightarrow> False
    | Some j \<Rightarrow> j_state j = Active \<and> j_cancelRequested j)" by code_simp
  then show ?thesis by (auto split: option.splits)
qed

theorem cancellation_wins_over_revival_witness:
  "cancelBound (execs None [OpCancel 15 ''j-2'', OpAck 20 ''j-2'' ''t'' (Retry 0 None)] oneActive) ''j-2''"
proof -
  have "wellFormed (exec None (OpCancel 15 ''j-2'') oneActive)" by (rule exec_wf [OF _ oneActive_wf]) simp
  with cancelRequested_sample show ?thesis
    using cancellation_wins_over_revival [of "exec None (OpCancel 15 ''j-2'') oneActive" "''j-2''" _ None
        "OpAck 20 ''j-2'' ''t'' (Retry 0 None)"] by auto
qed

end
