(* ===== verification/FlowProps.thy ===== *)
theory FlowProps
  imports Safety
begin

text \<open>
  Flow bookkeeping: the counters account for the rows, a report is applied at most once however often
  it is delivered, and the decision a report leads to (fail fast, resume, keep waiting).
\<close>

section \<open>Settled rows\<close>

definition settledFor :: "mem_store \<Rightarrow> flow_child_report \<Rightarrow> bool" where
  "settledFor s r \<longleftrightarrow>
     (case rowOf s (rp_flowId r) (rp_childKey r) of None \<Rightarrow> True | Some row \<Rightarrow> ch_status row \<noteq> RPending)"

text \<open>Rows only ever move away from pending: the relation every step of the loop satisfies.\<close>

definition rowsSettle :: "mem_store \<Rightarrow> mem_store \<Rightarrow> bool" where
  "rowsSettle s s' \<longleftrightarrow> (\<forall>i k row'. rowOf s' i k = Some row' \<longrightarrow> ch_status row' = RPending \<longrightarrow>
     (\<exists>row. rowOf s i k = Some row \<and> ch_status row = RPending))"

lemma rowsSettle_refl [simp]: "rowsSettle s s"
  by (simp add: rowsSettle_def)

lemma rowsSettle_trans: "rowsSettle s s' \<Longrightarrow> rowsSettle s' s'' \<Longrightarrow> rowsSettle s s''"
  unfolding rowsSettle_def by metis

lemma settledFor_iff:
  "settledFor s r \<longleftrightarrow> (\<forall>row. rowOf s (rp_flowId r) (rp_childKey r) = Some row \<longrightarrow> ch_status row \<noteq> RPending)"
  by (simp add: settledFor_def split: option.split)

lemma rowsSettle_settled: "rowsSettle s s' \<Longrightarrow> settledFor s r \<Longrightarrow> settledFor s' r"
  unfolding rowsSettle_def settledFor_iff by metis

lemma rowsSettle_same: "flowChildren s' = flowChildren s \<Longrightarrow> rowsSettle s s'"
  by (simp add: rowsSettle_def rowOf_def)

lemma rowsSettle_delete: "rowsSettle s (deleteJob i s)"
  by (auto simp: rowsSettle_def rowOf_Some mapGet_delete split: if_splits)

lemma rowsSettle_fold: "(\<And>x s. rowsSettle s (f x s)) \<Longrightarrow> rowsSettle s (fold f xs s)"
proof (induction xs arbitrary: s)
  case Nil
  then show ?case by simp
next
  case (Cons x xs)
  have "rowsSettle s (f x s)" by (rule Cons.prems)
  moreover have "rowsSettle (f x s) (fold f xs (f x s))" by (rule Cons.IH) (rule Cons.prems)
  ultimately show ?case by (simp add: rowsSettle_trans)
qed

lemma rowsSettle_applyKeep: "rowsSettle s (applyKeep j now s)"
  by (simp add: applyKeep_def pruneUnlessOwing_def rowsSettle_delete rowsSettle_fold split: option.split)

lemma rowsSettle_settleMark: "rowsSettle s (snd (settleMarkRows j s))"
  by (auto simp: rowsSettle_def rowOf_Some settleMarkRows_def markPendingRowsCancelled_def map_ran_conv
      cancelPendingRow_def split: option.splits if_splits)

lemma rowsSettle_failParent: "rowsSettle s (failParent key now p s)"
proof -
  have "rowsSettle (snd (settleMarkRows p s))
    (releaseDedupe j now (appendOutbox j TFailed (putJob j (snd (settleMarkRows p s)))))" for j
    by (rule rowsSettle_same) simp
  then show ?thesis
    unfolding failParent_def Let_def split_beta
    by (meson rowsSettle_trans rowsSettle_settleMark rowsSettle_applyKeep)
qed

lemma rowsSettle_resume: "rowsSettle s (resumeParent now p s)"
  by (rule rowsSettle_same) (simp add: resumeParent_def Let_def)

lemma rowsSettle_settleOne: "rowsSettle (snd acc) (snd (settleOne now rs e acc))"
  by (auto simp: settleOne_def rowsSettle_failParent rowsSettle_resume split: prod.split option.split)

lemma rowOf_setRow:
  assumes "rowOf s i k = Some row"
  shows "rowOf (setRow i k row' s) i' k' = (if i' = i \<and> k' = k then Some row' else rowOf s i' k')"
proof -
  from assms obtain rs where "mapGet (flowChildren s) i = Some rs" by (auto simp: rowOf_Some)
  then show ?thesis by (simp add: setRow_def rowOf_def)
qed

lemma rowOf_applyReport:
  assumes "rowOf s (rp_flowId r) (rp_childKey r) = Some row"
  shows "rowOf (applyReport r row s) i k =
    (if i = rp_flowId r \<and> k = rp_childKey r then Some (settleRow r row) else rowOf s i k)"
proof -
  have "flowChildren (countOnParent r s1) = flowChildren s1" for s1
    by (simp add: countOnParent_def split: option.split)
  then have "rowOf (applyReport r row s) i k = rowOf (setRow (rp_flowId r) (rp_childKey r) (settleRow r row) s) i k"
    by (simp add: applyReport_def rowOf_def)
  with rowOf_setRow [OF assms] show ?thesis by simp
qed

lemma settleRow_status [simp]: "ch_status (settleRow r row) \<noteq> RPending"
  by (simp add: settleRow_def)

lemma recordOne_settles:
  "rowsSettle (snd (snd acc)) (snd (snd (recordOne (i, r) acc))) \<and> settledFor (snd (snd (recordOne (i, r) acc))) r"
proof -
  obtain results touched s where acc: "acc = (results, touched, s)" by (metis prod_cases3)
  show ?thesis
  proof (cases "\<exists>row. rowOf s (rp_flowId r) (rp_childKey r) = Some row \<and> ch_status row = RPending")
    case True
    then obtain row where row: "rowOf s (rp_flowId r) (rp_childKey r) = Some row" "ch_status row = RPending"
      by blast
    have "rowsSettle s (applyReport r row s) \<and> settledFor (applyReport r row s) r"
      by (auto simp: rowsSettle_def settledFor_def rowOf_applyReport [OF row(1)] split: if_splits)
    with row show ?thesis by (simp add: acc recordOne_applied)
  next
    case False
    then show ?thesis by (auto simp: acc recordOne_applied settledFor_def split: option.splits)
  qed
qed

lemma recordOne_settled:
  "settledFor (snd (snd acc)) r \<Longrightarrow> recordOne (i, r) acc = acc"
  by (cases acc) (auto simp: recordOne_applied settledFor_def split: option.splits)

lemma recordOne_fold_settles:
  "rowsSettle (snd (snd acc)) (snd (snd (fold recordOne es acc)))
   \<and> (\<forall>(i, r) \<in> set es. settledFor (snd (snd (fold recordOne es acc))) r)"
proof (induction es arbitrary: acc)
  case Nil
  then show ?case by simp
next
  case (Cons e es)
  obtain i r where e: "e = (i, r)" by fastforce
  note one = recordOne_settles [of acc i r] and IH = Cons.IH [of "recordOne e acc"]
  have "settledFor (snd (snd (fold recordOne es (recordOne e acc)))) r"
    using rowsSettle_settled [of "snd (snd (recordOne e acc))"] one IH e by blast
  with one IH e show ?case by (auto intro: rowsSettle_trans)
qed

lemma recordChildResults_settles:
  "\<forall>r\<in>set reports. settledFor (snd (recordChildResults now reports s)) r"
proof
  fix r assume "r \<in> set reports"
  then obtain i where "i < length reports" "reports ! i = r" by (auto simp: in_set_conv_nth)
  then have i: "(i, r) \<in> set (enumerate 0 reports)" by (auto simp: in_set_enumerate_eq)
  obtain results touched s1 where p1: "recordPhase1 reports s = (results, touched, s1)"
    by (metis prod_cases3)
  have "settledFor s1 r"
    using recordOne_fold_settles [of "(map (\<lambda>_. \<lparr>rr_applied = False, rr_parentSettled = False\<rparr>) reports, [], s)"
        "enumerate 0 reports"] i p1 [unfolded recordPhase1_def] by fastforce
  moreover have "rowsSettle s1 (snd (fold (settleOne now reports) touched (results, s1)))"
    by (rule fold_invariant_list [where I = "\<lambda>acc. rowsSettle s1 (snd acc)"])
      (auto intro: rowsSettle_trans [OF _ rowsSettle_settleOne])
  ultimately show "settledFor (snd (recordChildResults now reports s)) r"
    by (simp add: recordChildResults_def p1 rowsSettle_settled)
qed

lemma recordChildResults_noop:
  assumes "\<forall>r\<in>set reports. settledFor s r"
  shows "recordChildResults now reports s = (map (\<lambda>_. \<lparr>rr_applied = False, rr_parentSettled = False\<rparr>) reports, s)"
proof -
  have "fold recordOne es acc = acc" if "\<forall>(i, r) \<in> set es. settledFor (snd (snd acc)) r" for es and acc :: record_state
    using that by (induction es) (auto simp: recordOne_settled)
  moreover have "\<forall>(i, r) \<in> set (enumerate 0 reports). settledFor s r"
    using assms by (auto dest: in_set_enumerate_eq [THEN iffD1] simp: in_set_enumerate_eq)
  ultimately show ?thesis by (simp add: recordChildResults_def recordPhase1_def)
qed

section \<open>Accounts\<close>

lemma tally_total:
  "tally RPending rs + tally RCompleted rs + tally RFailed rs + tally RCancelled rs = int (length rs)"
proof (induction rs)
  case Nil
  then show ?case by simp
next
  case (Cons p rs)
  obtain k row where "p = (k, row)" by fastforce
  with Cons show ?case by (cases "ch_status row") (simp_all add: tally_Cons)
qed

text \<open>C10: the counters of a flow account for its children. In every reachable configuration, a job with
  flow data has one row per child, its four counters are the numbers of rows in each status and add up
  to the number of children, and the job waits for children exactly while the pending counter is
  positive; a job without flow data has no rows.\<close>

theorem flow_counters_account_for_children:
  assumes "reachable gen (s, P)" and "mapGet (jobs s) i = Some j"
  shows "case j_flow j of
      None \<Rightarrow> mapGet (flowChildren s) i = None \<and> j_state j \<noteq> WaitingChildren
    | Some f \<Rightarrow> (\<exists>rows. mapGet (flowChildren s) i = Some rows
          \<and> fs_pending f = tally RPending rows \<and> fs_completed f = tally RCompleted rows
          \<and> fs_failed f = tally RFailed rows \<and> fs_cancelled f = tally RCancelled rows
          \<and> fs_pending f + fs_completed f + fs_failed f + fs_cancelled f = int (length rows)
          \<and> (j_state j = WaitingChildren \<longleftrightarrow> 0 < fs_pending f))"
proof -
  have w: "wellFormed s" using reachable_wf [OF assms(1)] by simp
  have base: "flow_base j (mapGet (flowChildren s) i)" by (rule wf_flow [OF w assms(2)])
  show ?thesis
  proof (cases "j_flow j")
    case None
    with base show ?thesis by (simp add: flow_base_def)
  next
    case (Some f)
    with base obtain rows where "mapGet (flowChildren s) i = Some rows" "flow_counts f rows" "flow_idle j"
      by (auto simp: flow_base_def)
    with Some wf_waits [OF w assms(2)] tally_total [of rows] show ?thesis
      by (auto simp: flow_counts_def waits_for_children_def)
  qed
qed

text \<open>A parent \<open>j-1\<close> that has fanned out to children \<open>a\<close> and \<open>b\<close>, fail-fast.\<close>

definition specFor :: "string \<Rightarrow> flow_child_spec" where
  "specFor k = \<lparr>cs_childKey = k, cs_storeKey = ''s'', cs_request = aRequest\<lparr>rq_id := Some (''c-'' @ k)\<rparr>\<rparr>"

definition flowOps :: "bool \<Rightarrow> op list" where
  "flowOps ff = [OpEnqueue 0 aRequest, OpClaim 10 someOptions,
     OpAck 20 ''j-1'' ''t'' (FanOut ff [specFor ''a'', specFor ''b''])]"

definition flowStore :: "bool \<Rightarrow> mem_store" where
  "flowStore ff = execs None (flowOps ff) emptyStore"

definition reportFor :: "string \<Rightarrow> terminal_state \<Rightarrow> flow_child_report" where
  "reportFor k t = \<lparr>rp_flowId = ''j-1'', rp_childKey = k, rp_outcome = t, rp_exit = None, rp_failedReason = None\<rparr>"

lemma flowStore_reachable: "reachable None (flowStore ff, [])"
  unfolding flowStore_def
  by (rule reachable_execs [OF reachable_init]) (simp add: flowOps_def fanout_ok_def specFor_def)

theorem flow_counters_account_for_children_witness:
  "\<exists>j f rows. mapGet (jobs (flowStore True)) ''j-1'' = Some j \<and> j_flow j = Some f
     \<and> mapGet (flowChildren (flowStore True)) ''j-1'' = Some rows
     \<and> fs_pending f + fs_completed f + fs_failed f + fs_cancelled f = int (length rows)"
proof -
  have "(case mapGet (jobs (flowStore True)) ''j-1'' of None \<Rightarrow> False | Some j \<Rightarrow> j_flow j \<noteq> None)" by code_simp
  then obtain j f where j: "mapGet (jobs (flowStore True)) ''j-1'' = Some j" "j_flow j = Some f"
    by (auto split: option.splits)
  from flow_counters_account_for_children [OF flowStore_reachable j(1)] j show ?thesis by auto
qed

section \<open>Deliveries\<close>

text \<open>C17: delivering reports again does nothing. After a batch has been recorded, recording any reports
  from it again, at any time and in any order and multiplicity, applies none of them, settles no
  parent and leaves the store exactly as it was. The outbox relay may therefore deliver at least once.\<close>

theorem redelivered_reports_are_ignored:
  assumes "set again \<subseteq> set reports" and "s' = snd (recordChildResults now reports s)"
  shows "recordChildResults later again s' =
    (map (\<lambda>_. \<lparr>rr_applied = False, rr_parentSettled = False\<rparr>) again, s')"
  by (rule recordChildResults_noop)
    (use recordChildResults_settles [of reports now s] assms in blast)

theorem redelivered_reports_are_ignored_witness:
  "recordChildResults 40 [reportFor ''a'' TCompleted]
       (snd (recordChildResults 30 [reportFor ''a'' TCompleted, reportFor ''b'' TFailed] (flowStore False))) =
    ([\<lparr>rr_applied = False, rr_parentSettled = False\<rparr>],
     snd (recordChildResults 30 [reportFor ''a'' TCompleted, reportFor ''b'' TFailed] (flowStore False)))"
  using redelivered_reports_are_ignored
    [of "[reportFor ''a'' TCompleted]" "[reportFor ''a'' TCompleted, reportFor ''b'' TFailed]" _ 30 "flowStore False" 40]
  by simp

section \<open>Decisions\<close>

lemma applyKeep_only_deletes:
  "(mapGet (jobs (applyKeep j now s)) k = mapGet (jobs s) k
      \<and> mapGet (flowChildren (applyKeep j now s)) k = mapGet (flowChildren s) k)
   \<or> (mapGet (jobs (applyKeep j now s)) k = None \<and> mapGet (flowChildren (applyKeep j now s)) k = None)"
proof (cases "keepPolicyFor (j_keep j) (j_state j)")
  case None
  then show ?thesis by (simp add: applyKeep_def)
next
  case (Some policy)
  have "(mapGet (jobs (fold pruneUnlessOwing xs s)) k = mapGet (jobs s) k
      \<and> mapGet (flowChildren (fold pruneUnlessOwing xs s)) k = mapGet (flowChildren s) k)
   \<or> (mapGet (jobs (fold pruneUnlessOwing xs s)) k = None \<and> mapGet (flowChildren (fold pruneUnlessOwing xs s)) k = None)" for xs
    by (rule fold_invariant_list [where I = "\<lambda>s'. (mapGet (jobs s') k = mapGet (jobs s) k
        \<and> mapGet (flowChildren s') k = mapGet (flowChildren s) k)
        \<or> (mapGet (jobs s') k = None \<and> mapGet (flowChildren s') k = None)"])
      (auto simp: pruneUnlessOwing_def mapGet_delete)
  with Some show ?thesis by (simp add: applyKeep_def)
qed

lemma cancelPendingRow_status [simp]: "ch_status (cancelPendingRow row) \<noteq> RPending"
  by (simp add: cancelPendingRow_def)

lemma settleMarkRows_no_pending:
  "rowOf (snd (settleMarkRows j s)) (j_id j) k = Some row \<Longrightarrow> ch_status row \<noteq> RPending"
  by (auto simp: rowOf_Some settleMarkRows_def markPendingRowsCancelled_def map_ran_conv split: option.splits)

lemma failParent_result:
  assumes id: "j_id parent = i"
  shows "(\<forall>p. mapGet (jobs (failParent key now parent s)) i = Some p \<longrightarrow>
            j_state p = Failed \<and> j_finishedAt p = Some now
            \<and> j_failedReason p = Some (''effect-mq: flow child '' @ [CHR 0x22] @ key @ [CHR 0x22] @ '' failed''))
    \<and> (\<forall>k row. rowOf (failParent key now parent s) i k = Some row \<longrightarrow> ch_status row \<noteq> RPending)"
proof -
  obtain f where f: "fst (settleMarkRows parent s) = parent\<lparr>j_flow := f\<rparr>"
    using settleMarkRows_job by blast
  let ?s2 = "snd (settleMarkRows parent s)"
  let ?p = "recordAttempt AFailed now None
    (parent\<lparr>j_flow := f, j_cancelRequested := False, j_state := Failed, j_finishedAt := Some now,
       j_failedReason := Some (''effect-mq: flow child '' @ [CHR 0x22] @ key @ [CHR 0x22] @ '' failed'')\<rparr>)"
  let ?s = "releaseDedupe ?p now (appendOutbox ?p TFailed (putJob ?p ?s2))"
  have eq: "failParent key now parent s = applyKeep ?p now ?s"
    using f by (simp add: failParent_def Let_def split_beta)
  have job: "mapGet (jobs ?s) i = Some ?p" using id by simp
  have rows: "mapGet (flowChildren ?s) i = mapGet (flowChildren ?s2) i" by simp
  show ?thesis
    using applyKeep_only_deletes [of ?p now ?s i] job rows settleMarkRows_no_pending [of parent s] id
    unfolding eq rowOf_def by auto
qed

text \<open>C11: what one report does to its flow. A report for a pending child of a flow is applied, and
  (1) the failure of a child of a fail-fast flow fails the parent at once, with the child named as the
  reason and no row left pending; (2) otherwise the last pending child makes the parent runnable now,
  for its collect phase, and wakes its queue; (3) otherwise the parent keeps waiting with one child
  less pending, and nobody is woken.\<close>

theorem report_decides_parent:
  assumes w: "wellFormed s" and row: "rowOf s (rp_flowId r) (rp_childKey r) = Some row" "ch_status row = RPending"
  shows "\<exists>parent f. mapGet (jobs s) (rp_flowId r) = Some parent \<and> j_flow parent = Some f
    \<and> (case recordChildResults now [r] s of (results, s') \<Rightarrow>
        if fs_failFast f \<and> rp_outcome r = TFailed then
          results = [\<lparr>rr_applied = True, rr_parentSettled = True\<rparr>]
          \<and> (\<forall>p. mapGet (jobs s') (rp_flowId r) = Some p \<longrightarrow> j_state p = Failed \<and> j_finishedAt p = Some now
               \<and> j_failedReason p = Some (''effect-mq: flow child '' @ [CHR 0x22] @ rp_childKey r @ [CHR 0x22] @ '' failed''))
          \<and> (\<forall>k x. rowOf s' (rp_flowId r) k = Some x \<longrightarrow> ch_status x \<noteq> RPending)
        else if fs_pending f = 1 then
          results = [\<lparr>rr_applied = True, rr_parentSettled = True\<rparr>]
          \<and> (\<exists>p. mapGet (jobs s') (rp_flowId r) = Some p \<and> j_state p = Waiting \<and> j_runAt p = now)
          \<and> wakeVersion s' = wakeVersion s + 1
        else
          results = [\<lparr>rr_applied = True, rr_parentSettled = False\<rparr>]
          \<and> (\<exists>p g. mapGet (jobs s') (rp_flowId r) = Some p \<and> j_state p = WaitingChildren
               \<and> j_flow p = Some g \<and> fs_pending g = fs_pending f - 1 \<and> 0 < fs_pending g)
          \<and> wakeVersion s' = wakeVersion s)"
proof -
  let ?i = "rp_flowId r"
  from applyReport_wf [OF w [unfolded wellFormed_def] row] obtain parent f rs where
    p: "mapGet (jobs s) ?i = Some parent" "j_state parent = WaitingChildren" "j_flow parent = Some f"
      "mapGet (flowChildren s) ?i = Some rs" "mapGet rs (rp_childKey r) = Some row"
    and ap: "applyReport r row s =
         putJob (parent\<lparr>j_flow := Some (countReport (rp_outcome r) f)\<rparr>)
           (s\<lparr>flowChildren := mapSet ?i (mapSet (rp_childKey r) (settleRow r row) rs) (flowChildren s)\<rparr>)"
    by metis
  have id: "j_id parent = ?i" by (rule wf_id [OF w p(1)])
  have "flow_counts f rs" using wf_flow [OF w p(1)] p(3,4) by (auto simp: flow_base_def)
  then have pend: "0 < fs_pending f" using tally_pos [OF p(5)] row(2) by (simp add: flow_counts_def)
  let ?p1 = "parent\<lparr>j_flow := Some (countReport (rp_outcome r) f)\<rparr>"
  let ?s1 = "applyReport r row s"
  have get1: "mapGet (jobs ?s1) ?i = Some ?p1" using id by (simp add: ap)
  have wake1: "wakeVersion ?s1 = wakeVersion s" by (simp add: ap)
  have ff: "fs_failFast (countReport (rp_outcome r) f) = fs_failFast f" by (simp add: countReport_def)
  have red: "recordChildResults now [r] s =
    settleOne now [r] (?i, \<lparr>tc_lastApplied = 0, tc_firstAppliedFailed = (if rp_outcome r = TFailed then Some 0 else None)\<rparr>)
      ([\<lparr>rr_applied = True, rr_parentSettled = False\<rparr>], ?s1)"
    using row by (simp add: recordChildResults_def recordPhase1_def recordOne_applied touchFlow_def Let_def)
  note fail = failParent_result [of ?p1 ?i "rp_childKey r" now ?s1]
  show ?thesis
    using p(1-3) get1 ff pend id wake1 fail
    by (auto simp: red settleOne_def resumeParent_def Let_def)
qed

lemma flowStore_wf: "wellFormed (flowStore ff)"
  using reachable_wf [OF flowStore_reachable] by simp

theorem report_decides_parent_witness:
  "\<exists>s'. recordChildResults 30 [reportFor ''a'' TFailed] (flowStore True) =
      ([\<lparr>rr_applied = True, rr_parentSettled = True\<rparr>], s')
     \<and> (\<forall>k x. rowOf s' ''j-1'' k = Some x \<longrightarrow> ch_status x \<noteq> RPending)"
proof -
  have "(case rowOf (flowStore True) ''j-1'' ''a'' of None \<Rightarrow> False | Some row \<Rightarrow> ch_status row = RPending)" by code_simp
  then obtain row where row: "rowOf (flowStore True) ''j-1'' ''a'' = Some row" "ch_status row = RPending"
    by (auto split: option.splits)
  have "(case mapGet (jobs (flowStore True)) ''j-1'' of None \<Rightarrow> False
     | Some p \<Rightarrow> (case j_flow p of None \<Rightarrow> False | Some f \<Rightarrow> fs_failFast f))" by code_simp
  then have ff: "fs_failFast f"
    if "mapGet (jobs (flowStore True)) ''j-1'' = Some p" "j_flow p = Some f" for p f using that by simp
  obtain results s' where rec: "recordChildResults 30 [reportFor ''a'' TFailed] (flowStore True) = (results, s')"
    by fastforce
  have sel: "rp_flowId (reportFor ''a'' TFailed) = ''j-1''" "rp_childKey (reportFor ''a'' TFailed) = ''a''"
    "rp_outcome (reportFor ''a'' TFailed) = TFailed" by (simp_all add: reportFor_def)
  from report_decides_parent [OF flowStore_wf [of True], of "reportFor ''a'' TFailed" row 30, unfolded sel, OF row]
  obtain parent f where g: "mapGet (jobs (flowStore True)) ''j-1'' = Some parent" "j_flow parent = Some f"
    and d: "results = [\<lparr>rr_applied = True, rr_parentSettled = True\<rparr>]
      \<and> (\<forall>k x. rowOf s' ''j-1'' k = Some x \<longrightarrow> ch_status x \<noteq> RPending)"
    unfolding rec prod.case using ff by (elim exE conjE) (simp only: simp_thms if_True, blast)
  with rec show ?thesis by simp
qed

end
