(* ===== verification/RunProps.thy ===== *)
theory RunProps
  imports WorkerSamples Safety FlowProps
begin

text \<open>
  What a run of a job by the worker does to the job in its store, whatever the handler does and
  whatever other actors do meanwhile.
\<close>

section \<open>Locks across a run\<close>

definition unheld :: "mem_store \<Rightarrow> job_id \<Rightarrow> bool" where
  "unheld s i \<longleftrightarrow> (\<forall>j. mapGet (jobs s) i = Some j \<longrightarrow> m_lockToken j = None)"

lemma unheld_not_locked: "unheld s i \<Longrightarrow> \<not> locked s i token"
  by (auto simp: unheld_def locked_iff)

lemma unheld_frame [simp]:
  "unheld (releaseDedupe j now s) i = unheld s i" "unheld (appendOutbox j t s) i = unheld s i"
  "unheld (signalWake q s) i = unheld s i"
  by (simp_all add: unheld_def)

lemma unheld_put [simp]: "j_id j = i \<Longrightarrow> m_lockToken j = None \<Longrightarrow> unheld (putJob j s) i"
  by (simp add: unheld_def)

lemma unheld_applyKeep: "unheld s i \<Longrightarrow> unheld (applyKeep j now s) i"
  using applyKeep_only_deletes [of j now s i] by (auto simp: unheld_def)

lemma unheld_markCancelled: "j_id j = i \<Longrightarrow> unheld (markCancelled j now s) i"
proof -
  assume "j_id j = i"
  moreover obtain fc where "markCancelled j now s = applyKeep (cancelRecord j now s) now
         (releaseDedupe (cancelRecord j now s) now
            (appendOutbox (cancelRecord j now s) TCancelled
               (putJob (cancelRecord j now s) (s\<lparr>flowChildren := fc\<rparr>))))"
    using markCancelled_eq by blast
  ultimately show ?thesis by (simp add: unheld_applyKeep)
qed

lemma unheld_finishJob:
  "j_id j = i \<Longrightarrow> m_lockToken j = None \<Longrightarrow> unheld (finishJob st oc t ex b now j s) i"
  by (simp add: finishJob_def Let_def unheld_applyKeep)

lemma unheld_ackFanOut:
  assumes "j_id j = i" "m_lockToken j = None"
  shows "unheld (ackFanOut now ff children j s) i"
proof -
  have id: "j_id (fst (settleMarkRows x s2)) = j_id x" for x s2
    using settleMarkRows_job [of x s2] by auto
  obtain x f s2 where x: "(case j_flow (recordAttempt AFannedOut now None j) of
      Some flow \<Rightarrow> (recordAttempt AFannedOut now None j, flow, s)
    | None \<Rightarrow> (let flow = openFlow ff children in ((recordAttempt AFannedOut now None j)\<lparr>j_flow := Some flow\<rparr>, flow,
         s\<lparr>flowChildren := mapSet (j_id (recordAttempt AFannedOut now None j))
           (stageRows (j_id (recordAttempt AFannedOut now None j)) now children) (flowChildren s)\<rparr>))) = (x, f, s2)"
    and xi: "j_id x = i" "m_lockToken x = None"
    using assms by (cases "j_flow j") (auto simp: Let_def)
  obtain y s3 where y: "settleMarkRows x s2 = (y, s3)" by (cases "settleMarkRows x s2")
  have "j_id y = i" using id [of x s2] y xi by simp
  then show ?thesis
    using xi unfolding ackFanOut_def Let_def x [unfolded Let_def] prod.case
    by (simp add: y unheld_markCancelled)
qed

lemma ack_frees:
  assumes "wellFormed s" and "\<not> missingChildId outcome"
  shows "\<not> locked (snd (ack now i token outcome s)) i token"
proof (cases "locked s i token")
  case False
  then show ?thesis by (auto simp: ack_def locked_iff split: option.split)
next
  case True
  then obtain j where j: "mapGet (jobs s) i = Some j" "j_state j = Active" "m_lockToken j = Some token"
    by (auto simp: locked_iff)
  have "unheld (snd (ack now i token outcome s)) i"
    using j assms(2) wf_id [OF assms(1) j(1)]
    by (cases outcome)
      (simp_all add: ack_def applyOutcome_def isFanOut_def ackRetry_def Let_def
        unheld_finishJob unheld_ackFanOut unheld_markCancelled)
  then show ?thesis by (rule unheld_not_locked)
qed

lemma release_frees:
  assumes "wellFormed s"
  shows "\<not> locked (snd (release now i token s)) i token"
proof (cases "locked s i token")
  case False
  then show ?thesis by (auto simp: release_def locked_iff split: option.split)
next
  case True
  then obtain j where j: "mapGet (jobs s) i = Some j" "j_state j = Active" "m_lockToken j = Some token"
    by (auto simp: locked_iff)
  then have "unheld (snd (release now i token s)) i"
    using wf_id [OF assms j(1)] by (simp add: release_def unheld_markCancelled)
  then show ?thesis by (rule unheld_not_locked)
qed

text \<open>Only a claim with the token makes a job locked by it.\<close>

lemma life_unlocked:
  assumes "life s e s'" "\<not> locked s i token" "e \<noteq> Taken i token"
  shows "\<not> locked s' i token"
  using assms
  by (cases rule: life.cases) (auto simp: locked_iff changes_def promoteJob_state split: if_splits)

lemma trace_unlocked:
  assumes "trace P s s'" "\<not> locked s i token" "\<And>s e. P s e \<Longrightarrow> e \<noteq> Taken i token"
  shows "\<not> locked s' i token"
  using assms by (induction rule: trace.induct) (auto dest: life_unlocked)

definition claimsWith :: "string \<Rightarrow> op \<Rightarrow> bool" where
  "claimsWith token op \<longleftrightarrow> (case op of OpClaim now opts \<Rightarrow> co_token opts = token | _ \<Rightarrow> False)"

lemma exec_unlocked:
  assumes "wellFormed s" "\<not> claimsWith token op" "\<not> locked s i token"
  shows "\<not> locked (exec gen op s) i token"
  by (rule trace_unlocked [OF exec_trace [OF assms(1)] assms(3)])
    (use assms(2) in \<open>auto simp: claimsWith_def\<close>)

section \<open>Calls that free a job\<close>

text \<open>
  At most \<open>storeRetryTimes\<close> calls in a row fail, and no other actor claims with the token: tokens are the
  worker's id and a counter, and every claim draws a new one.
\<close>

definition fairLink :: "link \<Rightarrow> bool" where
  "fairLink lk \<longleftrightarrow> (\<forall>n. \<exists>m. n \<le> m \<and> m \<le> n + storeRetryTimes \<and> lk_fault lk m = NoFault)"

definition sparesToken :: "string \<Rightarrow> link \<Rightarrow> bool" where
  "sparesToken token lk \<longleftrightarrow> (\<forall>n st key. \<exists>gen ops.
     list_all (\<lambda>op. op_ok op \<and> \<not> claimsWith token op) ops \<and> lk_others lk n st key = execs gen ops (st key))"

lemma nextToken_new:
  assumes "nextToken w k = (t, k1)" "wk_tokenCounter k1 \<le> wk_tokenCounter k2" "nextToken w k2 = (t', k3)"
  shows "t \<noteq> t'"
  using assms natToString_inj by (fastforce simp: nextToken_def Let_def)

definition freeIn :: "job_id \<Rightarrow> string \<Rightarrow> mem_store \<Rightarrow> bool" where
  "freeIn i token s \<longleftrightarrow> wellFormed s \<and> \<not> locked s i token"

lemma exec_free: "op_ok op \<Longrightarrow> \<not> claimsWith token op \<Longrightarrow> freeIn i token s \<Longrightarrow> freeIn i token (exec gen op s)"
  by (simp add: freeIn_def exec_wf exec_unlocked)

lemma execs_keep:
  "(\<And>op s. good op \<Longrightarrow> I s \<Longrightarrow> I (exec gen op s)) \<Longrightarrow> list_all good ops \<Longrightarrow> I s \<Longrightarrow> I (execs gen ops s)"
  by (induction ops arbitrary: s) auto

lemma sparing_keeps: "sparesToken token lk \<Longrightarrow> actorsKeep lk key (freeIn i token)"
  unfolding actorsKeep_def
proof (intro allI impI)
  fix n st
  assume "sparesToken token lk" and free: "freeIn i token (st key)"
  then obtain gen ops where "list_all (\<lambda>op. op_ok op \<and> \<not> claimsWith token op) ops"
    and eq: "lk_others lk n st key = execs gen ops (st key)"
    unfolding sparesToken_def by blast
  then have "freeIn i token (execs gen ops (st key))"
    using execs_keep [where I = "freeIn i token" and good = "\<lambda>op. op_ok op \<and> \<not> claimsWith token op"] free
    by (simp add: exec_free)
  with eq show "freeIn i token (lk_others lk n st key)" by simp
qed

lemma sparing_ok: "sparesToken token lk \<Longrightarrow> actors_ok lk"
  unfolding sparesToken_def actors_ok_def by (metis (no_types, lifting) list.pred_mono_strong)

lemma memCall_step [simp]: "wd_step (snd (memCall lk key f w)) = wd_step w + 1"
  by (simp add: memCall_def Let_def split_beta split: fault.split)

lemma memCall_effect:
  "lk_fault lk (wd_step w) = NoFault \<Longrightarrow>
   wd_stores (snd (memCall lk key f w)) key = snd (f (lk_clock lk (wd_step w)) (stepStores lk w key))"
  by (simp add: memCall_def stepStores_def Let_def split_beta)

lemma memCall_faulty:
  "lk_fault lk (wd_step w) \<noteq> NoFault \<Longrightarrow> fst (memCall lk key f w) = Inl driverDown"
  by (cases "lk_fault lk (wd_step w)") (simp_all add: memCall_def Let_def split_beta)

text \<open>\<open>frees\<close>: an operation after which the job is not locked by the token, whatever it was before.\<close>

definition frees :: "job_id \<Rightarrow> string \<Rightarrow> (millis \<Rightarrow> mem_store \<Rightarrow> (store_error + 'a) \<times> mem_store) \<Rightarrow> bool" where
  "frees i token f \<longleftrightarrow> (\<forall>now s. wellFormed s \<longrightarrow> freeIn i token (snd (f now s)))"

lemma frees_ack: "fanout_ok outcome \<Longrightarrow> \<not> missingChildId outcome \<Longrightarrow> frees i token (\<lambda>now. ack now i token outcome)"
  by (simp add: frees_def freeIn_def ack_frees ack_wf)

lemma frees_release: "frees i token (\<lambda>now. release now i token)"
  by (simp add: frees_def freeIn_def release_frees release_wf)

lemma retrying_frees:
  assumes "sparesToken token lk" "frees i token f" "wellFormed (wd_stores w key)"
    and "\<exists>m. wd_step w \<le> m \<and> m \<le> wd_step w + k \<and> lk_fault lk m = NoFault"
  shows "freeIn i token (wd_stores (snd (retrying k (memCall lk key f) w)) key)"
  using assms(3,4)
proof (induction k arbitrary: w)
  case 0
  have "wellFormed (stepStores lk w key)"
    using actorsKeep_wf [OF sparing_ok [OF assms(1)]] 0(1) by (simp add: actorsKeep_def stepStores_def)
  with 0 assms(2) show ?case by (auto simp: memCall_effect frees_def)
next
  case (Suc k)
  let ?c = "memCall lk key f"
  let ?free = "\<lambda>w. freeIn i token (wd_stores w key)"
  have wf: "wellFormed (stepStores lk w key)"
    using actorsKeep_wf [OF sparing_ok [OF assms(1)]] Suc.prems(1) by (simp add: actorsKeep_def stepStores_def)
  have keep: "?free v \<Longrightarrow> ?free (snd (?c v))" for v
    by (rule memCall_keeps [OF sparing_keeps [OF assms(1)]]) (use assms(2) in \<open>auto simp: frees_def freeIn_def\<close>)
  show ?case
  proof (cases "lk_fault lk (wd_step w) = NoFault")
    case True
    with wf assms(2) have "?free (snd (?c w))" by (simp add: memCall_effect frees_def)
    with keep retrying_keeps [of ?free ?c "snd (?c w)" k] show ?thesis
      by (auto split: prod.split sum.split)
  next
    case False
    then obtain w1 where c: "?c w = (Inl driverDown, w1)" using memCall_faulty by (metis prod.collapse)
    have w1: "w1 = snd (?c w)" using c by simp
    have "wellFormed (wd_stores w1 key)"
      unfolding w1 by (rule memCall_keeps [OF actorsKeep_wf [OF sparing_ok [OF assms(1)]] _ Suc.prems(1)])
        (use assms(2) in \<open>simp add: frees_def freeIn_def\<close>)
    moreover have "wd_step w1 = wd_step w + 1" using w1 by simp
    moreover obtain m where "wd_step w \<le> m" "m \<le> wd_step w + Suc k" "lk_fault lk m = NoFault"
      using Suc.prems(2) by blast
    moreover from this False have "m \<noteq> wd_step w" by auto
    ultimately have "?free (snd (retrying k ?c w1))" by (intro Suc.IH) (auto intro!: exI [of _ m])
    with c show ?thesis by (simp add: driverDown_def isJobStoreError_def)
  qed
qed

lemma retryingStore_frees:
  assumes "sparesToken token lk" "fairLink lk" "frees i token f" "wellFormed (wd_stores w key)"
  shows "freeIn i token (wd_stores (snd (retrying storeRetryTimes (memCall lk key f) w)) key)"
  by (rule retrying_frees [OF assms(1,3,4)]) (use assms(2) in \<open>auto simp: fairLink_def\<close>)

lemma ackLanded_world [simp]: "snd (ackLanded c w) = snd (retrying storeRetryTimes c w)"
  by (simp add: ackLanded_def split: prod.split sum.split)

lemma ackLanded_frees:
  "sparesToken token lk \<Longrightarrow> fairLink lk \<Longrightarrow> frees i token f \<Longrightarrow> wellFormed (wd_stores w key) \<Longrightarrow>
   freeIn i token (wd_stores (snd (ackLanded (memCall lk key f) w)) key)"
  using retryingStore_frees [where w = w and f = f] by simp

lemma ackSafely_frees:
  "sparesToken token lk \<Longrightarrow> fairLink lk \<Longrightarrow> frees i token f \<Longrightarrow> wellFormed (wd_stores w key) \<Longrightarrow>
   freeIn i token (wd_stores (ackSafely (memCall lk key f) w) key)"
  using retryingStore_frees [where w = w and f = f] by (simp add: ackSafely_def)

section \<open>A run gives its lock back\<close>

text \<open>
  The handlers of the worker may do anything to the worlds, as
  long as the worker's store stays well-formed, and what a fan-out produces are specs with distinct
  keys and explicit ids, which is what \<open>buildSpecs\<close> makes.
\<close>

definition ackable :: "flow_child_spec list \<Rightarrow> bool" where
  "ackable children \<longleftrightarrow> distinct (map cs_childKey children)
     \<and> list_all (\<lambda>c. rq_id (cs_request c) \<noteq> None) children"

definition politeHandlers :: "string \<Rightarrow> (world, 'v, 'c, 'e) runtime \<Rightarrow> bool" where
  "politeHandlers key rt \<longleftrightarrow> (\<forall>name entry. mapGet (rt_handlers rt) name = Some entry \<longrightarrow>
     (\<forall>payload context flow w k. wellFormed (wd_stores w key) \<longrightarrow>
        wellFormed (wd_stores (fst (snd (he_run entry payload context flow (w, k)))) key))
   \<and> (\<forall>fl payload context depth w k. he_flow entry = Some fl \<longrightarrow> wellFormed (wd_stores w key) \<longrightarrow>
        (case fe_fanOut fl payload context depth (w, k) of (ex, (w', k')) \<Rightarrow>
           wellFormed (wd_stores w' key) \<and> (case ex of ExitSuccess children \<Rightarrow> ackable children | _ \<Rightarrow> True))))"

lemma frees_fanOut: "ackable children \<Longrightarrow> frees i token (\<lambda>now. ack now i token (FanOut ff children))"
  by (rule frees_ack) (auto simp: ackable_def fanout_ok_def missingChildId_def list_ex_iff list_all_iff)

lemma frees_settling: "\<not> isFanOut outcome \<Longrightarrow> frees i token (\<lambda>now. ack now i token outcome)"
  by (rule frees_ack) (auto simp: isFanOut_def fanout_ok_def missingChildId_def split: ack_outcome.splits)

lemma runOutcome_settles: "\<not> isFanOut (runOutcome lib entry record ex)"
  by (auto simp: runOutcome_def routeFailure_def isFanOut_def Let_def split: prod.split exit.split)

lemma getJob_frees:
  assumes "sparesToken token lk" "freeIn i token (wd_stores w key)"
  shows "freeIn i token (wd_stores (snd (sv_getJob (memService lk k) x w)) key)"
  unfolding memService_def service.simps
  by (rule memCall_keeps [OF sparing_keeps [OF assms(1)] _ assms(2)]) (simp add: reads_def)

lemma enqueueMany_frees:
  assumes "sparesToken token lk" "freeIn i token (wd_stores w key)"
  shows "freeIn i token (wd_stores (snd (sv_enqueueMany (memService lk k) rs w)) key)"
  unfolding memService_def service.simps
proof (rule memCall_keeps [OF sparing_keeps [OF assms(1)] _ assms(2)])
  fix now s assume "freeIn i token s"
  then have "freeIn i token (exec (lk_gen lk k) (OpEnqueueMany (map (Pair now) rs)) s)"
    by (intro exec_free) (simp_all add: claimsWith_def)
  then show "freeIn i token (snd (enqueueMany (lk_gen lk k) (map (Pair now) rs) s))" by simp
qed

lemma enqueueChildren_frees:
  assumes "sparesToken token lk" and stores: "\<And>k sv. mapGet stores k = Some sv \<Longrightarrow> sv = memService lk k"
    and "freeIn i token (wd_stores w key)"
  shows "freeIn i token (wd_stores (enqueueChildren stores children w) key)"
proof -
  have one: "freeIn i token (wd_stores (enqueueGroup stores grp w) key)" if "freeIn i token (wd_stores w key)" for grp w
  proof (cases "mapGet stores (fst grp)")
    case None
    with that show ?thesis by (simp add: enqueueGroup_def)
  next
    case (Some sv)
    with stores have "sv = memService lk (fst grp)" by blast
    with Some retryStore_keeps [where Q = "\<lambda>w. freeIn i token (wd_stores w key)", OF enqueueMany_frees [OF assms(1)] that]
    show ?thesis by (simp add: enqueueGroup_def)
  qed
  have "freeIn i token (wd_stores (fold (enqueueGroup stores) groups w) key)" for groups
    using assms(3) by (induction groups arbitrary: w) (simp_all add: one)
  then show ?thesis by (simp add: enqueueChildren_def)
qed

lemma settleFanOut_frees:
  assumes "sparesToken token lk" "fairLink lk" "drivenBy lk key rt" "ackable children" "wellFormed (wd_stores w key)"
  shows "freeIn (j_id record) token (wd_stores (fst (snd (settleFanOut rt ff record token children (w, k)))) key)"
proof -
  let ?i = "j_id record"
  from assms(3) have store: "rt_store rt = memService lk key"
    and stores: "\<And>k sv. mapGet (rt_storesByKey rt) k = Some sv \<Longrightarrow> sv = memService lk k"
    by (auto simp: drivenBy_def)
  obtain landed w1 where a: "ackLanded (sv_ack (rt_store rt) ?i token (FanOut ff children)) w = (landed, w1)"
    by fastforce
  have w1: "freeIn ?i token (wd_stores w1 key)"
    using ackLanded_frees [OF assms(1,2) frees_fanOut [OF assms(4)] assms(5), of ?i ff] a store
    by (simp add: memService_def del: ackLanded_world)
  obtain r w2 where g: "retryStore (sv_getJob (rt_store rt) ?i) w1 = (r, w2)" by fastforce
  have w2: "freeIn ?i token (wd_stores w2 key)"
    using retryStore_keeps [where Q = "\<lambda>w. freeIn ?i token (wd_stores w key)"
        and c = "sv_getJob (memService lk key) ?i", OF getJob_frees [OF assms(1)] w1] g store by simp
  have w3: "freeIn ?i token (wd_stores (enqueueChildren (rt_storesByKey rt) children w2) key)"
    by (rule enqueueChildren_frees [OF assms(1) stores w2])
  show ?thesis
  proof (cases "landed \<and> children \<noteq> []")
    case False
    with a w1 show ?thesis by (cases landed) (simp_all add: settleFanOut_def)
  next
    case True
    with a g have "fst (snd (settleFanOut rt ff record token children (w, k))) \<in>
      {w2, enqueueChildren (rt_storesByKey rt) children w2}"
      by (simp add: settleFanOut_def split: option.split)
    with w2 w3 show ?thesis by auto
  qed
qed

lemma settleExit_frees:
  assumes "sparesToken token lk" "fairLink lk" "drivenBy lk key rt" "wellFormed (wd_stores w key)"
  shows "freeIn (j_id record) token (wd_stores (fst (snd (settleExit rt entry record token ex (w, k)))) key)"
  using ackLanded_frees [OF assms(1,2) frees_settling [OF runOutcome_settles] assms(4)] assms(3)
  by (simp add: settleExit_def drivenBy_def memService_def Let_def split_beta)

lemma afterRun_frees:
  assumes "sparesToken token lk" "fairLink lk" "drivenBy lk key rt" "wellFormed (wd_stores w key)"
    and settle: "\<And>effective k. (\<And>x. effective = ExitSuccess x \<Longrightarrow> ex = ExitSuccess x) \<Longrightarrow> freeIn (j_id job) token (wd_stores (fst (snd (settle effective (w, k)))) key)"
  shows "freeIn (j_id job) token (wd_stores (fst (snd (afterRun rt job token settle (ex, (w, k))))) key)"
proof -
  obtain c k1 where t: "takeFlight (j_id job) k = (c, k1)" by fastforce
  have ack: "freeIn (j_id job) token (wd_stores (snd (ackLanded (sv_ack (rt_store rt) (j_id job) token CancelledOutcome) w)) key)"
    using ackLanded_frees [OF assms(1,2) frees_settling assms(4), of CancelledOutcome "j_id job"] assms(3)
    by (simp add: drivenBy_def memService_def isFanOut_def)
  have rel: "freeIn (j_id job) token (wd_stores (ackSafely (sv_release (rt_store rt) (j_id job) token) w) key)"
    using ackSafely_frees [OF assms(1,2) frees_release assms(4), of "j_id job"] assms(3)
    by (simp add: drivenBy_def memService_def)
  have verdict: "runVerdict lib job c sh ex = RunSettles e \<Longrightarrow> e = ExitSuccess x \<Longrightarrow> ex = ExitSuccess x" for lib sh e x
    by (auto simp: runVerdict_def split: if_splits)
  show ?thesis
  proof (cases "runVerdict (rt_lib rt) job c (wk_shutdown k1) ex")
    case (RunSettles e)
    from settle [of e k1] verdict [OF RunSettles] have "freeIn (j_id job) token (wd_stores (fst (snd (settle e (w, k1)))) key)"
      by blast
    with t RunSettles show ?thesis by (simp add: afterRun_def)
  qed (use t ack rel in \<open>simp_all add: afterRun_def split_beta\<close>)
qed

lemma politeRun:
  assumes "politeHandlers key rt" "mapGet (rt_handlers rt) name = Some entry" "wellFormed (wd_stores w key)"
    and "he_run entry payload context flow (w, k) = (ex, (w', k'))"
  shows "wellFormed (wd_stores w' key)"
  using assms unfolding politeHandlers_def by (metis fst_conv snd_conv)

lemma politeFanOut:
  assumes "politeHandlers key rt" "mapGet (rt_handlers rt) name = Some entry" "wellFormed (wd_stores w key)"
    and "he_flow entry = Some fl" "fe_fanOut fl payload context depth (w, k) = (ex, (w', k'))"
  shows "wellFormed (wd_stores w' key)" "ex = ExitSuccess children \<Longrightarrow> ackable children"
proof -
  have "case fe_fanOut fl payload context depth (w, k) of (ex, (w', k')) \<Rightarrow>
      wellFormed (wd_stores w' key) \<and> (case ex of ExitSuccess children \<Rightarrow> ackable children | _ \<Rightarrow> True)"
    by (rule assms(1) [unfolded politeHandlers_def, rule_format, OF assms(2), THEN conjunct2, rule_format, OF assms(4,3)])
  with assms(5) show "wellFormed (wd_stores w' key)" "ex = ExitSuccess children \<Longrightarrow> ackable children"
    by (auto split: exit.splits)
qed

lemma processJob_frees:
  assumes "drivenBy lk key rt" and "politeHandlers key rt" and "sparesToken token lk" and "fairLink lk"
    and "wellFormed (wd_stores w key)"
  shows "freeIn (j_id record) token (wd_stores (fst (snd (processJob rt record token (w, k)))) key)"
proof (cases "mapGet (rt_handlers rt) (j_name record)")
  case None
  with ackSafely_frees [OF assms(3,4) frees_release assms(5), of "j_id record"] assms(1)
  show ?thesis by (simp add: processJob_def drivenBy_def memService_def)
next
  case (Some entry)
  show ?thesis
  proof (cases "j_flow record \<noteq> None \<and> he_flow entry = None")
    case True
    with Some ackSafely_frees [OF assms(3,4) frees_settling assms(5), of "Fail ex" "j_id record" for ex] assms(1)
    show ?thesis by (simp add: processJob_def drivenBy_def memService_def isFanOut_def)
  next
    case False
    let ?k = "k\<lparr>wk_inflight := mapSet (j_id record) token (wk_inflight k)\<rparr>"
    show ?thesis
    proof (cases "j_flow record = None \<and> he_flow entry \<noteq> None")
      case True
      then obtain fl where fl: "he_flow entry = Some fl" "j_flow record = None" by blast
      obtain ex w1 k1 where f: "fe_fanOut fl (j_payload record) (contextOf record) (depthOf record) (w, ?k) = (ex, (w1, k1))"
        by (metis prod.collapse)
      note polite = politeFanOut [OF assms(2) Some assms(5) fl(1) f]
      have settle: "freeIn (j_id record) token (wd_stores (fst (snd
          (settleFanOutExit rt entry (fe_failFast fl) record token effective (w1, k2)))) key)"
        if "\<And>x. effective = ExitSuccess x \<Longrightarrow> ex = ExitSuccess x" for effective k2
        using that settleFanOut_frees [OF assms(3,4,1) polite(2) polite(1)] settleExit_frees [OF assms(3,4,1) polite(1)]
        by (simp add: settleFanOutExit_def split: exit.split)
      show ?thesis
        using afterRun_frees [OF assms(3,4,1) polite(1), where settle = "settleFanOutExit rt entry (fe_failFast fl) record token"
            and ex = ex and k = k1 and job = "record"] settle Some fl f
        by (simp add: processJob_def)
    next
      case no: False
      obtain ex w1 k1 where f: "he_run entry (j_payload record) (contextOf record) (j_flow record) (w, ?k) = (ex, (w1, k1))"
        by (metis prod.collapse)
      note w1 = politeRun [OF assms(2) Some assms(5) f]
      have "processJob rt record token (w, k) = afterRun rt record token (settleExit rt entry record token) (ex, (w1, k1))"
        using Some False no f by (auto simp: processJob_def split: option.split)
      with afterRun_frees [OF assms(3,4,1) w1, where settle = "settleExit rt entry record token"
            and ex = ex and k = k1 and job = "record"] settleExit_frees [OF assms(3,4,1) w1]
      show ?thesis by simp
    qed
  qed
qed

text \<open>C23: every run gives its lock back. Whatever the handler of a claimed job does, whether it succeeds,
  fails, is cancelled, interrupts itself or is interrupted by a shutdown, fans out children or is not
  registered any more, and whatever other actors do to the stores meanwhile, when \<open>processJob\<close> ends
  the job is not locked with the run's token: it was acknowledged or released, or another actor had
  already taken it over. The links may lose up to eight calls in a row, before or after their effect.\<close>

theorem every_run_gives_its_lock_back:
  assumes "drivenBy lk key rt" and "politeHandlers key rt" and "sparesToken token lk" and "fairLink lk"
    and "wellFormed (wd_stores w key)"
  shows "\<not> locked (wd_stores (fst (snd (processJob rt record token (w, k)))) key) (j_id record) token"
  using processJob_frees [OF assms] by (simp add: freeIn_def)

lemma fairLink_direct: "fairLink (directLink clock)"
  by (auto simp: fairLink_def directLink_def)

lemma sparesToken_direct: "sparesToken token (directLink clock)"
proof -
  have "list_all (\<lambda>op. op_ok op \<and> \<not> claimsWith token op) []
    \<and> lk_others (directLink clock) n st key = execs None [] (st key)" for n st key
    by (simp add: directLink_def)
  then show ?thesis unfolding sparesToken_def by blast
qed

lemma mailWorker_polite: "politeHandlers key (mailWorker lk ex)"
  by (simp add: politeHandlers_def) (simp add: mailWorker_def mailEntry_def)

text \<open>A run that fails, over a link whose first eight calls fail after their effect.\<close>

definition lossyLink :: link where
  "lossyLink = (directLink (\<lambda>n. int n + 20))\<lparr>lk_fault := \<lambda>n. if n < 8 then FailsAfter else NoFault\<rparr>"

lemma lossyLink_fair: "fairLink lossyLink"
proof -
  have "\<exists>m. n \<le> m \<and> m \<le> n + 8 \<and> \<not> m < (8::nat)" for n by presburger
  then show ?thesis by (simp add: fairLink_def lossyLink_def storeRetryTimes_def) metis
qed

lemma lossyLink_spares: "sparesToken ''t'' lossyLink"
  using sparesToken_direct [of "''t''" "\<lambda>n. int n + 20"] by (simp add: sparesToken_def lossyLink_def)

theorem every_run_gives_its_lock_back_witness:
  "\<not> locked (wd_stores (fst (snd (processJob (mailWorker lossyLink (ExitFailure 12)) activeJob ''t''
       (worldOf oneActive, idleWorker)))) ''s'') ''j-2'' ''t''"
  using every_run_gives_its_lock_back [OF mailWorker_driven mailWorker_polite lossyLink_spares lossyLink_fair,
    of "worldOf oneActive" "ExitFailure 12" activeJob idleWorker] activeJob_sel oneActive_wf by simp

end
