(* ===== verification/FlowSpecs.thy ===== *)
theory FlowSpecs
  imports FlowApi RunProps WorkerSamples
begin

text \<open>
  The manifest of a flow: the ids of the children never alias, and \<open>buildSpecs\<close> computes exactly the
  manifest that the groups of the fan-out handler describe, or refuses it. What it computes is what the
  store's fan-out acknowledgement relies on, so a flow registered through \<open>toLayer\<close> gives the worker a
  handler that its run properties apply to.
\<close>

section \<open>Child ids\<close>

lemma split_at_first:
  assumes "xs @ c # ys = xs' @ c # ys'" "c \<notin> set xs" "c \<notin> set xs'"
  shows "xs = xs' \<and> ys = ys'"
  using assms by (induction xs arbitrary: xs') (auto simp: Cons_eq_append_conv)

text \<open>C34: Two children have the same id only if they have the same parent store, flow and key, although
  each of the three is an arbitrary string: the length prefix pins the boundaries.\<close>

theorem child_ids_never_alias:
  "childJobId store flow key = childJobId store' flow' key' \<longleftrightarrow> store = store' \<and> flow = flow' \<and> key = key'"
proof
  assume eq: "childJobId store flow key = childJobId store' flow' key'"
  have dot: "CHR ''.'' \<notin> set (natToString n)" and slash: "CHR ''/'' \<notin> set (natToString n)" for n
    by (rule natToString_no_char; simp add: isDigit_def)+
  from eq have "natToString (length store) @ CHR ''.'' # natToString (length flow) @ CHR ''/'' # store @ CHR ''/'' # flow @ CHR ''/'' # key
    = natToString (length store') @ CHR ''.'' # natToString (length flow') @ CHR ''/'' # store' @ CHR ''/'' # flow' @ CHR ''/'' # key'"
    by (simp add: childJobId_def)
  from split_at_first [OF this dot dot]
  have s: "length store = length store'"
    and f: "natToString (length flow) @ CHR ''/'' # store @ CHR ''/'' # flow @ CHR ''/'' # key
      = natToString (length flow') @ CHR ''/'' # store' @ CHR ''/'' # flow' @ CHR ''/'' # key'"
    using natToString_inj by blast+
  from split_at_first [OF f slash slash] have "length flow = length flow'"
    and "store @ CHR ''/'' # flow @ CHR ''/'' # key = store' @ CHR ''/'' # flow' @ CHR ''/'' # key'"
    using natToString_inj by blast+
  with s show "store = store' \<and> flow = flow' \<and> key = key'" by simp
qed simp

section \<open>The manifest, declaratively\<close>

text \<open>The items of the handler's groups, each with the member definition of its group.\<close>

definition itemsOf ::
  "('f, 'p, 'v, 'c, 'd) flow_def \<Rightarrow> ('d, 'f) child_group list
    \<Rightarrow> (('f, 'p, 'v, 'c, 'd) job_def option \<times> ('d, 'f) child_item) list" where
  "itemsOf flow groups = concat (map (\<lambda>g. map (Pair (mapGet (fw_byName flow) (cg_job g))) (cg_items g)) groups)"

text \<open>What one item becomes: nothing if its payload is invalid or its options mix two forms.\<close>

definition manifestSpec ::
  "('d \<Rightarrow> int) \<Rightarrow> ('f, 'p, 'v, 'c, 'd) flow_def \<Rightarrow> job_context \<Rightarrow> nat \<Rightarrow> span
    \<Rightarrow> ('f, 'p, 'v, 'c, 'd) job_def option \<times> ('d, 'f) child_item \<Rightarrow> flow_child_spec option" where
  "manifestSpec toMillis flow cx depth sp x =
     Option.bind (fst x) (\<lambda>member.
     Option.bind (jb_makePayload member (ci_payload (snd x))) (\<lambda>payload.
     Option.bind (jb_encode member payload) (\<lambda>encoded.
       case childRequest toMillis flow cx depth sp member (snd x) payload encoded of
         Inl _ \<Rightarrow> None
       | Inr request \<Rightarrow> Some \<lparr> cs_childKey = ci_key (snd x), cs_storeKey = jb_store member, cs_request = request \<rparr>)))"

definition itemKeys :: "('m \<times> ('d, 'f) child_item) list \<Rightarrow> string list" where
  "itemKeys = map (\<lambda>x. ci_key (snd x))"

definition buildsAs ::
  "('d \<Rightarrow> int) \<Rightarrow> ('f, 'p, 'v, 'c, 'd) flow_def \<Rightarrow> job_context \<Rightarrow> nat \<Rightarrow> span
    \<Rightarrow> (('f, 'p, 'v, 'c, 'd) job_def option \<times> ('d, 'f) child_item) list \<Rightarrow> string list \<Rightarrow> flow_child_spec list \<Rightarrow> bool" where
  "buildsAs toMillis flow cx depth sp xs seen new \<longleftrightarrow>
     distinct (itemKeys xs) \<and> set (itemKeys xs) \<inter> set seen = {} \<and> '''' \<notin> set (itemKeys xs)
   \<and> map (manifestSpec toMillis flow cx depth sp) xs = map Some new"

lemma buildsAs_Nil: "buildsAs toMillis flow cx depth sp [] seen new \<longleftrightarrow> new = []"
  by (auto simp: buildsAs_def itemKeys_def)

lemma buildsAs_append:
  "buildsAs toMillis flow cx depth sp (xs @ ys) seen new \<longleftrightarrow>
     (\<exists>a b. new = a @ b \<and> buildsAs toMillis flow cx depth sp xs seen a
        \<and> buildsAs toMillis flow cx depth sp ys (rev (itemKeys xs) @ seen) b)"
proof -
  have "map f xs @ map f ys = map Some new \<longleftrightarrow> (\<exists>a b. new = a @ b \<and> map f xs = map Some a \<and> map f ys = map Some b)"
    for f :: "_ \<Rightarrow> flow_child_spec option"
    by (rule append_eq_map_conv)
  note split = this
  show ?thesis
  proof
    assume L: "buildsAs toMillis flow cx depth sp (xs @ ys) seen new"
    then obtain a b where ab: "new = a @ b" "map (manifestSpec toMillis flow cx depth sp) xs = map Some a"
      "map (manifestSpec toMillis flow cx depth sp) ys = map Some b"
      using split [of "manifestSpec toMillis flow cx depth sp"] unfolding buildsAs_def map_append by blast
    from L ab have "buildsAs toMillis flow cx depth sp xs seen a"
      "buildsAs toMillis flow cx depth sp ys (rev (itemKeys xs) @ seen) b"
      by (simp_all add: buildsAs_def itemKeys_def Int_Un_distrib2 Int_Un_distrib inf_commute)
    with ab(1) show "\<exists>a b. new = a @ b \<and> buildsAs toMillis flow cx depth sp xs seen a
        \<and> buildsAs toMillis flow cx depth sp ys (rev (itemKeys xs) @ seen) b" by blast
  next
    assume "\<exists>a b. new = a @ b \<and> buildsAs toMillis flow cx depth sp xs seen a
        \<and> buildsAs toMillis flow cx depth sp ys (rev (itemKeys xs) @ seen) b"
    then show "buildsAs toMillis flow cx depth sp (xs @ ys) seen new"
      by (elim exE conjE) (simp add: buildsAs_def itemKeys_def Int_Un_distrib2 Int_Un_distrib inf_commute)
  qed
qed

lemma buildsAs_uniq:
  "buildsAs toMillis flow cx depth sp xs seen a \<Longrightarrow> buildsAs toMillis flow cx depth sp xs seen b \<Longrightarrow> a = b"
  by (auto simp: buildsAs_def dest: map_injective)

lemma buildItem_Inr:
  "buildItem toMillis flow cx depth sp member seen item = Inr spec \<longleftrightarrow>
     buildsAs toMillis flow cx depth sp [(Some member, item)] seen [spec]"
  by (auto simp: buildItem_def buildsAs_def itemKeys_def manifestSpec_def split: option.splits sum.splits)

lemma buildItems_Inr:
  "buildItems toMillis flow cx depth sp member items (seen, specs) = Inr acc \<longleftrightarrow>
     (\<exists>new. buildsAs toMillis flow cx depth sp (map (Pair (Some member)) items) seen new
        \<and> acc = (rev (map ci_key items) @ seen, specs @ new))"
proof (induction items arbitrary: seen specs)
  case Nil
  then show ?case by (auto simp: buildsAs_Nil)
next
  case (Cons item items)
  let ?one = "buildsAs toMillis flow cx depth sp [(Some member, item)] seen"
  have split: "buildsAs toMillis flow cx depth sp (map (Pair (Some member)) (item # items)) seen new \<longleftrightarrow>
    (\<exists>spec b. new = spec # b \<and> ?one [spec]
       \<and> buildsAs toMillis flow cx depth sp (map (Pair (Some member)) items) (ci_key item # seen) b)" for new
    using buildsAs_append [of toMillis flow cx depth sp "[(Some member, item)]" "map (Pair (Some member)) items" seen new]
    by (auto simp: itemKeys_def buildsAs_def Cons_eq_map_conv)
  show ?case
  proof (cases "buildItem toMillis flow cx depth sp member seen item")
    case (Inl e)
    then have "\<not> ?one [spec]" for spec using buildItem_Inr [of toMillis flow cx depth sp member seen item spec] by simp
    then show ?thesis using Inl split by auto
  next
    case (Inr spec)
    then have "?one [s] \<longleftrightarrow> s = spec" for s
      using buildItem_Inr [of toMillis flow cx depth sp member seen item] buildsAs_uniq by blast
    then show ?thesis using Inr split Cons.IH by auto
  qed
qed

lemma buildGroups_Inr:
  "buildGroups toMillis flow cx depth sp groups (seen, specs) = Inr acc \<longleftrightarrow>
     list_all (\<lambda>g. mapHas (fw_byName flow) (cg_job g)) groups
   \<and> (\<exists>new. buildsAs toMillis flow cx depth sp (itemsOf flow groups) seen new
        \<and> acc = (rev (itemKeys (itemsOf flow groups)) @ seen, specs @ new))"
proof (induction groups arbitrary: seen specs)
  case Nil
  then show ?case by (auto simp: itemsOf_def buildsAs_Nil itemKeys_def)
next
  case (Cons g groups)
  have io: "itemsOf flow (g # groups) = map (Pair (mapGet (fw_byName flow) (cg_job g))) (cg_items g) @ itemsOf flow groups"
    by (simp add: itemsOf_def)
  have ik: "itemKeys (map (Pair m) (cg_items g)) = map ci_key (cg_items g)" for m
    by (simp add: itemKeys_def)
  show ?case
  proof (cases "mapGet (fw_byName flow) (cg_job g)")
    case None
    then show ?thesis by simp
  next
    case (Some member)
    show ?thesis
    proof (cases "buildItems toMillis flow cx depth sp member (cg_items g) (seen, specs)")
      case (Inl e)
      then have "\<nexists>new. buildsAs toMillis flow cx depth sp (map (Pair (Some member)) (cg_items g)) seen new"
        using buildItems_Inr [of toMillis flow cx depth sp member "cg_items g" seen specs] by auto
      then show ?thesis using Inl Some by (simp add: io buildsAs_append)
    next
      case (Inr acc1)
      then obtain a where a: "buildsAs toMillis flow cx depth sp (map (Pair (Some member)) (cg_items g)) seen a"
        and acc1: "acc1 = (rev (map ci_key (cg_items g)) @ seen, specs @ a)"
        using buildItems_Inr by blast
      have uniq: "a' = a" if "buildsAs toMillis flow cx depth sp (map (Pair (Some member)) (cg_items g)) seen a'" for a'
        by (rule buildsAs_uniq [OF that a])
      have keys: "itemKeys (itemsOf flow (g # groups)) = map ci_key (cg_items g) @ itemKeys (itemsOf flow groups)"
        unfolding io by (simp add: itemKeys_def)
      have build: "buildsAs toMillis flow cx depth sp (itemsOf flow (g # groups)) seen new \<longleftrightarrow>
          (\<exists>b. new = a @ b \<and> buildsAs toMillis flow cx depth sp (itemsOf flow groups) (rev (map ci_key (cg_items g)) @ seen) b)" for new
        unfolding io buildsAs_append ik Some using a uniq by blast
      have "buildGroups toMillis flow cx depth sp (g # groups) (seen, specs) = Inr acc \<longleftrightarrow>
          buildGroups toMillis flow cx depth sp groups (rev (map ci_key (cg_items g)) @ seen, specs @ a) = Inr acc"
        by (simp add: Some Inr acc1)
      also have "\<dots> \<longleftrightarrow> list_all (\<lambda>g. mapHas (fw_byName flow) (cg_job g)) groups
        \<and> (\<exists>new. buildsAs toMillis flow cx depth sp (itemsOf flow (g # groups)) seen new
           \<and> acc = (rev (itemKeys (itemsOf flow (g # groups))) @ seen, specs @ new))"
        unfolding Cons.IH build keys by (rule conj_cong [OF refl]) force
      finally show ?thesis by (simp add: Some)
    qed
  qed
qed

lemma buildSpecs_Inr:
  "buildSpecs toMillis flow sp input cx parentDepth = Inr specs \<longleftrightarrow>
     parentDepth + 1 \<le> 8
   \<and> list_all (\<lambda>g. mapHas (fw_byName flow) (cg_job g)) (groupsOf input)
   \<and> distinct (itemKeys (itemsOf flow (groupsOf input))) \<and> '''' \<notin> set (itemKeys (itemsOf flow (groupsOf input)))
   \<and> map (manifestSpec toMillis flow cx (parentDepth + 1) sp) (itemsOf flow (groupsOf input)) = map Some specs"
proof -
  have "(case buildGroups toMillis flow cx (parentDepth + 1) sp (groupsOf input) ([], []) of
      Inl e \<Rightarrow> Inl e | Inr (_, specs) \<Rightarrow> Inr specs) = Inr specs
    \<longleftrightarrow> (\<exists>seen. buildGroups toMillis flow cx (parentDepth + 1) sp (groupsOf input) ([], []) = Inr (seen, specs))"
    by (auto split: sum.split prod.split)
  then show ?thesis
    by (simp add: buildSpecs_def maxDepth_def Let_def buildGroups_Inr) (auto simp: buildsAs_def)
qed

text \<open>C35: \<open>buildSpecs\<close> returns a manifest exactly when the nesting is at most eight deep, every group names
  a declared member, the keys are non-empty and distinct across all groups, and every payload passes its
  schema and every option set is unmixed; the manifest then holds one child per item, in order, each
  as its item describes it.\<close>

theorem manifest_is_exact:
  "buildSpecs toMillis flow sp input cx parentDepth = Inr specs \<longleftrightarrow>
     parentDepth + 1 \<le> 8
   \<and> list_all (\<lambda>g. mapHas (fw_byName flow) (cg_job g)) (groupsOf input)
   \<and> distinct (itemKeys (itemsOf flow (groupsOf input))) \<and> '''' \<notin> set (itemKeys (itemsOf flow (groupsOf input)))
   \<and> map (manifestSpec toMillis flow cx (parentDepth + 1) sp) (itemsOf flow (groupsOf input)) = map Some specs"
  by (rule buildSpecs_Inr)

section \<open>What the manifest gives the store\<close>

text \<open>A child as its item and its flow describe it: its id, its envelope, its member, no delay, no dedup key.\<close>

definition describedBy :: "('f, 'p, 'v, 'c, 'd) flow_def \<Rightarrow> job_context \<Rightarrow> nat \<Rightarrow> flow_child_spec \<Rightarrow> bool" where
  "describedBy flow cx depth c \<longleftrightarrow>
     rq_id (cs_request c) = Some (childJobId (jb_store (fw_parent flow)) (jc_jobId cx) (cs_childKey c))
   \<and> rq_parent (cs_request c) = Some \<lparr> pe_flowName = fw_name flow, pe_flowId = jc_jobId cx,
       pe_childKey = cs_childKey c, pe_parentStoreKey = jb_store (fw_parent flow), pe_depth = depth \<rparr>
   \<and> rq_attemptsMax (cs_request c) \<ge> 1 \<and> rq_delayMs (cs_request c) = 0 \<and> rq_dedupe (cs_request c) = None
   \<and> (case mapGet (fw_byName flow) (rq_name (cs_request c)) of
        None \<Rightarrow> False
      | Some member \<Rightarrow> cs_storeKey c = jb_store member \<and> rq_queue (cs_request c) = jb_queue member)"

text \<open>The names under which \<open>make\<close> files the members are their own.\<close>

definition filedByTag :: "('f, 'p, 'v, 'c, 'd) flow_def \<Rightarrow> bool" where
  "filedByTag flow \<longleftrightarrow> list_all (\<lambda>p. jb_tag (snd p) = fst p) (fw_byName flow)"

lemma filedByTag_get: "filedByTag flow \<Longrightarrow> mapGet (fw_byName flow) n = Some member \<Longrightarrow> jb_tag member = n"
  using mapGet_in [of "fw_byName flow" n member] by (auto simp: filedByTag_def list_all_iff)

lemma membersByName_tags:
  "membersByName children m = Inr m' \<Longrightarrow> list_all (\<lambda>p. jb_tag (snd p) = fst p) m
    \<Longrightarrow> list_all (\<lambda>p. jb_tag (snd p) = fst p) m'"
proof (induction children m rule: membersByName.induct)
  case (2 child children byName)
  then show ?case by (auto simp: mapSet_new split: if_splits)
qed simp

lemma makeFlow_filed: "makeFlow name parent children occ = Inr flow \<Longrightarrow> filedByTag flow"
  using membersByName_tags [of children "[]"]
  by (auto simp: makeFlow_def filedByTag_def split: sum.splits if_splits)

lemma manifestSpec_Some:
  assumes "manifestSpec toMillis flow cx depth sp (m, item) = Some c" and "filedByTag flow"
    and "m = mapGet (fw_byName flow) tag"
  shows "cs_childKey c = ci_key item \<and> describedBy flow cx depth c"
proof -
  from assms(1) obtain member payload encoded where m: "m = Some member"
    and x: "(case childRequest toMillis flow cx depth sp member item payload encoded of
         Inl _ \<Rightarrow> None
       | Inr request \<Rightarrow> Some \<lparr> cs_childKey = ci_key item, cs_storeKey = jb_store member, cs_request = request \<rparr>) = Some c"
    by (auto simp: manifestSpec_def bind_eq_Some_conv cong: sum.case_cong)
  from x obtain request where r: "childRequest toMillis flow cx depth sp member item payload encoded = Inr request"
    and c: "c = \<lparr> cs_childKey = ci_key item, cs_storeKey = jb_store member, cs_request = request \<rparr>"
    by (auto split: sum.splits)
  from assms(2,3) m have "mapGet (fw_byName flow) (jb_tag member) = Some member"
    using filedByTag_get by fastforce
  with r show ?thesis unfolding c
    by (cases "keepOr toMillis (jo_keep (ci_options item)) (rd_keep (jb_defaults member))")
      (auto simp: describedBy_def childRequest_def)
qed

lemma itemsOf_member: "(m, item) \<in> set (itemsOf flow groups) \<Longrightarrow> \<exists>tag. m = mapGet (fw_byName flow) tag"
  by (auto simp: itemsOf_def)

lemma manifest_facts:
  assumes "buildSpecs toMillis flow sp input cx parentDepth = Inr specs" and "filedByTag flow"
  shows "map cs_childKey specs = itemKeys (itemsOf flow (groupsOf input))"
    and "list_all (describedBy flow cx (parentDepth + 1)) specs"
    and "distinct (map cs_childKey specs)" and "'''' \<notin> set (map cs_childKey specs)"
proof -
  let ?xs = "itemsOf flow (groupsOf input)"
  from assms(1) have b: "distinct (itemKeys ?xs)" "'''' \<notin> set (itemKeys ?xs)"
    and m: "map (manifestSpec toMillis flow cx (parentDepth + 1) sp) ?xs = map Some specs"
    unfolding buildSpecs_Inr by blast+
  from m have len: "length specs = length ?xs" by (metis length_map)
  have at: "manifestSpec toMillis flow cx (parentDepth + 1) sp (?xs ! i) = Some (specs ! i)" if "i < length specs" for i
    using m that len by (metis nth_map)
  have each: "cs_childKey (specs ! i) = ci_key (snd (?xs ! i)) \<and> describedBy flow cx (parentDepth + 1) (specs ! i)"
    if "i < length specs" for i
  proof -
    obtain mm item where x: "?xs ! i = (mm, item)" by fastforce
    with that len have "(mm, item) \<in> set ?xs" by (metis nth_mem)
    then obtain tag where "mm = mapGet (fw_byName flow) tag" using itemsOf_member by blast
    from manifestSpec_Some [OF _ assms(2) this] at [OF that] x show ?thesis by simp
  qed
  show keys: "map cs_childKey specs = itemKeys ?xs"
    by (rule nth_equalityI) (simp_all add: len itemKeys_def each)
  show "list_all (describedBy flow cx (parentDepth + 1)) specs"
    using each by (auto simp: list_all_length)
  show "distinct (map cs_childKey specs)" "'''' \<notin> set (map cs_childKey specs)"
    unfolding keys using b by simp_all
qed

lemma manifest_ackable:
  assumes "buildSpecs toMillis flow sp input cx parentDepth = Inr specs" and "filedByTag flow"
  shows "ackable specs"
  using manifest_facts [OF assms] by (auto simp: ackable_def describedBy_def list_all_iff)

lemma makeFlow_id: "makeFlow name parent children occ = Inr flow \<Longrightarrow> fw_name flow = name \<and> fw_parent flow = parent"
  by (auto simp: makeFlow_def split: sum.splits if_splits)

text \<open>C36: what a flow definition from \<open>make\<close> hands to the store is what the fan-out acknowledgement relies
  on: at most eight levels deep, every child under a non-empty key of its own, with an id of its own
  that is derived from the parent's store, the parent and the key, with the envelope that its reports
  will travel back on, in the store and queue of a declared member, ready to run, with at least one
  attempt and no dedup key.\<close>

theorem manifests_are_well_formed:
  assumes "makeFlow name parent children occ = Inr flow"
    and "buildSpecs toMillis flow sp input cx parentDepth = Inr specs"
  shows "parentDepth + 1 \<le> 8 \<and> ackable specs \<and> '''' \<notin> set (map cs_childKey specs)
    \<and> distinct (map (\<lambda>c. rq_id (cs_request c)) specs)
    \<and> map cs_childKey specs = itemKeys (itemsOf flow (groupsOf input))
    \<and> list_all (describedBy flow cx (parentDepth + 1)) specs"
proof -
  note filed = makeFlow_filed [OF assms(1)]
  note facts = manifest_facts [OF assms(2) filed]
  have "map (\<lambda>c. rq_id (cs_request c)) specs
      = map (\<lambda>k. Some (childJobId (jb_store (fw_parent flow)) (jc_jobId cx) k)) (map cs_childKey specs)"
    using facts(2) by (auto simp: list_all_iff describedBy_def)
  moreover have "inj (\<lambda>k. Some (childJobId (jb_store (fw_parent flow)) (jc_jobId cx) k))"
    by (rule injI) (simp add: childJobId_def)
  ultimately have "distinct (map (\<lambda>c. rq_id (cs_request c)) specs)"
    using facts(3) by (metis distinct_map inj_on_subset subset_UNIV)
  then show ?thesis
    using facts manifest_ackable [OF assms(2) filed] assms(2) unfolding buildSpecs_Inr by blast
qed

definition sampleFlow :: "(nat, nat, nat, nat, int) flow_def" where
  "sampleFlow = \<lparr> fw_name = ''fan'', fw_parent = numberDef ''parent'', fw_children = [numberDef ''mail''],
     fw_byName = [(''mail'', numberDef ''mail'')], fw_failFast = True \<rparr>"

definition plainChild :: "int child_options" where
  "plainChild = \<lparr> jo_delay = None, jo_priority = None, jo_attempts = None, jo_backoff = None, jo_keep = None,
     jo_timeout = None, ch_metadata = [] \<rparr>"

definition twoChildren :: "(int, nat) children_input" where
  "twoChildren = OneGroup \<lparr> cg_job = ''mail'', cg_items =
     [\<lparr> ci_key = ''a'', ci_payload = 1, ci_options = plainChild \<rparr>, \<lparr> ci_key = ''b'', ci_payload = 2, ci_options = plainChild \<rparr>] \<rparr>"

definition sampleContext :: job_context where
  "sampleContext = contextOf activeJob"

lemma sampleFlow_made:
  "makeFlow ''fan'' (numberDef ''parent'') [numberDef ''mail''] (Some FailOnChildFailure) = Inr sampleFlow"
  by (simp add: makeFlow_def sampleFlow_def numberDef_def)

theorem manifests_are_well_formed_witness:
  "\<exists>specs. buildSpecs (\<lambda>d. d) sampleFlow None twoChildren sampleContext 7 = Inr specs
     \<and> ackable specs \<and> map cs_childKey specs = [''a'', ''b'']"
proof -
  have "\<exists>specs. buildSpecs (\<lambda>d. d) sampleFlow None twoChildren sampleContext 7 = Inr specs"
    by (simp add: buildSpecs_def maxDepth_def twoChildren_def sampleFlow_def buildItem_def numberDef_def
        childRequest_def keepOr_def plainChild_def)
  then obtain specs where s: "buildSpecs (\<lambda>d. d) sampleFlow None twoChildren sampleContext 7 = Inr specs" by blast
  from manifests_are_well_formed [OF sampleFlow_made s] s show ?thesis
    by (simp add: itemKeys_def itemsOf_def twoChildren_def)
qed

section \<open>A flow as a worker runs it\<close>

text \<open>What is asked of the two handlers of a flow: they leave the store well-formed.\<close>

definition keepsStore :: "string \<Rightarrow> (world, 'p, 'v, 'c, 'd, 'f) flow_handlers \<Rightarrow> bool" where
  "keepsStore key handlers \<longleftrightarrow> (\<forall>payload cx w k. wellFormed (wd_stores w key) \<longrightarrow>
     wellFormed (wd_stores (fst (snd (fh_fanOut handlers payload cx (w, k)))) key)
   \<and> (\<forall>results. wellFormed (wd_stores (fst (snd (fh_collect handlers payload results cx (w, k)))) key)))"

lemma flowEntry_polite:
  fixes handlers :: "(world, 'p, 'v, 'c, 'd, 'f) flow_handlers"
  assumes "filedByTag flow" and "keepsStore key handlers"
    and entry_def: "entry = flowEntry lib (flowDescriptor toMillis lib asCause flow descriptor store spanOf handlers)"
  shows "wellFormed (wd_stores w key) \<Longrightarrow>
      wellFormed (wd_stores (fst (snd (he_run entry payload cx state (w, k)))) key)"
    and "wellFormed (wd_stores w key) \<Longrightarrow> he_flow entry = Some fl \<Longrightarrow>
      (case fe_fanOut fl payload cx depth (w, k) of (ex, (w', k')) \<Rightarrow>
         wellFormed (wd_stores w' key) \<and> (case ex of ExitSuccess children \<Rightarrow> ackable children | _ \<Rightarrow> True))"
proof -
  show "wellFormed (wd_stores w key) \<Longrightarrow>
      wellFormed (wd_stores (fst (snd (he_run entry payload cx state (w, k)))) key)"
    using assms(2) by (simp add: entry_def flowEntry_def flowDescriptor_def withPayload_def keepsStore_def split: sum.split)
  assume w: "wellFormed (wd_stores w key)" and fl: "he_flow entry = Some fl"
  show "case fe_fanOut fl payload cx depth (w, k) of (ex, (w', k')) \<Rightarrow>
         wellFormed (wd_stores w' key) \<and> (case ex of ExitSuccess children \<Rightarrow> ackable children | _ \<Rightarrow> True)"
  proof (cases "jd_decodePayload descriptor payload")
    case (Inl c)
    then show ?thesis using fl w by (auto simp: entry_def flowEntry_def flowDescriptor_def withPayload_def)
  next
    case (Inr p)
    obtain ex w' k' where run: "fh_fanOut handlers p cx (w, k) = (ex, (w', k'))" by (metis prod.collapse)
    have w': "wellFormed (wd_stores w' key)" using assms(2) w run unfolding keepsStore_def by (metis fst_conv snd_conv)
    show ?thesis using Inr run w' fl manifest_ackable [OF _ assms(1)]
      by (auto simp: entry_def flowEntry_def flowDescriptor_def withPayload_def split: exit.splits sum.splits)
  qed
qed

text \<open>A flow that \<open>make\<close> accepts and \<open>toLayer\<close> registers with a worker is run safely: whatever its two
  handlers produce, as long as they leave the store well-formed, every run of every job of that worker
  gives its lock back.\<close>

theorem registered_flows_give_their_lock_back:
  fixes handlers :: "(world, 'p, 'v, 'c, 'd, 'f) flow_handlers"
  assumes "makeFlow name parent children occ = Inr flow"
    and "politeHandlers key rt" and "keepsStore key handlers"
    and "registerFlow options own lib (flowDescriptor toMillis lib asCause flow descriptor store spanOf handlers)
           provided ro (rt_handlers rt, rt_storesByKey rt, k0) = (None, (hs, stores, k1))"
    and "drivenBy lk key (rt\<lparr>rt_handlers := hs, rt_storesByKey := stores\<rparr>)"
    and "sparesToken token lk" and "fairLink lk" and "wellFormed (wd_stores w key)"
  shows "\<not> locked (wd_stores (fst (snd (processJob (rt\<lparr>rt_handlers := hs, rt_storesByKey := stores\<rparr>) record token (w, k)))) key)
      (j_id record) token"
proof -
  note entry = flowEntry_polite [OF makeFlow_filed [OF assms(1)] assms(3) refl]
  have hs: "hs = mapSet (jd_tag descriptor)
      (flowEntry lib (flowDescriptor toMillis lib asCause flow descriptor store spanOf handlers)) (rt_handlers rt)"
    using assms(4) by (auto simp: registerFlow_def flowDescriptor_def Let_def split: if_splits prod.splits option.splits)
  have "politeHandlers key (rt\<lparr>rt_handlers := hs, rt_storesByKey := stores\<rparr>)"
    unfolding politeHandlers_def
  proof (intro allI impI)
    fix n e
    assume e: "mapGet (rt_handlers (rt\<lparr>rt_handlers := hs, rt_storesByKey := stores\<rparr>)) n = Some e"
    show "(\<forall>payload context flow w k. wellFormed (wd_stores w key) \<longrightarrow>
          wellFormed (wd_stores (fst (snd (he_run e payload context flow (w, k)))) key))
      \<and> (\<forall>fl payload context depth w k. he_flow e = Some fl \<longrightarrow> wellFormed (wd_stores w key) \<longrightarrow>
          (case fe_fanOut fl payload context depth (w, k) of (ex, (w', k')) \<Rightarrow>
             wellFormed (wd_stores w' key) \<and> (case ex of ExitSuccess children \<Rightarrow> ackable children | _ \<Rightarrow> True)))"
    proof (cases "n = jd_tag descriptor")
      case True
      with e have "e = flowEntry lib (flowDescriptor toMillis lib asCause flow descriptor store spanOf handlers)"
        by (simp add: hs)
      then show ?thesis by (simp only:) (intro conjI allI impI entry; assumption)
    next
      case False
      with e have old: "mapGet (rt_handlers rt) n = Some e" by (simp add: hs)
      show ?thesis by (rule assms(2) [unfolded politeHandlers_def, THEN spec, THEN spec, THEN mp, OF old])
    qed
  qed
  from processJob_frees [OF assms(5) this assms(6,7,8)] show ?thesis by (simp add: freeIn_def)
qed

text \<open>The sample flow on the worker of the samples, whose own store is the only one; a fan-out of two
  children and a collect that succeeds.\<close>

definition fanHandlers :: "(world, nat, nat, nat, int, nat) flow_handlers" where
  "fanHandlers = \<lparr> fh_fanOut = (\<lambda>_ _ st. (ExitSuccess twoChildren, st)), fh_collect = (\<lambda>_ _ _ st. (ExitSuccess 1, st)) \<rparr>"

definition fanDescriptor :: "(nat, nat, nat, nat) job_descriptor" where
  "fanDescriptor = \<lparr> jd_tag = ''fan'', jd_queue = ''q'', jd_store = ''s'', jd_decodePayload = (\<lambda>_. Inr 0),
     jd_encodeExit = encodeNat, jd_retryable = None \<rparr>"

definition plainWorkerOptions :: "int worker_options" where
  "plainWorkerOptions = \<lparr> wo_concurrency = None, wo_queues = [], wo_lockDuration = None, wo_lockRenewInterval = None,
     wo_stalledInterval = None, wo_maxStalledCount = None, wo_pollInterval = None, wo_scheduleSweepInterval = None,
     wo_flowSweepInterval = None, wo_id = None \<rparr>"

theorem registered_flows_give_their_lock_back_witness:
  "\<exists>hs stores k1. registerFlow plainWorkerOptions ''s'' plainLib
       (flowDescriptor (\<lambda>d. d) plainLib (\<lambda>_. 5) sampleFlow fanDescriptor (memService lossyLink ''s'') (\<lambda>_. None) fanHandlers)
       (\<lambda>k. Some (memService lossyLink k)) \<lparr>ro_concurrency = None, ro_queue = None\<rparr>
       (rt_handlers (mailWorker lossyLink (ExitSuccess 1)), rt_storesByKey (mailWorker lossyLink (ExitSuccess 1)), idleWorker)
       = (None, (hs, stores, k1))
     \<and> \<not> locked (wd_stores (fst (snd (processJob
           ((mailWorker lossyLink (ExitSuccess 1))\<lparr>rt_handlers := hs, rt_storesByKey := stores\<rparr>)
           (activeJob\<lparr>j_name := ''fan''\<rparr>) ''t'' (worldOf oneActive, idleWorker)))) ''s'') ''j-2'' ''t''"
proof -
  let ?rt = "mailWorker lossyLink (ExitSuccess 1)"
  let ?fd = "flowDescriptor (\<lambda>d. d) plainLib (\<lambda>_. 5) sampleFlow fanDescriptor (memService lossyLink ''s'') (\<lambda>_. None) fanHandlers"
  have "\<exists>hs stores k1. registerFlow plainWorkerOptions ''s'' plainLib ?fd
       (\<lambda>k. Some (memService lossyLink k)) \<lparr>ro_concurrency = None, ro_queue = None\<rparr>
       (rt_handlers ?rt, rt_storesByKey ?rt, idleWorker) = (None, (hs, stores, k1)) \<and> stores = [(''s'', memService lossyLink ''s'')]"
    by (simp add: registerFlow_def flowDescriptor_def sampleFlow_def numberDef_def fanDescriptor_def mailWorker_def Let_def)
  then obtain hs stores k1 where reg: "registerFlow plainWorkerOptions ''s'' plainLib ?fd
       (\<lambda>k. Some (memService lossyLink k)) \<lparr>ro_concurrency = None, ro_queue = None\<rparr>
       (rt_handlers ?rt, rt_storesByKey ?rt, idleWorker) = (None, (hs, stores, k1))"
    and st: "stores = [(''s'', memService lossyLink ''s'')]" by blast
  have driven: "drivenBy lossyLink ''s'' (?rt\<lparr>rt_handlers := hs, rt_storesByKey := stores\<rparr>)"
    by (simp add: drivenBy_def st)
  have keeps: "keepsStore ''s'' fanHandlers" by (simp add: keepsStore_def fanHandlers_def)
  have wf: "wellFormed (wd_stores (worldOf oneActive) ''s'')" by (simp add: oneActive_wf)
  show ?thesis
    using registered_flows_give_their_lock_back [OF sampleFlow_made mailWorker_polite keeps reg driven lossyLink_spares
        lossyLink_fair wf, of "activeJob\<lparr>j_name := ''fan''\<rparr>" idleWorker] reg activeJob_sel by auto
qed

end
