(* ===== verification/FlowResults.thy ===== *)
theory FlowResults
  imports FlowSpecs Listing FlowProps
begin

text \<open>
  The accessors of a flow's results: \<open>all\<close> and \<open>stream\<close> of \<open>makeResults\<close> page through the dependency
  rows of the parent store and decode them. They rest on the paging contract \<open>cs\<close> of the store.
\<close>

definition settledEntries :: "('v, 'c) settled_child option list \<Rightarrow> ('v, 'c) settled_child list" where
  "settledEntries es = map the (filter (\<lambda>e. e \<noteq> None) es)"

fun entryKey :: "('v, 'c) settled_child \<Rightarrow> string" where
  "entryKey (CompletedChild k n v) = k"
| "entryKey (FailedChild k n c) = k"
| "entryKey (CancelledChild k n) = k"

text \<open>The rows of a flow in the order of the pages, and all their decodings or the first that fails.\<close>

definition decodedRows ::
  "('c, 'e) cause_lib \<Rightarrow> ('f, 'p, 'v, 'c, 'd) flow_def \<Rightarrow> flow_child_record list \<Rightarrow> ('v, 'c) settled_child list pure" where
  "decodedRows lib flow rows = bindP (traverse (decodeRow lib flow) rows) (\<lambda>es. Inr (settledEntries es))"

lemma traverse_append:
  "traverse f (xs @ ys) = bindP (traverse f xs) (\<lambda>a. bindP (traverse f ys) (\<lambda>b. Inr (a @ b)))"
proof (induction xs)
  case Nil
  then show ?case by (cases "traverse f ys") simp_all
next
  case (Cons x xs)
  then show ?case
    by (cases "f x"; cases "traverse f xs"; cases "traverse f ys") simp_all
qed

lemma decodedRows_append:
  "decodedRows lib flow (xs @ ys)
     = bindP (decodedRows lib flow xs) (\<lambda>a. bindP (decodedRows lib flow ys) (\<lambda>b. Inr (a @ b)))"
  by (cases "traverse (decodeRow lib flow) xs"; cases "traverse (decodeRow lib flow) ys")
    (simp_all add: decodedRows_def traverse_append settledEntries_def)

lemma decodePage_direct:
  "decodePage lib flow (memService (directLink clock) key) flowId c w =
     (case childFetch flowId None (wd_stores w key) c of
        (items, nxt) \<Rightarrow> lift (bindP (decodedRows lib flow items) (\<lambda>es. Inr (es, nxt))) (w\<lparr>wd_step := wd_step w + 1\<rparr>))"
proof -
  have w: "\<lparr>wd_stores = wd_stores w, wd_step = Suc (wd_step w)\<rparr> = w\<lparr>wd_step := wd_step w + 1\<rparr>" by simp
  obtain items nxt where f: "listChildResults flowId c None (wd_stores w key) = (items, nxt)" by fastforce
  have "sv_listChildResults (memService (directLink clock) key) flowId c None w
      = (Inr (items, nxt), w\<lparr>wd_step := wd_step w + 1\<rparr>)"
    using w by (simp add: memService_def direct_call reads_def f)
  then show ?thesis
    by (cases "traverse (decodeRow lib flow) items")
      (simp_all add: decodePage_def bindA_def orDie_def childFetch_def f lift_def decodedRows_def settledEntries_def)
qed

lemma fold_settled: "fold sortEntry (xs @ ys) acc = fold sortEntry ys (fold sortEntry xs acc)"
  by simp

lemma allFrom_complete:
  assumes "wellFormed (wd_stores w key)" and "childIssued flowId (wd_stores w key) c"
    and "length (childRest flowId (wd_stores w key) c) < fuel"
  shows "\<exists>w'. allFrom lib flow (memService (directLink clock) key) flowId fuel c acc w =
      (Some (case decodedRows lib flow (childRest flowId (wd_stores w key) c) of
               Inl d \<Rightarrow> Died d | Inr es \<Rightarrow> Returned (fold sortEntry es acc)), w')
    \<and> wd_stores w' = wd_stores w"
  using assms
proof (induction fuel arbitrary: c acc w)
  case 0
  then show ?case by simp
next
  case (Suc fuel)
  let ?s = "wd_stores w key"
  obtain items nxt where f: "childFetch flowId None ?s c = (items, nxt)" by fastforce
  show ?case
  proof (cases nxt)
    case None
    have "childRest flowId ?s c = items" by (rule cs.last_page [OF Suc.prems(1,2)]) (use f None in simp)
    then show ?thesis
      by (cases "decodedRows lib flow items") (simp_all add: decodePage_direct f None lift_def)
  next
    case (Some nx)
    have m: "items \<noteq> []" "childRest flowId ?s c = items @ childRest flowId ?s (Some nx)"
      "childIssued flowId ?s (Some nx)"
      using cs.more_pages [OF Suc.prems(1,2)] f Some by blast+
    show ?thesis
    proof (cases "decodedRows lib flow items")
      case (Inl d)
      then show ?thesis by (simp add: decodePage_direct f Some lift_def m(2) decodedRows_append)
    next
      case (Inr es)
      let ?w1 = "w\<lparr>wd_step := wd_step w + 1\<rparr>"
      have "length (childRest flowId (wd_stores ?w1 key) (Some nx)) < fuel"
        using Suc.prems(3) m(1,2) by (cases items) auto
      from Suc.IH [of ?w1 "Some nx" "fold sortEntry es acc", OF _ _ this] Suc.prems(1) m(3)
      obtain w' where "allFrom lib flow (memService (directLink clock) key) flowId fuel (Some nx) (fold sortEntry es acc) ?w1 =
          (Some (case decodedRows lib flow (childRest flowId ?s (Some nx)) of
               Inl d \<Rightarrow> Died d | Inr es' \<Rightarrow> Returned (fold sortEntry es' (fold sortEntry es acc))), w')"
        "wd_stores w' = wd_stores w" by auto
      then show ?thesis using Inr
        by (cases "decodedRows lib flow (childRest flowId ?s (Some nx))")
          (simp_all add: decodePage_direct f Some lift_def m(2) decodedRows_append)
    qed
  qed
qed

lemma streamFrom_complete:
  assumes "wellFormed (wd_stores w key)" and "childIssued flowId (wd_stores w key) c"
    and "length (childRest flowId (wd_stores w key) c) < fuel"
    and "decodedRows lib flow (childRest flowId (wd_stores w key) c) = Inr es"
  shows "\<exists>w'. streamFrom lib flow (memService (directLink clock) key) flowId fuel c w = (es, Some (Returned ()), w')
    \<and> wd_stores w' = wd_stores w"
  using assms
proof (induction fuel arbitrary: c es w)
  case 0
  then show ?case by simp
next
  case (Suc fuel)
  let ?s = "wd_stores w key"
  obtain items nxt where f: "childFetch flowId None ?s c = (items, nxt)" by fastforce
  show ?case
  proof (cases nxt)
    case None
    have "childRest flowId ?s c = items" by (rule cs.last_page [OF Suc.prems(1,2)]) (use f None in simp)
    then show ?thesis using Suc.prems(4) by (simp add: decodePage_direct f None lift_def)
  next
    case (Some nx)
    have m: "items \<noteq> []" "childRest flowId ?s c = items @ childRest flowId ?s (Some nx)"
      "childIssued flowId ?s (Some nx)"
      using cs.more_pages [OF Suc.prems(1,2)] f Some by blast+
    from Suc.prems(4) obtain a b where ab: "decodedRows lib flow items = Inr a"
      "decodedRows lib flow (childRest flowId ?s (Some nx)) = Inr b" "es = a @ b"
      unfolding m(2) decodedRows_append
      by (cases "decodedRows lib flow items"; cases "decodedRows lib flow (childRest flowId ?s (Some nx))") auto
    let ?w1 = "w\<lparr>wd_step := wd_step w + 1\<rparr>"
    have "length (childRest flowId (wd_stores ?w1 key) (Some nx)) < fuel"
      using Suc.prems(3) m(1,2) by (cases items) auto
    from Suc.IH [of ?w1 "Some nx" b, OF _ _ this] Suc.prems(1) m(3) ab(2)
    obtain w' where "streamFrom lib flow (memService (directLink clock) key) flowId fuel (Some nx) ?w1 = (b, Some (Returned ()), w')"
      "wd_stores w' = wd_stores w" by auto
    then show ?thesis using ab by (simp add: decodePage_direct f Some lift_def)
  qed
qed

lemma decodeRow_key:
  "decodeRow lib flow row = Inr x \<Longrightarrow>
     (case x of None \<Rightarrow> fr_status row = RPending | Some e \<Rightarrow> fr_status row \<noteq> RPending \<and> entryKey e = fr_childKey row)"
  by (cases "fr_exit row"; cases "mapGet (fw_byName flow) (fr_name row)")
    (auto simp: decodeRow_def needed_def split: if_splits option.splits exit.splits)

lemma decodedRows_keys:
  "decodedRows lib flow rows = Inr es
    \<Longrightarrow> map entryKey es = map fr_childKey (filter (\<lambda>row. fr_status row \<noteq> RPending) rows)"
proof (induction rows arbitrary: es)
  case Nil
  then show ?case by (simp add: decodedRows_def settledEntries_def)
next
  case (Cons row rows)
  from Cons.prems obtain x ys where x: "decodeRow lib flow row = Inr x" and ys: "traverse (decodeRow lib flow) rows = Inr ys"
    and es: "es = settledEntries (x # ys)"
    by (cases "decodeRow lib flow row"; cases "traverse (decodeRow lib flow) rows") (auto simp: decodedRows_def)
  have "map entryKey (settledEntries ys) = map fr_childKey (filter (\<lambda>row. fr_status row \<noteq> RPending) rows)"
    by (rule Cons.IH) (simp add: decodedRows_def ys)
  with decodeRow_key [OF x] show ?case
    unfolding es by (cases x) (auto simp: settledEntries_def)
qed

text \<open>C37: the results of a flow are complete. With fuel above the number of dependency rows \<open>all\<close> returns
  what decoding every row in key order gives: the settled children, each once, sorted by outcome, or the
  defect of the first row that does not decode. \<open>stream\<close> then emits the same entries in key order and
  ends. Neither changes the store. The fuel is enough because every page but the last has a row.\<close>

theorem flow_results_are_complete:
  assumes "wellFormed (wd_stores w key)" and "length (sortedRows flowId (wd_stores w key)) < fuel"
    and "rows = map childRecord (sortedRows flowId (wd_stores w key))"
    and "results = makeResults lib flow (memService (directLink clock) key) flowState flowId"
  shows "(\<exists>w'. rs_all results fuel w =
       (Some (case decodedRows lib flow rows of Inl d \<Rightarrow> Died d | Inr es \<Rightarrow> Returned (fold sortEntry es nobody)), w')
       \<and> wd_stores w' = wd_stores w)
    \<and> (\<forall>es. decodedRows lib flow rows = Inr es \<longrightarrow>
        map entryKey es = map fr_childKey (filter (\<lambda>row. fr_status row \<noteq> RPending) rows)
      \<and> (\<exists>w'. rs_stream results fuel w = (es, Some (Returned ()), w') \<and> wd_stores w' = wd_stores w))"
proof -
  have rest: "childRest flowId (wd_stores w key) None = rows"
    by (simp add: childRest_def childAfter_def assms(3))
  have len: "length (childRest flowId (wd_stores w key) None) < fuel"
    unfolding rest using assms(2,3) by simp
  note start = cs.start [OF assms(1), of flowId]
  show ?thesis
    using allFrom_complete [OF assms(1) start len, of lib flow clock nobody]
      streamFrom_complete [OF assms(1) start len, of lib flow _ clock] decodedRows_keys [of lib flow rows]
    unfolding rest assms(4) makeResults_def by simp
qed

text \<open>A flow with one child completed and one cancelled.\<close>

definition settledStore :: mem_store where
  "settledStore = snd (recordChildResults 30
     [(reportFor ''a'' TCompleted)\<lparr>rp_exit := Some (JNum 5)\<rparr>, reportFor ''b'' TCancelled] (flowStore False))"

lemma settledStore_rows:
  "decodedRows plainLib sampleFlow (map childRecord (sortedRows ''j-1'' settledStore))
     = Inr [CompletedChild ''a'' ''mail'' 5, CancelledChild ''b'' ''mail'']
   \<and> length (sortedRows ''j-1'' settledStore) = 2"
  by code_simp

theorem flow_results_are_complete_witness:
  "\<exists>w'. rs_all (makeResults plainLib sampleFlow (memService (directLink (\<lambda>n. int n)) ''s'') (emptyFlow True) ''j-1'') 3
       (worldOf settledStore)
     = (Some (Returned \<lparr>se_completed = [CompletedChild ''a'' ''mail'' 5], se_failed = [],
                        se_cancelled = [CancelledChild ''b'' ''mail'']\<rparr>), w')"
proof -
  have w: "wellFormed (wd_stores (worldOf settledStore) ''s'')"
    using recordChildResults_wf [OF flowStore_wf] by (simp add: settledStore_def)
  have len: "length (sortedRows ''j-1'' (wd_stores (worldOf settledStore) ''s'')) < 3"
    using settledStore_rows by simp
  from flow_results_are_complete [OF w len refl refl, of plainLib sampleFlow] settledStore_rows
  show ?thesis by (auto simp: nobody_def)
qed

end
