(* ===== verification/JobProps.thy ===== *)
theory JobProps
  imports WorkerSamples RunProps
begin

text \<open>
  The methods of a job definition: what \<open>awaitResult\<close> reports is what the store holds and it returns
  once the job is finished, and a batch makes the requests that single calls would make.
\<close>

section \<open>Waiting for a result\<close>

text \<open>What each way to end says about the job in the store.\<close>

fun reportsOn ::
  "('f, 'p, 'v, 'c, 'd) job_def \<Rightarrow> (nat \<Rightarrow> bool) \<Rightarrow> job_id \<Rightarrow> ('v, 'c) exit outcome \<Rightarrow> mem_store \<Rightarrow> bool" where
  "reportsOn self sleeps i (Returned ex) s =
     (case getJob i s of
        None \<Rightarrow> False
      | Some j \<Rightarrow> (j_state j = Completed \<or> j_state j = Failed)
          \<and> Option.bind (j_exit j) (jb_decodeExit self) = Some ex)"
| "reportsOn self sleeps i (Died (JobVanished k)) s = (k = i \<and> getJob i s = None)"
| "reportsOn self sleeps i (Died (JobWasCancelled k)) s =
     (k = i \<and> map_option j_state (getJob i s) = Some Cancelled)"
| "reportsOn self sleeps i (Died (NoResult k reason)) s =
     (case getJob i s of
        None \<Rightarrow> False
      | Some j \<Rightarrow> k = i \<and> (j_state j = Completed \<or> j_state j = Failed) \<and> j_exit j = None
          \<and> reason = j_failedReason j)"
| "reportsOn self sleeps i (Died BadExit) s =
     (case getJob i s of
        None \<Rightarrow> False
      | Some j \<Rightarrow> j_exit j \<noteq> None \<and> Option.bind (j_exit j) (jb_decodeExit self) = None)"
| "reportsOn self sleeps i (Died (StoreFailed e)) s = (e = driverDown)"
| "reportsOn self sleeps i (Died (ScheduleExhausted t)) s = (t = jb_tag self \<and> (\<exists>n. \<not> sleeps n))"
| "reportsOn self sleeps i _ s = False"

text \<open>Whatever the stores are, the call number \<open>n\<close> finds the job finished or gone.\<close>

definition finishedAt :: "link \<Rightarrow> string \<Rightarrow> job_id \<Rightarrow> nat \<Rightarrow> bool" where
  "finishedAt lk key i n \<longleftrightarrow> (\<forall>st. case getJob i (lk_others lk n st key) of
     None \<Rightarrow> True | Some j \<Rightarrow> j_state j \<in> TERMINAL_STATES)"

lemma poll_world:
  assumes "poll self (memService lk key) i w = (r, w')"
  shows "wd_step w' = wd_step w + 1"
    and "wd_stores w' = lk_others lk (wd_step w) (wd_stores w)"
    and "r = Died (StoreFailed driverDown)
      \<or> r = (case getJob i (wd_stores w' key) of
               None \<Rightarrow> Returned None
             | Some j \<Rightarrow> (case statusFrom self j of Inl d \<Rightarrow> Died d | Inr st \<Rightarrow> Returned (Some st)))"
proof -
  let ?st = "lk_others lk (wd_step w) (wd_stores w)"
  obtain x w1 where c: "sv_getJob (memService lk key) i w = (x, w1)" by fastforce
  then have w1: "wd_step w1 = wd_step w + 1" "wd_stores w1 = ?st" "x = Inl driverDown \<or> x = Inr (getJob i (?st key))"
    by (auto simp: memService_def memCall_def reads_def Let_def split: fault.splits)
  let ?j = "getJob i (?st key)"
  have "w' = w1 \<and> (x = Inr ?j \<longrightarrow> r = (case ?j of
               None \<Rightarrow> Returned None
             | Some j \<Rightarrow> (case statusFrom self j of Inl d \<Rightarrow> Died d | Inr st \<Rightarrow> Returned (Some st))))
      \<and> (x = Inl driverDown \<longrightarrow> r = Died (StoreFailed driverDown))"
    using w1(3)
  proof
    assume "x = Inl driverDown"
    then show ?thesis using assms c by (simp add: poll_def bindA_def orDie_def)
  next
    assume x: "x = Inr ?j"
    show ?thesis
    proof (cases ?j)
      case None
      then show ?thesis using assms c x by (simp add: poll_def bindA_def orDie_def lift_def)
    next
      case (Some j)
      then show ?thesis using assms c x
        by (cases "statusFrom self j") (simp_all add: poll_def bindA_def orDie_def lift_def)
    qed
  qed
  note r = this
  then have "w' = w1" by blast
  with w1 show "wd_step w' = wd_step w + 1" "wd_stores w' = ?st" by simp_all
  show "r = Died (StoreFailed driverDown)
      \<or> r = (case getJob i (wd_stores w' key) of
               None \<Rightarrow> Returned None
             | Some j \<Rightarrow> (case statusFrom self j of Inl d \<Rightarrow> Died d | Inr st \<Rightarrow> Returned (Some st)))"
    using r w1 \<open>w' = w1\<close> by auto
qed

lemma statusFrom_Inr:
  "statusFrom self j = Inr st \<longleftrightarrow> (\<exists>ex. decodeStored self (j_exit j) = Inr ex
     \<and> st = \<lparr> st_state = j_state j, st_attemptsMade = j_attemptsMade j, st_metadata = j_metadata j,
              st_exit = ex, st_failedReason = j_failedReason j \<rparr>)"
  by (cases "decodeStored self (j_exit j)") (auto simp: statusFrom_def)

lemma statusFrom_Inl:
  "statusFrom self j = Inl d \<longleftrightarrow> d = BadExit \<and> j_exit j \<noteq> None \<and> Option.bind (j_exit j) (jb_decodeExit self) = None"
  by (auto simp: statusFrom_def decodeStored_def needed_def split: option.splits)

lemma decodeStored_Inr:
  "decodeStored self x = Inr ex \<Longrightarrow> ex = Option.bind x (jb_decodeExit self) \<and> (ex = None \<longleftrightarrow> x = None)"
  by (cases x; cases "jb_decodeExit self (the x)") (auto simp: decodeStored_def needed_def)

text \<open>One poll and its judgement.\<close>

lemma judged:
  assumes "bindA (poll self (memService lk key) i) (\<lambda>status. lift (judge i status)) w = (r, w')"
  shows "wd_step w' = wd_step w + 1"
    and "r = Returned (Some ex) \<Longrightarrow> reportsOn self sleeps i (Returned ex) (wd_stores w' key)"
    and "r = Died d \<Longrightarrow> reportsOn self sleeps i (Died d) (wd_stores w' key)"
    and "r \<noteq> Failing e"
    and "finishedAt lk key i (wd_step w) \<Longrightarrow> r \<noteq> Returned None"
proof -
  obtain x w1 where p: "poll self (memService lk key) i w = (x, w1)" by fastforce
  note world = poll_world [OF p]
  have w': "w' = w1"
    using assms p by (auto simp: bindA_def lift_def split: outcome.splits sum.splits)
  show "wd_step w' = wd_step w + 1" using world(1) w' by simp
  let ?j = "getJob i (wd_stores w' key)"
  consider "r = Died (StoreFailed driverDown)"
    | "?j = None" "r = Died (JobVanished i)"
    | j d where "?j = Some j" "statusFrom self j = Inl d" "r = Died d"
    | j st where "?j = Some j" "statusFrom self j = Inr st"
        "r = (case judge i (Some st) of Inl d \<Rightarrow> Died d | Inr y \<Rightarrow> Returned y)"
  proof (cases "x = Died (StoreFailed driverDown)")
    case True
    then show thesis using that(1) assms p by (simp add: bindA_def)
  next
    case False
    then have x: "x = (case ?j of None \<Rightarrow> Returned None
        | Some j \<Rightarrow> (case statusFrom self j of Inl d \<Rightarrow> Died d | Inr st \<Rightarrow> Returned (Some st)))"
      using world(3) w' by simp
    show thesis
    proof (cases ?j)
      case None
      then show thesis using that(2) x assms p by (simp add: bindA_def lift_def judge_def)
    next
      case (Some j)
      show thesis
      proof (cases "statusFrom self j")
        case (Inl d)
        then show thesis using that(3) Some x assms p by (simp add: bindA_def)
      next
        case (Inr st)
        have "r = (case judge i (Some st) of Inl d \<Rightarrow> Died d | Inr y \<Rightarrow> Returned y)"
          using Some Inr x assms p by (auto simp: bindA_def lift_def split: sum.splits)
        then show thesis using that(4) Some Inr by blast
      qed
    qed
  qed
  then have "(\<forall>ex. r = Returned (Some ex) \<longrightarrow> reportsOn self sleeps i (Returned ex) (wd_stores w' key))
    \<and> (\<forall>d. r = Died d \<longrightarrow> reportsOn self sleeps i (Died d) (wd_stores w' key))
    \<and> r \<noteq> Failing e
    \<and> (r = Returned None \<longrightarrow> (case ?j of None \<Rightarrow> False | Some j \<Rightarrow> j_state j \<notin> TERMINAL_STATES))"
  proof cases
    case (3 j d)
    then show ?thesis by (auto simp: statusFrom_Inl)
  next
    case (4 j st)
    from 4(2) obtain ex where d: "decodeStored self (j_exit j) = Inr ex"
      and st: "st = \<lparr> st_state = j_state j, st_attemptsMade = j_attemptsMade j, st_metadata = j_metadata j,
              st_exit = ex, st_failedReason = j_failedReason j \<rparr>" by (auto simp: statusFrom_Inr)
    from decodeStored_Inr [OF d] show ?thesis
      using 4(1,3) unfolding st
      by (auto simp: judge_def TERMINAL_STATES_def split: if_splits option.splits)
  qed simp_all
  then show "r = Returned (Some ex) \<Longrightarrow> reportsOn self sleeps i (Returned ex) (wd_stores w' key)"
    and "r = Died d \<Longrightarrow> reportsOn self sleeps i (Died d) (wd_stores w' key)"
    and "r \<noteq> Failing e"
    and "finishedAt lk key i (wd_step w) \<Longrightarrow> r \<noteq> Returned None"
    using world(2) w' unfolding finishedAt_def by (auto split: option.splits)
qed

lemma awaitResult_spec:
  assumes "awaitResult self (memService lk key) sleeps i fuel n w = (r, w')"
  shows "(\<forall>x. r = Some x \<longrightarrow> reportsOn self sleeps i x (wd_stores w' key))
    \<and> (\<forall>m. finishedAt lk key i m \<and> wd_step w \<le> m \<and> m < wd_step w + fuel \<longrightarrow> r \<noteq> None)"
  using assms
proof (induction fuel arbitrary: n w)
  case 0
  then show ?case by simp
next
  case (Suc fuel)
  obtain x w1 where x: "bindA (poll self (memService lk key) i) (\<lambda>status. lift (judge i status)) w = (x, w1)"
    by fastforce
  note j = judged [OF x]
  show ?case
  proof (cases x)
    case (Returned y)
    show ?thesis
    proof (cases y)
      case None
      show ?thesis
      proof (cases "sleeps n")
        case True
        then have "awaitResult self (memService lk key) sleeps i fuel (Suc n) w1 = (r, w')"
          using Suc.prems x Returned None by simp
        from Suc.IH [OF this] show ?thesis
        proof (intro conjI allI impI; elim conjE)
          fix m
          assume live: "\<forall>m. finishedAt lk key i m \<and> wd_step w1 \<le> m \<and> m < wd_step w1 + fuel \<longrightarrow> r \<noteq> None"
            and m: "finishedAt lk key i m" "wd_step w \<le> m" "m < wd_step w + Suc fuel"
          have "m \<noteq> wd_step w" using j(5) m(1) Returned None by auto
          with m(2,3) j(1) have "wd_step w1 \<le> m \<and> m < wd_step w1 + fuel" by simp
          with live m(1) show "r \<noteq> None" by blast
        qed simp_all
      next
        case False
        then show ?thesis using Suc.prems x Returned None by auto
      qed
    next
      case (Some ex)
      then show ?thesis using Suc.prems x Returned j(2) by auto
    qed
  next
    case (Failing e)
    then show ?thesis using j(4) by blast
  next
    case (Died d)
    then show ?thesis using Suc.prems x j(3) by auto
  qed
qed

text \<open>C38: \<open>awaitResult\<close> tells the truth and ends. Over any link, faults and other actors included, when it
  ends, the store it last saw holds what it says: a finished job whose stored exit decodes to the
  returned one, a cancelled job, a finished job without a result, an exit that does not decode, or no
  job at all; otherwise the driver failed or the poll schedule ran out. When the job is finished or gone
  by the call number \<open>m\<close>, a fuel of one poll per call up to \<open>m\<close> is enough for it to end.\<close>

theorem await_result_is_truthful_and_ends:
  assumes "awaitResult self (memService lk key) sleeps i fuel n w = (r, w')"
  shows "(\<forall>x. r = Some x \<longrightarrow> reportsOn self sleeps i x (wd_stores w' key))
    \<and> (\<forall>m. finishedAt lk key i m \<and> wd_step w \<le> m \<and> m < wd_step w + fuel \<longrightarrow> r \<noteq> None)"
  by (rule awaitResult_spec [OF assms])

text \<open>Another actor acknowledges the active job of the sample store before the third call.\<close>

definition busyLink :: link where
  "busyLink = (directLink (\<lambda>n. int n))\<lparr>lk_others :=
     (\<lambda>n st k. if n = 2 then exec None (OpAck 20 ''j-2'' ''t'' (Complete (Some (JNum 5)))) oneActive else st k)\<rparr>"

theorem await_result_is_truthful_and_ends_witness:
  "case awaitResult (numberDef ''mail'') (memService busyLink ''s'') (\<lambda>_. True) ''j-2'' 3 0 (worldOf oneActive) of
     (r, w') \<Rightarrow> (case r of None \<Rightarrow> False | Some x \<Rightarrow> reportsOn (numberDef ''mail'') (\<lambda>_. True) ''j-2'' x (wd_stores w' ''s''))"
proof -
  have "(case getJob ''j-2'' (exec None (OpAck 20 ''j-2'' ''t'' (Complete (Some (JNum 5)))) oneActive) of
      None \<Rightarrow> True | Some j \<Rightarrow> j_state j = Completed)" by code_simp
  then have "finishedAt busyLink ''s'' ''j-2'' 2"
    by (simp add: finishedAt_def busyLink_def TERMINAL_STATES_def split: option.splits)
  moreover obtain r w' where a: "awaitResult (numberDef ''mail'') (memService busyLink ''s'') (\<lambda>_. True) ''j-2'' 3 0
      (worldOf oneActive) = (r, w')" by fastforce
  ultimately show ?thesis
    using await_result_is_truthful_and_ends [OF a] a by (auto split: option.split)
qed

section \<open>Requests\<close>

text \<open>The options of a batch, as the options of each of its calls.\<close>

definition single :: "('d, 'i) enqueue_many_options \<Rightarrow> ('d, 'i) enqueue_options" where
  "single options = \<lparr> jo_delay = jo_delay options, jo_priority = jo_priority options,
     jo_attempts = jo_attempts options, jo_backoff = jo_backoff options, jo_keep = jo_keep options,
     jo_timeout = jo_timeout options, eo_at = em_at options, eo_jobId = None, eo_queue = em_queue options,
     eo_metadata = em_metadata options, eo_dedupe = None \<rparr>"

lemma bindP_eq_Inr [simp]: "bindP x f = Inr b \<longleftrightarrow> (\<exists>a. x = Inr a \<and> f a = Inr b)"
  by (cases x) auto

lemma needed_Inr [simp]: "needed d x = Inr a \<longleftrightarrow> x = Some a"
  by (simp add: needed_def split: option.split)

lemma single_request:
  "enqueueRequest lib self sp now form (single options) = Inr rq \<longleftrightarrow>
     \<not> (em_at options \<noteq> None \<and> jo_delay options \<noteq> None)
   \<and> (\<exists>payload encoded delayMs. jb_makePayload self form = Some payload \<and> jb_encode self payload = Some encoded
        \<and> resolveDelay lib (jb_defaults self) now (em_at options) (jo_delay options) = Inr delayMs
        \<and> enqueueManyRequest lib self sp options delayMs (payload, encoded) = Inr rq)"
proof (cases "em_at options \<noteq> None \<and> jo_delay options \<noteq> None")
  case True
  then show ?thesis by (auto simp: enqueueRequest_def single_def)
next
  case False
  then have "\<not> (eo_at (single options) \<noteq> None \<and> jo_delay (single options) \<noteq> None)" by (simp add: single_def)
  note ok = if_not_P [OF this]
  show ?thesis
    unfolding enqueueRequest_def enqueueManyRequest_def bindP_eq_Inr needed_Inr ok prod.case
    using False by (auto simp: single_def)
qed

lemma traverse_Inr: "traverse f xs = Inr ys \<longleftrightarrow> list_all2 (\<lambda>x y. f x = Inr y) xs ys"
  by (induction xs arbitrary: ys) (auto simp: list_all2_Cons1)

text \<open>A batch makes exactly the requests that the single calls with the same options would make at that
  moment, in order; it makes none when one of them would not be made, or when its delay is not in order.\<close>

theorem batch_makes_the_single_requests:
  "enqueueManyRequests lib self sp now payloads options = Inr requests \<longleftrightarrow>
     \<not> (em_at options \<noteq> None \<and> jo_delay options \<noteq> None)
   \<and> (\<exists>d. resolveDelay lib (jb_defaults self) now (em_at options) (jo_delay options) = Inr d)
   \<and> traverse (\<lambda>form. enqueueRequest lib self sp now form (single options)) payloads = Inr requests"
proof (cases "em_at options \<noteq> None \<and> jo_delay options \<noteq> None")
  case True
  then show ?thesis by (simp add: enqueueManyRequests_def)
next
  case False
  note ok = if_not_P [OF False]
  let ?item = "\<lambda>form item. jb_makePayload self form = Some (fst item) \<and> jb_encode self (fst item) = Some (snd item)"
  have enc: "encodeAll self payloads = Inr items \<longleftrightarrow> list_all2 ?item payloads items" for items
    unfolding encodeAll_def traverse_Inr
    by (intro list.rel_cong refl) (auto simp: prod_eq_iff)
  show ?thesis
  proof (cases "resolveDelay lib (jb_defaults self) now (em_at options) (jo_delay options)")
    case (Inl x)
    then show ?thesis unfolding enqueueManyRequests_def ok by simp
  next
    case (Inr d)
    have one: "enqueueRequest lib self sp now form (single options) = Inr rq \<longleftrightarrow>
        (\<exists>item. ?item form item \<and> enqueueManyRequest lib self sp options d item = Inr rq)" for form rq
      unfolding single_request using False Inr by auto
    have "enqueueManyRequests lib self sp now payloads options = Inr requests \<longleftrightarrow>
        (\<exists>items. list_all2 ?item payloads items
           \<and> list_all2 (\<lambda>item rq. enqueueManyRequest lib self sp options d item = Inr rq) items requests)"
      unfolding enqueueManyRequests_def ok bindP_eq_Inr enc Inr traverse_Inr by auto
    also have "\<dots> \<longleftrightarrow> list_all2 (?item OO (\<lambda>item rq. enqueueManyRequest lib self sp options d item = Inr rq)) payloads requests"
      by (simp only: list.rel_compp relcompp_apply)
    also have "?item OO (\<lambda>item rq. enqueueManyRequest lib self sp options d item = Inr rq)
        = (\<lambda>form rq. enqueueRequest lib self sp now form (single options) = Inr rq)"
      by (intro ext) (simp only: one relcompp_apply)
    finally show ?thesis using False Inr by (simp add: traverse_Inr)
  qed
qed

definition normalised ::
  "('d, 'i) time_lib \<Rightarrow> ('f, 'p, 'v, 'c, 'd) job_def \<Rightarrow> millis \<Rightarrow> ('d, 'i) enqueue_options \<Rightarrow> enqueue_request \<Rightarrow> bool" where
  "normalised lib self now options rq \<longleftrightarrow>
     rq_name rq = jb_tag self \<and> rq_attemptsMax rq \<ge> 1 \<and> rq_parent rq = None
   \<and> (case eo_at options of
        Some i \<Rightarrow> jo_delay options = None \<and> rq_delayMs rq = max 0 (the (tl_epoch lib i) - now)
      | None \<Rightarrow> rq_delayMs rq = millisOr (tl_millis lib) (rd_delayMs (jb_defaults self)) (jo_delay options))
   \<and> (case eo_jobId options of
        Some i \<Rightarrow> rq_id rq = Some i
      | None \<Rightarrow> (case jb_idempotencyKey self of
                  None \<Rightarrow> rq_id rq = None
                | Some key \<Rightarrow> \<exists>p. rq_id rq = Some (jb_tag self @ CHR ''/'' # key p)))
   \<and> (case rq_dedupe rq of
        None \<Rightarrow> eo_dedupe options = None
      | Some d \<Rightarrow> dp_key d \<noteq> '''' \<and> (dp_extend d \<longrightarrow> dp_ttlMs d \<noteq> None))
   \<and> (case jo_keep options of
        None \<Rightarrow> rq_keep rq = rd_keep (jb_defaults self)
      | Some _ \<Rightarrow> (case rq_keep rq of None \<Rightarrow> False | Some k \<Rightarrow> kp_flat k = None))"

lemma normalizeKeep_split:
  "normalizeKeep toMillis (Some input) = Inr r \<Longrightarrow> \<exists>k. r = Some k \<and> kp_flat k = None"
  by (auto simp: normalizeKeep_def Let_def split: if_splits)

lemma normalizeDedupe_Inr:
  "normalizeDedupe toMillis x = Inr r \<Longrightarrow>
     (case r of None \<Rightarrow> x = None | Some d \<Rightarrow> dp_key d \<noteq> '''' \<and> (dp_extend d \<longrightarrow> dp_ttlMs d \<noteq> None))"
  by (auto simp: normalizeDedupe_def Let_def split: option.splits if_splits)

text \<open>What the normalisation of inputs promises the store. A request carries the definition's name,
  at least one attempt, no parent, a delay that an absolute instant never makes negative, the id that
  the caller chose or that the idempotency key derives under the definition's name, a dedup key that is
  not empty and only extends a window that it has, and the split form of a keep policy that the call
  gave. A call that sets both a delay and an instant makes no request.\<close>

theorem requests_are_normalised:
  assumes "enqueueRequest lib self sp now form options = Inr rq"
  shows "normalised lib self now options rq"
proof -
  have both: "\<not> (eo_at options \<noteq> None \<and> jo_delay options \<noteq> None)"
    using assms by (auto simp: enqueueRequest_def split: if_splits)
  obtain payload dedupe encoded delayMs keep where
    d: "normalizeDedupe (tl_millis lib)
          (case eo_dedupe options of Some d \<Rightarrow> Some d | None \<Rightarrow> map_option (\<lambda>f. f payload) (jb_dedupe self)) = Inr dedupe"
    and t: "resolveDelay lib (jb_defaults self) now (eo_at options) (jo_delay options) = Inr delayMs"
    and k: "keepOr (tl_millis lib) (jo_keep options) (rd_keep (jb_defaults self)) = Inr keep"
    and rq: "rq_name rq = jb_tag self" "rq_attemptsMax rq \<ge> 1" "rq_parent rq = None" "rq_delayMs rq = delayMs"
      "rq_dedupe rq = dedupe" "rq_keep rq = keep"
      "rq_id rq = (case eo_jobId options of Some i \<Rightarrow> Some i | None \<Rightarrow> keyedId self payload)"
    using assms unfolding enqueueRequest_def if_not_P [OF both] by auto
  have "case dedupe of None \<Rightarrow> eo_dedupe options = None | Some d \<Rightarrow> dp_key d \<noteq> '''' \<and> (dp_extend d \<longrightarrow> dp_ttlMs d \<noteq> None)"
    using normalizeDedupe_Inr [OF d] by (auto split: option.splits)
  moreover have "case eo_at options of
        Some i \<Rightarrow> jo_delay options = None \<and> delayMs = max 0 (the (tl_epoch lib i) - now)
      | None \<Rightarrow> delayMs = millisOr (tl_millis lib) (rd_delayMs (jb_defaults self)) (jo_delay options)"
    using t both by (auto simp: resolveDelay_def split: option.split)
  moreover have "case jo_keep options of
        None \<Rightarrow> keep = rd_keep (jb_defaults self)
      | Some _ \<Rightarrow> (case keep of None \<Rightarrow> False | Some k \<Rightarrow> kp_flat k = None)"
    using k normalizeKeep_split by (auto simp: keepOr_def split: option.splits) blast+
  moreover have "case eo_jobId options of
        Some i \<Rightarrow> rq_id rq = Some i
      | None \<Rightarrow> (case jb_idempotencyKey self of
                  None \<Rightarrow> rq_id rq = None
                | Some key \<Rightarrow> \<exists>p. rq_id rq = Some (jb_tag self @ CHR ''/'' # key p))"
    by (auto simp: rq(7) keyedId_def split: option.split)
  ultimately show ?thesis
    unfolding normalised_def rq(1,3,4,5,6) using rq(2) by (intro conjI refl)
qed

theorem requests_are_normalised_witness:
  "\<exists>rq. enqueueRequest plainTime (numberDef ''mail'') None 50 7 (noOptions\<lparr>eo_at := Some 20, jo_attempts := Some 0\<rparr>) = Inr rq
     \<and> normalised plainTime (numberDef ''mail'') 50 (noOptions\<lparr>eo_at := Some 20, jo_attempts := Some 0\<rparr>) rq
     \<and> rq_delayMs rq = 0 \<and> rq_attemptsMax rq = 1"
proof -
  have "\<exists>rq. enqueueRequest plainTime (numberDef ''mail'') None 50 7 (noOptions\<lparr>eo_at := Some 20, jo_attempts := Some 0\<rparr>) = Inr rq
     \<and> rq_delayMs rq = 0 \<and> rq_attemptsMax rq = 1"
    by (simp add: enqueueRequest_def numberDef_def noOptions_def plainTime_def normalizeDedupe_def resolveDelay_def
        keepOr_def needed_def)
  then show ?thesis by (elim exE conjE) (intro exI conjI requests_are_normalised, assumption+)
qed

end
