(* ===== verification/ScheduleGroups.thy ===== *)
theory ScheduleGroups
  imports SchedulesApi WorkerSamples
begin

text \<open>
  What \<open>reconcile\<close> does to the schedules of its stores. \<open>inGroup g s k\<close> says that the store holds a
  schedule \<open>k\<close> labelled with the group; \<open>ownsOnly g K\<close> relates the worlds before and after a step
  that writes the keys of \<open>K\<close> and otherwise only removes members of the group.
\<close>

section \<open>The schedules of a world\<close>

definition slotAt :: "world \<Rightarrow> string \<Rightarrow> schedule_key \<Rightarrow> schedule_record option" where
  "slotAt w n k = mapGet (schedules (wd_stores w n)) k"

definition inGroup :: "string \<Rightarrow> world \<Rightarrow> string \<Rightarrow> schedule_key \<Rightarrow> bool" where
  "inGroup g w n k \<longleftrightarrow> (case slotAt w n k of None \<Rightarrow> False | Some sc \<Rightarrow> sc_group sc = Some g)"

text \<open>Schedules are kept under their own keys.\<close>

definition neat :: "world \<Rightarrow> bool" where
  "neat w \<longleftrightarrow> (\<forall>n. distinct (mapKeys (schedules (wd_stores w n)))
     \<and> (\<forall>k sc. mapGet (schedules (wd_stores w n)) k = Some sc \<longrightarrow> sc_key sc = k))"

definition sparesSchedules :: "link \<Rightarrow> bool" where
  "sparesSchedules lk \<longleftrightarrow> (\<forall>n st key. schedules (lk_others lk n st key) = schedules (st key))"

definition sameSchedules :: "world \<Rightarrow> world \<Rightarrow> bool" where
  "sameSchedules w w' \<longleftrightarrow> (\<forall>n. schedules (wd_stores w' n) = schedules (wd_stores w n))"

definition ownsOnly :: "string \<Rightarrow> (string \<Rightarrow> schedule_key set) \<Rightarrow> world \<Rightarrow> world \<Rightarrow> bool" where
  "ownsOnly g K w w' \<longleftrightarrow>
     neat w' \<and> (\<forall>n k. (k \<notin> K n \<and> \<not> inGroup g w n k \<longrightarrow> slotAt w' n k = slotAt w n k)
       \<and> (inGroup g w' n k \<longrightarrow> inGroup g w n k \<or> k \<in> K n))"

lemma inGroup_cong: "slotAt w' n k = slotAt w n k \<Longrightarrow> inGroup g w' n k = inGroup g w n k"
  by (simp add: inGroup_def)

lemma ownsOnly_refl: "neat w \<Longrightarrow> ownsOnly g K w w"
  by (simp add: ownsOnly_def)

lemma ownsOnly_trans: "ownsOnly g K w w1 \<Longrightarrow> ownsOnly g K w1 w2 \<Longrightarrow> ownsOnly g K w w2"
  unfolding ownsOnly_def by (metis inGroup_cong)

lemma ownsOnly_mono: "ownsOnly g K w w' \<Longrightarrow> (\<And>n. K n \<subseteq> K' n) \<Longrightarrow> ownsOnly g K' w w'"
  unfolding ownsOnly_def by blast

lemma sameSchedules_slotAt: "sameSchedules w w' \<Longrightarrow> slotAt w' n k = slotAt w n k"
  by (simp add: sameSchedules_def slotAt_def)

lemma sameSchedules_owns: "sameSchedules w w' \<Longrightarrow> neat w \<Longrightarrow> ownsOnly g K w w'"
  by (simp add: ownsOnly_def sameSchedules_slotAt inGroup_def neat_def) (simp add: sameSchedules_def)

section \<open>One call\<close>

definition updatesBy :: "string \<Rightarrow> (millis \<Rightarrow> mem_store \<Rightarrow> (store_error + 'a) \<times> mem_store)
    \<Rightarrow> ((schedule_key, schedule_record) jsmap \<Rightarrow> (schedule_key, schedule_record) jsmap) \<Rightarrow> bool" where
  "updatesBy n f h \<longleftrightarrow> (\<forall>now s. (\<exists>a. fst (f now s) = Inr a) \<and> schedules (snd (f now s)) = h (schedules s))"

lemma memCall_schedules:
  assumes "sparesSchedules lk" "updatesBy n f h" "memCall lk n f w = (r, w')"
  shows "sameSchedules w w' \<and> r = Inl driverDown
    \<or> schedules (wd_stores w' n) = h (schedules (wd_stores w n))
      \<and> (\<forall>m. m \<noteq> n \<longrightarrow> schedules (wd_stores w' m) = schedules (wd_stores w m))"
proof -
  let ?st = "lk_others lk (wd_step w) (wd_stores w)"
  obtain a s' where f: "f (lk_clock lk (wd_step w)) (?st n) = (Inr a, s')"
    using assms(2) unfolding updatesBy_def by (metis prod.collapse)
  moreover have "schedules s' = h (schedules (?st n))"
    using assms(2) f unfolding updatesBy_def by (metis snd_conv)
  ultimately show ?thesis using assms(1,3)
    by (auto simp: memCall_def Let_def sparesSchedules_def sameSchedules_def split: fault.splits)
qed

lemma memCall_returns:
  assumes "updatesBy n f h" "lk_fault lk (wd_step w) = NoFault"
  shows "\<exists>a w'. memCall lk n f w = (Inr a, w')"
proof -
  let ?st = "lk_others lk (wd_step w) (wd_stores w)"
  obtain a s' where f: "f (lk_clock lk (wd_step w)) (?st n) = (Inr a, s')"
    using assms(1) unfolding updatesBy_def by (metis prod.collapse)
  with assms(2) show ?thesis by (simp add: memCall_def Let_def)
qed

section \<open>Registration\<close>

definition upserted :: "schedule_record \<Rightarrow> (schedule_key, schedule_record) jsmap \<Rightarrow> (schedule_key, schedule_record) jsmap" where
  "upserted sc m = mapSet (sc_key sc)
     (case mapGet m (sc_key sc) of
        None \<Rightarrow> sc
      | Some old \<Rightarrow> if sameCadence old sc then sc\<lparr>sc_nextRunAt := sc_nextRunAt old\<rparr> else sc) m"

lemma rewrites_upsert: "updatesBy n (\<lambda>_. quietly (upsertSchedule sc)) (upserted sc)"
  by (simp add: updatesBy_def quietly_def upsertSchedule_def upserted_def signalWake_def Let_def)

lemma upsert_call:
  assumes lk: "sparesSchedules lk" and w: "neat w" and g: "sc_group sc = Some g"
    and c: "sv_upsertSchedule (memService lk n) sc w = (r, w')"
  shows "ownsOnly g (\<lambda>m. if m = n then {sc_key sc} else {}) w w'"
    and "inGroup g w m k \<Longrightarrow> inGroup g w' m k"
    and "r = Inr u \<Longrightarrow> inGroup g w' n (sc_key sc)"
proof -
  from c have "memCall lk n (\<lambda>_. quietly (upsertSchedule sc)) w = (r, w')" by (simp add: memService_def)
  from memCall_schedules [OF lk rewrites_upsert this]
  consider "sameSchedules w w'" "r = Inl driverDown"
    | "schedules (wd_stores w' n) = upserted sc (schedules (wd_stores w n))"
      "\<forall>m. m \<noteq> n \<longrightarrow> schedules (wd_stores w' m) = schedules (wd_stores w m)" by blast
  note cases = this
  show "ownsOnly g (\<lambda>m. if m = n then {sc_key sc} else {}) w w'"
    using cases
  proof cases
    case 1
    then show ?thesis using w by (simp add: sameSchedules_owns)
  next
    case 2
    have eq: "slotAt w' m k = slotAt w m k" if "m \<noteq> n \<or> k \<noteq> sc_key sc" for m k
      using 2 that by (cases "m = n") (auto simp: slotAt_def upserted_def)
    moreover have "neat w'" unfolding neat_def
    proof (intro allI conjI impI)
      fix m k x
      show "distinct (mapKeys (schedules (wd_stores w' m)))"
        using 2 w by (cases "m = n") (auto simp: neat_def upserted_def)
      assume "mapGet (schedules (wd_stores w' m)) k = Some x"
      then show "sc_key x = k"
        using 2 w by (cases "m = n") (auto simp: neat_def upserted_def split: if_splits option.splits)
    qed
    ultimately show ?thesis
      unfolding ownsOnly_def by (metis inGroup_cong insertI1)
  qed
  have new: "inGroup g w' n (sc_key sc)" if "\<not> sameSchedules w w' \<or> r \<noteq> Inl driverDown"
    using cases
  proof cases
    case 1
    then show ?thesis using that by simp
  next
    case 2
    then show ?thesis using g by (simp add: inGroup_def slotAt_def upserted_def split: option.split)
  qed
  then show "r = Inr u \<Longrightarrow> inGroup g w' n (sc_key sc)" by simp
  show "inGroup g w m k \<Longrightarrow> inGroup g w' m k"
    using cases
  proof cases
    case 1
    then show "inGroup g w m k \<Longrightarrow> ?thesis" by (simp add: sameSchedules_slotAt inGroup_def)
  next
    case 2
    show "inGroup g w m k \<Longrightarrow> ?thesis"
    proof (cases "m = n \<and> k = sc_key sc")
      case True
      then show ?thesis using 2 g by (simp add: inGroup_def slotAt_def upserted_def split: option.split)
    next
      case False
      then have "slotAt w' m k = slotAt w m k"
        using 2 by (cases "m = n") (auto simp: slotAt_def upserted_def)
      then show "inGroup g w m k \<Longrightarrow> ?thesis" by (simp add: inGroup_def)
    qed
  qed
qed

text \<open>An entry that upserts one schedule of its own key, labelled with the group, into its store.\<close>

definition upsertsInto :: "link \<Rightarrow> ('k \<Rightarrow> string) \<Rightarrow> (world, 'k) schedule_entry \<Rightarrow> bool" where
  "upsertsInto lk nm e \<longleftrightarrow> (\<forall>g w. (\<exists>d. sn_register e g w = (Died d, w))
     \<or> (\<exists>sc. sc_key sc = entryId e \<and> sc_group sc = Some g
          \<and> sn_register e g w = bindA (orDie (sv_upsertSchedule (memService lk (nm (sn_store e))) sc))
              (\<lambda>_ w'. (Returned (sc_key sc), w')) w))"

lemma bindP_Inr: "bindP x f = Inr b \<longleftrightarrow> (\<exists>a. x = Inr a \<and> f a = Inr b)"
  by (cases x) auto

lemma scheduleRecordOf_Inr:
  "scheduleRecordOf toMillis lib job now key options = Inr sc
    \<Longrightarrow> sc_key sc = scheduleKeyOf job key \<and> sc_group sc = so_group options"
  by (auto simp: scheduleRecordOf_def bindP_Inr Let_def split: if_splits option.splits)

lemma scheduleEntry_upserts:
  "upsertsInto lk nm (scheduleEntry toMillis lib job k (memService lk (nm k)) clock key options)"
  unfolding upsertsInto_def
proof (intro allI)
  fix g w
  let ?e = "scheduleEntry toMillis lib job k (memService lk (nm k)) clock key options"
  let ?r = "scheduleRecordOf toMillis lib job (clock w) key (options\<lparr>so_group := Some g\<rparr>)"
  show "(\<exists>d. sn_register ?e g w = (Died d, w))
     \<or> (\<exists>sc. sc_key sc = entryId ?e \<and> sc_group sc = Some g
          \<and> sn_register ?e g w = bindA (orDie (sv_upsertSchedule (memService lk (nm (sn_store ?e))) sc))
              (\<lambda>_ w'. (Returned (sc_key sc), w')) w)"
  proof (cases ?r)
    case (Inl d)
    then show ?thesis by (simp add: scheduleEntry_def schedule_def)
  next
    case (Inr sc)
    from scheduleRecordOf_Inr [OF this]
    have "sc_key sc = entryId ?e" "sc_group sc = Some g"
      by (simp_all add: scheduleEntry_def entryId_def scheduleKeyOf_def)
    moreover have "sn_register ?e g w = bindA (orDie (sv_upsertSchedule (memService lk (nm (sn_store ?e))) sc))
              (\<lambda>_ w'. (Returned (sc_key sc), w')) w"
      using Inr by (simp add: scheduleEntry_def schedule_def)
    ultimately show ?thesis by blast
  qed
qed

definition keysAt :: "('k \<Rightarrow> string) \<Rightarrow> (world, 'k) schedule_entry list \<Rightarrow> string \<Rightarrow> schedule_key set" where
  "keysAt nm es n = {entryId e | e. e \<in> set es \<and> nm (sn_store e) = n}"

definition addKey :: "(world, 'k) schedule_entry \<Rightarrow> ('k, schedule_key list) jsmap \<Rightarrow> ('k, schedule_key list) jsmap" where
  "addKey e m = mapSet (sn_store e)
     (let declared = orElse (mapGet m (sn_store e)) []
      in if entryId e \<in> set declared then declared else declared @ [entryId e]) m"

lemma addKeys_get:
  "mapGet (fold addKey es m) k = Some D
    \<Longrightarrow> set D = set (orElse (mapGet m k) []) \<union> {entryId e | e. e \<in> set es \<and> sn_store e = k}"
proof (induction es arbitrary: m)
  case (Cons e es)
  then have "set D = set (orElse (mapGet (addKey e m) k) []) \<union> {entryId e | e. e \<in> set es \<and> sn_store e = k}"
    by simp
  then show ?case by (auto simp: addKey_def orElse_def Let_def split: option.splits if_splits)
qed (simp add: orElse_def)

lemma addKeys_keys: "set (mapKeys (fold addKey es m)) = set (mapKeys m) \<union> sn_store ` set es"
  by (induction es arbitrary: m) (auto simp: addKey_def update_keys dom_update [simplified dom_map_of_conv_image_fst])

lemma addKeys_distinct: "distinct (mapKeys m) \<Longrightarrow> distinct (mapKeys (fold addKey es m))"
  by (induction es arbitrary: m) (auto simp: addKey_def)

lemma registered:
  assumes lk: "sparesSchedules lk" and w: "neat w" and e: "upsertsInto lk nm e"
    and c: "sn_register e g w = (r, w')"
  shows "ownsOnly g (keysAt nm [e]) w w' \<and> (\<forall>n k. inGroup g w n k \<longrightarrow> inGroup g w' n k)
    \<and> (\<forall>a. r = Returned a \<longrightarrow> a = entryId e \<and> inGroup g w' (nm (sn_store e)) (entryId e))"
proof -
  from e consider d where "sn_register e g w = (Died d, w)"
    | sc where "sc_key sc = entryId e" "sc_group sc = Some g"
      "sn_register e g w = bindA (orDie (sv_upsertSchedule (memService lk (nm (sn_store e))) sc))
              (\<lambda>_ w'. (Returned (sc_key sc), w')) w"
    unfolding upsertsInto_def by blast
  then show ?thesis
  proof cases
    case 1
    then show ?thesis using c w by (auto simp: ownsOnly_refl)
  next
    case 2
    obtain x w1 where x: "sv_upsertSchedule (memService lk (nm (sn_store e))) sc w = (x, w1)"
      by (cases "sv_upsertSchedule (memService lk (nm (sn_store e))) sc w")
    note up = upsert_call [OF lk w 2(2) x]
    from 2(3) x c have w1: "w1 = w'" and r: "\<And>a. r = Returned a \<Longrightarrow> a = entryId e \<and> x = Inr ()"
      using 2(1) by (auto simp: bindA_def orDie_def split: sum.splits)
    have "keysAt nm [e] = (\<lambda>m. if m = nm (sn_store e) then {sc_key sc} else {})"
      using 2(1) by (auto simp: keysAt_def fun_eq_iff)
    then show ?thesis using up r 2(1) unfolding w1 by auto
  qed
qed

lemma registerAll_spec:
  assumes lk: "sparesSchedules lk"
  shows "neat w \<Longrightarrow> list_all (upsertsInto lk nm) es \<Longrightarrow> registerAll g es m w = (r, w')
    \<Longrightarrow> ownsOnly g (keysAt nm es) w w' \<and> (\<forall>n k. inGroup g w n k \<longrightarrow> inGroup g w' n k)
      \<and> (\<forall>a. r = Returned a \<longrightarrow> a = fold addKey es m
           \<and> (\<forall>n k. k \<in> keysAt nm es n \<longrightarrow> inGroup g w' n k))"
proof (induction es arbitrary: m w)
  case Nil
  then show ?case by (auto simp: ownsOnly_refl keysAt_def)
next
  case (Cons e es)
  obtain x w1 where x: "sn_register e g w = (x, w1)" by (cases "sn_register e g w")
  from Cons.prems have e: "upsertsInto lk nm e" and es: "list_all (upsertsInto lk nm) es" by simp_all
  note one = registered [OF lk Cons.prems(1) e x]
  have sub: "keysAt nm [e] n \<subseteq> keysAt nm (e # es) n" "keysAt nm es n \<subseteq> keysAt nm (e # es) n" for n
    by (auto simp: keysAt_def)
  from one have o1: "ownsOnly g (keysAt nm (e # es)) w w1" using ownsOnly_mono sub(1) by blast
  show ?case
  proof (cases x)
    case (Returned a)
    with one have a: "a = entryId e" and g1: "inGroup g w1 (nm (sn_store e)) (entryId e)" by simp_all
    have rest: "registerAll g es (addKey e m) w1 = (r, w')"
      using Cons.prems(3) x Returned a by (simp add: bindA_def addKey_def Let_def)
    have n1: "neat w1" using one by (simp add: ownsOnly_def)
    note ih = Cons.IH [OF n1 es rest]
    from ih have "ownsOnly g (keysAt nm (e # es)) w1 w'" using ownsOnly_mono sub(2) by blast
    with o1 have "ownsOnly g (keysAt nm (e # es)) w w'" by (rule ownsOnly_trans)
    moreover have "inGroup g w' n k" if "k \<in> keysAt nm (e # es) n" "r = Returned b" for n k b
    proof -
      from that(1) consider "n = nm (sn_store e)" "k = entryId e" | "k \<in> keysAt nm es n" by (auto simp: keysAt_def)
      then show ?thesis using ih g1 that(2) by cases blast+
    qed
    moreover have "\<forall>n k. inGroup g w n k \<longrightarrow> inGroup g w' n k" using one ih by blast
    moreover have "\<forall>a. r = Returned a \<longrightarrow> a = fold addKey (e # es) m" using ih by simp
    ultimately show ?thesis by blast
  next
    case (Failing err)
    then show ?thesis using Cons.prems(3) x one o1 by (auto simp: bindA_def)
  next
    case (Died d)
    then show ?thesis using Cons.prems(3) x one o1 by (auto simp: bindA_def)
  qed
qed

section \<open>Pruning\<close>

definition dropsOnly :: "string \<Rightarrow> schedule_key set \<Rightarrow> world \<Rightarrow> world \<Rightarrow> bool" where
  "dropsOnly n X w w' \<longleftrightarrow> (neat w \<longrightarrow> neat w')
     \<and> (\<forall>m k. slotAt w' m k = slotAt w m k \<or> m = n \<and> k \<in> X \<and> slotAt w' m k = None)"

lemma dropsOnly_refl: "dropsOnly n X w w"
  by (simp add: dropsOnly_def)

lemma dropsOnly_trans: "dropsOnly n X w w1 \<Longrightarrow> dropsOnly n X w1 w2 \<Longrightarrow> dropsOnly n X w w2"
  unfolding dropsOnly_def by metis

lemma dropsOnly_mono: "dropsOnly n X w w' \<Longrightarrow> X \<subseteq> Y \<Longrightarrow> dropsOnly n Y w w'"
  unfolding dropsOnly_def by blast

lemma sameSchedules_drops: "sameSchedules w w' \<Longrightarrow> dropsOnly n X w w'"
  by (simp add: dropsOnly_def sameSchedules_slotAt neat_def) (simp add: sameSchedules_def)

lemma sameSchedules_trans: "sameSchedules w w1 \<Longrightarrow> sameSchedules w1 w2 \<Longrightarrow> sameSchedules w w2"
  by (simp add: sameSchedules_def)

text \<open>The last attempt of a retried call.\<close>

lemma retryAny_last:
  assumes refl: "\<And>w. R w w" and trans: "\<And>a b c. R a b \<Longrightarrow> R b c \<Longrightarrow> R a c"
    and step: "\<And>w r w'. c w = (r, w') \<Longrightarrow> R w w'"
  shows "retryAny k c w = (r, w') \<Longrightarrow> R w w' \<and> (\<exists>w1. R w w1 \<and> c w1 = (r, w'))"
proof (induction k arbitrary: w)
  case 0
  then show ?case using refl step by auto
next
  case (Suc k)
  obtain x w1 where x: "c w = (x, w1)" by (cases "c w")
  note s = step [OF x]
  show ?case
  proof (cases x)
    case (Inl e)
    then have "retryAny k c w1 = (r, w')" using Suc.prems x by simp
    from Suc.IH [OF this] show ?thesis using s trans by blast
  next
    case (Inr a)
    then show ?thesis using Suc.prems x s refl by auto
  qed
qed

lemma rewrites_remove: "updatesBy n (\<lambda>_. sure (removeSchedule key)) (mapDelete key)"
  by (simp add: updatesBy_def sure_def removeSchedule_def)

lemma rewrites_list: "updatesBy n (\<lambda>_. reads (listSchedules a b c)) (\<lambda>m. m)"
  by (simp add: updatesBy_def reads_def)

lemma remove_call:
  assumes lk: "sparesSchedules lk" and c: "sv_removeSchedule (memService lk n) key w = (r, w')"
  shows "dropsOnly n {key} w w'" and "r = Inr b \<Longrightarrow> slotAt w' n key = None"
proof -
  from c have "memCall lk n (\<lambda>_. sure (removeSchedule key)) w = (r, w')" by (simp add: memService_def)
  from memCall_schedules [OF lk rewrites_remove this]
  consider "sameSchedules w w'" "r = Inl driverDown"
    | "schedules (wd_stores w' n) = mapDelete key (schedules (wd_stores w n))"
      "\<forall>m. m \<noteq> n \<longrightarrow> schedules (wd_stores w' m) = schedules (wd_stores w m)" by blast
  note cases = this
  show "dropsOnly n {key} w w'"
    using cases
  proof cases
    case 1
    then show ?thesis by (simp add: sameSchedules_drops)
  next
    case 2
    have "slotAt w' m k = slotAt w m k \<or> m = n \<and> k \<in> {key} \<and> slotAt w' m k = None" for m k
      using 2 by (cases "m = n") (auto simp: slotAt_def mapGet_delete)
    moreover have "neat w \<Longrightarrow> neat w'" unfolding neat_def
    proof (intro allI conjI impI)
      fix m k x
      assume w: "\<forall>n. distinct (mapKeys (schedules (wd_stores w n)))
        \<and> (\<forall>k sc. mapGet (schedules (wd_stores w n)) k = Some sc \<longrightarrow> sc_key sc = k)"
      show "distinct (mapKeys (schedules (wd_stores w' m)))"
        using 2 w by (cases "m = n") (auto simp: distinct_delete)
      assume "mapGet (schedules (wd_stores w' m)) k = Some x"
      then show "sc_key x = k"
        using 2 w by (cases "m = n") (auto simp: mapGet_delete split: if_splits)
    qed
    ultimately show ?thesis by (simp add: dropsOnly_def)
  qed
  show "r = Inr b \<Longrightarrow> slotAt w' n key = None"
    using cases by cases (simp_all add: slotAt_def mapGet_delete)
qed

lemma retryFive_remove:
  assumes lk: "sparesSchedules lk" and c: "retryFive (sv_removeSchedule (memService lk n) key) w = (r, w')"
  shows "dropsOnly n {key} w w'" and "r = Returned b \<Longrightarrow> slotAt w' n key = None"
proof -
  obtain x where x: "retryAny 5 (sv_removeSchedule (memService lk n) key) w = (x, w')"
    and r: "\<And>b. r = Returned b \<Longrightarrow> x = Inr b"
    using c by (auto simp: retryFive_def orDie_def split: prod.splits sum.splits)
  have "dropsOnly n {key} w w' \<and> (\<exists>w1. dropsOnly n {key} w w1 \<and> sv_removeSchedule (memService lk n) key w1 = (x, w'))"
    by (rule retryAny_last [OF dropsOnly_refl _ _ x]) (blast intro: dropsOnly_trans remove_call(1) [OF lk])+
  then obtain w1 where d: "dropsOnly n {key} w w'" and w1: "sv_removeSchedule (memService lk n) key w1 = (x, w')" by blast
  show "dropsOnly n {key} w w'" by (rule d)
  show "r = Returned b \<Longrightarrow> slotAt w' n key = None" using r remove_call(2) [OF lk w1] by blast
qed

lemma removeKeys_spec:
  assumes lk: "sparesSchedules lk"
  shows "removeKeys (memService lk n) keys w = (r, w')
    \<Longrightarrow> dropsOnly n (set keys) w w' \<and> (\<forall>u. r = Returned u \<longrightarrow> (\<forall>k\<in>set keys. slotAt w' n k = None))"
proof (induction keys arbitrary: w)
  case Nil
  then show ?case by (simp add: dropsOnly_refl)
next
  case (Cons key keys)
  obtain x w1 where x: "retryFive (sv_removeSchedule (memService lk n) key) w = (x, w1)"
    by (cases "retryFive (sv_removeSchedule (memService lk n) key) w")
  from retryFive_remove(1) [OF lk x] have d: "dropsOnly n (set (key # keys)) w w1"
    by (rule dropsOnly_mono) simp
  show ?case
  proof (cases x)
    case (Returned b)
    then have rest: "removeKeys (memService lk n) keys w1 = (r, w')"
      using Cons.prems x by (simp add: bindA_def)
    note ih = Cons.IH [OF rest]
    have d2: "dropsOnly n (set (key # keys)) w1 w'"
      by (rule dropsOnly_mono [where X = "set keys"]) (use ih in auto)
    have "slotAt w1 n key = None" by (rule retryFive_remove(2) [OF lk x Returned])
    with ih have "slotAt w' n key = None" unfolding dropsOnly_def by metis
    then show ?thesis using dropsOnly_trans [OF d d2] ih by simp
  qed (use Cons.prems x d in \<open>auto simp: bindA_def\<close>)
qed

lemma list_call:
  assumes lk: "sparesSchedules lk" and c: "retryFive (sv_listSchedules (memService lk n) None None (Some g)) w = (r, w')"
  shows "sameSchedules w w'"
    and "r = Returned ms \<Longrightarrow> ms = filter (\<lambda>sc. sc_group sc = Some g) (mapValues (schedules (wd_stores w n)))"
proof -
  let ?c = "sv_listSchedules (memService lk n) None None (Some g)"
  have step: "sameSchedules w w'" if "?c w = (r, w')" for w r w'
    using memCall_schedules [OF lk rewrites_list, of n None None "Some g" w r w'] that
    by (auto simp: memService_def sameSchedules_def)
  obtain x where x: "retryAny 5 ?c w = (x, w')" and r: "\<And>b. r = Returned b \<Longrightarrow> x = Inr b"
    using c by (auto simp: retryFive_def orDie_def split: prod.splits sum.splits)
  have refl: "\<And>w. sameSchedules w w" by (simp add: sameSchedules_def)
  have "sameSchedules w w' \<and> (\<exists>w1. sameSchedules w w1 \<and> ?c w1 = (x, w'))"
    by (rule retryAny_last [OF refl _ _ x]) (blast intro: sameSchedules_trans step)+
  then obtain w1 where s: "sameSchedules w w'" "sameSchedules w w1" and w1: "?c w1 = (x, w')" by blast
  show "sameSchedules w w'" by (rule s)
  assume "r = Returned ms"
  then have "memCall lk n (\<lambda>_. reads (listSchedules None None (Some g))) w1 = (Inr ms, w')"
    using w1 r by (simp add: memService_def)
  then have "ms = listSchedules None None (Some g) (lk_others lk (wd_step w1) (wd_stores w1) n)"
    by (auto simp: memCall_def reads_def Let_def split: fault.splits)
  moreover have "schedules (lk_others lk (wd_step w1) (wd_stores w1) n) = schedules (wd_stores w n)"
    using lk s(2) by (simp add: sparesSchedules_def sameSchedules_def)
  ultimately show "ms = filter (\<lambda>sc. sc_group sc = Some g) (mapValues (schedules (wd_stores w n)))"
    by (simp add: listSchedules_def matches_def)
qed

lemma members_inGroup:
  assumes "neat w"
  shows "k \<in> sc_key ` {sc \<in> set (mapValues (schedules (wd_stores w n))). sc_group sc = Some g} \<longleftrightarrow> inGroup g w n k"
proof -
  let ?m = "schedules (wd_stores w n)"
  have d: "distinct (mapKeys ?m)" and key: "\<And>k sc. mapGet ?m k = Some sc \<Longrightarrow> sc_key sc = k"
    using assms by (simp_all add: neat_def)
  have "k \<in> sc_key ` {sc \<in> set (mapValues ?m). sc_group sc = Some g}
    \<longleftrightarrow> (\<exists>sc. (\<exists>k'. mapGet ?m k' = Some sc) \<and> sc_group sc = Some g \<and> sc_key sc = k)"
    using mapValues_in [OF d] by (auto simp: image_iff)
  also have "\<dots> \<longleftrightarrow> inGroup g w n k"
    using key by (auto simp: inGroup_def slotAt_def split: option.splits)
  finally show ?thesis .
qed

lemma prune_spec:
  assumes lk: "sparesSchedules lk" and w: "neat w" and c: "prune rm g (memService lk n) D w = (r, w')"
  shows "dropsOnly n {k. inGroup g w n k \<and> k \<notin> set D} w w'"
    and "rm = WarnOnly \<Longrightarrow> sameSchedules w w'"
    and "r = Returned u \<Longrightarrow> rm = RemoveGroup \<Longrightarrow> inGroup g w' n k \<Longrightarrow> k \<in> set D"
proof -
  obtain x w1 where x: "retryFive (sv_listSchedules (memService lk n) None None (Some g)) w = (x, w1)"
    by (cases "retryFive (sv_listSchedules (memService lk n) None None (Some g)) w")
  note same = list_call(1) [OF lk x] and ms = list_call(2) [OF lk x]
  let ?ms = "filter (\<lambda>sc. sc_group sc = Some g) (mapValues (schedules (wd_stores w n)))"
  let ?un = "map sc_key (filter (\<lambda>m. sc_key m \<notin> set D) ?ms)"
  have un: "set ?un = {k. inGroup g w n k \<and> k \<notin> set D}"
  proof (intro set_eqI)
    fix k
    have "k \<in> set ?un \<longleftrightarrow> k \<in> sc_key ` {sc \<in> set (mapValues (schedules (wd_stores w n))). sc_group sc = Some g} \<and> k \<notin> set D"
      by (simp only: set_map set_filter) blast
    then show "k \<in> set ?un \<longleftrightarrow> k \<in> {k. inGroup g w n k \<and> k \<notin> set D}"
      unfolding members_inGroup [OF w] by blast
  qed
  have body: "(if ?un = [] then lift (Inr []) else if rm = WarnOnly then lift (Inr ?un)
          else bindA (removeKeys (memService lk n) ?un) (\<lambda>_. lift (Inr ?un))) w1 = (r, w')" if "x = Returned ms" for ms
    using c x that ms [OF that] by (simp add: prune_def bindA_def Let_def)
  have main: "dropsOnly n (set ?un) w w' \<and> (rm = WarnOnly \<longrightarrow> sameSchedules w w')
    \<and> (\<forall>u. r = Returned u \<longrightarrow> rm = RemoveGroup \<longrightarrow> (\<forall>k. inGroup g w' n k \<longrightarrow> k \<in> set D))"
  proof (cases x)
    case (Returned ms')
    note b = body [OF this]
    consider "?un = []" | "?un \<noteq> []" "rm = WarnOnly" | "?un \<noteq> []" "rm \<noteq> WarnOnly" by blast
    then show ?thesis
    proof cases
      case 1
      then have w': "w' = w1" using b by (simp add: lift_def)
      have "k \<in> set D" if "inGroup g w1 n k" for k
        using that 1 un sameSchedules_slotAt [OF same] inGroup_cong by (metis (mono_tags, lifting) empty_iff list.set(1) mem_Collect_eq)
      then show ?thesis using same sameSchedules_drops unfolding w' by blast
    next
      case 2
      then have w': "w' = w1" using b by (simp add: lift_def)
      then show ?thesis using same sameSchedules_drops 2(2) by auto
    next
      case 3
      obtain y where y: "removeKeys (memService lk n) ?un w1 = (y, w')" and r: "\<And>u. r = Returned u \<Longrightarrow> \<exists>v. y = Returned v"
        using b 3 by (auto simp: bindA_def lift_def split: prod.splits outcome.splits)
      note rk = removeKeys_spec [OF lk y]
      have d1: "dropsOnly n (set ?un) w w1" by (rule sameSchedules_drops [OF same])
      have d2: "dropsOnly n (set ?un) w1 w'" using rk by simp
      have dr: "dropsOnly n (set ?un) w w'" by (rule dropsOnly_trans [OF d1 d2])
      moreover have "k \<in> set D" if "r = Returned u" "inGroup g w' n k" for u k
      proof (rule ccontr)
        assume k: "k \<notin> set D"
        have "slotAt w' n k \<noteq> None" using that(2) by (auto simp: inGroup_def split: option.splits)
        with dr have "inGroup g w n k" using that(2) unfolding dropsOnly_def by (metis inGroup_cong)
        with k un have "k \<in> set ?un" by blast
        with rk r [OF that(1)] have "slotAt w' n k = None" by blast
        with \<open>slotAt w' n k \<noteq> None\<close> show False by simp
      qed
      ultimately show ?thesis using 3(2) by blast
    qed
  qed (use c x same sameSchedules_drops in \<open>auto simp: prune_def bindA_def\<close>)
  then show "dropsOnly n {k. inGroup g w n k \<and> k \<notin> set D} w w'"
    and "rm = WarnOnly \<Longrightarrow> sameSchedules w w'"
    and "r = Returned u \<Longrightarrow> rm = RemoveGroup \<Longrightarrow> inGroup g w' n k \<Longrightarrow> k \<in> set D"
    unfolding un by blast+
qed

lemma dropsOnly_slot: "dropsOnly n X w w' \<Longrightarrow> slotAt w' m k = slotAt w m k \<or> slotAt w' m k = None"
  unfolding dropsOnly_def by metis

lemma dropsOnly_owns:
  assumes "dropsOnly n {k. inGroup g w n k \<and> k \<notin> set D} w w'" "neat w"
  shows "ownsOnly g K w w'"
  unfolding ownsOnly_def
proof (intro conjI allI impI)
  show "neat w'" using assms by (simp add: dropsOnly_def)
  fix m k
  have d: "slotAt w' m k = slotAt w m k \<or> m = n \<and> inGroup g w n k \<and> slotAt w' m k = None"
    using assms(1) unfolding dropsOnly_def by blast
  show "slotAt w' m k = slotAt w m k" if "k \<notin> K m \<and> \<not> inGroup g w m k" using d that by blast
  show "inGroup g w m k \<or> k \<in> K m" if "inGroup g w' m k"
    using d that by (auto simp: inGroup_def)
qed

text \<open>
  All stores in turn. Every pair of a store object and a declared set leaves in its store only
  members of that set; what every pair of a store declares stays.
\<close>

lemma pruneAll_spec:
  assumes lk: "sparesSchedules lk"
  shows "neat w \<Longrightarrow> pruneAll rm g (\<lambda>k. memService lk (nm k)) pairs w = (r, w')
    \<Longrightarrow> ownsOnly g (\<lambda>_. {}) w w'
      \<and> (rm = WarnOnly \<longrightarrow> sameSchedules w w')
      \<and> (\<forall>n x. slotAt w' n x = slotAt w n x \<or> slotAt w' n x = None)
      \<and> (\<forall>n x. (\<forall>(k, D) \<in> set pairs. nm k = n \<longrightarrow> x \<in> set D) \<longrightarrow> slotAt w' n x = slotAt w n x)
      \<and> (\<forall>u. r = Returned u \<longrightarrow> rm = RemoveGroup \<longrightarrow>
           (\<forall>(k, D) \<in> set pairs. \<forall>x. inGroup g w' (nm k) x \<longrightarrow> x \<in> set D))"
proof (induction pairs arbitrary: w)
  case Nil
  then show ?case by (simp add: ownsOnly_refl sameSchedules_def)
next
  case (Cons p pairs)
  obtain k D where p: "p = (k, D)" by (cases p)
  obtain x w1 where x: "prune rm g (memService lk (nm k)) D w = (x, w1)"
    by (cases "prune rm g (memService lk (nm k)) D w")
  note pr = prune_spec [OF lk Cons.prems(1) x]
  have o1: "ownsOnly g (\<lambda>_. {}) w w1" by (rule dropsOnly_owns [OF pr(1) Cons.prems(1)])
  have s1: "slotAt w1 n y = slotAt w n y \<or> slotAt w1 n y = None" for n y
    by (rule dropsOnly_slot [OF pr(1)])
  have k1: "slotAt w1 n y = slotAt w n y" if "nm k = n \<longrightarrow> y \<in> set D" for n y
    using pr(1) that unfolding dropsOnly_def by blast
  show ?case
  proof (cases x)
    case (Returned ms)
    then have rest: "pruneAll rm g (\<lambda>k. memService lk (nm k)) pairs w1 = (r, w')"
      using Cons.prems(2) x p by (simp add: bindA_def)
    have "neat w1" using o1 by (simp add: ownsOnly_def)
    note ih = Cons.IH [OF this rest]
    have "ownsOnly g (\<lambda>_. {}) w w'" using o1 ih ownsOnly_trans by blast
    moreover have "rm = WarnOnly \<Longrightarrow> sameSchedules w w'"
      using pr(2) ih sameSchedules_trans by blast
    moreover have "slotAt w' n y = slotAt w n y \<or> slotAt w' n y = None" for n y
      using s1 [of n y] ih by metis
    moreover have "slotAt w' n y = slotAt w n y"
      if "\<forall>(k, D) \<in> set (p # pairs). nm k = n \<longrightarrow> y \<in> set D" for n y
      using that k1 [of n y] ih p by simp
    moreover have "y \<in> set D'" if "r = Returned u" "rm = RemoveGroup" "(k', D') \<in> set (p # pairs)" "inGroup g w' (nm k') y"
      for u k' D' y
    proof (cases "(k', D') = p")
      case True
      from ih that(4) have "inGroup g w1 (nm k') y" unfolding ownsOnly_def by blast
      then show ?thesis using pr(3) [OF Returned that(2)] True p by simp
    next
      case False
      then show ?thesis using that ih by auto
    qed
    ultimately show ?thesis by blast
  next
    case (Failing e)
    then have "r = Failing e" and w': "w1 = w'" using Cons.prems(2) x p by (simp_all add: bindA_def)
    then show ?thesis using o1 k1 s1 pr(2) p unfolding w' by simp
  next
    case (Died e)
    then have "r = Died e" and w': "w1 = w'" using Cons.prems(2) x p by (simp_all add: bindA_def)
    then show ?thesis using o1 k1 s1 pr(2) p unfolding w' by simp
  qed
qed

section \<open>Without faults every step returns\<close>

definition faultless :: "link \<Rightarrow> bool" where
  "faultless lk \<longleftrightarrow> (\<forall>n. lk_fault lk n = NoFault)"

lemma retryFive_Inr: "c w = (Inr a, w') \<Longrightarrow> retryFive c w = (Returned a, w')"
  by (simp add: retryFive_def orDie_def eval_nat_numeral)

lemma list_returns:
  assumes "faultless lk"
  shows "\<exists>a w'. retryFive (sv_listSchedules (memService lk n) None None (Some g)) w = (Returned a, w')"
  using memCall_returns [OF rewrites_list, of lk w n None None "Some g"] assms retryFive_Inr
  by (fastforce simp: memService_def faultless_def)

lemma removeKeys_returns:
  assumes "faultless lk"
  shows "\<exists>w'. removeKeys (memService lk n) keys w = (Returned (), w')"
proof (induction keys arbitrary: w)
  case (Cons key keys)
  obtain a w1 where "sv_removeSchedule (memService lk n) key w = (Inr a, w1)"
    using memCall_returns [OF rewrites_remove, of lk w n key] assms
    by (auto simp: memService_def faultless_def)
  then show ?case using Cons.IH [of w1] by (simp add: bindA_def retryFive_Inr)
qed simp

lemma prune_returns:
  assumes "faultless lk"
  shows "\<exists>u w'. prune rm g (memService lk n) D w = (Returned u, w')"
proof -
  obtain ms w1 where l: "retryFive (sv_listSchedules (memService lk n) None None (Some g)) w = (Returned ms, w1)"
    using list_returns [OF assms] by blast
  obtain w2 where "removeKeys (memService lk n) (map sc_key (filter (\<lambda>m. sc_key m \<notin> set D) ms)) w1 = (Returned (), w2)"
    using removeKeys_returns [OF assms] by blast
  with l show ?thesis by (simp add: prune_def bindA_def Let_def lift_def)
qed

lemma pruneAll_returns:
  assumes "faultless lk"
  shows "\<exists>w'. pruneAll rm g (\<lambda>k. memService lk (nm k)) pairs w = (Returned (), w')"
proof (induction pairs arbitrary: w)
  case (Cons p pairs)
  obtain k D where p: "p = (k, D)" by (cases p)
  obtain u w1 where "prune rm g (memService lk (nm k)) D w = (Returned u, w1)"
    using prune_returns [OF assms] by blast
  then show ?case using Cons.IH [of w1] by (simp add: p bindA_def)
qed simp

text \<open>An entry whose definition and options are in order: it never dies on a link without faults.\<close>

definition sound :: "(world, 'k) schedule_entry \<Rightarrow> bool" where
  "sound e \<longleftrightarrow> (\<forall>g w d. sn_register e g w \<noteq> (Died d, w))"

lemma registered_returns:
  assumes "faultless lk" "upsertsInto lk nm e" "sound e"
  shows "\<exists>w'. sn_register e g w = (Returned (entryId e), w')"
proof -
  from assms(2,3) obtain sc where sc: "sc_key sc = entryId e"
    "sn_register e g w = bindA (orDie (sv_upsertSchedule (memService lk (nm (sn_store e))) sc))
              (\<lambda>_ w'. (Returned (sc_key sc), w')) w"
    unfolding upsertsInto_def sound_def by metis
  obtain a w' where "sv_upsertSchedule (memService lk (nm (sn_store e))) sc w = (Inr a, w')"
    using memCall_returns [OF rewrites_upsert, of lk w "nm (sn_store e)" sc] assms(1)
    by (auto simp: memService_def faultless_def)
  with sc show ?thesis by (simp add: bindA_def orDie_def)
qed

lemma registerAll_returns:
  assumes "faultless lk"
  shows "list_all (upsertsInto lk nm) es \<Longrightarrow> list_all sound es \<Longrightarrow> \<exists>a w'. registerAll g es m w = (Returned a, w')"
proof (induction es arbitrary: m w)
  case (Cons e es)
  then have e: "upsertsInto lk nm e" "sound e" by simp_all
  from registered_returns [OF assms e] obtain w1 where "sn_register e g w = (Returned (entryId e), w1)" by blast
  then show ?case using Cons by (simp add: bindA_def)
qed simp

section \<open>Reconciliation\<close>

fun declaredEntry ::
  "('d \<Rightarrow> int) \<Rightarrow> 'x cron_lib \<Rightarrow> link \<Rightarrow> ('k \<Rightarrow> string) \<Rightarrow> (world \<Rightarrow> millis)
    \<Rightarrow> ('f, 'p, 'v, 'c, 'd) job_def \<times> 'k \<times> string \<times> ('d, 'f) schedule_options \<Rightarrow> (world, 'k) schedule_entry" where
  "declaredEntry toMillis cron lk nm clock (job, k, key, options) =
     scheduleEntry toMillis cron job k (memService lk (nm k)) clock key options"

text \<open>Options that \<open>reconcile\<close> does not refuse, of entries that do not die.\<close>

definition orderly :: "(world, 'k, 'd) reconcile_options \<Rightarrow> bool" where
  "orderly options \<longleftrightarrow> (rc_removeAfter options = None \<or> rc_removal options = Some RemoveGroup)
     \<and> distinct (map entryId (rc_schedules options)) \<and> list_all sound (rc_schedules options)"

definition storesOf :: "(world, 'k, 'd) reconcile_options \<Rightarrow> 'k set" where
  "storesOf options = set (rc_stores options) \<union> sn_store ` set (rc_schedules options)"

lemma direct_spares: "sparesSchedules (directLink clock)"
  by (simp add: sparesSchedules_def directLink_def)

lemma direct_faultless: "faultless (directLink clock)"
  by (simp add: faultless_def directLink_def)

lemma declared_upserts: "list_all (upsertsInto lk nm) (map (declaredEntry toMillis cron lk nm clock) decls)"
  by (auto simp: list_all_iff scheduleEntry_upserts)

lemma firstDuplicate_None:
  "firstDuplicate es seen = None \<longleftrightarrow> distinct (map entryId es) \<and> set (map entryId es) \<inter> set seen = {}"
  by (induction es seen rule: firstDuplicate.induct) auto

lemma emptyStores:
  "mapGet (fold (\<lambda>k m. mapSet k [] m) ks m) k = (if k \<in> set ks then Some [] else mapGet m k)"
  by (induction ks arbitrary: m) auto

lemma emptyStores_distinct: "distinct (mapKeys m) \<Longrightarrow> distinct (mapKeys (fold (\<lambda>k m. mapSet k [] m) ks m))"
  by (induction ks arbitrary: m) auto

lemma emptyStores_keys: "set (mapKeys (fold (\<lambda>k m. mapSet k [] m) ks [])) = set ks"
proof -
  have "k \<in> set (mapKeys (fold (\<lambda>k m. mapSet k [] m) ks [])) \<longleftrightarrow> k \<in> set ks" for k
    unfolding mapHas_key [symmetric] emptyStores by simp
  then show ?thesis by blast
qed

text \<open>The declared sets that the registration collects: one for each store object.\<close>

lemma tallied:
  assumes m_def: "m = fold addKey es (fold (\<lambda>k m. mapSet k [] m) ks [])"
  shows "fst ` set m = set ks \<union> sn_store ` set es"
    and "(k, D) \<in> set m \<Longrightarrow> set D = {entryId e | e. e \<in> set es \<and> sn_store e = k}"
proof -
  show "fst ` set m = set ks \<union> sn_store ` set es"
    using addKeys_keys [of es "fold (\<lambda>k m. mapSet k [] m) ks []"] unfolding emptyStores_keys m_def by simp
  have d: "distinct (mapKeys m)"
    unfolding m_def by (intro addKeys_distinct emptyStores_distinct) simp
  assume "(k, D) \<in> set m"
  with d have "mapGet m k = Some D" by simp
  from addKeys_get [OF this [unfolded m_def]]
  show "set D = {entryId e | e. e \<in> set es \<and> sn_store e = k}"
    by (auto simp: emptyStores orElse_def split: if_splits)
qed

text \<open>What \<open>reconcile\<close> does after its checks, whatever objects stand for the stores.\<close>

lemma reconcile_spec:
  assumes lk: "sparesSchedules lk" and w: "neat w"
    and es: "list_all (upsertsInto lk nm) (rc_schedules options)"
    and run: "reconcile (\<lambda>k. memService lk (nm k)) options w = (r, w')"
  obtains (refused) "w' = w" "\<And>u. r \<noteq> Returned u"
    | (interrupted) "ownsOnly (rc_group options) (keysAt nm (rc_schedules options)) w w'" "\<And>u. r \<noteq> Returned u"
    | (returned) m w1 where
      "m = fold addKey (rc_schedules options) (fold (\<lambda>k m. mapSet k [] m) (rc_stores options) [])"
      "ownsOnly (rc_group options) (keysAt nm (rc_schedules options)) w w1"
      "\<And>n k. inGroup (rc_group options) w1 n k
         \<longleftrightarrow> inGroup (rc_group options) w n k \<or> k \<in> keysAt nm (rc_schedules options) n"
      "registerAll (rc_group options) (rc_schedules options) (fold (\<lambda>k m. mapSet k [] m) (rc_stores options) []) w = (Returned m, w1)"
      "firstDuplicate (rc_schedules options) [] = None"
      "if rc_removal options = Some RemoveGroup \<and> rc_removeAfter options \<noteq> None then r = Returned m \<and> w' = w1
       else pruneAll (orElse (rc_removal options) WarnOnly) (rc_group options) (\<lambda>k. memService lk (nm k)) m w1
              = (Returned (), w') \<and> r = Returned []"
proof -
  let ?g = "rc_group options" and ?es = "rc_schedules options"
  let ?e0 = "fold (\<lambda>k m. mapSet k [] m) (rc_stores options) []"
  let ?rm = "orElse (rc_removal options) WarnOnly"
  consider "w' = w" "\<And>u. r \<noteq> Returned u"
    | "firstDuplicate ?es [] = None" "(case registerAll ?g ?es ?e0 w of (x, w1) \<Rightarrow>
          bindA (\<lambda>_. (x, w1)) (\<lambda>m. if ?rm = RemoveGroup \<and> rc_removeAfter options \<noteq> None then lift (Inr m)
             else bindA (pruneAll ?rm ?g (\<lambda>k. memService lk (nm k)) m) (\<lambda>_. lift (Inr []))) w) = (r, w')"
    using run by (auto simp: reconcile_def bindA_def Let_def split: if_splits option.splits prod.splits)
  then show thesis
  proof cases
    case 1
    then show thesis using refused by blast
  next
    case 2
    obtain x w1 where x: "registerAll ?g ?es ?e0 w = (x, w1)" by (cases "registerAll ?g ?es ?e0 w")
    note reg = registerAll_spec [OF lk w es x]
    have rm: "?rm = RemoveGroup \<longleftrightarrow> rc_removal options = Some RemoveGroup"
      by (simp add: orElse_def split: option.split)
    show thesis
    proof (cases x)
      case (Returned m)
      have m: "m = fold addKey ?es ?e0" using reg Returned by simp
      have xm: "registerAll ?g ?es ?e0 w = (Returned m, w1)" using x Returned by simp
      have own: "ownsOnly ?g (keysAt nm ?es) w w1" using reg by simp
      have grp: "inGroup ?g w1 n k \<longleftrightarrow> inGroup ?g w n k \<or> k \<in> keysAt nm ?es n" for n k
        using reg Returned unfolding ownsOnly_def by blast
      show thesis
      proof (cases "rc_removal options = Some RemoveGroup \<and> rc_removeAfter options \<noteq> None")
        case True
        then have "r = Returned m \<and> w' = w1" using 2(2) x Returned rm by (simp add: bindA_def lift_def)
        then show thesis using returned [OF m own grp xm 2(1)] True by simp
      next
        case False
        obtain y where y: "pruneAll ?rm ?g (\<lambda>k. memService lk (nm k)) m w1 = (y, w')"
          and r: "r = (case y of Returned u \<Rightarrow> Returned [] | Failing e \<Rightarrow> Failing e | Died d \<Rightarrow> Died d)"
          using 2(2) x Returned rm False by (auto simp: bindA_def lift_def split: prod.splits outcome.splits)
        have n1: "neat w1" using own by (simp add: ownsOnly_def)
        have "ownsOnly ?g (\<lambda>_. {}) w1 w'" using pruneAll_spec [OF lk n1 y] by simp
        then have "ownsOnly ?g (keysAt nm ?es) w1 w'" by (rule ownsOnly_mono) simp
        with own have ww: "ownsOnly ?g (keysAt nm ?es) w w'" by (rule ownsOnly_trans)
        show thesis
        proof (cases y)
          case (Returned u)
          then have "pruneAll ?rm ?g (\<lambda>k. memService lk (nm k)) m w1 = (Returned (), w') \<and> r = Returned []"
            using y r by simp
          then show thesis by (intro returned [OF m own grp xm 2(1)]) (simp only: if_not_P [OF False])
        qed (use interrupted [OF ww] r in simp_all)
      qed
    qed (use interrupted 2 x reg in \<open>auto simp: bindA_def\<close>)
  qed
qed

lemma orderly_returns:
  assumes "faultless lk" "list_all (upsertsInto lk nm) (rc_schedules options)" "orderly options"
  shows "\<exists>u w'. reconcile (\<lambda>k. memService lk (nm k)) options w = (Returned u, w')"
proof -
  let ?g = "rc_group options" and ?es = "rc_schedules options"
  let ?e0 = "fold (\<lambda>k m. mapSet k [] m) (rc_stores options) []"
  have ok: "list_all sound ?es" "firstDuplicate ?es [] = None"
    using assms(3) by (simp_all add: orderly_def firstDuplicate_None)
  from registerAll_returns [OF assms(1,2) ok(1)]
  obtain m w1 where reg: "registerAll ?g ?es ?e0 w = (Returned m, w1)" by blast
  from pruneAll_returns [OF assms(1)] obtain w2
    where pr: "pruneAll (orElse (rc_removal options) WarnOnly) ?g (\<lambda>k. memService lk (nm k)) m w1 = (Returned (), w2)" by blast
  have fine: "\<not> (rc_removeAfter options \<noteq> None \<and> orElse (rc_removal options) WarnOnly \<noteq> RemoveGroup)"
    using assms(3) by (auto simp: orderly_def orElse_def)
  show ?thesis
    unfolding reconcile_def Let_def if_not_P [OF fine] ok(2) option.case
    using reg pr by (simp add: bindA_def lift_def)
qed

lemma tallied_keysAt:
  assumes "inj_on nm (storesOf options)"
    and "m = fold addKey (rc_schedules options) (fold (\<lambda>k m. mapSet k [] m) (rc_stores options) [])"
    and "(k, D) \<in> set m"
  shows "set D = keysAt nm (rc_schedules options) (nm k)"
proof -
  have k: "k \<in> storesOf options"
    using tallied(1) [OF assms(2)] assms(3) unfolding storesOf_def by force
  have "nm (sn_store e) = nm k \<longleftrightarrow> sn_store e = k" if "e \<in> set (rc_schedules options)" for e
    using inj_onD [OF assms(1) _ _ k, of "sn_store e"] that by (auto simp: storesOf_def)
  then show ?thesis using tallied(2) [OF assms(2,3)] by (auto simp: keysAt_def)
qed

definition hourly :: "(nat \<times> string) list \<Rightarrow> ((nat, nat, nat, nat, int) job_def \<times> nat \<times> string \<times> (int, nat) schedule_options) list" where
  "hourly keys = map (\<lambda>(k, key). (numberDef ''mail'', k, key, everyHour)) keys"

definition hourlyGroup :: "link \<Rightarrow> (nat \<Rightarrow> string) \<Rightarrow> (nat \<times> string) list \<Rightarrow> (world, nat, int) reconcile_options" where
  "hourlyGroup lk nm keys = \<lparr> rc_group = ''g'',
     rc_schedules = map (declaredEntry (\<lambda>d. d) noCron lk nm (\<lambda>w. int (wd_step w))) (hourly keys),
     rc_removal = Some RemoveGroup, rc_removeAfter = None, rc_stores = [] \<rparr>"

text \<open>A store that holds a schedule of the group from an earlier release.\<close>

definition oldSchedule :: mem_store where
  "oldSchedule = upsertSchedule
     \<lparr> sc_key = ''mail/old'', sc_jobName = ''mail'', sc_queue = ''q'', sc_cron = None, sc_tz = None, sc_everyMs = Some 60000,
       sc_payload = JNull, sc_metadata = [], sc_priority = 0, sc_attemptsMax = 1, sc_backoff = None, sc_keep = None,
       sc_timeoutMs = None, sc_group = Some ''g'', sc_nextRunAt = 60000 \<rparr> emptyStore"

lemma oldSchedule_neat: "neat (worldOf oldSchedule)"
  by (simp add: neat_def oldSchedule_def upsertSchedule_def signalWake_def emptyStore_def Let_def)

lemma hourly_sound: "sound (declaredEntry (\<lambda>d. d) noCron lk nm clock (numberDef ''mail'', k, key, everyHour))"
proof -
  have "\<exists>sc. scheduleRecordOf (\<lambda>d. d) noCron (numberDef ''mail'') now key (everyHour\<lparr>so_group := Some g\<rparr>) = Inr sc" for now g
    by (simp add: scheduleRecordOf_def nextOccurrence_def everyHour_def numberDef_def needed_def keepOr_def Let_def)
  then have "\<exists>sc. sn_register (declaredEntry (\<lambda>d. d) noCron lk nm clock (numberDef ''mail'', k, key, everyHour)) g w
      = bindA (orDie (sv_upsertSchedule (memService lk (nm k)) sc)) (\<lambda>_ w'. (Returned (sc_key sc), w')) w" for g w
    by (simp add: scheduleEntry_def schedule_def) (metis (no_types, lifting) sum.case(2))
  moreover have "bindA (orDie (sv_upsertSchedule (memService lk (nm k)) sc)) (\<lambda>_ w'. (Returned (sc_key sc), w')) w \<noteq> (Died d, w)" for sc d w
  proof
    let ?c = "bindA (orDie (sv_upsertSchedule (memService lk (nm k)) sc)) (\<lambda>_ w'. (Returned (sc_key sc), w')) w"
    assume "?c = (Died d, w)"
    moreover have "wd_step (snd ?c) = Suc (wd_step w)"
      by (auto simp: bindA_def orDie_def memService_def memCall_def Let_def split: prod.split sum.split fault.split)
    ultimately show False by simp
  qed
  ultimately show ?thesis unfolding sound_def by metis
qed

lemma hourly_entry: "entryId (declaredEntry (\<lambda>d. d) noCron lk nm clock (numberDef ''mail'', k, key, everyHour)) = ''mail/'' @ key"
  by (simp add: entryId_def scheduleEntry_def numberDef_def)

text \<open>What a declared schedule looks like once its entry has run: the record of the declaration, with the
  slot that was pending when its cadence is unchanged.\<close>

definition settledRecord :: "schedule_record \<Rightarrow> schedule_record option \<Rightarrow> schedule_record" where
  "settledRecord rec before =
     (case before of
        None \<Rightarrow> rec
      | Some old \<Rightarrow> if sameCadence old rec then rec\<lparr>sc_nextRunAt := sc_nextRunAt old\<rparr> else rec)"

fun declaredBy ::
  "('d \<Rightarrow> int) \<Rightarrow> 'x cron_lib \<Rightarrow> string \<Rightarrow> (world \<Rightarrow> millis)
    \<Rightarrow> ('f, 'p, 'v, 'c, 'd) job_def \<times> 'k \<times> string \<times> ('d, 'f) schedule_options \<Rightarrow> schedule_record \<Rightarrow> bool" where
  "declaredBy toMillis cron g clock (job, k, key, options) rec \<longleftrightarrow>
     (\<exists>u. scheduleRecordOf toMillis cron job (clock u) key (options\<lparr>so_group := Some g\<rparr>) = Inr rec)
     \<and> sc_key rec = jb_tag job @ CHR ''/'' # key \<and> sc_jobName rec = jb_tag job \<and> sc_queue rec = jb_queue job
     \<and> sc_cron rec = so_cron options \<and> sc_tz rec = so_tz options \<and> sc_everyMs rec = map_option toMillis (so_every options)
     \<and> sc_group rec = Some g
     \<and> (\<exists>payload. jb_makePayload job (so_payload options) = Some payload \<and> jb_encode job payload = Some (sc_payload rec)
          \<and> sc_metadata rec = metadataOf job payload (so_metadata options))"

lemma needed_returns: "needed d x = Inr a \<longleftrightarrow> x = Some a"
  by (cases x) (auto simp: needed_def)

lemma record_declared:
  "scheduleRecordOf toMillis cron job (clock u) key (options\<lparr>so_group := Some g\<rparr>) = Inr rec
    \<Longrightarrow> declaredBy toMillis cron g clock (job, k, key, options) rec"
  by (auto simp: scheduleRecordOf_def bindP_Inr needed_returns scheduleKeyOf_def Let_def split: if_splits option.splits)

lemma upsert_slots:
  assumes lk: "sparesSchedules lk" and c: "sv_upsertSchedule (memService lk n) sc w = (r, w')"
  shows "m \<noteq> n \<or> k \<noteq> sc_key sc \<Longrightarrow> slotAt w' m k = slotAt w m k"
    and "r = Inr u \<Longrightarrow> slotAt w' n (sc_key sc) = Some (settledRecord sc (slotAt w n (sc_key sc)))"
proof -
  from c have "memCall lk n (\<lambda>_. quietly (upsertSchedule sc)) w = (r, w')" by (simp add: memService_def)
  from memCall_schedules [OF lk rewrites_upsert this]
  consider "sameSchedules w w'" "r = Inl driverDown"
    | "schedules (wd_stores w' n) = upserted sc (schedules (wd_stores w n))"
      "\<forall>m. m \<noteq> n \<longrightarrow> schedules (wd_stores w' m) = schedules (wd_stores w m)" by blast
  note cases = this
  show "m \<noteq> n \<or> k \<noteq> sc_key sc \<Longrightarrow> slotAt w' m k = slotAt w m k"
    using cases
  proof cases
    case 1
    then show ?thesis by (simp add: sameSchedules_slotAt)
  next
    case 2
    then show "m \<noteq> n \<or> k \<noteq> sc_key sc \<Longrightarrow> ?thesis" by (cases "m = n") (auto simp: slotAt_def upserted_def)
  qed
  show "r = Inr u \<Longrightarrow> slotAt w' n (sc_key sc) = Some (settledRecord sc (slotAt w n (sc_key sc)))"
    using cases by cases (simp_all add: slotAt_def upserted_def settledRecord_def)
qed

lemma registered_content:
  assumes e_def: "e = declaredEntry toMillis cron lk nm clock decl" and lk: "sparesSchedules lk" and c: "sn_register e g w = (r, w')"
  shows "n \<noteq> nm (sn_store e) \<or> x \<noteq> entryId e \<Longrightarrow> slotAt w' n x = slotAt w n x"
    and "r = Returned a \<Longrightarrow> \<exists>rec. declaredBy toMillis cron g clock decl rec
      \<and> slotAt w' (nm (sn_store e)) (entryId e)
          = Some (settledRecord rec (slotAt w (nm (sn_store e)) (entryId e)))"
proof -
  obtain job k key options where decl: "decl = (job, k, key, options)" by (cases decl)
  have st: "sn_store e = k" "entryId e = jb_tag job @ CHR ''/'' # key"
    by (simp_all add: e_def decl scheduleEntry_def entryId_def)
  let ?r = "scheduleRecordOf toMillis cron job (clock w) key (options\<lparr>so_group := Some g\<rparr>)"
  have "(n \<noteq> nm k \<or> x \<noteq> entryId e \<longrightarrow> slotAt w' n x = slotAt w n x)
    \<and> (r = Returned a \<longrightarrow> (\<exists>rec. declaredBy toMillis cron g clock decl rec
      \<and> slotAt w' (nm k) (entryId e) = Some (settledRecord rec (slotAt w (nm k) (entryId e)))))"
  proof (cases ?r)
    case (Inl d)
    then have "r \<noteq> Returned a" "w' = w" using c by (auto simp: e_def decl scheduleEntry_def schedule_def)
    then show ?thesis by simp
  next
    case (Inr rec)
    have d: "declaredBy toMillis cron g clock decl rec" unfolding decl by (rule record_declared [where clock = clock, OF Inr])
    then have key: "sc_key rec = entryId e" by (simp add: decl st)
    obtain y w1 where y: "sv_upsertSchedule (memService lk (nm k)) rec w = (y, w1)"
      by (cases "sv_upsertSchedule (memService lk (nm k)) rec w")
    have "w' = w1" "r = Returned a \<Longrightarrow> y = Inr ()"
      using c Inr y by (auto simp: e_def decl scheduleEntry_def schedule_def bindA_def orDie_def split: sum.splits)
    then show ?thesis using upsert_slots [OF lk y] d unfolding key by blast
  qed
  then show "n \<noteq> nm (sn_store e) \<or> x \<noteq> entryId e \<Longrightarrow> slotAt w' n x = slotAt w n x"
    and "r = Returned a \<Longrightarrow> \<exists>rec. declaredBy toMillis cron g clock decl rec
      \<and> slotAt w' (nm (sn_store e)) (entryId e)
          = Some (settledRecord rec (slotAt w (nm (sn_store e)) (entryId e)))"
    unfolding st(1) by blast+
qed

lemma registerAll_contents:
  assumes lk: "sparesSchedules lk"
  shows "registerAll g (map (declaredEntry toMillis cron lk nm clock) decls) m w = (Returned a, w')
    \<Longrightarrow> distinct (map (entryId \<circ> declaredEntry toMillis cron lk nm clock) decls) \<Longrightarrow> decl \<in> set decls
    \<Longrightarrow> e = declaredEntry toMillis cron lk nm clock decl
    \<Longrightarrow> \<exists>rec. declaredBy toMillis cron g clock decl rec
          \<and> slotAt w' (nm (sn_store e)) (entryId e) = Some (settledRecord rec (slotAt w (nm (sn_store e)) (entryId e)))"
proof (induction decls arbitrary: m w)
  case (Cons d decls)
  let ?entry = "declaredEntry toMillis cron lk nm clock"
  obtain x w1 where x: "sn_register (?entry d) g w = (x, w1)" by (cases "sn_register (?entry d) g w")
  from Cons.prems(1) x obtain i m1 where i: "x = Returned i"
    and rest: "registerAll g (map ?entry decls) m1 w1 = (Returned a, w')"
    by (auto simp: bindA_def split: outcome.splits)
  note head = registered_content [OF refl lk x]
  have tail: "slotAt w' n k = slotAt w1 n k" if "k \<notin> set (map (entryId \<circ> ?entry) decls)" for n k
    using rest that
  proof (induction decls arbitrary: m1 w1)
    case (Cons d' decls)
    obtain y w2 where y: "sn_register (?entry d') g w1 = (y, w2)" by (cases "sn_register (?entry d') g w1")
    from Cons.prems(1) y obtain m2 where "registerAll g (map ?entry decls) m2 w2 = (Returned a, w')"
      by (auto simp: bindA_def split: outcome.splits)
    with Cons have "slotAt w' n k = slotAt w2 n k" by simp
    then show ?case using registered_content(1) [OF refl lk y, of n k] Cons.prems(2) by auto
  qed simp
  show ?case
  proof (cases "decl = d")
    case True
    then have "e = ?entry d" using Cons.prems(4) by simp
    moreover from this have "entryId e \<notin> set (map (entryId \<circ> ?entry) decls)" using Cons.prems(2) by simp
    ultimately show ?thesis using head(2) [OF i] tail True by simp
  next
    case False
    then have d: "decl \<in> set decls" using Cons.prems(3) by simp
    then have "entryId e \<in> set (map (entryId \<circ> ?entry) decls)" using imageI [OF d, of "entryId \<circ> ?entry"] Cons.prems(4) by simp
    moreover have "(entryId \<circ> ?entry) d \<notin> set (map (entryId \<circ> ?entry) decls)"
      using Cons.prems(2) by (simp only: list.map distinct.simps simp_thms)
    ultimately have "entryId e \<noteq> entryId (?entry d)" by (metis comp_apply)
    then have "slotAt w1 (nm (sn_store e)) (entryId e) = slotAt w (nm (sn_store e)) (entryId e)" using head(1) by blast
    then show ?thesis using Cons.IH [OF rest _ d Cons.prems(4)] Cons.prems(2) by simp
  qed
qed simp

lemma deferred_prune_drops:
  assumes "sparesSchedules lk" "neat v" "set D = S"
  shows "dropsOnly (nm s) {k. inGroup g v (nm s) k \<and> k \<notin> S} v (deferredPrune g (\<lambda>k. memService lk (nm k)) (s, D) v)"
proof -
  obtain x v' where x: "prune RemoveGroup g (memService lk (nm s)) D v = (x, v')"
    by (cases "prune RemoveGroup g (memService lk (nm s)) D v")
  from prune_spec(1) [OF assms(1,2) x] show ?thesis using x assms(3) by (simp add: deferredPrune_def)
qed

lemma pruned_group_exact:
  assumes lk: "sparesSchedules lk" "neat w1" and y: "pruneAll RemoveGroup g (\<lambda>k. memService lk (nm k)) m w1 = (Returned (), w')"
    and decl: "\<And>s D. (s, D) \<in> set m \<Longrightarrow> set D = K (nm s)" and s: "(s, D) \<in> set m"
    and before: "\<And>k. k \<in> K (nm s) \<Longrightarrow> inGroup g w1 (nm s) k"
  shows "inGroup g w' (nm s) k \<longleftrightarrow> k \<in> K (nm s)"
proof
  note pr = pruneAll_spec [OF lk y]
  show "k \<in> K (nm s)" if "inGroup g w' (nm s) k" using pr s decl [OF s] that by fastforce
  assume k: "k \<in> K (nm s)"
  then have "\<forall>(k', D') \<in> set m. nm k' = nm s \<longrightarrow> k \<in> set D'" using decl by auto
  then have "slotAt w' (nm s) k = slotAt w1 (nm s) k" using pr by blast
  then show "inGroup g w' (nm s) k" using before [OF k] by (simp add: inGroup_def)
qed

lemma warned_group:
  assumes "sparesSchedules lk" "neat w1" "pruneAll WarnOnly g (\<lambda>k. memService lk (nm k)) m w1 = (Returned (), w')"
  shows "inGroup g w' n k \<longleftrightarrow> inGroup g w1 n k"
proof -
  have "sameSchedules w1 w'" using pruneAll_spec [OF assms] by simp
  then show ?thesis by (intro inGroup_cong sameSchedules_slotAt)
qed

lemma declared_survives:
  assumes lk: "sparesSchedules lk" "neat w1"
    and y: "rm = Some RemoveGroup \<and> after \<noteq> None \<and> w' = w1
      \<or> pruneAll (orElse rm WarnOnly) g (\<lambda>k. memService lk (nm k)) m w1 = (Returned (), w')"
    and decl: "\<And>s D. (s, D) \<in> set m \<Longrightarrow> set D = K (nm s)" and k: "k \<in> K n"
  shows "slotAt w' n k = slotAt w1 n k"
  using y
proof
  assume pr: "pruneAll (orElse rm WarnOnly) g (\<lambda>k. memService lk (nm k)) m w1 = (Returned (), w')"
  have "\<forall>(s, D) \<in> set m. nm s = n \<longrightarrow> k \<in> set D" using decl k by auto
  then show ?thesis using pruneAll_spec [OF lk pr] by blast
qed simp

lemma declared_contents:
  assumes lk: "sparesSchedules lk" "neat w1"
    and reg: "registerAll g (map (declaredEntry toMillis cron lk nm clock) decls) m0 w = (Returned m, w1)"
    and dup: "firstDuplicate (map (declaredEntry toMillis cron lk nm clock) decls) [] = None"
    and K: "\<And>s D. (s, D) \<in> set m \<Longrightarrow> set D = keysAt nm (map (declaredEntry toMillis cron lk nm clock) decls) (nm s)"
    and d: "(job, k, key, opts) \<in> set decls"
    and kept: "if rm = Some RemoveGroup \<and> after \<noteq> None then r = Returned m \<and> w' = w1
      else pruneAll (orElse rm WarnOnly) g (\<lambda>k. memService lk (nm k)) m w1 = (Returned (), w') \<and> r = Returned []"
  shows "\<exists>rec. declaredBy toMillis cron g clock (job, k, key, opts) rec
    \<and> slotAt w' (nm k) (sc_key rec) = Some (settledRecord rec (slotAt w (nm k) (sc_key rec)))"
proof -
  let ?entry = "declaredEntry toMillis cron lk nm clock"
  let ?e = "?entry (job, k, key, opts)"
  have st: "sn_store ?e = k" "entryId ?e = jb_tag job @ CHR ''/'' # key" by (simp_all add: scheduleEntry_def entryId_def)
  have dist: "distinct (map (entryId \<circ> ?entry) decls)" using dup unfolding firstDuplicate_None by simp
  obtain rec where rec: "declaredBy toMillis cron g clock (job, k, key, opts) rec"
    "slotAt w1 (nm k) (entryId ?e) = Some (settledRecord rec (slotAt w (nm k) (entryId ?e)))"
    using registerAll_contents [OF lk(1) reg dist d refl] unfolding st(1) by blast
  have "entryId ?e \<in> keysAt nm (map ?entry decls) (nm k)" using d st(1) unfolding keysAt_def by force
  from declared_survives [where K = "keysAt nm (map ?entry decls)" and nm = nm and m = m, OF lk _ K this, of rm after w' g]
  have "slotAt w' (nm k) (entryId ?e) = slotAt w1 (nm k) (entryId ?e)" using kept by (simp split: if_splits)
  moreover have "sc_key rec = entryId ?e" using rec(1) st(2) by simp
  ultimately show ?thesis using rec by auto
qed

text \<open>C29: What reconciling a schedule group does. It writes only the keys it declares (a schedule that
  held such a key outside the group is taken over) and otherwise only removes members of its own group,
  whatever fails on the way. When it returns, every declared key holds the schedule of its declaration,
  the job, queue, cadence and payload as declared, with the slot that was pending if the cadence did not
  change. When it returns after an immediate prune, the group in every store it has seen is exactly what
  is declared for that store. In the default mode, which only warns, and when the prune is left to a
  delayed fiber, every old member is still there beside the declared ones; the delayed prune, whenever it
  runs, removes only members of the group that are not declared. Options that are in order are reconciled
  on a link without faults. Different store objects of the program stand for different stores.\<close>

theorem reconciled_group_is_what_is_declared:
  fixes options :: "(world, 'k, 'd) reconcile_options"
  assumes "sparesSchedules lk" "neat w"
    and "rc_schedules options = map (declaredEntry toMillis cron lk nm clock) decls"
    and "inj_on nm (storesOf options)"
    and "reconcile (\<lambda>k. memService lk (nm k)) options w = (r, w')"
  shows "ownsOnly (rc_group options) (keysAt nm (rc_schedules options)) w w'
    \<and> (r = Returned [] \<and> rc_removal options = Some RemoveGroup \<and> rc_removeAfter options = None \<longrightarrow>
         (\<forall>s \<in> storesOf options. \<forall>k. inGroup (rc_group options) w' (nm s) k
            \<longleftrightarrow> k \<in> keysAt nm (rc_schedules options) (nm s)))
    \<and> (\<forall>forked. r = Returned forked \<and> \<not> (rc_removal options = Some RemoveGroup \<and> rc_removeAfter options = None) \<longrightarrow>
         (\<forall>n k. inGroup (rc_group options) w' n k
            \<longleftrightarrow> inGroup (rc_group options) w n k \<or> k \<in> keysAt nm (rc_schedules options) n)
       \<and> (\<forall>(s, D) \<in> set forked. \<forall>v. neat v \<longrightarrow>
            dropsOnly (nm s) {k. inGroup (rc_group options) v (nm s) k \<and> k \<notin> keysAt nm (rc_schedules options) (nm s)}
              v (deferredPrune (rc_group options) (\<lambda>k. memService lk (nm k)) (s, D) v)))
    \<and> (\<forall>forked. r = Returned forked \<longrightarrow> (\<forall>(job, k, key, opts) \<in> set decls.
         \<exists>rec. declaredBy toMillis cron (rc_group options) clock (job, k, key, opts) rec
           \<and> slotAt w' (nm k) (sc_key rec) = Some (settledRecord rec (slotAt w (nm k) (sc_key rec)))))
    \<and> (faultless lk \<and> orderly options \<longrightarrow> (\<exists>forked. r = Returned forked))"
proof -
  let ?g = "rc_group options" and ?es = "rc_schedules options"
  have up: "list_all (upsertsInto lk nm) ?es" using declared_upserts assms(3) by metis
  have ret: "faultless lk \<and> orderly options \<longrightarrow> (\<exists>u. r = Returned u)"
    using orderly_returns [OF _ up, of w] assms(5) by auto
  from assms(1,2) up assms(5) show ?thesis
  proof (cases rule: reconcile_spec)
    case refused
    then show ?thesis using ret ownsOnly_refl [OF assms(2)] by blast
  next
    case interrupted
    then show ?thesis using ret by blast
  next
    case (returned m w1)
    have decl: "set D = keysAt nm ?es (nm s)" if "(s, D) \<in> set m" for s D
      by (rule tallied_keysAt [OF assms(4) returned(1) that])
    have n1: "neat w1" using returned(2) by (simp add: ownsOnly_def)
    note later = deferred_prune_drops [OF assms(1) _ decl]
    note contents = declared_contents [OF assms(1) n1 returned(4,5) [unfolded assms(3)] decl [unfolded assms(3)] _ returned(6)]
    show ?thesis
    proof (cases "rc_removal options = Some RemoveGroup \<and> rc_removeAfter options \<noteq> None")
      case True
      then have r: "r = Returned m" and w': "w' = w1" using returned(6) by simp_all
      show ?thesis using True r returned(2,3) later ret contents unfolding w' by auto
    next
      case False
      then have y: "pruneAll (orElse (rc_removal options) WarnOnly) ?g (\<lambda>k. memService lk (nm k)) m w1 = (Returned (), w')"
        and r: "r = Returned []" using returned(6) by (simp_all only: if_False simp_thms)
      note pr = pruneAll_spec [OF assms(1) n1 y]
      have "ownsOnly ?g (keysAt nm ?es) w1 w'" using pr ownsOnly_mono by blast
      with returned(2) have own: "ownsOnly ?g (keysAt nm ?es) w w'" by (rule ownsOnly_trans)
      have warn: "inGroup ?g w' n k \<longleftrightarrow> inGroup ?g w n k \<or> k \<in> keysAt nm ?es n"
        if "\<not> (rc_removal options = Some RemoveGroup \<and> rc_removeAfter options = None)" for n k
      proof -
        have "orElse (rc_removal options) WarnOnly = WarnOnly"
          using False that by (cases "orElse (rc_removal options) WarnOnly") (auto simp: orElse_def split: option.splits)
        then show ?thesis using warned_group [OF assms(1) n1, of ?g nm m w' n k] y returned(3) by simp
      qed
      have exact: "inGroup ?g w' (nm s) k \<longleftrightarrow> k \<in> keysAt nm ?es (nm s)"
        if "rc_removal options = Some RemoveGroup" "s \<in> storesOf options" for s k
      proof -
        from that(2) obtain D where "(s, D) \<in> set m"
          using tallied(1) [OF returned(1)] unfolding storesOf_def by force
        then show ?thesis
          using pruned_group_exact [OF assms(1) n1, of ?g nm m w' "keysAt nm ?es" s D k] y that(1) decl returned(3)
          by (simp add: orElse_def)
      qed
      show ?thesis using own warn exact r ret contents by auto
    qed
  qed
qed

theorem reconciled_group_is_what_is_declared_witness:
  "\<exists>w'. reconcile (\<lambda>k. memService (directLink (\<lambda>n. int n)) ''s'') (hourlyGroup (directLink (\<lambda>n. int n)) (\<lambda>_. ''s'') [(0, ''hourly'')])
       (worldOf oldSchedule) = (Returned [], w')
     \<and> inGroup ''g'' w' ''s'' ''mail/hourly'' \<and> \<not> inGroup ''g'' w' ''s'' ''mail/old''
     \<and> map_option (\<lambda>sc. (sc_jobName sc, sc_everyMs sc, sc_payload sc)) (slotAt w' ''s'' ''mail/hourly'')
         = Some (''mail'', Some 3600000, JNum 7)"
proof -
  let ?lk = "directLink (\<lambda>n. int n)"
  let ?o = "hourlyGroup ?lk (\<lambda>_. ''s'') [(0, ''hourly'')]"
  let ?e = "declaredEntry (\<lambda>d. d) noCron ?lk (\<lambda>_. ''s'') (\<lambda>w. int (wd_step w)) (numberDef ''mail'', 0, ''hourly'', everyHour)"
  have es: "rc_schedules ?o = [?e]" by (simp add: hourlyGroup_def hourly_def)
  have ord: "orderly ?o" unfolding orderly_def es
    by (simp add: hourly_sound hourly_entry del: declaredEntry.simps) (simp add: hourlyGroup_def)
  have st: "storesOf ?o = {0}" unfolding storesOf_def es by (simp add: hourlyGroup_def scheduleEntry_def)
  have keys: "keysAt (\<lambda>_. ''s'') (rc_schedules ?o) ''s'' = {''mail/hourly''}"
    unfolding keysAt_def es using hourly_entry by (auto simp del: declaredEntry.simps)
  obtain r w' where run: "reconcile (\<lambda>k. memService ?lk ''s'') ?o (worldOf oldSchedule) = (r, w')"
    by (cases "reconcile (\<lambda>k. memService ?lk ''s'') ?o (worldOf oldSchedule)")
  have o: "rc_schedules ?o = map (declaredEntry (\<lambda>d. d) noCron ?lk (\<lambda>_. ''s'') (\<lambda>w. int (wd_step w))) (hourly [(0, ''hourly'')])"
    "rc_removal ?o = Some RemoveGroup" "rc_removeAfter ?o = None" "rc_group ?o = ''g''" by (simp_all add: hourlyGroup_def)
  have inj: "inj_on (\<lambda>_. ''s'') (storesOf ?o)" by (simp add: st)
  note all = reconciled_group_is_what_is_declared [OF direct_spares oldSchedule_neat o(1) inj run]
  from all direct_faultless ord obtain forked where r: "r = Returned forked" by blast
  have "forked = []" using run r o by (auto simp: reconcile_def bindA_def lift_def orElse_def Let_def split: if_splits option.splits prod.splits outcome.splits)
  with all r o st keys have "\<forall>k. inGroup ''g'' w' ''s'' k \<longleftrightarrow> k \<in> {''mail/hourly''}" by simp
  moreover have "map_option (\<lambda>sc. (sc_jobName sc, sc_everyMs sc, sc_payload sc)) (slotAt w' ''s'' ''mail/hourly'')
      = Some (''mail'', Some 3600000, JNum 7)"
  proof -
    have d: "(numberDef ''mail'', 0, ''hourly'', everyHour) \<in> set (hourly [(0, ''hourly'')])" by (simp add: hourly_def)
    note contents = all [THEN conjunct2, THEN conjunct2, THEN conjunct2, THEN conjunct1, THEN spec, THEN mp, OF r]
    from bspec [OF contents d, unfolded prod.case] obtain rec where
      "declaredBy (\<lambda>d. d) noCron (rc_group ?o) (\<lambda>w. int (wd_step w)) (numberDef ''mail'', 0::nat, ''hourly'', everyHour) rec"
      and at_key: "slotAt w' ''s'' (sc_key rec) = Some (settledRecord rec (slotAt (worldOf oldSchedule) ''s'' (sc_key rec)))"
      by blast
    then have "sc_key rec = ''mail/hourly''" "sc_jobName rec = ''mail''" "sc_everyMs rec = Some 3600000" "sc_payload rec = JNum 7"
      by (simp_all add: numberDef_def everyHour_def)
    with at_key show ?thesis by (simp add: settledRecord_def split: option.split)
  qed
  ultimately show ?thesis using run r \<open>forked = []\<close> by simp
qed

text \<open>C30: Two objects that name one store break this. The entries are grouped by the identity of the
  objects, so the prune for each object removes from the store what was declared through the other
  one: after a reconciliation that returns, neither schedule exists, although both were declared.\<close>

theorem aliased_store_keys_prune_each_other:
  fixes options :: "(world, 'k, 'd) reconcile_options"
  assumes "sparesSchedules lk" "faultless lk" "neat w"
    and "rc_schedules options = map (declaredEntry toMillis cron lk nm clock) decls" "orderly options"
    and "rc_removal options = Some RemoveGroup" "rc_removeAfter options = None"
    and "a \<in> set (rc_schedules options)" "b \<in> set (rc_schedules options)"
    and "sn_store a \<noteq> sn_store b" "nm (sn_store a) = n" "nm (sn_store b) = n"
  shows "\<exists>w'. reconcile (\<lambda>k. memService lk (nm k)) options w = (Returned [], w')
    \<and> slotAt w' n (entryId a) = None \<and> slotAt w' n (entryId b) = None"
proof -
  let ?g = "rc_group options" and ?es = "rc_schedules options"
  have up: "list_all (upsertsInto lk nm) ?es" using declared_upserts assms(4) by metis
  obtain u w' where run: "reconcile (\<lambda>k. memService lk (nm k)) options w = (Returned u, w')"
    using orderly_returns [OF assms(2) up assms(5)] by blast
  from assms(1,3) up run show ?thesis
  proof (cases rule: reconcile_spec)
    case (returned m w1)
    then have y: "pruneAll RemoveGroup ?g (\<lambda>k. memService lk (nm k)) m w1 = (Returned (), w')" and u: "u = []"
      using assms(6,7) by (simp_all add: orElse_def)
    have n1: "neat w1" using returned(2) by (simp add: ownsOnly_def)
    note pr = pruneAll_spec [OF assms(1) n1 y]
    have ids: "entryId x = entryId y \<Longrightarrow> x = y" if "x \<in> set ?es" "y \<in> set ?es" for x y
      using assms(5) that by (auto simp: orderly_def distinct_map dest: inj_onD)
    have gone: "slotAt w' n (entryId x) = None"
      if x: "x \<in> set ?es" and z: "z \<in> set ?es" and xz: "sn_store x \<noteq> sn_store z" "nm (sn_store x) = n" "nm (sn_store z) = n" for x z
    proof -
      obtain D where D: "(sn_store z, D) \<in> set m" using tallied(1) [OF returned(1)] z by force
      have "entryId x \<notin> set D" using tallied(2) [OF returned(1) D] ids x xz(1) by auto
      with pr D xz(3) have out: "\<not> inGroup ?g w' n (entryId x)" by fastforce
      have "inGroup ?g w1 n (entryId x)" using returned(3) x xz(2) by (auto simp: keysAt_def)
      with out have "slotAt w' n (entryId x) \<noteq> slotAt w1 n (entryId x)" by (auto simp: inGroup_def)
      then show ?thesis using pr by metis
    qed
    show ?thesis using run u gone [OF assms(8,9,10,11,12)] gone [OF assms(9,8) assms(10)[symmetric] assms(12,11)] by blast
  qed blast+
qed

theorem aliased_store_keys_prune_each_other_witness:
  "\<exists>w'. reconcile (\<lambda>k. memService (directLink (\<lambda>n. int n)) ''s'')
       (hourlyGroup (directLink (\<lambda>n. int n)) (\<lambda>_. ''s'') [(0, ''a''), (1, ''b'')]) (worldOf emptyStore) = (Returned [], w')
     \<and> slotAt w' ''s'' ''mail/a'' = None \<and> slotAt w' ''s'' ''mail/b'' = None"
proof -
  let ?lk = "directLink (\<lambda>n. int n)"
  let ?o = "hourlyGroup ?lk (\<lambda>_. ''s'') [(0, ''a''), (1, ''b'')]"
  let ?e = "\<lambda>(k :: nat) key. declaredEntry (\<lambda>d. d) noCron ?lk (\<lambda>_. ''s'') (\<lambda>w. int (wd_step w)) (numberDef ''mail'', k, key, everyHour)"
  have es: "rc_schedules ?o = [?e 0 ''a'', ?e 1 ''b'']" by (simp add: hourlyGroup_def hourly_def)
  have "orderly ?o" unfolding orderly_def es
    by (simp add: hourly_sound hourly_entry del: declaredEntry.simps) (simp add: hourlyGroup_def)
  moreover have "neat (worldOf emptyStore)" by (simp add: neat_def emptyStore_def)
  moreover have "rc_schedules ?o = map (declaredEntry (\<lambda>d. d) noCron ?lk (\<lambda>_. ''s'') (\<lambda>w. int (wd_step w))) (hourly [(0, ''a''), (1, ''b'')])"
    "rc_removal ?o = Some RemoveGroup" "rc_removeAfter ?o = None" by (simp_all add: hourlyGroup_def)
  moreover have "?e 0 ''a'' \<in> set (rc_schedules ?o)" "?e 1 ''b'' \<in> set (rc_schedules ?o)" unfolding es by simp_all
  moreover have "sn_store (?e 0 ''a'') \<noteq> sn_store (?e 1 ''b'')" by (simp add: scheduleEntry_def)
  ultimately have "\<exists>w'. reconcile (\<lambda>k. memService ?lk ''s'') ?o (worldOf emptyStore) = (Returned [], w')
     \<and> slotAt w' ''s'' (entryId (?e 0 ''a'')) = None \<and> slotAt w' ''s'' (entryId (?e 1 ''b'')) = None"
    by (intro aliased_store_keys_prune_each_other [where nm = "\<lambda>_. ''s''", OF direct_spares direct_faultless _ _ _ _ _ _ _ _ refl refl])
  then show ?thesis unfolding hourly_entry by simp
qed

end
