(* ===== verification/RunOutcome.thy ===== *)
theory RunOutcome
  imports RunProps
begin

text \<open>
  The composition of a run and its store: what the exit of a handler makes of the job, read off the
  store after the worker's acknowledgement.
\<close>

section \<open>What an acknowledgement does to the job\<close>




lemma applyKeep_none [simp]: "j_keep j = None \<Longrightarrow> applyKeep j now s = s"
  by (simp add: applyKeep_def keepPolicyFor_def)




section \<open>The outcome of a run\<close>

lemma snapshot_sel [simp]:
  "j_id (snapshot j) = j_id j" "j_name (snapshot j) = j_name j" "j_flow (snapshot j) = j_flow j"
  "j_payload (snapshot j) = j_payload j" "j_attemptsMade (snapshot j) = j_attemptsMade j"
  "j_attemptsMax (snapshot j) = j_attemptsMax j" "j_backoff (snapshot j) = j_backoff j"
  "j_parent (snapshot j) = j_parent j"
  by (simp_all add: snapshot_def)

lemma pulseForParent_failures [simp]: "wk_failures (pulseForParent l r k) = wk_failures k"
  by (simp add: pulseForParent_def fireRelayPulse_def)

lemma runOutcome_Retry:
  assumes "runOutcome lib entry record ex = Retry d x"
  obtains c where "ex = ExitFailure c" "\<not> unrecoverableExit lib entry ex"
    "j_attemptsMade record + 1 < j_attemptsMax record" "d = backoffDelayMs (j_backoff record) (j_attemptsMade record + 1)"
  using assms by (auto simp: runOutcome_def routeFailure_def Let_def split: prod.splits exit.splits if_splits)










end
