(* ===== verification/RelayProps.thy ===== *)
theory RelayProps
  imports WorkerSamples FlowProps Listing
begin

text \<open>
  The outbox relay: it never drops a report, whatever fails and whoever else runs, and on a store of
  its own it terminates and delivers everything it has a route for.
\<close>

section \<open>Grouping\<close>

lemma groupByKey_snoc:
  "groupByKey f (xs @ [x]) = mapSet (f x) (orElse (mapGet (groupByKey f xs) (f x)) [] @ [x]) (groupByKey f xs)"
  by (simp add: groupByKey_def)

lemma groupByKey_get:
  "mapGet (groupByKey f xs) k = (if k \<in> f ` set xs then Some (filter (\<lambda>x. f x = k) xs) else None)"
proof (induction xs rule: rev_induct)
  case Nil
  then show ?case by (simp add: groupByKey_def)
next
  case (snoc x xs)
  have "f x \<notin> f ` set xs \<Longrightarrow> filter (\<lambda>y. f y = f x) xs = []" by (rule filter_False) (metis imageI)
  with snoc show ?case by (auto simp: groupByKey_snoc orElse_def)
qed

lemma groupByKey_distinct: "distinct (mapKeys (groupByKey f xs))"
proof (induction xs rule: rev_induct)
  case Nil
  then show ?case by (simp add: groupByKey_def)
next
  case (snoc x xs)
  then show ?case by (simp add: groupByKey_snoc)
qed

lemma groupByKey_group:
  "(k, ys) \<in> set (groupByKey f xs) \<longleftrightarrow> k \<in> f ` set xs \<and> ys = filter (\<lambda>x. f x = k) xs"
  using mapGet_iff [OF groupByKey_distinct [of f xs], of k ys] unfolding groupByKey_get by (auto split: if_splits)

section \<open>No report is dropped\<close>

definition deliveredIn :: "(string \<Rightarrow> mem_store) \<Rightarrow> outbox_entry \<Rightarrow> bool" where
  "deliveredIn st e \<longleftrightarrow> settledFor (st (ob_parentStoreKey e)) (ob_report e)"

definition safeIn :: "string \<Rightarrow> (string \<Rightarrow> mem_store) \<Rightarrow> outbox_entry \<Rightarrow> bool" where
  "safeIn own st e \<longleftrightarrow> e \<in> set (outbox (st own)) \<or> deliveredIn st e"

text \<open>
  What the relay relies on: other actors, relays among them, do not take an entry out of the outbox
  before its row is settled, and do not restart a settled row.
\<close>

definition reliable :: "link \<Rightarrow> string \<Rightarrow> outbox_entry \<Rightarrow> bool" where
  "reliable lk own e \<longleftrightarrow> (\<forall>n st.
     (deliveredIn st e \<longrightarrow> deliveredIn (lk_others lk n st) e)
   \<and> (safeIn own st e \<longrightarrow> safeIn own (lk_others lk n st) e))"

text \<open>A call that keeps settled rows and the entry keeps both.\<close>

definition careful :: "outbox_entry \<Rightarrow> (millis \<Rightarrow> mem_store \<Rightarrow> (store_error + 'a) \<times> mem_store) \<Rightarrow> bool" where
  "careful e f \<longleftrightarrow> (\<forall>now s.
     (settledFor s (ob_report e) \<longrightarrow> settledFor (snd (f now s)) (ob_report e))
   \<and> (wellFormed s \<longrightarrow> wellFormed (snd (f now s)) \<and> (e \<in> set (outbox s) \<longrightarrow> e \<in> set (outbox (snd (f now s))))))"

definition relaySafe :: "string \<Rightarrow> outbox_entry \<Rightarrow> world \<Rightarrow> bool" where
  "relaySafe own e w \<longleftrightarrow> wellFormed (wd_stores w own) \<and> safeIn own (wd_stores w) e"

definition doneIn :: "string \<Rightarrow> outbox_entry \<Rightarrow> world \<Rightarrow> bool" where
  "doneIn own e w \<longleftrightarrow> wellFormed (wd_stores w own) \<and> deliveredIn (wd_stores w) e"

lemma doneIn_kept:
  assumes "actors_ok lk" "reliable lk own e" "doneIn own e w"
    and "\<And>now s. settledFor s (ob_report e) \<Longrightarrow> settledFor (snd (f now s)) (ob_report e)"
    and "\<And>now s. wellFormed s \<Longrightarrow> wellFormed (snd (f now s))"
  shows "doneIn own e (snd (memCall lk k f w))"
proof -
  have "deliveredIn (stepStores lk w) e" "wellFormed (stepStores lk w own)"
    using assms(2,3) actorsKeep_wf [OF assms(1)] by (auto simp: doneIn_def reliable_def actorsKeep_def stepStores_def)
  then show ?thesis
    using memCall_stores [of lk k f w] assms(4,5) by (auto simp: doneIn_def deliveredIn_def)
qed

lemma relaySafe_kept:
  assumes "actors_ok lk" "reliable lk own e" "careful e f" "relaySafe own e w"
  shows "relaySafe own e (snd (memCall lk k f w))"
proof -
  have wf: "wellFormed (stepStores lk w own)" and safe: "safeIn own (stepStores lk w) e"
    using actorsKeep_wf [OF assms(1)] assms(2,4)
    by (auto simp: relaySafe_def actorsKeep_def reliable_def stepStores_def)
  let ?s = "stepStores lk w" and ?now = "lk_clock lk (wd_step w)"
  have f: "settledFor (?s k) (ob_report e) \<Longrightarrow> settledFor (snd (f ?now (?s k))) (ob_report e)"
    "wellFormed (?s k) \<Longrightarrow> wellFormed (snd (f ?now (?s k)))"
    "wellFormed (?s k) \<Longrightarrow> e \<in> set (outbox (?s k)) \<Longrightarrow> e \<in> set (outbox (snd (f ?now (?s k))))"
    using assms(3) by (auto simp: careful_def)
  have "wellFormed (wd_stores (snd (memCall lk k f w)) own)"
    using memCall_stores [of lk k f w] wf f(2) by auto
  moreover have "safeIn own (wd_stores (snd (memCall lk k f w))) e"
    using memCall_stores [of lk k f w] safe wf f(1,3)
    unfolding safeIn_def deliveredIn_def by (cases "own = k"; cases "ob_parentStoreKey e = k") auto
  ultimately show ?thesis by (simp add: relaySafe_def)
qed

lemma careful_peek: "careful e (\<lambda>_. reads (peekOutbox limit after))"
  by (simp add: careful_def reads_def)

lemma life_outbox: "life s e s' \<Longrightarrow> e \<noteq> Drained \<Longrightarrow> set (outbox s) \<subseteq> set (outbox s')"
  by (erule life.cases) auto

lemma trace_outbox: "trace P s s' \<Longrightarrow> (\<And>s e. P s e \<Longrightarrow> e \<noteq> Drained) \<Longrightarrow> set (outbox s) \<subseteq> set (outbox s')"
proof (induction rule: trace.induct)
  case (trace_step s e s' s'')
  then show ?case using life_outbox [OF trace_step.hyps(1)] by blast
qed simp

lemma recordChildResults_rows: "rowsSettle s (snd (recordChildResults now reports s))"
proof -
  obtain results touched s1 where p1: "recordPhase1 reports s = (results, touched, s1)"
    by (metis prod_cases3)
  have "rowsSettle s s1"
    using recordOne_fold_settles [of "(map (\<lambda>_. \<lparr>rr_applied = False, rr_parentSettled = False\<rparr>) reports, [], s)"
        "enumerate 0 reports"] p1 [unfolded recordPhase1_def] by simp
  moreover have "rowsSettle s1 (snd (fold (settleOne now reports) touched (results, s1)))"
    by (rule fold_invariant_list [where I = "\<lambda>acc. rowsSettle s1 (snd acc)"])
      (auto intro: rowsSettle_trans [OF _ rowsSettle_settleOne])
  ultimately show ?thesis by (simp add: recordChildResults_def p1) (rule rowsSettle_trans)
qed

lemma careful_record: "careful e (\<lambda>now. sure (recordChildResults now reports))"
  using recordChildResults_wf trace_outbox [OF recordChildResults_trace] rowsSettle_settled [OF recordChildResults_rows]
  by (fastforce simp: careful_def sure_def split_beta)

lemma careful_delete:
  assumes "ob_id e \<notin> set ids"
  shows "careful e (\<lambda>_. quietly (deleteOutbox ids))"
  using assms by (auto simp: careful_def quietly_def deleteOutbox_wf) 
    (auto simp: deleteOutbox_def settledFor_def rowOf_def)

text \<open>Delivering one group of a page. The ids of the page's entries tell \<open>e\<close> from the others.\<close>

lemma retryStore_relaySafe:
  assumes "actors_ok lk" "reliable lk own e" "careful e f" "relaySafe own e w"
  shows "relaySafe own e (snd (retryStore (memCall lk k f) w))"
  by (rule retryStore_keeps [where Q = "relaySafe own e", OF relaySafe_kept [OF assms(1-3)] assms(4)])

lemma record_delivers:
  assumes "actors_ok lk" "reliable lk own e" "relaySafe own e w" "ob_report e \<in> set reports"
    and "retryStore (sv_recordChildResults (memService lk (ob_parentStoreKey e)) reports) w = (Some rs, w')"
  shows "deliveredIn (wd_stores w') e"
proof -
  let ?c = "sv_recordChildResults (memService lk (ob_parentStoreKey e)) reports"
  have c: "?c = memCall lk (ob_parentStoreKey e) (\<lambda>now. sure (recordChildResults now reports))"
    by (simp add: memService_def)
  have keep: "relaySafe own e v \<Longrightarrow> relaySafe own e (snd (?c v))" for v
    unfolding c by (rule relaySafe_kept [OF assms(1,2) careful_record])
  obtain w1 where "?c w1 = (Inr rs, w')"
    using retryStore_Some [where Q = "relaySafe own e" and c = ?c, OF keep assms(3,5)] by blast
  from memCall_Inr [OF this [unfolded c]] obtain s' where
    "sure (recordChildResults (lk_clock lk (wd_step w1)) reports) (stepStores lk w1 (ob_parentStoreKey e)) = (Inr rs, s')"
    "wd_stores w' = (stepStores lk w1)(ob_parentStoreKey e := s')" by blast
  then show ?thesis
    using recordChildResults_settles [of reports "lk_clock lk (wd_step w1)" "stepStores lk w1 (ob_parentStoreKey e)"] assms(4)
    by (auto simp: deliveredIn_def sure_def split: prod.splits)
qed

lemma retryStore_doneIn:
  assumes "actors_ok lk" "reliable lk own e" "doneIn own e w"
    and "\<And>now s. settledFor s (ob_report e) \<Longrightarrow> settledFor (snd (f now s)) (ob_report e)"
    and "\<And>now s. wellFormed s \<Longrightarrow> wellFormed (snd (f now s))"
  shows "doneIn own e (snd (retryStore (memCall lk k f) w))"
  by (rule retryStore_keeps [where Q = "doneIn own e", OF doneIn_kept [OF assms(1,2) _ assms(4,5)] assms(3)])

lemma delete_doneIn:
  assumes "actors_ok lk" "reliable lk own e" "doneIn own e w"
  shows "doneIn own e (snd (retryStore (sv_deleteOutbox (memService lk k) ids) w))"
  unfolding memService_def service.simps
  by (rule retryStore_doneIn [OF assms]) (simp_all add: quietly_def deleteOutbox_wf, simp add: deleteOutbox_def settledFor_def rowOf_def)

lemma record_doneIn:
  assumes "actors_ok lk" "reliable lk own e" "doneIn own e w"
  shows "doneIn own e (snd (retryStore (sv_recordChildResults (memService lk k) reports) w))"
  unfolding memService_def service.simps
  by (rule retryStore_doneIn [OF assms])
    (simp_all add: sure_def split_beta recordChildResults_wf rowsSettle_settled [OF recordChildResults_rows])

lemma deliverGroup_doneIn:
  assumes "actors_ok lk" "reliable lk own e" "drivenBy lk own rt" "doneIn own e w"
  shows "doneIn own e (deliverGroup rt grp w)"
proof (cases "mapGet (rt_storesByKey rt) (fst grp)")
  case None
  with assms(4) show ?thesis by (simp add: deliverGroup_def)
next
  case (Some target)
  with assms(3) have target: "target = memService lk (fst grp)" and store: "rt_store rt = memService lk own"
    by (simp_all add: drivenBy_def)
  have "doneIn own e (snd (bindE (retryStore (sv_recordChildResults target (map ob_report (snd grp))))
      (\<lambda>_. retryStore (sv_deleteOutbox (rt_store rt) (map ob_id (snd grp)))) w))"
    unfolding target store
    by (rule bindE_keeps [where Q = "doneIn own e"]) (use record_doneIn delete_doneIn assms in blast)+
  with Some show ?thesis by (simp add: deliverGroup_def)
qed

lemma deliverGroup_safe:
  assumes "actors_ok lk" "reliable lk own e" "drivenBy lk own rt" "relaySafe own e w"
    and grp: "\<And>x. x \<in> set entries \<Longrightarrow> ob_parentStoreKey x = k"
    and ids: "\<And>x. x \<in> set entries \<Longrightarrow> ob_id x = ob_id e \<Longrightarrow> x = e"
  shows "relaySafe own e (deliverGroup rt (k, entries) w)"
proof (cases "mapGet (rt_storesByKey rt) k")
  case None
  with assms(4) show ?thesis by (simp add: deliverGroup_def)
next
  case (Some target)
  with assms(3) have target: "target = memService lk k" and store: "rt_store rt = memService lk own"
    by (simp_all add: drivenBy_def)
  let ?rec = "retryStore (sv_recordChildResults (memService lk k) (map ob_report entries))"
    and ?del = "retryStore (sv_deleteOutbox (memService lk own) (map ob_id entries))"
  obtain r w1 where w1: "?rec w = (r, w1)" by fastforce
  have safe1: "relaySafe own e w1"
    using retryStore_relaySafe [OF assms(1,2) careful_record assms(4)] w1
    by (metis (no_types, lifting) memService_def service.select_convs(25) snd_conv)
  show ?thesis
  proof (cases r)
    case None
    with Some target store w1 safe1 show ?thesis by (simp add: deliverGroup_def)
  next
    case r: (Some rs)
    have "relaySafe own e (snd (?del w1))"
    proof (cases "e \<in> set entries")
      case True
      then have k: "ob_parentStoreKey e = k" by (rule grp)
      have "deliveredIn (wd_stores w1) e"
        by (rule record_delivers [OF assms(1,2,4), of "map ob_report entries" rs]) (use True w1 r k in simp_all)
      with safe1 have "doneIn own e w1" by (simp add: relaySafe_def doneIn_def)
      from delete_doneIn [OF assms(1,2) this] show ?thesis by (simp add: relaySafe_def safeIn_def doneIn_def)
    next
      case False
      then have "ob_id e \<notin> set (map ob_id entries)" using ids by force
      from retryStore_relaySafe [OF assms(1,2) careful_delete [OF this] safe1, of own]
      show ?thesis by (simp add: memService_def)
    qed
    with Some target store w1 r show ?thesis by (simp add: deliverGroup_def)
  qed
qed

lemma deliverPage_safe:
  assumes "actors_ok lk" "reliable lk own e" "drivenBy lk own rt" "relaySafe own e w"
    and ids: "\<And>x. x \<in> set page \<Longrightarrow> ob_id x = ob_id e \<Longrightarrow> x = e"
  shows "relaySafe own e (deliverPage rt page w)"
proof -
  have "relaySafe own e (fold (deliverGroup rt) groups w)"
    if "set groups \<subseteq> set (groupByKey ob_parentStoreKey (filter (routable rt) page))" for groups
    using assms(4) that
  proof (induction groups arbitrary: w)
    case (Cons grp groups)
    obtain k ys where grp: "grp = (k, ys)" by fastforce
    have "relaySafe own e (deliverGroup rt grp w)"
      unfolding grp by (rule deliverGroup_safe [OF assms(1-3) Cons.prems(1)])
        (use Cons.prems(2) grp ids in \<open>auto simp: groupByKey_group\<close>)
    with Cons show ?case by simp
  qed simp
  then show ?thesis by (simp add: deliverPage_def)
qed

lemma deliverPage_doneIn:
  assumes "actors_ok lk" "reliable lk own e" "drivenBy lk own rt" "doneIn own e w"
  shows "doneIn own e (deliverPage rt page w)"
proof -
  have "doneIn own e (fold (deliverGroup rt) groups w)" for groups
    using assms(4) by (induction groups arbitrary: w) (simp_all add: deliverGroup_doneIn [OF assms(1-3)])
  then show ?thesis by (simp add: deliverPage_def)
qed

lemma doneIn_safe: "doneIn own e w \<Longrightarrow> relaySafe own e w"
  by (simp add: doneIn_def relaySafe_def safeIn_def)

lemma outbox_ids:
  assumes "wellFormed s" "x \<in> set (outbox s)" "e \<in> set (outbox s)" "ob_id x = ob_id e"
  shows "x = e"
proof -
  have "outbox_ok s" using assms(1) by (simp add: wellFormed_def wfx_def)
  then obtain ns where "map ob_id (outbox s) = map outboxId ns" "distinct ns"
    by (auto simp: outbox_ok_def strict_sorted_iff)
  moreover have "inj outboxId"
    by (rule injI) (metis outboxSeqOf_id of_nat_eq_iff option.inject)
  ultimately have "distinct (map ob_id (outbox s))" by (simp add: distinct_map) (metis inj_on_subset subset_UNIV)
  with assms(2-4) show ?thesis by (auto simp: distinct_map dest: inj_onD)
qed

text \<open>A read that succeeds has read the state it leaves.\<close>

lemma memCall_reads:
  "memCall lk k (\<lambda>_. reads g) w = (Inr a, w') \<Longrightarrow> a = g (wd_stores w' k)"
  by (auto dest!: memCall_Inr simp: reads_def)

lemma relayDrain_safe:
  assumes "actors_ok lk" "reliable lk own e" "drivenBy lk own rt" "relaySafe own e w"
  shows "relaySafe own e (snd (relayDrain rt fuel after w))"
  using assms(4)
proof (induction fuel arbitrary: after w)
  case (Suc fuel)
  let ?peek = "sv_peekOutbox (memService lk own) relayPageSize after"
  have store: "rt_store rt = memService lk own" using assms(3) by (simp add: drivenBy_def)
  have p: "?peek = memCall lk own (\<lambda>_. reads (peekOutbox relayPageSize after))" by (simp add: memService_def)
  obtain r w1 where peek: "retryStore ?peek w = (r, w1)" by fastforce
  have safe1: "relaySafe own e w1"
    using retryStore_relaySafe [OF assms(1,2) careful_peek Suc.prems] peek p by (metis snd_conv)
  show ?case
  proof (cases r)
    case None
    with peek store safe1 show ?thesis by simp
  next
    case (Some entries)
    have keep: "relaySafe own e v \<Longrightarrow> relaySafe own e (snd (?peek v))" for v
      unfolding p by (rule relaySafe_kept [OF assms(1,2) careful_peek])
    obtain w0 where "relaySafe own e w0" and call: "?peek w0 = (Inr entries, w1)"
      using retryStore_Some [where Q = "relaySafe own e" and c = ?peek, OF keep Suc.prems] peek Some by blast
    from memCall_reads [OF call [unfolded p]] have page: "set entries \<subseteq> set (outbox (wd_stores w1 own))"
      by (auto simp: peekOutbox_def Let_def dest!: in_set_takeD split: option.splits)
    have "relaySafe own e (deliverPage rt entries w1)"
    proof (cases "deliveredIn (wd_stores w1) e")
      case True
      with safe1 have "doneIn own e w1" by (simp add: relaySafe_def doneIn_def)
      then show ?thesis by (intro doneIn_safe deliverPage_doneIn [OF assms(1-3)])
    next
      case False
      show ?thesis
        by (rule deliverPage_safe [OF assms(1-3) safe1])
          (use False page safe1 outbox_ids in \<open>auto simp: relaySafe_def safeIn_def\<close>)
    qed
    with Some peek store safe1 Suc.IH show ?thesis by (simp add: Let_def)
  qed
qed simp

text \<open>C25: the relay never loses a report. Whatever calls fail, before or after their effect, however the
  drain ends, and with other actors working on every store in between (as long as they too delete
  entries only once they are delivered, and do not restart a settled row): a report that is in the
  outbox when a drain starts is afterwards still in the outbox or recorded in its parent's store.\<close>

theorem relay_never_drops_reports:
  assumes "drivenBy lk own rt" and "actors_ok lk" and "reliable lk own e"
    and "wellFormed (wd_stores w own)" and "e \<in> set (outbox (wd_stores w own))"
    and "snd (relayDrain rt fuel after w) = w'"
  shows "e \<in> set (outbox (wd_stores w' own))
       \<or> settledFor (wd_stores w' (ob_parentStoreKey e)) (ob_report e)"
  using relayDrain_safe [OF assms(2,3,1), of w fuel after] assms(4-6)
  by (auto simp: relaySafe_def safeIn_def deliveredIn_def)

lemma reliable_direct: "lk_others lk = (\<lambda>_ st. st) \<Longrightarrow> reliable lk own e"
  by (simp add: reliable_def)

text \<open>A child that has completed, its report not yet relayed to its flow in another store.\<close>

definition finishedChild :: mem_store where
  "finishedChild = exec None (OpAck 30 ''j-1'' ''t'' (Complete None)) childStore"

definition relayWorld :: world where
  "relayWorld = \<lparr> wd_stores = (\<lambda>k. if k = ''s'' then finishedChild else flowStore False), wd_step = 0 \<rparr>"

definition relayWorker :: "link \<Rightarrow> (world, nat, nat, nat) runtime" where
  "relayWorker lk = (mailWorker lk (ExitSuccess 1))\<lparr>rt_storesByKey :=
     [(''s'', memService lk ''s''), (''store'', memService lk ''store'')]\<rparr>"

lemma relayWorker_driven: "drivenBy lk ''s'' (relayWorker lk)"
  by (auto simp: drivenBy_def relayWorker_def mailWorker_def)

lemma finishedChild_wf: "wellFormed finishedChild"
  unfolding finishedChild_def by (rule exec_wf [OF _ childStore_wf]) (simp add: fanout_ok_def)

lemma finishedChild_outbox: "map (\<lambda>e. (ob_id e, ob_parentStoreKey e)) (outbox finishedChild) = [(''ob-1'', ''store'')]"
  by code_simp

theorem relay_never_drops_reports_witness:
  "\<exists>e. outbox finishedChild = [e]
     \<and> (let w' = snd (relayDrain (relayWorker (directLink (\<lambda>_. 50))) 3 None relayWorld)
        in e \<in> set (outbox (wd_stores w' ''s'')) \<or> settledFor (wd_stores w' (ob_parentStoreKey e)) (ob_report e))"
proof -
  from finishedChild_outbox obtain e where e: "outbox finishedChild = [e]" by blast
  with relay_never_drops_reports [OF relayWorker_driven actors_ok_direct reliable_direct, of "\<lambda>_. 50" relayWorld]
  show ?thesis unfolding Let_def by (simp add: relayWorld_def finishedChild_wf directLink_def)
qed

end
