(* ===== verification/RelayLive.thy ===== *)
theory RelayLive
  imports RelayProps
begin

text \<open>
  On stores that nobody else uses, over calls that do not fail, a drain of the outbox returns and
  delivers everything the worker has a route for. The measure: the entries behind the cursor and the
  jobs that are not finished, since recording a report may finish a parent, which appends its own.
\<close>

section \<open>How the outbox changes\<close>

definition waitingJobs :: "mem_store \<Rightarrow> nat" where
  "waitingJobs s = card {i. \<exists>j. pendingIn s i j}"

definition outboxStep :: "string set \<Rightarrow> mem_store \<Rightarrow> mem_store \<Rightarrow> bool" where
  "outboxStep ids s s' \<longleftrightarrow> (\<exists>new. outbox s' = filter (\<lambda>x. ob_id x \<notin> ids) (outbox s) @ new
     \<and> length new + waitingJobs s' \<le> waitingJobs s \<and> outboxSeq s \<le> outboxSeq s'
     \<and> (\<forall>x\<in>set new. \<exists>n. ob_id x = outboxId n \<and> outboxSeq s < n))"

definition oldId :: "mem_store \<Rightarrow> string \<Rightarrow> bool" where
  "oldId s i \<longleftrightarrow> (\<exists>n. i = outboxId n \<and> n \<le> outboxSeq s)"

lemma outboxId_eq_iff [simp]: "outboxId a = outboxId b \<longleftrightarrow> a = b"
  using outboxId_inj by blast

lemma outboxStep_refl: "outboxStep {} s s"
  by (auto simp: outboxStep_def)

lemma outboxStep_trans:
  assumes "outboxStep A s s1" "outboxStep B s1 s2" "\<And>i. i \<in> B \<Longrightarrow> oldId s i"
  shows "outboxStep (A \<union> B) s s2"
proof -
  obtain n1 where 1: "outbox s1 = filter (\<lambda>x. ob_id x \<notin> A) (outbox s) @ n1"
    "length n1 + waitingJobs s1 \<le> waitingJobs s" "outboxSeq s \<le> outboxSeq s1"
    "\<And>x. x \<in> set n1 \<Longrightarrow> \<exists>n. ob_id x = outboxId n \<and> outboxSeq s < n"
    using assms(1) by (auto simp: outboxStep_def)
  obtain n2 where 2: "outbox s2 = filter (\<lambda>x. ob_id x \<notin> B) (outbox s1) @ n2"
    "length n2 + waitingJobs s2 \<le> waitingJobs s1" "outboxSeq s1 \<le> outboxSeq s2"
    "\<And>x. x \<in> set n2 \<Longrightarrow> \<exists>n. ob_id x = outboxId n \<and> outboxSeq s1 < n"
    using assms(2) by (auto simp: outboxStep_def)
  have "filter (\<lambda>x. ob_id x \<notin> B) n1 = n1"
    by (rule filter_True) (use 1(4) assms(3) in \<open>fastforce simp: oldId_def\<close>)
  then have "outbox s2 = filter (\<lambda>x. ob_id x \<notin> A \<union> B) (outbox s) @ (n1 @ n2)"
    unfolding 2(1) 1(1) by (simp add: conj_commute)
  moreover have "\<exists>n. ob_id x = outboxId n \<and> outboxSeq s < n" if "x \<in> set (n1 @ n2)" for x
    using that 1(3,4) 2(4) by fastforce
  ultimately show ?thesis
    unfolding outboxStep_def using 1(2,3) 2(2,3) by (intro exI [of _ "n1 @ n2"]) auto
qed

text \<open>Recording reports.\<close>

lemma pending_finite: "finite {i. \<exists>j. pendingIn s i j}"
  by (rule finite_subset [of _ "set (mapKeys (jobs s))"])
    (auto simp: pendingIn_def dest!: mapGet_in intro: rev_image_eqI)

lemma life_waiting:
  assumes "life s e s'" "ordinary e"
  shows "(\<exists>j. pendingIn s' i j) \<Longrightarrow> (\<exists>j. pendingIn s i j)"
  using assms stateOfTerminal_terminal
  by (cases rule: life.cases)
    (auto simp: ordinary_def pendingIn_def changes_def promoteJob_state split: if_splits)

lemma trace_waiting:
  assumes "trace P s s'" "\<And>s e. P s e \<Longrightarrow> ordinary e" "\<exists>j. pendingIn s' i j"
  shows "\<exists>j. pendingIn s i j"
  using assms
proof (induction rule: trace.induct)
  case (trace_step s e s' s'')
  then show ?case using life_waiting [OF trace_step.hyps(1)] by blast
qed

lemma finishEntries_length: "length (finishEntries fs) \<le> length fs"
proof (induction fs)
  case (Cons f fs)
  obtain i n j t where "f = (i, n, j, t)" by (metis prod_cases4)
  with Cons show ?case by (auto simp: finishEntries_def reportOf_def split: option.split)
qed (simp add: finishEntries_def)

lemma record_ordinary: "permitted (OpRecordChildResults now rs) s e \<Longrightarrow> ordinary e"
  by (cases e) (auto simp: ordinary_def)

lemma record_waiting:
  assumes "wellFormed s" "s' = snd (recordChildResults now rs s)"
  shows "\<exists>new. outbox s' = outbox s @ new \<and> length new + waitingJobs s' \<le> waitingJobs s"
proof -
  note tr = recordChildResults_trace [OF assms(1), of now rs, folded assms(2)]
  obtain fs where fs: "finishedBetween s s' fs"
    using trace_finished [OF tr] record_ordinary by blast
  let ?P = "\<lambda>s. {i. \<exists>j. pendingIn s i j}"
  have "set (map fst fs) = ?P s - ?P s'" using fs unfolding finishedBetween_def by auto
  moreover have "?P s' \<subseteq> ?P s" using trace_waiting [OF tr] record_ordinary by blast
  ultimately have "card (set (map fst fs)) = waitingJobs s - waitingJobs s'" "waitingJobs s' \<le> waitingJobs s"
    unfolding waitingJobs_def using card_Diff_subset [OF pending_finite] card_mono [OF pending_finite] by metis+
  moreover have "card (set (map fst fs)) = length fs"
    using fs distinct_card [of "map fst fs"] by (simp add: finishedBetween_def del: set_map)
  ultimately show ?thesis
    using fs finishEntries_length [of fs] by (intro exI [of _ "finishEntries fs"]) (auto simp: finishedBetween_def)
qed

text \<open>New entries are numbered after all old ones.\<close>

definition outboxGrows :: "mem_store \<Rightarrow> mem_store \<Rightarrow> bool" where
  "outboxGrows s s' \<longleftrightarrow> outboxSeq s \<le> outboxSeq s' \<and> (\<exists>new. outbox s' = outbox s @ new
     \<and> (\<forall>x\<in>set new. \<exists>n. ob_id x = outboxId n \<and> outboxSeq s < n))"

lemma outboxGrows_same: "outbox s' = outbox s \<Longrightarrow> outboxSeq s' = outboxSeq s \<Longrightarrow> outboxGrows s s'"
  by (simp add: outboxGrows_def)

lemma outboxGrows_trans: "outboxGrows s s1 \<Longrightarrow> outboxGrows s1 s2 \<Longrightarrow> outboxGrows s s2"
  unfolding outboxGrows_def by (elim conjE exE, intro conjI exI) (simp, fastforce+)

lemma applyKeep_outbox [simp]:
  "outbox (applyKeep j now s) = outbox s" "outboxSeq (applyKeep j now s) = outboxSeq s"
proof -
  have "outbox (fold pruneUnlessOwing xs s) = outbox s \<and> outboxSeq (fold pruneUnlessOwing xs s) = outboxSeq s" for xs
    by (rule fold_invariant_list [where I = "\<lambda>s'. outbox s' = outbox s \<and> outboxSeq s' = outboxSeq s"])
      (auto simp: pruneUnlessOwing_def)
  then show "outbox (applyKeep j now s) = outbox s" "outboxSeq (applyKeep j now s) = outboxSeq s"
    by (simp_all add: applyKeep_def split: option.split)
qed

lemma outboxGrows_append: "outboxGrows s (appendOutbox j t s)"
  by (auto simp: outboxGrows_def appendOutbox_def split: option.split)

lemma outboxGrows_settleOne: "outboxGrows (snd acc) (snd (settleOne now rs e acc))"
proof -
  have "outboxGrows s (failParent k now p s)" for k p s
  proof -
    let ?j = "recordAttempt AFailed now None
            ((fst (settleMarkRows p s))\<lparr>j_cancelRequested := False, j_state := Failed, j_finishedAt := Some now,
               j_failedReason := Some (''effect-mq: flow child '' @ [CHR 0x22] @ k @ [CHR 0x22] @ '' failed'')\<rparr>)"
    let ?s = "putJob ?j (snd (settleMarkRows p s))"
    have "outboxGrows s ?s" by (rule outboxGrows_same) simp_all
    moreover have "outboxGrows (appendOutbox ?j TFailed ?s) (failParent k now p s)"
      by (rule outboxGrows_same) (simp_all add: failParent_def Let_def split_beta)
    ultimately show ?thesis using outboxGrows_append outboxGrows_trans by blast
  qed
  moreover have "outboxGrows s (resumeParent now p s)" for p s
    by (rule outboxGrows_same) (simp_all add: resumeParent_def Let_def)
  moreover have "outboxGrows s s" for s by (rule outboxGrows_same) simp_all
  ultimately show ?thesis by (simp add: settleOne_def split: prod.split option.split)
qed

lemma recordOne_outbox:
  "outbox (snd (snd (recordOne e acc))) = outbox (snd (snd acc))
   \<and> outboxSeq (snd (snd (recordOne e acc))) = outboxSeq (snd (snd acc))"
  by (cases acc; cases e)
    (simp add: recordOne_applied applyReport_def setRow_def countOnParent_def split: option.split)

lemma record_grows: "outboxGrows s (snd (recordChildResults now rs s))"
proof -
  obtain results touched s1 where p1: "recordPhase1 rs s = (results, touched, s1)" by (metis prod_cases3)
  have "outbox s1 = outbox s \<and> outboxSeq s1 = outboxSeq s"
    using fold_invariant_list [where I = "\<lambda>acc. outbox (snd (snd acc)) = outbox s \<and> outboxSeq (snd (snd acc)) = outboxSeq s"
      and f = recordOne] recordOne_outbox p1 unfolding recordPhase1_def by (metis snd_conv)
  moreover have "outboxGrows s1 (snd (fold (settleOne now rs) touched (results, s1)))"
    by (rule fold_invariant_list [where I = "\<lambda>acc. outboxGrows s1 (snd acc)"])
      (auto intro: outboxGrows_trans [OF _ outboxGrows_settleOne] outboxGrows_same)
  ultimately show ?thesis
    by (simp add: recordChildResults_def p1) (blast intro: outboxGrows_trans outboxGrows_same)
qed

lemma record_step:
  assumes "wellFormed s"
  shows "outboxStep {} s (snd (recordChildResults now rs s))"
  using record_waiting [OF assms refl, of now rs] record_grows [of s now rs]
  by (auto simp: outboxStep_def outboxGrows_def)

lemma delete_step: "outboxStep (set ids) s (deleteOutbox ids s)"
  by (auto simp: outboxStep_def deleteOutbox_def waitingJobs_def pendingIn_def)

section \<open>A page\<close>

definition later :: "world \<Rightarrow> string \<Rightarrow> mem_store \<Rightarrow> world" where
  "later w k s = \<lparr>wd_stores = (wd_stores w)(k := s), wd_step = wd_step w + 1\<rparr>"

lemma deliverGroup_direct:
  assumes "drivenBy (directLink clock) own rt" "mapHas (rt_storesByKey rt) k"
  shows "\<exists>now. let w1 = later w k (snd (recordChildResults now (map ob_report ys) (wd_stores w k)))
    in deliverGroup rt (k, ys) w = later w1 own (deleteOutbox (map ob_id ys) (wd_stores w1 own))"
proof -
  obtain sv where sv: "mapGet (rt_storesByKey rt) k = Some sv" using assms(2) by blast
  with assms(1) have t: "sv = memService (directLink clock) k" "rt_store rt = memService (directLink clock) own"
    by (simp_all add: drivenBy_def)
  let ?now = "clock (wd_step w)"
  let ?w1 = "later w k (snd (recordChildResults ?now (map ob_report ys) (wd_stores w k)))"
  have "retryStore (sv_recordChildResults sv (map ob_report ys)) w =
      (Some (fst (recordChildResults ?now (map ob_report ys) (wd_stores w k))), ?w1)"
    by (rule retryStore_Inr) (simp add: t memService_def direct_call sure_def later_def split_beta)
  moreover have "retryStore (sv_deleteOutbox (rt_store rt) (map ob_id ys)) v =
      (Some (), later v own (deleteOutbox (map ob_id ys) (wd_stores v own)))" for v
    by (rule retryStore_Inr) (simp add: t memService_def direct_call quietly_def later_def)
  ultimately show ?thesis by (intro exI [of _ ?now]) (simp add: deliverGroup_def sv Let_def)
qed

lemma later_sel [simp]: "wd_stores (later w k s) k' = (if k' = k then s else wd_stores w k')"
  by (simp add: later_def)

lemma deliverGroup_step:
  assumes "drivenBy (directLink clock) own rt" "mapHas (rt_storesByKey rt) k" "wellFormed (wd_stores w own)"
    and "\<And>x. x \<in> set ys \<Longrightarrow> oldId (wd_stores w own) (ob_id x)"
  shows "outboxStep (ob_id ` set ys) (wd_stores w own) (wd_stores (deliverGroup rt (k, ys) w) own)"
    and "wellFormed (wd_stores (deliverGroup rt (k, ys) w) own)"
proof -
  let ?s = "wd_stores w own"
  obtain now where d: "let w1 = later w k (snd (recordChildResults now (map ob_report ys) (wd_stores w k)))
    in deliverGroup rt (k, ys) w = later w1 own (deleteOutbox (map ob_id ys) (wd_stores w1 own))"
    using deliverGroup_direct [OF assms(1,2)] by blast
  let ?s1 = "if own = k then snd (recordChildResults now (map ob_report ys) ?s) else ?s"
  have s': "wd_stores (deliverGroup rt (k, ys) w) own = deleteOutbox (map ob_id ys) ?s1"
    using d by (simp add: Let_def)
  have "outboxStep {} ?s ?s1" by (cases "own = k") (use record_step [OF assms(3)] outboxStep_refl in auto)
  have "outboxStep ({} \<union> set (map ob_id ys)) ?s (deleteOutbox (map ob_id ys) ?s1)"
    by (rule outboxStep_trans [OF \<open>outboxStep {} ?s ?s1\<close> delete_step]) (use assms(4) in auto)
  then show "outboxStep (ob_id ` set ys) ?s (wd_stores (deliverGroup rt (k, ys) w) own)" unfolding s' by simp
  show "wellFormed (wd_stores (deliverGroup rt (k, ys) w) own)"
    unfolding s' using assms(3) by (cases "own = k") (auto simp: deleteOutbox_wf recordChildResults_wf)
qed

lemma oldId_step: "outboxStep ids s s' \<Longrightarrow> oldId s i \<Longrightarrow> oldId s' i"
  by (auto simp: outboxStep_def oldId_def intro: le_trans)

lemma groups_step:
  assumes "drivenBy (directLink clock) own rt" "wellFormed (wd_stores w own)"
    and "\<And>k ys x. (k, ys) \<in> set groups \<Longrightarrow> x \<in> set ys \<Longrightarrow> oldId (wd_stores w own) (ob_id x)"
    and "\<And>k ys. (k, ys) \<in> set groups \<Longrightarrow> mapHas (rt_storesByKey rt) k"
  shows "outboxStep (\<Union>(k, ys)\<in>set groups. ob_id ` set ys) (wd_stores w own)
      (wd_stores (fold (deliverGroup rt) groups w) own)
    \<and> wellFormed (wd_stores (fold (deliverGroup rt) groups w) own)"
  using assms(2-4)
proof (induction groups arbitrary: w)
  case Nil
  then show ?case by (simp add: outboxStep_refl)
next
  case (Cons grp groups)
  obtain k ys where grp: "grp = (k, ys)" by fastforce
  have old: "x \<in> set ys \<Longrightarrow> oldId (wd_stores w own) (ob_id x)" for x using Cons.prems(2) [of k ys x] grp by simp
  have has: "mapHas (rt_storesByKey rt) k" using Cons.prems(3) [of k ys] grp by simp
  note one = deliverGroup_step [OF assms(1) has Cons.prems(1), of ys, OF old]
  let ?w = "deliverGroup rt (k, ys) w"
  have "outboxStep (\<Union>(k, ys)\<in>set groups. ob_id ` set ys) (wd_stores ?w own) (wd_stores (fold (deliverGroup rt) groups ?w) own)
    \<and> wellFormed (wd_stores (fold (deliverGroup rt) groups ?w) own)"
  proof (rule Cons.IH [OF one(2)])
    fix k' ys' x assume "(k', ys') \<in> set groups" "x \<in> set ys'"
    then show "oldId (wd_stores ?w own) (ob_id x)" using Cons.prems(2) [of k' ys' x] oldId_step [OF one(1)] by simp
  next
    fix k' ys' assume "(k', ys') \<in> set groups"
    then show "mapHas (rt_storesByKey rt) k'" using Cons.prems(3) [of k' ys'] by simp
  qed
  moreover from this have "outboxStep (ob_id ` set ys \<union> (\<Union>(k, ys)\<in>set groups. ob_id ` set ys)) (wd_stores w own)
      (wd_stores (fold (deliverGroup rt) groups ?w) own)"
    by (intro outboxStep_trans [OF one(1)]) (use Cons.prems(2) in fastforce)+
  ultimately show ?case by (simp add: grp)
qed

lemma page_step:
  assumes "drivenBy (directLink clock) own rt" "wellFormed (wd_stores w own)" "set page \<subseteq> set (outbox (wd_stores w own))"
  shows "outboxStep (ob_id ` {x \<in> set page. routable rt x}) (wd_stores w own) (wd_stores (deliverPage rt page w) own)"
    and "wellFormed (wd_stores (deliverPage rt page w) own)"
proof -
  let ?g = "groupByKey ob_parentStoreKey (filter (routable rt) page)"
  have "outbox_ok (wd_stores w own)" using assms(2) by (simp add: wellFormed_def wfx_def)
  then have old: "x \<in> set page \<Longrightarrow> oldId (wd_stores w own) (ob_id x)" for x
    using assms(3) by (auto simp: oldId_def elim: outbox_entry_id)
  have has: "(k, ys) \<in> set ?g \<Longrightarrow> mapHas (rt_storesByKey rt) k" for k ys
    by (auto simp: groupByKey_group routable_def)
  have "(k, ys) \<in> set ?g \<Longrightarrow> x \<in> set ys \<Longrightarrow> oldId (wd_stores w own) (ob_id x)" for k ys x
    using old by (auto simp: groupByKey_group)
  from groups_step [OF assms(1,2) this has, of ?g]
  have "outboxStep (\<Union>(k, ys)\<in>set ?g. ob_id ` set ys) (wd_stores w own) (wd_stores (deliverPage rt page w) own)
    \<and> wellFormed (wd_stores (deliverPage rt page w) own)"
    by (simp add: deliverPage_def)
  moreover have "(\<Union>(k, ys)\<in>set ?g. ob_id ` set ys) = ob_id ` {x \<in> set page. routable rt x}"
  proof (rule equalityI; rule subsetI)
    fix i assume "i \<in> (\<Union>(k, ys)\<in>set ?g. ob_id ` set ys)"
    then show "i \<in> ob_id ` {x \<in> set page. routable rt x}" by (auto simp: groupByKey_group)
  next
    fix i assume "i \<in> ob_id ` {x \<in> set page. routable rt x}"
    then obtain x where x: "x \<in> set page" "routable rt x" "i = ob_id x" by blast
    let ?k = "ob_parentStoreKey x"
    have "(?k, filter (\<lambda>y. ob_parentStoreKey y = ?k) (filter (routable rt) page)) \<in> set ?g"
      unfolding groupByKey_group using x by auto
    with x show "i \<in> (\<Union>(k, ys)\<in>set ?g. ob_id ` set ys)" by fastforce
  qed
  ultimately show "outboxStep (ob_id ` {x \<in> set page. routable rt x}) (wd_stores w own) (wd_stores (deliverPage rt page w) own)"
    and "wellFormed (wd_stores (deliverPage rt page w) own)" by (simp_all only:)
qed

lemma group_delivers:
  assumes "drivenBy (directLink clock) own rt" "mapHas (rt_storesByKey rt) (ob_parentStoreKey e)" "e \<in> set ys"
  shows "deliveredIn (wd_stores (deliverGroup rt (ob_parentStoreKey e, ys) w)) e"
proof -
  let ?k = "ob_parentStoreKey e"
  obtain now where d: "let w1 = later w ?k (snd (recordChildResults now (map ob_report ys) (wd_stores w ?k)))
    in deliverGroup rt (?k, ys) w = later w1 own (deleteOutbox (map ob_id ys) (wd_stores w1 own))"
    using deliverGroup_direct [OF assms(1,2)] by blast
  have "settledFor (snd (recordChildResults now (map ob_report ys) (wd_stores w ?k))) (ob_report e)"
    using recordChildResults_settles [of "map ob_report ys" now "wd_stores w ?k"] assms(3) by simp
  moreover have "settledFor (deleteOutbox ids s) r = settledFor s r" for ids s r
    by (simp add: settledFor_def rowOf_def deleteOutbox_def)
  ultimately show ?thesis using d by (cases "?k = own") (auto simp: Let_def deliveredIn_def)
qed

lemma page_delivers:
  assumes "drivenBy (directLink clock) own rt" "wellFormed (wd_stores w own)" "set page \<subseteq> set (outbox (wd_stores w own))"
    and "e \<in> set page" "routable rt e"
  shows "deliveredIn (wd_stores (deliverPage rt page w)) e"
proof -
  let ?g = "groupByKey ob_parentStoreKey (filter (routable rt) page)" and ?k = "ob_parentStoreKey e"
  let ?ys = "filter (\<lambda>y. ob_parentStoreKey y = ?k) (filter (routable rt) page)"
  have "(?k, ?ys) \<in> set ?g" unfolding groupByKey_group using assms(4,5) by auto
  then obtain g1 g2 where g: "?g = g1 @ (?k, ?ys) # g2" by (meson split_list)
  have groups: "x \<in> set ys \<Longrightarrow> x \<in> set page \<and> routable rt x \<and> ob_parentStoreKey x = k" if "(k, ys) \<in> set ?g" for k ys x
    using that by (auto simp: groupByKey_group)
  have ok: "outbox_ok (wd_stores w own)" using assms(2) by (simp add: wellFormed_def wfx_def)
  let ?w1 = "fold (deliverGroup rt) g1 w" and ?fl = "directLink clock"
  have has: "(k, ys) \<in> set ?g \<Longrightarrow> mapHas (rt_storesByKey rt) k" for k ys
    by (auto simp: groupByKey_group routable_def)
  have paged: "x \<in> set page \<Longrightarrow> oldId (wd_stores w own) (ob_id x)" for x
    using assms(3) by (auto simp: oldId_def elim: outbox_entry_id [OF ok])
  have old: "(k, ys) \<in> set ?g \<Longrightarrow> x \<in> set ys \<Longrightarrow> oldId (wd_stores w own) (ob_id x)" for k ys x
    using groups [of k ys x] paged by blast
  have step1: "outboxStep (\<Union>(k, ys)\<in>set g1. ob_id ` set ys) (wd_stores w own) (wd_stores ?w1 own) \<and> wellFormed (wd_stores ?w1 own)"
  proof (rule groups_step [OF assms(1,2)])
    fix k ys x assume "(k, ys) \<in> set g1" "x \<in> set ys"
    then show "oldId (wd_stores w own) (ob_id x)" using old [of k ys x] g by simp
  next
    fix k ys assume "(k, ys) \<in> set g1"
    then show "mapHas (rt_storesByKey rt) k" using has [of k ys] g by simp
  qed
  let ?w2 = "deliverGroup rt (?k, ?ys) ?w1"
  have "wellFormed (wd_stores ?w2 own)"
    by (rule deliverGroup_step(2) [OF assms(1)])
      (use step1 assms(5) old [of ?k ?ys] oldId_step \<open>(?k, ?ys) \<in> set ?g\<close> in \<open>auto simp: routable_def\<close>)
  moreover have "deliveredIn (wd_stores ?w2) e"
    by (rule group_delivers [OF assms(1)]) (use assms(4,5) in \<open>auto simp: routable_def\<close>)
  ultimately have fin: "doneIn own e ?w2" by (simp add: doneIn_def)
  have rel: "reliable ?fl own e" by (simp add: reliable_direct directLink_def)
  have "doneIn own e (fold (deliverGroup rt) groups v)" if "doneIn own e v" for groups v
    using that by (induction groups arbitrary: v) (simp_all add: deliverGroup_doneIn [OF actors_ok_direct rel assms(1)])
  from this [OF fin, of g2] show ?thesis by (simp add: deliverPage_def g doneIn_def)
qed

section \<open>The drain\<close>

lemma relayDrain_direct:
  assumes "drivenBy (directLink clock) own rt"
  shows "\<exists>w1. wd_stores w1 = wd_stores w \<and> relayDrain rt (Suc n) c w =
     (let entries = peekOutbox relayPageSize c (wd_stores w own)
      in if entries = [] then (Some (Some ()), w1)
         else if length entries < 500 then (Some (Some ()), deliverPage rt entries w1)
         else relayDrain rt n (Some (ob_id (last entries))) (deliverPage rt entries w1))"
proof -
  let ?entries = "peekOutbox relayPageSize c (wd_stores w own)"
  let ?w1 = "\<lparr>wd_stores = wd_stores w, wd_step = wd_step w + 1\<rparr>"
  have "retryStore (sv_peekOutbox (rt_store rt) relayPageSize c) w = (Some ?entries, ?w1)"
    by (rule retryStore_Inr) (use assms in \<open>simp add: drivenBy_def memService_def direct_call reads_def\<close>)
  then show ?thesis by (intro exI [of _ ?w1]) (auto simp: Let_def relayPageSize_def)
qed

text \<open>What a drain from a cursor on has done when it returns.\<close>

definition drained :: "(world, 'v, 'c, 'e) runtime \<Rightarrow> string \<Rightarrow> outbox_entry set \<Rightarrow> world \<Rightarrow> world \<Rightarrow> bool" where
  "drained rt own behind w w' \<longleftrightarrow>
     (\<forall>e\<in>behind. routable rt e \<longrightarrow> e \<notin> set (outbox (wd_stores w' own)) \<and> deliveredIn (wd_stores w') e)
   \<and> (\<forall>e. oldId (wd_stores w own) (ob_id e) \<longrightarrow> e \<notin> set (outbox (wd_stores w own)) \<longrightarrow> e \<notin> set (outbox (wd_stores w' own)))
   \<and> (\<forall>e\<in>set (outbox (wd_stores w own)). \<not> routable rt e \<longrightarrow> e \<in> set (outbox (wd_stores w' own)))"

lemma relayDrain_doneIn:
  assumes "actors_ok lk" "reliable lk own e" "drivenBy lk own rt" "doneIn own e w"
  shows "doneIn own e (snd (relayDrain rt fuel after w))"
  using assms(4)
proof (induction fuel arbitrary: after w)
  case (Suc fuel)
  have store: "rt_store rt = memService lk own" using assms(3) by (simp add: drivenBy_def)
  obtain r w1 where peek: "retryStore (sv_peekOutbox (memService lk own) relayPageSize after) w = (r, w1)" by fastforce
  have "doneIn own e (snd (retryStore (sv_peekOutbox (memService lk own) relayPageSize after) w))"
    unfolding memService_def service.simps by (rule retryStore_doneIn [OF assms(1,2) Suc.prems]) (simp_all add: reads_def)
  with peek have d1: "doneIn own e w1" by simp
  show ?case
  proof (cases r)
    case None
    with peek store d1 show ?thesis by simp
  next
    case (Some entries)
    with peek store d1 Suc.IH deliverPage_doneIn [OF assms(1-3) d1] show ?thesis by (simp add: Let_def)
  qed
qed simp

lemma page_effects:
  assumes "drivenBy (directLink clock) own rt" "wellFormed (wd_stores w own)" "set page \<subseteq> set (outbox (wd_stores w own))"
  shows "drained rt own (set page) w (deliverPage rt page w)"
    and "e \<in> set (outbox (wd_stores w own)) \<Longrightarrow> e \<notin> set page \<Longrightarrow> e \<in> set (outbox (wd_stores (deliverPage rt page w) own))"
proof -
  let ?s = "wd_stores w own" and ?s2 = "wd_stores (deliverPage rt page w) own" and ?ids = "ob_id ` {x \<in> set page. routable rt x}"
  obtain new where new: "outbox ?s2 = filter (\<lambda>x. ob_id x \<notin> ?ids) (outbox ?s) @ new"
    "\<And>x. x \<in> set new \<Longrightarrow> \<exists>n. ob_id x = outboxId n \<and> outboxSeq ?s < n"
    using page_step(1) [OF assms] by (auto simp: outboxStep_def)
  have fresh: "oldId ?s (ob_id e) \<Longrightarrow> e \<notin> set new" for e
    using new(2) by (fastforce simp: oldId_def)
  have ok: "outbox_ok ?s" using assms(2) by (simp add: wellFormed_def wfx_def)
  have old: "e \<in> set page \<Longrightarrow> oldId ?s (ob_id e)" for e
    using assms(3) by (auto simp: oldId_def elim: outbox_entry_id [OF ok])
  have other: "e \<in> set (outbox ?s) \<Longrightarrow> ob_id e \<in> ?ids \<Longrightarrow> e \<in> set page \<and> routable rt e" for e
  proof -
    assume e: "e \<in> set (outbox ?s)" and "ob_id e \<in> ?ids"
    then obtain x where x: "x \<in> set page" "routable rt x" "ob_id e = ob_id x" by auto
    then have "e = x" using outbox_ids [OF assms(2) e, of x] assms(3) by blast
    with x show "e \<in> set page \<and> routable rt e" by simp
  qed
  show "drained rt own (set page) w (deliverPage rt page w)"
    unfolding drained_def
  proof (intro conjI ballI allI impI)
    fix e assume "e \<in> set page" "routable rt e"
    then show "e \<notin> set (outbox ?s2)" "deliveredIn (wd_stores (deliverPage rt page w)) e"
      using new(1) fresh old page_delivers [OF assms] by auto
  next
    fix e assume "oldId ?s (ob_id e)" "e \<notin> set (outbox ?s)"
    then show "e \<notin> set (outbox ?s2)" using new(1) fresh by auto
  next
    fix e assume "e \<in> set (outbox ?s)" "\<not> routable rt e"
    with other have "ob_id e \<notin> ?ids" by blast
    with \<open>e \<in> set (outbox ?s)\<close> show "e \<in> set (outbox ?s2)" unfolding new(1) by simp
  qed
  assume e: "e \<in> set (outbox ?s)" "e \<notin> set page"
  with other have "ob_id e \<notin> ?ids" by blast
  with e(1) show "e \<in> set (outbox ?s2)" unfolding new(1) by simp
qed

lemma filter_part_length: "length (filter P (filter Q xs @ ys)) \<le> length (filter P xs) + length ys"
proof -
  have "filter P (filter Q xs) = filter Q (filter P xs)" by (simp add: filter_filter conj_commute)
  then show ?thesis using length_filter_le [of Q "filter P xs"] length_filter_le [of P ys] by (simp del: length_filter_le)
qed

lemma drain_returns:
  assumes "drivenBy (directLink clock) own rt" "wellFormed (wd_stores w own)" "outboxIssued (wd_stores w own) c"
    and "length (outboxRest (wd_stores w own) c) + waitingJobs (wd_stores w own) < fuel"
  shows "\<exists>w'. relayDrain rt fuel c w = (Some (Some ()), w')
    \<and> drained rt own (set (outboxRest (wd_stores w own) c)) w w'"
  using assms(2-4)
proof (induction fuel arbitrary: c w)
  case (Suc n)
  let ?s = "wd_stores w own"
  obtain w1 where w1: "wd_stores w1 = wd_stores w" and run: "relayDrain rt (Suc n) c w =
     (let entries = peekOutbox relayPageSize c ?s
      in if entries = [] then (Some (Some ()), w1)
         else if length entries < 500 then (Some (Some ()), deliverPage rt entries w1)
         else relayDrain rt n (Some (ob_id (last entries))) (deliverPage rt entries w1))"
    using relayDrain_direct [OF assms(1)] by blast
  have ok: "outbox_ok ?s" using Suc.prems(1) by (simp add: wellFormed_def wfx_def)
  define entries where "entries = peekOutbox relayPageSize c ?s"
  have entries: "entries = take 500 (outboxRest ?s c)"
    by (simp add: entries_def peekOutbox_eq [OF ok Suc.prems(2)] relayPageSize_def)
  have page: "set entries \<subseteq> set (outbox (wd_stores w1 own))"
    unfolding w1 entries by (auto simp: outboxRest_def dest!: in_set_takeD)
  have wf1: "wellFormed (wd_stores w1 own)" using Suc.prems(1) w1 by simp
  have trans: "drained rt own B w1 x = drained rt own B w x" for B x by (simp add: drained_def w1)
  let ?w2 = "deliverPage rt entries w1"
  note eff = page_effects [OF assms(1) wf1 page] and step = page_step [OF assms(1) wf1 page]
  consider (none) "entries = []" | (last) "entries \<noteq> []" "length entries < 500" | (more) "\<not> length entries < 500" by blast
  then show ?case
  proof cases
    case none
    then have "outboxRest ?s c = []" using entries by (simp add: take_eq_Nil)
    with none run w1 show ?thesis by (simp add: entries_def [symmetric] drained_def)
  next
    case last
    then have "outboxRest ?s c = entries" using entries by auto
    with last run eff(1) show ?thesis by (simp add: entries_def [symmetric] trans)
  next
    case more
    let ?c = "ob_id (last entries)"
    have "peekOutbox 500 c ?s = entries" by (simp add: entries_def relayPageSize_def)
    then have "outboxFetch ?s c = (entries, Some ?c)" using more by (simp add: outboxFetch_def)
    from os.more_pages [OF Suc.prems(1,2) this] have rest: "outboxRest ?s c = entries @ outboxRest ?s (Some ?c)"
      and issued: "outboxIssued ?s (Some ?c)" by auto
    obtain new where new: "outbox (wd_stores ?w2 own) = filter (\<lambda>x. ob_id x \<notin> ob_id ` {x \<in> set entries. routable rt x}) (outbox ?s) @ new"
      "length new + waitingJobs (wd_stores ?w2 own) \<le> waitingJobs ?s"
      using step(1) w1 by (auto simp: outboxStep_def)
    have "length (outboxRest (wd_stores ?w2 own) (Some ?c)) \<le> length (outboxRest ?s (Some ?c)) + length new"
      unfolding outboxRest_def new(1) by (rule filter_part_length)
    then have "length (outboxRest (wd_stores ?w2 own) (Some ?c)) + waitingJobs (wd_stores ?w2 own) < n"
      using new(2) rest Suc.prems(3) more by simp
    moreover have "outboxIssued (wd_stores ?w2 own) (Some ?c)" using issued by (simp add: outboxIssued_def)
    ultimately obtain w' where w': "relayDrain rt n (Some ?c) ?w2 = (Some (Some ()), w')"
      "drained rt own (set (outboxRest (wd_stores ?w2 own) (Some ?c))) ?w2 w'"
      using Suc.IH [OF step(2)] by blast
    have "drained rt own (set (outboxRest ?s c)) w w'"
      unfolding drained_def
    proof (intro conjI ballI allI impI)
      fix e assume e: "e \<in> set (outboxRest ?s c)" and route: "routable rt e"
      show "e \<notin> set (outbox (wd_stores w' own))"
      proof (cases "e \<in> set entries")
        case True
        with eff(1) route have "e \<notin> set (outbox (wd_stores ?w2 own))" by (auto simp: drained_def)
        moreover have "oldId (wd_stores ?w2 own) (ob_id e)"
        proof (rule oldId_step [OF step(1)])
          have "e \<in> set (outbox ?s)" using True page w1 by auto
          then show "oldId (wd_stores w1 own) (ob_id e)" by (auto simp: oldId_def w1 elim: outbox_entry_id [OF ok])
        qed
        ultimately show ?thesis using w'(2) by (simp add: drained_def)
      next
        case False
        with e have r: "e \<in> set (outboxRest ?s (Some ?c))" using rest by simp
        then have "e \<in> set (outbox (wd_stores w1 own))" by (simp add: outboxRest_def w1)
        from eff(2) [OF this False] r have "e \<in> set (outboxRest (wd_stores ?w2 own) (Some ?c))"
          by (simp add: outboxRest_def)
        with w'(2) route show ?thesis by (simp add: drained_def)
      qed
      show "deliveredIn (wd_stores w') e"
      proof (cases "e \<in> set entries")
        case True
        with eff(1) route step(2) have "doneIn own e ?w2" by (simp add: drained_def doneIn_def)
        moreover have "reliable (directLink clock) own e" by (simp add: reliable_direct directLink_def)
        ultimately have "doneIn own e (snd (relayDrain rt n (Some ?c) ?w2))"
          by (intro relayDrain_doneIn [OF actors_ok_direct _ assms(1)])
        with w'(1) show ?thesis by (simp add: doneIn_def)
      next
        case False
        with e have r: "e \<in> set (outboxRest ?s (Some ?c))" using rest by simp
        then have "e \<in> set (outbox (wd_stores w1 own))" by (simp add: outboxRest_def w1)
        from eff(2) [OF this False] r have "e \<in> set (outboxRest (wd_stores ?w2 own) (Some ?c))"
          by (simp add: outboxRest_def)
        with w'(2) route show ?thesis by (simp add: drained_def)
      qed
    next
      fix e assume "oldId ?s (ob_id e)" "e \<notin> set (outbox ?s)"
      then have "oldId (wd_stores ?w2 own) (ob_id e)" "e \<notin> set (outbox (wd_stores ?w2 own))"
        using oldId_step [OF step(1)] eff(1) by (simp_all add: drained_def w1)
      with w'(2) show "e \<notin> set (outbox (wd_stores w' own))" by (simp add: drained_def)
    next
      fix e assume "e \<in> set (outbox ?s)" "\<not> routable rt e"
      with eff(1) w'(2) show "e \<in> set (outbox (wd_stores w' own))" by (simp add: drained_def w1)
    qed
    moreover have "entries \<noteq> []" using more by auto
    ultimately show ?thesis using w'(1) more run
      by (intro exI [of _ w']) (simp add: entries_def [symmetric])
  qed
qed simp

lemma waitingJobs_le: "waitingJobs s \<le> length (jobs s)"
proof -
  have "{i. \<exists>j. pendingIn s i j} \<subseteq> set (mapKeys (jobs s))"
    by (auto simp: pendingIn_def dest!: mapGet_in intro: rev_image_eqI)
  then have "waitingJobs s \<le> card (set (mapKeys (jobs s)))" unfolding waitingJobs_def by (intro card_mono) auto
  also have "\<dots> \<le> length (jobs s)" using card_length [of "mapKeys (jobs s)"] by simp
  finally show ?thesis .
qed

text \<open>C26: a drain of the outbox returns, and delivers everything it can. On stores that nobody else
  uses, over calls that do not fail, with fuel for one page per entry and unfinished job (each page
  takes 500 entries off, and each entry that is added on the way comes from a parent that finished):
  every report the worker has a route for is recorded in its parent's store and gone from the outbox,
  also when parent and child share the store; entries without a route stay, and block nothing.\<close>

theorem relay_delivers_everything_routable:
  assumes "drivenBy (directLink clock) own rt" and "wellFormed (wd_stores w own)"
    and "length (outbox (wd_stores w own)) + waitingJobs (wd_stores w own) < fuel"
  shows "\<exists>w'. relayDrain rt fuel None w = (Some (Some ()), w')
    \<and> (\<forall>e \<in> set (outbox (wd_stores w own)).
         if routable rt e
         then e \<notin> set (outbox (wd_stores w' own)) \<and> settledFor (wd_stores w' (ob_parentStoreKey e)) (ob_report e)
         else e \<in> set (outbox (wd_stores w' own)))"
proof -
  have rest: "outboxRest (wd_stores w own) None = outbox (wd_stores w own)" by (simp add: outboxRest_def outboxAfter_def)
  from drain_returns [OF assms(1,2), of None fuel] assms(3) obtain w' where
    "relayDrain rt fuel None w = (Some (Some ()), w')" "drained rt own (set (outbox (wd_stores w own))) w w'"
    by (auto simp: rest outboxIssued_def)
  then show ?thesis by (intro exI [of _ w']) (simp add: drained_def deliveredIn_def)
qed

theorem relay_delivers_everything_routable_witness:
  "\<exists>w' e. relayDrain (relayWorker (directLink (\<lambda>_. 50))) 5 None relayWorld = (Some (Some ()), w')
     \<and> outbox finishedChild = [e] \<and> e \<notin> set (outbox (wd_stores w' ''s''))
     \<and> settledFor (wd_stores w' ''store'') (ob_report e)"
proof -
  have s: "wd_stores relayWorld ''s'' = finishedChild" by (simp add: relayWorld_def)
  have "length (jobs finishedChild) = 1" by code_simp
  with waitingJobs_le [of finishedChild] finishedChild_outbox
  have "length (outbox finishedChild) + waitingJobs finishedChild < 5" by (auto simp: map_eq_Cons_conv)
  with relay_delivers_everything_routable [OF relayWorker_driven [of "directLink (\<lambda>_. 50)"], of relayWorld 5] s finishedChild_wf
  obtain w' where w': "relayDrain (relayWorker (directLink (\<lambda>_. 50))) 5 None relayWorld = (Some (Some ()), w')"
    "\<forall>e \<in> set (outbox finishedChild). if routable (relayWorker (directLink (\<lambda>_. 50))) e
         then e \<notin> set (outbox (wd_stores w' ''s'')) \<and> settledFor (wd_stores w' (ob_parentStoreKey e)) (ob_report e)
         else e \<in> set (outbox (wd_stores w' ''s''))" by auto
  from finishedChild_outbox obtain e where e: "outbox finishedChild = [e]" "ob_parentStoreKey e = ''store''"
    by (auto simp: map_eq_Cons_conv)
  then have "routable (relayWorker (directLink (\<lambda>_. 50))) e" by (simp add: routable_def relayWorker_def mapHas_key)
  with w' e show ?thesis by auto
qed

end
