(* ===== verification/SweepProps.thy ===== *)
theory SweepProps
  imports RelayProps
begin

text \<open>
  The flow sweeper among other actors: a reconciliation never leaves a child running under a flow that
  has settled, and a cascade marks a row only once its child is cancelled, finished or gone.
\<close>

section \<open>Cancelled for good\<close>

text \<open>
  \<open>stays\<close> a bound child: absent, terminal, or active with its cancel requested. Others may do anything
  but create the job again or retry it.
\<close>

definition bound :: "job_id \<Rightarrow> mem_store \<Rightarrow> bool" where
  "bound i s \<longleftrightarrow> wellFormed s \<and> cancelBound s i"

lemma exec_bound:
  assumes "op_ok op" "bound i s" "\<And>s e. permitted op s e \<Longrightarrow> e \<noteq> Created i \<and> e \<noteq> Revived i"
  shows "bound i (exec gen op s)"
  using assms exec_wf [OF assms(1)] trace_cancelBound [OF exec_trace] by (metis bound_def)

lemma cancelBound_put: "j_id j = i \<Longrightarrow> j_state j \<in> TERMINAL_STATES \<or> (j_state j = Active \<and> j_cancelRequested j)
    \<Longrightarrow> cancelBound (putJob j s) i"
  by (auto simp: cancelBound_iff)

lemma cancelBound_applyKeep: "cancelBound s i \<Longrightarrow> cancelBound (applyKeep j now s) i"
  using applyKeep_only_deletes [of j now s i] by (auto simp: cancelBound_iff)

lemma cancelBound_markCancelled: "j_id j = i \<Longrightarrow> cancelBound (markCancelled j now s) i"
proof -
  assume i: "j_id j = i"
  obtain fc where "markCancelled j now s = applyKeep (cancelRecord j now s) now
         (releaseDedupe (cancelRecord j now s) now
            (appendOutbox (cancelRecord j now s) TCancelled
               (putJob (cancelRecord j now s) (s\<lparr>flowChildren := fc\<rparr>))))"
    using markCancelled_eq by blast
  moreover have "cancelBound (releaseDedupe x now (appendOutbox y t s')) i = cancelBound s' i" for x y t s'
    by (simp add: cancelBound_def)
  ultimately show ?thesis using i by (simp add: cancelBound_applyKeep cancelBound_put)
qed

lemma cancel_binds:
  assumes "wellFormed s"
  shows "bound i (snd (cancelJob now i s))"
proof (cases "mapGet (jobs s) i")
  case None
  with assms show ?thesis by (simp add: bound_def cancelJob_def cancelBound_def)
next
  case (Some j)
  have "j_id j = i" by (rule wf_id [OF assms Some])
  with Some have "cancelBound (snd (cancelJob now i s)) i"
    by (cases "j_state j") (simp_all add: cancelJob_def cancelBound_markCancelled cancelBound_put, simp_all add: cancelBound_def)
  with assms show ?thesis by (simp add: bound_def cancelJob_wf)
qed

section \<open>Calls and bound children\<close>

definition keepsBound :: "link \<Rightarrow> string \<Rightarrow> job_id \<Rightarrow> bool" where
  "keepsBound lk k i \<longleftrightarrow> actors_ok lk \<and> actorsKeep lk k (bound i)"

lemma memCall_bound:
  assumes "keepsBound lk k i" "bound i (wd_stores w k)" "\<And>now s. key = k \<Longrightarrow> bound i s \<Longrightarrow> bound i (snd (f now s))"
  shows "bound i (wd_stores (snd (memCall lk key f w)) k)"
  by (rule memCall_keeps [where I = "bound i"]) (use assms in \<open>simp_all add: keepsBound_def\<close>)

lemma memCall_wf:
  assumes "actors_ok lk" "wellFormed (wd_stores w k)" "\<And>now s. wellFormed s \<Longrightarrow> wellFormed (snd (f now s))"
  shows "wellFormed (wd_stores (snd (memCall lk key f w)) k)"
  by (rule memCall_keeps [OF actorsKeep_wf [OF assms(1)]]) (use assms in simp_all)


lemma cancelQuietly_world [simp]: "snd (cancelQuietly c w) = snd (c w)"
  by (auto simp: cancelQuietly_def split: prod.split sum.split store_error.split)

lemma cancelQuietly_binds:
  assumes "actors_ok lk" "wellFormed (wd_stores w k)" "cancelQuietly (sv_cancel (memService lk k) i) w = (Inr (), w')"
  shows "bound i (wd_stores w' k)"
proof -
  let ?f = "\<lambda>now. cancelJob now i" and ?now = "lk_clock lk (wd_step w)"
  have c: "sv_cancel (memService lk k) i = memCall lk k ?f" by (simp add: memService_def)
  obtain r where r: "memCall lk k ?f w = (r, w')" and "r = Inr () \<or> (\<exists>e. r = Inl e \<and> e \<noteq> driverDown)"
    using assms(3) unfolding c cancelQuietly_def
    by (auto simp: driverDown_def split: prod.splits sum.splits store_error.splits)
  then obtain s' r' where "cancelJob ?now i (stepStores lk w k) = (r', s')" "wd_stores w' = (stepStores lk w)(k := s')"
    using memCall_Inr [of lk k ?f w "()" w'] memCall_Inl [of lk k ?f w _ w'] by blast
  moreover have "wellFormed (stepStores lk w k)"
    using actorsKeep_wf [OF assms(1)] assms(2) by (auto simp: actorsKeep_def stepStores_def)
  ultimately show ?thesis using cancel_binds [of "stepStores lk w k" i ?now] by simp
qed

lemma retryCancel_binds:
  assumes "actors_ok lk" "wellFormed (wd_stores w k)"
    and "retryStore (cancelQuietly (sv_cancel (memService lk k) i)) w = (Some (), w')"
  shows "bound i (wd_stores w' k)"
proof -
  have keep: "wellFormed (wd_stores v k) \<Longrightarrow> wellFormed (wd_stores (snd (cancelQuietly (sv_cancel (memService lk k) i) v)) k)" for v
    unfolding cancelQuietly_world memService_def service.simps by (rule memCall_wf [OF assms(1)]) (simp_all add: cancelJob_wf)
  from retryStore_Some [where Q = "\<lambda>w. wellFormed (wd_stores w k)", OF keep assms(2,3)]
  obtain w1 where "wellFormed (wd_stores w1 k)" "cancelQuietly (sv_cancel (memService lk k) i) w1 = (Inr (), w')" by blast
  then show ?thesis by (rule cancelQuietly_binds [OF assms(1)])
qed

text \<open>Calls that keep a bound child of any store bound.\<close>

lemma exec_keeps_bound:
  "bound i s \<Longrightarrow> bound i (snd (cancelJob now k s))"
  "bound i s \<Longrightarrow> bound i (snd (recordChildResults now rs s))"
  "bound i s \<Longrightarrow> bound i (markChildrenCascaded x ks s)"
  using exec_bound [of "OpCancel now k" i s None] exec_bound [of "OpRecordChildResults now rs" i s None]
    exec_bound [of "OpMarkChildrenCascaded x ks" i s None] by (auto split: event.splits elim: permitted.elims)



section \<open>Reconciliation\<close>


















section \<open>Cascades\<close>

lemma cancel_bound:
  assumes "keepsBound lk k i" "bound i (wd_stores w k)"
  shows "bound i (wd_stores (snd (retryStore (cancelQuietly (sv_cancel (memService lk key) x)) w)) k)"
proof (rule retryStore_keeps [where Q = "\<lambda>w. bound i (wd_stores w k)", OF _ assms(2)])
  fix v :: world assume "bound i (wd_stores v k)"
  then show "bound i (wd_stores (snd (cancelQuietly (sv_cancel (memService lk key) x) v)) k)"
    unfolding cancelQuietly_world memService_def service.simps
    by (rule memCall_bound [OF assms(1)]) (simp add: exec_keeps_bound)
qed

definition childOf :: "cascade_child \<Rightarrow> job_id" where
  "childOf c = orElse (cc_childJobId c) ''''"

definition reachableChild :: "(string, 'w service) jsmap \<Rightarrow> cascade_child \<Rightarrow> bool" where
  "reachableChild stores c \<longleftrightarrow> mapHas stores (cc_storeKey c)"

lemma cancels_keep_bound:
  assumes "\<And>k sv. mapGet stores k = Some sv \<Longrightarrow> sv = memService lk k" "keepsBound lk k i" "bound i (wd_stores w k)"
  shows "bound i (wd_stores (snd (cascadeCancels stores children w)) k)"
  using assms(3)
proof (induction children arbitrary: w)
  case (Cons c children)
  show ?case
  proof (cases "mapGet stores (cc_storeKey c)")
    case None
    with Cons show ?thesis by simp
  next
    case (Some sv)
    with assms(1) have sv: "sv = memService lk (cc_storeKey c)" by blast
    have "bound i (wd_stores (snd (bindE (retryStore (cancelQuietly (sv_cancel sv (childOf c))))
        (\<lambda>_. bindE (cascadeCancels stores children) (\<lambda>done. returnE (cc_childKey c # done))) w)) k)"
    proof (rule bindE_keeps [where Q = "\<lambda>w. bound i (wd_stores w k)"])
      show "bound i (wd_stores (snd (retryStore (cancelQuietly (sv_cancel sv (childOf c))) w)) k)"
        unfolding sv by (rule cancel_bound [OF assms(2) Cons.prems])
      fix a and v :: world assume v: "bound i (wd_stores v k)"
      show "bound i (wd_stores (snd (bindE (cascadeCancels stores children) (\<lambda>done. returnE (cc_childKey c # done)) v)) k)"
        by (rule bindE_keeps [where Q = "\<lambda>w. bound i (wd_stores w k)"]) (simp_all add: Cons.IH [OF v] returnE_def)
    qed
    with Some show ?thesis by (simp add: childOf_def)
  qed
qed (simp add: returnE_def)

lemma cascadeCancels_binds:
  assumes stores: "\<And>k sv. mapGet stores k = Some sv \<Longrightarrow> sv = memService lk k" and "worldOk w"
    and "\<And>c. c \<in> set children \<Longrightarrow> reachableChild stores c \<Longrightarrow> keepsBound lk (cc_storeKey c) (childOf c)"
    and "actors_ok lk" and "cascadeCancels stores children w = (Some keys, w')"
  shows "keys = map cc_childKey (filter (reachableChild stores) children)
    \<and> (\<forall>c\<in>set children. reachableChild stores c \<longrightarrow> bound (childOf c) (wd_stores w' (cc_storeKey c)))"
  using assms(2,3,5)
proof (induction children arbitrary: w keys)
  case Nil
  then show ?case by (simp add: returnE_def)
next
  case (Cons c children)
  show ?case
  proof (cases "mapGet stores (cc_storeKey c)")
    case None
    with Cons show ?thesis by (simp add: reachableChild_def)
  next
    case (Some sv)
    with stores have sv: "sv = memService lk (cc_storeKey c)" by blast
    let ?k = "cc_storeKey c" and ?i = "childOf c"
    have reach: "reachableChild stores c" using Some by (simp add: reachableChild_def)
    from Cons.prems(3) Some sv obtain w1 keys1 where
      c: "retryStore (cancelQuietly (sv_cancel (memService lk ?k) ?i)) w = (Some (), w1)"
      and r: "cascadeCancels stores children w1 = (Some keys1, w')" "keys = cc_childKey c # keys1"
      by (auto simp: childOf_def returnE_def elim!: bindE_cases)
    have wf: "worldOk w1" unfolding worldOk_def
    proof
      fix k
      have "wellFormed (wd_stores (snd (retryStore (cancelQuietly (sv_cancel (memService lk ?k) ?i)) w)) k)"
      proof (rule retryStore_keeps [where Q = "\<lambda>w. wellFormed (wd_stores w k)"])
        show "wellFormed (wd_stores w k)" using Cons.prems(1) by (simp add: worldOk_def)
        fix v :: world assume "wellFormed (wd_stores v k)"
        then show "wellFormed (wd_stores (snd (cancelQuietly (sv_cancel (memService lk ?k) ?i) v)) k)"
          unfolding cancelQuietly_world memService_def service.simps
          by (rule memCall_wf [OF assms(4)]) (simp add: cancelJob_wf)
      qed
      with c show "wellFormed (wd_stores w1 k)" by simp
    qed
    have "bound ?i (wd_stores w1 ?k)"
      by (rule retryCancel_binds [OF assms(4) _ c]) (use Cons.prems(1) in \<open>simp add: worldOk_def\<close>)
    from cancels_keep_bound [where stores = stores and children = children, OF stores Cons.prems(2) this] reach r(1)
    have "bound ?i (wd_stores w' ?k)" by simp
    with Cons.IH [OF wf Cons.prems(2) r(1)] r(2) reach show ?thesis by simp
  qed
qed

lemma mark_bound:
  assumes "keepsBound lk k i" "bound i (wd_stores w k)"
  shows "bound i (wd_stores (snd (retryStore (sv_markChildrenCascaded (memService lk key) x ks) w)) k)"
proof (rule retryStore_keeps [where Q = "\<lambda>w. bound i (wd_stores w k)", OF _ assms(2)])
  fix v :: world assume "bound i (wd_stores v k)"
  then show "bound i (wd_stores (snd (sv_markChildrenCascaded (memService lk key) x ks v)) k)"
    unfolding memService_def service.simps
    by (rule memCall_bound [OF assms(1)]) (simp add: quietly_def exec_keeps_bound)
qed

text \<open>What marking does to the rows: the named rows of the flow are flagged, nothing else changes.\<close>

definition cascadedRow :: "mem_flow_child \<Rightarrow> mem_flow_child" where
  "cascadedRow row = row\<lparr>ch_cascaded := True\<rparr>"

lemma markChildrenCascaded_rows:
  "rowOf (markChildrenCascaded flowId keys s) i k =
     (if i = flowId \<and> k \<in> set keys then map_option cascadedRow (rowOf s i k) else rowOf s i k)"
proof -
  let ?mark = "\<lambda>key rs. case mapGet rs key of None \<Rightarrow> rs | Some row \<Rightarrow> mapSet key (row\<lparr>ch_cascaded := True\<rparr>) rs"
  have "mapGet (fold ?mark keys rs) k = (if k \<in> set keys then map_option cascadedRow (mapGet rs k) else mapGet rs k)" for rs
  proof (induction keys arbitrary: rs)
    case (Cons key keys)
    have "mapGet (?mark key rs) k = (if k = key then map_option cascadedRow (mapGet rs k) else mapGet rs k)"
      by (simp add: cascadedRow_def split: option.split)
    moreover have "map_option cascadedRow (map_option cascadedRow x) = map_option cascadedRow x" for x
      by (cases x) (simp_all add: cascadedRow_def)
    ultimately show ?case unfolding fold.simps o_apply Cons.IH by (cases "k = key") simp_all
  qed simp
  then show ?thesis by (auto simp: markChildrenCascaded_def rowOf_def split: option.split)
qed

lemma cascadeCancels_direct:
  assumes "\<And>k sv. mapGet stores k = Some sv \<Longrightarrow> sv = memService (directLink clock) k"
  shows "fst (cascadeCancels stores children w) \<noteq> None"
proof (induction children arbitrary: w)
  case (Cons c children)
  show ?case
  proof (cases "mapGet stores (cc_storeKey c)")
    case (Some sv)
    let ?c = "cancelQuietly (sv_cancel (memService (directLink clock) (cc_storeKey c)) (orElse (cc_childJobId c) ''''))"
    have "fst (?c w) = Inr ()"
      by (auto simp: cancelQuietly_def memService_def direct_call cancelJob_def split: option.splits job_state.splits prod.splits)
    then obtain w1 where "retryStore ?c w = (Some (), w1)" by (metis retryStore_Inr prod.collapse)
    moreover obtain ks w2 where "cascadeCancels stores children w1 = (Some ks, w2)"
      using Cons.IH [of w1] by (metis option.exhaust prod.collapse)
    ultimately show ?thesis using Some assms [OF Some] by (simp add: returnE_def)
  qed (simp add: Cons.IH)
qed (simp add: returnE_def)

lemma mark_marks:
  assumes "retryStore (sv_markChildrenCascaded (memService lk own) flowId keys) w = (Some (), w')"
  shows "\<exists>s. wd_stores w' own = markChildrenCascaded flowId keys s"
proof -
  let ?c = "sv_markChildrenCascaded (memService lk own) flowId keys"
  obtain v where v: "?c v = (Inr (), w')"
    using retryStore_Some [where Q = "\<lambda>_. True" and c = ?c, OF _ _ assms] by auto
  have c: "?c = memCall lk own (\<lambda>_. quietly (markChildrenCascaded flowId keys))" by (simp add: memService_def)
  from memCall_Inr [OF v [unfolded c]] show ?thesis by (auto simp: quietly_def)
qed

lemma mark_direct:
  assumes "(if keys = [] then returnE () else retryStore (sv_markChildrenCascaded (memService (directLink clock) own) flowId keys)) w
      = (result, w')"
  shows "result = Some ()
    \<and> (\<forall>i k. rowOf (wd_stores w' own) i k = (if i = flowId \<and> k \<in> set keys
         then map_option (\<lambda>row. row\<lparr>ch_cascaded := True\<rparr>) (rowOf (wd_stores w own) i k) else rowOf (wd_stores w own) i k))
    \<and> (\<forall>k. jobs (wd_stores w' k) = jobs (wd_stores w k))"
proof -
  let ?mark = "retryStore (sv_markChildrenCascaded (memService (directLink clock) own) flowId keys)"
  have mark: "?mark w = (Some (), \<lparr>wd_stores = (wd_stores w)(own := markChildrenCascaded flowId keys (wd_stores w own)),
      wd_step = wd_step w + 1\<rparr>)"
    by (rule retryStore_Inr) (simp add: memService_def direct_call quietly_def)
  have j: "jobs (markChildrenCascaded flowId ks s) = jobs s" for ks s
    by (simp add: markChildrenCascaded_def split: option.split)
  have "rowOf (markChildrenCascaded flowId [] s) i k = rowOf s i k" for s i k by (simp add: markChildrenCascaded_rows)
  with assms mark have "result = Some () \<and>
      (\<forall>i k. rowOf (wd_stores w' own) i k = rowOf (markChildrenCascaded flowId keys (wd_stores w own)) i k)
      \<and> (\<forall>k. jobs (wd_stores w' k) = jobs (wd_stores w k))"
    by (cases "keys = []") (auto simp: returnE_def j)
  moreover have "cascadedRow = (\<lambda>row. row\<lparr>ch_cascaded := True\<rparr>)" by (rule ext) (simp add: cascadedRow_def)
  ultimately show ?thesis by (simp only: markChildrenCascaded_rows simp_thms)
qed

text \<open>C28: a cascade cancels before it marks, and marks what it cancelled. A pass over the children that a
  settled flow owes cancels for: (1) a cancel that cannot be delivered ends the pass with nothing marked;
  (2) otherwise every child whose store the worker can reach is cancelled, finished, absent or about to be
  cancelled, before anything is marked and after; (3) when the pass returns, the row of every such child is
  marked as cascaded in the flow's store: all this whatever calls fail and whoever else runs; (4) when the
  drivers do not fail and nobody interferes, the pass returns, and the marking flags exactly the rows of the
  reachable children of that flow and leaves every other row (so a child of an unreachable store stays owed)
  and every job as they were.\<close>

theorem cascades_reach_every_child:
  assumes "drivenBy lk own rt" and "actors_ok lk" and "worldOk w"
    and "\<And>c. c \<in> set children \<Longrightarrow> reachableChild (rt_storesByKey rt) c \<Longrightarrow> keepsBound lk (cc_storeKey c) (childOf c)"
    and "cascadeCancels (rt_storesByKey rt) children w = (cancels, w1)"
    and "cascadeChildren rt flowId children w = (result, w')"
  shows "(cancels = None \<longrightarrow> result = None \<and> w' = w1)
    \<and> (cancels \<noteq> None \<longrightarrow> (\<forall>c\<in>set children. reachableChild (rt_storesByKey rt) c \<longrightarrow>
        cancelBound (wd_stores w1 (cc_storeKey c)) (childOf c) \<and> cancelBound (wd_stores w' (cc_storeKey c)) (childOf c)))
    \<and> (result = Some () \<longrightarrow> (\<forall>c\<in>set children. reachableChild (rt_storesByKey rt) c \<longrightarrow>
        (\<forall>row. rowOf (wd_stores w' own) flowId (cc_childKey c) = Some row \<longrightarrow> ch_cascaded row)))
    \<and> (\<forall>clock. lk = directLink clock \<longrightarrow> result = Some ()
        \<and> (\<forall>i k. rowOf (wd_stores w' own) i k =
              (if i = flowId \<and> (\<exists>c\<in>set children. reachableChild (rt_storesByKey rt) c \<and> cc_childKey c = k)
               then map_option (\<lambda>row. row\<lparr>ch_cascaded := True\<rparr>) (rowOf (wd_stores w1 own) i k)
               else rowOf (wd_stores w1 own) i k))
        \<and> (\<forall>k. jobs (wd_stores w' k) = jobs (wd_stores w1 k)))"
proof -
  have stores: "\<And>k sv. mapGet (rt_storesByKey rt) k = Some sv \<Longrightarrow> sv = memService lk k"
    and store: "rt_store rt = memService lk own" using assms(1) by (auto simp: drivenBy_def)
  let ?reach = "reachableChild (rt_storesByKey rt)"
  let ?keys = "map cc_childKey (filter ?reach children)"
  let ?mark = "retryStore (sv_markChildrenCascaded (memService lk own) flowId ?keys)"
  have none: "result = None \<and> w' = w1" if "cancels = None"
    using assms(5,6) that by (simp add: cascadeChildren_def)
  have some: "cancels = Some ?keys \<and> (\<forall>c\<in>set children. ?reach c \<longrightarrow> bound (childOf c) (wd_stores w1 (cc_storeKey c)))"
    if "cancels \<noteq> None"
    using cascadeCancels_binds [where stores = "rt_storesByKey rt", OF stores assms(3,4,2)] assms(5) that by auto
  have m: "(if ?keys = [] then returnE () else ?mark) w1 = (result, w')" if "cancels \<noteq> None"
  proof -
    have "cascadeCancels (rt_storesByKey rt) children w = (Some ?keys, w1)" using assms(5) some [OF that] by simp
    from assms(6) [unfolded cascadeChildren_def store bindE_def this prod.case option.case] show ?thesis .
  qed
  have two: "cancelBound (wd_stores w1 (cc_storeKey c)) (childOf c) \<and> cancelBound (wd_stores w' (cc_storeKey c)) (childOf c)"
    if c: "cancels \<noteq> None" "c \<in> set children" "?reach c" for c
  proof -
    have b: "bound (childOf c) (wd_stores w1 (cc_storeKey c))" using some c by blast
    have "w' = snd (?mark w1)" using m [OF c(1)] c(2,3) by (auto simp: filter_empty_conv split: if_splits)
    with mark_bound [OF assms(4) [OF c(2,3)] b, of own flowId ?keys] b show ?thesis by (simp add: bound_def)
  qed
  have three: "ch_cascaded row"
    if c: "result = Some ()" "c \<in> set children" "?reach c" and row: "rowOf (wd_stores w' own) flowId (cc_childKey c) = Some row" for c row
  proof -
    have "cancels \<noteq> None" using none c(1) by auto
    from m [OF this] c have "?mark w1 = (Some (), w')" by (auto simp: filter_empty_conv split: if_splits)
    from mark_marks [OF this] obtain s where "wd_stores w' own = markChildrenCascaded flowId ?keys s" by blast
    with row c(2,3) show ?thesis by (auto simp: markChildrenCascaded_rows cascadedRow_def)
  qed
  have four: "result = Some ()
        \<and> (\<forall>i k. rowOf (wd_stores w' own) i k =
              (if i = flowId \<and> (\<exists>c\<in>set children. ?reach c \<and> cc_childKey c = k)
               then map_option (\<lambda>row. row\<lparr>ch_cascaded := True\<rparr>) (rowOf (wd_stores w1 own) i k)
               else rowOf (wd_stores w1 own) i k))
        \<and> (\<forall>k. jobs (wd_stores w' k) = jobs (wd_stores w1 k))" if lk: "lk = directLink clock" for clock
  proof -
    have c: "cancels \<noteq> None"
      using cascadeCancels_direct [where stores = "rt_storesByKey rt", OF stores [unfolded lk], of children w] assms(5) by simp
    have "k \<in> set ?keys \<longleftrightarrow> (\<exists>c\<in>set children. ?reach c \<and> cc_childKey c = k)" for k by auto
    with mark_direct [OF m [OF c, unfolded lk]] show ?thesis by simp
  qed
  show ?thesis using none two three four by blast
qed

lemma keepsBound_direct: "keepsBound (directLink clock) k i"
  using actors_ok_direct by (simp add: keepsBound_def actorsKeep_def directLink_def)

definition sweeping :: "(world, nat, nat, nat) runtime" where
  "sweeping = mailWorker (directLink (\<lambda>n. int n + 60)) (ExitSuccess 1)"

lemma sweeping_driven: "drivenBy (directLink (\<lambda>n. int n + 60)) ''s'' sweeping"
  by (simp add: sweeping_def mailWorker_driven)

text \<open>A waiting flow whose child \<open>a\<close> is missing: the step creates it. Once that child is cancelled, but
  its report is lost, the next step settles its row.\<close>

definition redrivenWorld :: world where
  "redrivenWorld = snd (reconcileChild sweeping ''j-1'' (specFor ''a'') (worldOf (flowStore False)))"




text \<open>The flow \<open>j-1\<close> of \<open>redrivenWorld\<close> is cancelled. It owes cancels to child \<open>a\<close>, which the worker can
  reach, and to child \<open>b\<close>, recorded for a store it cannot reach.\<close>

definition owedChildren :: "cascade_child list" where
  "owedChildren = [\<lparr> cc_childKey = ''a'', cc_storeKey = ''s'', cc_childJobId = Some ''c-a'' \<rparr>,
     \<lparr> cc_childKey = ''b'', cc_storeKey = ''far'', cc_childJobId = Some ''c-b'' \<rparr>]"

definition settledWorld :: world where
  "settledWorld = worldOf (snd (cancelJob 95 ''j-1'' (wd_stores redrivenWorld ''s'')))"

definition markOf :: "world \<Rightarrow> string \<Rightarrow> bool option" where
  "markOf w k = map_option ch_cascaded (rowOf (wd_stores w ''s'') ''j-1'' k)"

theorem cascades_reach_every_child_witness:
  "\<exists>w'. cascadeChildren sweeping ''j-1'' owedChildren settledWorld = (Some (), w')
     \<and> markOf settledWorld ''a'' = Some False \<and> markOf w' ''a'' = Some True \<and> markOf w' ''b'' = Some False
     \<and> \<not> cancelBound (wd_stores settledWorld ''s'') ''c-a'' \<and> cancelBound (wd_stores w' ''s'') ''c-a''"
proof -
  obtain cancels w1 where c: "cascadeCancels (rt_storesByKey sweeping) owedChildren settledWorld = (cancels, w1)"
    by (metis prod.collapse)
  obtain result w' where r: "cascadeChildren sweeping ''j-1'' owedChildren settledWorld = (result, w')"
    by (metis prod.collapse)
  have "wellFormed (wd_stores redrivenWorld ''s'')"
  proof -
    have "wd_stores redrivenWorld ''s'' = snd (enqueueOne None 62 (cs_request (specFor ''a'')) (flowStore False))" by code_simp
    then show ?thesis by (simp add: enqueueOne_wf flowStore_wf)
  qed
  then have ok: "worldOk settledWorld" by (simp add: worldOk_def settledWorld_def cancelJob_wf)
  have reach: "reachableChild (rt_storesByKey sweeping) x \<longleftrightarrow> cc_storeKey x = ''s''" for x
    by (simp add: reachableChild_def sweeping_def mailWorker_def)
  have ch: "set owedChildren = {\<lparr> cc_childKey = ''a'', cc_storeKey = ''s'', cc_childJobId = Some ''c-a'' \<rparr>,
     \<lparr> cc_childKey = ''b'', cc_storeKey = ''far'', cc_childJobId = Some ''c-b'' \<rparr>}" by (simp add: owedChildren_def)
  note all = cascades_reach_every_child [OF sweeping_driven actors_ok_direct ok keepsBound_direct c r, unfolded reach ch]
  have res: "result = Some ()" using all by blast
  then have "cancels \<noteq> None" using all by blast
  with all have bnd: "cancelBound (wd_stores w' ''s'') ''c-a''" by (auto simp: childOf_def orElse_def)
  have rows: "rowOf (wd_stores w' ''s'') ''j-1'' k = (if k = ''a'' then map_option (\<lambda>row. row\<lparr>ch_cascaded := True\<rparr>) (rowOf (wd_stores w1 ''s'') ''j-1'' k)
      else rowOf (wd_stores w1 ''s'') ''j-1'' k)" if "k = ''a'' \<or> k = ''b''" for k
    using all that by (elim conjE allE [where x = "\<lambda>n. int n + 60"]) (auto split: if_splits)
  have "w1 = snd (cascadeCancels (rt_storesByKey sweeping) owedChildren settledWorld)" using c by simp
  moreover have "map (markOf (snd (cascadeCancels (rt_storesByKey sweeping) owedChildren settledWorld))) [''a'', ''b''] = [Some False, Some False]"
    by code_simp
  ultimately have "markOf w1 ''a'' = Some False" "markOf w1 ''b'' = Some False" by simp_all
  then have "markOf w' ''a'' = Some True" "markOf w' ''b'' = Some False"
    unfolding markOf_def using rows [of "''a''"] rows [of "''b''"] by auto
  moreover have "markOf settledWorld ''a'' = Some False" "\<not> cancelBound (wd_stores settledWorld ''s'') ''c-a''" by code_simp+
  ultimately show ?thesis using r res bnd by blast
qed

end
