(* ===== verification/Wakeups.thy ===== *)
theory Wakeups
  imports Safety
begin

text \<open>
  No lost wake-up. A taker that found its queue empty waits with the token of that claim; if anything
  makes a job ready for it, whether before it parks or after, it is woken. Each operation is a quiet
  part, which makes no job ready, followed by at most one signalled part; \<open>wakeStep\<close> is the
  relation both satisfy, and it is transitive.
\<close>

section \<open>Quiet changes\<close>

definition wakeSame :: "mem_store \<Rightarrow> mem_store \<Rightarrow> bool" where
  "wakeSame s s' \<longleftrightarrow> wakeVersion s' = wakeVersion s \<and> lastWake s' = lastWake s
     \<and> lastBroadcast s' = lastBroadcast s \<and> waiters s' = waiters s \<and> resolved s' = resolved s"

definition noGrowth :: "millis \<Rightarrow> mem_store \<Rightarrow> mem_store \<Rightarrow> bool" where
  "noGrowth now s s' \<longleftrightarrow> set (paused s) \<subseteq> set (paused s')
     \<and> (\<forall>k j'. mapGet (jobs s') k = Some j' \<longrightarrow> runnable now j' \<longrightarrow>
          (\<exists>j. mapGet (jobs s) k = Some j \<and> runnable now j \<and> j_queue j = j_queue j' \<and> j_name j = j_name j'))"

definition quietStep :: "millis \<Rightarrow> mem_store \<Rightarrow> mem_store \<Rightarrow> bool" where
  "quietStep now s s' \<longleftrightarrow> wakeSame s s' \<and> noGrowth now s s'"

lemma quiet_refl [simp]: "quietStep now s s"
  by (auto simp: quietStep_def wakeSame_def noGrowth_def)

lemma quiet_trans: "quietStep now s s' \<Longrightarrow> quietStep now s' s'' \<Longrightarrow> quietStep now s s''"
proof -
  assume a: "quietStep now s s'" and b: "quietStep now s' s''"
  have "\<exists>j. mapGet (jobs s) k = Some j \<and> runnable now j \<and> j_queue j = j_queue j2 \<and> j_name j = j_name j2"
    if j2: "mapGet (jobs s'') k = Some j2" "runnable now j2" for k j2
  proof -
    from b j2 obtain j1 where j1: "mapGet (jobs s') k = Some j1" "runnable now j1"
      "j_queue j1 = j_queue j2" "j_name j1 = j_name j2" unfolding quietStep_def noGrowth_def by metis
    with a show ?thesis unfolding quietStep_def noGrowth_def by metis
  qed
  with a b show ?thesis by (auto simp: quietStep_def wakeSame_def noGrowth_def)
qed

lemma noGrowth_ready: "noGrowth now s s' \<Longrightarrow> readyJob now opts s' k \<Longrightarrow> readyJob now opts s k"
  by (fastforce simp: noGrowth_def readyJob_def eligible_def split: option.splits)

lemma quiet_fold:
  "(\<And>x s. quietStep now s (f x s)) \<Longrightarrow> quietStep now s (fold f xs s)"
proof (induction xs arbitrary: s)
  case Nil
  then show ?case by simp
next
  case (Cons x xs)
  have "quietStep now s (f x s)" by (rule Cons.prems)
  moreover have "quietStep now (f x s) (fold f xs (f x s))" by (rule Cons.IH) (rule Cons.prems)
  ultimately show ?case by (simp add: quiet_trans)
qed

lemma quiet_jobs:
  assumes "wakeSame s s'" "jobs s' = jobs s" "set (paused s) \<subseteq> set (paused s')"
  shows "quietStep now s s'"
  using assms by (auto simp: quietStep_def noGrowth_def)

lemma quiet_delete: "quietStep now s (deleteJob i s)"
  by (auto simp: quietStep_def noGrowth_def wakeSame_def mapGet_delete deleteJob_def split: if_splits)

lemma quiet_prune: "quietStep now s (pruneUnlessOwing i s)"
  by (simp add: pruneUnlessOwing_def quiet_delete)

lemma quiet_applyKeep: "quietStep now s (applyKeep j t s)"
  by (simp add: applyKeep_def quiet_fold quiet_prune split: option.split)

text \<open>Writing back a job that is not runnable.\<close>

lemma quiet_put: "\<not> runnable now j \<Longrightarrow> quietStep now s (putJob j s)"
  by (auto simp: quietStep_def noGrowth_def wakeSame_def putJob_def split: if_splits)

lemma quiet_releaseDedupe: "quietStep now s (releaseDedupe j t s)"
  by (rule quiet_jobs) (auto simp: wakeSame_def releaseDedupe_def Let_def split: option.split)

lemma quiet_appendOutbox: "quietStep now s (appendOutbox j x s)"
  by (rule quiet_jobs) (auto simp: wakeSame_def appendOutbox_def split: option.split)

lemma quiet_finish:
  assumes "\<not> runnable now j" "quietStep now s s2"
  shows "quietStep now s (applyKeep j t (releaseDedupe j t (appendOutbox j x (putJob j s2))))"
    and "quietStep now s (releaseDedupe j t (appendOutbox j x (putJob j s2)))"
  using assms quiet_put quiet_appendOutbox quiet_releaseDedupe quiet_applyKeep quiet_trans by metis+

lemma quiet_flowChildren: "quietStep now s (s\<lparr>flowChildren := fc\<rparr>)"
  by (rule quiet_jobs) (simp_all add: wakeSame_def)

lemma quiet_markCancelled: "quietStep now s (markCancelled job t s)"
proof -
  from markCancelled_eq [of job t s] obtain fc where
    eq: "markCancelled job t s = applyKeep (cancelRecord job t s) t
         (releaseDedupe (cancelRecord job t s) t
            (appendOutbox (cancelRecord job t s) TCancelled
               (putJob (cancelRecord job t s) (s\<lparr>flowChildren := fc\<rparr>))))" by blast
  have "\<not> runnable now (cancelRecord job t s)" by (simp add: runnable_def)
  from quiet_finish(1) [OF this quiet_flowChildren] show ?thesis unfolding eq .
qed

lemma quiet_finishJob:
  assumes "st \<in> TERMINAL_STATES"
  shows "quietStep now s (finishJob st oc x ex b t job s)"
  unfolding finishJob_def Let_def
  by (rule quiet_finish(1)) (use assms in \<open>auto simp: runnable_def\<close>)

section \<open>Signals\<close>

definition wakeInv :: "mem_store \<Rightarrow> bool" where
  "wakeInv s \<longleftrightarrow> (\<forall>q. lastWakeFor s q \<le> wakeVersion s)"

definition wakeMono :: "mem_store \<Rightarrow> mem_store \<Rightarrow> bool" where
  "wakeMono s s' \<longleftrightarrow> wakeVersion s \<le> wakeVersion s' \<and> (\<forall>q. lastWakeFor s q \<le> lastWakeFor s' q)
     \<and> (\<forall>w\<in>set (waiters s). w \<in> set (waiters s') \<or> wt_id w \<in> set (resolved s'))
     \<and> set (resolved s) \<subseteq> set (resolved s')"

definition woken :: "queue_name \<Rightarrow> mem_store \<Rightarrow> mem_store \<Rightarrow> bool" where
  "woken q s s' \<longleftrightarrow> wakeVersion s < lastWakeFor s' q
     \<and> (\<forall>w\<in>set (waiters s). q \<in> set (wt_queues w) \<longrightarrow> wt_id w \<in> set (resolved s'))"

definition wakeStep :: "millis \<Rightarrow> mem_store \<Rightarrow> mem_store \<Rightarrow> bool" where
  "wakeStep now s s' \<longleftrightarrow> (wakeInv s \<longrightarrow>
     wakeInv s' \<and> wakeMono s s'
     \<and> (\<forall>opts. (\<forall>k. readyJob now opts s' k \<longrightarrow> readyJob now opts s k) \<or> woken (co_queue opts) s s'))"

lemma lastWakeFor_cong: "wakeSame s s' \<Longrightarrow> lastWakeFor s' q = lastWakeFor s q"
  by (simp add: wakeSame_def lastWakeFor_def)

lemma quiet_wakeStep: "quietStep now s s' \<Longrightarrow> wakeStep now s s'"
  using lastWakeFor_cong [of s s'] noGrowth_ready [of now s s']
  by (auto simp: quietStep_def wakeStep_def wakeInv_def wakeMono_def) (auto simp: wakeSame_def)

lemma wakeMono_trans: "wakeMono s s' \<Longrightarrow> wakeMono s' s'' \<Longrightarrow> wakeMono s s''"
  unfolding wakeMono_def by (elim conjE, intro conjI) (meson le_trans, meson le_trans, blast, blast)

lemma wakeStep_trans:
  assumes "wakeStep now s s'" "wakeStep now s' s''"
  shows "wakeStep now s s''"
  unfolding wakeStep_def
proof (intro impI conjI allI)
  assume inv: "wakeInv s"
  then have m: "wakeMono s s'" "wakeInv s'" using assms(1) by (auto simp: wakeStep_def)
  with assms(2) have m': "wakeMono s' s''" and i'': "wakeInv s''" by (auto simp: wakeStep_def)
  show "wakeInv s''" by (rule i'')
  show "wakeMono s s''" by (rule wakeMono_trans [OF m(1) m'])
  fix opts :: claim_options
  let ?q = "co_queue opts"
  from assms inv m(2) have
    a: "(\<forall>k. readyJob now opts s' k \<longrightarrow> readyJob now opts s k) \<or> woken ?q s s'" and
    b: "(\<forall>k. readyJob now opts s'' k \<longrightarrow> readyJob now opts s' k) \<or> woken ?q s' s''"
    by (auto simp: wakeStep_def)
  have 1: "woken ?q s s''" if w: "woken ?q s s'"
  proof -
    have "wakeVersion s < lastWakeFor s'' ?q"
      using w m' unfolding woken_def wakeMono_def by (meson less_le_trans)
    then show ?thesis using w m' unfolding woken_def wakeMono_def by blast
  qed
  have 2: "woken ?q s s''" if w: "woken ?q s' s''"
  proof -
    have "wakeVersion s < lastWakeFor s'' ?q"
      using w m(1) unfolding woken_def wakeMono_def by (meson le_less_trans)
    then show ?thesis using w m(1) m' unfolding woken_def wakeMono_def by blast
  qed
  from a b 1 2 show "(\<forall>k. readyJob now opts s'' k \<longrightarrow> readyJob now opts s k) \<or> woken ?q s s''" by blast
qed

text \<open>The signalled part: a change of jobs of one queue, then a signal to that queue.\<close>

lemma signalWake_inv: "wakeInv s \<Longrightarrow> wakeInv (signalWake x s)"
  by (auto simp: wakeInv_def lastWakeFor_def signalWake_def Let_def orElse_def
      split: option.splits) (meson le_SucI)+

lemma signalWake_mono: "wakeInv s \<Longrightarrow> wakeMono s (signalWake x s)"
  by (auto simp: wakeMono_def wakeInv_def lastWakeFor_def signalWake_def Let_def orElse_def
      split: option.splits) (meson le_SucI le_max_iff_disj)+

lemma signalWake_woken: "x = None \<or> x = Some q \<Longrightarrow> woken q s (signalWake x s)"
  by (auto simp: woken_def lastWakeFor_def signalWake_def Let_def watches_def)

text \<open>\<open>s1\<close> differs from \<open>s\<close> in readiness for queue \<open>q\<close> only; then \<open>q\<close> is signalled.\<close>

definition growsOnly :: "queue_name \<Rightarrow> millis \<Rightarrow> mem_store \<Rightarrow> mem_store \<Rightarrow> bool" where
  "growsOnly q now s s1 \<longleftrightarrow>
     (\<forall>opts k. co_queue opts \<noteq> q \<longrightarrow> readyJob now opts s1 k \<longrightarrow> readyJob now opts s k)"

lemma wakeStep_signal:
  assumes "wakeSame s s1" "growsOnly q now s s1"
  shows "wakeStep now s (signalWake (Some q) s1)"
  unfolding wakeStep_def
proof (intro impI conjI allI)
  assume "wakeInv s"
  then have inv: "wakeInv s1" using lastWakeFor_cong [OF assms(1)] assms(1) by (simp add: wakeInv_def wakeSame_def)
  show "wakeInv (signalWake (Some q) s1)" by (rule signalWake_inv [OF inv])
  have m: "wakeMono s s1" using assms(1) lastWakeFor_cong [OF assms(1)] by (simp add: wakeMono_def wakeSame_def)
  show "wakeMono s (signalWake (Some q) s1)" by (rule wakeMono_trans [OF m signalWake_mono [OF inv]])
  fix opts :: claim_options
  show "(\<forall>k. readyJob now opts (signalWake (Some q) s1) k \<longrightarrow> readyJob now opts s k)
    \<or> woken (co_queue opts) s (signalWake (Some q) s1)"
  proof (cases "co_queue opts = q")
    case True
    then have "woken (co_queue opts) s1 (signalWake (Some q) s1)" by (simp add: signalWake_woken)
    then have "woken (co_queue opts) s (signalWake (Some q) s1)"
      using assms(1) by (simp add: woken_def wakeSame_def)
    then show ?thesis ..
  next
    case False
    have "readyJob now opts (signalWake (Some q) s1) k = readyJob now opts s1 k" for k
      by (simp add: readyJob_def split: option.split)
    with False assms(2) show ?thesis by (simp add: growsOnly_def)
  qed
qed

lemma growsOnly_put:
  assumes "jobs s1 = mapSet i j (jobs s)" "paused s1 = paused s"
  shows "growsOnly (j_queue j) now s s1"
  using assms by (auto simp: growsOnly_def readyJob_def eligible_def split: option.splits if_splits)

lemma wakeStep_put:
  assumes "jobs s1 = mapSet i j (jobs s)" "wakeSame s s1" "paused s1 = paused s"
  shows "wakeStep now s (signalWake (Some (j_queue j)) s1)"
  by (rule wakeStep_signal [OF assms(2) growsOnly_put [OF assms(1,3)]])

section \<open>The operations\<close>

lemma insertJobRecord_wake: "wakeStep now s (insertJobRecord i r t s)"
proof -
  have "wakeStep now s (signalWake (Some (j_queue (newJob i r t (seqNo s + 1))))
      (s\<lparr>seqNo := seqNo s + 1, jobs := mapSet i (newJob i r t (seqNo s + 1)) (jobs s)\<rparr>))"
    by (rule wakeStep_put) (simp_all add: wakeSame_def)
  then show ?thesis by (simp add: insertJobRecord_def Let_def)
qed

lemma wakeStep_refl [simp]: "wakeStep now s s"
  by (rule quiet_wakeStep) simp

lemma registerJob_wake: "wakeStep now s (registerJob i r t s)"
proof -
  have "quietStep now (insertJobRecord i r t s) (registerJob i r t s)"
    by (rule quiet_jobs) (auto simp: registerJob_def wakeSame_def Let_def split: option.split)
  with insertJobRecord_wake show ?thesis by (rule wakeStep_trans [OF _ quiet_wakeStep])
qed

lemma wakeSame_setExpiry [simp]: "wakeSame s (setExpiry k e x s') = wakeSame s s'"
  by (simp add: wakeSame_def setExpiry_def)

lemma paused_setExpiry [simp]: "paused (setExpiry k e x s) = paused s"
  by (simp add: setExpiry_def)

lemma dedupeDecide_wake:
  assumes "wellFormed s"
  shows "wakeStep now s (snd (dedupeDecide t r d s))"
proof (cases "\<exists>entry k. mapGet (dedupes s) (dedupeMapKey (rq_name r) (dp_key d)) = Some entry
    \<and> mapGet (jobs s) (de_jobId entry) = Some k \<and> dp_replace d \<and> j_state k = Delayed")
  case True
  then obtain entry k where e: "mapGet (dedupes s) (dedupeMapKey (rq_name r) (dp_key d)) = Some entry"
    "mapGet (jobs s) (de_jobId entry) = Some k" "dp_replace d" "j_state k = Delayed" by blast
  have put: "wakeSame s (putJob j s)" "paused (putJob j s) = paused s" for j
    by (simp_all add: putJob_def wakeSame_def)
  have "wakeStep now s (signalWake (Some (j_queue (replaceJob r t k)))
      (case dp_ttlMs d of Some ttl \<Rightarrow> setExpiry (dedupeMapKey (rq_name r) (dp_key d)) entry (t + ttl)
         (putJob (replaceJob r t k) s) | None \<Rightarrow> putJob (replaceJob r t k) s))"
    by (rule wakeStep_put [where i = "j_id k"]) (simp_all add: put split: option.split)
  then show ?thesis using e by (simp add: dedupeDecide_def Let_def)
next
  case False
  have "quietStep now s (snd (dedupeDecide t r d s))"
    by (rule quiet_jobs)
      (use False in \<open>auto simp: dedupeDecide_def Let_def split: option.splits\<close>,
       auto simp: wakeSame_def)
  then show ?thesis by (rule quiet_wakeStep)
qed

lemma enqueueDecide_wake: "wellFormed s \<Longrightarrow> wakeStep now s (snd (enqueueDecide t r s))"
  by (auto simp: enqueueDecide_def dedupeDecide_wake split: option.split)

lemma enqueueInsert_wake: "wakeStep now s (snd (enqueueInsert gen t r s))"
proof (cases "chooseId gen r s")
  case (Pair found s1)
  have q: "quietStep now s s1"
    by (rule quiet_jobs)
      (use Pair in \<open>auto simp: chooseId_def Let_def wakeSame_def split: option.splits prod.splits\<close>)
  show ?thesis
    using Pair quiet_wakeStep [OF q] wakeStep_trans [OF quiet_wakeStep [OF q] registerJob_wake]
    by (simp add: enqueueInsert_def split: option.split)
qed

lemma enqueueOne_wake: "wellFormed s \<Longrightarrow> wakeStep now s (snd (enqueueOne gen t r s))"
  using enqueueDecide_wake [of s now t r]
  by (auto simp: enqueueOne_def split: prod.split option.split
      intro: wakeStep_trans [OF _ enqueueInsert_wake])

lemma enqueueMany_wake: "wellFormed s \<Longrightarrow> wakeStep now s (snd (enqueueMany gen rs s))"
proof (induction gen rs s rule: enqueueMany.induct)
  case (1 gen s)
  then show ?case by simp
next
  case (2 gen t r rest s)
  from enqueueOne_wake [OF 2(2), of now gen t r] enqueueOne_wf [OF 2(2), of gen t r] 2(1)
  show ?case by (auto split: prod.splits sum.splits intro: wakeStep_trans)
qed

lemma claim_wake:
  assumes "t \<le> now"
  shows "wakeStep now s (snd (claim t opts s))"
proof -
  have "quietStep now s (promoteDue t s)"
    using assms by (auto simp: quietStep_def noGrowth_def runnable_def promoteJob_state wakeSame_def
        promoteDue_def map_ran_conv split: if_splits)
  moreover have "quietStep now (promoteDue t s) (snd (claim t opts s))"
    by (auto simp: claim_def Let_def runnable_def intro!: quiet_put split: prod.split option.split)
  ultimately show ?thesis by (rule quiet_wakeStep [OF quiet_trans])
qed

lemma wakeSame_refl [simp]: "wakeSame s s"
  by (simp add: wakeSame_def)

lemma wakeSame_put: "wakeSame s (putJob j (s\<lparr>seqNo := n\<rparr>))" "wakeSame s (putJob j s)"
  "paused (putJob j (s\<lparr>seqNo := n\<rparr>)) = paused s"
  by (simp_all add: wakeSame_def putJob_def)

lemma requeue_wake:
  "wakeStep now s (signalWake (Some (j_queue j)) (putJob j (s\<lparr>seqNo := n\<rparr>)))"
  "wakeStep now s (signalWake (Some (j_queue j)) (putJob j s))"
  by (rule wakeStep_put [where i = "j_id j"]; simp add: wakeSame_put)+

lemma ackRetry_wake: "wakeStep now s (ackRetry t d ex job s)"
  using requeue_wake(1) [of now s "(recordAttempt ARetried t ex job)\<lparr>j_runAt := t + max 0 d,
      j_state := (if d > 0 then Delayed else Waiting), m_seq := Suc (seqNo s)\<rparr>" "Suc (seqNo s)"]
    quiet_wakeStep [OF quiet_markCancelled]
  by (simp add: ackRetry_def Let_def)

lemma ackFanOut_wake: "wakeStep now s (ackFanOut t ff children job s)"
proof -
  let ?job1 = "recordAttempt AFannedOut t None job"
  obtain job2 flow s2 where p:
    "(case j_flow ?job1 of Some flow \<Rightarrow> (?job1, flow, s)
       | None \<Rightarrow> (let flow = openFlow ff children in (?job1\<lparr>j_flow := Some flow\<rparr>, flow,
            s\<lparr>flowChildren := mapSet (j_id ?job1) (stageRows (j_id ?job1) t children) (flowChildren s)\<rparr>)))
       = (job2, flow, s2)" by (metis prod_cases3)
  have q: "quietStep now s s2"
    using p by (auto simp: Let_def quiet_flowChildren split: option.splits)
  have "quietStep now s2 (let (job3, s3) = settleMarkRows job2 s2 in markCancelled job3 t s3)"
    using settleMarkRows_store [of job2 s2] quiet_trans [OF quiet_flowChildren quiet_markCancelled]
    by (auto simp: split_beta Let_def)
  moreover have "quietStep now s2 (putJob (job2\<lparr>j_state := WaitingChildren\<rparr>) s2)"
    by (rule quiet_put) (simp add: runnable_def)
  moreover have "wakeStep now s2 (signalWake (Some (j_queue job2))
      (putJob (job2\<lparr>j_state := Waiting, j_runAt := t, m_seq := Suc (seqNo s2)\<rparr>) (s2\<lparr>seqNo := Suc (seqNo s2)\<rparr>)))"
    using requeue_wake(1) [of now s2 "job2\<lparr>j_state := Waiting, j_runAt := t, m_seq := Suc (seqNo s2)\<rparr>"] by simp
  ultimately have "wakeStep now s2 (ackFanOut t ff children job s)"
    using p by (simp add: ackFanOut_def quiet_wakeStep split_beta Let_def)
  with quiet_wakeStep [OF q] show ?thesis by (rule wakeStep_trans)
qed

lemma ack_wake: "wakeStep now s (snd (ack t i token outcome s))"
proof -
  have "wakeStep now s (finishJob (stateOfTerminal x) oc x ex b t job s)" for oc x ex b job
    by (rule quiet_wakeStep [OF quiet_finishJob]) (rule stateOfTerminal_terminal)
  from this [of TCompleted] this [of TFailed] this [of TCancelled] show ?thesis
    by (auto simp: ack_def applyOutcome_def Let_def ackRetry_wake ackFanOut_wake split: option.split ack_outcome.split)
qed

lemma release_wake: "wakeStep now s (snd (release t i token s))"
  using requeue_wake(2) [of now s "(clearLock j)\<lparr>j_state := Waiting\<rparr>" for j] quiet_wakeStep [OF quiet_markCancelled]
  by (auto simp: release_def split: option.split)

lemma quiet_edit:
  assumes "mapGet (jobs s) i = Some j0" "j_state j0 = Active" "j_id j = i" "j_state j = Active"
  shows "quietStep now s (putJob j s)"
  by (rule quiet_put) (simp add: runnable_def assms)

lemma extendLocks_wake: "quietStep now s (snd (extendLocks t locks d s))"
proof (induction t locks d s rule: extendLocks.induct)
  case (1 t d s)
  then show ?case by simp
next
  case (2 t i token locks d s)
  show ?case
  proof (cases "holdsLock s i token")
    case None
    with 2 show ?thesis by (simp add: split_beta Let_def)
  next
    case (Some job)
    then have "j_state job = Active" by (auto simp: holdsLock_def split: option.splits if_splits)
    then have "quietStep now s (putJob (job\<lparr>m_lockExpiresAt := Some (t + d)\<rparr>) s)"
      by (intro quiet_put) (simp add: runnable_def)
    with Some 2 show ?thesis by (auto simp: split_beta Let_def intro: quiet_trans)
  qed
qed

text \<open>Recovery requeues silently and signals every queue once at the end.\<close>

definition recovering :: "millis \<Rightarrow> mem_store \<Rightarrow> (job_id \<times> bool) list \<times> mem_store \<Rightarrow> bool" where
  "recovering now s acc \<longleftrightarrow> wakeSame s (snd acc) \<and> (list_all snd (fst acc) \<longrightarrow> noGrowth now s (snd acc))"

lemma wakeSame_trans: "wakeSame a b \<Longrightarrow> wakeSame b c \<Longrightarrow> wakeSame a c"
  by (simp add: wakeSame_def)

lemma recovering_quiet:
  assumes "recovering now s (rec, s1)" "quietStep now s1 s2" "list_all snd rec' \<Longrightarrow> list_all snd rec"
  shows "recovering now s (rec', s2)"
proof -
  have "quietStep now s s2" if "list_all snd rec'"
    using assms that by (intro quiet_trans [OF _ assms(2)]) (auto simp: recovering_def quietStep_def)
  then show ?thesis
    using assms(1,2) wakeSame_trans by (auto simp: recovering_def quietStep_def)
qed

lemma recoverStep_recovering:
  assumes "recovering now s acc"
  shows "recovering now s (recoverStep t m i acc)"
proof -
  obtain rec s1 where acc: "acc = (rec, s1)" by fastforce
  show ?thesis
  proof (cases "\<exists>j. mapGet (jobs s1) i = Some j \<and> stalled t j")
    case False
    with assms show ?thesis by (auto simp: recoverStep_def acc split: option.split)
  next
    case True
    then obtain j where j: "mapGet (jobs s1) i = Some j" "stalled t j" by blast
    let ?job2 = "recordAttempt AStalled t None ((clearLock j)\<lparr>j_stalledCount := j_stalledCount j + 1\<rparr>)"
    let ?job3 = "?job2\<lparr>j_state := Failed, j_finishedAt := Some t,
      j_failedReason := Some ''job stalled more than allowable limit''\<rparr>"
    have 1: "recovering now s (rec, markCancelled j t s1)"
      by (rule recovering_quiet [OF assms [unfolded acc] quiet_markCancelled])
    have "quietStep now s1 (releaseDedupe ?job3 t (appendOutbox ?job3 TFailed (putJob ?job3 s1)))"
      by (rule quiet_finish(2)) (simp_all add: runnable_def)
    then have 2: "recovering now s (rec @ [(j_id ?job3, True)],
        releaseDedupe ?job3 t (appendOutbox ?job3 TFailed (putJob ?job3 s1)))"
      by (rule recovering_quiet [OF assms [unfolded acc]]) simp
    have 3: "recovering now s (rec @ [(j_id ?job2, False)], putJob (?job2\<lparr>j_state := Waiting\<rparr>) s1)"
      using assms acc by (simp add: recovering_def wakeSame_def putJob_def)
    show ?thesis
      using j 1 2 3 by (simp add: acc recoverStep_def recoverJob_def Let_def)
  qed
qed

lemma wakeStep_broadcast:
  assumes "wakeSame s s1"
  shows "wakeStep now s (signalWake None s1)"
  unfolding wakeStep_def
proof (intro impI conjI allI)
  assume "wakeInv s"
  then have inv: "wakeInv s1" using lastWakeFor_cong [OF assms(1)] assms(1) by (simp add: wakeInv_def wakeSame_def)
  show "wakeInv (signalWake None s1)" by (rule signalWake_inv [OF inv])
  have m: "wakeMono s s1" using assms(1) lastWakeFor_cong [OF assms(1)] by (simp add: wakeMono_def wakeSame_def)
  show "wakeMono s (signalWake None s1)" by (rule wakeMono_trans [OF m signalWake_mono [OF inv]])
  fix opts :: claim_options
  have "woken (co_queue opts) s1 (signalWake None s1)" by (simp add: signalWake_woken)
  then have "woken (co_queue opts) s (signalWake None s1)" using assms by (simp add: woken_def wakeSame_def)
  then show "(\<forall>k. readyJob now opts (signalWake None s1) k \<longrightarrow> readyJob now opts s k)
    \<or> woken (co_queue opts) s (signalWake None s1)" ..
qed

lemma recoverStalled_wake: "wakeStep now s (snd (recoverStalled t m s))"
proof -
  obtain rec s1 where r: "fold (recoverStep t m) (mapKeys (jobs s)) ([], s) = (rec, s1)" by fastforce
  have "recovering now s (fold (recoverStep t m) (mapKeys (jobs s)) ([], s))"
  proof (rule fold_invariant_list)
    show "recovering now s ([], s)" by (auto simp: recovering_def noGrowth_def)
  qed (rule recoverStep_recovering)
  then have rc: "recovering now s (rec, s1)" by (simp add: r)
  show ?thesis
  proof (cases "list_ex (\<lambda>(_, failed). \<not> failed) rec")
    case True
    then show ?thesis using rc wakeStep_broadcast by (simp add: recoverStalled_def r recovering_def)
  next
    case False
    then have "list_all snd rec" by (auto simp: list_ex_iff list_all_iff)
    with rc have "quietStep now s s1" by (simp add: recovering_def quietStep_def)
    with False show ?thesis by (simp add: recoverStalled_def r quiet_wakeStep)
  qed
qed

lemma cancelJob_quiet: "quietStep now s (snd (cancelJob t i s))"
proof (cases "mapGet (jobs s) i")
  case None
  then show ?thesis by (simp add: cancelJob_def)
next
  case (Some j)
  then show ?thesis
    by (cases "j_state j") (simp_all add: cancelJob_def quiet_markCancelled quiet_put runnable_def)
qed

lemma cancelByDedupe_quiet: "quietStep now s (snd (cancelByDedupe t name key s))"
  using cancelJob_quiet [of now s t]
  by (auto simp: cancelByDedupe_def split: option.splits prod.splits sum.splits store_error.splits)
    (metis snd_conv)+

lemma retry_wake: "wakeStep now s (snd (retry t i s))"
  using requeue_wake(1) [of now s "j\<lparr>j_state := Waiting, j_attemptsMade := 0, j_stalledCount := 0,
      j_cancelRequested := False, j_exit := None, j_failedReason := None, j_finishedAt := None,
      j_processedAt := None, j_runAt := t, m_seq := Suc (seqNo s)\<rparr>" "Suc (seqNo s)" for j]
  by (auto simp: retry_def Let_def split: option.split)

lemma promote_wake: "wakeStep now s (snd (promote t i s))"
  using requeue_wake(2) [of now s "j\<lparr>j_state := Waiting, j_runAt := t\<rparr>" for j]
  by (auto simp: promote_def split: option.split)

lemma resume_wake: "wakeStep now s (resume q s)"
proof (cases "q \<in> set (paused s)")
  case True
  have "wakeStep now s (signalWake (Some q) (s\<lparr>paused := filter (\<lambda>x. x \<noteq> q) (paused s)\<rparr>))"
    by (rule wakeStep_signal) (auto simp: wakeSame_def growsOnly_def readyJob_def split: option.splits)
  with True show ?thesis by (simp add: resume_def)
next
  case False
  then show ?thesis by (simp add: resume_def)
qed

lemma upsertSchedule_wake: "wakeStep now s (upsertSchedule sc s)"
  unfolding upsertSchedule_def Let_def
  by (rule wakeStep_signal) (auto simp: wakeSame_def growsOnly_def readyJob_def split: option.splits)

lemma tickSchedule_wake: "wakeStep now s (snd (tickSchedule t k a b r s))"
proof -
  have q: "quietStep now s (setNextRun k sc x s)" for sc x
    by (rule quiet_jobs) (simp_all add: setNextRun_def wakeSame_def)
  have "wakeStep now s (insertJobRecord i r t (setNextRun k sc x s))" for i sc x
    by (rule wakeStep_trans [OF quiet_wakeStep [OF q] insertJobRecord_wake])
  then show ?thesis
    using quiet_wakeStep [OF q] by (auto simp: tickSchedule_def Let_def split: option.split)
qed

lemma failParent_quiet: "quietStep now s (failParent key t p s)"
proof -
  obtain fc where fc: "snd (settleMarkRows p s) = s\<lparr>flowChildren := fc\<rparr>" using settleMarkRows_store by blast
  show ?thesis
    unfolding failParent_def Let_def split_beta fc
    by (rule quiet_finish(1) [OF _ quiet_flowChildren]) (simp add: runnable_def)
qed

lemma settleOne_wake: "wakeStep now (snd acc) (snd (settleOne t rs e acc))"
proof -
  have "wakeStep now s (resumeParent t p s)" for p s
    using requeue_wake(1) [of now s "p\<lparr>j_state := Waiting, j_runAt := t, m_seq := Suc (seqNo s)\<rparr>" "Suc (seqNo s)"]
    by (simp add: resumeParent_def Let_def)
  then show ?thesis
    by (auto simp: settleOne_def quiet_wakeStep [OF failParent_quiet] split: prod.split option.split)
qed

lemma recordOne_quiet: "phase1_ok acc \<Longrightarrow> quietStep now (snd (snd acc)) (snd (snd (recordOne e acc)))"
proof -
  assume ok: "phase1_ok acc"
  obtain i r where e: "e = (i, r)" by fastforce
  obtain results touched s where acc: "acc = (results, touched, s)" by (metis prod_cases3)
  show ?thesis
  proof (cases "\<exists>row. rowOf s (rp_flowId r) (rp_childKey r) = Some row \<and> ch_status row = RPending")
    case True
    then obtain row where row: "rowOf s (rp_flowId r) (rp_childKey r) = Some row" "ch_status row = RPending"
      by blast
    from ok acc have w: "wfx {} (set (mapKeys touched)) s" by (simp add: phase1_ok_def)
    from applyReport_wf [OF this row] obtain parent f rows where
      p: "j_state parent = WaitingChildren" "applyReport r row s =
         putJob (parent\<lparr>j_flow := Some (countReport (rp_outcome r) f)\<rparr>)
           (s\<lparr>flowChildren := mapSet (rp_flowId r) (mapSet (rp_childKey r) (settleRow r row) rows) (flowChildren s)\<rparr>)"
      by metis
    have "quietStep now s (applyReport r row s)"
      unfolding p(2) by (rule quiet_trans [OF quiet_flowChildren quiet_put]) (simp add: runnable_def p(1))
    with row show ?thesis by (simp add: acc e recordOne_applied)
  next
    case False
    then show ?thesis by (auto simp: acc e recordOne_applied split: option.split)
  qed
qed

lemma recordChildResults_wake:
  assumes w: "wellFormed s"
  shows "wakeStep now s (snd (recordChildResults t reports s))"
proof -
  have "phase1_ok (recordPhase1 reports s) \<and> quietStep now s (snd (snd (recordPhase1 reports s)))"
    unfolding recordPhase1_def
  proof (rule fold_invariant_list [where I = "\<lambda>acc. phase1_ok acc \<and> quietStep now s (snd (snd acc))"], goal_cases)
    case 1
    then show ?case using w by (simp add: phase1_ok_def wellFormed_def)
  next
    case (2 x acc)
    then show ?case using recordOne_ok recordOne_quiet quiet_trans by blast
  qed
  then have q: "wakeStep now s (snd (snd (recordPhase1 reports s)))" by (simp add: quiet_wakeStep)
  obtain results touched s1 where p1: "recordPhase1 reports s = (results, touched, s1)"
    by (metis prod_cases3)
  have "wakeStep now s1 (snd (fold (settleOne t reports) touched (results, s1)))"
    by (rule fold_invariant_list [where I = "\<lambda>acc. wakeStep now s1 (snd acc)"])
      (auto intro: wakeStep_trans [OF _ settleOne_wake])
  with q p1 show ?thesis by (auto simp: recordChildResults_def intro: wakeStep_trans)
qed

section \<open>Runs\<close>

text \<open>
  Operations a taker waiting at time \<open>now\<close> has to be told about: all but claims that read a later
  clock (the passing of time is the taker's own timer) and the finalizers of other takers' waits.
\<close>

fun concerns :: "millis \<Rightarrow> op \<Rightarrow> bool" where
  "concerns now (OpClaim t opts) = (t \<le> now)"
| "concerns now (OpCancelWait w) = False"
| "concerns now op = True"

lemma exec_wake:
  assumes w: "wellFormed s" and c: "concerns now op"
  shows "wakeStep now s (exec gen op s)"
proof (cases op)
  case (OpAwaitWake qs tok)
  have "readyJob now opts (snd (awaitWake qs tok s)) k = readyJob now opts s k" for opts k
    by (simp add: awaitWake_def readyJob_def split: option.split)
  moreover have "wakeInv s \<Longrightarrow> wakeInv (snd (awaitWake qs tok s))" "wakeMono s (snd (awaitWake qs tok s))"
    by (auto simp: awaitWake_def wakeInv_def wakeMono_def lastWakeFor_def)
  ultimately show ?thesis using OpAwaitWake by (simp add: wakeStep_def)
next
  case (OpPause q)
  have "quietStep now s (pause q s)"
    by (auto simp: pause_def quietStep_def noGrowth_def wakeSame_def)
  with OpPause show ?thesis by (simp add: quiet_wakeStep)
next
  case (OpRemove i)
  have "quietStep now s (snd (remove i s))" by (simp add: remove_def quiet_delete split: option.split)
  with OpRemove show ?thesis by (simp add: quiet_wakeStep)
next
  case (OpSweepHistory t ttl)
  have "quietStep now s (fold (sweepJob t ttl) (mapValues (jobs s)) s)"
    by (rule quiet_fold) (simp add: sweepJob_def quiet_delete split: option.split)
  moreover have "quietStep now s1 (s1\<lparr>dedupes := d\<rparr>)" for s1 d
    by (rule quiet_jobs) (simp_all add: wakeSame_def)
  ultimately have "quietStep now s (sweepHistory t ttl s)"
    unfolding sweepHistory_def Let_def by (rule quiet_trans)
  with OpSweepHistory show ?thesis by (simp add: quiet_wakeStep)
next
  case (OpFlowSweepWork t age l)
  then show ?thesis by (simp add: flowSweepWork_def Let_def split_beta quiet_wakeStep [OF quiet_flowChildren])
next
  case (OpMarkChildrenCascaded i ks)
  then show ?thesis
    by (simp add: markChildrenCascaded_def quiet_wakeStep [OF quiet_flowChildren] split: option.split)
next
  case (OpDeleteOutbox ids)
  have "quietStep now s (deleteOutbox ids s)"
    by (rule quiet_jobs) (simp_all add: wakeSame_def deleteOutbox_def)
  with OpDeleteOutbox show ?thesis by (simp add: quiet_wakeStep)
next
  case (OpRemoveSchedule k)
  have "quietStep now s (snd (removeSchedule k s))"
    by (rule quiet_jobs) (simp_all add: wakeSame_def removeSchedule_def)
  with OpRemoveSchedule show ?thesis by (simp add: quiet_wakeStep)
next
  case (OpAdvanceSchedule k a b)
  have "quietStep now s (advanceSchedule k a b s)"
    by (rule quiet_jobs) (auto simp: wakeSame_def advanceSchedule_def setNextRun_def split: option.split)
  with OpAdvanceSchedule show ?thesis by (simp add: quiet_wakeStep)
qed (use c in \<open>simp_all add: enqueueOne_wake [OF w] enqueueMany_wake [OF w] claim_wake ack_wake release_wake
      quiet_wakeStep [OF extendLocks_wake] recoverStalled_wake quiet_wakeStep [OF cancelJob_quiet]
      quiet_wakeStep [OF cancelByDedupe_quiet] retry_wake promote_wake resume_wake upsertSchedule_wake
      tickSchedule_wake recordChildResults_wake [OF w]\<close>)

lemma execs_wake:
  assumes "wellFormed s" "list_all op_ok ops" "list_all (concerns now) ops"
  shows "wakeStep now s (execs gen ops s)"
  using assms
proof (induction ops arbitrary: s)
  case Nil
  then show ?case by simp
next
  case (Cons op ops)
  have "wakeStep now s (exec gen op s)" using Cons.prems by (simp add: exec_wake)
  moreover have "wakeStep now (exec gen op s) (execs gen ops (exec gen op s))"
    using Cons.prems by (intro Cons.IH) (simp_all add: exec_wf)
  ultimately show ?case by (simp add: wakeStep_trans)
qed

lemma exec_wakeInv:
  assumes "wellFormed s" "wakeInv s"
  shows "wakeInv (exec gen op s)"
proof (cases op)
  case (OpCancelWait w)
  with assms(2) show ?thesis by (simp add: cancelWait_def wakeInv_def lastWakeFor_def)
next
  case (OpClaim t opts)
  have "wakeStep t s (exec gen op s)" by (rule exec_wake [OF assms(1)]) (simp add: OpClaim)
  with assms(2) show ?thesis by (simp add: wakeStep_def)
qed (use exec_wake [OF assms(1), of 0 op gen] assms(2) in \<open>simp_all add: wakeStep_def\<close>)

lemma reachable_wakeInv: "reachable gen c \<Longrightarrow> wakeInv (fst c)"
proof (induction rule: reachable.induct)
  case reachable_init
  then show ?case by (simp add: wakeInv_def lastWakeFor_def emptyStore_def)
next
  case (reachable_step c c')
  have w: "wellFormed (fst c)" by (rule reachable_wf [OF reachable_step.hyps(1)])
  from reachable_step.hyps(2) w reachable_step.IH show ?case
  proof (induction rule: step.induct)
    case (step_op op s P)
    then show ?case using exec_wakeInv by simp
  next
    case (step_suspend request t s s' P)
    then show ?case using enqueueDecide_wake [of s 0 t request] by (simp add: wakeStep_def)
  next
    case (step_resume t request P s i)
    then show ?case using registerJob_wake [of 0 s i request t] by (simp add: wakeStep_def)
  qed simp
qed

section \<open>Properties\<close>

text \<open>C5: no wake-up is lost. A taker claims at time \<open>now\<close> and finds nothing, with wake token \<open>token\<close>.
  Let any operations run after that (by any caller, with any clocks, claims not later than \<open>now\<close>): if
  a job is then ready for the taker, a wait with that token returns at once, and a taker that had
  parked on that queue before them has been woken.\<close>

theorem no_wake_up_is_lost:
  assumes "reachable gen (s0, P)" and "claim now opts s0 = (Empty nextRunAt token, s)"
    and "list_all op_ok ops" and "list_all (concerns now) ops"
    and "readyJob now opts (execs gen ops s) k"
  shows "fst (awaitWake [co_queue opts] token (execs gen ops s)) = None
    \<and> (\<forall>w\<in>set (waiters s). co_queue opts \<in> set (wt_queues w) \<longrightarrow> wt_id w \<in> set (resolved (execs gen ops s)))"
proof -
  have w0: "wellFormed s0" using reachable_wf [OF assms(1)] by simp
  have r: "reachable gen (s, P)"
    using reachable_step [OF assms(1) step_op, of "OpClaim now opts"] assms(2) by simp
  have w: "wellFormed s" "wakeInv s" using reachable_wf [OF r] reachable_wakeInv [OF r] by simp_all
  have e: "token = wakeVersion s0 \<and> s = promoteDue now s0 \<and> (\<forall>i. \<not> readyJob now opts s0 i)"
    using assms(2) by (cases rule: claim_cases [OF w0, of now opts]) auto
  then have token: "token = wakeVersion s" by simp
  have "noGrowth now s0 s"
    using claim_wake [of now now s0 opts] e
    by (auto simp: noGrowth_def runnable_def promoteJob_state split: if_splits)
  with e have "\<not> readyJob now opts s i" for i using noGrowth_ready by blast
  with execs_wake [OF w(1) assms(3,4), of gen] w(2) assms(5) have "woken (co_queue opts) s (execs gen ops s)"
    unfolding wakeStep_def by blast
  then show ?thesis by (simp add: woken_def awaitWake_def token)
qed

theorem no_wake_up_is_lost_witness:
  "fst (awaitWake [''q''] 0 (execs None [OpEnqueue 12 aRequest] (promoteDue 10 emptyStore))) = None"
proof -
  have "claim 10 someOptions emptyStore = (Empty None 0, promoteDue 10 emptyStore)" by code_simp
  moreover have "readyJob 10 someOptions (execs None [OpEnqueue 12 aRequest] (promoteDue 10 emptyStore)) ''j-1''"
    by code_simp
  ultimately have "fst (awaitWake [co_queue someOptions] 0
      (execs None [OpEnqueue 12 aRequest] (promoteDue 10 emptyStore))) = None"
    using no_wake_up_is_lost [OF reachable_init, of 10 someOptions None 0 _ "[OpEnqueue 12 aRequest]" None "''j-1''"]
    by simp
  then show ?thesis by (simp add: someOptions_def)
qed

end
