(* ===== verification/QueueProps.thy ===== *)
theory QueueProps
  imports ClaimQueue Samples
begin

text \<open>
  Properties of claiming and of the read side's aggregate \<open>counts\<close>: which job a claim returns, what
  an empty claim tells the taker, and that repeated claims drain the queue in order.
\<close>

section \<open>Claims\<close>

text \<open>C13: a claim returns the first ready job. When a claim at \<open>now\<close> returns a record, its job was ready
  (queue and names match, waiting or due, queue not paused), no ready job has a higher priority, or the
  same priority and an earlier place in line, the job is now locked by the caller's token until
  \<open>now + lockDurationMs\<close>, and every other job is as before up to the promotion of due jobs.\<close>

theorem claim_returns_first_ready:
  assumes "wellFormed s" and "claim now opts s = (Claimed r, s')"
  shows "readyJob now opts s (j_id r)
    \<and> (\<forall>k. readyJob now opts s k \<longrightarrow> rankOf s (j_id r) \<le> rankOf s k)
    \<and> j_state r = Active
    \<and> (\<exists>j. holdsLock s' (j_id r) (co_token opts) = Some j \<and> snapshot j = r
          \<and> m_lockExpiresAt j = Some (now + co_lockDurationMs opts))
    \<and> (\<forall>k. k \<noteq> j_id r \<longrightarrow> mapGet (jobs s') k = map_option (promoteJob now) (mapGet (jobs s) k))"
  using assms(1)
proof (cases rule: claim_cases [of s now opts])
  case (claimed j)
  with assms(2) have r: "r = snapshot (activate opts now (promoteJob now j))"
    "s' = putJob (activate opts now (promoteJob now j)) (promoteDue now s)" by auto
  with claimed(2-4) show ?thesis by (simp add: holdsLock_def)
next
  case (empty n)
  with assms(2) show ?thesis by simp
qed

theorem claim_returns_first_ready_witness:
  "\<exists>r s'. claim 10 someOptions threeJobs = (Claimed r, s') \<and> j_id r = ''j-2''
     \<and> readyJob 10 someOptions threeJobs ''j-2''
     \<and> (\<forall>k. readyJob 10 someOptions threeJobs k \<longrightarrow> rankOf threeJobs ''j-2'' \<le> rankOf threeJobs k)"
proof -
  have "(case fst (claim 10 someOptions threeJobs) of Claimed r \<Rightarrow> j_id r = ''j-2'' | _ \<Rightarrow> False)"
    by code_simp
  then obtain r s' where c: "claim 10 someOptions threeJobs = (Claimed r, s')" "j_id r = ''j-2''"
    by (cases "claim 10 someOptions threeJobs") (auto split: claim_result.splits)
  from claim_returns_first_ready [OF threeJobs_wf c(1)] c show ?thesis by auto
qed

text \<open>An empty claim tells the truth. When a claim returns \<open>Empty\<close>, no job is ready for the caller,
  \<open>nextRunAt\<close> is the earliest future run time of the delayed jobs it is eligible for (absent exactly
  when there is none), and the wake token is the store's current wake version.\<close>

theorem empty_claim_reports_next_run:
  assumes "wellFormed s" and "claim now opts s = (Empty nextRunAt token, s')"
  shows "(\<forall>k. \<not> readyJob now opts s k)
    \<and> token = wakeVersion s
    \<and> (\<forall>r. nextRunAt = Some r \<longleftrightarrow>
         (\<exists>i j. mapGet (jobs s) i = Some j \<and> eligible opts j \<and> j_state j = Delayed \<and> now < j_runAt j \<and> j_runAt j = r)
         \<and> (\<forall>i j. mapGet (jobs s) i = Some j \<longrightarrow> eligible opts j \<longrightarrow> j_state j = Delayed \<longrightarrow>
              now < j_runAt j \<longrightarrow> r \<le> j_runAt j))"
  using assms(1)
proof (cases rule: claim_cases [of s now opts])
  case (claimed j)
  with assms(2) show ?thesis by simp
next
  case (empty n)
  with assms(2) show ?thesis by simp
qed

definition onlyDelayed :: mem_store where
  "onlyDelayed = exec None (OpEnqueue 5 (aRequest\<lparr>rq_delayMs := 100\<rparr>)) emptyStore"

lemma onlyDelayed_wf: "wellFormed onlyDelayed"
  unfolding onlyDelayed_def by (rule exec_wf [OF _ wf_empty]) simp

theorem empty_claim_reports_next_run_witness:
  "claim 10 someOptions onlyDelayed = (Empty (Some 105) 1, promoteDue 10 onlyDelayed)
     \<and> (\<forall>k. \<not> readyJob 10 someOptions onlyDelayed k)"
proof -
  have "claim 10 someOptions onlyDelayed = (Empty (Some 105) 1, promoteDue 10 onlyDelayed)" by code_simp
  with empty_claim_reports_next_run [OF onlyDelayed_wf this] show ?thesis by simp
qed

text \<open>Repeated claims drain a queue in order. Claiming again and again with one set of options hands
  out every ready job exactly once, by descending priority and first-come first-served within a
  priority.\<close>

theorem claims_drain_in_order:
  assumes "wellFormed s" and "card {i. readyJob now opts s i} \<le> n"
  shows "set (mq.takeAll now opts n s) = {i. readyJob now opts s i}
    \<and> distinct (mq.takeAll now opts n s)
    \<and> sorted_wrt (\<lambda>a b. rankOf s a < rankOf s b) (mq.takeAll now opts n s)"
  by (rule mq.takeAll_complete [OF assms])

theorem claims_drain_in_order_witness:
  "sorted_wrt (\<lambda>a b. rankOf threeJobs a < rankOf threeJobs b) (mq.takeAll 200 someOptions 3 threeJobs)"
proof -
  have "{i. readyJob 200 someOptions threeJobs i} \<subseteq> set (mapKeys (jobs threeJobs))"
    by (auto simp: readyJob_def mapHas_key [symmetric] simp del: set_map split: option.splits)
  moreover have "length (mapKeys (jobs threeJobs)) = 3" by code_simp
  ultimately have "card {i. readyJob 200 someOptions threeJobs i} \<le> 3"
    by (metis List.finite_set card_length card_mono le_trans)
  from claims_drain_in_order [OF threeJobs_wf this] show ?thesis by blast
qed

section \<open>Counts\<close>

lemma countJob_fold:
  "fold (countJob queue) js c st =
     c st + int (length (filter (\<lambda>j. j_state j = st \<and> (case queue of None \<Rightarrow> True | Some q \<Rightarrow> j_queue j = q)) js))"
  by (induction js arbitrary: c) (auto simp: countJob_def split: option.splits)

text \<open>\<open>counts\<close> is a census. For every state it is the number of jobs in that state, of that queue
  when one is given; the seven counts of a queue add up to the number of its jobs.\<close>

theorem counts_census:
  "counts queue s st = int (length (filter (\<lambda>j. j_state j = st
       \<and> (case queue of None \<Rightarrow> True | Some q \<Rightarrow> j_queue j = q)) (mapValues (jobs s))))
   \<and> sum_list (map (counts queue s) [Waiting, Delayed, Active, WaitingChildren, Completed, Failed, Cancelled])
     = int (length (filter (\<lambda>j. case queue of None \<Rightarrow> True | Some q \<Rightarrow> j_queue j = q) (mapValues (jobs s))))"
proof -
  let ?P = "\<lambda>j. case queue of None \<Rightarrow> True | Some q \<Rightarrow> j_queue j = q"
  have each: "counts queue s st = int (length (filter (\<lambda>j. j_state j = st \<and> ?P j) (mapValues (jobs s))))" for st
    by (simp add: counts_def countJob_fold)
  have total: "(\<Sum>x\<leftarrow>[Waiting, Delayed, Active, WaitingChildren, Completed, Failed, Cancelled].
      int (length (filter (\<lambda>j. j_state j = x \<and> ?P j) js))) = int (length (filter ?P js))" for js :: "mem_job list"
  proof (induction js)
    case Nil
    then show ?case by simp
  next
    case (Cons j js)
    then show ?case by (cases "j_state j") auto
  qed
  show ?thesis
    by (intro conjI, rule each) (unfold each, rule total)
qed

end
