(* ===== verification/EnqueueProps.thy ===== *)
theory EnqueueProps
  imports FlowProps
begin

text \<open>
  Properties of enqueueing: what a result means, idempotence by id, exclusivity of pending dedup keys,
  and the one interleaving that defeats it.
\<close>

section \<open>Results\<close>

lemma dedupeDecide_result:
  assumes "wellFormed s" "dedupeDecide now r d s = (Some res, s')"
  shows "er_duplicate res \<and> mapKeys (jobs s') = mapKeys (jobs s)"
proof -
  have k: "mapGet (jobs s) i = Some j \<Longrightarrow> mapKeys (mapSet (j_id j) x (jobs s)) = mapKeys (jobs s)" for i j x
    using wf_id [OF assms(1)] by fastforce
  with assms show ?thesis
    by (auto simp: dedupeDecide_def Let_def setExpiry_def split: option.splits if_splits)
qed

lemma enqueueDecide_result:
  assumes "wellFormed s" "enqueueDecide now r s = (Some res, s')"
  shows "er_duplicate res \<and> mapKeys (jobs s') = mapKeys (jobs s)"
  using assms dedupeDecide_result [OF assms(1)]
  by (auto simp: enqueueDecide_def split: option.splits if_splits)

lemma dedupeDecide_None:
  "dedupeDecide now r d s = (None, s') \<Longrightarrow> s' = s"
  by (auto simp: dedupeDecide_def Let_def split: option.splits if_splits)

lemma enqueueDecide_None: "enqueueDecide now r s = (None, s') \<Longrightarrow> s' = s"
  by (auto simp: enqueueDecide_def dest: dedupeDecide_None split: option.splits if_splits)

lemma enqueueInsert_result:
  assumes "enqueueInsert gen now r s = (Inr res, s')"
    and "\<And>k. rq_id r = Some k \<Longrightarrow> mapGet (jobs s) k = None"
  shows "\<not> er_duplicate res \<and> mapGet (jobs s) (er_id res) = None
    \<and> (\<exists>sq > seqNo s. jobs s' = mapSet (er_id res) (newJob (er_id res) r now sq) (jobs s))"
proof -
  from assms(1) obtain i s1 where c: "chooseId gen r s = (Some i, s1)" and res: "res = \<lparr>er_id = i, er_duplicate = False\<rparr>"
    and s': "s' = registerJob i r now s1"
    by (auto simp: enqueueInsert_def split: prod.splits option.splits)
  from chooseId_fresh [OF c assms(2)] have "mapGet (jobs s) i = None" "jobs s1 = jobs s" by auto
  moreover have "seqNo s1 = seqNo s"
    using c by (auto simp: chooseId_def Let_def split: option.splits prod.splits)
  ultimately show ?thesis unfolding res s' by (simp add: exI [of _ "Suc (seqNo s)"])
qed

text \<open>C19: what an enqueue returns. A result that is not marked duplicate names a job that did not exist
  before and now exists with the request's data in state waiting or delayed, every other job being
  untouched; a result marked duplicate adds no job.\<close>

theorem enqueue_result_is_truthful:
  assumes "wellFormed s" and "enqueueOne gen now r s = (Inr res, s')"
  shows "if er_duplicate res then mapKeys (jobs s') = mapKeys (jobs s)
    else mapGet (jobs s) (er_id res) = None
      \<and> (\<exists>sq > seqNo s. mapGet (jobs s') (er_id res) = Some (newJob (er_id res) r now sq))
      \<and> (\<forall>k. k \<noteq> er_id res \<longrightarrow> mapGet (jobs s') k = mapGet (jobs s) k)"
proof (cases "enqueueDecide now r s")
  case (Pair found s1)
  show ?thesis
  proof (cases found)
    case (Some x)
    with Pair assms(2) have "x = res" "s1 = s'" by (simp_all add: enqueueOne_def)
    with enqueueDecide_result [OF assms(1), of now r x s1] Pair Some show ?thesis by simp
  next
    case None
    with Pair have s1: "s1 = s" using enqueueDecide_None by blast
    with Pair None assms(2) have ins: "enqueueInsert gen now r s = (Inr res, s')"
      by (simp add: enqueueOne_def)
    have "\<And>k. rq_id r = Some k \<Longrightarrow> mapGet (jobs s) k = None"
      using enqueueDecide_fresh [OF assms(1)] Pair None s1 by blast
    from enqueueInsert_result [OF ins this] show ?thesis by (auto split: if_splits)
  qed
qed

lemma enqueue_sample:
  "fst (enqueueOne None 7 aRequest threeJobs) = Inr \<lparr>er_id = ''j-4'', er_duplicate = False\<rparr>"
  by code_simp

theorem enqueue_result_is_truthful_witness:
  "mapGet (jobs threeJobs) ''j-4'' = None
    \<and> (\<exists>sq. mapGet (jobs (snd (enqueueOne None 7 aRequest threeJobs))) ''j-4'' = Some (newJob ''j-4'' aRequest 7 sq))"
  using enqueue_result_is_truthful [OF threeJobs_wf, of None 7 aRequest
      "\<lparr>er_id = ''j-4'', er_duplicate = False\<rparr>" "snd (enqueueOne None 7 aRequest threeJobs)"] enqueue_sample
  by (auto simp: prod_eq_iff)

text \<open>Enqueueing with an explicit id is idempotent. Once a job with that id exists, any enqueue with
  the id, whatever else it asks for, returns it as a duplicate and leaves the store exactly as it was;
  a request without a dedup key makes it exist.\<close>

theorem enqueue_by_id_is_idempotent:
  assumes "rq_id r = Some i" and "rq_dedupe r = None" and "rq_id r' = Some i"
  shows "fst (enqueueOne gen now r s) = Inr \<lparr>er_id = i, er_duplicate = mapHas (jobs s) i\<rparr>
    \<and> enqueueOne gen' now' r' (snd (enqueueOne gen now r s)) =
        (Inr \<lparr>er_id = i, er_duplicate = True\<rparr>, snd (enqueueOne gen now r s))"
proof (cases "mapHas (jobs s) i")
  case True
  then show ?thesis using assms by (auto simp: enqueueOne_def enqueueDecide_def)
next
  case False
  then have e: "enqueueOne gen now r s = (Inr \<lparr>er_id = i, er_duplicate = False\<rparr>, registerJob i r now s)"
    using assms by (simp add: enqueueOne_def enqueueDecide_def enqueueInsert_def chooseId_def)
  show ?thesis
    using False assms(3) by (simp add: e enqueueOne_def [of gen'] enqueueDecide_def)
qed

theorem enqueue_by_id_is_idempotent_witness:
  "enqueueOne None 9 (aRequest\<lparr>rq_id := Some ''x''\<rparr>) (snd (enqueueOne None 7 (aRequest\<lparr>rq_id := Some ''x''\<rparr>) threeJobs))
    = (Inr \<lparr>er_id = ''x'', er_duplicate = True\<rparr>, snd (enqueueOne None 7 (aRequest\<lparr>rq_id := Some ''x''\<rparr>) threeJobs))"
  using enqueue_by_id_is_idempotent
    [of "aRequest\<lparr>rq_id := Some ''x''\<rparr>" "''x''" "aRequest\<lparr>rq_id := Some ''x''\<rparr>" None 7 threeJobs None 9]
  by (simp add: aRequest_def)

section \<open>Pending dedup keys\<close>

definition dedupeSlot :: "mem_job \<Rightarrow> string option" where
  "dedupeSlot j = map_option (dedupeMapKey (j_name j)) (j_dedupeKey j)"

text \<open>Every pending job with a dedup key owns the registry entry of its key, and no entry has a window.\<close>

definition slotsOwned :: "mem_store \<Rightarrow> bool" where
  "slotsOwned s \<longleftrightarrow>
     (\<forall>i j k. pendingIn s i j \<longrightarrow> dedupeSlot j = Some k \<longrightarrow>
        (\<exists>e. mapGet (dedupes s) k = Some e \<and> de_jobId e = i))
   \<and> (\<forall>k e. mapGet (dedupes s) k = Some e \<longrightarrow> de_expiresAt e = None)
   \<and> distinct (mapKeys (dedupes s))"

definition keepsSlots :: "mem_store \<Rightarrow> mem_store \<Rightarrow> bool" where
  "keepsSlots s s' \<longleftrightarrow>
     (\<forall>i j'. pendingIn s' i j' \<longrightarrow> (\<exists>j. pendingIn s i j \<and> dedupeSlot j = dedupeSlot j'))
   \<and> (\<forall>k e. mapGet (dedupes s) k = Some e \<longrightarrow> mapGet (dedupes s') k = Some e
        \<or> (\<forall>j'. pendingIn s' (de_jobId e) j' \<longrightarrow> dedupeSlot j' \<noteq> Some k))
   \<and> (\<forall>k e. mapGet (dedupes s') k = Some e \<longrightarrow> mapGet (dedupes s) k = Some e)
   \<and> (distinct (mapKeys (dedupes s)) \<longrightarrow> distinct (mapKeys (dedupes s')))"

lemma keepsSlots_owned:
  assumes k: "keepsSlots s s'" and o': "slotsOwned s"
  shows "slotsOwned s'"
proof -
  have "\<exists>e. mapGet (dedupes s') k = Some e \<and> de_jobId e = i"
    if "pendingIn s' i j" "dedupeSlot j = Some k" for i j k
    using assms that unfolding keepsSlots_def slotsOwned_def by metis
  with assms show ?thesis unfolding keepsSlots_def slotsOwned_def by metis
qed

lemma keepsSlots_refl [simp]: "keepsSlots s s"
  by (auto simp: keepsSlots_def)

lemma keepsSlots_trans:
  assumes a: "keepsSlots s s'" and b: "keepsSlots s' s''"
  shows "keepsSlots s s''"
proof -
  have "mapGet (dedupes s'') k = Some e \<or> (\<forall>j'. pendingIn s'' (de_jobId e) j' \<longrightarrow> dedupeSlot j' \<noteq> Some k)"
    if "mapGet (dedupes s) k = Some e" for k e
  proof (cases "mapGet (dedupes s') k = Some e")
    case True
    with b show ?thesis by (simp add: keepsSlots_def)
  next
    case False
    with a that have "\<forall>j'. pendingIn s' (de_jobId e) j' \<longrightarrow> dedupeSlot j' \<noteq> Some k"
      unfolding keepsSlots_def by blast
    with b show ?thesis unfolding keepsSlots_def by metis
  qed
  moreover have "\<exists>j. pendingIn s i j \<and> dedupeSlot j = dedupeSlot j'" if "pendingIn s'' i j'" for i j'
    using a b that unfolding keepsSlots_def by metis
  ultimately show ?thesis using a b unfolding keepsSlots_def by simp
qed

lemma keepsSlots_same:
  assumes "\<And>i j'. pendingIn s' i j' \<Longrightarrow> \<exists>j. pendingIn s i j \<and> dedupeSlot j = dedupeSlot j'"
    and "dedupes s' = dedupes s"
  shows "keepsSlots s s'"
  using assms by (auto simp: keepsSlots_def)

lemma sameIdentity_slot: "sameIdentity j j' \<Longrightarrow> dedupeSlot j' = dedupeSlot j"
  by (simp add: sameIdentity_def dedupeSlot_def)

text \<open>Pending jobs do not appear out of nothing, unless created or revived.\<close>

lemma life_pending:
  assumes "life s e s'" "\<And>i. e \<noteq> Created i" "\<And>i. e \<noteq> Revived i" "pendingIn s' i j'"
  shows "\<exists>j. pendingIn s i j \<and> dedupeSlot j = dedupeSlot j'"
  using assms(1)
proof (cases rule: life.cases)
  case (due_promoted now)
  with assms(4) show ?thesis
    by (auto simp: pendingIn_def promoteJob_def dedupeSlot_def split: if_splits)
qed (use assms(2-4) in \<open>auto simp: pendingIn_def changes_def dest: sameIdentity_slot split: if_splits\<close>)

lemma trace_pending:
  assumes "trace P s s'" "\<And>s e i. P s e \<Longrightarrow> e \<noteq> Created i \<and> e \<noteq> Revived i" "pendingIn s' i j'"
  shows "\<exists>j. pendingIn s i j \<and> dedupeSlot j = dedupeSlot j'"
  using assms
proof (induction arbitrary: j' rule: trace.induct)
  case (trace_refl s)
  then show ?case by blast
next
  case (trace_step s e s' s'')
  have "\<exists>j. pendingIn s' i j \<and> dedupeSlot j = dedupeSlot j'"
    by (rule trace_step.IH) (use trace_step.prems in auto)
  then obtain j1 where "pendingIn s' i j1" "dedupeSlot j1 = dedupeSlot j'" by blast
  with life_pending [OF trace_step.hyps(1)] trace_step.prems(1) [OF trace_step.hyps(2)] show ?case by metis
qed

text \<open>A terminal transition frees at most the finishing job's own entry.\<close>

lemma keepsSlots_finish:
  assumes "mapGet (jobs s) i = Some j0" "j_id j = i" "j_state j \<in> TERMINAL_STATES"
    and "jobs s2 = jobs s" "dedupes s2 = dedupes s"
  shows "keepsSlots s (releaseDedupe j now (appendOutbox j t (putJob j s2)))" (is "keepsSlots s ?s")
proof -
  have js: "mapGet (jobs ?s) k = (if k = i then Some j else mapGet (jobs s) k)" for k
    using assms by simp
  have dead: "\<not> pendingIn ?s i j'" for j' unfolding pendingIn_def js using assms(3) by auto
  have pend: "pendingIn s i' j'" if "pendingIn ?s i' j'" for i' j'
    using that dead unfolding pendingIn_def js by (metis (no_types, lifting) assms(3) option.inject)
  have "dedupes ?s = dedupes s \<or> (\<exists>k e. mapGet (dedupes s) k = Some e \<and> de_jobId e = i
      \<and> dedupes ?s = mapDelete k (dedupes s))"
    using assms(2,5) by (auto simp: releaseDedupe_def Let_def split: option.split)
  then show ?thesis
  proof (elim disjE exE conjE)
    assume "dedupes ?s = dedupes s"
    then show ?thesis
      by (rule keepsSlots_same [rotated]) (use pend in blast)
  next
    fix k e assume "mapGet (dedupes s) k = Some e" "de_jobId e = i" "dedupes ?s = mapDelete k (dedupes s)"
    with dead pend show ?thesis
      unfolding keepsSlots_def by (auto simp: mapGet_delete distinct_mapDelete split: if_splits)
  qed
qed


lemma keepsSlots_deletes:
  assumes "\<And>k. mapGet (jobs s') k = mapGet (jobs s) k \<or> mapGet (jobs s') k = None" "dedupes s' = dedupes s"
  shows "keepsSlots s s'"
  by (rule keepsSlots_same [OF _ assms(2)]) (metis assms(1) option.distinct(1) pendingIn_def)

lemma applyKeep_dedupes [simp]: "dedupes (applyKeep job now s) = dedupes s"
proof -
  have "dedupes (fold pruneUnlessOwing xs s) = dedupes s" for xs
    by (rule fold_invariant_list [where I = "\<lambda>s'. dedupes s' = dedupes s"]) (simp_all add: pruneUnlessOwing_def)
  then show ?thesis by (simp add: applyKeep_def split: option.split)
qed

lemma keepsSlots_applyKeep: "keepsSlots s (applyKeep job now s)"
  by (rule keepsSlots_deletes) (metis applyKeep_only_deletes, simp)

lemma keepsSlots_then_applyKeep: "keepsSlots s s' \<Longrightarrow> keepsSlots s (applyKeep job now s')"
  by (rule keepsSlots_trans [OF _ keepsSlots_applyKeep])

lemma keepsSlots_markCancelled:
  assumes "mapGet (jobs s) i = Some j0" "j_id job = i"
  shows "keepsSlots s (markCancelled job now s)"
proof -
  obtain fc where e: "markCancelled job now s = applyKeep (cancelRecord job now s) now
         (releaseDedupe (cancelRecord job now s) now
            (appendOutbox (cancelRecord job now s) TCancelled
               (putJob (cancelRecord job now s) (s\<lparr>flowChildren := fc\<rparr>))))"
    using markCancelled_eq by blast
  show ?thesis unfolding e
    by (rule keepsSlots_then_applyKeep, rule keepsSlots_finish [OF assms(1)]) (use assms(2) in simp_all)
qed

lemma keepsSlots_finishJob:
  assumes "mapGet (jobs s) i = Some j0" "j_id job = i" "st \<in> TERMINAL_STATES"
  shows "keepsSlots s (finishJob st oc t ex b now job s)"
  unfolding finishJob_def Let_def
  by (rule keepsSlots_then_applyKeep, rule keepsSlots_finish [OF assms(1)]) (use assms(2,3) in simp_all)

lemma keepsSlots_failParent:
  assumes "mapGet (jobs s) i = Some p" "j_id p = i"
  shows "keepsSlots s (failParent key now p s)"
proof -
  obtain f where f: "fst (settleMarkRows p s) = p\<lparr>j_flow := f\<rparr>" using settleMarkRows_job by blast
  show ?thesis unfolding failParent_def Let_def split_beta f
    by (rule keepsSlots_then_applyKeep, rule keepsSlots_finish [OF assms(1)]) (use assms(2) in simp_all)
qed

text \<open>Operations that leave the registry alone and create or revive nothing.\<close>

fun creates :: "op \<Rightarrow> bool" where
  "creates (OpEnqueue _ _) = True"
| "creates (OpEnqueueMany _) = True"
| "creates (OpTickSchedule _ _ _ _ _) = True"
| "creates (OpRetry _ _) = True"
| "creates _ = False"

lemma keepsSlots_exec_same:
  assumes "wellFormed s" "\<not> creates op" "dedupes (exec gen op s) = dedupes s"
  shows "keepsSlots s (exec gen op s)"
proof (rule keepsSlots_same [OF _ assms(3)])
  fix i j' assume "pendingIn (exec gen op s) i j'"
  then show "\<exists>j. pendingIn s i j \<and> dedupeSlot j = dedupeSlot j'"
    by (rule trace_pending [OF exec_trace [OF assms(1)], rotated]) (use assms(2) in \<open>auto elim!: creates.elims\<close>)
qed

text \<open>The creating operations.\<close>

definition plainDedupe :: "enqueue_request \<Rightarrow> bool" where
  "plainDedupe r \<longleftrightarrow> (case rq_dedupe r of None \<Rightarrow> True | Some d \<Rightarrow> dp_ttlMs d = None)"

lemma enqueueDecide_None_slot:
  assumes o': "slotsOwned s" and d: "enqueueDecide now r s = (None, s')" "rq_dedupe r = Some d"
    and p: "pendingIn s i j"
  shows "dedupeSlot j \<noteq> Some (dedupeMapKey (rq_name r) (dp_key d))"
proof
  assume "dedupeSlot j = Some (dedupeMapKey (rq_name r) (dp_key d))"
  with o' p obtain e where e: "mapGet (dedupes s) (dedupeMapKey (rq_name r) (dp_key d)) = Some e"
    "de_jobId e = i" "de_expiresAt e = None" unfolding slotsOwned_def by metis
  with d p show False
    by (auto simp: enqueueDecide_def dedupeDecide_def pendingIn_def windowLive_def Let_def split: option.splits if_splits)
qed

lemma slotsOwned_create:
  assumes o': "slotsOwned s" and new: "mapGet (jobs s) i = None" and j: "mapGet (jobs s') i = Some j"
    and others: "\<And>k. k \<noteq> i \<Longrightarrow> mapGet (jobs s') k = mapGet (jobs s) k"
    and slot: "case dedupeSlot j of None \<Rightarrow> dedupes s' = dedupes s
      | Some k \<Rightarrow> dedupes s' = mapSet k \<lparr>de_jobId = i, de_expiresAt = None\<rparr> (dedupes s)
          \<and> (\<forall>i' j'. pendingIn s i' j' \<longrightarrow> dedupeSlot j' \<noteq> Some k)"
  shows "slotsOwned s'"
proof -
  have pend: "pendingIn s i' j'" if "pendingIn s' i' j'" "i' \<noteq> i" for i' j'
    using that others by (simp add: pendingIn_def)
  have same: "j' = j" if "pendingIn s' i j'" for j' using that j by (simp add: pendingIn_def)
  show ?thesis
  proof (cases "dedupeSlot j")
    case None
    with slot have d: "dedupes s' = dedupes s" by simp
    have "\<exists>e. mapGet (dedupes s') k = Some e \<and> de_jobId e = i'"
      if "pendingIn s' i' j'" "dedupeSlot j' = Some k" for i' j' k
      using that None o' pend same unfolding d slotsOwned_def by (metis option.distinct(1))
    then show ?thesis using o' unfolding slotsOwned_def d by blast
  next
    case (Some k)
    with slot have d: "dedupes s' = mapSet k \<lparr>de_jobId = i, de_expiresAt = None\<rparr> (dedupes s)"
      and free: "\<And>i' j'. pendingIn s i' j' \<Longrightarrow> dedupeSlot j' \<noteq> Some k" by auto
    have "\<exists>e. mapGet (dedupes s') k' = Some e \<and> de_jobId e = i'"
      if p: "pendingIn s' i' j'" "dedupeSlot j' = Some k'" for i' j' k'
    proof (cases "i' = i")
      case True
      with same p Some show ?thesis by (simp add: d)
    next
      case False
      with pend p have q: "pendingIn s i' j'" by blast
      with free p have "k' \<noteq> k" by blast
      from q p(2) o' obtain e where "mapGet (dedupes s) k' = Some e" "de_jobId e = i'"
        unfolding slotsOwned_def by metis
      with \<open>k' \<noteq> k\<close> show ?thesis by (simp add: d)
    qed
    then show ?thesis using o' unfolding slotsOwned_def d by (auto split: if_splits)
  qed
qed

lemma newJob_slot: "dedupeSlot (newJob i r now sq) = map_option (\<lambda>d. dedupeMapKey (rq_name r) (dp_key d)) (rq_dedupe r)"
  by (cases "rq_dedupe r") (simp_all add: dedupeSlot_def newJob_def)

lemma dedupeDecide_plain:
  assumes "dp_ttlMs d = None" "\<And>k e. mapGet (dedupes s) k = Some e \<Longrightarrow> de_expiresAt e = None"
    and "dedupeDecide now r d s = (res, s')"
  shows "s' = s \<or> (\<exists>i k. mapGet (jobs s) i = Some k \<and> j_state k = Delayed
    \<and> s' = signalWake (Some (j_queue k)) (putJob (replaceJob r now k) s))"
proof (cases "mapGet (dedupes s) (dedupeMapKey (rq_name r) (dp_key d))")
  case None
  with assms(3) show ?thesis by (simp add: dedupeDecide_def)
next
  case (Some e)
  then have "de_expiresAt e = None" by (rule assms(2))
  with Some assms(1,3) show ?thesis
    by (cases "mapGet (jobs s) (de_jobId e)") (auto simp: dedupeDecide_def Let_def windowLive_def split: if_splits)
qed

lemma enqueueDecide_owned:
  assumes w: "wellFormed s" and o': "slotsOwned s" and p: "plainDedupe r"
    and d: "enqueueDecide now r s = (Some res, s')"
  shows "slotsOwned s'"
proof -
  have ex: "\<And>k e. mapGet (dedupes s) k = Some e \<Longrightarrow> de_expiresAt e = None"
    using o' by (simp add: slotsOwned_def)
  have "s' = s \<or> (\<exists>dd. rq_dedupe r = Some dd \<and> dedupeDecide now r dd s = (Some res, s'))"
    using d by (auto simp: enqueueDecide_def split: option.splits if_splits)
  then consider "s' = s" | i k where "mapGet (jobs s) i = Some k" "j_state k = Delayed"
      "s' = signalWake (Some (j_queue k)) (putJob (replaceJob r now k) s)"
  proof (elim disjE exE conjE)
    fix dd assume "rq_dedupe r = Some dd" "dedupeDecide now r dd s = (Some res, s')"
    note dd = this
    have "s' = s \<or> (\<exists>i k. mapGet (jobs s) i = Some k \<and> j_state k = Delayed
        \<and> s' = signalWake (Some (j_queue k)) (putJob (replaceJob r now k) s))"
      by (rule dedupeDecide_plain [OF _ _ dd(2)]) (use p dd ex in \<open>auto simp: plainDedupe_def\<close>)
    with that show thesis by blast
  qed (use that in blast)
  then show ?thesis
  proof cases
    case 1
    with o' show ?thesis by simp
  next
    case 2
    have "j_id k = i" by (rule wf_id [OF w 2(1)])
    moreover have "dedupeSlot (replaceJob r now k) = dedupeSlot k" "j_state (replaceJob r now k) = j_state k"
      "j_id (replaceJob r now k) = j_id k"
      by (simp_all add: dedupeSlot_def replaceJob_def)
    ultimately have "keepsSlots s s'"
      using 2 by (intro keepsSlots_same) (auto simp: pendingIn_def split: if_splits)
    then show ?thesis using o' by (rule keepsSlots_owned)
  qed
qed

lemma enqueueOne_owned:
  assumes w: "wellFormed s" and o': "slotsOwned s" and p: "plainDedupe r"
  shows "slotsOwned (snd (enqueueOne gen now r s))"
proof (cases "enqueueDecide now r s")
  case (Pair found s1)
  show ?thesis
  proof (cases found)
    case (Some x)
    with Pair enqueueDecide_owned [OF assms] show ?thesis by (simp add: enqueueOne_def)
  next
    case None
    with Pair have s1: "s1 = s" using enqueueDecide_None by blast
    obtain ch s2 where c: "chooseId gen r s = (ch, s2)" by fastforce
    then have s2: "jobs s2 = jobs s" "dedupes s2 = dedupes s"
      by (auto simp: chooseId_def Let_def split: option.splits prod.splits)
    show ?thesis
    proof (cases ch)
      case None
      have "keepsSlots s s2" using s2 by (intro keepsSlots_same) (auto simp: pendingIn_def)
      then show ?thesis
        using None Pair c s1 \<open>found = None\<close> o' by (simp add: enqueueOne_def enqueueInsert_def keepsSlots_owned)
    next
      case (Some i)
      have fresh: "mapGet (jobs s) i = None"
      proof -
        have "\<And>k. rq_id r = Some k \<Longrightarrow> mapGet (jobs s) k = None"
          using enqueueDecide_fresh [OF w] Pair \<open>found = None\<close> s1 by blast
        from chooseId_fresh [OF c [unfolded Some] this] s2 show ?thesis by simp
      qed
      have eq: "snd (enqueueOne gen now r s) = registerJob i r now s2"
        using Pair None s1 c Some by (simp add: enqueueOne_def enqueueInsert_def)
      have "keepsSlots s s2" using s2 by (intro keepsSlots_same) (auto simp: pendingIn_def)
      then have o2: "slotsOwned s2" using o' by (rule keepsSlots_owned)
      have free: "\<And>d i' j'. rq_dedupe r = Some d \<Longrightarrow> pendingIn s2 i' j'
          \<Longrightarrow> dedupeSlot j' \<noteq> Some (dedupeMapKey (rq_name r) (dp_key d))"
        using enqueueDecide_None_slot [OF o'] Pair None s1 s2 by (simp add: pendingIn_def)
      show ?thesis unfolding eq
        by (rule slotsOwned_create [OF o2, where i = i and j = "newJob i r now (seqNo s2 + 1)"])
          (use fresh s2 p free in \<open>auto simp: newJob_slot registerJob_def insertJobRecord_def signalWake_def plainDedupe_def
             Let_def split: option.splits\<close>)
    qed
  qed
qed

lemma enqueueMany_owned:
  "wellFormed s \<Longrightarrow> slotsOwned s \<Longrightarrow> \<forall>(now, r)\<in>set rs. plainDedupe r \<Longrightarrow> slotsOwned (snd (enqueueMany gen rs s))"
proof (induction gen rs s rule: enqueueMany.induct)
  case (1 gen s)
  then show ?case by simp
next
  case (2 gen now r rest s)
  obtain x s1 where e: "enqueueOne gen now r s = (x, s1)" by fastforce
  have "slotsOwned s1" "wellFormed s1"
    using enqueueOne_owned [OF 2(2,3), of r gen now] enqueueOne_wf [OF 2(2), of gen now r] 2(4) e by auto
  with 2 e show ?case by (cases x) (auto split: sum.splits prod.splits)
qed

text \<open>All operations except \<open>retry\<close>, with requests whose dedup keys carry no window.\<close>

fun plainOp :: "op \<Rightarrow> bool" where
  "plainOp (OpEnqueue now r) = plainDedupe r"
| "plainOp (OpEnqueueMany rs) = list_all (\<lambda>(now, r). plainDedupe r) rs"
| "plainOp (OpTickSchedule now k a b r) = (rq_dedupe r = None)"
| "plainOp (OpRetry now i) = False"
| "plainOp op = True"

lemma keepsSlots_jobs_changed:
  assumes "mapGet (jobs s) i = Some j0" "\<And>k. k \<noteq> i \<Longrightarrow> mapGet (jobs s') k = mapGet (jobs s) k"
    and "dedupes s' = dedupes s" "j_state j0 \<notin> TERMINAL_STATES"
    and "\<And>j. mapGet (jobs s') i = Some j \<Longrightarrow> dedupeSlot j = dedupeSlot j0"
  shows "keepsSlots s s'"
proof (rule keepsSlots_same [OF _ assms(3)])
  fix k j' assume "pendingIn s' k j'"
  with assms(1,2,4,5) show "\<exists>j. pendingIn s k j \<and> dedupeSlot j = dedupeSlot j'"
    by (cases "k = i") (auto simp: pendingIn_def)
qed

lemma ackFanOut_cancel:
  assumes "j_cancelRequested job"
  shows "\<exists>job3 s3. ackFanOut now ff children job s = markCancelled job3 now s3
    \<and> j_id job3 = j_id job \<and> jobs s3 = jobs s \<and> dedupes s3 = dedupes s"
proof -
  have *: "(\<exists>job3 s3. (case settleMarkRows j2 s2 of (job3, s3) \<Rightarrow> markCancelled job3 now s3) = markCancelled job3 now s3
      \<and> j_id job3 = j_id j2 \<and> jobs s3 = jobs s2 \<and> dedupes s3 = dedupes s2)" for j2 s2
  proof -
    obtain f where "fst (settleMarkRows j2 s2) = j2\<lparr>j_flow := f\<rparr>" using settleMarkRows_job by blast
    then show ?thesis
      by (intro exI [of _ "fst (settleMarkRows j2 s2)"] exI [of _ "snd (settleMarkRows j2 s2)"]) (simp add: split_beta)
  qed
  show ?thesis
  proof (cases "j_flow job")
    case None
    with assms * [of "(recordAttempt AFannedOut now None job)\<lparr>j_flow := Some (openFlow ff children)\<rparr>"
        "s\<lparr>flowChildren := mapSet (j_id job) (stageRows (j_id job) now children) (flowChildren s)\<rparr>"]
    show ?thesis by (simp add: ackFanOut_def Let_def)
  next
    case (Some flow)
    with assms * [of "recordAttempt AFannedOut now None job" s] show ?thesis by (simp add: ackFanOut_def Let_def)
  qed
qed

lemma ackFanOut_dedupes:
  "\<not> j_cancelRequested job \<Longrightarrow> dedupes (ackFanOut now ff children job s) = dedupes s"
  by (cases "j_flow job") (simp_all add: ackFanOut_def Let_def)

lemma keepsSlots_calm: "jobs s' = jobs s \<Longrightarrow> dedupes s' = dedupes s \<Longrightarrow> keepsSlots s s'"
  by (rule keepsSlots_same) (auto simp: pendingIn_def)

lemma ack_keeps:
  assumes w: "wellFormed s"
  shows "keepsSlots s (snd (ack now i token oc s))"
proof (cases "\<exists>j. mapGet (jobs s) i = Some j \<and> j_state j = Active \<and> \<not> missingChildId oc \<and> m_lockToken j = Some token")
  case False
  then show ?thesis by (auto simp: ack_def split: option.split)
next
  case True
  then obtain j where j: "mapGet (jobs s) i = Some j" "j_state j = Active" "\<not> missingChildId oc" "m_lockToken j = Some token"
    by blast
  have id: "j_id j = i" by (rule wf_id [OF w j(1)])
  have fin: "keepsSlots s (finishJob st o' t ex b now ((clearLock j)\<lparr>j_attemptsMade := n\<rparr>) s)"
    if "st \<in> TERMINAL_STATES" for st o' t ex b n
    by (rule keepsSlots_finishJob [OF j(1) _ that]) (simp add: id)
  show ?thesis
  proof (cases oc)
    case (Retry d ex)
    have "keepsSlots s (ackRetry now d ex ((clearLock j)\<lparr>j_attemptsMade := j_attemptsMade j + 1\<rparr>) s)"
    proof (cases "j_cancelRequested j")
      case True
      then show ?thesis by (simp add: ackRetry_def keepsSlots_markCancelled [OF j(1)] id)
    next
      case False
      show ?thesis
        by (rule keepsSlots_jobs_changed [OF j(1)])
          (use False j(2) id in \<open>auto simp: ackRetry_def Let_def dedupeSlot_def\<close>)
    qed
    with j Retry show ?thesis by (simp add: ack_def applyOutcome_def isFanOut_def)
  next
    case (FanOut ff children)
    have eq: "snd (ack now i token oc s) = ackFanOut now ff children (clearLock j) s"
      using j FanOut by (simp add: ack_def applyOutcome_def isFanOut_def)
    show ?thesis
    proof (cases "j_cancelRequested j")
      case True
      then obtain job3 s3 where m: "ackFanOut now ff children (clearLock j) s = markCancelled job3 now s3"
        "j_id job3 = i" "jobs s3 = jobs s" "dedupes s3 = dedupes s"
        using ackFanOut_cancel [of "clearLock j" now ff children s] id by auto
      with j(1) have "keepsSlots s3 (markCancelled job3 now s3)" by (intro keepsSlots_markCancelled) auto
      with m show ?thesis unfolding eq m(1) by (blast intro: keepsSlots_trans [OF keepsSlots_calm])
    next
      case False
      then have "dedupes (exec None (OpAck now i token oc) s) = dedupes s" using eq ackFanOut_dedupes by simp
      with keepsSlots_exec_same [OF w, of "OpAck now i token oc" None] show ?thesis by simp
    qed
  qed (use j fin in \<open>simp_all add: ack_def applyOutcome_def isFanOut_def\<close>)
qed

lemma release_keeps:
  assumes w: "wellFormed s"
  shows "keepsSlots s (snd (release now i token s))"
proof (cases "\<exists>j. mapGet (jobs s) i = Some j \<and> j_cancelRequested j")
  case True
  then obtain j where j: "mapGet (jobs s) i = Some j" "j_cancelRequested j" by blast
  with keepsSlots_markCancelled [OF j(1), of j] wf_id [OF w j(1)] show ?thesis by (simp add: release_def)
next
  case False
  then have "dedupes (exec None (OpRelease now i token) s) = dedupes s"
    by (auto simp: release_def split: option.split)
  with keepsSlots_exec_same [OF w, of "OpRelease now i token" None] show ?thesis by simp
qed

lemma cancelJob_keeps:
  assumes w: "wellFormed s"
  shows "keepsSlots s (snd (cancelJob now i s))"
proof (cases "mapGet (jobs s) i")
  case None
  then show ?thesis by (simp add: cancelJob_def)
next
  case (Some j)
  have "keepsSlots s (markCancelled j now s)"
    by (rule keepsSlots_markCancelled [OF Some wf_id [OF w Some]])
  moreover have "j_state j = Active \<Longrightarrow> keepsSlots s (putJob (j\<lparr>j_cancelRequested := True\<rparr>) s)"
    by (rule keepsSlots_jobs_changed [OF Some]) (auto simp: wf_id [OF w Some] dedupeSlot_def)
  ultimately show ?thesis using Some by (cases "j_state j") (simp_all add: cancelJob_def)
qed

lemma cancelByDedupe_keeps:
  assumes w: "wellFormed s"
  shows "keepsSlots s (snd (cancelByDedupe now name key s))"
proof (cases "mapGet (dedupes s) (dedupeMapKey name key)")
  case None
  then show ?thesis by (simp add: cancelByDedupe_def)
next
  case (Some e)
  then have "snd (cancelByDedupe now name key s) = snd (cancelJob now (de_jobId e) s)"
    by (auto simp: cancelByDedupe_def split: sum.split store_error.split prod.split)
  with cancelJob_keeps [OF w] show ?thesis by simp
qed

lemma recoverStep_keeps:
  assumes w: "wellFormed (snd acc)"
  shows "keepsSlots (snd acc) (snd (recoverStep now m i acc))"
proof -
  obtain rec s where acc: "acc = (rec, s)" by fastforce
  show ?thesis
  proof (cases "\<exists>j. mapGet (jobs s) i = Some j \<and> stalled now j")
    case False
    then show ?thesis by (auto simp: recoverStep_def acc split: option.split)
  next
    case True
    then obtain j where j: "mapGet (jobs s) i = Some j" "stalled now j" by blast
    then have act: "j_state j = Active" by (simp add: stalled_def)
    have id: "j_id j = i" using wf_id w j(1) acc by simp
    let ?job2 = "recordAttempt AStalled now None ((clearLock j)\<lparr>j_stalledCount := j_stalledCount j + 1\<rparr>)"
    let ?job3 = "?job2\<lparr>j_state := Failed, j_finishedAt := Some now,
      j_failedReason := Some ''job stalled more than allowable limit''\<rparr>"
    have 1: "keepsSlots s (markCancelled j now s)" by (rule keepsSlots_markCancelled [OF j(1) id])
    have 2: "keepsSlots s (releaseDedupe ?job3 now (appendOutbox ?job3 TFailed (putJob ?job3 s)))"
      by (rule keepsSlots_finish [OF j(1)]) (simp_all add: id)
    have 3: "keepsSlots s (putJob (?job2\<lparr>j_state := Waiting\<rparr>) s)"
      by (rule keepsSlots_jobs_changed [OF j(1)]) (auto simp: id act dedupeSlot_def)
    from 1 2 3 j show ?thesis by (simp add: recoverStep_def recoverJob_def acc Let_def)
  qed
qed

lemma recoverStalled_keeps:
  assumes w: "wellFormed s"
  shows "keepsSlots s (snd (recoverStalled now m s))"
proof -
  let ?r = "fold (recoverStep now m) (mapKeys (jobs s)) ([], s)"
  have "wellFormed (snd ?r) \<and> keepsSlots s (snd ?r)"
    by (rule fold_invariant_list [where I = "\<lambda>acc. wellFormed (snd acc) \<and> keepsSlots s (snd acc)"])
      (use w recoverStep_wf recoverStep_keeps in \<open>auto intro: keepsSlots_trans\<close>)
  then have "keepsSlots s (snd ?r)" by simp
  moreover have "keepsSlots (snd ?r) (snd (recoverStalled now m s))"
    by (rule keepsSlots_calm) (simp_all add: recoverStalled_def split: prod.split)
  ultimately show ?thesis by (rule keepsSlots_trans)
qed

lemma settleOne_keeps:
  assumes w: "wfx {} B s"
  shows "keepsSlots s (snd (settleOne now reports (i, t) (results, s)))"
proof (cases "\<exists>p. mapGet (jobs s) i = Some p \<and> j_state p = WaitingChildren")
  case False
  then show ?thesis by (auto simp: settleOne_def split: option.split)
next
  case True
  then obtain p where p: "mapGet (jobs s) i = Some p" "j_state p = WaitingChildren" by blast
  have id: "j_id p = i" using wfx_id [OF w _ p(1)] by simp
  have "keepsSlots s (failParent key now p s)" for key by (rule keepsSlots_failParent [OF p(1) id])
  moreover have "keepsSlots s (resumeParent now p s)"
    by (rule keepsSlots_jobs_changed [OF p(1)]) (auto simp: p(2) id resumeParent_def Let_def dedupeSlot_def)
  ultimately show ?thesis by (auto simp: settleOne_def p split: option.split)
qed

lemma settleOne_fold_keeps:
  "wfx {} (set (mapKeys touched)) s \<Longrightarrow>
     keepsSlots s (snd (fold (settleOne now reports) touched (results, s)))"
proof (induction touched arbitrary: results s)
  case Nil
  then show ?case by simp
next
  case (Cons p ps)
  obtain i t where p: "p = (i, t)" by fastforce
  obtain results' s' where step: "settleOne now reports p (results, s) = (results', s')" by fastforce
  have "wfx {} (set (mapKeys ps)) s'"
    using settleOne_wf [of i "set (mapKeys ps)" s now reports t results] Cons.prems p step by simp
  from Cons.IH [OF this, of results'] settleOne_keeps [OF Cons.prems, of now reports i t results]
  show ?case using p step by (auto intro: keepsSlots_trans)
qed

lemma countOnParent_dedupes [simp]: "dedupes (countOnParent r s) = dedupes s"
  by (simp add: countOnParent_def split: option.split)

lemma setRow_dedupes [simp]: "dedupes (setRow i k row s) = dedupes s"
  by (simp add: setRow_def split: option.split)

lemma recordPhase1_dedupes: "dedupes (snd (snd (recordPhase1 reports s))) = dedupes s"
  unfolding recordPhase1_def
  by (rule fold_invariant_list [where I = "\<lambda>acc. dedupes (snd (snd acc)) = dedupes s"])
    (auto simp: recordOne_def split: option.split)

lemma recordChildResults_keeps:
  assumes w: "wellFormed s"
  shows "keepsSlots s (snd (recordChildResults now reports s))"
proof -
  obtain results touched s1 where p1: "recordPhase1 reports s = (results, touched, s1)"
    by (metis prod_cases3)
  have "keepsSlots s s1"
  proof (rule keepsSlots_same)
    fix i j' assume "pendingIn s1 i j'"
    with recordPhase1_trace [OF w, of now reports reports] p1
    show "\<exists>j. pendingIn s i j \<and> dedupeSlot j = dedupeSlot j'"
      by (intro trace_pending [where P = "permitted (OpRecordChildResults now reports)"]) auto
  qed (use recordPhase1_dedupes [of reports s] p1 in simp)
  moreover have "wfx {} (set (mapKeys touched)) s1"
    using recordPhase1_ok [OF w, of reports] p1 by (simp add: phase1_ok_def)
  from settleOne_fold_keeps [OF this, of now reports results]
  have "keepsSlots s1 (snd (recordChildResults now reports s))" by (simp add: recordChildResults_def p1)
  ultimately show ?thesis by (rule keepsSlots_trans)
qed

lemma sweepHistory_keeps:
  assumes w: "wellFormed s"
  shows "slotsOwned s \<Longrightarrow> slotsOwned (sweepHistory now ttl s)"
proof -
  let ?f = "fold (sweepJob now ttl) (mapValues (jobs s)) s"
  have f: "dedupes ?f = dedupes s \<and> (\<forall>k. mapGet (jobs ?f) k = mapGet (jobs s) k \<or> mapGet (jobs ?f) k = None)"
    by (rule fold_invariant_list) (auto simp: sweepJob_def mapGet_delete split: option.split)
  then have "keepsSlots s ?f" by (intro keepsSlots_deletes) auto
  then have "slotsOwned s \<Longrightarrow> slotsOwned ?f" by (rule keepsSlots_owned)
  moreover have "slotsOwned ?f \<Longrightarrow> slotsOwned (sweepHistory now ttl s)"
  proof -
    assume o': "slotsOwned ?f"
    then have d: "distinct (mapKeys (dedupes ?f))" by (simp add: slotsOwned_def)
    have sub: "mapGet (dedupes (sweepHistory now ttl s)) k = Some e
        \<longleftrightarrow> mapGet (dedupes ?f) k = Some e \<and> dedupeAlive now ?f e" for k e
    proof -
      have "distinct (mapKeys (filter P (dedupes ?f)))" for P using d by (rule distinct_map_filter)
      with d show ?thesis by (simp add: sweepHistory_def Let_def mapGet_iff)
    qed
    have j: "jobs (sweepHistory now ttl s) = jobs ?f" by (simp add: sweepHistory_def Let_def)
    have "distinct (mapKeys (dedupes (sweepHistory now ttl s)))"
      using d by (simp add: sweepHistory_def Let_def distinct_map_filter)
    moreover have "\<exists>e. mapGet (dedupes (sweepHistory now ttl s)) k = Some e \<and> de_jobId e = i"
      if p: "pendingIn (sweepHistory now ttl s) i jj" "dedupeSlot jj = Some k" for i jj k
    proof -
      from p j have q: "pendingIn ?f i jj" by (simp add: pendingIn_def)
      with o' p(2) obtain e where e: "mapGet (dedupes ?f) k = Some e" "de_jobId e = i" "de_expiresAt e = None"
        unfolding slotsOwned_def by metis
      with q have "dedupeAlive now ?f e" by (simp add: dedupeAlive_def pendingIn_def)
      with e show ?thesis unfolding sub by blast
    qed
    ultimately show ?thesis using o' unfolding slotsOwned_def sub by blast
  qed
  ultimately show "slotsOwned s \<Longrightarrow> slotsOwned (sweepHistory now ttl s)" by blast
qed

lemma claim_dedupes: "dedupes (snd (claim now opts s)) = dedupes s"
  by (auto simp: claim_def promoteDue_def Let_def split: prod.split option.split)

lemma extendLocks_dedupes: "dedupes (snd (extendLocks now locks d s)) = dedupes s"
  by (induction now locks d s rule: extendLocks.induct) (auto simp: split_beta Let_def split: option.split)

lemma tickSchedule_owned:
  assumes "slotsOwned s" "rq_dedupe r = None"
  shows "slotsOwned (snd (tickSchedule now k a b r s))"
proof -
  let ?s = "snd (tickSchedule now k a b r s)"
  have d: "dedupes ?s = dedupes s"
    by (auto simp: tickSchedule_def setNextRun_def insertJobRecord_def signalWake_def Let_def split: option.split)
  have "jobs ?s = jobs s
      \<or> (\<exists>i. mapGet (jobs s) i = None \<and> jobs ?s = mapSet i (newJob i r now (seqNo s + 1)) (jobs s))"
    by (auto simp: tickSchedule_def setNextRun_def insertJobRecord_def signalWake_def Let_def split: option.split)
  then consider "jobs ?s = jobs s"
    | i where "mapGet (jobs s) i = None" "jobs ?s = mapSet i (newJob i r now (seqNo s + 1)) (jobs s)" by blast
  then show ?thesis
  proof cases
    case 1
    then show ?thesis using keepsSlots_calm [OF _ d] keepsSlots_owned assms(1) by blast
  next
    case 2
    then show ?thesis
      by (intro slotsOwned_create [OF assms(1) 2(1)]) (use assms(2) d in \<open>auto simp: newJob_slot\<close>)
  qed
qed

lemma exec_owned:
  assumes w: "wellFormed s" and o': "slotsOwned s" and p: "plainOp op"
  shows "slotsOwned (exec gen op s)"
proof -
  have keep: "keepsSlots s (exec gen op s) \<Longrightarrow> ?thesis" using o' by (rule keepsSlots_owned [rotated])
  have same: "\<not> creates op \<Longrightarrow> dedupes (exec gen op s) = dedupes s \<Longrightarrow> ?thesis"
    using keepsSlots_exec_same [OF w] keep by blast
  show ?thesis
  proof (cases op)
    case (OpEnqueue now r)
    with enqueueOne_owned [OF w o'] p show ?thesis by simp
  next
    case (OpEnqueueMany rs)
    with enqueueMany_owned [OF w o'] p show ?thesis by (simp add: list_all_iff)
  next
    case (OpTickSchedule now k a b r)
    with tickSchedule_owned [OF o'] p show ?thesis by simp
  next
    case (OpSweepHistory now ttl)
    with sweepHistory_keeps [OF w o'] show ?thesis by simp
  next
    case (OpAck now i token oc)
    with keep ack_keeps [OF w] show ?thesis by simp
  next
    case (OpRelease now i token)
    with keep release_keeps [OF w] show ?thesis by simp
  next
    case (OpRecoverStalled now m)
    with keep recoverStalled_keeps [OF w] show ?thesis by simp
  next
    case (OpCancel now i)
    with keep cancelJob_keeps [OF w] show ?thesis by simp
  next
    case (OpCancelByDedupe now n k)
    with keep cancelByDedupe_keeps [OF w] show ?thesis by simp
  next
    case (OpRecordChildResults now rs)
    with keep recordChildResults_keeps [OF w] show ?thesis by simp
  next
    case (OpRemove i)
    show ?thesis by (rule same) (auto simp: OpRemove remove_def split: option.split)
  next
    case (OpPromote now i)
    show ?thesis by (rule same) (auto simp: OpPromote promote_def split: option.split)
  next
    case (OpRetry now i)
    with p show ?thesis by simp
  qed (rule same; auto simp: claim_dedupes extendLocks_dedupes awaitWake_def cancelWait_def pause_def resume_def
       upsertSchedule_def removeSchedule_def advanceSchedule_def setNextRun_def deleteOutbox_def flowSweepWork_def
       markChildrenCascaded_def Let_def split_beta split: option.split)+
qed

lemma execs_owned:
  "wellFormed s \<Longrightarrow> slotsOwned s \<Longrightarrow> list_all op_ok ops \<Longrightarrow> list_all plainOp ops \<Longrightarrow> slotsOwned (execs gen ops s)"
  by (induction ops arbitrary: s) (auto simp: exec_wf exec_owned)

lemma slotsOwned_empty: "slotsOwned emptyStore"
  by (simp add: slotsOwned_def emptyStore_def pendingIn_def)

text \<open>C9: dedup keys are exclusive while a job is pending, in runs without \<open>retry\<close>. In any run of the
  store's operations from the empty store, when the dedup requests ask for the pending mode (no time
  window), at most one job with a given name and dedup key is waiting, delayed, active or waiting for
  children. Three things are outside the claim: suspended enqueues, which can duplicate a key; schedule
  ticks with a dedup key, which no sweep issues; and \<open>retry\<close>, which makes a failed job pending again
  without asking for its key (\<open>retry_forgets_the_key\<close> below gives the run that breaks exclusivity).\<close>

theorem pending_dedupe_keys_are_exclusive:
  assumes "list_all op_ok ops" and "list_all plainOp ops"
    and "pendingIn (execs gen ops emptyStore) i j" and "pendingIn (execs gen ops emptyStore) i' j'"
    and "j_name j' = j_name j" and "j_dedupeKey j' = j_dedupeKey j" and "j_dedupeKey j \<noteq> None"
  shows "i' = i"
proof -
  have o': "slotsOwned (execs gen ops emptyStore)"
    by (rule execs_owned [OF wf_empty slotsOwned_empty assms(1,2)])
  from assms(5-7) obtain k where "dedupeSlot j = Some k" "dedupeSlot j' = Some k"
    by (auto simp: dedupeSlot_def)
  with o' assms(3,4) show ?thesis unfolding slotsOwned_def by (metis option.inject)
qed

definition keyedRequest :: enqueue_request where
  "keyedRequest = aRequest\<lparr>rq_dedupe := Some \<lparr>dp_key = ''k'', dp_ttlMs = None, dp_extend = False, dp_replace = False\<rparr>\<rparr>"

definition keyedRun :: "op list" where
  "keyedRun = [OpEnqueue 0 keyedRequest, OpEnqueue 1 keyedRequest, OpClaim 2 someOptions, OpEnqueue 3 keyedRequest]"

lemma keyedRun_job:
  "case mapGet (jobs (execs None keyedRun emptyStore)) ''j-1'' of None \<Rightarrow> False
   | Some j \<Rightarrow> j_state j = Active \<and> j_dedupeKey j = Some ''k''"
  by code_simp

theorem pending_dedupe_keys_are_exclusive_witness:
  "\<exists>j. pendingIn (execs None keyedRun emptyStore) ''j-1'' j
    \<and> (\<forall>i j'. pendingIn (execs None keyedRun emptyStore) i j' \<and> j_name j' = j_name j \<and> j_dedupeKey j' = j_dedupeKey j
         \<longrightarrow> i = ''j-1'')"
proof -
  have ok: "list_all op_ok keyedRun" "list_all plainOp keyedRun"
    by (simp_all add: keyedRun_def keyedRequest_def plainDedupe_def)
  from keyedRun_job obtain j where "mapGet (jobs (execs None keyedRun emptyStore)) ''j-1'' = Some j"
    "j_state j = Active" and k: "j_dedupeKey j = Some ''k''" by (auto split: option.splits)
  then have p: "pendingIn (execs None keyedRun emptyStore) ''j-1'' j" by (simp add: pendingIn_def)
  from pending_dedupe_keys_are_exclusive [OF ok p] k
  have "\<And>i j'. pendingIn (execs None keyedRun emptyStore) i j' \<Longrightarrow> j_name j' = j_name j
      \<Longrightarrow> j_dedupeKey j' = j_dedupeKey j \<Longrightarrow> i = ''j-1''" by simp
  with p show ?thesis by blast
qed

text \<open>\<open>retry\<close> does not ask for the key: the first job fails, its key is free and taken by a second job,
  then the first is retried, and both wait with one name and one key.\<close>

definition retriedRun :: "op list" where
  "retriedRun = [OpEnqueue 0 keyedRequest, OpClaim 1 someOptions, OpAck 2 ''j-1'' ''t'' (Fail None),
     OpEnqueue 3 keyedRequest, OpRetry 4 ''j-1'']"

lemma retry_forgets_the_key:
  "map (\<lambda>j. (j_id j, j_name j, j_dedupeKey j, j_state j)) (mapValues (jobs (execs None retriedRun emptyStore)))
     = [(''j-1'', ''mail'', Some ''k'', Waiting), (''j-2'', ''mail'', Some ''k'', Waiting)]"
  by code_simp

text \<open>C20: the interleaving that defeats exclusivity. With an id generator that is an effect, an enqueue is
  suspended between its dedup decision and its insertion; two enqueues of the same name and key can both
  pass the decision and then both insert, so two pending jobs share the key.\<close>

theorem suspended_enqueues_can_duplicate:
  "\<exists>s i i' j j'. reachable gen (s, []) \<and> i \<noteq> i' \<and> pendingIn s i j \<and> pendingIn s i' j'
     \<and> j_name j' = j_name j \<and> j_dedupeKey j' = j_dedupeKey j \<and> j_dedupeKey j = Some ''k''"
proof -
  let ?r = keyedRequest
  let ?s1 = "registerJob ''x'' ?r 0 emptyStore"
  let ?s2 = "registerJob ''y'' ?r 0 ?s1"
  have d: "enqueueDecide 0 ?r emptyStore = (None, emptyStore)" "rq_id ?r = None" by code_simp+
  have "reachable gen (emptyStore, [(0, ?r)])"
    by (rule reachable_step [OF reachable_init step_suspend [OF d(2,1)]])
  then have "reachable gen (emptyStore, [(0, ?r), (0, ?r)])"
    by (rule reachable_step [OF _ step_suspend [OF d(2,1)]])
  then have "reachable gen (?s1, remove1 (0, ?r) [(0, ?r), (0, ?r)])"
    by (rule reachable_step [OF _ step_resume]) (simp_all add: emptyStore_def)
  then have "reachable gen (?s2, remove1 (0, ?r) (remove1 (0, ?r) [(0, ?r), (0, ?r)]))"
    by (rule reachable_step [OF _ step_resume]) (simp_all add: emptyStore_def)
  then have r: "reachable gen (?s2, [])" by simp
  have "pendingIn ?s2 ''x'' (newJob ''x'' ?r 0 1)" "pendingIn ?s2 ''y'' (newJob ''y'' ?r 0 2)"
    by (simp_all add: pendingIn_def emptyStore_def numeral_2_eq_2)
  moreover have "j_name (newJob ''y'' ?r 0 2) = j_name (newJob ''x'' ?r 0 1)"
    "j_dedupeKey (newJob ''y'' ?r 0 2) = Some ''k''" "j_dedupeKey (newJob ''x'' ?r 0 1) = Some ''k''"
    by (simp_all add: newJob_def keyedRequest_def)
  moreover have "''x'' \<noteq> ''y''" by simp
  ultimately show ?thesis
    by (intro exI [of _ ?s2] exI [of _ "''x''"] exI [of _ "''y''"] exI [of _ "newJob ''x'' ?r 0 1"]
        exI [of _ "newJob ''y'' ?r 0 2"] conjI r) (simp_all only: simp_thms)
qed

end
