(* ===== verification/ScheduleProps.thy ===== *)
theory ScheduleProps
  imports Samples MemSchedules
begin

text \<open>
  Properties of repeatable jobs: every slot of a schedule fires at most once however many workers tick
  it, an upsert keeps the pending slot of an unchanged cadence, the due list is complete and ordered,
  and the next occurrence is the first one after now.
\<close>

section \<open>The interface of a slot clock\<close>

text \<open>
  What a client of a schedule store relies on: a read of the current slot of a key and an operation
  that takes a slot by compare-and-set. A step is \<open>forward\<close> from \<open>e\<close> when it does not bring back slot
  \<open>e\<close> or an earlier one.
\<close>

definition isPast :: "int \<Rightarrow> int option \<Rightarrow> bool" where
  "isPast e slot = (case slot of None \<Rightarrow> True | Some b \<Rightarrow> e < b)"

locale slot_clock =
  fixes slotOf :: "'k \<Rightarrow> 's \<Rightarrow> int option"
    and take_slot :: "'c \<Rightarrow> 'k \<Rightarrow> int \<Rightarrow> int \<Rightarrow> 's \<Rightarrow> bool \<times> 's"
    and forward :: "int \<Rightarrow> 'k \<Rightarrow> 's \<Rightarrow> 's \<Rightarrow> bool"
  assumes take_hit: "slotOf k s = Some e \<Longrightarrow> slotOf k (snd (take_slot c k e n s)) = Some n"
    and take_miss: "slotOf k s \<noteq> Some e \<Longrightarrow> take_slot c k e n s = (False, s)"
    and forward_slot: "forward e k s s' \<Longrightarrow> isPast e (slotOf k s) \<Longrightarrow> isPast e (slotOf k s')"
begin

inductive later :: "int \<Rightarrow> 'k \<Rightarrow> 's \<Rightarrow> 's \<Rightarrow> bool" for e k where
  later_refl: "later e k s s"
| later_step: "later e k s s' \<Longrightarrow> forward e k s' s'' \<Longrightarrow> later e k s s''"

lemma later_slot: "later e k s s' \<Longrightarrow> isPast e (slotOf k s) \<Longrightarrow> isPast e (slotOf k s')"
  by (induction rule: later.induct) (auto dest: forward_slot)

lemma taken_once:
  assumes "slotOf k s = Some e" "e < n" "later e k (snd (take_slot c k e n s)) s'"
  shows "take_slot c' k e n' s' = (False, s')"
proof -
  have "isPast e (slotOf k s')" using later_slot [OF assms(3)] take_hit [OF assms(1)] assms(2) by (simp add: isPast_def)
  then show ?thesis by (intro take_miss) (auto simp: isPast_def)
qed

end

section \<open>The memory store as a slot clock\<close>

definition scheduleSlot :: "schedule_key \<Rightarrow> mem_store \<Rightarrow> millis option" where
  "scheduleSlot k s = map_option sc_nextRunAt (mapGet (schedules s) k)"

definition tickSlot ::
  "millis \<times> job_id \<times> enqueue_request \<Rightarrow> schedule_key \<Rightarrow> millis \<Rightarrow> millis \<Rightarrow> mem_store \<Rightarrow> bool \<times> mem_store" where
  "tickSlot c k e n s =
     (case c of (now, i, r) \<Rightarrow>
        (case tickSchedule now k e n (r\<lparr>rq_id := Some i\<rparr>) s of
           (Inr fired, s') \<Rightarrow> (fired, s') | (Inl _, s') \<Rightarrow> (False, s')))"

text \<open>
  Operations that do not bring slot \<open>e\<close> of \<open>k\<close> back: an upsert of \<open>k\<close> plans a run after \<open>e\<close>, ticks and
  advances of \<open>k\<close> move its slot forward; removing the schedule is fine, and so is everything else.
\<close>

fun leavesBehind :: "millis \<Rightarrow> schedule_key \<Rightarrow> op \<Rightarrow> bool" where
  "leavesBehind e k (OpUpsertSchedule sc) = (sc_key sc = k \<longrightarrow> e < sc_nextRunAt sc)"
| "leavesBehind e k (OpAdvanceSchedule k' a n) = (k' = k \<longrightarrow> a < n)"
| "leavesBehind e k (OpTickSchedule now k' a n r) = (k' = k \<longrightarrow> a < n)"
| "leavesBehind e k _ = True"

definition steadyStep :: "millis \<Rightarrow> schedule_key \<Rightarrow> mem_store \<Rightarrow> mem_store \<Rightarrow> bool" where
  "steadyStep e k s s' \<longleftrightarrow> (\<exists>gen op. leavesBehind e k op \<and> s' = exec gen op s)"

text \<open>No other operation touches the schedules.\<close>

lemma frame_schedules [simp]:
  "schedules (signalWake q s) = schedules s" "schedules (putJob j s) = schedules s"
  "schedules (appendOutbox j t s) = schedules s" "schedules (releaseDedupe j now s) = schedules s"
  "schedules (deleteJob i s) = schedules s" "schedules (insertJobRecord i r now s) = schedules s"
  "schedules (registerJob i r now s) = schedules s" "schedules (promoteDue now s) = schedules s"
  "schedules (setExpiry key e x s) = schedules s" "schedules (countOnParent rep s) = schedules s"
  "schedules (setRow i k row s) = schedules s" "schedules (snd (settleMarkRows j s)) = schedules s"
  by (auto simp: signalWake_def putJob_def appendOutbox_def releaseDedupe_def deleteJob_def insertJobRecord_def
      registerJob_def promoteDue_def setExpiry_def countOnParent_def setRow_def settleMarkRows_def
      markPendingRowsCancelled_def Let_def split_beta split: option.split)

lemma applyKeep_schedules [simp]: "schedules (applyKeep job now s) = schedules s"
proof -
  have "schedules (fold pruneUnlessOwing xs s) = schedules s" for xs
    by (rule fold_invariant_list [where I = "\<lambda>s'. schedules s' = schedules s"]) (simp_all add: pruneUnlessOwing_def)
  then show ?thesis by (simp add: applyKeep_def split: option.split)
qed

lemma finish_schedules [simp]:
  "schedules (markCancelled job now s) = schedules s"
  "schedules (finishJob st oc t ex b now job s) = schedules s"
  "schedules (failParent key now job s) = schedules s"
  "schedules (resumeParent now job s) = schedules s"
  by (simp_all add: markCancelled_def finishJob_def failParent_def resumeParent_def Let_def split_beta)

lemma enqueueOne_schedules [simp]: "schedules (snd (enqueueOne gen now r s)) = schedules s"
proof -
  have d: "schedules (snd (enqueueDecide now r s)) = schedules s"
    by (auto simp: enqueueDecide_def dedupeDecide_def Let_def split: option.split)
  have c: "schedules (snd (chooseId gen r s')) = schedules s'" for s'
    by (auto simp: chooseId_def Let_def split: option.split prod.split)
  have "schedules (snd (enqueueInsert gen now r s')) = schedules s'" for s'
    using c [of s'] by (auto simp: enqueueInsert_def split: prod.split option.split)
  with d show ?thesis by (auto simp: enqueueOne_def split_beta split: option.split)
qed

lemma enqueueMany_schedules [simp]: "schedules (snd (enqueueMany gen rs s)) = schedules s"
proof (induction gen rs s rule: enqueueMany.induct)
  case (2 gen now r rest s)
  obtain x s1 where e: "enqueueOne gen now r s = (x, s1)" by fastforce
  with enqueueOne_schedules [of gen now r s] have "schedules s1 = schedules s" by simp
  with 2 e show ?case by (cases x) (auto split: sum.split prod.split)
qed simp

lemma claim_schedules [simp]: "schedules (snd (claim now opts s)) = schedules s"
  by (auto simp: claim_def Let_def split: prod.split option.split)

lemma extendLocks_schedules [simp]: "schedules (snd (extendLocks now locks d s)) = schedules s"
  by (induction now locks d s rule: extendLocks.induct) (auto simp: split_beta Let_def split: option.split)

lemma ack_schedules [simp]: "schedules (snd (ack now i token oc s)) = schedules s"
proof -
  have f: "schedules (ackFanOut now ff ch job s) = schedules s" for ff ch job
    by (cases "j_flow job") (simp_all add: ackFanOut_def Let_def split_beta)
  have r: "schedules (ackRetry now d ex job s) = schedules s" for d ex job
    by (simp add: ackRetry_def Let_def)
  show ?thesis
    by (cases oc) (auto simp: ack_def applyOutcome_def f r Let_def split: option.split)
qed

lemma recoverStalled_schedules [simp]: "schedules (snd (recoverStalled now m s)) = schedules s"
proof -
  have "schedules (snd (fold (recoverStep now m) xs ([], s))) = schedules s" for xs
    by (rule fold_invariant_list [where I = "\<lambda>acc. schedules (snd acc) = schedules s"])
      (auto simp: recoverStep_def recoverJob_def Let_def split: option.split prod.split)
  then show ?thesis by (auto simp: recoverStalled_def split_beta)
qed

lemma cancelJob_schedules [simp]: "schedules (snd (cancelJob now i s)) = schedules s"
  by (auto simp: cancelJob_def split: option.split job_state.split)

lemma admin_schedules [simp]:
  "schedules (snd (cancelByDedupe now name key s)) = schedules s"
  "schedules (snd (retry now i s)) = schedules s" "schedules (snd (promote now i s)) = schedules s"
  "schedules (snd (release now i token s)) = schedules s" "schedules (snd (remove i s)) = schedules s"
  "schedules (pause q s) = schedules s" "schedules (resume q s) = schedules s"
  "schedules (snd (awaitWake qs t s)) = schedules s" "schedules (cancelWait w s) = schedules s"
proof -
  have "snd (cancelByDedupe now name key s) = snd (cancelJob now (de_jobId e) s)"
    if "mapGet (dedupes s) (dedupeMapKey name key) = Some e" for e
    using that by (auto simp: cancelByDedupe_def split: prod.split sum.split store_error.split)
  then show "schedules (snd (cancelByDedupe now name key s)) = schedules s"
    by (cases "mapGet (dedupes s) (dedupeMapKey name key)") (simp_all add: cancelByDedupe_def)
qed (auto simp: retry_def promote_def release_def remove_def pause_def resume_def awaitWake_def cancelWait_def Let_def
    split: option.split)

lemma flow_schedules [simp]:
  "schedules (snd (recordChildResults now reports s)) = schedules s"
  "schedules (deleteOutbox ids s) = schedules s" "schedules (snd (flowSweepWork now age l s)) = schedules s"
  "schedules (markChildrenCascaded i ks s) = schedules s" "schedules (sweepHistory now ttl s) = schedules s"
proof -
  have 1: "schedules (snd (snd (recordPhase1 reports s))) = schedules s"
    unfolding recordPhase1_def
    by (rule fold_invariant_list [where I = "\<lambda>acc. schedules (snd (snd acc)) = schedules s"])
      (auto simp: recordOne_def split: option.split)
  have 2: "schedules (snd (fold (settleOne now reports) xs (rs, s'))) = schedules s'" for xs rs s'
    by (rule fold_invariant_list [where I = "\<lambda>acc. schedules (snd acc) = schedules s'"])
      (auto simp: settleOne_def split: option.split)
  show "schedules (snd (recordChildResults now reports s)) = schedules s"
    using 1 2 by (simp add: recordChildResults_def split_beta)
  have "schedules (fold (sweepJob now ttl) xs s) = schedules s" for xs
    by (rule fold_invariant_list [where I = "\<lambda>s'. schedules s' = schedules s"])
      (auto simp: sweepJob_def split: option.split)
  then show "schedules (sweepHistory now ttl s) = schedules s" by (simp add: sweepHistory_def Let_def)
qed (auto simp: deleteOutbox_def flowSweepWork_def markChildrenCascaded_def Let_def split: option.split prod.split)

lemma tickSchedule_schedules:
  "schedules (snd (tickSchedule now k e n r s)) =
     (if rq_id r \<noteq> None \<and> scheduleSlot k s = Some e
      then mapSet k ((the (mapGet (schedules s) k))\<lparr>sc_nextRunAt := n\<rparr>) (schedules s) else schedules s)"
  by (auto simp: tickSchedule_def scheduleSlot_def setNextRun_def Let_def split: option.split)

lemma steadyStep_slot:
  assumes "steadyStep e k s s'" "isPast e (scheduleSlot k s)"
  shows "isPast e (scheduleSlot k s')"
proof -
  from assms(1) obtain gen op where op: "leavesBehind e k op" "s' = exec gen op s" by (auto simp: steadyStep_def)
  have same: "schedules s' = schedules s \<Longrightarrow> ?thesis" using assms(2) by (simp add: scheduleSlot_def)
  show ?thesis
  proof (cases op)
    case (OpUpsertSchedule sc)
    with op assms(2) show ?thesis
      by (auto simp: upsertSchedule_def scheduleSlot_def isPast_def signalWake_def Let_def split: option.splits)
  next
    case (OpRemoveSchedule k')
    with op assms(2) show ?thesis by (auto simp: removeSchedule_def scheduleSlot_def mapGet_delete isPast_def)
  next
    case (OpAdvanceSchedule k' a n)
    with op assms(2) show ?thesis
      by (auto simp: advanceSchedule_def setNextRun_def scheduleSlot_def isPast_def split: option.splits)
  next
    case (OpTickSchedule now k' a n r)
    with op assms(2) have "schedules s' = schedules (snd (tickSchedule now k' a n r s))" by simp
    then show ?thesis unfolding tickSchedule_schedules
      using op OpTickSchedule assms(2) by (auto simp: scheduleSlot_def isPast_def split: if_splits)
  qed (rule same, simp add: op(2))+
qed

interpretation ss: slot_clock scheduleSlot tickSlot steadyStep
proof (unfold_locales, goal_cases)
  case (1 k s e c n)
  obtain now i r where c: "c = (now, i, r)" by (metis prod_cases3)
  from 1 have "schedules (snd (tickSchedule now k e n (r\<lparr>rq_id := Some i\<rparr>) s))
      = mapSet k ((the (mapGet (schedules s) k))\<lparr>sc_nextRunAt := n\<rparr>) (schedules s)"
    by (simp add: tickSchedule_schedules)
  moreover have "snd (tickSlot c k e n s) = snd (tickSchedule now k e n (r\<lparr>rq_id := Some i\<rparr>) s)"
    by (simp add: tickSlot_def c split: prod.split sum.split)
  ultimately show ?case by (simp add: scheduleSlot_def)
next
  case (2 k s e c n)
  then show ?case
    by (cases c) (auto simp: tickSlot_def tickSchedule_def scheduleSlot_def split: option.split)
next
  case (3 e k s s')
  then show ?case by (rule steadyStep_slot)
qed

lemma later_execs: "list_all (leavesBehind e k) ops \<Longrightarrow> ss.later e k s (execs gen ops s)"
proof (induction ops arbitrary: s rule: rev_induct)
  case Nil
  then show ?case by (simp add: ss.later_refl)
next
  case (snoc op ops)
  have "execs gen (ops @ [op]) s = exec gen op (execs gen ops s)" for s
    by (induction ops arbitrary: s) simp_all
  moreover have "steadyStep e k (execs gen ops s) (exec gen op (execs gen ops s))"
    using snoc.prems unfolding steadyStep_def by auto
  ultimately show ?case using snoc by (auto intro: ss.later_step)
qed

lemma tickSchedule_first:
  assumes "scheduleSlot k s = Some e" "rq_id r = Some i"
  shows "fst (tickSchedule now k e n r s) = Inr (\<not> mapHas (jobs s) i)"
    and "mapHas (jobs (snd (tickSchedule now k e n r s))) i"
  using assms
  by (auto simp: tickSchedule_def scheduleSlot_def setNextRun_def insertJobRecord_def signalWake_def putJob_def Let_def
      split: option.split)

text \<open>C12: A slot of a schedule fires at most once. The caller whose tick finds slot \<open>e\<close> of schedule \<open>k\<close>
  takes it, and creates its job unless that exists; from then on every tick of the same slot, however
  much later, reports that it lost and changes nothing. In between anything may run on the store, removals
  and replacements of the schedule included, as long as no upsert plans a first run at or before \<open>e\<close> again
  and no tick or advance of the schedule goes backwards. So workers that read the same due list never
  enqueue a slot twice.\<close>

theorem schedule_slots_fire_at_most_once:
  assumes "scheduleSlot k s = Some e" and "e < n" and "rq_id r = Some i" and "list_all (leavesBehind e k) ops"
    and "rq_id r' = Some i'"
  shows "fst (tickSchedule now k e n r s) = Inr (\<not> mapHas (jobs s) i)
    \<and> mapHas (jobs (snd (tickSchedule now k e n r s))) i
    \<and> tickSchedule now' k e n' r' (execs gen ops (snd (tickSchedule now k e n r s)))
        = (Inr False, execs gen ops (snd (tickSchedule now k e n r s)))"
proof -
  have r: "r\<lparr>rq_id := Some i\<rparr> = r" "r'\<lparr>rq_id := Some i'\<rparr> = r'" using assms(3,5) by simp_all
  have t: "snd (tickSlot (now, i, r) k e n s) = snd (tickSchedule now k e n r s)"
    by (simp add: tickSlot_def r split: prod.split sum.split)
  let ?s = "execs gen ops (snd (tickSchedule now k e n r s))"
  have "tickSlot (now', i', r') k e n' ?s = (False, ?s)"
    by (rule ss.taken_once [OF assms(1,2), of "(now, i, r)"]) (simp add: t later_execs assms(4))
  moreover have "fst (tickSchedule now' k e n' r' ?s) \<noteq> Inl x" for x
    using assms(5) by (auto simp: tickSchedule_def Let_def split: option.split)
  ultimately have "tickSchedule now' k e n' r' ?s = (Inr False, ?s)"
    by (cases "tickSchedule now' k e n' r' ?s"; cases "fst (tickSchedule now' k e n' r' ?s)")
      (auto simp: tickSlot_def r)
  with tickSchedule_first [OF assms(1,3), of now n] show ?thesis by simp
qed

definition aSchedule :: schedule_record where
  "aSchedule = \<lparr> sc_key = ''nightly'', sc_jobName = ''mail'', sc_queue = ''q'', sc_cron = None, sc_tz = None,
     sc_everyMs = Some 60, sc_payload = JNull, sc_metadata = [], sc_priority = 0, sc_attemptsMax = 1,
     sc_backoff = None, sc_keep = None, sc_timeoutMs = None, sc_group = None, sc_nextRunAt = 100 \<rparr>"

definition scheduled :: mem_store where
  "scheduled = exec None (OpUpsertSchedule aSchedule) threeJobs"

lemma scheduled_slot: "scheduleSlot ''nightly'' scheduled = Some 100"
  by code_simp

definition firedOnce :: mem_store where
  "firedOnce = snd (tickSchedule 101 ''nightly'' 100 160 (aRequest\<lparr>rq_id := Some ''a''\<rparr>) scheduled)"

text \<open>After the tick: a claim, a removal, and the schedule declared again with another cadence.\<close>

definition betweenTicks :: "op list" where
  "betweenTicks = [OpClaim 105 someOptions, OpRemoveSchedule ''nightly'',
     OpUpsertSchedule (aSchedule\<lparr>sc_everyMs := Some 100, sc_nextRunAt := 200\<rparr>)]"

theorem schedule_slots_fire_at_most_once_witness:
  "scheduleSlot ''nightly'' scheduled = Some 100
   \<and> fst (tickSchedule 101 ''nightly'' 100 160 (aRequest\<lparr>rq_id := Some ''a''\<rparr>) scheduled) = Inr True
   \<and> mapHas (jobs firedOnce) ''a''
   \<and> scheduleSlot ''nightly'' (execs None betweenTicks firedOnce) = Some 200
   \<and> tickSchedule 130 ''nightly'' 100 190 (aRequest\<lparr>rq_id := Some ''b''\<rparr>) (execs None betweenTicks firedOnce)
       = (Inr False, execs None betweenTicks firedOnce)"
proof -
  have "list_all (leavesBehind 100 ''nightly'') betweenTicks" by (simp add: betweenTicks_def aSchedule_def)
  from schedule_slots_fire_at_most_once [OF scheduled_slot, of 160 "aRequest\<lparr>rq_id := Some ''a''\<rparr>" "''a''", OF _ _ this,
      of "aRequest\<lparr>rq_id := Some ''b''\<rparr>" "''b''" 101 130 190 None]
  have t: "fst (tickSchedule 101 ''nightly'' 100 160 (aRequest\<lparr>rq_id := Some ''a''\<rparr>) scheduled) = Inr (\<not> mapHas (jobs scheduled) ''a'')"
    "mapHas (jobs firedOnce) ''a''"
    "tickSchedule 130 ''nightly'' 100 190 (aRequest\<lparr>rq_id := Some ''b''\<rparr>) (execs None betweenTicks firedOnce)
       = (Inr False, execs None betweenTicks firedOnce)"
    by (simp_all add: firedOnce_def)
  have "\<not> mapHas (jobs scheduled) ''a''" by code_simp
  moreover have "scheduleSlot ''nightly'' (execs None betweenTicks firedOnce) = Some 200" by code_simp
  ultimately show ?thesis using t scheduled_slot by simp
qed

text \<open>An upsert (a redeploy) of a schedule whose cron expression, time zone and interval are unchanged
  keeps the slot that is pending and replaces everything else; a changed cadence starts from the slot the
  caller computed. Other schedules are untouched, and the queue of the schedule is woken.\<close>

theorem upsert_keeps_the_pending_slot:
  "mapGet (schedules (upsertSchedule sc s)) k =
     (if k = sc_key sc then
        Some (case mapGet (schedules s) k of
                Some old \<Rightarrow> if sc_cron old = sc_cron sc \<and> sc_tz old = sc_tz sc \<and> sc_everyMs old = sc_everyMs sc
                           then sc\<lparr>sc_nextRunAt := sc_nextRunAt old\<rparr> else sc
              | None \<Rightarrow> sc)
      else mapGet (schedules s) k)
   \<and> jobs (upsertSchedule sc s) = jobs s \<and> lastWakeFor (upsertSchedule sc s) (sc_queue sc) > wakeVersion s"
  by (auto simp: upsertSchedule_def sameCadence_def signalWake_def lastWakeFor_def Let_def split: option.split)

text \<open>The due list holds exactly the schedules whose slot has come, each once, the earliest slot first.\<close>

theorem due_schedules_are_complete_and_ordered:
  "mset (dueSchedules now s) = filter_mset (\<lambda>sc. sc_nextRunAt sc \<le> now) (mset (mapValues (schedules s)))
   \<and> sorted (map sc_nextRunAt (dueSchedules now s))"
proof
  show "mset (dueSchedules now s) = filter_mset (\<lambda>sc. sc_nextRunAt sc \<le> now) (mset (mapValues (schedules s)))"
    by (simp add: dueSchedules_def)
  have "consistent_cmp (\<lambda>a b. sc_nextRunAt a - sc_nextRunAt b) A" for A
    by (auto simp: consistent_cmp_def)
  from sorted_toSorted [OF this] show "sorted (map sc_nextRunAt (dueSchedules now s))"
    by (simp add: dueSchedules_def sorted_wrt_map)
qed

text \<open>The next occurrence of an interval schedule is the first point of its grid (the pending slot plus a
  positive multiple of the interval) after now, so however long the workers were down one catch-up job
  replaces all missed ones; the occurrence of a cron schedule is after both now and the pending slot,
  given that the cron library's \<open>next\<close> is after the time it is asked about.\<close>

theorem next_occurrence_skips_missed_slots:
  assumes "\<And>c t r. cronNext c t = Some r \<Longrightarrow> t < r"
    and "nextOccurrence cronParse cronNext cron tz every slot now = Some r"
  shows "slot < r \<and> now < r
    \<and> (cron = None \<longrightarrow> (\<exists>e k. every = Some e \<and> 0 < e \<and> 1 \<le> k \<and> r = slot + k * e
         \<and> (\<forall>k'. 1 \<le> k' \<and> now < slot + k' * e \<longrightarrow> k \<le> k')))"
proof (cases cron)
  case (Some expr)
  with assms(2) obtain parsed where "cronNext parsed (max slot now) = Some r"
    by (auto simp: nextOccurrence_def split: option.splits)
  from assms(1) [OF this] Some show ?thesis by simp
next
  case None
  with assms(2) obtain e where e: "every = Some e" "0 < e"
    and r: "r = slot + (max 0 (now - slot) div e + 1) * e"
    by (auto simp: nextOccurrence_def Let_def split: option.splits if_splits)
  let ?q = "max 0 (now - slot) div e"
  have q: "0 \<le> ?q" using e(2) by (simp add: pos_imp_zdiv_nonneg_iff)
  have "?q * e + max 0 (now - slot) mod e = max 0 (now - slot)" by simp
  moreover have "0 \<le> max 0 (now - slot) mod e" "max 0 (now - slot) mod e < e" using e(2) by simp_all
  ultimately have up: "max 0 (now - slot) < (?q + 1) * e" and low: "?q * e \<le> max 0 (now - slot)"
    unfolding distrib_right by linarith+
  have "slot < slot + (?q + 1) * e" using up by linarith
  moreover have "now < slot + (?q + 1) * e" using up by linarith
  ultimately have "slot < r" "now < r" by (simp_all only: r)
  moreover have "?q + 1 \<le> k'" if "1 \<le> k'" "now < slot + k' * e" for k'
  proof (cases "now \<le> slot")
    case True
    then show ?thesis using that by simp
  next
    case False
    with low that have "?q * e < k' * e" by simp
    with e(2) show ?thesis by simp
  qed
  ultimately show ?thesis using e r q by (intro conjI impI exI [of _ e] exI [of _ "?q + 1"]) auto
qed

theorem next_occurrence_skips_missed_slots_witness:
  "nextOccurrence (\<lambda>_ _. Some ()) (\<lambda>_ t. Some (t + 1)) None None (Some 60) 100 250 = Some 280
   \<and> (\<exists>e k. Some (60::int) = Some e \<and> (280::int) = 100 + k * e \<and> (\<forall>k'. 1 \<le> k' \<and> 250 < 100 + k' * e \<longrightarrow> k \<le> k'))"
proof -
  have n: "nextOccurrence (\<lambda>_ _. Some ()) (\<lambda>_ t. Some (t + 1)) None None (Some 60) 100 250 = Some 280"
    by (simp add: nextOccurrence_def)
  from next_occurrence_skips_missed_slots [OF _ n] show ?thesis by (intro conjI n) auto
qed

end
