(* ===== verification/RetentionProps.thy ===== *)
theory RetentionProps
  imports Listing FlowProps
begin

text \<open>
  Properties of retention and of the sweeper's work list: what the history sweep deletes, what the
  keep policy of a finishing job deletes, and how the flow sweeper pages through the rows it must
  reconcile or cascade.
\<close>

section \<open>Deletions\<close>

lemma owes_prune [simp]: "owesCascades (pruneUnlessOwing i s) k = owesCascades s k"
  by (auto simp: pruneUnlessOwing_def owesCascades_def mapGet_delete split: option.split)

lemma prune_fold_get:
  "mapGet (jobs (fold pruneUnlessOwing xs s)) k
     = (if k \<in> set xs \<and> \<not> owesCascades s k then None else mapGet (jobs s) k)"
proof (induction xs arbitrary: s)
  case (Cons x xs)
  have "mapGet (jobs (pruneUnlessOwing x s)) k = (if k = x \<and> \<not> owesCascades s k then None else mapGet (jobs s) k)"
    by (auto simp: pruneUnlessOwing_def mapGet_delete)
  with Cons show ?case by (cases "k = x") auto
qed simp

lemma prune_fold_frame [simp]:
  "dedupes (fold pruneUnlessOwing xs s) = dedupes s" "outbox (fold pruneUnlessOwing xs s) = outbox s"
  by (induction xs arbitrary: s) (simp_all add: pruneUnlessOwing_def)

lemma prune_distinct: "distinct (mapKeys (jobs s)) \<Longrightarrow> distinct (mapKeys (jobs (fold pruneUnlessOwing xs s)))"
  by (induction xs arbitrary: s) (auto simp: pruneUnlessOwing_def)

section \<open>The history sweep\<close>

text \<open>A finished job is overdue when one of the two ages that apply to it has passed.\<close>

definition overdue :: "millis \<Rightarrow> history_ttl \<Rightarrow> mem_job \<Rightarrow> bool" where
  "overdue now ttl j \<longleftrightarrow>
     (\<exists>st f age. terminalOf (j_state j) = Some st \<and> j_finishedAt j = Some f \<and> f + age \<le> now
        \<and> (ttlFor ttl st = Some age \<or> Option.bind (keepPolicyFor (j_keep j) (j_state j)) kp_ageMs = Some age))"

lemma terminalOf_state: "terminalOf st = Some t \<Longrightarrow> stateOfTerminal t = st"
  by (cases st) auto

lemma effectiveTtl_overdue:
  assumes "terminalOf (j_state j) = Some st" "j_finishedAt j = Some f"
  shows "(case effectiveTtl ttl j st of Some eff \<Rightarrow> f \<le> now - eff | None \<Rightarrow> False) = overdue now ttl j"
proof -
  have s: "stateOfTerminal st = j_state j" by (rule terminalOf_state [OF assms(1)])
  show ?thesis
    by (cases "ttlFor ttl st"; cases "Option.bind (keepPolicyFor (j_keep j) (j_state j)) kp_ageMs")
      (auto simp: overdue_def effectiveTtl_def Let_def s assms conj_disj_distribL ex_disj_distrib)
qed

lemma sweepJob_prune: "sweepJob now ttl j s = (if overdue now ttl j then pruneUnlessOwing (j_id j) s else s)"
proof (cases "terminalOf (j_state j)")
  case None
  then show ?thesis by (simp add: sweepJob_def overdue_def)
next
  case (Some st)
  show ?thesis
  proof (cases "j_finishedAt j")
    case None
    with Some show ?thesis by (simp add: sweepJob_def overdue_def)
  next
    case f: (Some f)
    from effectiveTtl_overdue [OF Some f, of now ttl] Some f show ?thesis
      by (auto simp: sweepJob_def pruneUnlessOwing_def split: option.splits)
  qed
qed

lemma sweep_fold:
  "fold (sweepJob now ttl) js s = fold pruneUnlessOwing (map j_id (filter (overdue now ttl) js)) s"
  by (induction js arbitrary: s) (simp_all add: sweepJob_prune)

text \<open>C21: the history sweep deletes exactly the finished jobs that are overdue, by the store-wide time to
  live of their state or by the age of their own keep policy, whichever is shorter, except a flow parent
  that still owes cancellations to its children; every other job keeps its record unchanged. Of the dedup
  registry it drops exactly the entries whose window has passed or whose job is gone or finished.\<close>

theorem history_sweep_is_exact:
  assumes w: "wellFormed s"
  shows "mapGet (jobs (sweepHistory now ttl s)) k =
      (case mapGet (jobs s) k of
         None \<Rightarrow> None
       | Some j \<Rightarrow> if overdue now ttl j \<and> \<not> owesCascades s k then None else Some j)
   \<and> dedupes (sweepHistory now ttl s) = filter (\<lambda>(_, e). dedupeAlive now (sweepHistory now ttl s) e) (dedupes s)"
proof
  have j: "jobs (sweepHistory now ttl s) = jobs (fold pruneUnlessOwing (map j_id (filter (overdue now ttl) (mapValues (jobs s)))) s)"
    by (simp add: sweepHistory_def Let_def sweep_fold)
  have "k \<in> set (map j_id (filter (overdue now ttl) (mapValues (jobs s)))) \<longleftrightarrow> (\<exists>x. mapGet (jobs s) k = Some x \<and> overdue now ttl x)"
    using wf_value [OF w] wf_id [OF w] mapValues_in [OF wf_distinct [OF w]] by fastforce
  then show "mapGet (jobs (sweepHistory now ttl s)) k =
      (case mapGet (jobs s) k of None \<Rightarrow> None
       | Some j \<Rightarrow> if overdue now ttl j \<and> \<not> owesCascades s k then None else Some j)"
    unfolding j prune_fold_get by (auto split: option.split)
  have "dedupeAlive now (sweepHistory now ttl s) e = dedupeAlive now (fold (sweepJob now ttl) (mapValues (jobs s)) s) e" for e
    by (simp only: dedupeAlive_def j sweep_fold)
  then show "dedupes (sweepHistory now ttl s) = filter (\<lambda>(_, e). dedupeAlive now (sweepHistory now ttl s) e) (dedupes s)"
    by (simp add: sweepHistory_def Let_def sweep_fold)
qed

definition aTtl :: history_ttl where
  "aTtl = \<lparr>ht_completed = Some 100, ht_failed = None, ht_cancelled = None\<rparr>"

lemma sweep_sample:
  "case mapGet (jobs oneDone) ''j-2'' of None \<Rightarrow> False
   | Some j \<Rightarrow> j_state j = Completed \<and> j_finishedAt j = Some 20 \<and> \<not> owesCascades oneDone ''j-2''"
  by code_simp

theorem history_sweep_is_exact_witness:
  "mapGet (jobs (sweepHistory 200 aTtl oneDone)) ''j-2'' = None"
proof -
  from sweep_sample obtain j where j: "mapGet (jobs oneDone) ''j-2'' = Some j" "j_state j = Completed"
    "j_finishedAt j = Some 20" "\<not> owesCascades oneDone ''j-2''" by (auto split: option.splits)
  then have "overdue 200 aTtl j" by (simp add: overdue_def aTtl_def exI [of _ 100])
  with history_sweep_is_exact [OF oneDone_wf, of 200 aTtl "''j-2''"] j show ?thesis by simp
qed

section \<open>Keep policies\<close>

lemma keepCmp_consistent: "consistent_cmp keepCmp A"
  by (auto simp: consistent_cmp_def keepCmp_def Let_def split: if_splits)

definition peerOf :: "mem_job \<Rightarrow> mem_job \<Rightarrow> bool" where
  "peerOf job p \<longleftrightarrow> j_name p = j_name job \<and> j_state p = j_state job"

definition keptAway :: "keep_state_policy \<Rightarrow> int \<Rightarrow> mem_job \<Rightarrow> millis \<Rightarrow> mem_store \<Rightarrow> mem_job \<Rightarrow> bool" where
  "keptAway policy c job now s x \<longleftrightarrow>
     x \<in> set (keepPeers job s) \<and> expired (kp_ageMs policy) now x \<or> x \<in> set (drop (nat (max 0 c)) (keepPeers job s))"

lemma keepPeers_iff:
  assumes "wellFormed s"
  shows "x \<in> set (keepPeers job s) \<longleftrightarrow> mapGet (jobs s) (j_id x) = Some x \<and> peerOf job x"
  using wf_value [OF assms] wf_id [OF assms] mapValues_in [OF wf_distinct [OF assms]] by (auto simp: keepPeers_def peerOf_def)

lemma keptAway_peer:
  "wellFormed s \<Longrightarrow> keptAway policy c job now s x \<Longrightarrow> mapGet (jobs s) (j_id x) = Some x \<and> peerOf job x"
  using keepPeers_iff [of s x job] by (auto simp: keptAway_def dest: in_set_dropD)

lemma applyKeep_get:
  assumes w: "wellFormed s" and p: "keepPolicyFor (j_keep job) (j_state job) = Some policy" and c: "kp_count policy = Some c"
  shows "mapGet (jobs (applyKeep job now s)) k =
    (case mapGet (jobs s) k of None \<Rightarrow> None
     | Some j \<Rightarrow> if keptAway policy c job now s j \<and> \<not> owesCascades s k then None else Some j)"
proof -
  have "inj_on j_id (set (keepPeers job s))" by (rule inj_onI) (metis option.inject keepPeers_iff [OF w])
  then have ids: "set (remdups (keepRemovals policy now (keepPeers job s))) = j_id ` {x. keptAway policy c job now s x}"
    by (auto simp: keepRemovals_def c keptAway_def)
  have "(\<exists>x. j_id x = k \<and> keptAway policy c job now s x) \<longleftrightarrow> keptAway policy c job now s j" if "mapGet (jobs s) k = Some j" for j
  proof
    assume "\<exists>x. j_id x = k \<and> keptAway policy c job now s x"
    then obtain x where x: "j_id x = k" "keptAway policy c job now s x" by blast
    with keptAway_peer [OF w x(2)] that show "keptAway policy c job now s j" by simp
  qed (use wf_id [OF w that] in blast)
  moreover have "(\<exists>x. j_id x = k \<and> keptAway policy c job now s x) \<Longrightarrow> mapGet (jobs s) k \<noteq> None"
    using keptAway_peer [OF w] by blast
  moreover have "mapGet (jobs (applyKeep job now s)) k =
      (if (\<exists>x. j_id x = k \<and> keptAway policy c job now s x) \<and> \<not> owesCascades s k then None else mapGet (jobs s) k)"
  proof -
    have "applyKeep job now s = fold pruneUnlessOwing (remdups (keepRemovals policy now (keepPeers job s))) s"
      by (simp add: applyKeep_def p)
    moreover have "k \<in> j_id ` {x. keptAway policy c job now s x} \<longleftrightarrow> (\<exists>x. j_id x = k \<and> keptAway policy c job now s x)" by blast
    ultimately show ?thesis by (simp only: prune_fold_get ids)
  qed
  ultimately show ?thesis by (cases "mapGet (jobs s) k") simp_all
qed

lemma kept_is_recent:
  assumes w: "wellFormed s" and p: "keepPolicyFor (j_keep job) (j_state job) = Some policy" and c: "kp_count policy = Some c"
    and j: "mapGet (jobs (applyKeep job now s)) k = Some j" "peerOf job j" "\<not> owesCascades s k"
  shows "j \<in> set (take (nat (max 0 c)) (keepPeers job s)) \<and> \<not> expired (kp_ageMs policy) now j"
proof -
  have g: "mapGet (jobs s) k = Some j" and kept: "\<not> keptAway policy c job now s j"
    using applyKeep_get [OF w p c, of now k] j by (auto split: option.splits if_splits)
  from wf_id [OF w g] g keepPeers_iff [OF w] j(2) have "j \<in> set (keepPeers job s)" by simp
  with kept show ?thesis using append_take_drop_id [of "nat (max 0 c)" "keepPeers job s"]
    by (metis Un_iff keptAway_def set_append)
qed

lemma few_are_kept:
  assumes w: "wellFormed s" and p: "keepPolicyFor (j_keep job) (j_state job) = Some policy" and c: "kp_count policy = Some c"
  shows "int (length (filter (\<lambda>j. peerOf job j \<and> \<not> owesCascades s (j_id j)) (mapValues (jobs (applyKeep job now s))))) \<le> max 0 c"
proof -
  let ?s' = "applyKeep job now s" and ?few = "take (nat (max 0 c)) (keepPeers job s)"
  let ?f = "filter (\<lambda>j. peerOf job j \<and> \<not> owesCascades s (j_id j)) (mapValues (jobs ?s'))"
  have dist: "distinct (mapKeys (jobs ?s'))"
    using wf_distinct [OF w] by (auto simp: applyKeep_def prune_distinct split: option.split)
  have id: "j_id j = k" if "mapGet (jobs ?s') k = Some j" for k j
    using that applyKeep_get [OF w p c, of now k] wf_id [OF w] by (auto split: option.splits if_splits)
  have "map j_id (mapValues (jobs ?s')) = mapKeys (jobs ?s')" by (rule map_value_keys [OF dist id])
  then have "distinct (map j_id (mapValues (jobs ?s')))" using dist by (simp only:)
  then have "distinct ?f" by (intro distinct_filter) (simp only: distinct_map)
  then have "length ?f = card (set ?f)" by (rule distinct_card [symmetric])
  also have "set ?f \<subseteq> set ?few"
  proof
    fix j assume "j \<in> set ?f"
    then have "j \<in> set (mapValues (jobs ?s'))" "peerOf job j" "\<not> owesCascades s (j_id j)" by auto
    moreover from this(1) have "mapGet (jobs ?s') (j_id j) = Some j" using mapValues_in [OF dist] id by blast
    ultimately show "j \<in> set ?few" using kept_is_recent [OF w p c] by blast
  qed
  then have "card (set ?f) \<le> card (set ?few)" by (intro card_mono) auto
  also have "\<dots> \<le> nat (max 0 c)" using card_length [of ?few] by simp
  finally show ?thesis by simp
qed

lemma removed_is_older:
  assumes w: "wellFormed s" and p: "keepPolicyFor (j_keep job) (j_state job) = Some policy" and c: "kp_count policy = Some c"
    and j: "mapGet (jobs (applyKeep job now s)) k = Some j" "peerOf job j" "\<not> owesCascades s k"
    and gone: "mapGet (jobs s) k' = Some j'" "mapGet (jobs (applyKeep job now s)) k' = None" "\<not> expired (kp_ageMs policy) now j'"
  shows "keepCmp j j' \<le> 0"
proof -
  let ?n = "nat (max 0 c)"
  have "sorted_wrt (\<lambda>a b. keepCmp a b \<le> 0) (take ?n (keepPeers job s) @ drop ?n (keepPeers job s))"
    unfolding append_take_drop_id keepPeers_def by (rule sorted_toSorted [OF keepCmp_consistent])
  moreover have "j \<in> set (take ?n (keepPeers job s))" using kept_is_recent [OF w p c j] by simp
  moreover have "j' \<in> set (drop ?n (keepPeers job s))"
    using applyKeep_get [OF w p c, of now k'] gone by (auto simp: keptAway_def split: if_splits)
  ultimately show ?thesis unfolding sorted_wrt_append by blast
qed

text \<open>C22: what the retention of a finishing job deletes. Only finished jobs of its own name and final
  state, and never a parent that still owes cancellations; afterwards at most \<open>count\<close> of them remain (not
  counting those that owe), none of which is past \<open>age\<close>, and each is at least as recent as any job
  that was deleted to make room.\<close>

theorem retention_keeps_the_newest:
  assumes w: "wellFormed s" and p: "keepPolicyFor (j_keep job) (j_state job) = Some policy"
    and c: "kp_count policy = Some c" and s'_def: "s' = applyKeep job now s"
  shows "(\<forall>k j. mapGet (jobs s) k = Some j \<longrightarrow> mapGet (jobs s') k = Some j
            \<or> (mapGet (jobs s') k = None \<and> peerOf job j \<and> \<not> owesCascades s k))
    \<and> (\<forall>k. mapGet (jobs s) k = None \<longrightarrow> mapGet (jobs s') k = None)
    \<and> int (length (filter (\<lambda>j. peerOf job j \<and> \<not> owesCascades s (j_id j)) (mapValues (jobs s')))) \<le> max 0 c
    \<and> (\<forall>k j k' j'. mapGet (jobs s') k = Some j \<longrightarrow> peerOf job j \<longrightarrow> \<not> owesCascades s k \<longrightarrow> \<not> expired (kp_ageMs policy) now j
         \<and> (mapGet (jobs s) k' = Some j' \<longrightarrow> mapGet (jobs s') k' = None \<longrightarrow> \<not> expired (kp_ageMs policy) now j'
              \<longrightarrow> keepCmp j j' \<le> 0))"
proof -
  have 1: "mapGet (jobs s') k = Some j \<or> (mapGet (jobs s') k = None \<and> peerOf job j \<and> \<not> owesCascades s k)"
    if "mapGet (jobs s) k = Some j" for k j
    using that applyKeep_get [OF w p c, of now k] keptAway_peer [OF w, of policy c job now j] by (auto simp: s'_def)
  have 2: "mapGet (jobs s') k = None" if "mapGet (jobs s) k = None" for k
    using that applyKeep_get [OF w p c, of now k] by (simp add: s'_def)
  note 3 = kept_is_recent [OF w p c, of now, folded s'_def] few_are_kept [OF w p c, of now, folded s'_def]
    removed_is_older [OF w p c, of now, folded s'_def]
  show ?thesis using 1 2 3 by blast
qed

definition keepOne :: keep_policy where
  "keepOne = \<lparr>kp_completed = Some \<lparr>kp_count = Some 1, kp_ageMs = None\<rparr>, kp_failed = None, kp_cancelled = None,
     kp_flat = None\<rparr>"

definition finishingJob :: mem_job where
  "finishingJob = (newJob ''j-2'' (aRequest\<lparr>rq_keep := Some keepOne\<rparr>) 1 2)\<lparr>j_state := Completed\<rparr>"

theorem retention_keeps_the_newest_witness:
  "int (length (filter (\<lambda>j. peerOf finishingJob j \<and> \<not> owesCascades oneDone (j_id j))
     (mapValues (jobs (applyKeep finishingJob 30 oneDone))))) \<le> 1"
  using retention_keeps_the_newest [OF oneDone_wf, of finishingJob "\<lparr>kp_count = Some 1, kp_ageMs = None\<rparr>" 1
      "applyKeep finishingJob 30 oneDone" 30]
  by (simp add: finishingJob_def keepOne_def keepPolicyFor_def newJob_def)

section \<open>The sweeper's work list\<close>

text \<open>The rows to reconcile and to cascade, as an observer of the store lists them.\<close>

definition dueRow :: "bool \<Rightarrow> millis \<Rightarrow> mem_flow_child \<Rightarrow> bool" where
  "dueRow waiting threshold row \<longleftrightarrow> waiting \<and> ch_status row = RPending \<and> ch_pendingSince row \<le> threshold"

definition parentWaits :: "(job_id, mem_job) jsmap \<Rightarrow> job_id \<Rightarrow> bool" where
  "parentWaits js i = (case mapGet js i of None \<Rightarrow> False | Some p \<Rightarrow> j_state p = WaitingChildren)"

definition dueIn :: "bool \<Rightarrow> millis \<Rightarrow> flow_rows \<Rightarrow> mem_flow_child list" where
  "dueIn waiting threshold rows = filter (dueRow waiting threshold) (mapValues rows)"

definition owedIn :: "flow_rows \<Rightarrow> mem_flow_child list" where
  "owedIn rows = filter owesCascade (mapValues rows)"

definition dueRows :: "millis \<Rightarrow> (job_id, mem_job) jsmap \<Rightarrow> (job_id, flow_rows) jsmap \<Rightarrow> (job_id \<times> flow_child_spec) list" where
  "dueRows threshold js fc =
     concat (map (\<lambda>(i, rows). map (\<lambda>row. (i, childSpec row)) (dueIn (parentWaits js i) threshold rows)) fc)"

definition owedRows :: "(job_id, flow_rows) jsmap \<Rightarrow> (job_id \<times> cascade_child) list" where
  "owedRows fc = concat (map (\<lambda>(i, rows). map (\<lambda>row. (i, cascadeChild row)) (owedIn rows)) fc)"

definition ungroup :: "(job_id \<times> 'a list) list \<Rightarrow> (job_id \<times> 'a) list" where
  "ungroup gs = concat (map (\<lambda>(i, xs). map (Pair i) xs) gs)"

lemma take_Cons_min: "take n (x # xs) = (if n = 0 then [] else x # take (n - 1) xs)"
  by (cases n) auto

lemma sweepRows_due:
  assumes "threshold < now" "rc \<le> limit" "cc \<le> limit"
    and "sweepRows now threshold limit w rows rc cc = (rows1, rs, cs, rc1, cc1)"
  shows "rs = map childSpec (take (limit - rc) (dueIn w threshold rows))
    \<and> rc1 = rc + length rs \<and> rc1 \<le> limit
    \<and> map childSpec (dueIn w threshold rows1) = map childSpec (drop (limit - rc) (dueIn w threshold rows))
    \<and> cs = map cascadeChild (take (limit - cc) (owedIn rows))
    \<and> cc1 = cc + length cs \<and> cc1 \<le> limit
    \<and> map cascadeChild (owedIn rows1) = map cascadeChild (owedIn rows)"
  using assms(2-)
proof (induction rows arbitrary: rc cc rows1 rs cs rc1 cc1)
  case Nil
  then show ?case by (simp add: dueIn_def owedIn_def)
next
  case (Cons p rows)
  obtain k row where p: "p = (k, row)" by fastforce
  let ?due = "reconcileDue w threshold limit rc row"
  let ?row1 = "if ?due then row\<lparr>ch_pendingSince := now\<rparr> else row"
  let ?casc = "ch_status ?row1 = RCancelled \<and> \<not> ch_cascaded ?row1 \<and> cc < limit"
  let ?rc = "if ?due then rc + 1 else rc" and ?cc = "if ?casc then cc + 1 else cc"
  obtain rows2 rs2 cs2 rc2 cc2 where r0: "sweepRows now threshold limit w rows ?rc ?cc = (rows2, rs2, cs2, rc2, cc2)"
    by (metis prod_cases5)
  have "sweepRows now threshold limit w (p # rows) rc cc =
      ((k, ?row1) # rows2, (if ?due then childSpec row # rs2 else rs2), (if ?casc then cascadeChild ?row1 # cs2 else cs2), rc2, cc2)"
    unfolding p sweepRows.simps Let_def r0 by simp
  with Cons.prems(3) have eq: "rows1 = (k, ?row1) # rows2" "rs = (if ?due then childSpec row # rs2 else rs2)"
      "cs = (if ?casc then cascadeChild ?row1 # cs2 else cs2)" and eq': "rc2 = rc1" "cc2 = cc1"
    by (auto simp del: sweepRows.simps split del: if_split)
  note r = r0 [unfolded eq']
  have "?rc \<le> limit" "?cc \<le> limit" using Cons.prems(1,2) by (auto simp: reconcileDue_def)
  note IH = Cons.IH [OF this r]
  have c: "cascadeChild ?row1 = cascadeChild row" "owesCascade ?row1 = owesCascade row"
    "?casc = (owesCascade row \<and> cc < limit)"
    by (auto simp: cascadeChild_def owesCascade_def)
  have d: "dueIn w threshold (p # rows) = (if dueRow w threshold row then row # dueIn w threshold rows else dueIn w threshold rows)"
    "owedIn (p # rows) = (if owesCascade row then row # owedIn rows else owedIn rows)" for rows
    by (simp_all add: dueIn_def owedIn_def p)
  have d1: "map childSpec (dueIn w threshold rows1)
      = (if dueRow w threshold row \<and> \<not> rc < limit then childSpec row # map childSpec (dueIn w threshold rows2)
         else map childSpec (dueIn w threshold rows2))"
    using assms(1) by (auto simp: dueIn_def dueRow_def reconcileDue_def eq(1))
  have d2: "map cascadeChild (owedIn rows1)
      = (if owesCascade row then cascadeChild row # map cascadeChild (owedIn rows2) else map cascadeChild (owedIn rows2))"
    using c(1,2) by (simp add: owedIn_def eq(1))
  have due: "?due = (dueRow w threshold row \<and> rc < limit)" by (auto simp: reconcileDue_def dueRow_def)
  show ?case
    using IH [unfolded c(3), unfolded due] unfolding d d1 d2 eq(2,3) c(1) unfolding c(3) unfolding due
    by (cases "dueRow w threshold row"; cases "rc < limit"; cases "owesCascade row"; cases "cc < limit")
      (use Cons.prems(1,2) in \<open>simp_all add: take_Cons' drop_Cons'\<close>)
qed

lemma sweepFlows_due:
  assumes "threshold < now" "rc \<le> limit" "cc \<le> limit"
    and "sweepFlows now threshold limit js fc rc cc = (fc1, rs, cs)"
  shows "ungroup rs = take (limit - rc) (dueRows threshold js fc)
    \<and> dueRows threshold js fc1 = drop (limit - rc) (dueRows threshold js fc)
    \<and> ungroup cs = take (limit - cc) (owedRows fc)
    \<and> owedRows fc1 = owedRows fc"
  using assms(2-)
proof (induction fc arbitrary: rc cc fc1 rs cs)
  case Nil
  then show ?case by (simp add: ungroup_def dueRows_def owedRows_def)
next
  case (Cons p fc)
  obtain i rows where p: "p = (i, rows)" by fastforce
  obtain rows1 rs1 cs1 rc1 cc1 where r: "sweepRows now threshold limit (parentWaits js i) rows rc cc = (rows1, rs1, cs1, rc1, cc1)"
    by (metis prod_cases5)
  obtain fc2 rs2 cs2 where f: "sweepFlows now threshold limit js fc rc1 cc1 = (fc2, rs2, cs2)"
    by (metis prod_cases3)
  have eq: "fc1 = (i, rows1) # fc2" "rs = (if rs1 \<noteq> [] then (i, rs1) # rs2 else rs2)"
    "cs = (if cs1 \<noteq> [] then (i, cs1) # cs2 else cs2)"
    using Cons.prems(3) unfolding p sweepFlows.simps Let_def r [unfolded parentWaits_def] prod.case f by auto
  note R = sweepRows_due [OF assms(1) Cons.prems(1,2) r]
  then have lim: "rc1 \<le> limit" "cc1 \<le> limit" and n: "rc1 = rc + length rs1" "cc1 = cc + length cs1" by auto
  note F = Cons.IH [OF lim f]
  have u: "ungroup rs = map (Pair i) rs1 @ ungroup rs2" "ungroup cs = map (Pair i) cs1 @ ungroup cs2"
    by (auto simp: ungroup_def eq)
  have d: "dueRows threshold js ((i, rs) # fs) = map (Pair i) (map childSpec (dueIn (parentWaits js i) threshold rs)) @ dueRows threshold js fs"
    "owedRows ((i, rs) # fs) = map (Pair i) (map cascadeChild (owedIn rs)) @ owedRows fs" for rs fs
    by (simp_all add: dueRows_def owedRows_def)
  let ?d = "dueIn (parentWaits js i) threshold rows" and ?o = "owedIn rows"
  have l: "limit - rc1 = limit - rc - length ?d" "limit - cc1 = limit - cc - length ?o"
    using R n by (auto simp: min_def split: if_splits)
  show ?case unfolding p eq(1) u d using R F l
    by (simp add: take_map drop_map)
qed

text \<open>The sweeper's work list pages through the rows without starving any. A call returns, flow by flow in
  order, the first \<open>limit\<close> dependency rows that have been pending since before \<open>now - pendingAgeMs\<close> under a
  parent that still waits, and restamps exactly these, so what remains due is the rest of the list and the
  next call goes on from there; and the first \<open>limit\<close> cancelled rows whose cancellation has not been
  propagated, which stay on the list until they are marked.\<close>

theorem sweep_work_pages_through_all_rows:
  assumes "0 < age" and "flowSweepWork now age l s = (work, s')"
  shows "ungroup (sw_reconcile work) = take (nat (max 1 (orElse l 1000))) (dueRows (now - age) (jobs s) (flowChildren s))
    \<and> dueRows (now - age) (jobs s') (flowChildren s')
        = drop (nat (max 1 (orElse l 1000))) (dueRows (now - age) (jobs s) (flowChildren s))
    \<and> ungroup (sw_cascade work) = take (nat (max 1 (orElse l 1000))) (owedRows (flowChildren s))
    \<and> owedRows (flowChildren s') = owedRows (flowChildren s)"
proof -
  obtain fc rs cs where f: "sweepFlows now (now - age) (nat (max 1 (orElse l 1000))) (jobs s) (flowChildren s) 0 0 = (fc, rs, cs)"
    by (metis prod_cases3)
  with assms(2) have e: "sw_reconcile work = rs" "sw_cascade work = cs" "jobs s' = jobs s" "flowChildren s' = fc"
    by (auto simp: flowSweepWork_def)
  show ?thesis using sweepFlows_due [OF _ _ _ f] assms(1) unfolding e by simp
qed

theorem sweep_work_pages_through_all_rows_witness:
  "ungroup (sw_reconcile (fst (flowSweepWork 500 100 (Some 1) (flowStore True))))
    = take 1 (dueRows 400 (jobs (flowStore True)) (flowChildren (flowStore True)))"
  using sweep_work_pages_through_all_rows [of 100 500 "Some 1" "flowStore True" "fst (flowSweepWork 500 100 (Some 1) (flowStore True))"
      "snd (flowSweepWork 500 100 (Some 1) (flowStore True))"]
  by simp

end
