(* ===== verification/Spec2Isabelle.thy ===== *)
theory Spec2Isabelle
  imports PgProps TestStore RedisProps FlowResults JobProps ScheduleGroups RunOutcome RelayLive SweepProps Safety Wakeups QueueProps
    FlowProps Listing EnqueueProps ScheduleProps RetentionProps
begin

text \<open>
  A verification library for effect-mq, a job queue for Effect programs: typed jobs with retries,
  dedup, priorities, delays and schedules, flows of parent and child jobs, workers, and storage drivers
  behind one interface. Paths below are relative to \<open>packages/effect-mq/src\<close>.

  \<^bold>\<open>The program.\<close> A producer (\<open>Job.ts\<close>, \<open>Flow.ts\<close>, \<open>JobSchedules.ts\<close>) turns calls into
  requests on a store. A store (\<open>JobStore.ts\<close> is its interface, \<open>MemoryJobStore.ts\<close> the in-memory
  driver, \<open>redis/\<close> the Redis driver, \<open>drizzle-postgres/\<close> the Postgres driver) owns the state machine of jobs: waiting, delayed, active,
  waiting-children, completed, failed, cancelled. A worker (\<open>Worker.ts\<close>) claims jobs under a lock
  token, runs handlers, renews locks, acknowledges outcomes, and in the background recovers expired
  locks, ticks schedules, relays the results of flow children to the stores of their parents and sweeps
  flows that a crash left half done. Parts meet only in the store: a lock token fences a stale worker,
  the outbox carries a report from a child's store to its parent's, wake-ups let an idle worker sleep.

  \<^bold>\<open>The model.\<close> One group of definitions per part, in the order of the source.

  \<^item> \<open>Prelude\<close>: the JavaScript library the program uses (insertion-ordered \<open>Map\<close>, stable sort,
    slices, decimal text) with its lemmas. \<open>JobTypes\<close>: the data of \<open>JobStore.ts\<close> (records, policies,
    requests, results, typed errors), \<open>normalizeHistoryTtl\<close> and \<open>nextOccurrence\<close>.
  \<^item> \<open>MemState\<close>, \<open>MemEnqueue\<close>, \<open>MemClaim\<close>, \<open>MemAck\<close>, \<open>MemAdmin\<close>, \<open>MemSchedules\<close>,
    \<open>MemFlow\<close>, \<open>MemQuery\<close>: the in-memory driver; the closure's variables are the record
    \<open>mem_store\<close>, every method of the interface is a function that returns its result (or typed
    error) with the new store. \<open>MemStep\<close>: the store as a transition system (\<open>exec\<close>), and
    configurations with suspended enqueues.
  \<^item> \<open>Service\<close>: the interface as a record of calls over a state type; a \<open>link\<close> decides per call
    what other actors did before it, what the clock reads and whether the call fails before or after
    taking effect; the retry wrappers of the worker.
  \<^item> \<open>WorkerRun\<close>, \<open>WorkerLoops\<close>: \<open>Worker.ts\<close>, the run of one claimed job and one pass of each
    maintenance fiber. \<open>JobApi\<close>: \<open>Job.ts\<close>. \<open>FlowApi\<close>: \<open>Flow.ts\<close>. \<open>SchedulesApi\<close>:
    \<open>JobSchedules.ts\<close>.
  \<^item> \<open>JsonText\<close>: JSON printing and parsing, with the round trip. \<open>RedisApi\<close>: the commands of a
    Redis server as a record of functions over an arbitrary state, what they are documented to do as
    the locale \<open>redis_server\<close> (a view of the server as hashes, sorted sets, lists, sets and
    strings), and an instance. \<open>RedisLua\<close>, \<open>RedisEnqueue\<close>, \<open>RedisClaim\<close>, \<open>RedisAdmin\<close>,
    \<open>RedisFlow\<close>: \<open>redis/scripts.ts\<close>, one function per Lua script. \<open>RedisCodec\<close>,
    \<open>RedisDriver\<close>: \<open>redis/RedisJobStore.ts\<close>, the texts it stores and reads, the methods of the
    store, the wake-up registry of a process, boot and history sweep.
  \<^item> \<open>PgTables\<close>, \<open>PgEnqueue\<close>, \<open>PgClaim\<close>, \<open>PgAdmin\<close>, \<open>PgFlow\<close>:
    \<open>drizzle-postgres/schema.ts\<close> and \<open>DrizzleJobStore.ts\<close>. A table is a map from its primary key
    to typed rows, a statement a function on the tables (the WHERE clause of a guarded UPDATE as a
    predicate), a transaction (\<open>transact\<close>) a function whose failure restores the tables but not the
    sequences. The rows that \<open>SKIP LOCKED\<close> passes over, the deadlocks that kill an attempt of a
    transaction, and the database's order of texts and range of timestamps (\<open>pg_server\<close>) are arguments.
  \<^item> \<open>TestStore\<close>: \<open>testing/TestJobStore.ts\<close>, the harness that reads a store back in tests, with
    its theorem.
  \<^item> \<open>Samples\<close>, \<open>WorkerSamples\<close>: the concrete inputs the witnesses evaluate.

  \<^bold>\<open>The theorems.\<close>

  \<^item> \<open>MemInvariant\<close>, \<open>MemWf\<close>, \<open>MemWfFlow\<close>: the invariant \<open>wellFormed\<close> and that every
    operation keeps it.
  \<^item> \<open>ClaimQueue\<close>: the locale \<open>claim_queue\<close>, a priority queue of ready jobs, interpreted on the
    driver. \<open>Lifecycle\<close>: the abstract state machine of jobs and the outbox as an event system; every
    operation of the driver is a sequence of permitted events. \<open>Safety\<close>: what follows for all
    operations, in any interleaving: terminal states are final, locks are lost only by the owner, an
    expiry or a cancel, each terminal transition of a flow child is reported once.
  \<^item> \<open>Wakeups\<close> (no wake-up is lost), \<open>QueueProps\<close>, \<open>EnqueueProps\<close> (dedup keys, and the
    interleaving and the retry that defeat them), \<open>FlowProps\<close> (counters, idempotent reports), \<open>Listing\<close> (the
    locale \<open>paged_source\<close>: following a cursor visits everything once), \<open>ScheduleProps\<close>,
    \<open>RetentionProps\<close>.
  \<^item> \<open>RunProps\<close>, \<open>RunOutcome\<close>: the run of a job against a store others use too. \<open>RelayProps\<close>,
    \<open>RelayLive\<close>, \<open>SweepProps\<close>: the maintenance fibers. \<open>JobProps\<close>, \<open>FlowSpecs\<close>,
    \<open>FlowResults\<close>, \<open>ScheduleGroups\<close>: the producer side.
  \<^item> \<open>RedisRows\<close>, \<open>RedisView\<close>, \<open>RedisSim\<close>, \<open>RedisAgree\<close>, \<open>RedisOrder\<close>, \<open>RedisTidy\<close>: what
    the server holds of one job and of all jobs, and the relation to the in-memory store.
    \<open>RedisVerbs\<close>, \<open>RedisEnqueueSim\<close>, \<open>RedisAdminSim\<close>, \<open>RedisClaimSim\<close>,
    \<open>RedisRecoverSim\<close>: one simulation per verb. \<open>Verbs\<close>: the calls as data, their answers, runs
    of them, and the locale \<open>refines_memory\<close>: a driver that keeps an invariant with the in-memory
    driver call by call answers alike along every run. \<open>RedisRuns\<close>, \<open>RedisProps\<close>: the two drivers
    give the same answers along every run of plain calls.
  \<^item> \<open>PgAgree\<close>, \<open>PgVerbs\<close>, \<open>PgAdminSim\<close>, \<open>PgClaimSim\<close>, \<open>PgRecoverSim\<close>, \<open>PgRuns\<close>,
    \<open>PgProps\<close>: the same for the Postgres driver, an interpretation of \<open>refines_memory\<close>.
    \<open>PgReads\<close>: listing and counting return the same under the collation C. \<open>PgSafety\<close>: of any tables,
    flows and retention included: what a claim takes when others hold rows, that a failed verb leaves no trace, what a deletion from the outbox removes.

  \<^bold>\<open>Bounds and fuel.\<close> Numbers are \<open>int\<close>: the program's numbers are milliseconds, durations,
  counters and priorities, exact in a double below \<open>2 ^ 53\<close>. Of the texts that \<open>Number\<close> reads, only
  decimal integers are modelled (the program prints no others; a caller's own cursor might be another).
  The factor of a backoff is a rational, floored where the Redis codec prints it, and the scripts' replies
  carry whole numbers without cjson's limit of 14 digits; the properties about Redis ask for integral
  factors. The time limit of a run is part of the handler a worker is given (\<open>he_run\<close>). Loops that the code bounds are recursion
  on that bound (eight retries of a store call, five draws of an id). Loops that end only because of
  the store (polling for a result, paging a listing, draining the outbox, reconciling a group) take
  fuel; the properties about them state that enough fuel returns, with the amount. The loops of the
  Redis scripts are partial functions, and the theorems about them say that they return. The counter
  that orders the waiting set is compared as text of 16 digits: the bound is \<open>10 ^ 16\<close> calls.

  \<^bold>\<open>Parameters.\<close> What is not in the repository or cannot be computed is an argument: the cron
  library, duration conversion, schema codecs, the user's handlers and id generators, random tokens,
  the clock, the effect runtime's decision when a fiber is interrupted, the Redis server, what the database
  throws at a transaction. Keys of
  different kinds of value are different key spaces there, as the scripts keep them.

  \<^bold>\<open>Not modelled.\<close> Of the Postgres driver: the startup probe of the tables, the LISTEN connection with
  its retry, secondary indexes, transactions that interleave (one runs at a time, except for the rows it
  skips). Of the Redis driver: the pub/sub connection. The forking of background loops, metrics, the
  conformance suite (tests), logging and tracing spans, the examples,
  the documentation site and the lint rules. The simulations of the drivers leave out dedupe keys,
  retention policies, fan-out and ids drawn by the store; those parts of the Redis driver are modelled
  and have no theorem, those of the Postgres driver are covered by \<open>PgSafety\<close>.
\<close>

end
